(* ===== verification/Prelude.thy ===== *)
theory Prelude
  imports Main "HOL-Library.Word"
begin

text \<open>
  Types and lemmas shared by every component.  Fixed-width C++ integers are machine words
  (\<open>u8\<close> .. \<open>u64\<close>, read with \<open>unat\<close>); signed 64-bit quantities whose arithmetic the code
  performs are mathematical integers together with the range test \<open>in_i64\<close>, so that a signed
  overflow (undefined in C++) is the value \<open>None\<close> of the checked operations.  Reading a
  \<open>std::vector\<close> out of range (undefined in C++) is the value \<open>None\<close> of \<open>vec_at\<close>.
  The last part is the little-endian byte encoding of unsigned values used by the file formats.
\<close>

section \<open>Machine integers\<close>

type_synonym u8 = "8 word"
type_synonym u16 = "16 word"
type_synonym u32 = "32 word"
type_synonym u64 = "64 word"
type_synonym bytes = "8 word list"

named_theorems result_simps \<open>projections of result values\<close>
named_theorems step_simps \<open>unfolding of the operations of a component\<close>

definition in_i64 :: "int \<Rightarrow> bool" where
  "in_i64 x \<longleftrightarrow> - (2 ^ 63) \<le> x \<and> x < 2 ^ 63"

definition i64_mul :: "int \<Rightarrow> int \<Rightarrow> int option" where
  "i64_mul a b = (if in_i64 (a * b) then Some (a * b) else None)"

definition i64_sub :: "int \<Rightarrow> int \<Rightarrow> int option" where
  "i64_sub a b = (if in_i64 (a - b) then Some (a - b) else None)"

definition i64_add :: "int \<Rightarrow> int \<Rightarrow> int option" where
  "i64_add a b = (if in_i64 (a + b) then Some (a + b) else None)"

lemma i64_mul_Some: "i64_mul a b = Some c \<longleftrightarrow> c = a * b \<and> in_i64 (a * b)"
  by (auto simp: i64_mul_def)

lemma i64_sub_Some: "i64_sub a b = Some c \<longleftrightarrow> c = a - b \<and> in_i64 (a - b)"
  by (auto simp: i64_sub_def)

lemma i64_add_Some: "i64_add a b = Some c \<longleftrightarrow> c = a + b \<and> in_i64 (a + b)"
  by (auto simp: i64_add_def)

lemma i64_in_range [simp]:
  "in_i64 (a * b) \<Longrightarrow> i64_mul a b = Some (a * b)"
  "in_i64 (a - b) \<Longrightarrow> i64_sub a b = Some (a - b)"
  "in_i64 (a + b) \<Longrightarrow> i64_add a b = Some (a + b)"
  by (simp_all add: i64_mul_def i64_sub_def i64_add_def)

lemma in_i64_between: "in_i64 lo \<Longrightarrow> in_i64 hi \<Longrightarrow> lo \<le> x \<Longrightarrow> x \<le> hi \<Longrightarrow> in_i64 x"
  by (auto simp: in_i64_def)

text \<open>C++ integer division and remainder truncate towards zero.\<close>

definition cpp_div :: "int \<Rightarrow> int \<Rightarrow> int" where
  "cpp_div a b = sgn a * sgn b * (\<bar>a\<bar> div \<bar>b\<bar>)"

definition cpp_rem :: "int \<Rightarrow> int \<Rightarrow> int" where
  "cpp_rem a b = a - b * cpp_div a b"

lemma cpp_div_nonneg: "0 \<le> a \<Longrightarrow> 0 < b \<Longrightarrow> cpp_div a b = a div b"
  by (cases "a = 0") (auto simp: cpp_div_def)

lemma cpp_rem_nonneg: "0 \<le> a \<Longrightarrow> 0 < b \<Longrightarrow> cpp_rem a b = a mod b"
  by (simp add: cpp_rem_def cpp_div_nonneg minus_mult_div_eq_mod)

section \<open>Outcomes of operations that observe their environment\<close>

text \<open>
  An operation that waits for a clock, a library or another thread is modelled over the finite
  list of what it observes.  \<open>Done v\<close>: it returned \<open>v\<close>.  \<open>Undefined\<close>: it reached undefined
  behaviour (a signed overflow).  \<open>Pending\<close>: the observations ended before it returned.
\<close>

datatype 'a outcome = Done 'a | Undefined | Pending

fun obind :: "'a outcome \<Rightarrow> ('a \<Rightarrow> 'b outcome) \<Rightarrow> 'b outcome" where
  "obind (Done v) f = f v"
| "obind Undefined f = Undefined"
| "obind Pending f = Pending"

definition of_option :: "'a option \<Rightarrow> 'a outcome" where
  "of_option x = (case x of None \<Rightarrow> Undefined | Some v \<Rightarrow> Done v)"

lemma of_option_simps [simp]: "of_option None = Undefined" "of_option (Some v) = Done v"
  by (simp_all add: of_option_def)

lemma obind_Done_iff: "obind x f = Done y \<longleftrightarrow> (\<exists>v. x = Done v \<and> f v = Done y)"
  by (cases x) auto

definition returns :: "'a outcome \<Rightarrow> bool" where
  "returns x \<longleftrightarrow> (\<exists>v. x = Done v)"

lemma returns_simps [simp]:
  "returns (Done v)" "\<not> returns Undefined" "\<not> returns Pending"
  "returns (of_option y) \<longleftrightarrow> y \<noteq> None"
  by (auto simp: returns_def of_option_def split: option.splits)

lemma returns_obind: "returns (obind x f) \<longleftrightarrow> (\<exists>v. x = Done v \<and> returns (f v))"
  by (cases x) auto

lemma returns_obindI: "returns x \<Longrightarrow> (\<And>v. x = Done v \<Longrightarrow> returns (f v)) \<Longrightarrow> returns (obind x f)"
  by (auto simp: returns_def obind_Done_iff)

lemma of_option_Done_iff [simp]: "of_option x = Done v \<longleftrightarrow> x = Some v"
  by (cases x) auto

section \<open>Calls that may throw\<close>

text \<open>What a call of a function that is not \<open>noexcept\<close> comes back with.\<close>

datatype cpp_exception = Bad_alloc | Other_exception

datatype 'a reply = Returned 'a | Threw cpp_exception

section \<open>Vectors\<close>

definition vec_at :: "'a list \<Rightarrow> nat \<Rightarrow> 'a option" where
  "vec_at xs i = (if i < length xs then Some (xs ! i) else None)"

lemma vec_at_Some [simp]: "vec_at xs i = Some x \<longleftrightarrow> i < length xs \<and> x = xs ! i"
  by (auto simp: vec_at_def)

lemma vec_at_None [simp]: "vec_at xs i = None \<longleftrightarrow> length xs \<le> i"
  by (auto simp: vec_at_def)

lemma nth_update_at: "j < length xs \<Longrightarrow> xs[i := x] ! j = (if i = j then x else xs ! j)"
  by (cases "i = j") auto

section \<open>Words and natural numbers\<close>

lemma unat_sub_no_wrap: "b \<le> a \<Longrightarrow> unat (a - b) = unat a - unat (b :: 'a::len word)"
  by (rule unat_sub)

lemma unat_add_bounded:
  "unat a + unat b < 2 ^ LENGTH('a) \<Longrightarrow> unat (a + b :: 'a::len word) = unat a + unat b"
  by (simp add: unat_word_ariths)

lemma unat_mult_bounded:
  "unat a * unat b < 2 ^ LENGTH('a) \<Longrightarrow> unat (a * b :: 'a::len word) = unat a * unat b"
  by (simp add: unat_word_ariths)

lemma unat_mult_u64: "unat a * unat b < 2 ^ 64 \<Longrightarrow> unat (a * b :: u64) = unat a * unat b"
  by (rule unat_mult_bounded) simp

lemma unat_add_u64: "unat a + unat b < 2 ^ 64 \<Longrightarrow> unat (a + b :: u64) = unat a + unat b"
  by (rule unat_add_bounded) simp

lemma unat_ucast: "unat (ucast (w :: 'a::len word) :: 'b::len word) = unat w mod 2 ^ LENGTH('b)"
  by (simp add: unsigned_ucast_eq take_bit_eq_mod)

lemma unat_lt_size: "unat (a :: 'a::len word) < 2 ^ LENGTH('a)"
  by (rule unsigned_less)

lemma unat_ucast_32_64 [simp]: "unat (ucast (a :: u32) :: u64) = unat a"
  using unat_lt_size [of a] by (simp add: unat_ucast)

lemma unat_succ_less:
  assumes "a < (b :: 'a::len word)"
  shows "unat (a + 1) = Suc (unat a)"
proof -
  have "unat a + 1 < 2 ^ LENGTH('a)"
    using assms unat_lt_size [of b] unfolding word_less_nat_alt by linarith
  then show ?thesis using unat_add_bounded [of a 1] by simp
qed

section \<open>Overflow guards by division\<close>

lemma quotient_check:
  fixes a b m :: u64
  assumes "0 < b"
  shows "\<not> m div b < a \<longleftrightarrow> unat a * unat b \<le> unat m"
proof -
  have "0 < unat b" using assms by (simp add: word_less_nat_alt)
  then show ?thesis by (simp add: word_less_nat_alt unat_div not_less less_eq_div_iff_mult_less_eq)
qed

lemma unat_minus_one: "unat (- 1 :: u64) = 2 ^ 64 - 1"
  by (simp add: unsigned_minus_1_eq_mask mask_eq_exp_minus_1)

lemma quotient_check_max:
  fixes a b :: u64
  assumes "0 < b"
  shows "\<not> - 1 div b < a \<longleftrightarrow> unat a * unat b < 2 ^ 64"
  using quotient_check [OF assms, of "- 1" a] by (auto simp: unat_minus_one)

section \<open>Little-endian bytes\<close>

text \<open>\<open>le_bytes n v\<close> is the memory image of an \<open>n\<close>-byte unsigned value on a
  little-endian host; \<open>le_value\<close> reads such an image back.\<close>

fun le_bytes :: "nat \<Rightarrow> nat \<Rightarrow> bytes" where
  "le_bytes 0 v = []"
| "le_bytes (Suc n) v = word_of_nat v # le_bytes n (v div 256)"

fun le_value :: "bytes \<Rightarrow> nat" where
  "le_value [] = 0"
| "le_value (b # bs) = unat b + 256 * le_value bs"

lemma length_le_bytes [simp]: "length (le_bytes n v) = n"
  by (induction n arbitrary: v) auto

lemma le_value_le_bytes: "le_value (le_bytes n v) = v mod 256 ^ n"
proof (induction n arbitrary: v)
  case 0
  then show ?case by simp
next
  case (Suc n)
  have "v mod 256 ^ Suc n = v mod 256 + 256 * (v div 256 mod 256 ^ n)"
    by (metis mod_mult2_eq add.commute power_Suc)
  then show ?case
    by (simp add: Suc.IH unat_of_nat)
qed

lemma le_value_bound: "le_value bs < 256 ^ length bs"
proof (induction bs)
  case Nil
  then show ?case by simp
next
  case (Cons b bs)
  have "unat b < 256" using unat_lt_size [of b] by simp
  with Cons show ?case by simp
qed

lemma le_bytes_le_value: "le_bytes (length bs) (le_value bs) = bs"
proof (induction bs)
  case Nil
  then show ?case by simp
next
  case (Cons b bs)
  have "unat b < 256" using unat_lt_size [of b] by simp
  moreover have "word_of_nat (unat b + 256 * le_value bs) = b"
    using \<open>unat b < 256\<close> by (simp add: word_unat_eq_iff unat_of_nat del: of_nat_add of_nat_mult)
  ultimately show ?case using Cons by simp
qed

end
