(* ===== verification/WseResult.thy ===== *)
theory WseResult
  imports Prelude
begin

text \<open>
  The result contract of \<open>api/wse/utility/wse_Result.h\<close>: a result carries a value or a
  non-empty error, a partial result carries both.  Reading the absent half throws
  \<open>ResultAccessError\<close>, which is the left summand here.  What the template assumes of its error
  type (\<open>ok()\<close> and an \<open>ok\<close> default value) is the locale \<open>error_value\<close>; every error class of the
  engine interprets it in its own theory.
\<close>

datatype ('a, 'e) Result = Success 'a | Failure 'e

type_synonym 'e Status = "(unit, 'e) Result"

datatype access_error = ResultAccessError string

abbreviation success_status :: "'e Status" where
  "success_status \<equiv> Success ()"

fun succeeded :: "('a, 'e) Result \<Rightarrow> bool" where
  "succeeded (Success v) = True"
| "succeeded (Failure e) = False"

text \<open>\<open>Result::failure\<close> refuses an error that says nothing failed.\<close>

definition failure :: "('e \<Rightarrow> bool) \<Rightarrow> 'e \<Rightarrow> access_error + ('a, 'e) Result" where
  "failure ok e =
     (if ok e then Inl (ResultAccessError ''Result::failure requires a non-empty error'')
      else Inr (Failure e))"

fun result_value :: "('a, 'e) Result \<Rightarrow> access_error + 'a" where
  "result_value (Success v) = Inr v"
| "result_value (Failure e) = Inl (ResultAccessError ''Result::value read on a failed result'')"

fun valueOr :: "('a, 'e) Result \<Rightarrow> 'a \<Rightarrow> 'a" where
  "valueOr (Success v) d = v"
| "valueOr (Failure e) d = d"

fun result_error :: "('a, 'e) Result \<Rightarrow> access_error + 'e" where
  "result_error (Success v) = Inl (ResultAccessError ''Result::error read on a successful result'')"
| "result_error (Failure e) = Inr e"

record ('a, 'e) PartialResult =
  pr_value :: 'a
  pr_error :: 'e

definition partial_success :: "'e \<Rightarrow> 'a \<Rightarrow> ('a, 'e) PartialResult" where
  "partial_success none v = \<lparr>pr_value = v, pr_error = none\<rparr>"

definition partial_succeeded :: "('e \<Rightarrow> bool) \<Rightarrow> ('a, 'e) PartialResult \<Rightarrow> bool" where
  "partial_succeeded ok r = ok (pr_error r)"

lemma status_not_success [simp]: "s \<noteq> Success () \<longleftrightarrow> (\<exists>e. s = Failure e)"
  by (cases s) auto

lemma succeeded_iff: "succeeded r \<longleftrightarrow> (\<exists>v. r = Success v)"
  by (cases r) auto

lemma not_succeeded_iff: "\<not> succeeded r \<longleftrightarrow> (\<exists>e. r = Failure e)"
  by (cases r) auto

lemma result_error_failure: "\<not> succeeded r \<Longrightarrow> \<exists>e. result_error r = Inr e"
  by (cases r) auto

section \<open>What the templates need of an error type\<close>

locale error_value =
  fixes ok :: "'e \<Rightarrow> bool"
    and none :: 'e
  assumes ok_none: "ok none"
begin

text \<open>A result is well formed when its error, if it has one, says that something failed.\<close>

definition wf_result :: "('a, 'e) Result \<Rightarrow> bool" where
  "wf_result r \<longleftrightarrow> (case r of Success v \<Rightarrow> True | Failure e \<Rightarrow> \<not> ok e)"

lemma wf_Success [simp]: "wf_result (Success v)"
  by (simp add: wf_result_def)

lemma wf_Failure [simp]: "wf_result (Failure e) \<longleftrightarrow> \<not> ok e"
  by (simp add: wf_result_def)

lemma failure_wf: "failure ok e = Inr r \<Longrightarrow> wf_result r \<and> \<not> succeeded r"
  by (auto simp: failure_def split: if_splits)

lemma failure_none: "failure ok none = Inl (ResultAccessError ''Result::failure requires a non-empty error'')"
  by (simp add: failure_def ok_none)

lemma partial_success_succeeds: "partial_succeeded ok (partial_success none v)"
  by (simp add: partial_succeeded_def partial_success_def ok_none)

end

end
