(* ===== verification/GefFile.thy ===== *)
theory GefFile
  imports WseResult
begin

text \<open>
  What the binary and CSV controllers share: the error value (\<open>core/gef/error/GefError.cpp\<close>), the
  read budgets (\<open>api/gef/format/ReadLimits.h\<close>) and the staged file replacement of
  \<open>core/gef/FileOperations.h\<close>, over an explicit file system.  What the operating system does is an
  argument: whether a stream opens, how many bytes the device accepts, whether flush, close,
  directory creation, rename and clean-up succeed.
\<close>

section \<open>Errors and limits\<close>

datatype eGefErrorCategory = GCat_None | GCat_Io | GCat_Format | GCat_Resource

datatype eGefErrorCode =
    G_None | G_FileOpenFailed | G_ReadFailed | G_MalformedData | G_NoData | G_WriteFailed
  | G_LimitExceeded

record GefError =
  ge_category :: eGefErrorCategory
  ge_code :: eGefErrorCode
  ge_message :: string
  ge_native_code :: int

definition GefError_none :: GefError where
  "GefError_none = \<lparr>ge_category = GCat_None, ge_code = G_None, ge_message = [], ge_native_code = 0\<rparr>"

definition GefError_make :: "eGefErrorCategory \<Rightarrow> eGefErrorCode \<Rightarrow> string \<Rightarrow> int \<Rightarrow> GefError" where
  "GefError_make category code message native =
     \<lparr>ge_category = category, ge_code = code, ge_message = message, ge_native_code = native\<rparr>"

definition ge_ok :: "GefError \<Rightarrow> bool" where
  "ge_ok e \<longleftrightarrow> ge_category e = GCat_None"

type_synonym GefStatus = "GefError Status"

interpretation gef_error: error_value ge_ok GefError_none
  by unfold_locales (simp add: ge_ok_def GefError_none_def)

lemma GefError_make_sel [simp]:
  "ge_category (GefError_make a b m n) = a"
  "ge_code (GefError_make a b m n) = b"
  by (simp_all add: GefError_make_def)

definition limitFailure :: GefError where
  "limitFailure = GefError_make GCat_Resource G_LimitExceeded
     ''the configured GEF read budget was exceeded'' 0"

definition writeFailure :: GefError where
  "writeFailure = GefError_make GCat_Io G_WriteFailed
     ''the file write, flush, close or replacement failed'' 0"

definition readFailure :: "string \<Rightarrow> GefError" where
  "readFailure m = GefError_make GCat_Io G_ReadFailed m 0"

definition openFailure :: "string \<Rightarrow> GefError" where
  "openFailure m = GefError_make GCat_Io G_FileOpenFailed m 0"

record ReadLimits =
  max_input_bytes :: u64
  max_blocks :: u64
  max_elements :: u64
  max_rows :: u64
  max_cells :: u64
  max_cell_bytes :: u64

definition ReadLimits_default :: ReadLimits where
  "ReadLimits_default =
     \<lparr>max_input_bytes = 64 * 1024 * 1024, max_blocks = 1024 * 1024,
      max_elements = 4 * 1024 * 1024, max_rows = 1024 * 1024, max_cells = 4 * 1024 * 1024,
      max_cell_bytes = 1024 * 1024\<rparr>"

definition ReadLimits_unlimited :: ReadLimits where
  "ReadLimits_unlimited =
     \<lparr>max_input_bytes = - 1, max_blocks = - 1, max_elements = - 1, max_rows = - 1,
      max_cells = - 1, max_cell_bytes = - 1\<rparr>"

section \<open>Streams\<close>

text \<open>An input stream: whether it opens, the bytes it delivers until \<open>peek\<close> answers \<open>EOF\<close>, whether
  that end is a clean end of file, and whether closing succeeds.\<close>

record ifstream =
  is_open :: bool
  is_bytes :: bytes
  is_clean_eof :: bool
  is_close_ok :: bool

definition good_stream :: "bytes \<Rightarrow> ifstream" where
  "good_stream bs = \<lparr>is_open = True, is_bytes = bs, is_clean_eof = True, is_close_ok = True\<rparr>"

type_synonym path = string

record file_system =
  fs_files :: "path \<rightharpoonup> bytes"
  fs_dirs :: "path set"

text \<open>An output stream: whether it opens, how many bytes the device takes, and whether the final
  flush and close succeed.\<close>

record ofstream =
  os_open :: bool
  os_accepts :: nat
  os_flush_ok :: bool
  os_close_ok :: bool

definition finishWrite :: "ofstream \<Rightarrow> bytes \<Rightarrow> GefStatus" where
  "finishWrite os out =
     (let flushed = (length out \<le> os_accepts os \<and> os_flush_ok os)
      in if flushed \<and> os_close_ok os then success_status else Failure writeFailure)"

text \<open>Opening for truncation or appending, writing \<open>out\<close> and finishing.\<close>

definition write_stream ::
    "ofstream \<Rightarrow> bool \<Rightarrow> string \<Rightarrow> bytes \<Rightarrow> path \<Rightarrow> file_system \<Rightarrow> GefStatus \<times> file_system" where
  "write_stream os app open_message out p fs =
     (if \<not> os_open os then (Failure (openFailure open_message), fs)
      else
        let old = (if app then (case fs_files fs p of None \<Rightarrow> [] | Some b \<Rightarrow> b) else [])
        in (finishWrite os out,
            fs\<lparr>fs_files := (fs_files fs)(p \<mapsto> old @ take (os_accepts os) out)\<rparr>))"

section \<open>Atomic replacement\<close>

datatype mkdir_outcome = Dir_created | Dir_exists | Dir_error

text \<open>The environment of one replacement: the candidate directory names and the outcome of
  creating each, the outcome of the rename, and whether the two best-effort removals work.\<close>

record atomic_env =
  at_candidate :: "nat \<Rightarrow> path"
  at_mkdir :: "nat \<Rightarrow> mkdir_outcome"
  at_rename_ok :: bool
  at_remove_file_ok :: bool
  at_remove_dir_ok :: bool

definition staged_file :: "path \<Rightarrow> path" where
  "staged_file d = d @ ''/data''"

text \<open>Up to 64 attempts; \<open>None\<close> means that no directory could be created.\<close>

fun make_directory :: "atomic_env \<Rightarrow> nat \<Rightarrow> nat \<Rightarrow> file_system \<Rightarrow> (path \<times> file_system) option" where
  "make_directory env 0 i fs = None"
| "make_directory env (Suc n) i fs =
     (case at_mkdir env i of
        Dir_created \<Rightarrow> Some (at_candidate env i, fs\<lparr>fs_dirs := insert (at_candidate env i) (fs_dirs fs)\<rparr>)
      | Dir_error \<Rightarrow> None
      | Dir_exists \<Rightarrow> make_directory env n (Suc i) fs)"

text \<open>The destructor of the staged file removes the file, then its directory.\<close>

definition staged_cleanup :: "atomic_env \<Rightarrow> path \<Rightarrow> file_system \<Rightarrow> file_system" where
  "staged_cleanup env d fs =
     (let fs = (if at_remove_file_ok env then fs\<lparr>fs_files := (fs_files fs)(staged_file d := None)\<rparr> else fs)
      in if at_remove_dir_ok env then fs\<lparr>fs_dirs := fs_dirs fs - {d}\<rparr> else fs)"

definition fs_rename :: "path \<Rightarrow> path \<Rightarrow> file_system \<Rightarrow> file_system" where
  "fs_rename src dst fs =
     fs\<lparr>fs_files := (fs_files fs)(dst := fs_files fs src, src := None)\<rparr>"

definition atomicWrite ::
    "atomic_env \<Rightarrow> (path \<Rightarrow> file_system \<Rightarrow> GefStatus \<times> file_system) \<Rightarrow> path \<Rightarrow> file_system
     \<Rightarrow> GefStatus \<times> file_system" where
  "atomicWrite env writer destination fs =
     (case make_directory env 64 0 fs of
        None \<Rightarrow> (Failure writeFailure, fs)
      | Some (d, fs1) \<Rightarrow>
          let (status, fs2) = writer (staged_file d) fs1 in
          if \<not> succeeded status then (status, staged_cleanup env d fs2)
          else if \<not> at_rename_ok env then (Failure writeFailure, staged_cleanup env d fs2)
          else (success_status, staged_cleanup env d (fs_rename (staged_file d) destination fs2)))"

lemma make_directory_files:
  "make_directory env n i fs = Some (d, fs') \<Longrightarrow>
   fs_files fs' = fs_files fs \<and> fs_dirs fs' = insert d (fs_dirs fs) \<and> (\<exists>j. d = at_candidate env j)"
  by (induction n arbitrary: i) (auto split: mkdir_outcome.splits)

lemma staged_cleanup_files:
  "p \<noteq> staged_file d \<Longrightarrow> fs_files (staged_cleanup env d fs) p = fs_files fs p"
  by (simp add: staged_cleanup_def Let_def)

section \<open>What atomic replacement needs of its writer\<close>

text \<open>\<open>content\<close> is what a successful writer leaves in the file it was given; \<open>emit\<close> touches no
  other file and no directory.\<close>

locale staged_writer =
  fixes emit :: "path \<Rightarrow> file_system \<Rightarrow> GefStatus \<times> file_system"
    and content :: bytes
  assumes write_frame:
    "q \<noteq> p \<Longrightarrow> fs_files (snd (emit p fs)) q = fs_files fs q"
    and write_success:
    "fs_files fs p = None \<Longrightarrow> succeeded (fst (emit p fs)) \<Longrightarrow> fs_files (snd (emit p fs)) p = Some content"
begin

text \<open>Either the replacement succeeded and the destination holds exactly the content, or it failed
  and every file but the staging file is what it was.\<close>

lemma atomicWrite_all_or_nothing:
  assumes "\<And>i. staged_file (at_candidate env i) \<noteq> dst"
    and "\<And>i. fs_files fs (staged_file (at_candidate env i)) = None"
    and "atomicWrite env emit dst fs = (status, fs')"
  shows "fs_files fs' dst = (if succeeded status then Some content else fs_files fs dst)
    \<and> (\<forall>q. q \<noteq> dst \<and> (\<forall>i. q \<noteq> staged_file (at_candidate env i)) \<longrightarrow> fs_files fs' q = fs_files fs q)"
proof (cases "make_directory env 64 0 fs")
  case None
  with assms(3) show ?thesis by (auto simp: atomicWrite_def)
next
  case (Some x)
  obtain d fs1 where x: "x = (d, fs1)" by (cases x)
  obtain st fs2 where w: "emit (staged_file d) fs1 = (st, fs2)"
    by (cases "emit (staged_file d) fs1")
  from make_directory_files Some x obtain j where same: "fs_files fs1 = fs_files fs"
    and d: "d = at_candidate env j" by blast
  have frame: "q \<noteq> staged_file d \<Longrightarrow> fs_files fs2 q = fs_files fs q" for q
    using write_frame [of q "staged_file d" fs1] w same by simp
  have stored: "succeeded st \<Longrightarrow> fs_files fs2 (staged_file d) = Some content"
    using write_success [of fs1 "staged_file d"] w same assms(2) [of j] d by simp
  have ne: "dst \<noteq> staged_file d" using assms(1) [of j] d by metis
  show ?thesis
    using assms(3) Some x w frame stored ne d
    by (auto simp: atomicWrite_def Let_def staged_cleanup_files fs_rename_def split: if_splits)
qed

end

text \<open>Writing through a truncating stream is such a writer.\<close>

lemma finishWrite_succeeded:
  "succeeded (finishWrite os out) \<Longrightarrow> length out \<le> os_accepts os"
  by (simp add: finishWrite_def Let_def split: if_splits)

interpretation stream_writer: staged_writer "write_stream os False m out" out for os m out
  by unfold_locales (auto simp: write_stream_def Let_def dest: finishWrite_succeeded split: if_splits)

end
