(* ===== verification/GefBin.thy ===== *)
theory GefBin
  imports GefFile
begin

text \<open>
  The typed binary block store (\<open>core/gef/bin/binController.cpp\<close>): seven columns of indexed values,
  the order list and the next block index; appending blocks, looking a block up, and reading and
  writing the little-endian file format on a host of either byte order.  Signed and floating-point
  values are their bit patterns, which is what the code copies.  The abstract view of a controller
  is its list of blocks; \<open>of_blocks\<close> gives the controller that holds a list of blocks.
\<close>

section \<open>Data\<close>

datatype eCategory =
    Cat_None | Cat_Enum | Cat_Integer08 | Cat_Integer16 | Cat_Integer32 | Cat_Integer64
  | Cat_Float32 | Cat_Float64 | Cat_unknown u8

fun category_byte :: "eCategory \<Rightarrow> u8" where
  "category_byte Cat_None = 0"
| "category_byte Cat_Enum = 1"
| "category_byte Cat_Integer08 = 2"
| "category_byte Cat_Integer16 = 3"
| "category_byte Cat_Integer32 = 4"
| "category_byte Cat_Integer64 = 5"
| "category_byte Cat_Float32 = 6"
| "category_byte Cat_Float64 = 7"
| "category_byte (Cat_unknown b) = b"

definition byte_category :: "u8 \<Rightarrow> eCategory" where
  "byte_category b =
     (if b = 0 then Cat_None else if b = 1 then Cat_Enum else if b = 2 then Cat_Integer08
      else if b = 3 then Cat_Integer16 else if b = 4 then Cat_Integer32
      else if b = 5 then Cat_Integer64 else if b = 6 then Cat_Float32
      else if b = 7 then Cat_Float64 else Cat_unknown b)"

definition widths :: "nat list" where
  "widths = [0, 1, 1, 2, 4, 8, 4, 8]"

record BINController =
  m_uint08_contents :: "(u64 \<times> u8) list"
  m_int08_contents :: "(u64 \<times> u8) list"
  m_int16_contents :: "(u64 \<times> u16) list"
  m_int32_contents :: "(u64 \<times> u32) list"
  m_int64_contents :: "(u64 \<times> u64) list"
  m_float32_contents :: "(u64 \<times> u32) list"
  m_float64_contents :: "(u64 \<times> u64) list"
  m_header_next_index :: u64
  m_order_list :: "(eCategory \<times> u64) list"

definition BINController_empty :: BINController where
  "BINController_empty =
     \<lparr>m_uint08_contents = [], m_int08_contents = [], m_int16_contents = [], m_int32_contents = [],
      m_int64_contents = [], m_float32_contents = [], m_float64_contents = [],
      m_header_next_index = 0, m_order_list = []\<rparr>"

definition last_index :: "BINController \<Rightarrow> string + u64" where
  "last_index c =
     (if m_header_next_index c = 0
      then Inl ''last_index() requires at least one stored block; check index_num() first''
      else Inr (m_header_next_index c - 1))"

text \<open>A block of values of one kind, as the overloads of \<open>setContents\<close> take it.\<close>

datatype bin_block =
    B_uint08 "u8 list" | B_int08 "u8 list" | B_int16 "u16 list" | B_int32 "u32 list"
  | B_int64 "u64 list" | B_float32 "u32 list" | B_float64 "u64 list"

section \<open>Looking a block up\<close>

text \<open>The scan of one column: whether the index was met, and its values up to the first entry of
  another index after that.\<close>

fun scan_column :: "u64 \<Rightarrow> bool \<Rightarrow> (u64 \<times> 'a) list \<Rightarrow> bool \<times> 'a list" where
  "scan_column idx detected [] = (detected, [])"
| "scan_column idx detected ((i, v) # xs) =
     (if i = idx then (True, v # snd (scan_column idx True xs))
      else if detected then (True, [])
      else scan_column idx False xs)"

text \<open>The value kinds the template casts from; \<open>cast\<close> is the \<open>static_cast\<close> to the requested type.\<close>

datatype bin_value =
    V_uint08 u8 | V_int08 u8 | V_int16 u16 | V_int32 u32 | V_int64 u64 | V_float32 u32 | V_float64 u64

definition contents :: "(bin_value \<Rightarrow> 't) \<Rightarrow> u64 \<Rightarrow> BINController \<Rightarrow> 't list" where
  "contents cast idx c =
     (let (found, vs) = scan_column idx False (m_uint08_contents c) in
      if found then map (cast \<circ> V_uint08) vs else
      let (found, vs) = scan_column idx False (m_int08_contents c) in
      if found then map (cast \<circ> V_int08) vs else
      let (found, vs) = scan_column idx False (m_int16_contents c) in
      if found then map (cast \<circ> V_int16) vs else
      let (found, vs) = scan_column idx False (m_int32_contents c) in
      if found then map (cast \<circ> V_int32) vs else
      let (found, vs) = scan_column idx False (m_int64_contents c) in
      if found then map (cast \<circ> V_int64) vs else
      let (found, vs) = scan_column idx False (m_float32_contents c) in
      if found then map (cast \<circ> V_float32) vs else
      let (found, vs) = scan_column idx False (m_float64_contents c) in
      map (cast \<circ> V_float64) vs)"

section \<open>Appending a block\<close>

text \<open>The capacity limits of the two vectors (\<open>max_size()\<close>) come from the standard library.\<close>

record vector_limits =
  vl_values :: nat
  vl_order :: nat

definition appendBlock ::
    "vector_limits \<Rightarrow> (u64 \<times> 'a) list \<Rightarrow> (eCategory \<times> u64) list \<Rightarrow> u64 \<Rightarrow> 'a list \<Rightarrow> eCategory
     \<Rightarrow> string + ((u64 \<times> 'a) list \<times> (eCategory \<times> u64) list \<times> u64)" where
  "appendBlock vl values order index new category =
     (if index = - 1 \<or> vl_values vl - length values < length new \<or> length order = vl_order vl
      then Inl ''the BIN block store is full''
      else Inr (values @ map (Pair index) new, order @ [(category, word_of_nat (length new))], index + 1))"

fun setContents :: "vector_limits \<Rightarrow> bin_block \<Rightarrow> BINController \<Rightarrow> string + BINController" where
  "setContents vl (B_uint08 vs) c =
     map_sum id (\<lambda>(xs, o', i). c\<lparr>m_uint08_contents := xs, m_order_list := o', m_header_next_index := i\<rparr>)
       (appendBlock vl (m_uint08_contents c) (m_order_list c) (m_header_next_index c) vs Cat_Enum)"
| "setContents vl (B_int08 vs) c =
     map_sum id (\<lambda>(xs, o', i). c\<lparr>m_int08_contents := xs, m_order_list := o', m_header_next_index := i\<rparr>)
       (appendBlock vl (m_int08_contents c) (m_order_list c) (m_header_next_index c) vs Cat_Integer08)"
| "setContents vl (B_int16 vs) c =
     map_sum id (\<lambda>(xs, o', i). c\<lparr>m_int16_contents := xs, m_order_list := o', m_header_next_index := i\<rparr>)
       (appendBlock vl (m_int16_contents c) (m_order_list c) (m_header_next_index c) vs Cat_Integer16)"
| "setContents vl (B_int32 vs) c =
     map_sum id (\<lambda>(xs, o', i). c\<lparr>m_int32_contents := xs, m_order_list := o', m_header_next_index := i\<rparr>)
       (appendBlock vl (m_int32_contents c) (m_order_list c) (m_header_next_index c) vs Cat_Integer32)"
| "setContents vl (B_int64 vs) c =
     map_sum id (\<lambda>(xs, o', i). c\<lparr>m_int64_contents := xs, m_order_list := o', m_header_next_index := i\<rparr>)
       (appendBlock vl (m_int64_contents c) (m_order_list c) (m_header_next_index c) vs Cat_Integer64)"
| "setContents vl (B_float32 vs) c =
     map_sum id (\<lambda>(xs, o', i). c\<lparr>m_float32_contents := xs, m_order_list := o', m_header_next_index := i\<rparr>)
       (appendBlock vl (m_float32_contents c) (m_order_list c) (m_header_next_index c) vs Cat_Float32)"
| "setContents vl (B_float64 vs) c =
     map_sum id (\<lambda>(xs, o', i). c\<lparr>m_float64_contents := xs, m_order_list := o', m_header_next_index := i\<rparr>)
       (appendBlock vl (m_float64_contents c) (m_order_list c) (m_header_next_index c) vs Cat_Float64)"

section \<open>Bytes on a host of either byte order\<close>

text \<open>\<open>memcpy\<close> of a value to bytes and back on a big-endian (\<open>be\<close>) or little-endian host, and the
  code's reversal around it.\<close>

definition host_bytes :: "bool \<Rightarrow> nat \<Rightarrow> 'a::len word \<Rightarrow> bytes" where
  "host_bytes be w v = (if be then rev (le_bytes w (unat v)) else le_bytes w (unat v))"

definition host_value :: "bool \<Rightarrow> bytes \<Rightarrow> 'a::len word" where
  "host_value be bs = word_of_nat (le_value (if be then rev bs else bs))"

definition write_value :: "bool \<Rightarrow> nat \<Rightarrow> 'a::len word \<Rightarrow> bytes" where
  "write_value be w v = (let byte = host_bytes be w v in if be then rev byte else byte)"

definition read_value :: "bool \<Rightarrow> bytes \<Rightarrow> 'a::len word" where
  "read_value be bs = host_value be (if be then rev bs else bs)"

section \<open>Reading\<close>

text \<open>Reading \<open>num\<close> values of \<open>w\<close> bytes; \<open>None\<close> when the stream ends inside one.  \<open>dec\<close> makes a value of
  its bytes.\<close>

fun read_values :: "nat \<Rightarrow> (bytes \<Rightarrow> 'v) \<Rightarrow> nat \<Rightarrow> bytes \<Rightarrow> ('v list \<times> bytes) option" where
  "read_values w dec 0 rest = Some ([], rest)"
| "read_values w dec (Suc n) rest =
     (if length rest < w then None
      else map_option (\<lambda>(vs, r). (dec (take w rest) # vs, r)) (read_values w dec n (drop w rest)))"

definition read_column ::
    "nat \<Rightarrow> (bytes \<Rightarrow> 'v) \<Rightarrow> nat \<Rightarrow> bytes \<Rightarrow> u64 \<Rightarrow> ((u64 \<times> 'v) list \<times> bytes) option" where
  "read_column w dec n rest header_id = map_option (map_prod (map (Pair header_id)) id) (read_values w dec n rest)"

fun read_block_values ::
    "bool \<Rightarrow> eCategory \<Rightarrow> nat \<Rightarrow> u64 \<Rightarrow> BINController \<Rightarrow> bytes \<Rightarrow> GefError + (BINController \<times> bytes)" where
  "read_block_values be Cat_Enum n header_id staged rest =
     (case read_column 1 (host_value be) n rest header_id of
        None \<Rightarrow> Inl (readFailure ''a binary block value cannot be read'')
      | Some (vs, rest') \<Rightarrow> Inr (staged\<lparr>m_uint08_contents := m_uint08_contents staged @ vs\<rparr>, rest'))"
| "read_block_values be Cat_Integer08 n header_id staged rest =
     (case read_column 1 (host_value be) n rest header_id of
        None \<Rightarrow> Inl (readFailure ''a binary block value cannot be read'')
      | Some (vs, rest') \<Rightarrow> Inr (staged\<lparr>m_int08_contents := m_int08_contents staged @ vs\<rparr>, rest'))"
| "read_block_values be Cat_Integer16 n header_id staged rest =
     (case read_column 2 (read_value be) n rest header_id of
        None \<Rightarrow> Inl (readFailure ''a binary block value cannot be read'')
      | Some (vs, rest') \<Rightarrow> Inr (staged\<lparr>m_int16_contents := m_int16_contents staged @ vs\<rparr>, rest'))"
| "read_block_values be Cat_Integer32 n header_id staged rest =
     (case read_column 4 (read_value be) n rest header_id of
        None \<Rightarrow> Inl (readFailure ''a binary block value cannot be read'')
      | Some (vs, rest') \<Rightarrow> Inr (staged\<lparr>m_int32_contents := m_int32_contents staged @ vs\<rparr>, rest'))"
| "read_block_values be Cat_Integer64 n header_id staged rest =
     (case read_column 8 (read_value be) n rest header_id of
        None \<Rightarrow> Inl (readFailure ''a binary block value cannot be read'')
      | Some (vs, rest') \<Rightarrow> Inr (staged\<lparr>m_int64_contents := m_int64_contents staged @ vs\<rparr>, rest'))"
| "read_block_values be Cat_Float32 n header_id staged rest =
     (case read_column 4 (read_value be) n rest header_id of
        None \<Rightarrow> Inl (readFailure ''a binary block value cannot be read'')
      | Some (vs, rest') \<Rightarrow> Inr (staged\<lparr>m_float32_contents := m_float32_contents staged @ vs\<rparr>, rest'))"
| "read_block_values be Cat_Float64 n header_id staged rest =
     (case read_column 8 (read_value be) n rest header_id of
        None \<Rightarrow> Inl (readFailure ''a binary block value cannot be read'')
      | Some (vs, rest') \<Rightarrow> Inr (staged\<lparr>m_float64_contents := m_float64_contents staged @ vs\<rparr>, rest'))"
| "read_block_values be Cat_None n header_id staged rest =
     Inl (GefError_make GCat_Format G_MalformedData ''the binary block category is unknown'' 0)"
| "read_block_values be (Cat_unknown b) n header_id staged rest =
     Inl (GefError_make GCat_Format G_MalformedData ''the binary block category is unknown'' 0)"

text \<open>The header of a block: its category byte, its element count, and the budget counters after
  it (\<open>input_bytes\<close>, \<open>elements\<close>).\<close>

definition read_block_header ::
    "bool \<Rightarrow> ReadLimits \<Rightarrow> u64 \<Rightarrow> u64 \<Rightarrow> u64 \<Rightarrow> bytes
     \<Rightarrow> GefError + (eCategory \<times> u64 \<times> u64 \<times> u64 \<times> bytes)" where
  "read_block_header be limits header_id input_bytes elements rest =
     (if max_blocks limits \<le> header_id \<or> header_id = - 1 \<or> max_input_bytes limits - input_bytes < 9
      then Inl limitFailure
      else case rest of
        [] \<Rightarrow> Inl (readFailure ''the binary block type cannot be read'')
      | type # r1 \<Rightarrow>
          if length r1 < 8 then Inl (readFailure ''the binary block element count cannot be read'')
          else
            let num = (read_value be (take 8 r1) :: u64);
                r2 = drop 8 r1
            in if type = 0 \<or> length widths \<le> unat type
               then Inl (GefError_make GCat_Format G_MalformedData ''the binary block category is unknown'' 0)
               else
                 let input_bytes = input_bytes + 9;
                     width = (word_of_nat (widths ! unat type) :: u64)
                 in if max_elements limits - elements < num
                       \<or> (max_input_bytes limits - input_bytes) div width < num
                    then Inl limitFailure
                    else Inr (byte_category type, num, input_bytes + num * width, elements + num, r2))"

lemma read_block_header_rest:
  "read_block_header be limits h i e rest = Inr (cat, num, i', e', r2) \<Longrightarrow> length r2 + 9 = length rest"
  by (auto simp: read_block_header_def Let_def split: if_splits list.splits)

lemma read_values_rest: "read_values w dec n rest = Some (vs, r) \<Longrightarrow> length r \<le> length rest"
  by (induction n arbitrary: rest vs) (force split: if_splits)+

lemma read_block_values_rest:
  "read_block_values be cat n h st rest = Inr (st', r) \<Longrightarrow> length r \<le> length rest"
  by (cases cat) (auto simp: read_column_def dest: read_values_rest split: option.splits)

text \<open>The loop \<open>while (file.peek() != EOF)\<close>, yielding the staged controller and its block count.\<close>

function read_blocks ::
    "bool \<Rightarrow> ReadLimits \<Rightarrow> u64 \<Rightarrow> u64 \<Rightarrow> u64 \<Rightarrow> BINController \<Rightarrow> bytes \<Rightarrow> GefError + (u64 \<times> BINController)" where
  "read_blocks be limits header_id input_bytes elements staged rest =
     (if rest = [] then Inr (header_id, staged)
      else case read_block_header be limits header_id input_bytes elements rest of
        Inl e \<Rightarrow> Inl e
      | Inr (cat, num, input_bytes', elements', r2) \<Rightarrow>
          (case read_block_values be cat (unat num) header_id staged r2 of
             Inl e \<Rightarrow> Inl e
           | Inr (staged', r3) \<Rightarrow>
               read_blocks be limits (header_id + 1) input_bytes' elements'
                 (staged'\<lparr>m_order_list := m_order_list staged' @ [(cat, num)]\<rparr>) r3))"
  by pat_completeness auto
termination
  by (relation "measure (\<lambda>(be, l, h, i, e, s, rest). length rest)")
     (auto dest!: read_block_header_rest read_block_values_rest)

declare read_blocks.simps [simp del]

definition readWithLimits ::
    "bool \<Rightarrow> ReadLimits \<Rightarrow> ifstream \<Rightarrow> BINController \<Rightarrow> GefStatus \<times> BINController" where
  "readWithLimits be limits file c =
     (if \<not> is_open file then (Failure (openFailure ''the binary file cannot be opened''), c)
      else case read_blocks be limits 0 0 0 BINController_empty (is_bytes file) of
        Inl e \<Rightarrow> (Failure e, c)
      | Inr (header_id, staged) \<Rightarrow>
          if \<not> is_clean_eof file then (Failure (readFailure ''the binary stream failed''), c)
          else if \<not> is_close_ok file
          then (Failure (readFailure ''the binary stream cannot be closed''), c)
          else (success_status, staged\<lparr>m_header_next_index := header_id\<rparr>))"

definition bin_read where
  "bin_read be file c = readWithLimits be ReadLimits_unlimited file c"

section \<open>Writing\<close>

text \<open>Why the bytes of a controller may not exist: an order entry of unknown category throws, a
  value outside its column is undefined behaviour.\<close>

datatype bin_write_fault = Unknown_category | Value_out_of_range

text \<open>The seven \<open>next_index\<close> counters.\<close>

record next_indexes =
  ni_uint08 :: nat
  ni_int08 :: nat
  ni_int16 :: nat
  ni_int32 :: nat
  ni_int64 :: nat
  ni_float32 :: nat
  ni_float64 :: nat

definition next_indexes_zero :: next_indexes where
  "next_indexes_zero =
     \<lparr>ni_uint08 = 0, ni_int08 = 0, ni_int16 = 0, ni_int32 = 0, ni_int64 = 0, ni_float32 = 0, ni_float64 = 0\<rparr>"

text \<open>The loop over \<open>count\<close> entries of a column from position \<open>i\<close>.\<close>

fun write_values :: "bool \<Rightarrow> nat \<Rightarrow> (u64 \<times> 'a::len word) list \<Rightarrow> nat \<Rightarrow> nat \<Rightarrow> bytes option" where
  "write_values be w column i 0 = Some []"
| "write_values be w column i (Suc count) =
     (case vec_at column i of
        None \<Rightarrow> None
      | Some x \<Rightarrow> map_option ((@) (write_value be w (snd x))) (write_values be w column (Suc i) count))"

fun write_block ::
    "bool \<Rightarrow> BINController \<Rightarrow> next_indexes \<Rightarrow> eCategory \<Rightarrow> nat \<Rightarrow> bin_write_fault + (bytes \<times> next_indexes)" where
  "write_block be c ni Cat_Enum n =
     (case write_values be 1 (m_uint08_contents c) (ni_uint08 ni) n of None \<Rightarrow> Inl Value_out_of_range
      | Some bs \<Rightarrow> Inr (bs, ni\<lparr>ni_uint08 := ni_uint08 ni + n\<rparr>))"
| "write_block be c ni Cat_Integer08 n =
     (case write_values be 1 (m_int08_contents c) (ni_int08 ni) n of None \<Rightarrow> Inl Value_out_of_range
      | Some bs \<Rightarrow> Inr (bs, ni\<lparr>ni_int08 := ni_int08 ni + n\<rparr>))"
| "write_block be c ni Cat_Integer16 n =
     (case write_values be 2 (m_int16_contents c) (ni_int16 ni) n of None \<Rightarrow> Inl Value_out_of_range
      | Some bs \<Rightarrow> Inr (bs, ni\<lparr>ni_int16 := ni_int16 ni + n\<rparr>))"
| "write_block be c ni Cat_Integer32 n =
     (case write_values be 4 (m_int32_contents c) (ni_int32 ni) n of None \<Rightarrow> Inl Value_out_of_range
      | Some bs \<Rightarrow> Inr (bs, ni\<lparr>ni_int32 := ni_int32 ni + n\<rparr>))"
| "write_block be c ni Cat_Integer64 n =
     (case write_values be 8 (m_int64_contents c) (ni_int64 ni) n of None \<Rightarrow> Inl Value_out_of_range
      | Some bs \<Rightarrow> Inr (bs, ni\<lparr>ni_int64 := ni_int64 ni + n\<rparr>))"
| "write_block be c ni Cat_Float32 n =
     (case write_values be 4 (m_float32_contents c) (ni_float32 ni) n of None \<Rightarrow> Inl Value_out_of_range
      | Some bs \<Rightarrow> Inr (bs, ni\<lparr>ni_float32 := ni_float32 ni + n\<rparr>))"
| "write_block be c ni Cat_Float64 n =
     (case write_values be 8 (m_float64_contents c) (ni_float64 ni) n of None \<Rightarrow> Inl Value_out_of_range
      | Some bs \<Rightarrow> Inr (bs, ni\<lparr>ni_float64 := ni_float64 ni + n\<rparr>))"
| "write_block be c ni Cat_None n = Inl Unknown_category"
| "write_block be c ni (Cat_unknown b) n = Inl Unknown_category"

fun write_blocks ::
    "bool \<Rightarrow> BINController \<Rightarrow> next_indexes \<Rightarrow> (eCategory \<times> u64) list \<Rightarrow> bin_write_fault + bytes" where
  "write_blocks be c ni [] = Inr []"
| "write_blocks be c ni ((cat, n) # order) =
     (case write_block be c ni cat (unat n) of
        Inl f \<Rightarrow> Inl f
      | Inr (bs, ni') \<Rightarrow>
          map_sum id (\<lambda>tail. category_byte cat # write_value be 8 n @ bs @ tail)
            (write_blocks be c ni' order))"

definition bin_bytes :: "bool \<Rightarrow> BINController \<Rightarrow> bin_write_fault + bytes" where
  "bin_bytes be c = write_blocks be c next_indexes_zero (m_order_list c)"

definition bin_write ::
    "ofstream \<Rightarrow> bool \<Rightarrow> bool \<Rightarrow> BINController \<Rightarrow> path \<Rightarrow> file_system
     \<Rightarrow> bin_write_fault + (GefStatus \<times> file_system)" where
  "bin_write os be is_update c p fs =
     (if \<not> os_open os then Inr (Failure (openFailure ''the binary file cannot be opened''), fs)
      else map_sum id (\<lambda>out. write_stream os is_update ''the binary file cannot be opened'' out p fs)
             (bin_bytes be c))"

definition bin_writeAtomic ::
    "atomic_env \<Rightarrow> ofstream \<Rightarrow> bool \<Rightarrow> BINController \<Rightarrow> path \<Rightarrow> file_system
     \<Rightarrow> bin_write_fault + (GefStatus \<times> file_system)" where
  "bin_writeAtomic env os be c p fs =
     map_sum id (\<lambda>out. atomicWrite env
         (write_stream os False ''the binary file cannot be opened'' out) p fs) (bin_bytes be c)"

end
