(* ===== verification/GefBinCorrect.thy ===== *)
theory GefBinCorrect
  imports GefBin
begin

text \<open>
  Correctness of the binary block store: the controller refines its list of blocks (\<open>of_blocks\<close>),
  the file format is the same on hosts of either byte order, reading and writing are inverse, and
  the reader accepts exactly the encodings within the read budgets.
\<close>

section \<open>Fixed-width codecs\<close>

locale wire_codec =
  fixes enc :: "'v \<Rightarrow> bytes"
    and dec :: "bytes \<Rightarrow> 'v"
    and w :: nat
  assumes length_enc: "length (enc v) = w"
    and dec_enc: "dec (enc v) = v"
    and enc_dec: "length bs = w \<Longrightarrow> enc (dec bs) = bs"
begin

lemma read_values_encoded:
  "read_values w dec (length vs) (concat (map enc vs) @ rest) = Some (vs, rest)"
  by (induction vs) (simp_all add: length_enc dec_enc)

lemma read_values_sound:
  "read_values w dec n bs = Some (vs, rest) \<Longrightarrow> length vs = n \<and> bs = concat (map enc vs) @ rest"
proof (induction n arbitrary: bs vs)
  case 0
  then show ?case by simp
next
  case (Suc n)
  then obtain vs' where len: "w \<le> length bs" and vs: "vs = dec (take w bs) # vs'"
    and tail: "read_values w dec n (drop w bs) = Some (vs', rest)"
    by (auto split: if_splits)
  from Suc.IH [OF tail] have "length vs' = n" and "drop w bs = concat (map enc vs') @ rest" by auto
  moreover have "enc (dec (take w bs)) = take w bs" using len by (simp add: enc_dec)
  ultimately show ?case by (simp add: vs) (metis append_take_drop_id)
qed

lemma read_column_encoded:
  "read_column w dec (length vs) (concat (map enc vs) @ rest) h = Some (map (Pair h) vs, rest)"
  by (simp add: read_column_def read_values_encoded)

lemma read_column_sound:
  "read_column w dec n bs h = Some (xs, rest) \<Longrightarrow>
   \<exists>vs. xs = map (Pair h) vs \<and> length vs = n \<and> bs = concat (map enc vs) @ rest"
  by (auto simp: read_column_def dest!: read_values_sound)

lemma length_concat_enc: "length (concat (map enc vs)) = length vs * w"
  by (induction vs) (simp_all add: length_enc)

end

text \<open>On either host the bytes in the file are little-endian.\<close>

lemma write_value_le: "write_value be n v = le_bytes n (unat v)"
  by (simp add: write_value_def host_bytes_def)

lemma read_value_le: "read_value be bs = word_of_nat (le_value bs)"
  by (simp add: read_value_def host_value_def)

lemma host_value_one: "length bs = 1 \<Longrightarrow> host_value be bs = word_of_nat (le_value bs)"
  by (cases bs) (simp_all add: host_value_def)

lemma word_le_roundtrip:
  "LENGTH('a) = 8 * n \<Longrightarrow> word_of_nat (le_value (le_bytes n (unat (v :: 'a::len word)))) = v"
proof -
  assume len: "LENGTH('a) = 8 * n"
  have "(256::nat) ^ n = 2 ^ LENGTH('a)" by (simp add: len power_mult)
  then show ?thesis using unat_lt_size [of v] by (simp add: le_value_le_bytes)
qed

lemma bytes_le_roundtrip:
  "LENGTH('a) = 8 * n \<Longrightarrow> length bs = n \<Longrightarrow> le_bytes n (unat (word_of_nat (le_value bs) :: 'a::len word)) = bs"
proof -
  assume len: "LENGTH('a) = 8 * n" and bs: "length bs = n"
  have "(256::nat) ^ n = 2 ^ LENGTH('a)" by (simp add: len power_mult)
  then show ?thesis using le_value_bound [of bs] le_bytes_le_value [of bs] bs by (simp add: unat_of_nat)
qed

interpretation octet_codec: wire_codec "write_value be 1 :: u8 \<Rightarrow> bytes" "host_value be" 1 for be
  by unfold_locales
     (simp_all add: write_value_le host_value_one word_le_roundtrip bytes_le_roundtrip del: One_nat_def)

interpretation codec16: wire_codec "write_value be 2 :: u16 \<Rightarrow> bytes" "read_value be" 2 for be
  by unfold_locales (simp_all add: write_value_le read_value_le word_le_roundtrip bytes_le_roundtrip)

interpretation codec32: wire_codec "write_value be 4 :: u32 \<Rightarrow> bytes" "read_value be" 4 for be
  by unfold_locales (simp_all add: write_value_le read_value_le word_le_roundtrip bytes_le_roundtrip)

interpretation codec64: wire_codec "write_value be 8 :: u64 \<Rightarrow> bytes" "read_value be" 8 for be
  by unfold_locales (simp_all add: write_value_le read_value_le word_le_roundtrip bytes_le_roundtrip)

section \<open>The abstract view: a list of blocks\<close>

fun sel_uint08 where "sel_uint08 (B_uint08 vs) = vs" | "sel_uint08 b = []"
fun sel_int08 where "sel_int08 (B_int08 vs) = vs" | "sel_int08 b = []"
fun sel_int16 where "sel_int16 (B_int16 vs) = vs" | "sel_int16 b = []"
fun sel_int32 where "sel_int32 (B_int32 vs) = vs" | "sel_int32 b = []"
fun sel_int64 where "sel_int64 (B_int64 vs) = vs" | "sel_int64 b = []"
fun sel_float32 where "sel_float32 (B_float32 vs) = vs" | "sel_float32 b = []"
fun sel_float64 where "sel_float64 (B_float64 vs) = vs" | "sel_float64 b = []"

fun block_category :: "bin_block \<Rightarrow> eCategory" where
  "block_category (B_uint08 vs) = Cat_Enum"
| "block_category (B_int08 vs) = Cat_Integer08"
| "block_category (B_int16 vs) = Cat_Integer16"
| "block_category (B_int32 vs) = Cat_Integer32"
| "block_category (B_int64 vs) = Cat_Integer64"
| "block_category (B_float32 vs) = Cat_Float32"
| "block_category (B_float64 vs) = Cat_Float64"

fun block_values :: "bin_block \<Rightarrow> bin_value list" where
  "block_values (B_uint08 vs) = map V_uint08 vs"
| "block_values (B_int08 vs) = map V_int08 vs"
| "block_values (B_int16 vs) = map V_int16 vs"
| "block_values (B_int32 vs) = map V_int32 vs"
| "block_values (B_int64 vs) = map V_int64 vs"
| "block_values (B_float32 vs) = map V_float32 vs"
| "block_values (B_float64 vs) = map V_float64 vs"

abbreviation block_size :: "bin_block \<Rightarrow> nat" where
  "block_size b \<equiv> length (block_values b)"

definition column :: "(bin_block \<Rightarrow> 'a list) \<Rightarrow> bin_block list \<Rightarrow> (u64 \<times> 'a) list" where
  "column sel bs = concat (map (\<lambda>(i, b). map (Pair (word_of_nat i)) (sel b)) (List.enumerate 0 bs))"

definition of_blocks :: "bin_block list \<Rightarrow> BINController" where
  "of_blocks bs =
     \<lparr>m_uint08_contents = column sel_uint08 bs, m_int08_contents = column sel_int08 bs,
      m_int16_contents = column sel_int16 bs, m_int32_contents = column sel_int32 bs,
      m_int64_contents = column sel_int64 bs, m_float32_contents = column sel_float32 bs,
      m_float64_contents = column sel_float64 bs, m_header_next_index = word_of_nat (length bs),
      m_order_list = map (\<lambda>b. (block_category b, word_of_nat (block_size b))) bs\<rparr>"

lemma column_Nil [simp]: "column sel [] = []"
  by (simp add: column_def)

lemma column_append:
  "column sel (bs @ cs) = column sel bs
     @ concat (map (\<lambda>(i, b). map (Pair (word_of_nat i)) (sel b)) (List.enumerate (length bs) cs))"
  by (simp add: column_def enumerate_append_eq)

lemma column_snoc [simp]:
  "column sel (bs @ [b]) = column sel bs @ map (Pair (word_of_nat (length bs))) (sel b)"
  by (simp add: column_append)

lemma of_blocks_empty: "of_blocks [] = BINController_empty"
  by (simp add: of_blocks_def BINController_empty_def)

text \<open>Appending a block to the controller appends it to the list, unless the store is full.\<close>

definition store_full :: "vector_limits \<Rightarrow> bin_block list \<Rightarrow> bin_block \<Rightarrow> bool" where
  "store_full vl bs b \<longleftrightarrow>
     (word_of_nat (length bs) :: u64) = - 1 \<or> length bs = vl_order vl
     \<or> vl_values vl - sum_list (map (\<lambda>c. if block_category c = block_category b then block_size c else 0) bs)
         < block_size b"

lemma length_column: "length (column sel bs) = sum_list (map (\<lambda>b. length (sel b)) bs)"
  by (induction bs rule: rev_induct) simp_all

lemma sel_sizes:
  "length (sel_uint08 c) = (if block_category c = Cat_Enum then block_size c else 0)"
  "length (sel_int08 c) = (if block_category c = Cat_Integer08 then block_size c else 0)"
  "length (sel_int16 c) = (if block_category c = Cat_Integer16 then block_size c else 0)"
  "length (sel_int32 c) = (if block_category c = Cat_Integer32 then block_size c else 0)"
  "length (sel_int64 c) = (if block_category c = Cat_Integer64 then block_size c else 0)"
  "length (sel_float32 c) = (if block_category c = Cat_Float32 then block_size c else 0)"
  "length (sel_float64 c) = (if block_category c = Cat_Float64 then block_size c else 0)"
  by (cases c; simp)+

lemma setContents_of_blocks:
  "setContents vl b (of_blocks bs) =
     (if store_full vl bs b then Inl ''the BIN block store is full'' else Inr (of_blocks (bs @ [b])))"
  by (cases b)
     (auto simp: of_blocks_def appendBlock_def store_full_def length_column sel_sizes)

section \<open>Looking a block up\<close>

lemma scan_skip: "\<forall>x \<in> set pre. fst x \<noteq> idx \<Longrightarrow> scan_column idx False (pre @ xs) = scan_column idx False xs"
  by (induction pre) auto

lemma scan_none: "\<forall>x \<in> set xs. fst x \<noteq> idx \<Longrightarrow> scan_column idx False xs = (False, [])"
  by (induction xs) auto

lemma scan_run:
  "\<forall>x \<in> set post. fst x \<noteq> idx \<Longrightarrow> scan_column idx True (map (Pair idx) vs @ post) = (True, vs)"
  by (induction vs) (cases post; auto)+

lemma scan_block:
  assumes "\<forall>x \<in> set pre. fst x \<noteq> idx" and "\<forall>x \<in> set post. fst x \<noteq> idx"
  shows "scan_column idx False (pre @ map (Pair idx) vs @ post) = (vs \<noteq> [], vs)"
  using assms scan_run [OF assms(2)] by (cases vs) (simp_all add: scan_skip scan_none)

lemma index_inj:
  "i < 2 ^ 64 \<Longrightarrow> j < 2 ^ 64 \<Longrightarrow> (word_of_nat i :: u64) = word_of_nat j \<longleftrightarrow> i = j"
  by (simp add: word_unat_eq_iff unat_of_nat)

lemma column_indexes:
  "x \<in> set (concat (map (\<lambda>(i, b). map (Pair (word_of_nat i)) (sel b)) (List.enumerate n bs))) \<Longrightarrow>
   \<exists>i \<ge> n. i < n + length bs \<and> fst x = word_of_nat i"
  by (auto simp: in_set_enumerate_eq)

lemma scan_column_of_blocks:
  assumes "i < length bs" and "length bs < 2 ^ 64"
  shows "scan_column (word_of_nat i) False (column sel bs) = (sel (bs ! i) \<noteq> [], sel (bs ! i))"
proof -
  let ?col = "\<lambda>n cs. concat (map (\<lambda>(i, b). map (Pair (word_of_nat i :: u64)) (sel b)) (List.enumerate n cs))"
  have "bs = take i bs @ bs ! i # drop (Suc i) bs" using assms by (simp add: id_take_nth_drop)
  then have "column sel bs = column sel (take i bs @ bs ! i # drop (Suc i) bs)" by simp
  also have "\<dots> = ?col 0 (take i bs) @ map (Pair (word_of_nat i)) (sel (bs ! i)) @ ?col (Suc i) (drop (Suc i) bs)"
    using assms by (simp add: column_append) (simp add: column_def)
  finally have split: "column sel bs = ?col 0 (take i bs) @ map (Pair (word_of_nat i)) (sel (bs ! i))
      @ ?col (Suc i) (drop (Suc i) bs)" .
  have "\<forall>x \<in> set (?col 0 (take i bs)). fst x \<noteq> word_of_nat i"
  proof
    fix x assume "x \<in> set (?col 0 (take i bs))"
    from column_indexes [OF this] obtain j where "j < i" "fst x = word_of_nat j" using assms by auto
    then show "fst x \<noteq> word_of_nat i" using index_inj [of j i] assms by simp
  qed
  moreover have "\<forall>x \<in> set (?col (Suc i) (drop (Suc i) bs)). fst x \<noteq> word_of_nat i"
  proof
    fix x assume "x \<in> set (?col (Suc i) (drop (Suc i) bs))"
    from column_indexes [OF this] obtain j where j: "Suc i \<le> j" "j < Suc i + length (drop (Suc i) bs)"
      "fst x = word_of_nat j" by auto
    then have "i < j" "j < length bs" using assms by simp_all
    then show "fst x \<noteq> word_of_nat i" using index_inj [of j i] assms j by simp
  qed
  ultimately show ?thesis unfolding split by (rule scan_block)
qed

lemma contents_of_blocks:
  assumes "i < length bs" and "length bs < 2 ^ 64"
  shows "contents cast (word_of_nat i) (of_blocks bs) = map cast (block_values (bs ! i))"
  by (cases "bs ! i") (simp_all add: contents_def of_blocks_def scan_column_of_blocks [OF assms])


section \<open>The file format\<close>

text \<open>A file is the encoding of its blocks: the category, the element count and the values, all
  little-endian.\<close>

fun block_payload :: "bin_block \<Rightarrow> bytes" where
  "block_payload (B_uint08 vs) = concat (map (\<lambda>v. le_bytes 1 (unat v)) vs)"
| "block_payload (B_int08 vs) = concat (map (\<lambda>v. le_bytes 1 (unat v)) vs)"
| "block_payload (B_int16 vs) = concat (map (\<lambda>v. le_bytes 2 (unat v)) vs)"
| "block_payload (B_int32 vs) = concat (map (\<lambda>v. le_bytes 4 (unat v)) vs)"
| "block_payload (B_int64 vs) = concat (map (\<lambda>v. le_bytes 8 (unat v)) vs)"
| "block_payload (B_float32 vs) = concat (map (\<lambda>v. le_bytes 4 (unat v)) vs)"
| "block_payload (B_float64 vs) = concat (map (\<lambda>v. le_bytes 8 (unat v)) vs)"

definition encode_block :: "bin_block \<Rightarrow> bytes" where
  "encode_block b = category_byte (block_category b) # le_bytes 8 (block_size b) @ block_payload b"

definition file_format :: "bin_block list \<Rightarrow> bytes" where
  "file_format bs = concat (map encode_block bs)"

lemma file_format_simps [simp]:
  "file_format [] = []" "file_format (b # bs) = encode_block b @ file_format bs"
  "file_format (bs @ cs) = file_format bs @ file_format cs"
  by (simp_all add: file_format_def)

subsection \<open>Writing\<close>

lemma column_mid:
  "\<exists>ys. column sel (pre @ b # cs) = column sel pre @ map (Pair (word_of_nat (length pre))) (sel b) @ ys"
  by (simp add: column_append)

lemma vec_at_append_right [simp]: "vec_at (xs @ ys) (length xs + i) = vec_at ys i"
  by (simp add: vec_at_def nth_append)

lemma write_values_mid:
  "write_values be w (xs @ map (Pair h) vs @ ys) (length xs) (length vs) = Some (concat (map (write_value be w) vs))"
proof (induction vs arbitrary: xs)
  case Nil
  then show ?case by simp
next
  case (Cons v vs)
  then show ?case using Cons.IH [of "xs @ [(h, v)]"] by (simp add: vec_at_def)
qed

lemma write_column:
  "write_values be w (column sel (pre @ b # cs)) (length (column sel pre)) (length (sel b))
     = Some (concat (map (write_value be w) (sel b)))"
  using column_mid [of sel pre b cs] by (auto simp: write_values_mid)

definition offsets :: "bin_block list \<Rightarrow> next_indexes" where
  "offsets pre =
     \<lparr>ni_uint08 = length (column sel_uint08 pre), ni_int08 = length (column sel_int08 pre),
      ni_int16 = length (column sel_int16 pre), ni_int32 = length (column sel_int32 pre),
      ni_int64 = length (column sel_int64 pre), ni_float32 = length (column sel_float32 pre),
      ni_float64 = length (column sel_float64 pre)\<rparr>"

lemma write_block_encodes:
  "write_block be (of_blocks (pre @ b # cs)) (offsets pre) (block_category b) (block_size b)
     = Inr (block_payload b, offsets (pre @ [b]))"
  using write_column [of be 1 sel_uint08 pre b cs] write_column [of be 1 sel_int08 pre b cs]
    write_column [of be 2 sel_int16 pre b cs] write_column [of be 4 sel_int32 pre b cs]
    write_column [of be 8 sel_int64 pre b cs] write_column [of be 4 sel_float32 pre b cs]
    write_column [of be 8 sel_float64 pre b cs]
  by (cases b) (simp_all add: of_blocks_def offsets_def write_value_le [abs_def] del: One_nat_def)

lemma write_blocks_encodes:
  "\<forall>b \<in> set cs. block_size b < 2 ^ 64 \<Longrightarrow>
   write_blocks be (of_blocks (pre @ cs)) (offsets pre) (map (\<lambda>b. (block_category b, word_of_nat (block_size b))) cs)
     = Inr (file_format cs)"
proof (induction cs arbitrary: pre)
  case Nil
  then show ?case by simp
next
  case (Cons b cs)
  have "unat (word_of_nat (block_size b) :: u64) = block_size b"
    using Cons.prems by (simp add: unat_of_nat)
  then show ?case
    using Cons.IH [of "pre @ [b]"] Cons.prems
    by (simp add: write_block_encodes encode_block_def write_value_le)
qed

lemma bin_bytes_format:
  "\<forall>b \<in> set bs. block_size b < 2 ^ 64 \<Longrightarrow> bin_bytes be (of_blocks bs) = Inr (file_format bs)"
  using write_blocks_encodes [of bs be "[]"]
  by (simp add: bin_bytes_def offsets_def next_indexes_zero_def) (simp add: of_blocks_def)


subsection \<open>Reading\<close>

definition block_bytes :: "bin_block \<Rightarrow> nat" where
  "block_bytes b = length (encode_block b)"

text \<open>The read budgets, on the blocks of the file.\<close>

definition within_limits :: "ReadLimits \<Rightarrow> bin_block list \<Rightarrow> bool" where
  "within_limits limits bs \<longleftrightarrow>
     length bs \<le> unat (max_blocks limits)
     \<and> length (file_format bs) \<le> unat (max_input_bytes limits)
     \<and> sum_list (map block_size bs) \<le> unat (max_elements limits)"

definition width_of :: "eCategory \<Rightarrow> nat" where
  "width_of cat = widths ! unat (category_byte cat)"

lemma length_encode_block: "length (encode_block b) = 9 + block_size b * width_of (block_category b)"
proof -
  have len: "length (concat (map (\<lambda>v. le_bytes n (f v)) vs)) = length vs * n" for n and f :: "'v \<Rightarrow> nat" and vs
    by (induction vs) simp_all
  show ?thesis
    by (cases b) (simp_all add: encode_block_def width_of_def widths_def len del: One_nat_def)
qed

text \<open>The budget check of a block, without wrap-around.\<close>

lemma budget_check:
  fixes used limit num width :: u64
  assumes "used \<le> limit" and "0 < width"
  shows "(\<not> limit - used < 9 \<and> \<not> (limit - (used + 9)) div width < num)
           \<longleftrightarrow> unat used + 9 + unat num * unat width \<le> unat limit"
proof (cases "limit - used < 9")
  case True
  then have "unat limit - unat used < 9"
    using assms by (simp add: word_less_nat_alt unat_sub)
  then show ?thesis using True assms by (simp add: word_le_nat_alt)
next
  case False
  then have room: "9 \<le> unat limit - unat used"
    using assms by (simp add: word_less_nat_alt unat_sub)
  have "unat used + 9 < 2 ^ 64" using room unat_lt_size [of limit] by simp
  then have "unat (used + 9) = unat used + 9" by (simp add: unat_add_bounded)
  moreover from this room have "used + 9 \<le> limit" by (simp add: word_le_nat_alt)
  ultimately have "unat (limit - (used + 9)) = unat limit - (unat used + 9)" by (simp add: unat_sub)
  then have "(limit - (used + 9)) div width < num
      \<longleftrightarrow> (unat limit - (unat used + 9)) div unat width < unat num"
    by (simp add: word_less_nat_alt unat_div)
  moreover have "0 < unat width" using assms by (simp add: word_less_nat_alt)
  moreover from this have "\<not> (unat limit - (unat used + 9)) div unat width < unat num
      \<longleftrightarrow> unat num * unat width \<le> unat limit - (unat used + 9)"
    by (simp add: not_less less_eq_div_iff_mult_less_eq)
  ultimately show ?thesis using False room by auto
qed

lemma budget_total:
  fixes used limit num width :: u64
  assumes "unat used + 9 + unat num * unat width \<le> unat limit"
  shows "unat (used + 9 + num * width) = unat used + 9 + unat num * unat width"
proof -
  have lt: "unat limit < 2 ^ 64" using unat_lt_size [of limit] by simp
  have "unat (num * width) = unat num * unat width"
    using assms lt by (simp add: unat_mult_bounded)
  moreover have "unat (used + 9) = unat used + 9" using assms lt by (simp add: unat_add_bounded)
  ultimately show ?thesis using assms lt by (simp add: unat_add_bounded)
qed

lemma element_check:
  fixes used limit num :: u64
  assumes "used \<le> limit"
  shows "\<not> limit - used < num \<longleftrightarrow> unat used + unat num \<le> unat limit"
  using assms by (auto simp: word_less_nat_alt word_le_nat_alt unat_sub)

lemma known_category:
  "ty \<noteq> 0 \<Longrightarrow> unat (ty :: u8) < 8 \<Longrightarrow> category_byte (byte_category ty) = ty"
  by (auto simp: byte_category_def)

lemma known_category_width:
  "ty \<noteq> 0 \<Longrightarrow> unat (ty :: u8) < 8 \<Longrightarrow> widths ! unat ty \<in> {1, 2, 4, 8}"
proof -
  assume "ty \<noteq> 0" and "unat ty < 8"
  then have "unat ty \<noteq> 0" by (simp add: unat_eq_0)
  with \<open>unat ty < 8\<close> have "unat ty \<in> {1, 2, 3, 4, 5, 6, 7}"
    unfolding insert_iff empty_iff by presburger
  then show ?thesis by (auto simp: widths_def numeral_nat)
qed

lemma read_block_header_sound:
  assumes read: "read_block_header be limits h used seen rest = Inr (cat, num, used', seen', r2)"
    and "used \<le> max_input_bytes limits" and "seen \<le> max_elements limits"
  shows "\<exists>ty. ty \<noteq> 0 \<and> unat ty < 8 \<and> cat = byte_category ty \<and> rest = ty # le_bytes 8 (unat num) @ r2
     \<and> h < max_blocks limits
     \<and> unat used' = unat used + 9 + unat num * width_of cat \<and> used' \<le> max_input_bytes limits
     \<and> unat seen' = unat seen + unat num \<and> seen' \<le> max_elements limits"
proof -
  from read obtain ty r1 where rest: "rest = ty # r1" and len: "8 \<le> length r1"
    and num: "num = read_value be (take 8 r1)" and r2: "r2 = drop 8 r1"
    and ty: "ty \<noteq> 0" "unat ty < 8" and cat: "cat = byte_category ty"
    and blocks: "h < max_blocks limits"
    and room: "\<not> max_input_bytes limits - used < 9"
    and elems: "\<not> max_elements limits - seen < num"
    and bytes: "\<not> (max_input_bytes limits - (used + 9)) div word_of_nat (widths ! unat ty) < num"
    and used': "used' = used + 9 + num * word_of_nat (widths ! unat ty)" and seen': "seen' = seen + num"
    by (auto simp: read_block_header_def Let_def widths_def not_le not_less split: if_splits list.splits)
  have w: "widths ! unat ty = width_of cat" using ty by (simp add: cat width_of_def known_category)
  have wd: "unat (word_of_nat (width_of cat) :: u64) = width_of cat" "0 < (word_of_nat (width_of cat) :: u64)"
    using known_category_width [OF ty] w by (auto simp: word_less_nat_alt)
  have total: "unat used + 9 + unat num * width_of cat \<le> unat (max_input_bytes limits)"
    using budget_check [OF assms(2) wd(2), of num] room bytes w wd(1) by simp
  then have u: "unat used' = unat used + 9 + unat num * width_of cat"
    using budget_total [of used num "word_of_nat (width_of cat)" "max_input_bytes limits"]
    by (simp add: used' w wd(1))
  have se: "unat seen + unat num \<le> unat (max_elements limits)"
    using element_check [OF assms(3)] elems by simp
  then have "unat seen' = unat seen + unat num"
    using unat_lt_size [of "max_elements limits"] by (simp add: seen' unat_add_bounded)
  moreover have "r1 = le_bytes 8 (unat num) @ r2"
    using len codec64.enc_dec [of "take 8 r1" be] by (simp add: num r2 write_value_le)
  ultimately show ?thesis using ty cat rest blocks u total se by (auto simp: word_le_nat_alt)
qed

lemma read_block_header_complete:
  assumes "ty \<noteq> 0" and "unat ty < 8" and "h < max_blocks limits"
    and total: "unat used + 9 + unat num * width_of (byte_category ty) \<le> unat (max_input_bytes limits)"
    and elems: "unat seen + unat num \<le> unat (max_elements limits)"
  shows "\<exists>used' seen'. read_block_header be limits h used seen (ty # le_bytes 8 (unat num) @ r2)
           = Inr (byte_category ty, num, used', seen', r2)"
proof -
  have w: "width_of (byte_category ty) = widths ! unat ty"
    using assms by (simp add: width_of_def known_category)
  have wd: "unat (word_of_nat (widths ! unat ty) :: u64) = widths ! unat ty"
    "0 < (word_of_nat (widths ! unat ty) :: u64)"
    using known_category_width [OF assms(1, 2)] by (auto simp: word_less_nat_alt)
  have "used \<le> max_input_bytes limits" "seen \<le> max_elements limits"
    using total elems by (simp_all add: word_le_nat_alt)
  then show ?thesis
    using budget_check [OF _ wd(2), of used "max_input_bytes limits" num]
      element_check [of seen "max_elements limits" num] assms w wd(1)
      codec64.dec_enc [of be num]
    by (auto simp: read_block_header_def Let_def widths_def write_value_le)
qed

text \<open>While a file is read the staged controller holds the blocks read so far.\<close>

definition staged_blocks :: "bin_block list \<Rightarrow> BINController" where
  "staged_blocks bs = (of_blocks bs)\<lparr>m_header_next_index := 0\<rparr>"

lemma staged_blocks_empty: "staged_blocks [] = BINController_empty"
  by (simp add: staged_blocks_def of_blocks_def BINController_empty_def)

lemma read_block_values_complete:
  "\<exists>st. read_block_values be (block_category b) (block_size b) (word_of_nat (length pre)) (staged_blocks pre)
      (block_payload b @ rest) = Inr (st, rest)
   \<and> st\<lparr>m_order_list := m_order_list st @ [(block_category b, word_of_nat (block_size b))]\<rparr>
       = staged_blocks (pre @ [b])"
  using octet_codec.read_column_encoded codec16.read_column_encoded codec32.read_column_encoded
    codec64.read_column_encoded
  by (cases b) (simp_all add: staged_blocks_def of_blocks_def write_value_le [abs_def] del: One_nat_def)

lemma block_of_category:
  "(\<exists>b. block_category b = Cat_Enum \<and> P b) \<longleftrightarrow> (\<exists>vs. P (B_uint08 vs))"
  "(\<exists>b. block_category b = Cat_Integer08 \<and> P b) \<longleftrightarrow> (\<exists>vs. P (B_int08 vs))"
  "(\<exists>b. block_category b = Cat_Integer16 \<and> P b) \<longleftrightarrow> (\<exists>vs. P (B_int16 vs))"
  "(\<exists>b. block_category b = Cat_Integer32 \<and> P b) \<longleftrightarrow> (\<exists>vs. P (B_int32 vs))"
  "(\<exists>b. block_category b = Cat_Integer64 \<and> P b) \<longleftrightarrow> (\<exists>vs. P (B_int64 vs))"
  "(\<exists>b. block_category b = Cat_Float32 \<and> P b) \<longleftrightarrow> (\<exists>vs. P (B_float32 vs))"
  "(\<exists>b. block_category b = Cat_Float64 \<and> P b) \<longleftrightarrow> (\<exists>vs. P (B_float64 vs))"
  by (metis block_category.simps eCategory.distinct block_category.cases)+

lemma read_block_values_sound:
  assumes "read_block_values be cat (unat num) (word_of_nat (length pre)) (staged_blocks pre) rest = Inr (st, rest')"
  shows "\<exists>b. block_category b = cat \<and> block_size b = unat num \<and> rest = block_payload b @ rest'
     \<and> st\<lparr>m_order_list := m_order_list st @ [(cat, num)]\<rparr> = staged_blocks (pre @ [b])"
  using assms
  by (cases cat)
     (auto simp: block_of_category staged_blocks_def of_blocks_def write_value_le [abs_def]
        simp del: One_nat_def split: option.splits
        dest!: octet_codec.read_column_sound codec16.read_column_sound codec32.read_column_sound
          codec64.read_column_sound)

text \<open>The loop, on a stream that starts with the blocks \<open>bs\<close> after the blocks \<open>pre\<close>.\<close>

definition read_so_far :: "ReadLimits \<Rightarrow> bin_block list \<Rightarrow> u64 \<Rightarrow> u64 \<Rightarrow> bool" where
  "read_so_far limits pre used seen \<longleftrightarrow>
     unat used = length (file_format pre) \<and> unat seen = sum_list (map block_size pre)
     \<and> within_limits limits pre"

lemma block_type_known:
  "category_byte (block_category b) \<noteq> 0" "unat (category_byte (block_category b)) < 8"
  "byte_category (category_byte (block_category b)) = block_category b"
  by (cases b; simp add: byte_category_def)+

lemma within_limits_snoc:
  "within_limits limits (pre @ [b]) \<longleftrightarrow>
     Suc (length pre) \<le> unat (max_blocks limits)
     \<and> length (file_format pre) + 9 + block_size b * width_of (block_category b) \<le> unat (max_input_bytes limits)
     \<and> sum_list (map block_size pre) + block_size b \<le> unat (max_elements limits)"
  by (simp add: within_limits_def length_encode_block add.assoc)

lemma within_limits_prefix: "within_limits limits (pre @ bs) \<Longrightarrow> within_limits limits pre"
  by (simp add: within_limits_def)

lemma block_index:
  "length pre \<le> unat (max_blocks limits) \<Longrightarrow> unat (word_of_nat (length pre) :: u64) = length pre"
  using unat_lt_size [of "max_blocks limits"] by (simp add: unat_of_nat)

lemma read_block_step:
  assumes "read_so_far limits pre used seen" and "within_limits limits (pre @ [b])"
  shows "\<exists>used' seen'. read_blocks be limits (word_of_nat (length pre)) used seen (staged_blocks pre) (encode_block b @ rest)
      = read_blocks be limits (word_of_nat (length (pre @ [b]))) used' seen' (staged_blocks (pre @ [b])) rest
     \<and> read_so_far limits (pre @ [b]) used' seen'"
proof -
  let ?num = "word_of_nat (block_size b) :: u64" and ?h = "word_of_nat (length pre) :: u64"
  have lim: "Suc (length pre) \<le> unat (max_blocks limits)"
    "length (file_format pre) + 9 + block_size b * width_of (block_category b) \<le> unat (max_input_bytes limits)"
    "sum_list (map block_size pre) + block_size b \<le> unat (max_elements limits)"
    using assms(2) by (simp_all add: within_limits_snoc)
  then have num: "unat ?num = block_size b"
    using unat_lt_size [of "max_elements limits"] by (simp add: unat_of_nat)
  have h: "?h < max_blocks limits" using lim(1) block_index [of pre limits] by (simp add: word_less_nat_alt)
  obtain used' seen' where header: "read_block_header be limits ?h used seen
      (category_byte (block_category b) # le_bytes 8 (unat ?num) @ block_payload b @ rest)
      = Inr (block_category b, ?num, used', seen', block_payload b @ rest)"
    using read_block_header_complete [OF block_type_known(1, 2) h, of used ?num b seen be "block_payload b @ rest"]
      lim assms(1) num by (auto simp: block_type_known read_so_far_def)
  obtain st where "read_block_values be (block_category b) (block_size b) ?h (staged_blocks pre)
        (block_payload b @ rest) = Inr (st, rest)"
    and "st\<lparr>m_order_list := m_order_list st @ [(block_category b, ?num)]\<rparr> = staged_blocks (pre @ [b])"
    using read_block_values_complete by blast
  then have "read_blocks be limits ?h used seen (staged_blocks pre) (encode_block b @ rest)
      = read_blocks be limits (?h + 1) used' seen' (staged_blocks (pre @ [b])) rest"
    using header num
    by (subst read_blocks.simps) (simp add: encode_block_def)
  moreover have "read_so_far limits (pre @ [b]) used' seen'"
    using read_block_header_sound [OF header] assms num
    by (auto simp: read_so_far_def within_limits_def word_le_nat_alt length_encode_block)
  ultimately show ?thesis by (auto simp: add.commute)
qed

lemma read_blocks_complete:
  "read_so_far limits pre used seen \<Longrightarrow> within_limits limits (pre @ bs) \<Longrightarrow>
   read_blocks be limits (word_of_nat (length pre)) used seen (staged_blocks pre) (file_format bs)
     = Inr (word_of_nat (length (pre @ bs)), staged_blocks (pre @ bs))"
proof (induction bs arbitrary: pre used seen)
  case Nil
  then show ?case by (simp add: read_blocks.simps)
next
  case (Cons b bs)
  have "within_limits limits (pre @ [b])"
    using Cons.prems(2) within_limits_prefix [of limits "pre @ [b]" bs] by simp
  with read_block_step [OF Cons.prems(1), of b be "file_format bs"] Cons.IH [of "pre @ [b]"] Cons.prems(2)
  show ?case by auto
qed

lemma read_blocks_sound:
  "read_so_far limits pre used seen \<Longrightarrow>
   read_blocks be limits (word_of_nat (length pre)) used seen (staged_blocks pre) rest = Inr (n, st) \<Longrightarrow>
   \<exists>bs. rest = file_format bs \<and> within_limits limits (pre @ bs) \<and> n = word_of_nat (length (pre @ bs))
     \<and> st = staged_blocks (pre @ bs)"
proof (induction "length rest" arbitrary: pre used seen rest rule: less_induct)
  case less
  show ?case
  proof (cases "rest = []")
    case True
    then show ?thesis using less.prems
      by (intro exI [of _ "[]"]) (auto simp: read_blocks.simps read_so_far_def)
  next
    case False
    let ?h = "word_of_nat (length pre) :: u64"
    from less.prems(2) False obtain cat num used' seen' r2 st1 r3 where
      header: "read_block_header be limits ?h used seen rest = Inr (cat, num, used', seen', r2)"
      and block: "read_block_values be cat (unat num) ?h (staged_blocks pre) r2 = Inr (st1, r3)"
      and tail: "read_blocks be limits (?h + 1) used' seen'
          (st1\<lparr>m_order_list := m_order_list st1 @ [(cat, num)]\<rparr>) r3 = Inr (n, st)"
      by (subst (asm) (2) read_blocks.simps) (auto split: sum.splits prod.splits)
    have "used \<le> max_input_bytes limits" "seen \<le> max_elements limits"
      using less.prems(1) by (auto simp: read_so_far_def within_limits_def word_le_nat_alt)
    from read_block_header_sound [OF header this] obtain ty where ty: "ty \<noteq> 0" "unat ty < 8"
      "cat = byte_category ty" and rest: "rest = ty # le_bytes 8 (unat num) @ r2"
      and h: "?h < max_blocks limits"
      and used': "unat used' = unat used + 9 + unat num * width_of cat" "used' \<le> max_input_bytes limits"
      and seen': "unat seen' = unat seen + unat num" "seen' \<le> max_elements limits" by blast
    from read_block_values_sound [OF block] obtain b where b: "block_category b = cat"
      "block_size b = unat num" "r2 = block_payload b @ r3"
      "st1\<lparr>m_order_list := m_order_list st1 @ [(cat, num)]\<rparr> = staged_blocks (pre @ [b])" by blast
    have enc: "rest = encode_block b @ r3"
      using rest b ty by (simp add: encode_block_def known_category)
    then have "length r3 < length rest" by (simp add: length_encode_block)
    moreover have "read_so_far limits (pre @ [b]) used' seen'"
      using less.prems(1) h used' seen' b block_index [of pre limits]
      by (auto simp: read_so_far_def within_limits_def word_le_nat_alt word_less_nat_alt length_encode_block)
    moreover have "read_blocks be limits (word_of_nat (length (pre @ [b]))) used' seen' (staged_blocks (pre @ [b])) r3
        = Inr (n, st)" using tail b by (simp add: add.commute)
    ultimately obtain bs where "r3 = file_format bs" "within_limits limits ((pre @ [b]) @ bs)"
      "n = word_of_nat (length ((pre @ [b]) @ bs))" "st = staged_blocks ((pre @ [b]) @ bs)"
      using less.hyps by blast
    then show ?thesis using enc by (intro exI [of _ "b # bs"]) simp
  qed
qed

lemma read_blocks_iff:
  "read_blocks be limits 0 0 0 BINController_empty rest = Inr (n, st) \<longleftrightarrow>
   (\<exists>bs. rest = file_format bs \<and> within_limits limits bs \<and> n = word_of_nat (length bs) \<and> st = staged_blocks bs)"
proof -
  have "read_so_far limits [] 0 0" by (simp add: read_so_far_def within_limits_def)
  then show ?thesis
    using read_blocks_sound [of limits "[]" 0 0 be rest n st] read_blocks_complete [of limits "[]" 0 0 _ be]
    by (auto simp: staged_blocks_empty)
qed

lemma staged_blocks_done: "(staged_blocks bs)\<lparr>m_header_next_index := word_of_nat (length bs)\<rparr> = of_blocks bs"
  by (simp add: staged_blocks_def of_blocks_def)

lemma read_block_over_budget:
  assumes "read_so_far limits pre used seen" and "\<not> within_limits limits (pre @ [b])"
    and "block_size b < 2 ^ 64"
  shows "read_blocks be limits (word_of_nat (length pre)) used seen (staged_blocks pre) (encode_block b @ rest)
      = Inl limitFailure"
proof -
  let ?num = "word_of_nat (block_size b) :: u64" and ?h = "word_of_nat (length pre) :: u64"
  let ?ty = "category_byte (block_category b)"
  have num: "unat ?num = block_size b" using assms(3) by (simp add: unat_of_nat)
  have h: "unat ?h = length pre"
    using assms(1) block_index [of pre limits] by (simp add: read_so_far_def within_limits_def)
  have le: "used \<le> max_input_bytes limits" "seen \<le> max_elements limits"
    using assms(1) by (auto simp: read_so_far_def within_limits_def word_le_nat_alt)
  have wd: "unat (word_of_nat (widths ! unat ?ty) :: u64) = widths ! unat ?ty"
    "0 < (word_of_nat (widths ! unat ?ty) :: u64)"
    using known_category_width [OF block_type_known(1, 2), of b] by (auto simp: word_less_nat_alt)
  have "max_blocks limits \<le> ?h \<or> max_input_bytes limits - used < 9
      \<or> (max_input_bytes limits - (used + 9)) div word_of_nat (widths ! unat ?ty) < ?num
      \<or> max_elements limits - seen < ?num"
    using budget_check [OF le(1) wd(2), of ?num] element_check [OF le(2), of ?num] assms(1, 2) num h wd(1)
    by (auto simp: within_limits_snoc read_so_far_def width_of_def word_le_nat_alt)
  then have "read_block_header be limits ?h used seen (encode_block b @ rest) = Inl limitFailure"
    using block_type_known [of b] num codec64.dec_enc [of be ?num]
    by (auto simp: read_block_header_def Let_def encode_block_def widths_def write_value_le)
  then show ?thesis by (subst read_blocks.simps) (simp add: encode_block_def)
qed

lemma read_blocks_over_budget:
  "read_so_far limits pre used seen \<Longrightarrow> \<not> within_limits limits (pre @ bs) \<Longrightarrow>
   \<forall>b \<in> set bs. block_size b < 2 ^ 64 \<Longrightarrow>
   read_blocks be limits (word_of_nat (length pre)) used seen (staged_blocks pre) (file_format bs)
     = Inl limitFailure"
proof (induction bs arbitrary: pre used seen)
  case Nil
  then show ?case by (simp add: read_so_far_def)
next
  case (Cons b bs)
  show ?case
  proof (cases "within_limits limits (pre @ [b])")
    case True
    with read_block_step [OF Cons.prems(1), of b be "file_format bs"] Cons.IH [of "pre @ [b]"] Cons.prems(2, 3)
    show ?thesis by auto
  next
    case False
    then show ?thesis using read_block_over_budget [OF Cons.prems(1)] Cons.prems(3) by simp
  qed
qed

section \<open>Properties\<close>

text \<open>C24. The reader accepts exactly the well-formed files within the budgets: it succeeds with the
  controller \<open>c'\<close> if and only if the stream opens, ends cleanly and closes, its bytes are the
  encoding of some list of blocks whose number, total bytes and total elements are within the
  limits, and \<open>c'\<close> holds those blocks.  Otherwise the controller it was called on is unchanged.\<close>

theorem bin_read_exact:
  "(readWithLimits be limits file c = (success_status, c') \<longleftrightarrow>
      is_open file \<and> is_clean_eof file \<and> is_close_ok file
      \<and> (\<exists>bs. is_bytes file = file_format bs \<and> within_limits limits bs \<and> c' = of_blocks bs))
   \<and> (fst (readWithLimits be limits file c) = success_status \<or> snd (readWithLimits be limits file c) = c)"
proof (cases "read_blocks be limits 0 0 0 BINController_empty (is_bytes file)")
  case (Inl e)
  then have "\<nexists>bs. is_bytes file = file_format bs \<and> within_limits limits bs"
    using read_blocks_iff [of be limits "is_bytes file"] by (metis Inl_Inr_False)
  then show ?thesis using Inl by (auto simp: readWithLimits_def)
next
  case (Inr r)
  obtain n st where r: "r = (n, st)" by (cases r)
  then obtain bs where bs: "is_bytes file = file_format bs" "within_limits limits bs"
    "n = word_of_nat (length bs)" "st = staged_blocks bs"
    using Inr read_blocks_iff [of be limits "is_bytes file" n st] by auto
  have unique: "of_blocks bs' = of_blocks bs"
    if "is_bytes file = file_format bs'" "within_limits limits bs'" for bs'
    using that Inr r bs read_blocks_iff [of be limits "is_bytes file" "word_of_nat (length bs')" "staged_blocks bs'"]
      staged_blocks_done [of bs] staged_blocks_done [of bs'] by auto
  have found: "(\<exists>bs'. is_bytes file = file_format bs' \<and> within_limits limits bs' \<and> c' = of_blocks bs')
      \<longleftrightarrow> c' = of_blocks bs"
    using bs(1, 2) unique by blast
  have "is_open file \<and> is_clean_eof file \<and> is_close_ok file \<Longrightarrow>
      readWithLimits be limits file c = (success_status, of_blocks bs)"
    and "\<not> (is_open file \<and> is_clean_eof file \<and> is_close_ok file) \<Longrightarrow>
      \<exists>e. readWithLimits be limits file c = (Failure e, c)"
    using Inr r bs(3, 4) by (auto simp: readWithLimits_def staged_blocks_done)
  then show ?thesis unfolding found
    by (cases "is_open file \<and> is_clean_eof file \<and> is_close_ok file") auto
qed

text \<open>A well-formed file that exceeds a budget fails with the resource error, whatever the byte
  order of the host, and the controller keeps its contents; one within the budgets is read.\<close>

theorem bin_read_budget:
  assumes "\<forall>b \<in> set bs. block_size b < 2 ^ 64"
  shows "readWithLimits be limits (good_stream (file_format bs)) c =
    (if within_limits limits bs then (success_status, of_blocks bs) else (Failure limitFailure, c))"
proof -
  have "read_so_far limits [] 0 0" by (simp add: read_so_far_def within_limits_def)
  then show ?thesis
    using read_blocks_over_budget [of limits "[]" 0 0 bs be] read_blocks_complete [of limits "[]" 0 0 bs be] assms
    by (auto simp: readWithLimits_def good_stream_def staged_blocks_empty staged_blocks_done)
qed

theorem bin_read_budget_witness:
  "readWithLimits True (ReadLimits_default\<lparr>max_elements := 1\<rparr>)
     (good_stream (file_format [B_int16 [1, 2]])) BINController_empty = (Failure limitFailure, BINController_empty)"
  using bin_read_budget [of "[B_int16 [1, 2]]" True "ReadLimits_default\<lparr>max_elements := 1\<rparr>" BINController_empty]
  by (simp add: within_limits_def)

text \<open>C25. What is written on one host is read back on any other: when writing a controller that
  holds the blocks \<open>bs\<close> succeeds, reading the file with limits that admit them gives a controller
  with the same blocks, whatever the byte orders of the two hosts.\<close>

theorem bin_write_read_roundtrip:
  assumes "within_limits limits bs"
    and "bin_write os be False (of_blocks bs) p fs = Inr (success_status, fs')"
    and "fs_files fs' p = Some bytes"
  shows "readWithLimits be' limits (good_stream bytes) c = (success_status, of_blocks bs)"
proof -
  have "block_size b < 2 ^ 64" if "b \<in> set bs" for b
  proof -
    have "block_size b \<le> sum_list (map block_size bs)" using that by (simp add: member_le_sum_list)
    then show ?thesis
      using assms(1) unat_lt_size [of "max_elements limits"] by (simp add: within_limits_def)
  qed
  then have ok: "\<forall>b \<in> set bs. block_size b < 2 ^ 64" by simp
  then have "bytes = file_format bs"
    using assms(2, 3) finishWrite_succeeded [of os "file_format bs"]
    by (auto simp: bin_write_def bin_bytes_format write_stream_def Let_def split: if_splits)
  then show ?thesis
    using bin_read_exact [of be' limits "good_stream bytes" c "of_blocks bs"] assms(1)
    by (auto simp: good_stream_def)
qed

theorem bin_write_read_roundtrip_witness:
  "\<exists>fs'. bin_write \<lparr>os_open = True, os_accepts = 100, os_flush_ok = True, os_close_ok = True\<rparr> True False
       (of_blocks [B_int16 [258, 3], B_float64 []]) ''f'' \<lparr>fs_files = Map.empty, fs_dirs = {}\<rparr> = Inr (success_status, fs')
   \<and> readWithLimits False ReadLimits_default (good_stream (the (fs_files fs' ''f''))) BINController_empty
       = (success_status, of_blocks [B_int16 [258, 3], B_float64 []])"
proof -
  let ?os = "\<lparr>os_open = True, os_accepts = 100, os_flush_ok = True, os_close_ok = True\<rparr>"
  let ?bs = "[B_int16 [258, 3], B_float64 []]"
  have lim: "within_limits ReadLimits_default ?bs"
    by (simp add: within_limits_def ReadLimits_default_def length_encode_block width_of_def widths_def)
  have "bin_write ?os True False (of_blocks ?bs) ''f'' \<lparr>fs_files = Map.empty, fs_dirs = {}\<rparr>
      = Inr (success_status, \<lparr>fs_files = [''f'' \<mapsto> file_format ?bs], fs_dirs = {}\<rparr>)"
    by (simp add: bin_write_def bin_bytes_format write_stream_def finishWrite_def length_encode_block
        width_of_def widths_def)
  with bin_write_read_roundtrip [OF lim this, of "file_format ?bs" False BINController_empty]
  show ?thesis by auto
qed

text \<open>The controller refines its list of blocks: appending a block succeeds with the controller
  of the extended list unless the index space, the order list or the column is full (then nothing
  changes), and after it every block, old or new, is looked up by its index with all its values in
  order, each cast to the requested type.\<close>

theorem bin_store_refines:
  assumes "length bs < 2 ^ 64 - 1"
  shows "(case setContents vl b (of_blocks bs) of
            Inl e \<Rightarrow> store_full vl bs b
          | Inr c' \<Rightarrow> \<not> store_full vl bs b \<and> c' = of_blocks (bs @ [b])
              \<and> last_index c' = Inr (word_of_nat (length bs))
              \<and> map (\<lambda>i. contents cast (word_of_nat i) c') [0..<Suc (length bs)]
                  = map (map cast \<circ> block_values) (bs @ [b]))"
proof -
  have "length (bs @ [b]) < 2 ^ 64" using assms by simp
  then have look: "contents cast (word_of_nat i) (of_blocks (bs @ [b])) = map cast (block_values ((bs @ [b]) ! i))"
    if "i < Suc (length bs)" for i using that by (intro contents_of_blocks) auto
  have "map (\<lambda>i. contents cast (word_of_nat i) (of_blocks (bs @ [b]))) [0..<Suc (length bs)]
      = map (map cast \<circ> block_values) (bs @ [b])"
    by (rule nth_equalityI) (auto simp: look nth_append less_Suc_eq simp del: upt_Suc)
  moreover have "last_index (of_blocks (bs @ [b])) = Inr (word_of_nat (length bs))"
  proof -
    have "unat (word_of_nat (Suc (length bs)) :: u64) = Suc (length bs)"
      using assms by (simp add: unat_of_nat del: of_nat_Suc)
    then have "(word_of_nat (Suc (length bs)) :: u64) \<noteq> 0" by (metis unat_0 nat.distinct(1))
    then show ?thesis by (simp add: last_index_def of_blocks_def)
  qed
  ultimately show ?thesis by (simp add: setContents_of_blocks del: upt_Suc)
qed

theorem bin_store_refines_witness:
  "(case setContents \<lparr>vl_values = 10, vl_order = 10\<rparr> (B_int08 [7]) (of_blocks [B_int16 [258, 3]]) of
      Inl e \<Rightarrow> store_full \<lparr>vl_values = 10, vl_order = 10\<rparr> [B_int16 [258, 3]] (B_int08 [7])
    | Inr c' \<Rightarrow> \<not> store_full \<lparr>vl_values = 10, vl_order = 10\<rparr> [B_int16 [258, 3]] (B_int08 [7])
        \<and> c' = of_blocks ([B_int16 [258, 3]] @ [B_int08 [7]])
        \<and> last_index c' = Inr (word_of_nat (length [B_int16 [258, 3]]))
        \<and> map (\<lambda>i. contents id (word_of_nat i) c') [0..<Suc (length [B_int16 [258, 3]])]
            = map (map id \<circ> block_values) ([B_int16 [258, 3]] @ [B_int08 [7]]))"
  by (rule bin_store_refines) simp

text \<open>Replacing a file atomically either succeeds, and then the destination holds exactly the
  encoding of the controller, or fails and leaves the destination as it was; no file but the staging
  file changes in either case.\<close>

theorem bin_writeAtomic_all_or_nothing:
  assumes "\<And>i. staged_file (at_candidate env i) \<noteq> dst"
    and "\<And>i. fs_files fs (staged_file (at_candidate env i)) = None"
    and "\<forall>b \<in> set bs. block_size b < 2 ^ 64"
    and "bin_writeAtomic env os be (of_blocks bs) dst fs = Inr (status, fs')"
  shows "fs_files fs' dst = (if succeeded status then Some (file_format bs) else fs_files fs dst)
    \<and> (\<forall>q. q \<noteq> dst \<and> (\<forall>i. q \<noteq> staged_file (at_candidate env i)) \<longrightarrow> fs_files fs' q = fs_files fs q)"
  by (rule stream_writer.atomicWrite_all_or_nothing [OF assms(1, 2)])
     (use assms(3, 4) in \<open>simp add: bin_writeAtomic_def bin_bytes_format\<close>)

theorem bin_writeAtomic_all_or_nothing_witness:
  "\<exists>fs'. bin_writeAtomic
       \<lparr>at_candidate = (\<lambda>i. ''t''), at_mkdir = (\<lambda>i. Dir_created), at_rename_ok = True,
        at_remove_file_ok = True, at_remove_dir_ok = True\<rparr>
       \<lparr>os_open = True, os_accepts = 3, os_flush_ok = True, os_close_ok = True\<rparr>
       False (of_blocks [B_int08 [7]]) ''f'' \<lparr>fs_files = [''f'' \<mapsto> [1]], fs_dirs = {}\<rparr>
     = Inr (Failure writeFailure, fs') \<and> fs_files fs' ''f'' = Some [1]"
proof -
  let ?env = "\<lparr>at_candidate = (\<lambda>i. ''t''), at_mkdir = (\<lambda>i. Dir_created), at_rename_ok = True,
        at_remove_file_ok = True, at_remove_dir_ok = True\<rparr>"
  let ?os = "\<lparr>os_open = True, os_accepts = 3, os_flush_ok = True, os_close_ok = True\<rparr>"
  let ?fs = "\<lparr>fs_files = [''f'' \<mapsto> [1]], fs_dirs = {}\<rparr>"
  have "make_directory ?env 64 0 ?fs = Some (''t'', ?fs\<lparr>fs_dirs := {''t''}\<rparr>)"
    by (simp add: numeral_eq_Suc)
  then obtain fs' where run: "bin_writeAtomic ?env ?os False (of_blocks [B_int08 [7]]) ''f'' ?fs
      = Inr (Failure writeFailure, fs')"
    by (simp add: bin_writeAtomic_def bin_bytes_format atomicWrite_def write_stream_def finishWrite_def
        length_encode_block)
  have "fs_files fs' ''f'' = Some [1]"
    using bin_writeAtomic_all_or_nothing [OF _ _ _ run] by (simp add: staged_file_def)
  with run show ?thesis by blast
qed

end
