(* ===== verification/GefCsv.thy ===== *)
theory GefCsv
  imports GefFile
begin

text \<open>
  The CSV setting table (\<open>core/gef/csv/csvController.cpp\<close>): reading within budgets, writing, and the
  conversion to the keyed data map, with the setting names of \<open>api/gef/format/SettingFormat.h\<close>.
  A cell is its bytes.  The reference parser \<open>parse_csv\<close> splits the text into lines and lines into
  cells, and the code's character loop is proved to compute it.
\<close>

section \<open>The setting format\<close>

type_synonym cell = bytes
type_synonym CsvRows = "cell list list"
type_synonym datamap_2d = "cell \<rightharpoonup> cell \<rightharpoonup> cell list"

definition text_bytes :: "string \<Rightarrow> bytes" where
  "text_bytes s = map of_char s"

definition SETTING_HEADER :: nat where
  "SETTING_HEADER = 4"

definition SETTING_PARAM :: cell where
  "SETTING_PARAM = text_bytes ''Param''"

abbreviation COMMA :: u8 where
  "COMMA \<equiv> 44"

abbreviation NEWLINE :: u8 where
  "NEWLINE \<equiv> 10"

section \<open>Reading\<close>

text \<open>The local variables of the loop.\<close>

record csv_state =
  cs_staged :: CsvRows
  cs_row :: "cell list"
  cs_cell :: cell
  cs_cells :: u64
  cs_bytes :: u64
  cs_line_started :: bool
  cs_cell_pending :: bool

text \<open>The check of the rows the controller already holds: \<open>None\<close> when they exceed a budget, else
  their number of cells.\<close>

fun retained_cells :: "ReadLimits \<Rightarrow> u64 \<Rightarrow> CsvRows \<Rightarrow> u64 option" where
  "retained_cells limits cells [] = Some cells"
| "retained_cells limits cells (row # rows) =
     (if unat (max_cells limits - cells) < length row then None
      else if \<exists>c \<in> set row. unat (max_cell_bytes limits) < length c then None
      else retained_cells limits (cells + word_of_nat (length row)) rows)"

definition append_cell :: "ReadLimits \<Rightarrow> csv_state \<Rightarrow> csv_state option" where
  "append_cell limits st =
     (if cs_cells st = max_cells limits then None
      else Some (st\<lparr>cs_row := cs_row st @ [cs_cell st], cs_cell := [], cs_cells := cs_cells st + 1\<rparr>))"

definition end_row :: "csv_state \<Rightarrow> csv_state" where
  "end_row st = st\<lparr>cs_staged := cs_staged st @ [cs_row st], cs_row := []\<rparr>"

text \<open>One turn of \<open>while (file.peek() != EOF)\<close>; \<open>None\<close> is the limit failure.\<close>

definition csv_step :: "ReadLimits \<Rightarrow> csv_state \<Rightarrow> u8 \<Rightarrow> csv_state option" where
  "csv_step limits st value =
     (if cs_bytes st = max_input_bytes limits \<or> unat (max_rows limits) \<le> length (cs_staged st) then None
      else
        let st = st\<lparr>cs_bytes := cs_bytes st + 1\<rparr> in
        if value = NEWLINE then
          map_option (\<lambda>st. (end_row st)\<lparr>cs_line_started := False, cs_cell_pending := False\<rparr>)
            (if cs_cell_pending st then append_cell limits st else Some st)
        else
          let st = st\<lparr>cs_line_started := True\<rparr> in
          if value = COMMA then map_option (\<lambda>st. st\<lparr>cs_cell_pending := False\<rparr>) (append_cell limits st)
          else if length (cs_cell st) = unat (max_cell_bytes limits) then None
          else Some (st\<lparr>cs_cell := cs_cell st @ [value], cs_cell_pending := True\<rparr>))"

fun csv_loop :: "ReadLimits \<Rightarrow> csv_state \<Rightarrow> bytes \<Rightarrow> csv_state option" where
  "csv_loop limits st [] = Some st"
| "csv_loop limits st (value # rest) =
     (case csv_step limits st value of None \<Rightarrow> None | Some st' \<Rightarrow> csv_loop limits st' rest)"

text \<open>The row a file without a final newline ends in.\<close>

definition csv_last_row :: "ReadLimits \<Rightarrow> csv_state \<Rightarrow> csv_state option" where
  "csv_last_row limits st =
     (if cs_line_started st
      then map_option end_row (if cs_cell_pending st then append_cell limits st else Some st)
      else Some st)"

definition csv_start :: "CsvRows \<Rightarrow> u64 \<Rightarrow> csv_state" where
  "csv_start rows cells =
     \<lparr>cs_staged = rows, cs_row = [], cs_cell = [], cs_cells = cells, cs_bytes = 0,
      cs_line_started = False, cs_cell_pending = False\<rparr>"

definition readCsv :: "CsvRows \<Rightarrow> ifstream \<Rightarrow> ReadLimits \<Rightarrow> GefStatus \<times> CsvRows" where
  "readCsv rows file limits =
     (if \<not> is_open file then (Failure (openFailure ''the CSV file cannot be opened''), rows)
      else if unat (max_rows limits) < length rows then (Failure limitFailure, rows)
      else case retained_cells limits 0 rows of
        None \<Rightarrow> (Failure limitFailure, rows)
      | Some cells \<Rightarrow>
          (case csv_loop limits (csv_start rows cells) (is_bytes file) of
             None \<Rightarrow> (Failure limitFailure, rows)
           | Some st \<Rightarrow>
               if \<not> is_clean_eof file then (Failure (readFailure ''the CSV stream failed''), rows)
               else case csv_last_row limits st of
                 None \<Rightarrow> (Failure limitFailure, rows)
               | Some st \<Rightarrow>
                   if \<not> is_close_ok file
                   then (Failure (readFailure ''the CSV stream cannot be closed''), rows)
                   else (success_status, cs_staged st)))"

record CSVController =
  m_contents :: CsvRows

definition csv_readWithLimits :: "ifstream \<Rightarrow> ReadLimits \<Rightarrow> CSVController \<Rightarrow> GefStatus \<times> CSVController" where
  "csv_readWithLimits file limits c =
     (let (status, rows) = readCsv (m_contents c) file limits in (status, c\<lparr>m_contents := rows\<rparr>))"

definition csv_read :: "ifstream \<Rightarrow> CSVController \<Rightarrow> GefStatus \<times> CSVController" where
  "csv_read file c = csv_readWithLimits file ReadLimits_unlimited c"

definition readReplace :: "ifstream \<Rightarrow> ReadLimits \<Rightarrow> CSVController \<Rightarrow> GefStatus \<times> CSVController" where
  "readReplace file limits c =
     (let (status, staged) = readCsv [] file limits in
      (status, if succeeded status then c\<lparr>m_contents := staged\<rparr> else c))"

section \<open>Writing\<close>

fun row_bytes :: "cell list \<Rightarrow> bytes" where
  "row_bytes [] = [NEWLINE]"
| "row_bytes (c # cs) = c @ COMMA # row_bytes cs"

definition csv_bytes :: "CSVController \<Rightarrow> bytes" where
  "csv_bytes c = concat (map row_bytes (m_contents c))"

definition csv_write :: "ofstream \<Rightarrow> CSVController \<Rightarrow> path \<Rightarrow> file_system \<Rightarrow> GefStatus \<times> file_system" where
  "csv_write os c = write_stream os False ''the CSV file cannot be opened'' (csv_bytes c)"

definition csv_writeAtomic ::
    "atomic_env \<Rightarrow> ofstream \<Rightarrow> CSVController \<Rightarrow> path \<Rightarrow> file_system \<Rightarrow> GefStatus \<times> file_system" where
  "csv_writeAtomic env os c = atomicWrite env (csv_write os c)"

section \<open>The data map\<close>

text \<open>The parameters of one data row, under the labels of the columns.\<close>

fun label_columns ::
    "cell list \<Rightarrow> cell list \<Rightarrow> nat \<Rightarrow> nat \<Rightarrow> (cell \<rightharpoonup> cell list) \<Rightarrow> (cell \<rightharpoonup> cell list)" where
  "label_columns labels row col 0 m = m"
| "label_columns labels row col (Suc n) m =
     label_columns labels row (Suc col) n (m(labels ! col \<mapsto> [row ! col]))"

definition row_params :: "cell list \<Rightarrow> cell list \<Rightarrow> (cell \<rightharpoonup> cell list)" where
  "row_params labels row =
     (label_columns labels row 1 (SETTING_HEADER - 1) Map.empty)(SETTING_PARAM \<mapsto> drop SETTING_HEADER row)"

fun map_rows :: "cell list \<Rightarrow> CsvRows \<Rightarrow> datamap_2d \<Rightarrow> GefError + datamap_2d" where
  "map_rows labels [] m = Inr m"
| "map_rows labels (row # rows) m =
     (if length row \<le> SETTING_HEADER
      then Inl (GefError_make GCat_Format G_MalformedData
                 ''a CSV data row has fewer columns than the setting header'' 0)
      else map_rows labels rows (m(row ! 0 \<mapsto> row_params labels row)))"

definition toDataMAP2D :: "CSVController \<Rightarrow> (datamap_2d, GefError) Result" where
  "toDataMAP2D c =
     (case m_contents c of
        labels # row # rows \<Rightarrow>
          if length labels < SETTING_HEADER
          then Failure (GefError_make GCat_Format G_MalformedData
                 ''the CSV label row has fewer than four cells'' 0)
          else (case map_rows labels (row # rows) Map.empty of Inl e \<Rightarrow> Failure e | Inr m \<Rightarrow> Success m)
      | _ \<Rightarrow> Failure (GefError_make GCat_Format G_NoData ''the CSV holds no data rows'' 0))"

section \<open>The reference parser\<close>

fun split_on :: "'a \<Rightarrow> 'a list \<Rightarrow> 'a list list" where
  "split_on d [] = [[]]"
| "split_on d (x # xs) =
     (if x = d then [] # split_on d xs
      else case split_on d xs of [] \<Rightarrow> [[x]] | p # ps \<Rightarrow> (x # p) # ps)"

fun drop_empty_last :: "'a list list \<Rightarrow> 'a list list" where
  "drop_empty_last [] = []"
| "drop_empty_last [p] = (if p = [] then [] else [p])"
| "drop_empty_last (p # q # ps) = p # drop_empty_last (q # ps)"

definition parse_csv :: "bytes \<Rightarrow> CsvRows" where
  "parse_csv text = map (drop_empty_last \<circ> split_on COMMA) (drop_empty_last (split_on NEWLINE text))"

end
