(* ===== verification/GefCsvCorrect.thy ===== *)
theory GefCsvCorrect
  imports GefCsv
begin

text \<open>
  Correctness of the CSV table: the character loop computes the reference parser within the
  budgets and otherwise changes nothing, what is written is read back, and the data map holds each
  data row under its key.
\<close>

section \<open>The rows still to come\<close>

text \<open>What the loop appends from here on when no budget stops it, by its local variables.\<close>

definition last_cell :: "cell \<Rightarrow> cell list" where
  "last_cell cell = (if cell = [] then [] else [cell])"

fun coming_rows :: "cell list \<Rightarrow> cell \<Rightarrow> bool \<Rightarrow> bytes \<Rightarrow> CsvRows" where
  "coming_rows row cell started [] = (if started then [row @ last_cell cell] else [])"
| "coming_rows row cell started (v # rest) =
     (if v = NEWLINE then (row @ last_cell cell) # coming_rows [] [] False rest
      else if v = COMMA then coming_rows (row @ [cell]) [] True rest
      else coming_rows row (cell @ [v]) True rest)"

lemma split_on_not_Nil [simp]: "split_on d xs \<noteq> []"
  by (induction xs) (auto split: list.splits)

lemma drop_empty_last_Cons [simp]: "ps \<noteq> [] \<Longrightarrow> drop_empty_last (p # ps) = p # drop_empty_last ps"
  by (cases ps) auto

fun prepend :: "'a list \<Rightarrow> 'a list list \<Rightarrow> 'a list list" where
  "prepend c [] = [c]"
| "prepend c (p # ps) = (c @ p) # ps"

lemma prepend_not_Nil [simp]: "prepend c ps \<noteq> []"
  by (cases ps) auto

lemma prepend_Nil_split [simp]: "prepend [] (split_on d xs) = split_on d xs"
  by (cases "split_on d xs") auto

lemma split_on_other: "x \<noteq> d \<Longrightarrow> split_on d (x # xs) = prepend [x] (split_on d xs)"
  by (simp split: list.splits)

lemma prepend_prepend [simp]: "prepend a (prepend b ps) = prepend (a @ b) ps"
  by (cases ps) auto

lemma drop_empty_last_cell: "drop_empty_last [cell] = last_cell cell"
  by (simp add: last_cell_def)

text \<open>The rest of the current line, with the cells it already has.\<close>

definition line_rest :: "cell list \<Rightarrow> cell \<Rightarrow> bytes \<Rightarrow> cell list" where
  "line_rest row cell line = row @ drop_empty_last (prepend cell (split_on COMMA line))"

lemma line_rest_simps [simp]:
  "line_rest row cell [] = row @ last_cell cell"
  "line_rest row cell (COMMA # line) = line_rest (row @ [cell]) [] line"
  "v \<noteq> COMMA \<Longrightarrow> line_rest row cell (v # line) = line_rest row (cell @ [v]) line"
  by (simp_all add: line_rest_def split_on_other last_cell_def del: split_on.simps(2)) simp_all

lemma line_rest_start: "line_rest [] [] line = drop_empty_last (split_on COMMA line)"
  by (simp add: line_rest_def)

lemma coming_rows_split:
  "coming_rows row cell started input =
     (case split_on NEWLINE input of
        [] \<Rightarrow> []
      | [line] \<Rightarrow> if started \<or> line \<noteq> [] then [line_rest row cell line] else []
      | line # lines \<Rightarrow> line_rest row cell line # map (drop_empty_last \<circ> split_on COMMA) (drop_empty_last lines))"
proof (induction input arbitrary: row cell started)
  case Nil
  then show ?case by simp
next
  case (Cons v input)
  obtain l ls where split: "split_on NEWLINE input = l # ls" by (cases "split_on NEWLINE input") auto
  show ?case
    using Cons.IH [of "[]" "[]" False] Cons.IH [of "row @ [cell]" "[]" True] Cons.IH [of row "cell @ [v]" True]
    by (cases ls) (auto simp: split line_rest_start split: if_splits)
qed

lemma coming_rows_parse: "coming_rows [] [] False input = parse_csv input"
proof -
  obtain l ls where "split_on NEWLINE input = l # ls" by (cases "split_on NEWLINE input") auto
  then show ?thesis
    by (cases ls) (auto simp: coming_rows_split parse_csv_def line_rest_def)
qed


section \<open>The loop within its budgets\<close>

abbreviation cell_total :: "CsvRows \<Rightarrow> nat" where
  "cell_total rows \<equiv> sum_list (map length rows)"

definition csv_fits :: "ReadLimits \<Rightarrow> CsvRows \<Rightarrow> bool" where
  "csv_fits limits rows \<longleftrightarrow>
     length rows \<le> unat (max_rows limits) \<and> cell_total rows \<le> unat (max_cells limits)
     \<and> (\<forall>c \<in> set (concat rows). length c \<le> unat (max_cell_bytes limits))"

definition csv_state_ok :: "ReadLimits \<Rightarrow> csv_state \<Rightarrow> bool" where
  "csv_state_ok limits st \<longleftrightarrow>
     csv_fits limits (cs_staged st)
     \<and> unat (cs_cells st) = cell_total (cs_staged st) + length (cs_row st)
     \<and> cs_cells st \<le> max_cells limits \<and> cs_bytes st \<le> max_input_bytes limits
     \<and> (\<forall>c \<in> set (cs_row st). length c \<le> unat (max_cell_bytes limits))
     \<and> length (cs_cell st) \<le> unat (max_cell_bytes limits)
     \<and> cs_cell_pending st = (cs_cell st \<noteq> [])
     \<and> (cs_line_started st \<or> (cs_row st = [] \<and> cs_cell st = []))
     \<and> (cs_row st \<noteq> [] \<or> cs_cell st \<noteq> [] \<or> cs_line_started st \<longrightarrow> length (cs_staged st) < unat (max_rows limits))"

definition csv_coming :: "csv_state \<Rightarrow> bytes \<Rightarrow> CsvRows" where
  "csv_coming st rest = cs_staged st @ coming_rows (cs_row st) (cs_cell st) (cs_line_started st) rest"

lemma csv_fits_snoc:
  "csv_fits limits (rows @ [row]) \<longleftrightarrow> csv_fits limits rows \<and> length rows < unat (max_rows limits)
     \<and> cell_total rows + length row \<le> unat (max_cells limits)
     \<and> (\<forall>c \<in> set row. length c \<le> unat (max_cell_bytes limits))"
  by (auto simp: csv_fits_def)

lemma csv_fits_prefix: "csv_fits limits (rows @ rows') \<Longrightarrow> csv_fits limits rows"
  by (auto simp: csv_fits_def)

lemma coming_rows_first:
  "\<exists>cs rs. coming_rows row cell True rest = (row @ cs) # rs \<and> (cell \<noteq> [] \<longrightarrow> (\<exists>d ds. cs = (cell @ d) # ds))"
proof (induction rest arbitrary: row cell)
  case Nil
  then show ?case by (auto simp: last_cell_def)
next
  case (Cons v rest)
  show ?case
    using Cons.IH [of "row @ [cell]" "[]"] Cons.IH [of row "cell @ [v]"]
    by (cases "v = NEWLINE"; cases "v = COMMA") (auto simp: last_cell_def)
qed

lemma coming_rows_count: "coming_rows row cell started (v # rest) \<noteq> []"
  using coming_rows_first [of "row @ [cell]" "[]" rest] coming_rows_first [of row "cell @ [v]" rest] by auto

lemma count_room: "(a :: u64) \<le> b \<Longrightarrow> a \<noteq> b \<Longrightarrow> unat (a + 1) = Suc (unat a) \<and> a + 1 \<le> b"
proof -
  assume "a \<le> b" and "a \<noteq> b"
  then have "a < b" by simp
  then show ?thesis using unat_succ_less [of a b] by (simp add: word_le_nat_alt word_less_nat_alt)
qed

lemma append_cell_ok:
  assumes "csv_state_ok limits st" and "append_cell limits st = Some st'"
  shows "cs_staged st' = cs_staged st" "cs_row st' = cs_row st @ [cs_cell st]" "cs_cell st' = []"
    "unat (cs_cells st') = Suc (unat (cs_cells st))" "cs_cells st' \<le> max_cells limits"
    "cs_bytes st' = cs_bytes st" "cs_line_started st' = cs_line_started st"
  using assms count_room [of "cs_cells st" "max_cells limits"]
  by (auto simp: append_cell_def csv_state_ok_def split: if_splits)


lemma csv_step_ok:
  assumes "csv_state_ok limits st" and "csv_step limits st v = Some st'"
  shows "csv_state_ok limits st' \<and> unat (cs_bytes st') = Suc (unat (cs_bytes st))
    \<and> csv_coming st' rest = csv_coming st (v # rest)"
proof -
  have bytes: "unat (cs_bytes st + 1) = Suc (unat (cs_bytes st))" "cs_bytes st + 1 \<le> max_input_bytes limits"
    using assms count_room [of "cs_bytes st" "max_input_bytes limits"]
    by (auto simp: csv_step_def csv_state_ok_def split: if_splits)
  have rows: "length (cs_staged st) < unat (max_rows limits)"
    using assms(2) by (auto simp: csv_step_def split: if_splits)
  note cells = count_room [of "cs_cells st" "max_cells limits"]
  show ?thesis
    using assms bytes rows cells
    by (auto simp: csv_step_def csv_state_ok_def csv_coming_def append_cell_def end_row_def Let_def last_cell_def
        csv_fits_snoc word_le_nat_alt split: if_splits)
qed

lemma csv_step_over:
  assumes "csv_state_ok limits st" and "csv_step limits st v = None"
    and "unat (cs_bytes st) + Suc (length rest) \<le> unat (max_input_bytes limits)"
  shows "\<not> csv_fits limits (csv_coming st (v # rest))"
proof
  assume fits: "csv_fits limits (csv_coming st (v # rest))"
  have rows: "length (cs_staged st) < unat (max_rows limits)"
    using fits coming_rows_count [of "cs_row st" "cs_cell st" "cs_line_started st" v rest]
    by (cases "coming_rows (cs_row st) (cs_cell st) (cs_line_started st) (v # rest)")
       (auto simp: csv_fits_def csv_coming_def)
  have bytes: "cs_bytes st \<noteq> max_input_bytes limits" using assms(3) by auto
  have full: "\<not> cell_total (cs_staged st) + length (cs_row st) < unat (max_cells limits)"
    if "cs_cells st = max_cells limits" using that assms(1) by (simp add: csv_state_ok_def)
  consider (newline) "v = NEWLINE" "cs_cells st = max_cells limits" "cs_cell st \<noteq> []"
    | (comma) "v = COMMA" "cs_cells st = max_cells limits"
    | (cell) "v \<noteq> NEWLINE" "v \<noteq> COMMA" "length (cs_cell st) = unat (max_cell_bytes limits)"
    using assms(1, 2) rows bytes
    by (auto simp: csv_step_def csv_state_ok_def append_cell_def Let_def split: if_splits)
  then show False
  proof cases
    case newline
    then show False using fits full by (auto simp: csv_fits_def csv_coming_def last_cell_def)
  next
    case comma
    obtain cs rs where "coming_rows (cs_row st @ [cs_cell st]) [] True rest = ((cs_row st @ [cs_cell st]) @ cs) # rs"
      using coming_rows_first by blast
    then show False using comma fits full by (auto simp: csv_fits_def csv_coming_def)
  next
    case cell
    obtain ds rs d where "coming_rows (cs_row st) (cs_cell st @ [v]) True rest
        = (cs_row st @ (((cs_cell st @ [v]) @ d) # ds)) # rs"
      using coming_rows_first [of "cs_row st" "cs_cell st @ [v]" rest] by auto
    then show False using cell fits by (auto simp: csv_fits_def csv_coming_def)
  qed
qed

definition csv_scan :: "ReadLimits \<Rightarrow> csv_state \<Rightarrow> bytes \<Rightarrow> CsvRows option" where
  "csv_scan limits st rest =
     Option.bind (csv_loop limits st rest) (\<lambda>st. map_option cs_staged (csv_last_row limits st))"

lemma csv_last_row_exact:
  "csv_state_ok limits st \<Longrightarrow>
   map_option cs_staged (csv_last_row limits st)
     = (if csv_fits limits (csv_coming st []) then Some (csv_coming st []) else None)"
  using count_room [of "cs_cells st" "max_cells limits"]
  by (auto simp: csv_last_row_def csv_state_ok_def csv_coming_def append_cell_def end_row_def last_cell_def
      csv_fits_snoc word_le_nat_alt word_unat_eq_iff split: if_splits)

lemma csv_scan_exact:
  "csv_state_ok limits st \<Longrightarrow>
   csv_scan limits st rest =
     (if unat (cs_bytes st) + length rest \<le> unat (max_input_bytes limits) \<and> csv_fits limits (csv_coming st rest)
      then Some (csv_coming st rest) else None)"
proof (induction rest arbitrary: st)
  case Nil
  then show ?case
    by (auto simp: csv_scan_def csv_last_row_exact csv_state_ok_def word_le_nat_alt)
next
  case (Cons v rest)
  show ?case
  proof (cases "csv_step limits st v")
    case None
    then show ?thesis using csv_step_over [OF Cons.prems None, of rest] by (auto simp: csv_scan_def)
  next
    case (Some st')
    with csv_step_ok [OF Cons.prems Some, of rest] Cons.IH [of st']
    show ?thesis by (simp add: csv_scan_def)
  qed
qed

lemma retained_cells_exact:
  "cells \<le> max_cells limits \<Longrightarrow>
   retained_cells limits cells rows =
     (if unat cells + cell_total rows \<le> unat (max_cells limits)
         \<and> (\<forall>c \<in> set (concat rows). length c \<le> unat (max_cell_bytes limits))
      then Some (word_of_nat (unat cells + cell_total rows)) else None)"
proof (induction rows arbitrary: cells)
  case Nil
  then show ?case by (simp add: word_le_nat_alt)
next
  case (Cons row rows)
  show ?case
  proof (cases "length row \<le> unat (max_cells limits - cells)")
    case True
    then have room: "unat cells + length row \<le> unat (max_cells limits)"
      using Cons.prems by (simp add: unat_sub word_le_nat_alt)
    then have len: "unat (word_of_nat (length row) :: u64) = length row"
      using unat_lt_size [of "max_cells limits"] by (simp add: unat_of_nat)
    then have sum: "unat (cells + word_of_nat (length row)) = unat cells + length row"
      using room unat_lt_size [of "max_cells limits"] by (simp add: unat_add_bounded)
    then show ?thesis
      using Cons.IH [of "cells + word_of_nat (length row)"] True room
      by (auto simp: word_le_nat_alt not_less not_le add.assoc bex_Un)
  next
    case False
    then show ?thesis using Cons.prems by (auto simp: unat_sub word_le_nat_alt)
  qed
qed


text \<open>What a failed read of an open stream that does not end cleanly reports: the failed stream, or the
  budget if the bytes before the failure already exceeded it.\<close>

definition csv_within :: "ReadLimits \<Rightarrow> CsvRows \<Rightarrow> bytes \<Rightarrow> bool" where
  "csv_within limits rows text \<longleftrightarrow>
     length text \<le> unat (max_input_bytes limits) \<and> csv_fits limits (rows @ parse_csv text)"

definition csv_read_errors :: "ReadLimits \<Rightarrow> CsvRows \<Rightarrow> ifstream \<Rightarrow> GefError set" where
  "csv_read_errors limits rows file =
     (if \<not> is_open file then {openFailure ''the CSV file cannot be opened''}
      else if is_clean_eof file
      then (if csv_within limits rows (is_bytes file) then {readFailure ''the CSV stream cannot be closed''}
            else {limitFailure})
      else (if csv_within limits rows (is_bytes file) then {} else {limitFailure})
           \<union> {readFailure ''the CSV stream failed''})"

lemma readCsv_cases:
  "\<exists>e \<in> csv_read_errors limits rows file. readCsv rows file limits =
     (if is_open file \<and> is_clean_eof file \<and> is_close_ok file \<and> csv_within limits rows (is_bytes file)
      then (success_status, rows @ parse_csv (is_bytes file)) else (Failure e, rows))"
proof (cases "csv_fits limits rows")
  case False
  then have "\<not> csv_fits limits (rows @ parse_csv (is_bytes file))" using csv_fits_prefix by blast
  moreover have "length rows \<le> unat (max_rows limits) \<Longrightarrow> retained_cells limits 0 rows = None"
    using False by (auto simp: retained_cells_exact csv_fits_def)
  ultimately show ?thesis by (auto simp: readCsv_def not_less csv_read_errors_def csv_within_def)
next
  case True
  let ?cells = "word_of_nat (cell_total rows) :: u64" and ?text = "is_bytes file"
  have retained: "retained_cells limits 0 rows = Some ?cells"
    using True by (simp add: retained_cells_exact csv_fits_def)
  have "unat ?cells = cell_total rows"
    using True unat_lt_size [of "max_cells limits"] by (simp add: csv_fits_def unat_of_nat)
  then have "csv_state_ok limits (csv_start rows ?cells)"
    using True by (auto simp: csv_state_ok_def csv_start_def csv_fits_def word_le_nat_alt)
  from csv_scan_exact [OF this, of ?text]
  have scan: "csv_scan limits (csv_start rows ?cells) ?text =
      (if length ?text \<le> unat (max_input_bytes limits) \<and> csv_fits limits (rows @ parse_csv ?text)
       then Some (rows @ parse_csv ?text) else None)"
    by (simp add: csv_start_def csv_coming_def coming_rows_parse)
  have "\<not> unat (max_rows limits) < length rows" using True by (simp add: csv_fits_def)
  then show ?thesis
    using scan retained
    by (auto simp: readCsv_def csv_scan_def csv_read_errors_def csv_within_def split: option.splits if_splits Option.bind_splits)
qed

section \<open>Writing\<close>

definition clean_cell :: "cell \<Rightarrow> bool" where
  "clean_cell c \<longleftrightarrow> COMMA \<notin> set c \<and> NEWLINE \<notin> set c"

lemma coming_rows_clean:
  "clean_cell c \<Longrightarrow> coming_rows row cell started (c @ COMMA # rest) = coming_rows (row @ [cell @ c]) [] True rest"
  by (induction c arbitrary: cell started) (auto simp: clean_cell_def)

lemma coming_rows_row:
  "\<forall>c \<in> set cs. clean_cell c \<Longrightarrow>
   coming_rows row [] started (row_bytes cs @ rest) = (row @ cs) # coming_rows [] [] False rest"
  by (induction cs arbitrary: row started) (auto simp: coming_rows_clean last_cell_def)

lemma parse_csv_written:
  "\<forall>c \<in> set (concat rows). clean_cell c \<Longrightarrow> parse_csv (concat (map row_bytes rows)) = rows"
  unfolding coming_rows_parse [symmetric]
  by (induction rows) (auto simp: coming_rows_row)

lemma length_row_bytes: "length (row_bytes cs) = Suc (sum_list (map (\<lambda>c. Suc (length c)) cs))"
  by (induction cs) auto

interpretation csv_writer: staged_writer "csv_write os c" "csv_bytes c" for os c
  by unfold_locales (auto simp: csv_write_def stream_writer.write_frame dest: stream_writer.write_success)

section \<open>The data map\<close>

definition params_of :: "cell list \<Rightarrow> cell list \<Rightarrow> (cell \<rightharpoonup> cell list)" where
  "params_of labels row name =
     (if name = SETTING_PARAM then Some (drop 4 row)
      else if name = labels ! 3 then Some [row ! 3]
      else if name = labels ! 2 then Some [row ! 2]
      else if name = labels ! 1 then Some [row ! 1] else None)"

lemma row_params_params_of: "row_params labels row = params_of labels row"
  by (rule ext) (simp add: row_params_def params_of_def SETTING_HEADER_def numeral_eq_Suc)

lemma map_rows_lookup:
  "map_rows labels rows m =
     (if \<exists>row \<in> set rows. length row \<le> 4
      then Inl (GefError_make GCat_Format G_MalformedData
                 ''a CSV data row has fewer columns than the setting header'' 0)
      else Inr (\<lambda>key. case List.find (\<lambda>row. row ! 0 = key) (rev rows) of
                        None \<Rightarrow> m key | Some row \<Rightarrow> Some (params_of labels row)))"
proof (induction rows arbitrary: m)
  case Nil
  then show ?case by simp
next
  case (Cons row rows)
  have snoc: "List.find P (xs @ [x]) = (case List.find P xs of None \<Rightarrow> (if P x then Some x else None) | Some y \<Rightarrow> Some y)"
    for P :: "cell list \<Rightarrow> bool" and xs x by (induction xs) auto
  show ?case
    by (auto simp: Cons.IH SETTING_HEADER_def row_params_params_of snoc fun_eq_iff split: option.splits)
qed

section \<open>Properties\<close>

text \<open>C26. Reading a CSV file, whatever the stream and the limits.  The read succeeds exactly when
  the stream opens, ends cleanly and closes, its bytes are within the input budget and the resulting
  table (the retained rows included) is within the row, cell and cell-size budgets; it then appends
  exactly the rows of the reference parser.  Otherwise the table is unchanged, however far the
  parsing had come, and the error is the one of the failure: the stream cannot be opened, a budget is
  exceeded, the stream failed, or it cannot be closed (on a stream that fails part-way, the budget
  only where the bytes exceed it).\<close>

theorem csv_read_exact:
  "\<exists>e \<in> csv_read_errors limits (m_contents c) file.
     csv_readWithLimits file limits c =
       (if is_open file \<and> is_clean_eof file \<and> is_close_ok file
           \<and> length (is_bytes file) \<le> unat (max_input_bytes limits)
           \<and> csv_fits limits (m_contents c @ parse_csv (is_bytes file))
        then (success_status, c\<lparr>m_contents := m_contents c @ parse_csv (is_bytes file)\<rparr>)
        else (Failure e, c))"
  using readCsv_cases [of limits "m_contents c" "file"]
  by (auto simp: csv_readWithLimits_def csv_within_def split: if_splits)

theorem csv_read_exact_witness:
  "csv_readWithLimits (good_stream (text_bytes ''a,,b'' @ [10, 10] @ text_bytes ''c'')) ReadLimits_default
     \<lparr>m_contents = [[text_bytes ''z'']]\<rparr>
   = (success_status, \<lparr>m_contents = [[text_bytes ''z''], [text_bytes ''a'', [], text_bytes ''b''], [], [text_bytes ''c'']]\<rparr>)"
  using csv_read_exact [of ReadLimits_default "\<lparr>m_contents = [[text_bytes ''z'']]\<rparr>"
      "good_stream (text_bytes ''a,,b'' @ [10, 10] @ text_bytes ''c'')"]
  by (simp add: good_stream_def text_bytes_def of_char_def parse_csv_def csv_fits_def ReadLimits_default_def)


text \<open>What is written is read back: when every cell is free of commas and newlines and the
  write succeeds, replacing a table from the file with limits that admit it gives the table that was
  written, empty cells and empty rows included.\<close>

theorem csv_write_read_roundtrip:
  assumes "\<forall>cl \<in> set (concat (m_contents c)). clean_cell cl"
    and "csv_write os c p fs = (success_status, fs')" and "fs_files fs' p = Some bytes"
    and "length bytes \<le> unat (max_input_bytes limits)" and "csv_fits limits (m_contents c)"
  shows "readReplace (good_stream bytes) limits d = (success_status, d\<lparr>m_contents := m_contents c\<rparr>)"
proof -
  have "bytes = csv_bytes c"
    using assms(2, 3) finishWrite_succeeded [of os "csv_bytes c"]
    by (auto simp: csv_write_def write_stream_def Let_def split: if_splits)
  then have "parse_csv bytes = m_contents c" using parse_csv_written assms(1) by (simp add: csv_bytes_def)
  then show ?thesis
    using readCsv_cases [of limits "[]" "good_stream bytes"] assms(4, 5)
    by (auto simp: readReplace_def good_stream_def csv_within_def)
qed

theorem csv_write_read_roundtrip_witness:
  "\<exists>fs'. csv_write \<lparr>os_open = True, os_accepts = 100, os_flush_ok = True, os_close_ok = True\<rparr>
       \<lparr>m_contents = [[[65], []], [], [[66, 32]]]\<rparr> ''f'' \<lparr>fs_files = Map.empty, fs_dirs = {}\<rparr> = (success_status, fs')
   \<and> readReplace (good_stream (the (fs_files fs' ''f''))) ReadLimits_default \<lparr>m_contents = [[[67]]]\<rparr>
       = (success_status, \<lparr>m_contents = [[[65], []], [], [[66, 32]]]\<rparr>)"
proof -
  let ?os = "\<lparr>os_open = True, os_accepts = 100, os_flush_ok = True, os_close_ok = True\<rparr>"
  let ?c = "\<lparr>m_contents = [[[65], []], [], [[66, 32]]]\<rparr>"
  have "csv_write ?os ?c ''f'' \<lparr>fs_files = Map.empty, fs_dirs = {}\<rparr>
      = (success_status, \<lparr>fs_files = [''f'' \<mapsto> csv_bytes ?c], fs_dirs = {}\<rparr>)"
    by (simp add: csv_write_def write_stream_def finishWrite_def csv_bytes_def)
  then show ?thesis
    using csv_write_read_roundtrip [of ?c ?os "''f''" "\<lparr>fs_files = Map.empty, fs_dirs = {}\<rparr>" _ "csv_bytes ?c"
        ReadLimits_default "\<lparr>m_contents = [[[67]]]\<rparr>"]
    by (simp add: clean_cell_def csv_fits_def ReadLimits_default_def csv_bytes_def)
qed

text \<open>The data map: conversion succeeds exactly for a table with at least four labels, at least
  one data row and more than four cells in every data row, and then maps the key of each data row (of
  the last one with that key) to its labelled cells and, under \<open>Param\<close>, to all cells from the fifth.\<close>

theorem csv_datamap_exact:
  "toDataMAP2D c = Success m \<longleftrightarrow>
    (\<exists>labels data. m_contents c = labels # data \<and> data \<noteq> [] \<and> 4 \<le> length labels
       \<and> (\<forall>row \<in> set data. 4 < length row)
       \<and> m = (\<lambda>key. map_option (params_of labels) (List.find (\<lambda>row. row ! 0 = key) (rev data))))"
proof -
  have *: "(\<lambda>key. case f key of None \<Rightarrow> None | Some row \<Rightarrow> Some (params_of labels row))
      = (\<lambda>key. map_option (params_of labels) (f key))" for f labels
    by (auto simp: fun_eq_iff split: option.splits)
  show ?thesis
    by (cases "m_contents c"; cases "tl (m_contents c)")
       (auto simp: toDataMAP2D_def map_rows_lookup SETTING_HEADER_def * not_less not_le
         simp del: rev.simps split: if_splits)
qed

theorem csv_datamap_exact_witness:
  "\<exists>m. toDataMAP2D \<lparr>m_contents = [map text_bytes [''Key'', ''Category'', ''Num'', ''Remark''],
       map text_bytes [''a'', ''enum'', ''1'', ''r'', ''9''], map text_bytes [''a'', ''int08'', ''2'', ''s'', ''7'', ''8'']]\<rparr> = Success m
    \<and> Option.bind (m (text_bytes ''a'')) (\<lambda>p. p SETTING_PARAM) = Some [text_bytes ''7'', text_bytes ''8'']"
proof -
  let ?rows = "[map text_bytes [''Key'', ''Category'', ''Num'', ''Remark''],
       map text_bytes [''a'', ''enum'', ''1'', ''r'', ''9''], map text_bytes [''a'', ''int08'', ''2'', ''s'', ''7'', ''8'']]"
  let ?m = "\<lambda>key. map_option (params_of (hd ?rows)) (List.find (\<lambda>row. row ! 0 = key) (rev (tl ?rows)))"
  have "toDataMAP2D \<lparr>m_contents = ?rows\<rparr> = Success ?m"
    by (rule csv_datamap_exact [THEN iffD2]) simp
  then show ?thesis by (intro exI [of _ ?m]) (simp add: params_of_def)
qed

text \<open>Replacing a CSV file atomically either puts exactly the written table at the destination
  or leaves the destination, and every file but the staging file, as it was.\<close>

theorem csv_writeAtomic_all_or_nothing:
  assumes "\<And>i. staged_file (at_candidate env i) \<noteq> dst"
    and "\<And>i. fs_files fs (staged_file (at_candidate env i)) = None"
    and "csv_writeAtomic env os c dst fs = (status, fs')"
  shows "fs_files fs' dst = (if succeeded status then Some (csv_bytes c) else fs_files fs dst)
    \<and> (\<forall>q. q \<noteq> dst \<and> (\<forall>i. q \<noteq> staged_file (at_candidate env i)) \<longrightarrow> fs_files fs' q = fs_files fs q)"
  by (rule csv_writer.atomicWrite_all_or_nothing [OF assms(1, 2)])
     (use assms(3) in \<open>simp add: csv_writeAtomic_def\<close>)

theorem csv_writeAtomic_all_or_nothing_witness:
  "\<exists>fs'. csv_writeAtomic
       \<lparr>at_candidate = (\<lambda>i. ''t''), at_mkdir = (\<lambda>i. Dir_created), at_rename_ok = True,
        at_remove_file_ok = True, at_remove_dir_ok = True\<rparr>
       \<lparr>os_open = True, os_accepts = 9, os_flush_ok = True, os_close_ok = True\<rparr>
       \<lparr>m_contents = [[[65]]]\<rparr> ''f'' \<lparr>fs_files = [''f'' \<mapsto> [1]], fs_dirs = {}\<rparr>
     = (success_status, fs') \<and> fs_files fs' ''f'' = Some [65, 44, 10]"
proof -
  let ?env = "\<lparr>at_candidate = (\<lambda>i. ''t''), at_mkdir = (\<lambda>i. Dir_created), at_rename_ok = True,
        at_remove_file_ok = True, at_remove_dir_ok = True\<rparr>"
  let ?os = "\<lparr>os_open = True, os_accepts = 9, os_flush_ok = True, os_close_ok = True\<rparr>"
  let ?fs = "\<lparr>fs_files = [''f'' \<mapsto> [1]], fs_dirs = {}\<rparr>"
  have "make_directory ?env 64 0 ?fs = Some (''t'', ?fs\<lparr>fs_dirs := {''t''}\<rparr>)"
    by (simp add: numeral_eq_Suc)
  then obtain fs' where run: "csv_writeAtomic ?env ?os \<lparr>m_contents = [[[65]]]\<rparr> ''f'' ?fs = (success_status, fs')"
    by (simp add: csv_writeAtomic_def csv_write_def csv_bytes_def atomicWrite_def write_stream_def finishWrite_def)
  have "fs_files fs' ''f'' = Some [65, 44, 10]"
    using csv_writeAtomic_all_or_nothing [OF _ _ run] by (simp add: staged_file_def csv_bytes_def)
  with run show ?thesis by blast
qed

end
