(* ===== verification/XptError.thy ===== *)
theory XptError
  imports WseResult
begin

text \<open>
  The transport error value (\<open>api/xpt/error/TransportError.h\<close>,
  \<open>core/xpt/error/TransportError.cpp\<close>), the binding error value
  (\<open>core/wse/binding/Error.cpp\<close>) and the adapter between them
  (\<open>core/xpt/binding/XptErrorAdapter.cpp\<close>), with what the adapter keeps of the error's meaning.
\<close>

section \<open>TransportError\<close>

datatype eTransportErrorCategory =
    XCat_None | XCat_Validation | XCat_Resolution | XCat_Connection | XCat_InputOutput
  | XCat_Timeout | XCat_Cancellation | XCat_Protocol | XCat_Security | XCat_Http

datatype eTransportErrorCode =
    X_None | X_InvalidArgument | X_HostNotFound | X_AddressUnavailable | X_ConnectionRefused
  | X_ConnectionReset | X_NetworkUnreachable | X_NotConnected | X_RemoteClosed | X_TimedOut
  | X_Cancelled | X_BindFailed | X_SendFailed | X_ReceiveFailed | X_MessageTooLarge
  | X_DatagramTruncated | X_ResourceExhausted | X_Unsupported | X_Unknown | X_OpenFailed
  | X_ConfigurationFailed | X_HttpStatusError | X_ResponseTooLarge | X_SecurityFailed

record TransportError =
  te_category :: eTransportErrorCategory
  te_code :: eTransportErrorCode
  te_message :: string
  te_native_code :: int

definition TransportError_none :: TransportError where
  "TransportError_none =
     \<lparr>te_category = XCat_None, te_code = X_None, te_message = [], te_native_code = 0\<rparr>"

definition TransportError_make ::
    "eTransportErrorCategory \<Rightarrow> eTransportErrorCode \<Rightarrow> string \<Rightarrow> int \<Rightarrow> TransportError" where
  "TransportError_make category code message native =
     \<lparr>te_category = category, te_code = code, te_message = message, te_native_code = native\<rparr>"

definition te_ok :: "TransportError \<Rightarrow> bool" where
  "te_ok e \<longleftrightarrow> te_category e = XCat_None \<and> te_code e = X_None"

type_synonym TransportStatus = "TransportError Status"

interpretation xpt_error: error_value te_ok TransportError_none
  by unfold_locales (simp add: te_ok_def TransportError_none_def)

lemma TransportError_make_sel [simp]:
  "te_category (TransportError_make a b m n) = a"
  "te_code (TransportError_make a b m n) = b"
  "te_message (TransportError_make a b m n) = m"
  "te_native_code (TransportError_make a b m n) = n"
  by (simp_all add: TransportError_make_def)

lemma te_ok_make [simp]: "te_ok (TransportError_make a b m n) \<longleftrightarrow> a = XCat_None \<and> b = X_None"
  by (simp add: te_ok_def)

text \<open>The value the enumeration gives a code, which the binding error carries.\<close>

fun transport_code_value :: "eTransportErrorCode \<Rightarrow> int" where
  "transport_code_value X_None = 0"
| "transport_code_value X_InvalidArgument = 1"
| "transport_code_value X_HostNotFound = 2"
| "transport_code_value X_AddressUnavailable = 3"
| "transport_code_value X_ConnectionRefused = 4"
| "transport_code_value X_ConnectionReset = 5"
| "transport_code_value X_NetworkUnreachable = 6"
| "transport_code_value X_NotConnected = 7"
| "transport_code_value X_RemoteClosed = 8"
| "transport_code_value X_TimedOut = 9"
| "transport_code_value X_Cancelled = 10"
| "transport_code_value X_BindFailed = 11"
| "transport_code_value X_SendFailed = 12"
| "transport_code_value X_ReceiveFailed = 13"
| "transport_code_value X_MessageTooLarge = 14"
| "transport_code_value X_DatagramTruncated = 15"
| "transport_code_value X_ResourceExhausted = 16"
| "transport_code_value X_Unsupported = 17"
| "transport_code_value X_Unknown = 18"
| "transport_code_value X_OpenFailed = 19"
| "transport_code_value X_ConfigurationFailed = 20"
| "transport_code_value X_HttpStatusError = 21"
| "transport_code_value X_ResponseTooLarge = 22"
| "transport_code_value X_SecurityFailed = 23"

section \<open>The binding error and the adapter\<close>

datatype eErrorCategory =
    BCat_None | BCat_InvalidArgument | BCat_NotFound | BCat_InvalidState | BCat_InputOutput
  | BCat_Timeout | BCat_Cancellation | BCat_Protocol | BCat_Security | BCat_Unsupported
  | BCat_ResourceExhausted | BCat_Internal

record Error =
  be_category :: eErrorCategory
  be_code :: int
  be_message :: string
  be_native_code :: int

definition Error_none :: Error where
  "Error_none = \<lparr>be_category = BCat_None, be_code = 0, be_message = [], be_native_code = 0\<rparr>"

definition Error_make :: "eErrorCategory \<Rightarrow> int \<Rightarrow> string \<Rightarrow> int \<Rightarrow> Error" where
  "Error_make category code message native =
     \<lparr>be_category = category, be_code = code, be_message = message, be_native_code = native\<rparr>"

definition be_ok :: "Error \<Rightarrow> bool" where
  "be_ok e \<longleftrightarrow> be_category e = BCat_None"

interpretation binding_error: error_value be_ok Error_none
  by unfold_locales (simp add: be_ok_def Error_none_def)

fun binding_category :: "eTransportErrorCategory \<Rightarrow> eErrorCategory" where
  "binding_category XCat_Validation = BCat_InvalidArgument"
| "binding_category XCat_Resolution = BCat_NotFound"
| "binding_category XCat_Connection = BCat_InputOutput"
| "binding_category XCat_InputOutput = BCat_InputOutput"
| "binding_category XCat_Timeout = BCat_Timeout"
| "binding_category XCat_Cancellation = BCat_Cancellation"
| "binding_category XCat_Protocol = BCat_Protocol"
| "binding_category XCat_Http = BCat_Protocol"
| "binding_category XCat_Security = BCat_Security"
| "binding_category XCat_None = BCat_None"

definition fromXptError :: "TransportError \<Rightarrow> Error" where
  "fromXptError e =
     (if te_ok e then Error_none
      else
        let category = binding_category (te_category e);
            category = (if te_code e = X_Unsupported then BCat_Unsupported
                        else if te_code e = X_ResourceExhausted then BCat_ResourceExhausted
                        else category)
        in Error_make category (transport_code_value (te_code e)) (te_message e) (te_native_code e))"

lemma binding_category_None: "binding_category c = BCat_None \<longleftrightarrow> c = XCat_None"
  by (cases c) auto

lemma transport_code_value_inj: "transport_code_value a = transport_code_value b \<Longrightarrow> a = b"
  by (cases a; cases b; simp)

lemma transport_code_value_0: "transport_code_value c = 0 \<longleftrightarrow> c = X_None"
  by (cases c) auto

text \<open>
  The code rides along unchanged: it identifies the transport code.  A failure stays a failure
  unless its category is \<open>None\<close> while its code is not, which the constructor does not exclude.
\<close>

lemma fromXptError_code: "be_code (fromXptError e) = (if te_ok e then 0 else transport_code_value (te_code e))"
  by (simp add: fromXptError_def Error_none_def Error_make_def Let_def)

lemma fromXptError_ok_iff:
  "be_ok (fromXptError e) \<longleftrightarrow>
     te_category e = XCat_None \<and> te_code e \<noteq> X_Unsupported \<and> te_code e \<noteq> X_ResourceExhausted"
  by (auto simp: fromXptError_def be_ok_def Error_none_def Error_make_def te_ok_def Let_def
      binding_category_None)

end
