(* ===== verification/XptOperation.thy ===== *)
theory XptOperation
  imports XptError
begin

text \<open>
  Cooperative cancellation, timeouts and the operation context
  (\<open>core/xpt/operation/Cancellation.cpp\<close>, \<open>OperationContext.cpp\<close>) and the network endpoint
  (\<open>core/xpt/network/Endpoint.cpp\<close>).  The shared atomic flags live in an explicit store: a source
  and its tokens hold the address of one flag.
\<close>

section \<open>Cancellation\<close>

type_synonym cancel_store = "bool list"

record CancellationSource =
  cs_state :: "nat option"

record CancellationToken =
  ct_state :: "nat option"

definition CancellationToken_none :: CancellationToken where
  "CancellationToken_none = \<lparr>ct_state = None\<rparr>"

fun flag_load :: "cancel_store \<Rightarrow> nat option \<Rightarrow> bool" where
  "flag_load st None = False"
| "flag_load st (Some a) = (vec_at st a = Some True)"

definition token_isCancellationRequested :: "cancel_store \<Rightarrow> CancellationToken \<Rightarrow> bool" where
  "token_isCancellationRequested st t = flag_load st (ct_state t)"

definition CancellationSource_new :: "cancel_store \<Rightarrow> CancellationSource \<times> cancel_store" where
  "CancellationSource_new st = (\<lparr>cs_state = Some (length st)\<rparr>, st @ [False])"

definition source_token :: "CancellationSource \<Rightarrow> CancellationToken" where
  "source_token s = \<lparr>ct_state = cs_state s\<rparr>"

definition source_cancel :: "CancellationSource \<Rightarrow> cancel_store \<Rightarrow> cancel_store" where
  "source_cancel s st = (case cs_state s of None \<Rightarrow> st | Some a \<Rightarrow> st[a := True])"

definition source_isCancellationRequested :: "cancel_store \<Rightarrow> CancellationSource \<Rightarrow> bool" where
  "source_isCancellationRequested st s = flag_load st (cs_state s)"

text \<open>Every operation of the program on the flags is one of these two; a run is a list of them.\<close>

datatype cancel_op = New_source | Cancel_source CancellationSource

fun cancel_step :: "cancel_store \<Rightarrow> cancel_op \<Rightarrow> cancel_store" where
  "cancel_step st New_source = snd (CancellationSource_new st)"
| "cancel_step st (Cancel_source s) = source_cancel s st"

definition cancel_run :: "cancel_store \<Rightarrow> cancel_op list \<Rightarrow> cancel_store" where
  "cancel_run = foldl cancel_step"

lemma flag_load_new: "flag_load st a \<Longrightarrow> flag_load (snd (CancellationSource_new st)) a"
  by (cases a) (auto simp: CancellationSource_new_def nth_append)

lemma flag_load_cancel: "flag_load st a \<Longrightarrow> flag_load (source_cancel s st) a"
  by (cases a; cases "cs_state s") (auto simp: source_cancel_def nth_update_at)

lemma flag_load_step: "flag_load st a \<Longrightarrow> flag_load (cancel_step st op) a"
  by (cases op) (simp_all add: flag_load_new flag_load_cancel)

lemma flag_load_run: "flag_load st a \<Longrightarrow> flag_load (cancel_run st ops) a"
  unfolding cancel_run_def by (induction ops arbitrary: st) (auto simp: flag_load_step)

lemma length_cancel_step: "length st \<le> length (cancel_step st op)"
  by (cases op) (auto simp: CancellationSource_new_def source_cancel_def split: option.splits)

lemma length_cancel_run: "length st \<le> length (cancel_run st ops)"
proof (induction ops arbitrary: st)
  case Nil
  then show ?case by (simp add: cancel_run_def)
next
  case (Cons op ops)
  have "length st \<le> length (cancel_step st op)" by (rule length_cancel_step)
  also have "\<dots> \<le> length (cancel_run (cancel_step st op) ops)" by (rule Cons.IH)
  finally show ?case by (simp add: cancel_run_def)
qed

lemma token_of_source: "token_isCancellationRequested st (source_token s) = source_isCancellationRequested st s"
  by (simp add: token_isCancellationRequested_def source_token_def source_isCancellationRequested_def)

lemma source_cancel_requested:
  "cs_state s = Some a \<Longrightarrow> a < length st \<Longrightarrow> source_isCancellationRequested (source_cancel s st) s"
  by (simp add: source_isCancellationRequested_def source_cancel_def)

lemma source_cancel_other:
  "cs_state s \<noteq> cs_state r \<Longrightarrow>
   source_isCancellationRequested (source_cancel s st) r = source_isCancellationRequested st r"
  by (cases "cs_state r")
     (auto simp: source_isCancellationRequested_def source_cancel_def nth_update_at split: option.splits)

section \<open>Timeout, context and endpoint\<close>

record Timeout =
  to_duration :: int \<comment> \<open>milliseconds, a signed 64-bit count\<close>

definition Timeout_milliseconds :: "int \<Rightarrow> Timeout" where
  "Timeout_milliseconds d = \<lparr>to_duration = d\<rparr>"

definition Timeout_isValid :: "Timeout \<Rightarrow> bool" where
  "Timeout_isValid t \<longleftrightarrow> 0 \<le> to_duration t"

record OperationContext =
  oc_timeout :: Timeout
  oc_cancellation :: CancellationToken

definition OperationContext_make :: "Timeout \<Rightarrow> OperationContext" where
  "OperationContext_make t = \<lparr>oc_timeout = t, oc_cancellation = CancellationToken_none\<rparr>"

definition OperationContext_make_cancellable :: "Timeout \<Rightarrow> CancellationToken \<Rightarrow> OperationContext" where
  "OperationContext_make_cancellable t c = \<lparr>oc_timeout = t, oc_cancellation = c\<rparr>"

definition OperationContext_isValid :: "OperationContext \<Rightarrow> bool" where
  "OperationContext_isValid c \<longleftrightarrow> Timeout_isValid (oc_timeout c)"

record Endpoint =
  ep_host :: string
  ep_port :: u16

definition Endpoint_none :: Endpoint where
  "Endpoint_none = \<lparr>ep_host = [], ep_port = 0\<rparr>"

definition Endpoint_isValid :: "Endpoint \<Rightarrow> bool" where
  "Endpoint_isValid e \<longleftrightarrow> ep_host e \<noteq> [] \<and> ep_port e \<noteq> 0"

text \<open>
  Cancellation is permanent and shared.  Once a source whose flag exists has been cancelled,
  the source and every token taken from it report the request after any further sequence of
  operations on any sources.
\<close>

theorem cancellation_permanent:
  assumes "cs_state s = Some a" and "a < length st"
  shows "source_isCancellationRequested (cancel_run (source_cancel s st) ops) s
    \<and> token_isCancellationRequested (cancel_run (source_cancel s st) ops) (source_token s)"
  using source_cancel_requested [OF assms] flag_load_run
  by (simp add: token_of_source) (simp add: source_isCancellationRequested_def)

theorem cancellation_permanent_witness:
  "source_isCancellationRequested
     (cancel_run (source_cancel \<lparr>cs_state = Some 0\<rparr> [False]) [New_source, Cancel_source \<lparr>cs_state = Some 1\<rparr>])
     \<lparr>cs_state = Some 0\<rparr>"
  using cancellation_permanent [of "\<lparr>cs_state = Some 0\<rparr>" 0 "[False]"
      "[New_source, Cancel_source \<lparr>cs_state = Some 1\<rparr>]"] by simp

end
