(* ===== verification/RetryPolicy.thy ===== *)
theory RetryPolicy
  imports XptError
begin

text \<open>
  The explicit retry policy (\<open>core/xpt/retry/RetryPolicy.cpp\<close>): the policy value, the back-off
  computation with its doubling loop over signed 64-bit milliseconds, and the decision.  A
  computation that would overflow a signed integer is \<open>None\<close>.  The locale \<open>retry_decider\<close> is what a
  retry loop relies on; the policy's \<open>evaluate\<close> interprets it.
\<close>

section \<open>Data\<close>

text \<open>\<open>Strategy_other\<close>, \<open>Safety_other\<close> and \<open>Disposition_other\<close> are the values of the
  enumerations' underlying byte that name no enumerator; the code tests for them.\<close>

datatype eRetryOperationSafety = NonIdempotent | Idempotent | Safety_other u8
datatype eRetryFailureDisposition = DoNotRetry | Retryable | Disposition_other u8
datatype eRetryBackoffStrategy = Fixed | Exponential | Strategy_other u8
datatype eRetryStopReason =
    Stop_None | Stop_InvalidPolicy | Stop_InvalidAttempt | Stop_NoFailure
  | Stop_NonIdempotentOperation | Stop_FailureNotRetryable | Stop_AttemptLimitReached
  | Stop_Cancelled

record RetryDecision =
  should_retry :: bool
  rd_delay :: int
  stop_reason :: eRetryStopReason

record RetryPolicy =
  maximum_attempts :: u32
  initial_delay :: int
  maximum_delay :: int
  backoff_strategy :: eRetryBackoffStrategy

definition RetryPolicy_default :: RetryPolicy where
  "RetryPolicy_default =
     \<lparr>maximum_attempts = 1, initial_delay = 0, maximum_delay = 0, backoff_strategy = Fixed\<rparr>"

definition createFixed :: "u32 \<Rightarrow> int \<Rightarrow> RetryPolicy" where
  "createFixed attempts delay =
     \<lparr>maximum_attempts = attempts, initial_delay = delay, maximum_delay = delay,
      backoff_strategy = Fixed\<rparr>"

definition createExponential :: "u32 \<Rightarrow> int \<Rightarrow> int \<Rightarrow> RetryPolicy" where
  "createExponential attempts initial maximum =
     \<lparr>maximum_attempts = attempts, initial_delay = initial, maximum_delay = maximum,
      backoff_strategy = Exponential\<rparr>"

fun isValidStrategy :: "eRetryBackoffStrategy \<Rightarrow> bool" where
  "isValidStrategy s \<longleftrightarrow> s = Fixed \<or> s = Exponential"

definition isRetryableSafety :: "eRetryOperationSafety \<Rightarrow> bool" where
  "isRetryableSafety s \<longleftrightarrow> s = Idempotent"

definition isRetryableDisposition :: "eRetryFailureDisposition \<Rightarrow> bool" where
  "isRetryableDisposition d \<longleftrightarrow> d = Retryable"

definition isPolicyRetryableError :: "TransportError \<Rightarrow> bool" where
  "isPolicyRetryableError e =
     (if te_ok e \<or> te_code e = X_Cancelled \<or> te_code e = X_Unsupported then False
      else case te_category e of
          XCat_Resolution \<Rightarrow> True
        | XCat_Connection \<Rightarrow> True
        | XCat_InputOutput \<Rightarrow> True
        | XCat_Timeout \<Rightarrow> True
        | XCat_Http \<Rightarrow> True
        | _ \<Rightarrow> False)"

definition RetryPolicy_isValid :: "RetryPolicy \<Rightarrow> bool" where
  "RetryPolicy_isValid p \<longleftrightarrow>
     1 \<le> maximum_attempts p \<and> 0 \<le> initial_delay p \<and> initial_delay p \<le> maximum_delay p
     \<and> isValidStrategy (backoff_strategy p)"

text \<open>The fields are 64-bit millisecond counts.\<close>

definition policy_in_range :: "RetryPolicy \<Rightarrow> bool" where
  "policy_in_range p \<longleftrightarrow> in_i64 (initial_delay p) \<and> in_i64 (maximum_delay p)"

section \<open>The delay\<close>

function delay_loop :: "u32 \<Rightarrow> u32 \<Rightarrow> int \<Rightarrow> int \<Rightarrow> int option" where
  "delay_loop attempt attempts_completed delay_ms maximum_delay_ms =
     (if attempt < attempts_completed \<and> delay_ms < maximum_delay_ms then
        if cpp_div maximum_delay_ms 2 < delay_ms then Some maximum_delay_ms
        else case i64_mul delay_ms 2 of
            None \<Rightarrow> None
          | Some doubled \<Rightarrow> delay_loop (attempt + 1) attempts_completed doubled maximum_delay_ms
      else Some delay_ms)"
  by pat_completeness auto
termination
  by (relation "measure (\<lambda>(attempt, attempts, d, m). unat attempts - unat attempt)")
     (auto simp: unat_succ_less word_less_nat_alt)

declare delay_loop.simps [simp del]

definition calculateDelay :: "RetryPolicy \<Rightarrow> u32 \<Rightarrow> int option" where
  "calculateDelay p attempts_completed =
     (if backoff_strategy p = Fixed \<or> initial_delay p = 0 then Some (initial_delay p)
      else delay_loop 1 attempts_completed (initial_delay p) (maximum_delay p))"

section \<open>The decision\<close>

definition createStopDecision :: "eRetryStopReason \<Rightarrow> RetryDecision" where
  "createStopDecision reason = \<lparr>should_retry = False, rd_delay = 0, stop_reason = reason\<rparr>"

definition evaluate ::
    "RetryPolicy \<Rightarrow> u32 \<Rightarrow> eRetryOperationSafety \<Rightarrow> eRetryFailureDisposition \<Rightarrow> TransportError
     \<Rightarrow> RetryDecision option" where
  "evaluate p attempts_completed safety disposition e =
     (if \<not> RetryPolicy_isValid p then Some (createStopDecision Stop_InvalidPolicy)
      else if attempts_completed = 0 then Some (createStopDecision Stop_InvalidAttempt)
      else if te_ok e then Some (createStopDecision Stop_NoFailure)
      else if te_category e = XCat_Cancellation \<or> te_code e = X_Cancelled
        then Some (createStopDecision Stop_Cancelled)
      else if \<not> isRetryableSafety safety then Some (createStopDecision Stop_NonIdempotentOperation)
      else if \<not> isRetryableDisposition disposition \<or> \<not> isPolicyRetryableError e
        then Some (createStopDecision Stop_FailureNotRetryable)
      else if maximum_attempts p \<le> attempts_completed
        then Some (createStopDecision Stop_AttemptLimitReached)
      else map_option (\<lambda>d. \<lparr>should_retry = True, rd_delay = d, stop_reason = Stop_None\<rparr>)
             (calculateDelay p attempts_completed))"

section \<open>The doubling loop saturates and never overflows\<close>

lemma half_step:
  "0 \<le> m \<Longrightarrow> \<not> cpp_div m 2 < d \<Longrightarrow> d * 2 \<le> (m::int)"
  by (simp add: cpp_div_nonneg)

lemma half_saturates:
  "0 \<le> m \<Longrightarrow> cpp_div m 2 < d \<Longrightarrow> (m::int) \<le> d * 2"
  by (simp add: cpp_div_nonneg)

lemma min_pow_ge: "0 < d \<Longrightarrow> m \<le> d * 2 \<Longrightarrow> (m::int) \<le> d * 2 ^ Suc k"
proof (induction k)
  case 0
  then show ?case by simp
next
  case (Suc k)
  have "m \<le> d * 2 ^ Suc k" by (rule Suc.IH [OF Suc.prems])
  also have "\<dots> \<le> d * 2 ^ Suc (Suc k)" using Suc.prems(1) by simp
  finally show ?case .
qed

lemma delay_loop_value:
  assumes "0 < d" and "d \<le> m" and "in_i64 m" and "1 \<le> attempt"
  shows "delay_loop attempt n d m = Some (min m (d * 2 ^ (unat n - unat attempt)))"
  using assms
proof (induction attempt n d m rule: delay_loop.induct)
  case (1 attempt n d m)
  have m: "0 \<le> m" using "1.prems" by simp
  show ?case
  proof (cases "attempt < n \<and> d < m")
    case False
    then consider "d = m" | "n \<le> attempt" using "1.prems" by force
    then show ?thesis
    proof cases
      case 1
      have "m \<le> m * 2 ^ (unat n - unat attempt)" using m by (simp add: mult_le_cancel_left1)
      with 1 show ?thesis by (simp add: delay_loop.simps [of attempt n m m] min_def)
    next
      case 2
      then have "unat n - unat attempt = 0" and "\<not> attempt < n"
        by (simp_all add: word_le_nat_alt not_less)
      with "1.prems" show ?thesis by (simp add: delay_loop.simps [of attempt n d m])
    qed
  next
    case True
    then have step: "unat (attempt + 1) = Suc (unat attempt)" by (blast intro: unat_succ_less)
    have lt: "unat attempt < unat n" using True by (simp add: word_less_nat_alt)
    then obtain k where k: "unat n - unat attempt = Suc k"
      by (metis Suc_diff_Suc)
    show ?thesis
    proof (cases "cpp_div m 2 < d")
      case sat: True
      have "m \<le> d * 2 ^ Suc k"
        using "1.prems"(1) half_saturates [OF m sat] by (rule min_pow_ge)
      with True sat k show ?thesis by (simp add: delay_loop.simps [of attempt n d m])
    next
      case False
      have le: "d * 2 \<le> m" using m False by (rule half_step)
      have fits: "in_i64 (d * 2)" using le "1.prems" by (auto simp: in_i64_def)
      have one: "1 \<le> attempt + 1" by (simp add: word_le_nat_alt step)
      have "delay_loop (attempt + 1) n (d * 2) m =
          Some (min m (d * 2 * 2 ^ (unat n - unat (attempt + 1))))"
        using "1.IH" [OF True False, of "d * 2"] "1.prems" le fits one by simp
      moreover have "unat n - unat (attempt + 1) = k" using k step by simp
      ultimately show ?thesis
        using True False fits k by (simp add: mult.assoc delay_loop.simps [of attempt n d m])
    qed
  qed
qed

lemma calculateDelay_value:
  assumes "RetryPolicy_isValid p" and "policy_in_range p"
  shows "calculateDelay p n = Some
    (if backoff_strategy p = Fixed then initial_delay p
     else min (maximum_delay p) (initial_delay p * 2 ^ (unat n - 1)))"
  using assms delay_loop_value [of "initial_delay p" "maximum_delay p" 1 n]
  by (auto simp: calculateDelay_def RetryPolicy_isValid_def policy_in_range_def)

lemma calculateDelay_defined:
  "RetryPolicy_isValid p \<Longrightarrow> policy_in_range p \<Longrightarrow> \<exists>d. calculateDelay p n = Some d"
  by (simp add: calculateDelay_value)

lemma evaluate_defined:
  assumes "policy_in_range p"
  shows "\<exists>d. evaluate p n s f e = Some d"
proof (cases "RetryPolicy_isValid p")
  case True
  then obtain d where "calculateDelay p n = Some d" using assms calculateDelay_defined by blast
  then show ?thesis by (simp add: evaluate_def)
next
  case False
  then show ?thesis by (simp add: evaluate_def)
qed

lemma evaluate_retry:
  "evaluate p n s f e = Some d \<Longrightarrow> should_retry d \<Longrightarrow>
   RetryPolicy_isValid p \<and> n \<noteq> 0 \<and> n < maximum_attempts p \<and> \<not> te_ok e
   \<and> te_category e \<noteq> XCat_Cancellation \<and> te_code e \<noteq> X_Cancelled
   \<and> s = Idempotent \<and> f = Retryable \<and> isPolicyRetryableError e
   \<and> stop_reason d = Stop_None \<and> calculateDelay p n = Some (rd_delay d)"
  by (auto simp: evaluate_def createStopDecision_def isRetryableSafety_def
      isRetryableDisposition_def not_le split: if_splits)

section \<open>What a retry loop relies on\<close>

locale retry_decider =
  fixes decide :: "u32 \<Rightarrow> 'e \<Rightarrow> RetryDecision option"
    and attempt_limit :: u32
  assumes retry_below_limit:
    "decide n e = Some d \<Longrightarrow> should_retry d \<Longrightarrow> n < attempt_limit"
begin

text \<open>The attempt counter of a loop that asks before every further attempt never wraps.\<close>

lemma retry_counter_step:
  assumes "decide n e = Some d" and "should_retry d"
  shows "unat (n + 1) = Suc (unat n) \<and> n + 1 \<le> attempt_limit"
proof -
  have "n < attempt_limit" using assms by (rule retry_below_limit)
  then have "unat (n + 1) = Suc (unat n)" by (rule unat_succ_less)
  with \<open>n < attempt_limit\<close> show ?thesis by (simp add: word_le_nat_alt word_less_nat_alt)
qed

lemma retry_distance:
  assumes "decide n e = Some d" and "should_retry d"
  shows "unat attempt_limit - unat (n + 1) < unat attempt_limit - unat n"
  using retry_counter_step [OF assms] retry_below_limit [OF assms]
  by (simp add: word_less_nat_alt)

end

interpretation policy_decider:
  retry_decider "\<lambda>n (s, f, e). evaluate p n s f e" "maximum_attempts p" for p
  by unfold_locales (auto dest: evaluate_retry)

section \<open>Properties\<close>

text \<open>
  The back-off is exact and free of signed overflow: for a valid policy whose fields fit their
  64-bit type the computed delay is the initial delay for a fixed policy, and for an exponential
  one the initial delay doubled once per completed attempt after the first, cut at the maximum
  delay.
\<close>

theorem retry_delay_exact:
  assumes "RetryPolicy_isValid p" and "policy_in_range p" and "n \<noteq> 0"
  shows "calculateDelay p n = Some
      (if backoff_strategy p = Fixed then initial_delay p
       else min (maximum_delay p) (initial_delay p * 2 ^ (unat n - 1)))"
  using assms(1,2) by (rule calculateDelay_value)

theorem retry_delay_exact_witness:
  "calculateDelay (createExponential 10 100 1000) 5 = Some 1000
   \<and> calculateDelay (createExponential 10 100 1000) 3 = Some 400"
  using retry_delay_exact [of "createExponential 10 100 1000" 5]
    retry_delay_exact [of "createExponential 10 100 1000" 3]
  by (simp add: createExponential_def RetryPolicy_isValid_def policy_in_range_def in_i64_def)

text \<open>
  The decision is total and permits a retry exactly when the policy is valid, the attempt
  number is positive and below the limit, the operation is idempotent, the caller classified the
  failure as retryable, and the error is of a retryable category and neither a cancellation nor
  unsupported; the delay it then carries lies between the initial and the maximum delay.
\<close>

theorem retry_decision_exact:
  assumes "policy_in_range p"
  shows "\<exists>d. evaluate p n safety disposition e = Some d \<and>
    (should_retry d \<longleftrightarrow>
       RetryPolicy_isValid p \<and> 0 < n \<and> n < maximum_attempts p
       \<and> safety = Idempotent \<and> disposition = Retryable
       \<and> te_code e \<notin> {X_Cancelled, X_Unsupported}
       \<and> te_category e \<in> {XCat_Resolution, XCat_Connection, XCat_InputOutput, XCat_Timeout, XCat_Http})
    \<and> (should_retry d \<longrightarrow> stop_reason d = Stop_None \<and> initial_delay p \<le> rd_delay d \<and> rd_delay d \<le> maximum_delay p)
    \<and> (\<not> should_retry d \<longrightarrow> stop_reason d \<noteq> Stop_None \<and> rd_delay d = 0)"
proof -
  obtain d where d: "evaluate p n safety disposition e = Some d"
    using evaluate_defined [OF assms] by blast
  have retryable: "isPolicyRetryableError e \<longleftrightarrow> te_code e \<notin> {X_Cancelled, X_Unsupported}
      \<and> te_category e \<in> {XCat_Resolution, XCat_Connection, XCat_InputOutput, XCat_Timeout, XCat_Http}"
    by (cases "te_category e") (auto simp: isPolicyRetryableError_def te_ok_def)
  have iff: "should_retry d \<longleftrightarrow> RetryPolicy_isValid p \<and> 0 < n \<and> n < maximum_attempts p
       \<and> safety = Idempotent \<and> disposition = Retryable \<and> isPolicyRetryableError e"
    using d retryable
    by (auto simp: evaluate_def createStopDecision_def isRetryableSafety_def
        isRetryableDisposition_def te_ok_def word_gt_0 not_le split: if_splits)
  have grow: "initial_delay p \<le> initial_delay p * 2 ^ k" if "RetryPolicy_isValid p" for k
    using that by (simp add: RetryPolicy_isValid_def mult_le_cancel_left1)
  have range: "initial_delay p \<le> rd_delay d \<and> rd_delay d \<le> maximum_delay p" if "should_retry d"
  proof -
    from evaluate_retry [OF d that] have v: "RetryPolicy_isValid p"
      and c: "calculateDelay p n = Some (rd_delay d)" by auto
    from calculateDelay_value [OF v assms, of n] c grow [OF v, of "unat n - 1"] v show ?thesis
      by (auto simp: RetryPolicy_isValid_def split: if_splits)
  qed
  have stop: "stop_reason d \<noteq> Stop_None \<and> rd_delay d = 0" if "\<not> should_retry d"
    using d that by (auto simp: evaluate_def createStopDecision_def split: if_splits)
  from d iff retryable range stop evaluate_retry [OF d] show ?thesis by blast
qed

theorem retry_decision_exact_witness:
  "\<exists>d. evaluate (createExponential 3 10 50) 2 Idempotent Retryable
        (TransportError_make XCat_Timeout X_TimedOut [] 0) = Some d \<and> should_retry d"
  using retry_decision_exact [of "createExponential 3 10 50" 2 Idempotent Retryable
      "TransportError_make XCat_Timeout X_TimedOut [] 0"]
  by (auto simp: createExponential_def RetryPolicy_isValid_def policy_in_range_def in_i64_def)

end
