(* ===== verification/HttpValues.thy ===== *)
theory HttpValues
  imports XptOperation RetryPolicy
begin

text \<open>
  The values of the HTTP client (\<open>api/xpt/http/HttpClient.h\<close> and the value classes and validation
  helpers of \<open>platform/xpt/http/HttpClient.cpp\<close>): requests, responses, options, authentication,
  the URL, method and header checks, and the two libcurl callbacks that accumulate a response.
\<close>

section \<open>Requests, responses, options\<close>

datatype eHttpMethod = Get | Head | Post | Put | Patch | Delete | Method_other u8

datatype eHttpAuthenticationPolicy = ServerNegotiated | AuthenticationPolicy_other u8

record HttpAuthentication =
  ha_policy :: eHttpAuthenticationPolicy
  ha_username :: string
  ha_secret :: string

record sHttpHeader =
  hh_name :: string
  hh_value :: string

record HttpRequest =
  rq_method :: eHttpMethod
  rq_url :: string
  rq_headers :: "sHttpHeader list"
  rq_body :: bytes

record HttpResponse =
  rs_status_code :: u16
  rs_headers :: "sHttpHeader list"
  rs_body :: bytes
  rs_attempt_count :: u32

record HttpExecutionOptions =
  eo_maximum_response_body_size :: u64
  eo_retry_policy :: RetryPolicy
  eo_operation_safety :: eRetryOperationSafety
  eo_retry_transient_failures :: bool

type_synonym HttpResult = "(HttpResponse, TransportError) PartialResult"

definition HttpRequest_make :: "eHttpMethod \<Rightarrow> string \<Rightarrow> HttpRequest" where
  "HttpRequest_make m u = \<lparr>rq_method = m, rq_url = u, rq_headers = [], rq_body = []\<rparr>"

definition addHeader :: "string \<Rightarrow> string \<Rightarrow> HttpRequest \<Rightarrow> HttpRequest" where
  "addHeader n v r = r\<lparr>rq_headers := rq_headers r @ [\<lparr>hh_name = n, hh_value = v\<rparr>]\<rparr>"

definition setBody :: "bytes \<Rightarrow> HttpRequest \<Rightarrow> HttpRequest" where
  "setBody b r = r\<lparr>rq_body := b\<rparr>"

definition HttpResponse_none :: HttpResponse where
  "HttpResponse_none =
     \<lparr>rs_status_code = 0, rs_headers = [], rs_body = [], rs_attempt_count = 0\<rparr>"

definition HttpResponse_make :: "u16 \<Rightarrow> sHttpHeader list \<Rightarrow> bytes \<Rightarrow> u32 \<Rightarrow> HttpResponse" where
  "HttpResponse_make st hs b n =
     \<lparr>rs_status_code = st, rs_headers = hs, rs_body = b, rs_attempt_count = n\<rparr>"

definition DEFAULT_MAXIMUM_RESPONSE_BODY_SIZE :: u64 where
  "DEFAULT_MAXIMUM_RESPONSE_BODY_SIZE = 8 * 1024 * 1024"

definition HttpExecutionOptions_default :: HttpExecutionOptions where
  "HttpExecutionOptions_default =
     \<lparr>eo_maximum_response_body_size = DEFAULT_MAXIMUM_RESPONSE_BODY_SIZE,
      eo_retry_policy = RetryPolicy_default, eo_operation_safety = NonIdempotent,
      eo_retry_transient_failures = False\<rparr>"

definition HttpExecutionOptions_isValid :: "HttpExecutionOptions \<Rightarrow> bool" where
  "HttpExecutionOptions_isValid o' \<longleftrightarrow>
     0 < eo_maximum_response_body_size o' \<and> RetryPolicy_isValid (eo_retry_policy o')
     \<and> (eo_operation_safety o' = NonIdempotent \<or> eo_operation_safety o' = Idempotent)"

section \<open>Text checks\<close>

definition CR :: char where "CR = CHR 0x0D"
definition LF :: char where "LF = CHR 0x0A"
definition HTAB :: char where "HTAB = CHR 0x09"

definition validAuthenticationText :: "string \<Rightarrow> bool" where
  "validAuthenticationText v \<longleftrightarrow>
     v \<noteq> [] \<and> \<not> list_ex (\<lambda>c. c = CHR 0x00 \<or> c = CR \<or> c = LF) v"

definition HttpAuthentication_isValid :: "HttpAuthentication \<Rightarrow> bool" where
  "HttpAuthentication_isValid a \<longleftrightarrow>
     ha_policy a = ServerNegotiated \<and> validAuthenticationText (ha_username a)
     \<and> validAuthenticationText (ha_secret a)"

text \<open>Moving an authentication value erases the source; assigning also drops the target's
  old secrets.\<close>

definition HttpAuthentication_move ::
    "HttpAuthentication \<Rightarrow> HttpAuthentication \<times> HttpAuthentication" where
  "HttpAuthentication_move other =
     (other, other\<lparr>ha_username := [], ha_secret := []\<rparr>)"

definition HttpAuthentication_move_assign ::
    "bool \<Rightarrow> HttpAuthentication \<Rightarrow> HttpAuthentication \<Rightarrow> HttpAuthentication \<times> HttpAuthentication" where
  "HttpAuthentication_move_assign same_object this other =
     (if same_object then (this, other)
      else (this\<lparr>ha_policy := ha_policy other, ha_username := ha_username other,
                 ha_secret := ha_secret other\<rparr>,
            other\<lparr>ha_username := [], ha_secret := []\<rparr>))"

text \<open>\<open>std::tolower\<close> in the C locale.\<close>

definition tolower_char :: "char \<Rightarrow> char" where
  "tolower_char c =
     (if 65 \<le> (of_char c :: nat) \<and> (of_char c :: nat) \<le> 90 then char_of ((of_char c :: nat) + 32) else c)"

definition toLowerAscii :: "string \<Rightarrow> string" where
  "toLowerAscii s = map tolower_char s"

definition starts_with :: "string \<Rightarrow> string \<Rightarrow> bool" where
  "starts_with p s \<longleftrightarrow> take (length p) s = p"

definition isValidUrl :: "string \<Rightarrow> bool" where
  "isValidUrl url =
     (let lower = toLowerAscii url in
      if \<not> starts_with ''http://'' lower \<and> \<not> starts_with ''https://'' lower then False
      else if length lower \<le> (if starts_with ''https://'' lower then 8 else 7) then False
      else \<not> list_ex (\<lambda>c. (of_char c :: nat) \<le> 32 \<or> (of_char c :: nat) = 127) url)"

fun isValidMethod :: "eHttpMethod \<Rightarrow> bool" where
  "isValidMethod (Method_other v) = False"
| "isValidMethod m = True"

definition contains_control :: "string \<Rightarrow> bool" where
  "contains_control t \<longleftrightarrow> CR \<in> set t \<or> LF \<in> set t"

definition isValidHeader :: "sHttpHeader \<Rightarrow> bool" where
  "isValidHeader h =
     (if hh_name h = [] \<or> CHR '':'' \<in> set (hh_name h) then False
      else \<not> contains_control (hh_name h) \<and> \<not> contains_control (hh_value h))"

text \<open>\<open>find_first_not_of\<close> and \<open>find_last_not_of\<close> with the substring between them.\<close>

definition http_blank :: "char \<Rightarrow> bool" where
  "http_blank c \<longleftrightarrow> c = CHR '' '' \<or> c = HTAB"

definition trimHttpWhitespace :: "string \<Rightarrow> string" where
  "trimHttpWhitespace t =
     (if list_all http_blank t then []
      else rev (dropWhile http_blank (rev (dropWhile http_blank t))))"

section \<open>The response accumulator and its two callbacks\<close>

record sResponseAccumulator =
  ac_headers :: "sHttpHeader list"
  ac_body :: bytes
  ac_maximum_body_size :: u64
  ac_body_limit_exceeded :: bool
  ac_allocation_failed :: bool

definition accumulator_new :: "u64 \<Rightarrow> sResponseAccumulator" where
  "accumulator_new m =
     \<lparr>ac_headers = [], ac_body = [], ac_maximum_body_size = m, ac_body_limit_exceeded = False,
      ac_allocation_failed = False\<rparr>"

definition size_product_overflows :: "u64 \<Rightarrow> u64 \<Rightarrow> bool" where
  "size_product_overflows sz cnt \<longleftrightarrow> sz \<noteq> 0 \<and> - 1 div sz < cnt"

text \<open>The last argument says whether the allocation of this call succeeds.  The buffer is the
  \<open>content_in\<close> of libcurl, of at least \<open>size * count\<close> bytes.\<close>

definition writeBody ::
    "bytes \<Rightarrow> u64 \<Rightarrow> u64 \<Rightarrow> bool \<Rightarrow> sResponseAccumulator \<Rightarrow> u64 \<times> sResponseAccumulator" where
  "writeBody content sz cnt alloc acc =
     (if size_product_overflows sz cnt then (0, acc\<lparr>ac_body_limit_exceeded := True\<rparr>)
      else
        let total = sz * cnt in
        if ac_maximum_body_size acc - word_of_nat (length (ac_body acc)) < total
        then (0, acc\<lparr>ac_body_limit_exceeded := True\<rparr>)
        else if \<not> alloc then (0, acc\<lparr>ac_allocation_failed := True\<rparr>)
        else (total, acc\<lparr>ac_body := ac_body acc @ take (unat total) content\<rparr>))"

definition strip_line_end :: "string \<Rightarrow> string" where
  "strip_line_end line = rev (dropWhile (\<lambda>c. c = CR \<or> c = LF) (rev line))"

definition parse_header_line :: "string \<Rightarrow> sHttpHeader option" where
  "parse_header_line line =
     (if CHR '':'' \<in> set line
      then Some \<lparr>hh_name = trimHttpWhitespace (takeWhile (\<lambda>c. c \<noteq> CHR '':'') line),
                 hh_value = trimHttpWhitespace (tl (dropWhile (\<lambda>c. c \<noteq> CHR '':'') line))\<rparr>
      else None)"

definition writeHeader ::
    "string \<Rightarrow> u64 \<Rightarrow> u64 \<Rightarrow> bool \<Rightarrow> sResponseAccumulator \<Rightarrow> u64 \<times> sResponseAccumulator" where
  "writeHeader content sz cnt alloc acc =
     (if size_product_overflows sz cnt then (0, acc\<lparr>ac_allocation_failed := True\<rparr>)
      else
        let total = sz * cnt in
        if \<not> alloc then (0, acc\<lparr>ac_allocation_failed := True\<rparr>)
        else case parse_header_line (strip_line_end (take (unat total) content)) of
            None \<Rightarrow> (total, acc)
          | Some h \<Rightarrow> (total, acc\<lparr>ac_headers := ac_headers acc @ [h]\<rparr>))"

text \<open>The line a request header is sent as.\<close>

definition header_line :: "sHttpHeader \<Rightarrow> string" where
  "header_line h = hh_name h @ '': '' @ hh_value h"

section \<open>The body stays within its limit\<close>

definition acc_within_limit :: "sResponseAccumulator \<Rightarrow> bool" where
  "acc_within_limit acc \<longleftrightarrow> length (ac_body acc) \<le> unat (ac_maximum_body_size acc)"

lemma accumulator_new_within: "acc_within_limit (accumulator_new m)"
  by (simp add: acc_within_limit_def accumulator_new_def)

lemma writeBody_maximum [simp]:
  "ac_maximum_body_size (snd (writeBody c s n a acc)) = ac_maximum_body_size acc"
  by (simp add: writeBody_def Let_def)

lemma writeHeader_maximum [simp]:
  "ac_maximum_body_size (snd (writeHeader c s n a acc)) = ac_maximum_body_size acc"
  by (simp add: writeHeader_def Let_def split: option.split)

lemma writeHeader_body [simp]: "ac_body (snd (writeHeader c s n a acc)) = ac_body acc"
  by (simp add: writeHeader_def Let_def split: option.split)

lemma remaining_body:
  assumes "acc_within_limit acc"
  shows "unat (ac_maximum_body_size acc - word_of_nat (length (ac_body acc)))
    = unat (ac_maximum_body_size acc) - length (ac_body acc)"
proof -
  have lt: "length (ac_body acc) < 2 ^ LENGTH(64)"
    using assms unat_lt_size [of "ac_maximum_body_size acc"]
    unfolding acc_within_limit_def by linarith
  then have len: "unat (word_of_nat (length (ac_body acc)) :: u64) = length (ac_body acc)"
    by (simp add: unat_of_nat)
  then have "word_of_nat (length (ac_body acc)) \<le> ac_maximum_body_size acc"
    using assms by (simp add: word_le_nat_alt acc_within_limit_def)
  then show ?thesis by (simp add: unat_sub_no_wrap len)
qed

lemma writeBody_within:
  assumes "acc_within_limit acc"
  shows "acc_within_limit (snd (writeBody c s n a acc))"
proof -
  have "length (ac_body acc) + unat (s * n) \<le> unat (ac_maximum_body_size acc)"
    if "\<not> ac_maximum_body_size acc - word_of_nat (length (ac_body acc)) < s * n"
    using that remaining_body [OF assms] assms
    by (auto simp: not_less word_le_nat_alt acc_within_limit_def)
  then show ?thesis
    using assms by (auto simp: writeBody_def acc_within_limit_def Let_def)
qed

lemma writeHeader_within: "acc_within_limit acc \<Longrightarrow> acc_within_limit (snd (writeHeader c s n a acc))"
  by (simp add: acc_within_limit_def)

section \<open>Header lines parse back\<close>

lemma size_product_exact:
  assumes "\<not> size_product_overflows s n"
  shows "unat (s * n) = unat s * unat n"
proof (cases "s = 0")
  case True
  then show ?thesis by simp
next
  case False
  have max: "unat (- 1 :: u64) = 2 ^ 64 - 1"
    by (simp add: unsigned_minus_1_eq_mask mask_eq_exp_minus_1)
  have "unat n \<le> unat (- 1 div s)"
    using assms False by (simp add: size_product_overflows_def word_le_nat_alt not_less)
  then have "unat n * unat s \<le> (unat (- 1 :: u64) div unat s) * unat s"
    by (simp add: unat_div)
  also have "\<dots> \<le> unat (- 1 :: u64)" by (rule div_times_less_eq_dividend)
  finally have "unat s * unat n < 2 ^ LENGTH(64)" using max by (simp add: mult.commute)
  then show ?thesis by (rule unat_mult_bounded)
qed

lemma dropWhile_id: "(xs = [] \<or> \<not> P (hd xs)) \<Longrightarrow> dropWhile P xs = xs"
  by (cases xs) auto

definition trimmed :: "string \<Rightarrow> bool" where
  "trimmed t \<longleftrightarrow> t = [] \<or> (\<not> http_blank (hd t) \<and> \<not> http_blank (last t))"

lemma trim_trimmed: "trimmed t \<Longrightarrow> trimHttpWhitespace t = t"
  by (cases t rule: rev_cases; cases t)
     (auto simp: trimmed_def trimHttpWhitespace_def dropWhile_id hd_rev)

lemma trim_leading_blank: "http_blank b \<Longrightarrow> trimHttpWhitespace (b # t) = trimHttpWhitespace t"
  by (simp add: trimHttpWhitespace_def)

lemma strip_line_end_crlf:
  "\<not> contains_control t \<Longrightarrow> strip_line_end (t @ [CR, LF]) = t"
  by (cases t rule: rev_cases) (auto simp: strip_line_end_def contains_control_def)

lemma parse_header_of_line:
  assumes "CHR '':'' \<notin> set (hh_name h)"
  shows "parse_header_line (header_line h) =
    Some \<lparr>hh_name = trimHttpWhitespace (hh_name h), hh_value = trimHttpWhitespace (hh_value h)\<rparr>"
  using assms
  by (simp add: parse_header_line_def header_line_def takeWhile_append dropWhile_append
      trim_leading_blank http_blank_def)

end
