(* ===== verification/HttpClient.thy ===== *)
theory HttpClient
  imports HttpValues
begin

text \<open>
  The synchronous HTTP client (\<open>platform/xpt/http/HttpClient.cpp\<close>): deadlines, the conversion of
  libcurl results, one attempt on the libcurl multi interface, the wait before a retry and the
  retry loop.  libcurl, the clock and the cancellation flag are the environment: what each call
  observes is an argument (\<open>attempt_env\<close>, \<open>wait_obs\<close>).  Times are nanoseconds of the steady clock in
  a signed 64-bit count; delays and timeouts are signed 64-bit millisecond counts.
\<close>

section \<open>libcurl\<close>

datatype CURLcode =
    CURLE_OK | CURLE_URL_MALFORMAT | CURLE_UNSUPPORTED_PROTOCOL | CURLE_COULDNT_RESOLVE_HOST
  | CURLE_COULDNT_CONNECT | CURLE_SEND_ERROR | CURLE_RECV_ERROR | CURLE_PARTIAL_FILE
  | CURLE_OPERATION_TIMEDOUT | CURLE_SSL_CONNECT_ERROR | CURLE_PEER_FAILED_VERIFICATION
  | CURLE_SSL_CERTPROBLEM | CURLE_SSL_CACERT_BADFILE | CURLE_OUT_OF_MEMORY | CURLE_FAILED_INIT
  | CURLE_ABORTED_BY_CALLBACK | CURLE_other nat

text \<open>What the library supplies: error texts, the numeric value of a code, and \<open>LONG_MAX\<close>.\<close>

record curl_lib =
  lib_strerror :: "CURLcode \<Rightarrow> string"
  lib_code_value :: "CURLcode \<Rightarrow> int"
  lib_long_max :: int

datatype curl_option =
    OPT_URL string | OPT_NOSIGNAL int | OPT_FOLLOWLOCATION int | OPT_FAILONERROR int
  | OPT_ACCEPT_ENCODING string | OPT_USERAGENT string | OPT_TIMEOUT_MS int
  | OPT_CONNECTTIMEOUT_MS int | OPT_WRITEFUNCTION | OPT_WRITEDATA | OPT_HEADERFUNCTION
  | OPT_HEADERDATA | OPT_HTTPHEADER "string list" | OPT_HTTPAUTH_ANY | OPT_USERNAME string
  | OPT_PASSWORD string | OPT_HTTPGET int | OPT_NOBODY int | OPT_POST int
  | OPT_CUSTOMREQUEST "string option" | OPT_POSTFIELDS bytes | OPT_POSTFIELDSIZE_LARGE int

datatype curl_callback =
    Body_chunk bytes u64 u64 bool
  | Header_chunk string u64 u64 bool

text \<open>One \<open>curl_multi_perform\<close>: the callbacks it makes, whether it returns \<open>CURLM_OK\<close>, and the
  number of running handles it reports.\<close>

record perform_obs =
  pf_callbacks :: "curl_callback list"
  pf_ok :: bool
  pf_running :: nat

text \<open>One turn of the polling loop: the cancellation flag, the clock, whether
  \<open>curl_multi_poll\<close> with the given timeout returns \<open>CURLM_OK\<close>, and the perform after it.\<close>

record poll_obs =
  po_cancelled :: bool
  po_now :: int
  po_poll :: "int \<Rightarrow> bool"
  po_perform :: perform_obs

record attempt_env =
  ae_easy_init :: bool
  ae_multi_init :: bool
  ae_slist_append :: "nat \<Rightarrow> bool"
  ae_setup_now :: int
  ae_setopt :: "curl_option \<Rightarrow> CURLcode"
  ae_add_handle :: bool
  ae_first_perform :: perform_obs
  ae_polls :: "poll_obs list"
  ae_messages :: "(bool \<times> bool \<times> CURLcode) list" \<comment> \<open>done?, this handle?, result\<close>
  ae_response_code :: int
  ae_cancelled :: bool
  ae_now :: int

section \<open>Clock arithmetic\<close>

definition time_point_max :: int where
  "time_point_max = 2 ^ 63 - 1"

text \<open>Converting milliseconds to the clock's nanoseconds is a signed 64-bit product.\<close>

definition ms_to_ns :: "int \<Rightarrow> int option" where
  "ms_to_ns ms = i64_mul ms 1000000"

text \<open>\<open>calculateDeadline\<close>, and the same computation of \<open>requested_end\<close> in \<open>waitForRetry\<close>.\<close>

definition saturating_end :: "int \<Rightarrow> int \<Rightarrow> int option" where
  "saturating_end now ms =
     (case ms_to_ns ms of
        None \<Rightarrow> None
      | Some duration \<Rightarrow>
          (case i64_sub time_point_max now of
             None \<Rightarrow> None
           | Some room \<Rightarrow> if room \<le> duration then Some time_point_max else i64_add now duration))"

definition calculateDeadline :: "int \<Rightarrow> OperationContext \<Rightarrow> int option" where
  "calculateDeadline now context_in = saturating_end now (to_duration (oc_timeout context_in))"

definition remainingMilliseconds :: "curl_lib \<Rightarrow> int \<Rightarrow> int \<Rightarrow> int" where
  "remainingMilliseconds lib now deadline =
     (if deadline \<le> now then 0
      else let remaining = cpp_div (deadline - now) 1000000;
               rounded = (if remaining \<le> 0 then 1 else remaining)
           in min (lib_long_max lib) rounded)"

definition CANCELLATION_POLL_INTERVAL :: int where
  "CANCELLATION_POLL_INTERVAL = 20"

section \<open>Errors\<close>

definition validationError :: "string \<Rightarrow> TransportError" where
  "validationError m = TransportError_make XCat_Validation X_InvalidArgument m 0"

definition timeoutError :: TransportError where
  "timeoutError = TransportError_make XCat_Timeout X_TimedOut
     ''The HTTP operation exceeded its deadline.'' 0"

definition cancellationError :: TransportError where
  "cancellationError = TransportError_make XCat_Cancellation X_Cancelled
     ''The HTTP operation was cancelled.'' 0"

definition convertCurlError :: "curl_lib \<Rightarrow> CURLcode \<Rightarrow> TransportError" where
  "convertCurlError lib r =
     (let message = lib_strerror lib r; native = lib_code_value lib r in
      case r of
        CURLE_URL_MALFORMAT \<Rightarrow> validationError message
      | CURLE_UNSUPPORTED_PROTOCOL \<Rightarrow> TransportError_make XCat_Protocol X_Unsupported message native
      | CURLE_COULDNT_RESOLVE_HOST \<Rightarrow> TransportError_make XCat_Resolution X_HostNotFound message native
      | CURLE_COULDNT_CONNECT \<Rightarrow> TransportError_make XCat_Connection X_ConnectionRefused message native
      | CURLE_SEND_ERROR \<Rightarrow> TransportError_make XCat_InputOutput X_SendFailed message native
      | CURLE_RECV_ERROR \<Rightarrow> TransportError_make XCat_InputOutput X_ReceiveFailed message native
      | CURLE_PARTIAL_FILE \<Rightarrow> TransportError_make XCat_InputOutput X_ReceiveFailed message native
      | CURLE_OPERATION_TIMEDOUT \<Rightarrow> timeoutError
      | CURLE_SSL_CONNECT_ERROR \<Rightarrow> TransportError_make XCat_Security X_SecurityFailed message native
      | CURLE_PEER_FAILED_VERIFICATION \<Rightarrow> TransportError_make XCat_Security X_SecurityFailed message native
      | CURLE_SSL_CERTPROBLEM \<Rightarrow> TransportError_make XCat_Security X_SecurityFailed message native
      | CURLE_SSL_CACERT_BADFILE \<Rightarrow> TransportError_make XCat_Security X_SecurityFailed message native
      | CURLE_OUT_OF_MEMORY \<Rightarrow> TransportError_make XCat_InputOutput X_ResourceExhausted message native
      | _ \<Rightarrow> TransportError_make XCat_InputOutput X_Unknown message native)"

lemma convertCurlError_not_ok [simp]: "\<not> te_ok (convertCurlError lib r)"
  by (cases r) (simp_all add: convertCurlError_def validationError_def timeoutError_def)

section \<open>One attempt\<close>

fun customMethod :: "eHttpMethod \<Rightarrow> string option" where
  "customMethod Put = Some ''PUT''"
| "customMethod Patch = Some ''PATCH''"
| "customMethod Delete = Some ''DELETE''"
| "customMethod m = None"

text \<open>The header list of the request, or \<open>None\<close> when an append fails.\<close>

fun build_header_list :: "(nat \<Rightarrow> bool) \<Rightarrow> nat \<Rightarrow> sHttpHeader list \<Rightarrow> string list option" where
  "build_header_list append_ok i [] = Some []"
| "build_header_list append_ok i (h # hs) =
     (if append_ok i then map_option ((#) (header_line h)) (build_header_list append_ok (Suc i) hs)
      else None)"

definition method_options :: "HttpRequest \<Rightarrow> curl_option list" where
  "method_options r =
     (if rq_method r = Get then [OPT_HTTPGET 1]
      else if rq_method r = Head then [OPT_NOBODY 1]
      else (if rq_method r = Post then [OPT_POST 1]
            else [OPT_CUSTOMREQUEST (customMethod (rq_method r))])
        @ [OPT_POSTFIELDS (rq_body r), OPT_POSTFIELDSIZE_LARGE (int (length (rq_body r)))])"

definition setup_options ::
    "HttpRequest \<Rightarrow> HttpAuthentication option \<Rightarrow> int \<Rightarrow> string list \<Rightarrow> curl_option list" where
  "setup_options r auth timeout_ms header_list =
     [OPT_URL (rq_url r), OPT_NOSIGNAL 1, OPT_FOLLOWLOCATION 0, OPT_FAILONERROR 0,
      OPT_ACCEPT_ENCODING [], OPT_USERAGENT ''WSE/0.1.0'', OPT_TIMEOUT_MS timeout_ms,
      OPT_CONNECTTIMEOUT_MS timeout_ms, OPT_WRITEFUNCTION, OPT_WRITEDATA, OPT_HEADERFUNCTION,
      OPT_HEADERDATA, OPT_HTTPHEADER header_list]
     @ (case auth of None \<Rightarrow> []
        | Some a \<Rightarrow> [OPT_HTTPAUTH_ANY, OPT_USERNAME (ha_username a), OPT_PASSWORD (ha_secret a)])
     @ method_options r"

text \<open>\<open>set_option\<close> does nothing once a previous option failed.\<close>

fun apply_options :: "(curl_option \<Rightarrow> CURLcode) \<Rightarrow> CURLcode \<Rightarrow> curl_option list \<Rightarrow> CURLcode" where
  "apply_options setopt r [] = r"
| "apply_options setopt r (x # xs) =
     apply_options setopt (if r = CURLE_OK then setopt x else r) xs"

fun run_callback :: "sResponseAccumulator \<Rightarrow> curl_callback \<Rightarrow> sResponseAccumulator" where
  "run_callback acc (Body_chunk c s n a) = snd (writeBody c s n a acc)"
| "run_callback acc (Header_chunk c s n a) = snd (writeHeader c s n a acc)"

definition perform :: "sResponseAccumulator \<Rightarrow> perform_obs \<Rightarrow> sResponseAccumulator" where
  "perform acc p = foldl run_callback acc (pf_callbacks p)"

text \<open>The polling loop: the transfer result so far (\<open>CURLE_FAILED_INIT\<close> when neither cancelled
  nor timed out), whether the multi interface is still \<open>CURLM_OK\<close>, and the accumulator.\<close>

fun transfer_loop ::
    "curl_lib \<Rightarrow> int \<Rightarrow> bool \<Rightarrow> nat \<Rightarrow> sResponseAccumulator \<Rightarrow> poll_obs list
     \<Rightarrow> (CURLcode \<times> bool \<times> sResponseAccumulator) outcome" where
  "transfer_loop lib deadline multi_ok running acc polls =
     (if multi_ok \<and> 0 < running then
        (case polls of
           [] \<Rightarrow> Pending
         | p # ps \<Rightarrow>
             if po_cancelled p then Done (CURLE_ABORTED_BY_CALLBACK, multi_ok, acc)
             else
               let remaining_ms = remainingMilliseconds lib (po_now p) deadline in
               if remaining_ms \<le> 0 then Done (CURLE_OPERATION_TIMEDOUT, multi_ok, acc)
               else if po_poll p (min remaining_ms CANCELLATION_POLL_INTERVAL)
               then transfer_loop lib deadline (pf_ok (po_perform p)) (pf_running (po_perform p))
                      (perform acc (po_perform p)) ps
               else transfer_loop lib deadline False running acc ps)
      else Done (CURLE_FAILED_INIT, multi_ok, acc))"

declare transfer_loop.simps [simp del]

fun find_done_message :: "(bool \<times> bool \<times> CURLcode) list \<Rightarrow> CURLcode" where
  "find_done_message [] = CURLE_FAILED_INIT"
| "find_done_message ((is_done, ours, r) # ms) = (if is_done \<and> ours then r else find_done_message ms)"

definition run_transfer ::
    "curl_lib \<Rightarrow> int \<Rightarrow> attempt_env \<Rightarrow> sResponseAccumulator
     \<Rightarrow> (CURLcode \<times> sResponseAccumulator) outcome" where
  "run_transfer lib deadline env acc =
     (if ae_add_handle env then
        obind (transfer_loop lib deadline (pf_ok (ae_first_perform env))
                 (pf_running (ae_first_perform env)) (perform acc (ae_first_perform env)) (ae_polls env))
          (\<lambda>(r, multi_ok, acc').
             Done (if \<not> multi_ok then CURLE_RECV_ERROR
                   else if r = CURLE_FAILED_INIT then find_done_message (ae_messages env)
                   else r, acc'))
      else Done (CURLE_FAILED_INIT, acc))"

definition http_partial :: "HttpResponse \<Rightarrow> TransportError \<Rightarrow> HttpResult" where
  "http_partial response e = \<lparr>pr_value = response, pr_error = e\<rparr>"

abbreviation http_success :: "HttpResponse \<Rightarrow> HttpResult" where
  "http_success \<equiv> partial_success TransportError_none"

abbreviation http_succeeded :: "HttpResult \<Rightarrow> bool" where
  "http_succeeded \<equiv> partial_succeeded te_ok"

text \<open>The order in which a finished transfer is judged.\<close>

definition judge_attempt ::
    "curl_lib \<Rightarrow> int \<Rightarrow> attempt_env \<Rightarrow> u32 \<Rightarrow> CURLcode \<Rightarrow> sResponseAccumulator \<Rightarrow> HttpResult" where
  "judge_attempt lib deadline env attempt_count transfer_result acc =
     (let portable_status = (if 0 \<le> ae_response_code env \<and> ae_response_code env \<le> 65535
                             then word_of_int (ae_response_code env) else 0);
          response = HttpResponse_make portable_status (ac_headers acc) (ac_body acc) attempt_count
      in if ae_cancelled env then http_partial response cancellationError
         else if remainingMilliseconds lib (ae_now env) deadline \<le> 0
                 \<or> transfer_result = CURLE_OPERATION_TIMEDOUT then http_partial response timeoutError
         else if ac_body_limit_exceeded acc then http_partial response
                (TransportError_make XCat_Http X_ResponseTooLarge
                   ''The HTTP response body exceeded the configured limit.'' 0)
         else if ac_allocation_failed acc then http_partial response
                (TransportError_make XCat_InputOutput X_ResourceExhausted
                   ''Allocating the HTTP response failed.'' 0)
         else if transfer_result \<noteq> CURLE_OK then http_partial response (convertCurlError lib transfer_result)
         else if 400 \<le> portable_status then http_partial response
                (TransportError_make XCat_Http X_HttpStatusError
                   ''The HTTP server returned an error status.'' (uint portable_status))
         else http_success response)"

definition executeAttempt ::
    "curl_lib \<Rightarrow> HttpRequest \<Rightarrow> u64 \<Rightarrow> int \<Rightarrow> u32 \<Rightarrow> HttpAuthentication option \<Rightarrow> attempt_env
     \<Rightarrow> HttpResult outcome" where
  "executeAttempt lib request maximum_body_size deadline attempt_count auth env =
     (if \<not> ae_easy_init env \<or> \<not> ae_multi_init env then
        Done (http_partial HttpResponse_none
          (TransportError_make XCat_InputOutput X_ResourceExhausted
             ''Creating the libcurl request handles failed.'' 0))
      else case build_header_list (ae_slist_append env) 0 (rq_headers request) of
        None \<Rightarrow> Done (http_partial HttpResponse_none
          (TransportError_make XCat_InputOutput X_ResourceExhausted
             ''Allocating the libcurl header list failed.'' 0))
      | Some header_list \<Rightarrow>
          let timeout_ms = remainingMilliseconds lib (ae_setup_now env) deadline;
              setup_result = apply_options (ae_setopt env) CURLE_OK
                (setup_options request auth timeout_ms header_list)
          in if setup_result \<noteq> CURLE_OK
             then Done (http_partial HttpResponse_none (convertCurlError lib setup_result))
             else obind (run_transfer lib deadline env (accumulator_new maximum_body_size))
               (\<lambda>(r, acc). Done (judge_attempt lib deadline env attempt_count r acc)))"

section \<open>Retrying\<close>

definition isTransientHttpStatus :: "u16 \<Rightarrow> bool" where
  "isTransientHttpStatus s \<longleftrightarrow> s \<in> {408, 425, 429, 500, 502, 503, 504}"

definition isTransientFailure :: "HttpResult \<Rightarrow> bool" where
  "isTransientFailure r =
     (if http_succeeded r then False
      else if te_code (pr_error r) = X_HttpStatusError
      then isTransientHttpStatus (rs_status_code (pr_value r))
      else if te_category (pr_error r) \<in> {XCat_Resolution, XCat_Connection, XCat_InputOutput, XCat_Timeout}
      then te_code (pr_error r) \<noteq> X_ResponseTooLarge \<and> te_code (pr_error r) \<noteq> X_ResourceExhausted
      else False)"

text \<open>One turn of the waiting loop: the clock of the loop test, the cancellation flag, and the
  clock read after it.\<close>

record wait_turn =
  wt_test_now :: int
  wt_cancelled :: bool
  wt_now :: int

record wait_obs =
  wo_start :: int
  wo_turns :: "wait_turn list"

text \<open>The loop yields its status and the lengths in milliseconds of the sleeps it made.\<close>

fun wait_loop :: "int \<Rightarrow> int \<Rightarrow> wait_turn list \<Rightarrow> (TransportStatus \<times> int list) outcome" where
  "wait_loop requested_end deadline [] = Pending"
| "wait_loop requested_end deadline (w # ws) =
     (if \<not> wt_test_now w < requested_end then Done (success_status, [])
      else if wt_cancelled w then Done (Failure cancellationError, [])
      else if deadline \<le> wt_now w then Done (Failure timeoutError, [])
      else
        let remaining_retry = cpp_div (requested_end - wt_now w) 1000000;
            remaining_total = cpp_div (deadline - wt_now w) 1000000;
            sleep_duration = min CANCELLATION_POLL_INTERVAL (min remaining_retry remaining_total)
        in obind (wait_loop requested_end deadline ws)
             (\<lambda>(s, sleeps). Done (s, if 0 < sleep_duration then sleep_duration # sleeps else sleeps)))"

definition waitForRetry ::
    "int \<Rightarrow> int \<Rightarrow> wait_obs \<Rightarrow> (TransportStatus \<times> int list) outcome" where
  "waitForRetry delay deadline w =
     (case saturating_end (wo_start w) delay of
        None \<Rightarrow> Undefined
      | Some requested_end \<Rightarrow> wait_loop requested_end deadline (wo_turns w))"

text \<open>The decision after a failed attempt.\<close>

definition retry_decision :: "HttpExecutionOptions \<Rightarrow> u32 \<Rightarrow> HttpResult \<Rightarrow> RetryDecision option" where
  "retry_decision options attempt_count result =
     (let disposition = (if eo_retry_transient_failures options \<and> isTransientFailure result
                         then Retryable else DoNotRetry)
      in evaluate (eo_retry_policy options) attempt_count (eo_operation_safety options)
           disposition (pr_error result))"

text \<open>One turn of the loop with its counter already advanced: the result it returns, or
  \<open>Again\<close> when the wait ended and another attempt follows.\<close>

datatype attempt_next = Return HttpResult | Again

definition attempt_turn ::
    "curl_lib \<Rightarrow> HttpRequest \<Rightarrow> HttpExecutionOptions \<Rightarrow> int \<Rightarrow> HttpAuthentication option
     \<Rightarrow> u32 \<Rightarrow> attempt_env \<Rightarrow> wait_obs \<Rightarrow> attempt_next outcome" where
  "attempt_turn lib request options deadline auth attempt_count env w =
     obind (executeAttempt lib request (eo_maximum_response_body_size options) deadline
              attempt_count auth env)
       (\<lambda>result.
         if http_succeeded result then Done (Return result)
         else obind (of_option (retry_decision options attempt_count result))
           (\<lambda>decision.
             if \<not> should_retry decision then Done (Return result)
             else obind (waitForRetry (rd_delay decision) deadline w)
               (\<lambda>waited. case fst waited of
                   Failure e \<Rightarrow> Done (Return (http_partial (pr_value result) e))
                 | Success u \<Rightarrow> Done Again)))"

text \<open>The attempts of a run: the environment of each, and of the wait that would follow it.\<close>

fun retry_loop ::
    "curl_lib \<Rightarrow> HttpRequest \<Rightarrow> HttpExecutionOptions \<Rightarrow> int \<Rightarrow> HttpAuthentication option
     \<Rightarrow> u32 \<Rightarrow> (attempt_env \<times> wait_obs) list \<Rightarrow> HttpResult outcome" where
  "retry_loop lib request options deadline auth attempt_count [] = Pending"
| "retry_loop lib request options deadline auth attempt_count ((env, w) # rest) =
     (let attempt_count = attempt_count + 1 in
      obind (attempt_turn lib request options deadline auth attempt_count env w)
        (\<lambda>turn. case turn of
            Return result \<Rightarrow> Done result
          | Again \<Rightarrow> retry_loop lib request options deadline auth attempt_count rest))"

text \<open>The environment of a whole request: the cancellation flag at entry, the result of the
  library's global initialisation, the clock for the deadline, and the attempts.\<close>

record request_env =
  re_cancelled :: bool
  re_runtime :: CURLcode
  re_now :: int
  re_attempts :: "(attempt_env \<times> wait_obs) list"

definition request_accepted ::
    "HttpRequest \<Rightarrow> HttpExecutionOptions \<Rightarrow> OperationContext \<Rightarrow> HttpAuthentication option \<Rightarrow> bool" where
  "request_accepted request options context_in auth \<longleftrightarrow>
     OperationContext_isValid context_in \<and> HttpExecutionOptions_isValid options
     \<and> isValidMethod (rq_method request) \<and> isValidUrl (rq_url request)
     \<and> (case auth of None \<Rightarrow> True | Some a \<Rightarrow> HttpAuthentication_isValid a)"

definition executeRequest ::
    "curl_lib \<Rightarrow> HttpRequest \<Rightarrow> HttpExecutionOptions \<Rightarrow> OperationContext
     \<Rightarrow> HttpAuthentication option \<Rightarrow> request_env \<Rightarrow> HttpResult outcome" where
  "executeRequest lib request options context_in auth env =
     (if \<not> request_accepted request options context_in auth then
        Done (http_partial HttpResponse_none
          (validationError ''The HTTP request, authentication, options, and timeout must be valid.''))
      else if (rq_method request = Get \<or> rq_method request = Head) \<and> rq_body request \<noteq> [] then
        Done (http_partial HttpResponse_none
          (validationError ''GET and HEAD requests must not contain a body.''))
      else if \<not> list_all isValidHeader (rq_headers request) then
        Done (http_partial HttpResponse_none
          (validationError ''The HTTP request contains an invalid header.''))
      else if re_cancelled env then Done (http_partial HttpResponse_none cancellationError)
      else if re_runtime env \<noteq> CURLE_OK then
        Done (http_partial HttpResponse_none (convertCurlError lib (re_runtime env)))
      else case calculateDeadline (re_now env) context_in of
          None \<Rightarrow> Undefined
        | Some deadline \<Rightarrow> retry_loop lib request options deadline auth 0 (re_attempts env))"

definition execute where
  "execute lib request options context_in env = executeRequest lib request options context_in None env"

definition executeAuthenticated where
  "executeAuthenticated lib request options auth context_in env =
     executeRequest lib request options context_in (Some auth) env"

section \<open>Clock lemmas\<close>

lemma ms_to_ns_Some: "ms_to_ns ms = Some ns \<longleftrightarrow> ns = ms * 1000000 \<and> in_i64 (ms * 1000000)"
  by (auto simp: ms_to_ns_def i64_mul_Some)

lemma ms_fits: "0 \<le> ms \<Longrightarrow> in_i64 (ms * 1000000) \<longleftrightarrow> ms \<le> 9223372036854"
  by (auto simp: in_i64_def)

lemma saturating_end_value:
  assumes "0 \<le> now" and "now \<le> time_point_max" and "0 \<le> ms"
  shows "saturating_end now ms =
    (if ms \<le> 9223372036854 then Some (min time_point_max (now + ms * 1000000)) else None)"
proof (cases "ms \<le> 9223372036854")
  case True
  then have "ms_to_ns ms = Some (ms * 1000000)" using assms ms_fits by (simp add: ms_to_ns_Some)
  moreover have "i64_sub time_point_max now = Some (time_point_max - now)"
    using assms by (simp add: in_i64_def time_point_max_def)
  moreover have "i64_add now (ms * 1000000) = Some (now + ms * 1000000)"
    if "ms * 1000000 < time_point_max - now"
    using assms that by (simp add: in_i64_def time_point_max_def)
  ultimately show ?thesis using True by (auto simp: saturating_end_def)
next
  case False
  then have "\<not> in_i64 (ms * 1000000)" using assms ms_fits by simp
  then have "ms_to_ns ms = None" by (simp add: ms_to_ns_def i64_mul_def)
  with False show ?thesis by (simp add: saturating_end_def)
qed

lemma remaining_expired: "deadline \<le> now \<Longrightarrow> remainingMilliseconds lib now deadline = 0"
  by (simp add: remainingMilliseconds_def)

lemma remaining_positive:
  "0 < lib_long_max lib \<Longrightarrow> 0 < remainingMilliseconds lib now deadline \<longleftrightarrow> now < deadline"
  by (auto simp: remainingMilliseconds_def Let_def)

section \<open>What an attempt accumulates\<close>

lemma run_callback_within: "acc_within_limit acc \<Longrightarrow> acc_within_limit (run_callback acc c)"
  by (cases c) (simp_all add: writeBody_within writeHeader_within)

lemma run_callback_maximum: "ac_maximum_body_size (run_callback acc c) = ac_maximum_body_size acc"
  by (cases c) simp_all

fun body_payload :: "curl_callback \<Rightarrow> bytes" where
  "body_payload (Body_chunk c s n a) = take (unat (s * n)) c"
| "body_payload (Header_chunk c s n a) = []"

definition acc_clean :: "sResponseAccumulator \<Rightarrow> bool" where
  "acc_clean acc \<longleftrightarrow> \<not> ac_body_limit_exceeded acc \<and> \<not> ac_allocation_failed acc"

lemma run_callback_clean:
  "acc_clean (run_callback acc c) \<Longrightarrow>
   acc_clean acc \<and> ac_body (run_callback acc c) = ac_body acc @ body_payload c"
  by (cases c) (auto simp: writeBody_def writeHeader_def acc_clean_def Let_def
      split: if_splits option.splits)

lemma run_callbacks:
  "acc_within_limit acc \<Longrightarrow> acc_within_limit (foldl run_callback acc cs)
     \<and> ac_maximum_body_size (foldl run_callback acc cs) = ac_maximum_body_size acc"
  by (induction cs arbitrary: acc) (simp_all add: run_callback_within run_callback_maximum)

lemma run_callbacks_clean:
  "acc_clean (foldl run_callback acc cs) \<Longrightarrow>
   acc_clean acc \<and> ac_body (foldl run_callback acc cs) = ac_body acc @ concat (map body_payload cs)"
proof (induction cs arbitrary: acc)
  case Nil
  then show ?case by simp
next
  case (Cons c cs)
  from Cons.prems have "acc_clean (foldl run_callback (run_callback acc c) cs)" by simp
  from Cons.IH [OF this] show ?case using run_callback_clean [of acc c] by simp
qed

text \<open>The callbacks of a transfer are those of the first perform and of a prefix of the polls.\<close>

definition poll_callbacks :: "poll_obs list \<Rightarrow> curl_callback list" where
  "poll_callbacks ps = concat (map (\<lambda>p. pf_callbacks (po_perform p)) ps)"

lemma transfer_loop_callbacks:
  "transfer_loop lib deadline ok running acc polls = Done (r, ok', acc') \<Longrightarrow>
   \<exists>k. acc' = foldl run_callback acc (poll_callbacks (take k polls))"
proof (induction lib deadline ok running acc polls rule: transfer_loop.induct)
  case (1 lib deadline ok running acc polls)
  show ?case
  proof (cases "ok \<and> 0 < running \<and> polls \<noteq> []")
    case False
    then have "acc' = acc" using "1.prems"
      by (subst (asm) transfer_loop.simps) (auto split: list.splits if_splits)
    then show ?thesis by (intro exI [of _ 0]) (simp add: poll_callbacks_def)
  next
    case True
    then obtain p ps where polls: "polls = p # ps" by (cases polls) auto
    let ?m = "remainingMilliseconds lib (po_now p) deadline"
    consider (stop) "po_cancelled p \<or> ?m \<le> 0"
      | (failed) "\<not> po_cancelled p" "\<not> ?m \<le> 0" "\<not> po_poll p (min ?m CANCELLATION_POLL_INTERVAL)"
      | (step) "\<not> po_cancelled p" "\<not> ?m \<le> 0" "po_poll p (min ?m CANCELLATION_POLL_INTERVAL)"
      by blast
    then show ?thesis
    proof cases
      case stop
      then have "acc' = acc" using "1.prems" True polls
        by (subst (asm) transfer_loop.simps) (auto split: if_splits)
      then show ?thesis by (intro exI [of _ 0]) (simp add: poll_callbacks_def)
    next
      case failed
      then have "transfer_loop lib deadline False running acc ps = Done (r, ok', acc')"
        using "1.prems" True polls by (subst (asm) transfer_loop.simps) simp
      then have "acc' = acc" by (subst (asm) transfer_loop.simps) simp
      then show ?thesis by (intro exI [of _ 0]) (simp add: poll_callbacks_def)
    next
      case step
      then have result: "transfer_loop lib deadline (pf_ok (po_perform p)) (pf_running (po_perform p))
          (perform acc (po_perform p)) ps = Done (r, ok', acc')"
        using "1.prems" True polls by (subst (asm) transfer_loop.simps) simp
      have "\<exists>k. acc' = foldl run_callback (perform acc (po_perform p)) (poll_callbacks (take k ps))"
        using "1.IH"(1) True polls step result by simp
      then obtain k where "acc' = foldl run_callback (perform acc (po_perform p)) (poll_callbacks (take k ps))" ..
      then have "acc' = foldl run_callback acc (poll_callbacks (take (Suc k) polls))"
        by (simp add: polls poll_callbacks_def perform_def)
      then show ?thesis ..
    qed
  qed
qed

definition transfer_callbacks :: "attempt_env \<Rightarrow> nat \<Rightarrow> curl_callback list" where
  "transfer_callbacks env k =
     pf_callbacks (ae_first_perform env) @ poll_callbacks (take k (ae_polls env))"

lemma run_transfer_callbacks:
  assumes "run_transfer lib deadline env acc = Done (r, acc')" and "ae_add_handle env"
  shows "\<exists>k. acc' = foldl run_callback acc (transfer_callbacks env k)"
proof -
  from assms obtain r' ok' where
    "transfer_loop lib deadline (pf_ok (ae_first_perform env)) (pf_running (ae_first_perform env))
       (perform acc (ae_first_perform env)) (ae_polls env) = Done (r', ok', acc')"
    by (auto simp: run_transfer_def obind_Done_iff)
  from transfer_loop_callbacks [OF this] show ?thesis
    by (auto simp: transfer_callbacks_def perform_def)
qed

lemma run_transfer_within:
  assumes "run_transfer lib deadline env acc = Done (r, acc')" and "acc_within_limit acc"
  shows "acc_within_limit acc' \<and> ac_maximum_body_size acc' = ac_maximum_body_size acc"
proof (cases "ae_add_handle env")
  case True
  from run_transfer_callbacks [OF assms(1) True] run_callbacks [OF assms(2)] show ?thesis by metis
next
  case False
  with assms show ?thesis by (simp add: run_transfer_def)
qed

lemma judge_attempt_body:
  "rs_body (pr_value (judge_attempt lib deadline env n r acc)) = ac_body acc
   \<and> rs_attempt_count (pr_value (judge_attempt lib deadline env n r acc)) = n"
  by (simp add: judge_attempt_def http_partial_def partial_success_def HttpResponse_make_def Let_def)

text \<open>An attempt that returns either gave up before the transfer, with an empty response, or
  judged the transfer it ran.\<close>

lemma executeAttempt_cases:
  assumes "executeAttempt lib request m deadline n auth env = Done res"
  obtains (early) "pr_value res = HttpResponse_none" and "\<not> http_succeeded res"
  | (judged) r acc where "run_transfer lib deadline env (accumulator_new m) = Done (r, acc)"
      and "res = judge_attempt lib deadline env n r acc"
  using assms
  by (auto simp: executeAttempt_def http_partial_def partial_succeeded_def Let_def obind_Done_iff
      split: if_splits option.splits)

lemma executeAttempt_body:
  assumes "executeAttempt lib request m deadline n auth env = Done res"
  shows "length (rs_body (pr_value res)) \<le> unat m"
proof (cases rule: executeAttempt_cases [OF assms])
  case 1
  then show ?thesis by (simp add: HttpResponse_none_def)
next
  case (2 r acc)
  from run_transfer_within [OF 2(1) accumulator_new_within] have "length (ac_body acc) \<le> unat m"
    by (auto simp: acc_within_limit_def accumulator_new_def)
  with 2 show ?thesis by (simp add: judge_attempt_body)
qed

lemma executeAttempt_count:
  assumes "executeAttempt lib request m deadline n auth env = Done res"
  shows "rs_attempt_count (pr_value res) \<in> {0, n}"
  by (cases rule: executeAttempt_cases [OF assms])
     (simp_all add: HttpResponse_none_def judge_attempt_body)

section \<open>An observed transfer ends\<close>

definition attempt_observed :: "int \<Rightarrow> attempt_env \<Rightarrow> bool" where
  "attempt_observed deadline env \<longleftrightarrow> (\<exists>p \<in> set (ae_polls env). po_cancelled p \<or> deadline \<le> po_now p)"

lemma transfer_loop_returns:
  "\<exists>p \<in> set polls. po_cancelled p \<or> deadline \<le> po_now p \<Longrightarrow>
   returns (transfer_loop lib deadline ok running acc polls)"
proof (induction lib deadline ok running acc polls rule: transfer_loop.induct)
  case (1 lib deadline ok running acc polls)
  then obtain p ps where polls: "polls = p # ps" by (cases polls) auto
  let ?m = "remainingMilliseconds lib (po_now p) deadline"
  consider (stop) "\<not> (ok \<and> 0 < running) \<or> po_cancelled p \<or> ?m \<le> 0"
    | (go) "ok" "0 < running" "\<not> po_cancelled p" "\<not> ?m \<le> 0"
    by blast
  then show ?case
  proof cases
    case stop
    then show ?thesis by (subst transfer_loop.simps) (auto simp: polls Let_def)
  next
    case go
    then have "\<not> deadline \<le> po_now p" using remaining_expired [of deadline "po_now p" lib] by auto
    then have later: "\<exists>q \<in> set ps. po_cancelled q \<or> deadline \<le> po_now q"
      using "1.prems" go(3) polls by auto
    have "returns (transfer_loop lib deadline (pf_ok (po_perform p)) (pf_running (po_perform p))
        (perform acc (po_perform p)) ps)" if "po_poll p (min ?m CANCELLATION_POLL_INTERVAL)"
      using "1.IH"(1) go polls later that by simp
    moreover have "returns (transfer_loop lib deadline False running acc ps)"
      by (subst transfer_loop.simps) simp
    ultimately show ?thesis using go by (subst transfer_loop.simps) (simp add: polls Let_def)
  qed
qed

lemma run_transfer_returns:
  "attempt_observed deadline env \<Longrightarrow> returns (run_transfer lib deadline env acc)"
  unfolding run_transfer_def attempt_observed_def
  by (auto intro!: returns_obindI transfer_loop_returns)

lemma executeAttempt_returns:
  "attempt_observed deadline env \<Longrightarrow> returns (executeAttempt lib request m deadline n auth env)"
  unfolding executeAttempt_def
  by (auto simp: Let_def intro!: returns_obindI run_transfer_returns split: option.split)

definition wait_observed :: "int \<Rightarrow> wait_obs \<Rightarrow> bool" where
  "wait_observed deadline w \<longleftrightarrow>
     0 \<le> wo_start w \<and> wo_start w \<le> time_point_max
     \<and> (\<exists>t \<in> set (wo_turns w). wt_cancelled t \<or> deadline \<le> wt_now t)"

lemma wait_loop_returns:
  "\<exists>t \<in> set ts. wt_cancelled t \<or> deadline \<le> wt_now t \<Longrightarrow>
   \<exists>s sleeps. wait_loop e deadline ts = Done (s, sleeps) \<and> (\<forall>x \<in> set sleeps. 0 < x \<and> x \<le> CANCELLATION_POLL_INTERVAL)"
proof (induction ts)
  case Nil
  then show ?case by simp
next
  case (Cons t ts)
  show ?case
  proof (cases "wt_test_now t < e \<and> \<not> wt_cancelled t \<and> \<not> deadline \<le> wt_now t")
    case True
    with Cons obtain s sleeps where "wait_loop e deadline ts = Done (s, sleeps)"
      "\<forall>x \<in> set sleeps. 0 < x \<and> x \<le> CANCELLATION_POLL_INTERVAL" by auto
    with True show ?thesis by (simp add: Let_def)
  next
    case False
    then show ?thesis by auto
  qed
qed

lemma waitForRetry_returns:
  assumes "wait_observed deadline w" and "0 \<le> delay" and "delay \<le> 9223372036854"
  shows "returns (waitForRetry delay deadline w)"
proof -
  obtain e where "saturating_end (wo_start w) delay = Some e"
    using assms by (simp add: wait_observed_def saturating_end_value)
  moreover have "returns (wait_loop e deadline (wo_turns w))"
    using assms(1) wait_loop_returns [of "wo_turns w" deadline e]
    by (auto simp: wait_observed_def returns_def)
  ultimately show ?thesis by (simp add: waitForRetry_def)
qed

section \<open>The retry loop\<close>

lemma attempt_turn_Return:
  assumes "attempt_turn lib request options deadline auth n env w = Done (Return r)"
  shows "\<exists>a. executeAttempt lib request (eo_maximum_response_body_size options) deadline n auth env
      = Done a \<and> pr_value r = pr_value a"
  using assms
  by (auto simp: attempt_turn_def obind_Done_iff http_partial_def split: if_splits Result.splits)

lemma attempt_turn_Again:
  assumes "attempt_turn lib request options deadline auth n env w = Done Again"
  shows "\<exists>a d. retry_decision options n a = Some d \<and> should_retry d"
  using assms
  by (auto simp: attempt_turn_def obind_Done_iff split: if_splits Result.splits)

text \<open>The number of attempts a request may make.\<close>

definition attempt_budget :: "HttpExecutionOptions \<Rightarrow> nat" where
  "attempt_budget options =
     (if eo_operation_safety options = Idempotent \<and> eo_retry_transient_failures options
      then unat (maximum_attempts (eo_retry_policy options)) else 1)"

lemma retry_within_budget:
  assumes "retry_decision options n a = Some d" and "should_retry d"
  shows "attempt_budget options = unat (maximum_attempts (eo_retry_policy options))
    \<and> n < maximum_attempts (eo_retry_policy options)"
  using evaluate_retry [OF assms(1) [unfolded retry_decision_def Let_def] assms(2)]
  by (auto simp: attempt_budget_def split: if_splits)

lemma Again_within_budget:
  assumes "attempt_turn lib request options deadline auth (n + 1) env w = Done Again"
  shows "unat (n + 1) < attempt_budget options"
  using attempt_turn_Again [OF assms] retry_within_budget by (metis word_less_nat_alt)

lemma unat_next_attempt: "unat n < b \<Longrightarrow> b \<le> 2 ^ 32 - 1 \<Longrightarrow> unat (n + 1 :: u32) = Suc (unat n)"
  using unat_add_bounded [of n 1] by simp

lemma attempt_budget_bound: "attempt_budget options \<le> 2 ^ 32 - 1"
  using unat_lt_size [of "maximum_attempts (eo_retry_policy options)"]
  by (simp add: attempt_budget_def)

lemmas unat_next = unat_next_attempt [OF _ attempt_budget_bound]

text \<open>Attempts beyond the budget are never looked at.\<close>

lemma retry_loop_take:
  assumes "unat n < attempt_budget options"
  shows "retry_loop lib request options deadline auth n xs =
    retry_loop lib request options deadline auth n (take (attempt_budget options - unat n) xs)"
  using assms
proof (induction xs arbitrary: n)
  case Nil
  then show ?case by simp
next
  case (Cons x xs)
  obtain env w where x: "x = (env, w)" by (cases x)
  obtain k where k: "attempt_budget options - unat n = Suc k" and k': "attempt_budget options - Suc (unat n) = k"
    using Cons.prems by (metis Suc_diff_Suc)
  show ?case
  proof (cases "attempt_turn lib request options deadline auth (n + 1) env w = Done Again")
    case True
    from Cons.IH [OF Again_within_budget [OF True]] show ?thesis
      using True k k' unat_next [OF Cons.prems] by (simp add: x Let_def)
  next
    case False
    then show ?thesis
      by (cases "attempt_turn lib request options deadline auth (n + 1) env w")
         (auto simp: x k Let_def split: attempt_next.split)
  qed
qed

lemma retry_loop_Done_cases:
  assumes "retry_loop lib request options deadline auth n ((env, w) # rest) = Done r"
  obtains (last) a where "executeAttempt lib request (eo_maximum_response_body_size options)
        deadline (n + 1) auth env = Done a" and "pr_value r = pr_value a"
  | (again) "attempt_turn lib request options deadline auth (n + 1) env w = Done Again"
      and "retry_loop lib request options deadline auth (n + 1) rest = Done r"
proof -
  from assms obtain v where v: "attempt_turn lib request options deadline auth (n + 1) env w = Done v"
    and rest: "(case v of Return result \<Rightarrow> Done result
        | Again \<Rightarrow> retry_loop lib request options deadline auth (n + 1) rest) = Done r"
    by (auto simp: Let_def obind_Done_iff)
  show thesis
    using v rest last again by (cases v) (auto dest!: attempt_turn_Return)
qed

lemma retry_loop_body:
  "retry_loop lib request options deadline auth n xs = Done r \<Longrightarrow>
   length (rs_body (pr_value r)) \<le> unat (eo_maximum_response_body_size options)"
proof (induction xs arbitrary: n)
  case Nil
  then show ?case by simp
next
  case (Cons x xs)
  obtain env w where x: "x = (env, w)" by (cases x)
  from Cons.prems [unfolded x] show ?case
  proof (cases rule: retry_loop_Done_cases)
    case (last a)
    then show ?thesis using executeAttempt_body [OF last(1)] by simp
  next
    case again
    then show ?thesis using Cons.IH by blast
  qed
qed

lemma retry_loop_count:
  assumes "retry_loop lib request options deadline auth n xs = Done r"
    and "unat n < attempt_budget options"
  shows "unat (rs_attempt_count (pr_value r)) \<le> attempt_budget options"
  using assms
proof (induction xs arbitrary: n)
  case Nil
  then show ?case by simp
next
  case (Cons x xs)
  obtain env w where x: "x = (env, w)" by (cases x)
  from Cons.prems(1) [unfolded x] show ?case
  proof (cases rule: retry_loop_Done_cases)
    case (last a)
    then have "rs_attempt_count (pr_value r) \<in> {0, n + 1}"
      using executeAttempt_count [OF last(1)] by simp
    then show ?thesis using unat_next [OF Cons.prems(2)] Cons.prems(2) by auto
  next
    case again
    with Cons.IH [OF again(2)] Again_within_budget [OF again(1)] show ?thesis by blast
  qed
qed

lemma retry_decision_defined:
  assumes "policy_in_range (eo_retry_policy options)"
  shows "\<exists>d. retry_decision options n a = Some d
    \<and> (should_retry d \<longrightarrow> 0 \<le> rd_delay d \<and> rd_delay d \<le> maximum_delay (eo_retry_policy options))"
proof -
  obtain d where d: "retry_decision options n a = Some d"
    using evaluate_defined [OF assms] unfolding retry_decision_def Let_def by blast
  have "0 \<le> rd_delay d \<and> rd_delay d \<le> maximum_delay (eo_retry_policy options)" if "should_retry d"
  proof -
    from evaluate_retry [OF d [unfolded retry_decision_def Let_def] that]
    have v: "RetryPolicy_isValid (eo_retry_policy options)"
      and c: "calculateDelay (eo_retry_policy options) n = Some (rd_delay d)" by auto
    from calculateDelay_value [OF v assms, of n] c v show ?thesis
      by (auto simp: RetryPolicy_isValid_def split: if_splits)
  qed
  with d show ?thesis by blast
qed

lemma attempt_turn_returns:
  assumes "policy_in_range (eo_retry_policy options)"
    and "maximum_delay (eo_retry_policy options) \<le> 9223372036854"
    and "attempt_observed deadline env" and "wait_observed deadline w"
  shows "returns (attempt_turn lib request options deadline auth n env w)"
proof -
  have decision: "returns (of_option (retry_decision options n a))" for a
    using retry_decision_defined [OF assms(1)] by auto
  have wait: "returns (waitForRetry (rd_delay d) deadline w)"
    if "retry_decision options n a = Some d" and "should_retry d" for a d
    using retry_decision_defined [OF assms(1), of n a] that waitForRetry_returns [OF assms(4)] assms(2)
    by auto
  show ?thesis
    unfolding attempt_turn_def
    using decision wait
    by (auto intro!: returns_obindI executeAttempt_returns assms(3) split: Result.split)
qed

lemma retry_loop_returns:
  assumes "policy_in_range (eo_retry_policy options)"
    and "maximum_delay (eo_retry_policy options) \<le> 9223372036854"
    and "unat n < attempt_budget options" and "attempt_budget options - unat n \<le> length xs"
    and "\<forall>(env, w) \<in> set xs. attempt_observed deadline env \<and> wait_observed deadline w"
  shows "returns (retry_loop lib request options deadline auth n xs)"
  using assms(3-)
proof (induction xs arbitrary: n)
  case Nil
  then show ?case by simp
next
  case (Cons x xs)
  obtain env w where x: "x = (env, w)" by (cases x)
  have turn: "returns (attempt_turn lib request options deadline auth (n + 1) env w)"
    using attempt_turn_returns [OF assms(1,2)] Cons.prems(3) x by auto
  have "returns (retry_loop lib request options deadline auth (n + 1) xs)"
    if "attempt_turn lib request options deadline auth (n + 1) env w = Done Again"
    using Cons.IH [OF Again_within_budget [OF that]] Cons.prems(2,3) unat_next [OF Cons.prems(1)]
    by simp
  with turn show ?case by (auto simp: x Let_def intro!: returns_obindI split: attempt_next.split)
qed

section \<open>Properties\<close>

lemma executeRequest_accepted:
  assumes "request_accepted request options context_in auth"
  shows "OperationContext_isValid context_in \<and> RetryPolicy_isValid (eo_retry_policy options)
    \<and> 0 < attempt_budget options"
  using assms
  by (auto simp: request_accepted_def HttpExecutionOptions_isValid_def attempt_budget_def
      RetryPolicy_isValid_def word_le_nat_alt)

lemma executeRequest_Done:
  assumes "executeRequest lib request options context_in auth env = Done r"
  shows "pr_value r = HttpResponse_none \<or>
    (0 < attempt_budget options \<and>
     (\<exists>deadline. retry_loop lib request options deadline auth 0 (re_attempts env) = Done r))"
  using assms executeRequest_accepted [of request options context_in auth]
  by (auto simp: executeRequest_def http_partial_def split: if_splits option.splits)

text \<open>
  C1. No answer of the server makes the client keep more than the configured number of body
  bytes, and no request reports more attempts than its budget: whatever libcurl delivers and in
  whatever chunks, the response of a finished request has a body of at most
  \<open>maximum_response_body_size\<close> bytes and an attempt count of at most the policy's maximum for an
  idempotent request that retries, and of at most one for every other request.
\<close>

theorem http_response_bounded:
  assumes "executeRequest lib request options context_in auth env = Done r"
  shows "length (rs_body (pr_value r)) \<le> unat (eo_maximum_response_body_size options)
    \<and> unat (rs_attempt_count (pr_value r)) \<le> attempt_budget options"
  using executeRequest_Done [OF assms] retry_loop_body retry_loop_count
  by (auto simp: HttpResponse_none_def)

definition sample_lib :: curl_lib where
  "sample_lib = \<lparr>lib_strerror = (\<lambda>r. ''error''), lib_code_value = (\<lambda>r. 1), lib_long_max = 2 ^ 63 - 1\<rparr>"

definition sample_options :: HttpExecutionOptions where
  "sample_options =
     \<lparr>eo_maximum_response_body_size = 4, eo_retry_policy = createFixed 2 10,
      eo_operation_safety = Idempotent, eo_retry_transient_failures = True\<rparr>"

definition sample_attempt :: "bytes \<Rightarrow> int \<Rightarrow> attempt_env" where
  "sample_attempt body code =
     \<lparr>ae_easy_init = True, ae_multi_init = True, ae_slist_append = (\<lambda>i. True), ae_setup_now = 0,
      ae_setopt = (\<lambda>x. CURLE_OK), ae_add_handle = True,
      ae_first_perform = \<lparr>pf_callbacks = [Body_chunk body 1 (word_of_nat (length body)) True],
                          pf_ok = True, pf_running = 0\<rparr>,
      ae_polls = [\<lparr>po_cancelled = True, po_now = 0, po_poll = (\<lambda>t. True),
                   po_perform = \<lparr>pf_callbacks = [], pf_ok = True, pf_running = 0\<rparr>\<rparr>],
      ae_messages = [(True, True, CURLE_OK)], ae_response_code = code, ae_cancelled = False, ae_now = 1\<rparr>"

definition sample_wait :: wait_obs where
  "sample_wait = \<lparr>wo_start = 1, wo_turns =
     [\<lparr>wt_test_now = 2, wt_cancelled = False, wt_now = 2\<rparr>,
      \<lparr>wt_test_now = 20000000, wt_cancelled = True, wt_now = 20000000\<rparr>]\<rparr>"

definition sample_env :: request_env where
  "sample_env = \<lparr>re_cancelled = False, re_runtime = CURLE_OK, re_now = 0,
     re_attempts = [(sample_attempt [1] 503, sample_wait), (sample_attempt [7, 8] 200, sample_wait)]\<rparr>"

definition sample_context :: OperationContext where
  "sample_context = OperationContext_make (Timeout_milliseconds 1000)"

lemmas sample_defs = sample_lib_def sample_options_def sample_attempt_def sample_wait_def
  sample_env_def sample_context_def

text \<open>The sample request: the first attempt answers 503, the second answers 200 with two bytes.\<close>

lemma sample_request:
  "executeRequest sample_lib (HttpRequest_make Get ''http://a'') sample_options sample_context None
     sample_env =
   Done (http_success (HttpResponse_make 200 [] [7, 8] 2))"
  by code_simp

theorem http_response_bounded_witness:
  "length (rs_body (HttpResponse_make 200 [] [7, 8] 2)) \<le> unat (4 :: u64)
   \<and> unat (rs_attempt_count (HttpResponse_make 200 [] [7, 8] 2)) \<le> 2"
  using http_response_bounded [OF sample_request]
  by (simp add: sample_options_def partial_success_def attempt_budget_def createFixed_def)

text \<open>
  C2. A request looks at no attempt beyond its budget: its outcome is the same when the world
  offers only the first \<open>attempt_budget\<close> attempts.  In particular a request that is not idempotent,
  or does not retry transient failures, is sent at most once.
\<close>

theorem http_attempts_within_budget:
  "executeRequest lib request options context_in auth env =
   executeRequest lib request options context_in auth
     (env\<lparr>re_attempts := take (attempt_budget options) (re_attempts env)\<rparr>)"
proof (cases "request_accepted request options context_in auth")
  case True
  then have "unat (0 :: u32) < attempt_budget options"
    using executeRequest_accepted by fastforce
  from retry_loop_take [OF this] show ?thesis
    by (simp add: executeRequest_def split: option.split)
next
  case False
  then show ?thesis by (simp add: executeRequest_def)
qed

text \<open>
  C3. A request returns.  When the polls of every attempt and every wait go on until the token is
  cancelled or the clock reaches the deadline (and there are as many attempts as the budget), the
  request is over by then: the loops have no other way to continue.  The policy's and the
  context's times must convert to nanoseconds.
\<close>

theorem http_request_returns:
  assumes "policy_in_range (eo_retry_policy options)"
    and "maximum_delay (eo_retry_policy options) \<le> 9223372036854"
    and "to_duration (oc_timeout context_in) \<le> 9223372036854"
    and "0 \<le> re_now env" and "re_now env \<le> time_point_max"
    and "attempt_budget options \<le> length (re_attempts env)"
    and "\<forall>(a, w) \<in> set (re_attempts env).
      attempt_observed (min time_point_max (re_now env + to_duration (oc_timeout context_in) * 1000000)) a
      \<and> wait_observed (min time_point_max (re_now env + to_duration (oc_timeout context_in) * 1000000)) w"
  shows "returns (executeRequest lib request options context_in auth env)"
proof (cases "request_accepted request options context_in auth")
  case True
  let ?d = "min time_point_max (re_now env + to_duration (oc_timeout context_in) * 1000000)"
  from executeRequest_accepted [OF True] have pos: "unat (0 :: u32) < attempt_budget options"
    and valid: "0 \<le> to_duration (oc_timeout context_in)"
    by (simp_all add: OperationContext_isValid_def Timeout_isValid_def)
  have "calculateDeadline (re_now env) context_in = Some ?d"
    using assms valid by (simp add: calculateDeadline_def saturating_end_value)
  moreover have "returns (retry_loop lib request options ?d auth 0 (re_attempts env))"
    using retry_loop_returns [OF assms(1,2) pos, of "re_attempts env" ?d] assms(6,7) by simp
  ultimately show ?thesis by (simp add: executeRequest_def)
next
  case False
  then show ?thesis by (simp add: executeRequest_def)
qed

theorem http_request_returns_witness:
  "returns (executeRequest sample_lib (HttpRequest_make Get ''http://a'') sample_options sample_context
     None sample_env)"
  by (rule http_request_returns)
     (auto simp: sample_defs createFixed_def policy_in_range_def in_i64_def time_point_max_def
       OperationContext_make_def Timeout_milliseconds_def attempt_budget_def attempt_observed_def
       wait_observed_def)

text \<open>
  What a complete answer is.  The transfer made the first perform and \<open>k\<close> more, one after each poll that
  found the token not cancelled and the deadline not reached; every perform was \<open>CURLM_OK\<close> and the last
  is the first that reported no running handle; the done message of this handle says \<open>CURLE_OK\<close>; body
  and headers are all the chunks and all the parsable header lines that these performs delivered.
\<close>

fun header_payload :: "curl_callback \<Rightarrow> sHttpHeader list" where
  "header_payload (Body_chunk c s n a) = []"
| "header_payload (Header_chunk c s n a) =
     (case parse_header_line (strip_line_end (take (unat (s * n)) c)) of None \<Rightarrow> [] | Some h \<Rightarrow> [h])"

definition attempt_performs :: "attempt_env \<Rightarrow> nat \<Rightarrow> perform_obs list" where
  "attempt_performs env k = ae_first_perform env # map po_perform (take k (ae_polls env))"

definition finished_after :: "int \<Rightarrow> attempt_env \<Rightarrow> nat \<Rightarrow> bool" where
  "finished_after deadline env k \<longleftrightarrow> k \<le> length (ae_polls env)
     \<and> (\<forall>p \<in> set (attempt_performs env k). pf_ok p)
     \<and> (\<forall>j < k. 0 < pf_running (attempt_performs env k ! j)) \<and> pf_running (attempt_performs env k ! k) = 0
     \<and> (\<forall>q \<in> set (take k (ae_polls env)). \<not> po_cancelled q \<and> po_now q < deadline)"

definition complete_answer :: "int \<Rightarrow> attempt_env \<Rightarrow> HttpResponse \<Rightarrow> bool" where
  "complete_answer deadline env response \<longleftrightarrow>
     (\<exists>k. finished_after deadline env k
        \<and> rs_body response = concat (map body_payload (concat (map pf_callbacks (attempt_performs env k))))
        \<and> rs_headers response = concat (map header_payload (concat (map pf_callbacks (attempt_performs env k)))))
     \<and> find_done_message (ae_messages env) = CURLE_OK \<and> \<not> ae_cancelled env \<and> ae_now env < deadline
     \<and> rs_status_code response =
         (if 0 \<le> ae_response_code env \<and> ae_response_code env \<le> 65535 then word_of_int (ae_response_code env) else 0)
     \<and> rs_status_code response < 400"

text \<open>A transfer is finished after one number of polls only.\<close>

lemma finished_after_unique:
  assumes "finished_after deadline env k" and "finished_after deadline env k'"
  shows "k' = k"
proof -
  have same: "attempt_performs env a ! j = attempt_performs env b ! j" if "j \<le> a" "j \<le> b" "a \<le> length (ae_polls env)" "b \<le> length (ae_polls env)" for a b j
    using that by (cases j) (auto simp: attempt_performs_def nth_map)
  have "\<not> a < b" if "finished_after deadline env a" "finished_after deadline env b" for a b
    using that same [of a a b] by (auto simp: finished_after_def)
  then show ?thesis using assms by (meson linorder_neqE_nat)
qed

lemma run_callbacks_headers:
  "acc_clean (foldl run_callback acc cs) \<Longrightarrow>
   ac_headers (foldl run_callback acc cs) = ac_headers acc @ concat (map header_payload cs)"
proof (induction cs arbitrary: acc)
  case Nil
  then show ?case by simp
next
  case (Cons c cs)
  have "ac_headers (run_callback acc c) = ac_headers acc @ header_payload c"
    if "acc_clean (run_callback acc c)"
    using that by (cases c) (auto simp: writeBody_def writeHeader_def acc_clean_def Let_def
      split: if_splits option.splits)
  moreover have "acc_clean (run_callback acc c)"
    using Cons.prems run_callbacks_clean [of "run_callback acc c" cs] by simp
  ultimately show ?case using Cons by simp
qed

lemma judge_attempt_success:
  assumes "http_succeeded (judge_attempt lib deadline env n r acc)"
  shows "\<not> ae_cancelled env \<and> 0 < remainingMilliseconds lib (ae_now env) deadline \<and> acc_clean acc
    \<and> r = CURLE_OK \<and> rs_status_code (pr_value (judge_attempt lib deadline env n r acc)) < 400
    \<and> rs_headers (pr_value (judge_attempt lib deadline env n r acc)) = ac_headers acc"
  using assms
  by (auto simp: judge_attempt_def http_partial_def partial_succeeded_def partial_success_def
      HttpResponse_make_def cancellationError_def timeoutError_def acc_clean_def Let_def not_le
      not_less split: if_splits)

lemma judge_attempt_status:
  "rs_status_code (pr_value (judge_attempt lib deadline env n r acc)) =
     (if 0 \<le> ae_response_code env \<and> ae_response_code env \<le> 65535 then word_of_int (ae_response_code env) else 0)"
  by (simp add: judge_attempt_def http_partial_def partial_success_def HttpResponse_make_def Let_def)

text \<open>A transfer that ended by itself: its performs.\<close>

lemma transfer_loop_finished:
  assumes "transfer_loop lib deadline (pf_ok p) (pf_running p) acc polls = Done (CURLE_FAILED_INIT, True, acc')"
    and "0 < lib_long_max lib"
  shows "\<exists>k \<le> length polls. (\<forall>x \<in> set (p # map po_perform (take k polls)). pf_ok x)
    \<and> (\<forall>j < k. 0 < pf_running ((p # map po_perform (take k polls)) ! j))
    \<and> pf_running ((p # map po_perform (take k polls)) ! k) = 0
    \<and> (\<forall>q \<in> set (take k polls). \<not> po_cancelled q \<and> po_now q < deadline)
    \<and> acc' = foldl perform acc (map po_perform (take k polls))"
  using assms(1)
proof (induction polls arbitrary: p acc)
  case Nil
  then have "pf_ok p \<and> pf_running p = 0 \<and> acc' = acc"
    by (subst (asm) transfer_loop.simps) (auto split: if_splits)
  then show ?case by simp
next
  case (Cons q qs)
  show ?case
  proof (cases "pf_ok p \<and> 0 < pf_running p")
    case False
    then have "pf_ok p \<and> pf_running p = 0 \<and> acc' = acc"
      using Cons.prems by (subst (asm) transfer_loop.simps) (auto split: if_splits)
    then show ?thesis by (intro exI [of _ 0]) simp
  next
    case True
    let ?m = "remainingMilliseconds lib (po_now q) deadline"
    have no_fail: "transfer_loop lib deadline False n acc qs \<noteq> Done (CURLE_FAILED_INIT, True, acc')" for n
      by (subst transfer_loop.simps) simp
    have rest: "transfer_loop lib deadline (pf_ok (po_perform q)) (pf_running (po_perform q))
        (perform acc (po_perform q)) qs = Done (CURLE_FAILED_INIT, True, acc')"
      and open_poll: "\<not> po_cancelled q" "0 < ?m"
      using Cons.prems True no_fail by (subst (asm) transfer_loop.simps; auto simp: Let_def split: if_splits)+
    from Cons.IH [OF rest] obtain k where k: "k \<le> length qs"
      "\<forall>x \<in> set (po_perform q # map po_perform (take k qs)). pf_ok x"
      "\<forall>j < k. 0 < pf_running ((po_perform q # map po_perform (take k qs)) ! j)"
      "pf_running ((po_perform q # map po_perform (take k qs)) ! k) = 0"
      "\<forall>q \<in> set (take k qs). \<not> po_cancelled q \<and> po_now q < deadline"
      "acc' = foldl perform (perform acc (po_perform q)) (map po_perform (take k qs))" by blast
    have "po_now q < deadline" using open_poll(2) remaining_positive [OF assms(2)] by blast
    then show ?thesis
      using k True open_poll(1) by (intro exI [of _ "Suc k"]) (auto simp: less_Suc_eq_0_disj)
  qed
qed

lemma perform_all: "foldl perform acc ps = foldl run_callback acc (concat (map pf_callbacks ps))"
  by (induction ps arbitrary: acc) (simp_all add: perform_def)

lemma transfer_loop_not_OK:
  "transfer_loop lib deadline ok running acc polls = Done (r, ok', acc') \<Longrightarrow> r \<noteq> CURLE_OK"
proof (induction lib deadline ok running acc polls rule: transfer_loop.induct)
  case (1 lib deadline ok running acc polls)
  then show ?case
    by (subst (asm) (3) transfer_loop.simps) (auto simp: Let_def split: if_splits list.splits)
qed

lemma executeAttempt_complete:
  assumes "executeAttempt lib request m deadline n auth env = Done r" and "http_succeeded r"
    and "0 < lib_long_max lib"
  shows "complete_answer deadline env (pr_value r) \<and> rs_attempt_count (pr_value r) = n"
proof (cases rule: executeAttempt_cases [OF assms(1)])
  case 1
  with assms(2) show ?thesis by simp
next
  case (2 c acc)
  from judge_attempt_success assms(2) 2(2) have j: "\<not> ae_cancelled env"
    "0 < remainingMilliseconds lib (ae_now env) deadline" "acc_clean acc" "c = CURLE_OK"
    "rs_status_code (pr_value r) < 400" "rs_headers (pr_value r) = ac_headers acc" by metis+
  obtain r' where loop: "transfer_loop lib deadline (pf_ok (ae_first_perform env)) (pf_running (ae_first_perform env))
       (perform (accumulator_new m) (ae_first_perform env)) (ae_polls env) = Done (r', True, acc)"
    and code: "(if r' = CURLE_FAILED_INIT then find_done_message (ae_messages env) else r') = CURLE_OK"
    using 2(1) j(4) by (auto simp: run_transfer_def obind_Done_iff split: if_splits)
  have "r' \<noteq> CURLE_OK" using transfer_loop_not_OK [OF loop] .
  then have r': "r' = CURLE_FAILED_INIT" and message: "find_done_message (ae_messages env) = CURLE_OK"
    using code by (auto split: if_splits)
  from transfer_loop_finished [OF loop [unfolded r'] assms(3)]
  obtain k where finished: "finished_after deadline env k"
    and "acc = foldl perform (perform (accumulator_new m) (ae_first_perform env)) (map po_perform (take k (ae_polls env)))"
    unfolding finished_after_def attempt_performs_def by blast
  then have acc: "acc = foldl run_callback (accumulator_new m) (concat (map pf_callbacks (attempt_performs env k)))"
    using perform_all [of "accumulator_new m" "attempt_performs env k"] by (simp add: attempt_performs_def)
  have "rs_body (pr_value r) = concat (map body_payload (concat (map pf_callbacks (attempt_performs env k))))"
    "rs_headers (pr_value r) = concat (map header_payload (concat (map pf_callbacks (attempt_performs env k))))"
    using j(3) run_callbacks_clean run_callbacks_headers judge_attempt_body [of lib deadline env n c acc] j(6) 2(2)
    unfolding acc by (auto simp: accumulator_new_def)
  then show ?thesis
    unfolding complete_answer_def
    using finished message j 2(2) remaining_positive [OF assms(3)] judge_attempt_body [of lib deadline env n c acc]
      judge_attempt_status [of lib deadline env n c acc]
    by blast
qed

lemma waitForRetry_fails:
  assumes "waitForRetry delay deadline w = Done (Failure e, sleeps)"
  shows "\<not> te_ok e"
proof -
  have "wait_loop a b ws = Done (Failure e, sl) \<Longrightarrow> \<not> te_ok e" for a b ws sl
    by (induction ws arbitrary: sl)
       (auto simp: cancellationError_def timeoutError_def Let_def obind_Done_iff split: if_splits)
  then show ?thesis using assms by (auto simp: waitForRetry_def split: option.splits)
qed

lemma retry_loop_success:
  assumes "retry_loop lib request options deadline auth n xs = Done r" and "http_succeeded r"
  shows "\<exists>i < length xs. executeAttempt lib request (eo_maximum_response_body_size options) deadline
        (n + of_nat (Suc i)) auth (fst (xs ! i)) = Done r
    \<and> (\<forall>j < i. \<exists>earlier. executeAttempt lib request (eo_maximum_response_body_size options) deadline
        (n + of_nat (Suc j)) auth (fst (xs ! j)) = Done earlier \<and> \<not> http_succeeded earlier)"
  using assms(1)
proof (induction xs arbitrary: n)
  case Nil
  then show ?case by simp
next
  case (Cons x xs)
  obtain env w where x: "x = (env, w)" by (cases x)
  obtain v where turn: "attempt_turn lib request options deadline auth (n + 1) env w = Done v"
    and rest: "(case v of Return result \<Rightarrow> Done result
        | Again \<Rightarrow> retry_loop lib request options deadline auth (n + 1) xs) = Done r"
    using Cons.prems by (auto simp: x Let_def obind_Done_iff)
  obtain a where a: "executeAttempt lib request (eo_maximum_response_body_size options) deadline (n + 1) auth env = Done a"
    using turn by (auto simp: attempt_turn_def obind_Done_iff)
  show ?case
  proof (cases v)
    case (Return result)
    have "a = r"
      using turn a rest Return assms(2) waitForRetry_fails
      by (auto simp: attempt_turn_def obind_Done_iff http_partial_def partial_succeeded_def
          split: if_splits Result.splits)
    then show ?thesis using a x by (intro exI [of _ 0]) simp
  next
    case Again
    then have failed: "\<not> http_succeeded a" using turn a by (auto simp: attempt_turn_def split: if_splits)
    have "retry_loop lib request options deadline auth (n + 1) xs = Done r" using rest Again by simp
    from Cons.IH [OF this] obtain i where i: "i < length xs"
      "executeAttempt lib request (eo_maximum_response_body_size options) deadline (n + 1 + of_nat (Suc i)) auth (fst (xs ! i)) = Done r"
      "\<forall>j < i. \<exists>earlier. executeAttempt lib request (eo_maximum_response_body_size options) deadline
        (n + 1 + of_nat (Suc j)) auth (fst (xs ! j)) = Done earlier \<and> \<not> http_succeeded earlier" by blast
    show ?thesis
    proof (intro exI [of _ "Suc i"] conjI allI impI)
      show "Suc i < length (x # xs)" using i(1) by simp
      show "executeAttempt lib request (eo_maximum_response_body_size options) deadline
          (n + of_nat (Suc (Suc i))) auth (fst ((x # xs) ! Suc i)) = Done r"
        using i(2) by (simp add: add.assoc)
      fix j
      assume "j < Suc i"
      then show "\<exists>earlier. executeAttempt lib request (eo_maximum_response_body_size options) deadline
          (n + of_nat (Suc j)) auth (fst ((x # xs) ! j)) = Done earlier \<and> \<not> http_succeeded earlier"
        using i(3) a failed x by (cases j) (auto simp: add.assoc)
    qed
  qed
qed

text \<open>
  C4. A request that succeeds carries one complete answer, for any libcurl on a platform whose \<open>long\<close>
  holds positive numbers.  When \<open>executeRequest\<close> reports success, its
  response is that of the attempt it counts, every attempt before that one having failed; that attempt
  was judged with its token not cancelled and the deadline of the request not reached; it made performs,
  all \<open>CURLM_OK\<close>, until the first that left no handle running, after polls that were neither cancelled nor
  late; libcurl reported \<open>CURLE_OK\<close> for this handle; the status is the server's and below 400; and the
  body and the headers are everything these performs delivered, in order, nothing dropped and nothing
  of another attempt.
\<close>

theorem http_success_complete:
  assumes "executeRequest lib request options context_in auth env = Done r" and "http_succeeded r"
    and "0 < lib_long_max lib"
  shows "\<exists>deadline i. calculateDeadline (re_now env) context_in = Some deadline \<and> i < length (re_attempts env)
    \<and> rs_attempt_count (pr_value r) = of_nat (Suc i)
    \<and> complete_answer deadline (fst (re_attempts env ! i)) (pr_value r)
    \<and> (\<forall>j < i. \<exists>earlier. executeAttempt lib request (eo_maximum_response_body_size options) deadline
          (of_nat (Suc j)) auth (fst (re_attempts env ! j)) = Done earlier \<and> \<not> http_succeeded earlier)"
proof -
  obtain deadline where deadline: "calculateDeadline (re_now env) context_in = Some deadline"
    and loop: "retry_loop lib request options deadline auth 0 (re_attempts env) = Done r"
    using assms(1,2)
    by (auto simp: executeRequest_def http_partial_def partial_succeeded_def validationError_def
        cancellationError_def split: if_splits option.splits)
  from retry_loop_success [OF loop assms(2)] obtain i where i: "i < length (re_attempts env)"
    "executeAttempt lib request (eo_maximum_response_body_size options) deadline (0 + of_nat (Suc i)) auth
       (fst (re_attempts env ! i)) = Done r"
    "\<forall>j < i. \<exists>earlier. executeAttempt lib request (eo_maximum_response_body_size options) deadline
       (0 + of_nat (Suc j)) auth (fst (re_attempts env ! j)) = Done earlier \<and> \<not> http_succeeded earlier" by blast
  from executeAttempt_complete [OF i(2) assms(2,3)] show ?thesis using deadline i(1,3) by auto
qed

theorem http_success_complete_witness:
  "complete_answer 1000000000 (sample_attempt [7, 8] 200) (HttpResponse_make 200 [] [7, 8] 2)"
proof -
  have response: "pr_value (http_success (HttpResponse_make 200 [] [7, 8] 2)) = HttpResponse_make 200 [] [7, 8] 2"
    by (simp add: partial_success_def)
  have "http_succeeded (http_success (HttpResponse_make 200 [] [7, 8] 2))" "0 < lib_long_max sample_lib"
    by (simp_all add: sample_lib_def partial_succeeded_def partial_success_def te_ok_def TransportError_none_def)
  from http_success_complete [OF sample_request this] obtain deadline i where
    deadline: "calculateDeadline (re_now sample_env) sample_context = Some deadline"
    and i: "i < length (re_attempts sample_env)" "rs_attempt_count (HttpResponse_make 200 [] [7, 8] 2) = of_nat (Suc i)"
    and complete: "complete_answer deadline (fst (re_attempts sample_env ! i)) (HttpResponse_make 200 [] [7, 8] 2)"
    unfolding response by blast
  have "calculateDeadline (re_now sample_env) sample_context = Some 1000000000" by code_simp
  moreover have "i = 1"
    using i by (cases i) (auto simp: sample_env_def HttpResponse_make_def)
  ultimately show ?thesis using deadline complete by (simp add: sample_env_def)
qed

text \<open>
  Header round trip: a header that passes validation and whose name and value carry no
  surrounding blanks is read back unchanged by the response callback from the line it is sent as.
\<close>

theorem http_header_roundtrip:
  assumes "isValidHeader h" and "trimmed (hh_name h)" and "trimmed (hh_value h)"
    and "unat cnt = length (header_line h) + 2"
  shows "writeHeader (header_line h @ [CR, LF]) 1 cnt True acc
    = (cnt, acc\<lparr>ac_headers := ac_headers acc @ [h]\<rparr>)"
proof -
  have ctrl: "\<not> contains_control (header_line h)"
    using assms(1) by (auto simp: isValidHeader_def header_line_def contains_control_def CR_def LF_def
        split: if_splits)
  have "\<not> size_product_overflows 1 cnt"
    by (simp add: size_product_overflows_def)
  moreover have "parse_header_line (header_line h) = Some h"
    using assms(1-3) by (subst parse_header_of_line) (auto simp: isValidHeader_def trim_trimmed split: if_splits)
  ultimately show ?thesis
    using strip_line_end_crlf [OF ctrl] assms(4) by (simp add: writeHeader_def Let_def)
qed

theorem http_header_roundtrip_witness:
  "writeHeader (header_line \<lparr>hh_name = ''Age'', hh_value = ''a:1''\<rparr> @ [CR, LF]) 1 10 True (accumulator_new 4)
   = (10, (accumulator_new 4)\<lparr>ac_headers := [\<lparr>hh_name = ''Age'', hh_value = ''a:1''\<rparr>]\<rparr>)"
proof -
  have "writeHeader (header_line \<lparr>hh_name = ''Age'', hh_value = ''a:1''\<rparr> @ [CR, LF]) 1 10 True (accumulator_new 4)
    = (10, (accumulator_new 4)\<lparr>ac_headers := ac_headers (accumulator_new 4) @ [\<lparr>hh_name = ''Age'', hh_value = ''a:1''\<rparr>]\<rparr>)"
    by (rule http_header_roundtrip)
       (simp_all add: isValidHeader_def contains_control_def CR_def LF_def HTAB_def trimmed_def
          http_blank_def header_line_def)
  then show ?thesis by (simp add: accumulator_new_def)
qed

text \<open>The deadline saturates only up to the conversion: for a valid timeout of at most
  9223372036854 milliseconds it is the smaller of the clock's maximum and now plus the timeout;
  beyond that, although the timeout is valid, the conversion to nanoseconds overflows a signed
  64-bit integer before the saturating comparison is reached.
\<close>

theorem http_deadline_saturation:
  assumes "OperationContext_isValid context_in" and "0 \<le> now" and "now \<le> time_point_max"
  shows "calculateDeadline now context_in =
    (if to_duration (oc_timeout context_in) \<le> 9223372036854
     then Some (min time_point_max (now + to_duration (oc_timeout context_in) * 1000000))
     else None)"
  using assms by (simp add: calculateDeadline_def saturating_end_value OperationContext_isValid_def
      Timeout_isValid_def)

theorem http_deadline_saturation_witness:
  "calculateDeadline 5 (OperationContext_make (Timeout_milliseconds 9223372036855)) = None
   \<and> calculateDeadline 5 (OperationContext_make (Timeout_milliseconds 9223372036854))
       = Some (min time_point_max (5 + 9223372036854 * 1000000))"
  using http_deadline_saturation [of "OperationContext_make (Timeout_milliseconds 9223372036855)" 5]
    http_deadline_saturation [of "OperationContext_make (Timeout_milliseconds 9223372036854)" 5]
  by (simp add: OperationContext_isValid_def Timeout_isValid_def OperationContext_make_def
      Timeout_milliseconds_def time_point_max_def)

end
