(* ===== verification/CameraTypes.thy ===== *)
theory CameraTypes
  imports WseResult Complex_Main
begin

text \<open>
  The camera value types and their validity (\<open>core/tmr/camera/CameraTypes.cpp\<close>,
  \<open>api/tmr/camera/CameraTypes.h\<close>) and the camera error (\<open>core/tmr/camera/CameraError.cpp\<close>).
  \<open>size_t\<close> is 64 bits wide.  A \<open>double\<close> that is finite is its rational value, one that is not is
  \<open>None\<close>; the floating-point conversions of control values are not modelled.
\<close>

section \<open>Errors\<close>

datatype eCameraErrorCategory =
    CamCat_None | CamCat_Validation | CamCat_Lifecycle | CamCat_Device | CamCat_InputOutput
  | CamCat_Timeout | CamCat_Unsupported | CamCat_Backend

datatype eCameraErrorCode =
    Cam_None | Cam_InvalidArgument | Cam_NotOpen | Cam_AlreadyOpen | Cam_NotStreaming
  | Cam_AlreadyStreaming | Cam_ConcurrentRead | Cam_DeviceNotFound | Cam_DeviceDisconnected
  | Cam_UnsupportedBackend | Cam_UnsupportedFormat | Cam_UnsupportedControl | Cam_TimedOut
  | Cam_OpenFailed | Cam_ConfigurationFailed | Cam_ReadFailed | Cam_ResourceExhausted
  | Cam_BackendFailure | Cam_ControlReadFailed | Cam_ControlWriteFailed
  | Cam_UnsupportedExtensionUnit | Cam_ExtensionUnitReadFailed | Cam_ExtensionUnitWriteFailed
  | Cam_PayloadSizeMismatch | Cam_AccessDenied

record CameraError =
  ce_category :: eCameraErrorCategory
  ce_code :: eCameraErrorCode
  ce_message :: string
  ce_native_code :: int

definition CameraError_none :: CameraError where
  "CameraError_none = \<lparr>ce_category = CamCat_None, ce_code = Cam_None, ce_message = [], ce_native_code = 0\<rparr>"

definition CameraError_make :: "eCameraErrorCategory \<Rightarrow> eCameraErrorCode \<Rightarrow> string \<Rightarrow> CameraError" where
  "CameraError_make category code message =
     \<lparr>ce_category = category, ce_code = code, ce_message = message, ce_native_code = 0\<rparr>"

definition ce_ok :: "CameraError \<Rightarrow> bool" where
  "ce_ok e \<longleftrightarrow> ce_category e = CamCat_None \<and> ce_code e = Cam_None"

type_synonym CameraStatus = "CameraError Status"
type_synonym 'a CameraResult = "('a, CameraError) Result"

interpretation camera_error: error_value ce_ok CameraError_none
  by unfold_locales (simp add: ce_ok_def CameraError_none_def)

lemma CameraError_make_sel [simp]:
  "ce_category (CameraError_make a b m) = a" "ce_code (CameraError_make a b m) = b"
  "ce_message (CameraError_make a b m) = m"
  by (simp_all add: CameraError_make_def)

section \<open>Enumerations\<close>

datatype eCameraBackend = Automatic | MediaFoundation | Video4Linux2 | Libcamera

datatype eCameraPixelFormat =
    Unknown | Gray8 | Rgb8 | Bgr8 | Bgra8 | Yuyv422 | Nv12 | Mjpeg | Gray16 | Rgb16 | Bgr16
  | Bayer16Rggb | Bayer16Bggr | Bayer16Grbg | Bayer16Gbrg | Uyvy422

datatype eCameraTransport = Transport_Unknown | UsbUvc | Csi | Virtual | Network

datatype eCameraControl =
    Exposure | Gain | Focus | Brightness | Contrast | Saturation | WhiteBalance | Zoom | Iris | Hue
  | Sharpness | Gamma | ColorEnable | BacklightCompensation | Pan | Tilt | Roll
  | PowerLineFrequency | FrameRate

datatype eCameraControlMode = Mode_Manual | Mode_Automatic

datatype eCameraControlUnit =
    DeviceNative | Microseconds | Kelvin | Diopters | GainMultiplier | Relative | Degrees | Hertz
  | Unit_Boolean

section \<open>Devices, formats and controls\<close>

record sCameraUsbIdentity =
  usb_vendor_id :: u16
  usb_product_id :: u16
  usb_serial_number :: string
  usb_uvc_version_bcd :: u16

definition usb_available :: "sCameraUsbIdentity \<Rightarrow> bool" where
  "usb_available u \<longleftrightarrow>
     usb_vendor_id u \<noteq> 0 \<or> usb_product_id u \<noteq> 0 \<or> usb_serial_number u \<noteq> [] \<or> usb_uvc_version_bcd u \<noteq> 0"

record sCameraDeviceInfo =
  di_backend :: eCameraBackend
  di_id :: string
  di_display_name :: string
  di_transport :: string
  di_transport_type :: eCameraTransport
  di_usb :: sCameraUsbIdentity

definition device_valid :: "sCameraDeviceInfo \<Rightarrow> bool" where
  "device_valid d \<longleftrightarrow> di_backend d \<noteq> Automatic \<and> di_id d \<noteq> []"

record sCameraFormat =
  cf_width :: u32
  cf_height :: u32
  cf_frame_rate_numerator :: u32
  cf_frame_rate_denominator :: u32
  cf_pixel_format :: eCameraPixelFormat

definition format_valid :: "sCameraFormat \<Rightarrow> bool" where
  "format_valid f \<longleftrightarrow>
     0 < cf_width f \<and> 0 < cf_height f \<and> 0 < cf_frame_rate_numerator f \<and> 0 < cf_frame_rate_denominator f
     \<and> cf_pixel_format f \<noteq> Unknown"

record sCameraStreamProfile =
  sp_native_format :: sCameraFormat
  sp_output_formats :: "eCameraPixelFormat list"

definition profile_valid :: "sCameraStreamProfile \<Rightarrow> bool" where
  "profile_valid p =
     (if \<not> format_valid (sp_native_format p) \<or> sp_output_formats p = [] then False
      else \<not> list_ex (\<lambda>f. f = Unknown) (sp_output_formats p))"

definition supportsOutput :: "sCameraStreamProfile \<Rightarrow> eCameraPixelFormat \<Rightarrow> bool" where
  "supportsOutput p f \<longleftrightarrow> List.member (sp_output_formats p) f"

record sCameraStreamConfiguration =
  sc_native_format :: sCameraFormat
  sc_output_format :: eCameraPixelFormat
  sc_allow_conversion :: bool

definition configuration_valid :: "sCameraStreamConfiguration \<Rightarrow> bool" where
  "configuration_valid c \<longleftrightarrow>
     format_valid (sc_native_format c) \<and> sc_output_format c \<noteq> Unknown
     \<and> (sc_allow_conversion c \<or> cf_pixel_format (sc_native_format c) = sc_output_format c)"

record sCameraExtensionUnitSelector =
  xu_unit_guid :: bytes
  xu_unit_id :: u8
  xu_selector :: u8
  xu_minimum_size :: u64
  xu_maximum_size :: u64
  xu_readable :: bool
  xu_writable :: bool
  xu_display_name :: string

definition selector_valid :: "sCameraExtensionUnitSelector \<Rightarrow> bool" where
  "selector_valid s \<longleftrightarrow>
     xu_unit_id s \<noteq> 0 \<and> xu_selector s \<noteq> 0 \<and> 0 < xu_maximum_size s
     \<and> xu_minimum_size s \<le> xu_maximum_size s \<and> xu_maximum_size s \<le> 65535
     \<and> (xu_readable s \<or> xu_writable s)"

record sCameraExtensionUnitValue =
  xv_selector :: sCameraExtensionUnitSelector
  xv_payload :: bytes

definition xu_value_valid :: "sCameraExtensionUnitValue \<Rightarrow> bool" where
  "xu_value_valid v \<longleftrightarrow>
     selector_valid (xv_selector v) \<and> unat (xu_minimum_size (xv_selector v)) \<le> length (xv_payload v)
     \<and> length (xv_payload v) \<le> unat (xu_maximum_size (xv_selector v))"

record sCameraControlCapability =
  cc_control :: eCameraControl
  cc_minimum :: int
  cc_maximum :: int
  cc_step :: int
  cc_default_value :: int
  cc_supports_manual :: bool
  cc_supports_automatic :: bool
  cc_unit :: eCameraControlUnit
  cc_physical_scale :: "rat option" \<comment> \<open>\<open>None\<close> when not finite\<close>
  cc_readable :: bool
  cc_writable :: bool
  cc_display_name :: string

definition capability_valid :: "sCameraControlCapability \<Rightarrow> bool" where
  "capability_valid c \<longleftrightarrow>
     cc_minimum c \<le> cc_default_value c \<and> cc_default_value c \<le> cc_maximum c
     \<and> cc_minimum c \<le> cc_maximum c \<and> 0 < cc_step c
     \<and> (case cc_physical_scale c of None \<Rightarrow> False | Some s \<Rightarrow> 0 < s)
     \<and> (cc_supports_manual c \<or> cc_supports_automatic c)
     \<and> (cc_readable c \<or> cc_writable c)"

record sCameraControlValue =
  cv_control :: eCameraControl
  cv_mode :: eCameraControlMode
  cv_value :: int

record sCameraCapability =
  ca_device :: sCameraDeviceInfo
  ca_formats :: "sCameraFormat list"
  ca_controls :: "sCameraControlCapability list"
  ca_stream_profiles :: "sCameraStreamProfile list"
  ca_extension_units :: "sCameraExtensionUnitSelector list"

section \<open>Frame layout\<close>

record sCameraFrameDescription =
  fd_width :: u32
  fd_height :: u32
  fd_pixel_format :: eCameraPixelFormat
  fd_row_stride :: u64

definition FrameDescription_none :: sCameraFrameDescription where
  "FrameDescription_none = \<lparr>fd_width = 0, fd_height = 0, fd_pixel_format = Unknown, fd_row_stride = 0\<rparr>"

fun format_bytes :: "eCameraPixelFormat \<Rightarrow> u64" where
  "format_bytes Gray8 = 1"
| "format_bytes Rgb8 = 3"
| "format_bytes Bgr8 = 3"
| "format_bytes Bgra8 = 4"
| "format_bytes Yuyv422 = 2"
| "format_bytes Uyvy422 = 2"
| "format_bytes Gray16 = 2"
| "format_bytes Rgb16 = 6"
| "format_bytes Bgr16 = 6"
| "format_bytes Bayer16Rggb = 2"
| "format_bytes Bayer16Bggr = 2"
| "format_bytes Bayer16Grbg = 2"
| "format_bytes Bayer16Gbrg = 2"
| "format_bytes Unknown = 0"
| "format_bytes Nv12 = 0"
| "format_bytes Mjpeg = 0"

definition bytesPerPixel :: "sCameraFrameDescription \<Rightarrow> u64" where
  "bytesPerPixel d = format_bytes (fd_pixel_format d)"

definition minimumRowStride :: "sCameraFrameDescription \<Rightarrow> u64" where
  "minimumRowStride d =
     (if fd_pixel_format d = Nv12 then ucast (fd_width d)
      else let bpp = bytesPerPixel d in
        if fd_width d = 0 \<or> bpp = 0 \<or> - 1 div bpp < ucast (fd_width d) then 0
        else ucast (fd_width d) * bpp)"

definition memorySize :: "sCameraFrameDescription \<Rightarrow> u64" where
  "memorySize d =
     (let w = (ucast (fd_width d) :: u64); h = (ucast (fd_height d) :: u64) in
      if fd_height d = 0 then 0
      else if (fd_pixel_format d = Uyvy422 \<or> fd_pixel_format d = Yuyv422) \<and> fd_width d mod 2 \<noteq> 0 then 0
      else if fd_pixel_format d = Nv12 then
        (if fd_width d = 0 \<or> fd_width d mod 2 \<noteq> 0 \<or> fd_height d mod 2 \<noteq> 0 then 0
         else
           let stride = (if fd_row_stride d = 0 then w else fd_row_stride d) in
           if stride < w \<or> - 1 div h < stride then 0
           else
             let luma = stride * h; chroma_rows = ucast (fd_height d div 2) in
             if (- 1 - luma) div chroma_rows < stride then 0
             else luma + stride * chroma_rows)
      else if fd_pixel_format d = Mjpeg then 0
      else
        let minimum = minimumRowStride d;
            stride = (if fd_row_stride d = 0 then minimum else fd_row_stride d)
        in if minimum = 0 \<or> stride < minimum \<or> - 1 div h < stride then 0
           else stride * h)"

definition description_valid :: "sCameraFrameDescription \<Rightarrow> bool" where
  "description_valid d =
     (if fd_width d = 0 \<or> fd_height d = 0 \<or> fd_pixel_format d = Unknown then False
      else if fd_pixel_format d = Mjpeg then fd_row_stride d = 0
      else 0 < memorySize d)"

record sCameraFrame =
  cm_description :: sCameraFrameDescription
  cm_data :: bytes
  cm_sequence :: u64
  cm_timestamp :: int

definition frame_valid :: "sCameraFrame \<Rightarrow> bool" where
  "frame_valid f =
     (if \<not> description_valid (cm_description f) then False
      else if fd_pixel_format (cm_description f) = Mjpeg then cm_data f \<noteq> []
      else unat (memorySize (cm_description f)) \<le> length (cm_data f))"

section \<open>The layout without wrap-around\<close>

text \<open>The same layout over the natural numbers: bytes of a packed row, the effective stride, whether
  the parts agree, and the size.\<close>

definition packed_row :: "sCameraFrameDescription \<Rightarrow> nat" where
  "packed_row d =
     unat (fd_width d) * (if fd_pixel_format d = Nv12 then 1 else unat (format_bytes (fd_pixel_format d)))"

definition stride_of :: "sCameraFrameDescription \<Rightarrow> nat" where
  "stride_of d = (if fd_row_stride d = 0 then packed_row d else unat (fd_row_stride d))"

definition layout_ok :: "sCameraFrameDescription \<Rightarrow> bool" where
  "layout_ok d \<longleftrightarrow>
     0 < packed_row d \<and> 0 < unat (fd_height d) \<and> packed_row d \<le> stride_of d
     \<and> (fd_pixel_format d \<in> {Uyvy422, Yuyv422, Nv12} \<longrightarrow> even (unat (fd_width d)))
     \<and> (fd_pixel_format d = Nv12 \<longrightarrow> even (unat (fd_height d)))"

definition layout_size :: "sCameraFrameDescription \<Rightarrow> nat" where
  "layout_size d =
     stride_of d * unat (fd_height d)
     + (if fd_pixel_format d = Nv12 then stride_of d * (unat (fd_height d) div 2) else 0)"

lemma word_even: "(a :: u32) mod 2 = 0 \<longleftrightarrow> even (unat a)"
  by (simp add: word_unat_eq_iff unat_mod even_iff_mod_2_eq_zero)

lemma format_bytes_small: "unat (format_bytes f) \<le> 6"
  by (cases f) simp_all

lemma minimumRowStride_exact: "unat (minimumRowStride d) = packed_row d"
proof (cases "fd_pixel_format d = Nv12")
  case True
  then show ?thesis by (simp add: minimumRowStride_def packed_row_def)
next
  case False
  let ?b = "format_bytes (fd_pixel_format d)"
  have "unat (fd_width d) < 2 ^ 32" using unat_lt_size [of "fd_width d"] by simp
  then have "unat (fd_width d) * 6 < 2 ^ 64" by simp
  with mult_le_mono2 [OF format_bytes_small] have small: "unat (fd_width d) * unat ?b < 2 ^ 64"
    by (rule le_less_trans)
  then show ?thesis
    using False quotient_check_max [of ?b "ucast (fd_width d)"]
    by (auto simp: minimumRowStride_def packed_row_def bytesPerPixel_def Let_def unat_mult_bounded
        word_gt_0 unat_eq_0)
qed


lemma packed_row_small: "packed_row d < 2 ^ 64"
  using unat_lt_size [of "minimumRowStride d"] by (simp add: minimumRowStride_exact)

lemma memorySize_plain:
  assumes "fd_pixel_format d \<noteq> Nv12" and "fd_pixel_format d \<noteq> Mjpeg"
  shows "unat (memorySize d) = (if layout_ok d \<and> layout_size d < 2 ^ 64 then layout_size d else 0)"
proof -
  define S where S: "S = (if fd_row_stride d = 0 then minimumRowStride d else fd_row_stride d)"
  have stride: "unat S = stride_of d" by (simp add: S stride_of_def minimumRowStride_exact)
  have zero: "minimumRowStride d = 0 \<longleftrightarrow> packed_row d = 0"
    by (metis minimumRowStride_exact unat_eq_0)
  have less: "S < minimumRowStride d \<longleftrightarrow> stride_of d < packed_row d"
    by (simp only: word_less_nat_alt stride minimumRowStride_exact)
  show ?thesis
  proof (cases "fd_height d = 0")
    case True
    then show ?thesis by (simp add: memorySize_def layout_ok_def)
  next
    case False
    then have h: "(0 :: u64) < ucast (fd_height d)" by (simp add: word_less_nat_alt unat_gt_0)
    have over: "\<not> - 1 div ucast (fd_height d) < S \<longleftrightarrow> stride_of d * unat (fd_height d) < 2 ^ 64"
      using quotient_check_max [OF h, of S] by (simp only: stride unat_ucast_32_64)
    have prod: "stride_of d * unat (fd_height d) < 2 ^ 64 \<Longrightarrow>
        unat (S * ucast (fd_height d)) = stride_of d * unat (fd_height d)"
      using unat_mult_u64 [of S "ucast (fd_height d)"] by (simp only: stride unat_ucast_32_64)
    have odd: "fd_pixel_format d \<in> {Uyvy422, Yuyv422} \<and> odd (unat (fd_width d)) \<longrightarrow> \<not> layout_ok d \<and> memorySize d = 0"
      using assms by (auto simp: memorySize_def Let_def layout_ok_def word_even)
    have code: "memorySize d =
        (if minimumRowStride d = 0 \<or> S < minimumRowStride d \<or> - 1 div ucast (fd_height d) < S then 0
         else S * ucast (fd_height d))"
      if "\<not> (fd_pixel_format d \<in> {Uyvy422, Yuyv422} \<and> odd (unat (fd_width d)))"
      using that assms False by (auto simp: S memorySize_def Let_def word_even)
    have layout: "layout_ok d \<longleftrightarrow> packed_row d \<noteq> 0 \<and> packed_row d \<le> stride_of d"
      if "\<not> (fd_pixel_format d \<in> {Uyvy422, Yuyv422} \<and> odd (unat (fd_width d)))"
      using that assms False by (auto simp: layout_ok_def unat_gt_0)
    have size: "layout_size d = stride_of d * unat (fd_height d)" using assms by (simp add: layout_size_def)
    show ?thesis
    proof (cases "fd_pixel_format d \<in> {Uyvy422, Yuyv422} \<and> odd (unat (fd_width d))")
      case True
      then show ?thesis using odd by simp
    next
      case False
      show ?thesis unfolding code [OF False] layout [OF False] size less zero
        using over prod by (auto simp: not_le simp del: mult_eq_0_iff)
    qed
  qed
qed

lemma memorySize_nv12:
  assumes fmt: "fd_pixel_format d = Nv12"
  shows "unat (memorySize d) = (if layout_ok d \<and> layout_size d < 2 ^ 64 then layout_size d else 0)"
proof (cases "fd_width d = 0 \<or> fd_height d = 0 \<or> odd (unat (fd_width d)) \<or> odd (unat (fd_height d))")
  case True
  then show ?thesis using fmt by (auto simp: memorySize_def Let_def layout_ok_def packed_row_def word_even)
next
  case False
  let ?stride = "if fd_row_stride d = 0 then ucast (fd_width d) else fd_row_stride d"
  let ?h = "ucast (fd_height d) :: u64" and ?c = "ucast (fd_height d div 2) :: u64"
  have stride: "unat ?stride = stride_of d" using fmt by (simp add: stride_of_def packed_row_def)
  have hn: "0 < unat (fd_height d)" "even (unat (fd_height d))" using False by (auto simp: unat_gt_0)
  then have "0 < unat (fd_height d) div 2" by (auto elim!: evenE)
  then have c: "0 < ?c" "unat ?c = unat (fd_height d) div 2" by (simp_all add: word_less_nat_alt unat_div)
  have h: "0 < ?h" using hn by (simp add: word_less_nat_alt)
  have less: "?stride < ucast (fd_width d) \<longleftrightarrow> stride_of d < packed_row d"
    using fmt by (simp only: word_less_nat_alt stride unat_ucast_32_64) (simp add: packed_row_def)
  have luma_fits: "\<not> - 1 div ?h < ?stride \<longleftrightarrow> stride_of d * unat (fd_height d) < 2 ^ 64"
    using quotient_check_max [OF h, of ?stride] by (simp only: stride unat_ucast_32_64)
  have exact: "\<not> (- 1 - ?stride * ?h) div ?c < ?stride \<longleftrightarrow> layout_size d < 2 ^ 64"
      "layout_size d < 2 ^ 64 \<Longrightarrow> unat (?stride * ?h + ?stride * ?c) = layout_size d"
    if fits: "stride_of d * unat (fd_height d) < 2 ^ 64"
  proof -
    have luma: "unat (?stride * ?h) = stride_of d * unat (fd_height d)"
      using unat_mult_u64 [of ?stride ?h] fits by (simp only: stride unat_ucast_32_64)
    have "unat (- 1 - ?stride * ?h) = 2 ^ 64 - 1 - stride_of d * unat (fd_height d)"
      using unat_sub [of "?stride * ?h" "- 1"] by (simp only: luma unat_minus_one) simp
    then show "\<not> (- 1 - ?stride * ?h) div ?c < ?stride \<longleftrightarrow> layout_size d < 2 ^ 64"
      using quotient_check [OF c(1), of "- 1 - ?stride * ?h" ?stride] fits fmt
      by (simp only: stride c(2) layout_size_def) auto
    assume size: "layout_size d < 2 ^ 64"
    then have chroma: "unat (?stride * ?c) = stride_of d * (unat (fd_height d) div 2)"
      using unat_mult_u64 [of ?stride ?c] fmt by (simp only: stride c(2) layout_size_def) simp
    show "unat (?stride * ?h + ?stride * ?c) = layout_size d"
      using unat_add_u64 [of "?stride * ?h" "?stride * ?c"] size fmt
      by (simp only: luma chroma layout_size_def) simp
  qed
  have layout: "layout_ok d \<longleftrightarrow> packed_row d \<le> stride_of d"
    using False fmt hn by (auto simp: layout_ok_def packed_row_def unat_gt_0)
  have code: "memorySize d =
      (if ?stride < ucast (fd_width d) \<or> - 1 div ?h < ?stride then 0
       else if (- 1 - ?stride * ?h) div ?c < ?stride then 0 else ?stride * ?h + ?stride * ?c)"
    using False fmt by (simp add: memorySize_def Let_def word_even)
  have luma_part: "layout_size d < 2 ^ 64 \<Longrightarrow> stride_of d * unat (fd_height d) < 2 ^ 64"
    unfolding layout_size_def by (rule le_less_trans [OF le_add1])
  show ?thesis
  proof (cases "packed_row d \<le> stride_of d \<and> stride_of d * unat (fd_height d) < 2 ^ 64")
    case True
    then show ?thesis using code less luma_fits exact layout by (auto simp: not_less)
  next
    case False
    then have "memorySize d = 0" using code less luma_fits by (auto simp: not_less)
    moreover have "\<not> (layout_ok d \<and> layout_size d < 2 ^ 64)" using False layout luma_part by blast
    ultimately show ?thesis by auto
  qed
qed

lemma camera_memory_size_value:
  "unat (memorySize d) = (if layout_ok d \<and> layout_size d < 2 ^ 64 then layout_size d else 0)"
proof (cases "fd_pixel_format d = Mjpeg")
  case True
  then show ?thesis by (auto simp: memorySize_def Let_def layout_ok_def packed_row_def)
next
  case False
  then show ?thesis using memorySize_plain memorySize_nv12 by (cases "fd_pixel_format d = Nv12") blast+
qed

text \<open>The computed size is exact: it is the number of bytes the layout needs when the description
  is consistent (extents, parity, stride at least a packed row) and that number fits 64 bits, and zero
  otherwise; no multiplication ever wraps into a wrong nonzero size.  A description other than MJPEG
  is accepted exactly when its size is nonzero.\<close>

theorem camera_memory_size_exact:
  "unat (memorySize d) = (if layout_ok d \<and> layout_size d < 2 ^ 64 then layout_size d else 0)
   \<and> (description_valid d \<longleftrightarrow>
        (if fd_pixel_format d = Mjpeg then fd_width d \<noteq> 0 \<and> fd_height d \<noteq> 0 \<and> fd_row_stride d = 0
         else layout_ok d \<and> layout_size d < 2 ^ 64))"
proof -
  have pos: "layout_ok d \<Longrightarrow> 0 < layout_size d" by (auto simp: layout_ok_def layout_size_def)
  have size: "0 < memorySize d \<longleftrightarrow> layout_ok d \<and> layout_size d < 2 ^ 64"
    using pos by (auto simp: word_less_nat_alt camera_memory_size_value)
  have dims: "layout_ok d \<Longrightarrow> fd_width d \<noteq> 0 \<and> fd_height d \<noteq> 0 \<and> fd_pixel_format d \<noteq> Unknown"
    by (auto simp: layout_ok_def packed_row_def)
  show ?thesis using size dims by (auto simp: camera_memory_size_value description_valid_def)
qed

end
