(* ===== verification/ImageTransform.thy ===== *)
theory ImageTransform
  imports Prelude
begin

text \<open>
  Whole-pixel orientation and sample averaging of images (\<open>api/wse/data/wse_ImageTransform.h\<close>).  An
  image is its extent and its pixels in row-major order, so that \<open>image[ y ][ x ]\<close> is the pixel at
  \<open>y * width + x\<close>.  A thrown exception is the left summand.
\<close>

section \<open>Images\<close>

record 'px Image =
  im_width :: nat
  im_height :: nat
  im_pixels :: "'px list"

definition wf_image :: "'px Image \<Rightarrow> bool" where
  "wf_image im \<longleftrightarrow> length (im_pixels im) = im_width im * im_height im"

definition Image_new :: "'px \<Rightarrow> nat \<Rightarrow> nat \<Rightarrow> 'px Image" where
  "Image_new px0 w h = \<lparr>im_width = w, im_height = h, im_pixels = replicate (w * h) px0\<rparr>"

definition pixel :: "'px Image \<Rightarrow> nat \<Rightarrow> nat \<Rightarrow> 'px" where
  "pixel im x y = im_pixels im ! (y * im_width im + x)"

text \<open>The positions of an image in the order of the two loops.\<close>

definition positions :: "nat \<Rightarrow> nat \<Rightarrow> (nat \<times> nat) list" where
  "positions w h = concat (map (\<lambda>y. map (\<lambda>x. (x, y)) [0..<w]) [0..<h])"

section \<open>Orientation\<close>

datatype eImageOrientation =
    Orient_None | Rotate90CW | Rotate180 | Rotate90CCW | FlipHorizontal | FlipVertical
  | Orientation_other u8

definition transposed :: "eImageOrientation \<Rightarrow> bool" where
  "transposed o' \<longleftrightarrow> o' = Rotate90CW \<or> o' = Rotate90CCW"

definition orientedExtent :: "nat \<Rightarrow> nat \<Rightarrow> eImageOrientation \<Rightarrow> nat \<times> nat" where
  "orientedExtent w h o' =
     (if transposed o' then h else w, if transposed o' then w else h)"

text \<open>Where the pixel at \<open>(x, y)\<close> goes; \<open>None\<close> is the default branch of the switch, which throws.\<close>

fun orient_target :: "eImageOrientation \<Rightarrow> nat \<Rightarrow> nat \<Rightarrow> nat \<times> nat \<Rightarrow> (nat \<times> nat) option" where
  "orient_target Orient_None w h (x, y) = Some (x, y)"
| "orient_target Rotate90CW w h (x, y) = Some (h - 1 - y, x)"
| "orient_target Rotate180 w h (x, y) = Some (w - 1 - x, h - 1 - y)"
| "orient_target Rotate90CCW w h (x, y) = Some (y, w - 1 - x)"
| "orient_target FlipHorizontal w h (x, y) = Some (w - 1 - x, y)"
| "orient_target FlipVertical w h (x, y) = Some (x, h - 1 - y)"
| "orient_target (Orientation_other v) w h p = None"

fun orient_loop ::
    "'px Image \<Rightarrow> eImageOrientation \<Rightarrow> (nat \<times> nat) list \<Rightarrow> 'px Image \<Rightarrow> string + 'px Image" where
  "orient_loop source o' [] target = Inr target"
| "orient_loop source o' (p # ps) target =
     (case orient_target o' (im_width source) (im_height source) p of
        None \<Rightarrow> Inl ''unknown image orientation''
      | Some (tx, ty) \<Rightarrow>
          orient_loop source o' ps
            (target\<lparr>im_pixels := (im_pixels target)[ty * im_width target + tx := pixel source (fst p) (snd p)]\<rparr>))"

definition applyOrientation :: "'px \<Rightarrow> 'px Image \<Rightarrow> eImageOrientation \<Rightarrow> string + 'px Image" where
  "applyOrientation px0 source o' =
     (if im_width source = 0 \<or> im_height source = 0
      then Inl ''the source image must not be empty''
      else
        let (tw, th) = orientedExtent (im_width source) (im_height source) o'
        in orient_loop source o' (positions (im_width source) (im_height source)) (Image_new px0 tw th))"

section \<open>Averaging\<close>

text \<open>The accumulator of formats of at most sixteen bits per sample sums in 32 bits.  The samples of
  an image are its pixels' channels in order.  The division by the count narrowed to 32 bits is
  undefined (\<open>None\<close>) when that is zero.\<close>

record ImageAccumulator =
  ia_sum :: "u32 list"
  ia_count :: u64
  ia_width :: nat
  ia_height :: nat

definition ImageAccumulator_new :: ImageAccumulator where
  "ImageAccumulator_new = \<lparr>ia_sum = [], ia_count = 0, ia_width = 0, ia_height = 0\<rparr>"

definition add_samples :: "u32 list \<Rightarrow> u32 list \<Rightarrow> u32 list" where
  "add_samples sums samples = map2 (+) sums samples"

definition ImageAccumulator_add ::
    "'c::len word list Image \<Rightarrow> nat \<Rightarrow> ImageAccumulator \<Rightarrow> string + ImageAccumulator" where
  "ImageAccumulator_add source channels acc =
     (if im_width source = 0 \<or> im_height source = 0
      then Inl ''the source image must not be empty''
      else if ia_count acc \<noteq> 0 \<and> (im_width source \<noteq> ia_width acc \<or> im_height source \<noteq> ia_height acc)
      then Inl ''every accumulated frame must share one size''
      else
        let acc = (if ia_count acc = 0
                   then acc\<lparr>ia_width := im_width source, ia_height := im_height source,
                            ia_sum := replicate (im_width source * im_height source * channels) 0\<rparr>
                   else acc)
        in Inr (acc\<lparr>ia_sum := add_samples (ia_sum acc) (map ucast (concat (im_pixels source))),
                    ia_count := ia_count acc + 1\<rparr>))"

definition average_sample :: "u32 \<Rightarrow> u32 \<Rightarrow> u32" where
  "average_sample divisor acc = (acc + divisor div 2) div divisor"

definition ImageAccumulator_average ::
    "nat \<Rightarrow> ImageAccumulator \<Rightarrow> (string + 'c::len word list Image) option" where
  "ImageAccumulator_average channels acc =
     (if ia_count acc = 0 then Some (Inl ''no frame has been accumulated'')
      else
        let divisor = ucast (ia_count acc);
            samples = map (\<lambda>s. ucast (average_sample divisor s)) (ia_sum acc)
        in if divisor = 0 \<and> samples \<noteq> [] then None
           else Some (Inr \<lparr>im_width = ia_width acc, im_height = ia_height acc,
                im_pixels = map (\<lambda>i. take channels (drop (i * channels) samples)) [0..<ia_width acc * ia_height acc]\<rparr>))"

definition ImageAccumulator_reset :: "ImageAccumulator \<Rightarrow> ImageAccumulator" where
  "ImageAccumulator_reset acc = acc\<lparr>ia_sum := [], ia_count := 0, ia_width := 0, ia_height := 0\<rparr>"

fun add_images ::
    "nat \<Rightarrow> ImageAccumulator \<Rightarrow> 'c::len word list Image list \<Rightarrow> string + ImageAccumulator" where
  "add_images channels acc [] = Inr acc"
| "add_images channels acc (source # sources) =
     (case ImageAccumulator_add source channels acc of
        Inl e \<Rightarrow> Inl e | Inr acc' \<Rightarrow> add_images channels acc' sources)"

definition averageImages :: "nat \<Rightarrow> 'c::len word list Image list \<Rightarrow> (string + 'c word list Image) option" where
  "averageImages channels sources =
     (case add_images channels ImageAccumulator_new sources of
        Inl e \<Rightarrow> Some (Inl e) | Inr acc \<Rightarrow> ImageAccumulator_average channels acc)"

section \<open>Where the pixels go\<close>

lemma set_positions: "set (positions w h) = {(x, y). x < w \<and> y < h}"
  by (auto simp: positions_def)

lemma pixel_index_less: "x < w \<Longrightarrow> y < h \<Longrightarrow> y * w + x < w * (h :: nat)"
proof -
  assume "x < w" and "y < h"
  then have "y * w + x < Suc y * w" by simp
  also have "\<dots> \<le> h * w" using \<open>y < h\<close> by (intro mult_le_mono1) simp
  finally show ?thesis by (simp add: mult.commute)
qed

lemma index_div_mod: "x < w \<Longrightarrow> (y * w + x) div w = y \<and> (y * w + x) mod w = (x :: nat)"
  by simp

lemma pixel_index_inj:
  assumes "x < w" and "x' < w"
  shows "y * w + x = y' * w + x' \<longleftrightarrow> x = x' \<and> y = (y' :: nat)"
proof
  assume eq: "y * w + x = y' * w + x'"
  from index_div_mod [OF assms(1), of y] index_div_mod [OF assms(2), of y'] show "x = x' \<and> y = y'"
    unfolding eq by simp
qed simp

lemma foldl_update_length: "length (foldl (\<lambda>t p. t[f p := g p]) t ps) = length t"
  by (induction ps arbitrary: t) auto

lemma foldl_update_nth:
  "inj_on f (set ps) \<Longrightarrow> p \<in> set ps \<Longrightarrow> f p < length t \<Longrightarrow>
   foldl (\<lambda>t p. t[f p := g p]) t ps ! f p = g p"
proof (induction ps rule: rev_induct)
  case Nil
  then show ?case by simp
next
  case (snoc q ps)
  show ?case
  proof (cases "p = q")
    case True
    then show ?thesis using snoc.prems by (simp add: foldl_update_length)
  next
    case False
    then have "f p \<noteq> f q" using snoc.prems by (auto simp: inj_on_def)
    then show ?thesis using snoc False by (simp add: inj_on_def)
  qed
qed

lemma orient_loop_foldl:
  "\<forall>p \<in> set ps. orient_target o' (im_width src) (im_height src) p = Some (f p) \<Longrightarrow>
   orient_loop src o' ps tgt =
     Inr (tgt\<lparr>im_pixels := foldl (\<lambda>t p. t[snd (f p) * im_width tgt + fst (f p) := pixel src (fst p) (snd p)])
                                (im_pixels tgt) ps\<rparr>)"
  by (induction ps arbitrary: tgt) (auto split: prod.splits)

definition target_of :: "eImageOrientation \<Rightarrow> nat \<Rightarrow> nat \<Rightarrow> nat \<times> nat \<Rightarrow> nat \<times> nat" where
  "target_of o' w h p = the (orient_target o' w h p)"

definition known_orientation :: "eImageOrientation \<Rightarrow> bool" where
  "known_orientation o' \<longleftrightarrow> (\<forall>v. o' \<noteq> Orientation_other v)"

lemma target_of_Some: "known_orientation o' \<Longrightarrow> orient_target o' w h p = Some (target_of o' w h p)"
  by (cases o'; cases p) (auto simp: known_orientation_def target_of_def)

lemma target_in_range:
  "known_orientation o' \<Longrightarrow> x < w \<Longrightarrow> y < h \<Longrightarrow>
   fst (target_of o' w h (x, y)) < fst (orientedExtent w h o')
   \<and> snd (target_of o' w h (x, y)) < snd (orientedExtent w h o')"
  by (cases o') (auto simp: known_orientation_def target_of_def orientedExtent_def transposed_def)

lemma target_inj:
  "known_orientation o' \<Longrightarrow> x < w \<Longrightarrow> y < h \<Longrightarrow> x' < w \<Longrightarrow> y' < h \<Longrightarrow>
   target_of o' w h (x, y) = target_of o' w h (x', y') \<longleftrightarrow> x = x' \<and> y = y'"
  by (cases o') (auto simp: known_orientation_def target_of_def)

lemma applyOrientation_pixels:
  assumes known: "known_orientation o'" and "0 < im_width src" and "0 < im_height src"
  obtains tgt where "applyOrientation px0 src o' = Inr tgt" and "wf_image tgt"
    and "(im_width tgt, im_height tgt) = orientedExtent (im_width src) (im_height src) o'"
    and "\<And>x y. x < im_width src \<Longrightarrow> y < im_height src \<Longrightarrow>
          pixel tgt (fst (target_of o' (im_width src) (im_height src) (x, y)))
                    (snd (target_of o' (im_width src) (im_height src) (x, y))) = pixel src x y"
proof -
  let ?w = "im_width src" and ?h = "im_height src"
  obtain tw th where ext: "orientedExtent ?w ?h o' = (tw, th)" by (cases "orientedExtent ?w ?h o'")
  let ?f = "target_of o' ?w ?h"
  let ?i = "\<lambda>p. snd (?f p) * tw + fst (?f p)"
  let ?new = "foldl (\<lambda>t p. t[?i p := pixel src (fst p) (snd p)]) (replicate (tw * th) px0) (positions ?w ?h)"
  let ?tgt = "\<lparr>im_width = tw, im_height = th, im_pixels = ?new\<rparr>"
  have range: "fst (?f (x, y)) < tw \<and> snd (?f (x, y)) < th" if "x < ?w" "y < ?h" for x y
    using target_in_range [OF known that] ext by simp
  have "inj_on ?i (set (positions ?w ?h))"
    unfolding inj_on_def set_positions
    using range target_inj [OF known] by (auto simp: pixel_index_inj prod_eq_iff)
  then have px: "?new ! ?i (x, y) = pixel src x y" if "x < ?w" "y < ?h" for x y
    using foldl_update_nth [of ?i "positions ?w ?h" "(x, y)" "replicate (tw * th) px0"
        "\<lambda>p. pixel src (fst p) (snd p)"] range [OF that] that
    by (simp add: set_positions pixel_index_less)
  have "applyOrientation px0 src o' = Inr ?tgt"
    using assms orient_loop_foldl [of "positions ?w ?h" o' src ?f "Image_new px0 tw th"]
      target_of_Some [OF known, of ?w ?h] ext
    by (simp add: applyOrientation_def Image_new_def)
  moreover have "wf_image ?tgt" by (simp add: wf_image_def foldl_update_length)
  ultimately show thesis using px ext by (intro that [of ?tgt]) (auto simp: pixel_def)
qed


fun inverse_orientation :: "eImageOrientation \<Rightarrow> eImageOrientation" where
  "inverse_orientation Rotate90CW = Rotate90CCW"
| "inverse_orientation Rotate90CCW = Rotate90CW"
| "inverse_orientation o' = o'"

lemma known_inverse: "known_orientation (inverse_orientation o') = known_orientation o'"
  by (cases o') (auto simp: known_orientation_def)

lemma inverse_target:
  "known_orientation o' \<Longrightarrow> x < w \<Longrightarrow> y < h \<Longrightarrow>
   target_of (inverse_orientation o') (fst (orientedExtent w h o')) (snd (orientedExtent w h o'))
     (target_of o' w h (x, y)) = (x, y)"
  by (cases o') (auto simp: known_orientation_def target_of_def orientedExtent_def transposed_def)

lemma target_inverse:
  "known_orientation o' \<Longrightarrow> x < fst (orientedExtent w h o') \<Longrightarrow> y < snd (orientedExtent w h o') \<Longrightarrow>
   \<exists>x0 < w. \<exists>y0 < h. target_of o' w h (x0, y0) = (x, y)"
proof -
  assume known: "known_orientation o'" and x: "x < fst (orientedExtent w h o')"
    and y: "y < snd (orientedExtent w h o')"
  let ?p = "target_of (inverse_orientation o') (fst (orientedExtent w h o')) (snd (orientedExtent w h o')) (x, y)"
  have "fst ?p < w \<and> snd ?p < h \<and> target_of o' w h ?p = (x, y)"
    using known x y
    by (cases o') (auto simp: known_orientation_def target_of_def orientedExtent_def transposed_def)
  then show ?thesis by (metis prod.collapse)
qed

lemma image_eqI:
  fixes a b :: "'px Image"
  assumes "wf_image a" and "wf_image b" and "im_width a = im_width b" and "im_height a = im_height b"
    and "\<And>x y. x < im_width a \<Longrightarrow> y < im_height a \<Longrightarrow> pixel a x y = pixel b x y"
  shows "a = b"
proof -
  have "im_pixels a = im_pixels b"
  proof (rule nth_equalityI)
    show "length (im_pixels a) = length (im_pixels b)" using assms by (simp add: wf_image_def)
    fix i assume i: "i < length (im_pixels a)"
    then have i': "i < im_width a * im_height a" using assms(1) by (simp add: wf_image_def)
    then have w: "0 < im_width a" by (cases "im_width a") auto
    have "i div im_width a < im_height a" using i' w by (simp add: less_mult_imp_div_less mult.commute)
    then have "pixel a (i mod im_width a) (i div im_width a) = pixel b (i mod im_width a) (i div im_width a)"
      using assms(5) w by simp
    then show "im_pixels a ! i = im_pixels b ! i" using assms(3) by (simp add: pixel_def)
  qed
  then show ?thesis using assms by simp
qed

lemma applyOrientation_known:
  "applyOrientation px0 src o' = Inr tgt \<Longrightarrow>
   0 < im_width src \<and> 0 < im_height src \<and> known_orientation o'"
proof -
  assume a: "applyOrientation px0 src o' = Inr tgt"
  then have ne: "0 < im_width src" "0 < im_height src" by (auto simp: applyOrientation_def split: if_splits)
  then have "(0, 0) \<in> set (positions (im_width src) (im_height src))" by (simp add: set_positions)
  then have "positions (im_width src) (im_height src) \<noteq> []" by (metis list.set(1) empty_iff)
  then have "\<nexists>v. o' = Orientation_other v"
    using a ne by (cases "positions (im_width src) (im_height src)")
      (auto simp: applyOrientation_def split: prod.splits)
  with ne show ?thesis by (auto simp: known_orientation_def)
qed

text \<open>Two orientations in a row are a third when their pixel maps compose to its.\<close>

lemma orientation_compose:
  assumes "known_orientation o1" and "known_orientation o2" and "known_orientation o3"
    and ext: "\<And>w h. orientedExtent (fst (orientedExtent w h o1)) (snd (orientedExtent w h o1)) o2
                    = orientedExtent w h o3"
    and map: "\<And>w h x y. x < w \<Longrightarrow> y < h \<Longrightarrow>
        target_of o2 (fst (orientedExtent w h o1)) (snd (orientedExtent w h o1)) (target_of o1 w h (x, y))
          = target_of o3 w h (x, y)"
    and run: "applyOrientation px0 src o1 = Inr mid"
  shows "applyOrientation px0 mid o2 = applyOrientation px0 src o3"
proof -
  let ?w = "im_width src" and ?h = "im_height src"
  have ne: "0 < ?w" "0 < ?h" using applyOrientation_known [OF run] by auto
  obtain mid' where mid': "applyOrientation px0 src o1 = Inr mid'" "wf_image mid'"
    "(im_width mid', im_height mid') = orientedExtent ?w ?h o1"
    "\<And>x y. x < ?w \<Longrightarrow> y < ?h \<Longrightarrow>
       pixel mid' (fst (target_of o1 ?w ?h (x, y))) (snd (target_of o1 ?w ?h (x, y))) = pixel src x y"
    by (rule applyOrientation_pixels [OF assms(1) ne]) blast
  then have mid: "mid' = mid" using run by simp
  have mw: "im_width mid = fst (orientedExtent ?w ?h o1)" "im_height mid = snd (orientedExtent ?w ?h o1)"
    using mid'(3) mid by (simp_all add: prod_eq_iff)
  have "0 < im_width mid" "0 < im_height mid" using ne by (auto simp: mw orientedExtent_def)
  from applyOrientation_pixels [OF assms(2) this, of px0] obtain t2 where
    t2: "applyOrientation px0 mid o2 = Inr t2" "wf_image t2"
    "(im_width t2, im_height t2) = orientedExtent (im_width mid) (im_height mid) o2"
    "\<And>x y. x < im_width mid \<Longrightarrow> y < im_height mid \<Longrightarrow>
       pixel t2 (fst (target_of o2 (im_width mid) (im_height mid) (x, y)))
         (snd (target_of o2 (im_width mid) (im_height mid) (x, y))) = pixel mid x y" by blast
  obtain t3 where t3: "applyOrientation px0 src o3 = Inr t3" "wf_image t3"
    "(im_width t3, im_height t3) = orientedExtent ?w ?h o3"
    "\<And>x y. x < ?w \<Longrightarrow> y < ?h \<Longrightarrow>
       pixel t3 (fst (target_of o3 ?w ?h (x, y))) (snd (target_of o3 ?w ?h (x, y))) = pixel src x y"
    by (rule applyOrientation_pixels [OF assms(3) ne]) blast
  have dims: "im_width t2 = im_width t3" "im_height t2 = im_height t3"
    using t2(3) t3(3) ext [of ?w ?h] mw by (simp_all add: prod_eq_iff)
  have "t2 = t3"
  proof (rule image_eqI [OF t2(2) t3(2) dims])
    fix x y assume "x < im_width t2" "y < im_height t2"
    then have "x < fst (orientedExtent ?w ?h o3)" "y < snd (orientedExtent ?w ?h o3)"
      using dims t3(3) by (simp_all add: prod_eq_iff)
    from target_inverse [OF assms(3) this] obtain x0 y0 where
      p: "x0 < ?w" "y0 < ?h" "target_of o3 ?w ?h (x0, y0) = (x, y)" by blast
    let ?q = "target_of o1 ?w ?h (x0, y0)"
    have q: "fst ?q < im_width mid" "snd ?q < im_height mid"
      using target_in_range [OF assms(1) p(1, 2)] mw by auto
    have "target_of o2 (im_width mid) (im_height mid) ?q = (x, y)" using map [OF p(1, 2)] p(3) mw by simp
    then show "pixel t2 x y = pixel t3 x y"
      using t2(4) [OF q] mid'(4) [OF p(1, 2)] t3(4) [OF p(1, 2)] p(3) mid by simp
  qed
  then show ?thesis using t2(1) t3(1) by simp
qed

lemma applyOrientation_None: "wf_image src \<Longrightarrow> 0 < im_width src \<Longrightarrow> 0 < im_height src \<Longrightarrow>
   applyOrientation px0 src Orient_None = Inr src"
proof -
  assume wf: "wf_image src" and ne: "0 < im_width src" "0 < im_height src"
  have "known_orientation Orient_None" by (simp add: known_orientation_def)
  from applyOrientation_pixels [OF this ne, of px0] obtain t where t: "applyOrientation px0 src Orient_None = Inr t"
    "wf_image t" "(im_width t, im_height t) = orientedExtent (im_width src) (im_height src) Orient_None"
    "\<And>x y. x < im_width src \<Longrightarrow> y < im_height src \<Longrightarrow> pixel t x y = pixel src x y"
    by (auto simp: target_of_def)
  have dims: "im_width t = im_width src" "im_height t = im_height src"
    using t(3) by (simp_all add: orientedExtent_def transposed_def)
  have "t = src" by (rule image_eqI [OF t(2) wf dims]) (simp add: dims t(4))
  with t(1) show ?thesis by simp
qed

section \<open>Sums and rounded means\<close>

definition rounded_mean :: "nat \<Rightarrow> nat \<Rightarrow> nat" where
  "rounded_mean n total' = (total' + n div 2) div n"

definition column_total :: "u32 list list \<Rightarrow> nat \<Rightarrow> nat" where
  "column_total ss i = sum_list (map (\<lambda>s. unat (s ! i)) ss)"

lemma add_samples_length [simp]: "length (add_samples a b) = min (length a) (length b)"
  by (simp add: add_samples_def)

lemma add_samples_nth: "i < length a \<Longrightarrow> i < length b \<Longrightarrow> add_samples a b ! i = a ! i + b ! i"
  by (simp add: add_samples_def)

lemma foldl_add_samples:
  "\<forall>s \<in> set ss. length s = length z \<Longrightarrow>
   length (foldl add_samples z ss) = length z
   \<and> (\<forall>i < length z. foldl add_samples z ss ! i = z ! i + word_of_nat (column_total ss i))"
proof (induction ss arbitrary: z)
  case Nil
  then show ?case by (simp add: column_total_def)
next
  case (Cons s ss)
  then show ?case
    using Cons.IH [of "add_samples z s"] by (auto simp: add_samples_nth column_total_def add.assoc)
qed

lemma column_total_bound:
  "\<forall>s \<in> set ss. unat (s ! i) \<le> m \<Longrightarrow> column_total ss i \<le> length ss * m"
  by (induction ss) (auto simp: column_total_def)

lemma rounded_mean_bound: "0 < n \<Longrightarrow> total' \<le> n * m \<Longrightarrow> rounded_mean n total' \<le> m"
proof -
  assume n: "0 < n" and t: "total' \<le> n * m"
  have "n div 2 < n" using n by simp
  then have "total' + n div 2 < n * m + n" using t by linarith
  then have "total' + n div 2 < (m + 1) * n" by (simp add: algebra_simps)
  then show ?thesis using less_mult_imp_div_less [of "total' + n div 2" "m + 1" n] by (simp add: rounded_mean_def)
qed

lemma average_sample_exact:
  assumes "0 < n" and "n \<le> 65536" and "total' \<le> n * 65535"
  shows "unat (average_sample (word_of_nat n) (word_of_nat total')) = rounded_mean n total'"
proof -
  have "n * 65535 \<le> 65536 * 65535" using assms(2) by simp
  then have t: "total' + n div 2 < 2 ^ 32" using assms by simp
  have "unat (word_of_nat n :: u32) = n" "unat (word_of_nat total' :: u32) = total'"
    using assms t by (simp_all add: unat_of_nat)
  then show ?thesis
    using t by (simp add: average_sample_def rounded_mean_def unat_div unat_add_bounded)
qed

lemma concat_nth_uniform:
  "\<forall>p \<in> set ps. length p = c \<Longrightarrow> i < length ps \<Longrightarrow> k < c \<Longrightarrow> concat ps ! (i * c + k) = ps ! i ! k"
proof (induction ps arbitrary: i)
  case Nil
  then show ?case by simp
next
  case (Cons p ps)
  then show ?case by (cases i) (auto simp: nth_append)
qed

lemma length_concat_uniform: "\<forall>p \<in> set ps. length p = c \<Longrightarrow> length (concat ps) = length ps * c"
  by (induction ps) auto

text \<open>An image whose pixels all have the given channels.\<close>

definition channel_image :: "nat \<Rightarrow> nat \<Rightarrow> nat \<Rightarrow> 'c list Image \<Rightarrow> bool" where
  "channel_image w h channels im \<longleftrightarrow>
     im_width im = w \<and> im_height im = h \<and> wf_image im \<and> (\<forall>p \<in> set (im_pixels im). length p = channels)"

definition image_samples :: "'c::len word list Image \<Rightarrow> u32 list" where
  "image_samples im = map ucast (concat (im_pixels im))"

lemma length_image_samples: "channel_image w h c im \<Longrightarrow> length (image_samples im) = w * h * c"
  by (auto simp: image_samples_def channel_image_def wf_image_def length_concat_uniform [of _ c])

lemma add_images_sums:
  "\<forall>im \<in> set ims. channel_image w h c im \<Longrightarrow> 0 < w \<Longrightarrow> 0 < h \<Longrightarrow>
   ia_count acc \<noteq> 0 \<Longrightarrow> ia_width acc = w \<Longrightarrow> ia_height acc = h \<Longrightarrow> unat (ia_count acc) + length ims < 2 ^ 64 \<Longrightarrow>
   add_images c acc ims =
     Inr (acc\<lparr>ia_sum := foldl add_samples (ia_sum acc) (map image_samples ims),
              ia_count := ia_count acc + word_of_nat (length ims)\<rparr>)"
proof (induction ims arbitrary: acc)
  case Nil
  then show ?case by simp
next
  case (Cons im ims)
  have "unat (ia_count acc + 1) = Suc (unat (ia_count acc))"
    using Cons.prems(7) unat_add_bounded [of "ia_count acc" 1] by simp
  moreover from this have "ia_count acc + 1 \<noteq> 0" by (metis unat_0 nat.distinct(1))
  ultimately show ?case
    using Cons.prems
      Cons.IH [of "acc\<lparr>ia_sum := add_samples (ia_sum acc) (image_samples im), ia_count := ia_count acc + 1\<rparr>"]
    by (simp add: ImageAccumulator_add_def channel_image_def image_samples_def add.assoc)
qed

lemma add_images_new:
  assumes "ims \<noteq> []" and "\<forall>im \<in> set ims. channel_image w h c im" and "0 < w" and "0 < h" and "length ims < 2 ^ 64"
  shows "add_images c ImageAccumulator_new ims =
    Inr \<lparr>ia_sum = foldl add_samples (replicate (w * h * c) 0) (map image_samples ims),
         ia_count = word_of_nat (length ims), ia_width = w, ia_height = h\<rparr>"
  using assms
    add_images_sums [of "tl ims" w h c "\<lparr>ia_sum = add_samples (replicate (w * h * c) 0) (image_samples (hd ims)),
       ia_count = 1, ia_width = w, ia_height = h\<rparr>"]
  by (cases ims)
     (auto simp: ImageAccumulator_add_def ImageAccumulator_new_def channel_image_def image_samples_def)

lemma channel_block: "i < n \<Longrightarrow> i * c + c \<le> n * (c :: nat)"
proof -
  assume "i < n"
  then have "Suc i * c \<le> n * c" by (intro mult_le_mono1) simp
  then show ?thesis by simp
qed

lemma channel_room: "i < n \<Longrightarrow> min (n * c - i * c) c = (c :: nat)"
  using channel_block [of i n c] by linarith

lemma channel_index_less: "x < w \<Longrightarrow> y < h \<Longrightarrow> k < c \<Longrightarrow> (y * w + x) * c + k < w * h * (c :: nat)"
  using channel_block [OF pixel_index_less, of x w y h c] by linarith

lemma image_sample_at:
  fixes im :: "'c::len word list Image"
  assumes "channel_image w h c im" and "x < w" and "y < h" and "k < c"
  shows "image_samples im ! ((y * w + x) * c + k) = ucast (pixel im x y ! k)"
proof -
  have "concat (im_pixels im) ! ((y * w + x) * c + k) = pixel im x y ! k"
    using concat_nth_uniform [of "im_pixels im" c "y * w + x" k] pixel_index_less [OF assms(2, 3)] assms(1, 4)
    by (simp add: channel_image_def wf_image_def pixel_def)
  moreover have "(y * w + x) * c + k < length (concat (im_pixels im))"
    using channel_index_less [OF assms(2-4)] length_image_samples [OF assms(1)] by (simp add: image_samples_def)
  ultimately show ?thesis by (simp add: image_samples_def)
qed

lemma narrow_sample:
  "LENGTH('c) \<le> 16 \<Longrightarrow> unat (ucast (s :: 'c::len word) :: u32) = unat s"
proof -
  assume "LENGTH('c) \<le> 16"
  then have "(2::nat) ^ LENGTH('c) \<le> 2 ^ 32" by (intro power_increasing) simp_all
  with unat_lt_size [of s] have "unat s < 2 ^ 32" by linarith
  then show ?thesis by (simp add: unat_ucast)
qed

text \<open>The average of \<open>n\<close> samples of at most sixteen bits fits their width.\<close>

lemma average_narrow:
  assumes "LENGTH('c) \<le> 16" and "0 < n" and "n \<le> 65536" and "total' \<le> n * (2 ^ LENGTH('c) - 1)"
  shows "unat (ucast (average_sample (word_of_nat n) (word_of_nat total')) :: 'c::len word) = rounded_mean n total'"
proof -
  have "(2::nat) ^ LENGTH('c) \<le> 2 ^ 16" using assms(1) by (intro power_increasing) simp_all
  then have "n * (2 ^ LENGTH('c) - 1) \<le> n * 65535" by (intro mult_le_mono2) simp
  then have "unat (average_sample (word_of_nat n) (word_of_nat total')) = rounded_mean n total'"
    using average_sample_exact [of n total'] assms by linarith
  moreover have "rounded_mean n total' \<le> 2 ^ LENGTH('c) - 1" using rounded_mean_bound assms(2, 4) by blast
  then have "rounded_mean n total' < 2 ^ LENGTH('c)" using zero_less_power [of "2 :: nat" "LENGTH('c)"] by linarith
  ultimately show ?thesis by (simp add: unat_ucast)
qed

lemma sum_list_bound: "(\<And>x. g x \<le> m) \<Longrightarrow> sum_list (map g xs) \<le> length xs * (m :: nat)"
  by (induction xs) (simp_all add: add_mono)

lemma sum_samples_bound: "sum_list (map (\<lambda>im. unat (f im :: 'c::len word)) ims) \<le> length ims * (2 ^ LENGTH('c) - 1)"
proof -
  have "unat (f im) \<le> 2 ^ LENGTH('c) - 1" for im using unat_lt_size [of "f im"] by linarith
  then show ?thesis by (rule sum_list_bound)
qed

lemma image_column_total:
  fixes ims :: "'c::len word list Image list"
  assumes "\<forall>im \<in> set ims. channel_image w h c im" and "LENGTH('c) \<le> 16" and "x < w" and "y < h" and "k < c"
  shows "column_total (map image_samples ims) ((y * w + x) * c + k)
    = sum_list (map (\<lambda>im. unat (pixel im x y ! k)) ims)"
  using assms(1)
  by (induction ims)
     (simp_all add: column_total_def image_sample_at [OF _ assms(3-5)] narrow_sample [OF assms(2)])

lemma orientation_inverse_law:
  assumes "wf_image src" and "applyOrientation px0 src o' = Inr tgt"
  shows "applyOrientation px0 tgt (inverse_orientation o') = Inr src"
proof -
  have known: "known_orientation o'" and ne: "0 < im_width src" "0 < im_height src"
    using applyOrientation_known [OF assms(2)] by auto
  have "applyOrientation px0 tgt (inverse_orientation o') = applyOrientation px0 src Orient_None"
  proof (rule orientation_compose [OF known _ _ _ _ assms(2)])
    show "known_orientation (inverse_orientation o')" using known known_inverse by simp
    show "known_orientation Orient_None" by (simp add: known_orientation_def)
    show "orientedExtent (fst (orientedExtent w h o')) (snd (orientedExtent w h o')) (inverse_orientation o')
        = orientedExtent w h Orient_None" for w h
      by (cases o') (auto simp: orientedExtent_def transposed_def)
    show "target_of (inverse_orientation o') (fst (orientedExtent w h o')) (snd (orientedExtent w h o'))
        (target_of o' w h (x, y)) = target_of Orient_None w h (x, y)" if "x < w" "y < h" for w h x y
      using inverse_target [OF known that] by (simp add: target_of_def)
  qed
  then show ?thesis using applyOrientation_None [OF assms(1) ne] by simp
qed

section \<open>Properties\<close>

text \<open>Orientation loses nothing: the result of an orientation is a complete image, and orienting
  it back (90 degrees the other way, or the same half turn or flip again) gives the source.\<close>

theorem orientation_inverse:
  assumes "wf_image src" and "applyOrientation px0 src o' = Inr tgt"
  shows "applyOrientation px0 tgt (inverse_orientation o') = Inr src
    \<and> wf_image tgt \<and> (im_width tgt, im_height tgt) = orientedExtent (im_width src) (im_height src) o'"
proof -
  have known: "known_orientation o'" and ne: "0 < im_width src" "0 < im_height src"
    using applyOrientation_known [OF assms(2)] by auto
  obtain t where "applyOrientation px0 src o' = Inr t" "wf_image t"
    "(im_width t, im_height t) = orientedExtent (im_width src) (im_height src) o'"
    by (rule applyOrientation_pixels [OF known ne]) blast
  with assms orientation_inverse_law [OF assms] show ?thesis by simp
qed


theorem orientation_inverse_witness:
  "applyOrientation 0 \<lparr>im_width = 2, im_height = 3, im_pixels = [1, 2, 3, 4, 5, 6 :: nat]\<rparr> Rotate90CW
     = Inr \<lparr>im_width = 3, im_height = 2, im_pixels = [5, 3, 1, 6, 4, 2]\<rparr>
   \<and> applyOrientation 0 \<lparr>im_width = 3, im_height = 2, im_pixels = [5, 3, 1, 6, 4, 2 :: nat]\<rparr> Rotate90CCW
     = Inr \<lparr>im_width = 2, im_height = 3, im_pixels = [1, 2, 3, 4, 5, 6]\<rparr>"
proof -
  let ?src = "\<lparr>im_width = 2, im_height = 3, im_pixels = [1, 2, 3, 4, 5, 6 :: nat]\<rparr>"
  have run: "applyOrientation 0 ?src Rotate90CW
      = Inr \<lparr>im_width = 3, im_height = 2, im_pixels = [5, 3, 1, 6, 4, 2]\<rparr>"
    by (simp add: applyOrientation_def orientedExtent_def transposed_def positions_def Image_new_def
        pixel_def upt_rec numeral_eq_Suc)
  then show ?thesis using orientation_inverse [OF _ run] by (simp add: wf_image_def)
qed

text \<open>Orientations compose as the symmetries of a rectangle: two quarter turns either way, or the
  two flips, are the half turn.\<close>

theorem orientation_half_turn:
  assumes "(o1, o2) \<in> {(Rotate90CW, Rotate90CW), (Rotate90CCW, Rotate90CCW),
                        (FlipHorizontal, FlipVertical), (FlipVertical, FlipHorizontal)}"
    and "applyOrientation px0 src o1 = Inr mid"
  shows "applyOrientation px0 mid o2 = applyOrientation px0 src Rotate180"
  by (rule orientation_compose [OF _ _ _ _ _ assms(2)])
     (use assms(1) in \<open>auto simp: known_orientation_def orientedExtent_def transposed_def target_of_def\<close>)

theorem orientation_half_turn_witness:
  "\<exists>mid. applyOrientation 0 \<lparr>im_width = 2, im_height = 1, im_pixels = [1, 2 :: nat]\<rparr> Rotate90CW = Inr mid
    \<and> applyOrientation 0 mid Rotate90CW
      = applyOrientation 0 \<lparr>im_width = 2, im_height = 1, im_pixels = [1, 2 :: nat]\<rparr> Rotate180"
proof -
  let ?src = "\<lparr>im_width = 2, im_height = 1, im_pixels = [1, 2 :: nat]\<rparr>"
  have "applyOrientation 0 ?src Rotate90CW = Inr \<lparr>im_width = 1, im_height = 2, im_pixels = [1, 2]\<rparr>"
    by (simp add: applyOrientation_def orientedExtent_def transposed_def positions_def Image_new_def
        pixel_def upt_rec numeral_eq_Suc)
  from orientation_half_turn [OF _ this, of Rotate90CW] this show ?thesis by auto
qed


text \<open>Averaging is the rounded mean of every channel of every pixel: for up to 65536 images of one
  size with at most sixteen bits per sample no 32-bit sum wraps, and each result sample is the sum of
  the inputs' samples plus half the count, divided by the count.\<close>

theorem image_average_exact:
  fixes ims :: "'c::len word list Image list"
  assumes "ims \<noteq> []" and "length ims \<le> 65536" and "LENGTH('c) \<le> 16"
    and "\<forall>im \<in> set ims. channel_image w h channels im" and "0 < w" and "0 < h"
  shows "\<exists>im. averageImages channels ims = Some (Inr im) \<and> channel_image w h channels im
    \<and> (\<forall>x < w. \<forall>y < h. \<forall>k < channels.
         unat (pixel im x y ! k) = rounded_mean (length ims) (sum_list (map (\<lambda>im. unat (pixel im x y ! k)) ims)))"
proof -
  let ?n = "length ims"
  let ?sums = "foldl add_samples (replicate (w * h * channels) 0) (map image_samples ims)"
  let ?avg = "map (\<lambda>s. ucast (average_sample (word_of_nat ?n) s) :: 'c word) ?sums"
  let ?im = "\<lparr>im_width = w, im_height = h,
      im_pixels = map (\<lambda>i. take channels (drop (i * channels) ?avg)) [0..<w * h]\<rparr>"
  have lens: "\<forall>s \<in> set (map image_samples ims). length s = length (replicate (w * h * channels) (0 :: u32))"
    using assms(4) by (auto simp: length_image_samples)
  note sums = foldl_add_samples [OF lens]
  have n: "unat (word_of_nat ?n :: u64) = ?n" using assms(2) by (simp add: unat_of_nat)
  then have "(word_of_nat ?n :: u64) \<noteq> 0" using assms(1) by (metis unat_0 length_0_conv)
  moreover have "(ucast (word_of_nat ?n :: u64) :: u32) = word_of_nat ?n"
    using assms(2) n by (simp add: word_unat_eq_iff unat_of_nat unat_ucast)
  moreover have "unat (word_of_nat ?n :: u32) = ?n" using assms(2) by (simp add: unat_of_nat)
  then have "(word_of_nat ?n :: u32) \<noteq> 0" using assms(1) by (metis unat_0 length_0_conv)
  ultimately have run: "averageImages channels ims = Some (Inr ?im)"
    using add_images_new [OF assms(1, 4, 5, 6)] assms(2)
    by (simp add: averageImages_def ImageAccumulator_average_def)
  have len: "length ?avg = w * h * channels" using sums by simp
  then have shape: "channel_image w h channels ?im"
    by (auto simp: channel_image_def wf_image_def channel_room)
  have "unat (pixel ?im x y ! k) = rounded_mean ?n (sum_list (map (\<lambda>im. unat (pixel im x y ! k)) ims))"
    if "x < w" "y < h" "k < channels" for x y k
  proof -
    let ?j = "(y * w + x) * channels + k" and ?t = "sum_list (map (\<lambda>im. unat (pixel im x y ! k)) ims)"
    have "pixel ?im x y ! k = ?avg ! ?j"
      using that len pixel_index_less [OF that(1, 2)] by (simp add: pixel_def channel_index_less)
    also have "\<dots> = ucast (average_sample (word_of_nat ?n) (word_of_nat ?t))"
      using sums channel_index_less [OF that] image_column_total [OF assms(4, 3) that] by simp
    finally show ?thesis
      using average_narrow [OF assms(3) _ assms(2), of ?t] assms(1)
        sum_samples_bound [of "\<lambda>im. pixel im x y ! k" ims] by simp
  qed
  with run shape show ?thesis by blast
qed

theorem image_average_exact_witness:
  "\<exists>im. averageImages 1 [\<lparr>im_width = 1, im_height = 1, im_pixels = [[3 :: u16]]\<rparr>,
                         \<lparr>im_width = 1, im_height = 1, im_pixels = [[65534]]\<rparr>] = Some (Inr im)
     \<and> unat (pixel im 0 0 ! 0) = 32769"
proof -
  let ?ims = "[\<lparr>im_width = 1, im_height = 1, im_pixels = [[3 :: u16]]\<rparr>, \<lparr>im_width = 1, im_height = 1, im_pixels = [[65534]]\<rparr>]"
  have "\<exists>im. averageImages 1 ?ims = Some (Inr im) \<and> channel_image 1 1 1 im
    \<and> (\<forall>x < 1. \<forall>y < 1. \<forall>k < 1.
         unat (pixel im x y ! k) = rounded_mean (length ?ims) (sum_list (map (\<lambda>im. unat (pixel im x y ! k)) ?ims)))"
    by (rule image_average_exact) (simp_all add: channel_image_def wf_image_def)
  then show ?thesis by (auto simp: pixel_def rounded_mean_def numeral_2_eq_2 [symmetric])
qed

end
