(* ===== verification/MemoryRows.thy ===== *)
theory MemoryRows
  imports ImageTransform
begin

text \<open>
  Copying rows of bytes between buffers with strides, the loop of \<open>memcpy\<close> calls that the camera
  frames (\<open>core/tmr/camera/CameraFrameOps.cpp\<close>) and the interleaved image buffers
  (\<open>api/wse/data/wse_ImageInterleaved.h\<close>) share.  Row offsets are 64-bit products as in the code; an
  access outside a buffer is \<open>None\<close>.
\<close>

section \<open>Rows of bytes\<close>

definition read_bytes :: "bytes \<Rightarrow> nat \<Rightarrow> nat \<Rightarrow> bytes option" where
  "read_bytes buf off n = (if off + n \<le> length buf then Some (take n (drop off buf)) else None)"

definition write_bytes :: "bytes \<Rightarrow> nat \<Rightarrow> bytes \<Rightarrow> bytes option" where
  "write_bytes buf off bs =
     (if off + length bs \<le> length buf
      then Some (take off buf @ bs @ drop (off + length bs) buf) else None)"

text \<open>The loop that copies \<open>n\<close> bytes of each row with \<open>memcpy\<close>.\<close>

fun copy_rows :: "u64 \<Rightarrow> u64 \<Rightarrow> u64 \<Rightarrow> nat \<Rightarrow> nat \<Rightarrow> bytes \<Rightarrow> bytes \<Rightarrow> bytes option" where
  "copy_rows target_stride source_stride n row 0 src dst = Some dst"
| "copy_rows target_stride source_stride n row (Suc k) src dst =
     (case read_bytes src (unat (word_of_nat row * source_stride)) (unat n) of
        None \<Rightarrow> None
      | Some bs \<Rightarrow>
          (case write_bytes dst (unat (word_of_nat row * target_stride)) bs of
             None \<Rightarrow> None
           | Some dst' \<Rightarrow> copy_rows target_stride source_stride n (Suc row) k src dst'))"

section \<open>Offsets do not wrap\<close>

lemma unat_row_offset:
  assumes "r * unat s < 2 ^ 64" and "r < 2 ^ 64"
  shows "unat (word_of_nat r * s :: u64) = r * unat s"
proof -
  have "unat (word_of_nat r :: u64) = r" using assms(2) by (simp add: unat_of_nat)
  then show ?thesis using assms(1) unat_mult_u64 [of "word_of_nat r" s] by simp
qed

lemma row_block: "r < h \<Longrightarrow> r * s + s \<le> h * (s :: nat)"
  by (rule channel_block)

lemma copy_rows_packed:
  assumes "length pre = row * unat n" and "length post = k * unat n"
    and "(row + k) * unat n < 2 ^ 64" and "row + k < 2 ^ 64"
    and "\<And>r. r < row + k \<Longrightarrow> r * unat ss + unat n \<le> length src \<and> r * unat ss < 2 ^ 64"
  shows "copy_rows n ss n row k src (pre @ post)
    = Some (pre @ concat (map (\<lambda>r. take (unat n) (drop (r * unat ss) src)) [row..<row + k]))"
  using assms
proof (induction k arbitrary: row pre post)
  case 0
  then show ?case by simp
next
  case (Suc k)
  let ?bs = "take (unat n) (drop (row * unat ss) src)"
  have src: "row * unat ss + unat n \<le> length src" "row * unat ss < 2 ^ 64" using Suc.prems(5) [of row] by auto
  have "row * unat n \<le> (row + Suc k) * unat n" by (intro mult_le_mono1) simp
  then have offs: "unat (word_of_nat row * ss :: u64) = row * unat ss" "unat (word_of_nat row * n :: u64) = row * unat n"
    using Suc.prems(3, 4) src(2) by (simp_all add: unat_row_offset)
  have post: "post = take (unat n) post @ drop (unat n) post" "length (drop (unat n) post) = k * unat n"
    using Suc.prems(2) by simp_all
  have len: "length ?bs = unat n" using src(1) by simp
  have "write_bytes (pre @ post) (row * unat n) ?bs = Some ((pre @ ?bs) @ drop (unat n) post)"
    using Suc.prems(1, 2) len by (simp add: write_bytes_def)
  moreover have "copy_rows n ss n (Suc row) k src ((pre @ ?bs) @ drop (unat n) post)
      = Some ((pre @ ?bs) @ concat (map (\<lambda>r. take (unat n) (drop (r * unat ss) src)) [Suc row..<Suc row + k]))"
    using Suc.IH [of "pre @ ?bs" "Suc row" "drop (unat n) post"] Suc.prems len post by simp
  moreover have "[row..<row + Suc k] = row # [Suc row..<Suc row + k]" by (simp add: upt_rec)
  ultimately show ?case using src by (simp add: read_bytes_def offs)
qed

section \<open>Images over packed memory\<close>

text \<open>The image of whole pixels of \<open>pb\<close> bytes that the packed rows are copied into.\<close>

definition pixel_image :: "nat \<Rightarrow> nat \<Rightarrow> nat \<Rightarrow> bytes \<Rightarrow> bytes Image" where
  "pixel_image pb w h packed =
     \<lparr>im_width = w, im_height = h, im_pixels = map (\<lambda>i. take pb (drop (i * pb) packed)) [0..<w * h]\<rparr>"

lemma concat_chunk:
  "\<forall>p \<in> set px. length p = pb \<Longrightarrow> i < length px \<Longrightarrow> take pb (drop (i * pb) (concat px)) = px ! i"
proof (induction px arbitrary: i)
  case Nil
  then show ?case by simp
next
  case (Cons p px)
  then show ?case by (cases i) auto
qed


lemma pixel_image_concat:
  "\<forall>p \<in> set px. length p = pb \<Longrightarrow> length px = w * h \<Longrightarrow>
   pixel_image pb w h (concat px) = \<lparr>im_width = w, im_height = h, im_pixels = px\<rparr>"
  using concat_chunk [of px pb] by (auto simp: pixel_image_def intro!: nth_equalityI)

lemma concat_pixel_image:
  assumes "length bs = w * h * pb"
  shows "concat (im_pixels (pixel_image pb w h bs)) = bs" and "\<forall>p \<in> set (im_pixels (pixel_image pb w h bs)). length p = pb"
proof -
  have "concat (map (\<lambda>i. take pb (drop (i * pb) bs)) [0..<n]) = take (n * pb) bs" if "n * pb \<le> length bs" for n
    using that
  proof (induction n)
    case 0
    then show ?case by simp
  next
    case (Suc n)
    then show ?case using take_add [of "n * pb" pb bs] by (simp add: add.commute)
  qed
  then show "concat (im_pixels (pixel_image pb w h bs)) = bs" using assms by (simp add: pixel_image_def)
  show "\<forall>p \<in> set (im_pixels (pixel_image pb w h bs)). length p = pb"
    using assms channel_room by (auto simp: pixel_image_def)
qed

lemma wf_pixel_image: "wf_image (pixel_image pb w h bs)"
  by (simp add: wf_image_def pixel_image_def)

lemma rows_of_packed:
  fixes bs :: bytes
  shows "length bs = h * p \<Longrightarrow> concat (map (\<lambda>r. take p (drop (r * p) bs)) [0..<h]) = bs"
  using concat_pixel_image(1) [of bs h 1 p] by (simp add: pixel_image_def)

section \<open>Rows into a strided target\<close>

lemma write_bytes_nth:
  assumes "off + length bs \<le> length buf"
  shows "\<exists>buf'. write_bytes buf off bs = Some buf' \<and> length buf' = length buf
    \<and> (\<forall>p < length buf. buf' ! p = (if off \<le> p \<and> p < off + length bs then bs ! (p - off) else buf ! p))"
  using assms by (auto simp: write_bytes_def nth_append min_def)

lemma strided_row:
  assumes "n \<le> s" and "(0 :: nat) < n"
  shows "row * s \<le> p \<and> p < row * s + n \<longleftrightarrow> p div s = row \<and> p mod s < n"
proof
  assume p: "row * s \<le> p \<and> p < row * s + n"
  then have "p = row * s + (p - row * s)" "p - row * s < s" using assms(1) by linarith+
  then have "p div s = row" "p mod s = p - row * s" using index_div_mod [of "p - row * s" s row] by metis+
  moreover have "p - row * s < n" using p by linarith
  ultimately show "p div s = row \<and> p mod s < n" by simp
next
  assume "p div s = row \<and> p mod s < n"
  then show "row * s \<le> p \<and> p < row * s + n" using div_mult_mod_eq [of p s] by auto
qed

text \<open>Every byte of the target: those of the copied rows come from the source, the rest, the padding
  between the rows included, keep their value.\<close>

lemma copy_rows_strided:
  assumes "0 < unat n" and "unat n \<le> unat ts" and "row + k < 2 ^ 64"
    and "\<And>r. r < row + k \<Longrightarrow> r * unat ss + unat n \<le> length src \<and> r * unat ss < 2 ^ 64"
    and "\<And>r. r < row + k \<Longrightarrow> r * unat ts + unat n \<le> length dst \<and> r * unat ts < 2 ^ 64"
  shows "\<exists>dst'. copy_rows ts ss n row k src dst = Some dst' \<and> length dst' = length dst
    \<and> (\<forall>p < length dst. dst' ! p =
          (if row \<le> p div unat ts \<and> p div unat ts < row + k \<and> p mod unat ts < unat n
           then src ! (p div unat ts * unat ss + p mod unat ts) else dst ! p))"
  using assms(3-)
proof (induction k arbitrary: row dst)
  case 0
  then show ?case by auto
next
  case (Suc k)
  let ?bs = "take (unat n) (drop (row * unat ss) src)"
  have src: "row * unat ss + unat n \<le> length src" "row * unat ss < 2 ^ 64"
    and dst: "row * unat ts + unat n \<le> length dst" "row * unat ts < 2 ^ 64"
    using Suc.prems(2, 3) [of row] by auto
  have offs: "unat (word_of_nat row * ss :: u64) = row * unat ss" "unat (word_of_nat row * ts :: u64) = row * unat ts"
    using src(2) dst(2) Suc.prems(1) by (simp_all add: unat_row_offset)
  have len: "length ?bs = unat n" using src(1) by simp
  obtain dst1 where one: "write_bytes dst (row * unat ts) ?bs = Some dst1" "length dst1 = length dst"
    and at1: "\<And>p. p < length dst \<Longrightarrow> dst1 ! p =
      (if row * unat ts \<le> p \<and> p < row * unat ts + unat n then ?bs ! (p - row * unat ts) else dst ! p)"
    using write_bytes_nth [of "row * unat ts" ?bs dst] dst(1) len by auto
  have shift: "Suc row + k = row + Suc k" by simp
  obtain dst2 where two: "copy_rows ts ss n (Suc row) k src dst1 = Some dst2" "length dst2 = length dst"
    and at2: "\<And>p. p < length dst \<Longrightarrow> dst2 ! p =
      (if Suc row \<le> p div unat ts \<and> p div unat ts < row + Suc k \<and> p mod unat ts < unat n
       then src ! (p div unat ts * unat ss + p mod unat ts) else dst1 ! p)"
    using Suc.IH [of "Suc row" dst1, unfolded shift] Suc.prems one(2) by auto
  have "dst2 ! p = (if row \<le> p div unat ts \<and> p div unat ts < row + Suc k \<and> p mod unat ts < unat n
      then src ! (p div unat ts * unat ss + p mod unat ts) else dst ! p)" if p: "p < length dst" for p
  proof (cases "p div unat ts = row \<and> p mod unat ts < unat n")
    case True
    then have "p - row * unat ts = p mod unat ts" by (auto simp: minus_div_mult_eq_mod)
    then have "dst1 ! p = src ! (row * unat ss + p mod unat ts)"
      using at1 [OF p] True strided_row [OF assms(2, 1), of row p] src(1) by simp
    then show ?thesis using at2 [OF p] True by simp
  next
    case False
    then have "dst1 ! p = dst ! p" using at1 [OF p] strided_row [OF assms(2, 1), of row p] by auto
    then show ?thesis using at2 [OF p] False by (auto simp: Suc_le_eq)
  qed
  then show ?case using one two src offs by (auto simp: read_bytes_def)
qed

end
