(* ===== verification/CameraFrameOps.thy ===== *)
theory CameraFrameOps
  imports CameraTypes MemoryRows
begin

text \<open>
  Operations on camera frames (\<open>core/tmr/camera/CameraFrameOps.cpp\<close>).  A read or write outside a buffer is undefined in C++ and is
  \<open>None\<close> here; an exception that escapes is the left summand.  Offsets are 64-bit products as in the
  code.
\<close>

section \<open>Formats\<close>

datatype eBayerPattern = Rggb | Bggr | Grbg | Gbrg

fun channelCount :: "eCameraPixelFormat \<Rightarrow> u64" where
  "channelCount Gray8 = 1"
| "channelCount Rgb8 = 3"
| "channelCount Bgr8 = 3"
| "channelCount Bgra8 = 4"
| "channelCount Gray16 = 1"
| "channelCount Rgb16 = 3"
| "channelCount Bgr16 = 3"
| "channelCount _ = 0"

fun bytesPerSample :: "eCameraPixelFormat \<Rightarrow> u64" where
  "bytesPerSample Gray8 = 1"
| "bytesPerSample Rgb8 = 1"
| "bytesPerSample Bgr8 = 1"
| "bytesPerSample Bgra8 = 1"
| "bytesPerSample Gray16 = 2"
| "bytesPerSample Rgb16 = 2"
| "bytesPerSample Bgr16 = 2"
| "bytesPerSample _ = 0"

fun bayerPatternOf :: "eCameraPixelFormat \<Rightarrow> eBayerPattern option" where
  "bayerPatternOf Bayer16Rggb = Some Rggb"
| "bayerPatternOf Bayer16Bggr = Some Bggr"
| "bayerPatternOf Bayer16Grbg = Some Grbg"
| "bayerPatternOf Bayer16Gbrg = Some Gbrg"
| "bayerPatternOf _ = None"

definition isBayerFormat :: "eCameraPixelFormat \<Rightarrow> bool" where
  "isBayerFormat f \<longleftrightarrow> bayerPatternOf f \<noteq> None"

definition accumulationChannels :: "eCameraPixelFormat \<Rightarrow> u64" where
  "accumulationChannels f =
     (if channelCount f \<noteq> 0 then channelCount f else if isBayerFormat f then 1 else 0)"

definition accumulationSampleBytes :: "eCameraPixelFormat \<Rightarrow> u64" where
  "accumulationSampleBytes f =
     (if bytesPerSample f \<noteq> 0 then bytesPerSample f else if isBayerFormat f then 2 else 0)"

definition isFrameOperationSupported :: "eCameraPixelFormat \<Rightarrow> bool" where
  "isFrameOperationSupported f \<longleftrightarrow> channelCount f \<noteq> 0"

definition isFrameAveragingSupported :: "eCameraPixelFormat \<Rightarrow> bool" where
  "isFrameAveragingSupported f \<longleftrightarrow> accumulationChannels f \<noteq> 0"

section \<open>Validation\<close>

definition frame_disagrees :: CameraError where
  "frame_disagrees = CameraError_make CamCat_Validation Cam_InvalidArgument
     ''The camera frame description and data do not agree.''"

definition no_pixel_operation :: CameraError where
  "no_pixel_operation = CameraError_make CamCat_Unsupported Cam_UnsupportedFormat
     ''This camera pixel format is subsampled or compressed and has no per-pixel operation.''"

definition validateFrameData :: "sCameraFrame \<Rightarrow> CameraError" where
  "validateFrameData f = (if \<not> frame_valid f then frame_disagrees else CameraError_none)"

definition validateFrameForOrientation :: "sCameraFrame \<Rightarrow> CameraError \<times> u64" where
  "validateFrameForOrientation f =
     (let fmt = fd_pixel_format (cm_description f); channels = channelCount fmt in
      (if channels = 0
       then if isBayerFormat fmt
            then CameraError_make CamCat_Unsupported Cam_UnsupportedFormat
              ''A Bayer frame carries a colour layout that moving its pixels destroys; convert it with demosaicFrame() first.''
            else no_pixel_operation
       else validateFrameData f, channels))"

definition validateFrameForAccumulation :: "sCameraFrame \<Rightarrow> CameraError \<times> u64 \<times> u64" where
  "validateFrameForAccumulation f =
     (let fmt = fd_pixel_format (cm_description f);
          channels = accumulationChannels fmt; sample_bytes = accumulationSampleBytes fmt
      in (if channels = 0 \<or> sample_bytes = 0 then no_pixel_operation else validateFrameData f,
          channels, sample_bytes))"

section \<open>Packed rows\<close>

definition packRows :: "sCameraFrame \<Rightarrow> u64 \<Rightarrow> bytes option" where
  "packRows f row_bytes =
     (let h = fd_height (cm_description f) in
      copy_rows row_bytes (fd_row_stride (cm_description f)) row_bytes 0 (unat h) (cm_data f)
        (replicate (unat (row_bytes * ucast h)) 0))"

section \<open>Orientation of a frame\<close>

definition buildFrame :: "sCameraFrame \<Rightarrow> u32 \<Rightarrow> u32 \<Rightarrow> u64 \<Rightarrow> bytes \<Rightarrow> sCameraFrame" where
  "buildFrame source w h channels packed =
     \<lparr>cm_description =
        \<lparr>fd_width = w, fd_height = h, fd_pixel_format = fd_pixel_format (cm_description source),
         fd_row_stride = ucast w * channels * bytesPerSample (fd_pixel_format (cm_description source))\<rparr>,
      cm_data = packed, cm_sequence = cm_sequence source, cm_timestamp = cm_timestamp source\<rparr>"

definition frame_applyOrientation ::
    "sCameraFrame \<Rightarrow> eImageOrientation \<Rightarrow> (string + sCameraFrame CameraResult) option" where
  "frame_applyOrientation f o' =
     (let (validation, channels) = validateFrameForOrientation f in
      if \<not> ce_ok validation then Some (Inr (Failure validation))
      else
        let d = cm_description f;
            pixel_bytes = channels * bytesPerSample (fd_pixel_format d);
            row_bytes = ucast (fd_width d) * channels * bytesPerSample (fd_pixel_format d)
        in case packRows f row_bytes of
          None \<Rightarrow> None
        | Some packed \<Rightarrow>
            let pb = unat pixel_bytes;
                image = pixel_image pb (unat (fd_width d)) (unat (fd_height d)) packed
            in case applyOrientation (replicate pb 0) image o' of
                 Inl e \<Rightarrow> Some (Inl e)
               | Inr oriented \<Rightarrow>
                   Some (Inr (Success (buildFrame f (word_of_nat (im_width oriented))
                     (word_of_nat (im_height oriented)) channels (concat (im_pixels oriented))))))"

section \<open>Accumulation\<close>

definition readSample :: "bytes \<Rightarrow> nat \<Rightarrow> u64 \<Rightarrow> u32 option" where
  "readSample buf off sample_bytes =
     (if sample_bytes = 1 then map_option ucast (vec_at buf off)
      else case (vec_at buf off, vec_at buf (off + 1)) of
        (Some lo, Some hi) \<Rightarrow> Some (or (ucast lo) (push_bit 8 (ucast hi)))
      | _ \<Rightarrow> None)"

definition writeSample :: "u32 \<Rightarrow> u64 \<Rightarrow> bytes" where
  "writeSample v sample_bytes =
     (if sample_bytes = 1 then [ucast v] else [ucast v, ucast (drop_bit 8 v)])"

record Accumulator_Impl =
  af_description :: sCameraFrameDescription
  af_channels :: u64
  af_sample_bytes :: u64
  af_count :: u64
  af_sum :: "u32 list"
  af_sequence :: u64
  af_timestamp :: int

definition Accumulator_Impl_new :: Accumulator_Impl where
  "Accumulator_Impl_new =
     \<lparr>af_description = FrameDescription_none, af_channels = 0, af_sample_bytes = 0, af_count = 0,
      af_sum = [], af_sequence = 0, af_timestamp = 0\<rparr>"

text \<open>The two loops of \<open>add\<close>: the samples of one row, then the rows.\<close>

fun accumulate_row :: "bytes \<Rightarrow> nat \<Rightarrow> u64 \<Rightarrow> nat \<Rightarrow> nat \<Rightarrow> nat \<Rightarrow> u32 list \<Rightarrow> u32 list option" where
  "accumulate_row data source_off sb target_off index 0 acc = Some acc"
| "accumulate_row data source_off sb target_off index (Suc k) acc =
     (case (readSample data (source_off + index * unat sb) sb, vec_at acc (target_off + index)) of
        (Some v, Some s) \<Rightarrow>
          accumulate_row data source_off sb target_off (Suc index) k (acc[target_off + index := s + v])
      | _ \<Rightarrow> None)"

fun accumulate_rows :: "bytes \<Rightarrow> u64 \<Rightarrow> u64 \<Rightarrow> u64 \<Rightarrow> nat \<Rightarrow> nat \<Rightarrow> u32 list \<Rightarrow> u32 list option" where
  "accumulate_rows data row_stride sb row_samples row 0 acc = Some acc"
| "accumulate_rows data row_stride sb row_samples row (Suc k) acc =
     (case accumulate_row data (unat (word_of_nat row * row_stride)) sb (unat (word_of_nat row * row_samples)) 0
             (unat row_samples) acc of
        None \<Rightarrow> None
      | Some acc' \<Rightarrow> accumulate_rows data row_stride sb row_samples (Suc row) k acc')"

definition accumulator_add ::
    "Accumulator_Impl option \<Rightarrow> sCameraFrame \<Rightarrow> (CameraStatus \<times> Accumulator_Impl option) option" where
  "accumulator_add acc f =
     (let (validation, channels, sample_bytes) = validateFrameForAccumulation f in
      if \<not> ce_ok validation then Some (Failure validation, acc)
      else case acc of
        None \<Rightarrow> None
      | Some impl \<Rightarrow>
          let d = cm_description f in
          if af_count impl \<noteq> 0
             \<and> (fd_width (af_description impl) \<noteq> fd_width d \<or> fd_height (af_description impl) \<noteq> fd_height d
                \<or> fd_pixel_format (af_description impl) \<noteq> fd_pixel_format d)
          then Some (Failure (CameraError_make CamCat_Validation Cam_InvalidArgument
                 ''A frame whose description differs from the accumulation cannot be added.''), acc)
          else
            let impl = (if af_count impl = 0
                        then impl\<lparr>af_description := d, af_channels := channels, af_sample_bytes := sample_bytes,
                               af_sum := replicate (unat (ucast (fd_width d) * ucast (fd_height d) * channels)) 0\<rparr>
                        else impl);
                row_samples = ucast (fd_width d) * channels
            in case accumulate_rows (cm_data f) (fd_row_stride d) sample_bytes row_samples 0 (unat (fd_height d))
                      (af_sum impl) of
                 None \<Rightarrow> None
               | Some totals \<Rightarrow>
                   Some (success_status,
                     Some (impl\<lparr>af_sum := totals, af_sequence := cm_sequence f, af_timestamp := cm_timestamp f,
                                af_count := af_count impl + 1\<rparr>)))"

definition accumulator_average :: "Accumulator_Impl option \<Rightarrow> sCameraFrame CameraResult option" where
  "accumulator_average acc =
     (let none = Failure (CameraError_make CamCat_Validation Cam_InvalidArgument ''No frame has been accumulated.'') in
      case acc of
        None \<Rightarrow> Some none
      | Some impl \<Rightarrow>
          if af_count impl = 0 then Some none
          else
            let divisor = (ucast (af_count impl) :: u32) in
            if divisor = 0 then None
            else
              Some (Success
                \<lparr>cm_description = (af_description impl)
                   \<lparr>fd_row_stride := ucast (fd_width (af_description impl)) * af_channels impl * af_sample_bytes impl\<rparr>,
                 cm_data = concat (map (\<lambda>s. writeSample (average_sample divisor s) (af_sample_bytes impl)) (af_sum impl)),
                 cm_sequence = af_sequence impl, cm_timestamp = af_timestamp impl\<rparr>))"

definition accumulator_reset :: "Accumulator_Impl option \<Rightarrow> Accumulator_Impl option" where
  "accumulator_reset acc = map_option (\<lambda>_. Accumulator_Impl_new) acc"

text \<open>\<open>readAveragedFrame\<close> over the results that successive reads of the camera give.\<close>

fun average_loop ::
    "sCameraFrame CameraResult list \<Rightarrow> nat \<Rightarrow> Accumulator_Impl option \<Rightarrow> sCameraFrame CameraResult outcome" where
  "average_loop reads 0 acc = of_option (accumulator_average acc)"
| "average_loop [] (Suc n) acc = Pending"
| "average_loop (Failure e # reads) (Suc n) acc = Done (Failure e)"
| "average_loop (Success f # reads) (Suc n) acc =
     (case accumulator_add acc f of
        None \<Rightarrow> Undefined
      | Some (Failure e, acc') \<Rightarrow> Done (Failure e)
      | Some (Success u, acc') \<Rightarrow> average_loop reads n acc')"

definition readAveragedFrame ::
    "sCameraFrame CameraResult list \<Rightarrow> u64 \<Rightarrow> sCameraFrame CameraResult outcome" where
  "readAveragedFrame reads count =
     (if count = 0
      then Done (Failure (CameraError_make CamCat_Validation Cam_InvalidArgument
             ''readAveragedFrame requires at least one frame.''))
      else average_loop reads (unat count) (Some Accumulator_Impl_new))"

end
