(* ===== verification/CameraFrameCorrect.thy ===== *)
theory CameraFrameCorrect
  imports CameraFrameOps
begin

text \<open>
  Correctness of the frame operations: every access stays inside the buffers of a valid frame,
  orientation loses no pixel, and the accumulator's average is the rounded mean.  The operations use
  the description's stride as it is, also when it is zero.
\<close>

section \<open>Valid frames\<close>

definition frame_row :: "sCameraFrame \<Rightarrow> nat \<Rightarrow> bytes" where
  "frame_row f r =
     take (packed_row (cm_description f)) (drop (r * stride_of (cm_description f)) (cm_data f))"

definition frame_rows :: "sCameraFrame \<Rightarrow> bytes" where
  "frame_rows f = concat (map (frame_row f) [0..<unat (fd_height (cm_description f))])"

lemma frame_valid_layout:
  assumes "frame_valid f" and "fd_pixel_format (cm_description f) \<noteq> Mjpeg"
  shows "layout_ok (cm_description f)" "layout_size (cm_description f) < 2 ^ 64"
    "layout_size (cm_description f) \<le> length (cm_data f)"
proof -
  have "0 < unat (memorySize (cm_description f))"
    using assms by (auto simp: frame_valid_def description_valid_def word_less_nat_alt split: if_splits)
  then have *: "layout_ok (cm_description f) \<and> layout_size (cm_description f) < 2 ^ 64"
    by (simp only: camera_memory_size_value split: if_splits)
  then show "layout_ok (cm_description f)" "layout_size (cm_description f) < 2 ^ 64" by auto
  show "layout_size (cm_description f) \<le> length (cm_data f)"
    using assms * by (simp add: frame_valid_def camera_memory_size_value split: if_splits)
qed

lemma frame_row_bounds:
  assumes "frame_valid f" and "fd_pixel_format (cm_description f) \<noteq> Mjpeg" and "r < unat (fd_height (cm_description f))"
  shows "r * stride_of (cm_description f) + packed_row (cm_description f) \<le> length (cm_data f)"
    and "r * stride_of (cm_description f) + packed_row (cm_description f) < 2 ^ 64"
proof -
  let ?d = "cm_description f"
  have "r * stride_of ?d + packed_row ?d \<le> r * stride_of ?d + stride_of ?d"
    using frame_valid_layout(1) [OF assms(1, 2)] by (simp add: layout_ok_def)
  also have "\<dots> \<le> unat (fd_height ?d) * stride_of ?d" by (rule row_block [OF assms(3)])
  also have "\<dots> \<le> layout_size ?d" by (simp add: layout_size_def mult.commute)
  finally have "r * stride_of ?d + packed_row ?d \<le> layout_size ?d" .
  then show "r * stride_of ?d + packed_row ?d \<le> length (cm_data f)" "r * stride_of ?d + packed_row ?d < 2 ^ 64"
    using frame_valid_layout(2, 3) [OF assms(1, 2)] by linarith+
qed

lemma raw_stride_le: "unat (fd_row_stride d) \<le> stride_of d"
  by (simp add: stride_of_def)

lemma packed_size_small:
  assumes "frame_valid f" and "fd_pixel_format (cm_description f) \<noteq> Mjpeg"
  shows "unat (fd_height (cm_description f)) * packed_row (cm_description f) < 2 ^ 64"
proof -
  let ?d = "cm_description f"
  have "unat (fd_height ?d) * packed_row ?d \<le> unat (fd_height ?d) * stride_of ?d"
    using frame_valid_layout(1) [OF assms] by (intro mult_le_mono2) (simp add: layout_ok_def)
  also have "\<dots> \<le> layout_size ?d" by (simp add: layout_size_def mult.commute)
  also have "\<dots> < 2 ^ 64" by (rule frame_valid_layout(2) [OF assms])
  finally show ?thesis .
qed

lemma channel_format: "channelCount f \<noteq> 0 \<Longrightarrow> channelCount f * bytesPerSample f = format_bytes f \<and> f \<noteq> Nv12 \<and> f \<noteq> Mjpeg"
  by (cases f) auto

lemma unat_row_product:
  "unat b \<le> 6 \<Longrightarrow> unat (ucast (w :: u32) * b :: u64) = unat w * unat b"
proof -
  assume "unat b \<le> 6"
  moreover have "unat w * 6 < 2 ^ 64" using unat_lt_size [of w] by simp
  ultimately have "unat w * unat b < 2 ^ 64" using mult_le_mono2 [of "unat b" 6 "unat w"] by linarith
  then show ?thesis using unat_mult_u64 [of "ucast w" b] by simp
qed

lemma row_bytes_exact:
  assumes "channelCount (fd_pixel_format d) \<noteq> 0"
  shows "unat (ucast (fd_width d) * channelCount (fd_pixel_format d) * bytesPerSample (fd_pixel_format d) :: u64)
    = packed_row d"
  using channel_format [OF assms] unat_row_product [OF format_bytes_small, of "fd_width d" "fd_pixel_format d"]
  by (simp add: packed_row_def mult.assoc)

lemma packRows_value:
  assumes "frame_valid f" and fmt: "fd_pixel_format (cm_description f) \<noteq> Mjpeg"
    and n: "unat n = packed_row (cm_description f)"
  shows "packRows f n = Some (concat (map (\<lambda>r. take (packed_row (cm_description f))
      (drop (r * unat (fd_row_stride (cm_description f))) (cm_data f))) [0..<unat (fd_height (cm_description f))]))"
proof -
  let ?d = "cm_description f"
  let ?h = "unat (fd_height ?d)"
  have size: "?h * packed_row ?d < 2 ^ 64" by (rule packed_size_small [OF assms(1, 2)])
  have h: "?h < 2 ^ 64" using unat_lt_size [of "fd_height ?d"] by simp
  have rows: "r * unat (fd_row_stride ?d) + unat n \<le> length (cm_data f) \<and> r * unat (fd_row_stride ?d) < 2 ^ 64"
    if "r < ?h" for r
    using frame_row_bounds [OF assms(1, 2) that] mult_le_mono2 [OF raw_stride_le, of r ?d] n by linarith
  have "unat (n * ucast (fd_height ?d)) = ?h * unat n"
    using unat_mult_u64 [of n "ucast (fd_height ?d)"] size n by (simp add: mult.commute)
  then show ?thesis
    using copy_rows_packed [of "[]" 0 n "replicate (?h * unat n) 0" ?h "fd_row_stride ?d" "cm_data f"] size h rows n
    by (simp add: packRows_def Let_def)
qed


section \<open>Packing the rows\<close>

lemma concat_replicate_rows: "concat (map (\<lambda>r. b) [0..<h]) = concat (replicate h b)"
  by (simp add: map_replicate_const)

section \<open>Orientation of frames\<close>

lemma length_frame_row:
  assumes "frame_valid f" and "fd_pixel_format (cm_description f) \<noteq> Mjpeg" and "r < unat (fd_height (cm_description f))"
  shows "length (frame_row f r) = packed_row (cm_description f)"
  using frame_row_bounds(1) [OF assms] by (simp add: frame_row_def)

lemma length_frame_rows:
  assumes "frame_valid f" and "fd_pixel_format (cm_description f) \<noteq> Mjpeg"
  shows "length (frame_rows f) = unat (fd_height (cm_description f)) * packed_row (cm_description f)"
proof -
  have "\<forall>p \<in> set (map (frame_row f) [0..<unat (fd_height (cm_description f))]). length p = packed_row (cm_description f)"
    using length_frame_row [OF assms] by auto
  from length_concat_uniform [OF this] show ?thesis by (simp add: frame_rows_def)
qed

lemma packRows_strided:
  assumes "frame_valid f" and "fd_pixel_format (cm_description f) \<noteq> Mjpeg"
    and "unat n = packed_row (cm_description f)" and "fd_row_stride (cm_description f) \<noteq> 0"
  shows "packRows f n = Some (frame_rows f)"
  using packRows_value [OF assms(1-3)] assms(4) by (simp add: frame_rows_def frame_row_def [abs_def] stride_of_def)

text \<open>Orientation permutes the pixels, so they keep their size.\<close>

lemma applyOrientation_set:
  assumes "applyOrientation px0 src o' = Inr tgt" and "wf_image src"
  shows "set (im_pixels tgt) \<subseteq> set (im_pixels src)" and "wf_image tgt"
    and "(im_width tgt, im_height tgt) = orientedExtent (im_width src) (im_height src) o'"
proof -
  have known: "known_orientation o'" and ne: "0 < im_width src" "0 < im_height src"
    using applyOrientation_known [OF assms(1)] by auto
  obtain t where "applyOrientation px0 src o' = Inr t" and wf: "wf_image t"
    and ext: "(im_width t, im_height t) = orientedExtent (im_width src) (im_height src) o'"
    and px: "\<And>x y. x < im_width src \<Longrightarrow> y < im_height src \<Longrightarrow>
          pixel t (fst (target_of o' (im_width src) (im_height src) (x, y)))
                  (snd (target_of o' (im_width src) (im_height src) (x, y))) = pixel src x y"
    by (rule applyOrientation_pixels [OF known ne]) blast
  then have t: "t = tgt" using assms(1) by simp
  show "wf_image tgt" "(im_width tgt, im_height tgt) = orientedExtent (im_width src) (im_height src) o'"
    using wf ext t by auto
  show "set (im_pixels tgt) \<subseteq> set (im_pixels src)"
  proof
    fix p assume "p \<in> set (im_pixels tgt)"
    then obtain i where i: "i < im_width t * im_height t" "p = im_pixels t ! i"
      using wf t by (auto simp: in_set_conv_nth wf_image_def)
    then have w: "0 < im_width t" by (cases "im_width t") auto
    have "i mod im_width t < im_width t" "i div im_width t < im_height t"
      using i(1) w by (simp_all add: less_mult_imp_div_less mult.commute)
    then have "i mod im_width t < fst (orientedExtent (im_width src) (im_height src) o')"
      "i div im_width t < snd (orientedExtent (im_width src) (im_height src) o')"
      using ext by (simp_all add: prod_eq_iff)
    from target_inverse [OF known this] obtain x y where xy: "x < im_width src" "y < im_height src"
      "target_of o' (im_width src) (im_height src) (x, y) = (i mod im_width t, i div im_width t)" by blast
    have "p = pixel t (i mod im_width t) (i div im_width t)" using i by (simp add: pixel_def)
    then have "p = pixel src x y" using px [OF xy(1, 2)] xy(3) by simp
    moreover have "y * im_width src + x < length (im_pixels src)"
      using assms(2) xy pixel_index_less by (simp add: wf_image_def)
    ultimately show "p \<in> set (im_pixels src)" by (simp add: pixel_def)
  qed
qed


text \<open>The frame with its rows packed.\<close>

definition packed_frame :: "sCameraFrame \<Rightarrow> sCameraFrame" where
  "packed_frame f =
     f\<lparr>cm_description := (cm_description f)\<lparr>fd_row_stride := word_of_nat (packed_row (cm_description f))\<rparr>,
       cm_data := frame_rows f\<rparr>"

text \<open>A frame as an image of whole pixels, and the frame of an image with a source's format and
  identification.\<close>

abbreviation pixel_size :: "sCameraFrame \<Rightarrow> nat" where
  "pixel_size f \<equiv> unat (format_bytes (fd_pixel_format (cm_description f)))"

definition frame_image :: "sCameraFrame \<Rightarrow> bytes Image" where
  "frame_image f = pixel_image (pixel_size f) (unat (fd_width (cm_description f)))
     (unat (fd_height (cm_description f))) (frame_rows f)"

definition image_frame :: "sCameraFrame \<Rightarrow> bytes Image \<Rightarrow> sCameraFrame" where
  "image_frame f img =
     \<lparr>cm_description =
        \<lparr>fd_width = word_of_nat (im_width img), fd_height = word_of_nat (im_height img),
         fd_pixel_format = fd_pixel_format (cm_description f),
         fd_row_stride = ucast (word_of_nat (im_width img) :: u32) * format_bytes (fd_pixel_format (cm_description f))\<rparr>,
      cm_data = concat (im_pixels img), cm_sequence = cm_sequence f, cm_timestamp = cm_timestamp f\<rparr>"

text \<open>Frames an orientation accepts, with an explicit stride.\<close>

definition orientable :: "sCameraFrame \<Rightarrow> bool" where
  "orientable f \<longleftrightarrow>
     frame_valid f \<and> channelCount (fd_pixel_format (cm_description f)) \<noteq> 0 \<and> fd_row_stride (cm_description f) \<noteq> 0"

lemma channel_format_whole:
  "channelCount f \<noteq> 0 \<Longrightarrow> f \<notin> {Uyvy422, Yuyv422, Nv12, Mjpeg} \<and> format_bytes f \<noteq> 0"
  by (cases f) auto

lemma orientable_facts:
  assumes "orientable f"
  shows "fd_pixel_format (cm_description f) \<noteq> Mjpeg"
    and "packed_row (cm_description f) = unat (fd_width (cm_description f)) * pixel_size f"
    and "length (frame_rows f) = unat (fd_width (cm_description f)) * unat (fd_height (cm_description f)) * pixel_size f"
    and "unat (fd_width (cm_description f)) * unat (fd_height (cm_description f)) * pixel_size f < 2 ^ 64"
    and "0 < unat (fd_width (cm_description f))" and "0 < unat (fd_height (cm_description f))"
proof -
  have ch: "channelCount (fd_pixel_format (cm_description f)) \<noteq> 0" and v: "frame_valid f"
    using assms by (auto simp: orientable_def)
  note whole = channel_format_whole [OF ch]
  show mj: "fd_pixel_format (cm_description f) \<noteq> Mjpeg" using whole by simp
  show row: "packed_row (cm_description f) = unat (fd_width (cm_description f)) * pixel_size f"
    using whole by (simp add: packed_row_def)
  show "length (frame_rows f) = unat (fd_width (cm_description f)) * unat (fd_height (cm_description f)) * pixel_size f"
    using length_frame_rows [OF v mj] row by (simp add: mult.assoc mult.left_commute)
  show "unat (fd_width (cm_description f)) * unat (fd_height (cm_description f)) * pixel_size f < 2 ^ 64"
    using packed_size_small [OF v mj] row by (simp add: mult.assoc mult.left_commute)
  show "0 < unat (fd_width (cm_description f))" "0 < unat (fd_height (cm_description f))"
    using frame_valid_layout(1) [OF v mj] row by (auto simp: layout_ok_def)
qed

text \<open>The orientation of a frame is the orientation of its image.\<close>

lemma frame_orientation_value:
  assumes "orientable f" and "applyOrientation (replicate (pixel_size f) 0) (frame_image f) o' = Inr img"
  shows "frame_applyOrientation f o' = Some (Inr (Success (image_frame f img)))"
proof -
  let ?d = "cm_description f"
  let ?n = "ucast (fd_width ?d) * channelCount (fd_pixel_format ?d) * bytesPerSample (fd_pixel_format ?d) :: u64"
  have v: "frame_valid f" and ch: "channelCount (fd_pixel_format ?d) \<noteq> 0" and st: "fd_row_stride ?d \<noteq> 0"
    using assms(1) by (auto simp: orientable_def)
  note fmt = channel_format [OF ch]
  have "packRows f ?n = Some (frame_rows f)"
    using packRows_strided [OF v orientable_facts(1) [OF assms(1)], of ?n] row_bytes_exact [OF ch] st by simp
  moreover have "validateFrameForOrientation f = (CameraError_none, channelCount (fd_pixel_format ?d))"
    using v ch by (simp add: validateFrameForOrientation_def validateFrameData_def Let_def)
  ultimately show ?thesis
    using assms(2) fmt
    by (simp add: frame_applyOrientation_def Let_def ce_ok_def CameraError_none_def frame_image_def
        image_frame_def buildFrame_def mult.assoc)
qed

lemma frame_image_oriented:
  assumes "orientable f" and "known_orientation o'"
  obtains img where "applyOrientation (replicate (pixel_size f) 0) (frame_image f) o' = Inr img"
    and "wf_image img" and "\<forall>p \<in> set (im_pixels img). length p = pixel_size f"
    and "(im_width img, im_height img)
       = orientedExtent (unat (fd_width (cm_description f))) (unat (fd_height (cm_description f))) o'"
proof -
  have ne: "0 < im_width (frame_image f)" "0 < im_height (frame_image f)"
    using orientable_facts(5, 6) [OF assms(1)] by (simp_all add: frame_image_def pixel_image_def)
  obtain img where img: "applyOrientation (replicate (pixel_size f) 0) (frame_image f) o' = Inr img"
    by (rule applyOrientation_pixels [OF assms(2) ne]) blast
  have wf: "wf_image (frame_image f)" by (simp add: frame_image_def wf_pixel_image)
  note pixels = concat_pixel_image(2) [OF orientable_facts(3) [OF assms(1)], folded frame_image_def]
  have "\<forall>p \<in> set (im_pixels img). length p = pixel_size f"
    using applyOrientation_set(1) [OF img wf] pixels by blast
  moreover have "im_width (frame_image f) = unat (fd_width (cm_description f))"
    "im_height (frame_image f) = unat (fd_height (cm_description f))"
    by (simp_all add: frame_image_def pixel_image_def)
  ultimately show thesis
    using that [OF img applyOrientation_set(2) [OF img wf]] applyOrientation_set(3) [OF img wf] by simp
qed

lemma frame_rows_packed:
  assumes "stride_of (cm_description g) = packed_row (cm_description g)"
    and "length (cm_data g) = unat (fd_height (cm_description g)) * packed_row (cm_description g)"
  shows "frame_rows g = cm_data g"
  using rows_of_packed [OF assms(2)] assms(1) by (simp add: frame_rows_def frame_row_def [abs_def])

lemma packed_frame_valid:
  assumes fmt: "f \<notin> {Uyvy422, Yuyv422, Nv12, Mjpeg}" and "format_bytes f \<noteq> 0"
    and "0 < w" and "0 < h" and "w < 2 ^ 32" and "h < 2 ^ 32" and "w * h * unat (format_bytes f) < 2 ^ 64"
    and "length bs = w * h * unat (format_bytes f)"
  defines "d \<equiv> \<lparr>fd_width = word_of_nat w, fd_height = word_of_nat h, fd_pixel_format = f,
      fd_row_stride = ucast (word_of_nat w :: u32) * format_bytes f\<rparr>"
  shows "frame_valid \<lparr>cm_description = d, cm_data = bs, cm_sequence = s, cm_timestamp = ts\<rparr>"
    and "unat (fd_width d) = w" and "unat (fd_height d) = h" and "stride_of d = packed_row d"
    and "packed_row d = w * unat (format_bytes f)" and "fd_row_stride d \<noteq> 0"
proof -
  show w: "unat (fd_width d) = w" and h: "unat (fd_height d) = h" using assms(5, 6) by (simp_all add: d_def unat_of_nat)
  show row: "packed_row d = w * unat (format_bytes f)" using w fmt by (simp add: packed_row_def d_def)
  have stride: "unat (fd_row_stride d) = packed_row d"
    using unat_row_product [OF format_bytes_small, of "fd_width d" f] w row by (simp add: d_def)
  have pos: "0 < packed_row d" using assms(2, 3) row by (simp add: unat_gt_0)
  then show nz: "fd_row_stride d \<noteq> 0" using stride by auto
  then show so: "stride_of d = packed_row d" using stride by (simp add: stride_of_def)
  have "layout_ok d" using pos h assms(4) so fmt by (auto simp: layout_ok_def d_def)
  moreover have size: "layout_size d = w * h * unat (format_bytes f)"
    using so row h fmt by (simp add: layout_size_def) (simp add: d_def)
  ultimately have "unat (memorySize d) = w * h * unat (format_bytes f)" "layout_ok d"
    using assms(7) by (simp_all add: camera_memory_size_value)
  moreover from this have "0 < memorySize d" using assms(2-4) by (simp add: word_less_nat_alt unat_gt_0)
  moreover have "fd_width d \<noteq> 0" "fd_height d \<noteq> 0" "f \<noteq> Unknown" using assms(2-4) w h by auto
  ultimately show "frame_valid \<lparr>cm_description = d, cm_data = bs, cm_sequence = s, cm_timestamp = ts\<rparr>"
    using assms(8) fmt by (auto simp: frame_valid_def description_valid_def d_def)
qed


lemma image_frame_orientable:
  assumes "orientable f" and "wf_image img" and "\<forall>p \<in> set (im_pixels img). length p = pixel_size f"
    and ext: "(im_width img, im_height img)
       = orientedExtent (unat (fd_width (cm_description f))) (unat (fd_height (cm_description f))) o'"
  shows "orientable (image_frame f img)" and "frame_image (image_frame f img) = img"
    and "unat (fd_width (cm_description (image_frame f img))) = im_width img"
    and "unat (fd_height (cm_description (image_frame f img))) = im_height img"
    and "pixel_size (image_frame f img) = pixel_size f"
proof -
  let ?d = "cm_description f" and ?g = "image_frame f img"
  have ch: "channelCount (fd_pixel_format ?d) \<noteq> 0" using assms(1) by (simp add: orientable_def)
  note whole = channel_format_whole [OF ch]
  have "0 < unat (fd_width ?d)" "0 < unat (fd_height ?d)" "unat (fd_width ?d) < 2 ^ 32" "unat (fd_height ?d) < 2 ^ 32"
    using orientable_facts(5, 6) [OF assms(1)] unat_lt_size [of "fd_width ?d"] unat_lt_size [of "fd_height ?d"]
    by simp_all
  then have dims: "0 < im_width img" "0 < im_height img" "im_width img < 2 ^ 32" "im_height img < 2 ^ 32"
    using ext by (auto simp: orientedExtent_def split: if_splits)
  have area: "im_width img * im_height img * pixel_size f < 2 ^ 64"
    using ext orientable_facts(4) [OF assms(1)] by (auto simp: orientedExtent_def mult.commute split: if_splits)
  have len: "length (concat (im_pixels img)) = im_width img * im_height img * pixel_size f"
    using length_concat_uniform [OF assms(3)] assms(2) by (simp add: wf_image_def)
  note g = packed_frame_valid [OF conjunct1 [OF whole] conjunct2 [OF whole] dims area len]
  show "orientable ?g" using g(1, 6) ch by (simp add: orientable_def image_frame_def)
  show w: "unat (fd_width (cm_description ?g)) = im_width img"
    and h: "unat (fd_height (cm_description ?g)) = im_height img"
    and p: "pixel_size ?g = pixel_size f"
    using g(2, 3) by (simp_all add: image_frame_def)
  have "frame_rows ?g = cm_data ?g"
    using frame_rows_packed [of ?g] g(2-5) len by (simp add: image_frame_def mult.assoc mult.left_commute)
  then show "frame_image ?g = img"
    using pixel_image_concat [OF assms(3), of "im_width img" "im_height img"] assms(2) w h p
    by (simp add: frame_image_def wf_image_def) (simp add: image_frame_def)
qed

lemma image_frame_again: "image_frame (image_frame f img) img' = image_frame f img'"
  by (simp add: image_frame_def)

lemma image_frame_packed:
  assumes "orientable f"
  shows "image_frame f (frame_image f) = packed_frame f"
proof -
  have "ucast (fd_width (cm_description f)) * format_bytes (fd_pixel_format (cm_description f))
      = (word_of_nat (packed_row (cm_description f)) :: u64)"
    using unat_row_product [OF format_bytes_small, of "fd_width (cm_description f)" "fd_pixel_format (cm_description f)"]
      orientable_facts(2) [OF assms] by (simp add: word_unat_eq_iff unat_of_nat packed_row_small)
  then show ?thesis
    using concat_pixel_image(1) [OF orientable_facts(3) [OF assms]]
    by (simp add: image_frame_def packed_frame_def frame_image_def) (simp add: pixel_image_def)
qed

section \<open>Properties\<close>

text \<open>Orienting a frame stays inside its buffers, gives a valid packed frame with the oriented
  extent, and loses nothing: orienting the result back gives the frame with its rows packed, with the
  same sequence number and timestamp.  (For frames whose row stride is explicit.)\<close>

theorem camera_orientation_roundtrip:
  assumes "orientable f" and "known_orientation o'"
  shows "\<exists>g. frame_applyOrientation f o' = Some (Inr (Success g)) \<and> frame_valid g
    \<and> (unat (fd_width (cm_description g)), unat (fd_height (cm_description g)))
        = orientedExtent (unat (fd_width (cm_description f))) (unat (fd_height (cm_description f))) o'
    \<and> frame_applyOrientation g (inverse_orientation o') = Some (Inr (Success (packed_frame f)))"
proof -
  obtain img where img: "applyOrientation (replicate (pixel_size f) 0) (frame_image f) o' = Inr img"
    and facts: "wf_image img" "\<forall>p \<in> set (im_pixels img). length p = pixel_size f"
      "(im_width img, im_height img)
         = orientedExtent (unat (fd_width (cm_description f))) (unat (fd_height (cm_description f))) o'"
    by (rule frame_image_oriented [OF assms])
  let ?g = "image_frame f img"
  note g = image_frame_orientable [OF assms(1) facts]
  have "wf_image (frame_image f)" by (simp add: frame_image_def wf_pixel_image)
  from orientation_inverse_law [OF this img]
  have "frame_applyOrientation ?g (inverse_orientation o') = Some (Inr (Success (image_frame ?g (frame_image f))))"
    using frame_orientation_value [OF g(1)] g(2, 5) by simp
  then show ?thesis
    using frame_orientation_value [OF assms(1) img] g(1, 3, 4) facts(3) image_frame_again image_frame_packed [OF assms(1)]
    by (intro exI [of _ ?g]) (simp add: orientable_def)
qed

theorem camera_orientation_roundtrip_witness:
  "\<exists>g. frame_applyOrientation
       \<lparr>cm_description = \<lparr>fd_width = 2, fd_height = 1, fd_pixel_format = Gray16, fd_row_stride = 5\<rparr>,
        cm_data = [1, 2, 3, 4, 9], cm_sequence = 7, cm_timestamp = 8\<rparr> Rotate90CW = Some (Inr (Success g))
     \<and> frame_applyOrientation g Rotate90CCW = Some (Inr (Success
         \<lparr>cm_description = \<lparr>fd_width = 2, fd_height = 1, fd_pixel_format = Gray16, fd_row_stride = 4\<rparr>,
          cm_data = [1, 2, 3, 4], cm_sequence = 7, cm_timestamp = 8\<rparr>))"
proof -
  let ?f = "\<lparr>cm_description = \<lparr>fd_width = 2, fd_height = 1, fd_pixel_format = Gray16, fd_row_stride = 5\<rparr>,
        cm_data = [1, 2, 3, 4, 9], cm_sequence = 7, cm_timestamp = 8\<rparr>"
  have "layout_ok (cm_description ?f)" "layout_size (cm_description ?f) = 5"
    by (simp_all add: layout_ok_def layout_size_def packed_row_def stride_of_def)
  then have "unat (memorySize (cm_description ?f)) = 5" by (simp add: camera_memory_size_value)
  moreover from this have "0 < memorySize (cm_description ?f)" by (simp add: word_less_nat_alt)
  ultimately have "orientable ?f" by (simp add: orientable_def frame_valid_def description_valid_def)
  from camera_orientation_roundtrip [OF this, of Rotate90CW] show ?thesis
    by (auto simp: known_orientation_def packed_frame_def packed_row_def frame_rows_def frame_row_def)
qed


text \<open>Packing reads and writes inside its buffers for every valid frame with whole pixels, and no
  offset wraps.  It gives the rows of the frame when the stride is explicit; when the description
  leaves the stride zero, which means packed rows, it gives the first row over and over.\<close>

theorem camera_pack_rows_exact:
  fixes f :: sCameraFrame
  defines "d \<equiv> cm_description f"
  assumes "frame_valid f" and "channelCount (fd_pixel_format d) \<noteq> 0"
  shows "packRows f (ucast (fd_width d) * channelCount (fd_pixel_format d) * bytesPerSample (fd_pixel_format d))
    = Some (if fd_row_stride d = 0 then concat (replicate (unat (fd_height d)) (frame_row f 0)) else frame_rows f)"
proof -
  have mj: "fd_pixel_format (cm_description f) \<noteq> Mjpeg" using channel_format_whole [OF assms(3)] by (simp add: d_def)
  note n = row_bytes_exact [OF assms(3)]
  show ?thesis
  proof (cases "fd_row_stride d = 0")
    case True
    then show ?thesis
      using packRows_value [OF assms(2) mj, of "ucast (fd_width d) * channelCount (fd_pixel_format d) * bytesPerSample (fd_pixel_format d)"] n
      by (simp add: d_def concat_replicate_rows frame_row_def)
  next
    case False
    then show ?thesis using packRows_strided [OF assms(2) mj] n by (simp add: d_def)
  qed
qed

theorem camera_pack_rows_exact_witness:
  "packRows \<lparr>cm_description = \<lparr>fd_width = 1, fd_height = 2, fd_pixel_format = Gray8, fd_row_stride = 0\<rparr>,
             cm_data = [1, 2], cm_sequence = 0, cm_timestamp = 0\<rparr> 1 = Some [1, 1]
   \<and> frame_rows \<lparr>cm_description = \<lparr>fd_width = 1, fd_height = 2, fd_pixel_format = Gray8, fd_row_stride = 0\<rparr>,
             cm_data = [1, 2], cm_sequence = 0, cm_timestamp = 0\<rparr> = [1, 2]"
proof -
  let ?f = "\<lparr>cm_description = \<lparr>fd_width = 1, fd_height = 2, fd_pixel_format = Gray8, fd_row_stride = 0\<rparr>,
             cm_data = [1, 2], cm_sequence = 0, cm_timestamp = 0\<rparr>"
  have "layout_ok (cm_description ?f)" "layout_size (cm_description ?f) = 2"
    by (simp_all add: layout_ok_def layout_size_def packed_row_def stride_of_def)
  then have "unat (memorySize (cm_description ?f)) = 2" by (simp add: camera_memory_size_value)
  moreover from this have "0 < memorySize (cm_description ?f)" by (simp add: word_less_nat_alt)
  ultimately have "frame_valid ?f" by (simp add: frame_valid_def description_valid_def)
  moreover have "[0..<2] = [0, 1 :: nat]" by (simp add: upt_rec)
  moreover have "replicate 2 (x :: bytes) = [x, x]" for x by (simp add: numeral_2_eq_2)
  ultimately show ?thesis
    using camera_pack_rows_exact [of ?f] by (simp add: frame_row_def frame_rows_def packed_row_def stride_of_def)
qed

end
