(* ===== verification/CameraAverage.thy ===== *)
theory CameraAverage
  imports CameraFrameCorrect
begin

text \<open>
  Correctness of the frame accumulator: it stays inside its buffers, a refused frame changes nothing,
  and the average of up to 65536 frames is the rounded mean of every sample.
\<close>

section \<open>Samples\<close>

text \<open>The little-endian sample of \<open>sb\<close> bytes at an offset, and the samples of a frame in order.\<close>

definition sample_at :: "bytes \<Rightarrow> nat \<Rightarrow> nat \<Rightarrow> nat" where
  "sample_at buf off sb = le_value (take sb (drop off buf))"

lemma or_bytes: "or (ucast (lo :: u8)) (push_bit 8 (ucast (hi :: u8))) = (word_of_nat (unat lo + 256 * unat hi) :: u32)"
proof -
  have lo: "unat lo < 2 ^ 8" and hi: "unat hi < 2 ^ 8" using unat_lt_size [of lo] unat_lt_size [of hi] by simp_all
  have disj: "and (ucast lo :: u32) (push_bit 8 (ucast hi)) = 0"
    by (rule bit_word_eqI) (auto simp: bit_simps dest: bit_imp_le_length)
  have "or (ucast lo) (push_bit 8 (ucast hi)) = (ucast lo :: u32) + push_bit 8 (ucast hi)"
    using disjunctive_add_eq_or [OF disj] by simp
  also have "\<dots> = word_of_nat (unat lo) + word_of_nat (unat hi) * 256"
    by (simp add: push_bit_eq_mult)
  finally show ?thesis by (simp add: mult.commute)
qed


lemma readSample_value:
  assumes "sb = 1 \<or> sb = 2" and "off + unat sb \<le> length buf"
  shows "readSample buf off sb = Some (word_of_nat (sample_at buf off (unat sb)))"
    and "sample_at buf off (unat sb) < 65536"
proof -
  have drop: "drop off buf = buf ! off # drop (Suc off) buf" using assms by (intro Cons_nth_drop_Suc [symmetric]) auto
  have drop2: "sb = 2 \<Longrightarrow> drop (Suc off) buf = buf ! Suc off # drop (Suc (Suc off)) buf"
    using assms(2) by (intro Cons_nth_drop_Suc [symmetric]) simp
  have byte: "unat (b :: u8) < 256" for b using unat_lt_size [of b] by simp
  show "readSample buf off sb = Some (word_of_nat (sample_at buf off (unat sb)))"
    using assms(1)
  proof
    assume "sb = 1"
    then show ?thesis using assms(2) drop by (simp add: readSample_def sample_at_def vec_at_def word_unat_eq_iff unat_ucast unat_of_nat)
  next
    assume sb: "sb = 2"
    then have len: "Suc off < length buf" using assms(2) by simp
    have "take 2 (drop off buf) = [buf ! off, buf ! Suc off]"
      using drop drop2 [OF sb] by (simp add: numeral_2_eq_2)
    then show ?thesis using sb len by (simp add: readSample_def sample_at_def vec_at_def or_bytes)
  qed
  show "sample_at buf off (unat sb) < 65536"
    using assms(1)
  proof
    assume "sb = 1"
    then show ?thesis using drop byte [of "buf ! off"] by (simp add: sample_at_def)
  next
    assume sb: "sb = 2"
    have "take 2 (drop off buf) = [buf ! off, buf ! Suc off]"
      using drop drop2 [OF sb] by (simp add: numeral_2_eq_2)
    then show ?thesis using sb byte [of "buf ! off"] byte [of "buf ! Suc off"] by (simp add: sample_at_def)
  qed
qed

lemma accumulate_row_value:
  assumes "sb = 1 \<or> sb = 2" and "s + (i + k) * unat sb \<le> length buf" and "t + (i + k) \<le> length totals"
  shows "\<exists>totals'. accumulate_row buf s sb t i k totals = Some totals' \<and> length totals' = length totals
    \<and> (\<forall>j < length totals. totals' ! j =
          (if t + i \<le> j \<and> j < t + i + k
           then totals ! j + word_of_nat (sample_at buf (s + (j - t) * unat sb) (unat sb)) else totals ! j))"
  using assms
proof (induction k arbitrary: i totals)
  case 0
  then show ?case by auto
next
  case (Suc k)
  have "s + i * unat sb + unat sb \<le> s + (i + Suc k) * unat sb" by simp
  then have "s + i * unat sb + unat sb \<le> length buf" using Suc.prems(2) by linarith
  note read = readSample_value(1) [OF Suc.prems(1) this]
  let ?totals = "totals[t + i := totals ! (t + i) + word_of_nat (sample_at buf (s + i * unat sb) (unat sb))]"
  have "\<exists>totals'. accumulate_row buf s sb t (Suc i) k ?totals = Some totals' \<and> length totals' = length ?totals
    \<and> (\<forall>j < length ?totals. totals' ! j =
          (if t + Suc i \<le> j \<and> j < t + Suc i + k
           then ?totals ! j + word_of_nat (sample_at buf (s + (j - t) * unat sb) (unat sb)) else ?totals ! j))"
    using Suc.IH [of "Suc i" ?totals] Suc.prems by simp
  then obtain totals' where *: "accumulate_row buf s sb t (Suc i) k ?totals = Some totals'"
    "length totals' = length totals"
    "\<And>j. j < length totals \<Longrightarrow> totals' ! j =
          (if t + Suc i \<le> j \<and> j < t + Suc i + k
           then ?totals ! j + word_of_nat (sample_at buf (s + (j - t) * unat sb) (unat sb)) else ?totals ! j)"
    by auto
  have "totals' ! j = (if t + i \<le> j \<and> j < t + i + Suc k
           then totals ! j + word_of_nat (sample_at buf (s + (j - t) * unat sb) (unat sb)) else totals ! j)"
    if "j < length totals" for j
    using *(3) [OF that] that by (cases "j = t + i") (auto simp: nth_update_at)
  then show ?case using *(1, 2) read Suc.prems(3) by (intro exI [of _ totals']) (simp add: vec_at_def)
qed


section \<open>The samples of a frame\<close>

definition accumulable :: "sCameraFrame \<Rightarrow> bool" where
  "accumulable f \<longleftrightarrow> frame_valid f \<and> isFrameAveragingSupported (fd_pixel_format (cm_description f))"

text \<open>An accumulable frame whose stride is explicit.\<close>

definition averageable :: "sCameraFrame \<Rightarrow> bool" where
  "averageable f \<longleftrightarrow>
     frame_valid f \<and> isFrameAveragingSupported (fd_pixel_format (cm_description f))
     \<and> fd_row_stride (cm_description f) \<noteq> 0"

definition row_samples :: "sCameraFrameDescription \<Rightarrow> nat" where
  "row_samples d = unat (fd_width d) * unat (accumulationChannels (fd_pixel_format d))"

definition frame_sample :: "sCameraFrame \<Rightarrow> nat \<Rightarrow> nat \<Rightarrow> nat" where
  "frame_sample f r i =
     (let d = cm_description f; sb = unat (accumulationSampleBytes (fd_pixel_format d))
      in sample_at (cm_data f) (r * stride_of d + i * sb) sb)"

lemma averaging_format:
  "isFrameAveragingSupported f \<Longrightarrow>
     accumulationChannels f * accumulationSampleBytes f = format_bytes f
     \<and> unat (accumulationChannels f) * unat (accumulationSampleBytes f) = unat (format_bytes f)
     \<and> unat (accumulationChannels f) \<le> 4
     \<and> (accumulationSampleBytes f = 1 \<or> accumulationSampleBytes f = 2)
     \<and> accumulationChannels f \<noteq> 0 \<and> f \<notin> {Uyvy422, Yuyv422, Nv12, Mjpeg} \<and> format_bytes f \<noteq> 0"
  by (cases f)
     (auto simp: isFrameAveragingSupported_def accumulationChannels_def accumulationSampleBytes_def isBayerFormat_def)

lemma accumulable_facts:
  fixes f :: sCameraFrame
  defines "d \<equiv> cm_description f"
  assumes "accumulable f"
  shows "fd_pixel_format d \<noteq> Mjpeg" and "packed_row d = row_samples d * unat (accumulationSampleBytes (fd_pixel_format d))"
    and "unat (ucast (fd_width d) * accumulationChannels (fd_pixel_format d) :: u64) = row_samples d"
    and "unat (fd_height d) * row_samples d < 2 ^ 64"
    and "unat (ucast (fd_width d) * ucast (fd_height d) * accumulationChannels (fd_pixel_format d) :: u64)
           = unat (fd_height d) * row_samples d"
    and "accumulationSampleBytes (fd_pixel_format d) = 1 \<or> accumulationSampleBytes (fd_pixel_format d) = 2"
    and "0 < row_samples d" and "0 < unat (fd_height d)"
proof -
  have v: "frame_valid f" and fmt: "isFrameAveragingSupported (fd_pixel_format d)"
    using assms(2) by (auto simp: accumulable_def d_def)
  note af = averaging_format [OF fmt]
  show mj: "fd_pixel_format d \<noteq> Mjpeg" using af by auto
  show row: "packed_row d = row_samples d * unat (accumulationSampleBytes (fd_pixel_format d))"
    using af by (simp add: packed_row_def row_samples_def mult.assoc)
  show rs: "unat (ucast (fd_width d) * accumulationChannels (fd_pixel_format d) :: u64) = row_samples d"
    using unat_row_product [of "accumulationChannels (fd_pixel_format d)" "fd_width d"] af by (simp add: row_samples_def)
  show sb: "accumulationSampleBytes (fd_pixel_format d) = 1 \<or> accumulationSampleBytes (fd_pixel_format d) = 2"
    using af by blast
  have "1 \<le> unat (accumulationSampleBytes (fd_pixel_format d))" using sb by auto
  then have "unat (fd_height d) * row_samples d \<le> unat (fd_height d) * packed_row d"
    unfolding row by (intro mult_le_mono2) simp
  then show small: "unat (fd_height d) * row_samples d < 2 ^ 64"
    using packed_size_small [OF v mj [unfolded d_def]] unfolding d_def by (rule le_less_trans)
  have comm: "ucast (fd_width d) * ucast (fd_height d) * accumulationChannels (fd_pixel_format d)
      = ucast (fd_height d) * (ucast (fd_width d) * accumulationChannels (fd_pixel_format d) :: u64)"
    by (simp only: ac_simps)
  show "unat (ucast (fd_width d) * ucast (fd_height d) * accumulationChannels (fd_pixel_format d) :: u64)
      = unat (fd_height d) * row_samples d"
    unfolding comm
    using unat_mult_u64 [of "ucast (fd_height d)" "ucast (fd_width d) * accumulationChannels (fd_pixel_format d)"] rs small
    by simp
  have "layout_ok d" using frame_valid_layout(1) [OF v] mj by (simp add: d_def)
  then show "0 < row_samples d" "0 < unat (fd_height d)" using row by (auto simp: layout_ok_def)
qed

lemma averageable_facts:
  fixes f :: sCameraFrame
  defines "d \<equiv> cm_description f"
  assumes "averageable f"
  shows "fd_pixel_format d \<noteq> Mjpeg" and "unat (fd_row_stride d) = stride_of d"
    and "packed_row d = row_samples d * unat (accumulationSampleBytes (fd_pixel_format d))"
    and "unat (ucast (fd_width d) * accumulationChannels (fd_pixel_format d) :: u64) = row_samples d"
    and "unat (fd_height d) * row_samples d < 2 ^ 64"
    and "unat (ucast (fd_width d) * ucast (fd_height d) * accumulationChannels (fd_pixel_format d) :: u64)
           = unat (fd_height d) * row_samples d"
    and "accumulationSampleBytes (fd_pixel_format d) = 1 \<or> accumulationSampleBytes (fd_pixel_format d) = 2"
    and "0 < row_samples d" and "0 < unat (fd_height d)"
proof -
  have "accumulable f" and st: "fd_row_stride d \<noteq> 0"
    using assms(2) by (auto simp: averageable_def accumulable_def d_def)
  note facts = accumulable_facts [OF this(1), folded d_def]
  show "fd_pixel_format d \<noteq> Mjpeg"
    "packed_row d = row_samples d * unat (accumulationSampleBytes (fd_pixel_format d))"
    "unat (ucast (fd_width d) * accumulationChannels (fd_pixel_format d) :: u64) = row_samples d"
    "unat (fd_height d) * row_samples d < 2 ^ 64"
    "unat (ucast (fd_width d) * ucast (fd_height d) * accumulationChannels (fd_pixel_format d) :: u64)
       = unat (fd_height d) * row_samples d"
    "accumulationSampleBytes (fd_pixel_format d) = 1 \<or> accumulationSampleBytes (fd_pixel_format d) = 2"
    "0 < row_samples d" "0 < unat (fd_height d)" by (fact facts)+
  show "unat (fd_row_stride d) = stride_of d" using st by (simp add: stride_of_def)
qed

lemma frame_sample_bounds:
  assumes "averageable f" and "r < unat (fd_height (cm_description f))" and "i < row_samples (cm_description f)"
  shows "frame_sample f r i < 65536"
proof -
  let ?d = "cm_description f"
  let ?sb = "unat (accumulationSampleBytes (fd_pixel_format ?d))"
  note facts = averageable_facts [OF assms(1)]
  have v: "frame_valid f" using assms(1) by (simp add: averageable_def)
  have "Suc i * ?sb \<le> row_samples ?d * ?sb" using assms(3) by (intro mult_le_mono1) simp
  then have "r * stride_of ?d + i * ?sb + ?sb \<le> length (cm_data f)"
    using frame_row_bounds(1) [OF v facts(1) assms(2)] facts(3) by simp
  then show ?thesis using readSample_value(2) [OF facts(7)] by (simp add: frame_sample_def Let_def)
qed


lemma accumulate_rows_value:
  assumes "sb = 1 \<or> sb = 2" and "0 < unat rs" and "(row + k) * unat rs < 2 ^ 64" and "row + k < 2 ^ 64"
    and "(row + k) * unat rs \<le> length totals"
    and "\<And>r. r < row + k \<Longrightarrow> r * unat stride + unat rs * unat sb \<le> length buf \<and> r * unat stride < 2 ^ 64"
  shows "\<exists>totals'. accumulate_rows buf stride sb rs row k totals = Some totals' \<and> length totals' = length totals
    \<and> (\<forall>j < length totals. totals' ! j =
          (if row * unat rs \<le> j \<and> j < (row + k) * unat rs
           then totals ! j
             + word_of_nat (sample_at buf (j div unat rs * unat stride + j mod unat rs * unat sb) (unat sb))
           else totals ! j))"
  using assms(3-)
proof (induction k arbitrary: row totals)
  case 0
  then show ?case by auto
next
  case (Suc k)
  let ?R = "unat rs"
  have "row * ?R \<le> (row + Suc k) * ?R" by (intro mult_le_mono1) simp
  then have offs: "unat (word_of_nat row * stride :: u64) = row * unat stride" "unat (word_of_nat row * rs :: u64) = row * ?R"
    using Suc.prems(1, 2) Suc.prems(4) [of row] by (simp_all add: unat_row_offset)
  have step: "row * ?R + ?R \<le> (row + Suc k) * ?R" by simp
  obtain totals1 where one: "accumulate_row buf (row * unat stride) sb (row * ?R) 0 ?R totals = Some totals1"
    "length totals1 = length totals"
    and at1: "\<And>j. j < length totals \<Longrightarrow> totals1 ! j =
        (if row * ?R \<le> j \<and> j < row * ?R + ?R
         then totals ! j + word_of_nat (sample_at buf (row * unat stride + (j - row * ?R) * unat sb) (unat sb))
         else totals ! j)"
    using accumulate_row_value [OF assms(1), of "row * unat stride" 0 ?R buf "row * ?R" totals]
      Suc.prems(3) Suc.prems(4) [of row] step by auto
  have shift: "Suc row + k = row + Suc k" by simp
  obtain totals2 where two: "accumulate_rows buf stride sb rs (Suc row) k totals1 = Some totals2"
    "length totals2 = length totals"
    and at2: "\<And>j. j < length totals \<Longrightarrow> totals2 ! j =
        (if Suc row * ?R \<le> j \<and> j < (row + Suc k) * ?R
         then totals1 ! j + word_of_nat (sample_at buf (j div ?R * unat stride + j mod ?R * unat sb) (unat sb))
         else totals1 ! j)"
    using Suc.IH [of "Suc row" totals1, unfolded shift] Suc.prems one(2) by auto
  have "totals2 ! j = (if row * ?R \<le> j \<and> j < (row + Suc k) * ?R
        then totals ! j + word_of_nat (sample_at buf (j div ?R * unat stride + j mod ?R * unat sb) (unat sb))
        else totals ! j)" if j: "j < length totals" for j
  proof (cases "row * ?R \<le> j \<and> j < row * ?R + ?R")
    case True
    then have x: "j - row * ?R < ?R" "j = row * ?R + (j - row * ?R)" by auto
    then have "j div ?R = row" "j mod ?R = j - row * ?R" using index_div_mod [OF x(1), of row] by simp_all
    moreover have "j < (row + Suc k) * ?R" using True step by linarith
    moreover have "\<not> Suc row * ?R \<le> j" using True by simp
    ultimately show ?thesis using at1 [OF j] at2 [OF j] True by (simp del: mult_Suc_right mult_Suc add_mult_distrib)
  next
    case False
    then show ?thesis using at1 [OF j] at2 [OF j] step by auto
  qed
  then show ?case using one two offs by simp
qed

definition frame_samples :: "sCameraFrame \<Rightarrow> u32 list" where
  "frame_samples f =
     (let R = row_samples (cm_description f)
      in map (\<lambda>j. word_of_nat (frame_sample f (j div R) (j mod R))) [0..<unat (fd_height (cm_description f)) * R])"

lemma length_frame_samples:
  "length (frame_samples f) = unat (fd_height (cm_description f)) * row_samples (cm_description f)"
  by (simp add: frame_samples_def Let_def)

lemma accumulate_frame:
  assumes "averageable f" and "length totals = unat (fd_height (cm_description f)) * row_samples (cm_description f)"
  defines "d \<equiv> cm_description f"
  shows "accumulate_rows (cm_data f) (fd_row_stride d) (accumulationSampleBytes (fd_pixel_format d))
      (ucast (fd_width d) * accumulationChannels (fd_pixel_format d)) 0 (unat (fd_height d)) totals
    = Some (add_samples totals (frame_samples f))"
proof -
  note facts = averageable_facts [OF assms(1), folded d_def]
  have v: "frame_valid f" using assms(1) by (simp add: averageable_def)
  let ?R = "row_samples d" and ?h = "unat (fd_height d)"
  have h: "?h < 2 ^ 64" using unat_lt_size [of "fd_height d"] by simp
  have rows: "r * unat (fd_row_stride d) + ?R * unat (accumulationSampleBytes (fd_pixel_format d)) \<le> length (cm_data f)
      \<and> r * unat (fd_row_stride d) < 2 ^ 64" if "r < ?h" for r
    using frame_row_bounds [OF v facts(1) [unfolded d_def], of r] that facts(2, 3) by (simp add: d_def)
  obtain totals' where run: "accumulate_rows (cm_data f) (fd_row_stride d) (accumulationSampleBytes (fd_pixel_format d))
      (ucast (fd_width d) * accumulationChannels (fd_pixel_format d)) 0 ?h totals = Some totals'"
    "length totals' = length totals"
    and at: "\<And>j. j < length totals \<Longrightarrow> totals' ! j = totals ! j
      + word_of_nat (sample_at (cm_data f) (j div ?R * unat (fd_row_stride d)
          + j mod ?R * unat (accumulationSampleBytes (fd_pixel_format d))) (unat (accumulationSampleBytes (fd_pixel_format d))))"
    using accumulate_rows_value [OF facts(7), of "ucast (fd_width d) * accumulationChannels (fd_pixel_format d)" 0 ?h totals
        "fd_row_stride d" "cm_data f"] facts(4, 5, 8) h rows assms(2)
    by (auto simp: d_def)
  have "totals' = add_samples totals (frame_samples f)"
  proof (rule nth_equalityI)
    show "length totals' = length (add_samples totals (frame_samples f))"
      using run(2) assms(2) by (simp add: length_frame_samples)
    fix j assume "j < length totals'"
    then have j: "j < length totals" using run(2) by simp
    then have "frame_samples f ! j = word_of_nat (frame_sample f (j div ?R) (j mod ?R))"
      using assms(2) by (simp add: frame_samples_def Let_def d_def)
    then show "totals' ! j = add_samples totals (frame_samples f) ! j"
      using at [OF j] j assms(2) facts(2)
      by (simp add: add_samples_nth length_frame_samples frame_sample_def Let_def d_def)
  qed
  with run show ?thesis by simp
qed


section \<open>The accumulated state\<close>

lemma frame_sample_small:
  "frame_sample f r i < 256 ^ unat (accumulationSampleBytes (fd_pixel_format (cm_description f)))"
proof -
  have "sample_at buf off n < 256 ^ n" for buf off n
  proof -
    have "(256 :: nat) ^ length (take n (drop off buf)) \<le> 256 ^ n" by (rule power_increasing) simp_all
    with le_value_bound [of "take n (drop off buf)"] show ?thesis unfolding sample_at_def by (rule less_le_trans)
  qed
  then show ?thesis by (simp add: frame_sample_def Let_def)
qed

definition same_shape :: "sCameraFrame \<Rightarrow> sCameraFrame \<Rightarrow> bool" where
  "same_shape f g \<longleftrightarrow>
     fd_width (cm_description f) = fd_width (cm_description g)
     \<and> fd_height (cm_description f) = fd_height (cm_description g)
     \<and> fd_pixel_format (cm_description f) = fd_pixel_format (cm_description g)"

lemma same_shape_sizes:
  "same_shape f g \<Longrightarrow> row_samples (cm_description f) = row_samples (cm_description g)
     \<and> length (frame_samples f) = length (frame_samples g)"
  by (simp add: same_shape_def row_samples_def length_frame_samples)

text \<open>What the accumulator holds after the frames of a list.\<close>

definition accumulated :: "sCameraFrame list \<Rightarrow> Accumulator_Impl" where
  "accumulated fs =
     (if fs = [] then Accumulator_Impl_new
      else let d = cm_description (hd fs) in
        \<lparr>af_description = d, af_channels = accumulationChannels (fd_pixel_format d),
         af_sample_bytes = accumulationSampleBytes (fd_pixel_format d), af_count = word_of_nat (length fs),
         af_sum = foldl add_samples (replicate (length (frame_samples (hd fs))) 0) (map frame_samples fs),
         af_sequence = cm_sequence (last fs), af_timestamp = cm_timestamp (last fs)\<rparr>)"

lemma accumulation_validation:
  assumes "averageable f"
  shows "validateFrameForAccumulation f = (CameraError_none,
      accumulationChannels (fd_pixel_format (cm_description f)), accumulationSampleBytes (fd_pixel_format (cm_description f)))"
  using assms averaging_format [of "fd_pixel_format (cm_description f)"]
  by (auto simp: averageable_def validateFrameForAccumulation_def validateFrameData_def Let_def)

lemma accumulated_count:
  assumes "length fs < 2 ^ 64"
  shows "unat (af_count (accumulated fs)) = length fs" and "af_count (accumulated fs) = 0 \<longleftrightarrow> fs = []"
proof -
  show *: "unat (af_count (accumulated fs)) = length fs"
    using assms by (simp add: accumulated_def Accumulator_Impl_new_def Let_def unat_of_nat)
  then show "af_count (accumulated fs) = 0 \<longleftrightarrow> fs = []" by (metis length_0_conv unat_eq_0)
qed

lemma accumulated_sum_length:
  assumes "fs \<noteq> []" and "\<forall>g \<in> set fs. same_shape (hd fs) g"
  shows "length (af_sum (accumulated fs)) = length (frame_samples (hd fs))"
proof -
  let ?z = "replicate (length (frame_samples (hd fs))) 0"
  have "length (frame_samples g) = length (frame_samples (hd fs))" if "g \<in> set fs" for g
    using same_shape_sizes [of "hd fs" g] assms(2) that by simp
  then have "\<forall>s \<in> set (map frame_samples fs). length s = length ?z" by simp
  from foldl_add_samples [OF this] show ?thesis using assms(1) by (simp add: accumulated_def Let_def)
qed

lemma accumulator_add_value:
  assumes "averageable f" and "\<forall>g \<in> set fs. same_shape (hd fs) g" and "fs \<noteq> [] \<Longrightarrow> same_shape (hd fs) f"
    and "length fs < 2 ^ 64"
  shows "accumulator_add (Some (accumulated fs)) f = Some (success_status, Some (accumulated (fs @ [f])))"
proof -
  note facts = averageable_facts [OF assms(1)]
  note count = accumulated_count [OF assms(4)]
  note valid = accumulation_validation [OF assms(1)]
  show ?thesis
  proof (cases "fs = []")
    case True
    let ?z = "replicate (unat (fd_height (cm_description f)) * row_samples (cm_description f)) (0 :: u32)"
    show ?thesis
      using accumulate_frame [OF assms(1), of ?z] valid count(2) True facts(6)
      by (simp add: accumulator_add_def accumulated_def Accumulator_Impl_new_def Let_def length_frame_samples camera_error.ok_none)
  next
    case False
    have len: "length (af_sum (accumulated fs)) = unat (fd_height (cm_description f)) * row_samples (cm_description f)"
      using accumulated_sum_length [OF False assms(2)] same_shape_sizes [OF assms(3) [OF False]]
        length_frame_samples [of f] by simp
    have "af_description (accumulated fs) = cm_description (hd fs)" using False by (simp add: accumulated_def Let_def)
    then show ?thesis
      using accumulate_frame [OF assms(1) len] valid count(2) False assms(3) [OF False]
      by (simp add: accumulator_add_def Let_def same_shape_def camera_error.ok_none)
         (simp add: accumulated_def Let_def add.commute)
  qed
qed


section \<open>The average\<close>

lemma average_loop_frames:
  assumes "\<forall>f \<in> set (gs @ fs). averageable f \<and> same_shape (hd (gs @ fs)) f" and "length (gs @ fs) < 2 ^ 64"
  shows "average_loop (map Success fs @ rest) (length fs) (Some (accumulated gs))
    = of_option (accumulator_average (Some (accumulated (gs @ fs))))"
  using assms
proof (induction fs arbitrary: gs)
  case Nil
  then show ?case by simp
next
  case (Cons f fs)
  have "hd (gs @ f # fs) = hd gs" if "gs \<noteq> []" using that by simp
  then have "accumulator_add (Some (accumulated gs)) f = Some (success_status, Some (accumulated (gs @ [f])))"
    using Cons.prems by (intro accumulator_add_value) (cases gs; auto)+
  then show ?case using Cons.IH [of "gs @ [f]"] Cons.prems by simp
qed

lemma writeSample_bytes:
  assumes "sb = 1 \<or> sb = 2" and "unat v < 256 ^ unat sb"
  shows "length (writeSample v sb) = unat sb" and "le_value (writeSample v sb) = unat v"
proof -
  show "length (writeSample v sb) = unat sb" using assms(1) by (auto simp: writeSample_def)
  have "unat v mod 256 + 256 * (unat v div 256 mod 256) = unat v mod 65536"
    using mod_mult2_eq [of "unat v" 256 256] by simp
  then show "le_value (writeSample v sb) = unat v"
    using assms by (auto simp: writeSample_def unat_ucast unat_drop_bit_eq drop_bit_eq_div unat_div)
qed

definition sample_total :: "sCameraFrame list \<Rightarrow> nat \<Rightarrow> nat \<Rightarrow> nat" where
  "sample_total fs r i = sum_list (map (\<lambda>f. frame_sample f r i) fs)"

lemma sample_total_bound:
  assumes "\<forall>f \<in> set fs. frame_sample f r i \<le> m"
  shows "sample_total fs r i \<le> length fs * m"
  using assms by (induction fs) (auto simp: sample_total_def)

lemma frames_column_total:
  assumes "\<forall>f \<in> set fs. averageable f \<and> row_samples (cm_description f) = R \<and> unat (fd_height (cm_description f)) = h"
    and "r < h" and "i < R"
  shows "column_total (map frame_samples fs) (r * R + i) = sample_total fs r i"
proof -
  have "unat (frame_samples f ! (r * R + i)) = frame_sample f r i" if "f \<in> set fs" for f
  proof -
    have f: "averageable f" "row_samples (cm_description f) = R" "unat (fd_height (cm_description f)) = h"
      using assms(1) that by auto
    have "r * R + i < h * R" using channel_block [OF assms(2), of R] assms(3) by linarith
    then have "frame_samples f ! (r * R + i) = word_of_nat (frame_sample f r i)"
      using f index_div_mod [OF assms(3), of r] by (simp add: frame_samples_def Let_def)
    then show ?thesis using frame_sample_bounds [OF f(1), of r i] f assms(2, 3) by (simp add: unat_of_nat)
  qed
  then show ?thesis by (simp add: column_total_def sample_total_def o_def cong: map_cong)
qed

text \<open>The frame the average gives.\<close>

definition averaged_frame :: "sCameraFrame list \<Rightarrow> sCameraFrame" where
  "averaged_frame fs =
     (let d = cm_description (hd fs); sb = accumulationSampleBytes (fd_pixel_format d) in
      \<lparr>cm_description = d\<lparr>fd_row_stride := ucast (fd_width d) * format_bytes (fd_pixel_format d)\<rparr>,
       cm_data = concat (map (\<lambda>s. writeSample (average_sample (word_of_nat (length fs)) s) sb)
          (af_sum (accumulated fs))),
       cm_sequence = cm_sequence (last fs), cm_timestamp = cm_timestamp (last fs)\<rparr>)"

lemma accumulated_average:
  assumes "fs \<noteq> []" and "length fs \<le> 65536" and "averageable (hd fs)"
  shows "accumulator_average (Some (accumulated fs)) = Some (Success (averaged_frame fs))"
proof -
  have n: "unat (word_of_nat (length fs) :: u64) = length fs" using assms(2) by (simp add: unat_of_nat)
  then have c: "af_count (accumulated fs) = word_of_nat (length fs)" "af_count (accumulated fs) \<noteq> 0"
    using accumulated_count [of fs] assms(1, 2) by (simp_all add: accumulated_def Let_def)
  have d: "(ucast (word_of_nat (length fs) :: u64) :: u32) = word_of_nat (length fs)"
    using assms(2) n by (simp add: word_unat_eq_iff unat_of_nat unat_ucast)
  have "unat (word_of_nat (length fs) :: u32) = length fs" using assms(2) by (simp add: unat_of_nat)
  then have "(word_of_nat (length fs) :: u32) \<noteq> 0" using assms(1) by (metis length_0_conv unat_0)
  moreover have "accumulationChannels (fd_pixel_format (cm_description (hd fs)))
      * accumulationSampleBytes (fd_pixel_format (cm_description (hd fs))) = format_bytes (fd_pixel_format (cm_description (hd fs)))"
    using averaging_format assms(3) by (auto simp: averageable_def)
  ultimately show ?thesis
    using assms(1) c d
    by (simp add: accumulator_average_def averaged_frame_def Let_def mult.assoc) (simp add: accumulated_def Let_def)
qed


lemma averaged_samples:
  assumes "fs \<noteq> []" and "length fs \<le> 65536" and av: "\<forall>f \<in> set fs. averageable f \<and> same_shape (hd fs) f"
  defines "d \<equiv> cm_description (hd fs)"
  shows "length (af_sum (accumulated fs)) = unat (fd_height d) * row_samples d"
    and "r < unat (fd_height d) \<Longrightarrow> i < row_samples d \<Longrightarrow>
      unat (average_sample (word_of_nat (length fs)) (af_sum (accumulated fs) ! (r * row_samples d + i)))
        = rounded_mean (length fs) (sample_total fs r i)"
    and "s \<in> set (af_sum (accumulated fs)) \<Longrightarrow>
      unat (average_sample (word_of_nat (length fs)) s) < 256 ^ unat (accumulationSampleBytes (fd_pixel_format d))"
proof -
  let ?R = "row_samples d" and ?h = "unat (fd_height d)" and ?sb = "unat (accumulationSampleBytes (fd_pixel_format d))"
  have hd: "averageable (hd fs)" using av assms(1) by simp
  have facts: "averageable f \<and> row_samples (cm_description f) = ?R \<and> unat (fd_height (cm_description f)) = ?h
      \<and> fd_pixel_format (cm_description f) = fd_pixel_format d" if "f \<in> set fs" for f
    using av that by (auto simp: same_shape_def row_samples_def d_def)
  show len: "length (af_sum (accumulated fs)) = ?h * ?R"
    using accumulated_sum_length [OF assms(1)] av by (simp add: length_frame_samples d_def)
  have "\<forall>s \<in> set (map frame_samples fs). length s = length (replicate (?h * ?R) (0 :: u32))"
    using facts by (auto simp: length_frame_samples)
  from foldl_add_samples [OF this]
  have sum: "af_sum (accumulated fs) ! j = word_of_nat (column_total (map frame_samples fs) j)" if "j < ?h * ?R" for j
    using that assms(1) by (simp add: accumulated_def Let_def length_frame_samples d_def)
  have one: "unat (average_sample (word_of_nat (length fs)) (af_sum (accumulated fs) ! (r * ?R + i)))
      = rounded_mean (length fs) (sample_total fs r i)
      \<and> rounded_mean (length fs) (sample_total fs r i) < 256 ^ ?sb" if "r < ?h" "i < ?R" for r i
  proof -
    have "r * ?R + i < ?h * ?R" using channel_block [OF that(1), of ?R] that(2) by linarith
    then have at: "af_sum (accumulated fs) ! (r * ?R + i) = word_of_nat (sample_total fs r i)"
      using sum frames_column_total [of fs ?R ?h r i] facts that by simp
    have small: "frame_sample f r i \<le> 256 ^ ?sb - 1" if "f \<in> set fs" for f
    proof -
      have "frame_sample f r i < 256 ^ ?sb" using frame_sample_small [of f r i] facts [OF that] by simp
      then show ?thesis by linarith
    qed
    have "?sb = 1 \<or> ?sb = 2" using averageable_facts(7) [OF hd] by (auto simp: d_def)
    then have "(256 :: nat) ^ ?sb - 1 \<le> 65535" by auto
    then have "length fs * (256 ^ ?sb - 1) \<le> length fs * 65535" by (rule mult_le_mono2)
    then have bound: "sample_total fs r i \<le> length fs * 65535" "sample_total fs r i \<le> length fs * (256 ^ ?sb - 1)"
      using sample_total_bound [of fs r i "256 ^ ?sb - 1"] small by (meson le_trans)+
    have "rounded_mean (length fs) (sample_total fs r i) \<le> 256 ^ ?sb - 1"
      using rounded_mean_bound [OF _ bound(2)] assms(1) by simp
    moreover have "(0 :: nat) < 256 ^ ?sb" by simp
    ultimately have "rounded_mean (length fs) (sample_total fs r i) < 256 ^ ?sb" by linarith
    then show ?thesis using average_sample_exact [OF _ assms(2) bound(1)] assms(1) at by simp
  qed
  then show "r < ?h \<Longrightarrow> i < ?R \<Longrightarrow>
      unat (average_sample (word_of_nat (length fs)) (af_sum (accumulated fs) ! (r * ?R + i)))
        = rounded_mean (length fs) (sample_total fs r i)" by blast
  assume "s \<in> set (af_sum (accumulated fs))"
  then obtain j where j: "j < ?h * ?R" "s = af_sum (accumulated fs) ! j" using len by (auto simp: in_set_conv_nth)
  have R: "0 < ?R" using averageable_facts(8) [OF hd] by (simp add: d_def)
  have "j div ?R < ?h" "j mod ?R < ?R" using j(1) R by (simp_all add: less_mult_imp_div_less)
  then show "unat (average_sample (word_of_nat (length fs)) s) < 256 ^ ?sb"
    using one [of "j div ?R" "j mod ?R"] j(2) by simp
qed


lemma averaged_frame_shape:
  assumes "fs \<noteq> []" and "length fs \<le> 65536" and av: "\<forall>f \<in> set fs. averageable f \<and> same_shape (hd fs) f"
  shows "frame_valid (averaged_frame fs)" and "same_shape (hd fs) (averaged_frame fs)"
    and "stride_of (cm_description (averaged_frame fs)) = packed_row (cm_description (hd fs))"
    and "length (cm_data (averaged_frame fs))
      = unat (fd_height (cm_description (hd fs))) * packed_row (cm_description (hd fs))"
    and "r < unat (fd_height (cm_description (hd fs))) \<Longrightarrow> i < row_samples (cm_description (hd fs)) \<Longrightarrow>
      frame_sample (averaged_frame fs) r i = rounded_mean (length fs) (sample_total fs r i)"
proof -
  let ?d = "cm_description (hd fs)" and ?g = "averaged_frame fs"
  let ?R = "row_samples ?d" and ?h = "unat (fd_height ?d)" and ?sb = "accumulationSampleBytes (fd_pixel_format ?d)"
  let ?avg = "average_sample (word_of_nat (length fs))"
  let ?px = "map (\<lambda>s. writeSample (?avg s) ?sb) (af_sum (accumulated fs))"
  have hd: "averageable (hd fs)" using av assms(1) by simp
  note facts = averageable_facts [OF hd]
  note fmt = averaging_format [of "fd_pixel_format ?d"]
  have whole: "fd_pixel_format ?d \<notin> {Uyvy422, Yuyv422, Nv12, Mjpeg}" "format_bytes (fd_pixel_format ?d) \<noteq> 0"
    "isFrameAveragingSupported (fd_pixel_format ?d)"
    using fmt hd by (auto simp: averageable_def)
  note samples = averaged_samples [OF assms]
  have px: "\<forall>p \<in> set ?px. length p = unat ?sb" using writeSample_bytes(1) [OF facts(7)] samples(3) by auto
  have row: "packed_row ?d = unat (fd_width ?d) * unat (format_bytes (fd_pixel_format ?d))"
    using whole by (simp add: packed_row_def)
  have total: "length (cm_data ?g) = ?h * ?R * unat ?sb"
    using length_concat_uniform [OF px] samples(1) by (simp add: averaged_frame_def Let_def)
  then show len: "length (cm_data ?g) = ?h * packed_row ?d" using facts(3) by (simp add: mult.assoc)
  have size: "unat (fd_width ?d) * ?h * unat (format_bytes (fd_pixel_format ?d)) < 2 ^ 64"
    using packed_size_small [of "hd fs"] hd facts(1) row by (simp add: averageable_def mult.assoc mult.left_commute)
  have len': "length (cm_data ?g) = unat (fd_width ?d) * ?h * unat (format_bytes (fd_pixel_format ?d))"
    using len row by (simp add: mult.assoc mult.left_commute)
  have dims: "0 < unat (fd_width ?d)" "0 < ?h" "unat (fd_width ?d) < 2 ^ 32" "?h < 2 ^ 32"
    using facts(8, 9) unat_lt_size [of "fd_width ?d"] unat_lt_size [of "fd_height ?d"]
    by (auto simp: row_samples_def)
  note g = packed_frame_valid [OF whole(1, 2) dims size len']
  have eq: "?g = \<lparr>cm_description = \<lparr>fd_width = word_of_nat (unat (fd_width ?d)), fd_height = word_of_nat ?h,
        fd_pixel_format = fd_pixel_format ?d,
        fd_row_stride = ucast (word_of_nat (unat (fd_width ?d)) :: u32) * format_bytes (fd_pixel_format ?d)\<rparr>,
      cm_data = cm_data ?g, cm_sequence = cm_sequence ?g, cm_timestamp = cm_timestamp ?g\<rparr>"
    by (simp add: averaged_frame_def Let_def)
  show "frame_valid ?g" by (subst eq) (rule g(1))
  show "same_shape (hd fs) ?g" by (simp add: same_shape_def averaged_frame_def Let_def)
  show stride: "stride_of (cm_description ?g) = packed_row ?d"
    using g(4, 5) row by (subst eq) simp
  assume r: "r < ?h" and i: "i < ?R"
  have "r * ?R + i < ?h * ?R" using channel_block [OF r, of ?R] i by linarith
  then have j: "r * ?R + i < length ?px" using samples(1) by simp
  have off: "r * packed_row ?d + i * unat ?sb = (r * ?R + i) * unat ?sb" using facts(3) by (simp add: algebra_simps)
  have fmt_g: "fd_pixel_format (cm_description ?g) = fd_pixel_format ?d" by (simp add: averaged_frame_def Let_def)
  have data: "cm_data ?g = concat ?px" by (simp add: averaged_frame_def Let_def)
  have "frame_sample ?g r i = le_value (?px ! (r * ?R + i))"
    using concat_chunk [OF px j] by (simp add: frame_sample_def Let_def sample_at_def stride fmt_g off data)
  also have "\<dots> = unat (?avg (af_sum (accumulated fs) ! (r * ?R + i)))"
    using j writeSample_bytes(2) [OF facts(7)] samples(3) by simp
  finally show "frame_sample ?g r i = rounded_mean (length fs) (sample_total fs r i)"
    using samples(2) [OF r i] by simp
qed

section \<open>Properties\<close>

text \<open>C31. Averaging camera frames never reads or writes outside a buffer and never wraps a 32-bit sum
  for up to 65536 frames of one size and format with an explicit stride: reading that many good
  frames gives a valid frame with packed rows, the newest frame's sequence number and timestamp, and
  every sample the rounded mean of the frames' samples at its place.\<close>

theorem camera_average_exact:
  assumes "fs \<noteq> []" and "length fs \<le> 65536" and "\<forall>f \<in> set fs. averageable f \<and> same_shape (hd fs) f"
  shows "\<exists>g. readAveragedFrame (map Success fs @ rest) (word_of_nat (length fs)) = Done (Success g)
    \<and> frame_valid g \<and> same_shape (hd fs) g \<and> stride_of (cm_description g) = packed_row (cm_description (hd fs))
    \<and> cm_sequence g = cm_sequence (last fs) \<and> cm_timestamp g = cm_timestamp (last fs)
    \<and> (\<forall>r < unat (fd_height (cm_description (hd fs))). \<forall>i < row_samples (cm_description (hd fs)).
         frame_sample g r i = rounded_mean (length fs) (sample_total fs r i))"
proof -
  have n: "unat (word_of_nat (length fs) :: u64) = length fs" using assms(2) by (simp add: unat_of_nat)
  then have nz: "(word_of_nat (length fs) :: u64) \<noteq> 0" using assms(1) by (metis length_0_conv unat_0)
  have "average_loop (map Success fs @ rest) (length fs) (Some (accumulated []))
      = of_option (accumulator_average (Some (accumulated fs)))"
    using average_loop_frames [of "[]" fs rest] assms by simp
  then have run: "readAveragedFrame (map Success fs @ rest) (word_of_nat (length fs)) = Done (Success (averaged_frame fs))"
    using accumulated_average [OF assms(1, 2)] assms n nz
    by (simp add: readAveragedFrame_def accumulated_def)
  have ids: "cm_sequence (averaged_frame fs) = cm_sequence (last fs)" "cm_timestamp (averaged_frame fs) = cm_timestamp (last fs)"
    by (simp_all add: averaged_frame_def Let_def)
  show ?thesis
    using run ids averaged_frame_shape [OF assms] by (intro exI [of _ "averaged_frame fs"]) simp
qed


theorem camera_average_exact_witness:
  "\<exists>g. readAveragedFrame
      [Success \<lparr>cm_description = \<lparr>fd_width = 1, fd_height = 1, fd_pixel_format = Gray16, fd_row_stride = 2\<rparr>,
         cm_data = [255, 255], cm_sequence = 7, cm_timestamp = 0\<rparr>,
       Success \<lparr>cm_description = \<lparr>fd_width = 1, fd_height = 1, fd_pixel_format = Gray16, fd_row_stride = 2\<rparr>,
         cm_data = [2, 0], cm_sequence = 8, cm_timestamp = 5\<rparr>] 2 = Done (Success g)
     \<and> frame_valid g \<and> cm_sequence g = 8 \<and> frame_sample g 0 0 = 32769"
proof -
  let ?d = "\<lparr>fd_width = 1, fd_height = 1, fd_pixel_format = Gray16, fd_row_stride = 2\<rparr>"
  let ?f = "\<lparr>cm_description = ?d, cm_data = [255, 255], cm_sequence = 7, cm_timestamp = 0\<rparr>"
  let ?g = "\<lparr>cm_description = ?d, cm_data = [2, 0], cm_sequence = 8, cm_timestamp = 5\<rparr>"
  have "layout_ok ?d" "layout_size ?d = 2"
    by (simp_all add: layout_ok_def layout_size_def packed_row_def stride_of_def)
  then have "unat (memorySize ?d) = 2" by (simp add: camera_memory_size_value)
  moreover from this have "0 < memorySize ?d" by (simp add: word_less_nat_alt)
  ultimately have "averageable ?f" "averageable ?g"
    by (simp_all add: averageable_def frame_valid_def description_valid_def isFrameAveragingSupported_def accumulationChannels_def)
  then have ok: "\<forall>f \<in> set [?f, ?g]. averageable f \<and> same_shape (hd [?f, ?g]) f" by (simp add: same_shape_def)
  have one: "[0..<Suc 0] = [0]" by simp
  have two: "take 2 [a, b] = [a, b]" for a b :: u8 by simp
  have "\<exists>g. readAveragedFrame (map Success [?f, ?g] @ []) (word_of_nat (length [?f, ?g])) = Done (Success g)
    \<and> frame_valid g \<and> cm_sequence g = 8 \<and> frame_sample g 0 0 = rounded_mean (Suc (Suc 0)) (sample_total [?f, ?g] 0 0)"
    using camera_average_exact [OF _ _ ok, of "[]"] by (auto simp: row_samples_def accumulationChannels_def)
  moreover have "sample_total [?f, ?g] 0 0 = 65537"
    by (simp add: sample_total_def frame_sample_def Let_def accumulationSampleBytes_def sample_at_def two)
  moreover have "rounded_mean (Suc (Suc 0)) 65537 = 32769"
    by (simp add: rounded_mean_def flip: numeral_2_eq_2)
  ultimately show ?thesis by simp
qed

end
