(* ===== verification/CameraAccumulator.thy ===== *)
theory CameraAccumulator
  imports CameraAverage
begin

text \<open>
  The frame accumulator as a state machine (\<open>CameraFrameAccumulator\<close> of
  \<open>core/tmr/camera/CameraFrameOps.cpp\<close>): the steps are \<open>add\<close> with any frame at all and \<open>reset\<close>.
  The invariant of the reachable states keeps every access inside its buffer and the average valid.
\<close>

section \<open>Steps\<close>

inductive accumulator_step :: "Accumulator_Impl \<Rightarrow> Accumulator_Impl \<Rightarrow> bool" where
  added: "accumulator_add (Some a) f = Some (status, Some a') \<Longrightarrow> accumulator_step a a'"
| cleared: "accumulator_reset (Some a) = Some a' \<Longrightarrow> accumulator_step a a'"

inductive accumulator_reachable :: "Accumulator_Impl \<Rightarrow> bool" where
  start: "accumulator_reachable Accumulator_Impl_new"
| step: "accumulator_reachable a \<Longrightarrow> accumulator_step a a' \<Longrightarrow> accumulator_reachable a'"

section \<open>The invariant\<close>

text \<open>A non-empty accumulation describes a frame it accepted and has one sum per sample of it.\<close>

definition accumulator_inv :: "Accumulator_Impl \<Rightarrow> bool" where
  "accumulator_inv a \<longleftrightarrow>
     (af_count a \<noteq> 0 \<longrightarrow>
      (\<exists>f. accumulable f \<and> af_description a = cm_description f
         \<and> af_channels a = accumulationChannels (fd_pixel_format (cm_description f))
         \<and> af_sample_bytes a = accumulationSampleBytes (fd_pixel_format (cm_description f))
         \<and> length (af_sum a) = unat (fd_height (cm_description f)) * row_samples (cm_description f)))"

lemma accumulate_rows_some:
  assumes "accumulable f" and "length totals = unat (fd_height (cm_description f)) * row_samples (cm_description f)"
  defines "d \<equiv> cm_description f"
  shows "\<exists>totals'. accumulate_rows (cm_data f) (fd_row_stride d) (accumulationSampleBytes (fd_pixel_format d))
      (ucast (fd_width d) * accumulationChannels (fd_pixel_format d)) 0 (unat (fd_height d)) totals = Some totals'
    \<and> length totals' = length totals"
proof -
  note facts = accumulable_facts [OF assms(1), folded d_def]
  have v: "frame_valid f" using assms(1) by (simp add: accumulable_def)
  let ?R = "row_samples d" and ?h = "unat (fd_height d)" and ?s = "unat (fd_row_stride d)"
  have h: "?h < 2 ^ 64" using unat_lt_size [of "fd_height d"] by simp
  have rows: "r * ?s + ?R * unat (accumulationSampleBytes (fd_pixel_format d)) \<le> length (cm_data f) \<and> r * ?s < 2 ^ 64"
    if "r < ?h" for r
  proof -
    have "r * ?s \<le> r * stride_of d" using mult_le_mono2 [OF raw_stride_le] .
    moreover have "r * stride_of d + packed_row d \<le> length (cm_data f)" "r * stride_of d + packed_row d < 2 ^ 64"
      using frame_row_bounds [OF v facts(1) [unfolded d_def], of r] that by (simp_all add: d_def)
    ultimately show ?thesis unfolding facts(2) by linarith
  qed
  show ?thesis
    using accumulate_rows_value [OF facts(6), of "ucast (fd_width d) * accumulationChannels (fd_pixel_format d)" 0 ?h totals
        "fd_row_stride d" "cm_data f"] facts(3, 4, 7) h rows assms(2)
    by (auto simp: d_def)
qed

lemma accumulator_validation_cases:
  "(accumulable f \<and> validateFrameForAccumulation f = (CameraError_none,
      accumulationChannels (fd_pixel_format (cm_description f)), accumulationSampleBytes (fd_pixel_format (cm_description f))))
   \<or> (\<not> accumulable f \<and> \<not> ce_ok (fst (validateFrameForAccumulation f)))"
  using averaging_format [of "fd_pixel_format (cm_description f)"]
  by (auto simp: accumulable_def validateFrameForAccumulation_def validateFrameData_def Let_def
      isFrameAveragingSupported_def no_pixel_operation_def frame_disagrees_def ce_ok_def)

lemma accumulator_add_cases:
  assumes "accumulator_inv a"
  obtains (refused) e where "accumulator_add (Some a) f = Some (Failure e, Some a)" "\<not> ce_ok e"
  | (accepted) a' where "accumulator_add (Some a) f = Some (Success (), Some a')" "accumulator_inv a'"
      "af_count a' = af_count a + 1" "accumulable f" "af_sequence a' = cm_sequence f" "af_timestamp a' = cm_timestamp f"
proof (cases "accumulable f")
  case False
  then have "\<not> ce_ok (fst (validateFrameForAccumulation f))" using accumulator_validation_cases [of f] by simp
  then show ?thesis
    by (intro refused [of "fst (validateFrameForAccumulation f)"])
       (auto simp: accumulator_add_def split: prod.splits)
next
  case True
  let ?d = "cm_description f" and ?D = "af_description a"
  have valid: "validateFrameForAccumulation f = (CameraError_none, accumulationChannels (fd_pixel_format ?d),
      accumulationSampleBytes (fd_pixel_format ?d))"
    using accumulator_validation_cases [of f] True by simp
  let ?bad = "af_count a \<noteq> 0 \<and> (fd_width ?D \<noteq> fd_width ?d \<or> fd_height ?D \<noteq> fd_height ?d
      \<or> fd_pixel_format ?D \<noteq> fd_pixel_format ?d)"
  let ?a = "if af_count a = 0
      then a\<lparr>af_description := ?d, af_channels := accumulationChannels (fd_pixel_format ?d),
             af_sample_bytes := accumulationSampleBytes (fd_pixel_format ?d),
             af_sum := replicate (unat (ucast (fd_width ?d) * ucast (fd_height ?d)
               * accumulationChannels (fd_pixel_format ?d) :: u64)) 0\<rparr> else a"
  show ?thesis
  proof (cases ?bad)
    case bad: True
    have "accumulator_add (Some a) f = Some (Failure (CameraError_make CamCat_Validation Cam_InvalidArgument
                 ''A frame whose description differs from the accumulation cannot be added.''), Some a)"
      using valid bad by (auto simp: accumulator_add_def Let_def camera_error.ok_none)
    then show ?thesis by (rule refused) (simp add: ce_ok_def)
  next
    case False
    have len: "length (af_sum ?a) = unat (fd_height ?d) * row_samples ?d"
      and same: "af_channels ?a = accumulationChannels (fd_pixel_format ?d)"
        "af_sample_bytes ?a = accumulationSampleBytes (fd_pixel_format ?d)"
        "fd_width (af_description ?a) = fd_width ?d" "fd_height (af_description ?a) = fd_height ?d"
        "fd_pixel_format (af_description ?a) = fd_pixel_format ?d"
      using False assms accumulable_facts(5) [OF True]
      by (cases "af_count a = 0"; fastforce simp: accumulator_inv_def row_samples_def)+
    obtain totals where totals: "accumulate_rows (cm_data f) (fd_row_stride ?d) (accumulationSampleBytes (fd_pixel_format ?d))
        (ucast (fd_width ?d) * accumulationChannels (fd_pixel_format ?d)) 0 (unat (fd_height ?d)) (af_sum ?a) = Some totals"
      "length totals = length (af_sum ?a)"
      using accumulate_rows_some [OF True len] by auto
    let ?a' = "?a\<lparr>af_sum := totals, af_sequence := cm_sequence f, af_timestamp := cm_timestamp f,
        af_count := af_count ?a + 1\<rparr>"
    have run: "accumulator_add (Some a) f = Some (Success (), Some ?a')"
      using valid False totals by (auto simp: accumulator_add_def Let_def camera_error.ok_none)
    have "\<exists>g. accumulable g \<and> af_description ?a = cm_description g
       \<and> fd_width (cm_description g) = fd_width ?d \<and> fd_height (cm_description g) = fd_height ?d
       \<and> fd_pixel_format (cm_description g) = fd_pixel_format ?d"
      using True False assms by (cases "af_count a = 0") (auto simp: accumulator_inv_def)
    then have inv: "accumulator_inv ?a'"
      using same len totals(2) by (auto simp: accumulator_inv_def row_samples_def)
    show ?thesis by (rule accepted [OF run inv _ True]) simp_all
  qed
qed


lemma reachable_inv: "accumulator_reachable a \<Longrightarrow> accumulator_inv a"
proof (induction rule: accumulator_reachable.induct)
  case start
  then show ?case by (simp add: accumulator_inv_def Accumulator_Impl_new_def)
next
  case (step a a')
  from step.hyps(2) show ?case
  proof (cases rule: accumulator_step.cases)
    case (added f status)
    from step.IH show ?thesis
      by (rule accumulator_add_cases [of a f]) (use added step.IH in simp_all)
  next
    case cleared
    then have "af_count a' = 0" by (auto simp: accumulator_reset_def Accumulator_Impl_new_def)
    then show ?thesis by (simp add: accumulator_inv_def)
  qed
qed

text \<open>The frame an average gives is valid whatever the sums are.\<close>

lemma packed_samples_valid:
  assumes "accumulable f" and "length ss = unat (fd_height (cm_description f)) * row_samples (cm_description f)"
  defines "d \<equiv> cm_description f"
  defines "sb \<equiv> accumulationSampleBytes (fd_pixel_format (cm_description f))"
  shows "frame_valid \<lparr>cm_description = d\<lparr>fd_row_stride := ucast (fd_width d) * accumulationChannels (fd_pixel_format d) * sb\<rparr>,
      cm_data = concat (map (\<lambda>s. writeSample (g s) sb) ss), cm_sequence = n, cm_timestamp = ts\<rparr>"
proof -
  note facts = accumulable_facts [OF assms(1), folded d_def]
  have fmt: "isFrameAveragingSupported (fd_pixel_format d)" and v: "frame_valid f"
    using assms(1) by (auto simp: accumulable_def d_def)
  note af = averaging_format [OF fmt]
  let ?bs = "concat (map (\<lambda>s. writeSample (g s) sb) ss)"
  have "\<forall>p \<in> set (map (\<lambda>s. writeSample (g s) sb) ss). length p = unat sb"
    using facts(6) by (auto simp: writeSample_def sb_def d_def)
  from length_concat_uniform [OF this]
  have len: "length ?bs = unat (fd_width d) * unat (fd_height d) * unat (format_bytes (fd_pixel_format d))"
    using assms(2) af by (simp add: row_samples_def sb_def d_def ac_simps)
  have row: "packed_row d = unat (fd_width d) * unat (format_bytes (fd_pixel_format d))"
    using af by (simp add: packed_row_def)
  have size: "unat (fd_width d) * unat (fd_height d) * unat (format_bytes (fd_pixel_format d)) < 2 ^ 64"
    using packed_size_small [OF v, folded d_def] facts(1) row by (simp add: ac_simps)
  have dims: "0 < unat (fd_width d)" "0 < unat (fd_height d)" "unat (fd_width d) < 2 ^ 32" "unat (fd_height d) < 2 ^ 32"
    using facts(7, 8) unat_lt_size [of "fd_width d"] unat_lt_size [of "fd_height d"] by (auto simp: row_samples_def)
  have whole: "fd_pixel_format d \<notin> {Uyvy422, Yuyv422, Nv12, Mjpeg}" "format_bytes (fd_pixel_format d) \<noteq> 0"
    using af by blast+
  have "ucast (fd_width d) * accumulationChannels (fd_pixel_format d) * sb
      = ucast (fd_width d) * format_bytes (fd_pixel_format d)"
    using af by (simp add: mult.assoc sb_def d_def)
  moreover have "d\<lparr>fd_row_stride := x\<rparr> = \<lparr>fd_width = fd_width d, fd_height = fd_height d,
      fd_pixel_format = fd_pixel_format d, fd_row_stride = x\<rparr>" for x by (cases d) simp
  moreover have "word_of_nat (unat x) = x" for x :: u32 by simp
  ultimately show ?thesis
    using packed_frame_valid(1) [OF whole dims size len, of n ts] by (simp only:)
qed

lemma accumulator_average_cases:
  assumes "accumulator_inv a"
  shows "accumulator_average (Some a) = None \<longleftrightarrow> af_count a \<noteq> 0 \<and> (ucast (af_count a) :: u32) = 0"
    and "af_count a = 0 \<Longrightarrow> \<exists>e. accumulator_average (Some a) = Some (Failure e) \<and> \<not> ce_ok e"
    and "(ucast (af_count a) :: u32) \<noteq> 0 \<Longrightarrow> \<exists>g. accumulator_average (Some a) = Some (Success g) \<and> frame_valid g
      \<and> cm_sequence g = af_sequence a \<and> cm_timestamp g = af_timestamp a"
proof -
  show "accumulator_average (Some a) = None \<longleftrightarrow> af_count a \<noteq> 0 \<and> (ucast (af_count a) :: u32) = 0"
    by (simp add: accumulator_average_def Let_def)
  show "af_count a = 0 \<Longrightarrow> \<exists>e. accumulator_average (Some a) = Some (Failure e) \<and> \<not> ce_ok e"
    by (simp add: accumulator_average_def ce_ok_def)
  assume nz: "(ucast (af_count a) :: u32) \<noteq> 0"
  then have "af_count a \<noteq> 0" by auto
  with assms obtain f where f: "accumulable f" "af_description a = cm_description f"
      "af_channels a = accumulationChannels (fd_pixel_format (cm_description f))"
      "af_sample_bytes a = accumulationSampleBytes (fd_pixel_format (cm_description f))"
      "length (af_sum a) = unat (fd_height (cm_description f)) * row_samples (cm_description f)"
    by (auto simp: accumulator_inv_def)
  from packed_samples_valid [OF f(1, 5), of "average_sample (ucast (af_count a))" "af_sequence a" "af_timestamp a"]
  show "\<exists>g. accumulator_average (Some a) = Some (Success g) \<and> frame_valid g
      \<and> cm_sequence g = af_sequence a \<and> cm_timestamp g = af_timestamp a"
    using nz \<open>af_count a \<noteq> 0\<close> f(2-4) by (simp add: accumulator_average_def Let_def)
qed

section \<open>Properties\<close>

text \<open>Whatever frames were added to an accumulator and however often it was reset, adding any frame
  is defined: it is accepted and counted, or refused with an error and the accumulation unchanged.
  The average is an error while nothing was added, and a valid frame with the newest frame's sequence
  number and timestamp otherwise, except that the division by the count narrowed to 32 bits is
  undefined when the count is a multiple of \<open>2^32\<close>.\<close>

theorem camera_accumulator_safe:
  assumes "accumulator_reachable a"
  shows "(\<exists>status a'. accumulator_add (Some a) f = Some (status, Some a')
      \<and> (case status of Success u \<Rightarrow> accumulable f \<and> af_count a' = af_count a + 1 \<and> af_sequence a' = cm_sequence f
          | Failure e \<Rightarrow> \<not> ce_ok e \<and> a' = a))
    \<and> (case accumulator_average (Some a) of
        None \<Rightarrow> af_count a \<noteq> 0 \<and> (ucast (af_count a) :: u32) = 0
      | Some (Failure e) \<Rightarrow> \<not> ce_ok e \<and> af_count a = 0
      | Some (Success g) \<Rightarrow> frame_valid g \<and> cm_sequence g = af_sequence a \<and> cm_timestamp g = af_timestamp a)"
proof
  note inv = reachable_inv [OF assms]
  show "\<exists>status a'. accumulator_add (Some a) f = Some (status, Some a')
      \<and> (case status of Success u \<Rightarrow> accumulable f \<and> af_count a' = af_count a + 1 \<and> af_sequence a' = cm_sequence f
          | Failure e \<Rightarrow> \<not> ce_ok e \<and> a' = a)"
    by (rule accumulator_add_cases [OF inv, of f]) auto
  note average = accumulator_average_cases [OF inv]
  show "case accumulator_average (Some a) of
        None \<Rightarrow> af_count a \<noteq> 0 \<and> (ucast (af_count a) :: u32) = 0
      | Some (Failure e) \<Rightarrow> \<not> ce_ok e \<and> af_count a = 0
      | Some (Success g) \<Rightarrow> frame_valid g \<and> cm_sequence g = af_sequence a \<and> cm_timestamp g = af_timestamp a"
    using average by (cases "af_count a = 0"; cases "(ucast (af_count a) :: u32) = 0") (auto split: Result.splits)
qed

theorem camera_accumulator_safe_witness:
  "\<exists>g. accumulator_average (Some (accumulated
      [\<lparr>cm_description = \<lparr>fd_width = 1, fd_height = 2, fd_pixel_format = Gray8, fd_row_stride = 1\<rparr>,
        cm_data = [1, 2], cm_sequence = 7, cm_timestamp = 0\<rparr>])) = Some (Success g) \<and> frame_valid g \<and> cm_sequence g = 7"
proof -
  let ?f = "\<lparr>cm_description = \<lparr>fd_width = 1, fd_height = 2, fd_pixel_format = Gray8, fd_row_stride = 1\<rparr>,
        cm_data = [1, 2], cm_sequence = 7, cm_timestamp = 0\<rparr>"
  have "layout_ok (cm_description ?f)" "layout_size (cm_description ?f) = 2"
    by (simp_all add: layout_ok_def layout_size_def packed_row_def stride_of_def)
  then have "unat (memorySize (cm_description ?f)) = 2" by (simp add: camera_memory_size_value)
  moreover from this have "0 < memorySize (cm_description ?f)" by (simp add: word_less_nat_alt)
  ultimately have "averageable ?f"
    by (simp add: averageable_def frame_valid_def description_valid_def isFrameAveragingSupported_def accumulationChannels_def)
  from accumulator_add_value [OF this, of "[]"]
  have "accumulator_add (Some Accumulator_Impl_new) ?f = Some (success_status, Some (accumulated [?f]))"
    by (simp add: accumulated_def)
  then have "accumulator_reachable (accumulated [?f])"
    by (intro accumulator_reachable.step [OF accumulator_reachable.start] accumulator_step.added)
  note safe = camera_accumulator_safe [OF this, THEN conjunct2]
  have "af_count (accumulated [?f]) = 1" "af_sequence (accumulated [?f]) = 7" by (simp_all add: accumulated_def Let_def)
  with safe show ?thesis by (auto split: option.splits Result.splits)
qed

end
