(* ===== verification/ImageInterleaved.thy ===== *)
theory ImageInterleaved
  imports MemoryRows
begin

text \<open>
  Pixel formats (\<open>api/wse/depend/wse_Enum.h\<close>, \<open>api/wse/utility/wse_PixelFormat.h\<close>,
  \<open>api/wse/data/wse_Image.h\<close>) and interleaved buffers that somebody else owns
  (\<open>api/wse/data/wse_ImageInterleaved.h\<close>): views are checked before any byte is touched, images are
  copied in and out at the buffer's row stride.  An image here has the bytes of its pixels in the
  memory order of a little-endian host, the branch in which the rows are copied verbatim.  \<open>alloc\<close>
  says whether the allocation of an image succeeds.
\<close>

section \<open>Pixel formats\<close>

datatype ePixFormat =
    CH1D8 | CH1D10 | CH1D12 | CH1D14 | CH1D16 | CH1D32 | CH1D64
  | CH2D8 | CH2D10 | CH2D12 | CH2D14 | CH2D16 | CH2D32 | CH2D64
  | CH3D8 | CH3D10 | CH3D12 | CH3D14 | CH3D16 | CH3D32 | CH3D64
  | CH4D8 | CH4D10 | CH4D12 | CH4D14 | CH4D16 | CH4D32 | CH4D64
  | BGR3D8 | BGR3D16 | BGRA4D8 | BGRA4D16

datatype eColorChannelOrder = Order_Rgb | Order_Bgr

fun canonicalFormat :: "ePixFormat \<Rightarrow> ePixFormat" where
  "canonicalFormat BGR3D8 = CH3D8"
| "canonicalFormat BGR3D16 = CH3D16"
| "canonicalFormat BGRA4D8 = CH4D8"
| "canonicalFormat BGRA4D16 = CH4D16"
| "canonicalFormat pf = pf"

definition getChannelOrder :: "ePixFormat \<Rightarrow> eColorChannelOrder" where
  "getChannelOrder pf = (if pf \<in> {BGR3D8, BGR3D16, BGRA4D8, BGRA4D16} then Order_Bgr else Order_Rgb)"

definition isColorOrderVariant :: "ePixFormat \<Rightarrow> bool" where
  "isColorOrderVariant pf \<longleftrightarrow> canonicalFormat pf \<noteq> pf"

definition getDataNum :: "ePixFormat \<Rightarrow> nat" where
  "getDataNum pf =
     (let c = canonicalFormat pf in
      if c \<in> {CH1D8, CH1D10, CH1D12, CH1D14, CH1D16, CH1D32, CH1D64} then 1
      else if c \<in> {CH2D8, CH2D10, CH2D12, CH2D14, CH2D16, CH2D32, CH2D64} then 2
      else if c \<in> {CH3D8, CH3D10, CH3D12, CH3D14, CH3D16, CH3D32, CH3D64} then 3
      else 4)"

definition getBitDepth :: "ePixFormat \<Rightarrow> nat" where
  "getBitDepth pf =
     (let c = canonicalFormat pf in
      if c \<in> {CH1D8, CH2D8, CH3D8, CH4D8} then 8
      else if c \<in> {CH1D10, CH2D10, CH3D10, CH4D10} then 10
      else if c \<in> {CH1D12, CH2D12, CH3D12, CH4D12} then 12
      else if c \<in> {CH1D14, CH2D14, CH3D14, CH4D14} then 14
      else if c \<in> {CH1D16, CH2D16, CH3D16, CH4D16} then 16
      else if c \<in> {CH1D32, CH2D32, CH3D32, CH4D32} then 32
      else 64)"

text \<open>The size of the sample type the traits choose for the bit depth.\<close>

definition sample_size :: "ePixFormat \<Rightarrow> nat" where
  "sample_size pf =
     (if getBitDepth pf \<le> 8 then 1 else if getBitDepth pf \<le> 16 then 2
      else if getBitDepth pf \<le> 32 then 4 else 8)"

section \<open>Layouts\<close>

definition interleavedPixelBytes :: "ePixFormat \<Rightarrow> u64" where
  "interleavedPixelBytes pf = word_of_nat (getDataNum pf) * word_of_nat (sample_size pf)"

definition packedRowBytes :: "ePixFormat \<Rightarrow> u64 \<Rightarrow> u64" where
  "packedRowBytes pf w =
     (if w \<noteq> 0 \<and> w \<le> - 1 div interleavedPixelBytes pf then w * interleavedPixelBytes pf else 0)"

definition isInterleavedLayoutValid :: "ePixFormat \<Rightarrow> u64 \<Rightarrow> u64 \<Rightarrow> u64 \<Rightarrow> u64 \<Rightarrow> bool" where
  "isInterleavedLayoutValid pf w h row_stride accessible =
     (let pixel_bytes = interleavedPixelBytes pf; maximum = - 1 in
      if w = 0 \<or> h = 0 then False
      else if maximum div pixel_bytes < w then False
      else
        let packed_row_bytes = w * pixel_bytes;
            stride = (if row_stride \<noteq> 0 then row_stride else packed_row_bytes)
        in if stride < packed_row_bytes then False
           else if maximum div stride < h then False
           else
             let span = (h - 1) * stride
             in if maximum - packed_row_bytes < span then False
                else span + packed_row_bytes \<le> accessible)"

definition interleavedRowStride :: "ePixFormat \<Rightarrow> u64 \<Rightarrow> u64 \<Rightarrow> u64" where
  "interleavedRowStride pf w row_stride =
     (if row_stride \<noteq> 0 then row_stride else w * interleavedPixelBytes pf)"

section \<open>Views and targets\<close>

text \<open>The data pointer is \<open>None\<close> when it is null, otherwise the bytes it points to, of which the
  owner says the first \<open>accessible\<close> may be touched.\<close>

record sInterleavedView =
  iv_data :: "bytes option"
  iv_width :: u64
  iv_height :: u64
  iv_row_stride :: u64
  iv_accessible_bytes :: u64

record sInterleavedTarget =
  it_data :: "bytes option"
  it_width :: u64
  it_height :: u64
  it_row_stride :: u64
  it_accessible_bytes :: u64

definition isInterleavedViewValid :: "ePixFormat \<Rightarrow> sInterleavedView \<Rightarrow> bool" where
  "isInterleavedViewValid pf v =
     (if iv_data v = None then False
      else isInterleavedLayoutValid pf (iv_width v) (iv_height v) (iv_row_stride v) (iv_accessible_bytes v))"

definition isInterleavedTargetValid :: "ePixFormat \<Rightarrow> sInterleavedTarget \<Rightarrow> bool" where
  "isInterleavedTargetValid pf t =
     (if it_data t = None then False
      else isInterleavedLayoutValid pf (it_width t) (it_height t) (it_row_stride t) (it_accessible_bytes t))"

definition makeImageFromInterleaved ::
    "ePixFormat \<Rightarrow> bool \<Rightarrow> sInterleavedView \<Rightarrow> (string + bytes Image) option" where
  "makeImageFromInterleaved pf alloc v =
     (if \<not> isInterleavedViewValid pf v
      then Some (Inl ''the interleaved view is not valid for the pixel format'')
      else if \<not> alloc then Some (Inl ''bad_alloc'')
      else
        let stride = interleavedRowStride pf (iv_width v) (iv_row_stride v);
            row_bytes = iv_width v * word_of_nat (getDataNum pf) * word_of_nat (sample_size pf);
            w = unat (iv_width v); h = unat (iv_height v);
            pb = getDataNum pf * sample_size pf
        in map_option (\<lambda>packed. Inr (pixel_image pb w h packed))
             (copy_rows row_bytes stride row_bytes 0 h (the (iv_data v)) (replicate (w * h * pb) 0)))"

definition writeImageToInterleaved ::
    "ePixFormat \<Rightarrow> sInterleavedTarget \<Rightarrow> bytes Image \<Rightarrow> (bool \<times> sInterleavedTarget) option" where
  "writeImageToInterleaved pf t im =
     (if \<not> isInterleavedTargetValid pf t then Some (False, t)
      else if im_width im \<noteq> unat (it_width t) then Some (False, t)
      else if im_height im \<noteq> unat (it_height t) then Some (False, t)
      else
        let stride = interleavedRowStride pf (it_width t) (it_row_stride t);
            row_bytes = it_width t * word_of_nat (getDataNum pf) * word_of_nat (sample_size pf)
        in map_option (\<lambda>buf. (True, t\<lparr>it_data := Some buf\<rparr>))
             (copy_rows stride row_bytes row_bytes 0 (unat (it_height t)) (concat (im_pixels im)) (the (it_data t))))"

text \<open>The colour order of three- and four-channel images, whose pixels are lists of samples.\<close>

definition swap_channels :: "nat \<Rightarrow> 'a list \<Rightarrow> 'a list" where
  "swap_channels channels p = [p ! 2, p ! 1, p ! 0] @ (if channels = 4 then [p ! 3] else [])"

definition convertChannelOrder :: "nat \<Rightarrow> 'a list Image \<Rightarrow> string + 'a list Image" where
  "convertChannelOrder channels source =
     (if im_width source = 0 \<or> im_height source = 0
      then Inl ''the source image must not be empty''
      else Inr (source\<lparr>im_pixels := map (swap_channels channels) (im_pixels source)\<rparr>))"

section \<open>The layout check is exact\<close>

abbreviation pixel_bytes :: "ePixFormat \<Rightarrow> nat" where
  "pixel_bytes pf \<equiv> getDataNum pf * sample_size pf"

lemma pixel_bytes_range: "0 < pixel_bytes pf \<and> pixel_bytes pf \<le> 32 \<and> 0 < getDataNum pf \<and> getDataNum pf \<le> 4
    \<and> 0 < sample_size pf \<and> sample_size pf \<le> 8"
  by (cases pf) (simp_all add: getDataNum_def sample_size_def getBitDepth_def Let_def)

lemma unat_pixel_bytes: "unat (interleavedPixelBytes pf) = pixel_bytes pf"
  using pixel_bytes_range [of pf] unat_mult_u64 [of "word_of_nat (getDataNum pf)" "word_of_nat (sample_size pf)"]
  by (simp add: interleavedPixelBytes_def unat_of_nat)

text \<open>The effective stride and the layout over the natural numbers.\<close>

definition effective_stride :: "ePixFormat \<Rightarrow> u64 \<Rightarrow> u64 \<Rightarrow> nat" where
  "effective_stride pf w row_stride = (if row_stride \<noteq> 0 then unat row_stride else unat w * pixel_bytes pf)"

lemma layout_valid_exact:
  "isInterleavedLayoutValid pf w h row_stride accessible \<longleftrightarrow>
     w \<noteq> 0 \<and> h \<noteq> 0 \<and> unat w * pixel_bytes pf \<le> effective_stride pf w row_stride
     \<and> unat h * effective_stride pf w row_stride < 2 ^ 64
     \<and> (unat h - 1) * effective_stride pf w row_stride + unat w * pixel_bytes pf \<le> unat accessible"
proof (cases "w = 0 \<or> h = 0 \<or> 2 ^ 64 \<le> unat w * pixel_bytes pf")
  case True
  have pos: "0 < interleavedPixelBytes pf" using unat_pixel_bytes [of pf] pixel_bytes_range [of pf] by (simp add: word_less_nat_alt)
  show ?thesis
  proof (cases "w = 0 \<or> h = 0")
    case zero: True
    then show ?thesis by (auto simp: isInterleavedLayoutValid_def)
  next
    case False
    with True have big: "2 ^ 64 \<le> unat w * pixel_bytes pf" by simp
    have "effective_stride pf w row_stride \<le> unat h * effective_stride pf w row_stride"
      using False mult_le_mono1 [of 1 "unat h" "effective_stride pf w row_stride"] by (simp add: Suc_le_eq unat_gt_0)
    then have "\<not> (unat w * pixel_bytes pf \<le> effective_stride pf w row_stride
        \<and> unat h * effective_stride pf w row_stride < 2 ^ 64)" using big by linarith
    moreover have "- 1 div interleavedPixelBytes pf < w"
      using big quotient_check_max [OF pos, of w] by (simp add: unat_pixel_bytes)
    then have "\<not> isInterleavedLayoutValid pf w h row_stride accessible"
      by (simp add: isInterleavedLayoutValid_def Let_def)
    ultimately show ?thesis by blast
  qed
next
  case False
  define P where "P = w * interleavedPixelBytes pf"
  define S where "S = (if row_stride \<noteq> 0 then row_stride else P)"
  have pos: "0 < interleavedPixelBytes pf" using unat_pixel_bytes [of pf] pixel_bytes_range [of pf] by (simp add: word_less_nat_alt)
  have P: "unat P = unat w * pixel_bytes pf" using False unat_mult_u64 [of w "interleavedPixelBytes pf"]
    by (simp add: P_def unat_pixel_bytes)
  have S: "unat S = effective_stride pf w row_stride" by (simp add: S_def effective_stride_def P)
  have Ppos: "0 < unat P" using False pixel_bytes_range [of pf] P by (simp add: unat_gt_0)
  have fits: "\<not> - 1 div interleavedPixelBytes pf < w"
    using False quotient_check_max [OF pos, of w] by (simp add: unat_pixel_bytes)
  have code: "isInterleavedLayoutValid pf w h row_stride accessible \<longleftrightarrow>
      \<not> S < P \<and> \<not> - 1 div S < h \<and> \<not> - 1 - P < (h - 1) * S \<and> (h - 1) * S + P \<le> accessible"
    using False fits by (auto simp: isInterleavedLayoutValid_def Let_def S_def P_def)
  show ?thesis
  proof (cases "S < P \<or> 2 ^ 64 \<le> unat h * unat S")
    case True
    show ?thesis
    proof (cases "S < P")
      case True
      then show ?thesis using code S P by (simp add: word_less_nat_alt)
    next
      case nless: False
      then have "0 < S" using Ppos by (simp add: word_less_nat_alt not_less)
      then show ?thesis using True nless code quotient_check_max [of S h] S by simp
    qed
  next
    case fit: False
    then have Spos: "0 < S" using Ppos by (simp add: word_less_nat_alt not_less)
    have hge: "1 \<le> h" using False by (simp add: word_le_nat_alt Suc_le_eq unat_gt_0)
    have h1: "unat (h - 1) = unat h - 1" using hge by (simp add: unat_sub)
    have hpos: "0 < unat h" using False by (simp add: unat_gt_0)
    have split: "unat h * unat S = (unat h - 1) * unat S + unat S" using hpos by (cases "unat h") simp_all
    have PS: "unat P \<le> unat S" using fit by (simp add: word_less_nat_alt)
    have span: "unat ((h - 1) * S) = (unat h - 1) * unat S"
      using unat_mult_u64 [of "h - 1" S] h1 split fit by simp
    have room: "(unat h - 1) * unat S + unat P < 2 ^ 64" using split PS fit by linarith
    have total: "unat ((h - 1) * S + P) = (unat h - 1) * unat S + unat P"
      using unat_add_u64 [of "(h - 1) * S" P] span room by simp
    have "P \<le> - 1" by simp
    then have "unat (- 1 - P) = 2 ^ 64 - 1 - unat P" by (simp only: unat_sub unat_minus_one)
    then have "\<not> - 1 - P < (h - 1) * S" using span room by (simp add: word_less_nat_alt)
    then show ?thesis
      using code fit quotient_check_max [OF Spos, of h] S P total False by (simp add: word_le_nat_alt word_less_nat_alt)
  qed
qed


section \<open>Copying in and out\<close>

text \<open>What a valid layout over a buffer of at least the accessible size gives: no offset wraps and every
  row lies inside.\<close>

lemma layout_rows:
  assumes "isInterleavedLayoutValid pf w h row_stride accessible" and "unat accessible \<le> len"
  defines "n \<equiv> unat w * pixel_bytes pf" and "s \<equiv> effective_stride pf w row_stride"
  shows "0 < n" and "n \<le> s" and "unat (interleavedRowStride pf w row_stride) = s"
    and "unat (w * word_of_nat (getDataNum pf) * word_of_nat (sample_size pf)) = n"
    and "r < unat h \<Longrightarrow> r * s + n \<le> len \<and> r * s < 2 ^ 64" and "unat h * n < 2 ^ 64"
proof -
  have v: "w \<noteq> 0" "h \<noteq> 0" "n \<le> s" "unat h * s < 2 ^ 64" "(unat h - 1) * s + n \<le> unat accessible"
    using assms(1) by (auto simp: layout_valid_exact n_def s_def)
  show "0 < n" using v(1) pixel_bytes_range [of pf] by (simp add: n_def unat_gt_0)
  show "n \<le> s" by (rule v(3))
  have h: "1 \<le> unat h" using v(2) by (simp add: Suc_le_eq unat_gt_0)
  have "n \<le> unat h * n" "unat h * n \<le> unat h * s" using mult_le_mono1 [OF h, of n] mult_le_mono2 [OF v(3)] by simp_all
  then show small: "unat h * n < 2 ^ 64" using v(4) by linarith
  then have "n < 2 ^ 64" using \<open>n \<le> unat h * n\<close> by linarith
  then have prod: "unat (w * interleavedPixelBytes pf) = n"
    using unat_mult_u64 [of w "interleavedPixelBytes pf"] by (simp add: unat_pixel_bytes n_def)
  then show "unat (w * word_of_nat (getDataNum pf) * word_of_nat (sample_size pf)) = n"
    by (simp add: interleavedPixelBytes_def mult.assoc)
  show "unat (interleavedRowStride pf w row_stride) = s"
    using prod by (simp add: interleavedRowStride_def s_def effective_stride_def n_def)
  assume r: "r < unat h"
  then have "r * s \<le> (unat h - 1) * s" by (intro mult_le_mono1) linarith
  moreover have "unat accessible < 2 ^ 64" using unat_lt_size [of accessible] by simp
  ultimately show "r * s + n \<le> len \<and> r * s < 2 ^ 64" using v(5) assms(2) by linarith
qed

definition view_row :: "ePixFormat \<Rightarrow> sInterleavedView \<Rightarrow> nat \<Rightarrow> bytes" where
  "view_row pf v r =
     take (unat (iv_width v) * pixel_bytes pf)
       (drop (r * effective_stride pf (iv_width v) (iv_row_stride v)) (the (iv_data v)))"

lemma makeImage_value:
  assumes "isInterleavedViewValid pf v" and "unat (iv_accessible_bytes v) \<le> length (the (iv_data v))"
  shows "makeImageFromInterleaved pf True v
    = Some (Inr (pixel_image (pixel_bytes pf) (unat (iv_width v)) (unat (iv_height v))
        (concat (map (view_row pf v) [0..<unat (iv_height v)]))))"
    and "r < unat (iv_height v) \<Longrightarrow> length (view_row pf v r) = unat (iv_width v) * pixel_bytes pf"
proof -
  have layout: "isInterleavedLayoutValid pf (iv_width v) (iv_height v) (iv_row_stride v) (iv_accessible_bytes v)"
    using assms(1) by (simp add: isInterleavedViewValid_def split: if_splits)
  note rows = layout_rows [OF layout assms(2)]
  show "r < unat (iv_height v) \<Longrightarrow> length (view_row pf v r) = unat (iv_width v) * pixel_bytes pf"
    using rows(5) [of r] unfolding view_row_def length_take length_drop by linarith
  let ?n = "iv_width v * word_of_nat (getDataNum pf) * word_of_nat (sample_size pf) :: u64"
  have h: "unat (iv_height v) < 2 ^ 64" using unat_lt_size [of "iv_height v"] by simp
  have "copy_rows ?n (interleavedRowStride pf (iv_width v) (iv_row_stride v)) ?n 0 (unat (iv_height v)) (the (iv_data v))
      (replicate (unat (iv_width v) * unat (iv_height v) * pixel_bytes pf) 0)
    = Some (concat (map (view_row pf v) [0..<unat (iv_height v)]))"
    using copy_rows_packed [of "[]" 0 ?n "replicate (unat (iv_width v) * unat (iv_height v) * pixel_bytes pf) 0"
        "unat (iv_height v)" "interleavedRowStride pf (iv_width v) (iv_row_stride v)" "the (iv_data v)"]
      rows h by (simp add: view_row_def [abs_def] mult.assoc mult.left_commute)
  then show "makeImageFromInterleaved pf True v
    = Some (Inr (pixel_image (pixel_bytes pf) (unat (iv_width v)) (unat (iv_height v))
        (concat (map (view_row pf v) [0..<unat (iv_height v)]))))"
    using assms(1) by (simp add: makeImageFromInterleaved_def Let_def)
qed

text \<open>Images whose pixels have the bytes of the format.\<close>

definition format_image :: "ePixFormat \<Rightarrow> bytes Image \<Rightarrow> bool" where
  "format_image pf im \<longleftrightarrow> wf_image im \<and> (\<forall>p \<in> set (im_pixels im). length p = pixel_bytes pf)"

lemma writeImage_value:
  assumes "isInterleavedTargetValid pf t" and "unat (it_accessible_bytes t) \<le> length (the (it_data t))"
    and "format_image pf im" and "im_width im = unat (it_width t)" and "im_height im = unat (it_height t)"
  defines "n \<equiv> unat (it_width t) * pixel_bytes pf" and "s \<equiv> effective_stride pf (it_width t) (it_row_stride t)"
  shows "\<exists>buf. writeImageToInterleaved pf t im = Some (True, t\<lparr>it_data := Some buf\<rparr>)
    \<and> length buf = length (the (it_data t))
    \<and> (\<forall>p < length buf. buf ! p =
         (if p div s < unat (it_height t) \<and> p mod s < n
          then concat (im_pixels im) ! (p div s * n + p mod s) else the (it_data t) ! p))"
proof -
  have layout: "isInterleavedLayoutValid pf (it_width t) (it_height t) (it_row_stride t) (it_accessible_bytes t)"
    using assms(1) by (simp add: isInterleavedTargetValid_def split: if_splits)
  note rows = layout_rows [OF layout assms(2), folded n_def s_def]
  let ?n = "it_width t * word_of_nat (getDataNum pf) * word_of_nat (sample_size pf) :: u64"
  let ?src = "concat (im_pixels im)"
  have h: "unat (it_height t) < 2 ^ 64" using unat_lt_size [of "it_height t"] by simp
  have len: "length ?src = unat (it_height t) * n"
    using length_concat_uniform [of "im_pixels im" "pixel_bytes pf"] assms(3-5)
    by (simp add: format_image_def wf_image_def n_def ac_simps)
  have src: "r * n + n \<le> length ?src \<and> r * n < 2 ^ 64" if "r < unat (it_height t)" for r
    using row_block [OF that, of n] len rows(6) by linarith
  show ?thesis
    using copy_rows_strided [of ?n "interleavedRowStride pf (it_width t) (it_row_stride t)" 0 "unat (it_height t)" ?n ?src
        "the (it_data t)"] rows src h assms(1, 4, 5)
    by (auto simp: writeImageToInterleaved_def Let_def)
qed


text \<open>Writing into a zeroed buffer whose rows are packed gives the bytes of the pixels in order.\<close>

lemma packed_row_bytes_value:
  assumes "w \<noteq> 0" and "w * pixel_bytes pf < 2 ^ 64"
  shows "packedRowBytes pf (word_of_nat w) = word_of_nat (w * pixel_bytes pf)"
    and "unat (packedRowBytes pf (word_of_nat w)) = w * pixel_bytes pf"
proof -
  have pb: "0 < pixel_bytes pf" using pixel_bytes_range [of pf] by blast
  then have "w \<le> w * pixel_bytes pf" using mult_le_mono2 [of 1 "pixel_bytes pf" w] by linarith
  then have "w < 2 ^ 64" using assms(2) by linarith
  then have u: "unat (word_of_nat w :: u64) = w" by (simp add: unat_of_nat)
  then have nz: "(word_of_nat w :: u64) \<noteq> 0" using assms(1) by (metis unat_0)
  have prod: "unat (word_of_nat w * interleavedPixelBytes pf) = w * pixel_bytes pf"
    using unat_mult_u64 [of "word_of_nat w" "interleavedPixelBytes pf"] u assms(2) by (simp add: unat_pixel_bytes)
  have pos: "0 < interleavedPixelBytes pf" using unat_pixel_bytes [of pf] pb by (simp add: word_less_nat_alt)
  have fits: "word_of_nat w \<le> - 1 div interleavedPixelBytes pf"
    using quotient_check_max [OF pos, of "word_of_nat w"] u assms(2) by (simp add: unat_pixel_bytes not_less)
  show "unat (packedRowBytes pf (word_of_nat w)) = w * pixel_bytes pf"
    using nz fits prod by (simp add: packedRowBytes_def)
  then show "packedRowBytes pf (word_of_nat w) = word_of_nat (w * pixel_bytes pf)"
    by (metis of_nat_unat ucast_id)
qed

definition packed_target :: "nat \<Rightarrow> nat \<Rightarrow> u64 \<Rightarrow> bytes \<Rightarrow> sInterleavedTarget" where
  "packed_target w h row_bytes buf =
     \<lparr>it_data = Some buf, it_width = word_of_nat w, it_height = word_of_nat h, it_row_stride = row_bytes,
      it_accessible_bytes = word_of_nat (length buf)\<rparr>"

lemma packed_write:
  assumes "format_image pf im" and "im_width im \<noteq> 0" and "im_height im \<noteq> 0"
    and "im_width im * im_height im * pixel_bytes pf < 2 ^ 64"
  defines "n \<equiv> im_width im * pixel_bytes pf"
  shows "unat (packedRowBytes pf (word_of_nat (im_width im))) = n" and "0 < n"
    and "unat (packedRowBytes pf (word_of_nat (im_width im)) * word_of_nat (im_height im)) = im_height im * n"
    and "im_width im < 2 ^ 64" and "im_height im < 2 ^ 64" and "im_height im * n < 2 ^ 64"
    and "length (concat (im_pixels im)) = im_height im * n"
    and "writeImageToInterleaved pf
        (packed_target (im_width im) (im_height im) (packedRowBytes pf (word_of_nat (im_width im)))
          (replicate (im_height im * n) 0)) im
      = Some (True, packed_target (im_width im) (im_height im) (packedRowBytes pf (word_of_nat (im_width im)))
          (concat (im_pixels im)))"
proof -
  let ?w = "im_width im" and ?h = "im_height im"
  have pb: "0 < pixel_bytes pf" using pixel_bytes_range [of pf] by blast
  show np: "0 < n" using assms(2) pb by (simp add: n_def)
  show total: "?h * n < 2 ^ 64" using assms(4) by (simp add: n_def ac_simps)
  have "n \<le> ?h * n" "?h \<le> ?h * n" "?w \<le> n" using assms(2, 3) pb by (simp_all add: n_def)
  with total show small: "?w < 2 ^ 64" "?h < 2 ^ 64" by linarith+
  have nsmall: "n < 2 ^ 64" using \<open>n \<le> ?h * n\<close> total by linarith
  define R where "R = packedRowBytes pf (word_of_nat ?w)"
  show R: "unat (packedRowBytes pf (word_of_nat ?w)) = n"
    using packed_row_bytes_value(2) [OF assms(2)] nsmall by (simp add: n_def)
  then have R': "unat R = n" by (simp add: R_def)
  have u: "unat (word_of_nat ?w :: u64) = ?w" "unat (word_of_nat ?h :: u64) = ?h" using small by (simp_all add: unat_of_nat)
  have nz: "(word_of_nat ?w :: u64) \<noteq> 0" "(word_of_nat ?h :: u64) \<noteq> 0" "R \<noteq> 0"
    using u assms(2, 3) R' np by (metis unat_0 less_irrefl)+
  show "unat (packedRowBytes pf (word_of_nat ?w) * word_of_nat ?h) = ?h * n"
    using unat_mult_u64 [of R "word_of_nat ?h"] u(2) R' total by (simp add: R_def mult.commute)
  show len: "length (concat (im_pixels im)) = ?h * n"
    using length_concat_uniform [of "im_pixels im" "pixel_bytes pf"] assms(1)
    by (simp add: format_image_def wf_image_def n_def ac_simps)
  define t where "t = packed_target ?w ?h R (replicate (?h * n) 0)"
  have fields: "it_data t = Some (replicate (?h * n) 0)" "it_width t = word_of_nat ?w" "it_height t = word_of_nat ?h"
    "it_row_stride t = R" "it_accessible_bytes t = word_of_nat (?h * n)"
    by (simp_all add: t_def packed_target_def)
  have acc: "unat (it_accessible_bytes t) = ?h * n" using total fields(5) by (simp add: unat_of_nat del: of_nat_mult)
  have stride: "effective_stride pf (it_width t) (it_row_stride t) = n"
    using nz(3) R' by (simp add: effective_stride_def fields)
  have "(?h - 1) * n + n = ?h * n" using assms(3) by (cases ?h) simp_all
  then have "isInterleavedTargetValid pf t"
    using layout_valid_exact [of pf "it_width t" "it_height t" "it_row_stride t" "it_accessible_bytes t"]
      stride acc total u nz fields(1-3) by (simp add: isInterleavedTargetValid_def n_def del: of_nat_mult)
  moreover have "unat (it_accessible_bytes t) \<le> length (the (it_data t))" by (simp add: acc fields(1))
  moreover have wh: "?w = unat (it_width t)" "?h = unat (it_height t)" by (simp_all add: fields(2, 3) u)
  ultimately have "\<exists>buf. writeImageToInterleaved pf t im = Some (True, t\<lparr>it_data := Some buf\<rparr>)
      \<and> length buf = length (the (it_data t))
      \<and> (\<forall>p < length buf. buf ! p =
         (if p div n < ?h \<and> p mod n < n then concat (im_pixels im) ! (p div n * n + p mod n) else the (it_data t) ! p))"
    using writeImage_value [of pf t im, OF _ _ assms(1)] unfolding stride wh [symmetric] n_def [symmetric] by blast
  then obtain out where out: "writeImageToInterleaved pf t im = Some (True, t\<lparr>it_data := Some out\<rparr>)"
    "length out = ?h * n"
    and at: "\<And>p. p < length out \<Longrightarrow> out ! p =
         (if p div n < ?h \<and> p mod n < n then concat (im_pixels im) ! (p div n * n + p mod n) else the (it_data t) ! p)"
    unfolding fields(1) option.sel length_replicate by blast
  have "out = concat (im_pixels im)"
  proof (rule nth_equalityI)
    show l: "length out = length (concat (im_pixels im))" using out(2) len by simp
    fix p assume p: "p < length out"
    then have "p div n < ?h" "p mod n < n" using np out(2) by (simp_all add: less_mult_imp_div_less)
    then show "out ! p = concat (im_pixels im) ! p"
      using at [OF p] by (simp only: div_mult_mod_eq simp_thms if_True)
  qed
  then have "t\<lparr>it_data := Some out\<rparr> = packed_target ?w ?h R (concat (im_pixels im))"
    using out(2) by (simp add: t_def packed_target_def)
  with out(1) show "writeImageToInterleaved pf
        (packed_target ?w ?h (packedRowBytes pf (word_of_nat ?w)) (replicate (?h * n) 0)) im
      = Some (True, packed_target ?w ?h (packedRowBytes pf (word_of_nat ?w)) (concat (im_pixels im)))"
    by (simp add: R_def t_def)
qed


section \<open>Properties\<close>

text \<open>The check of an interleaved layout is exact in 64-bit arithmetic: it accepts precisely the
  layouts with pixels, with a stride of at least a packed row, whose \<open>height * stride\<close> is representable,
  and whose last row ends inside the accessible bytes.  No product or sum in it wraps.\<close>

theorem interleaved_layout_exact:
  "isInterleavedLayoutValid pf w h row_stride accessible
   \<longleftrightarrow> (let n = unat w * (getDataNum pf * sample_size pf); s = (if row_stride = 0 then n else unat row_stride)
        in 0 < n \<and> 0 < unat h \<and> n \<le> s \<and> unat h * s < 2 ^ 64 \<and> (unat h - 1) * s + n \<le> unat accessible)"
  using pixel_bytes_range [of pf] by (auto simp: layout_valid_exact effective_stride_def Let_def unat_gt_0)

text \<open>An image written into an interleaved buffer and read back through a view with the same layout is
  the same image.  Writing stays inside the accessible bytes and changes nothing but the pixels: the
  padding of the rows and whatever follows the last row keep their value.\<close>

theorem interleaved_roundtrip:
  assumes "isInterleavedTargetValid pf t" and "it_data t = Some old" and "unat (it_accessible_bytes t) \<le> length old"
    and "format_image pf im" and "im_width im = unat (it_width t)" and "im_height im = unat (it_height t)"
  shows "\<exists>buf. writeImageToInterleaved pf t im = Some (True, t\<lparr>it_data := Some buf\<rparr>) \<and> length buf = length old
    \<and> makeImageFromInterleaved pf True
        \<lparr>iv_data = Some buf, iv_width = it_width t, iv_height = it_height t, iv_row_stride = it_row_stride t,
         iv_accessible_bytes = it_accessible_bytes t\<rparr> = Some (Inr im)
    \<and> (\<forall>p < length old. \<not> (p div effective_stride pf (it_width t) (it_row_stride t) < im_height im
          \<and> p mod effective_stride pf (it_width t) (it_row_stride t) < im_width im * pixel_bytes pf)
        \<longrightarrow> buf ! p = old ! p)"
proof -
  let ?n = "unat (it_width t) * pixel_bytes pf" and ?s = "effective_stride pf (it_width t) (it_row_stride t)"
  let ?src = "concat (im_pixels im)"
  obtain buf where buf: "writeImageToInterleaved pf t im = Some (True, t\<lparr>it_data := Some buf\<rparr>)" "length buf = length old"
    and at: "\<And>p. p < length old \<Longrightarrow> buf ! p =
         (if p div ?s < unat (it_height t) \<and> p mod ?s < ?n then ?src ! (p div ?s * ?n + p mod ?s) else old ! p)"
    using writeImage_value [OF assms(1) _ assms(4-6)] assms(2, 3) by auto
  let ?v = "\<lparr>iv_data = Some buf, iv_width = it_width t, iv_height = it_height t, iv_row_stride = it_row_stride t,
         iv_accessible_bytes = it_accessible_bytes t\<rparr>"
  have layout: "isInterleavedLayoutValid pf (it_width t) (it_height t) (it_row_stride t) (it_accessible_bytes t)"
    using assms(1) by (simp add: isInterleavedTargetValid_def split: if_splits)
  note rows = layout_rows [OF layout assms(3)]
  have len: "length ?src = unat (it_height t) * ?n"
    using length_concat_uniform [of "im_pixels im" "pixel_bytes pf"] assms(4-6)
    by (simp add: format_image_def wf_image_def ac_simps)
  have row: "view_row pf ?v r = take ?n (drop (r * ?n) ?src)" if r: "r < unat (it_height t)" for r
  proof (rule nth_equalityI)
    show l: "length (view_row pf ?v r) = length (take ?n (drop (r * ?n) ?src))"
    proof -
      have "?n \<le> length buf - r * ?s" using rows(5) [OF r] buf(2) by linarith
      moreover have "?n \<le> length ?src - r * ?n" using row_block [OF r, of ?n] len by linarith
      ultimately show ?thesis by (simp add: view_row_def)
    qed
    fix k assume "k < length (view_row pf ?v r)"
    then have k: "k < ?n" by (simp add: view_row_def)
    then have "(r * ?s + k) div ?s = r \<and> (r * ?s + k) mod ?s = k"
      using index_div_mod [of k ?s r] rows(2) by simp
    moreover have "r * ?s + k < length old" using rows(5) [OF r] k by linarith
    ultimately have "buf ! (r * ?s + k) = ?src ! (r * ?n + k)" using at r k by simp
    then show "view_row pf ?v r ! k = take ?n (drop (r * ?n) ?src) ! k"
    proof -
      have "r * ?n \<le> length ?src" "r * ?s \<le> length buf"
        using rows(5) [OF r] row_block [OF r, of ?n] len buf(2) by linarith+
      then show ?thesis using k \<open>buf ! (r * ?s + k) = ?src ! (r * ?n + k)\<close> by (simp add: view_row_def)
    qed
  qed
  have "concat (map (view_row pf ?v) [0..<unat (it_height t)])
      = concat (map (\<lambda>r. take ?n (drop (r * ?n) ?src)) [0..<unat (it_height t)])"
    using row by (intro arg_cong [of _ _ concat] map_cong) simp_all
  also have "\<dots> = ?src" by (rule rows_of_packed [OF len])
  finally have all: "concat (map (view_row pf ?v) [0..<unat (it_height t)]) = ?src" .
  have "isInterleavedViewValid pf ?v" using layout by (simp add: isInterleavedViewValid_def)
  then have "makeImageFromInterleaved pf True ?v
      = Some (Inr (pixel_image (pixel_bytes pf) (unat (it_width t)) (unat (it_height t)) ?src))"
    using makeImage_value(1) [of pf ?v] assms(3) buf(2) all by simp
  also have "pixel_image (pixel_bytes pf) (unat (it_width t)) (unat (it_height t)) ?src = im"
    using pixel_image_concat [of "im_pixels im" "pixel_bytes pf"] assms(4-6) by (simp add: format_image_def wf_image_def)
  finally show ?thesis using buf at assms(5, 6) by (intro exI [of _ buf]) auto
qed

theorem interleaved_roundtrip_witness:
  "\<exists>buf. writeImageToInterleaved CH1D8
      \<lparr>it_data = Some [9, 9, 9, 9, 9, 9], it_width = 2, it_height = 2, it_row_stride = 3, it_accessible_bytes = 6\<rparr>
      \<lparr>im_width = 2, im_height = 2, im_pixels = [[1], [2], [3], [4]]\<rparr>
    = Some (True, \<lparr>it_data = Some buf, it_width = 2, it_height = 2, it_row_stride = 3, it_accessible_bytes = 6\<rparr>)
    \<and> buf ! 2 = 9 \<and> makeImageFromInterleaved CH1D8 True
        \<lparr>iv_data = Some buf, iv_width = 2, iv_height = 2, iv_row_stride = 3, iv_accessible_bytes = 6\<rparr>
      = Some (Inr \<lparr>im_width = 2, im_height = 2, im_pixels = [[1], [2], [3], [4]]\<rparr>)"
proof -
  let ?t = "\<lparr>it_data = Some [9, 9, 9, 9, 9, 9 :: u8], it_width = 2, it_height = 2, it_row_stride = 3, it_accessible_bytes = 6\<rparr>"
  let ?im = "\<lparr>im_width = 2, im_height = 2, im_pixels = [[1], [2], [3], [4 :: u8]]\<rparr>"
  have pb: "pixel_bytes CH1D8 = 1" by (simp add: getDataNum_def sample_size_def getBitDepth_def)
  have "isInterleavedTargetValid CH1D8 ?t"
    using pb by (simp add: isInterleavedTargetValid_def layout_valid_exact effective_stride_def)
  moreover have "format_image CH1D8 ?im" using pb by (simp add: format_image_def wf_image_def)
  ultimately show ?thesis
    using interleaved_roundtrip [of CH1D8 ?t "[9, 9, 9, 9, 9, 9]" ?im] pb by (auto simp: effective_stride_def)
qed

text \<open>Swapping the colour order twice gives the image back, alpha included, for three- and
  four-channel images; an empty image is refused.\<close>

theorem channel_order_involution:
  assumes "channels = 3 \<or> channels = 4" and "\<forall>p \<in> set (im_pixels im). length p = channels"
  shows "convertChannelOrder channels im =
      (if im_width im = 0 \<or> im_height im = 0 then Inl ''the source image must not be empty''
       else Inr (im\<lparr>im_pixels := map (swap_channels channels) (im_pixels im)\<rparr>))
    \<and> (im_width im \<noteq> 0 \<and> im_height im \<noteq> 0 \<longrightarrow>
        convertChannelOrder channels (im\<lparr>im_pixels := map (swap_channels channels) (im_pixels im)\<rparr>) = Inr im)"
proof -
  have "swap_channels channels (swap_channels channels p) = p" if "length p = channels" for p :: "'a list"
    using assms(1) that by (auto simp: swap_channels_def numeral_3_eq_3 eval_nat_numeral length_Suc_conv)
  then have "map (swap_channels channels) (map (swap_channels channels) (im_pixels im)) = im_pixels im"
    using assms(2) by (simp add: map_idI)
  then show ?thesis by (simp add: convertChannelOrder_def)
qed

theorem channel_order_involution_witness:
  "convertChannelOrder 3 \<lparr>im_width = 1, im_height = 1, im_pixels = [[1, 2, 3 :: u8]]\<rparr>
     = Inr \<lparr>im_width = 1, im_height = 1, im_pixels = [[3, 2, 1]]\<rparr>"
  using channel_order_involution [of 3 "\<lparr>im_width = 1, im_height = 1, im_pixels = [[1, 2, 3 :: u8]]\<rparr>"]
  by (simp add: swap_channels_def)

end
