(* ===== verification/CameraImages.thy ===== *)
theory CameraImages
  imports CameraFrameOps ImageInterleaved
begin

text \<open>
  Camera frames as images and back (\<open>core/tmr/camera/CameraFrameOps.cpp\<close>) and the BT.601 conversion
  shared with the adapters (\<open>core/tmr/camera/CameraYuvConversion.h\<close>).  An image that is an output
  parameter is returned with the status, unchanged where the code returns early.  \<open>alloc\<close> says whether
  the allocations of a call succeed.
\<close>

section \<open>YUV samples\<close>

definition clamp :: "int \<Rightarrow> u8" where
  "clamp v = word_of_int (max 0 (min 255 v))"

text \<open>\<open>(red, green, blue)\<close>; the shift right of a possibly negative \<open>int\<close> by eight.\<close>

definition yuvToRgb :: "int \<Rightarrow> int \<Rightarrow> int \<Rightarrow> u8 \<times> u8 \<times> u8" where
  "yuvToRgb y u v =
     (let c = max 0 (y - 16); d = u - 128; e = v - 128 in
      (clamp ((298 * c + 409 * e + 128) div 256),
       clamp ((298 * c - 100 * d - 208 * e + 128) div 256),
       clamp ((298 * c + 516 * d + 128) div 256)))"

definition isPackedYuv422 :: "eCameraPixelFormat \<Rightarrow> bool" where
  "isPackedYuv422 fmt \<longleftrightarrow> fmt = Uyvy422 \<or> fmt = Yuyv422"

text \<open>The three samples at three offsets of the data.\<close>

definition yuv_at :: "bytes \<Rightarrow> u64 \<Rightarrow> u64 \<Rightarrow> u64 \<Rightarrow> (int \<times> int \<times> int) option" where
  "yuv_at buf y u v =
     (case (vec_at buf (unat y), vec_at buf (unat u), vec_at buf (unat v)) of
        (Some a, Some b, Some c) \<Rightarrow> Some (uint a, uint b, uint c)
      | _ \<Rightarrow> None)"

text \<open>The samples of a pixel of a packed 4:2:2 frame and of an NV12 frame.\<close>

definition packed_yuv :: "bool \<Rightarrow> bytes \<Rightarrow> u64 \<Rightarrow> nat \<Rightarrow> nat \<Rightarrow> (int \<times> int \<times> int) option" where
  "packed_yuv uyvy buf stride column row =
     (let pair_offset = word_of_nat row * stride + (word_of_nat column div 2) * 4 in
      yuv_at buf (pair_offset + (word_of_nat column mod 2) * 2 + (if uyvy then 1 else 0))
        (pair_offset + (if uyvy then 0 else 1)) (pair_offset + (if uyvy then 2 else 3)))"

definition nv12_yuv :: "bytes \<Rightarrow> u64 \<Rightarrow> u64 \<Rightarrow> nat \<Rightarrow> nat \<Rightarrow> (int \<times> int \<times> int) option" where
  "nv12_yuv buf stride height column row =
     (let plane_offset = stride * height; chroma_row = word_of_nat row div 2;
          chroma_pair = (word_of_nat column div 2) * 2
      in yuv_at buf (word_of_nat row * stride + word_of_nat column)
           (plane_offset + chroma_row * stride + chroma_pair)
           (plane_offset + chroma_row * stride + chroma_pair + 1))"

section \<open>YUV frames to RGB images\<close>

fun rgb_pixels :: "(nat \<Rightarrow> nat \<Rightarrow> (int \<times> int \<times> int) option) \<Rightarrow> (nat \<times> nat) list \<Rightarrow> bytes list option" where
  "rgb_pixels samples [] = Some []"
| "rgb_pixels samples ((column, row) # ps) =
     (case samples column row of
        None \<Rightarrow> None
      | Some (y, u, v) \<Rightarrow>
          let (red, green, blue) = yuvToRgb y u v in map_option ((#) [red, green, blue]) (rgb_pixels samples ps))"

definition frame_yuv :: "sCameraFrame \<Rightarrow> nat \<Rightarrow> nat \<Rightarrow> (int \<times> int \<times> int) option" where
  "frame_yuv f =
     (let d = cm_description f in
      if fd_pixel_format d = Nv12 then nv12_yuv (cm_data f) (fd_row_stride d) (ucast (fd_height d))
      else packed_yuv (fd_pixel_format d = Uyvy422) (cm_data f) (fd_row_stride d))"

definition image_allocation_failed :: CameraError where
  "image_allocation_failed = CameraError_make CamCat_Backend Cam_ResourceExhausted
     ''Allocating the image for this camera frame failed.''"

definition convertYuvFrameToImage ::
    "bool \<Rightarrow> bytes Image \<Rightarrow> sCameraFrame \<Rightarrow> (CameraStatus \<times> bytes Image) option" where
  "convertYuvFrameToImage alloc image_out f =
     (let validation = validateFrameData f in
      if \<not> ce_ok validation then Some (Failure validation, image_out)
      else if \<not> alloc then Some (Failure image_allocation_failed, image_out)
      else
        let w = unat (fd_width (cm_description f)); h = unat (fd_height (cm_description f))
        in map_option (\<lambda>px. (success_status, \<lparr>im_width = w, im_height = h, im_pixels = px\<rparr>))
             (rgb_pixels (frame_yuv f) (positions w h)))"

section \<open>Packed YUV frames to BGRA frames\<close>

fun bgra_loop ::
    "(nat \<Rightarrow> nat \<Rightarrow> (int \<times> int \<times> int) option) \<Rightarrow> u64 \<Rightarrow> (nat \<times> nat) list \<Rightarrow> bytes \<Rightarrow> bytes option" where
  "bgra_loop samples row_stride [] buf = Some buf"
| "bgra_loop samples row_stride ((column, row) # ps) buf =
     (case samples column row of
        None \<Rightarrow> None
      | Some (y, u, v) \<Rightarrow>
          let (red, green, blue) = yuvToRgb y u v in
          (case write_bytes buf (unat (word_of_nat row * row_stride + word_of_nat column * 4)) [blue, green, red, 255] of
             None \<Rightarrow> None
           | Some buf' \<Rightarrow> bgra_loop samples row_stride ps buf'))"

definition packedYuvToBgra :: "bool \<Rightarrow> sCameraFrame \<Rightarrow> sCameraFrame CameraResult option" where
  "packedYuvToBgra alloc f =
     (let d = cm_description f in
      if \<not> isPackedYuv422 (fd_pixel_format d)
      then Some (Failure (CameraError_make CamCat_Unsupported Cam_UnsupportedFormat
             ''BGRA conversion requires a packed YUV422 frame.''))
      else if \<not> frame_valid f
      then Some (Failure (CameraError_make CamCat_InputOutput Cam_ReadFailed
             ''Packed YUV frame layout or payload is invalid.''))
      else
        let r0 = \<lparr>fd_width = fd_width d, fd_height = fd_height d, fd_pixel_format = Bgra8, fd_row_stride = 0\<rparr>;
            r = r0\<lparr>fd_row_stride := minimumRowStride r0\<rparr>
        in if \<not> description_valid r
           then Some (Failure (CameraError_make CamCat_InputOutput Cam_ReadFailed ''BGRA output layout overflows.''))
           else if \<not> alloc
           then Some (Failure (CameraError_make CamCat_Backend Cam_ResourceExhausted
                  ''Allocating converted BGRA frame failed.''))
           else
             let stride = (if fd_row_stride d \<noteq> 0 then fd_row_stride d else minimumRowStride d)
             in map_option (\<lambda>buf. Success \<lparr>cm_description = r, cm_data = buf, cm_sequence = cm_sequence f,
                                         cm_timestamp = cm_timestamp f\<rparr>)
                  (bgra_loop (packed_yuv (fd_pixel_format d = Uyvy422) (cm_data f) stride) (fd_row_stride r)
                     (positions (unat (fd_width d)) (unat (fd_height d)))
                     (replicate (unat (memorySize r)) 0)))"

section \<open>Frames to images of the same samples\<close>

fun coreFormatOf :: "eCameraPixelFormat \<Rightarrow> ePixFormat option" where
  "coreFormatOf Gray8 = Some CH1D8"
| "coreFormatOf Rgb8 = Some CH3D8"
| "coreFormatOf Bgr8 = Some BGR3D8"
| "coreFormatOf Bgra8 = Some BGRA4D8"
| "coreFormatOf Gray16 = Some CH1D16"
| "coreFormatOf Rgb16 = Some CH3D16"
| "coreFormatOf Bgr16 = Some BGR3D16"
| "coreFormatOf Bayer16Rggb = Some CH1D16"
| "coreFormatOf Bayer16Bggr = Some CH1D16"
| "coreFormatOf Bayer16Grbg = Some CH1D16"
| "coreFormatOf Bayer16Gbrg = Some CH1D16"
| "coreFormatOf _ = None"

definition isFrameImageConversionSupported :: "eCameraPixelFormat \<Rightarrow> bool" where
  "isFrameImageConversionSupported fmt \<longleftrightarrow>
     (if coreFormatOf fmt \<noteq> None then True else fmt = Yuyv422 \<or> fmt = Uyvy422 \<or> fmt = Nv12)"

definition no_mapping :: CameraError where
  "no_mapping = CameraError_make CamCat_Unsupported Cam_UnsupportedFormat
     ''This camera pixel format does not map onto the requested image format.''"

definition frame_view :: "sCameraFrame \<Rightarrow> sInterleavedView" where
  "frame_view f =
     \<lparr>iv_data = Some (cm_data f), iv_width = ucast (fd_width (cm_description f)),
      iv_height = ucast (fd_height (cm_description f)), iv_row_stride = fd_row_stride (cm_description f),
      iv_accessible_bytes = word_of_nat (length (cm_data f))\<rparr>"

definition buildInterleavedView :: "ePixFormat \<Rightarrow> sCameraFrame \<Rightarrow> CameraError + sInterleavedView" where
  "buildInterleavedView pf f =
     (if coreFormatOf (fd_pixel_format (cm_description f)) \<noteq> Some pf then Inl no_mapping
      else
        let validation = validateFrameData f in
        if \<not> ce_ok validation then Inl validation
        else if \<not> isInterleavedViewValid pf (frame_view f)
        then Inl (CameraError_make CamCat_Validation Cam_InvalidArgument
               ''The camera frame layout does not fit inside its own data.'')
        else Inr (frame_view f))"

definition convertFrameToImage ::
    "ePixFormat \<Rightarrow> bool \<Rightarrow> bytes Image \<Rightarrow> sCameraFrame \<Rightarrow> (CameraStatus \<times> bytes Image) option" where
  "convertFrameToImage pf alloc image_out f =
     (case buildInterleavedView pf f of
        Inl e \<Rightarrow> Some (Failure e, image_out)
      | Inr view \<Rightarrow>
          (case makeImageFromInterleaved pf alloc view of
             None \<Rightarrow> None
           | Some (Inl e) \<Rightarrow> Some (Failure image_allocation_failed, image_out)
           | Some (Inr img) \<Rightarrow> Some (success_status, img)))"

text \<open>The overloads of \<open>toImage\<close>, by the pixel format of the image.\<close>

definition toImage ::
    "ePixFormat \<Rightarrow> bool \<Rightarrow> bytes Image \<Rightarrow> sCameraFrame \<Rightarrow> (CameraStatus \<times> bytes Image) option" where
  "toImage pf alloc image_out f =
     (if pf = CH3D8 \<and> fd_pixel_format (cm_description f) \<in> {Yuyv422, Uyvy422, Nv12}
      then convertYuvFrameToImage alloc image_out f
      else convertFrameToImage pf alloc image_out f)"

section \<open>Images to frames\<close>

definition convertImageToFrame ::
    "ePixFormat \<Rightarrow> bool \<Rightarrow> bytes Image \<Rightarrow> eCameraPixelFormat \<Rightarrow> sCameraFrame CameraResult option" where
  "convertImageToFrame pf alloc im fmt =
     (if im_width im = 0 \<or> im_height im = 0
      then Some (Failure (CameraError_make CamCat_Validation Cam_InvalidArgument ''An empty image has no camera frame.''))
      else
        let row_bytes = packedRowBytes pf (word_of_nat (im_width im)) in
        if row_bytes = 0
        then Some (Failure (CameraError_make CamCat_Validation Cam_InvalidArgument
               ''The image extent overflows a packed camera frame.''))
        else if \<not> alloc
        then Some (Failure (CameraError_make CamCat_Backend Cam_ResourceExhausted
               ''Allocating the camera frame for this image failed.''))
        else
          let buf = replicate (unat (row_bytes * word_of_nat (im_height im))) 0;
              target = \<lparr>it_data = Some buf, it_width = word_of_nat (im_width im), it_height = word_of_nat (im_height im),
                        it_row_stride = row_bytes, it_accessible_bytes = word_of_nat (length buf)\<rparr>
          in case writeImageToInterleaved pf target im of
               None \<Rightarrow> None
             | Some (False, t) \<Rightarrow>
                 Some (Failure (CameraError_make CamCat_Validation Cam_InvalidArgument
                   ''Writing the image into a camera frame failed.''))
             | Some (True, t) \<Rightarrow>
                 Some (Success
                   \<lparr>cm_description = \<lparr>fd_width = word_of_nat (im_width im), fd_height = word_of_nat (im_height im),
                                      fd_pixel_format = fmt, fd_row_stride = row_bytes\<rparr>,
                    cm_data = the (it_data t), cm_sequence = 0, cm_timestamp = 0\<rparr>))"

text \<open>The overloads of \<open>toCameraFrame\<close>.\<close>

fun frameFormatOf :: "ePixFormat \<Rightarrow> eCameraPixelFormat option" where
  "frameFormatOf CH1D8 = Some Gray8"
| "frameFormatOf CH1D16 = Some Gray16"
| "frameFormatOf CH3D8 = Some Rgb8"
| "frameFormatOf BGR3D8 = Some Bgr8"
| "frameFormatOf CH3D16 = Some Rgb16"
| "frameFormatOf BGR3D16 = Some Bgr16"
| "frameFormatOf BGRA4D8 = Some Bgra8"
| "frameFormatOf _ = None"

definition toCameraFrame :: "ePixFormat \<Rightarrow> bool \<Rightarrow> bytes Image \<Rightarrow> sCameraFrame CameraResult option" where
  "toCameraFrame pf alloc im =
     (case frameFormatOf pf of None \<Rightarrow> None | Some fmt \<Rightarrow> convertImageToFrame pf alloc im fmt)"

section \<open>Reading images\<close>

definition readOneImage ::
    "ePixFormat \<Rightarrow> bool \<Rightarrow> bytes Image \<Rightarrow> sCameraFrame CameraResult \<Rightarrow> (CameraStatus \<times> bytes Image) option" where
  "readOneImage pf alloc image_out frame =
     (case frame of Failure e \<Rightarrow> Some (Failure e, image_out) | Success f \<Rightarrow> toImage pf alloc image_out f)"

definition readAveragedImage ::
    "bool \<Rightarrow> bytes Image \<Rightarrow> sCameraFrame CameraResult list \<Rightarrow> u64 \<Rightarrow> (CameraStatus \<times> bytes Image) outcome" where
  "readAveragedImage alloc image_out reads count =
     obind (readAveragedFrame reads count)
       (\<lambda>frame. case frame of
          Failure e \<Rightarrow> Done (Failure e, image_out)
        | Success f \<Rightarrow> of_option (toImage CH3D8 alloc image_out f))"

end
