(* ===== verification/CameraImagesCorrect.thy ===== *)
theory CameraImagesCorrect
  imports CameraImages CameraFrameCorrect
begin

text \<open>
  Correctness of the conversions between frames and images: a valid frame of a mapped format always
  gives its rows as an image, also when its stride is left zero; images survive the way through a
  frame while their extent fits 32 bits; YUV frames are decoded inside their data and both decoders
  agree.
\<close>

section \<open>Frames of mapped formats\<close>

lemma core_format_pixel:
  assumes "coreFormatOf fmt = Some pf"
  shows "unat (format_bytes fmt) = pixel_bytes pf" and "fmt \<notin> {Uyvy422, Yuyv422, Nv12, Mjpeg}" and "fmt \<noteq> Unknown"
proof -
  show "unat (format_bytes fmt) = pixel_bytes pf"
    using assms by (cases fmt) (auto simp: getDataNum_def sample_size_def getBitDepth_def Let_def)
  show "fmt \<notin> {Uyvy422, Yuyv422, Nv12, Mjpeg}" "fmt \<noteq> Unknown" using assms by auto
qed

lemma frame_view_facts:
  assumes "frame_valid f" and core: "coreFormatOf (fd_pixel_format (cm_description f)) = Some pf"
    and "length (cm_data f) < 2 ^ 64"
  shows "isInterleavedViewValid pf (frame_view f)"
    and "unat (iv_accessible_bytes (frame_view f)) = length (cm_data f)"
    and "view_row pf (frame_view f) = frame_row f"
proof -
  let ?d = "cm_description f"
  note fmt = core_format_pixel [OF core]
  have mj: "fd_pixel_format ?d \<noteq> Mjpeg" using fmt(2) by simp
  note layout = frame_valid_layout [OF assms(1) mj]
  have row: "packed_row ?d = unat (fd_width ?d) * pixel_bytes pf" using fmt by (simp add: packed_row_def)
  have stride: "effective_stride pf (ucast (fd_width ?d)) (fd_row_stride ?d) = stride_of ?d"
    by (simp add: effective_stride_def stride_of_def row)
  show acc: "unat (iv_accessible_bytes (frame_view f)) = length (cm_data f)"
    using assms(3) by (simp add: frame_view_def unat_of_nat)
  have size: "layout_size ?d = unat (fd_height ?d) * stride_of ?d" using fmt by (simp add: layout_size_def)
  have pos: "0 < unat (fd_height ?d)" "packed_row ?d \<le> stride_of ?d" "0 < packed_row ?d"
    using layout(1) by (auto simp: layout_ok_def)
  have "unat (fd_height ?d) * stride_of ?d = (unat (fd_height ?d) - 1) * stride_of ?d + stride_of ?d"
    using pos(1) by (cases "unat (fd_height ?d)") simp_all
  then have "(unat (fd_height ?d) - 1) * stride_of ?d + packed_row ?d \<le> length (cm_data f)"
    using pos(2) layout(3) size by linarith
  moreover have "fd_width ?d \<noteq> 0" "fd_height ?d \<noteq> 0" using pos row by auto
  then have "(ucast (fd_width ?d) :: u64) \<noteq> 0" "(ucast (fd_height ?d) :: u64) \<noteq> 0"
    by (metis unat_0 unat_ucast_32_64 unat_eq_0)+
  ultimately show "isInterleavedViewValid pf (frame_view f)"
    using stride row pos(2) layout(2) size acc
    by (simp add: isInterleavedViewValid_def layout_valid_exact frame_view_def mult.commute)
  show "view_row pf (frame_view f) = frame_row f"
    by (rule ext) (use stride row in \<open>simp add: view_row_def frame_view_def frame_row_def\<close>)
qed

lemma frame_to_image_value:
  assumes "length (cm_data f) < 2 ^ 64"
  shows "convertFrameToImage pf True image_out f = Some
    (if coreFormatOf (fd_pixel_format (cm_description f)) \<noteq> Some pf then (Failure no_mapping, image_out)
     else if \<not> frame_valid f then (Failure frame_disagrees, image_out)
     else (success_status, pixel_image (pixel_bytes pf) (unat (fd_width (cm_description f)))
             (unat (fd_height (cm_description f))) (frame_rows f)))"
proof (cases "coreFormatOf (fd_pixel_format (cm_description f)) = Some pf \<and> frame_valid f")
  case True
  then have v: "frame_valid f" and core: "coreFormatOf (fd_pixel_format (cm_description f)) = Some pf" by auto
  note view = frame_view_facts [OF v core assms]
  have "iv_width (frame_view f) = ucast (fd_width (cm_description f))"
    "iv_height (frame_view f) = ucast (fd_height (cm_description f))" "iv_data (frame_view f) = Some (cm_data f)"
    by (simp_all add: frame_view_def)
  then have "makeImageFromInterleaved pf True (frame_view f) = Some (Inr (pixel_image (pixel_bytes pf)
      (unat (fd_width (cm_description f))) (unat (fd_height (cm_description f))) (frame_rows f)))"
    using makeImage_value(1) [OF view(1)] view(2, 3) by (simp add: frame_rows_def)
  then show ?thesis
    using v core view(1)
    by (simp add: convertFrameToImage_def buildInterleavedView_def validateFrameData_def camera_error.ok_none Let_def)
next
  case False
  then show ?thesis
    by (auto simp: convertFrameToImage_def buildInterleavedView_def validateFrameData_def frame_disagrees_def ce_ok_def Let_def)
qed

section \<open>Images through frames\<close>

lemma frame_format_core: "frameFormatOf pf = Some fmt \<Longrightarrow> coreFormatOf fmt = Some pf"
  by (cases pf) auto

lemma image_to_frame_value:
  assumes "format_image pf im" and "im_width im \<noteq> 0" and "im_height im \<noteq> 0"
    and "im_width im * im_height im * pixel_bytes pf < 2 ^ 64"
  shows "convertImageToFrame pf True im fmt = Some (Success
     \<lparr>cm_description = \<lparr>fd_width = word_of_nat (im_width im), fd_height = word_of_nat (im_height im),
                        fd_pixel_format = fmt, fd_row_stride = word_of_nat (im_width im * pixel_bytes pf)\<rparr>,
      cm_data = concat (im_pixels im), cm_sequence = 0, cm_timestamp = 0\<rparr>)"
proof -
  note P = packed_write [OF assms]
  have row: "packedRowBytes pf (word_of_nat (im_width im)) = word_of_nat (im_width im * pixel_bytes pf)"
    using P(1) by (metis of_nat_unat ucast_id)
  have "(word_of_nat (im_width im * pixel_bytes pf) :: u64) \<noteq> 0"
    using P(1, 2) unfolding row by (metis unat_0 less_irrefl)
  then show ?thesis
    using assms(2, 3) P(3) P(8) unfolding row
    by (simp add: convertImageToFrame_def Let_def packed_target_def row del: of_nat_mult)
qed


section \<open>YUV samples inside the data\<close>

lemma positions_flat: "0 < w \<Longrightarrow> positions w h = map (\<lambda>i. (i mod w, i div w)) [0..<w * h]"
proof (induction h)
  case 0
  then show ?case by (simp add: positions_def)
next
  case (Suc h)
  have "map (\<lambda>x. (x, h)) [0..<w] = map (\<lambda>i. (i mod w, i div w)) [w * h..<w * h + w]"
    by (rule nth_equalityI) (simp_all add: Suc.prems)
  moreover have "positions w (Suc h) = positions w h @ map (\<lambda>x. (x, h)) [0..<w]" by (simp add: positions_def)
  moreover have "[0..<w * Suc h] = [0..<w * h] @ [w * h..<w * h + w]"
    using upt_add_eq_append [of 0 "w * h" w] by (simp add: add.commute)
  ultimately show ?case using Suc by simp
qed

definition rgb_of :: "int \<times> int \<times> int \<Rightarrow> bytes" where
  "rgb_of s = (case s of (y, u, v) \<Rightarrow> case yuvToRgb y u v of (red, green, blue) \<Rightarrow> [red, green, blue])"

definition bgra_of :: "int \<times> int \<times> int \<Rightarrow> bytes" where
  "bgra_of s = (case s of (y, u, v) \<Rightarrow> case yuvToRgb y u v of (red, green, blue) \<Rightarrow> [blue, green, red, 255])"

lemma rgb_pixels_value:
  "(\<And>c r. (c, r) \<in> set ps \<Longrightarrow> samples c r = Some (S c r)) \<Longrightarrow>
   rgb_pixels samples ps = Some (map (\<lambda>(c, r). rgb_of (S c r)) ps)"
proof (induction ps)
  case Nil
  then show ?case by simp
next
  case (Cons p ps)
  obtain c r where p: "p = (c, r)" by (cases p)
  obtain y u v where s: "S c r = (y, u, v)" by (cases "S c r")
  then have "samples c r = Some (y, u, v)" using Cons.prems [of c r] p by simp
  then show ?case using Cons.IH Cons.prems p s by (simp add: rgb_of_def Let_def split: prod.splits)
qed

text \<open>Where the samples of a pixel are: offsets over the natural numbers.\<close>

definition packed_at :: "bool \<Rightarrow> bytes \<Rightarrow> nat \<Rightarrow> nat \<Rightarrow> nat \<Rightarrow> int \<times> int \<times> int" where
  "packed_at uyvy buf s c r =
     (let o' = r * s + c div 2 * 4
      in (uint (buf ! (o' + c mod 2 * 2 + (if uyvy then 1 else 0))), uint (buf ! (o' + (if uyvy then 0 else 1))),
          uint (buf ! (o' + (if uyvy then 2 else 3)))))"

definition nv12_at :: "bytes \<Rightarrow> nat \<Rightarrow> nat \<Rightarrow> nat \<Rightarrow> nat \<Rightarrow> int \<times> int \<times> int" where
  "nv12_at buf s h c r =
     (let o' = s * h + r div 2 * s + c div 2 * 2
      in (uint (buf ! (r * s + c)), uint (buf ! o'), uint (buf ! (o' + 1))))"

lemma unat_small_div_mod:
  assumes "c < 2 ^ 32"
  shows "unat (word_of_nat c div 2 :: u64) = c div 2" and "unat (word_of_nat c mod 2 :: u64) = c mod 2"
    and "unat (word_of_nat c :: u64) = c"
proof -
  show "unat (word_of_nat c :: u64) = c" using assms by (simp add: unat_of_nat)
  then show "unat (word_of_nat c div 2 :: u64) = c div 2" "unat (word_of_nat c mod 2 :: u64) = c mod 2"
    by (simp_all add: unat_div unat_mod)
qed

lemma unat_add_small: "unat (a :: u64) = x \<Longrightarrow> unat b = y \<Longrightarrow> x + y < 2 ^ 64 \<Longrightarrow> unat (a + b) = x + y"
  using unat_add_u64 [of a b] by simp

lemma unat_mult_small: "unat (a :: u64) = x \<Longrightarrow> unat b = y \<Longrightarrow> x * y < 2 ^ 64 \<Longrightarrow> unat (a * b) = x * y"
  using unat_mult_u64 [of a b] by simp

lemma packed_yuv_value:
  assumes "c < w" and "even w" and "w < 2 ^ 32" and "r < 2 ^ 32"
    and "r * unat s + 2 * w \<le> length buf" and "r * unat s + 2 * w < 2 ^ 64"
  shows "packed_yuv uyvy buf s c r = Some (packed_at uyvy buf (unat s) c r)"
proof -
  have "c div 2 < w div 2" using assms(1, 2) by (auto elim!: evenE)
  then have pair: "c div 2 * 4 + 4 \<le> 2 * w" using assms(2) by (auto elim!: evenE)
  have c32: "c < 2 ^ 32" using assms(1, 3) by linarith
  note cs = unat_small_div_mod [OF c32]
  have m: "c mod 2 * 2 \<le> 2" by (simp add: mod_2_eq_odd)
  have row: "unat (word_of_nat r * s :: u64) = r * unat s" using assms(4, 6) by (simp add: unat_row_offset)
  have quad: "unat (word_of_nat c div 2 * 4 :: u64) = c div 2 * 4"
    using unat_mult_small [OF cs(1), of 4 4] pair assms(3) by simp
  have two: "unat (word_of_nat c mod 2 * 2 :: u64) = c mod 2 * 2"
    using unat_mult_small [OF cs(2), of 2 2] m by simp
  have base: "unat (word_of_nat r * s + word_of_nat c div 2 * 4) = r * unat s + c div 2 * 4"
    using unat_add_small [OF row quad] pair assms(6) by linarith
  have off: "unat (word_of_nat r * s + word_of_nat c div 2 * 4 + k) = r * unat s + c div 2 * 4 + unat k"
    if "unat k \<le> 3" for k :: u64
    using unat_add_small [OF base refl, of k] that pair assms(6) by linarith
  have ysum: "unat (word_of_nat c mod 2 * 2 + (if uyvy then 1 else 0) :: u64) = c mod 2 * 2 + (if uyvy then 1 else 0)"
    using unat_add_small [OF two refl, of "if uyvy then 1 else 0"] m by simp
  have yoff: "unat (word_of_nat r * s + word_of_nat c div 2 * 4 + word_of_nat c mod 2 * 2 + (if uyvy then 1 else 0))
      = r * unat s + c div 2 * 4 + (c mod 2 * 2 + (if uyvy then 1 else 0))"
    using off [of "word_of_nat c mod 2 * 2 + (if uyvy then 1 else 0)"] ysum m by (simp add: add.assoc)
  have bound: "r * unat s + c div 2 * 4 + k < length buf" if "k \<le> 3" for k using that pair assms(5) by linarith
  show ?thesis
  proof (cases uyvy)
    case True
    then show ?thesis
      using yoff off [of 0] off [of 2] bound [of "c mod 2 * 2 + 1"] bound [of 0] bound [of 2] m
      by (simp add: packed_yuv_def Let_def yuv_at_def packed_at_def vec_at_def)
  next
    case False
    then show ?thesis
      using yoff off [of 1] off [of 3] bound [of "c mod 2 * 2"] bound [of 1] bound [of 3] m
      by (simp add: packed_yuv_def Let_def yuv_at_def packed_at_def vec_at_def)
  qed
qed

lemma nv12_yuv_value:
  assumes "c < w" and "even w" and "even h" and "w < 2 ^ 32" and "h < 2 ^ 32" and "r < h" and "unat height = h"
    and "s = 0 \<or> w \<le> unat s"
    and "max w (unat s) * h + max w (unat s) * (h div 2) \<le> length buf"
    and "max w (unat s) * h + max w (unat s) * (h div 2) < 2 ^ 64"
  shows "nv12_yuv buf s height c r = Some (nv12_at buf (unat s) h c r)"
proof -
  let ?s = "unat s"
  have r2: "r div 2 < h div 2" using assms(3, 6) by (auto elim!: evenE)
  have "c div 2 < w div 2" using assms(1, 2) by (auto elim!: evenE)
  then have pair: "c div 2 * 2 + 2 \<le> w" using assms(2) by (auto elim!: evenE)
  note cs = unat_small_div_mod [of c] and rs = unat_small_div_mod [of r]
  have c32: "c < 2 ^ 32" and r32: "r < 2 ^ 32" using assms(1, 4, 5, 6) by linarith+
  have h0: "0 < h div 2" using r2 by linarith
  have total: "?s * h + r div 2 * ?s + w \<le> max w ?s * h + max w ?s * (h div 2)"
  proof -
    have "?s * h \<le> max w ?s * h" by (intro mult_le_mono1) simp
    moreover have "r div 2 * ?s + w \<le> max w ?s * (h div 2)"
    proof -
      have "r div 2 * ?s + w \<le> r div 2 * max w ?s + max w ?s" by (intro add_mono mult_le_mono2) simp_all
      also have "\<dots> = Suc (r div 2) * max w ?s" by simp
      also have "\<dots> \<le> h div 2 * max w ?s" using r2 by (intro mult_le_mono1) simp
      finally show ?thesis by (simp add: mult.commute)
    qed
    ultimately show ?thesis by linarith
  qed
  have luma: "r * ?s + c < ?s * h + r div 2 * ?s + w"
  proof -
    have "r * ?s \<le> h * ?s" using assms(6) by (intro mult_le_mono1) simp
    then have "r * ?s \<le> ?s * h" by (simp add: mult.commute)
    then show ?thesis using assms(1) by linarith
  qed
  have row: "unat (word_of_nat r * s :: u64) = r * ?s"
  proof (rule unat_row_offset)
    show "r * ?s < 2 ^ 64" using luma total assms(10) by linarith
    show "r < 2 ^ 64" using r32 by simp
  qed
  have y: "unat (word_of_nat r * s + word_of_nat c :: u64) = r * ?s + c"
    using unat_add_small [OF row cs(3) [OF c32]] luma total assms(10) by linarith
  have plane: "unat (s * height) = ?s * h" using unat_mult_small [OF refl assms(7), of s] total assms(10) by linarith
  have crow: "unat (word_of_nat r div 2 * s :: u64) = r div 2 * ?s"
    using unat_mult_small [OF rs(1) [OF r32] refl, of s] total assms(10) by linarith
  have cpair: "unat (word_of_nat c div 2 * 2 :: u64) = c div 2 * 2"
    using unat_mult_small [OF cs(1) [OF c32], of 2 2] pair assms(4) by simp
  have prow: "unat (s * height + word_of_nat r div 2 * s) = ?s * h + r div 2 * ?s"
    using unat_add_small [OF plane crow] total assms(10) by linarith
  have u: "unat (s * height + word_of_nat r div 2 * s + word_of_nat c div 2 * 2) = ?s * h + r div 2 * ?s + c div 2 * 2"
    using unat_add_small [OF prow cpair] total pair assms(10) by linarith
  have v: "unat (s * height + word_of_nat r div 2 * s + word_of_nat c div 2 * 2 + 1) = ?s * h + r div 2 * ?s + c div 2 * 2 + 1"
    using unat_add_small [OF u, of 1 1] total pair assms(10) by simp
  have "r * ?s + c < length buf" "?s * h + r div 2 * ?s + c div 2 * 2 + 1 < length buf"
    using luma total pair assms(9) by linarith+
  then show ?thesis
    using y u v by (simp add: nv12_yuv_def Let_def yuv_at_def nv12_at_def vec_at_def)
qed


section \<open>YUV frames\<close>

definition frame_yuv_at :: "sCameraFrame \<Rightarrow> nat \<Rightarrow> nat \<Rightarrow> int \<times> int \<times> int" where
  "frame_yuv_at f c r =
     (let d = cm_description f; s = unat (fd_row_stride d) in
      if fd_pixel_format d = Nv12 then nv12_at (cm_data f) s (unat (fd_height d)) c r
      else packed_at (fd_pixel_format d = Uyvy422) (cm_data f) s c r)"

lemma packed_frame_samples:
  assumes "frame_valid f" and "isPackedYuv422 (fd_pixel_format (cm_description f))"
    and "c < unat (fd_width (cm_description f))" and "r < unat (fd_height (cm_description f))"
    and "unat s \<le> stride_of (cm_description f)"
  shows "packed_yuv uyvy (cm_data f) s c r = Some (packed_at uyvy (cm_data f) (unat s) c r)"
proof -
  let ?d = "cm_description f"
  have fmt: "fd_pixel_format ?d = Uyvy422 \<or> fd_pixel_format ?d = Yuyv422" using assms(2) by (simp add: isPackedYuv422_def)
  then have mj: "fd_pixel_format ?d \<noteq> Mjpeg" by auto
  have row: "packed_row ?d = 2 * unat (fd_width ?d)" using fmt by (auto simp: packed_row_def)
  have even: "even (unat (fd_width ?d))" using frame_valid_layout(1) [OF assms(1) mj] fmt by (auto simp: layout_ok_def)
  have "r * unat s \<le> r * stride_of ?d" by (rule mult_le_mono2 [OF assms(5)])
  then have "r * unat s + 2 * unat (fd_width ?d) \<le> length (cm_data f)" "r * unat s + 2 * unat (fd_width ?d) < 2 ^ 64"
    using frame_row_bounds [OF assms(1) mj assms(4)] row by linarith+
  moreover have "unat (fd_width ?d) < 2 ^ 32" "r < 2 ^ 32"
    using unat_lt_size [of "fd_width ?d"] unat_lt_size [of "fd_height ?d"] assms(4) by simp_all
  ultimately show ?thesis using packed_yuv_value [OF assms(3) even] by blast
qed

lemma frame_yuv_value:
  assumes "frame_valid f" and fmt: "fd_pixel_format (cm_description f) \<in> {Yuyv422, Uyvy422, Nv12}"
    and c: "c < unat (fd_width (cm_description f))" and r: "r < unat (fd_height (cm_description f))"
  shows "frame_yuv f c r = Some (frame_yuv_at f c r)"
proof (cases "fd_pixel_format (cm_description f) = Nv12")
  case False
  then have "isPackedYuv422 (fd_pixel_format (cm_description f))" using fmt by (auto simp: isPackedYuv422_def)
  from packed_frame_samples [OF assms(1) this c r raw_stride_le] False show ?thesis
    by (simp add: frame_yuv_def frame_yuv_at_def Let_def)
next
  case True
  let ?d = "cm_description f"
  let ?w = "unat (fd_width ?d)" and ?h = "unat (fd_height ?d)" and ?s = "unat (fd_row_stride ?d)"
  have mj: "fd_pixel_format ?d \<noteq> Mjpeg" using True by simp
  note layout = frame_valid_layout [OF assms(1) mj]
  have row: "packed_row ?d = ?w" using True by (simp add: packed_row_def)
  have ge: "?w \<le> stride_of ?d" using layout(1) row by (simp add: layout_ok_def)
  have stride: "stride_of ?d = max ?w ?s" and small: "fd_row_stride ?d = 0 \<or> ?w \<le> ?s"
    using ge row by (cases "fd_row_stride ?d = 0"; simp add: stride_of_def)+
  have "layout_size ?d = max ?w ?s * ?h + max ?w ?s * (?h div 2)" using True stride by (simp add: layout_size_def)
  then have "max ?w ?s * ?h + max ?w ?s * (?h div 2) \<le> length (cm_data f)"
    "max ?w ?s * ?h + max ?w ?s * (?h div 2) < 2 ^ 64" using layout(2, 3) by simp_all
  moreover have "even ?w" "even ?h" using layout(1) True by (auto simp: layout_ok_def)
  moreover have "?w < 2 ^ 32" "?h < 2 ^ 32" using unat_lt_size [of "fd_width ?d"] unat_lt_size [of "fd_height ?d"] by simp_all
  ultimately have "nv12_yuv (cm_data f) (fd_row_stride ?d) (ucast (fd_height ?d)) c r = Some (nv12_at (cm_data f) ?s ?h c r)"
    using nv12_yuv_value [OF c _ _ _ _ r] small by simp
  then show ?thesis using True by (simp add: frame_yuv_def frame_yuv_at_def Let_def)
qed

lemma yuv_image_value:
  assumes "frame_valid f" and "fd_pixel_format (cm_description f) \<in> {Yuyv422, Uyvy422, Nv12}"
  defines "w \<equiv> unat (fd_width (cm_description f))" and "h \<equiv> unat (fd_height (cm_description f))"
  shows "convertYuvFrameToImage True image_out f = Some (success_status,
     \<lparr>im_width = w, im_height = h, im_pixels = map (\<lambda>(c, r). rgb_of (frame_yuv_at f c r)) (positions w h)\<rparr>)"
proof -
  have "frame_yuv f c r = Some (frame_yuv_at f c r)" if "(c, r) \<in> set (positions w h)" for c r
    using that frame_yuv_value [OF assms(1, 2)] by (auto simp: set_positions w_def h_def)
  from rgb_pixels_value [OF this] show ?thesis
    using assms(1) by (simp add: convertYuvFrameToImage_def validateFrameData_def camera_error.ok_none Let_def w_def h_def)
qed

lemma bgra_of_rgb: "bgra_of s = [rgb_of s ! 2, rgb_of s ! 1, rgb_of s ! 0, 255]"
  by (simp add: bgra_of_def rgb_of_def split: prod.splits)

lemma bgra_loop_value:
  assumes "length pre = 4 * k" and "length post = 4 * m" and "k + m \<le> w * h" and "0 < w" and "w < 2 ^ 32" and "h < 2 ^ 32"
    and "w * h * 4 < 2 ^ 64" and "unat rs = w * 4"
    and "\<And>i. k \<le> i \<Longrightarrow> i < k + m \<Longrightarrow> samples (i mod w) (i div w) = Some (S (i mod w) (i div w))"
  shows "bgra_loop samples rs (map (\<lambda>i. (i mod w, i div w)) [k..<k + m]) (pre @ post)
    = Some (pre @ concat (map (\<lambda>i. bgra_of (S (i mod w) (i div w))) [k..<k + m]))"
  using assms(1, 2, 3, 9)
proof (induction m arbitrary: k pre post)
  case 0
  then show ?case by simp
next
  case (Suc m)
  let ?c = "k mod w" and ?r = "k div w"
  obtain y u v where s: "S ?c ?r = (y, u, v)" by (cases "S ?c ?r")
  have k: "k < w * h" using Suc.prems(3) by simp
  have c: "?c < w" using assms(4) by simp
  have r: "?r < h" using k by (simp add: less_mult_imp_div_less mult.commute)
  have flat: "?r * (w * 4) + ?c * 4 = 4 * k"
  proof -
    have "a * (w * 4) + b * 4 = 4 * (a * w + b)" for a b :: nat by (simp add: algebra_simps)
    then show ?thesis by (simp only: div_mult_mod_eq)
  qed
  have k4: "4 * k < 2 ^ 64" using k assms(7) by linarith
  have row: "unat (word_of_nat ?r * rs :: u64) = ?r * (w * 4)"
  proof -
    have "?r * unat rs < 2 ^ 64" unfolding assms(8) using flat k4 by linarith
    moreover have "?r < 2 ^ 64" using r assms(6) by simp
    ultimately show ?thesis using unat_row_offset [of ?r rs] assms(8) by simp
  qed
  have col: "unat (word_of_nat ?c * 4 :: u64) = ?c * 4"
    using c assms(5) by (intro unat_mult_small) (simp_all add: unat_of_nat)
  have off: "unat (word_of_nat ?r * rs + word_of_nat ?c * 4 :: u64) = 4 * k"
    using unat_add_small [OF row col] flat k4 by simp
  let ?px = "bgra_of (S ?c ?r)"
  have len: "length ?px = 4" by (simp add: bgra_of_rgb)
  have post: "write_bytes (pre @ post) (4 * k) ?px = Some ((pre @ ?px) @ drop 4 post)"
    using Suc.prems(1, 2) len by (simp add: write_bytes_def)
  have range: "[k..<k + Suc m] = k # [Suc k..<Suc k + m]" by (simp add: upt_rec)
  have "bgra_loop samples rs (map (\<lambda>i. (i mod w, i div w)) [Suc k..<Suc k + m]) ((pre @ ?px) @ drop 4 post)
    = Some ((pre @ ?px) @ concat (map (\<lambda>i. bgra_of (S (i mod w) (i div w))) [Suc k..<Suc k + m]))"
    using Suc.IH [of "pre @ ?px" "Suc k" "drop 4 post"] Suc.prems len by simp
  moreover have "samples ?c ?r = Some (y, u, v)" using Suc.prems(4) [of k] s by simp
  moreover obtain red green blue where rgb: "yuvToRgb y u v = (red, green, blue)" by (cases "yuvToRgb y u v")
  moreover have "?px = [blue, green, red, 255]" using s rgb by (simp add: bgra_of_def)
  ultimately show ?case using post off unfolding range by (simp add: Let_def del: upt_Suc)
qed

lemma bgra_frame_value:
  assumes "frame_valid f" and packed: "isPackedYuv422 (fd_pixel_format (cm_description f))"
    and "length (cm_data f) < 2 ^ 63"
  defines "d \<equiv> cm_description f"
  defines "w \<equiv> unat (fd_width d)" and "h \<equiv> unat (fd_height d)"
  shows "\<exists>g. packedYuvToBgra True f = Some (Success g) \<and> frame_valid g
    \<and> fd_width (cm_description g) = fd_width d \<and> fd_height (cm_description g) = fd_height d
    \<and> fd_pixel_format (cm_description g) = Bgra8 \<and> stride_of (cm_description g) = w * 4
    \<and> cm_sequence g = cm_sequence f \<and> cm_timestamp g = cm_timestamp f
    \<and> cm_data g = concat (map (\<lambda>(c, r). bgra_of (packed_at (fd_pixel_format d = Uyvy422) (cm_data f) (stride_of d) c r))
        (positions w h))"
proof -
  have mj: "fd_pixel_format d \<noteq> Mjpeg" using packed by (auto simp: isPackedYuv422_def d_def)
  note layout = frame_valid_layout [OF assms(1) mj [unfolded d_def], folded d_def]
  have row: "packed_row d = w * 2" using packed by (auto simp: isPackedYuv422_def packed_row_def w_def d_def)
  have pos: "0 < w" "0 < h" using layout(1) row by (auto simp: layout_ok_def h_def)
  have dims: "w < 2 ^ 32" "h < 2 ^ 32" using unat_lt_size [of "fd_width d"] unat_lt_size [of "fd_height d"] by (simp_all add: w_def h_def)
  have "h * (w * 2) \<le> h * stride_of d" using layout(1) row by (intro mult_le_mono2) (simp add: layout_ok_def)
  also have "\<dots> = layout_size d" using packed by (auto simp: layout_size_def isPackedYuv422_def h_def d_def)
  finally have area: "w * h * 4 < 2 ^ 64" using layout(3) assms(3) by (simp add: ac_simps)
  define r0 where "r0 = \<lparr>fd_width = fd_width d, fd_height = fd_height d, fd_pixel_format = Bgra8, fd_row_stride = (0 :: u64)\<rparr>"
  define g where "g = r0\<lparr>fd_row_stride := minimumRowStride r0\<rparr>"
  have min: "unat (minimumRowStride r0) = w * 4" by (simp add: minimumRowStride_exact packed_row_def r0_def w_def)
  have fg: "packed_row g = w * 4" "fd_height g = fd_height d" "fd_width g = fd_width d" "fd_pixel_format g = Bgra8"
    by (simp_all add: g_def r0_def packed_row_def w_def)
  have rs: "unat (fd_row_stride g) = w * 4" using min by (simp add: g_def)
  then have sg: "stride_of g = w * 4" using fg(1) by (simp add: stride_of_def)
  have lg: "layout_ok g" "layout_size g = w * h * 4"
    using pos fg sg by (simp_all add: layout_ok_def layout_size_def h_def ac_simps)
  then have mg: "unat (memorySize g) = w * h * 4" using area by (simp add: camera_memory_size_value)
  then have "0 < memorySize g" using pos by (simp add: word_less_nat_alt)
  moreover have "fd_width d \<noteq> 0" "fd_height d \<noteq> 0" using pos by (auto simp: w_def h_def)
  ultimately have dv: "description_valid g" using fg by (simp add: description_valid_def)
  let ?uyvy = "fd_pixel_format d = Uyvy422"
  let ?stride = "if fd_row_stride d \<noteq> 0 then fd_row_stride d else minimumRowStride d"
  have st: "unat ?stride = stride_of d" by (simp add: stride_of_def minimumRowStride_exact)
  let ?samples = "packed_yuv ?uyvy (cm_data f) ?stride"
  have flat: "positions w h = map (\<lambda>i. (i mod w, i div w)) [0..<0 + w * h]" using positions_flat [OF pos(1)] by simp
  have samples: "?samples (i mod w) (i div w) = Some (packed_at ?uyvy (cm_data f) (stride_of d) (i mod w) (i div w))"
    if "i < 0 + w * h" for i
  proof -
    have "i mod w < w" "i div w < h" using that pos(1) by (simp_all add: less_mult_imp_div_less mult.commute)
    then show ?thesis
      using packed_frame_samples [OF assms(1) packed, of "i mod w" "i div w" ?stride ?uyvy] st
      by (simp add: w_def h_def d_def)
  qed
  let ?bytes = "concat (map (\<lambda>i. bgra_of (packed_at ?uyvy (cm_data f) (stride_of d) (i mod w) (i div w))) [0..<0 + w * h])"
  have "bgra_loop ?samples (fd_row_stride g) (positions w h) (replicate (unat (memorySize g)) 0) = Some ?bytes"
    using bgra_loop_value [of "[]" 0 "replicate (w * h * 4) 0" "w * h" w h "fd_row_stride g" ?samples
        "packed_at ?uyvy (cm_data f) (stride_of d)"] pos dims area rs samples mg
    by (simp add: flat)
  then have run: "packedYuvToBgra True f = Some (Success \<lparr>cm_description = g, cm_data = ?bytes,
      cm_sequence = cm_sequence f, cm_timestamp = cm_timestamp f\<rparr>)"
    using assms(1) packed dv
    unfolding packedYuvToBgra_def Let_def d_def [symmetric] r0_def [symmetric] g_def [symmetric] w_def [symmetric]
      h_def [symmetric]
    by simp
  have "\<forall>p \<in> set (map (\<lambda>i. bgra_of (packed_at ?uyvy (cm_data f) (stride_of d) (i mod w) (i div w))) [0..<0 + w * h]).
      length p = 4" by (auto simp: bgra_of_rgb)
  from length_concat_uniform [OF this] have "length ?bytes = w * h * 4" by simp
  then have "frame_valid \<lparr>cm_description = g, cm_data = ?bytes, cm_sequence = cm_sequence f, cm_timestamp = cm_timestamp f\<rparr>"
    using dv fg mg by (simp add: frame_valid_def)
  moreover have "?bytes = concat (map (\<lambda>(c, r). bgra_of (packed_at ?uyvy (cm_data f) (stride_of d) c r)) (positions w h))"
    by (simp add: flat o_def)
  ultimately show ?thesis
    using run fg sg by (intro exI [of _ "\<lparr>cm_description = g, cm_data = ?bytes, cm_sequence = cm_sequence f,
      cm_timestamp = cm_timestamp f\<rparr>"]) simp
qed


section \<open>Properties\<close>

text \<open>Converting a frame to an image of a mapped format is a total function of the frame: another
  format and a frame that disagrees with its data are refused with the image unchanged, every valid
  frame gives its rows, whatever its stride is, zero included, and no other outcome (in particular
  the layout refusal after the validation) can happen when the allocation succeeds.\<close>

theorem camera_to_image_exact:
  assumes "length (cm_data f) < 2 ^ 64"
  shows "convertFrameToImage pf True image_out f = Some
    (if coreFormatOf (fd_pixel_format (cm_description f)) \<noteq> Some pf then (Failure no_mapping, image_out)
     else if \<not> frame_valid f then (Failure frame_disagrees, image_out)
     else (success_status, pixel_image (getDataNum pf * sample_size pf) (unat (fd_width (cm_description f)))
             (unat (fd_height (cm_description f))) (frame_rows f)))"
  by (rule frame_to_image_value [OF assms])

theorem camera_to_image_exact_witness:
  "convertFrameToImage CH1D8 True \<lparr>im_width = 0, im_height = 0, im_pixels = []\<rparr>
     \<lparr>cm_description = \<lparr>fd_width = 1, fd_height = 2, fd_pixel_format = Gray8, fd_row_stride = 0\<rparr>,
      cm_data = [1, 2], cm_sequence = 0, cm_timestamp = 0\<rparr>
   = Some (success_status, \<lparr>im_width = 1, im_height = 2, im_pixels = [[1], [2]]\<rparr>)"
proof -
  let ?f = "\<lparr>cm_description = \<lparr>fd_width = 1, fd_height = 2, fd_pixel_format = Gray8, fd_row_stride = 0\<rparr>,
             cm_data = [1, 2], cm_sequence = 0, cm_timestamp = 0\<rparr>"
  have "layout_ok (cm_description ?f)" "layout_size (cm_description ?f) = 2"
    by (simp_all add: layout_ok_def layout_size_def packed_row_def stride_of_def)
  then have "unat (memorySize (cm_description ?f)) = 2" by (simp add: camera_memory_size_value)
  moreover from this have "0 < memorySize (cm_description ?f)" by (simp add: word_less_nat_alt)
  ultimately have "frame_valid ?f" by (simp add: frame_valid_def description_valid_def)
  moreover have "[0..<2] = [0, 1 :: nat]" by (simp add: upt_rec)
  ultimately show ?thesis
    using camera_to_image_exact [of ?f CH1D8 "\<lparr>im_width = 0, im_height = 0, im_pixels = []\<rparr>"]
    by (simp add: frame_row_def frame_rows_def packed_row_def stride_of_def pixel_image_def getDataNum_def
        sample_size_def getBitDepth_def)
qed

text \<open>An image survives the way through a camera frame: writing an image of a format that has a
  frame format gives a packed frame of its pixels, and reading that frame back as the same format gives
  the image, as long as both extents fit the 32-bit fields of the description.  (The fields are
  narrowed without a check.)\<close>

theorem camera_image_roundtrip:
  assumes "frameFormatOf pf = Some fmt" and "format_image pf im" and "im_width im \<noteq> 0" and "im_height im \<noteq> 0"
    and area: "im_width im * im_height im * (getDataNum pf * sample_size pf) < 2 ^ 64"
  shows "\<exists>f. toCameraFrame pf True im = Some (Success f)
    \<and> fd_width (cm_description f) = word_of_nat (im_width im) \<and> fd_height (cm_description f) = word_of_nat (im_height im)
    \<and> fd_pixel_format (cm_description f) = fmt \<and> cm_data f = concat (im_pixels im)
    \<and> (im_width im < 2 ^ 32 \<and> im_height im < 2 ^ 32 \<longrightarrow>
        frame_valid f \<and> convertFrameToImage pf True image_out f = Some (success_status, im))"
proof -
  let ?w = "im_width im" and ?h = "im_height im"
  let ?f = "\<lparr>cm_description = \<lparr>fd_width = word_of_nat ?w, fd_height = word_of_nat ?h, fd_pixel_format = fmt,
      fd_row_stride = word_of_nat (?w * pixel_bytes pf)\<rparr>,
    cm_data = concat (im_pixels im), cm_sequence = 0, cm_timestamp = 0\<rparr>"
  have run: "toCameraFrame pf True im = Some (Success ?f)"
    using image_to_frame_value [OF assms(2-5)] assms(1) by (simp add: toCameraFrame_def)
  have core: "coreFormatOf fmt = Some pf" by (rule frame_format_core [OF assms(1)])
  note px = core_format_pixel [OF core]
  have len: "length (concat (im_pixels im)) = ?w * ?h * pixel_bytes pf"
    using length_concat_uniform [of "im_pixels im" "pixel_bytes pf"] assms(2) by (simp add: format_image_def wf_image_def)
  have again: "frame_valid ?f \<and> convertFrameToImage pf True image_out ?f = Some (success_status, im)"
    if dims: "?w < 2 ^ 32" "?h < 2 ^ 32"
  proof -
    have nz: "format_bytes fmt \<noteq> 0" using px(1) pixel_bytes_range [of pf] by (metis unat_0 less_numeral_extra(3))
    have "unat (ucast (word_of_nat ?w :: u32) * format_bytes fmt :: u64) = ?w * pixel_bytes pf"
      using unat_row_product [OF format_bytes_small, of "word_of_nat ?w" fmt] px(1) dims(1) by (simp add: unat_of_nat)
    moreover have "?w * pixel_bytes pf < 2 ^ 64"
    proof -
      have "1 * (?w * pixel_bytes pf) \<le> ?h * (?w * pixel_bytes pf)" using assms(4) by (intro mult_le_mono1) simp
      moreover have "?h * (?w * pixel_bytes pf) < 2 ^ 64" using area by (simp add: ac_simps)
      ultimately show ?thesis by linarith
    qed
    ultimately have stride: "ucast (word_of_nat ?w :: u32) * format_bytes fmt = (word_of_nat (?w * pixel_bytes pf) :: u64)"
      by (simp add: word_unat_eq_iff unat_of_nat del: of_nat_mult)
    have pos: "0 < ?w" "0 < ?h" using assms(3, 4) by simp_all
    have size: "?w * ?h * unat (format_bytes fmt) < 2 ^ 64" "length (concat (im_pixels im)) = ?w * ?h * unat (format_bytes fmt)"
      using area px(1) len by simp_all
    note g = packed_frame_valid [OF px(2) nz pos dims size(1) size(2), unfolded stride]
    have valid: "frame_valid ?f" using g(1) by simp
    have "frame_rows ?f = concat (im_pixels im)"
      using frame_rows_packed [of ?f] g(2-5) len px(1) by (simp add: ac_simps)
    moreover have "pixel_image (pixel_bytes pf) ?w ?h (concat (im_pixels im)) = im"
      using pixel_image_concat [of "im_pixels im" "pixel_bytes pf" ?w ?h] assms(2)
      by (simp add: format_image_def wf_image_def)
    moreover have "length (cm_data ?f) < 2 ^ 64" using len area by simp
    ultimately have "convertFrameToImage pf True image_out ?f = Some (success_status, im)"
      using frame_to_image_value [of ?f pf image_out] valid core g(2, 3) by simp
    with valid show ?thesis by blast
  qed
  show ?thesis using run again by (intro exI [of _ ?f]) simp
qed

theorem camera_image_roundtrip_witness:
  "\<exists>f. toCameraFrame CH1D16 True \<lparr>im_width = 1, im_height = 2, im_pixels = [[1, 2], [3, 4]]\<rparr> = Some (Success f)
    \<and> frame_valid f \<and> convertFrameToImage CH1D16 True \<lparr>im_width = 0, im_height = 0, im_pixels = []\<rparr> f
      = Some (success_status, \<lparr>im_width = 1, im_height = 2, im_pixels = [[1, 2], [3, 4]]\<rparr>)"
proof -
  let ?im = "\<lparr>im_width = 1, im_height = 2, im_pixels = [[1, 2], [3, 4 :: u8]]\<rparr>"
  have pb: "getDataNum CH1D16 * sample_size CH1D16 = 2" by (simp add: getDataNum_def sample_size_def getBitDepth_def)
  then have "format_image CH1D16 ?im" by (simp add: format_image_def wf_image_def)
  from camera_image_roundtrip [OF _ this, of Gray16 "\<lparr>im_width = 0, im_height = 0, im_pixels = []\<rparr>"] pb
  show ?thesis by auto
qed

text \<open>Decoding a valid YUV frame stays inside its data and no offset wraps: packed 4:2:2 and NV12 frames
  give one RGB pixel per position, from the samples at the offsets of its row and of its chroma pair.
  The row offset uses the stored stride, so a frame that leaves it zero is decoded from its first row
  only.\<close>

theorem camera_yuv_image_exact:
  assumes "frame_valid f" and "fd_pixel_format (cm_description f) \<in> {Yuyv422, Uyvy422, Nv12}"
  shows "toImage CH3D8 True image_out f = Some (success_status,
     \<lparr>im_width = unat (fd_width (cm_description f)), im_height = unat (fd_height (cm_description f)),
      im_pixels = map (\<lambda>(c, r). rgb_of (frame_yuv_at f c r))
        (positions (unat (fd_width (cm_description f))) (unat (fd_height (cm_description f))))\<rparr>)"
  using yuv_image_value [OF assms] assms(2) by (simp add: toImage_def)

theorem camera_yuv_image_exact_witness:
  "toImage CH3D8 True \<lparr>im_width = 0, im_height = 0, im_pixels = []\<rparr>
     \<lparr>cm_description = \<lparr>fd_width = 2, fd_height = 1, fd_pixel_format = Yuyv422, fd_row_stride = 4\<rparr>,
      cm_data = [16, 128, 235, 128], cm_sequence = 0, cm_timestamp = 0\<rparr>
   = Some (success_status, \<lparr>im_width = 2, im_height = 1, im_pixels = [[0, 0, 0], [255, 255, 255]]\<rparr>)"
proof -
  let ?f = "\<lparr>cm_description = \<lparr>fd_width = 2, fd_height = 1, fd_pixel_format = Yuyv422, fd_row_stride = 4\<rparr>,
      cm_data = [16, 128, 235, 128], cm_sequence = 0, cm_timestamp = 0\<rparr>"
  have "layout_ok (cm_description ?f)" "layout_size (cm_description ?f) = 4"
    by (simp_all add: layout_ok_def layout_size_def packed_row_def stride_of_def)
  then have "unat (memorySize (cm_description ?f)) = 4" by (simp add: camera_memory_size_value)
  moreover from this have "0 < memorySize (cm_description ?f)" by (simp add: word_less_nat_alt)
  ultimately have "frame_valid ?f" by (simp add: frame_valid_def description_valid_def)
  moreover have "frame_yuv_at ?f 0 0 = (16, 128, 128)" "frame_yuv_at ?f 1 0 = (235, 128, 128)"
    by (simp_all add: frame_yuv_at_def packed_at_def Let_def)
  moreover have "rgb_of (16, 128, 128) = [0, 0, 0]" "rgb_of (235, 128, 128) = [255, 255, 255]"
    by (simp_all add: rgb_of_def yuvToRgb_def clamp_def Let_def)
  moreover have "positions 2 1 = [(0, 0), (1, 0)]" by (simp add: positions_def upt_rec)
  moreover have "unat (2 :: u32) = 2" "unat (1 :: u32) = 1" by simp_all
  ultimately show ?thesis
    using camera_yuv_image_exact [of ?f "\<lparr>im_width = 0, im_height = 0, im_pixels = []\<rparr>"]
    by (simp del: One_nat_def)
qed

text \<open>The two decoders of packed 4:2:2 agree: for a valid frame with an explicit stride the BGRA frame
  of the adapters is valid, has the source's extent and identification, and holds exactly the RGB
  image's pixels in the order blue, green, red with full alpha.\<close>

theorem camera_yuv_decoders_agree:
  assumes "frame_valid f" and "isPackedYuv422 (fd_pixel_format (cm_description f))"
    and "fd_row_stride (cm_description f) \<noteq> 0" and "length (cm_data f) < 2 ^ 63"
  shows "\<exists>im g. toImage CH3D8 True image_out f = Some (success_status, im)
    \<and> packedYuvToBgra True f = Some (Success g) \<and> frame_valid g
    \<and> fd_width (cm_description g) = fd_width (cm_description f) \<and> fd_height (cm_description g) = fd_height (cm_description f)
    \<and> cm_sequence g = cm_sequence f \<and> cm_timestamp g = cm_timestamp f
    \<and> cm_data g = concat (map (\<lambda>p. [p ! 2, p ! 1, p ! 0, 255]) (im_pixels im))"
proof -
  let ?d = "cm_description f"
  have fmt: "fd_pixel_format ?d \<in> {Yuyv422, Uyvy422, Nv12}" "fd_pixel_format ?d \<noteq> Nv12"
    using assms(2) by (auto simp: isPackedYuv422_def)
  have stride: "stride_of ?d = unat (fd_row_stride ?d)" using assms(3) by (simp add: stride_of_def)
  have same: "frame_yuv_at f = packed_at (fd_pixel_format ?d = Uyvy422) (cm_data f) (stride_of ?d)"
    using fmt(2) stride by (intro ext) (simp add: frame_yuv_at_def Let_def)
  note im = yuv_image_value [OF assms(1) fmt(1), of image_out]
  have run: "toImage CH3D8 True image_out f = convertYuvFrameToImage True image_out f"
    using fmt(1) by (simp add: toImage_def)
  let ?S = "packed_at (fd_pixel_format ?d = Uyvy422) (cm_data f) (stride_of ?d)"
  let ?ps = "positions (unat (fd_width ?d)) (unat (fd_height ?d))"
  let ?im = "\<lparr>im_width = unat (fd_width ?d), im_height = unat (fd_height ?d),
      im_pixels = map (\<lambda>(c, r). rgb_of (frame_yuv_at f c r)) ?ps\<rparr>"
  have px: "map (\<lambda>p. [p ! 2, p ! 1, p ! 0, 255]) (im_pixels ?im) = map (\<lambda>(c, r). bgra_of (?S c r)) ?ps"
    unfolding same by (simp add: bgra_of_rgb split_def o_def)
  from bgra_frame_value [OF assms(1, 2, 4)] obtain g where g:
    "packedYuvToBgra True f = Some (Success g)" "frame_valid g" "fd_width (cm_description g) = fd_width ?d"
    "fd_height (cm_description g) = fd_height ?d" "cm_sequence g = cm_sequence f" "cm_timestamp g = cm_timestamp f"
    "cm_data g = concat (map (\<lambda>(c, r). bgra_of (?S c r)) ?ps)"
    by (elim exE conjE) (rule that)
  show ?thesis
    by (intro exI [of _ ?im] exI [of _ g] conjI g(1-6)) (simp_all only: im run px g(7))
qed

theorem camera_yuv_decoders_agree_witness:
  "\<exists>g. packedYuvToBgra True
     \<lparr>cm_description = \<lparr>fd_width = 2, fd_height = 1, fd_pixel_format = Uyvy422, fd_row_stride = 4\<rparr>,
      cm_data = [128, 16, 128, 235], cm_sequence = 5, cm_timestamp = 0\<rparr> = Some (Success g) \<and> frame_valid g \<and> cm_sequence g = 5"
proof -
  let ?f = "\<lparr>cm_description = \<lparr>fd_width = 2, fd_height = 1, fd_pixel_format = Uyvy422, fd_row_stride = 4\<rparr>,
      cm_data = [128, 16, 128, 235], cm_sequence = 5, cm_timestamp = 0\<rparr>"
  have "layout_ok (cm_description ?f)" "layout_size (cm_description ?f) = 4"
    by (simp_all add: layout_ok_def layout_size_def packed_row_def stride_of_def)
  then have "unat (memorySize (cm_description ?f)) = 4" by (simp add: camera_memory_size_value)
  moreover from this have "0 < memorySize (cm_description ?f)" by (simp add: word_less_nat_alt)
  ultimately have v: "frame_valid ?f" by (simp add: frame_valid_def description_valid_def)
  have p: "isPackedYuv422 (fd_pixel_format (cm_description ?f))" "fd_row_stride (cm_description ?f) \<noteq> 0"
    "length (cm_data ?f) < 2 ^ 63" by (simp_all add: isPackedYuv422_def)
  have s: "cm_sequence ?f = 5" by simp
  from camera_yuv_decoders_agree [OF v p, of "\<lparr>im_width = 0, im_height = 0, im_pixels = []\<rparr>", unfolded s]
  show ?thesis by (elim exE conjE) (intro exI conjI)
qed

end
