(* ===== verification/CameraSession.thy ===== *)
theory CameraSession
  imports CameraTypes
begin

text \<open>
  The portable camera session (\<open>core/tmr/camera/Camera.cpp\<close>, \<open>core/tmr/camera/CameraBackend.h\<close>):
  the backend interface, the session with its callback worker, every operation of the session and
  the worker's loop.  Backends and workers are shared objects, so the session holds their indices
  in two stores.  A caller is \<open>None\<close> (a thread that is not the callback thread) or \<open>Some w\<close> (the
  callback running on worker \<open>w\<close>).  \<open>Pending\<close> is a join that waits for the worker; \<open>Threw\<close> is an
  exception that leaves the operation.
\<close>

section \<open>The backend interface\<close>

record sCameraOpenDescription =
  od_device :: sCameraDeviceInfo
  od_format :: sCameraFormat
  od_native_pixel_format :: eCameraPixelFormat
  od_allow_format_conversion :: bool

text \<open>The virtual functions of a backend over the state of its object.  What is declared
  \<open>noexcept\<close> only returns.\<close>

record 'b ICameraBackend =
  be_open :: "sCameraOpenDescription \<Rightarrow> 'b \<Rightarrow> CameraStatus reply \<times> 'b"
  be_close :: "'b \<Rightarrow> 'b"
  be_start :: "'b \<Rightarrow> CameraStatus reply \<times> 'b"
  be_stop :: "'b \<Rightarrow> CameraStatus reply \<times> 'b"
  be_readFrame :: "u32 \<Rightarrow> 'b \<Rightarrow> sCameraFrame CameraResult reply \<times> 'b"
  be_getControl :: "eCameraControl \<Rightarrow> 'b \<Rightarrow> sCameraControlValue CameraResult reply \<times> 'b"
  be_setControl :: "sCameraControlValue \<Rightarrow> 'b \<Rightarrow> CameraStatus reply \<times> 'b"
  be_getExtensionUnit :: "sCameraExtensionUnitSelector \<Rightarrow> 'b \<Rightarrow> sCameraExtensionUnitValue CameraResult reply \<times> 'b"
  be_setExtensionUnit :: "sCameraExtensionUnitValue \<Rightarrow> 'b \<Rightarrow> CameraStatus reply \<times> 'b"
  be_isOpen :: "'b \<Rightarrow> bool"
  be_isStreaming :: "'b \<Rightarrow> bool"

text \<open>The defaults of the extension-unit pair, for a backend that does not override them.\<close>

definition default_getExtensionUnit ::
    "sCameraExtensionUnitSelector \<Rightarrow> 'b \<Rightarrow> sCameraExtensionUnitValue CameraResult reply \<times> 'b" where
  "default_getExtensionUnit s b = (Returned (Failure (CameraError_make CamCat_Unsupported
     Cam_UnsupportedExtensionUnit ''Camera backend does not expose UVC extension units.'')), b)"

definition default_setExtensionUnit ::
    "sCameraExtensionUnitValue \<Rightarrow> 'b \<Rightarrow> CameraStatus reply \<times> 'b" where
  "default_setExtensionUnit v b = (Returned (Failure (CameraError_make CamCat_Unsupported
     Cam_UnsupportedExtensionUnit ''Camera backend does not expose UVC extension units.'')), b)"

section \<open>The session and its workers\<close>

type_synonym frame_result = "sCameraFrame CameraResult"

text \<open>Where a worker stands in its task.  \<open>Got\<close>: a read returned.  \<open>Delivering\<close>, \<open>InCallback\<close>:
  the result on its way; the results an exception brings are failures, and a failure ends the loop.\<close>

datatype worker_pc =
    Waiting | Loop_test | Reading | Got frame_result | Delivering frame_result
  | InCallback frame_result | Deactivating | Exiting | Ended

record CallbackState =
  cb_backend :: nat
  cb_stop :: bool
  cb_active :: bool
  cb_published :: bool
  cb_pc :: worker_pc
  cb_delivered :: "frame_result list" \<comment> \<open>what the callback was called with, oldest first\<close>

definition CallbackState_new :: "nat \<Rightarrow> CallbackState" where
  "CallbackState_new b = \<lparr>cb_backend = b, cb_stop = False, cb_active = False, cb_published = False,
     cb_pc = Waiting, cb_delivered = []\<rparr>"

definition allocation_error :: frame_result where
  "allocation_error = Failure (CameraError_make CamCat_Backend Cam_ResourceExhausted
     ''Camera frame allocation failed.'')"

definition backend_error :: frame_result where
  "backend_error = Failure (CameraError_make CamCat_Backend Cam_BackendFailure
     ''Camera frame backend threw an exception.'')"

record 'b CameraSession =
  objects :: "'b list"
  workers :: "CallbackState list"
  backend :: "nat option"
  callback_state :: "nat option"
  callback_thread :: "nat option"
  destroyed :: bool

definition CameraSession_new :: "'b CameraSession" where
  "CameraSession_new = \<lparr>objects = [], workers = [], backend = None, callback_state = None,
     callback_thread = None, destroyed = False\<rparr>"

abbreviation backend_object :: "'b CameraSession \<Rightarrow> nat \<Rightarrow> 'b" where
  "backend_object s i \<equiv> objects s ! i"

definition put_object :: "nat \<Rightarrow> 'b \<Rightarrow> 'b CameraSession \<Rightarrow> 'b CameraSession" where
  "put_object i b s = s\<lparr>objects := (objects s)[i := b]\<rparr>"

definition upd_worker :: "nat \<Rightarrow> (CallbackState \<Rightarrow> CallbackState) \<Rightarrow> 'b CameraSession \<Rightarrow> 'b CameraSession" where
  "upd_worker w f s = s\<lparr>workers := (workers s)[w := f (workers s ! w)]\<rparr>"

definition lifecycle_error :: "eCameraErrorCode \<Rightarrow> string \<Rightarrow> ('a, CameraError) Result" where
  "lifecycle_error code m = Failure (CameraError_make CamCat_Lifecycle code m)"

definition validation_error :: "eCameraErrorCode \<Rightarrow> string \<Rightarrow> ('a, CameraError) Result" where
  "validation_error code m = Failure (CameraError_make CamCat_Validation code m)"

definition session_isOpen :: "'b ICameraBackend \<Rightarrow> 'b CameraSession \<Rightarrow> bool" where
  "session_isOpen B s =
     (case backend s of None \<Rightarrow> False | Some i \<Rightarrow> be_isOpen B (backend_object s i))"

definition session_isStreaming :: "'b ICameraBackend \<Rightarrow> 'b CameraSession \<Rightarrow> bool" where
  "session_isStreaming B s =
     (case backend s of None \<Rightarrow> False | Some i \<Rightarrow> be_isStreaming B (backend_object s i))"

definition isCallbackThread :: "nat option \<Rightarrow> 'b CameraSession \<Rightarrow> bool" where
  "isCallbackThread self s \<longleftrightarrow> callback_state s \<noteq> None \<and> self = callback_state s"

definition callback_active :: "'b CameraSession \<Rightarrow> bool" where
  "callback_active s =
     (case callback_state s of None \<Rightarrow> False | Some w \<Rightarrow> cb_active (workers s ! w))"

section \<open>Starting\<close>

definition reapCallbackThread :: "nat option \<Rightarrow> 'b CameraSession \<Rightarrow> (bool \<times> 'b CameraSession) outcome" where
  "reapCallbackThread self s =
     (if isCallbackThread self s then Done (False, s)
      else case callback_thread s of
          None \<Rightarrow> Done (True, s\<lparr>callback_state := None\<rparr>)
        | Some w \<Rightarrow>
            if cb_pc (workers s ! w) = Ended
            then Done (True, s\<lparr>callback_thread := None, callback_state := None\<rparr>)
            else Pending)"

definition prepareStart ::
    "'b ICameraBackend \<Rightarrow> nat option \<Rightarrow> 'b CameraSession \<Rightarrow> (CameraStatus \<times> 'b CameraSession) outcome" where
  "prepareStart B self s =
     (if callback_active s
      then Done (lifecycle_error Cam_AlreadyStreaming ''Camera callback stream is already active.'', s)
      else obind (reapCallbackThread self s) (\<lambda>(reaped, s').
        if \<not> reaped
        then Done (lifecycle_error Cam_AlreadyStreaming ''A camera callback cannot restart its own worker.'', s')
        else if \<not> session_isOpen B s'
        then Done (lifecycle_error Cam_NotOpen ''Camera must be open before starting a stream.'', s')
        else if session_isStreaming B s'
        then Done (lifecycle_error Cam_AlreadyStreaming ''Camera stream is already active.'', s')
        else Done (Success (), s')))"

text \<open>\<open>startBackend\<close> is called after \<open>prepareStart\<close> succeeded, so there is a backend.\<close>

definition startBackend :: "'b ICameraBackend \<Rightarrow> 'b CameraSession \<Rightarrow> CameraStatus reply \<times> 'b CameraSession" where
  "startBackend B s =
     (case backend s of
        None \<Rightarrow> (Returned (Success ()), s)
      | Some i \<Rightarrow>
          (case be_start B (backend_object s i) of
             (Returned r, b) \<Rightarrow> (Returned r, put_object i b s)
           | (Threw x, b) \<Rightarrow> (Threw x, put_object i (be_close B b) s)))"

definition session_start ::
    "'b ICameraBackend \<Rightarrow> nat option \<Rightarrow> 'b CameraSession \<Rightarrow> (CameraStatus reply \<times> 'b CameraSession) outcome" where
  "session_start B self s = obind (prepareStart B self s) (\<lambda>(prepared, s').
     if \<not> succeeded prepared then Done (Returned prepared, s') else Done (startBackend B s'))"

text \<open>The rollback when the thread could not be launched: stop the backend, close it when that
  fails or throws, and drop the callback state.\<close>

definition launch_rollback :: "'b ICameraBackend \<Rightarrow> nat \<Rightarrow> 'b CameraSession \<Rightarrow> 'b CameraSession" where
  "launch_rollback B i s =
     (let (r, b) = be_stop B (backend_object s i);
          b' = (case r of Returned (Success u) \<Rightarrow> b | _ \<Rightarrow> be_close B b)
      in (put_object i b' s)\<lparr>callback_state := None\<rparr>)"

text \<open>\<open>launch\<close> is what the thread launcher does: return a thread or throw.\<close>

definition session_start_callback ::
    "'b ICameraBackend \<Rightarrow> unit reply \<Rightarrow> bool \<Rightarrow> nat option \<Rightarrow> 'b CameraSession
      \<Rightarrow> (CameraStatus reply \<times> 'b CameraSession) outcome" where
  "session_start_callback B launch has_callback self s =
     (if \<not> has_callback
      then Done (Returned (validation_error Cam_InvalidArgument ''Camera frame callback must not be empty.''), s)
      else obind (prepareStart B self s) (\<lambda>(prepared, s1).
        if \<not> succeeded prepared then Done (Returned prepared, s1)
        else case backend s1 of
            None \<Rightarrow> Undefined
          | Some i \<Rightarrow>
              (case startBackend B s1 of
                 (Returned (Success u), s2) \<Rightarrow>
                   (let w = length (workers s2);
                        cb = (CallbackState_new i)\<lparr>cb_active := True\<rparr>
                    in case launch of
                        Returned _ \<Rightarrow> Done (Returned (Success ()),
                          s2\<lparr>workers := workers s2 @ [cb\<lparr>cb_published := True\<rparr>],
                             callback_state := Some w, callback_thread := Some w\<rparr>)
                      | Threw x \<Rightarrow> Done (Threw x, launch_rollback B i s2))
               | (r, s2) \<Rightarrow> Done (r, s2))))"

section \<open>Stopping and closing\<close>

text \<open>\<open>stop\<close> has three parts: it raises the worker's stop flag; under the backend mutex it stops a
  streaming backend (and closes it if that throws); it joins the worker unless it runs on it.\<close>

definition stop_flag :: "'b CameraSession \<Rightarrow> 'b CameraSession" where
  "stop_flag s =
     (case callback_state s of None \<Rightarrow> s
      | Some w \<Rightarrow> upd_worker w (\<lambda>cb. cb\<lparr>cb_stop := True\<rparr>) s)"

definition stop_backend :: "'b ICameraBackend \<Rightarrow> 'b CameraSession \<Rightarrow> CameraStatus reply \<times> 'b CameraSession" where
  "stop_backend B s =
     (case backend s of
        None \<Rightarrow> (Returned (Success ()), s)
      | Some i \<Rightarrow>
          if \<not> be_isStreaming B (backend_object s i) then (Returned (Success ()), s)
          else (case be_stop B (backend_object s i) of
                  (Returned r, b) \<Rightarrow> (Returned r, put_object i b s)
                | (Threw x, b) \<Rightarrow> (Threw x, put_object i (be_close B b) s)))"

definition session_stop ::
    "'b ICameraBackend \<Rightarrow> nat option \<Rightarrow> 'b CameraSession \<Rightarrow> (CameraStatus reply \<times> 'b CameraSession) outcome" where
  "session_stop B self s =
     (let (r, s1) = stop_backend B (stop_flag s)
      in obind (reapCallbackThread self s1) (\<lambda>(reaped, s2). Done (r, s2)))"

text \<open>What \<open>close\<close> does once its \<open>stop\<close> is over, whether or not that threw.\<close>

definition close_backend :: "'b ICameraBackend \<Rightarrow> 'b CameraSession \<Rightarrow> 'b CameraSession" where
  "close_backend B s =
     (case backend s of None \<Rightarrow> s
      | Some i \<Rightarrow> (put_object i (be_close B (backend_object s i)) s)\<lparr>backend := None\<rparr>)"

definition session_close :: "'b ICameraBackend \<Rightarrow> nat option \<Rightarrow> 'b CameraSession \<Rightarrow> 'b CameraSession outcome" where
  "session_close B self s = obind (session_stop B self s) (\<lambda>(r, s1). Done (close_backend B s1))"

text \<open>The destructor of \<open>Impl\<close>, after \<open>close\<close>: on its own worker it detaches it, elsewhere it joins.\<close>

definition Impl_destructor :: "nat option \<Rightarrow> 'b CameraSession \<Rightarrow> 'b CameraSession outcome" where
  "Impl_destructor self s =
     (case callback_thread s of
        None \<Rightarrow> Done (s\<lparr>destroyed := True\<rparr>)
      | Some w \<Rightarrow>
          if isCallbackThread self s then Done (s\<lparr>callback_thread := None, destroyed := True\<rparr>)
          else if cb_pc (workers s ! w) = Ended then Done (s\<lparr>callback_thread := None, destroyed := True\<rparr>)
          else Pending)"

definition session_destroy :: "'b ICameraBackend \<Rightarrow> nat option \<Rightarrow> 'b CameraSession \<Rightarrow> 'b CameraSession outcome" where
  "session_destroy B self s = obind (session_close B self s) (Impl_destructor self)"

section \<open>Opening\<close>

text \<open>\<open>mk\<close> is \<open>createPlatformCameraBackend\<close>: a fresh backend object, or none on this platform.\<close>

definition session_open ::
    "'b ICameraBackend \<Rightarrow> (eCameraBackend \<Rightarrow> 'b option) \<Rightarrow> sCameraOpenDescription \<Rightarrow> 'b CameraSession
      \<Rightarrow> CameraStatus reply \<times> 'b CameraSession" where
  "session_open B mk d s =
     (if session_isOpen B s then (Returned (lifecycle_error Cam_AlreadyOpen ''Camera is already open.''), s)
      else if \<not> device_valid (od_device d) \<or> \<not> format_valid (od_format d)
      then (Returned (validation_error Cam_InvalidArgument ''Camera open description is invalid.''), s)
      else case mk (di_backend (od_device d)) of
          None \<Rightarrow> (Returned (Failure (CameraError_make CamCat_Unsupported Cam_UnsupportedBackend
            ''Requested camera backend is unavailable on this platform.'')), s)
        | Some b \<Rightarrow>
            (case be_open B d b of
               (Returned (Success u), b') \<Rightarrow>
                 (Returned (Success ()), s\<lparr>objects := objects s @ [b'], backend := Some (length (objects s))\<rparr>)
             | (r, b') \<Rightarrow> (r, s)))"

definition session_open_configuration ::
    "'b ICameraBackend \<Rightarrow> (eCameraBackend \<Rightarrow> 'b option) \<Rightarrow> sCameraDeviceInfo \<Rightarrow> sCameraStreamConfiguration
      \<Rightarrow> 'b CameraSession \<Rightarrow> CameraStatus reply \<times> 'b CameraSession" where
  "session_open_configuration B mk device c s =
     (if \<not> configuration_valid c
      then (Returned (validation_error Cam_InvalidArgument ''Camera stream configuration is invalid.''), s)
      else session_open B mk
        \<lparr>od_device = device,
         od_format = (sc_native_format c)\<lparr>cf_pixel_format := sc_output_format c\<rparr>,
         od_native_pixel_format = cf_pixel_format (sc_native_format c),
         od_allow_format_conversion = sc_allow_conversion c\<rparr> s)"

text \<open>The test seam that puts a backend object into the session.\<close>

definition set_backend :: "'b \<Rightarrow> 'b CameraSession \<Rightarrow> 'b CameraSession" where
  "set_backend b s = s\<lparr>objects := objects s @ [b], backend := Some (length (objects s))\<rparr>"

definition installBackend :: "'b ICameraBackend \<Rightarrow> nat option \<Rightarrow> 'b \<Rightarrow> 'b CameraSession \<Rightarrow> 'b CameraSession outcome" where
  "installBackend B self b s = obind (session_close B self s) (\<lambda>s'. Done (set_backend b s'))"

section \<open>Synchronous operations on the backend\<close>

text \<open>A call that passed its guards goes to the backend object.\<close>

definition on_backend :: "('b \<Rightarrow> 'a reply \<times> 'b) \<Rightarrow> 'a \<Rightarrow> 'b CameraSession \<Rightarrow> 'a reply \<times> 'b CameraSession" where
  "on_backend f none s =
     (case backend s of None \<Rightarrow> (Returned none, s)
      | Some i \<Rightarrow> (let (r, b) = f (backend_object s i) in (r, put_object i b s)))"

definition not_open :: "('a, CameraError) Result" where
  "not_open = lifecycle_error Cam_NotOpen ''Camera is not open.''"

definition session_readFrame :: "'b ICameraBackend \<Rightarrow> u32 \<Rightarrow> 'b CameraSession \<Rightarrow> frame_result reply \<times> 'b CameraSession" where
  "session_readFrame B timeout s =
     (if \<not> session_isOpen B s then (Returned not_open, s)
      else if callback_active s
      then (Returned (lifecycle_error Cam_ConcurrentRead
              ''Synchronous reads are disabled while a callback stream is active.''), s)
      else if timeout = 0
      then (Returned (validation_error Cam_InvalidArgument ''Camera frame timeout must be greater than zero.''), s)
      else on_backend (be_readFrame B timeout) not_open s)"

definition session_getControl ::
    "'b ICameraBackend \<Rightarrow> eCameraControl \<Rightarrow> 'b CameraSession \<Rightarrow> sCameraControlValue CameraResult reply \<times> 'b CameraSession" where
  "session_getControl B c s =
     (if \<not> session_isOpen B s then (Returned not_open, s) else on_backend (be_getControl B c) not_open s)"

definition session_setControl ::
    "'b ICameraBackend \<Rightarrow> sCameraControlValue \<Rightarrow> 'b CameraSession \<Rightarrow> CameraStatus reply \<times> 'b CameraSession" where
  "session_setControl B v s =
     (if \<not> session_isOpen B s then (Returned not_open, s) else on_backend (be_setControl B v) not_open s)"

definition session_getExtensionUnit ::
    "'b ICameraBackend \<Rightarrow> sCameraExtensionUnitSelector \<Rightarrow> 'b CameraSession
      \<Rightarrow> sCameraExtensionUnitValue CameraResult reply \<times> 'b CameraSession" where
  "session_getExtensionUnit B x s =
     (if \<not> session_isOpen B s then (Returned not_open, s)
      else if \<not> selector_valid x
      then (Returned (validation_error Cam_InvalidArgument ''Extension-unit selector is invalid.''), s)
      else if \<not> xu_readable x
      then (Returned (validation_error Cam_AccessDenied ''Extension-unit selector is not readable.''), s)
      else on_backend (be_getExtensionUnit B x) not_open s)"

definition session_setExtensionUnit ::
    "'b ICameraBackend \<Rightarrow> sCameraExtensionUnitValue \<Rightarrow> 'b CameraSession \<Rightarrow> CameraStatus reply \<times> 'b CameraSession" where
  "session_setExtensionUnit B v s =
     (if \<not> session_isOpen B s then (Returned not_open, s)
      else if \<not> selector_valid (xv_selector v)
      then (Returned (validation_error Cam_InvalidArgument ''Extension-unit selector is invalid.''), s)
      else if \<not> xu_writable (xv_selector v)
      then (Returned (validation_error Cam_AccessDenied ''Extension-unit selector is not writable.''), s)
      else if \<not> xu_value_valid v
      then (Returned (validation_error Cam_PayloadSizeMismatch
              ''Extension-unit payload length is outside the advertised range.''), s)
      else on_backend (be_setExtensionUnit B v) not_open s)"

text \<open>The static operations: a device's capabilities are asked of the platform.\<close>

definition session_capabilities ::
    "(sCameraDeviceInfo \<Rightarrow> sCameraCapability CameraResult) \<Rightarrow> sCameraDeviceInfo \<Rightarrow> sCameraCapability CameraResult" where
  "session_capabilities query d =
     (if \<not> device_valid d then validation_error Cam_InvalidArgument ''Camera device identity is invalid.''
      else query d)"

section \<open>The worker\<close>

text \<open>One atomic action of the task of worker \<open>w\<close>.  A read holds the backend mutex from its test of
  the stop flag to its end, so it is one action.  \<open>ends\<close> is how the callback's current invocation
  ends; it may take any time, during which the callback calls the session.  \<open>None\<close>: no action is
  possible (the worker waits to be published, or has ended).\<close>

definition worker_read :: "'b ICameraBackend \<Rightarrow> nat \<Rightarrow> 'b CameraSession \<Rightarrow> 'b CameraSession" where
  "worker_read B w s =
     (let cb = workers s ! w; i = cb_backend cb in
      if cb_stop cb then upd_worker w (\<lambda>cb. cb\<lparr>cb_pc := Got backend_error\<rparr>) s
      else case be_readFrame B 100 (backend_object s i) of
          (Returned r, b) \<Rightarrow> upd_worker w (\<lambda>cb. cb\<lparr>cb_pc := Got r\<rparr>) (put_object i b s)
        | (Threw Bad_alloc, b) \<Rightarrow>
            upd_worker w (\<lambda>cb. cb\<lparr>cb_pc := Delivering allocation_error\<rparr>) (put_object i b s)
        | (Threw Other_exception, b) \<Rightarrow>
            upd_worker w (\<lambda>cb. cb\<lparr>cb_pc := Delivering backend_error\<rparr>) (put_object i b s))"

fun timed_out :: "frame_result \<Rightarrow> bool" where
  "timed_out (Success f) = False"
| "timed_out (Failure e) = (ce_code e = Cam_TimedOut)"

definition worker_local :: "unit reply \<Rightarrow> CallbackState \<Rightarrow> CallbackState option" where
  "worker_local ends cb =
     (case cb_pc cb of
        Waiting \<Rightarrow> if cb_published cb then Some (cb\<lparr>cb_pc := Loop_test\<rparr>) else None
      | Loop_test \<Rightarrow> Some (cb\<lparr>cb_pc := (if cb_stop cb then Deactivating else Reading)\<rparr>)
      | Reading \<Rightarrow> None
      | Got r \<Rightarrow> Some (cb\<lparr>cb_pc :=
          (if cb_stop cb then Deactivating else if timed_out r then Loop_test else Delivering r)\<rparr>)
      | Delivering r \<Rightarrow>
          Some (if cb_stop cb then cb\<lparr>cb_pc := Deactivating\<rparr>
                else cb\<lparr>cb_pc := InCallback r, cb_delivered := cb_delivered cb @ [r]\<rparr>)
      | InCallback r \<Rightarrow> Some (cb\<lparr>cb_pc :=
          (if ends = Returned () \<and> succeeded r then Loop_test else Deactivating)\<rparr>)
      | Deactivating \<Rightarrow> Some (cb\<lparr>cb_active := False, cb_pc := Exiting\<rparr>)
      | Exiting \<Rightarrow> Some (cb\<lparr>cb_pc := Ended\<rparr>)
      | Ended \<Rightarrow> None)"

definition worker_action :: "'b ICameraBackend \<Rightarrow> unit reply \<Rightarrow> nat \<Rightarrow> 'b CameraSession \<Rightarrow> 'b CameraSession option" where
  "worker_action B ends w s =
     (if \<not> w < length (workers s) then None
      else if cb_pc (workers s ! w) = Reading then Some (worker_read B w s)
      else case worker_local ends (workers s ! w) of
          None \<Rightarrow> None
        | Some cb \<Rightarrow> Some (upd_worker w (\<lambda>_. cb) s))"

end
