(* ===== verification/WebCamera.thy ===== *)
theory WebCamera
  imports CameraSession
begin

text \<open>
  The web camera facade (\<open>core/tmr/device/WebCamera.cpp\<close>, \<open>core/tmr/device/WebCameraInternal.h\<close>): it
  validates every request against what the device advertised before the request reaches the session.
  The session is an interface (\<open>IWebCameraSession\<close>); \<open>CameraSessionAdapter\<close> is the one over
  \<open>CameraSession\<close>, called from the owner thread.  The runtime's answers are arguments: \<open>query\<close> is
  \<open>IWebCameraRuntime::capabilities\<close> at the time of the call.
\<close>

section \<open>The session interface\<close>

record 's IWebCameraSession =
  ws_open :: "sCameraDeviceInfo \<Rightarrow> sCameraStreamConfiguration \<Rightarrow> 's \<Rightarrow> (CameraStatus reply \<times> 's) outcome"
  ws_close :: "'s \<Rightarrow> 's outcome"
  ws_start :: "'s \<Rightarrow> (CameraStatus reply \<times> 's) outcome"
  ws_start_callback :: "bool \<Rightarrow> 's \<Rightarrow> (CameraStatus reply \<times> 's) outcome"
  ws_stop :: "'s \<Rightarrow> (CameraStatus reply \<times> 's) outcome"
  ws_readFrame :: "u32 \<Rightarrow> 's \<Rightarrow> (sCameraFrame CameraResult reply \<times> 's) outcome"
  ws_getControl :: "eCameraControl \<Rightarrow> 's \<Rightarrow> (sCameraControlValue CameraResult reply \<times> 's) outcome"
  ws_setControl :: "sCameraControlValue \<Rightarrow> 's \<Rightarrow> (CameraStatus reply \<times> 's) outcome"
  ws_getExtensionUnit ::
    "sCameraExtensionUnitSelector \<Rightarrow> 's \<Rightarrow> (sCameraExtensionUnitValue CameraResult reply \<times> 's) outcome"
  ws_setExtensionUnit :: "sCameraExtensionUnitValue \<Rightarrow> 's \<Rightarrow> (CameraStatus reply \<times> 's) outcome"
  ws_isOpen :: "'s \<Rightarrow> bool"
  ws_isStreaming :: "'s \<Rightarrow> bool"

text \<open>\<open>launch\<close> is what the thread launcher does when a callback stream is started.\<close>

definition CameraSessionAdapter ::
    "'b ICameraBackend \<Rightarrow> (eCameraBackend \<Rightarrow> 'b option) \<Rightarrow> unit reply \<Rightarrow> 'b CameraSession IWebCameraSession" where
  "CameraSessionAdapter B mk launch =
     \<lparr>ws_open = (\<lambda>d c s. Done (session_open_configuration B mk d c s)),
      ws_close = session_close B None,
      ws_start = session_start B None,
      ws_start_callback = (\<lambda>has. session_start_callback B launch has None),
      ws_stop = session_stop B None,
      ws_readFrame = (\<lambda>t s. Done (session_readFrame B t s)),
      ws_getControl = (\<lambda>c s. Done (session_getControl B c s)),
      ws_setControl = (\<lambda>v s. Done (session_setControl B v s)),
      ws_getExtensionUnit = (\<lambda>x s. Done (session_getExtensionUnit B x s)),
      ws_setExtensionUnit = (\<lambda>v s. Done (session_setExtensionUnit B v s)),
      ws_isOpen = session_isOpen B, ws_isStreaming = session_isStreaming B\<rparr>"

section \<open>Devices, formats and selectors\<close>

definition isWebCameraCandidate :: "sCameraDeviceInfo \<Rightarrow> bool" where
  "isWebCameraCandidate d \<longleftrightarrow> di_transport_type d = UsbUvc \<or> di_transport_type d = Transport_Unknown"

definition filterWebCameraDevices :: "sCameraDeviceInfo list CameraResult \<Rightarrow> sCameraDeviceInfo list CameraResult" where
  "filterWebCameraDevices r =
     (case r of Failure e \<Rightarrow> Failure e | Success ds \<Rightarrow> Success (filter isWebCameraCandidate ds))"

definition sameFormat :: "sCameraFormat \<Rightarrow> sCameraFormat \<Rightarrow> bool" where
  "sameFormat a b \<longleftrightarrow>
     cf_width a = cf_width b \<and> cf_height a = cf_height b
     \<and> cf_frame_rate_numerator a = cf_frame_rate_numerator b
     \<and> cf_frame_rate_denominator a = cf_frame_rate_denominator b
     \<and> cf_pixel_format a = cf_pixel_format b"

definition PREFERRED_FORMATS :: "eCameraPixelFormat list" where
  "PREFERRED_FORMATS = [Bgra8, Bgr8, Rgb8, Yuyv422, Nv12, Gray8, Mjpeg]"

definition preferredOutput :: "sCameraStreamProfile \<Rightarrow> eCameraPixelFormat option" where
  "preferredOutput p = find (supportsOutput p) PREFERRED_FORMATS"

fun default_profile :: "sCameraStreamProfile list \<Rightarrow> sCameraStreamConfiguration CameraResult" where
  "default_profile [] = Failure (CameraError_make CamCat_Unsupported Cam_UnsupportedFormat
     ''Web camera does not advertise a usable stream profile.'')"
| "default_profile (p # ps) =
     (case preferredOutput p of
        Some f \<Rightarrow>
          if profile_valid p
          then Success \<lparr>sc_native_format = sp_native_format p, sc_output_format = f, sc_allow_conversion = True\<rparr>
          else default_profile ps
      | None \<Rightarrow> default_profile ps)"

definition defaultConfiguration :: "sCameraCapability \<Rightarrow> sCameraStreamConfiguration CameraResult" where
  "defaultConfiguration ca = default_profile (ca_stream_profiles ca)"

definition findProfile :: "sCameraCapability \<Rightarrow> sCameraStreamConfiguration \<Rightarrow> sCameraStreamProfile option" where
  "findProfile ca c =
     find (\<lambda>p. sameFormat (sp_native_format p) (sc_native_format c) \<and> supportsOutput p (sc_output_format c))
       (ca_stream_profiles ca)"

definition findControlCapability :: "sCameraCapability \<Rightarrow> eCameraControl \<Rightarrow> sCameraControlCapability option" where
  "findControlCapability ca c = find (\<lambda>cc. cc_control cc = c) (ca_controls ca)"

definition sameExtensionSelector :: "sCameraExtensionUnitSelector \<Rightarrow> sCameraExtensionUnitSelector \<Rightarrow> bool" where
  "sameExtensionSelector a b \<longleftrightarrow>
     xu_unit_guid a = xu_unit_guid b \<and> xu_unit_id a = xu_unit_id b \<and> xu_selector a = xu_selector b"

section \<open>The legacy names\<close>

datatype eParam =
    P_Zoom | P_Exposure | P_Iris | P_Focus | P_Brightness | P_Contrast | P_Hue | P_Saturation | P_Sharpness
  | P_Gamma | P_ColorEnable | P_WhiteBalance | P_BacklightCompensation | P_Gain | P_other u8

fun portableControl :: "eParam \<Rightarrow> eCameraControl option" where
  "portableControl P_Zoom = Some Zoom"
| "portableControl P_Exposure = Some Exposure"
| "portableControl P_Iris = Some Iris"
| "portableControl P_Focus = Some Focus"
| "portableControl P_Brightness = Some Brightness"
| "portableControl P_Contrast = Some Contrast"
| "portableControl P_Hue = Some Hue"
| "portableControl P_Saturation = Some Saturation"
| "portableControl P_Sharpness = Some Sharpness"
| "portableControl P_Gamma = Some Gamma"
| "portableControl P_ColorEnable = Some ColorEnable"
| "portableControl P_WhiteBalance = Some WhiteBalance"
| "portableControl P_BacklightCompensation = Some BacklightCompensation"
| "portableControl P_Gain = Some Gain"
| "portableControl (P_other b) = None"

datatype eEvent =
    TASK_IDLE | TASK_START | TASK_SUCCESS | TASK_FAILED | TASK_DEVICE_UNSUPPORTED | TASK_UNKNOWN_ERROR
  | TASK_TIMEOUT

definition legacyEvent :: "CameraError \<Rightarrow> eEvent" where
  "legacyEvent e =
     (if ce_ok e then TASK_SUCCESS
      else if ce_code e = Cam_TimedOut then TASK_TIMEOUT
      else if ce_category e = CamCat_Unsupported then TASK_DEVICE_UNSUPPORTED
      else TASK_FAILED)"

section \<open>The facade's state\<close>

definition device_none :: sCameraDeviceInfo where
  "device_none = \<lparr>di_backend = Automatic, di_id = [], di_display_name = [], di_transport = [],
     di_transport_type = Transport_Unknown,
     di_usb = \<lparr>usb_vendor_id = 0, usb_product_id = 0, usb_serial_number = [], usb_uvc_version_bcd = 0\<rparr>\<rparr>"

definition capability_none :: sCameraCapability where
  "capability_none = \<lparr>ca_device = device_none, ca_formats = [], ca_controls = [], ca_stream_profiles = [],
     ca_extension_units = []\<rparr>"

definition configuration_none :: sCameraStreamConfiguration where
  "configuration_none = \<lparr>sc_native_format = \<lparr>cf_width = 0, cf_height = 0, cf_frame_rate_numerator = 0,
       cf_frame_rate_denominator = 1, cf_pixel_format = Unknown\<rparr>,
     sc_output_format = Unknown, sc_allow_conversion = True\<rparr>"

record 's WebCamera_Impl =
  wi_session :: "'s option"
  selected_device :: sCameraDeviceInfo
  capability :: sCameraCapability
  configuration :: sCameraStreamConfiguration
  has_selection :: bool
  legacy_index :: int
  preferred_width :: u32
  preferred_height :: u32
  preferred_fps :: u32
  last_error :: CameraError

text \<open>A facade that was moved from has no \<open>Impl\<close>.\<close>

type_synonym 's WebCamera = "'s WebCamera_Impl option"

definition remember :: "('a, CameraError) Result \<Rightarrow> 's WebCamera_Impl \<Rightarrow> 's WebCamera_Impl" where
  "remember r i = i\<lparr>last_error := (case r of Success v \<Rightarrow> CameraError_none | Failure e \<Rightarrow> e)\<rparr>"

definition WebCamera_new :: "'s option \<Rightarrow> 's WebCamera" where
  "WebCamera_new session =
     (let i = \<lparr>wi_session = session, selected_device = device_none, capability = capability_none,
          configuration = configuration_none, has_selection = False, legacy_index = - 1,
          preferred_width = 0, preferred_height = 0, preferred_fps = 0, last_error = CameraError_none\<rparr>
      in Some (if session = None
         then i\<lparr>last_error := CameraError_make CamCat_Backend Cam_BackendFailure
                ''WebCamera runtime did not create a camera session.''\<rparr>
         else i))"

definition candidate_error :: "('a, CameraError) Result" where
  "candidate_error =
     validation_error Cam_InvalidArgument ''WebCamera accepts USB UVC or unknown web-camera transports only.''"

definition no_session_error :: "('a, CameraError) Result" where
  "no_session_error =
     Failure (CameraError_make CamCat_Backend Cam_BackendFailure ''WebCamera has no runtime session.'')"

definition selected_fps :: "sCameraFormat \<Rightarrow> u32" where
  "selected_fps f =
     (if cf_frame_rate_denominator f = 0 then 0 else cf_frame_rate_numerator f div cf_frame_rate_denominator f)"

definition select ::
    "(sCameraDeviceInfo \<Rightarrow> sCameraCapability CameraResult) \<Rightarrow> sCameraDeviceInfo \<Rightarrow> 's WebCamera_Impl
      \<Rightarrow> CameraStatus \<times> 's WebCamera_Impl" where
  "select query d i =
     (if \<not> isWebCameraCandidate d then (candidate_error, i)
      else case query d of
          Failure e \<Rightarrow> (Failure e, i)
        | Success ca \<Rightarrow>
            (case defaultConfiguration ca of
               Failure e \<Rightarrow> (Failure e, i)
             | Success c \<Rightarrow> (Success (),
                 i\<lparr>selected_device := d, capability := ca, configuration := c, has_selection := True,
                   preferred_width := cf_width (sc_native_format c),
                   preferred_height := cf_height (sc_native_format c),
                   preferred_fps := selected_fps (sc_native_format c)\<rparr>)))"

text \<open>The legacy wishes of size and frame rate, 0 meaning any.\<close>

definition legacy_matches :: "'s WebCamera_Impl \<Rightarrow> sCameraStreamProfile \<Rightarrow> bool" where
  "legacy_matches i p \<longleftrightarrow>
     (let f = sp_native_format p in
      (preferred_width i = 0 \<or> cf_width f = preferred_width i)
      \<and> (preferred_height i = 0 \<or> cf_height f = preferred_height i)
      \<and> (preferred_fps i = 0
         \<or> (ucast (cf_frame_rate_numerator f) :: u64) = ucast (preferred_fps i) * ucast (cf_frame_rate_denominator f))
      \<and> profile_valid p \<and> preferredOutput p \<noteq> None)"

definition resolveLegacyConfiguration :: "'s WebCamera_Impl \<Rightarrow> CameraStatus \<times> 's WebCamera_Impl" where
  "resolveLegacyConfiguration i =
     (if \<not> has_selection i then (lifecycle_error Cam_NotOpen ''No web camera has been selected.'', i)
      else case find (legacy_matches i) (ca_stream_profiles (capability i)) of
          None \<Rightarrow> (Failure (CameraError_make CamCat_Unsupported Cam_UnsupportedFormat
            ''Requested legacy stream size and frame rate are not advertised together.''), i)
        | Some p \<Rightarrow> (Success (), i\<lparr>configuration := \<lparr>sc_native_format = sp_native_format p,
            sc_output_format = the (preferredOutput p), sc_allow_conversion = True\<rparr>\<rparr>))"

text \<open>The constructor that selects the device at an index of the enumeration.\<close>

definition WebCamera_at ::
    "sCameraDeviceInfo list CameraResult \<Rightarrow> (sCameraDeviceInfo \<Rightarrow> sCameraCapability CameraResult) \<Rightarrow> int
      \<Rightarrow> 's option \<Rightarrow> 's WebCamera" where
  "WebCamera_at enumerated query index session =
     (case WebCamera_new session of None \<Rightarrow> None
      | Some i \<Rightarrow>
          Some (if index < 0 then i
            else case filterWebCameraDevices enumerated of
                Failure e \<Rightarrow> i\<lparr>last_error := e\<rparr>
              | Success ds \<Rightarrow>
                  if length ds \<le> nat index
                  then i\<lparr>last_error := CameraError_make CamCat_Validation Cam_InvalidArgument
                         ''The web camera index is out of range.''\<rparr>
                  else (let (r, i') = select query (ds ! nat index) i in remember r i')))"

section \<open>Operations\<close>

text \<open>A call of the session whose result the facade remembers; an exception passes through.\<close>

definition call_session ::
    "('s \<Rightarrow> (('a, CameraError) Result reply \<times> 's) outcome) \<Rightarrow> 's \<Rightarrow> 's WebCamera_Impl
      \<Rightarrow> (('a, CameraError) Result reply \<times> 's WebCamera) outcome" where
  "call_session f ses i = obind (f ses) (\<lambda>(r, ses').
     let i' = i\<lparr>wi_session := Some ses'\<rparr> in
     Done (r, Some (case r of Threw x \<Rightarrow> i' | Returned q \<Rightarrow> remember q i')))"

text \<open>The guard every operation begins with.\<close>

definition with_session ::
    "('a, CameraError) Result \<Rightarrow> ('s \<Rightarrow> 's WebCamera_Impl \<Rightarrow> (('a, CameraError) Result reply \<times> 's WebCamera) outcome)
      \<Rightarrow> 's WebCamera \<Rightarrow> (('a, CameraError) Result reply \<times> 's WebCamera) outcome" where
  "with_session none f w =
     (case w of None \<Rightarrow> Done (Returned none, w)
      | Some i \<Rightarrow> (case wi_session i of None \<Rightarrow> Done (Returned none, w) | Some ses \<Rightarrow> f ses i))"

text \<open>A refusal that the facade remembers.\<close>

definition refuse :: "('a, CameraError) Result \<Rightarrow> 's WebCamera_Impl \<Rightarrow> (('a, CameraError) Result reply \<times> 's WebCamera) outcome" where
  "refuse r i = Done (Returned r, Some (remember r i))"

definition wc_open_configuration ::
    "'s IWebCameraSession \<Rightarrow> (sCameraDeviceInfo \<Rightarrow> sCameraCapability CameraResult) \<Rightarrow> sCameraDeviceInfo
      \<Rightarrow> sCameraStreamConfiguration \<Rightarrow> 's WebCamera \<Rightarrow> (CameraStatus reply \<times> 's WebCamera) outcome" where
  "wc_open_configuration S query d c = with_session no_session_error (\<lambda>ses i.
     if ws_isOpen S ses then refuse (lifecycle_error Cam_AlreadyOpen ''WebCamera is already open.'') i
     else if \<not> configuration_valid c
     then refuse (validation_error Cam_InvalidArgument ''WebCamera stream configuration is invalid.'') i
     else if \<not> isWebCameraCandidate d then refuse candidate_error i
     else case query d of
         Failure e \<Rightarrow> refuse (Failure e) i
       | Success ca \<Rightarrow>
           if findProfile ca c = None
           then refuse (Failure (CameraError_make CamCat_Unsupported Cam_UnsupportedFormat
                  ''WebCamera configuration is not advertised by this web camera.'')) i
           else obind (ws_open S d c ses) (\<lambda>(r, ses').
             let i' = i\<lparr>wi_session := Some ses'\<rparr> in
             Done (r, Some (case r of
                 Threw x \<Rightarrow> i'
               | Returned q \<Rightarrow>
                   remember q (if succeeded q
                     then i'\<lparr>selected_device := d, capability := ca, configuration := c, has_selection := True\<rparr>
                     else i')))))"

text \<open>\<open>open\<close> of a device: it selects the device and then opens it with the default configuration; the
  capabilities are queried by each part.\<close>

definition wc_open ::
    "'s IWebCameraSession \<Rightarrow> (sCameraDeviceInfo \<Rightarrow> sCameraCapability CameraResult)
      \<Rightarrow> (sCameraDeviceInfo \<Rightarrow> sCameraCapability CameraResult) \<Rightarrow> sCameraDeviceInfo \<Rightarrow> 's WebCamera
      \<Rightarrow> (CameraStatus reply \<times> 's WebCamera) outcome" where
  "wc_open S query query' d = with_session no_session_error (\<lambda>ses i.
     let (selection, i') = select query d i in
     if \<not> succeeded selection then refuse selection i'
     else wc_open_configuration S query' d (configuration i') (Some i'))"

definition wc_close :: "'s IWebCameraSession \<Rightarrow> 's WebCamera \<Rightarrow> 's WebCamera outcome" where
  "wc_close S w =
     (case w of None \<Rightarrow> Done w
      | Some i \<Rightarrow> (case wi_session i of None \<Rightarrow> Done w
          | Some ses \<Rightarrow> obind (ws_close S ses) (\<lambda>ses'.
              Done (Some (i\<lparr>wi_session := Some ses', selected_device := device_none, capability := capability_none,
                configuration := configuration_none, has_selection := False, legacy_index := - 1,
                last_error := CameraError_none\<rparr>)))))"

text \<open>Move assignment from another facade: the own session is closed, the other is left empty.\<close>

definition wc_move_assign :: "'s IWebCameraSession \<Rightarrow> 's WebCamera \<Rightarrow> 's WebCamera \<Rightarrow> ('s WebCamera \<times> 's WebCamera) outcome" where
  "wc_move_assign S w other =
     (case w of None \<Rightarrow> Done (other, None)
      | Some i \<Rightarrow> (case wi_session i of None \<Rightarrow> Done (other, None)
          | Some ses \<Rightarrow> obind (ws_close S ses) (\<lambda>ses'. Done (other, None))))"

definition wc_start :: "'s IWebCameraSession \<Rightarrow> 's WebCamera \<Rightarrow> (CameraStatus reply \<times> 's WebCamera) outcome" where
  "wc_start S = with_session no_session_error (call_session (ws_start S))"

definition wc_start_callback :: "'s IWebCameraSession \<Rightarrow> bool \<Rightarrow> 's WebCamera \<Rightarrow> (CameraStatus reply \<times> 's WebCamera) outcome" where
  "wc_start_callback S has = with_session no_session_error (call_session (ws_start_callback S has))"

definition wc_stop :: "'s IWebCameraSession \<Rightarrow> 's WebCamera \<Rightarrow> (CameraStatus reply \<times> 's WebCamera) outcome" where
  "wc_stop S = with_session (Success ()) (call_session (ws_stop S))"

definition wc_readFrame ::
    "'s IWebCameraSession \<Rightarrow> u32 \<Rightarrow> 's WebCamera \<Rightarrow> (sCameraFrame CameraResult reply \<times> 's WebCamera) outcome" where
  "wc_readFrame S timeout = with_session no_session_error (call_session (ws_readFrame S timeout))"

definition currentCapabilities :: "'s WebCamera \<Rightarrow> sCameraCapability CameraResult" where
  "currentCapabilities w =
     (case w of
        Some i \<Rightarrow> if has_selection i then Success (capability i)
                  else lifecycle_error Cam_NotOpen ''No web camera has been selected.''
      | None \<Rightarrow> lifecycle_error Cam_NotOpen ''No web camera has been selected.'')"

definition controlCapability :: "eCameraControl \<Rightarrow> 's WebCamera \<Rightarrow> sCameraControlCapability CameraResult" where
  "controlCapability c w =
     (case currentCapabilities w of
        Failure e \<Rightarrow> Failure e
      | Success ca \<Rightarrow>
          (case findControlCapability ca c of
             None \<Rightarrow> Failure (CameraError_make CamCat_Unsupported Cam_UnsupportedControl
               ''Web camera does not advertise the requested control.'')
           | Some cc \<Rightarrow> Success cc))"

definition wc_getControl ::
    "'s IWebCameraSession \<Rightarrow> eCameraControl \<Rightarrow> 's WebCamera \<Rightarrow> (sCameraControlValue CameraResult reply \<times> 's WebCamera) outcome" where
  "wc_getControl S c = with_session no_session_error (\<lambda>ses i.
     case controlCapability c (Some i) of
       Failure e \<Rightarrow> refuse (Failure e) i
     | Success cc \<Rightarrow>
         if \<not> cc_readable cc then refuse (validation_error Cam_AccessDenied ''Web camera control is not readable.'') i
         else call_session (ws_getControl S c) ses i)"

text \<open>The test of a control value, evaluated from left to right.  \<open>None\<close> is undefined behaviour: the
  difference overflows 64 bits, or the step is zero.\<close>

definition control_value_valid :: "sCameraControlCapability \<Rightarrow> sCameraControlValue \<Rightarrow> bool option" where
  "control_value_valid cc v =
     (if cv_mode v = Mode_Manual
      then if \<not> (cc_writable cc \<and> cc_supports_manual cc \<and> cc_minimum cc \<le> cv_value v \<and> cv_value v \<le> cc_maximum cc)
        then Some False
        else case i64_sub (cv_value v) (cc_minimum cc) of
            None \<Rightarrow> None
          | Some d \<Rightarrow> if cc_step cc = 0 then None else Some (cpp_rem d (cc_step cc) = 0)
      else Some (cc_writable cc \<and> cc_supports_automatic cc))"

definition wc_setControl ::
    "'s IWebCameraSession \<Rightarrow> sCameraControlValue \<Rightarrow> 's WebCamera \<Rightarrow> (CameraStatus reply \<times> 's WebCamera) outcome" where
  "wc_setControl S v = with_session no_session_error (\<lambda>ses i.
     case controlCapability (cv_control v) (Some i) of
       Failure e \<Rightarrow> refuse (Failure e) i
     | Success cc \<Rightarrow>
         (case control_value_valid cc v of
            None \<Rightarrow> Undefined
          | Some False \<Rightarrow>
              refuse (validation_error (if cc_writable cc then Cam_InvalidArgument else Cam_AccessDenied)
                ''Web camera control value, mode, or access does not match its capability.'') i
          | Some True \<Rightarrow> call_session (ws_setControl S v) ses i))"

definition wc_getExtensionUnit ::
    "'s IWebCameraSession \<Rightarrow> sCameraExtensionUnitSelector \<Rightarrow> 's WebCamera
      \<Rightarrow> (sCameraExtensionUnitValue CameraResult reply \<times> 's WebCamera) outcome" where
  "wc_getExtensionUnit S x = with_session no_session_error (\<lambda>ses i.
     case currentCapabilities (Some i) of
       Failure e \<Rightarrow> refuse (Failure e) i
     | Success ca \<Rightarrow>
         if find (\<lambda>a. sameExtensionSelector a x \<and> xu_readable a) (ca_extension_units ca) = None
         then refuse (Failure (CameraError_make CamCat_Unsupported Cam_UnsupportedExtensionUnit
                ''Web camera does not advertise the requested readable extension selector.'')) i
         else call_session (ws_getExtensionUnit S x) ses i)"

definition wc_setExtensionUnit ::
    "'s IWebCameraSession \<Rightarrow> sCameraExtensionUnitValue \<Rightarrow> 's WebCamera \<Rightarrow> (CameraStatus reply \<times> 's WebCamera) outcome" where
  "wc_setExtensionUnit S v = with_session no_session_error (\<lambda>ses i.
     case currentCapabilities (Some i) of
       Failure e \<Rightarrow> refuse (Failure e) i
     | Success ca \<Rightarrow>
         if find (\<lambda>a. sameExtensionSelector a (xv_selector v) \<and> xu_writable a
              \<and> unat (xu_minimum_size a) \<le> length (xv_payload v) \<and> length (xv_payload v) \<le> unat (xu_maximum_size a))
            (ca_extension_units ca) = None
         then refuse (Failure (CameraError_make CamCat_Unsupported Cam_UnsupportedExtensionUnit
                ''Web camera does not advertise this writable extension selector and payload.'')) i
         else call_session (ws_setExtensionUnit S v) ses i)"

definition readExposure where "readExposure S = wc_getControl S Exposure"
definition writeExposure where
  "writeExposure S value mode = wc_setControl S \<lparr>cv_control = Exposure, cv_mode = mode, cv_value = value\<rparr>"
definition readGain where "readGain S = wc_getControl S Gain"
definition writeGain where
  "writeGain S value mode = wc_setControl S \<lparr>cv_control = Gain, cv_mode = mode, cv_value = value\<rparr>"
definition readFocus where "readFocus S = wc_getControl S Focus"
definition writeFocus where
  "writeFocus S value mode = wc_setControl S \<lparr>cv_control = Focus, cv_mode = mode, cv_value = value\<rparr>"

definition wc_isOpen :: "'s IWebCameraSession \<Rightarrow> 's WebCamera \<Rightarrow> bool" where
  "wc_isOpen S w =
     (case w of None \<Rightarrow> False | Some i \<Rightarrow> (case wi_session i of None \<Rightarrow> False | Some ses \<Rightarrow> ws_isOpen S ses))"

definition wc_isStreaming :: "'s IWebCameraSession \<Rightarrow> 's WebCamera \<Rightarrow> bool" where
  "wc_isStreaming S w =
     (case w of None \<Rightarrow> False | Some i \<Rightarrow> (case wi_session i of None \<Rightarrow> False | Some ses \<Rightarrow> ws_isStreaming S ses))"

definition lastError :: "'s WebCamera \<Rightarrow> CameraError" where
  "lastError w =
     (case w of None \<Rightarrow> CameraError_make CamCat_Lifecycle Cam_NotOpen ''WebCamera was moved from.''
      | Some i \<Rightarrow> last_error i)"

end
