(* ===== verification/CameraSessionSteps.thy ===== *)
theory CameraSessionSteps
  imports CameraSession
begin

text \<open>
  The camera session and its callback workers as a transition system.  The owner thread calls the
  operations of \<open>CameraSession\<close>; \<open>stop\<close> and what is built on it take three steps, between which
  the workers run; a callback calls the same operations from its worker.  The invariant of the
  reachable states says which worker may run, what it delivered and which objects it names; the
  rank of a stopped worker bounds the actions it has left.
\<close>

section \<open>Steps\<close>

text \<open>What follows the \<open>stop\<close> inside an operation, and where the owner thread stands.\<close>

datatype 'b after = To_return | To_close | To_install 'b | To_destroy

datatype 'b phase = Idle | Flagged "'b after" | Joining "CameraStatus reply" "'b after"

fun finish_after :: "'b ICameraBackend \<Rightarrow> nat option \<Rightarrow> 'b after \<Rightarrow> 'b CameraSession \<Rightarrow> 'b CameraSession outcome" where
  "finish_after B self To_return s = Done s"
| "finish_after B self To_close s = Done (close_backend B s)"
| "finish_after B self (To_install b) s = Done (set_backend b (close_backend B s))"
| "finish_after B self To_destroy s = Impl_destructor self (close_backend B s)"

text \<open>An operation that begins with \<open>stop\<close>, run in one go: what a callback does, since on its own
  worker the join is skipped.\<close>

definition stop_and :: "'b ICameraBackend \<Rightarrow> nat option \<Rightarrow> 'b after \<Rightarrow> 'b CameraSession \<Rightarrow> 'b CameraSession outcome" where
  "stop_and B self a s = obind (session_stop B self s) (\<lambda>(r, s1). finish_after B self a s1)"

lemma stop_and_operations:
  "stop_and B self To_close s = session_close B self s"
  "stop_and B self (To_install b) s = installBackend B self b s"
  "stop_and B self To_destroy s = session_destroy B self s"
  by (auto simp: stop_and_def session_close_def installBackend_def session_destroy_def
      split_beta split: outcome.splits prod.splits)
     (cases "session_stop B self s"; auto)+

inductive session_call ::
    "'b ICameraBackend \<Rightarrow> (eCameraBackend \<Rightarrow> 'b option) \<Rightarrow> nat option \<Rightarrow> 'b CameraSession \<Rightarrow> 'b CameraSession \<Rightarrow> bool"
  for B mk self where
  open_call: "session_open B mk d s = (r, s') \<Longrightarrow> session_call B mk self s s'"
| open_configuration_call: "session_open_configuration B mk v c s = (r, s') \<Longrightarrow> session_call B mk self s s'"
| start_call: "session_start B self s = Done (r, s') \<Longrightarrow> session_call B mk self s s'"
| start_callback_call: "session_start_callback B launch has self s = Done (r, s') \<Longrightarrow> session_call B mk self s s'"
| read_call: "session_readFrame B timeout s = (f, s') \<Longrightarrow> session_call B mk self s s'"
| get_call: "session_getControl B ctl s = (cv, s') \<Longrightarrow> session_call B mk self s s'"
| set_call: "session_setControl B value s = (r, s') \<Longrightarrow> session_call B mk self s s'"
| get_unit_call: "session_getExtensionUnit B x s = (xv, s') \<Longrightarrow> session_call B mk self s s'"
| set_unit_call: "session_setExtensionUnit B y s = (r, s') \<Longrightarrow> session_call B mk self s s'"

inductive session_step ::
    "'b ICameraBackend \<Rightarrow> (eCameraBackend \<Rightarrow> 'b option) \<Rightarrow> 'b phase \<times> 'b CameraSession \<Rightarrow> 'b phase \<times> 'b CameraSession \<Rightarrow> bool"
  for B mk where
  owner_call: "\<not> destroyed s \<Longrightarrow> session_call B mk None s s' \<Longrightarrow> session_step B mk (Idle, s) (Idle, s')"
| stop_raise: "\<not> destroyed s \<Longrightarrow> session_step B mk (Idle, s) (Flagged a, stop_flag s)"
| stop_halt: "stop_backend B s = (r, s') \<Longrightarrow> session_step B mk (Flagged a, s) (Joining r a, s')"
| stop_join: "reapCallbackThread None s = Done (reaped, s1) \<Longrightarrow> finish_after B None a s1 = Done s'
    \<Longrightarrow> session_step B mk (Joining r a, s) (Idle, s')"
| worker_acts: "worker_action B ends w s = Some s' \<Longrightarrow> session_step B mk (p, s) (p, s')"
| callback_call: "w < length (workers s) \<Longrightarrow> cb_pc (workers s ! w) = InCallback f \<Longrightarrow> \<not> destroyed s
    \<Longrightarrow> session_call B mk (Some w) s s' \<Longrightarrow> session_step B mk (p, s) (p, s')"
| callback_stop: "w < length (workers s) \<Longrightarrow> cb_pc (workers s ! w) = InCallback f \<Longrightarrow> \<not> destroyed s
    \<Longrightarrow> (a = To_destroy \<longrightarrow> p = Idle) \<Longrightarrow> stop_and B (Some w) a s = Done s'
    \<Longrightarrow> session_step B mk (p, s) (p, s')"

inductive session_reachable ::
    "'b ICameraBackend \<Rightarrow> (eCameraBackend \<Rightarrow> 'b option) \<Rightarrow> 'b phase \<times> 'b CameraSession \<Rightarrow> bool"
  for B mk where
  fresh: "session_reachable B mk (Idle, CameraSession_new)"
| step: "session_reachable B mk x \<Longrightarrow> session_step B mk x y \<Longrightarrow> session_reachable B mk y"

section \<open>What a worker delivered\<close>

definition running :: "CallbackState \<Rightarrow> bool" where
  "running cb \<longleftrightarrow> cb_pc cb \<noteq> Ended"

text \<open>Only the last result delivered may be a failure, it is never a timeout, and after it the
  worker is on its way out.\<close>

definition deliveries_ok :: "CallbackState \<Rightarrow> bool" where
  "deliveries_ok cb \<longleftrightarrow>
     (\<forall>r \<in> set (cb_delivered cb). \<not> timed_out r)
     \<and> (\<forall>r \<in> set (butlast (cb_delivered cb)). succeeded r)
     \<and> (cb_delivered cb \<noteq> [] \<and> \<not> succeeded (last (cb_delivered cb))
        \<longrightarrow> cb_pc cb \<in> {InCallback (last (cb_delivered cb)), Deactivating, Exiting, Ended})"

definition worker_inv :: "CallbackState \<Rightarrow> bool" where
  "worker_inv cb \<longleftrightarrow>
     cb_published cb \<and> (cb_active cb \<longleftrightarrow> cb_pc cb \<notin> {Exiting, Ended}) \<and> deliveries_ok cb
     \<and> (\<forall>r. cb_pc cb = Delivering r \<longrightarrow> \<not> timed_out r)
     \<and> (\<forall>r. cb_pc cb = InCallback r \<longrightarrow> cb_delivered cb \<noteq> [] \<and> last (cb_delivered cb) = r)"

lemma not_succeeded_exception [simp]:
  "\<not> succeeded allocation_error" "\<not> succeeded backend_error"
  "\<not> timed_out allocation_error" "\<not> timed_out backend_error"
  by (simp_all add: allocation_error_def backend_error_def)

lemma worker_inv_new: "worker_inv ((CallbackState_new b)\<lparr>cb_active := True, cb_published := True\<rparr>)"
  by (simp add: worker_inv_def CallbackState_new_def deliveries_ok_def)

lemma worker_inv_stop [simp]: "worker_inv (cb\<lparr>cb_stop := x\<rparr>) \<longleftrightarrow> worker_inv cb"
  by (simp add: worker_inv_def deliveries_ok_def)

lemma deliveries_ok_push:
  assumes "deliveries_ok cb" and "cb_pc cb = Delivering r" and "\<not> timed_out r"
  shows "deliveries_ok (cb\<lparr>cb_pc := InCallback r, cb_delivered := cb_delivered cb @ [r]\<rparr>)"
proof (cases "cb_delivered cb" rule: rev_cases)
  case Nil
  with assms show ?thesis by (simp add: deliveries_ok_def)
next
  case (snoc rs x)
  with assms show ?thesis by (cases "succeeded x") (simp_all add: deliveries_ok_def butlast_append)
qed

lemma deliveries_ok_moves:
  assumes "deliveries_ok cb"
  shows "cb_pc cb \<in> {Waiting, Loop_test, Reading} \<or> (\<exists>r. cb_pc cb \<in> {Got r, Delivering r})
      \<Longrightarrow> deliveries_ok (cb\<lparr>cb_pc := q\<rparr>)"
    and "q \<in> {Deactivating, Exiting, Ended} \<Longrightarrow> deliveries_ok (cb\<lparr>cb_pc := q\<rparr>)"
    and "cb_delivered cb \<noteq> [] \<and> succeeded (last (cb_delivered cb)) \<Longrightarrow> deliveries_ok (cb\<lparr>cb_pc := q\<rparr>)"
  using assms unfolding deliveries_ok_def by fastforce+

lemma deliveries_ok_active [simp]: "deliveries_ok (cb\<lparr>cb_active := a\<rparr>) \<longleftrightarrow> deliveries_ok cb"
  by (simp add: deliveries_ok_def)

lemma worker_inv_local:
  assumes "worker_inv cb" and "worker_local ends cb = Some cb'"
  shows "worker_inv cb'"
proof -
  have ok: "deliveries_ok cb" and pub: "cb_published cb"
    and act: "cb_active cb \<longleftrightarrow> cb_pc cb \<notin> {Exiting, Ended}"
    using assms(1) by (simp_all add: worker_inv_def)
  note moves = deliveries_ok_moves [OF ok]
  show ?thesis
  proof (cases "cb_pc cb")
    case (Delivering r)
    then have "\<not> timed_out r" using assms(1) by (simp add: worker_inv_def)
    then show ?thesis
      using assms(2) pub act Delivering deliveries_ok_push [OF ok Delivering] moves(2) [of Deactivating]
      by (simp add: worker_local_def worker_inv_def split: if_splits) (auto simp: worker_inv_def)
  next
    case (InCallback r)
    then have r: "cb_delivered cb \<noteq> []" "last (cb_delivered cb) = r" using assms(1) by (simp_all add: worker_inv_def)
    show ?thesis
    proof (cases "ends = Returned () \<and> succeeded r")
      case True
      then have "cb' = cb\<lparr>cb_pc := Loop_test\<rparr>" using assms(2) InCallback by (simp add: worker_local_def)
      then show ?thesis using True r pub act InCallback moves(3) [of Loop_test] by (simp add: worker_inv_def)
    next
      case False
      then have "cb' = cb\<lparr>cb_pc := Deactivating\<rparr>" using assms(2) InCallback by (auto simp: worker_local_def)
      then show ?thesis using pub act InCallback moves(2) [of Deactivating] by (simp add: worker_inv_def)
    qed
  next
    case (Got r)
    then show ?thesis
      using assms(2) pub act moves(1) by (simp add: worker_local_def) (auto simp: worker_inv_def split: if_splits)
  next
    case Deactivating
    then have "cb' = (cb\<lparr>cb_pc := Exiting\<rparr>)\<lparr>cb_active := False\<rparr>"
      using assms(2) Deactivating unfolding worker_local_def by (cases cb) auto
    moreover have "deliveries_ok (cb\<lparr>cb_pc := Exiting\<rparr>)" by (rule moves(2)) simp
    ultimately show ?thesis using pub by (simp only: worker_inv_def deliveries_ok_active) simp
  qed (use assms(2) pub act moves in \<open>auto simp: worker_local_def worker_inv_def split: if_splits\<close>)
qed

lemma worker_inv_read:
  assumes "worker_inv cb" and "cb_pc cb = Reading"
  shows "worker_inv (cb\<lparr>cb_pc := Got r\<rparr>)" and "\<not> timed_out r \<Longrightarrow> worker_inv (cb\<lparr>cb_pc := Delivering r\<rparr>)"
  using assms deliveries_ok_moves(1) [of cb] by (auto simp: worker_inv_def)

section \<open>The invariant of the session\<close>

text \<open>Every index names an object.  As long as the session lives, the only worker that may still run
  is its current one, whose thread it holds; after its destruction at most one runs to its end.\<close>

definition only_running :: "nat option \<Rightarrow> CallbackState list \<Rightarrow> bool" where
  "only_running c ws \<longleftrightarrow> (\<forall>w < length ws. running (ws ! w) \<longrightarrow> c = Some w)"

definition workers_ok :: "nat \<Rightarrow> CallbackState list \<Rightarrow> bool" where
  "workers_ok n ws \<longleftrightarrow> (\<forall>cb \<in> set ws. worker_inv cb \<and> cb_backend cb < n)"

definition session_inv :: "'b CameraSession \<Rightarrow> bool" where
  "session_inv s \<longleftrightarrow>
     (\<forall>i. backend s = Some i \<longrightarrow> i < length (objects s))
     \<and> workers_ok (length (objects s)) (workers s)
     \<and> (\<exists>c. only_running c (workers s))
     \<and> (\<not> destroyed s \<longrightarrow>
          callback_thread s = callback_state s \<and> only_running (callback_state s) (workers s)
          \<and> (\<forall>w. callback_state s = Some w \<longrightarrow> w < length (workers s)))"

lemma workers_ok_nth:
  "workers_ok n ws \<Longrightarrow> w < length ws \<Longrightarrow> worker_inv (ws ! w)"
  "workers_ok n ws \<Longrightarrow> w < length ws \<Longrightarrow> cb_backend (ws ! w) < n"
  by (simp_all add: workers_ok_def)

lemma workers_ok_mono: "workers_ok n ws \<Longrightarrow> n \<le> m \<Longrightarrow> workers_ok m ws"
  by (auto simp: workers_ok_def)

lemma workers_ok_update:
  "workers_ok n ws \<Longrightarrow> worker_inv cb \<Longrightarrow> cb_backend cb < n \<Longrightarrow> workers_ok n (ws[w := cb])"
  unfolding workers_ok_def using set_update_subset_insert [of ws w cb] by blast

lemma only_running_update:
  "only_running c ws \<Longrightarrow> (running cb \<Longrightarrow> running (ws ! w)) \<Longrightarrow> only_running c (ws[w := cb])"
  unfolding only_running_def by (metis length_list_update nth_list_update_eq nth_list_update_neq)

lemma only_running_None: "only_running None ws \<longleftrightarrow> (\<forall>w < length ws. \<not> running (ws ! w))"
  by (simp add: only_running_def)

lemma only_running_add: "only_running None ws \<Longrightarrow> only_running (Some (length ws)) (ws @ [cb])"
  by (auto simp: only_running_def nth_append)

lemma session_inv_objects [simp]:
  "length xs = length (objects s) \<Longrightarrow> session_inv (s\<lparr>objects := xs\<rparr>) \<longleftrightarrow> session_inv s"
  by (simp add: session_inv_def)

lemma session_inv_same_workers:
  assumes "session_inv s" and "workers s' = workers s" and "length (objects s) \<le> length (objects s')"
    and "\<And>i. backend s' = Some i \<Longrightarrow> i < length (objects s')" and "destroyed s' = destroyed s"
    and "callback_state s' = callback_state s" and "callback_thread s' = callback_thread s"
  shows "session_inv s'"
  using assms workers_ok_mono unfolding session_inv_def by metis

lemma put_object_inv [simp]: "session_inv (put_object i b s) \<longleftrightarrow> session_inv s"
  by (simp add: put_object_def)

lemma put_object_sel [simp]:
  "workers (put_object i b s) = workers s" "backend (put_object i b s) = backend s"
  "callback_state (put_object i b s) = callback_state s" "callback_thread (put_object i b s) = callback_thread s"
  "destroyed (put_object i b s) = destroyed s" "length (objects (put_object i b s)) = length (objects s)"
  by (simp_all add: put_object_def)

lemma upd_worker_sel [simp]:
  "objects (upd_worker w f s) = objects s" "backend (upd_worker w f s) = backend s"
  "callback_state (upd_worker w f s) = callback_state s" "callback_thread (upd_worker w f s) = callback_thread s"
  "destroyed (upd_worker w f s) = destroyed s" "length (workers (upd_worker w f s)) = length (workers s)"
  "w < length (workers s) \<Longrightarrow> workers (upd_worker w f s) ! w = f (workers s ! w)"
  "v \<noteq> w \<Longrightarrow> workers (upd_worker w f s) ! v = workers s ! v"
  by (simp_all add: upd_worker_def)

lemma upd_worker_inv:
  assumes "session_inv s" and "w < length (workers s) \<Longrightarrow> worker_inv (f (workers s ! w))"
    and "cb_backend (f (workers s ! w)) = cb_backend (workers s ! w)"
    and "running (f (workers s ! w)) \<Longrightarrow> running (workers s ! w)"
  shows "session_inv (upd_worker w f s)"
proof (cases "w < length (workers s)")
  case True
  let ?ws = "(workers s)[w := f (workers s ! w)]"
  have "workers_ok (length (objects s)) ?ws"
    using assms(1-3) True by (intro workers_ok_update) (auto simp: session_inv_def dest: workers_ok_nth)
  moreover have "only_running c ?ws" if "only_running c (workers s)" for c
    using that assms(4) by (rule only_running_update)
  ultimately show ?thesis using assms(1) unfolding session_inv_def upd_worker_def by auto
next
  case False
  then have "upd_worker w f s = s" by (simp add: upd_worker_def list_update_beyond)
  then show ?thesis using assms(1) by simp
qed

section \<open>Every operation keeps it\<close>

lemma new_session_inv: "session_inv CameraSession_new"
  by (simp add: session_inv_def CameraSession_new_def workers_ok_def only_running_def)

lemma add_backend_inv:
  "session_inv s \<Longrightarrow> session_inv (s\<lparr>objects := objects s @ [b], backend := Some (length (objects s))\<rparr>)"
  by (rule session_inv_same_workers) simp_all

lemma drop_backend_inv: "session_inv s \<Longrightarrow> session_inv (s\<lparr>backend := None\<rparr>)"
  by (rule session_inv_same_workers) simp_all

lemma stop_flag_inv:
  assumes "session_inv s"
  shows "session_inv (stop_flag s)"
proof (cases "callback_state s")
  case None
  then show ?thesis using assms by (simp add: stop_flag_def)
next
  case (Some w)
  have "workers_ok (length (objects s)) (workers s)" using assms by (simp add: session_inv_def)
  then have "session_inv (upd_worker w (\<lambda>cb. cb\<lparr>cb_stop := True\<rparr>) s)"
    by (intro upd_worker_inv assms) (simp_all add: running_def workers_ok_nth)
  then show ?thesis using Some by (simp add: stop_flag_def)
qed

lemma stop_backend_inv: "session_inv s \<Longrightarrow> session_inv (snd (stop_backend B s))"
  by (simp add: stop_backend_def split: option.split prod.split reply.split)

lemma close_backend_inv: "session_inv s \<Longrightarrow> session_inv (close_backend B s)"
  by (simp add: close_backend_def drop_backend_inv split: option.split)

lemma set_backend_inv: "session_inv s \<Longrightarrow> session_inv (set_backend b s)"
  by (simp add: set_backend_def add_backend_inv)

text \<open>After a reap the session has no worker and none of its workers runs.\<close>

lemma reap_cases:
  assumes "session_inv s" and "\<not> destroyed s" and "reapCallbackThread self s = Done (reaped, s')"
  obtains (itself) "\<not> reaped" "s' = s" "self = callback_state s" "callback_state s \<noteq> None"
  | (reaped) "reaped" "session_inv s'" "callback_state s' = None" "callback_thread s' = None"
      "only_running None (workers s)"
      "s' = s\<lparr>callback_thread := None, callback_state := None\<rparr>"
proof (cases "isCallbackThread self s")
  case True
  then show ?thesis using assms(3) by (intro itself) (auto simp: reapCallbackThread_def isCallbackThread_def)
next
  case False
  have "callback_thread s = callback_state s" "only_running (callback_state s) (workers s)"
    using assms(1, 2) by (simp_all add: session_inv_def)
  then have none: "only_running None (workers s)"
    using assms(3) False
    by (cases "callback_state s") (auto simp: reapCallbackThread_def only_running_def running_def split: if_splits)
  have same: "reaped" "s' = s\<lparr>callback_thread := None, callback_state := None\<rparr>"
    using assms(3) False by (auto simp: reapCallbackThread_def split: option.splits if_splits)
  have "session_inv s'" using assms(1) none unfolding same(2) session_inv_def by auto
  then show ?thesis using same none by (intro reaped) simp_all
qed

lemma reap_inv:
  "session_inv s \<Longrightarrow> \<not> destroyed s \<Longrightarrow> reapCallbackThread self s = Done (reaped, s') \<Longrightarrow> session_inv s'"
  by (rule reap_cases [of s self reaped s']) simp_all

lemma prepareStart_success:
  assumes "session_inv s" and "\<not> destroyed s" and "prepareStart B self s = Done (Success (), s')"
  shows "session_inv s'" "callback_state s' = None" "\<not> destroyed s'"
    "only_running None (workers s')"
proof -
  obtain reaped where r: "reapCallbackThread self s = Done (reaped, s')" "reaped"
    using assms(3)
    by (auto simp: prepareStart_def obind_Done_iff lifecycle_error_def split: if_splits)
  have "session_inv s' \<and> callback_state s' = None \<and> \<not> destroyed s'
      \<and> only_running None (workers s')"
    by (rule reap_cases [OF assms(1, 2) r(1)]) (use r(2) assms(2) in simp_all)
  then show "session_inv s'" "callback_state s' = None" "\<not> destroyed s'"
    "only_running None (workers s')" by simp_all
qed

lemma prepareStart_inv:
  assumes "session_inv s" and "\<not> destroyed s" and "prepareStart B self s = Done (r, s')"
  shows "session_inv s'" "\<not> destroyed s'"
proof -
  have "s' = s \<or> (\<exists>reaped. reapCallbackThread self s = Done (reaped, s'))"
    using assms(3) by (auto simp: prepareStart_def obind_Done_iff split: if_splits)
  moreover have "destroyed s' = destroyed s" if "reapCallbackThread self s = Done (reaped, s')" for reaped
    using that by (auto simp: reapCallbackThread_def split: if_splits option.splits)
  ultimately show "session_inv s'" "\<not> destroyed s'" using assms(1, 2) reap_inv by metis+
qed

lemma startBackend_sel [simp]:
  "session_inv (snd (startBackend B s)) \<longleftrightarrow> session_inv s"
  "workers (snd (startBackend B s)) = workers s" "destroyed (snd (startBackend B s)) = destroyed s"
  "callback_state (snd (startBackend B s)) = callback_state s"
  "backend (snd (startBackend B s)) = backend s"
  "length (objects (snd (startBackend B s))) = length (objects s)"
  by (simp_all add: startBackend_def split: option.split prod.split reply.split)

lemma session_start_inv:
  assumes "session_inv s" and "\<not> destroyed s" and "session_start B self s = Done (r, s')"
  shows "session_inv s'" "\<not> destroyed s'"
proof -
  obtain prepared s1 where "prepareStart B self s = Done (prepared, s1)"
    and "s' = s1 \<or> s' = snd (startBackend B s1)"
    using assms(3) by (auto simp: session_start_def obind_Done_iff split: if_splits)
  then show "session_inv s'" "\<not> destroyed s'" using prepareStart_inv [OF assms(1, 2)] by auto
qed

lemma add_worker_inv:
  assumes "session_inv s" and "\<not> destroyed s" and "only_running None (workers s)"
    and "worker_inv cb" and "cb_backend cb < length (objects s)"
  shows "session_inv (s\<lparr>workers := workers s @ [cb], callback_state := Some (length (workers s)),
    callback_thread := Some (length (workers s))\<rparr>)"
proof -
  have "workers_ok (length (objects s)) (workers s @ [cb])"
    using assms(1, 4, 5) by (simp add: session_inv_def workers_ok_def)
  then show ?thesis
    using assms(1, 2) only_running_add [OF assms(3), of cb] by (auto simp: session_inv_def)
qed

lemma launch_rollback_inv:
  assumes "session_inv s" and "\<not> destroyed s" and "only_running None (workers s)"
    and "callback_state s = None"
  shows "session_inv (launch_rollback B i s)" "\<not> destroyed (launch_rollback B i s)"
proof -
  obtain b where "launch_rollback B i s = (put_object i b s)\<lparr>callback_state := None\<rparr>"
    by (simp add: launch_rollback_def Let_def split_beta)
  moreover have "(put_object i b s)\<lparr>callback_state := None\<rparr> = put_object i b s"
    using assms(4) by (simp add: put_object_def)
  ultimately show "session_inv (launch_rollback B i s)" "\<not> destroyed (launch_rollback B i s)"
    using assms(1, 2) by simp_all
qed

lemma start_callback_cases:
  assumes "session_start_callback B launch has self s = Done (r, s')"
  obtains "s' = s"
  | prepared s1 where "prepareStart B self s = Done (prepared, s1)" "s' = s1 \<or> s' = snd (startBackend B s1)"
  | (launched) s1 i where "prepareStart B self s = Done (Success (), s1)" "backend s1 = Some i"
      "let s2 = snd (startBackend B s1); w = length (workers s2) in
         s' = s2\<lparr>workers := workers s2 @ [(CallbackState_new i)\<lparr>cb_active := True, cb_published := True\<rparr>],
            callback_state := Some w, callback_thread := Some w\<rparr>"
  | (not_launched) s1 i where "prepareStart B self s = Done (Success (), s1)" "backend s1 = Some i"
      "s' = launch_rollback B i (snd (startBackend B s1))"
proof (cases has)
  case False
  then show ?thesis using assms that(1) by (simp add: session_start_callback_def)
next
  case True
  then obtain prepared s1 where prep: "prepareStart B self s = Done (prepared, s1)"
    using assms by (auto simp: session_start_callback_def obind_Done_iff)
  show ?thesis
  proof (cases "succeeded prepared")
    case False
    then show ?thesis using assms True prep that(2) by (simp add: session_start_callback_def)
  next
    case ok: True
    then have p: "prepareStart B self s = Done (Success (), s1)" using prep by (cases prepared) auto
    then obtain i where i: "backend s1 = Some i"
      using assms True by (auto simp: session_start_callback_def split: option.splits)
    obtain q s2 where q: "startBackend B s1 = (q, s2)" by fastforce
    show ?thesis
    proof (cases "q = Returned (Success ())")
      case started: True
      show ?thesis
        using assms True p i q started that(3) [OF p i] that(4) [OF p i]
        by (cases launch) (auto simp: session_start_callback_def Let_def)
    next
      case False
      then have "s' = s2"
        using assms True p i q by (auto simp: session_start_callback_def split: reply.splits Result.splits)
      then show ?thesis using that(2) [OF p] q by simp
    qed
  qed
qed

lemma session_start_callback_inv:
  assumes "session_inv s" and "\<not> destroyed s" and "session_start_callback B launch has self s = Done (r, s')"
  shows "session_inv s'" "\<not> destroyed s'"
proof -
  note prep = prepareStart_inv [OF assms(1, 2)]
  have "session_inv s' \<and> \<not> destroyed s'"
  using assms(3) proof (cases rule: start_callback_cases)
    case 1
    then show ?thesis using assms(1, 2) by simp
  next
    case (2 prepared s1)
    then show ?thesis using prep [OF 2(1)] by auto
  next
    case (launched s1 i)
    note p = prepareStart_success [OF assms(1, 2) launched(1)]
    let ?s2 = "snd (startBackend B s1)"
    have "i < length (objects ?s2)" using p(1) launched(2) by (simp add: session_inv_def)
    then have "session_inv s'"
      using p launched(3) add_worker_inv [of ?s2 "(CallbackState_new i)\<lparr>cb_active := True, cb_published := True\<rparr>"]
        worker_inv_new [of i] by (simp add: Let_def CallbackState_new_def)
    then show ?thesis using p launched(3) by (simp add: Let_def)
  next
    case (not_launched s1 i)
    note p = prepareStart_success [OF assms(1, 2) not_launched(1)]
    show ?thesis
      using launch_rollback_inv [of "snd (startBackend B s1)" B i] p not_launched(3) by simp
  qed
  then show "session_inv s'" "\<not> destroyed s'" by simp_all
qed

lemma on_backend_sel [simp]:
  "session_inv (snd (on_backend f none s)) \<longleftrightarrow> session_inv s"
  "destroyed (snd (on_backend f none s)) = destroyed s"
  "workers (snd (on_backend f none s)) = workers s"
  "callback_state (snd (on_backend f none s)) = callback_state s"
  by (simp_all add: on_backend_def split_beta split: option.split)

lemma session_open_inv:
  "session_inv s \<Longrightarrow> session_inv (snd (session_open B mk d s))"
  "destroyed (snd (session_open B mk d s)) = destroyed s"
  "workers (snd (session_open B mk d s)) = workers s"
  by (auto simp: session_open_def add_backend_inv split: option.split prod.split reply.split Result.split)

lemma session_call_inv:
  assumes "session_inv s" and "\<not> destroyed s" and "session_call B mk self s s'"
  shows "session_inv s'" "\<not> destroyed s'"
proof -
  from assms(3) have "session_inv s' \<and> \<not> destroyed s'"
  proof (cases rule: session_call.cases)
    case (open_call d r)
    then show ?thesis using assms(1, 2) session_open_inv(1) [of s B mk d] session_open_inv(2) [of B mk d s] by simp
  next
    case (open_configuration_call v c r)
    then have "s' = s \<or> (\<exists>d. s' = snd (session_open B mk d s))"
      by (auto simp: session_open_configuration_def split: if_splits) (metis snd_conv)
    then show ?thesis using assms(1, 2) session_open_inv(1) [of s B mk] session_open_inv(2) [of B mk _ s] by auto
  next
    case (start_call r)
    then show ?thesis using session_start_inv [OF assms(1, 2)] by simp
  next
    case (start_callback_call launch has r)
    then show ?thesis using session_start_callback_inv [OF assms(1, 2)] by simp
  next
    case (read_call timeout f)
    then have "s' = snd (session_readFrame B timeout s)" by simp
    then show ?thesis using assms(1, 2) by (simp add: session_readFrame_def)
  next
    case (get_call ctl cv)
    then have "s' = snd (session_getControl B ctl s)" by simp
    then show ?thesis using assms(1, 2) by (simp add: session_getControl_def)
  next
    case (set_call v r)
    then have "s' = snd (session_setControl B v s)" by simp
    then show ?thesis using assms(1, 2) by (simp add: session_setControl_def)
  next
    case (get_unit_call x xv)
    then have "s' = snd (session_getExtensionUnit B x s)" by simp
    then show ?thesis using assms(1, 2) by (simp add: session_getExtensionUnit_def)
  next
    case (set_unit_call y r)
    then have "s' = snd (session_setExtensionUnit B y s)" by simp
    then show ?thesis using assms(1, 2) by (simp add: session_setExtensionUnit_def)
  qed
  then show "session_inv s'" "\<not> destroyed s'" by simp_all
qed

lemma worker_read_inv:
  assumes "session_inv s" and "w < length (workers s)" and "cb_pc (workers s ! w) = Reading"
  shows "session_inv (worker_read B w s)"
proof -
  have "worker_inv (workers s ! w)" using assms(1, 2) by (auto simp: session_inv_def workers_ok_nth)
  note read = worker_inv_read [OF this assms(3)]
  have "session_inv (upd_worker w (\<lambda>cb. cb\<lparr>cb_pc := Got r\<rparr>) s)" for r
    using assms read by (intro upd_worker_inv) (simp_all add: running_def)
  moreover have "session_inv (upd_worker w (\<lambda>cb. cb\<lparr>cb_pc := q\<rparr>) (put_object i b s))"
    if "q = Got r \<or> q = Delivering allocation_error \<or> q = Delivering backend_error" for i b r q
    using assms read that by (intro upd_worker_inv) (auto simp: running_def)
  ultimately show ?thesis
    by (simp add: worker_read_def Let_def split: prod.split reply.split cpp_exception.split)
qed

lemma worker_local_keeps:
  assumes "worker_local ends cb = Some cb'"
  shows "cb_backend cb' = cb_backend cb" "running cb" "cb_stop cb' = cb_stop cb"
  using assms by (auto simp: worker_local_def running_def split: worker_pc.splits if_splits)

lemma worker_action_inv:
  assumes "session_inv s" and "worker_action B ends w s = Some s'"
  shows "session_inv s'"
proof (cases "cb_pc (workers s ! w) = Reading")
  case True
  then show ?thesis using assms by (auto simp: worker_action_def intro: worker_read_inv split: if_splits)
next
  case False
  then obtain cb where w: "w < length (workers s)" and cb: "worker_local ends (workers s ! w) = Some cb"
      and s': "s' = upd_worker w (\<lambda>_. cb) s"
    using assms(2) by (auto simp: worker_action_def split: if_splits option.splits)
  have "worker_inv (workers s ! w)" using assms(1) w by (auto simp: session_inv_def workers_ok_nth)
  then have "worker_inv cb" using worker_inv_local cb by blast
  then show ?thesis
    unfolding s' using worker_local_keeps [OF cb] by (intro upd_worker_inv assms(1)) simp_all
qed

lemma Impl_destructor_inv:
  assumes "session_inv s" and "Impl_destructor self s = Done s'"
  shows "session_inv s'"
  using assms by (auto simp: Impl_destructor_def session_inv_def split: option.splits if_splits)

lemma finish_after_inv:
  "session_inv s \<Longrightarrow> finish_after B self a s = Done s' \<Longrightarrow> session_inv s'"
  using close_backend_inv [of s B] set_backend_inv [of "close_backend B s"]
    Impl_destructor_inv [of "close_backend B s" self s']
  by (cases a) auto

lemma stop_parts_sel [simp]:
  "destroyed (stop_flag s) = destroyed s" "destroyed (snd (stop_backend B s)) = destroyed s"
  "length (workers (stop_flag s)) = length (workers s)" "workers (snd (stop_backend B s)) = workers s"
  "callback_state (stop_flag s) = callback_state s" "callback_state (snd (stop_backend B s)) = callback_state s"
  "callback_thread (stop_flag s) = callback_thread s" "callback_thread (snd (stop_backend B s)) = callback_thread s"
  by (simp_all add: stop_flag_def stop_backend_def split: option.split prod.split reply.split)

lemma stop_and_inv:
  assumes "session_inv s" and "\<not> destroyed s" and "stop_and B self a s = Done s'"
  shows "session_inv s'"
proof -
  let ?s1 = "snd (stop_backend B (stop_flag s))"
  have one: "session_inv ?s1" "\<not> destroyed ?s1"
    using stop_backend_inv [OF stop_flag_inv [OF assms(1)], of B] assms(2) by simp_all
  obtain reaped s2 where "reapCallbackThread self ?s1 = Done (reaped, s2)" "finish_after B self a s2 = Done s'"
    using assms(3) by (auto simp: stop_and_def session_stop_def obind_Done_iff split_beta)
  then show ?thesis using reap_inv [OF one] finish_after_inv by blast
qed

lemma worker_action_sel:
  assumes "worker_action B ends w s = Some s'"
  shows "destroyed s' = destroyed s" "callback_state s' = callback_state s" "callback_thread s' = callback_thread s"
    "w < length (workers s)" "length (workers s') = length (workers s)"
    "v \<noteq> w \<Longrightarrow> workers s' ! v = workers s ! v" "running (workers s ! w)"
    "cb_stop (workers s' ! w) = cb_stop (workers s ! w)"
proof -
  have w: "w < length (workers s)" using assms by (simp add: worker_action_def split: if_splits)
  show "w < length (workers s)" by (rule w)
  show "running (workers s ! w)"
    using assms worker_local_keeps(2) by (auto simp: worker_action_def running_def split: if_splits option.splits)
  show "destroyed s' = destroyed s" "callback_state s' = callback_state s" "callback_thread s' = callback_thread s"
    "length (workers s') = length (workers s)" "v \<noteq> w \<Longrightarrow> workers s' ! v = workers s ! v"
    "cb_stop (workers s' ! w) = cb_stop (workers s ! w)"
    using assms w worker_local_keeps(3)
    by (auto simp: worker_action_def worker_read_def Let_def
        split: if_splits option.splits prod.splits reply.splits cpp_exception.splits)
qed

section \<open>A callback cannot start its session or wait for itself\<close>

lemma in_callback:
  assumes "session_inv s" and "\<not> destroyed s" and "w < length (workers s)" and "cb_pc (workers s ! w) = InCallback f"
  shows "callback_state s = Some w" "callback_active s" "isCallbackThread (Some w) s"
proof -
  have "running (workers s ! w)" using assms(4) by (simp add: running_def)
  then show c: "callback_state s = Some w" using assms(1-3) unfolding session_inv_def only_running_def by metis
  have "worker_inv (workers s ! w)" using assms(1, 3) by (auto simp: session_inv_def workers_ok_nth)
  then show "callback_active s" using c assms(4) by (simp add: callback_active_def worker_inv_def)
  show "isCallbackThread (Some w) s" using c by (simp add: isCallbackThread_def)
qed

lemma callback_start_refused:
  assumes "callback_active s"
  shows "prepareStart B self s = Done (lifecycle_error Cam_AlreadyStreaming ''Camera callback stream is already active.'', s)"
    and "session_start B self s = Done (Returned (lifecycle_error Cam_AlreadyStreaming ''Camera callback stream is already active.''), s)"
    and "session_start_callback B launch True self s
      = Done (Returned (lifecycle_error Cam_AlreadyStreaming ''Camera callback stream is already active.''), s)"
  using assms by (simp_all add: prepareStart_def session_start_def session_start_callback_def lifecycle_error_def)

text \<open>So a call made in a callback leaves the workers alone, and its \<open>stop\<close> only raises the flag.\<close>

lemma callback_call_keeps:
  assumes "callback_active s" and "session_call B mk self s s'"
  shows "workers s' = workers s" "callback_state s' = callback_state s" "destroyed s' = destroyed s"
proof -
  have opened: "workers (snd (session_open B mk d s)) = workers s
      \<and> callback_state (snd (session_open B mk d s)) = callback_state s
      \<and> destroyed (snd (session_open B mk d s)) = destroyed s" for d
    by (auto simp: session_open_def split: option.split prod.split reply.split Result.split)
  from assms(2) have "workers s' = workers s \<and> callback_state s' = callback_state s \<and> destroyed s' = destroyed s"
  proof (cases rule: session_call.cases)
    case (open_call d r)
    then show ?thesis using opened [of d] by simp
  next
    case (open_configuration_call v c r)
    then have "s' = snd (session_open_configuration B mk v c s)" by simp
    then show ?thesis using opened by (simp add: session_open_configuration_def)
  next
    case (start_call r)
    then show ?thesis by (simp add: callback_start_refused(2) [OF assms(1)])
  next
    case (start_callback_call launch has r)
    then show ?thesis
      using callback_start_refused(3) [OF assms(1)] by (cases has) (auto simp: session_start_callback_def)
  next
    case (read_call timeout f)
    then have "s' = snd (session_readFrame B timeout s)" by simp
    then show ?thesis by (simp add: session_readFrame_def)
  next
    case (get_call ctl cv)
    then have "s' = snd (session_getControl B ctl s)" by simp
    then show ?thesis by (simp add: session_getControl_def)
  next
    case (set_call v r)
    then have "s' = snd (session_setControl B v s)" by simp
    then show ?thesis by (simp add: session_setControl_def)
  next
    case (get_unit_call x xv)
    then have "s' = snd (session_getExtensionUnit B x s)" by simp
    then show ?thesis by (simp add: session_getExtensionUnit_def)
  next
    case (set_unit_call y r)
    then have "s' = snd (session_setExtensionUnit B y s)" by simp
    then show ?thesis by (simp add: session_setExtensionUnit_def)
  qed
  then show "workers s' = workers s" "callback_state s' = callback_state s" "destroyed s' = destroyed s" by simp_all
qed

lemma close_backend_sel [simp]:
  "workers (close_backend B s) = workers s" "callback_state (close_backend B s) = callback_state s"
  "callback_thread (close_backend B s) = callback_thread s" "destroyed (close_backend B s) = destroyed s"
  by (simp_all add: close_backend_def split: option.split)

lemma set_backend_sel [simp]:
  "workers (set_backend b s) = workers s" "callback_state (set_backend b s) = callback_state s"
  "callback_thread (set_backend b s) = callback_thread s" "destroyed (set_backend b s) = destroyed s"
  by (simp_all add: set_backend_def)

lemma finish_after_sel:
  assumes "finish_after B self a s = Done s'"
  shows "workers s' = workers s" "callback_state s' = callback_state s" "destroyed s' \<longleftrightarrow> a = To_destroy \<or> destroyed s"
  using assms by (cases a; auto simp: Impl_destructor_def split: option.splits if_splits)+

lemma callback_stop_returns:
  assumes "isCallbackThread self s"
  shows "session_stop B self s = Done (stop_backend B (stop_flag s))"
  using assms by (simp add: session_stop_def reapCallbackThread_def isCallbackThread_def split_beta)

lemma callback_stop_and:
  assumes "isCallbackThread self s" and "stop_and B self a s = Done s'"
  shows "workers s' = workers (stop_flag s)" "callback_state s' = callback_state s"
    "destroyed s' \<longleftrightarrow> a = To_destroy \<or> destroyed s"
proof -
  have "finish_after B self a (snd (stop_backend B (stop_flag s))) = Done s'"
    using assms by (simp add: stop_and_def callback_stop_returns split_beta)
  from finish_after_sel [OF this]
  show "workers s' = workers (stop_flag s)" "callback_state s' = callback_state s"
    "destroyed s' \<longleftrightarrow> a = To_destroy \<or> destroyed s" by simp_all
qed

section \<open>The invariant of the reachable states\<close>

text \<open>While the owner thread is inside an operation that stops, the session lives and the flag of its
  worker is up.\<close>

definition stopping :: "'b CameraSession \<Rightarrow> bool" where
  "stopping s \<longleftrightarrow> \<not> destroyed s
     \<and> (case callback_state s of None \<Rightarrow> True | Some w \<Rightarrow> cb_stop (workers s ! w))"

fun system_inv :: "'b phase \<times> 'b CameraSession \<Rightarrow> bool" where
  "system_inv (p, s) \<longleftrightarrow> session_inv s \<and> (p = Idle \<or> stopping s)"

lemma stopping_flag: "session_inv s \<Longrightarrow> \<not> destroyed s \<Longrightarrow> stopping (stop_flag s)"
  by (auto simp: stopping_def stop_flag_def session_inv_def split: option.splits)

lemma stopping_same:
  "stopping s \<Longrightarrow> workers s' = workers s \<Longrightarrow> callback_state s' = callback_state s \<Longrightarrow> destroyed s' = destroyed s
    \<Longrightarrow> stopping s'"
  by (simp add: stopping_def split: option.splits)

lemma system_inv_step:
  assumes "session_step B mk x y" and "system_inv x"
  shows "system_inv y"
  using assms(1)
proof (cases rule: session_step.cases)
  case (owner_call s s')
  then show ?thesis using assms(2) session_call_inv by simp
next
  case (stop_raise s a)
  then show ?thesis using assms(2) stop_flag_inv [of s] stopping_flag [of s] by simp
next
  case (stop_halt s r s' a)
  then have inv: "session_inv s" "stopping s" using assms(2) by simp_all
  have "workers s' = workers s" "callback_state s' = callback_state s" "destroyed s' = destroyed s"
    using stop_parts_sel(2, 4, 6) [of B s] by (simp_all only: stop_halt(3) snd_conv)
  moreover have "session_inv s'" using stop_backend_inv [OF inv(1), of B] by (simp only: stop_halt(3) snd_conv)
  ultimately show ?thesis using stop_halt(2) stopping_same [OF inv(2)] by simp
next
  case (stop_join s reaped s1 a s' r)
  then show ?thesis using assms(2) reap_inv [of s None reaped s1] finish_after_inv by (auto simp: stopping_def)
next
  case (worker_acts ends w s s' p)
  have "stopping s'" if "stopping s"
    using that worker_action_sel [OF worker_acts(3)]
    by (cases "callback_state s = Some w") (auto simp: stopping_def split: option.splits)
  then show ?thesis using worker_acts assms(2) worker_action_inv by auto
next
  case (callback_call w s f s' p)
  then have inv: "session_inv s" using assms(2) by simp
  note active = in_callback(2) [OF inv callback_call(5, 3, 4)]
  show ?thesis
    using callback_call assms(2) session_call_inv [OF inv callback_call(5, 6)]
      callback_call_keeps [OF active callback_call(6)] stopping_same [of s s'] by auto
next
  case (callback_stop w s f a p s')
  then have inv: "session_inv s" using assms(2) by simp
  note self = in_callback(3) [OF inv callback_stop(5, 3, 4)]
  have "stopping s'" if "p \<noteq> Idle"
    using callback_stop_and [OF self callback_stop(7)] callback_stop(5, 6) that stopping_flag [OF inv callback_stop(5)]
    by (intro stopping_same [of "stop_flag s" s']) simp_all
  then show ?thesis using callback_stop stop_and_inv [OF inv] by auto
qed

lemma reachable_system_inv: "session_reachable B mk x \<Longrightarrow> system_inv x"
  by (induction rule: session_reachable.induct) (auto simp: new_session_inv intro: system_inv_step)

end
