(* ===== verification/CameraSessionCorrect.thy ===== *)
theory CameraSessionCorrect
  imports CameraSessionSteps
begin

text \<open>
  What the camera session promises: which results its callback sees, that a stop made by the owner
  thread ends the worker and returns, that a callback can stop its session but not restart it or
  read from it, and what each synchronous operation does in every state.
\<close>

section \<open>A concrete backend\<close>

text \<open>A backend for the witnesses: open and streaming flags and the frames left; reading past the last
  frame times out.\<close>

record toy_backend =
  toy_open :: bool
  toy_streaming :: bool
  toy_frames :: "sCameraFrame list"

definition toy_error :: "eCameraErrorCode \<Rightarrow> ('a, CameraError) Result" where
  "toy_error c = Failure (CameraError_make CamCat_Device c [])"

definition toy :: "toy_backend ICameraBackend" where
  "toy = \<lparr>be_open = (\<lambda>d b. (Returned (Success ()), b\<lparr>toy_open := True\<rparr>)),
     be_close = (\<lambda>b. b\<lparr>toy_open := False, toy_streaming := False\<rparr>),
     be_start = (\<lambda>b. (Returned (Success ()), b\<lparr>toy_streaming := True\<rparr>)),
     be_stop = (\<lambda>b. (Returned (Success ()), b\<lparr>toy_streaming := False\<rparr>)),
     be_readFrame = (\<lambda>t b. case toy_frames b of
         [] \<Rightarrow> (Returned (toy_error Cam_TimedOut), b)
       | f # fs \<Rightarrow> (Returned (Success f), b\<lparr>toy_frames := fs\<rparr>)),
     be_getControl = (\<lambda>c b. (Returned (toy_error Cam_UnsupportedControl), b)),
     be_setControl = (\<lambda>v b. (Returned (Success ()), b)),
     be_getExtensionUnit = default_getExtensionUnit,
     be_setExtensionUnit = default_setExtensionUnit,
     be_isOpen = toy_open, be_isStreaming = toy_streaming\<rparr>"

definition toy_frame :: sCameraFrame where
  "toy_frame = \<lparr>cm_description = \<lparr>fd_width = 1, fd_height = 1, fd_pixel_format = Gray8, fd_row_stride = 1\<rparr>,
     cm_data = [7], cm_sequence = 1, cm_timestamp = 0\<rparr>"

definition toy_mk :: "eCameraBackend \<Rightarrow> toy_backend option" where
  "toy_mk k = Some \<lparr>toy_open = False, toy_streaming = False, toy_frames = [toy_frame]\<rparr>"

text \<open>The session with that backend streaming to a callback, its worker at \<open>pc\<close>.\<close>

definition toy_session :: "bool \<Rightarrow> worker_pc \<Rightarrow> frame_result list \<Rightarrow> sCameraFrame list \<Rightarrow> toy_backend CameraSession" where
  "toy_session stop pc rs fs =
     \<lparr>objects = [\<lparr>toy_open = True, toy_streaming = True, toy_frames = fs\<rparr>],
      workers = [\<lparr>cb_backend = 0, cb_stop = stop, cb_active = True, cb_published = True, cb_pc = pc, cb_delivered = rs\<rparr>],
      backend = Some 0, callback_state = Some 0, callback_thread = Some 0, destroyed = False\<rparr>"

lemma toy_started: "session_reachable toy toy_mk (Idle, toy_session False Waiting [] [toy_frame])"
proof -
  let ?device = "\<lparr>di_backend = Video4Linux2, di_id = ''cam'', di_display_name = [], di_transport = [],
      di_transport_type = UsbUvc,
      di_usb = \<lparr>usb_vendor_id = 0, usb_product_id = 0, usb_serial_number = [], usb_uvc_version_bcd = 0\<rparr>\<rparr>"
  let ?d = "\<lparr>od_device = ?device,
      od_format = \<lparr>cf_width = 1, cf_height = 1, cf_frame_rate_numerator = 30, cf_frame_rate_denominator = 1,
        cf_pixel_format = Gray8\<rparr>,
      od_native_pixel_format = Gray8, od_allow_format_conversion = True\<rparr>"
  let ?open = "\<lparr>objects = [\<lparr>toy_open = True, toy_streaming = False, toy_frames = [toy_frame]\<rparr>],
      workers = [], backend = Some 0, callback_state = None, callback_thread = None, destroyed = False\<rparr>"
  have "session_open toy toy_mk ?d CameraSession_new = (Returned (Success ()), ?open)"
    by (simp add: session_open_def session_isOpen_def CameraSession_new_def device_valid_def format_valid_def
        toy_mk_def toy_def)
  then have "session_call toy toy_mk None CameraSession_new ?open" by (rule session_call.open_call)
  moreover have "session_start_callback toy (Returned ()) True None ?open
      = Done (Returned (Success ()), toy_session False Waiting [] [toy_frame])"
    by (simp add: session_start_callback_def prepareStart_def callback_active_def reapCallbackThread_def
        isCallbackThread_def session_isOpen_def session_isStreaming_def startBackend_def toy_def
        CallbackState_new_def put_object_def toy_session_def lifecycle_error_def)
  then have "session_call toy toy_mk None ?open (toy_session False Waiting [] [toy_frame])"
    by (rule session_call.start_callback_call)
  moreover have "\<not> destroyed CameraSession_new" "\<not> destroyed ?open" by (simp_all add: CameraSession_new_def)
  ultimately show ?thesis by (metis session_reachable.fresh session_reachable.step session_step.owner_call)
qed

lemma toy_reachable_step:
  "session_reachable B mk (p, s) \<Longrightarrow> worker_action B ends w s = Some s' \<Longrightarrow> session_reachable B mk (p, s')"
  by (rule session_reachable.step [OF _ session_step.worker_acts])

lemma toy_in_callback: "session_reachable toy toy_mk
    (Idle, toy_session False (InCallback (Success toy_frame)) [Success toy_frame] [])"
proof -
  let ?act = "worker_action toy (Returned ()) 0"
  have act: "?act (toy_session False Waiting [] [toy_frame]) = Some (toy_session False Loop_test [] [toy_frame])"
    "?act (toy_session False Loop_test [] [toy_frame]) = Some (toy_session False Reading [] [toy_frame])"
    "?act (toy_session False Reading [] [toy_frame]) = Some (toy_session False (Got (Success toy_frame)) [] [])"
    "?act (toy_session False (Got (Success toy_frame)) [] []) = Some (toy_session False (Delivering (Success toy_frame)) [] [])"
    "?act (toy_session False (Delivering (Success toy_frame)) [] [])
      = Some (toy_session False (InCallback (Success toy_frame)) [Success toy_frame] [])"
    by (simp_all add: toy_session_def worker_action_def worker_local_def worker_read_def upd_worker_def put_object_def toy_def)
  note chain = toy_reachable_step [OF toy_reachable_step [OF toy_reachable_step [OF toy_started act(1)] act(2)] act(3)]
  show ?thesis by (rule toy_reachable_step [OF toy_reachable_step [OF chain act(4)] act(5)])
qed

lemma toy_joining: "session_reachable toy toy_mk (Joining (Returned (Success ())) To_return,
    (toy_session True (InCallback (Success toy_frame)) [Success toy_frame] [])
      \<lparr>objects := [\<lparr>toy_open = True, toy_streaming = False, toy_frames = []\<rparr>]\<rparr>)"
proof -
  let ?s = "toy_session False (InCallback (Success toy_frame)) [Success toy_frame] []"
  have "session_step toy toy_mk (Idle, ?s) (Flagged To_return, stop_flag ?s)"
    by (rule session_step.stop_raise) (simp add: toy_session_def)
  moreover have "stop_backend toy (stop_flag ?s) = (Returned (Success ()),
      (toy_session True (InCallback (Success toy_frame)) [Success toy_frame] [])
      \<lparr>objects := [\<lparr>toy_open = True, toy_streaming = False, toy_frames = []\<rparr>]\<rparr>)"
    by (simp add: stop_backend_def stop_flag_def upd_worker_def toy_session_def put_object_def toy_def)
  ultimately show ?thesis
    using toy_in_callback by (meson session_reachable.step session_step.stop_halt)
qed

section \<open>The rank of a stopped worker\<close>

fun pc_rank :: "worker_pc \<Rightarrow> nat" where
  "pc_rank Ended = 0"
| "pc_rank Exiting = 1"
| "pc_rank Deactivating = 2"
| "pc_rank Loop_test = 3"
| "pc_rank (Got r) = 3"
| "pc_rank (Delivering r) = 3"
| "pc_rank Reading = 4"
| "pc_rank Waiting = 4"
| "pc_rank (InCallback r) = 4"

definition stop_rank :: "'b CameraSession \<Rightarrow> nat" where
  "stop_rank s = (case callback_state s of None \<Rightarrow> 0 | Some w \<Rightarrow> pc_rank (cb_pc (workers s ! w)))"

lemma pc_rank_bound: "pc_rank pc \<le> 4"
  by (cases pc) simp_all

lemma pc_rank_zero [simp]: "pc_rank pc = 0 \<longleftrightarrow> pc = Ended"
  by (cases pc) simp_all

lemma pc_rank_pos [simp]: "0 < pc_rank pc \<longleftrightarrow> pc \<noteq> Ended"
  by (cases pc) simp_all

lemma worker_local_rank:
  "worker_local ends cb = Some cb' \<Longrightarrow> cb_stop cb \<Longrightarrow> pc_rank (cb_pc cb') < pc_rank (cb_pc cb)"
  by (auto simp: worker_local_def split: worker_pc.splits if_splits)

lemma worker_action_rank:
  assumes "worker_action B ends w s = Some s'" and "cb_stop (workers s ! w)"
  shows "pc_rank (cb_pc (workers s' ! w)) < pc_rank (cb_pc (workers s ! w))"
  using assms worker_local_rank
  by (auto simp: worker_action_def worker_read_def Let_def split: if_splits option.splits)

lemma worker_can_act:
  assumes "worker_inv (workers s ! w)" and "w < length (workers s)" and "cb_pc (workers s ! w) \<noteq> Ended"
  shows "\<exists>s'. worker_action B ends w s = Some s'"
  using assms by (auto simp: worker_action_def worker_local_def worker_inv_def split: worker_pc.splits)

lemma worker_quiet:
  "only_running None (workers s) \<Longrightarrow> worker_action B ends w s = None"
  by (auto simp: worker_action_def only_running_None running_def worker_local_def)

text \<open>The states in which the owner thread waits for its worker.\<close>

lemma joining_facts:
  assumes "session_reachable B mk (Joining r a, s)"
  shows "session_inv s" "\<not> destroyed s" "stopping s" "callback_thread s = callback_state s"
    "only_running (callback_state s) (workers s)"
    "\<And>w. callback_state s = Some w \<Longrightarrow> w < length (workers s) \<and> worker_inv (workers s ! w) \<and> cb_stop (workers s ! w)"
  using reachable_system_inv [OF assms]
  by (auto simp: stopping_def session_inv_def workers_ok_nth split: option.splits)

lemma joining_action:
  assumes "session_reachable B mk (Joining r a, s)" and "worker_action B ends w s = Some s'"
  shows "stop_rank s' < stop_rank s"
proof -
  note facts = joining_facts [OF assms(1)] and act = worker_action_sel [OF assms(2)]
  have c: "callback_state s = Some w" using facts(5) act(4, 7) by (simp add: only_running_def)
  have "pc_rank (cb_pc (workers s' ! w)) < pc_rank (cb_pc (workers s ! w))"
    using worker_action_rank [OF assms(2)] facts(6) [OF c] by simp
  then show ?thesis by (simp add: stop_rank_def act(2) c)
qed

lemma finish_after_returns:
  "callback_thread s = None \<Longrightarrow> \<exists>s'. finish_after B None a s = Done s'"
  by (cases a) (auto simp: Impl_destructor_def)

lemma joining_can_return:
  assumes "session_reachable B mk (Joining r a, s)" and "stop_rank s = 0"
  shows "\<exists>s'. session_step B mk (Joining r a, s) (Idle, s')"
proof -
  note facts = joining_facts [OF assms(1)]
  have "\<exists>s1. reapCallbackThread None s = Done (True, s1) \<and> callback_thread s1 = None"
    using facts(4) assms(2)
    by (cases "callback_state s") (auto simp: reapCallbackThread_def isCallbackThread_def stop_rank_def)
  then show ?thesis by (meson finish_after_returns session_step.stop_join)
qed

lemma joining_step:
  assumes "session_reachable B mk (Joining r a, s)" and "session_step B mk (Joining r a, s) y"
  shows "(fst y = Idle \<and> stop_rank s = 0 \<and> only_running None (workers (snd y)))
    \<or> (fst y = Joining r a \<and> stop_rank (snd y) \<le> stop_rank s)"
proof -
  note facts = joining_facts [OF assms(1)]
  from assms(2) show ?thesis
  proof (cases rule: session_step.cases)
    case (stop_join reaped s1 s')
    then show ?thesis
      by (cases rule: reap_cases [OF facts(1, 2) stop_join(2)])
         (use facts(4) finish_after_sel(1) [OF stop_join(3)] in
          \<open>auto simp: stop_rank_def only_running_None running_def isCallbackThread_def reapCallbackThread_def
             split: option.splits if_splits\<close>)
  next
    case (worker_acts ends w s')
    then show ?thesis using joining_action [OF assms(1)] by (auto intro: less_imp_le)
  next
    case (callback_call w f s')
    note active = in_callback(2) [OF facts(1, 2) callback_call(2, 3)]
    show ?thesis
      using callback_call_keeps [OF active callback_call(5)] callback_call(1)
      by (auto simp: stop_rank_def split: option.split)
  next
    case (callback_stop w f a' s')
    note self = in_callback [OF facts(1, 2) callback_stop(2, 3)]
    show ?thesis
      using callback_stop_and(1, 2) [OF self(3) callback_stop(6)] callback_stop(1, 2) self(1)
      by (simp add: stop_rank_def stop_flag_def)
  qed
qed

section \<open>Properties\<close>

text \<open>C6. Whatever the owner thread, the callbacks and the backend do, the results that a stream delivers
  to its callback are never timeouts, all but the last are frames, and once a failure was delivered
  the worker is in that last invocation or on its way out, so no result follows it.\<close>

theorem camera_session_delivery:
  assumes "session_reachable B mk (p, s)" and "cb \<in> set (workers s)"
  shows "(\<forall>r \<in> set (cb_delivered cb). \<not> timed_out r)
    \<and> (\<forall>r \<in> set (butlast (cb_delivered cb)). \<exists>f. r = Success f)
    \<and> (\<forall>e. cb_delivered cb \<noteq> [] \<and> last (cb_delivered cb) = Failure e
        \<longrightarrow> cb_pc cb \<in> {InCallback (Failure e), Deactivating, Exiting, Ended})"
proof -
  have "deliveries_ok cb"
    using reachable_system_inv [OF assms(1)] assms(2) by (auto simp: session_inv_def workers_ok_def worker_inv_def)
  then show ?thesis by (auto simp: deliveries_ok_def succeeded_iff)
qed

theorem camera_session_delivery_witness:
  "\<exists>cb \<in> set (workers (toy_session False (InCallback (Success toy_frame)) [Success toy_frame] [])).
     cb_delivered cb = [Success toy_frame] \<and> (\<forall>r \<in> set (cb_delivered cb). \<not> timed_out r)"
proof -
  let ?s = "toy_session False (InCallback (Success toy_frame)) [Success toy_frame] []"
  have "workers ?s ! 0 \<in> set (workers ?s)" by (simp add: toy_session_def)
  from camera_session_delivery [OF toy_in_callback this] have "\<forall>r \<in> set (cb_delivered (workers ?s ! 0)). \<not> timed_out r"
    by blast
  then show ?thesis by (simp add: toy_session_def)
qed

text \<open>C5. While the owner thread waits in \<open>stop\<close>, \<open>close\<close> or the destructor for its worker, every action
  of any worker brings the wait nearer to its end, at most four are left, nothing else can lengthen
  it, and it ends: either the worker can act (however its callback ends) or the operation can return;
  when it returns, no worker runs.\<close>

theorem camera_stop_returns:
  assumes "session_reachable B mk (Joining r a, s)"
  shows "stop_rank s \<le> 4
    \<and> (\<forall>ends w s'. worker_action B ends w s = Some s' \<longrightarrow> stop_rank s' < stop_rank s)
    \<and> (\<forall>y. session_step B mk (Joining r a, s) y \<longrightarrow>
          (fst y = Idle \<and> stop_rank s = 0 \<and> (\<forall>ends w. worker_action B ends w (snd y) = None))
          \<or> (fst y = Joining r a \<and> stop_rank (snd y) \<le> stop_rank s))
    \<and> (if stop_rank s = 0 then \<exists>s'. session_step B mk (Joining r a, s) (Idle, s')
       else \<forall>ends. \<exists>w s'. worker_action B ends w s = Some s')"
proof (intro conjI allI impI)
  show "stop_rank s \<le> 4" by (simp add: stop_rank_def pc_rank_bound split: option.split)
  show "stop_rank s' < stop_rank s" if "worker_action B ends w s = Some s'" for ends w s'
    using joining_action [OF assms that] .
  show "(fst y = Idle \<and> stop_rank s = 0 \<and> (\<forall>ends w. worker_action B ends w (snd y) = None))
      \<or> (fst y = Joining r a \<and> stop_rank (snd y) \<le> stop_rank s)"
    if "session_step B mk (Joining r a, s) y" for y
    using joining_step [OF assms that] worker_quiet by blast
  show "if stop_rank s = 0 then \<exists>s'. session_step B mk (Joining r a, s) (Idle, s')
      else \<forall>ends. \<exists>w s'. worker_action B ends w s = Some s'"
  proof (cases "stop_rank s = 0")
    case True
    then show ?thesis using joining_can_return [OF assms] by simp
  next
    case False
    then obtain w where "callback_state s = Some w" "cb_pc (workers s ! w) \<noteq> Ended"
      by (cases "callback_state s") (auto simp: stop_rank_def)
    then show ?thesis using False worker_can_act joining_facts(6) [OF assms] by (metis)
  qed
qed

theorem camera_stop_returns_witness:
  "\<exists>w s'. worker_action toy (Threw Bad_alloc) w
      ((toy_session True (InCallback (Success toy_frame)) [Success toy_frame] [])
        \<lparr>objects := [\<lparr>toy_open = True, toy_streaming = False, toy_frames = []\<rparr>]\<rparr>) = Some s'"
  using camera_stop_returns [OF toy_joining]
  by (simp add: stop_rank_def toy_session_def)

text \<open>A callback may call its session: \<open>stop\<close> and \<open>close\<close> return at once, without waiting for the worker
  they run on, with the stop flag of that worker up; starting again and reading are refused and change
  nothing.\<close>

theorem camera_callback_reentrancy:
  assumes "session_reachable B mk (p, s)" and "\<not> destroyed s"
    and "w < length (workers s)" and "cb_pc (workers s ! w) = InCallback f"
  shows "(\<exists>r s'. session_stop B (Some w) s = Done (r, s') \<and> cb_stop (workers s' ! w) \<and> callback_state s' = Some w)
    \<and> (\<exists>s'. session_close B (Some w) s = Done s' \<and> cb_stop (workers s' ! w) \<and> backend s' = None)
    \<and> (\<forall>launch. \<exists>e. session_start_callback B launch True (Some w) s = Done (Returned (Failure e), s)
        \<and> session_start B (Some w) s = Done (Returned (Failure e), s) \<and> ce_code e = Cam_AlreadyStreaming)
    \<and> (\<exists>e. session_readFrame B timeout s = (Returned (Failure e), s)
        \<and> ce_code e = (if session_isOpen B s then Cam_ConcurrentRead else Cam_NotOpen))"
proof (intro conjI allI)
  have inv: "session_inv s" using reachable_system_inv [OF assms(1)] by simp
  note self = in_callback [OF inv assms(2-4)]
  have flag: "cb_stop (workers (stop_flag s) ! w)" using self(1) assms(3) by (simp add: stop_flag_def)
  let ?s1 = "snd (stop_backend B (stop_flag s))"
  have stop: "session_stop B (Some w) s = Done (stop_backend B (stop_flag s))"
    by (rule callback_stop_returns [OF self(3)])
  obtain r where r: "stop_backend B (stop_flag s) = (r, ?s1)" by (metis prod.collapse)
  show "\<exists>r s'. session_stop B (Some w) s = Done (r, s') \<and> cb_stop (workers s' ! w) \<and> callback_state s' = Some w"
  proof (intro exI conjI)
    show "session_stop B (Some w) s = Done (r, ?s1)" using stop r by simp
  qed (use flag self(1) in simp_all)
  have "session_close B (Some w) s = Done (close_backend B ?s1)"
    using stop r by (simp add: session_close_def split_beta)
  moreover have "backend (close_backend B ?s1) = None" by (simp add: close_backend_def split: option.split)
  ultimately show "\<exists>s'. session_close B (Some w) s = Done s' \<and> cb_stop (workers s' ! w) \<and> backend s' = None"
    using flag by simp
  show "\<exists>e. session_start_callback B launch True (Some w) s = Done (Returned (Failure e), s)
      \<and> session_start B (Some w) s = Done (Returned (Failure e), s) \<and> ce_code e = Cam_AlreadyStreaming" for launch
    using callback_start_refused [OF self(2)] by (simp add: lifecycle_error_def)
  show "\<exists>e. session_readFrame B timeout s = (Returned (Failure e), s)
      \<and> ce_code e = (if session_isOpen B s then Cam_ConcurrentRead else Cam_NotOpen)"
    using self(2) by (simp add: session_readFrame_def not_open_def lifecycle_error_def)
qed

theorem camera_callback_reentrancy_witness:
  "\<exists>r s'. session_stop toy (Some 0) (toy_session False (InCallback (Success toy_frame)) [Success toy_frame] []) = Done (r, s')
     \<and> cb_stop (workers s' ! 0)"
proof -
  have "\<not> destroyed (toy_session False (InCallback (Success toy_frame)) [Success toy_frame] [])"
    "0 < length (workers (toy_session False (InCallback (Success toy_frame)) [Success toy_frame] []))"
    "cb_pc (workers (toy_session False (InCallback (Success toy_frame)) [Success toy_frame] []) ! 0) = InCallback (Success toy_frame)"
    by (simp_all add: toy_session_def)
  from camera_callback_reentrancy [OF toy_in_callback this] show ?thesis by blast
qed

text \<open>What a backend owes the session about its own streaming: a stop that succeeds and a close end it.\<close>

definition backend_stops :: "'b ICameraBackend \<Rightarrow> bool" where
  "backend_stops B \<longleftrightarrow>
     (\<forall>b. \<not> be_isStreaming B (be_close B b))
     \<and> (\<forall>b b'. be_stop B b = (Returned (Success ()), b') \<longrightarrow> \<not> be_isStreaming B b')"

lemma put_object_nth [simp]: "i < length (objects s) \<Longrightarrow> objects (put_object i b s) ! i = b"
  by (simp add: put_object_def)

lemma isStreaming_put:
  "backend s = Some i \<Longrightarrow> i < length (objects s) \<Longrightarrow> session_isStreaming B (put_object i b s) = be_isStreaming B b"
  by (simp add: session_isStreaming_def)

lemma startBackend_threw:
  assumes "backend_stops B" and "session_inv s" and "startBackend B s = (Threw x, s')"
  shows "\<not> session_isStreaming B s'"
  using assms
  by (auto simp: startBackend_def backend_stops_def session_inv_def isStreaming_put
      split: option.splits prod.splits reply.splits)

lemma launch_rollback_stops:
  assumes "backend_stops B" and "backend s = Some i" and "i < length (objects s)"
  shows "\<not> session_isStreaming B (launch_rollback B i s)"
proof -
  obtain q b where q: "be_stop B (backend_object s i) = (q, b)" by fastforce
  have "\<not> be_isStreaming B (case q of Returned (Success u) \<Rightarrow> b | _ \<Rightarrow> be_close B b)"
    using assms(1) q by (auto simp: backend_stops_def split: reply.split Result.split)
  then show ?thesis using assms q by (simp add: launch_rollback_def session_isStreaming_def)
qed

lemma start_callback_threw:
  assumes "session_start_callback B launch has self s = Done (Threw x, s')"
  obtains s1 where "prepareStart B self s = Done (Success (), s1)" "startBackend B s1 = (Threw x, s')"
  | s1 i where "prepareStart B self s = Done (Success (), s1)" "backend s1 = Some i"
      "s' = launch_rollback B i (snd (startBackend B s1))"
proof -
  have "has" using assms by (cases has) (auto simp: session_start_callback_def)
  with assms obtain s1 i where p: "prepareStart B self s = Done (Success (), s1)" and i: "backend s1 = Some i"
    by (fastforce simp: session_start_callback_def obind_Done_iff succeeded_iff split: if_splits option.splits)
  obtain q s2 where q: "startBackend B s1 = (q, s2)" by fastforce
  show ?thesis
  proof (cases "q = Returned (Success ())")
    case True
    then show ?thesis
      using assms \<open>has\<close> p i q that(2) [OF p i]
      by (cases launch) (auto simp: session_start_callback_def Let_def)
  next
    case False
    then have "startBackend B s1 = (Threw x, s')"
      using assms \<open>has\<close> p i q by (auto simp: session_start_callback_def split: reply.splits Result.splits)
    then show ?thesis using that(1) [OF p] by simp
  qed
qed

lemma threw_start_facts:
  assumes "backend_stops B" and "session_inv s" and "\<not> destroyed s"
    and "session_start_callback B launch has self s = Done (Threw x, s')"
  shows "\<not> session_isStreaming B s'" "callback_state s' = None" "only_running None (workers s')"
proof -
  from assms(4) have "\<not> session_isStreaming B s' \<and> callback_state s' = None \<and> only_running None (workers s')"
  proof (rule start_callback_threw)
    fix s1 assume s1: "prepareStart B self s = Done (Success (), s1)" "startBackend B s1 = (Threw x, s')"
    note p = prepareStart_success [OF assms(2, 3) s1(1)]
    have "s' = snd (startBackend B s1)" by (simp add: s1(2))
    then have "callback_state s' = None" "workers s' = workers s1" using p(2) by simp_all
    then show ?thesis using startBackend_threw [OF assms(1) p(1) s1(2)] p(4) by simp
  next
    fix s1 i assume s1: "prepareStart B self s = Done (Success (), s1)" "backend s1 = Some i"
      "s' = launch_rollback B i (snd (startBackend B s1))"
    note p = prepareStart_success [OF assms(2, 3) s1(1)]
    have "i < length (objects s1)" using p(1) s1(2) by (simp add: session_inv_def)
    then have "\<not> session_isStreaming B s'"
      unfolding s1(3) by (intro launch_rollback_stops assms(1)) (simp_all add: s1(2))
    moreover have "callback_state s' = None" "workers s' = workers s1"
      by (simp_all add: s1(3) launch_rollback_def split_beta Let_def)
    ultimately show ?thesis using p(4) by simp
  qed
  then show "\<not> session_isStreaming B s'" "callback_state s' = None" "only_running None (workers s')" by simp_all
qed

lemma threw_stop_facts:
  assumes "backend_stops B" and "session_inv s" and "session_stop B self s = Done (Threw x, s')"
  shows "\<not> session_isStreaming B s'"
proof -
  let ?s = "stop_flag s"
  obtain i b where i: "backend ?s = Some i" "i < length (objects ?s)"
    "snd (stop_backend B ?s) = put_object i (be_close B b) ?s"
    using assms(2, 3) stop_flag_inv [OF assms(2)]
    by (auto simp: session_stop_def stop_backend_def obind_Done_iff session_inv_def split_beta
        split: option.splits prod.splits reply.splits if_splits)
  obtain reaped where "reapCallbackThread self (snd (stop_backend B ?s)) = Done (reaped, s')"
    using assms(3) by (auto simp: session_stop_def obind_Done_iff split_beta)
  then have "objects s' = objects (snd (stop_backend B ?s))" "backend s' = backend (snd (stop_backend B ?s))"
    by (auto simp: reapCallbackThread_def split: if_splits option.splits)
  then show ?thesis using i assms(1) by (simp add: session_isStreaming_def backend_stops_def)
qed

text \<open>An exception that leaves \<open>start\<close> with a callback, wherever it came from (the backend or the
  launch of the thread), leaves no stream and no worker behind; one that leaves \<open>stop\<close> leaves no
  stream; and \<open>close\<close> swallows both and always ends with the session not open.\<close>

theorem camera_session_exceptions:
  assumes "backend_stops B" and "session_reachable B mk (Idle, s)" and "\<not> destroyed s"
  shows "(\<forall>launch has self x s'. session_start_callback B launch has self s = Done (Threw x, s') \<longrightarrow>
        \<not> session_isStreaming B s' \<and> callback_state s' = None \<and> (\<forall>ends w. worker_action B ends w s' = None))
    \<and> (\<forall>self x s'. session_stop B self s = Done (Threw x, s') \<longrightarrow> \<not> session_isStreaming B s')
    \<and> (\<forall>self s'. session_close B self s = Done s' \<longrightarrow> \<not> session_isOpen B s' \<and> \<not> session_isStreaming B s')"
proof (intro conjI allI impI)
  have inv: "session_inv s" using reachable_system_inv [OF assms(2)] by simp
  fix launch has self x s' ends w
  assume threw: "session_start_callback B launch has self s = Done (Threw x, s')"
  note facts = threw_start_facts [OF assms(1) inv assms(3) threw]
  show "\<not> session_isStreaming B s'" "callback_state s' = None" "worker_action B ends w s' = None"
    using facts worker_quiet by auto
next
  fix self x s' assume "session_stop B self s = Done (Threw x, s')"
  then show "\<not> session_isStreaming B s'"
    using threw_stop_facts [OF assms(1)] reachable_system_inv [OF assms(2)] by simp
next
  fix self s' assume "session_close B self s = Done s'"
  then obtain s1 where "s' = close_backend B s1" by (auto simp: session_close_def obind_Done_iff)
  then have "backend s' = None" by (simp add: close_backend_def split: option.split)
  then show "\<not> session_isOpen B s'" "\<not> session_isStreaming B s'"
    by (simp_all add: session_isOpen_def session_isStreaming_def)
qed

theorem camera_session_exceptions_witness:
  "\<exists>s'. session_start_callback toy (Threw Other_exception) True None
      (CameraSession_new\<lparr>objects := [\<lparr>toy_open = True, toy_streaming = False, toy_frames = []\<rparr>], backend := Some 0\<rparr>)
    = Done (Threw Other_exception, s') \<and> \<not> session_isStreaming toy s'"
proof -
  let ?b = "\<lparr>toy_open = True, toy_streaming = False, toy_frames = []\<rparr>"
  let ?s = "CameraSession_new\<lparr>objects := [?b], backend := Some 0\<rparr>"
  have "backend_stops toy" by (auto simp: backend_stops_def toy_def)
  moreover have "session_reachable toy toy_mk (Idle, ?s)"
  proof -
    have "session_step toy toy_mk (Idle, CameraSession_new) (Flagged (To_install ?b), CameraSession_new)"
      using session_step.stop_raise [of CameraSession_new toy toy_mk "To_install ?b"]
      by (simp add: stop_flag_def CameraSession_new_def)
    moreover have "session_step toy toy_mk (Flagged (To_install ?b), CameraSession_new)
        (Joining (Returned (Success ())) (To_install ?b), CameraSession_new)"
      by (rule session_step.stop_halt) (simp add: stop_backend_def CameraSession_new_def)
    moreover have "session_step toy toy_mk (Joining (Returned (Success ())) (To_install ?b), CameraSession_new) (Idle, ?s)"
      by (rule session_step.stop_join [where reaped = True and ?s1.0 = CameraSession_new])
         (simp_all add: reapCallbackThread_def isCallbackThread_def set_backend_def close_backend_def CameraSession_new_def)
    ultimately show ?thesis by (meson session_reachable.fresh session_reachable.step)
  qed
  moreover have "\<not> destroyed ?s" by (simp add: CameraSession_new_def)
  moreover have "\<exists>s'. session_start_callback toy (Threw Other_exception) True None ?s = Done (Threw Other_exception, s')"
    by (simp add: session_start_callback_def prepareStart_def callback_active_def reapCallbackThread_def
        isCallbackThread_def session_isOpen_def session_isStreaming_def startBackend_def toy_def
        CameraSession_new_def put_object_def lifecycle_error_def)
  ultimately show ?thesis using camera_session_exceptions by metis
qed

end
