(* ===== verification/WebCameraCorrect.thy ===== *)
theory WebCameraCorrect
  imports WebCamera CameraSessionCorrect
begin

text \<open>
  What the web camera facade promises over any session, and over the real session with any backend.
  The locale \<open>web_session\<close> is what the facade relies on; \<open>CameraSessionAdapter\<close> interprets it.
\<close>

section \<open>The contract of the session\<close>

locale web_session =
  fixes S :: "'s IWebCameraSession"
  assumes close_closes: "ws_close S s = Done s' \<Longrightarrow> \<not> ws_isOpen S s'"
    and open_failure: "ws_open S d c s = Done (Returned (Failure e), s') \<Longrightarrow> s' = s"
    and control_open: "ws_setControl S v s = Done (r, s') \<Longrightarrow> s' \<noteq> s \<or> r = Returned (Success ()) \<Longrightarrow> ws_isOpen S s"
    and extension_checked: "ws_setExtensionUnit S x s = Done (r, s') \<Longrightarrow> s' \<noteq> s \<or> r = Returned (Success ())
        \<Longrightarrow> ws_isOpen S s \<and> xu_value_valid x \<and> xu_writable (xv_selector x)"
begin

text \<open>A session operation that went through the facade.\<close>

lemma call_session_Done:
  assumes "call_session f ses i = Done (r, Some i')"
  obtains ses' where "f ses = Done (r, ses')" "wi_session i' = Some ses'"
  using assms
  by (cases r) (auto simp: call_session_def obind_Done_iff Let_def remember_def)

lemma set_extension_reaches:
  assumes "wc_setExtensionUnit S x (Some i) = Done (r, Some i')"
    and "wi_session i' \<noteq> wi_session i \<or> r = Returned (Success ())"
  obtains ca a where "currentCapabilities (Some i) = Success ca" "a \<in> set (ca_extension_units ca)"
    "sameExtensionSelector a (xv_selector x)" "xu_writable a"
    "unat (xu_minimum_size a) \<le> length (xv_payload x)" "length (xv_payload x) \<le> unat (xu_maximum_size a)"
    "wc_isOpen S (Some i)" "xu_value_valid x" "xu_writable (xv_selector x)"
proof -
  obtain ses where ses: "wi_session i = Some ses"
    using assms by (auto simp: wc_setExtensionUnit_def with_session_def no_session_error_def split: option.splits)
  obtain ca where ca: "currentCapabilities (Some i) = Success ca"
    using assms ses
    by (auto simp: wc_setExtensionUnit_def with_session_def refuse_def remember_def split: Result.splits)
  obtain a where "find (\<lambda>a. sameExtensionSelector a (xv_selector x) \<and> xu_writable a
      \<and> unat (xu_minimum_size a) \<le> length (xv_payload x) \<and> length (xv_payload x) \<le> unat (xu_maximum_size a))
      (ca_extension_units ca) = Some a" and call: "call_session (ws_setExtensionUnit S x) ses i = Done (r, Some i')"
    using assms ses ca
    by (auto simp: wc_setExtensionUnit_def with_session_def refuse_def remember_def split: if_splits)
  then have a: "a \<in> set (ca_extension_units ca)" "sameExtensionSelector a (xv_selector x)" "xu_writable a"
      "unat (xu_minimum_size a) \<le> length (xv_payload x)" "length (xv_payload x) \<le> unat (xu_maximum_size a)"
    by (auto simp: find_Some_iff)
  obtain ses' where "ws_setExtensionUnit S x ses = Done (r, ses')" "wi_session i' = Some ses'"
    using call by (rule call_session_Done)
  then have "ws_isOpen S ses \<and> xu_value_valid x \<and> xu_writable (xv_selector x)"
    using extension_checked assms(2) ses by fastforce
  then show ?thesis using that [OF ca a] ses by (simp add: wc_isOpen_def)
qed

lemma closed_facade:
  assumes "wc_close S (Some i) = Done w" and "wi_session i \<noteq> None"
  shows "\<not> wc_isOpen S w" "\<not> succeeded (currentCapabilities w)" "lastError w = CameraError_none"
  using assms close_closes
  by (auto simp: wc_close_def obind_Done_iff wc_isOpen_def currentCapabilities_def lifecycle_error_def lastError_def)

text \<open>Opening with a configuration: what success means, and that a failure leaves session and selection alone.\<close>

lemma open_success_facts:
  assumes "wc_open_configuration S query d c (Some i) = Done (Returned (Success ()), w)"
  obtains ca i' where "w = Some i'" "\<not> wc_isOpen S (Some i)" "configuration_valid c" "isWebCameraCandidate d"
    "query d = Success ca" "findProfile ca c \<noteq> None"
    "selected_device i' = d" "capability i' = ca" "configuration i' = c" "has_selection i'"
    "last_error i' = CameraError_none"
proof -
  obtain ses where ses: "wi_session i = Some ses"
    using assms by (auto simp: wc_open_configuration_def with_session_def no_session_error_def split: option.splits)
  note run = assms [unfolded wc_open_configuration_def with_session_def option.case ses]
  have guards: "\<not> ws_isOpen S ses" "configuration_valid c" "isWebCameraCandidate d"
    using run by (auto simp: refuse_def lifecycle_error_def validation_error_def candidate_error_def split: if_splits)
  obtain ca where ca: "query d = Success ca" "findProfile ca c \<noteq> None"
    using run guards by (auto simp: refuse_def split: Result.splits if_splits)
  obtain ses' where "w = Some (remember (Success ()) (i\<lparr>wi_session := Some ses', selected_device := d, capability := ca,
      configuration := c, has_selection := True\<rparr>))"
    using run guards ca by (auto simp: obind_Done_iff Let_def)
  then show ?thesis
    using that [of _ ca] guards ca ses by (simp add: wc_isOpen_def remember_def)
qed

lemma open_failure_facts:
  assumes "wc_open_configuration S query d c (Some i) = Done (Returned (Failure e), w)" and "wi_session i \<noteq> None"
  shows "w = Some (i\<lparr>last_error := e\<rparr>)"
proof -
  obtain ses where ses: "wi_session i = Some ses" using assms(2) by auto
  have "i\<lparr>wi_session := Some ses\<rparr> = i" using ses by simp
  with assms(1) ses open_failure show ?thesis
    by (auto simp: wc_open_configuration_def with_session_def refuse_def remember_def obind_Done_iff Let_def
        lifecycle_error_def validation_error_def candidate_error_def split: if_splits Result.splits reply.splits)
qed

end

interpretation adapter: web_session "CameraSessionAdapter B mk launch" for B mk launch
proof
  fix s s' :: "'a CameraSession" and d c e v x and r :: "CameraStatus reply"
  let ?S = "CameraSessionAdapter B mk launch"
  show "\<not> ws_isOpen ?S s'" if closing: "ws_close ?S s = Done s'"
  proof -
    obtain s1 where "s' = close_backend B s1"
      using closing by (auto simp: CameraSessionAdapter_def session_close_def obind_Done_iff)
    then have "backend s' = None" by (simp add: close_backend_def split: option.split)
    then show ?thesis by (simp add: CameraSessionAdapter_def session_isOpen_def)
  qed
  show "s' = s" if "ws_open ?S d c s = Done (Returned (Failure e), s')"
    using that by (auto simp: CameraSessionAdapter_def session_open_configuration_def session_open_def
        split: if_splits option.splits prod.splits reply.splits Result.splits)
  show "ws_isOpen ?S s" if "ws_setControl ?S v s = Done (r, s')" "s' \<noteq> s \<or> r = Returned (Success ())"
    using that by (auto simp: CameraSessionAdapter_def session_setControl_def not_open_def lifecycle_error_def
        split: if_splits)
  show "ws_isOpen ?S s \<and> xu_value_valid x \<and> xu_writable (xv_selector x)"
    if "ws_setExtensionUnit ?S x s = Done (r, s')" "s' \<noteq> s \<or> r = Returned (Success ())"
    using that by (auto simp: CameraSessionAdapter_def session_setExtensionUnit_def not_open_def lifecycle_error_def
        validation_error_def split: if_splits)
qed

section \<open>The selection\<close>

inductive facade_step :: "'s IWebCameraSession \<Rightarrow> 's WebCamera \<Rightarrow> 's WebCamera \<Rightarrow> bool" for S where
  opened: "wc_open S query query' d w = Done (r, w') \<Longrightarrow> facade_step S w w'"
| opened_configuration: "wc_open_configuration S query d c w = Done (r, w') \<Longrightarrow> facade_step S w w'"
| closed: "wc_close S w = Done w' \<Longrightarrow> facade_step S w w'"
| resolved: "w = Some i \<Longrightarrow> resolveLegacyConfiguration i = (r, i') \<Longrightarrow> w' = Some i' \<Longrightarrow> facade_step S w w'"
| started: "wc_start S w = Done (r, w') \<Longrightarrow> facade_step S w w'"
| started_callback: "wc_start_callback S has w = Done (r, w') \<Longrightarrow> facade_step S w w'"
| stopped: "wc_stop S w = Done (r, w') \<Longrightarrow> facade_step S w w'"
| frame_read: "wc_readFrame S t w = Done (f, w') \<Longrightarrow> facade_step S w w'"
| control_read: "wc_getControl S ctl w = Done (cv, w') \<Longrightarrow> facade_step S w w'"
| control_set: "wc_setControl S v w = Done (r, w') \<Longrightarrow> facade_step S w w'"
| extension_read: "wc_getExtensionUnit S x w = Done (xv, w') \<Longrightarrow> facade_step S w w'"
| extension_set: "wc_setExtensionUnit S y w = Done (r, w') \<Longrightarrow> facade_step S w w'"

inductive facade_reachable :: "'s IWebCameraSession \<Rightarrow> 's WebCamera \<Rightarrow> bool" for S where
  created: "facade_reachable S (WebCamera_new session)"
| created_at: "facade_reachable S (WebCamera_at enumerated query index session)"
| step: "facade_reachable S w \<Longrightarrow> facade_step S w w' \<Longrightarrow> facade_reachable S w'"
| moved: "facade_reachable S w \<Longrightarrow> facade_reachable S other \<Longrightarrow> wc_move_assign S w other = Done (w', other')
    \<Longrightarrow> facade_reachable S w'"

text \<open>A selection is a web camera with a valid configuration that its capability advertises.\<close>

definition advertised :: "sCameraCapability \<Rightarrow> sCameraStreamConfiguration \<Rightarrow> bool" where
  "advertised ca c \<longleftrightarrow> (\<exists>p \<in> set (ca_stream_profiles ca).
     sameFormat (sp_native_format p) (sc_native_format c) \<and> supportsOutput p (sc_output_format c))"

definition selection_ok :: "'s WebCamera_Impl \<Rightarrow> bool" where
  "selection_ok i \<longleftrightarrow> (has_selection i \<longrightarrow>
     isWebCameraCandidate (selected_device i) \<and> configuration_valid (configuration i)
     \<and> advertised (capability i) (configuration i))"

lemma findProfile_advertised: "findProfile ca c \<noteq> None \<longleftrightarrow> advertised ca c"
  unfolding findProfile_def advertised_def by (auto simp: find_None_iff)

lemma selection_ok_last_error [simp]: "selection_ok (i\<lparr>last_error := e\<rparr>) \<longleftrightarrow> selection_ok i"
  "selection_ok (i\<lparr>wi_session := s\<rparr>) \<longleftrightarrow> selection_ok i" "selection_ok (remember r i) \<longleftrightarrow> selection_ok i"
  by (simp_all add: selection_ok_def remember_def)

lemma preferredOutput_Some:
  assumes "preferredOutput p = Some f"
  shows "supportsOutput p f" "f \<noteq> Unknown"
  using assms by (auto simp: preferredOutput_def PREFERRED_FORMATS_def split: if_splits)

lemma profile_configuration_ok:
  assumes "preferredOutput p = Some f" and "profile_valid p" and "p \<in> set (ca_stream_profiles ca)"
  defines "c \<equiv> \<lparr>sc_native_format = sp_native_format p, sc_output_format = f, sc_allow_conversion = True\<rparr>"
  shows "configuration_valid c" "advertised ca c"
  using assms preferredOutput_Some [of p f]
  by (auto simp: configuration_valid_def profile_valid_def advertised_def sameFormat_def split: if_splits)

lemma default_profile_from:
  "default_profile ps = Success c \<Longrightarrow> \<exists>p f. p \<in> set ps \<and> preferredOutput p = Some f \<and> profile_valid p
    \<and> c = \<lparr>sc_native_format = sp_native_format p, sc_output_format = f, sc_allow_conversion = True\<rparr>"
  by (induction ps) (auto split: option.splits if_splits)

lemma select_ok:
  assumes "select query d i = (r, i')" and "selection_ok i"
  shows "selection_ok i'" "wi_session i' = wi_session i"
    "r = Success () \<Longrightarrow> has_selection i' \<and> selected_device i' = d \<and> query d = Success (capability i')"
proof -
  show "selection_ok i'"
  proof (cases "i' = i")
    case False
    then obtain ca c where "isWebCameraCandidate d" "defaultConfiguration ca = Success c"
        "selected_device i' = d" "capability i' = ca" "configuration i' = c"
      using assms(1) by (auto simp: select_def candidate_error_def split: if_splits Result.splits)
    then show ?thesis
      using profile_configuration_ok unfolding selection_ok_def defaultConfiguration_def
      by (metis default_profile_from)
  qed (use assms(2) in simp)
  show "wi_session i' = wi_session i"
    "r = Success () \<Longrightarrow> has_selection i' \<and> selected_device i' = d \<and> query d = Success (capability i')"
    using assms(1) by (auto simp: select_def candidate_error_def validation_error_def split: if_splits Result.splits)
qed

text \<open>The operations that only call the session and remember its result.\<close>

definition selection :: "'s WebCamera_Impl \<Rightarrow> sCameraDeviceInfo \<times> sCameraCapability \<times> sCameraStreamConfiguration \<times> bool" where
  "selection i = (selected_device i, capability i, configuration i, has_selection i)"

lemma selection_update [simp]:
  "selection (i\<lparr>wi_session := s\<rparr>) = selection i" "selection (i\<lparr>last_error := e\<rparr>) = selection i"
  "selection (remember q i) = selection i"
  by (simp_all add: selection_def remember_def)

lemma remember_sel [simp]:
  "selected_device (remember q i) = selected_device i" "capability (remember q i) = capability i"
  "configuration (remember q i) = configuration i" "has_selection (remember q i) = has_selection i"
  "wi_session (remember q i) = wi_session i"
  by (simp_all add: remember_def)

lemma selection_ok_cong: "selection i = selection j \<Longrightarrow> selection_ok i = selection_ok j"
  by (simp add: selection_def selection_ok_def)

lemma call_session_same:
  "call_session f ses i = Done (r, w') \<Longrightarrow> map_option selection w' = Some (selection i)"
  by (auto simp: call_session_def obind_Done_iff Let_def split: reply.split)

lemma refuse_same: "refuse q i = Done (r, w') \<Longrightarrow> map_option selection w' = Some (selection i)"
  by (auto simp: refuse_def)

lemma with_session_same:
  assumes "with_session none f w = Done (r, w')"
    and "\<And>ses i. w = Some i \<Longrightarrow> wi_session i = Some ses \<Longrightarrow> f ses i = Done (r, w')
      \<Longrightarrow> map_option selection w' = Some (selection i)"
  shows "map_option selection w' = map_option selection w"
  using assms by (auto simp: with_session_def split: option.splits)

lemmas plain_operation_defs = wc_start_def wc_start_callback_def wc_stop_def wc_readFrame_def wc_getControl_def
  wc_setControl_def wc_getExtensionUnit_def wc_setExtensionUnit_def

lemma plain_operations_same:
  "wc_start S w = Done (r, w') \<Longrightarrow> map_option selection w' = map_option selection w"
  "wc_start_callback S has w = Done (r, w') \<Longrightarrow> map_option selection w' = map_option selection w"
  "wc_stop S w = Done (r, w') \<Longrightarrow> map_option selection w' = map_option selection w"
  "wc_readFrame S t w = Done (f, w') \<Longrightarrow> map_option selection w' = map_option selection w"
  "wc_getControl S ctl w = Done (cv, w') \<Longrightarrow> map_option selection w' = map_option selection w"
  "wc_setControl S v w = Done (r, w') \<Longrightarrow> map_option selection w' = map_option selection w"
  "wc_getExtensionUnit S x w = Done (xv, w') \<Longrightarrow> map_option selection w' = map_option selection w"
  "wc_setExtensionUnit S y w = Done (r, w') \<Longrightarrow> map_option selection w' = map_option selection w"
  unfolding plain_operation_defs
  by (erule with_session_same,
      auto dest: call_session_same refuse_same split: Result.splits if_splits option.splits bool.splits)+

lemma plain_step_ok:
  "map_option selection w' = map_option selection w \<Longrightarrow> (\<And>i. w = Some i \<Longrightarrow> selection_ok i)
    \<Longrightarrow> w' = Some i' \<Longrightarrow> selection_ok i'"
  using selection_ok_cong by (cases w) auto

lemma open_configuration_ok:
  assumes "wc_open_configuration S query d c w = Done (r, w')" and "\<And>i. w = Some i \<Longrightarrow> selection_ok i"
    and "w' = Some i'"
  shows "selection_ok i'"
proof (cases "map_option selection w' = map_option selection w")
  case True
  then show ?thesis using plain_step_ok assms(2, 3) by blast
next
  case False
  obtain q where r: "r = Returned q" "succeeded q"
    using False assms(1, 3)
    by (cases r) (auto simp: wc_open_configuration_def with_session_def obind_Done_iff Let_def refuse_def
        split: option.splits if_splits Result.splits)
  have "configuration_valid c \<and> isWebCameraCandidate d \<and> findProfile (capability i') c \<noteq> None
      \<and> selected_device i' = d \<and> configuration i' = c"
    using False assms(1, 3) r
    by (auto simp: wc_open_configuration_def with_session_def obind_Done_iff Let_def refuse_def
        split: option.splits if_splits Result.splits)
  then show ?thesis using findProfile_advertised by (auto simp: selection_ok_def)
qed

lemma facade_step_ok:
  assumes "facade_step S w w'" and "\<And>i. w = Some i \<Longrightarrow> selection_ok i" and "w' = Some i'"
  shows "selection_ok i'"
  using assms(1)
proof (cases rule: facade_step.cases)
  case (opened query query' d r)
  show ?thesis
  proof (cases "\<exists>ses i. w = Some i \<and> wi_session i = Some ses")
    case True
    then obtain ses i where w: "w = Some i" "wi_session i = Some ses" by blast
    obtain q j where q: "select query d i = (q, j)" by fastforce
    have "selection_ok j" using select_ok(1) [OF q] assms(2) w by simp
    then show ?thesis
      using opened w q assms(3) open_configuration_ok [of S query' d "configuration j" "Some j"]
      by (auto simp: wc_open_def with_session_def refuse_def split: if_splits)
  next
    case False
    then show ?thesis
      using opened assms(2, 3) by (auto simp: wc_open_def with_session_def split: option.splits)
  qed
next
  case (opened_configuration query d c r)
  then show ?thesis using open_configuration_ok assms(2, 3) by blast
next
  case closed
  then show ?thesis
    using assms(2, 3) by (auto simp: wc_close_def obind_Done_iff selection_ok_def split: option.splits)
next
  case (resolved i r i'')
  have ok: "selection_ok i" using resolved assms(2) by simp
  show ?thesis
  proof (cases "i'' = i")
    case False
    then obtain p where p: "find (legacy_matches i) (ca_stream_profiles (capability i)) = Some p"
        "i'' = i\<lparr>configuration := \<lparr>sc_native_format = sp_native_format p, sc_output_format = the (preferredOutput p),
          sc_allow_conversion = True\<rparr>\<rparr>"
      using resolved by (auto simp: resolveLegacyConfiguration_def split: if_splits option.splits)
    then have "p \<in> set (ca_stream_profiles (capability i))" "profile_valid p"
        "preferredOutput p = Some (the (preferredOutput p))"
      by (auto simp: find_Some_iff legacy_matches_def Let_def)
    note c = profile_configuration_ok [OF this(3, 2, 1)]
    show ?thesis
      using ok resolved assms(3) c unfolding p(2) by (simp add: selection_ok_def)
  qed (use ok resolved assms(3) in simp)
next
  case (started r)
  show ?thesis by (rule plain_step_ok [OF plain_operations_same(1) [OF started]]) (use assms(2, 3) in auto)
next
  case (started_callback has r)
  show ?thesis by (rule plain_step_ok [OF plain_operations_same(2) [OF started_callback]]) (use assms(2, 3) in auto)
next
  case (stopped r)
  show ?thesis by (rule plain_step_ok [OF plain_operations_same(3) [OF stopped]]) (use assms(2, 3) in auto)
next
  case (frame_read t f)
  show ?thesis by (rule plain_step_ok [OF plain_operations_same(4) [OF frame_read]]) (use assms(2, 3) in auto)
next
  case (control_read ctl cv)
  show ?thesis by (rule plain_step_ok [OF plain_operations_same(5) [OF control_read]]) (use assms(2, 3) in auto)
next
  case (control_set v r)
  show ?thesis by (rule plain_step_ok [OF plain_operations_same(6) [OF control_set]]) (use assms(2, 3) in auto)
next
  case (extension_read x xv)
  show ?thesis by (rule plain_step_ok [OF plain_operations_same(7) [OF extension_read]]) (use assms(2, 3) in auto)
next
  case (extension_set y r)
  show ?thesis by (rule plain_step_ok [OF plain_operations_same(8) [OF extension_set]]) (use assms(2, 3) in auto)
qed

lemma facade_new_ok: "WebCamera_new session = Some i \<Longrightarrow> selection_ok i"
  by (auto simp: WebCamera_new_def selection_ok_def Let_def split: if_splits)

lemma facade_at_ok:
  assumes "WebCamera_at enumerated query index session = Some i"
  shows "selection_ok i"
proof -
  obtain j where j: "WebCamera_new session = Some j" "selection_ok j"
    using facade_new_ok by (auto simp: WebCamera_new_def Let_def)
  have "selection_ok (snd (select query d j))" for d
    using select_ok(1) [of query d j] j(2) by (cases "select query d j") simp
  then show ?thesis
    using assms j by (auto simp: WebCamera_at_def split_beta Let_def split: if_splits Result.splits)
qed

lemma facade_reachable_ok: "facade_reachable S w \<Longrightarrow> w = Some i \<Longrightarrow> selection_ok i"
proof (induction arbitrary: i rule: facade_reachable.induct)
  case (moved w other w' other')
  then show ?case by (auto simp: wc_move_assign_def obind_Done_iff split: option.splits)
qed (auto intro: facade_new_ok facade_at_ok facade_step_ok)

section \<open>Control values\<close>

lemma cpp_rem_zero: "b \<noteq> 0 \<Longrightarrow> cpp_rem a b = 0 \<longleftrightarrow> b dvd a"
proof
  assume b: "b \<noteq> 0" and dvd: "b dvd a"
  then obtain k where k: "a = b * k" by auto
  have "\<bar>a\<bar> div \<bar>b\<bar> = \<bar>k\<bar>" using b k by (simp add: abs_mult)
  then have "cpp_div a b = sgn b * sgn k * sgn b * \<bar>k\<bar>" unfolding cpp_div_def by (simp only: k sgn_mult)
  also have "\<dots> = (sgn b * sgn b) * (sgn k * \<bar>k\<bar>)" by (simp only: ac_simps)
  also have "\<dots> = k" using b by (simp add: sgn_mult_abs)
  finally show "cpp_rem a b = 0" using k by (simp add: cpp_rem_def)
next
  assume "cpp_rem a b = 0"
  then have "a = b * cpp_div a b" by (simp add: cpp_rem_def)
  then show "b dvd a" by (rule dvdI)
qed

lemma control_value_valid_exact:
  "control_value_valid cc v =
     (if cv_mode v \<noteq> Mode_Manual then Some (cc_writable cc \<and> cc_supports_automatic cc)
      else if \<not> (cc_writable cc \<and> cc_supports_manual cc \<and> cc_minimum cc \<le> cv_value v \<and> cv_value v \<le> cc_maximum cc)
      then Some False
      else if cc_step cc = 0 \<or> 2 ^ 63 \<le> cv_value v - cc_minimum cc then None
      else Some (\<exists>k. cv_value v = cc_minimum cc + k * cc_step cc))"
proof -
  have "i64_sub (cv_value v) (cc_minimum cc)
      = (if 2 ^ 63 \<le> cv_value v - cc_minimum cc then None else Some (cv_value v - cc_minimum cc))"
    if "cc_minimum cc \<le> cv_value v" using that by (auto simp: i64_sub_def in_i64_def)
  moreover have "cc_step cc dvd cv_value v - cc_minimum cc \<longleftrightarrow> (\<exists>k. cv_value v = cc_minimum cc + k * cc_step cc)"
    by (auto simp: dvd_def algebra_simps)
  ultimately show ?thesis by (auto simp: control_value_valid_def cpp_rem_zero)
qed

lemma refuse_validation:
  "refuse (validation_error code m) i = Done (Returned (Failure (CameraError_make CamCat_Validation code m)),
     Some (i\<lparr>last_error := CameraError_make CamCat_Validation code m\<rparr>))"
  by (simp add: refuse_def validation_error_def remember_def)

section \<open>A facade over the concrete backend\<close>

definition toy_profile :: sCameraStreamProfile where
  "toy_profile = \<lparr>sp_native_format = \<lparr>cf_width = 640, cf_height = 480, cf_frame_rate_numerator = 30,
     cf_frame_rate_denominator = 1, cf_pixel_format = Yuyv422\<rparr>, sp_output_formats = [Gray8, Yuyv422]\<rparr>"

definition toy_control :: sCameraControlCapability where
  "toy_control = \<lparr>cc_control = Exposure, cc_minimum = 0, cc_maximum = 10, cc_step = 2, cc_default_value = 4,
     cc_supports_manual = True, cc_supports_automatic = False, cc_unit = DeviceNative, cc_physical_scale = Some 1,
     cc_readable = True, cc_writable = True, cc_display_name = []\<rparr>"

definition toy_unit :: sCameraExtensionUnitSelector where
  "toy_unit = \<lparr>xu_unit_guid = [1, 2], xu_unit_id = 3, xu_selector = 4, xu_minimum_size = 1, xu_maximum_size = 2,
     xu_readable = True, xu_writable = True, xu_display_name = []\<rparr>"

definition toy_device :: sCameraDeviceInfo where
  "toy_device = device_none\<lparr>di_backend := Video4Linux2, di_id := ''cam'', di_transport_type := UsbUvc\<rparr>"

definition toy_query :: "sCameraDeviceInfo \<Rightarrow> sCameraCapability CameraResult" where
  "toy_query d = Success (capability_none\<lparr>ca_device := d, ca_stream_profiles := [toy_profile],
     ca_controls := [toy_control], ca_extension_units := [toy_unit]\<rparr>)"

text \<open>The same backend with extension units that can be written.\<close>

definition toy_xu :: "toy_backend ICameraBackend" where
  "toy_xu = toy\<lparr>be_setExtensionUnit := (\<lambda>v b. (Returned (Success ()), b))\<rparr>"

abbreviation toy_facade :: "toy_backend CameraSession IWebCameraSession" where
  "toy_facade \<equiv> CameraSessionAdapter toy_xu toy_mk (Returned ())"

definition toy_open_session :: "toy_backend CameraSession" where
  "toy_open_session = CameraSession_new\<lparr>objects := [\<lparr>toy_open = True, toy_streaming = False, toy_frames = []\<rparr>],
     backend := Some 0\<rparr>"

definition toy_impl :: "toy_backend CameraSession WebCamera_Impl" where
  "toy_impl = \<lparr>wi_session = Some toy_open_session, selected_device = toy_device,
     capability = capability_none\<lparr>ca_stream_profiles := [toy_profile], ca_controls := [toy_control],
       ca_extension_units := [toy_unit]\<rparr>,
     configuration = \<lparr>sc_native_format = sp_native_format toy_profile, sc_output_format = Yuyv422,
       sc_allow_conversion = True\<rparr>,
     has_selection = True, legacy_index = - 1, preferred_width = 640, preferred_height = 480, preferred_fps = 30,
     last_error = CameraError_none\<rparr>"

section \<open>Properties\<close>

text \<open>C23. In every state a facade can get into (created with or without a device index, moved, opened,
  closed, used in any order over any session), what it calls its selection is typed: a web camera with
  a valid stream configuration that the stored capability advertises; without a selection no control
  can be looked up.\<close>

theorem web_camera_selection_typed:
  assumes "facade_reachable S (Some i)"
  shows "(has_selection i \<longrightarrow>
        isWebCameraCandidate (selected_device i) \<and> configuration_valid (configuration i)
        \<and> (\<exists>p \<in> set (ca_stream_profiles (capability i)).
              sameFormat (sp_native_format p) (sc_native_format (configuration i))
              \<and> supportsOutput p (sc_output_format (configuration i))))
    \<and> (\<not> has_selection i \<longrightarrow> (\<forall>c. \<exists>e. controlCapability c (Some i) = Failure e \<and> ce_code e = Cam_NotOpen))"
  using facade_reachable_ok [OF assms]
  by (auto simp: selection_ok_def advertised_def controlCapability_def currentCapabilities_def lifecycle_error_def)

theorem web_camera_selection_typed_witness:
  "\<exists>i. WebCamera_at (Success [toy_device]) toy_query 0 (Some toy_open_session) = Some i
     \<and> has_selection i \<and> configuration_valid (configuration i)"
proof -
  obtain i where i: "WebCamera_at (Success [toy_device]) toy_query 0 (Some toy_open_session) = Some i"
    by (simp add: WebCamera_at_def WebCamera_new_def Let_def)
  have "has_selection i"
    using i by (auto simp: WebCamera_at_def WebCamera_new_def Let_def filterWebCameraDevices_def select_def
        isWebCameraCandidate_def toy_device_def toy_query_def defaultConfiguration_def preferredOutput_def
        PREFERRED_FORMATS_def supportsOutput_def toy_profile_def profile_valid_def format_valid_def remember_def
        capability_none_def)
  moreover have "facade_reachable toy_facade (Some i)" using facade_reachable.created_at i by metis
  ultimately show ?thesis using web_camera_selection_typed i by blast
qed

text \<open>Setting a control the device advertises hands the value to the session exactly when the control is
  writable and, for an automatic value, supports automatic mode, or, for a manual one, supports manual
  mode and the value is a whole number of steps above the minimum and not above the maximum.  Anything
  else is refused, the refusal is remembered and the session not called; an advertised step of zero
  and a distance of \<open>2^63\<close> or more from the minimum are undefined behaviour.\<close>

theorem web_camera_control_exact:
  assumes "wi_session i = Some ses" and "has_selection i"
    and "findControlCapability (capability i) (cv_control v) = Some cc"
  shows "wc_setControl S v (Some i) =
     (let in_range = cc_writable cc \<and> cc_supports_manual cc \<and> cc_minimum cc \<le> cv_value v \<and> cv_value v \<le> cc_maximum cc in
      if cv_mode v = Mode_Manual \<and> in_range \<and> (cc_step cc = 0 \<or> 2 ^ 63 \<le> cv_value v - cc_minimum cc) then Undefined
      else if (if cv_mode v = Mode_Manual then in_range \<and> (\<exists>k. cv_value v = cc_minimum cc + k * cc_step cc)
               else cc_writable cc \<and> cc_supports_automatic cc)
      then call_session (ws_setControl S v) ses i
      else let e = CameraError_make CamCat_Validation (if cc_writable cc then Cam_InvalidArgument else Cam_AccessDenied)
                 ''Web camera control value, mode, or access does not match its capability.''
           in Done (Returned (Failure e), Some (i\<lparr>last_error := e\<rparr>)))"
proof -
  have "controlCapability (cv_control v) (Some i) = Success cc"
    using assms(2, 3) by (simp add: controlCapability_def currentCapabilities_def)
  then have "wc_setControl S v (Some i) = (case control_value_valid cc v of
        None \<Rightarrow> Undefined
      | Some False \<Rightarrow> refuse (validation_error (if cc_writable cc then Cam_InvalidArgument else Cam_AccessDenied)
            ''Web camera control value, mode, or access does not match its capability.'') i
      | Some True \<Rightarrow> call_session (ws_setControl S v) ses i)"
    using assms(1) by (simp add: wc_setControl_def with_session_def)
  then show ?thesis by (simp add: control_value_valid_exact Let_def refuse_validation)
qed

theorem web_camera_control_exact_witness:
  "\<exists>e. wc_setControl toy_facade \<lparr>cv_control = Exposure, cv_mode = Mode_Manual, cv_value = 7\<rparr> (Some toy_impl)
     = Done (Returned (Failure e), Some (toy_impl\<lparr>last_error := e\<rparr>)) \<and> ce_code e = Cam_InvalidArgument"
proof -
  have "wi_session toy_impl = Some toy_open_session" "has_selection toy_impl"
    "findControlCapability (capability toy_impl) (cv_control \<lparr>cv_control = Exposure, cv_mode = Mode_Manual, cv_value = 7\<rparr>)
      = Some toy_control"
    by (simp_all add: toy_impl_def findControlCapability_def toy_control_def)
  note exact = web_camera_control_exact [OF this, of toy_facade]
  have "\<not> (\<exists>k :: int. 7 = k * 2)" by presburger
  then show ?thesis unfolding exact by (simp add: toy_control_def Let_def)
qed

text \<open>Through the facade and the session together, writing an extension unit reaches the backend or
  succeeds only if the facade has a selection that advertises this selector as writable with a range
  that holds the payload, the session is open, and the caller's own selector is valid, writable and
  holds the payload too.\<close>

theorem web_camera_extension_gate:
  assumes "wc_setExtensionUnit (CameraSessionAdapter B mk launch) x (Some i) = Done (r, Some i')"
    and "wi_session i' \<noteq> wi_session i \<or> r = Returned (Success ())"
  shows "has_selection i
    \<and> (\<exists>a \<in> set (ca_extension_units (capability i)).
          sameExtensionSelector a (xv_selector x) \<and> xu_writable a
          \<and> unat (xu_minimum_size a) \<le> length (xv_payload x) \<and> length (xv_payload x) \<le> unat (xu_maximum_size a))
    \<and> wc_isOpen (CameraSessionAdapter B mk launch) (Some i)
    \<and> xu_value_valid x \<and> xu_writable (xv_selector x)"
  using assms
  by (rule adapter.set_extension_reaches)
     (auto simp: currentCapabilities_def lifecycle_error_def split: if_splits)

theorem web_camera_extension_gate_witness:
  "xu_value_valid \<lparr>xv_selector = toy_unit, xv_payload = [9]\<rparr>
   \<and> (\<exists>i'. wc_setExtensionUnit toy_facade \<lparr>xv_selector = toy_unit, xv_payload = [9]\<rparr> (Some toy_impl)
        = Done (Returned (Success ()), Some i'))"
proof -
  have "\<exists>i'. wc_setExtensionUnit toy_facade \<lparr>xv_selector = toy_unit, xv_payload = [9]\<rparr> (Some toy_impl)
      = Done (Returned (Success ()), Some i')"
    by (simp add: wc_setExtensionUnit_def with_session_def toy_impl_def currentCapabilities_def sameExtensionSelector_def
        toy_unit_def capability_none_def call_session_def CameraSessionAdapter_def session_setExtensionUnit_def
        session_isOpen_def toy_open_session_def toy_xu_def toy_def selector_valid_def xu_value_valid_def on_backend_def
        Let_def split_beta)
  then show ?thesis using web_camera_extension_gate by metis
qed

text \<open>Opening and closing the facade over the session and any backend.  An \<open>open\<close> with a configuration
  succeeds only on a closed facade, with a valid configuration the device advertises now, which becomes
  the selection; one that fails changes nothing but the remembered error.  After \<open>close\<close> nothing is
  open, selected or remembered.  An \<open>open\<close> of a device on an open facade fails with \<open>AlreadyOpen\<close> and
  leaves the session as it is, but the selection is then the new device's.\<close>

theorem web_camera_open_close:
  assumes "wi_session i \<noteq> None" and A_def: "A = CameraSessionAdapter B mk launch"
  shows "(\<forall>query d c w. wc_open_configuration A query d c (Some i) = Done (Returned (Success ()), w) \<longrightarrow>
        \<not> wc_isOpen A (Some i) \<and> configuration_valid c
        \<and> (\<exists>ca i'. query d = Success ca \<and> advertised ca c \<and> w = Some i' \<and> has_selection i'
            \<and> selected_device i' = d \<and> capability i' = ca \<and> configuration i' = c \<and> last_error i' = CameraError_none))
    \<and> (\<forall>query d c e w. wc_open_configuration A query d c (Some i) = Done (Returned (Failure e), w) \<longrightarrow>
        w = Some (i\<lparr>last_error := e\<rparr>))
    \<and> (\<forall>w. wc_close A (Some i) = Done w \<longrightarrow>
        \<not> wc_isOpen A w \<and> \<not> succeeded (currentCapabilities w) \<and> lastError w = CameraError_none)
    \<and> (\<forall>query query' d. wc_isOpen A (Some i) \<and> fst (select query d i) = Success () \<longrightarrow>
        (\<exists>e j. wc_open A query query' d (Some i) = Done (Returned (Failure e), Some j)
           \<and> ce_code e = Cam_AlreadyOpen \<and> wi_session j = wi_session i
           \<and> selected_device j = d \<and> query d = Success (capability j)))"
proof (intro conjI allI impI)
  fix query d c w assume ok: "wc_open_configuration A query d c (Some i) = Done (Returned (Success ()), w)"
  show "\<not> wc_isOpen A (Some i)" "configuration_valid c"
    "\<exists>ca i'. query d = Success ca \<and> advertised ca c \<and> w = Some i' \<and> has_selection i'
       \<and> selected_device i' = d \<and> capability i' = ca \<and> configuration i' = c \<and> last_error i' = CameraError_none"
    using adapter.open_success_facts [OF ok [unfolded A_def]] findProfile_advertised unfolding A_def by metis+
next
  show "w = Some (i\<lparr>last_error := e\<rparr>)"
    if "wc_open_configuration A query d c (Some i) = Done (Returned (Failure e), w)" for query d c e w
    using adapter.open_failure_facts that assms(1) unfolding A_def by blast
next
  fix w assume "wc_close A (Some i) = Done w"
  then show "\<not> wc_isOpen A w" "\<not> succeeded (currentCapabilities w)" "lastError w = CameraError_none"
    using adapter.closed_facade assms(1) unfolding A_def by blast+
next
  fix query query' d assume open_now: "wc_isOpen A (Some i) \<and> fst (select query d i) = Success ()"
  obtain ses where ses: "wi_session i = Some ses" using assms(1) by auto
  obtain j where j: "select query d i = (Success (), j)" using open_now by (metis prod.collapse)
  have sel: "wi_session j = wi_session i" "selected_device j = d" "query d = Success (capability j)"
    using j by (auto simp: select_def candidate_error_def validation_error_def split: if_splits Result.splits)
  let ?e = "CameraError_make CamCat_Lifecycle Cam_AlreadyOpen ''WebCamera is already open.''"
  have "wc_open A query query' d (Some i) = Done (Returned (Failure ?e), Some (j\<lparr>last_error := ?e\<rparr>))"
    using open_now ses sel(1) j
    by (simp add: wc_open_def wc_open_configuration_def with_session_def wc_isOpen_def refuse_def remember_def lifecycle_error_def)
  then show "\<exists>e j. wc_open A query query' d (Some i) = Done (Returned (Failure e), Some j)
      \<and> ce_code e = Cam_AlreadyOpen \<and> wi_session j = wi_session i
      \<and> selected_device j = d \<and> query d = Success (capability j)"
    using sel by (intro exI [of _ ?e] exI [of _ "j\<lparr>last_error := ?e\<rparr>"]) simp
qed

theorem web_camera_open_close_witness:
  "\<exists>e j. wc_open toy_facade toy_query toy_query (toy_device\<lparr>di_id := ''other''\<rparr>) (Some toy_impl)
     = Done (Returned (Failure e), Some j) \<and> ce_code e = Cam_AlreadyOpen \<and> di_id (selected_device j) = ''other''"
proof -
  have "wi_session toy_impl \<noteq> None" by (simp add: toy_impl_def)
  moreover have "wc_isOpen toy_facade (Some toy_impl)
      \<and> fst (select toy_query (toy_device\<lparr>di_id := ''other''\<rparr>) toy_impl) = Success ()"
    by (simp add: wc_isOpen_def toy_impl_def CameraSessionAdapter_def session_isOpen_def toy_open_session_def toy_xu_def
        toy_def select_def isWebCameraCandidate_def toy_device_def toy_query_def defaultConfiguration_def
        preferredOutput_def PREFERRED_FORMATS_def supportsOutput_def toy_profile_def profile_valid_def format_valid_def)
  ultimately show ?thesis
    using web_camera_open_close [OF _ refl, of toy_impl toy_xu toy_mk "Returned ()"] by fastforce
qed

end
