(* ===== verification/RendererTypes.thy ===== *)
theory RendererTypes
  imports WseResult Complex_Main
begin

text \<open>
  The renderer's value types, handles and descriptions with their validators
  (\<open>api/oui/renderer/RendererTypes.h\<close>, \<open>core/oui/renderer/RendererTypes.cpp\<close>) and the renderer error
  (\<open>core/oui/renderer/RendererError.cpp\<close>).  An enumeration has one constructor more for the values of
  its underlying integer that name no enumerator, which the validators test for.  A \<open>float\<close> is its
  rational value when it is finite and \<open>None\<close> otherwise; \<open>size_t\<close> is 64 bits wide.
\<close>

section \<open>Errors\<close>

datatype eRendererErrorCategory =
    RenCat_None | RenCat_Validation | RenCat_Lifecycle | RenCat_Resource | RenCat_Execution | RenCat_Timeout
  | RenCat_Unsupported | RenCat_Backend

datatype eRendererErrorCode =
    Ren_None | Ren_InvalidArgument | Ren_InvalidDescription | Ren_NotInitialized | Ren_AlreadyInitialized
  | Ren_UnsupportedBackend | Ren_UnsupportedFormat | Ren_UnsupportedSurface | Ren_UnsupportedOperation
  | Ren_ResourceNotFound | Ren_ResourceInUse | Ren_ResourceExhausted | Ren_BackendFailure | Ren_DeviceLost
  | Ren_TimedOut

record RendererError =
  re_category :: eRendererErrorCategory
  re_code :: eRendererErrorCode
  re_message :: string
  re_native_code :: int

definition RendererError_none :: RendererError where
  "RendererError_none = \<lparr>re_category = RenCat_None, re_code = Ren_None, re_message = [], re_native_code = 0\<rparr>"

definition RendererError_make :: "eRendererErrorCategory \<Rightarrow> eRendererErrorCode \<Rightarrow> string \<Rightarrow> RendererError" where
  "RendererError_make category code message =
     \<lparr>re_category = category, re_code = code, re_message = message, re_native_code = 0\<rparr>"

definition re_ok :: "RendererError \<Rightarrow> bool" where
  "re_ok e \<longleftrightarrow> re_category e = RenCat_None \<and> re_code e = Ren_None"

type_synonym RendererStatus = "RendererError Status"
type_synonym 'a RendererResult = "('a, RendererError) Result"

interpretation renderer_error: error_value re_ok RendererError_none
  by unfold_locales (simp add: re_ok_def RendererError_none_def)

definition invalidDescription :: "string \<Rightarrow> RendererError" where
  "invalidDescription m = RendererError_make RenCat_Validation Ren_InvalidDescription m"

lemma re_ok_simps [simp]:
  "re_ok RendererError_none" "\<not> re_ok (invalidDescription m)"
  "re_ok (RendererError_make a b m) \<longleftrightarrow> a = RenCat_None \<and> b = Ren_None"
  by (simp_all add: re_ok_def RendererError_none_def invalidDescription_def RendererError_make_def)

lemma RendererError_make_sel [simp]:
  "re_category (RendererError_make a b m) = a" "re_code (RendererError_make a b m) = b"
  "re_category (invalidDescription m) = RenCat_Validation" "re_code (invalidDescription m) = Ren_InvalidDescription"
  by (simp_all add: RendererError_make_def invalidDescription_def)

section \<open>Enumerations\<close>

datatype eRendererBackend = Backend_Automatic | Direct3D12 | Vulkan12 | Backend_other u8

datatype eRendererPixelFormat =
    Format_Unknown | R8Unorm | Rgba8Unorm | Bgra8Unorm | Rgba16Float | Rgba16Unorm | Format_other u8

type_synonym eTextureUsage = u16

definition Usage_Sampled :: eTextureUsage where "Usage_Sampled = 1"
definition Usage_RenderTarget :: eTextureUsage where "Usage_RenderTarget = 2"
definition Usage_TransferSource :: eTextureUsage where "Usage_TransferSource = 4"
definition Usage_TransferDestination :: eTextureUsage where "Usage_TransferDestination = 8"

datatype eTextureState =
    State_Undefined | State_Common | State_RenderTarget | State_ShaderResource | State_CopySource
  | State_CopyDestination | State_Present | State_other u8

datatype ePrimitiveTopology = TriangleList | TriangleStrip | Topology_other u8
datatype eTextureSamplingFilter = Filter_Nearest | Filter_Linear | Filter_other u8
datatype eColorBlendMode = Blend_Replace | Blend_SourceAlpha | Blend_other u8
datatype eEdgeBlendCurve = Curve_Linear | Curve_Smoothstep | Curve_other u8
datatype eSurfaceType = Offscreen | Window | DirectDisplay | Surface_other u8
datatype eSurfaceWindowMode = NotApplicable | Windowed | BorderlessFullscreen | DisplayModeFullscreen | Mode_other u8
datatype eDisplayRotation =
    Rotation_Unknown | Rotation_Identity | Rotation_90 | Rotation_180 | Rotation_270 | Rotation_other u8
datatype eAttachmentLoadOperation = Load_Load | Load_Clear | Load_Discard | Load_other u8
datatype eAttachmentStoreOperation = Store_Store | Store_Discard | Store_other u8

section \<open>Values\<close>

type_synonym cpp_float = "rat option"

definition normalized_float :: "cpp_float \<Rightarrow> bool" where
  "normalized_float f = (case f of None \<Rightarrow> False | Some q \<Rightarrow> 0 \<le> q \<and> q \<le> 1)"

record sRendererExtent2D =
  ex_width :: u32
  ex_height :: u32

record sRendererRegion2D =
  rg_x :: u32
  rg_y :: u32
  rg_extent :: sRendererExtent2D

record sRendererFrameDescription =
  rf_extent :: sRendererExtent2D
  rf_format :: eRendererPixelFormat
  rf_row_pitch :: u64

record sRendererFrame =
  rf_description :: sRendererFrameDescription
  rf_data :: bytes

record sTextureDescription =
  td_extent :: sRendererExtent2D
  td_format :: eRendererPixelFormat
  td_usage :: eTextureUsage
  td_initial_state :: eTextureState
  td_mip_levels :: u32

record sRendererVertex2D =
  vx_position_x :: cpp_float
  vx_position_y :: cpp_float
  vx_texture_u :: cpp_float
  vx_texture_v :: cpp_float

record sMeshDescription =
  md_topology :: ePrimitiveTopology
  md_vertices :: "sRendererVertex2D list"
  md_indices :: "u32 list"

record sRendererColor =
  co_red :: cpp_float
  co_green :: cpp_float
  co_blue :: cpp_float
  co_alpha :: cpp_float

record sEdgeBlendDescription =
  eb_left :: cpp_float
  eb_right :: cpp_float
  eb_top :: cpp_float
  eb_bottom :: cpp_float
  eb_curve :: eEdgeBlendCurve

text \<open>The four handle types have the same members.\<close>

record sHandle =
  ha_value :: u64
  ha_generation :: u32

datatype sTextureHandle = Texture_handle (texture_handle: sHandle)
datatype sMeshHandle = Mesh_handle (mesh_handle: sHandle)
datatype sSurfaceHandle = Surface_handle (surface_handle: sHandle)
datatype sFenceHandle = Fence_handle (fence_handle: sHandle)

definition handle_none :: sHandle where
  "handle_none = \<lparr>ha_value = 0, ha_generation = 0\<rparr>"

definition handle_valid :: "sHandle \<Rightarrow> bool" where
  "handle_valid h \<longleftrightarrow> ha_value h \<noteq> 0 \<and> ha_generation h \<noteq> 0"

record sMeshDrawCommand =
  dc_mesh :: sMeshHandle
  dc_source_texture :: sTextureHandle
  dc_alpha_texture :: sTextureHandle
  dc_sampling_filter :: eTextureSamplingFilter
  dc_blend_mode :: eColorBlendMode
  dc_opacity :: cpp_float
  dc_edge_blend :: sEdgeBlendDescription

record sRenderPassDescription =
  rp_color_attachment :: sTextureHandle
  rp_render_area :: sRendererRegion2D
  rp_load_operation :: eAttachmentLoadOperation
  rp_store_operation :: eAttachmentStoreOperation
  rp_clear_color :: sRendererColor
  rp_draw_commands :: "sMeshDrawCommand list"
  rp_final_state :: eTextureState

record sDisplayMode =
  dm_extent :: sRendererExtent2D
  dm_refresh_rate_numerator :: u32
  dm_refresh_rate_denominator :: u32
  dm_format :: eRendererPixelFormat
  dm_interlaced :: bool

record sDisplayDescription =
  dd_id :: string
  dd_adapter_id :: string
  dd_adapter_name :: string
  dd_display_name :: string
  dd_position :: "int \<times> int"
  dd_desktop_extent :: sRendererExtent2D
  dd_current_mode :: sDisplayMode
  dd_modes :: "sDisplayMode list"
  dd_rotation :: eDisplayRotation
  dd_primary :: bool
  dd_renderer_compatible :: bool
  dd_modes_complete :: bool

record sSurfaceDescription =
  sd_type :: eSurfaceType
  sd_extent :: sRendererExtent2D
  sd_format :: eRendererPixelFormat
  sd_buffer_count :: u32
  sd_vertical_sync :: bool
  sd_visible :: bool
  sd_title :: string
  sd_display_id :: string
  sd_display_mode :: sDisplayMode

record sSurfaceState =
  ss_type :: eSurfaceType
  ss_extent :: sRendererExtent2D
  ss_window_mode :: eSurfaceWindowMode
  ss_display_id :: string
  ss_display_mode :: sDisplayMode

record sSurfaceWindowModeRequest =
  wr_mode :: eSurfaceWindowMode
  wr_display_id :: string
  wr_display_mode :: sDisplayMode

record sSurfaceEvents =
  se_alive :: bool
  se_extent_changed :: bool
  se_extent :: sRendererExtent2D
  se_display_topology_changed :: bool

record sRendererConfiguration =
  rc_backend :: eRendererBackend
  rc_use_software_adapter :: bool
  rc_prefer_display_adapter :: bool
  rc_enable_validation :: bool
  rc_adapter_name :: string

record sRendererCapabilities =
  rk_backend :: eRendererBackend
  rk_adapter_name :: string
  rk_maximum_texture_extent :: u32
  rk_supports_offscreen :: bool
  rk_supports_window :: bool
  rk_supports_direct_display :: bool
  rk_supports_mesh_rendering :: bool
  rk_supports_display_enumeration :: bool
  rk_supports_surface_resize :: bool
  rk_supports_borderless_fullscreen :: bool
  rk_supports_display_mode_fullscreen :: bool
  rk_supports_interactive_resize :: bool
  rk_supports_display_hotplug :: bool

section \<open>Tests\<close>

fun isKnownFormat :: "eRendererPixelFormat \<Rightarrow> bool" where
  "isKnownFormat R8Unorm = True"
| "isKnownFormat Rgba8Unorm = True"
| "isKnownFormat Bgra8Unorm = True"
| "isKnownFormat Rgba16Float = True"
| "isKnownFormat Rgba16Unorm = True"
| "isKnownFormat _ = False"

fun isKnownTextureState :: "eTextureState \<Rightarrow> bool" where
  "isKnownTextureState (State_other b) = False"
| "isKnownTextureState _ = True"

definition isKnownSamplingFilter :: "eTextureSamplingFilter \<Rightarrow> bool" where
  "isKnownSamplingFilter f \<longleftrightarrow> f = Filter_Nearest \<or> f = Filter_Linear"

definition isKnownBlendMode :: "eColorBlendMode \<Rightarrow> bool" where
  "isKnownBlendMode m \<longleftrightarrow> m = Blend_Replace \<or> m = Blend_SourceAlpha"

definition isKnownEdgeBlendCurve :: "eEdgeBlendCurve \<Rightarrow> bool" where
  "isKnownEdgeBlendCurve c \<longleftrightarrow> c = Curve_Linear \<or> c = Curve_Smoothstep"

fun isKnownDisplayRotation :: "eDisplayRotation \<Rightarrow> bool" where
  "isKnownDisplayRotation (Rotation_other b) = False"
| "isKnownDisplayRotation _ = True"

definition isKnownSurfaceWindowMode :: "eSurfaceWindowMode \<Rightarrow> bool" where
  "isKnownSurfaceWindowMode m \<longleftrightarrow>
     m = NotApplicable \<or> m = Windowed \<or> m = BorderlessFullscreen \<or> m = DisplayModeFullscreen"

definition extent_empty :: "sRendererExtent2D \<Rightarrow> bool" where
  "extent_empty e \<longleftrightarrow> ex_width e = 0 \<or> ex_height e = 0"

definition isUnspecifiedDisplayMode :: "sDisplayMode \<Rightarrow> bool" where
  "isUnspecifiedDisplayMode m \<longleftrightarrow>
     extent_empty (dm_extent m) \<and> dm_refresh_rate_numerator m = 0 \<and> dm_refresh_rate_denominator m = 1
     \<and> dm_format m = Format_Unknown \<and> \<not> dm_interlaced m"

definition isSameDisplayMode :: "sDisplayMode \<Rightarrow> sDisplayMode \<Rightarrow> bool" where
  "isSameDisplayMode a b \<longleftrightarrow>
     ex_width (dm_extent a) = ex_width (dm_extent b) \<and> ex_height (dm_extent a) = ex_height (dm_extent b)
     \<and> dm_format a = dm_format b \<and> dm_interlaced a = dm_interlaced b
     \<and> (ucast (dm_refresh_rate_numerator a) :: u64) * ucast (dm_refresh_rate_denominator b)
       = ucast (dm_refresh_rate_numerator b) * ucast (dm_refresh_rate_denominator a)"

definition isNormalizedColor :: "sRendererColor \<Rightarrow> bool" where
  "isNormalizedColor c \<longleftrightarrow>
     normalized_float (co_red c) \<and> normalized_float (co_green c) \<and> normalized_float (co_blue c)
     \<and> normalized_float (co_alpha c)"

definition hasTextureUsage :: "eTextureUsage \<Rightarrow> eTextureUsage \<Rightarrow> bool" where
  "hasTextureUsage v required \<longleftrightarrow> and v required = required"

section \<open>Frame layout\<close>

fun rf_bytesPerPixel :: "eRendererPixelFormat \<Rightarrow> u64" where
  "rf_bytesPerPixel R8Unorm = 1"
| "rf_bytesPerPixel Rgba8Unorm = 4"
| "rf_bytesPerPixel Bgra8Unorm = 4"
| "rf_bytesPerPixel Rgba16Float = 8"
| "rf_bytesPerPixel Rgba16Unorm = 8"
| "rf_bytesPerPixel _ = 0"

definition rf_minimumRowPitch :: "sRendererFrameDescription \<Rightarrow> u64" where
  "rf_minimumRowPitch d =
     (let px = rf_bytesPerPixel (rf_format d); w = ex_width (rf_extent d) in
      if px = 0 \<or> w = 0 \<or> - 1 div px < ucast w then 0 else ucast w * px)"

definition rf_effectiveRowPitch :: "sRendererFrameDescription \<Rightarrow> u64" where
  "rf_effectiveRowPitch d = (if rf_row_pitch d = 0 then rf_minimumRowPitch d else rf_row_pitch d)"

definition rf_memorySize :: "sRendererFrameDescription \<Rightarrow> u64" where
  "rf_memorySize d =
     (let pitch = rf_effectiveRowPitch d; h = ex_height (rf_extent d) in
      if pitch = 0 \<or> h = 0 \<or> - 1 div pitch < ucast h then 0 else ucast h * pitch)"

section \<open>Validators\<close>

definition validateRendererFrameDescription :: "sRendererFrameDescription \<Rightarrow> RendererError" where
  "validateRendererFrameDescription d =
     (if extent_empty (rf_extent d) then invalidDescription ''Frame extent must be non-zero.''
      else if \<not> isKnownFormat (rf_format d) then invalidDescription ''Frame pixel format is unknown.''
      else if rf_minimumRowPitch d = 0 \<or> rf_effectiveRowPitch d < rf_minimumRowPitch d \<or> rf_memorySize d = 0
      then invalidDescription ''Frame row pitch or memory size is invalid.''
      else RendererError_none)"

definition validateRendererFrame :: "sRendererFrame \<Rightarrow> RendererError" where
  "validateRendererFrame f =
     (let e = validateRendererFrameDescription (rf_description f) in
      if \<not> re_ok e then e
      else if length (rf_data f) \<noteq> unat (rf_memorySize (rf_description f))
      then invalidDescription ''Frame data size does not match its description.''
      else RendererError_none)"

definition ALL_TEXTURE_USAGE_BITS :: eTextureUsage where
  "ALL_TEXTURE_USAGE_BITS =
     or Usage_Sampled (or Usage_RenderTarget (or Usage_TransferSource Usage_TransferDestination))"

definition validateTextureDescription :: "sTextureDescription \<Rightarrow> RendererError" where
  "validateTextureDescription d =
     (if extent_empty (td_extent d) then invalidDescription ''Texture extent must be non-zero.''
      else if \<not> isKnownFormat (td_format d) then invalidDescription ''Texture pixel format is unknown.''
      else if td_usage d = 0 \<or> td_mip_levels d = 0 \<or> and (td_usage d) (not ALL_TEXTURE_USAGE_BITS) \<noteq> 0
      then invalidDescription ''Texture usage bits and mip level count must be valid.''
      else if \<not> isKnownTextureState (td_initial_state d) then invalidDescription ''Texture initial state is unknown.''
      else if td_initial_state d = State_RenderTarget \<and> \<not> hasTextureUsage (td_usage d) Usage_RenderTarget
      then invalidDescription ''RenderTarget state requires RenderTarget usage.''
      else if td_initial_state d = State_ShaderResource \<and> \<not> hasTextureUsage (td_usage d) Usage_Sampled
      then invalidDescription ''ShaderResource state requires Sampled usage.''
      else if td_initial_state d = State_CopySource \<and> \<not> hasTextureUsage (td_usage d) Usage_TransferSource
      then invalidDescription ''CopySource state requires TransferSource usage.''
      else if td_initial_state d = State_CopyDestination \<and> \<not> hasTextureUsage (td_usage d) Usage_TransferDestination
      then invalidDescription ''CopyDestination state requires TransferDestination usage.''
      else RendererError_none)"

definition vertex_finite :: "sRendererVertex2D \<Rightarrow> bool" where
  "vertex_finite v \<longleftrightarrow>
     vx_position_x v \<noteq> None \<and> vx_position_y v \<noteq> None \<and> vx_texture_u v \<noteq> None \<and> vx_texture_v v \<noteq> None"

definition mesh_contents_error :: "sMeshDescription \<Rightarrow> RendererError" where
  "mesh_contents_error d =
     (if \<not> list_all vertex_finite (md_vertices d)
      then invalidDescription ''Mesh contains a non-finite vertex value.''
      else if \<not> list_all (\<lambda>i. unat i < length (md_vertices d)) (md_indices d)
      then invalidDescription ''Mesh index is outside the vertex array.''
      else RendererError_none)"

definition validateMeshDescription :: "sMeshDescription \<Rightarrow> RendererError" where
  "validateMeshDescription d =
     (if md_vertices d = [] \<or> md_indices d = []
      then invalidDescription ''Mesh vertices and indices must be non-empty.''
      else case md_topology d of
          TriangleList \<Rightarrow>
            if length (md_indices d) mod 3 \<noteq> 0
            then invalidDescription ''Triangle-list index count must be divisible by three.''
            else mesh_contents_error d
        | TriangleStrip \<Rightarrow>
            if length (md_indices d) < 3
            then invalidDescription ''Triangle-strip index count must be at least three.''
            else mesh_contents_error d
        | Topology_other b \<Rightarrow> invalidDescription ''Mesh topology is unknown.'')"

text \<open>One draw command of a pass that renders to \<open>attachment\<close>.\<close>

definition draw_command_error :: "sTextureHandle \<Rightarrow> sMeshDrawCommand \<Rightarrow> RendererError" where
  "draw_command_error attachment c =
     (if \<not> handle_valid (mesh_handle (dc_mesh c)) \<or> \<not> handle_valid (texture_handle (dc_source_texture c))
      then invalidDescription ''Mesh draw handles must be valid.''
      else if dc_source_texture c = attachment
      then invalidDescription ''A render attachment cannot sample itself.''
      else if texture_handle (dc_alpha_texture c) \<noteq> handle_none \<and> \<not> handle_valid (texture_handle (dc_alpha_texture c))
      then invalidDescription ''Optional alpha-map handle is incomplete.''
      else if handle_valid (texture_handle (dc_alpha_texture c)) \<and> dc_alpha_texture c = attachment
      then invalidDescription ''A render attachment cannot be its own alpha map.''
      else if \<not> isKnownSamplingFilter (dc_sampling_filter c) \<or> \<not> isKnownBlendMode (dc_blend_mode c)
      then invalidDescription ''Mesh draw sampling or blend mode is unknown.''
      else if \<not> normalized_float (dc_opacity c)
      then invalidDescription ''Mesh draw opacity must be a finite normalized value.''
      else if \<not> isKnownEdgeBlendCurve (eb_curve (dc_edge_blend c))
         \<or> \<not> normalized_float (eb_left (dc_edge_blend c)) \<or> \<not> normalized_float (eb_right (dc_edge_blend c))
         \<or> \<not> normalized_float (eb_top (dc_edge_blend c)) \<or> \<not> normalized_float (eb_bottom (dc_edge_blend c))
      then invalidDescription ''Mesh draw edge-blend curve and widths must be finite normalized values.''
      else RendererError_none)"

fun draw_commands_error :: "sTextureHandle \<Rightarrow> sMeshDrawCommand list \<Rightarrow> RendererError" where
  "draw_commands_error attachment [] = RendererError_none"
| "draw_commands_error attachment (c # cs) =
     (let e = draw_command_error attachment c in if re_ok e then draw_commands_error attachment cs else e)"

definition area_overflows :: "sRendererRegion2D \<Rightarrow> bool" where
  "area_overflows a \<longleftrightarrow>
     (- 1 :: u32) - ex_width (rg_extent a) < rg_x a \<or> (- 1 :: u32) - ex_height (rg_extent a) < rg_y a"

definition validateRenderPassDescription :: "sRenderPassDescription \<Rightarrow> RendererError" where
  "validateRenderPassDescription d =
     (if \<not> handle_valid (texture_handle (rp_color_attachment d))
      then invalidDescription ''Render pass color attachment handle is invalid.''
      else if rp_load_operation d \<notin> {Load_Load, Load_Clear, Load_Discard}
      then invalidDescription ''Render pass load operation is unknown.''
      else if rp_store_operation d \<notin> {Store_Store, Store_Discard}
      then invalidDescription ''Render pass store operation is unknown.''
      else if rp_load_operation d = Load_Clear \<and> \<not> isNormalizedColor (rp_clear_color d)
      then invalidDescription ''Clear color must contain finite normalized values.''
      else if \<not> isKnownTextureState (rp_final_state d) \<or> rp_final_state d = State_Undefined
      then invalidDescription ''Render pass final state is invalid.''
      else if \<not> extent_empty (rg_extent (rp_render_area d)) \<and> area_overflows (rp_render_area d)
      then invalidDescription ''Render area overflows its coordinate range.''
      else draw_commands_error (rp_color_attachment d) (rp_draw_commands d))"

definition validateDisplayMode :: "sDisplayMode \<Rightarrow> RendererError" where
  "validateDisplayMode m =
     (if extent_empty (dm_extent m) \<or> \<not> isKnownFormat (dm_format m)
      then invalidDescription ''Display mode extent and pixel format must be valid.''
      else if dm_refresh_rate_denominator m = 0
      then invalidDescription ''Display mode refresh-rate denominator must be non-zero.''
      else RendererError_none)"

definition validateSurfaceDescription :: "sSurfaceDescription \<Rightarrow> RendererError" where
  "validateSurfaceDescription d =
     (if extent_empty (sd_extent d) \<or> \<not> isKnownFormat (sd_format d)
      then invalidDescription ''Surface extent and pixel format must be valid.''
      else if sd_buffer_count d = 0 \<or> 3 < sd_buffer_count d
      then invalidDescription ''Surface buffer count must be between one and three.''
      else case sd_type d of
          Offscreen \<Rightarrow>
            if sd_buffer_count d \<noteq> 1 \<or> sd_display_id d \<noteq> [] \<or> \<not> isUnspecifiedDisplayMode (sd_display_mode d)
            then invalidDescription ''Offscreen surfaces require one buffer and no display target.''
            else RendererError_none
        | Window \<Rightarrow>
            if sd_buffer_count d < 2 \<or> sd_title d = [] \<or> sd_display_id d \<noteq> []
               \<or> \<not> isUnspecifiedDisplayMode (sd_display_mode d)
            then invalidDescription ''Window surfaces require two or three buffers, a title, and no initial display target.''
            else RendererError_none
        | DirectDisplay \<Rightarrow>
            if sd_buffer_count d < 2 \<or> sd_title d = [] \<or> sd_display_id d = [] \<or> \<not> sd_visible d
            then invalidDescription
              ''Direct-display surfaces require two or three buffers, a title, a display ID, and visibility.''
            else if \<not> re_ok (validateDisplayMode (sd_display_mode d))
               \<or> ex_width (sd_extent d) \<noteq> ex_width (dm_extent (sd_display_mode d))
               \<or> ex_height (sd_extent d) \<noteq> ex_height (dm_extent (sd_display_mode d))
               \<or> sd_format d \<noteq> dm_format (sd_display_mode d)
            then invalidDescription ''Direct-display extent and format must match a valid display mode.''
            else RendererError_none
        | Surface_other b \<Rightarrow> invalidDescription ''Surface type is unknown.'')"

definition validateSurfaceState :: "sSurfaceState \<Rightarrow> RendererError" where
  "validateSurfaceState s =
     (if extent_empty (ss_extent s) \<or> \<not> isKnownSurfaceWindowMode (ss_window_mode s)
      then invalidDescription ''Surface state extent or window mode is invalid.''
      else case ss_type s of
          Window \<Rightarrow>
            if ss_window_mode s = NotApplicable then invalidDescription ''Window surfaces require a window mode.''
            else if (ss_window_mode s = BorderlessFullscreen \<or> ss_window_mode s = DisplayModeFullscreen)
                  \<noteq> (ss_display_id s \<noteq> [])
            then invalidDescription ''Only display-targeted surface state carries a display ID.''
            else if ss_window_mode s = DisplayModeFullscreen then validateDisplayMode (ss_display_mode s)
            else if \<not> isUnspecifiedDisplayMode (ss_display_mode s)
            then invalidDescription ''Windowed and borderless surface state cannot carry a display mode.''
            else RendererError_none
        | DirectDisplay \<Rightarrow>
            if ss_window_mode s \<noteq> DisplayModeFullscreen \<or> ss_display_id s = []
            then invalidDescription ''Direct-display state requires display-mode fullscreen and a display ID.''
            else validateDisplayMode (ss_display_mode s)
        | Offscreen \<Rightarrow>
            if ss_window_mode s \<noteq> NotApplicable \<or> ss_display_id s \<noteq> []
               \<or> \<not> isUnspecifiedDisplayMode (ss_display_mode s)
            then invalidDescription ''Non-window surfaces cannot carry window state.''
            else RendererError_none
        | Surface_other b \<Rightarrow> invalidDescription ''Surface state type is unknown.'')"

definition validateSurfaceWindowModeRequest :: "sSurfaceWindowModeRequest \<Rightarrow> RendererError" where
  "validateSurfaceWindowModeRequest r =
     (case wr_mode r of
        Windowed \<Rightarrow>
          if wr_display_id r = [] \<and> isUnspecifiedDisplayMode (wr_display_mode r) then RendererError_none
          else invalidDescription ''Windowed mode must not specify a display target.''
      | BorderlessFullscreen \<Rightarrow>
          if wr_display_id r \<noteq> [] \<and> isUnspecifiedDisplayMode (wr_display_mode r) then RendererError_none
          else invalidDescription ''Borderless fullscreen requires only a display ID.''
      | DisplayModeFullscreen \<Rightarrow>
          if wr_display_id r = [] then invalidDescription ''Display-mode fullscreen requires a display ID.''
          else validateDisplayMode (wr_display_mode r)
      | _ \<Rightarrow> invalidDescription ''Surface window-mode request is invalid.'')"

text \<open>The loop over the modes: the first invalid mode's error, or whether the current mode was seen.\<close>

fun display_modes_loop :: "sDisplayMode \<Rightarrow> sDisplayMode list \<Rightarrow> bool \<Rightarrow> RendererError + bool" where
  "display_modes_loop current [] seen = Inr seen"
| "display_modes_loop current (m # ms) seen =
     (let e = validateDisplayMode m in
      if \<not> re_ok e then Inl e else display_modes_loop current ms (seen \<or> isSameDisplayMode m current))"

definition validateDisplayDescription :: "sDisplayDescription \<Rightarrow> RendererError" where
  "validateDisplayDescription d =
     (if dd_id d = [] \<or> dd_adapter_id d = [] \<or> dd_adapter_name d = [] \<or> dd_display_name d = []
      then invalidDescription ''Display and adapter identities must be non-empty.''
      else if \<not> isKnownDisplayRotation (dd_rotation d) then invalidDescription ''Display rotation value is invalid.''
      else if extent_empty (dd_desktop_extent d) then invalidDescription ''Display desktop extent must be non-empty.''
      else
        let e = validateDisplayMode (dd_current_mode d) in
        if \<not> re_ok e then e
        else if dd_modes d = [] then invalidDescription ''Display mode list must contain the current mode.''
        else case display_modes_loop (dd_current_mode d) (dd_modes d) False of
            Inl e' \<Rightarrow> e'
          | Inr True \<Rightarrow> RendererError_none
          | Inr False \<Rightarrow> invalidDescription ''Display mode list does not contain the current mode.'')"

section \<open>Frame layouts are exact\<close>

text \<open>The pitch and the size of a frame over the natural numbers.\<close>

definition frame_row_bytes :: "sRendererFrameDescription \<Rightarrow> nat" where
  "frame_row_bytes d = unat (ex_width (rf_extent d)) * unat (rf_bytesPerPixel (rf_format d))"

definition frame_pitch :: "sRendererFrameDescription \<Rightarrow> nat" where
  "frame_pitch d = (if rf_row_pitch d = 0 then frame_row_bytes d else unat (rf_row_pitch d))"

lemma rf_bytesPerPixel_range: "unat (rf_bytesPerPixel f) \<le> 8"
  by (cases f) simp_all

lemma isKnownFormat_bytes: "isKnownFormat f \<longleftrightarrow> rf_bytesPerPixel f \<noteq> 0"
  by (cases f) simp_all

lemma frame_row_bytes_small: "frame_row_bytes d < 2 ^ 35"
proof -
  have "unat (ex_width (rf_extent d)) \<le> 2 ^ 32 - 1" using unat_lt_size [of "ex_width (rf_extent d)"] by simp
  then have "frame_row_bytes d \<le> (2 ^ 32 - 1) * 8"
    unfolding frame_row_bytes_def using rf_bytesPerPixel_range by (rule mult_le_mono)
  then show ?thesis by simp
qed

lemma minimum_row_pitch_value: "unat (rf_minimumRowPitch d) = frame_row_bytes d"
proof (cases "rf_bytesPerPixel (rf_format d) = 0 \<or> ex_width (rf_extent d) = 0")
  case True
  then show ?thesis by (auto simp: rf_minimumRowPitch_def frame_row_bytes_def Let_def)
next
  case False
  let ?p = "rf_bytesPerPixel (rf_format d)" and ?w = "ucast (ex_width (rf_extent d)) :: u64"
  have m: "unat ?w * unat ?p < 2 ^ 64" using frame_row_bytes_small [of d] by (simp add: frame_row_bytes_def unat_ucast_32_64)
  moreover have "0 < ?p" using False by (simp add: word_gt_0)
  ultimately have "\<not> - 1 div ?p < ?w" using quotient_check_max by blast
  then show ?thesis
    using False unat_mult_u64 [OF m] by (simp add: rf_minimumRowPitch_def frame_row_bytes_def Let_def unat_ucast_32_64)
qed

lemma effective_pitch_value: "unat (rf_effectiveRowPitch d) = frame_pitch d"
  by (simp add: rf_effectiveRowPitch_def frame_pitch_def minimum_row_pitch_value)

lemma renderer_memory_size_value:
  "unat (rf_memorySize d) =
     (if unat (ex_height (rf_extent d)) * frame_pitch d < 2 ^ 64 then unat (ex_height (rf_extent d)) * frame_pitch d else 0)"
proof (cases "rf_effectiveRowPitch d = 0 \<or> ex_height (rf_extent d) = 0")
  case True
  then have "unat (rf_effectiveRowPitch d) = 0 \<or> unat (ex_height (rf_extent d)) = 0" by auto
  then show ?thesis using True by (auto simp: rf_memorySize_def effective_pitch_value Let_def)
next
  case False
  let ?p = "rf_effectiveRowPitch d" and ?h = "ucast (ex_height (rf_extent d)) :: u64"
  have "0 < ?p" using False by (simp add: word_gt_0)
  then have q: "\<not> - 1 div ?p < ?h \<longleftrightarrow> unat ?h * unat ?p < 2 ^ 64" by (rule quotient_check_max)
  show ?thesis
  proof (cases "unat ?h * unat ?p < 2 ^ 64")
    case True
    with q have "\<not> - 1 div ?p < ?h" by blast
    then show ?thesis
      using False True unat_mult_u64 [OF True]
      by (simp add: rf_memorySize_def Let_def effective_pitch_value unat_ucast_32_64)
  next
    case big: False
    with q have "- 1 div ?p < ?h" by blast
    then show ?thesis
      using big by (simp add: rf_memorySize_def Let_def effective_pitch_value unat_ucast_32_64)
  qed
qed

lemma frame_description_valid_iff:
  "re_ok (validateRendererFrameDescription d) \<longleftrightarrow>
     0 < frame_row_bytes d \<and> ex_height (rf_extent d) \<noteq> 0 \<and> frame_row_bytes d \<le> frame_pitch d
     \<and> unat (ex_height (rf_extent d)) * frame_pitch d < 2 ^ 64"
proof -
  let ?h = "unat (ex_height (rf_extent d))"
  have min: "rf_minimumRowPitch d = 0 \<longleftrightarrow> frame_row_bytes d = 0"
    using minimum_row_pitch_value [of d] by (metis unat_eq_0)
  have less: "rf_effectiveRowPitch d < rf_minimumRowPitch d \<longleftrightarrow> frame_pitch d < frame_row_bytes d"
    by (simp add: word_less_nat_alt minimum_row_pitch_value effective_pitch_value)
  have mem: "rf_memorySize d = 0 \<longleftrightarrow> \<not> (?h * frame_pitch d < 2 ^ 64 \<and> 0 < ?h * frame_pitch d)"
    using renderer_memory_size_value [of d] unat_eq_0 [of "rf_memorySize d"] by (auto split: if_splits)
  have row: "0 < frame_row_bytes d \<longleftrightarrow> ex_width (rf_extent d) \<noteq> 0 \<and> isKnownFormat (rf_format d)"
    by (auto simp: frame_row_bytes_def isKnownFormat_bytes unat_gt_0)
  have h: "0 < ?h \<longleftrightarrow> ex_height (rf_extent d) \<noteq> 0" by (simp add: unat_gt_0)
  show ?thesis
    unfolding validateRendererFrameDescription_def min less mem extent_empty_def
    using row h by (auto simp: not_less)
qed

lemma frame_valid_iff:
  "re_ok (validateRendererFrame f) \<longleftrightarrow>
     re_ok (validateRendererFrameDescription (rf_description f))
     \<and> length (rf_data f) = unat (ex_height (rf_extent (rf_description f))) * frame_pitch (rf_description f)"
  by (auto simp: validateRendererFrame_def Let_def frame_description_valid_iff renderer_memory_size_value)

end
