(* ===== verification/RendererFrameOps.thy ===== *)
theory RendererFrameOps
  imports RendererTypes ImageInterleaved
begin

text \<open>
  Renderer frames as images and back (\<open>api/oui/renderer/RendererFrameOps.h\<close>,
  \<open>core/oui/renderer/RendererFrameOps.cpp\<close>), over the validators of \<open>RendererTypes\<close> and the
  interleaved copies of \<open>ImageInterleaved\<close>.  An image that is an output parameter is returned with the
  status, unchanged where the code returns early; \<open>alloc\<close> says whether the allocations of a call succeed.
  \<open>None\<close> would be an access outside a buffer.
\<close>

section \<open>Formats\<close>

fun rendererCoreFormatOf :: "eRendererPixelFormat \<Rightarrow> ePixFormat option" where
  "rendererCoreFormatOf R8Unorm = Some CH1D8"
| "rendererCoreFormatOf Rgba8Unorm = Some CH4D8"
| "rendererCoreFormatOf Bgra8Unorm = Some BGRA4D8"
| "rendererCoreFormatOf Rgba16Unorm = Some CH4D16"
| "rendererCoreFormatOf _ = None"

text \<open>The format of the frame each overload of \<open>toRendererFrame\<close> produces, by the format of its image.\<close>

fun rendererFormatOf :: "ePixFormat \<Rightarrow> eRendererPixelFormat option" where
  "rendererFormatOf CH1D8 = Some R8Unorm"
| "rendererFormatOf CH4D8 = Some Rgba8Unorm"
| "rendererFormatOf BGRA4D8 = Some Bgra8Unorm"
| "rendererFormatOf CH4D16 = Some Rgba16Unorm"
| "rendererFormatOf _ = None"

section \<open>Frames to images\<close>

definition rendererView :: "sRendererFrame \<Rightarrow> sInterleavedView" where
  "rendererView f =
     \<lparr>iv_data = Some (rf_data f), iv_width = ucast (ex_width (rf_extent (rf_description f))),
      iv_height = ucast (ex_height (rf_extent (rf_description f))),
      iv_row_stride = rf_effectiveRowPitch (rf_description f),
      iv_accessible_bytes = word_of_nat (length (rf_data f))\<rparr>"

definition rendererBuildInterleavedView :: "ePixFormat \<Rightarrow> sRendererFrame \<Rightarrow> RendererError + sInterleavedView" where
  "rendererBuildInterleavedView pf f =
     (if rendererCoreFormatOf (rf_format (rf_description f)) \<noteq> Some pf
      then Inl (RendererError_make RenCat_Unsupported Ren_UnsupportedFormat
             ''This renderer pixel format does not map onto the requested image format.'')
      else
        let validation = validateRendererFrame f in
        if \<not> re_ok validation then Inl validation
        else if \<not> isInterleavedViewValid pf (rendererView f)
        then Inl (invalidDescription ''The renderer frame layout does not fit inside its own data.'')
        else Inr (rendererView f))"

definition rendererFrameToImage ::
    "ePixFormat \<Rightarrow> bool \<Rightarrow> bytes Image \<Rightarrow> sRendererFrame \<Rightarrow> (RendererStatus \<times> bytes Image) option" where
  "rendererFrameToImage pf alloc image_out f =
     (case rendererBuildInterleavedView pf f of
        Inl e \<Rightarrow> Some (Failure e, image_out)
      | Inr view \<Rightarrow>
          (case makeImageFromInterleaved pf alloc view of
             None \<Rightarrow> None
           | Some (Inl e) \<Rightarrow>
               Some (Failure (RendererError_make RenCat_Resource Ren_ResourceExhausted
                       ''Allocating the image for this renderer frame failed.''), image_out)
           | Some (Inr img) \<Rightarrow> Some (success_status, img)))"

section \<open>Images to frames\<close>

definition rendererImageToFrame ::
    "ePixFormat \<Rightarrow> bool \<Rightarrow> bytes Image \<Rightarrow> eRendererPixelFormat \<Rightarrow> sRendererFrame RendererResult option" where
  "rendererImageToFrame pf alloc im fmt =
     (if im_width im = 0 \<or> im_height im = 0
      then Some (Failure (RendererError_make RenCat_Validation Ren_InvalidArgument ''An empty image has no renderer frame.''))
      else
        let row_bytes = packedRowBytes pf (word_of_nat (im_width im)) in
        if row_bytes = 0
        then Some (Failure (RendererError_make RenCat_Validation Ren_InvalidArgument
               ''The image extent overflows a packed renderer frame.''))
        else if \<not> alloc
        then Some (Failure (RendererError_make RenCat_Resource Ren_ResourceExhausted
               ''Allocating the renderer frame for this image failed.''))
        else
          let buf = replicate (unat (row_bytes * word_of_nat (im_height im))) 0;
              target = \<lparr>it_data = Some buf, it_width = word_of_nat (im_width im), it_height = word_of_nat (im_height im),
                        it_row_stride = row_bytes, it_accessible_bytes = word_of_nat (length buf)\<rparr>
          in case writeImageToInterleaved pf target im of
               None \<Rightarrow> None
             | Some (False, t) \<Rightarrow>
                 Some (Failure (invalidDescription ''Writing the image into a renderer frame failed.''))
             | Some (True, t) \<Rightarrow>
                 Some (Success
                   \<lparr>rf_description = \<lparr>rf_extent = \<lparr>ex_width = word_of_nat (im_width im), ex_height = word_of_nat (im_height im)\<rparr>,
                                      rf_format = fmt, rf_row_pitch = 0\<rparr>,
                    rf_data = the (it_data t)\<rparr>))"

text \<open>The overloads.  An image of another format has none; the value there is of no matter.\<close>

definition toRendererFrame :: "ePixFormat \<Rightarrow> bool \<Rightarrow> bytes Image \<Rightarrow> sRendererFrame RendererResult option" where
  "toRendererFrame pf alloc im =
     (case rendererFormatOf pf of None \<Rightarrow> None | Some fmt \<Rightarrow> rendererImageToFrame pf alloc im fmt)"

section \<open>Rows of a frame\<close>

definition renderer_row :: "sRendererFrame \<Rightarrow> nat \<Rightarrow> bytes" where
  "renderer_row f r = take (frame_row_bytes (rf_description f)) (drop (r * frame_pitch (rf_description f)) (rf_data f))"

definition renderer_frame_image :: "ePixFormat \<Rightarrow> sRendererFrame \<Rightarrow> bytes Image" where
  "renderer_frame_image pf f =
     (let e = rf_extent (rf_description f) in
      pixel_image (pixel_bytes pf) (unat (ex_width e)) (unat (ex_height e))
        (concat (map (renderer_row f) [0..<unat (ex_height e)])))"

lemma renderer_format_pixel: "rendererCoreFormatOf fmt = Some pf \<Longrightarrow> unat (rf_bytesPerPixel fmt) = pixel_bytes pf"
  by (cases fmt) (auto simp: getDataNum_def sample_size_def getBitDepth_def Let_def)

lemma rendererFormatOf_core: "rendererFormatOf pf = Some fmt \<Longrightarrow> rendererCoreFormatOf fmt = Some pf"
  by (cases pf) auto

lemma renderer_view_facts:
  assumes valid: "re_ok (validateRendererFrame f)" and core: "rendererCoreFormatOf (rf_format (rf_description f)) = Some pf"
  shows "isInterleavedViewValid pf (rendererView f)"
    and "unat (iv_accessible_bytes (rendererView f)) = length (rf_data f)"
    and "view_row pf (rendererView f) = renderer_row f"
proof -
  let ?d = "rf_description f"
  let ?h = "unat (ex_height (rf_extent ?d))"
  have row: "frame_row_bytes ?d = unat (ex_width (rf_extent ?d)) * pixel_bytes pf"
    using renderer_format_pixel [OF core] by (simp add: frame_row_bytes_def)
  have v: "0 < frame_row_bytes ?d" "ex_height (rf_extent ?d) \<noteq> 0" "frame_row_bytes ?d \<le> frame_pitch ?d"
    "?h * frame_pitch ?d < 2 ^ 64" "length (rf_data f) = ?h * frame_pitch ?d"
    using valid by (auto simp: frame_valid_iff frame_description_valid_iff)
  show acc: "unat (iv_accessible_bytes (rendererView f)) = length (rf_data f)"
    using v(4, 5) by (simp add: rendererView_def unat_of_nat del: of_nat_mult)
  have nz: "rf_effectiveRowPitch ?d \<noteq> 0"
    using v(1, 3) effective_pitch_value [of ?d] by (metis less_le_trans less_irrefl unat_0)
  then have stride: "effective_stride pf (iv_width (rendererView f)) (iv_row_stride (rendererView f)) = frame_pitch ?d"
    by (simp add: effective_stride_def rendererView_def effective_pitch_value)
  have "?h * frame_pitch ?d = (?h - 1) * frame_pitch ?d + frame_pitch ?d"
    using v(2) by (cases ?h) (simp_all add: unat_eq_0)
  then have "(?h - 1) * frame_pitch ?d + frame_row_bytes ?d \<le> length (rf_data f)" using v(3, 5) by linarith
  moreover have "(ucast (ex_width (rf_extent ?d)) :: u64) \<noteq> 0" "(ucast (ex_height (rf_extent ?d)) :: u64) \<noteq> 0"
    using v(1, 2) row by (metis mult_is_0 less_irrefl unat_0 unat_ucast_32_64 unat_eq_0)+
  ultimately have "isInterleavedLayoutValid pf (iv_width (rendererView f)) (iv_height (rendererView f))
      (iv_row_stride (rendererView f)) (iv_accessible_bytes (rendererView f))"
    using v(3, 4) row acc unfolding layout_valid_exact stride by (simp add: rendererView_def)
  then show "isInterleavedViewValid pf (rendererView f)"
    by (simp add: isInterleavedViewValid_def rendererView_def)
  show "view_row pf (rendererView f) = renderer_row f"
  proof
    fix r
    have "iv_data (rendererView f) = Some (rf_data f)" "unat (iv_width (rendererView f)) = unat (ex_width (rf_extent ?d))"
      by (simp_all add: rendererView_def)
    then show "view_row pf (rendererView f) r = renderer_row f r"
      unfolding view_row_def renderer_row_def stride row by simp
  qed
qed

lemma renderer_to_image_value:
  assumes "re_ok (validateRendererFrame f)" and "rendererCoreFormatOf (rf_format (rf_description f)) = Some pf"
  shows "rendererFrameToImage pf True image_out f = Some (success_status, renderer_frame_image pf f)"
proof -
  note view = renderer_view_facts [OF assms]
  have fields: "iv_width (rendererView f) = ucast (ex_width (rf_extent (rf_description f)))"
    "iv_height (rendererView f) = ucast (ex_height (rf_extent (rf_description f)))" "iv_data (rendererView f) = Some (rf_data f)"
    by (simp_all add: rendererView_def)
  have "makeImageFromInterleaved pf True (rendererView f) = Some (Inr (renderer_frame_image pf f))"
    using makeImage_value(1) [OF view(1)] view(2, 3) fields by (simp add: renderer_frame_image_def Let_def)
  then show ?thesis
    using assms view(1) by (simp add: rendererFrameToImage_def rendererBuildInterleavedView_def Let_def)
qed

lemma renderer_image_to_frame_value:
  assumes im: "format_image pf im" "im_width im \<noteq> 0" "im_height im \<noteq> 0"
    "im_width im * im_height im * pixel_bytes pf < 2 ^ 64"
  shows "rendererImageToFrame pf True im fmt = Some (Success
     \<lparr>rf_description = \<lparr>rf_extent = \<lparr>ex_width = word_of_nat (im_width im), ex_height = word_of_nat (im_height im)\<rparr>,
                        rf_format = fmt, rf_row_pitch = 0\<rparr>,
      rf_data = concat (im_pixels im)\<rparr>)"
proof -
  note P = packed_write [OF im]
  have "packedRowBytes pf (word_of_nat (im_width im)) \<noteq> 0" using P(1, 2) by (metis unat_0 less_irrefl)
  then show ?thesis
    using im(2, 3) P(3) P(8) by (simp add: rendererImageToFrame_def Let_def packed_target_def del: of_nat_mult)
qed

section \<open>Properties\<close>

text \<open>Reading a renderer frame as an image is exact: a frame of another format is refused, a frame whose
  description or data size is wrong is refused with the validator's error, and every other frame gives the
  image of its rows, each taken at the effective pitch inside the data.  A refused call leaves the image
  as it was, and no row is read outside the data.\<close>

theorem renderer_to_image_exact:
  "rendererFrameToImage pf True image_out f = Some
     (if rendererCoreFormatOf (rf_format (rf_description f)) \<noteq> Some pf
      then (Failure (RendererError_make RenCat_Unsupported Ren_UnsupportedFormat
              ''This renderer pixel format does not map onto the requested image format.''), image_out)
      else if \<not> re_ok (validateRendererFrame f) then (Failure (validateRendererFrame f), image_out)
      else (success_status, renderer_frame_image pf f))"
  using renderer_to_image_value [of f pf image_out]
  by (auto simp: rendererFrameToImage_def rendererBuildInterleavedView_def Let_def)

text \<open>An image of a renderer format whose extent fits 32 bits becomes a valid frame of that format with
  the minimum pitch, and reading the frame gives the image back.\<close>

theorem renderer_image_roundtrip:
  assumes "rendererFormatOf pf = Some fmt" and "format_image pf im"
    and "0 < im_width im" and "im_width im < 2 ^ 32" and "0 < im_height im" and "im_height im < 2 ^ 32"
    and "im_width im * im_height im * pixel_bytes pf < 2 ^ 64"
  shows "\<exists>f. toRendererFrame pf True im = Some (Success f) \<and> re_ok (validateRendererFrame f)
    \<and> rf_format (rf_description f) = fmt \<and> rf_row_pitch (rf_description f) = 0
    \<and> rendererFrameToImage pf True image_out f = Some (success_status, im)"
proof -
  define f where "f = \<lparr>rf_description = \<lparr>rf_extent = \<lparr>ex_width = word_of_nat (im_width im), ex_height = word_of_nat (im_height im)\<rparr>,
                        rf_format = fmt, rf_row_pitch = 0\<rparr>, rf_data = concat (im_pixels im)\<rparr>"
  let ?n = "im_width im * pixel_bytes pf"
  have nz: "im_width im \<noteq> 0" "im_height im \<noteq> 0" using assms(3, 5) by simp_all
  note P = packed_write [OF assms(2) nz assms(7)]
  note core = rendererFormatOf_core [OF assms(1)]
  have to: "toRendererFrame pf True im = Some (Success f)"
    using renderer_image_to_frame_value [OF assms(2) nz assms(7)] assms(1) by (simp add: toRendererFrame_def f_def)
  have ext: "unat (ex_width (rf_extent (rf_description f))) = im_width im"
    "unat (ex_height (rf_extent (rf_description f))) = im_height im"
    using assms(4, 6) by (simp_all add: f_def unat_of_nat)
  have fmt: "rf_format (rf_description f) = fmt" "rf_row_pitch (rf_description f) = 0" by (simp_all add: f_def)
  have row: "frame_row_bytes (rf_description f) = ?n"
    using renderer_format_pixel [OF core] ext(1) fmt(1) by (simp add: frame_row_bytes_def)
  have pitch: "frame_pitch (rf_description f) = ?n" using row fmt(2) by (simp add: frame_pitch_def)
  have valid: "re_ok (validateRendererFrame f)"
    unfolding frame_valid_iff frame_description_valid_iff row pitch ext
    using P(2, 6, 7) nz(2) ext(2) by (auto simp: f_def)
  have "renderer_row f = (\<lambda>r. take ?n (drop (r * ?n) (concat (im_pixels im))))"
    by (rule HOL.ext) (unfold renderer_row_def row pitch, simp add: f_def)
  then have "renderer_frame_image pf f = pixel_image (pixel_bytes pf) (im_width im) (im_height im) (concat (im_pixels im))"
    using rows_of_packed [OF P(7)] by (simp add: renderer_frame_image_def Let_def ext)
  also have "\<dots> = im"
    using pixel_image_concat [of "im_pixels im" "pixel_bytes pf"] assms(2) by (simp add: format_image_def wf_image_def)
  finally show ?thesis
    using to valid fmt renderer_to_image_value [OF valid, of pf image_out] core by auto
qed

theorem renderer_image_roundtrip_witness:
  "\<exists>f. toRendererFrame CH1D8 True \<lparr>im_width = 2, im_height = 1, im_pixels = [[7], [9]]\<rparr> = Some (Success f)
    \<and> re_ok (validateRendererFrame f)
    \<and> rendererFrameToImage CH1D8 True \<lparr>im_width = 0, im_height = 0, im_pixels = []\<rparr> f
      = Some (success_status, \<lparr>im_width = 2, im_height = 1, im_pixels = [[7], [9]]\<rparr>)"
proof -
  let ?im = "\<lparr>im_width = 2, im_height = 1, im_pixels = [[7], [9 :: u8]]\<rparr>"
  have pb: "pixel_bytes CH1D8 = 1" by (simp add: getDataNum_def sample_size_def getBitDepth_def)
  have "format_image CH1D8 ?im" using pb by (simp add: format_image_def wf_image_def)
  then show ?thesis
    using renderer_image_roundtrip [of CH1D8 R8Unorm ?im "\<lparr>im_width = 0, im_height = 0, im_pixels = []\<rparr>"] pb by auto
qed

end
