(* ===== verification/Renderer.thy ===== *)
theory Renderer
  imports RendererFrameOps
begin

text \<open>
  The renderer facade (\<open>api/oui/renderer/Renderer.h\<close>, \<open>core/oui/renderer/Renderer.cpp\<close>) over the internal
  interface of the platform backends (\<open>core/oui/renderer/RendererBackend.h\<close>).  The backends and the
  factory that chooses one are arguments: a record of operations over the state of the backend's object.
  An operation that is not \<open>noexcept\<close> may throw.  The first part translates the facade, the second states
  what a backend behind it may rely on and when the facade answers by itself.
\<close>

section \<open>The backend interface\<close>

type_synonym ('b, 'a) backend_op = "'b \<Rightarrow> 'a RendererResult reply \<times> 'b"

record 'b RendererBackend =
  rb_initialize :: "sRendererConfiguration \<Rightarrow> ('b, unit) backend_op"
  rb_shutdown :: "'b \<Rightarrow> 'b"
  rb_isInitialized :: "'b \<Rightarrow> bool"
  rb_getCapabilities :: "'b \<Rightarrow> sRendererCapabilities"
  rb_enumerateDisplays :: "('b, sDisplayDescription list) backend_op"
  rb_createTexture :: "sTextureDescription \<Rightarrow> ('b, sTextureHandle) backend_op"
  rb_destroyTexture :: "sTextureHandle \<Rightarrow> ('b, unit) backend_op"
  rb_uploadTexture :: "sTextureHandle \<Rightarrow> sRendererFrame \<Rightarrow> ('b, sFenceHandle) backend_op"
  rb_createMesh :: "sMeshDescription \<Rightarrow> ('b, sMeshHandle) backend_op"
  rb_updateMesh :: "sMeshHandle \<Rightarrow> sMeshDescription \<Rightarrow> ('b, unit) backend_op"
  rb_destroyMesh :: "sMeshHandle \<Rightarrow> ('b, unit) backend_op"
  rb_createSurface :: "sSurfaceDescription \<Rightarrow> ('b, sSurfaceHandle) backend_op"
  rb_getSurfaceTexture :: "sSurfaceHandle \<Rightarrow> ('b, sTextureHandle) backend_op"
  rb_getSurfaceState :: "sSurfaceHandle \<Rightarrow> ('b, sSurfaceState) backend_op"
  rb_resizeSurface :: "sSurfaceHandle \<Rightarrow> sRendererExtent2D \<Rightarrow> ('b, unit) backend_op"
  rb_setSurfaceWindowMode :: "sSurfaceHandle \<Rightarrow> sSurfaceWindowModeRequest \<Rightarrow> ('b, unit) backend_op"
  rb_pollSurfaceEvents :: "sSurfaceHandle \<Rightarrow> ('b, sSurfaceEvents) backend_op"
  rb_destroySurface :: "sSurfaceHandle \<Rightarrow> ('b, unit) backend_op"
  rb_processSurfaceEvents :: "sSurfaceHandle \<Rightarrow> ('b, bool) backend_op"
  rb_presentSurface :: "sSurfaceHandle \<Rightarrow> ('b, sFenceHandle) backend_op"
  rb_executeRenderPass :: "sRenderPassDescription \<Rightarrow> ('b, sFenceHandle) backend_op"
  rb_waitFence :: "sFenceHandle \<Rightarrow> u32 \<Rightarrow> ('b, unit) backend_op"
  rb_readTexture :: "sTextureHandle \<Rightarrow> u32 \<Rightarrow> ('b, sRendererFrame) backend_op"

text \<open>\<open>createPlatformRendererBackend\<close>: the instance, if any, and what it left in the error.\<close>

type_synonym 'b backend_factory = "sRendererConfiguration \<Rightarrow> ('b option \<times> RendererError) reply"

section \<open>The facade\<close>

record 'b RendererImpl =
  ri_backend :: "'b option"
  ri_configuration :: sRendererConfiguration

text \<open>\<open>None\<close> is the null pointer a moved-from renderer holds.\<close>

record 'b Renderer =
  rn_impl :: "'b RendererImpl option"

definition default_configuration :: sRendererConfiguration where
  "default_configuration = \<lparr>rc_backend = Backend_Automatic, rc_use_software_adapter = False,
     rc_prefer_display_adapter = False, rc_enable_validation = False, rc_adapter_name = []\<rparr>"

definition RendererImpl_new :: "'b RendererImpl" where
  "RendererImpl_new = \<lparr>ri_backend = None, ri_configuration = default_configuration\<rparr>"

definition Renderer_new :: "'b Renderer" where
  "Renderer_new = \<lparr>rn_impl = Some RendererImpl_new\<rparr>"

text \<open>The new renderer and what is left of the source.\<close>

definition renderer_move :: "'b Renderer \<Rightarrow> 'b Renderer \<times> 'b Renderer" where
  "renderer_move source = (\<lparr>rn_impl = rn_impl source\<rparr>, \<lparr>rn_impl = None\<rparr>)"

definition notInitializedError :: RendererError where
  "notInitializedError = RendererError_make RenCat_Lifecycle Ren_NotInitialized ''Renderer is not initialized.''"

definition invalidHandleError :: "string \<Rightarrow> RendererError" where
  "invalidHandleError name = RendererError_make RenCat_Validation Ren_InvalidArgument (name @ '' handle is invalid.'')"

definition invalidExtentError :: RendererError where
  "invalidExtentError = RendererError_make RenCat_Validation Ren_InvalidDescription ''Surface extent must be non-empty.''"

definition isSameConfiguration :: "sRendererConfiguration \<Rightarrow> sRendererConfiguration \<Rightarrow> bool" where
  "isSameConfiguration a b \<longleftrightarrow>
     rc_backend a = rc_backend b \<and> rc_use_software_adapter a = rc_use_software_adapter b
     \<and> rc_prefer_display_adapter a = rc_prefer_display_adapter b
     \<and> rc_enable_validation a = rc_enable_validation b \<and> rc_adapter_name a = rc_adapter_name b"

definition isKnownBackend :: "eRendererBackend \<Rightarrow> bool" where
  "isKnownBackend b \<longleftrightarrow> b = Backend_Automatic \<or> b = Direct3D12 \<or> b = Vulkan12"

definition renderer_isInitialized :: "'b RendererBackend \<Rightarrow> 'b Renderer \<Rightarrow> bool" where
  "renderer_isInitialized rb r =
     (case rn_impl r of
        None \<Rightarrow> False
      | Some impl \<Rightarrow> (case ri_backend impl of None \<Rightarrow> False | Some b \<Rightarrow> rb_isInitialized rb b))"

text \<open>The backend's object as it is destroyed, and the renderer without it.\<close>

definition renderer_shutdown :: "'b RendererBackend \<Rightarrow> 'b Renderer \<Rightarrow> 'b option \<times> 'b Renderer" where
  "renderer_shutdown rb r =
     (case rn_impl r of
        None \<Rightarrow> (None, r)
      | Some impl \<Rightarrow>
          (case ri_backend impl of
             None \<Rightarrow> (None, r)
           | Some b \<Rightarrow> (Some (rb_shutdown rb b), r\<lparr>rn_impl := Some (impl\<lparr>ri_backend := None\<rparr>)\<rparr>)))"

text \<open>Creating and initialising a backend for an implementation that has none, or one that is no longer
  initialised and is dropped.  A backend that throws stays where it was put.\<close>

definition renderer_start ::
    "'b RendererBackend \<Rightarrow> 'b backend_factory \<Rightarrow> sRendererConfiguration \<Rightarrow> 'b RendererImpl \<Rightarrow> RendererStatus reply \<times> 'b RendererImpl" where
  "renderer_start rb factory c impl =
     (case factory c of
        Threw x \<Rightarrow> (Threw x, impl)
      | Returned (None, e) \<Rightarrow> (Returned (Failure e), impl\<lparr>ri_backend := None\<rparr>)
      | Returned (Some b, e) \<Rightarrow>
          (case rb_initialize rb c b of
             (Threw x, b') \<Rightarrow> (Threw x, impl\<lparr>ri_backend := Some b'\<rparr>)
           | (Returned (Failure e'), b') \<Rightarrow> (Returned (Failure e'), impl\<lparr>ri_backend := None\<rparr>)
           | (Returned (Success u), b') \<Rightarrow>
               (Returned (Success u), impl\<lparr>ri_backend := Some b', ri_configuration := c\<rparr>)))"

definition renderer_initialize ::
    "'b RendererBackend \<Rightarrow> 'b backend_factory \<Rightarrow> sRendererConfiguration \<Rightarrow> 'b Renderer \<Rightarrow> RendererStatus reply \<times> 'b Renderer" where
  "renderer_initialize rb factory c r =
     (if \<not> isKnownBackend (rc_backend c)
      then (Returned (Failure (RendererError_make RenCat_Validation Ren_InvalidArgument
             ''Renderer backend value is unknown.'')), r)
      else if rc_use_software_adapter c \<and> rc_adapter_name c \<noteq> []
      then (Returned (Failure (RendererError_make RenCat_Validation Ren_InvalidArgument
             ''An adapter name and the software adapter cannot both be requested.'')), r)
      else
        let impl = (case rn_impl r of None \<Rightarrow> RendererImpl_new | Some i \<Rightarrow> i) in
        if renderer_isInitialized rb \<lparr>rn_impl = Some impl\<rparr>
        then
          if isSameConfiguration (ri_configuration impl) c then (Returned success_status, \<lparr>rn_impl = Some impl\<rparr>)
          else (Returned (Failure (RendererError_make RenCat_Lifecycle Ren_AlreadyInitialized
                 ''Renderer is already initialized with a different configuration.'')), \<lparr>rn_impl = Some impl\<rparr>)
        else
          let (s, impl') = renderer_start rb factory c impl in (s, \<lparr>rn_impl = Some impl'\<rparr>))"

text \<open>What every operation ends with: the guard, then the backend's own operation.\<close>

definition on_renderer ::
    "'b RendererBackend \<Rightarrow> ('b, 'a) backend_op \<Rightarrow> 'b Renderer \<Rightarrow> 'a RendererResult reply \<times> 'b Renderer" where
  "on_renderer rb f r =
     (if \<not> renderer_isInitialized rb r then (Returned (Failure notInitializedError), r)
      else case rn_impl r of
          None \<Rightarrow> (Returned (Failure notInitializedError), r)
        | Some impl \<Rightarrow>
            (case ri_backend impl of
               None \<Rightarrow> (Returned (Failure notInitializedError), r)
             | Some b \<Rightarrow>
                 let (a, b') = f b in (a, r\<lparr>rn_impl := Some (impl\<lparr>ri_backend := Some b'\<rparr>)\<rparr>)))"

definition renderer_getCapabilities :: "'b RendererBackend \<Rightarrow> 'b Renderer \<Rightarrow> sRendererCapabilities RendererResult reply \<times> 'b Renderer" where
  "renderer_getCapabilities rb r = on_renderer rb (\<lambda>b. (Returned (Success (rb_getCapabilities rb b)), b)) r"

definition renderer_enumerateDisplays :: "'b RendererBackend \<Rightarrow> 'b Renderer \<Rightarrow> sDisplayDescription list RendererResult reply \<times> 'b Renderer" where
  "renderer_enumerateDisplays rb r = on_renderer rb (rb_enumerateDisplays rb) r"

definition renderer_createTexture ::
    "'b RendererBackend \<Rightarrow> sTextureDescription \<Rightarrow> 'b Renderer \<Rightarrow> sTextureHandle RendererResult reply \<times> 'b Renderer" where
  "renderer_createTexture rb d r =
     (if \<not> re_ok (validateTextureDescription d) then (Returned (Failure (validateTextureDescription d)), r)
      else on_renderer rb (rb_createTexture rb d) r)"

definition renderer_destroyTexture ::
    "'b RendererBackend \<Rightarrow> sTextureHandle \<Rightarrow> 'b Renderer \<Rightarrow> unit RendererResult reply \<times> 'b Renderer" where
  "renderer_destroyTexture rb t r =
     (if \<not> handle_valid (texture_handle t) then (Returned (Failure (invalidHandleError ''Texture'')), r)
      else on_renderer rb (rb_destroyTexture rb t) r)"

definition renderer_uploadTexture ::
    "'b RendererBackend \<Rightarrow> sTextureHandle \<Rightarrow> sRendererFrame \<Rightarrow> 'b Renderer \<Rightarrow> sFenceHandle RendererResult reply \<times> 'b Renderer" where
  "renderer_uploadTexture rb t f r =
     (if \<not> handle_valid (texture_handle t) then (Returned (Failure (invalidHandleError ''Texture'')), r)
      else if \<not> re_ok (validateRendererFrame f) then (Returned (Failure (validateRendererFrame f)), r)
      else on_renderer rb (rb_uploadTexture rb t f) r)"

definition renderer_createMesh ::
    "'b RendererBackend \<Rightarrow> sMeshDescription \<Rightarrow> 'b Renderer \<Rightarrow> sMeshHandle RendererResult reply \<times> 'b Renderer" where
  "renderer_createMesh rb d r =
     (if \<not> re_ok (validateMeshDescription d) then (Returned (Failure (validateMeshDescription d)), r)
      else on_renderer rb (rb_createMesh rb d) r)"

definition renderer_updateMesh ::
    "'b RendererBackend \<Rightarrow> sMeshHandle \<Rightarrow> sMeshDescription \<Rightarrow> 'b Renderer \<Rightarrow> unit RendererResult reply \<times> 'b Renderer" where
  "renderer_updateMesh rb m d r =
     (if \<not> handle_valid (mesh_handle m) then (Returned (Failure (invalidHandleError ''Mesh'')), r)
      else if \<not> re_ok (validateMeshDescription d) then (Returned (Failure (validateMeshDescription d)), r)
      else on_renderer rb (rb_updateMesh rb m d) r)"

definition renderer_destroyMesh ::
    "'b RendererBackend \<Rightarrow> sMeshHandle \<Rightarrow> 'b Renderer \<Rightarrow> unit RendererResult reply \<times> 'b Renderer" where
  "renderer_destroyMesh rb m r =
     (if \<not> handle_valid (mesh_handle m) then (Returned (Failure (invalidHandleError ''Mesh'')), r)
      else on_renderer rb (rb_destroyMesh rb m) r)"

definition renderer_createSurface ::
    "'b RendererBackend \<Rightarrow> sSurfaceDescription \<Rightarrow> 'b Renderer \<Rightarrow> sSurfaceHandle RendererResult reply \<times> 'b Renderer" where
  "renderer_createSurface rb d r =
     (if \<not> re_ok (validateSurfaceDescription d) then (Returned (Failure (validateSurfaceDescription d)), r)
      else on_renderer rb (rb_createSurface rb d) r)"

definition renderer_getSurfaceTexture ::
    "'b RendererBackend \<Rightarrow> sSurfaceHandle \<Rightarrow> 'b Renderer \<Rightarrow> sTextureHandle RendererResult reply \<times> 'b Renderer" where
  "renderer_getSurfaceTexture rb s r =
     (if \<not> handle_valid (surface_handle s) then (Returned (Failure (invalidHandleError ''Surface'')), r)
      else on_renderer rb (rb_getSurfaceTexture rb s) r)"

definition renderer_getSurfaceState ::
    "'b RendererBackend \<Rightarrow> sSurfaceHandle \<Rightarrow> 'b Renderer \<Rightarrow> sSurfaceState RendererResult reply \<times> 'b Renderer" where
  "renderer_getSurfaceState rb s r =
     (if \<not> handle_valid (surface_handle s) then (Returned (Failure (invalidHandleError ''Surface'')), r)
      else on_renderer rb (rb_getSurfaceState rb s) r)"

definition renderer_resizeSurface ::
    "'b RendererBackend \<Rightarrow> sSurfaceHandle \<Rightarrow> sRendererExtent2D \<Rightarrow> 'b Renderer \<Rightarrow> unit RendererResult reply \<times> 'b Renderer" where
  "renderer_resizeSurface rb s e r =
     (if \<not> handle_valid (surface_handle s) then (Returned (Failure (invalidHandleError ''Surface'')), r)
      else if extent_empty e then (Returned (Failure invalidExtentError), r)
      else on_renderer rb (rb_resizeSurface rb s e) r)"

definition renderer_setSurfaceWindowMode ::
    "'b RendererBackend \<Rightarrow> sSurfaceHandle \<Rightarrow> sSurfaceWindowModeRequest \<Rightarrow> 'b Renderer \<Rightarrow> unit RendererResult reply \<times> 'b Renderer" where
  "renderer_setSurfaceWindowMode rb s q r =
     (if \<not> handle_valid (surface_handle s) then (Returned (Failure (invalidHandleError ''Surface'')), r)
      else if \<not> re_ok (validateSurfaceWindowModeRequest q) then (Returned (Failure (validateSurfaceWindowModeRequest q)), r)
      else on_renderer rb (rb_setSurfaceWindowMode rb s q) r)"

definition renderer_pollSurfaceEvents ::
    "'b RendererBackend \<Rightarrow> sSurfaceHandle \<Rightarrow> 'b Renderer \<Rightarrow> sSurfaceEvents RendererResult reply \<times> 'b Renderer" where
  "renderer_pollSurfaceEvents rb s r =
     (if \<not> handle_valid (surface_handle s) then (Returned (Failure (invalidHandleError ''Surface'')), r)
      else on_renderer rb (rb_pollSurfaceEvents rb s) r)"

definition renderer_destroySurface ::
    "'b RendererBackend \<Rightarrow> sSurfaceHandle \<Rightarrow> 'b Renderer \<Rightarrow> unit RendererResult reply \<times> 'b Renderer" where
  "renderer_destroySurface rb s r =
     (if \<not> handle_valid (surface_handle s) then (Returned (Failure (invalidHandleError ''Surface'')), r)
      else on_renderer rb (rb_destroySurface rb s) r)"

definition renderer_processSurfaceEvents ::
    "'b RendererBackend \<Rightarrow> sSurfaceHandle \<Rightarrow> 'b Renderer \<Rightarrow> bool RendererResult reply \<times> 'b Renderer" where
  "renderer_processSurfaceEvents rb s r =
     (if \<not> handle_valid (surface_handle s) then (Returned (Failure (invalidHandleError ''Surface'')), r)
      else on_renderer rb (rb_processSurfaceEvents rb s) r)"

definition renderer_presentSurface ::
    "'b RendererBackend \<Rightarrow> sSurfaceHandle \<Rightarrow> 'b Renderer \<Rightarrow> sFenceHandle RendererResult reply \<times> 'b Renderer" where
  "renderer_presentSurface rb s r =
     (if \<not> handle_valid (surface_handle s) then (Returned (Failure (invalidHandleError ''Surface'')), r)
      else on_renderer rb (rb_presentSurface rb s) r)"

definition renderer_executeRenderPass ::
    "'b RendererBackend \<Rightarrow> sRenderPassDescription \<Rightarrow> 'b Renderer \<Rightarrow> sFenceHandle RendererResult reply \<times> 'b Renderer" where
  "renderer_executeRenderPass rb d r =
     (if \<not> re_ok (validateRenderPassDescription d) then (Returned (Failure (validateRenderPassDescription d)), r)
      else on_renderer rb (rb_executeRenderPass rb d) r)"

definition renderer_waitFence ::
    "'b RendererBackend \<Rightarrow> sFenceHandle \<Rightarrow> u32 \<Rightarrow> 'b Renderer \<Rightarrow> unit RendererResult reply \<times> 'b Renderer" where
  "renderer_waitFence rb f timeout r =
     (if \<not> handle_valid (fence_handle f) then (Returned (Failure (invalidHandleError ''Fence'')), r)
      else if timeout = - 1 then (Returned (Failure (RendererError_make RenCat_Validation Ren_InvalidArgument ''Fence timeout must be finite.'')), r)
      else on_renderer rb (rb_waitFence rb f timeout) r)"

definition renderer_readTexture ::
    "'b RendererBackend \<Rightarrow> sTextureHandle \<Rightarrow> u32 \<Rightarrow> 'b Renderer \<Rightarrow> sRendererFrame RendererResult reply \<times> 'b Renderer" where
  "renderer_readTexture rb t timeout r =
     (if \<not> handle_valid (texture_handle t) then (Returned (Failure (invalidHandleError ''Texture'')), r)
      else if timeout = - 1 then (Returned (Failure (RendererError_make RenCat_Validation Ren_InvalidArgument ''Readback timeout must be finite.'')), r)
      else on_renderer rb (rb_readTexture rb t timeout) r)"

text \<open>The overloads that take or fill an image.  \<open>None\<close> would be an access outside a buffer.\<close>

definition renderer_uploadImage ::
    "ePixFormat \<Rightarrow> bool \<Rightarrow> 'b RendererBackend \<Rightarrow> sTextureHandle \<Rightarrow> bytes Image \<Rightarrow> 'b Renderer
      \<Rightarrow> (sFenceHandle RendererResult reply \<times> 'b Renderer) option" where
  "renderer_uploadImage pf alloc rb t im r =
     (case toRendererFrame pf alloc im of
        None \<Rightarrow> None
      | Some (Failure e) \<Rightarrow> Some (Returned (Failure e), r)
      | Some (Success f) \<Rightarrow> Some (renderer_uploadTexture rb t f r))"

definition renderer_readImage ::
    "ePixFormat \<Rightarrow> bool \<Rightarrow> 'b RendererBackend \<Rightarrow> bytes Image \<Rightarrow> sTextureHandle \<Rightarrow> u32 \<Rightarrow> 'b Renderer
      \<Rightarrow> (RendererStatus reply \<times> bytes Image \<times> 'b Renderer) option" where
  "renderer_readImage pf alloc rb image_out t timeout r =
     (case renderer_readTexture rb t timeout r of
        (Threw x, r') \<Rightarrow> Some (Threw x, image_out, r')
      | (Returned (Failure e), r') \<Rightarrow> Some (Returned (Failure e), image_out, r')
      | (Returned (Success f), r') \<Rightarrow>
          map_option (\<lambda>(s, im). (Returned s, im, r')) (rendererFrameToImage pf alloc image_out f))"

end
