(* ===== verification/Projection.thy ===== *)
theory Projection
  imports Renderer
begin

text \<open>
  Projection passes (\<open>api/oui/renderer/ProjectionPipeline.h\<close>, \<open>core/oui/renderer/ProjectionPipeline.cpp\<close>,
  \<open>core/oui/renderer/ProjectionExecution.h\<close>) and the identities of renderers
  (\<open>core/oui/renderer/RendererIdentity.h\<close>).  The execution is a template over its backend: the record of
  the five operations it calls, over the state of the object it holds a reference to.  Every one of them
  may throw; the destructor of the temporaries runs on the way out.
\<close>

section \<open>Descriptions\<close>

record sProjectionLayerDescription =
  pl_mesh :: sMeshHandle
  pl_source_texture :: sTextureHandle
  pl_alpha_texture :: sTextureHandle
  pl_sampling_filter :: eTextureSamplingFilter
  pl_opacity :: cpp_float
  pl_edge_blend :: sEdgeBlendDescription

record sProjectionPassDescription =
  pp_color_attachment :: sTextureHandle
  pp_render_area :: sRendererRegion2D
  pp_clear_color :: sRendererColor
  pp_layers :: "sProjectionLayerDescription list"
  pp_final_state :: eTextureState
  pp_supersample_scale :: u32

definition projection_draw :: "sProjectionLayerDescription \<Rightarrow> sMeshDrawCommand" where
  "projection_draw layer =
     \<lparr>dc_mesh = pl_mesh layer, dc_source_texture = pl_source_texture layer, dc_alpha_texture = pl_alpha_texture layer,
      dc_sampling_filter = pl_sampling_filter layer, dc_blend_mode = Blend_SourceAlpha, dc_opacity = pl_opacity layer,
      dc_edge_blend = pl_edge_blend layer\<rparr>"

definition makeProjectionRenderPass ::
    "sProjectionPassDescription \<Rightarrow> sTextureHandle \<Rightarrow> sRendererRegion2D \<Rightarrow> eTextureState \<Rightarrow> sRenderPassDescription" where
  "makeProjectionRenderPass d attachment area final =
     \<lparr>rp_color_attachment = attachment, rp_render_area = area, rp_load_operation = Load_Clear,
      rp_store_operation = Store_Store, rp_clear_color = pp_clear_color d,
      rp_draw_commands = map projection_draw (pp_layers d), rp_final_state = final\<rparr>"

definition makeDownsampleMesh :: sMeshDescription where
  "makeDownsampleMesh =
     \<lparr>md_topology = TriangleList,
      md_vertices = map (\<lambda>(x, y, u, v). \<lparr>vx_position_x = Some x, vx_position_y = Some y, vx_texture_u = Some u, vx_texture_v = Some v\<rparr>)
        [(- 1, 1, 0, 0), (1, 1, 1, 0), (1, - 1, 1, 1), (- 1, - 1, 0, 1)],
      md_indices = [0, 1, 2, 0, 2, 3]\<rparr>"

definition validateProjectionPassDescription :: "sProjectionPassDescription \<Rightarrow> RendererError" where
  "validateProjectionPassDescription d =
     (let scale = pp_supersample_scale d; extent = rg_extent (pp_render_area d); maximum = (- 1 :: u32);
          pass = validateRenderPassDescription
            (makeProjectionRenderPass d (pp_color_attachment d) (pp_render_area d) (pp_final_state d))
      in if \<not> handle_valid (texture_handle (pp_color_attachment d))
         then invalidDescription ''Projection color attachment handle is invalid.''
         else if pp_layers d = [] then invalidDescription ''Projection pass requires at least one layer.''
         else if scale \<noteq> 1 \<and> scale \<noteq> 2 then invalidDescription ''Projection supersample scale must be one or two.''
         else if scale = 2 \<and> extent_empty extent
         then invalidDescription ''Supersampled projection requires an explicit render-area extent.''
         else if scale = 2 \<and> (maximum div 2 < ex_width extent \<or> maximum div 2 < ex_height extent)
         then invalidDescription ''Supersampled projection extent overflows its coordinate range.''
         else pass)"

section \<open>Temporaries\<close>

record 's ProjectionBackend =
  pb_createTexture :: "sTextureDescription \<Rightarrow> 's \<Rightarrow> sTextureHandle RendererResult reply \<times> 's"
  pb_createMesh :: "sMeshDescription \<Rightarrow> 's \<Rightarrow> sMeshHandle RendererResult reply \<times> 's"
  pb_executeRenderPass :: "sRenderPassDescription \<Rightarrow> 's \<Rightarrow> sFenceHandle RendererResult reply \<times> 's"
  pb_destroyMesh :: "sMeshHandle \<Rightarrow> 's \<Rightarrow> RendererStatus reply \<times> 's"
  pb_destroyTexture :: "sTextureHandle \<Rightarrow> 's \<Rightarrow> RendererStatus reply \<times> 's"

record ProjectionTemporaries =
  pt_mesh :: sMeshHandle
  pt_texture :: sTextureHandle

definition temporaries_none :: ProjectionTemporaries where
  "temporaries_none = \<lparr>pt_mesh = Mesh_handle handle_none, pt_texture = Texture_handle handle_none\<rparr>"

text \<open>A call whose exception is caught: its status, which is the success it was initialised with when the
  call did not return, and the exception.\<close>

definition caught :: "RendererStatus reply \<times> 's \<Rightarrow> RendererStatus \<times> cpp_exception option \<times> 's" where
  "caught p = (case p of (Returned s, t) \<Rightarrow> (s, None, t) | (Threw x, t) \<Rightarrow> (success_status, Some x, t))"

definition temporaries_release ::
    "'s ProjectionBackend \<Rightarrow> ProjectionTemporaries \<Rightarrow> 's \<Rightarrow> RendererStatus reply \<times> ProjectionTemporaries \<times> 's" where
  "temporaries_release pb owned s =
     (let old_mesh = pt_mesh owned; old_texture = pt_texture owned;
          (mesh_status, x1, s1) =
            (if handle_valid (mesh_handle old_mesh) then caught (pb_destroyMesh pb old_mesh s) else (success_status, None, s));
          (texture_status, x2, s2) =
            (if handle_valid (texture_handle old_texture) then caught (pb_destroyTexture pb old_texture s1)
             else (success_status, None, s1));
          reply =
            (case (x1, x2) of
               (Some x, _) \<Rightarrow> Threw x
             | (None, Some x) \<Rightarrow> Threw x
             | (None, None) \<Rightarrow> Returned (if succeeded mesh_status then texture_status else mesh_status))
      in (reply, temporaries_none, s2))"

text \<open>The destructor.\<close>

definition temporaries_discard :: "'s ProjectionBackend \<Rightarrow> ProjectionTemporaries \<Rightarrow> 's \<Rightarrow> 's" where
  "temporaries_discard pb owned s = snd (snd (temporaries_release pb owned s))"

section \<open>Execution\<close>

definition supersample_texture :: "sRendererExtent2D \<Rightarrow> sTextureDescription" where
  "supersample_texture extent =
     \<lparr>td_extent = extent, td_format = Rgba8Unorm, td_usage = or Usage_RenderTarget Usage_Sampled,
      td_initial_state = State_RenderTarget, td_mip_levels = 1\<rparr>"

definition downsample_pass :: "sProjectionPassDescription \<Rightarrow> sMeshHandle \<Rightarrow> sTextureHandle \<Rightarrow> sRenderPassDescription" where
  "downsample_pass d mesh texture =
     \<lparr>rp_color_attachment = pp_color_attachment d, rp_render_area = pp_render_area d, rp_load_operation = Load_Clear,
      rp_store_operation = Store_Store, rp_clear_color = pp_clear_color d,
      rp_draw_commands =
        [\<lparr>dc_mesh = mesh, dc_source_texture = texture, dc_alpha_texture = Texture_handle handle_none,
          dc_sampling_filter = Filter_Linear, dc_blend_mode = Blend_Replace, dc_opacity = Some 1,
          dc_edge_blend = \<lparr>eb_left = Some 0, eb_right = Some 0, eb_top = Some 0, eb_bottom = Some 0, eb_curve = Curve_Linear\<rparr>\<rparr>],
      rp_final_state = pp_final_state d\<rparr>"

definition supersample_extent :: "sProjectionPassDescription \<Rightarrow> sRendererExtent2D" where
  "supersample_extent d =
     \<lparr>ex_width = ex_width (rg_extent (pp_render_area d)) * 2, ex_height = ex_height (rg_extent (pp_render_area d)) * 2\<rparr>"

definition supersample_pass :: "sProjectionPassDescription \<Rightarrow> sTextureHandle \<Rightarrow> sRenderPassDescription" where
  "supersample_pass d texture =
     makeProjectionRenderPass d texture \<lparr>rg_x = 0, rg_y = 0, rg_extent = supersample_extent d\<rparr> State_ShaderResource"

text \<open>The two passes and the release, once both temporaries are held: what they return or throw, what is
  still held, and the state.\<close>

definition projection_passes ::
    "'s ProjectionBackend \<Rightarrow> sProjectionPassDescription \<Rightarrow> ProjectionTemporaries \<Rightarrow> 's
      \<Rightarrow> sFenceHandle RendererResult reply \<times> ProjectionTemporaries \<times> 's" where
  "projection_passes pb d owned s =
     (case pb_executeRenderPass pb (supersample_pass d (pt_texture owned)) s of
        (Threw x, s1) \<Rightarrow> (Threw x, owned, s1)
      | (Returned (Failure e), s1) \<Rightarrow> (Returned (Failure e), owned, s1)
      | (Returned (Success first), s1) \<Rightarrow>
          (case pb_executeRenderPass pb (downsample_pass d (pt_mesh owned) (pt_texture owned)) s1 of
             (Threw x, s2) \<Rightarrow> (Threw x, owned, s2)
           | (Returned (Failure e), s2) \<Rightarrow> (Returned (Failure e), owned, s2)
           | (Returned (Success second), s2) \<Rightarrow>
               (case temporaries_release pb owned s2 of
                  (Threw x, owned', s3) \<Rightarrow> (Threw x, owned', s3)
                | (Returned (Failure e), owned', s3) \<Rightarrow> (Returned (Failure e), owned', s3)
                | (Returned (Success u), owned', s3) \<Rightarrow> (Returned (Success second), owned', s3))))"

definition projection_supersampled ::
    "'s ProjectionBackend \<Rightarrow> sProjectionPassDescription \<Rightarrow> 's
      \<Rightarrow> sFenceHandle RendererResult reply \<times> ProjectionTemporaries \<times> 's" where
  "projection_supersampled pb d s =
     (case pb_createTexture pb (supersample_texture (supersample_extent d)) s of
        (Threw x, s1) \<Rightarrow> (Threw x, temporaries_none, s1)
      | (Returned (Failure e), s1) \<Rightarrow> (Returned (Failure e), temporaries_none, s1)
      | (Returned (Success texture), s1) \<Rightarrow>
          let owned = temporaries_none\<lparr>pt_texture := texture\<rparr> in
          (case pb_createMesh pb makeDownsampleMesh s1 of
             (Threw x, s2) \<Rightarrow> (Threw x, owned, s2)
           | (Returned (Failure e), s2) \<Rightarrow> (Returned (Failure e), owned, s2)
           | (Returned (Success mesh), s2) \<Rightarrow> projection_passes pb d (owned\<lparr>pt_mesh := mesh\<rparr>) s2))"

text \<open>The renderer is \<open>None\<close> when the pointer is null.\<close>

definition executeProjection ::
    "'s ProjectionBackend \<Rightarrow> 's option \<Rightarrow> sProjectionPassDescription \<Rightarrow> sFenceHandle RendererResult reply \<times> 's option" where
  "executeProjection pb renderer d =
     (case renderer of
        None \<Rightarrow>
          (Returned (Failure (RendererError_make RenCat_Validation Ren_InvalidArgument
             ''Projection renderer pointer must be non-null.'')), None)
      | Some s \<Rightarrow>
          (if \<not> re_ok (validateProjectionPassDescription d)
           then (Returned (Failure (validateProjectionPassDescription d)), Some s)
           else if pp_supersample_scale d = 1
           then
             let (r, s') = pb_executeRenderPass pb
               (makeProjectionRenderPass d (pp_color_attachment d) (pp_render_area d) (pp_final_state d)) s
             in (r, Some s')
           else
             let (r, owned, s') = projection_supersampled pb d s
             in (r, Some (temporaries_discard pb owned s'))))"

text \<open>The pipeline over a renderer.\<close>

definition renderer_projection :: "'b RendererBackend \<Rightarrow> 'b Renderer ProjectionBackend" where
  "renderer_projection rb =
     \<lparr>pb_createTexture = renderer_createTexture rb, pb_createMesh = renderer_createMesh rb,
      pb_executeRenderPass = renderer_executeRenderPass rb, pb_destroyMesh = renderer_destroyMesh rb,
      pb_destroyTexture = renderer_destroyTexture rb\<rparr>"

definition pipeline_execute ::
    "'b RendererBackend \<Rightarrow> 'b Renderer option \<Rightarrow> sProjectionPassDescription \<Rightarrow> sFenceHandle RendererResult reply \<times> 'b Renderer option" where
  "pipeline_execute rb renderer d = executeProjection (renderer_projection rb) renderer d"

section \<open>Identities\<close>

text \<open>\<open>reserve\<close> is one atomic step: what it returns and the last number issued after it.\<close>

definition generation_reserve :: "u32 \<Rightarrow> u32 \<times> u32" where
  "generation_reserve last_issued =
     (if last_issued \<noteq> - 1 then (last_issued + 1, last_issued + 1) else (0, last_issued))"

end
