(* ===== verification/RendererCorrect.thy ===== *)
theory RendererCorrect
  imports Renderer
begin

text \<open>
  Correctness of the renderer facade.  The operations with arguments are put in one type of calls;
  \<open>argument_error\<close> says which error the arguments of a call have, in the order handle, description.  The
  facade is shown equal to one gate for all of them, and the contract a backend may rely on
  (\<open>call_wf\<close>) is shown for every sequence of client operations by recording what the backend is given.
\<close>

section \<open>Calls\<close>

datatype renderer_call =
    Call_enumerateDisplays
  | Call_createTexture sTextureDescription
  | Call_destroyTexture sTextureHandle
  | Call_uploadTexture sTextureHandle sRendererFrame
  | Call_createMesh sMeshDescription
  | Call_updateMesh sMeshHandle sMeshDescription
  | Call_destroyMesh sMeshHandle
  | Call_createSurface sSurfaceDescription
  | Call_getSurfaceTexture sSurfaceHandle
  | Call_getSurfaceState sSurfaceHandle
  | Call_resizeSurface sSurfaceHandle sRendererExtent2D
  | Call_setSurfaceWindowMode sSurfaceHandle sSurfaceWindowModeRequest
  | Call_pollSurfaceEvents sSurfaceHandle
  | Call_destroySurface sSurfaceHandle
  | Call_processSurfaceEvents sSurfaceHandle
  | Call_presentSurface sSurfaceHandle
  | Call_executeRenderPass sRenderPassDescription
  | Call_waitFence sFenceHandle u32
  | Call_readTexture sTextureHandle u32

text \<open>The values the operations answer with, in one type, and an answer with its value in it.\<close>

datatype renderer_value =
    Value_unit unit
  | Value_displays "sDisplayDescription list"
  | Value_texture sTextureHandle
  | Value_mesh sMeshHandle
  | Value_surface sSurfaceHandle
  | Value_fence sFenceHandle
  | Value_state sSurfaceState
  | Value_events sSurfaceEvents
  | Value_open bool
  | Value_frame sRendererFrame

fun answer_with :: "('a \<Rightarrow> renderer_value) \<Rightarrow> 'a RendererResult reply \<Rightarrow> renderer_value RendererResult reply" where
  "answer_with inject (Threw x) = Threw x"
| "answer_with inject (Returned (Success v)) = Returned (Success (inject v))"
| "answer_with inject (Returned (Failure e)) = Returned (Failure e)"

definition observe ::
    "('a \<Rightarrow> renderer_value) \<Rightarrow> 'a RendererResult reply \<times> 's \<Rightarrow> renderer_value RendererResult reply \<times> 's" where
  "observe inject p = (answer_with inject (fst p), snd p)"

text \<open>What a call of the facade, and what the same call of the backend, comes back with.\<close>

fun renderer_request :: "'b RendererBackend \<Rightarrow> renderer_call \<Rightarrow> 'b Renderer \<Rightarrow> renderer_value RendererResult reply \<times> 'b Renderer" where
  "renderer_request rb Call_enumerateDisplays r = observe Value_displays (renderer_enumerateDisplays rb r)"
| "renderer_request rb (Call_createTexture d) r = observe Value_texture (renderer_createTexture rb d r)"
| "renderer_request rb (Call_destroyTexture t) r = observe Value_unit (renderer_destroyTexture rb t r)"
| "renderer_request rb (Call_uploadTexture t f) r = observe Value_fence (renderer_uploadTexture rb t f r)"
| "renderer_request rb (Call_createMesh d) r = observe Value_mesh (renderer_createMesh rb d r)"
| "renderer_request rb (Call_updateMesh m d) r = observe Value_unit (renderer_updateMesh rb m d r)"
| "renderer_request rb (Call_destroyMesh m) r = observe Value_unit (renderer_destroyMesh rb m r)"
| "renderer_request rb (Call_createSurface d) r = observe Value_surface (renderer_createSurface rb d r)"
| "renderer_request rb (Call_getSurfaceTexture s) r = observe Value_texture (renderer_getSurfaceTexture rb s r)"
| "renderer_request rb (Call_getSurfaceState s) r = observe Value_state (renderer_getSurfaceState rb s r)"
| "renderer_request rb (Call_resizeSurface s e) r = observe Value_unit (renderer_resizeSurface rb s e r)"
| "renderer_request rb (Call_setSurfaceWindowMode s q) r = observe Value_unit (renderer_setSurfaceWindowMode rb s q r)"
| "renderer_request rb (Call_pollSurfaceEvents s) r = observe Value_events (renderer_pollSurfaceEvents rb s r)"
| "renderer_request rb (Call_destroySurface s) r = observe Value_unit (renderer_destroySurface rb s r)"
| "renderer_request rb (Call_processSurfaceEvents s) r = observe Value_open (renderer_processSurfaceEvents rb s r)"
| "renderer_request rb (Call_presentSurface s) r = observe Value_fence (renderer_presentSurface rb s r)"
| "renderer_request rb (Call_executeRenderPass d) r = observe Value_fence (renderer_executeRenderPass rb d r)"
| "renderer_request rb (Call_waitFence f timeout) r = observe Value_unit (renderer_waitFence rb f timeout r)"
| "renderer_request rb (Call_readTexture t timeout) r = observe Value_frame (renderer_readTexture rb t timeout r)"

fun backend_request :: "'b RendererBackend \<Rightarrow> renderer_call \<Rightarrow> 'b \<Rightarrow> renderer_value RendererResult reply \<times> 'b" where
  "backend_request rb Call_enumerateDisplays b = observe Value_displays (rb_enumerateDisplays rb b)"
| "backend_request rb (Call_createTexture d) b = observe Value_texture (rb_createTexture rb d b)"
| "backend_request rb (Call_destroyTexture t) b = observe Value_unit (rb_destroyTexture rb t b)"
| "backend_request rb (Call_uploadTexture t f) b = observe Value_fence (rb_uploadTexture rb t f b)"
| "backend_request rb (Call_createMesh d) b = observe Value_mesh (rb_createMesh rb d b)"
| "backend_request rb (Call_updateMesh m d) b = observe Value_unit (rb_updateMesh rb m d b)"
| "backend_request rb (Call_destroyMesh m) b = observe Value_unit (rb_destroyMesh rb m b)"
| "backend_request rb (Call_createSurface d) b = observe Value_surface (rb_createSurface rb d b)"
| "backend_request rb (Call_getSurfaceTexture s) b = observe Value_texture (rb_getSurfaceTexture rb s b)"
| "backend_request rb (Call_getSurfaceState s) b = observe Value_state (rb_getSurfaceState rb s b)"
| "backend_request rb (Call_resizeSurface s e) b = observe Value_unit (rb_resizeSurface rb s e b)"
| "backend_request rb (Call_setSurfaceWindowMode s q) b = observe Value_unit (rb_setSurfaceWindowMode rb s q b)"
| "backend_request rb (Call_pollSurfaceEvents s) b = observe Value_events (rb_pollSurfaceEvents rb s b)"
| "backend_request rb (Call_destroySurface s) b = observe Value_unit (rb_destroySurface rb s b)"
| "backend_request rb (Call_processSurfaceEvents s) b = observe Value_open (rb_processSurfaceEvents rb s b)"
| "backend_request rb (Call_presentSurface s) b = observe Value_fence (rb_presentSurface rb s b)"
| "backend_request rb (Call_executeRenderPass d) b = observe Value_fence (rb_executeRenderPass rb d b)"
| "backend_request rb (Call_waitFence f timeout) b = observe Value_unit (rb_waitFence rb f timeout b)"
| "backend_request rb (Call_readTexture t timeout) b = observe Value_frame (rb_readTexture rb t timeout b)"

definition handle_error :: "string \<Rightarrow> sHandle \<Rightarrow> RendererError option" where
  "handle_error name h = (if handle_valid h then None else Some (invalidHandleError name))"

definition description_error :: "RendererError \<Rightarrow> RendererError option" where
  "description_error e = (if re_ok e then None else Some e)"

definition timeout_error :: "string \<Rightarrow> u32 \<Rightarrow> RendererError option" where
  "timeout_error message t = (if t = - 1 then Some (RendererError_make RenCat_Validation Ren_InvalidArgument message) else None)"

text \<open>The first error.\<close>

definition orelse :: "'a option \<Rightarrow> 'a option \<Rightarrow> 'a option" where
  "orelse a b = (case a of None \<Rightarrow> b | Some x \<Rightarrow> Some x)"

fun argument_error :: "renderer_call \<Rightarrow> RendererError option" where
  "argument_error Call_enumerateDisplays = None"
| "argument_error (Call_createTexture d) = description_error (validateTextureDescription d)"
| "argument_error (Call_destroyTexture t) = handle_error ''Texture'' (texture_handle t)"
| "argument_error (Call_uploadTexture t f) = orelse (handle_error ''Texture'' (texture_handle t)) (description_error (validateRendererFrame f))"
| "argument_error (Call_createMesh d) = description_error (validateMeshDescription d)"
| "argument_error (Call_updateMesh m d) = orelse (handle_error ''Mesh'' (mesh_handle m)) (description_error (validateMeshDescription d))"
| "argument_error (Call_destroyMesh m) = handle_error ''Mesh'' (mesh_handle m)"
| "argument_error (Call_createSurface d) = description_error (validateSurfaceDescription d)"
| "argument_error (Call_getSurfaceTexture s) = handle_error ''Surface'' (surface_handle s)"
| "argument_error (Call_getSurfaceState s) = handle_error ''Surface'' (surface_handle s)"
| "argument_error (Call_resizeSurface s e) = orelse (handle_error ''Surface'' (surface_handle s)) (if extent_empty e then Some invalidExtentError else None)"
| "argument_error (Call_setSurfaceWindowMode s q) = orelse (handle_error ''Surface'' (surface_handle s)) (description_error (validateSurfaceWindowModeRequest q))"
| "argument_error (Call_pollSurfaceEvents s) = handle_error ''Surface'' (surface_handle s)"
| "argument_error (Call_destroySurface s) = handle_error ''Surface'' (surface_handle s)"
| "argument_error (Call_processSurfaceEvents s) = handle_error ''Surface'' (surface_handle s)"
| "argument_error (Call_presentSurface s) = handle_error ''Surface'' (surface_handle s)"
| "argument_error (Call_executeRenderPass d) = description_error (validateRenderPassDescription d)"
| "argument_error (Call_waitFence f timeout) = orelse (handle_error ''Fence'' (fence_handle f)) (timeout_error ''Fence timeout must be finite.'' timeout)"
| "argument_error (Call_readTexture t timeout) = orelse (handle_error ''Texture'' (texture_handle t)) (timeout_error ''Readback timeout must be finite.'' timeout)"

text \<open>One gate for every call.\<close>

definition live_backend :: "'b Renderer \<Rightarrow> 'b option" where
  "live_backend r = (case rn_impl r of None \<Rightarrow> None | Some impl \<Rightarrow> ri_backend impl)"

definition put_backend :: "'b \<Rightarrow> 'b Renderer \<Rightarrow> 'b Renderer" where
  "put_backend b r = \<lparr>rn_impl = map_option (\<lambda>impl. impl\<lparr>ri_backend := Some b\<rparr>) (rn_impl r)\<rparr>"

definition renderer_gate :: "'b RendererBackend \<Rightarrow> renderer_call \<Rightarrow> 'b Renderer \<Rightarrow> renderer_value RendererResult reply \<times> 'b Renderer" where
  "renderer_gate rb q r =
     (case argument_error q of
        Some e \<Rightarrow> (Returned (Failure e), r)
      | None \<Rightarrow>
          (case live_backend r of
             None \<Rightarrow> (Returned (Failure notInitializedError), r)
           | Some b \<Rightarrow>
               if rb_isInitialized rb b
               then let (a, b') = backend_request rb q b in (a, put_backend b' r)
               else (Returned (Failure notInitializedError), r)))"

lemma observe_simps [simp]:
  "observe inject (if c then p else p') = (if c then observe inject p else observe inject p')"
  "observe inject (Returned (Failure e), s) = (Returned (Failure e), s)"
  by (simp_all add: observe_def)

lemma observe_on_renderer:
  "observe inject (on_renderer rb f r) =
     (case live_backend r of
        None \<Rightarrow> (Returned (Failure notInitializedError), r)
      | Some b \<Rightarrow>
          if rb_isInitialized rb b then let (a, b') = observe inject (f b) in (a, put_backend b' r)
          else (Returned (Failure notInitializedError), r))"
  by (cases r)
    (auto simp: on_renderer_def renderer_isInitialized_def live_backend_def put_backend_def observe_def
      split: option.splits prod.splits)

lemmas renderer_operations =
  renderer_enumerateDisplays_def
  renderer_createTexture_def
  renderer_destroyTexture_def
  renderer_uploadTexture_def
  renderer_createMesh_def
  renderer_updateMesh_def
  renderer_destroyMesh_def
  renderer_createSurface_def
  renderer_getSurfaceTexture_def
  renderer_getSurfaceState_def
  renderer_resizeSurface_def
  renderer_setSurfaceWindowMode_def
  renderer_pollSurfaceEvents_def
  renderer_destroySurface_def
  renderer_processSurfaceEvents_def
  renderer_presentSurface_def
  renderer_executeRenderPass_def
  renderer_waitFence_def
  renderer_readTexture_def

lemma renderer_request_gate: "renderer_request rb q r = renderer_gate rb q r"
  by (cases q)
    (auto simp: renderer_gate_def renderer_operations observe_on_renderer handle_error_def description_error_def
      timeout_error_def orelse_def split: option.splits prod.splits)

section \<open>What a backend may rely on\<close>

definition known_normalized :: "cpp_float \<Rightarrow> bool" where
  "known_normalized f \<longleftrightarrow> (\<exists>q. f = Some q \<and> 0 \<le> q \<and> q \<le> 1)"

definition texture_wf :: "sTextureDescription \<Rightarrow> bool" where
  "texture_wf d \<longleftrightarrow>
     0 < ex_width (td_extent d) \<and> 0 < ex_height (td_extent d) \<and> isKnownFormat (td_format d)
     \<and> 0 < unat (td_usage d) \<and> unat (td_usage d) < 16 \<and> 0 < td_mip_levels d
     \<and> (\<forall>b. td_initial_state d \<noteq> State_other b)
     \<and> (td_initial_state d = State_CopySource \<longrightarrow> hasTextureUsage (td_usage d) Usage_TransferSource)
     \<and> (td_initial_state d = State_CopyDestination \<longrightarrow> hasTextureUsage (td_usage d) Usage_TransferDestination)
     \<and> (td_initial_state d = State_RenderTarget \<longrightarrow> hasTextureUsage (td_usage d) Usage_RenderTarget)
     \<and> (td_initial_state d = State_ShaderResource \<longrightarrow> hasTextureUsage (td_usage d) Usage_Sampled)"

definition frame_wf :: "sRendererFrame \<Rightarrow> bool" where
  "frame_wf f \<longleftrightarrow>
     (let d = rf_description f; h = unat (ex_height (rf_extent d)) in
      0 < frame_row_bytes d \<and> 0 < h \<and> frame_row_bytes d \<le> frame_pitch d
      \<and> length (rf_data f) = h * frame_pitch d \<and> length (rf_data f) < 2 ^ 64)"

definition mesh_wf :: "sMeshDescription \<Rightarrow> bool" where
  "mesh_wf d \<longleftrightarrow>
     (\<forall>v \<in> set (md_vertices d). vertex_finite v) \<and> 3 \<le> length (md_indices d)
     \<and> (\<forall>i \<in> set (md_indices d). unat i < length (md_vertices d))
     \<and> (md_topology d = TriangleList \<and> 3 dvd length (md_indices d) \<or> md_topology d = TriangleStrip)"

definition draw_wf :: "sTextureHandle \<Rightarrow> sMeshDrawCommand \<Rightarrow> bool" where
  "draw_wf attachment c \<longleftrightarrow>
     handle_valid (mesh_handle (dc_mesh c)) \<and> handle_valid (texture_handle (dc_source_texture c))
     \<and> dc_source_texture c \<noteq> attachment \<and> dc_alpha_texture c \<noteq> attachment
     \<and> (texture_handle (dc_alpha_texture c) = handle_none \<or> handle_valid (texture_handle (dc_alpha_texture c)))
     \<and> dc_sampling_filter c \<in> {Filter_Nearest, Filter_Linear} \<and> dc_blend_mode c \<in> {Blend_Replace, Blend_SourceAlpha}
     \<and> eb_curve (dc_edge_blend c) \<in> {Curve_Linear, Curve_Smoothstep}
     \<and> known_normalized (dc_opacity c)
     \<and> (\<forall>w \<in> {eb_left (dc_edge_blend c), eb_right (dc_edge_blend c), eb_top (dc_edge_blend c), eb_bottom (dc_edge_blend c)}.
          known_normalized w)"

text \<open>A render area that is given does not leave the 32-bit coordinates.\<close>

definition area_wf :: "sRendererRegion2D \<Rightarrow> bool" where
  "area_wf a \<longleftrightarrow>
     ex_width (rg_extent a) = 0 \<or> ex_height (rg_extent a) = 0
     \<or> unat (rg_x a) + unat (ex_width (rg_extent a)) < 2 ^ 32 \<and> unat (rg_y a) + unat (ex_height (rg_extent a)) < 2 ^ 32"

definition pass_wf :: "sRenderPassDescription \<Rightarrow> bool" where
  "pass_wf d \<longleftrightarrow>
     handle_valid (texture_handle (rp_color_attachment d)) \<and> area_wf (rp_render_area d)
     \<and> rp_load_operation d \<in> {Load_Load, Load_Clear, Load_Discard} \<and> rp_store_operation d \<in> {Store_Store, Store_Discard}
     \<and> rp_final_state d \<noteq> State_Undefined \<and> (\<forall>b. rp_final_state d \<noteq> State_other b)
     \<and> (rp_load_operation d = Load_Clear \<longrightarrow> (\<forall>q \<in> {co_red (rp_clear_color d), co_green (rp_clear_color d),
          co_blue (rp_clear_color d), co_alpha (rp_clear_color d)}. known_normalized q))
     \<and> (\<forall>c \<in> set (rp_draw_commands d). draw_wf (rp_color_attachment d) c)"

definition surface_wf :: "sSurfaceDescription \<Rightarrow> bool" where
  "surface_wf d \<longleftrightarrow>
     0 < ex_width (sd_extent d) \<and> 0 < ex_height (sd_extent d) \<and> isKnownFormat (sd_format d)
     \<and> 1 \<le> sd_buffer_count d \<and> sd_buffer_count d \<le> 3
     \<and> (sd_type d = Offscreen \<and> sd_buffer_count d = 1 \<and> sd_display_id d = []
          \<and> isUnspecifiedDisplayMode (sd_display_mode d)
        \<or> sd_type d = Window \<and> 2 \<le> sd_buffer_count d \<and> sd_title d \<noteq> [] \<and> sd_display_id d = []
          \<and> isUnspecifiedDisplayMode (sd_display_mode d)
        \<or> sd_type d = DirectDisplay \<and> 2 \<le> sd_buffer_count d \<and> sd_title d \<noteq> [] \<and> sd_display_id d \<noteq> []
          \<and> sd_visible d \<and> sd_extent d = dm_extent (sd_display_mode d) \<and> sd_format d = dm_format (sd_display_mode d)
          \<and> dm_refresh_rate_denominator (sd_display_mode d) \<noteq> 0)"

definition window_mode_wf :: "sSurfaceWindowModeRequest \<Rightarrow> bool" where
  "window_mode_wf q \<longleftrightarrow>
     wr_mode q = Windowed \<and> wr_display_id q = [] \<and> isUnspecifiedDisplayMode (wr_display_mode q)
     \<or> wr_mode q = BorderlessFullscreen \<and> wr_display_id q \<noteq> [] \<and> isUnspecifiedDisplayMode (wr_display_mode q)
     \<or> wr_mode q = DisplayModeFullscreen \<and> wr_display_id q \<noteq> []
       \<and> 0 < ex_width (dm_extent (wr_display_mode q)) \<and> 0 < ex_height (dm_extent (wr_display_mode q))
       \<and> isKnownFormat (dm_format (wr_display_mode q)) \<and> dm_refresh_rate_denominator (wr_display_mode q) \<noteq> 0"

fun call_wf :: "renderer_call \<Rightarrow> bool" where
  "call_wf Call_enumerateDisplays = True"
| "call_wf (Call_createTexture d) \<longleftrightarrow> texture_wf d"
| "call_wf (Call_destroyTexture t) \<longleftrightarrow> handle_valid (texture_handle t)"
| "call_wf (Call_uploadTexture t f) \<longleftrightarrow> handle_valid (texture_handle t) \<and> frame_wf f"
| "call_wf (Call_createMesh d) \<longleftrightarrow> mesh_wf d"
| "call_wf (Call_updateMesh m d) \<longleftrightarrow> handle_valid (mesh_handle m) \<and> mesh_wf d"
| "call_wf (Call_destroyMesh m) \<longleftrightarrow> handle_valid (mesh_handle m)"
| "call_wf (Call_createSurface d) \<longleftrightarrow> surface_wf d"
| "call_wf (Call_getSurfaceTexture s) \<longleftrightarrow> handle_valid (surface_handle s)"
| "call_wf (Call_getSurfaceState s) \<longleftrightarrow> handle_valid (surface_handle s)"
| "call_wf (Call_resizeSurface s e) \<longleftrightarrow> handle_valid (surface_handle s) \<and> 0 < ex_width e \<and> 0 < ex_height e"
| "call_wf (Call_setSurfaceWindowMode s q) \<longleftrightarrow> handle_valid (surface_handle s) \<and> window_mode_wf q"
| "call_wf (Call_pollSurfaceEvents s) \<longleftrightarrow> handle_valid (surface_handle s)"
| "call_wf (Call_destroySurface s) \<longleftrightarrow> handle_valid (surface_handle s)"
| "call_wf (Call_processSurfaceEvents s) \<longleftrightarrow> handle_valid (surface_handle s)"
| "call_wf (Call_presentSurface s) \<longleftrightarrow> handle_valid (surface_handle s)"
| "call_wf (Call_executeRenderPass d) \<longleftrightarrow> pass_wf d"
| "call_wf (Call_waitFence f timeout) \<longleftrightarrow> handle_valid (fence_handle f) \<and> unat timeout < 2 ^ 32 - 1"
| "call_wf (Call_readTexture t timeout) \<longleftrightarrow> handle_valid (texture_handle t) \<and> unat timeout < 2 ^ 32 - 1"

lemma error_none_iff [simp]:
  "handle_error name h = None \<longleftrightarrow> handle_valid h"
  "description_error e = None \<longleftrightarrow> re_ok e"
  "timeout_error message t = None \<longleftrightarrow> t \<noteq> - 1"
  "orelse a b = None \<longleftrightarrow> a = None \<and> b = None"
  by (simp_all add: handle_error_def description_error_def timeout_error_def orelse_def split: option.splits)

lemma re_ok_if [simp]: "re_ok (if c then a else b) \<longleftrightarrow> (if c then re_ok a else re_ok b)"
  by simp

lemma normalized_known: "normalized_float f = known_normalized f"
  by (simp add: normalized_float_def known_normalized_def split: option.splits)

lemma extent_nonempty: "extent_empty e \<longleftrightarrow> \<not> (0 < ex_width e \<and> 0 < ex_height e)"
  by (auto simp: extent_empty_def word_gt_0)

lemma usage_bits: "and u (not ALL_TEXTURE_USAGE_BITS) = 0 \<longleftrightarrow> unat (u :: u16) < 16"
proof -
  have all: "ALL_TEXTURE_USAGE_BITS = mask 4"
    by (simp add: ALL_TEXTURE_USAGE_BITS_def Usage_Sampled_def Usage_RenderTarget_def Usage_TransferSource_def
        Usage_TransferDestination_def mask_eq_exp_minus_1)
  have "and u (not (mask 4)) = 0 \<longleftrightarrow> take_bit 4 u = u"
    by (auto simp: bit_eq_iff bit_simps)
  also have "\<dots> \<longleftrightarrow> unat u < 2 ^ 4"
    by (simp only: word_unat_eq_iff unsigned_take_bit_eq take_bit_nat_eq_self_iff)
  finally show ?thesis by (simp only: all) simp
qed

lemma known_state: "isKnownTextureState s \<longleftrightarrow> (\<forall>b. s \<noteq> State_other b)"
  by (cases s) simp_all

lemma texture_contract: "re_ok (validateTextureDescription d) \<longleftrightarrow> texture_wf d"
  by (auto simp: validateTextureDescription_def texture_wf_def extent_nonempty usage_bits known_state word_gt_0
      unat_gt_0 split: if_splits)

lemma frame_contract: "re_ok (validateRendererFrame f) \<longleftrightarrow> frame_wf f"
  by (auto simp: frame_valid_iff frame_description_valid_iff frame_wf_def Let_def unat_gt_0)

lemma mesh_contents_ok:
  "re_ok (mesh_contents_error d) \<longleftrightarrow>
     (\<forall>v \<in> set (md_vertices d). vertex_finite v) \<and> (\<forall>i \<in> set (md_indices d). unat i < length (md_vertices d))"
  by (simp add: mesh_contents_error_def list_all_iff)

lemma mesh_contract: "re_ok (validateMeshDescription d) \<longleftrightarrow> mesh_wf d"
proof -
  have three: "3 \<le> length (md_indices d)" if "length (md_indices d) mod 3 = 0" "md_indices d \<noteq> []"
    using that by (metis length_0_conv mod_less not_le)
  have vertices: "md_vertices d \<noteq> []"
    if "\<forall>i \<in> set (md_indices d). unat i < length (md_vertices d)" "md_indices d \<noteq> []"
    using that by (cases "md_indices d") auto
  show ?thesis
  proof (cases "md_indices d = []")
    case True
    then show ?thesis by (simp add: validateMeshDescription_def mesh_wf_def)
  next
    case False
    then show ?thesis
      using three vertices
      by (auto simp: validateMeshDescription_def mesh_wf_def mesh_contents_ok dvd_eq_mod_eq_0 not_less
          split: ePrimitiveTopology.splits)
  qed
qed

lemma draw_contract: "handle_valid (texture_handle a) \<Longrightarrow> re_ok (draw_command_error a c) \<longleftrightarrow> draw_wf a c"
  by (auto simp: draw_command_error_def draw_wf_def normalized_known handle_valid_def handle_none_def
      isKnownSamplingFilter_def isKnownBlendMode_def isKnownEdgeBlendCurve_def split: if_splits)

lemma draws_contract:
  "handle_valid (texture_handle a) \<Longrightarrow> re_ok (draw_commands_error a cs) \<longleftrightarrow> (\<forall>c \<in> set cs. draw_wf a c)"
  by (induction cs) (auto simp: Let_def draw_contract)

lemma unat_minus_one_u32: "unat (- 1 :: u32) = 2 ^ 32 - 1"
  by (simp add: unsigned_minus_1_eq_mask mask_eq_exp_minus_1)

lemma room_u32: "\<not> - 1 - b < a \<longleftrightarrow> unat a + unat (b :: u32) < 2 ^ 32"
proof -
  have "b \<le> - 1" by simp
  then have "unat (- 1 - b) = 2 ^ 32 - 1 - unat b" by (simp only: unat_sub unat_minus_one_u32)
  moreover have "unat b < 2 ^ 32" using unat_lt_size [of b] by simp
  ultimately show ?thesis by (auto simp: word_less_nat_alt)
qed

lemma area_contract: "extent_empty (rg_extent a) \<or> \<not> area_overflows a \<longleftrightarrow> area_wf a"
  using room_u32 [of "ex_width (rg_extent a)" "rg_x a"] room_u32 [of "ex_height (rg_extent a)" "rg_y a"]
  by (auto simp: area_overflows_def area_wf_def extent_empty_def)

lemma pass_contract: "re_ok (validateRenderPassDescription d) \<longleftrightarrow> pass_wf d"
proof (cases "handle_valid (texture_handle (rp_color_attachment d))")
  case True
  show ?thesis
    using area_contract [of "rp_render_area d"]
    by (auto simp: validateRenderPassDescription_def pass_wf_def True draws_contract [OF True] isNormalizedColor_def
        normalized_known known_state split: if_splits)
next
  case False
  then show ?thesis by (simp add: validateRenderPassDescription_def pass_wf_def)
qed

lemma display_mode_contract:
  "re_ok (validateDisplayMode m) \<longleftrightarrow>
     0 < ex_width (dm_extent m) \<and> 0 < ex_height (dm_extent m) \<and> isKnownFormat (dm_format m)
     \<and> dm_refresh_rate_denominator m \<noteq> 0"
  by (auto simp: validateDisplayMode_def extent_nonempty)

lemma extent_eq_iff: "a = b \<longleftrightarrow> ex_width a = ex_width b \<and> ex_height a = ex_height (b :: sRendererExtent2D)"
  by (cases a, cases b) simp

lemma buffer_count: "c \<noteq> 0 \<longleftrightarrow> 1 \<le> (c :: u32)"
  by (simp add: word_le_nat_alt Suc_le_eq unat_gt_0)

lemma surface_contract: "re_ok (validateSurfaceDescription d) \<longleftrightarrow> surface_wf d"
  by (cases "sd_type d")
    (auto simp: validateSurfaceDescription_def surface_wf_def extent_nonempty not_less display_mode_contract
      extent_eq_iff word_gt_0 buffer_count [symmetric])

lemma window_mode_contract: "re_ok (validateSurfaceWindowModeRequest q) \<longleftrightarrow> window_mode_wf q"
  by (auto simp: validateSurfaceWindowModeRequest_def window_mode_wf_def display_mode_contract
      split: eSurfaceWindowMode.splits)

lemma finite_timeout: "t \<noteq> - 1 \<longleftrightarrow> unat (t :: u32) < 2 ^ 32 - 1"
proof -
  have "unat t < 2 ^ 32" using unat_lt_size [of t] by simp
  moreover have "t = - 1 \<longleftrightarrow> unat t = 2 ^ 32 - 1" by (simp only: word_unat_eq_iff unat_minus_one_u32)
  ultimately show ?thesis by auto
qed

lemmas contracts = texture_contract frame_contract mesh_contract surface_contract window_mode_contract pass_contract

text \<open>The arguments of a call have no error exactly when they keep the contract.\<close>

lemma argument_error_wf: "argument_error q = None \<longleftrightarrow> call_wf q"
  by (cases q) (auto simp: contracts extent_nonempty finite_timeout simp del: One_nat_def)


section \<open>Clients\<close>

text \<open>A backend that records its calls, with whether it was initialised when each came in.\<close>

type_synonym backend_log = "(renderer_call \<times> bool) list"

definition recorded ::
    "'b RendererBackend \<Rightarrow> renderer_call \<Rightarrow> ('b, 'a) backend_op \<Rightarrow> ('b \<times> backend_log, 'a) backend_op" where
  "recorded rb q f s = (let (a, b) = f (fst s) in (a, b, snd s @ [(q, rb_isInitialized rb (fst s))]))"

definition recording :: "'b RendererBackend \<Rightarrow> ('b \<times> backend_log) RendererBackend" where
  "recording rb = \<lparr>
     rb_initialize = (\<lambda>c s. let (a, b) = rb_initialize rb c (fst s) in (a, b, snd s)),
     rb_shutdown = (\<lambda>s. (rb_shutdown rb (fst s), snd s)),
     rb_isInitialized = (\<lambda>s. rb_isInitialized rb (fst s)),
     rb_getCapabilities = (\<lambda>s. rb_getCapabilities rb (fst s)),
     rb_enumerateDisplays = recorded rb Call_enumerateDisplays (rb_enumerateDisplays rb),
     rb_createTexture = (\<lambda>d. recorded rb (Call_createTexture d) (rb_createTexture rb d)),
     rb_destroyTexture = (\<lambda>t. recorded rb (Call_destroyTexture t) (rb_destroyTexture rb t)),
     rb_uploadTexture = (\<lambda>t f. recorded rb (Call_uploadTexture t f) (rb_uploadTexture rb t f)),
     rb_createMesh = (\<lambda>d. recorded rb (Call_createMesh d) (rb_createMesh rb d)),
     rb_updateMesh = (\<lambda>m d. recorded rb (Call_updateMesh m d) (rb_updateMesh rb m d)),
     rb_destroyMesh = (\<lambda>m. recorded rb (Call_destroyMesh m) (rb_destroyMesh rb m)),
     rb_createSurface = (\<lambda>d. recorded rb (Call_createSurface d) (rb_createSurface rb d)),
     rb_getSurfaceTexture = (\<lambda>s. recorded rb (Call_getSurfaceTexture s) (rb_getSurfaceTexture rb s)),
     rb_getSurfaceState = (\<lambda>s. recorded rb (Call_getSurfaceState s) (rb_getSurfaceState rb s)),
     rb_resizeSurface = (\<lambda>s e. recorded rb (Call_resizeSurface s e) (rb_resizeSurface rb s e)),
     rb_setSurfaceWindowMode = (\<lambda>s q. recorded rb (Call_setSurfaceWindowMode s q) (rb_setSurfaceWindowMode rb s q)),
     rb_pollSurfaceEvents = (\<lambda>s. recorded rb (Call_pollSurfaceEvents s) (rb_pollSurfaceEvents rb s)),
     rb_destroySurface = (\<lambda>s. recorded rb (Call_destroySurface s) (rb_destroySurface rb s)),
     rb_processSurfaceEvents = (\<lambda>s. recorded rb (Call_processSurfaceEvents s) (rb_processSurfaceEvents rb s)),
     rb_presentSurface = (\<lambda>s. recorded rb (Call_presentSurface s) (rb_presentSurface rb s)),
     rb_executeRenderPass = (\<lambda>d. recorded rb (Call_executeRenderPass d) (rb_executeRenderPass rb d)),
     rb_waitFence = (\<lambda>f timeout. recorded rb (Call_waitFence f timeout) (rb_waitFence rb f timeout)),
     rb_readTexture = (\<lambda>t timeout. recorded rb (Call_readTexture t timeout) (rb_readTexture rb t timeout))\<rparr>"

definition recording_factory :: "'b backend_factory \<Rightarrow> ('b \<times> backend_log) backend_factory" where
  "recording_factory factory c =
     (case factory c of
        Threw x \<Rightarrow> Threw x
      | Returned (b, e) \<Rightarrow> Returned (map_option (\<lambda>x. (x, [])) b, e))"

datatype client_op =
    Client_initialize sRendererConfiguration
  | Client_shutdown
  | Client_move_away
  | Client_request renderer_call

fun client_step :: "'b RendererBackend \<Rightarrow> 'b backend_factory \<Rightarrow> client_op \<Rightarrow> 'b Renderer \<Rightarrow> 'b Renderer" where
  "client_step rb factory (Client_initialize c) r = snd (renderer_initialize rb factory c r)"
| "client_step rb factory Client_shutdown r = snd (renderer_shutdown rb r)"
| "client_step rb factory Client_move_away r = snd (renderer_move r)"
| "client_step rb factory (Client_request q) r = snd (renderer_request rb q r)"

definition run_client :: "'b RendererBackend \<Rightarrow> 'b backend_factory \<Rightarrow> client_op list \<Rightarrow> 'b Renderer" where
  "run_client rb factory ops = fold (client_step rb factory) ops Renderer_new"

definition log_of :: "('b \<times> backend_log) Renderer \<Rightarrow> backend_log" where
  "log_of r = (case live_backend r of None \<Rightarrow> [] | Some s \<Rightarrow> snd s)"

definition log_ok :: "backend_log \<Rightarrow> bool" where
  "log_ok l \<longleftrightarrow> (\<forall>(q, live) \<in> set l. live \<and> call_wf q)"

text \<open>The same renderer over the backend alone.\<close>

definition forget_impl :: "('b \<times> backend_log) RendererImpl \<Rightarrow> 'b RendererImpl" where
  "forget_impl i = \<lparr>ri_backend = map_option fst (ri_backend i), ri_configuration = ri_configuration i\<rparr>"

definition forget :: "('b \<times> backend_log) Renderer \<Rightarrow> 'b Renderer" where
  "forget r = \<lparr>rn_impl = map_option forget_impl (rn_impl r)\<rparr>"

lemma recording_simps [simp]:
  "rb_isInitialized (recording rb) s = rb_isInitialized rb (fst s)"
  "rb_initialize (recording rb) c s = (let (a, b) = rb_initialize rb c (fst s) in (a, b, snd s))"
  by (simp_all add: recording_def)

lemma recorded_request:
  "backend_request (recording rb) q s
     = (let (a, b) = backend_request rb q (fst s) in (a, b, snd s @ [(q, rb_isInitialized rb (fst s))]))"
  by (cases q) (simp_all add: recording_def recorded_def observe_def split: prod.splits)

lemma forget_simps [simp]:
  "forget \<lparr>rn_impl = None\<rparr> = \<lparr>rn_impl = None\<rparr>"
  "forget \<lparr>rn_impl = Some i\<rparr> = \<lparr>rn_impl = Some (forget_impl i)\<rparr>"
  "forget Renderer_new = Renderer_new" "forget_impl RendererImpl_new = RendererImpl_new"
  "live_backend (forget r) = map_option fst (live_backend r)"
  by (auto simp: forget_def forget_impl_def Renderer_new_def RendererImpl_new_def live_backend_def split: option.splits)

lemma forget_put [simp]: "forget (put_backend s r) = put_backend (fst s) (forget r)"
  by (cases "rn_impl r") (simp_all add: forget_def forget_impl_def put_backend_def)

lemma log_simps [simp]:
  "log_ok []" "log_of Renderer_new = []" "log_of \<lparr>rn_impl = None\<rparr> = []"
  "log_of \<lparr>rn_impl = Some (i\<lparr>ri_backend := None\<rparr>)\<rparr> = []"
  "log_of \<lparr>rn_impl = Some (i\<lparr>ri_backend := Some s\<rparr>)\<rparr> = snd s"
  "log_of \<lparr>rn_impl = Some RendererImpl_new\<rparr> = []"
  by (simp_all add: log_ok_def log_of_def live_backend_def Renderer_new_def RendererImpl_new_def)

lemma request_recorded:
  "forget (snd (renderer_request (recording rb) q r)) = snd (renderer_request rb q (forget r))
   \<and> (log_ok (log_of r) \<longrightarrow> log_ok (log_of (snd (renderer_request (recording rb) q r))))"
proof (cases "live_backend r")
  case None
  then show ?thesis by (simp add: renderer_request_gate renderer_gate_def split: option.splits)
next
  case (Some s)
  then obtain i where i: "rn_impl r = Some i" "ri_backend i = Some s"
    by (auto simp: live_backend_def split: option.splits)
  have put: "log_of (put_backend t r) = snd t" for t
    by (simp add: put_backend_def i log_of_def live_backend_def)
  have old: "log_of r = snd s" using Some by (simp add: log_of_def)
  note gate = renderer_request_gate renderer_gate_def
  show ?thesis
  proof (cases "argument_error q = None \<and> rb_isInitialized rb (fst s)")
    case True
    then have wf: "call_wf q" by (simp add: argument_error_wf)
    have rec: "renderer_request (recording rb) q r
        = (fst (backend_request rb q (fst s)),
           put_backend (snd (backend_request rb q (fst s)), snd s @ [(q, True)]) r)"
      using True Some by (simp add: gate recorded_request case_prod_unfold Let_def)
    have plain: "renderer_request rb q (forget r)
        = (fst (backend_request rb q (fst s)), put_backend (snd (backend_request rb q (fst s))) (forget r))"
      using True Some by (simp add: gate case_prod_unfold Let_def)
    show ?thesis using wf by (simp add: rec plain put old log_ok_def ball_Un)
  next
    case False
    then have "snd (renderer_request (recording rb) q r) = r" "snd (renderer_request rb q (forget r)) = forget r"
      using Some by (auto simp: gate split: option.splits)
    then show ?thesis by simp
  qed
qed

lemma initialize_recorded:
  "forget (snd (renderer_initialize (recording rb) (recording_factory factory) c r))
     = snd (renderer_initialize rb factory c (forget r))
   \<and> (log_ok (log_of r)
      \<longrightarrow> log_ok (log_of (snd (renderer_initialize (recording rb) (recording_factory factory) c r))))"
proof -
  define i where "i = (case rn_impl r of None \<Rightarrow> RendererImpl_new | Some i \<Rightarrow> i)"
  have fi: "(case rn_impl (forget r) of None \<Rightarrow> RendererImpl_new | Some i \<Rightarrow> i) = forget_impl i"
    by (auto simp: i_def forget_def split: option.splits)
  have init: "renderer_isInitialized rb \<lparr>rn_impl = Some (forget_impl i)\<rparr>
      = renderer_isInitialized (recording rb) \<lparr>rn_impl = Some i\<rparr>"
    by (simp add: renderer_isInitialized_def forget_impl_def split: option.splits)
  have conf: "ri_configuration (forget_impl i) = ri_configuration i" by (simp add: forget_impl_def)
  have start: "fst (renderer_start (recording rb) (recording_factory factory) c i) = fst (renderer_start rb factory c (forget_impl i))
      \<and> forget_impl (snd (renderer_start (recording rb) (recording_factory factory) c i))
        = snd (renderer_start rb factory c (forget_impl i))"
    by (auto simp: renderer_start_def recording_factory_def forget_impl_def split: reply.splits prod.splits option.splits Result.splits)
  have logs: "log_ok (log_of \<lparr>rn_impl = Some i\<rparr>)
      \<Longrightarrow> log_ok (log_of \<lparr>rn_impl = Some (snd (renderer_start (recording rb) (recording_factory factory) c i))\<rparr>)"
    by (auto simp: renderer_start_def recording_factory_def log_of_def live_backend_def
        split: reply.splits prod.splits option.splits Result.splits)
  have old: "log_ok (log_of r) \<Longrightarrow> log_ok (log_of \<lparr>rn_impl = Some i\<rparr>)"
    by (auto simp: i_def log_of_def live_backend_def RendererImpl_new_def split: option.splits)
  show ?thesis
    unfolding renderer_initialize_def i_def [symmetric] fi Let_def init conf
    using start logs old by (auto split: prod.splits)
qed

lemma client_recorded:
  "forget (fold (client_step (recording rb) (recording_factory factory)) ops r)
     = fold (client_step rb factory) ops (forget r)
   \<and> (log_ok (log_of r) \<longrightarrow> log_ok (log_of (fold (client_step (recording rb) (recording_factory factory)) ops r)))"
proof (induction ops arbitrary: r)
  case (Cons p ops)
  have "forget (client_step (recording rb) (recording_factory factory) p r) = client_step rb factory p (forget r)
      \<and> (log_ok (log_of r) \<longrightarrow> log_ok (log_of (client_step (recording rb) (recording_factory factory) p r)))"
  proof (cases p)
    case Client_shutdown
    then show ?thesis
      by (cases r) (auto simp: renderer_shutdown_def forget_def forget_impl_def split: option.splits)
  qed (simp_all add: initialize_recorded request_recorded renderer_move_def)
  then show ?case using Cons.IH by simp
qed simp

text \<open>A backend that only remembers whether it is initialised, for the examples.\<close>

definition idle_backend :: "bool RendererBackend" where
  "idle_backend = \<lparr>
     rb_initialize = (\<lambda>c b. (Returned (Success ()), True)), rb_shutdown = (\<lambda>b. False), rb_isInitialized = (\<lambda>b. b),
     rb_getCapabilities = (\<lambda>b. \<lparr>rk_backend = Vulkan12, rk_adapter_name = ''idle'', rk_maximum_texture_extent = 1,
       rk_supports_offscreen = False, rk_supports_window = False, rk_supports_direct_display = False,
       rk_supports_mesh_rendering = False, rk_supports_display_enumeration = False, rk_supports_surface_resize = False,
       rk_supports_borderless_fullscreen = False, rk_supports_display_mode_fullscreen = False,
       rk_supports_interactive_resize = False, rk_supports_display_hotplug = False\<rparr>),
     rb_enumerateDisplays = (\<lambda>b. (Returned (Success []), b)),
     rb_createTexture = (\<lambda>d b. (Returned (Failure notInitializedError), b)),
     rb_destroyTexture = (\<lambda>t b. (Returned (Success ()), b)),
     rb_uploadTexture = (\<lambda>t f b. (Returned (Failure notInitializedError), b)),
     rb_createMesh = (\<lambda>d b. (Returned (Failure notInitializedError), b)),
     rb_updateMesh = (\<lambda>m d b. (Returned (Success ()), b)),
     rb_destroyMesh = (\<lambda>m b. (Returned (Success ()), b)),
     rb_createSurface = (\<lambda>d b. (Returned (Failure notInitializedError), b)),
     rb_getSurfaceTexture = (\<lambda>s b. (Returned (Failure notInitializedError), b)),
     rb_getSurfaceState = (\<lambda>s b. (Returned (Failure notInitializedError), b)),
     rb_resizeSurface = (\<lambda>s e b. (Returned (Success ()), b)),
     rb_setSurfaceWindowMode = (\<lambda>s q b. (Returned (Success ()), b)),
     rb_pollSurfaceEvents = (\<lambda>s b. (Returned (Failure notInitializedError), b)),
     rb_destroySurface = (\<lambda>s b. (Returned (Success ()), b)),
     rb_processSurfaceEvents = (\<lambda>s b. (Returned (Failure notInitializedError), b)),
     rb_presentSurface = (\<lambda>s b. (Returned (Failure notInitializedError), b)),
     rb_executeRenderPass = (\<lambda>d b. (Returned (Failure notInitializedError), b)),
     rb_waitFence = (\<lambda>f timeout b. (Returned (Success ()), b)),
     rb_readTexture = (\<lambda>t timeout b. (Returned (Failure notInitializedError), b))\<rparr>"

lemma isSameConfiguration_eq: "isSameConfiguration a b \<longleftrightarrow> a = b"
  by (cases a, cases b) (auto simp: isSameConfiguration_def)

lemma initialize_success:
  assumes "renderer_initialize rb factory c r = (Returned (Success u), r')"
  shows "isKnownBackend (rc_backend c)" and "\<not> (rc_use_software_adapter c \<and> rc_adapter_name c \<noteq> [])"
    and "\<exists>impl. rn_impl r' = Some impl \<and> ri_configuration impl = c
      \<and> (renderer_isInitialized rb r' \<or> (\<exists>b b'. rb_initialize rb c b = (Returned (Success ()), b') \<and> ri_backend impl = Some b'))"
  using assms
  by (auto simp: renderer_initialize_def renderer_start_def Let_def isSameConfiguration_eq
      split: if_splits prod.splits reply.splits option.splits Result.splits)

lemma initialize_failure:
  assumes "renderer_initialize rb factory c r = (Returned (Failure e), r')" and "\<not> renderer_isInitialized rb r"
  shows "\<not> renderer_isInitialized rb r'"
  using assms
  by (auto simp: renderer_initialize_def renderer_start_def Let_def renderer_isInitialized_def RendererImpl_new_def
      split: if_splits prod.splits reply.splits option.splits Result.splits)

section \<open>Properties\<close>

text \<open>Every validation error is one of the arguments.\<close>

lemma none_category: "re_category RendererError_none = RenCat_None"
  by (simp add: RendererError_none_def)

lemma invalid_category:
  "re_category (validateRendererFrame f) = (if re_ok (validateRendererFrame f) then RenCat_None else RenCat_Validation)"
  "re_category (validateTextureDescription td) = (if re_ok (validateTextureDescription td) then RenCat_None else RenCat_Validation)"
  "re_category (validateMeshDescription md) = (if re_ok (validateMeshDescription md) then RenCat_None else RenCat_Validation)"
  "re_category (validateSurfaceDescription sd) = (if re_ok (validateSurfaceDescription sd) then RenCat_None else RenCat_Validation)"
  by (simp_all add: validateRendererFrame_def validateRendererFrameDescription_def Let_def validateTextureDescription_def
      validateMeshDescription_def mesh_contents_error_def validateSurfaceDescription_def none_category
      split: ePrimitiveTopology.splits eSurfaceType.splits)

lemma window_mode_category:
  "re_category (validateSurfaceWindowModeRequest q) = (if re_ok (validateSurfaceWindowModeRequest q) then RenCat_None else RenCat_Validation)"
  by (simp add: validateSurfaceWindowModeRequest_def validateDisplayMode_def none_category
      split: eSurfaceWindowMode.splits)

lemma draws_category:
  "re_category (draw_commands_error a cs) = (if re_ok (draw_commands_error a cs) then RenCat_None else RenCat_Validation)"
  by (induction cs) (simp_all add: draw_command_error_def none_category Let_def)

lemma pass_category:
  "re_category (validateRenderPassDescription d) = (if re_ok (validateRenderPassDescription d) then RenCat_None else RenCat_Validation)"
  by (simp add: validateRenderPassDescription_def draws_category)

lemma argument_error_category: "argument_error q = Some e \<Longrightarrow> re_category e = RenCat_Validation"
  by (cases q)
    (auto simp: handle_error_def description_error_def timeout_error_def orelse_def invalid_category window_mode_category
      pass_category invalidHandleError_def invalidExtentError_def split: if_splits option.splits)

text \<open>C28. The operations of the renderer pass the backend exactly the calls that keep its contract.  A
  call whose arguments break the contract answers a validation error, the first error of its arguments in
  the order handle, description; one that keeps it answers that the renderer is not initialised, while it
  has no backend or one that is not initialised.  In both cases the renderer does not change and nothing is
  asked of the backend.  Every other call asks the backend once, for the same operation with the same arguments, and
  the backend's answer, with the handle, list, state or frame it carries, or its exception, is the
  answer; the renderer keeps the backend as that call left it.\<close>

theorem renderer_operations_gated:
  "renderer_request rb q r =
     (if \<not> call_wf q then (Returned (Failure (the (argument_error q))), r)
      else case live_backend r of
             None \<Rightarrow> (Returned (Failure notInitializedError), r)
           | Some b \<Rightarrow>
               if rb_isInitialized rb b
               then (fst (backend_request rb q b), put_backend (snd (backend_request rb q b)) r)
               else (Returned (Failure notInitializedError), r))
   \<and> (call_wf q \<or> re_category (the (argument_error q)) = RenCat_Validation)"
  using argument_error_wf [of q] argument_error_category [of q]
  by (auto simp: renderer_request_gate renderer_gate_def case_prod_unfold Let_def split: option.splits)

text \<open>C27. Whatever a client does with a renderer, in any order and over any backend and factory, failing,
  throwing or losing its device, the backend is only ever asked while it is initialised and only with
  well-formed arguments: valid handles, data of exactly the size its description says, indices inside the
  vertex array, attachments that are not sampled by their own pass, areas inside the coordinate range,
  finite time limits.  Recording the calls does not change what happens.\<close>

theorem renderer_backend_contract:
  "log_ok (log_of (run_client (recording rb) (recording_factory factory) ops))
   \<and> forget (run_client (recording rb) (recording_factory factory) ops) = run_client rb factory ops"
  using client_recorded [of rb factory ops Renderer_new] by (simp add: run_client_def)

text \<open>The life cycle of a renderer, over a backend that is initialised once it says so.  After a successful
  initialisation it is initialised; the same configuration again succeeds and changes nothing; any other
  acceptable one is refused as already initialised and changes nothing; after a shutdown it is not
  initialised and every call with good arguments answers so.  A naming of an adapter together with the
  software adapter never succeeds, and an initialisation that fails does not leave it initialised.\<close>

theorem renderer_lifecycle:
  assumes backend: "\<And>c b b'. rb_initialize rb c b = (Returned (Success ()), b') \<Longrightarrow> rb_isInitialized rb b'"
    and init: "renderer_initialize rb factory c r = (Returned success_status, r')"
  shows "renderer_isInitialized rb r' \<and> \<not> (rc_use_software_adapter c \<and> rc_adapter_name c \<noteq> [])
    \<and> renderer_initialize rb factory c r' = (Returned success_status, r')
    \<and> (\<forall>c'. c' \<noteq> c \<longrightarrow> isKnownBackend (rc_backend c') \<longrightarrow> \<not> (rc_use_software_adapter c' \<and> rc_adapter_name c' \<noteq> [])
        \<longrightarrow> renderer_initialize rb factory c' r' = (Returned (Failure (RendererError_make RenCat_Lifecycle
              Ren_AlreadyInitialized ''Renderer is already initialized with a different configuration.'')), r'))
    \<and> (\<forall>q. argument_error q = None
        \<longrightarrow> renderer_request rb q (snd (renderer_shutdown rb r'))
          = (Returned (Failure notInitializedError), snd (renderer_shutdown rb r')))
    \<and> (\<forall>c' e s s'. \<not> renderer_isInitialized rb s \<longrightarrow> renderer_initialize rb factory c' s = (Returned (Failure e), s')
        \<longrightarrow> \<not> renderer_isInitialized rb s')"
proof -
  from initialize_success [OF init] obtain impl where impl: "rn_impl r' = Some impl" "ri_configuration impl = c"
    and ok: "isKnownBackend (rc_backend c)" "\<not> (rc_use_software_adapter c \<and> rc_adapter_name c \<noteq> [])"
    and live: "renderer_isInitialized rb r'
      \<or> (\<exists>b b'. rb_initialize rb c b = (Returned (Success ()), b') \<and> ri_backend impl = Some b')"
    by blast
  have on: "renderer_isInitialized rb r'"
    using live backend impl(1) by (auto simp: renderer_isInitialized_def)
  have r': "r' = \<lparr>rn_impl = Some impl\<rparr>" using impl(1) by (cases r') simp
  have again: "renderer_initialize rb factory c' r' =
      (if c' = c then (Returned success_status, r')
       else (Returned (Failure (RendererError_make RenCat_Lifecycle Ren_AlreadyInitialized
              ''Renderer is already initialized with a different configuration.'')), r'))"
    if "isKnownBackend (rc_backend c')" "\<not> (rc_use_software_adapter c' \<and> rc_adapter_name c' \<noteq> [])" for c'
    using that on impl(2) unfolding r' by (auto simp: renderer_initialize_def isSameConfiguration_eq Let_def)
  have "live_backend (snd (renderer_shutdown rb r')) = None"
    unfolding r' by (auto simp: renderer_shutdown_def live_backend_def split: option.splits)
  then have off: "renderer_request rb q (snd (renderer_shutdown rb r'))
      = (Returned (Failure notInitializedError), snd (renderer_shutdown rb r'))" if "argument_error q = None" for q
    using that by (simp add: renderer_request_gate renderer_gate_def)
  have failing: "\<forall>c' e s s'. \<not> renderer_isInitialized rb s \<longrightarrow> renderer_initialize rb factory c' s = (Returned (Failure e), s')
      \<longrightarrow> \<not> renderer_isInitialized rb s'"
    using initialize_failure by blast
  show ?thesis using on ok again off failing by (intro conjI) auto
qed

theorem renderer_lifecycle_witness:
  "renderer_initialize idle_backend (\<lambda>c. Returned (Some False, RendererError_none)) default_configuration Renderer_new
     = (Returned success_status, \<lparr>rn_impl = Some \<lparr>ri_backend = Some True, ri_configuration = default_configuration\<rparr>\<rparr>)
   \<and> renderer_isInitialized idle_backend \<lparr>rn_impl = Some \<lparr>ri_backend = Some True, ri_configuration = default_configuration\<rparr>\<rparr>"
proof -
  let ?f = "\<lambda>c. Returned (Some False, RendererError_none)"
  let ?r = "\<lparr>rn_impl = Some \<lparr>ri_backend = Some True, ri_configuration = default_configuration\<rparr>\<rparr>"
  have init: "renderer_initialize idle_backend ?f default_configuration Renderer_new = (Returned success_status, ?r)"
    by (simp add: renderer_initialize_def renderer_start_def idle_backend_def Renderer_new_def RendererImpl_new_def
        default_configuration_def isKnownBackend_def renderer_isInitialized_def)
  moreover have "renderer_isInitialized idle_backend ?r"
    using renderer_lifecycle [OF _ init] by (simp add: idle_backend_def)
  ultimately show ?thesis by blast
qed

end
