(* ===== verification/ProjectionCorrect.thy ===== *)
theory ProjectionCorrect
  imports Projection RendererCorrect
begin

text \<open>
  Correctness of projection passes: the temporaries are destroyed once on every way out, a success has
  rendered both passes, the passes built from a valid description are valid, and identities of renderers
  are never reused.
\<close>

section \<open>A ledger of what the backend did\<close>

datatype projection_event =
    Made_texture sTextureHandle
  | Made_mesh sMeshHandle
  | Ran_pass sRenderPassDescription "sFenceHandle RendererResult reply"
  | Freed_mesh sMeshHandle
  | Freed_texture sTextureHandle

text \<open>A creation is noted when it succeeds, a destruction when it is asked for.\<close>

fun made :: "('h \<Rightarrow> projection_event) \<Rightarrow> 'h RendererResult reply \<Rightarrow> projection_event list" where
  "made event (Returned (Success h)) = [event h]"
| "made event r = []"

definition ledger :: "'s ProjectionBackend \<Rightarrow> ('s \<times> projection_event list) ProjectionBackend" where
  "ledger pb = \<lparr>
     pb_createTexture = (\<lambda>d (s, l). let (r, s') = pb_createTexture pb d s in (r, s', l @ made Made_texture r)),
     pb_createMesh = (\<lambda>d (s, l). let (r, s') = pb_createMesh pb d s in (r, s', l @ made Made_mesh r)),
     pb_executeRenderPass = (\<lambda>d (s, l). let (r, s') = pb_executeRenderPass pb d s in (r, s', l @ [Ran_pass d r])),
     pb_destroyMesh = (\<lambda>h (s, l). let (r, s') = pb_destroyMesh pb h s in (r, s', l @ [Freed_mesh h])),
     pb_destroyTexture = (\<lambda>h (s, l). let (r, s') = pb_destroyTexture pb h s in (r, s', l @ [Freed_texture h]))\<rparr>"

lemma ledger_simps [simp]:
  "pb_createTexture (ledger pb) d (s, l) = (let (r, s') = pb_createTexture pb d s in (r, s', l @ made Made_texture r))"
  "pb_createMesh (ledger pb) m (s, l) = (let (r, s') = pb_createMesh pb m s in (r, s', l @ made Made_mesh r))"
  "pb_executeRenderPass (ledger pb) p (s, l) = (let (r, s') = pb_executeRenderPass pb p s in (r, s', l @ [Ran_pass p r]))"
  "pb_destroyMesh (ledger pb) h (s, l) = (let (r, s') = pb_destroyMesh pb h s in (r, s', l @ [Freed_mesh h]))"
  "pb_destroyTexture (ledger pb) t (s, l) = (let (r, s') = pb_destroyTexture pb t s in (r, s', l @ [Freed_texture t]))"
  by (simp_all add: ledger_def)

definition frees :: "ProjectionTemporaries \<Rightarrow> projection_event list" where
  "frees owned =
     (if handle_valid (mesh_handle (pt_mesh owned)) then [Freed_mesh (pt_mesh owned)] else [])
     @ (if handle_valid (texture_handle (pt_texture owned)) then [Freed_texture (pt_texture owned)] else [])"

lemma handle_none_invalid [simp]: "\<not> handle_valid handle_none"
  by (simp add: handle_valid_def handle_none_def)

lemma temporaries_pair [simp]: "temporaries_none\<lparr>pt_texture := t, pt_mesh := m\<rparr> = \<lparr>pt_mesh = m, pt_texture = t\<rparr>"
  by (simp add: temporaries_none_def)

lemma frees_none [simp]: "frees temporaries_none = []"
  by (simp add: frees_def temporaries_none_def)

lemma release_ledger:
  "\<exists>r s'. temporaries_release (ledger pb) owned (s, l) = (r, temporaries_none, s', l @ frees owned)"
  by (auto simp: temporaries_release_def frees_def Let_def caught_def split: prod.splits reply.splits)

lemma discard_ledger: "\<exists>s'. temporaries_discard (ledger pb) owned (s, l) = (s', l @ frees owned)"
  using release_ledger [of pb owned s l] by (auto simp: temporaries_discard_def)

lemma discard_none [simp]: "temporaries_discard pb temporaries_none s = s"
  by (simp add: temporaries_discard_def temporaries_release_def temporaries_none_def)

text \<open>The passes and everything after them, the destructor included.\<close>

definition discarded :: "'s ProjectionBackend \<Rightarrow> 'a \<times> ProjectionTemporaries \<times> 's \<Rightarrow> 'a \<times> 's" where
  "discarded pb p = (fst p, temporaries_discard pb (fst (snd p)) (snd (snd p)))"

text \<open>What a run of the passes may note: the first only, or both; a success has run both, and its fence is the
  second one's.\<close>

definition passes_noted ::
    "sProjectionPassDescription \<Rightarrow> sTextureHandle \<Rightarrow> sMeshHandle \<Rightarrow> sFenceHandle RendererResult reply
      \<Rightarrow> projection_event list \<Rightarrow> bool" where
  "passes_noted d t m r l \<longleftrightarrow>
     (\<exists>r1. l = [Ran_pass (supersample_pass d t) r1] \<and> r = r1 \<and> (\<forall>f. r \<noteq> Returned (Success f)))
     \<or> (\<exists>f1 r2. l = [Ran_pass (supersample_pass d t) (Returned (Success f1)), Ran_pass (downsample_pass d m t) r2]
          \<and> (\<forall>f. r = Returned (Success f) \<longrightarrow> r2 = Returned (Success f)))"

lemma passes_ledger:
  "\<exists>r s' e. discarded (ledger pb) (projection_passes (ledger pb) d owned (s, l)) = (r, s', l @ e @ frees owned)
     \<and> passes_noted d (pt_texture owned) (pt_mesh owned) r e"
proof -
  let ?p1 = "supersample_pass d (pt_texture owned)" and ?p2 = "downsample_pass d (pt_mesh owned) (pt_texture owned)"
  obtain r1 s1 where one: "pb_executeRenderPass pb ?p1 s = (r1, s1)" by fastforce
  show ?thesis
  proof (cases "\<exists>f1. r1 = Returned (Success f1)")
    case False
    then have "projection_passes (ledger pb) d owned (s, l) = (r1, owned, s1, l @ [Ran_pass ?p1 r1])"
      by (cases r1) (auto simp: projection_passes_def one split: Result.splits)
    moreover obtain s' where "temporaries_discard (ledger pb) owned (s1, l @ [Ran_pass ?p1 r1])
        = (s', (l @ [Ran_pass ?p1 r1]) @ frees owned)"
      using discard_ledger [of pb owned s1 "l @ [Ran_pass ?p1 r1]"] by blast
    ultimately show ?thesis
      using False by (intro exI [of _ r1] exI [of _ s'] exI [of _ "[Ran_pass ?p1 r1]"]) (simp add: discarded_def passes_noted_def)
  next
    case True
    then obtain f1 where r1: "r1 = Returned (Success f1)" by blast
    obtain r2 s2 where two: "pb_executeRenderPass pb ?p2 s1 = (r2, s2)" by fastforce
    define e where "e = [Ran_pass ?p1 (Returned (Success f1)), Ran_pass ?p2 r2]"
    show ?thesis
    proof (cases "\<exists>f2. r2 = Returned (Success f2)")
      case False
      then have "projection_passes (ledger pb) d owned (s, l) = (r2, owned, s2, l @ e)"
        by (cases r2) (auto simp: projection_passes_def one r1 two e_def split: Result.splits)
      moreover obtain s' where "temporaries_discard (ledger pb) owned (s2, l @ e) = (s', (l @ e) @ frees owned)"
        using discard_ledger [of pb owned s2 "l @ e"] by blast
      ultimately show ?thesis
        by (intro exI [of _ r2] exI [of _ s'] exI [of _ e]) (auto simp: discarded_def passes_noted_def e_def)
    next
      case True
      then obtain f2 where r2: "r2 = Returned (Success f2)" by blast
      obtain q s' where rel: "temporaries_release (ledger pb) owned (s2, l @ e) = (q, temporaries_none, s', (l @ e) @ frees owned)"
        using release_ledger [of pb owned s2 "l @ e"] by blast
      define r where "r = (case q of Threw x \<Rightarrow> Threw x | Returned (Failure x) \<Rightarrow> Returned (Failure x)
        | Returned (Success u) \<Rightarrow> Returned (Success f2))"
      have "projection_passes (ledger pb) d owned (s, l) = (r, temporaries_none, s', (l @ e) @ frees owned)"
        using rel by (auto simp: projection_passes_def one r1 two r2 e_def r_def split: reply.splits Result.splits)
      moreover have "passes_noted d (pt_texture owned) (pt_mesh owned) r e"
        by (auto simp: passes_noted_def e_def r2 r_def split: reply.splits Result.splits)
      ultimately show ?thesis
        by (intro exI [of _ r] exI [of _ s'] exI [of _ e]) (simp add: discarded_def)
    qed
  qed
qed

text \<open>Everything a supersampled projection may note.\<close>

definition supersampled_noted ::
    "sProjectionPassDescription \<Rightarrow> sFenceHandle RendererResult reply \<Rightarrow> projection_event list \<Rightarrow> bool" where
  "supersampled_noted d r l \<longleftrightarrow>
     l = [] \<and> (\<forall>f. r \<noteq> Returned (Success f))
     \<or> (\<exists>t. l = Made_texture t # frees (temporaries_none\<lparr>pt_texture := t\<rparr>) \<and> (\<forall>f. r \<noteq> Returned (Success f)))
     \<or> (\<exists>t m e. l = Made_texture t # Made_mesh m # e @ frees \<lparr>pt_mesh = m, pt_texture = t\<rparr> \<and> passes_noted d t m r e)"

lemma supersampled_ledger:
  "\<exists>r s' l. discarded (ledger pb) (projection_supersampled (ledger pb) d (s, [])) = (r, s', l) \<and> supersampled_noted d r l"
proof -
  obtain rt s1 where tex: "pb_createTexture pb (supersample_texture (supersample_extent d)) s = (rt, s1)" by fastforce
  show ?thesis
  proof (cases "\<exists>t. rt = Returned (Success t)")
    case False
    then have "\<exists>r. projection_supersampled (ledger pb) d (s, []) = (r, temporaries_none, s1, []) \<and> (\<forall>f. r \<noteq> Returned (Success f))"
      by (cases rt) (auto simp: projection_supersampled_def tex split: Result.splits)
    then show ?thesis by (auto simp: discarded_def supersampled_noted_def)
  next
    case True
    then obtain t where rt: "rt = Returned (Success t)" by blast
    let ?o = "temporaries_none\<lparr>pt_texture := t\<rparr>"
    obtain rm s2 where mesh: "pb_createMesh pb makeDownsampleMesh s1 = (rm, s2)" by fastforce
    show ?thesis
    proof (cases "\<exists>m. rm = Returned (Success m)")
      case False
      then have "\<exists>r. projection_supersampled (ledger pb) d (s, []) = (r, ?o, s2, [Made_texture t]) \<and> (\<forall>f. r \<noteq> Returned (Success f))"
        by (cases rm) (auto simp: projection_supersampled_def tex rt mesh Let_def split: Result.splits)
      moreover obtain s' where "temporaries_discard (ledger pb) ?o (s2, [Made_texture t]) = (s', [Made_texture t] @ frees ?o)"
        using discard_ledger [of pb ?o s2 "[Made_texture t]"] by blast
      ultimately show ?thesis by (auto simp: discarded_def supersampled_noted_def)
    next
      case True
      then obtain m where rm: "rm = Returned (Success m)" by blast
      let ?p = "\<lparr>pt_mesh = m, pt_texture = t\<rparr>"
      have "projection_supersampled (ledger pb) d (s, [])
          = projection_passes (ledger pb) d ?p (s2, [Made_texture t, Made_mesh m])"
        by (simp add: projection_supersampled_def tex rt mesh rm Let_def)
      then show ?thesis
        using passes_ledger [of pb d ?p s2 "[Made_texture t, Made_mesh m]"] by (auto simp: supersampled_noted_def)
    qed
  qed
qed

text \<open>Each handle that was made and is one is freed once, nothing else is, and only after all passes.\<close>

definition is_free :: "projection_event \<Rightarrow> bool" where
  "is_free e \<longleftrightarrow> (\<exists>h. e = Freed_mesh h) \<or> (\<exists>t. e = Freed_texture t)"

definition freed_once :: "projection_event list \<Rightarrow> bool" where
  "freed_once l \<longleftrightarrow>
     (\<forall>t. count_list l (Freed_texture t) = (if handle_valid (texture_handle t) then count_list l (Made_texture t) else 0))
     \<and> (\<forall>m. count_list l (Freed_mesh m) = (if handle_valid (mesh_handle m) then count_list l (Made_mesh m) else 0))
     \<and> (\<exists>l1 l2. l = l1 @ l2 \<and> list_all (\<lambda>e. \<not> is_free e) l1 \<and> list_all is_free l2)"

lemma is_free_simps [simp]:
  "is_free (Freed_mesh m)" "is_free (Freed_texture t)" "\<not> is_free (Made_mesh m)" "\<not> is_free (Made_texture t)"
  "\<not> is_free (Ran_pass p r)"
  by (simp_all add: is_free_def)

lemma frees_all_free: "list_all is_free (frees owned)"
  by (simp add: frees_def)

lemma freed_once_frees:
  assumes "list_all (\<lambda>e. \<not> is_free e) l"
    and "\<And>t. handle_valid (texture_handle t) \<Longrightarrow> count_list l (Made_texture t) = (if t = pt_texture owned then 1 else 0)"
    and "\<And>m. handle_valid (mesh_handle m) \<Longrightarrow> count_list l (Made_mesh m) = (if m = pt_mesh owned then 1 else 0)"
  shows "freed_once (l @ frees owned)"
proof -
  have none: "count_list l (Freed_texture t) = 0" "count_list l (Freed_mesh m) = 0" for t m
    using assms(1) by (auto simp: count_list_0_iff list_all_iff is_free_def)
  have f: "count_list (frees owned) (Made_texture t) = 0" "count_list (frees owned) (Made_mesh m) = 0" for t m
    by (simp_all add: frees_def)
  have "\<exists>l1 l2. l @ frees owned = l1 @ l2 \<and> list_all (\<lambda>e. \<not> is_free e) l1 \<and> list_all is_free l2"
    using assms(1) frees_all_free by blast
  then show ?thesis
    using assms(2, 3) by (auto simp: freed_once_def none f) (auto simp: frees_def)
qed

lemma noted_freed_once: "supersampled_noted d r l \<Longrightarrow> freed_once l"
proof -
  assume "supersampled_noted d r l"
  then consider "l = []" | t where "l = [Made_texture t] @ frees (temporaries_none\<lparr>pt_texture := t\<rparr>)"
    | t m e where "l = (Made_texture t # Made_mesh m # e) @ frees \<lparr>pt_mesh = m, pt_texture = t\<rparr>" "passes_noted d t m r e"
    by (auto simp: supersampled_noted_def)
  then show ?thesis
  proof cases
    case 1
    have "([] :: projection_event list) = [] @ []" by simp
    then show ?thesis using 1 by (simp add: freed_once_def)
  next
    case 2
    then show ?thesis
      by (simp only:) (rule freed_once_frees, auto simp: temporaries_none_def)
  next
    case (3 t m e)
    have e: "list_all (\<lambda>x. \<not> is_free x) e" "count_list e (Made_texture t') = 0" "count_list e (Made_mesh m') = 0" for t' m'
      using 3(2) by (auto simp: passes_noted_def)
    show ?thesis
      unfolding 3(1) by (rule freed_once_frees) (auto simp: e)
  qed
qed

section \<open>The passes of a valid description\<close>

lemma draws_ok_iff:
  "re_ok (draw_commands_error a cs) \<longleftrightarrow> (\<forall>c \<in> set cs. re_ok (draw_command_error a c))"
  by (induction cs) (auto simp: Let_def)

lemma pass_ok_iff:
  "re_ok (validateRenderPassDescription d) \<longleftrightarrow>
     handle_valid (texture_handle (rp_color_attachment d)) \<and> rp_load_operation d \<in> {Load_Load, Load_Clear, Load_Discard}
     \<and> rp_store_operation d \<in> {Store_Store, Store_Discard}
     \<and> (rp_load_operation d = Load_Clear \<longrightarrow> isNormalizedColor (rp_clear_color d))
     \<and> isKnownTextureState (rp_final_state d) \<and> rp_final_state d \<noteq> State_Undefined
     \<and> (extent_empty (rg_extent (rp_render_area d)) \<or> \<not> area_overflows (rp_render_area d))
     \<and> (\<forall>c \<in> set (rp_draw_commands d). re_ok (draw_command_error (rp_color_attachment d) c))"
  by (auto simp: validateRenderPassDescription_def draws_ok_iff)

lemma draw_ok_other_target:
  assumes "re_ok (draw_command_error a c)" and "dc_source_texture c \<noteq> b" and "dc_alpha_texture c \<noteq> b"
  shows "re_ok (draw_command_error b c)"
  using assms by (auto simp: draw_command_error_def split: if_splits)

lemma double_small: "\<not> (- 1 :: u32) div 2 < w \<Longrightarrow> w \<noteq> 0 \<Longrightarrow> unat (w * 2) = 2 * unat w \<and> w * 2 \<noteq> 0"
proof -
  assume a: "\<not> (- 1 :: u32) div 2 < w" "w \<noteq> 0"
  have "unat ((- 1 :: u32) div 2) = 2147483647" by (simp add: unat_div unat_minus_one_u32)
  then have "unat w \<le> 2147483647" using a(1) by (simp add: word_less_nat_alt not_less)
  then have d: "unat (w * 2) = unat w * 2" using unat_mult_bounded [of w 2] by simp
  have "unat w \<noteq> 0" using a(2) by (simp add: unat_eq_0)
  then show ?thesis using d by (metis mult.commute mult_eq_0_iff unat_0 zero_neq_numeral)
qed

lemma projection_passes_ok:
  assumes valid: "re_ok (validateProjectionPassDescription d)" and scale: "pp_supersample_scale d = 2"
    and t: "handle_valid (texture_handle t)" "t \<noteq> pp_color_attachment d"
    and fresh: "\<And>layer. layer \<in> set (pp_layers d) \<Longrightarrow> pl_source_texture layer \<noteq> t \<and> pl_alpha_texture layer \<noteq> t"
    and m: "handle_valid (mesh_handle m)"
  shows "re_ok (validateTextureDescription (supersample_texture (supersample_extent d)))"
    and "re_ok (validateMeshDescription makeDownsampleMesh)"
    and "re_ok (validateRenderPassDescription (supersample_pass d t))"
    and "re_ok (validateRenderPassDescription (downsample_pass d m t))"
    and "unat (ex_width (supersample_extent d)) = 2 * unat (ex_width (rg_extent (pp_render_area d)))"
    and "unat (ex_height (supersample_extent d)) = 2 * unat (ex_height (rg_extent (pp_render_area d)))"
proof -
  let ?e = "rg_extent (pp_render_area d)"
  have v: "\<not> extent_empty ?e" "\<not> (- 1 :: u32) div 2 < ex_width ?e" "\<not> (- 1 :: u32) div 2 < ex_height ?e"
    and pass: "re_ok (validateRenderPassDescription
      (makeProjectionRenderPass d (pp_color_attachment d) (pp_render_area d) (pp_final_state d)))"
    using valid scale by (auto simp: validateProjectionPassDescription_def Let_def split: if_splits)
  note w = double_small [OF v(2)] and h = double_small [OF v(3)]
  have nz: "ex_width ?e \<noteq> 0" "ex_height ?e \<noteq> 0" using v(1) by (auto simp: extent_empty_def)
  show "unat (ex_width (supersample_extent d)) = 2 * unat (ex_width ?e)"
    "unat (ex_height (supersample_extent d)) = 2 * unat (ex_height ?e)"
    using w [OF nz(1)] h [OF nz(2)] by (simp_all add: supersample_extent_def)
  have ne: "\<not> extent_empty (supersample_extent d)"
    using w [OF nz(1)] h [OF nz(2)] by (simp add: supersample_extent_def extent_empty_def)
  show "re_ok (validateTextureDescription (supersample_texture (supersample_extent d)))"
    using ne by (simp add: validateTextureDescription_def supersample_texture_def hasTextureUsage_def
        ALL_TEXTURE_USAGE_BITS_def Usage_Sampled_def Usage_RenderTarget_def Usage_TransferSource_def Usage_TransferDestination_def)
  show "re_ok (validateMeshDescription makeDownsampleMesh)"
    by (simp add: validateMeshDescription_def makeDownsampleMesh_def mesh_contents_error_def vertex_finite_def)
  have p: "isNormalizedColor (pp_clear_color d)" "isKnownTextureState (pp_final_state d)" "pp_final_state d \<noteq> State_Undefined"
    "extent_empty ?e \<or> \<not> area_overflows (pp_render_area d)" "handle_valid (texture_handle (pp_color_attachment d))"
    "\<And>layer. layer \<in> set (pp_layers d) \<Longrightarrow> re_ok (draw_command_error (pp_color_attachment d) (projection_draw layer))"
    using pass unfolding pass_ok_iff by (auto simp: makeProjectionRenderPass_def)
  have "\<not> area_overflows \<lparr>rg_x = 0, rg_y = 0, rg_extent = supersample_extent d\<rparr>"
    by (simp add: area_overflows_def)
  moreover have "re_ok (draw_command_error t (projection_draw layer))" if "layer \<in> set (pp_layers d)" for layer
    by (rule draw_ok_other_target [OF p(6) [OF that]]) (simp_all add: projection_draw_def fresh [OF that])
  ultimately show "re_ok (validateRenderPassDescription (supersample_pass d t))"
    using t(1) p(1) unfolding pass_ok_iff by (auto simp: supersample_pass_def makeProjectionRenderPass_def)
  have "re_ok (draw_command_error (pp_color_attachment d)
      \<lparr>dc_mesh = m, dc_source_texture = t, dc_alpha_texture = Texture_handle handle_none, dc_sampling_filter = Filter_Linear,
       dc_blend_mode = Blend_Replace, dc_opacity = Some 1,
       dc_edge_blend = \<lparr>eb_left = Some 0, eb_right = Some 0, eb_top = Some 0, eb_bottom = Some 0, eb_curve = Curve_Linear\<rparr>\<rparr>)"
    using m t by (simp add: draw_command_error_def isKnownSamplingFilter_def isKnownBlendMode_def isKnownEdgeBlendCurve_def
        normalized_float_def)
  then show "re_ok (validateRenderPassDescription (downsample_pass d m t))"
    using p unfolding pass_ok_iff by (auto simp: downsample_pass_def)
qed

section \<open>Identities\<close>

text \<open>What consecutive calls of \<open>reserve\<close> return, on however many threads.\<close>

primrec generations :: "nat \<Rightarrow> u32 \<Rightarrow> u32 list" where
  "generations 0 last_issued = []"
| "generations (Suc n) last_issued =
     fst (generation_reserve last_issued) # generations n (snd (generation_reserve last_issued))"

lemma generations_exhausted: "generations n (- 1) = replicate n 0"
  by (induction n) (simp_all add: generation_reserve_def)

lemma generations_increase:
  "sorted_wrt (<) (last_issued # filter (\<lambda>g. g \<noteq> 0) (generations n last_issued))
   \<and> length (filter (\<lambda>g. g \<noteq> 0) (generations n last_issued)) = min n (2 ^ 32 - 1 - unat last_issued)"
proof (induction n arbitrary: last_issued)
  case (Suc n)
  show ?case
  proof (cases "last_issued = - 1")
    case True
    then show ?thesis by (simp add: generations_exhausted unat_minus_one_u32 del: generations.simps unsigned_minus_1_eq_mask)
  next
    case False
    have small: "unat last_issued < 2 ^ 32 - 1" using False finite_timeout [of last_issued] by blast
    then have up: "unat (last_issued + 1) = unat last_issued + 1" using unat_add_bounded [of last_issued 1] by simp
    then have less: "last_issued < last_issued + 1" by (simp add: word_less_nat_alt)
    have nz: "last_issued + 1 \<noteq> 0" using up by (metis add_is_0 unat_0 zero_neq_one)
    have "generations (Suc n) last_issued = (last_issued + 1) # generations n (last_issued + 1)"
      using False by (simp add: generation_reserve_def)
    then show ?thesis using Suc.IH [of "last_issued + 1"] nz less up small by (auto intro: less_trans)
  qed
qed simp

section \<open>Properties\<close>

text \<open>The events of one execution.\<close>

definition execution_events :: "'s ProjectionBackend \<Rightarrow> 's \<Rightarrow> sProjectionPassDescription \<Rightarrow> projection_event list" where
  "execution_events pb s d = snd (the (snd (executeProjection (ledger pb) (Some (s, [])) d)))"

lemma execution_noted:
  "\<exists>r s' l. executeProjection (ledger pb) (Some (s, [])) d = (r, Some (s', l))
     \<and> (if \<not> re_ok (validateProjectionPassDescription d)
        then r = Returned (Failure (validateProjectionPassDescription d)) \<and> s' = s \<and> l = []
        else if pp_supersample_scale d = 1
        then l = [Ran_pass (makeProjectionRenderPass d (pp_color_attachment d) (pp_render_area d) (pp_final_state d)) r]
        else supersampled_noted d r l)"
  using supersampled_ledger [of pb d s]
  by (auto simp: executeProjection_def discarded_def split: prod.splits)

text \<open>C29. Whatever the backend answers or throws, a projection destroys every temporary it created exactly once
  and nothing else, after the last pass: no temporary leaks on an error path or an exception, none is
  destroyed twice, and none is destroyed while a pass that uses it is still to run.\<close>

theorem projection_releases_once:
  "freed_once (execution_events pb s d)"
proof -
  obtain r s' l where x: "executeProjection (ledger pb) (Some (s, [])) d = (r, Some (s', l))"
    and l: "if \<not> re_ok (validateProjectionPassDescription d)
        then r = Returned (Failure (validateProjectionPassDescription d)) \<and> s' = s \<and> l = []
        else if pp_supersample_scale d = 1
        then l = [Ran_pass (makeProjectionRenderPass d (pp_color_attachment d) (pp_render_area d) (pp_final_state d)) r]
        else supersampled_noted d r l"
    using execution_noted [of pb s d] by blast
  have one: "freed_once [Ran_pass p q]" for p q
    by (auto simp: freed_once_def intro: exI [of _ "[Ran_pass p q]"])
  have none: "freed_once []" by (simp add: freed_once_def)
  have "freed_once l" using l one none noted_freed_once by (auto split: if_splits)
  then show ?thesis by (simp add: execution_events_def x)
qed

text \<open>A projection that succeeds had a valid description and did all of it: without supersampling one
  pass, otherwise the doubled pass into the temporary texture and then the reduction of that texture into
  the attachment, both successful; the fence it returns is the last pass's.\<close>

theorem projection_success_exact:
  assumes "executeProjection (ledger pb) (Some (s, [])) d = (Returned (Success f), Some (s', l))"
  shows "re_ok (validateProjectionPassDescription d)
    \<and> (if pp_supersample_scale d = 1
       then l = [Ran_pass (makeProjectionRenderPass d (pp_color_attachment d) (pp_render_area d) (pp_final_state d))
                   (Returned (Success f))]
       else \<exists>t m f1. l = [Made_texture t, Made_mesh m, Ran_pass (supersample_pass d t) (Returned (Success f1)),
                         Ran_pass (downsample_pass d m t) (Returned (Success f))]
                        @ frees \<lparr>pt_mesh = m, pt_texture = t\<rparr>)"
  using execution_noted [of pb s d] assms
  by (auto simp: supersampled_noted_def passes_noted_def split: if_splits)

definition simple_projection :: sProjectionPassDescription where
  "simple_projection =
     \<lparr>pp_color_attachment = Texture_handle \<lparr>ha_value = 1, ha_generation = 1\<rparr>,
      pp_render_area = \<lparr>rg_x = 0, rg_y = 0, rg_extent = \<lparr>ex_width = 4, ex_height = 2\<rparr>\<rparr>,
      pp_clear_color = \<lparr>co_red = Some 0, co_green = Some 0, co_blue = Some 0, co_alpha = Some 1\<rparr>,
      pp_layers = [\<lparr>pl_mesh = Mesh_handle \<lparr>ha_value = 1, ha_generation = 1\<rparr>,
                    pl_source_texture = Texture_handle \<lparr>ha_value = 2, ha_generation = 1\<rparr>,
                    pl_alpha_texture = Texture_handle handle_none, pl_sampling_filter = Filter_Linear, pl_opacity = Some 1,
                    pl_edge_blend = \<lparr>eb_left = Some 0, eb_right = Some 0, eb_top = Some 0, eb_bottom = Some 0,
                                     eb_curve = Curve_Linear\<rparr>\<rparr>],
      pp_final_state = State_RenderTarget, pp_supersample_scale = 2\<rparr>"

lemma simple_projection_valid: "re_ok (validateProjectionPassDescription simple_projection)"
  by (simp add: validateProjectionPassDescription_def simple_projection_def pass_ok_iff makeProjectionRenderPass_def
      projection_draw_def draw_command_error_def handle_valid_def handle_none_def isKnownSamplingFilter_def
      isKnownBlendMode_def isKnownEdgeBlendCurve_def normalized_float_def isNormalizedColor_def extent_empty_def
      area_overflows_def)

definition counting_projection :: "u64 ProjectionBackend" where
  "counting_projection = \<lparr>
     pb_createTexture = (\<lambda>d n. (Returned (Success (Texture_handle \<lparr>ha_value = n, ha_generation = 7\<rparr>)), n + 1)),
     pb_createMesh = (\<lambda>d n. (Returned (Success (Mesh_handle \<lparr>ha_value = n, ha_generation = 7\<rparr>)), n + 1)),
     pb_executeRenderPass = (\<lambda>d n. (Returned (Success (Fence_handle \<lparr>ha_value = n, ha_generation = 7\<rparr>)), n + 1)),
     pb_destroyMesh = (\<lambda>h n. (Returned (Success ()), n)),
     pb_destroyTexture = (\<lambda>h n. (Returned (Success ()), n))\<rparr>"

theorem projection_success_exact_witness:
  "\<exists>s' l. executeProjection (ledger counting_projection) (Some (10, [])) simple_projection
       = (Returned (Success (Fence_handle \<lparr>ha_value = 13, ha_generation = 7\<rparr>)), Some (s', l))
     \<and> length l = 6 \<and> re_ok (validateProjectionPassDescription simple_projection)"
proof -
  have scale: "pp_supersample_scale simple_projection \<noteq> 1" by (simp add: simple_projection_def)
  obtain s' l where x: "executeProjection (ledger counting_projection) (Some (10, [])) simple_projection
       = (Returned (Success (Fence_handle \<lparr>ha_value = 13, ha_generation = 7\<rparr>)), Some (s', l))"
    and l: "length l = 6"
    using scale simple_projection_valid
    by (simp add: executeProjection_def projection_supersampled_def projection_passes_def temporaries_release_def
        temporaries_discard_def temporaries_none_def counting_projection_def caught_def handle_valid_def handle_none_def Let_def)
  show ?thesis using projection_success_exact [OF x] x l by blast
qed

text \<open>For a valid supersampled description and fresh temporaries the facade refuses none of the calls the
  execution makes: the doubled extent is exact and does not wrap, and the temporary texture, the mesh of
  the reduction and both passes are valid.\<close>

theorem projection_passes_accepted:
  assumes "re_ok (validateProjectionPassDescription d)" and "pp_supersample_scale d = 2"
    and "handle_valid (texture_handle t)" and "handle_valid (mesh_handle m)" and "t \<noteq> pp_color_attachment d"
    and "\<forall>layer \<in> set (pp_layers d). pl_source_texture layer \<noteq> t \<and> pl_alpha_texture layer \<noteq> t"
  shows "argument_error (Call_createTexture (supersample_texture (supersample_extent d))) = None
    \<and> argument_error (Call_createMesh makeDownsampleMesh) = None
    \<and> argument_error (Call_executeRenderPass (supersample_pass d t)) = None
    \<and> argument_error (Call_executeRenderPass (downsample_pass d m t)) = None
    \<and> unat (ex_width (supersample_extent d)) = 2 * unat (ex_width (rg_extent (pp_render_area d)))
    \<and> unat (ex_height (supersample_extent d)) = 2 * unat (ex_height (rg_extent (pp_render_area d)))"
  using projection_passes_ok [OF assms(1, 2, 3, 5) _ assms(4)] assms(6) by simp

theorem projection_passes_accepted_witness:
  "argument_error (Call_executeRenderPass (supersample_pass simple_projection (Texture_handle \<lparr>ha_value = 9, ha_generation = 1\<rparr>))) = None
   \<and> unat (ex_width (supersample_extent simple_projection)) = 8"
proof -
  have "pp_supersample_scale simple_projection = 2" "pp_layers simple_projection \<noteq> []"
    "ex_width (rg_extent (pp_render_area simple_projection)) = 4" by (simp_all add: simple_projection_def)
  then show ?thesis
    using projection_passes_accepted [OF simple_projection_valid, of "Texture_handle \<lparr>ha_value = 9, ha_generation = 1\<rparr>"
        "Mesh_handle \<lparr>ha_value = 3, ha_generation = 1\<rparr>"]
    by (simp add: handle_valid_def) (simp add: simple_projection_def handle_none_def)
qed

text \<open>Identities of renderers are never reused: whatever number of reservations is made after
  \<open>last_issued\<close>, those that succeed return strictly increasing non-zero numbers above it, as many as there
  are, and when they are used up every further one returns zero.\<close>

theorem generations_unique:
  "sorted_wrt (<) (last_issued # filter (\<lambda>g. g \<noteq> 0) (generations n last_issued))
   \<and> length (filter (\<lambda>g. g \<noteq> 0) (generations n last_issued)) = min n (2 ^ 32 - 1 - unat last_issued)"
  by (rule generations_increase)

end
