(* ===== verification/DoubleRounding.thy ===== *)
theory DoubleRounding
  imports Complex_Main "HOL-Library.Log_Nat"
begin

text \<open>
  Arithmetic on C++ floating-point values that stay finite: a value is the rational number it stands for
  and every operation rounds its exact result to the nearest value of the format, ties to even (the default
  mode of IEEE 754).  A format is its number of significant bits and the exponent of its smallest unit;
  overflow is the business of the users, whose values are far below it or who test for it.
\<close>

section \<open>Rounding to integers\<close>

definition round_half_even :: "rat \<Rightarrow> int" where
  "round_half_even q =
     (let n = \<lfloor>q\<rfloor>; d = q - of_int n in
      if d < 1 / 2 then n else if 1 / 2 < d then n + 1 else if even n then n else n + 1)"

lemma round_half_even_int [simp]: "round_half_even (of_int n) = n"
  by (simp add: round_half_even_def)

lemma round_half_even_error: "\<bar>of_int (round_half_even q) - q\<bar> \<le> 1 / 2"
proof -
  have d: "of_int \<lfloor>q\<rfloor> \<le> q" "q < of_int \<lfloor>q\<rfloor> + 1" by linarith+
  show ?thesis unfolding round_half_even_def Let_def abs_le_iff using d by (auto simp: not_less; linarith)
qed

lemma round_half_even_near:
  assumes "\<bar>q - of_int n\<bar> < 1 / 2"
  shows "round_half_even q = n"
proof -
  have "\<bar>of_int (round_half_even q) - (of_int n :: rat)\<bar> < 1"
    using round_half_even_error [of q] assms by linarith
  then have "\<bar>(of_int (round_half_even q - n) :: rat)\<bar> < 1" by simp
  then show ?thesis by linarith
qed

section \<open>The exponent of a number\<close>

definition pow2 :: "int \<Rightarrow> rat" where
  "pow2 k = (if 0 \<le> k then 2 ^ nat k else 1 / 2 ^ nat (- k))"

lemma pow2_powi: "pow2 k = 2 powi k"
  by (cases "0 \<le> k") (simp_all add: pow2_def power_int_def inverse_eq_divide power_one_over)

lemma pow2_pos [simp]: "0 < pow2 k"
  by (simp add: pow2_def)

lemma pow2_nonneg [simp]: "0 \<le> pow2 k" "pow2 k \<noteq> 0"
  using pow2_pos [of k] by linarith+

lemma pow2_add: "pow2 (j + k) = pow2 j * pow2 k"
  by (simp add: pow2_powi power_int_add)

lemma pow2_minus: "pow2 (- k) = 1 / pow2 k"
  by (simp add: pow2_powi power_int_minus divide_inverse)

lemma pow2_diff: "pow2 (j - k) = pow2 j / pow2 k"
  using pow2_add [of j "- k"] by (simp add: pow2_minus)

lemma pow2_strict: "j < k \<Longrightarrow> pow2 j < pow2 k"
  unfolding pow2_powi by (rule power_int_strict_increasing) simp_all

lemma pow2_less_iff: "pow2 j < pow2 k \<longleftrightarrow> j < k"
  using pow2_strict [of j k] pow2_strict [of k j] by (cases j k rule: linorder_cases) auto

lemma pow2_le_iff: "pow2 j \<le> pow2 k \<longleftrightarrow> j \<le> k"
  using pow2_less_iff [of k j] by (simp add: not_less [symmetric])

lemma pow2_nat: "pow2 (int n) = 2 ^ n"
  by (simp add: pow2_def)

text \<open>The greatest \<open>k\<close> with \<open>pow2 k \<le> q\<close>, for positive \<open>q\<close>.\<close>

definition ilog2 :: "rat \<Rightarrow> int" where
  "ilog2 q =
     (let (a, b) = quotient_of q; k = bitlen a - bitlen b in if pow2 k \<le> q then k else k - 1)"

lemma ilog2_bounds:
  assumes "0 < q"
  shows "pow2 (ilog2 q) \<le> q" and "q < pow2 (ilog2 q + 1)"
proof -
  obtain a b where ab: "quotient_of q = (a, b)" by (cases "quotient_of q")
  have b: "0 < b" using quotient_of_denom_pos [OF ab] .
  have q: "q = of_int a / of_int b" using quotient_of_div [OF ab] .
  have a: "0 < a" using assms b unfolding q by (simp add: zero_less_divide_iff)
  have bounds: "pow2 (bitlen n - 1) \<le> of_int n \<and> of_int n < pow2 (bitlen n)" if "0 < n" for n :: int
  proof -
    have "2 ^ nat (bitlen n - 1) \<le> n \<and> n < 2 ^ nat (bitlen n)" using bitlen_bounds [OF that] .
    moreover have "0 < bitlen n" using that by (simp add: bitlen_def floorlog_eq_zero_iff zero_less_iff_neq_zero)
    ultimately have "(of_int (2 ^ nat (bitlen n - 1)) :: rat) \<le> of_int n" "(of_int n :: rat) < of_int (2 ^ nat (bitlen n))"
      "0 \<le> bitlen n - 1" by (simp_all only: of_int_le_iff of_int_less_iff)
    then show ?thesis by (simp add: pow2_def)
  qed
  let ?k = "bitlen a - bitlen b"
  have bp: "(0 :: rat) < of_int b" using b by simp
  have lower: "pow2 (?k - 1) < q"
  proof -
    have "pow2 (?k - 1) = pow2 (bitlen a - 1) / pow2 (bitlen b)"
      using pow2_diff [of "bitlen a - 1" "bitlen b"] by (simp add: algebra_simps)
    also have "\<dots> \<le> of_int a / pow2 (bitlen b)" using bounds [OF a] by (intro divide_right_mono less_imp_le [OF pow2_pos]) simp
    also have "\<dots> < of_int a / of_int b"
      using bounds [OF b] a bp by (intro divide_strict_left_mono) simp_all
    finally show ?thesis by (simp add: q)
  qed
  have upper: "q < pow2 (?k + 1)"
  proof -
    have "q < pow2 (bitlen a) / of_int b" using bounds [OF a] bp by (simp add: q divide_strict_right_mono)
    also have "\<dots> \<le> pow2 (bitlen a) / pow2 (bitlen b - 1)"
      using bounds [OF b] bp by (intro divide_left_mono) simp_all
    also have "\<dots> = pow2 (?k + 1)"
      using pow2_diff [of "bitlen a" "bitlen b - 1"] by (simp add: algebra_simps)
    finally show ?thesis .
  qed
  show "pow2 (ilog2 q) \<le> q" "q < pow2 (ilog2 q + 1)"
    using lower upper by (auto simp: ilog2_def ab Let_def)
qed

lemma ilog2_le: "0 < q \<Longrightarrow> q < pow2 (k + 1) \<Longrightarrow> ilog2 q \<le> k"
proof -
  assume q: "0 < q" "q < pow2 (k + 1)"
  then have "pow2 (ilog2 q) < pow2 (k + 1)" using ilog2_bounds(1) [OF q(1)] by linarith
  then show ?thesis by (simp add: pow2_less_iff)
qed

lemma ilog2_ge: "pow2 k \<le> q \<Longrightarrow> k \<le> ilog2 q"
proof -
  assume k: "pow2 k \<le> q"
  then have q: "0 < q" using pow2_pos [of k] by linarith
  then have "pow2 k < pow2 (ilog2 q + 1)" using ilog2_bounds(2) [OF q] k by linarith
  then show ?thesis by (simp add: pow2_less_iff)
qed

section \<open>Rounding to a format\<close>

definition fl_unit :: "nat \<Rightarrow> int \<Rightarrow> rat \<Rightarrow> int" where
  "fl_unit bits smallest q = max (ilog2 \<bar>q\<bar> - (int bits - 1)) smallest"

definition fl_round :: "nat \<Rightarrow> int \<Rightarrow> rat \<Rightarrow> rat" where
  "fl_round bits smallest q =
     (if q = 0 then 0
      else let e = fl_unit bits smallest q in of_int (round_half_even (q / pow2 e)) * pow2 e)"

text \<open>\<open>double\<close> and \<open>float\<close>.\<close>

definition dbl :: "rat \<Rightarrow> rat" where
  "dbl = fl_round 53 (- 1074)"

definition flt :: "rat \<Rightarrow> rat" where
  "flt = fl_round 24 (- 149)"

lemma fl_round_zero [simp]: "fl_round bits smallest 0 = 0"
  by (simp add: fl_round_def)

lemma fl_round_error: "q \<noteq> 0 \<Longrightarrow> \<bar>fl_round bits smallest q - q\<bar> \<le> pow2 (fl_unit bits smallest q) / 2"
proof -
  assume q: "q \<noteq> 0"
  let ?p = "pow2 (fl_unit bits smallest q)"
  have p: "0 < ?p" by simp
  have "\<bar>of_int (round_half_even (q / ?p)) - q / ?p\<bar> * ?p \<le> 1 / 2 * ?p"
    using round_half_even_error [of "q / ?p"] p by (intro mult_right_mono) simp_all
  moreover have "\<bar>of_int (round_half_even (q / ?p)) - q / ?p\<bar> * ?p = \<bar>of_int (round_half_even (q / ?p)) * ?p - q\<bar>"
  proof -
    have "(of_int (round_half_even (q / ?p)) - q / ?p) * ?p = of_int (round_half_even (q / ?p)) * ?p - q"
      using p by (simp add: left_diff_distrib)
    then show ?thesis using p by (metis abs_mult abs_of_pos)
  qed
  ultimately show ?thesis using q by (simp add: fl_round_def Let_def)
qed

text \<open>The relative error of a result that is not subnormal.\<close>

lemma fl_round_relative:
  assumes "pow2 (smallest + int bits - 1) \<le> \<bar>q\<bar>"
  shows "\<bar>fl_round bits smallest q - q\<bar> \<le> \<bar>q\<bar> / 2 ^ bits"
proof -
  have q: "q \<noteq> 0" using assms pow2_pos [of "smallest + int bits - 1"] by force
  have "smallest + int bits - 1 \<le> ilog2 \<bar>q\<bar>" using ilog2_ge [OF assms] .
  then have e: "fl_unit bits smallest q = ilog2 \<bar>q\<bar> + 1 - int bits" by (simp add: fl_unit_def)
  have "pow2 (fl_unit bits smallest q) / 2 = pow2 (ilog2 \<bar>q\<bar>) / 2 ^ bits"
    unfolding e pow2_diff pow2_add pow2_nat by (simp add: pow2_def)
  also have "\<dots> \<le> \<bar>q\<bar> / 2 ^ bits" using ilog2_bounds(1) [of "\<bar>q\<bar>"] q by (simp add: divide_right_mono)
  finally show ?thesis using fl_round_error [OF q, of bits smallest] by linarith
qed

text \<open>Numbers of the format are kept.\<close>

lemma fl_round_exact:
  assumes "q = of_int m * pow2 k" and "\<bar>m\<bar> < 2 ^ bits" and "smallest \<le> k" and "0 < bits"
  shows "fl_round bits smallest q = q"
proof (cases "m = 0")
  case True
  then show ?thesis using assms(1) by simp
next
  case False
  let ?e = "fl_unit bits smallest q"
  have q: "q \<noteq> 0" using False assms(1) pow2_pos [of k] by (metis less_irrefl mult_eq_0_iff of_int_eq_0_iff)
  have "\<bar>q\<bar> = of_int \<bar>m\<bar> * pow2 k" by (simp add: assms(1) abs_mult abs_of_pos)
  also have "\<dots> < of_int (2 ^ bits) * pow2 k"
    using assms(2) by (intro mult_strict_right_mono) (simp_all only: of_int_less_iff pow2_pos)
  also have "\<dots> = pow2 (int bits + k)" by (simp add: pow2_add pow2_nat)
  finally have "ilog2 \<bar>q\<bar> \<le> int bits + k - 1" using q by (intro ilog2_le) simp_all
  then have le: "?e \<le> k" using assms(3) by (simp add: fl_unit_def)
  then have "pow2 k / pow2 ?e = of_int (2 ^ nat (k - ?e))"
    unfolding pow2_diff [symmetric] by (simp add: pow2_def)
  then have "q / pow2 ?e = of_int (m * 2 ^ nat (k - ?e))"
    unfolding assms(1) times_divide_eq_right [symmetric] by simp
  then have "fl_round bits smallest q = (q / pow2 ?e) * pow2 ?e"
    using q by (simp only: fl_round_def Let_def if_False round_half_even_int)
  then show ?thesis using pow2_pos [of ?e] by simp
qed

lemma dbl_int: "\<bar>n\<bar> < 2 ^ 53 \<Longrightarrow> dbl (of_int n) = of_int n"
  unfolding dbl_def by (rule fl_round_exact [of _ n 0]) (simp_all add: pow2_def)

lemma dbl_nat: "n < 2 ^ 53 \<Longrightarrow> dbl (of_nat n) = of_nat n"
  using dbl_int [of "int n"] by (simp add: of_nat_less_numeral_power_cancel_iff)

lemma dbl_relative: "1 / 2 ^ 1000 \<le> \<bar>q\<bar> \<Longrightarrow> \<bar>dbl q - q\<bar> \<le> \<bar>q\<bar> / 2 ^ 53"
proof -
  assume a: "1 / 2 ^ 1000 \<le> \<bar>q\<bar>"
  have "pow2 (- 1074 + int 53 - 1) \<le> pow2 (- 1000)" unfolding pow2_le_iff by simp
  also have "pow2 (- 1000) = 1 / 2 ^ 1000" by (simp add: pow2_def)
  finally show ?thesis unfolding dbl_def using a by (intro fl_round_relative) linarith
qed

end
