(* ===== verification/DataCast.thy ===== *)
theory DataCast
  imports DoubleRounding ImageInterleaved
begin

text \<open>
  Conversions between the pixel formats (\<open>core/wse/utility/wse_DataCast.cpp\<close>): a change of the number of
  channels, of the bit depth, or of both.  A sample is the natural number its unsigned type holds.  The
  factor of an expansion and the opaque alpha are computed with \<open>double\<close>; converting a \<open>double\<close> that the
  target type cannot hold is undefined and gives \<open>None\<close>.  Allocations are taken to succeed.
\<close>

section \<open>Samples\<close>

definition sample_bits :: "ePixFormat \<Rightarrow> nat" where
  "sample_bits pf = 8 * sample_size pf"

text \<open>\<open>static_cast\<close> to the sample type, from an unsigned integer and from a \<open>double\<close>.\<close>

definition to_sample :: "ePixFormat \<Rightarrow> nat \<Rightarrow> nat" where
  "to_sample pf n = n mod 2 ^ sample_bits pf"

definition dbl_to_sample :: "ePixFormat \<Rightarrow> rat \<Rightarrow> nat option" where
  "dbl_to_sample pf q = (if 0 \<le> q \<and> \<lfloor>q\<rfloor> < 2 ^ sample_bits pf then Some (nat \<lfloor>q\<rfloor>) else None)"

definition maximum_dbl :: "nat \<Rightarrow> rat" where
  "maximum_dbl bits = dbl (2 ^ bits - 1)"

definition expand_factor :: "ePixFormat \<Rightarrow> ePixFormat \<Rightarrow> rat" where
  "expand_factor dpf spf = dbl (maximum_dbl (getBitDepth dpf) / maximum_dbl (getBitDepth spf))"

definition expand_sample :: "ePixFormat \<Rightarrow> ePixFormat \<Rightarrow> nat \<Rightarrow> nat option" where
  "expand_sample dpf spf v = dbl_to_sample dpf (dbl (expand_factor dpf spf * dbl (of_nat v)))"

definition reduce_sample :: "ePixFormat \<Rightarrow> ePixFormat \<Rightarrow> nat \<Rightarrow> nat" where
  "reduce_sample dpf spf v = to_sample dpf (v div 2 ^ (getBitDepth spf - getBitDepth dpf))"

definition alpha_opaque :: "ePixFormat \<Rightarrow> nat option" where
  "alpha_opaque dpf = dbl_to_sample dpf (maximum_dbl (sample_bits dpf))"

text \<open>The three branches every change of channels has.\<close>

definition adapt_sample :: "ePixFormat \<Rightarrow> ePixFormat \<Rightarrow> nat \<Rightarrow> nat option" where
  "adapt_sample dpf spf v =
     (if getBitDepth spf = getBitDepth dpf then Some (to_sample dpf v)
      else if getBitDepth dpf < getBitDepth spf then Some (reduce_sample dpf spf v)
      else expand_sample dpf spf v)"

text \<open>The sum of the average is taken in \<open>uint64_t\<close>.\<close>

definition gray_average :: "nat list \<Rightarrow> nat" where
  "gray_average p = ((p ! 0 + p ! 1 + p ! 2) mod 2 ^ 64) div 3"

definition gray_sample :: "ePixFormat \<Rightarrow> ePixFormat \<Rightarrow> nat list \<Rightarrow> nat option" where
  "gray_sample dpf spf p =
     (if getBitDepth spf = getBitDepth dpf then Some (to_sample dpf (gray_average p))
      else if getBitDepth dpf < getBitDepth spf
      then Some (reduce_sample dpf spf (to_sample spf (gray_average p)))
      else expand_sample dpf spf (to_sample spf (gray_average p)))"

section \<open>Images\<close>

text \<open>Every pixel of an image of the same size; \<open>None\<close> when one is undefined.\<close>

definition map_pixels :: "(nat list \<Rightarrow> nat list option) \<Rightarrow> nat list Image \<Rightarrow> nat list Image option" where
  "map_pixels f im = map_option (\<lambda>px. im\<lparr>im_pixels := px\<rparr>) (those (map f (im_pixels im)))"

definition copyImage :: "ePixFormat \<Rightarrow> ePixFormat \<Rightarrow> nat list Image \<Rightarrow> nat list Image option" where
  "copyImage dpf spf = map_pixels (\<lambda>p. Some (map (to_sample dpf) p))"

definition expandImage :: "ePixFormat \<Rightarrow> ePixFormat \<Rightarrow> nat list Image \<Rightarrow> nat list Image option" where
  "expandImage dpf spf = map_pixels (\<lambda>p. those (map (expand_sample dpf spf) p))"

definition reduceImage :: "ePixFormat \<Rightarrow> ePixFormat \<Rightarrow> nat list Image \<Rightarrow> nat list Image option" where
  "reduceImage dpf spf = map_pixels (\<lambda>p. Some (map (reduce_sample dpf spf) p))"

definition mono2color :: "ePixFormat \<Rightarrow> ePixFormat \<Rightarrow> nat list Image \<Rightarrow> nat list Image option" where
  "mono2color dpf spf = map_pixels (\<lambda>p. map_option (\<lambda>v. [v, v, v]) (adapt_sample dpf spf (p ! 0)))"

text \<open>The alpha is computed before the loops.\<close>

definition mono2acolor :: "ePixFormat \<Rightarrow> ePixFormat \<Rightarrow> nat list Image \<Rightarrow> nat list Image option" where
  "mono2acolor dpf spf im =
     (case alpha_opaque dpf of
        None \<Rightarrow> None
      | Some alpha \<Rightarrow>
          map_pixels (\<lambda>p. map_option (\<lambda>v. [v, v, v, alpha]) (adapt_sample dpf spf (p ! 0))) im)"

definition color2mono :: "ePixFormat \<Rightarrow> ePixFormat \<Rightarrow> nat list Image \<Rightarrow> nat list Image option" where
  "color2mono dpf spf = map_pixels (\<lambda>p. map_option (\<lambda>v. [v]) (gray_sample dpf spf p))"

definition color2acolor :: "ePixFormat \<Rightarrow> ePixFormat \<Rightarrow> nat list Image \<Rightarrow> nat list Image option" where
  "color2acolor dpf spf im =
     (case alpha_opaque dpf of
        None \<Rightarrow> None
      | Some alpha \<Rightarrow>
          map_pixels (\<lambda>p. map_option (\<lambda>c. c @ [alpha]) (those (map (adapt_sample dpf spf) [p ! 0, p ! 1, p ! 2]))) im)"

definition acolor2mono :: "ePixFormat \<Rightarrow> ePixFormat \<Rightarrow> nat list Image \<Rightarrow> nat list Image option" where
  "acolor2mono dpf spf = map_pixels (\<lambda>p. map_option (\<lambda>v. [v]) (gray_sample dpf spf p))"

definition acolor2color :: "ePixFormat \<Rightarrow> ePixFormat \<Rightarrow> nat list Image \<Rightarrow> nat list Image option" where
  "acolor2color dpf spf = map_pixels (\<lambda>p. those (map (adapt_sample dpf spf) [p ! 0, p ! 1, p ! 2]))"

text \<open>A change of depth alone.\<close>

definition castDepth :: "ePixFormat \<Rightarrow> ePixFormat \<Rightarrow> nat list Image \<Rightarrow> nat list Image option" where
  "castDepth dpf spf im =
     (if getBitDepth dpf < getBitDepth spf then reduceImage dpf spf im
      else if getBitDepth spf < getBitDepth dpf then expandImage dpf spf im
      else copyImage dpf spf im)"

text \<open>The left value is the exception.\<close>

definition castData_image :: "ePixFormat \<Rightarrow> ePixFormat \<Rightarrow> nat list Image \<Rightarrow> (string + nat list Image) option" where
  "castData_image dpf spf im =
     (let s = getDataNum spf; d = getDataNum dpf;
          unsupported = Some (Inl ''the pixel-size combination is not supported by this cast'')
      in if s = 1 then
           if d = 3 then map_option Inr (mono2color dpf spf im)
           else if d = 4 then map_option Inr (mono2acolor dpf spf im)
           else if d = 1 then map_option Inr (castDepth dpf spf im)
           else unsupported
         else if s = 3 then
           if d = 1 then map_option Inr (color2mono dpf spf im)
           else if d = 4 then map_option Inr (color2acolor dpf spf im)
           else if d = 3 then map_option Inr (castDepth dpf spf im)
           else unsupported
         else if s = 4 then
           if d = 1 then map_option Inr (acolor2mono dpf spf im)
           else if d = 3 then map_option Inr (acolor2color dpf spf im)
           else if d = 4 then map_option Inr (castDepth dpf spf im)
           else unsupported
         else unsupported)"

section \<open>Alpha maps\<close>

definition average3 :: "u64 \<Rightarrow> u64 \<Rightarrow> u64 \<Rightarrow> u64" where
  "average3 a b c = a div 3 + b div 3 + c div 3 + (a mod 3 + b mod 3 + c mod 3) div 3"

definition alphamap_average :: "nat list \<Rightarrow> nat" where
  "alphamap_average p = unat (average3 (word_of_nat (p ! 0)) (word_of_nat (p ! 1)) (word_of_nat (p ! 2)))"

text \<open>The average is not narrowed to the source's sample type here.\<close>

definition convert4chAlphamap_mono :: "ePixFormat \<Rightarrow> ePixFormat \<Rightarrow> nat list Image \<Rightarrow> nat list Image option" where
  "convert4chAlphamap_mono dpf spf =
     map_pixels (\<lambda>p. map_option (replicate (getDataNum dpf)) (adapt_sample dpf spf (p ! 0)))"

definition convert4chAlphamap_color :: "ePixFormat \<Rightarrow> ePixFormat \<Rightarrow> nat list Image \<Rightarrow> nat list Image option" where
  "convert4chAlphamap_color dpf spf =
     map_pixels (\<lambda>p. map_option (replicate (getDataNum dpf)) (adapt_sample dpf spf (alphamap_average p)))"

definition to4chAlphamap :: "ePixFormat \<Rightarrow> ePixFormat \<Rightarrow> nat list Image \<Rightarrow> (string + nat list Image) option" where
  "to4chAlphamap dpf spf im =
     (let s = getDataNum spf in
      if s = 1 then map_option Inr (convert4chAlphamap_mono dpf spf im)
      else if s = 3 then map_option Inr (convert4chAlphamap_color dpf spf im)
      else if s = 4 then map_option Inr (castDepth dpf spf im)
      else Some (Inl ''the pixel-size combination is not supported by this cast''))"

end
