(* ===== verification/DataCastCorrect.thy ===== *)
theory DataCastCorrect
  imports DataCast
begin

text \<open>
  Correctness of the format conversions.  For depths of at most 32 bits the expansion computed with
  \<open>double\<close> is exact: it is \<open>v * (2 ^ d - 1) div (2 ^ s - 1)\<close>.  The quotient of the two maxima is rounded,
  so is the product, and the truncation afterwards would turn the smallest error below an integer into an
  error of one; the proof separates the products that are integers, for which the rounded quotient is
  within a quarter of a unit and the product rounds back, from all others, which keep a distance of
  \<open>1 / (2 ^ s - 1)\<close> from the integers.
\<close>

section \<open>The rounded quotient of the maxima\<close>

definition small_depth :: "nat \<Rightarrow> bool" where
  "small_depth b \<longleftrightarrow> b \<in> {8, 10, 12, 14, 16, 32}"

text \<open>A quarter of a unit in the last place, as integers.\<close>

lemma quotient_quarter:
  assumes "small_depth s" and "small_depth d" and "s < d"
  shows "\<exists>m :: int. \<bar>(2 ^ d - 1) * 2 ^ (52 - (d - s)) - m * (2 ^ s - 1)\<bar> * 4 \<le> 2 ^ s - 1"
proof -
  let ?m = "((2 ^ d - 1) * 2 ^ (52 - (d - s)) + (2 ^ s - 1) div 2) div (2 ^ s - 1) :: int"
  have "\<bar>(2 ^ d - 1) * 2 ^ (52 - (d - s)) - ?m * (2 ^ s - 1)\<bar> * 4 \<le> (2 ^ s - 1 :: int)"
    using assms by (auto simp: small_depth_def)
  then show ?thesis by blast
qed

definition max_of :: "nat \<Rightarrow> rat" where
  "max_of b = 2 ^ b - 1"

lemma max_of_pos: "0 < b \<Longrightarrow> 0 < max_of b"
  by (simp add: max_of_def)

lemma small_depth_le: "small_depth b \<Longrightarrow> 8 \<le> b \<and> b \<le> 32"
  by (auto simp: small_depth_def)

lemma maximum_dbl_small: "b \<le> 32 \<Longrightarrow> maximum_dbl b = max_of b"
proof -
  assume "b \<le> 32"
  then have "(2 :: int) ^ b \<le> 2 ^ 32" by (intro power_increasing) simp_all
  then have "dbl (of_int (2 ^ b - 1)) = of_int (2 ^ b - 1)" by (intro dbl_int) simp
  then show ?thesis by (simp add: maximum_dbl_def max_of_def)
qed

lemma quotient_range:
  assumes "0 < s" and "s < d"
  shows "2 ^ (d - s) \<le> max_of d / max_of s" and "max_of d / max_of s < 2 ^ (d - s) * 2"
proof -
  have split: "(2 :: rat) ^ d = 2 ^ (d - s) * 2 ^ s" using assms by (simp add: power_add [symmetric])
  have one: "(1 :: rat) \<le> 2 ^ (d - s)" "(2 :: rat) \<le> 2 ^ s"
    using power_increasing [of 1 s "2 :: rat"] assms(1) by simp_all
  have "2 ^ (d - s) * max_of s \<le> max_of d" using one(1) unfolding max_of_def split by (simp add: algebra_simps)
  then show "2 ^ (d - s) \<le> max_of d / max_of s" using max_of_pos [OF assms(1)] by (simp add: pos_le_divide_eq)
  have "2 ^ (d - s) * 2 \<le> (2 ^ (d - s) * 2 ^ s :: rat)" using one by (intro mult_left_mono) simp_all
  moreover have "2 ^ (d - s) * 2 * max_of s = 2 * (2 ^ (d - s) * 2 ^ s) - 2 ^ (d - s) * 2"
    by (simp add: max_of_def algebra_simps)
  ultimately have "max_of d < 2 ^ (d - s) * 2 * max_of s" unfolding max_of_def split by linarith
  then show "max_of d / max_of s < 2 ^ (d - s) * 2"
    using max_of_pos [OF assms(1)] by (simp add: pos_divide_less_eq)
qed

lemma factor_error:
  assumes "small_depth s" and "small_depth d" and "s < d"
  shows "\<bar>dbl (max_of d / max_of s) - max_of d / max_of s\<bar> \<le> 2 ^ (d - s) / 2 ^ 54"
proof -
  let ?q = "max_of d / max_of s" and ?e = "int (d - s) - 52"
  have s: "0 < s" "d - s \<le> 24" using small_depth_le [OF assms(1)] small_depth_le [OF assms(2)] by auto
  note r = quotient_range [OF s(1) assms(3)]
  have q: "0 < ?q" using r(1) zero_less_power [of "2 :: rat" "d - s"] by linarith
  have "ilog2 ?q \<le> int (d - s)"
    using r(2) q by (intro ilog2_le) (simp_all add: pow2_add pow2_nat pow2_def [of 1])
  moreover have "int (d - s) \<le> ilog2 ?q" using r(1) by (intro ilog2_ge) (simp add: pow2_nat)
  ultimately have e: "fl_unit 53 (- 1074) ?q = ?e" unfolding fl_unit_def abs_of_pos [OF q] by simp
  have pe: "pow2 ?e = 1 / 2 ^ (52 - (d - s))" using s(2) by (simp add: pow2_def nat_diff_distrib')
  obtain m :: int where m: "\<bar>(2 ^ d - 1) * 2 ^ (52 - (d - s)) - m * (2 ^ s - 1)\<bar> * 4 \<le> 2 ^ s - 1"
    using quotient_quarter [OF assms] by blast
  have M: "0 < max_of s" using max_of_pos [OF s(1)] .
  have "\<bar>max_of d * 2 ^ (52 - (d - s)) - of_int m * max_of s\<bar> * 4 \<le> max_of s"
  proof -
    have "(of_int (\<bar>(2 ^ d - 1) * 2 ^ (52 - (d - s)) - m * (2 ^ s - 1)\<bar> * 4) :: rat) \<le> of_int (2 ^ s - 1)"
      using m by (simp only: of_int_le_iff)
    then show ?thesis by (simp add: max_of_def)
  qed
  then have near: "\<bar>?q / pow2 ?e - of_int m\<bar> \<le> 1 / 4"
  proof -
    have "?q / pow2 ?e - of_int m = (max_of d * 2 ^ (52 - (d - s)) - of_int m * max_of s) / max_of s"
      using M unfolding pe by (simp add: field_simps)
    then show ?thesis
      using M \<open>\<bar>max_of d * 2 ^ (52 - (d - s)) - of_int m * max_of s\<bar> * 4 \<le> max_of s\<close>
      by (simp add: abs_divide pos_divide_le_eq)
  qed
  then have "round_half_even (?q / pow2 ?e) = m" by (intro round_half_even_near) linarith
  then have f: "dbl ?q = of_int m * pow2 ?e" unfolding dbl_def fl_round_def e Let_def by (simp only: less_imp_neq [OF q, symmetric] if_False)
  have "\<bar>dbl ?q - ?q\<bar> = \<bar>?q / pow2 ?e - of_int m\<bar> * pow2 ?e"
  proof -
    have "dbl ?q - ?q = - ((?q / pow2 ?e - of_int m) * pow2 ?e)" unfolding f by (simp add: left_diff_distrib)
    then show ?thesis by (simp only: abs_minus_cancel abs_mult abs_of_pos [OF pow2_pos])
  qed
  also have "\<dots> \<le> 1 / 4 * pow2 ?e" using near by (intro mult_right_mono) simp_all
  also have "1 / 4 * pow2 ?e = 2 ^ (d - s) / 2 ^ 54"
    using s(2) unfolding pow2_diff pow2_nat by (simp add: pow2_def)
  finally show ?thesis .
qed

section \<open>Products\<close>

text \<open>A result that close to an integer of at most 53 bits is that integer.\<close>

lemma dbl_near_int:
  assumes "0 < k" and "k < 2 ^ 53" and "\<bar>q - of_int k\<bar> < of_int k / 2 ^ 54"
  shows "dbl q = of_int k"
proof -
  let ?k = "of_int k :: rat" and ?L = "ilog2 (of_int k)"
  have kpos: "0 < ?k" using assms(1) by simp
  have k1: "(1 :: rat) \<le> ?k" using assms(1) by simp
  note L = ilog2_bounds [OF kpos]
  have k53: "?k < 2 ^ 53" using assms(2) by (simp add: of_int_less_numeral_power_cancel_iff)
  have L0: "0 \<le> ?L" using k1 by (intro ilog2_ge) (simp add: pow2_def)
  have L52: "?L \<le> 52" using k53 kpos by (intro ilog2_le) (simp_all add: pow2_def)
  have small: "?k / 2 ^ 54 < 1 / 2" using k53 by simp
  have q0: "0 < q" using assms(3) small k1 unfolding abs_less_iff by linarith
  have kL: "int (nat ?L) = ?L" using L0 by simp
  have pL: "pow2 ?L = of_int (2 ^ nat ?L)" "pow2 (?L + 1) = of_int (2 ^ nat (?L + 1))" using L0 by (simp_all add: pow2_def)
  have up: "q < pow2 (?L + 1)"
  proof -
    have "k + 1 \<le> 2 ^ nat (?L + 1)" using L(2) unfolding pL(2) of_int_less_iff by simp
    then have "?k + 1 \<le> pow2 (?L + 1)" unfolding pL(2) by (metis of_int_1 of_int_add of_int_le_iff)
    then show ?thesis using assms(3) small unfolding abs_less_iff by linarith
  qed
  have qL: "ilog2 q \<le> ?L" using ilog2_le [OF q0 up] .
  have integer: "\<exists>j. ?k / pow2 (- int n) = of_int j" for n
    by (intro exI [of _ "k * 2 ^ n"]) (simp add: pow2_minus pow2_nat)
  have conclude: "dbl q = ?k" if e: "fl_unit 53 (- 1074) q = - int n" and n: "\<bar>q - ?k\<bar> < pow2 (- int n) / 2" for n
  proof -
    let ?p = "pow2 (- int n)"
    obtain j where j: "?k / ?p = of_int j" using integer by blast
    have "\<bar>q / ?p - of_int j\<bar> = \<bar>q - ?k\<bar> / ?p"
      unfolding j [symmetric] diff_divide_distrib [symmetric] abs_divide abs_of_pos [OF pow2_pos] ..
    also have "\<dots> < 1 / 2" using n by (simp add: pos_divide_less_eq)
    finally have "round_half_even (q / ?p) = j" by (rule round_half_even_near)
    then have "dbl q = of_int j * ?p" using q0 e by (simp add: dbl_def fl_round_def)
    then show ?thesis unfolding j [symmetric] by simp
  qed
  show ?thesis
  proof (cases "pow2 ?L \<le> q")
    case True
    then have "ilog2 q = ?L" using qL ilog2_ge by force
    then have e: "fl_unit 53 (- 1074) q = - int (nat (52 - ?L))" using q0 L0 L52 by (simp add: fl_unit_def)
    have "?k / 2 ^ 54 < pow2 (?L + 1) / 2 ^ 54" using L(2) by (rule divide_strict_right_mono) simp
    also have "\<dots> = pow2 (- int (nat (52 - ?L))) / 2"
    proof -
      have "- int (nat (52 - ?L)) = ?L - 52" using L52 by simp
      then show ?thesis by (simp add: pow2_add pow2_diff) (simp add: pow2_def)
    qed
    finally show ?thesis using assms(3) by (intro conclude [OF e]) linarith
  next
    case False
    have "k \<le> 2 ^ nat ?L"
    proof (rule ccontr)
      assume "\<not> k \<le> 2 ^ nat ?L"
      then have "2 ^ nat ?L + 1 \<le> k" by simp
      then have "pow2 ?L + 1 \<le> ?k" unfolding pL(1) by (metis of_int_1 of_int_add of_int_le_iff)
      then show False using False assms(3) small unfolding abs_less_iff by linarith
    qed
    then have "?k \<le> pow2 ?L" unfolding pL(1) by (simp only: of_int_le_iff)
    then have kL': "?k = pow2 ?L" using L(1) by simp
    have "pow2 (?L - 1) \<le> q"
    proof -
      have "pow2 ?L = pow2 (?L - 1) * 2" by (simp add: pow2_diff pow2_def [of 1])
      moreover have "?k / 2 ^ 54 \<le> ?k / 2" using kpos by simp
      ultimately show ?thesis using assms(3) kL' unfolding abs_less_iff by linarith
    qed
    then have "?L - 1 \<le> ilog2 q" by (rule ilog2_ge)
    moreover have "ilog2 q < ?L"
    proof -
      have "pow2 (ilog2 q) < pow2 ?L" using ilog2_bounds(1) [OF q0] False by linarith
      then show ?thesis by (simp add: pow2_less_iff)
    qed
    ultimately have "ilog2 q = ?L - 1" by simp
    then have e: "fl_unit 53 (- 1074) q = - int (nat (53 - ?L))" using q0 L0 L52 by (simp add: fl_unit_def)
    have "pow2 (- int (nat (53 - ?L))) / 2 = pow2 ?L / 2 ^ 54"
    proof -
      have "- int (nat (53 - ?L)) = ?L - 53" using L52 by simp
      then show ?thesis by (simp add: pow2_diff) (simp add: pow2_def)
    qed
    then show ?thesis using assms(3) kL' by (intro conclude [OF e]) simp
  qed
qed


text \<open>The product for a sample, and the integer below it.\<close>

lemma expand_product_floor:
  assumes s: "small_depth s" and d: "small_depth d" and lt: "s < d" and v: "v < 2 ^ s"
  shows "\<lfloor>dbl (dbl (max_of d / max_of s) * of_nat v)\<rfloor> = int (v * (2 ^ d - 1) div (2 ^ s - 1))"
    and "0 \<le> dbl (dbl (max_of d / max_of s) * of_nat v)"
proof -
  define f where "f = dbl (max_of d / max_of s)"
  define x where "x = of_nat v * max_of d / max_of s"
  define k where "k = v * (2 ^ d - 1) div (2 ^ s - 1)"
  define R where "R = v * (2 ^ d - 1) mod (2 ^ s - 1)"
  have sd: "8 \<le> s" "d \<le> 32" using small_depth_le [OF s] small_depth_le [OF d] by auto
  have Mnat: "max_of s = of_nat (2 ^ s - 1)" "max_of d = of_nat (2 ^ d - 1)" by (simp_all add: max_of_def)
  have M: "0 < max_of s" "0 < max_of d" using max_of_pos sd lt by simp_all
  have Mle: "max_of s \<le> 2 ^ 16"
  proof -
    have "s \<le> 16" using s d lt by (auto simp: small_depth_def)
    then have "(2 :: rat) ^ s \<le> 2 ^ 16" by (intro power_increasing) simp_all
    then show ?thesis by (simp add: max_of_def)
  qed
  have split: "v * (2 ^ d - 1) = k * (2 ^ s - 1) + R" by (simp only: k_def R_def div_mult_mod_eq)
  have Rless: "R < 2 ^ s - 1" using sd(1) power_increasing [of 1 s "2 :: nat"] by (simp add: R_def)
  have x: "x = of_nat k + of_nat R / max_of s"
  proof -
    have "x = of_nat (v * (2 ^ d - 1)) / max_of s" unfolding x_def Mnat(2) of_nat_mult ..
    also have "\<dots> = (of_nat k * max_of s + of_nat R) / max_of s" unfolding split of_nat_add of_nat_mult Mnat(1) ..
    finally show ?thesis using M by (simp add: add_divide_distrib)
  qed
  have vM: "of_nat v \<le> max_of s" using v unfolding Mnat(1) of_nat_le_iff by simp
  have xle: "x \<le> max_of d" unfolding x_def using vM M by (simp add: pos_divide_le_eq mult.commute)
  have d32: "max_of d < 2 ^ 32"
  proof -
    have "(2 :: rat) ^ d \<le> 2 ^ 32" using sd(2) by (intro power_increasing) simp_all
    then show ?thesis by (simp add: max_of_def)
  qed
  have x0: "0 \<le> x" using M by (simp add: x_def)
  note range = quotient_range [OF _ lt]
  have fe: "\<bar>f - max_of d / max_of s\<bar> \<le> 2 ^ (d - s) / 2 ^ 54" unfolding f_def by (rule factor_error [OF s d lt])
  have rng: "2 ^ (d - s) \<le> max_of d / max_of s" using quotient_range(1) [of s d] sd(1) lt by simp
  have fx: "\<bar>f * of_nat v - x\<bar> \<le> of_nat v * 2 ^ (d - s) / 2 ^ 54"
  proof -
    have "f * of_nat v - x = (f - max_of d / max_of s) * of_nat v"
      unfolding x_def left_diff_distrib by simp
    then have "\<bar>f * of_nat v - x\<bar> = \<bar>f - max_of d / max_of s\<bar> * of_nat v" by (simp add: abs_mult)
    also have "\<dots> \<le> 2 ^ (d - s) / 2 ^ 54 * of_nat v" using fe by (rule mult_right_mono) simp
    finally show ?thesis by (simp add: ac_simps)
  qed
  have vx: "of_nat v * 2 ^ (d - s) \<le> x"
    using mult_left_mono [OF rng, of "of_nat v"] by (simp add: x_def)
  then have fx': "\<bar>f * of_nat v - x\<bar> \<le> x / 2 ^ 54" using fx by (simp add: divide_right_mono order_trans)
  have goal: "\<lfloor>dbl (f * of_nat v)\<rfloor> = int k \<and> 0 \<le> dbl (f * of_nat v)"
  proof (cases "v = 0")
    case True
    then show ?thesis by (simp add: k_def dbl_def)
  next
    case False
    have vx': "of_nat v * 2 ^ (d - s) < x"
    proof -
      have "(1 :: rat) < 2 ^ (d - s)" using lt by simp
      then have "2 ^ (d - s) * max_of s < max_of d"
        using power_add [of "2 :: rat" "d - s" s] lt by (simp add: max_of_def algebra_simps)
      then have "2 ^ (d - s) < max_of d / max_of s" using M by (simp add: pos_less_divide_eq)
      then have "of_nat v * 2 ^ (d - s) < of_nat v * (max_of d / max_of s)"
        using False by (intro mult_strict_left_mono) simp_all
      then show ?thesis by (simp add: x_def)
    qed
    then have fx'': "\<bar>f * of_nat v - x\<bar> < x / 2 ^ 54" using fx by (simp add: pos_less_divide_eq pos_divide_le_eq)
    have x1: "1 \<le> x"
    proof -
      have "(1 :: rat) \<le> of_nat v * 2 ^ (d - s)"
        using False mult_mono [of 1 "of_nat v" 1 "2 ^ (d - s) :: rat"] by simp
      then show ?thesis using vx by linarith
    qed
    have k32: "int k < 2 ^ 53"
    proof -
      have "of_nat k \<le> x" using x M by simp
      then have "of_nat k < (2 ^ 32 :: rat)" using xle d32 by linarith
      then have "k < 2 ^ 32" by (simp add: of_nat_less_numeral_power_cancel_iff)
      then show ?thesis by simp
    qed
    show ?thesis
    proof (cases "R = 0")
      case True
      then have xk: "x = of_int (int k)" using x by simp
      then have "0 < int k" using x1 by simp
      then have "dbl (f * of_nat v) = of_int (int k)"
        using fx'' k32 unfolding xk by (intro dbl_near_int)
      then show ?thesis by simp
    next
      case False
      have small: "x / 2 ^ 54 \<le> 1 / 2 ^ 22" using xle d32 by simp
      have p: "\<bar>f * of_nat v - x\<bar> < 1 / 2 ^ 22" using fx'' small by linarith
      have c: "(1 :: rat) / 2 ^ 22 \<le> 1 / 2" "(2 :: rat) ^ 32 + 1 \<le> 2 ^ 33" "(1 :: rat) / 2 ^ 20 + 1 / 2 ^ 22 \<le> 1 / 2 ^ 19"
        "(1 :: rat) / 2 ^ 19 \<le> 1 / 2 ^ 16" by simp_all
      have p0: "1 / 2 \<le> f * of_nat v" "f * of_nat v < 2 ^ 33" using p x1 xle d32 c(1, 2) unfolding abs_less_iff by linarith+
      have "1 / 2 ^ 1000 \<le> \<bar>f * of_nat v\<bar>" using p0(1) by simp
      from dbl_relative [OF this] have "\<bar>dbl (f * of_nat v) - f * of_nat v\<bar> \<le> 1 / 2 ^ 20" using p0 by (simp add: abs_of_nonneg)
      then have r: "\<bar>dbl (f * of_nat v) - x\<bar> < 1 / 2 ^ 19" using p c(3) by linarith
      have gap: "1 / 2 ^ 16 \<le> 1 / max_of s" using Mle M by (simp add: divide_left_mono)
      have "1 / max_of s \<le> of_nat R / max_of s" using False M by (intro divide_right_mono) simp_all
      moreover have "of_nat R / max_of s \<le> (max_of s - 1) / max_of s"
      proof -
        have "of_nat R + 1 \<le> max_of s" unfolding Mnat(1) using Rless by (metis Suc_leI of_nat_Suc of_nat_le_iff add.commute)
        then show ?thesis using M by (intro divide_right_mono) simp_all
      qed
      moreover have "(max_of s - 1) / max_of s = 1 - 1 / max_of s" using M by (simp add: diff_divide_distrib)
      ultimately have "of_nat k \<le> dbl (f * of_nat v)" "dbl (f * of_nat v) < of_nat k + 1"
        using r gap x c(4) unfolding abs_less_iff by linarith+
      then show ?thesis by (simp add: floor_unique)
    qed
  qed
  show "\<lfloor>dbl (dbl (max_of d / max_of s) * of_nat v)\<rfloor> = int (v * (2 ^ d - 1) div (2 ^ s - 1))"
    "0 \<le> dbl (dbl (max_of d / max_of s) * of_nat v)"
    using goal by (simp_all add: f_def k_def)
qed

section \<open>Samples\<close>

text \<open>The change of depth over the natural numbers.\<close>

definition scale_sample :: "nat \<Rightarrow> nat \<Rightarrow> nat \<Rightarrow> nat" where
  "scale_sample d s v =
     (if d = s then v else if d < s then v div 2 ^ (s - d) else v * (2 ^ d - 1) div (2 ^ s - 1))"

lemma bit_depth_cases: "getBitDepth pf = 64 \<or> small_depth (getBitDepth pf)"
  by (cases pf) (simp_all add: getBitDepth_def small_depth_def Let_def)

lemma depth_within_sample: "getBitDepth pf \<le> sample_bits pf \<and> sample_bits pf \<le> 64"
  by (cases pf) (simp_all add: getBitDepth_def sample_bits_def sample_size_def Let_def)

lemma to_sample_small: "v < 2 ^ getBitDepth pf \<Longrightarrow> to_sample pf v = v"
proof -
  assume v: "v < 2 ^ getBitDepth pf"
  have "(2 :: nat) ^ getBitDepth pf \<le> 2 ^ sample_bits pf" using depth_within_sample [of pf] by (intro power_increasing) simp_all
  then have "v < 2 ^ sample_bits pf" using v by linarith
  then show ?thesis by (simp add: to_sample_def)
qed

lemma scale_range:
  assumes "v < 2 ^ s" and "0 < s"
  shows "scale_sample d s v < 2 ^ d"
proof -
  have one: "(1 :: nat) \<le> 2 ^ d" "(2 :: nat) \<le> 2 ^ s" using assms(2) power_increasing [of 1 s "2 :: nat"] by simp_all
  show ?thesis
  proof (cases "d \<le> s")
    case True
    then show ?thesis
      using assms(1) by (auto simp: scale_sample_def less_mult_imp_div_less power_add [symmetric])
  next
    case False
    have "v * (2 ^ d - 1) \<le> (2 ^ s - 1) * (2 ^ d - 1)" using assms(1) by (intro mult_le_mono1) simp
    then have "v * (2 ^ d - 1) div (2 ^ s - 1) \<le> (2 ^ s - 1) * (2 ^ d - 1) div (2 ^ s - 1)" by (rule div_le_mono)
    moreover have "(2 ^ s - 1) * (2 ^ d - 1) div (2 ^ s - 1) = (2 ^ d - 1 :: nat)"
      using one(2) by (intro nonzero_mult_div_cancel_left) simp
    ultimately have "v * (2 ^ d - 1) div (2 ^ s - 1) < 2 ^ d" using one(1) by linarith
    then show ?thesis using False unfolding scale_sample_def by simp
  qed
qed

lemma expand_sample_exact:
  assumes "small_depth (getBitDepth dpf)" and "small_depth (getBitDepth spf)" and "getBitDepth spf < getBitDepth dpf"
    and "v < 2 ^ getBitDepth spf"
  shows "expand_sample dpf spf v = Some (scale_sample (getBitDepth dpf) (getBitDepth spf) v)"
proof -
  let ?d = "getBitDepth dpf" and ?s = "getBitDepth spf"
  have le: "?d \<le> 32" "?s \<le> 32" "0 < ?s" using small_depth_le [OF assms(1)] small_depth_le [OF assms(2)] by auto
  have factor: "expand_factor dpf spf = dbl (max_of ?d / max_of ?s)"
    using le by (simp add: expand_factor_def maximum_dbl_small)
  have "v < 2 ^ 32" using assms(4) le(2) power_increasing [of ?s 32 "2 :: nat"] by linarith
  then have dv: "dbl (of_nat v) = of_nat v" by (intro dbl_nat) simp
  have k: "scale_sample ?d ?s v = v * (2 ^ ?d - 1) div (2 ^ ?s - 1)" using assms(3) by (simp add: scale_sample_def)
  have "scale_sample ?d ?s v < 2 ^ ?d" by (rule scale_range [OF assms(4) le(3)])
  also have "(2 :: nat) ^ ?d \<le> 2 ^ sample_bits dpf" using depth_within_sample [of dpf] by (intro power_increasing) simp_all
  finally have "int (scale_sample ?d ?s v) < 2 ^ sample_bits dpf" by (simp add: of_nat_less_numeral_power_cancel_iff)
  then show ?thesis
    using expand_product_floor [OF assms(2, 1, 3, 4)]
    by (simp add: expand_sample_def factor dv dbl_to_sample_def k)
qed

lemma reduce_sample_exact:
  assumes "getBitDepth dpf < getBitDepth spf" and "v < 2 ^ getBitDepth spf" and "0 < getBitDepth spf"
  shows "reduce_sample dpf spf v = scale_sample (getBitDepth dpf) (getBitDepth spf) v"
  using assms scale_range [OF assms(2, 3), of "getBitDepth dpf"] to_sample_small [of _ dpf]
  by (simp add: reduce_sample_def scale_sample_def)

text \<open>A format with depths of at most 32 bits on both sides.\<close>

definition narrow :: "ePixFormat \<Rightarrow> bool" where
  "narrow pf \<longleftrightarrow> getBitDepth pf \<le> 32"

lemma narrow_small: "narrow pf \<Longrightarrow> small_depth (getBitDepth pf) \<and> 0 < getBitDepth pf"
  using bit_depth_cases [of pf] small_depth_le [of "getBitDepth pf"] by (auto simp: narrow_def)

lemma adapt_sample_exact:
  assumes "narrow dpf" and "narrow spf" and "v < 2 ^ getBitDepth spf"
  shows "adapt_sample dpf spf v = Some (scale_sample (getBitDepth dpf) (getBitDepth spf) v)"
proof (cases "getBitDepth dpf" "getBitDepth spf" rule: linorder_cases)
  case less
  then show ?thesis
    using reduce_sample_exact [OF less assms(3)] narrow_small [OF assms(2)] by (simp add: adapt_sample_def)
next
  case equal
  then show ?thesis using to_sample_small [of v dpf] assms(3) by (simp add: adapt_sample_def scale_sample_def)
next
  case greater
  then show ?thesis
    using expand_sample_exact [OF _ _ greater assms(3)] narrow_small [OF assms(1)] narrow_small [OF assms(2)]
    by (simp add: adapt_sample_def)
qed

definition samples_fit :: "ePixFormat \<Rightarrow> nat list \<Rightarrow> bool" where
  "samples_fit pf p \<longleftrightarrow> length p = getDataNum pf \<and> (\<forall>v \<in> set p. v < 2 ^ getBitDepth pf)"

definition gray_of :: "nat list \<Rightarrow> nat" where
  "gray_of p = (p ! 0 + p ! 1 + p ! 2) div 3"

lemma gray_exact:
  assumes "narrow dpf" and "narrow spf" and "samples_fit spf p" and "3 \<le> getDataNum spf"
  shows "gray_sample dpf spf p = Some (scale_sample (getBitDepth dpf) (getBitDepth spf) (gray_of p))"
    and "gray_of p < 2 ^ getBitDepth spf"
proof -
  let ?s = "getBitDepth spf"
  have v: "p ! 0 < 2 ^ ?s" "p ! 1 < 2 ^ ?s" "p ! 2 < 2 ^ ?s"
    using assms(3, 4) by (simp_all add: samples_fit_def)
  have "(2 :: nat) ^ ?s \<le> 2 ^ 32" using assms(2) by (intro power_increasing) (simp_all add: narrow_def)
  then have avg: "gray_average p = gray_of p" using v by (simp add: gray_average_def gray_of_def)
  show g: "gray_of p < 2 ^ ?s" using v by (simp add: gray_of_def less_mult_imp_div_less)
  have "gray_sample dpf spf p = adapt_sample dpf spf (gray_of p)"
    using to_sample_small [OF g] by (simp add: gray_sample_def adapt_sample_def avg)
  then show "gray_sample dpf spf p = Some (scale_sample (getBitDepth dpf) ?s (gray_of p))"
    using adapt_sample_exact [OF assms(1, 2) g] by simp
qed

lemma alpha_exact: "narrow dpf \<Longrightarrow> alpha_opaque dpf = Some (2 ^ sample_bits dpf - 1)"
proof -
  assume n: "narrow dpf"
  have b: "sample_bits dpf \<le> 32"
    using n by (cases dpf) (simp_all add: narrow_def getBitDepth_def sample_bits_def sample_size_def Let_def)
  have "max_of (sample_bits dpf) = of_int (2 ^ sample_bits dpf - 1)" by (simp add: max_of_def)
  then have "\<lfloor>max_of (sample_bits dpf)\<rfloor> = 2 ^ sample_bits dpf - 1" by (simp only: floor_of_int)
  moreover have "0 \<le> max_of (sample_bits dpf)" by (simp add: max_of_def)
  moreover have "nat (2 ^ sample_bits dpf - 1) = 2 ^ sample_bits dpf - 1" by (simp add: nat_diff_distrib nat_power_eq)
  ultimately show ?thesis using maximum_dbl_small [OF b] by (simp add: alpha_opaque_def dbl_to_sample_def)
qed

section \<open>Images\<close>

definition fitting_image :: "ePixFormat \<Rightarrow> nat list Image \<Rightarrow> bool" where
  "fitting_image pf im \<longleftrightarrow> (\<forall>p \<in> set (im_pixels im). samples_fit pf p)"

lemma those_map: "(\<And>x. x \<in> set xs \<Longrightarrow> f x = Some (g x)) \<Longrightarrow> those (map f xs) = Some (map g xs)"
  by (induction xs) simp_all

lemma map_pixels_exact:
  "(\<And>p. p \<in> set (im_pixels im) \<Longrightarrow> f p = Some (g p)) \<Longrightarrow>
     map_pixels f im = Some (im\<lparr>im_pixels := map g (im_pixels im)\<rparr>)"
  by (simp add: map_pixels_def those_map)

text \<open>A pixel in the other format.\<close>

definition cast_pixel :: "ePixFormat \<Rightarrow> ePixFormat \<Rightarrow> nat list \<Rightarrow> nat list" where
  "cast_pixel dpf spf p =
     (let scale = scale_sample (getBitDepth dpf) (getBitDepth spf); s = getDataNum spf; d = getDataNum dpf;
          colors = (if s = 1 then replicate (min d 3) (scale (p ! 0))
                    else if d = 1 then [scale (gray_of p)] else map scale (take 3 p))
      in if d = 4 then (if s = 4 then map scale p else colors @ [2 ^ sample_bits dpf - 1]) else colors)"

definition color_format :: "ePixFormat \<Rightarrow> bool" where
  "color_format pf \<longleftrightarrow> getDataNum pf \<noteq> 2"

lemma color_format_cases: "color_format pf \<Longrightarrow> getDataNum pf = 1 \<or> getDataNum pf = 3 \<or> getDataNum pf = 4"
  by (cases pf) (simp_all add: color_format_def getDataNum_def Let_def)

lemma cast_depth_exact:
  assumes "narrow dpf" and "narrow spf" and "fitting_image spf im"
  shows "castDepth dpf spf im
    = Some (im\<lparr>im_pixels := map (map (scale_sample (getBitDepth dpf) (getBitDepth spf))) (im_pixels im)\<rparr>)"
proof -
  let ?scale = "scale_sample (getBitDepth dpf) (getBitDepth spf)"
  have fit: "v < 2 ^ getBitDepth spf" if "p \<in> set (im_pixels im)" "v \<in> set p" for p v
    using that assms(3) by (auto simp: fitting_image_def samples_fit_def)
  note small = narrow_small [OF assms(1)] narrow_small [OF assms(2)]
  consider "getBitDepth dpf < getBitDepth spf" | "getBitDepth spf < getBitDepth dpf" | "getBitDepth dpf = getBitDepth spf"
    by linarith
  then show ?thesis
  proof cases
    case 1
    have "reduceImage dpf spf im = Some (im\<lparr>im_pixels := map (map ?scale) (im_pixels im)\<rparr>)"
      unfolding reduceImage_def using fit 1 small by (intro map_pixels_exact) (simp add: reduce_sample_exact)
    then show ?thesis using 1 by (simp add: castDepth_def)
  next
    case 2
    have "expandImage dpf spf im = Some (im\<lparr>im_pixels := map (map ?scale) (im_pixels im)\<rparr>)"
      unfolding expandImage_def using fit 2 small by (intro map_pixels_exact those_map) (simp add: expand_sample_exact)
    then show ?thesis using 2 by (simp add: castDepth_def)
  next
    case 3
    have "copyImage dpf spf im = Some (im\<lparr>im_pixels := map (map ?scale) (im_pixels im)\<rparr>)"
      unfolding copyImage_def using fit 3
      by (intro map_pixels_exact) (simp add: scale_sample_def to_sample_small)
    then show ?thesis using 3 by (simp add: castDepth_def)
  qed
qed

lemma first_three: "samples_fit pf p \<Longrightarrow> 3 \<le> getDataNum pf \<Longrightarrow> take 3 p = [p ! 0, p ! 1, p ! 2] \<and> {p ! 0, p ! 1, p ! 2} \<subseteq> set p"
proof -
  assume "samples_fit pf p" "3 \<le> getDataNum pf"
  then have "3 \<le> length p" by (simp add: samples_fit_def)
  then obtain a b c q where "p = a # b # c # q"
    by (cases p; cases "tl p"; cases "tl (tl p)") auto
  then show ?thesis by simp
qed

lemma cast_exact:
  assumes "narrow dpf" and "narrow spf" and "color_format dpf" and "color_format spf" and "fitting_image spf im"
  shows "castData_image dpf spf im = Some (Inr (im\<lparr>im_pixels := map (cast_pixel dpf spf) (im_pixels im)\<rparr>))"
proof -
  let ?scale = "scale_sample (getBitDepth dpf) (getBitDepth spf)"
  have fit: "samples_fit spf p" if "p \<in> set (im_pixels im)" for p using that assms(5) by (simp add: fitting_image_def)
  have first: "adapt_sample dpf spf (p ! 0) = Some (?scale (p ! 0))" if "p \<in> set (im_pixels im)" for p
  proof -
    have "0 < length p" using fit [OF that] color_format_cases [OF assms(4)] by (auto simp: samples_fit_def)
    then have "p ! 0 \<in> set p" by (rule nth_mem)
    then have "p ! 0 < 2 ^ getBitDepth spf" using fit [OF that] by (simp add: samples_fit_def)
    then show ?thesis by (rule adapt_sample_exact [OF assms(1, 2)])
  qed
  have three: "those (map (adapt_sample dpf spf) [p ! 0, p ! 1, p ! 2]) = Some (map ?scale (take 3 p))"
    if "p \<in> set (im_pixels im)" "3 \<le> getDataNum spf" for p
    using first_three [OF fit [OF that(1)] that(2)] fit [OF that(1)] adapt_sample_exact [OF assms(1, 2)]
    by (auto simp: samples_fit_def)
  note gray = gray_exact(1) [OF assms(1, 2) fit]
  note alpha = alpha_exact [OF assms(1)]
  note depth = cast_depth_exact [OF assms(1, 2, 5)]
  have same: "map (cast_pixel dpf spf) (im_pixels im) = map (map ?scale) (im_pixels im)"
    if "getDataNum dpf = getDataNum spf"
  proof -
    have "cast_pixel dpf spf p = map ?scale p" if "p \<in> set (im_pixels im)" for p
      using fit [OF that] color_format_cases [OF assms(4)] \<open>getDataNum dpf = getDataNum spf\<close>
      by (cases p) (auto simp: cast_pixel_def samples_fit_def Let_def)
    then show ?thesis by simp
  qed
  consider "getDataNum dpf = getDataNum spf"
    | "getDataNum spf = 1" "getDataNum dpf = 3" | "getDataNum spf = 1" "getDataNum dpf = 4"
    | "getDataNum spf = 3" "getDataNum dpf = 1" | "getDataNum spf = 3" "getDataNum dpf = 4"
    | "getDataNum spf = 4" "getDataNum dpf = 1" | "getDataNum spf = 4" "getDataNum dpf = 3"
    using color_format_cases [OF assms(3)] color_format_cases [OF assms(4)] by auto
  then show ?thesis
  proof cases
    case 1
    then show ?thesis
      using color_format_cases [OF assms(4)] depth same by (auto simp: castData_image_def Let_def)
  next
    case 2
    have "mono2color dpf spf im = Some (im\<lparr>im_pixels := map (cast_pixel dpf spf) (im_pixels im)\<rparr>)"
      unfolding mono2color_def
      by (rule map_pixels_exact) (use 2 in \<open>simp add: first cast_pixel_def Let_def numeral_3_eq_3\<close>)
    then show ?thesis using 2 by (simp add: castData_image_def)
  next
    case 3
    have "mono2acolor dpf spf im = Some (im\<lparr>im_pixels := map (cast_pixel dpf spf) (im_pixels im)\<rparr>)"
      unfolding mono2acolor_def alpha option.case
      by (rule map_pixels_exact) (use 3 in \<open>simp add: first cast_pixel_def Let_def numeral_3_eq_3\<close>)
    then show ?thesis using 3 by (simp add: castData_image_def)
  next
    case 4
    have "color2mono dpf spf im = Some (im\<lparr>im_pixels := map (cast_pixel dpf spf) (im_pixels im)\<rparr>)"
      unfolding color2mono_def
      by (rule map_pixels_exact) (use 4 in \<open>simp add: gray cast_pixel_def Let_def\<close>)
    then show ?thesis using 4 by (simp add: castData_image_def)
  next
    case 5
    have "color2acolor dpf spf im = Some (im\<lparr>im_pixels := map (cast_pixel dpf spf) (im_pixels im)\<rparr>)"
      unfolding color2acolor_def alpha option.case
      by (rule map_pixels_exact) (use 5 in \<open>simp only: three, simp add: three cast_pixel_def Let_def\<close>)
    then show ?thesis using 5 by (simp add: castData_image_def)
  next
    case 6
    have "acolor2mono dpf spf im = Some (im\<lparr>im_pixels := map (cast_pixel dpf spf) (im_pixels im)\<rparr>)"
      unfolding acolor2mono_def
      by (rule map_pixels_exact) (use 6 in \<open>simp add: gray cast_pixel_def Let_def\<close>)
    then show ?thesis using 6 by (simp add: castData_image_def)
  next
    case 7
    have "acolor2color dpf spf im = Some (im\<lparr>im_pixels := map (cast_pixel dpf spf) (im_pixels im)\<rparr>)"
      unfolding acolor2color_def
      by (rule map_pixels_exact) (use 7 in \<open>simp only: three, simp add: three cast_pixel_def Let_def\<close>)
    then show ?thesis using 7 by (simp add: castData_image_def)
  qed
qed

section \<open>Alpha maps\<close>

lemma average3_exact: "unat (average3 a b c) = (unat a + unat b + unat c) div 3"
proof -
  let ?q = "unat a div 3 + unat b div 3 + unat c div 3" and ?r = "unat a mod 3 + unat b mod 3 + unat c mod 3"
  have lt: "unat a < 2 ^ 64" "unat b < 2 ^ 64" "unat c < 2 ^ 64"
    using unat_lt_size [of a] unat_lt_size [of b] unat_lt_size [of c] by simp_all
  have sum: "unat a + unat b + unat c = 3 * ?q + ?r" by simp
  have quot: "unat (a div 3 + b div 3) = unat a div 3 + unat b div 3"
    using lt by (subst unat_add_u64) (simp_all add: unat_div)
  have quot': "unat (a div 3 + b div 3 + c div 3) = ?q"
    using lt quot by (subst unat_add_u64) (simp_all add: unat_div)
  have rest: "unat (a mod 3 + b mod 3) = unat a mod 3 + unat b mod 3"
    by (subst unat_add_u64) (simp_all add: unat_mod)
  have rest': "unat (a mod 3 + b mod 3 + c mod 3) = ?r"
    using rest by (subst unat_add_u64) (simp_all add: unat_mod)
  have "(3 * ?q + ?r) div 3 = ?q + ?r div 3" by (rule div_mult_self4) simp
  then have avg: "?q + ?r div 3 = (unat a + unat b + unat c) div 3" by (simp only: sum [symmetric])
  have "(unat a + unat b + unat c) div 3 < 2 ^ 64" using lt by (simp add: less_mult_imp_div_less)
  then have "?q + ?r div 3 < 2 ^ 64" unfolding avg .
  then have "unat (average3 a b c) = ?q + ?r div 3"
    unfolding average3_def using quot' rest' by (subst unat_add_u64) (simp_all add: unat_div)
  then show ?thesis unfolding avg .
qed

lemma alphamap_average_exact:
  assumes "samples_fit pf p" and "getDataNum pf = 3"
  shows "alphamap_average p = gray_of p" and "gray_of p < 2 ^ getBitDepth pf"
proof -
  have v: "p ! 0 < 2 ^ getBitDepth pf" "p ! 1 < 2 ^ getBitDepth pf" "p ! 2 < 2 ^ getBitDepth pf"
    using assms by (simp_all add: samples_fit_def)
  show "gray_of p < 2 ^ getBitDepth pf" using v by (simp add: gray_of_def less_mult_imp_div_less)
  have "getBitDepth pf \<le> 64" using depth_within_sample [of pf] by simp
  then have "(2 :: nat) ^ getBitDepth pf \<le> 2 ^ 64" by (intro power_increasing) simp_all
  then show "alphamap_average p = gray_of p"
    using v by (simp add: alphamap_average_def average3_exact unat_of_nat gray_of_def)
qed

text \<open>A pixel of an alpha map.\<close>

definition alphamap_pixel :: "ePixFormat \<Rightarrow> ePixFormat \<Rightarrow> nat list \<Rightarrow> nat list" where
  "alphamap_pixel dpf spf p =
     (let scale = scale_sample (getBitDepth dpf) (getBitDepth spf); s = getDataNum spf in
      if s = 4 then map scale p else replicate 4 (scale (if s = 1 then p ! 0 else gray_of p)))"

lemma alphamap_exact:
  assumes "narrow dpf" and "narrow spf" and "getDataNum dpf = 4" and "color_format spf" and "fitting_image spf im"
  shows "to4chAlphamap dpf spf im = Some (Inr (im\<lparr>im_pixels := map (alphamap_pixel dpf spf) (im_pixels im)\<rparr>))"
proof -
  have fit: "samples_fit spf p" if "p \<in> set (im_pixels im)" for p using that assms(5) by (simp add: fitting_image_def)
  note adapt = adapt_sample_exact [OF assms(1, 2)]
  consider "getDataNum spf = 1" | "getDataNum spf = 3" | "getDataNum spf = 4"
    using color_format_cases [OF assms(4)] by blast
  then show ?thesis
  proof cases
    case 1
    have "convert4chAlphamap_mono dpf spf im = Some (im\<lparr>im_pixels := map (alphamap_pixel dpf spf) (im_pixels im)\<rparr>)"
      unfolding convert4chAlphamap_mono_def
    proof (rule map_pixels_exact)
      fix p assume "p \<in> set (im_pixels im)"
      then have "p ! 0 < 2 ^ getBitDepth spf" using fit [of p] nth_mem [of 0 p] 1 by (simp add: samples_fit_def)
      then show "map_option (replicate (getDataNum dpf)) (adapt_sample dpf spf (p ! 0)) = Some (alphamap_pixel dpf spf p)"
        using adapt 1 assms(3) by (simp add: alphamap_pixel_def)
    qed
    then show ?thesis using 1 by (simp add: to4chAlphamap_def)
  next
    case 2
    have "convert4chAlphamap_color dpf spf im = Some (im\<lparr>im_pixels := map (alphamap_pixel dpf spf) (im_pixels im)\<rparr>)"
      unfolding convert4chAlphamap_color_def
      by (rule map_pixels_exact)
        (use 2 assms(3) alphamap_average_exact [OF fit 2] adapt in \<open>simp add: alphamap_pixel_def\<close>)
    then show ?thesis using 2 by (simp add: to4chAlphamap_def)
  next
    case 3
    then have "castDepth dpf spf im = Some (im\<lparr>im_pixels := map (alphamap_pixel dpf spf) (im_pixels im)\<rparr>)"
      using cast_depth_exact [OF assms(1, 2, 5)] by (simp add: alphamap_pixel_def [abs_def])
    then show ?thesis using 3 by (simp add: to4chAlphamap_def)
  qed
qed

section \<open>Properties\<close>

text \<open>An image of the format: as many samples in a pixel as the format has, each in the sample type.  The
  sample type is wider than the depth for 10, 12 and 14 bits, so the samples of such an image may exceed
  the maximum of the depth; \<open>fitting_image\<close> says that none does.\<close>

definition typed_image :: "ePixFormat \<Rightarrow> nat list Image \<Rightarrow> bool" where
  "typed_image pf im \<longleftrightarrow>
     (\<forall>p \<in> set (im_pixels im). length p = getDataNum pf \<and> (\<forall>v \<in> set p. v < 2 ^ sample_bits pf))"

lemma narrow_bits: "narrow pf \<Longrightarrow> sample_bits pf \<le> 32"
  by (cases pf) (simp_all add: narrow_def getBitDepth_def sample_bits_def sample_size_def Let_def)

text \<open>The factor exceeds the power of two between the depths by more than all roundings.\<close>

lemma expand_factor_lower:
  assumes "small_depth s" and "small_depth d" and "s < d"
  shows "2 ^ (d - s) * (1 + 1 / 2 ^ 20) \<le> dbl (max_of d / max_of s)"
proof -
  have s: "s \<le> 16" using assms by (auto simp: small_depth_def)
  have two: "2 \<le> d - s" using assms by (auto simp: small_depth_def)
  let ?P = "2 ^ (d - s) :: rat" and ?S = "2 ^ s :: rat"
  have S: "1 < ?S" "?S \<le> 2 ^ 16"
    using assms(1) s power_increasing [of s 16 "2 :: rat"] by (auto simp: small_depth_def)
  have P: "4 \<le> ?P" using power_increasing [OF two, of "2 :: rat"] by simp
  have split: "(2 :: rat) ^ d = ?P * ?S" using assms(3) by (simp add: power_add [symmetric])
  have "?P * (1 + 1 / 2 ^ 18) * (?S - 1) \<le> ?P * ?S - 1"
  proof -
    have "?P * (?S - 1) / 2 ^ 18 \<le> ?P / 4" using S(2) P by (simp add: field_simps)
    moreover have "?P * (1 + 1 / 2 ^ 18) * (?S - 1) = ?P * ?S - ?P + ?P * (?S - 1) / 2 ^ 18" by (simp add: field_simps)
    ultimately show ?thesis using P by linarith
  qed
  then have "?P * (1 + 1 / 2 ^ 18) \<le> max_of d / max_of s"
    using S(1) unfolding max_of_def split by (simp add: pos_le_divide_eq)
  moreover have "max_of d / max_of s - ?P / 2 ^ 54 \<le> dbl (max_of d / max_of s)"
    using factor_error [OF assms] by linarith
  ultimately show ?thesis using P by (simp add: algebra_simps)
qed

lemma expand_sample_overflow:
  assumes d: "small_depth (getBitDepth dpf)" and s: "small_depth (getBitDepth spf)" and lt: "getBitDepth spf < getBitDepth dpf"
    and full: "sample_bits dpf = getBitDepth dpf" and v: "2 ^ getBitDepth spf \<le> v" "v < 2 ^ 32"
  shows "expand_sample dpf spf v = None"
proof -
  let ?d = "getBitDepth dpf" and ?s = "getBitDepth spf"
  let ?F = "dbl (max_of ?d / max_of ?s)"
  have "(2 :: nat) ^ 32 \<le> 2 ^ 53" by simp
  then have dv: "dbl (of_nat v) = of_nat v" using v(2) by (intro dbl_nat) linarith
  have vr: "(2 :: rat) ^ ?s \<le> of_nat v" using v(1) by (metis of_nat_le_iff of_nat_numeral of_nat_power)
  have "(2 :: rat) ^ ?d = 2 ^ (?d - ?s) * 2 ^ ?s" using lt by (simp add: power_add [symmetric])
  then have "(2 :: rat) ^ ?d * (1 + 1 / 2 ^ 20) = (2 ^ (?d - ?s) * (1 + 1 / 2 ^ 20)) * 2 ^ ?s" by simp
  also have "\<dots> \<le> ?F * of_nat v"
  proof (rule mult_mono [OF expand_factor_lower [OF s d lt] vr])
    have "0 \<le> 2 ^ (?d - ?s) * (1 + 1 / 2 ^ 20 :: rat)" by simp
    then show "0 \<le> ?F" using expand_factor_lower [OF s d lt] by (rule order_trans)
  qed simp
  finally have "2 ^ ?d * (1 + 1 / 2 ^ 20) \<le> ?F * of_nat v" .
  moreover define X where "X = ?F * of_nat v"
  moreover define D where "D = (2 :: rat) ^ ?d"
  ultimately have big: "D + D / 2 ^ 20 \<le> X" by (simp add: field_simps)
  have one: "1 \<le> D" by (simp add: D_def)
  then have pos: "1 \<le> X" using big by simp
  have "(1 :: rat) / 2 ^ 1000 \<le> 1" by simp
  then have "1 / 2 ^ 1000 \<le> \<bar>X\<bar>" using pos by linarith
  from dbl_relative [OF this] pos have "X - X / 2 ^ 53 \<le> dbl X" by linarith
  moreover have "D \<le> X - X / 2 ^ 53" using big one by simp
  ultimately have "of_int (2 ^ ?d) \<le> dbl (?F * of_nat v)" by (simp add: X_def D_def)
  then have "2 ^ ?d \<le> \<lfloor>dbl (?F * of_nat v)\<rfloor>" by (simp only: le_floor_iff)
  moreover have "expand_factor dpf spf = ?F"
    using small_depth_le [OF d] small_depth_le [OF s] by (simp add: expand_factor_def maximum_dbl_small)
  ultimately show ?thesis by (simp add: expand_sample_def dbl_to_sample_def dv full)
qed

lemma those_none: "x \<in> set xs \<Longrightarrow> f x = None \<Longrightarrow> those (map f xs) = None"
  by (induction xs) (auto split: option.splits)

text \<open>A change of depth alone, of an image with samples beyond the depth.\<close>

definition beyond_pixel :: "ePixFormat \<Rightarrow> ePixFormat \<Rightarrow> nat list \<Rightarrow> nat list" where
  "beyond_pixel dpf spf p = map (\<lambda>v. v div 2 ^ (getBitDepth spf - getBitDepth dpf) mod 2 ^ sample_bits dpf) p"

lemma cast_depth_down:
  assumes "getBitDepth dpf \<le> getBitDepth spf"
  shows "castDepth dpf spf im = Some (im\<lparr>im_pixels := map (beyond_pixel dpf spf) (im_pixels im)\<rparr>)"
  using assms
  by (auto simp: castDepth_def reduceImage_def copyImage_def beyond_pixel_def reduce_sample_def to_sample_def
      intro!: map_pixels_exact)

lemma cast_depth_overflow:
  assumes "narrow dpf" and "narrow spf" and "getBitDepth spf < getBitDepth dpf" and "sample_bits dpf = getBitDepth dpf"
    and "typed_image spf im" and "\<not> fitting_image spf im"
  shows "castDepth dpf spf im = None"
proof -
  from assms(5,6) obtain p v where p: "p \<in> set (im_pixels im)" "v \<in> set p" "2 ^ getBitDepth spf \<le> v" "v < 2 ^ sample_bits spf"
    by (auto simp: typed_image_def fitting_image_def samples_fit_def not_less)
  have "(2 :: nat) ^ sample_bits spf \<le> 2 ^ 32" using narrow_bits [OF assms(2)] by (intro power_increasing) simp_all
  then have "expand_sample dpf spf v = None"
    using expand_sample_overflow [OF _ _ assms(3,4) p(3)] p(4) narrow_small assms(1,2) by simp
  then have "those (map (expand_sample dpf spf) p) = None" by (rule those_none [OF p(2)])
  then have "those (map (\<lambda>p. those (map (expand_sample dpf spf) p)) (im_pixels im)) = None" by (rule those_none [OF p(1)])
  then show ?thesis using assms(3) by (simp add: castDepth_def expandImage_def map_pixels_def)
qed

text \<open>C30. Converting an image between any two of the one-, three- and four-channel formats of at most 32 bits.
  When no sample exceeds the maximum of the source's depth, the conversion stays in the defined range,
  throws nothing, keeps the extent and is exact: grey is the average of the colours, colours are replicated or kept,
  a new alpha is the maximum of the sample type, and a depth change shifts down or multiplies by the quotient
  of the maxima, the truncated \<open>double\<close> product being the integer quotient
  \<open>v * (2 ^ d - 1) div (2 ^ s - 1)\<close> for every sample.  An alpha map has the grey, or each sample of a
  four-channel image, in all four channels.  An image with a sample beyond the depth, which the 16-bit sample
  type of the 10-, 12- and 14-bit formats can hold and which the alpha of a conversion to the four-channel ones is, is
  exact only between formats of the same number of channels: equal or lower depths shift and truncate each sample, and
  raising the depth to one that fills its sample type is undefined (for the other conversions of such an image nothing is
  stated).\<close>

theorem data_cast_exact:
  assumes "getBitDepth dpf \<le> 32" and "getBitDepth spf \<le> 32" and "getDataNum dpf \<noteq> 2" and "getDataNum spf \<noteq> 2"
    and "typed_image spf im"
  shows "if fitting_image spf im
    then castData_image dpf spf im = Some (Inr (im\<lparr>im_pixels := map (cast_pixel dpf spf) (im_pixels im)\<rparr>))
      \<and> (getDataNum dpf = 4
         \<longrightarrow> to4chAlphamap dpf spf im = Some (Inr (im\<lparr>im_pixels := map (alphamap_pixel dpf spf) (im_pixels im)\<rparr>)))
    else getDataNum dpf = getDataNum spf \<longrightarrow>
      (if getBitDepth dpf \<le> getBitDepth spf
       then castData_image dpf spf im = Some (Inr (im\<lparr>im_pixels := map (beyond_pixel dpf spf) (im_pixels im)\<rparr>))
       else sample_bits dpf = getBitDepth dpf \<longrightarrow> castData_image dpf spf im = None)"
proof -
  have narrow: "narrow dpf" "narrow spf" using assms(1,2) by (simp_all add: narrow_def)
  have same: "castData_image dpf spf im = map_option Inr (castDepth dpf spf im)" if "getDataNum dpf = getDataNum spf"
    using that assms(4) color_format_cases [of spf] by (auto simp: castData_image_def color_format_def Let_def)
  show ?thesis
    using cast_exact [OF narrow, of im] alphamap_exact [OF narrow, of im] same cast_depth_down [of dpf spf im]
      cast_depth_overflow [OF narrow _ _ assms(5)] assms(3,4)
    by (simp add: color_format_def not_le)
qed

theorem data_cast_exact_witness:
  "castData_image CH4D16 CH3D8 \<lparr>im_width = 1, im_height = 1, im_pixels = [[0, 128, 255]]\<rparr>
     = Some (Inr \<lparr>im_width = 1, im_height = 1, im_pixels = [[0, 128 * 257, 65535, 65535]]\<rparr>)
   \<and> castData_image CH4D10 CH3D8 \<lparr>im_width = 1, im_height = 1, im_pixels = [[0, 51, 255]]\<rparr>
     = Some (Inr \<lparr>im_width = 1, im_height = 1, im_pixels = [[0, 204, 1023, 65535]]\<rparr>)
   \<and> castData_image CH4D16 CH4D10 \<lparr>im_width = 1, im_height = 1, im_pixels = [[0, 204, 1023, 65535]]\<rparr> = None"
proof -
  let ?im = "\<lparr>im_width = 1, im_height = 1, im_pixels = [[0, 128, 255 :: nat]]\<rparr>"
  let ?im' = "\<lparr>im_width = 1, im_height = 1, im_pixels = [[0, 51, 255 :: nat]]\<rparr>"
  let ?deep = "\<lparr>im_width = 1, im_height = 1, im_pixels = [[0, 204, 1023, 65535 :: nat]]\<rparr>"
  have f: "getBitDepth CH4D16 = 16" "getBitDepth CH3D8 = 8" "getBitDepth CH4D10 = 10"
    "getDataNum CH4D16 = 4" "getDataNum CH3D8 = 3" "getDataNum CH4D10 = 4"
    "sample_bits CH4D16 = 16" "sample_bits CH3D8 = 8" "sample_bits CH4D10 = 16"
    by (simp_all add: getBitDepth_def getDataNum_def sample_bits_def sample_size_def Let_def)
  have "fitting_image CH3D8 ?im" "fitting_image CH3D8 ?im'" "\<not> fitting_image CH4D10 ?deep"
    "typed_image CH3D8 ?im" "typed_image CH3D8 ?im'" "typed_image CH4D10 ?deep"
    by (simp_all add: fitting_image_def samples_fit_def typed_image_def f)
  then show ?thesis
    using data_cast_exact [of CH4D16 CH3D8 ?im] data_cast_exact [of CH4D10 CH3D8 ?im'] data_cast_exact [of CH4D16 CH4D10 ?deep]
    by (simp add: f cast_pixel_def scale_sample_def Let_def)
qed

lemma scale_up_down:
  assumes "v < 2 ^ s" and "s \<le> d" and "0 < s"
  shows "scale_sample s d (scale_sample d s v) = v"
proof (cases "s = d")
  case True
  then show ?thesis by (simp add: scale_sample_def)
next
  case False
  define P where "P = (2 :: nat) ^ (d - s)"
  define M where "M = (2 :: nat) ^ s - 1"
  have P: "1 \<le> P" by (simp add: P_def)
  have M: "v \<le> M" "0 < M" using assms(1, 3) power_increasing [of 1 s "2 :: nat"] by (simp_all add: M_def)
  have "(2 :: nat) ^ d = P * (M + 1)" using assms(2) by (simp add: P_def M_def power_add [symmetric])
  then have N: "(2 :: nat) ^ d - 1 = P * M + (P - 1)" using P by simp
  have "v * (2 ^ d - 1) = v * P * M + v * (P - 1)" unfolding N by (simp add: algebra_simps)
  then have q: "v * (2 ^ d - 1) div M = v * P + v * (P - 1) div M" using M(2) by simp
  have "v * (P - 1) div M \<le> M * (P - 1) div M" using M(1) by (intro div_le_mono mult_le_mono1)
  also have "M * (P - 1) div M = P - 1" using M(2) by simp
  finally have "(v * P + v * (P - 1) div M) div P = v" using P by simp
  then show ?thesis using False assms(2) q by (simp add: scale_sample_def P_def M_def)
qed

text \<open>Raising the depth of an image and lowering it again gives the image back: between formats of the same
  number of channels and at most 32 bits both conversions succeed and nothing is lost.\<close>

theorem data_cast_depth_roundtrip:
  assumes "getBitDepth spf \<le> getBitDepth dpf" and "getBitDepth dpf \<le> 32" and "getDataNum dpf = getDataNum spf"
    and "getDataNum spf \<noteq> 2" and "fitting_image spf im"
  shows "\<exists>deep. castData_image dpf spf im = Some (Inr deep) \<and> castData_image spf dpf deep = Some (Inr im)"
proof -
  let ?up = "scale_sample (getBitDepth dpf) (getBitDepth spf)" and ?down = "scale_sample (getBitDepth spf) (getBitDepth dpf)"
  define deep where "deep = im\<lparr>im_pixels := map (map ?up) (im_pixels im)\<rparr>"
  have narrow: "narrow spf" "narrow dpf" using assms(1, 2) by (auto simp: narrow_def)
  note s0 = narrow_small [OF narrow(1)]
  have same: "castData_image a b i = map_option Inr (castDepth a b i)"
    if "getDataNum a = getDataNum b" "getDataNum b \<noteq> 2" for a b i
    using that color_format_cases [of b] by (auto simp: castData_image_def color_format_def Let_def)
  have up: "castDepth dpf spf im = Some deep" unfolding deep_def by (rule cast_depth_exact [OF narrow(2, 1) assms(5)])
  have small: "v < 2 ^ getBitDepth spf" if "p \<in> set (im_pixels im)" "v \<in> set p" for p v
    using assms(5) that by (auto simp: fitting_image_def samples_fit_def)
  have "fitting_image dpf deep"
    using assms(3, 5) small s0 scale_range
    by (auto simp: fitting_image_def samples_fit_def deep_def)
  then have down: "castDepth spf dpf deep = Some (deep\<lparr>im_pixels := map (map ?down) (im_pixels deep)\<rparr>)"
    by (rule cast_depth_exact [OF narrow])
  have "map (map ?down) (map (map ?up) (im_pixels im)) = im_pixels im"
    using small s0 assms(1) by (auto simp: scale_up_down intro!: map_idI)
  then have "deep\<lparr>im_pixels := map (map ?down) (im_pixels deep)\<rparr> = im" by (simp add: deep_def)
  then show ?thesis using up down same [OF assms(3, 4)] same [OF assms(3) [symmetric]] assms(3, 4) by auto
qed

theorem data_cast_depth_roundtrip_witness:
  "\<exists>deep. castData_image CH1D14 CH1D10 \<lparr>im_width = 2, im_height = 1, im_pixels = [[1023], [341]]\<rparr> = Some (Inr deep)
     \<and> castData_image CH1D10 CH1D14 deep = Some (Inr \<lparr>im_width = 2, im_height = 1, im_pixels = [[1023], [341]]\<rparr>)"
  by (rule data_cast_depth_roundtrip)
    (simp_all add: getBitDepth_def getDataNum_def fitting_image_def samples_fit_def Let_def)

lemma maximum_dbl_64: "maximum_dbl 64 = 2 ^ 64"
proof -
  let ?q = "2 ^ 64 - 1 :: rat"
  have "ilog2 ?q \<le> 63" by (intro ilog2_le) (simp_all add: pow2_def)
  moreover have "63 \<le> ilog2 ?q" by (intro ilog2_ge) (simp add: pow2_def)
  ultimately have i: "ilog2 ?q = 63" by simp
  have "\<bar>?q\<bar> = ?q" "?q \<noteq> 0" by simp_all
  then have e: "fl_unit 53 (- 1074) ?q = 11" unfolding fl_unit_def by (simp only: i)
  have "\<bar>?q / pow2 11 - of_int (2 ^ 53)\<bar> < 1 / 2" by (simp add: pow2_def)
  then have "round_half_even (?q / pow2 11) = 2 ^ 53" by (rule round_half_even_near)
  then have "dbl ?q = of_int (2 ^ 53) * pow2 11"
    unfolding dbl_def fl_round_def e Let_def by (simp only: \<open>?q \<noteq> 0\<close> if_False)
  then show ?thesis by (simp add: maximum_dbl_def pow2_def)
qed

text \<open>For the 64-bit four-channel formats the opaque alpha is \<open>2 ^ 64 - 1\<close> rounded to a \<open>double\<close>, which is
  \<open>2 ^ 64\<close> and does not fit: every conversion of a one- or three-channel image to such a format is
  undefined, whatever the image.\<close>

theorem data_cast_alpha_64_undefined:
  assumes "getBitDepth dpf = 64" and "getDataNum dpf = 4" and "getDataNum spf = 1 \<or> getDataNum spf = 3"
  shows "castData_image dpf spf im = None"
proof -
  have "sample_bits dpf = 64" using depth_within_sample [of dpf] assms(1) by simp
  then have "alpha_opaque dpf = None"
    by (simp add: alpha_opaque_def dbl_to_sample_def maximum_dbl_64)
  then show ?thesis using assms(2, 3) by (auto simp: castData_image_def mono2acolor_def color2acolor_def)
qed

theorem data_cast_alpha_64_undefined_witness:
  "castData_image CH4D64 CH3D8 \<lparr>im_width = 1, im_height = 1, im_pixels = [[1, 2, 3]]\<rparr> = None"
  by (rule data_cast_alpha_64_undefined) (simp_all add: getBitDepth_def getDataNum_def Let_def)

end
