(* ===== verification/LogText.thy ===== *)
theory LogText
  imports WseResult
begin

text \<open>
  The values and the text of the loggers: \<open>api/wse/error/LogError.h\<close>, the enumerations and
  \<open>formatLogMessage\<close> of \<open>api/wse/utility/wse_Log.h\<close> and \<open>core/wse/utility/wse_Log.cpp\<close>, the
  records of \<open>api/wse/utility/AsyncLogRuntime.h\<close> with the checks and the layout of
  \<open>core/wse/utility/AsyncLogRuntime.cpp\<close>, and the bounded builder of \<open>LogMessageBuilder.cpp\<close>.
  Enumerations are integers, because the code casts and compares them as such; what the operating
  system decides is an argument (\<open>windows\<close> for the line end, \<open>date\<close> and \<open>time\<close> for the local
  calendar).  The size of a string or a vector is its length as a \<open>u64\<close>.
\<close>

section \<open>Errors\<close>

datatype eLogErrorCategory =
    LCat_None | LCat_Configuration | LCat_Capacity | LCat_Io | LCat_Callback | LCat_Lifecycle | LCat_Internal

datatype eLogErrorCode =
    Log_None | Log_InvalidSettings | Log_NotRunning | Log_QueueFull | Log_RecordTooLarge
  | Log_OpenFailed | Log_WriteFailed | Log_FlushFailed | Log_CallbackFailed | Log_ReentrantControl
  | Log_AllocationFailed | Log_ThreadFailed

record LogError =
  le_category :: eLogErrorCategory
  le_code :: eLogErrorCode
  le_message :: string
  le_native_code :: int

definition LogError_none :: LogError where
  "LogError_none = \<lparr>le_category = LCat_None, le_code = Log_None, le_message = '''', le_native_code = 0\<rparr>"

definition LogError_make :: "eLogErrorCategory \<Rightarrow> eLogErrorCode \<Rightarrow> string \<Rightarrow> LogError" where
  "LogError_make category code message =
     \<lparr>le_category = category, le_code = code, le_message = message, le_native_code = 0\<rparr>"

definition LogError_ok :: "LogError \<Rightarrow> bool" where
  "LogError_ok e \<longleftrightarrow> le_category e = LCat_None"

interpretation log_error: error_value LogError_ok LogError_none
  by unfold_locales (simp add: LogError_ok_def LogError_none_def)

type_synonym LogStatus = "LogError Status"

definition log_failure :: "eLogErrorCategory \<Rightarrow> eLogErrorCode \<Rightarrow> LogStatus" where
  "log_failure category code = Failure (LogError_make category code '''')"

lemma LogError_ok_simps [simp]:
  "LogError_ok LogError_none"
  "LogError_ok (LogError_make c k m) \<longleftrightarrow> c = LCat_None"
  by (simp_all add: LogError_ok_def LogError_none_def LogError_make_def)

section \<open>Enumerations of the logger\<close>

abbreviation Mode_NONE :: int where "Mode_NONE \<equiv> 0"
abbreviation Mode_LOG_FILE :: int where "Mode_LOG_FILE \<equiv> 1"
abbreviation Mode_CONSOLE :: int where "Mode_CONSOLE \<equiv> 2"
abbreviation Mode_FULL :: int where "Mode_FULL \<equiv> 3"

abbreviation Level_Trace :: int where "Level_Trace \<equiv> 0"
abbreviation Level_Debug :: int where "Level_Debug \<equiv> 1"
abbreviation Level_Info :: int where "Level_Info \<equiv> 2"
abbreviation Level_Error :: int where "Level_Error \<equiv> 4"
abbreviation Level_Off :: int where "Level_Off \<equiv> 5"

abbreviation Prefix_NONE :: int where "Prefix_NONE \<equiv> 0"
abbreviation Prefix_TIME :: int where "Prefix_TIME \<equiv> 1"
abbreviation Prefix_DATE :: int where "Prefix_DATE \<equiv> 2"
abbreviation Prefix_FULL :: int where "Prefix_FULL \<equiv> 3"

abbreviation Part_Text :: int where "Part_Text \<equiv> 0"
abbreviation Part_NewLine :: int where "Part_NewLine \<equiv> 1"

text \<open>\<open>static_cast<unsigned>\<close> of an enumerator.\<close>

definition as_unsigned :: "int \<Rightarrow> u32" where
  "as_unsigned e = word_of_int e"

definition END_LINE :: "bool \<Rightarrow> string" where
  "END_LINE windows = (if windows then [CHR 0x0D, CHR 0x0A] else [CHR 0x0A])"

definition getLogSeparator :: "int \<Rightarrow> string" where
  "getLogSeparator sep =
     (if sep = 0 then '','' else if sep = 1 then '' '' else if sep = 2 then [CHR 0x09]
      else if sep = 3 then '':'' else if sep = 4 then '';'' else '''')"

definition getLogSuffix :: "bool \<Rightarrow> int \<Rightarrow> string" where
  "getLogSuffix windows suf = (if suf = 1 then END_LINE windows else '''')"

definition getLogPrefix :: "string \<Rightarrow> string \<Rightarrow> int \<Rightarrow> string" where
  "getLogPrefix date time pre =
     (if pre = Prefix_TIME then ''[ '' @ time @ '' ]''
      else if pre = Prefix_DATE then ''[ '' @ date @ '' ]''
      else if pre = Prefix_FULL then ''[ '' @ date @ ''-'' @ time @ '' ]''
      else '''')"

section \<open>Numbers as text\<close>

definition digit :: "nat \<Rightarrow> char" where
  "digit n = char_of (if n < 10 then 48 + n else 87 + n)"

fun show_base :: "nat \<Rightarrow> nat \<Rightarrow> string" where
  "show_base b n = (if n < b \<or> b < 2 then [digit n] else show_base b (n div b) @ [digit (n mod b)])"

declare show_base.simps [simp del]

definition show_int :: "int \<Rightarrow> string" where
  "show_int i = (if i < 0 then CHR ''-'' # show_base 10 (nat (- i)) else show_base 10 (nat i))"

definition pad_left :: "nat \<Rightarrow> char \<Rightarrow> string \<Rightarrow> string" where
  "pad_left width fill s = replicate (width - length s) fill @ s"

definition pad_right :: "nat \<Rightarrow> char \<Rightarrow> string \<Rightarrow> string" where
  "pad_right width fill s = s @ replicate (width - length s) fill"

definition getLineTag :: "int \<Rightarrow> string" where
  "getLineTag line = pad_right 6 CHR '' '' (show_int line)"

text \<open>\<open>toHex\<close> of an unsigned value of \<open>width\<close> / 2 bytes.\<close>

definition toHex :: "nat \<Rightarrow> nat \<Rightarrow> string" where
  "toHex width v = ''0x'' @ pad_left width CHR ''0'' (show_base 16 v)"

section \<open>Paths and messages\<close>

definition is_separator :: "char \<Rightarrow> bool" where
  "is_separator c \<longleftrightarrow> c = CHR ''/'' \<or> c = CHR 0x5C"

definition after_last_separator :: "string \<Rightarrow> string" where
  "after_last_separator path = rev (takeWhile (\<lambda>c. \<not> is_separator c) (rev path))"

text \<open>\<open>extractFileName\<close> reads a C string, so it stops at the first NUL.\<close>

definition extractFileName :: "string \<Rightarrow> string" where
  "extractFileName path = after_last_separator (takeWhile (\<lambda>c. c \<noteq> CHR 0x00) path)"

definition normalizePath :: "string \<Rightarrow> string" where
  "normalizePath path = map (\<lambda>c. if c = CHR 0x5C then CHR ''/'' else c) path"

record sLogConfig =
  lc_tag :: string
  lc_mode :: int
  lc_separate :: int
  lc_prefix :: int
  lc_suffix :: int
  lc_path :: string
  lc_name :: string

definition formatLogMessage ::
    "bool \<Rightarrow> string \<Rightarrow> string \<Rightarrow> sLogConfig \<Rightarrow> string \<Rightarrow> string \<Rightarrow> int \<Rightarrow> string" where
  "formatLogMessage windows date time config message path line =
     (let log_tag = ''<'' @ lc_tag config @ ''>'';
          file_tag = (if path = [] then '''' else ''( '' @ extractFileName path @ '' ) '');
          line_tag = (if line = 0 then '''' else getLineTag line);
          pre = getLogPrefix date time (lc_prefix config);
          suf = getLogSuffix windows (lc_suffix config)
      in log_tag @ pre @ file_tag @ line_tag @ message @ suf)"

section \<open>Records and settings of the asynchronous logger\<close>

record sLogPart =
  lp_kind :: int
  lp_text :: string

abbreviation text_part :: "string \<Rightarrow> sLogPart" where
  "text_part t \<equiv> \<lparr>lp_kind = Part_Text, lp_text = t\<rparr>"

abbreviation new_line_part :: sLogPart where
  "new_line_part \<equiv> \<lparr>lp_kind = Part_NewLine, lp_text = ''''\<rparr>"

text \<open>The time stamp counts nanoseconds since the epoch.\<close>

record sAsyncLogRecord =
  lr_timestamp :: int
  lr_level :: int
  lr_tag :: string
  lr_source :: string
  lr_file :: string
  lr_line :: int
  lr_verbosity :: u32
  lr_parts :: "sLogPart list"
  lr_attributes :: "(string \<times> string) list"

text \<open>Callables and sinks are objects of the client: the settings hold their identities, \<open>None\<close>
  for an empty function and 0 for a null pointer.\<close>

record sAsyncLogSettings =
  ls_output :: int
  ls_file_path :: string
  ls_console_writer :: "nat option"
  ls_formatter :: "nat option"
  ls_sinks :: "nat list"
  ls_queue_capacity :: u64
  ls_record_byte_limit :: u64
  ls_record_part_limit :: u64
  ls_metadata_byte_limit :: u64
  ls_minimum_level :: int
  ls_default_verbosity :: u32
  ls_tag_verbosity :: "string \<rightharpoonup> u32"
  ls_separate :: int
  ls_prefix :: int
  ls_suffix :: int
  ls_flush_each_record :: bool

definition default_settings :: sAsyncLogSettings where
  "default_settings = \<lparr>ls_output = Mode_NONE, ls_file_path = '''', ls_console_writer = None,
     ls_formatter = None, ls_sinks = [], ls_queue_capacity = 1024, ls_record_byte_limit = 16 * 1024,
     ls_record_part_limit = 1024, ls_metadata_byte_limit = 16 * 1024, ls_minimum_level = Level_Trace,
     ls_default_verbosity = 1, ls_tag_verbosity = Map.empty, ls_separate = 1, ls_prefix = Prefix_FULL,
     ls_suffix = 1, ls_flush_each_record = False\<rparr>"

definition hasFile :: "int \<Rightarrow> bool" where
  "hasFile mode \<longleftrightarrow> mode = Mode_LOG_FILE \<or> mode = Mode_FULL"

definition hasConsole :: "int \<Rightarrow> bool" where
  "hasConsole mode \<longleftrightarrow> mode = Mode_CONSOLE \<or> mode = Mode_FULL"

abbreviation size64 :: "'a list \<Rightarrow> u64" where
  "size64 xs \<equiv> word_of_nat (length xs)"

definition addBytes :: "u64 \<Rightarrow> u64 \<Rightarrow> u64 \<Rightarrow> u64 option" where
  "addBytes acc count limit = (if limit - acc < count then None else Some (acc + count))"

fun addAll :: "u64 \<Rightarrow> u64 list \<Rightarrow> u64 \<Rightarrow> u64 option" where
  "addAll acc [] limit = Some acc"
| "addAll acc (c # cs) limit =
     (case addBytes acc c limit of None \<Rightarrow> None | Some t \<Rightarrow> addAll t cs limit)"

text \<open>The bytes a part counts for; a part of another kind, or a line break with text, is refused.\<close>

definition partBytes :: "bool \<Rightarrow> sLogPart \<Rightarrow> u64 option" where
  "partBytes windows p =
     (if lp_kind p = Part_Text then Some (size64 (lp_text p))
      else if lp_kind p = Part_NewLine \<and> lp_text p = [] then Some (size64 (END_LINE windows))
      else None)"

fun addParts :: "bool \<Rightarrow> u64 \<Rightarrow> sLogPart list \<Rightarrow> u64 \<Rightarrow> u64 option" where
  "addParts windows acc [] limit = Some acc"
| "addParts windows acc (p # ps) limit =
     (case partBytes windows p of
        None \<Rightarrow> None
      | Some n \<Rightarrow>
          (case addBytes acc n limit of None \<Rightarrow> None | Some t \<Rightarrow> addParts windows t ps limit))"

definition metadata_sizes :: "sAsyncLogRecord \<Rightarrow> u64 list" where
  "metadata_sizes r = [size64 (lr_tag r), size64 (lr_source r), size64 (lr_file r)]
     @ concat (map (\<lambda>(k, v). [size64 k, size64 v]) (lr_attributes r))"

definition validRecord :: "bool \<Rightarrow> sAsyncLogRecord \<Rightarrow> sAsyncLogSettings \<Rightarrow> bool" where
  "validRecord windows r S =
     (if ls_record_part_limit S < size64 (lr_parts r)
         \<or> ls_record_part_limit S < size64 (lr_attributes r) then False
      else if addParts windows 0 (lr_parts r) (ls_record_byte_limit S) = None then False
      else addAll 0 (metadata_sizes r) (ls_metadata_byte_limit S) \<noteq> None)"

definition validSettings :: "sAsyncLogSettings \<Rightarrow> bool" where
  "validSettings S =
     (if 3 < as_unsigned (ls_output S) \<or> as_unsigned Level_Off < as_unsigned (ls_minimum_level S)
         \<or> 4 < as_unsigned (ls_separate S) \<or> 3 < as_unsigned (ls_prefix S)
         \<or> 1 < as_unsigned (ls_suffix S)
         \<or> ls_queue_capacity S = 0 \<or> ls_record_byte_limit S = 0
         \<or> ls_record_part_limit S = 0 \<or> ls_metadata_byte_limit S = 0
         \<or> (hasFile (ls_output S) \<and> ls_file_path S = []) then False
      else list_all (\<lambda>s. s \<noteq> 0) (ls_sinks S))"

section \<open>The layout of a record\<close>

definition escape_char :: "char \<Rightarrow> string" where
  "escape_char c =
     (if c = CHR 0x0A then [CHR 0x5C, CHR ''n'']
      else if c = CHR 0x0D then [CHR 0x5C, CHR ''r'']
      else if c = CHR 0x00 then [CHR 0x5C, CHR ''0'']
      else [c])"

definition renderLogParts :: "bool \<Rightarrow> sLogPart list \<Rightarrow> string" where
  "renderLogParts windows ps =
     concat (map (\<lambda>p. if lp_kind p = Part_NewLine then END_LINE windows
                      else concat (map escape_char (lp_text p))) ps)"

text \<open>Milliseconds of the time stamp, made non-negative.\<close>

definition stampMilliseconds :: "int \<Rightarrow> int" where
  "stampMilliseconds ns =
     (let ms = cpp_rem (cpp_div ns 1000000) 1000 in if ms < 0 then ms + 1000 else ms)"

definition timestampPrefix :: "(int \<Rightarrow> string \<times> string) \<Rightarrow> sAsyncLogRecord \<Rightarrow> int \<Rightarrow> string" where
  "timestampPrefix local r pre =
     (if pre = Prefix_NONE then ''''
      else let (date, time) = local (lr_timestamp r) in
        ''[ ''
        @ (if pre = Prefix_DATE \<or> pre = Prefix_FULL then date else '''')
        @ (if pre = Prefix_FULL then ''-'' else '''')
        @ (if pre = Prefix_TIME \<or> pre = Prefix_FULL
           then time @ ''.'' @ pad_left 3 CHR ''0'' (show_int (stampMilliseconds (lr_timestamp r)))
           else '''')
        @ '' ]'')"

text \<open>\<open>text.insert\<close> throws when the position is behind the end.\<close>

definition insert_at :: "nat \<Rightarrow> string \<Rightarrow> string \<Rightarrow> string reply" where
  "insert_at i x s = (if length s < i then Threw Other_exception else Returned (take i s @ x @ drop i s))"

definition defaultFormat ::
    "bool \<Rightarrow> (int \<Rightarrow> string \<times> string) \<Rightarrow> sAsyncLogRecord \<Rightarrow> sAsyncLogSettings \<Rightarrow> string reply" where
  "defaultFormat windows local r S =
     (let safe_tag = renderLogParts windows [text_part (lr_tag r)];
          safe_file = renderLogParts windows [text_part (after_last_separator (lr_file r))];
          config = \<lparr>lc_tag = safe_tag, lc_mode = Mode_NONE, lc_separate = ls_separate S,
                    lc_prefix = Prefix_NONE, lc_suffix = ls_suffix S, lc_path = '''', lc_name = ''''\<rparr>;
          location = (if lr_file r \<noteq> [] then ''( '' @ safe_file @ '' ) '' else '''')
            @ (if lr_line r \<noteq> 0 then pad_right 6 CHR '' '' (show_int (lr_line r)) else '''');
          message = formatLogMessage windows '''' '''' config
            (location @ renderLogParts windows (lr_parts r)) '''' 0
      in insert_at (length safe_tag + 2) (timestampPrefix local r (ls_prefix S)) message)"

section \<open>The message builder\<close>

record LogMessageBuilder =
  lb_parts :: "sLogPart list"
  lb_separator :: string
  lb_byte_limit :: u64
  lb_part_limit :: u64
  lb_bytes :: u64
  lb_is_valid :: bool

definition LogMessageBuilder_new :: "int \<Rightarrow> u64 \<Rightarrow> u64 \<Rightarrow> LogMessageBuilder" where
  "LogMessageBuilder_new separate byte_limit part_limit =
     \<lparr>lb_parts = [], lb_separator = getLogSeparator separate, lb_byte_limit = byte_limit,
      lb_part_limit = part_limit, lb_bytes = 0,
      lb_is_valid = (getLogSeparator separate \<noteq> [] \<and> 0 < byte_limit \<and> 0 < part_limit)\<rparr>"

definition append_last :: "string \<Rightarrow> sLogPart list \<Rightarrow> sLogPart list" where
  "append_last t ps = butlast ps @ [(last ps)\<lparr>lp_text := lp_text (last ps) @ t\<rparr>]"

abbreviation invalidate :: "LogMessageBuilder \<Rightarrow> LogMessageBuilder" where
  "invalidate b \<equiv> b\<lparr>lb_is_valid := False\<rparr>"

text \<open>The allocations of one append, in order: the copy of the text, the new part, the separator,
  the text.  \<open>alloc\<close> names the one that throws; what was built before it stays.\<close>

datatype append_alloc = No_failure | Copy_fails | Part_fails | Separator_fails | Text_fails

definition builder_append :: "append_alloc \<Rightarrow> string \<Rightarrow> LogMessageBuilder \<Rightarrow> unit reply \<times> LogMessageBuilder" where
  "builder_append alloc t b =
     (if \<not> lb_is_valid b then (Returned (), b)
      else if lb_byte_limit b - lb_bytes b < size64 t
           \<or> lb_byte_limit b - lb_bytes b - size64 t < size64 (lb_separator b)
      then (Returned (), invalidate b)
      else if alloc = Copy_fails then (Threw Bad_alloc, invalidate b)
      else
        let need_part = (lb_parts b = [] \<or> lp_kind (last (lb_parts b)) \<noteq> Part_Text) in
        if need_part \<and> lb_part_limit b \<le> size64 (lb_parts b) then (Returned (), invalidate b)
        else if need_part \<and> alloc = Part_fails then (Threw Bad_alloc, invalidate b)
        else
          let ps = (if need_part then lb_parts b @ [text_part ''''] else lb_parts b) in
          if alloc = Separator_fails then (Threw Bad_alloc, invalidate (b\<lparr>lb_parts := ps\<rparr>))
          else if alloc = Text_fails
          then (Threw Bad_alloc, invalidate (b\<lparr>lb_parts := append_last (lb_separator b) ps\<rparr>))
          else (Returned (), b\<lparr>lb_parts := append_last t (append_last (lb_separator b) ps),
                  lb_bytes := lb_bytes b + (size64 (lb_separator b) + size64 t)\<rparr>))"

text \<open>A C string: \<open>p\<close> is \<open>None\<close> for a null pointer, else the characters before the terminator.
  The scan stops one character after the room that is left.\<close>

definition builder_append_cstring ::
    "append_alloc \<Rightarrow> string option \<Rightarrow> LogMessageBuilder \<Rightarrow> unit reply \<times> LogMessageBuilder" where
  "builder_append_cstring alloc p b =
     (case p of
        None \<Rightarrow> (Returned (), invalidate b)
      | Some t \<Rightarrow>
          let available = lb_byte_limit b - lb_bytes b in
          if available < size64 t then (Returned (), invalidate b) else builder_append alloc t b)"

text \<open>A wide string, \<open>None\<close> for a null pointer (only of the pointer overload); \<open>convert\<close> is
  \<open>wstring2UTF8\<close> over the conversion service of the platform.\<close>

definition builder_append_wide ::
    "('c list \<Rightarrow> string reply) \<Rightarrow> append_alloc \<Rightarrow> 'c list option \<Rightarrow> LogMessageBuilder
       \<Rightarrow> unit reply \<times> LogMessageBuilder" where
  "builder_append_wide convert alloc p b =
     (case p of
        None \<Rightarrow> (Returned (), invalidate b)
      | Some t \<Rightarrow>
          if lb_byte_limit b - lb_bytes b < size64 t then (Returned (), invalidate b)
          else (case convert t of
                  Threw e \<Rightarrow> (Threw e, invalidate b)
                | Returned u \<Rightarrow> builder_append alloc u b))"

definition builder_append_bool :: "append_alloc \<Rightarrow> bool \<Rightarrow> LogMessageBuilder \<Rightarrow> unit reply \<times> LogMessageBuilder" where
  "builder_append_bool alloc v b =
     builder_append_cstring alloc (Some (if v then ''true'' else ''false'')) b"

definition builder_appendEnum ::
    "append_alloc \<Rightarrow> u64 \<Rightarrow> nat \<Rightarrow> LogMessageBuilder \<Rightarrow> unit reply \<times> LogMessageBuilder" where
  "builder_appendEnum alloc bits n b =
     builder_append alloc
       (if n = 1 then toHex 2 (unat (ucast bits :: u8))
        else if n = 2 then toHex 4 (unat (ucast bits :: u16))
        else if n = 4 then toHex 8 (unat (ucast bits :: u32))
        else toHex 16 (unat bits)) b"

text \<open>The signed and unsigned integers of at most 64 bits: \<open>std::to_string\<close>.\<close>

definition builder_append_integer ::
    "append_alloc \<Rightarrow> int \<Rightarrow> LogMessageBuilder \<Rightarrow> unit reply \<times> LogMessageBuilder" where
  "builder_append_integer alloc v b = builder_append alloc (show_int v) b"

definition builder_append_control ::
    "bool \<Rightarrow> bool \<Rightarrow> int \<Rightarrow> LogMessageBuilder \<Rightarrow> unit reply \<times> LogMessageBuilder" where
  "builder_append_control windows alloc_ok control b =
     (let n = size64 (END_LINE windows) in
      if \<not> lb_is_valid b \<or> control \<noteq> 0 \<or> lb_byte_limit b - lb_bytes b < n
         \<or> lb_part_limit b \<le> size64 (lb_parts b)
      then (Returned (), invalidate b)
      else if \<not> alloc_ok then (Threw Bad_alloc, invalidate b)
      else (Returned (), b\<lparr>lb_parts := lb_parts b @ [new_line_part], lb_bytes := lb_bytes b + n\<rparr>))"

text \<open>The record a line submits: an invalid builder is marked by a part of no kind.\<close>

definition line_parts :: "LogMessageBuilder \<Rightarrow> sLogPart list" where
  "line_parts b =
     (if lb_is_valid b then lb_parts b else lb_parts b @ [\<lparr>lp_kind = - 1, lp_text = ''''\<rparr>])"

end
