(* ===== verification/AsyncLog.thy ===== *)
theory AsyncLog
  imports LogText
begin

text \<open>
  The asynchronous logger \<open>AsyncLogRuntime\<close> (\<open>api/wse/utility/AsyncLogRuntime.h\<close>,
  \<open>core/wse/utility/AsyncLogRuntime.cpp\<close>): what the writer does with a record over the devices of
  its settings, and the runtime as a transition system.  Every section under the queue mutex is one
  action; the writer's work between two such sections is one more.  One control operation
  (\<open>configure\<close>, \<open>flush\<close>, \<open>stop\<close>) at a time holds the control mutex and advances through its
  sections; producers and the callbacks on the writer thread act in between.
\<close>

section \<open>Devices\<close>

text \<open>
  What the writer and \<open>configure\<close> call over the state \<open>'w\<close> of the world: the client's formatter and
  console writer, the standard output and the log file (the flag is \<open>fail()\<close> afterwards), the
  client's sinks, the opening of the file, and the local calendar.
\<close>

record 'w log_devices =
  ld_format :: "nat \<Rightarrow> sAsyncLogRecord \<Rightarrow> 'w \<Rightarrow> string reply \<times> 'w"
  ld_console_writer :: "nat \<Rightarrow> string \<Rightarrow> 'w \<Rightarrow> LogStatus reply \<times> 'w"
  ld_cout :: "string \<Rightarrow> 'w \<Rightarrow> bool \<times> 'w"
  ld_cout_flush :: "'w \<Rightarrow> bool \<times> 'w"
  ld_file_write :: "string option \<Rightarrow> string \<Rightarrow> 'w \<Rightarrow> bool \<times> 'w"
  ld_file_flush :: "string option \<Rightarrow> 'w \<Rightarrow> bool \<times> 'w"
  ld_file_open :: "string \<Rightarrow> 'w \<Rightarrow> bool reply \<times> 'w"
  ld_sink_write :: "nat \<Rightarrow> sAsyncLogRecord \<Rightarrow> string \<Rightarrow> 'w \<Rightarrow> LogStatus reply \<times> 'w"
  ld_sink_flush :: "nat \<Rightarrow> 'w \<Rightarrow> LogStatus reply \<times> 'w"
  ld_local :: "int \<Rightarrow> string \<times> string"
  ld_windows :: bool

definition callback_failed :: LogStatus where
  "callback_failed = log_failure LCat_Callback Log_CallbackFailed"

fun status_of_reply :: "LogStatus reply \<Rightarrow> LogStatus" where
  "status_of_reply (Returned s) = s"
| "status_of_reply (Threw e) = callback_failed"

definition status_of_stream :: "eLogErrorCode \<Rightarrow> bool \<Rightarrow> LogStatus" where
  "status_of_stream code failed = (if failed then log_failure LCat_Io code else Success ())"

text \<open>The writer goes on while it succeeds.\<close>

fun and_then :: "LogStatus \<times> 'w \<Rightarrow> ('w \<Rightarrow> LogStatus \<times> 'w) \<Rightarrow> LogStatus \<times> 'w" where
  "and_then (Success u, w) f = f w"
| "and_then (Failure e, w) f = (Failure e, w)"

section \<open>Writing a record\<close>

definition format_record ::
    "'w log_devices \<Rightarrow> sAsyncLogSettings \<Rightarrow> sAsyncLogRecord \<Rightarrow> 'w \<Rightarrow> string reply \<times> 'w" where
  "format_record D S r w =
     (case ls_formatter S of
        Some f \<Rightarrow> ld_format D f r w
      | None \<Rightarrow> (defaultFormat (ld_windows D) (ld_local D) r S, w))"

definition write_console ::
    "'w log_devices \<Rightarrow> sAsyncLogSettings \<Rightarrow> string \<Rightarrow> 'w \<Rightarrow> LogStatus \<times> 'w" where
  "write_console D S t w =
     (if hasConsole (ls_output S)
      then (case ls_console_writer S of
          Some c \<Rightarrow> apfst status_of_reply (ld_console_writer D c t w)
        | None \<Rightarrow> apfst (status_of_stream Log_WriteFailed) (ld_cout D t w))
      else (Success (), w))"

text \<open>\<open>log_file\<close> is the path the member stream is open on, \<open>None\<close> while it is closed.\<close>

definition write_file ::
    "'w log_devices \<Rightarrow> sAsyncLogSettings \<Rightarrow> string option \<Rightarrow> string \<Rightarrow> 'w \<Rightarrow> LogStatus \<times> 'w" where
  "write_file D S log_file t w =
     (if hasFile (ls_output S)
      then apfst (status_of_stream Log_WriteFailed) (ld_file_write D log_file t w)
      else (Success (), w))"

fun write_sinks ::
    "'w log_devices \<Rightarrow> sAsyncLogRecord \<Rightarrow> string \<Rightarrow> nat list \<Rightarrow> 'w \<Rightarrow> LogStatus \<times> 'w" where
  "write_sinks D r t [] w = (Success (), w)"
| "write_sinks D r t (s # ss) w =
     and_then (apfst status_of_reply (ld_sink_write D s r t w)) (write_sinks D r t ss)"

definition flush_console :: "'w log_devices \<Rightarrow> sAsyncLogSettings \<Rightarrow> 'w \<Rightarrow> LogStatus \<times> 'w" where
  "flush_console D S w =
     (if hasConsole (ls_output S) \<and> ls_console_writer S = None
      then apfst (status_of_stream Log_FlushFailed) (ld_cout_flush D w) else (Success (), w))"

definition flush_file ::
    "'w log_devices \<Rightarrow> sAsyncLogSettings \<Rightarrow> string option \<Rightarrow> 'w \<Rightarrow> LogStatus \<times> 'w" where
  "flush_file D S log_file w =
     (if hasFile (ls_output S)
      then apfst (status_of_stream Log_FlushFailed) (ld_file_flush D log_file w)
      else (Success (), w))"

fun flush_each :: "'w log_devices \<Rightarrow> nat list \<Rightarrow> 'w \<Rightarrow> LogStatus \<times> 'w" where
  "flush_each D [] w = (Success (), w)"
| "flush_each D (s # ss) w = and_then (apfst status_of_reply (ld_sink_flush D s w)) (flush_each D ss)"

definition flushSinks ::
    "'w log_devices \<Rightarrow> sAsyncLogSettings \<Rightarrow> string option \<Rightarrow> 'w \<Rightarrow> LogStatus \<times> 'w" where
  "flushSinks D S log_file w =
     and_then (and_then (flush_console D S w) (flush_file D S log_file)) (flush_each D (ls_sinks S))"

definition write_record ::
    "'w log_devices \<Rightarrow> sAsyncLogSettings \<Rightarrow> string option \<Rightarrow> sAsyncLogRecord \<Rightarrow> 'w \<Rightarrow> LogStatus \<times> 'w" where
  "write_record D S log_file r w =
     (case format_record D S r w of
        (Threw e, w1) \<Rightarrow> (callback_failed, w1)
      | (Returned t, w1) \<Rightarrow>
          and_then (and_then (and_then (write_console D S t w1) (write_file D S log_file t))
              (write_sinks D r t (ls_sinks S)))
            (\<lambda>w2. if ls_flush_each_record S then flushSinks D S log_file w2 else (Success (), w2)))"

section \<open>The state of a runtime\<close>

record sAsyncLogStatus =
  st_is_running :: bool
  st_is_accepting :: bool
  st_queued :: u64
  st_accepted :: u64
  st_completed :: u64
  st_dropped :: u64
  st_filtered :: u64
  st_last_error :: LogError

datatype log_entry = Record_entry sAsyncLogRecord | Barrier_entry

text \<open>Where the writer stands: \<open>Ready\<close> under the mutex at the head of its loop, \<open>Busy\<close> with an entry
  it took (the flag: to be skipped), \<open>Finished\<close> with its outcome, and after its loop.\<close>

datatype writer_pc =
    No_writer | Ready | Busy log_entry bool | Finished log_entry bool LogError | Writer_done

text \<open>Where the control operation that holds the control mutex stands.\<close>

datatype control_pc =
    Control_free | Configuring sAsyncLogSettings "string option" | Flushing
  | Stop_entered | Stop_waiting | Stop_result LogStatus | Stop_joining LogStatus

record async_log =
  al_queue :: "log_entry list"
  al_settings :: sAsyncLogSettings
  al_status :: sAsyncLogStatus
  al_file :: "string option"
  al_stopping :: bool
  al_writer_failed :: bool
  al_writer :: writer_pc
  al_control :: control_pc
  al_barrier :: "LogError option" \<comment> \<open>of the barrier in use: its error once it is done\<close>

definition AsyncLogRuntime_new :: async_log where
  "AsyncLogRuntime_new = \<lparr>al_queue = [], al_settings = default_settings,
     al_status = \<lparr>st_is_running = False, st_is_accepting = False, st_queued = 0, st_accepted = 0,
       st_completed = 0, st_dropped = 0, st_filtered = 0, st_last_error = LogError_none\<rparr>,
     al_file = None, al_stopping = False, al_writer_failed = False, al_writer = No_writer,
     al_control = Control_free, al_barrier = None\<rparr>"

abbreviation on_status :: "(sAsyncLogStatus \<Rightarrow> sAsyncLogStatus) \<Rightarrow> async_log \<Rightarrow> async_log" where
  "on_status f s \<equiv> s\<lparr>al_status := f (al_status s)\<rparr>"

abbreviation accepting :: "async_log \<Rightarrow> bool" where
  "accepting s \<equiv> st_is_accepting (al_status s)"

abbreviation is_running :: "async_log \<Rightarrow> bool" where
  "is_running s \<equiv> st_is_running (al_status s)"

abbreviation last_error :: "async_log \<Rightarrow> LogError" where
  "last_error s \<equiv> st_last_error (al_status s)"

section \<open>Producers\<close>

datatype eLogSubmitResult =
    Accepted | Filtered | NotRunning | QueueFull | RecordTooLarge | Submit_failed

definition log_enabled :: "string \<Rightarrow> u32 \<Rightarrow> int \<Rightarrow> async_log \<Rightarrow> bool" where
  "log_enabled tag verbosity level s =
     (if \<not> accepting s \<or> verbosity = 0 \<or> as_unsigned Level_Off \<le> as_unsigned level
         \<or> level < ls_minimum_level (al_settings s)
         \<or> (ls_output (al_settings s) = Mode_NONE \<and> ls_sinks (al_settings s) = []) then False
      else verbosity \<le> (case ls_tag_verbosity (al_settings s) tag of
          None \<Rightarrow> ls_default_verbosity (al_settings s) | Some v \<Rightarrow> v))"

definition count_dropped :: "async_log \<Rightarrow> async_log" where
  "count_dropped = on_status (\<lambda>t. t\<lparr>st_dropped := st_dropped t + 1\<rparr>)"

definition put_error :: "LogError \<Rightarrow> async_log \<Rightarrow> async_log" where
  "put_error e = on_status (\<lambda>t. t\<lparr>st_last_error := e\<rparr>)"

definition note_error :: "LogError \<Rightarrow> async_log \<Rightarrow> async_log" where
  "note_error e s = (if al_writer_failed s then s else put_error e s)"

text \<open>\<open>inside\<close>: called on the writer thread, by a callback.  \<open>alloc_ok\<close>: the copy of the record and
  its place in the queue could be allocated.\<close>

definition tryAppend ::
    "bool \<Rightarrow> bool \<Rightarrow> bool \<Rightarrow> sAsyncLogRecord \<Rightarrow> async_log \<Rightarrow> eLogSubmitResult \<times> async_log" where
  "tryAppend windows inside alloc_ok r s =
     (if inside
      then (Submit_failed, note_error (LogError_make LCat_Lifecycle Log_ReentrantControl '''') (count_dropped s))
      else if \<not> accepting s then (NotRunning, s)
      else if \<not> log_enabled (lr_tag r) (lr_verbosity r) (lr_level r) s
      then (Filtered, on_status (\<lambda>t. t\<lparr>st_filtered := st_filtered t + 1\<rparr>) s)
      else if al_writer_failed s then (Submit_failed, count_dropped s)
      else if \<not> validRecord windows r (al_settings s)
      then (RecordTooLarge,
            put_error (LogError_make LCat_Capacity Log_RecordTooLarge '''') (count_dropped s))
      else if ls_queue_capacity (al_settings s) \<le> st_queued (al_status s)
      then (QueueFull, put_error (LogError_make LCat_Capacity Log_QueueFull '''') (count_dropped s))
      else if \<not> alloc_ok
      then (Submit_failed,
            note_error (LogError_make LCat_Internal Log_AllocationFailed '''') (count_dropped s))
      else (Accepted, on_status (\<lambda>t. t\<lparr>st_queued := st_queued t + 1, st_accepted := st_accepted t + 1\<rparr>)
              (s\<lparr>al_queue := al_queue s @ [Record_entry r]\<rparr>)))"

section \<open>Lines\<close>

text \<open>\<open>AsyncLogLine\<close>: a builder with the limits of the runtime's settings, a record, and whether the
  runtime was enabled for it.  \<open>now\<close> is the clock at construction.\<close>

record AsyncLogLine =
  ll_record :: sAsyncLogRecord
  ll_builder :: LogMessageBuilder
  ll_is_enabled :: bool

definition AsyncLogLine_new ::
    "int \<Rightarrow> string \<Rightarrow> u32 \<Rightarrow> string \<Rightarrow> int \<Rightarrow> int \<Rightarrow> async_log \<Rightarrow> AsyncLogLine" where
  "AsyncLogLine_new now tag verbosity path line level s =
     \<lparr>ll_record = \<lparr>lr_timestamp = now, lr_level = level, lr_tag = tag, lr_source = tag, lr_file = path,
        lr_line = line, lr_verbosity = verbosity, lr_parts = [], lr_attributes = []\<rparr>,
      ll_builder = LogMessageBuilder_new (ls_separate (al_settings s))
        (ls_record_byte_limit (al_settings s)) (ls_record_part_limit (al_settings s)),
      ll_is_enabled = log_enabled tag verbosity Level_Error s\<rparr>"

text \<open>\<open>operator<<\<close> with any of the builder's appends; its exception leaves the operator.\<close>

definition line_append ::
    "(LogMessageBuilder \<Rightarrow> unit reply \<times> LogMessageBuilder) \<Rightarrow> AsyncLogLine \<Rightarrow> unit reply \<times> AsyncLogLine" where
  "line_append f l =
     (if ll_is_enabled l then apsnd (\<lambda>b. l\<lparr>ll_builder := b\<rparr>) (f (ll_builder l)) else (Returned (), l))"

definition line_setLevel :: "int \<Rightarrow> AsyncLogLine \<Rightarrow> AsyncLogLine" where
  "line_setLevel level l = l\<lparr>ll_record := (ll_record l)\<lparr>lr_level := level\<rparr>\<rparr>"

text \<open>The destructor; \<open>copy_ok\<close>: the parts could be copied, else nothing is submitted.\<close>

definition line_destroy ::
    "bool \<Rightarrow> bool \<Rightarrow> bool \<Rightarrow> bool \<Rightarrow> AsyncLogLine \<Rightarrow> async_log \<Rightarrow> eLogSubmitResult option \<times> async_log" where
  "line_destroy windows inside copy_ok alloc_ok l s =
     (if \<not> ll_is_enabled l \<or> \<not> copy_ok then (None, s)
      else apfst Some (tryAppend windows inside alloc_ok
        ((ll_record l)\<lparr>lr_parts := line_parts (ll_builder l)\<rparr>) s))"

section \<open>The writer\<close>

text \<open>The head of the loop: take the next entry, or leave when there is none and the runtime stops;
  \<open>None\<close> while it waits.\<close>

definition writer_take :: "async_log \<Rightarrow> async_log option" where
  "writer_take s =
     (case al_writer s of
        Ready \<Rightarrow>
          (case al_queue s of
             [] \<Rightarrow> if al_stopping s then Some (s\<lparr>al_writer := Writer_done\<rparr>) else None
           | Barrier_entry # q \<Rightarrow> Some (s\<lparr>al_queue := q, al_writer := Busy Barrier_entry False\<rparr>)
           | Record_entry r # q \<Rightarrow>
               Some (on_status (\<lambda>t. t\<lparr>st_queued := st_queued t - 1\<rparr>)
                 (s\<lparr>al_queue := q, al_writer := Busy (Record_entry r) (al_writer_failed s)\<rparr>)))
      | _ \<Rightarrow> None)"

definition error_of :: "LogStatus \<Rightarrow> LogError" where
  "error_of r = (case r of Success u \<Rightarrow> LogError_none | Failure e \<Rightarrow> e)"

text \<open>The work outside the mutex: it reads the settings and the file and changes neither.\<close>

definition writer_process :: "'w log_devices \<Rightarrow> async_log \<Rightarrow> 'w \<Rightarrow> (async_log \<times> 'w) option" where
  "writer_process D s w =
     (case al_writer s of
        Busy e skip \<Rightarrow>
          let (r, w') = (case e of
              Barrier_entry \<Rightarrow> flushSinks D (al_settings s) (al_file s) w
            | Record_entry x \<Rightarrow> if skip then (Success (), w)
                else write_record D (al_settings s) (al_file s) x w)
          in Some (s\<lparr>al_writer := Finished e skip (error_of r)\<rparr>, w')
      | _ \<Rightarrow> None)"

text \<open>The section after it; \<open>copy_ok\<close>: the error could be copied to the barrier.\<close>

definition note_outcome :: "LogError \<Rightarrow> async_log \<Rightarrow> async_log" where
  "note_outcome err s =
     (if LogError_ok err then s else put_error err (s\<lparr>al_writer_failed := True\<rparr>))"

definition barrier_error :: "bool \<Rightarrow> async_log \<Rightarrow> LogError" where
  "barrier_error copy_ok s =
     (if \<not> al_writer_failed s then LogError_none
      else if copy_ok then last_error s else LogError_make LCat_Internal Log_AllocationFailed '''')"

definition writer_complete :: "bool \<Rightarrow> async_log \<Rightarrow> async_log option" where
  "writer_complete copy_ok s =
     (case al_writer s of
        Finished e skip err \<Rightarrow>
          let s1 = (note_outcome err s)\<lparr>al_writer := Ready\<rparr> in
          (case e of
             Barrier_entry \<Rightarrow> Some (s1\<lparr>al_barrier := Some (barrier_error copy_ok s1)\<rparr>)
           | Record_entry x \<Rightarrow>
               let s2 = on_status (\<lambda>t. t\<lparr>st_completed := st_completed t + 1\<rparr>) s1 in
               Some (if skip \<or> al_writer_failed s2 then count_dropped s2 else s2))
      | _ \<Rightarrow> None)"

section \<open>Control operations\<close>

text \<open>\<open>configure\<close> before it takes the locks: the checks, the copy of the settings (\<open>alloc_ok\<close>) and the
  opening of the file.\<close>

definition configure_prepare ::
    "'w log_devices \<Rightarrow> bool \<Rightarrow> sAsyncLogSettings \<Rightarrow> 'w \<Rightarrow> (LogError + string option) \<times> 'w" where
  "configure_prepare D alloc_ok S w =
     (if \<not> validSettings S then (Inl (LogError_make LCat_Configuration Log_InvalidSettings ''''), w)
      else if \<not> alloc_ok then (Inl (LogError_make LCat_Internal Log_AllocationFailed ''''), w)
      else if hasFile (ls_output S)
      then (case ld_file_open D (ls_file_path S) w of
          (Returned True, w') \<Rightarrow> (Inr (Some (ls_file_path S)), w')
        | (Returned False, w') \<Rightarrow> (Inl (LogError_make LCat_Io Log_OpenFailed (ls_file_path S)), w')
        | (Threw Bad_alloc, w') \<Rightarrow> (Inl (LogError_make LCat_Internal Log_AllocationFailed ''''), w')
        | (Threw Other_exception, w') \<Rightarrow> (Inl (LogError_make LCat_Io Log_OpenFailed ''''), w'))
      else (Inr None, w))"

text \<open>Its section up to the wait: \<open>Inl\<close> for the failures after which nothing has changed but a
  cleared stop flag.\<close>

definition configure_enter ::
    "bool \<Rightarrow> bool \<Rightarrow> sAsyncLogSettings \<Rightarrow> string option \<Rightarrow> async_log \<Rightarrow> LogError option \<times> async_log" where
  "configure_enter slot_ok thread_ok S candidate_file s =
     (if \<not> slot_ok then (Some (LogError_make LCat_Internal Log_AllocationFailed ''''), s)
      else if \<not> is_running s \<and> \<not> thread_ok
      then (Some (LogError_make LCat_Internal Log_ThreadFailed ''''), s\<lparr>al_stopping := False\<rparr>)
      else
        let s1 = s\<lparr>al_queue := al_queue s @ [Barrier_entry]\<rparr>;
            s2 = (if is_running s1 then s1
                  else on_status (\<lambda>t. t\<lparr>st_is_running := True\<rparr>)
                    (s1\<lparr>al_stopping := False, al_writer := Ready\<rparr>))
        in (None, on_status (\<lambda>t. t\<lparr>st_is_accepting := False\<rparr>)
              (s2\<lparr>al_control := Configuring S candidate_file, al_barrier := None\<rparr>)))"

definition configure_commit :: "async_log \<Rightarrow> async_log option" where
  "configure_commit s =
     (case al_control s of
        Configuring S candidate_file \<Rightarrow>
          if al_barrier s = None then None
          else Some (on_status (\<lambda>t. t\<lparr>st_last_error := LogError_none, st_is_accepting := True\<rparr>)
            (s\<lparr>al_settings := S, al_file := candidate_file, al_writer_failed := False,
               al_control := Control_free, al_barrier := None\<rparr>))
      | _ \<Rightarrow> None)"

text \<open>\<open>Impl::barrier\<close> up to its wait: the result when the runtime does not run.\<close>

definition barrier_enter :: "control_pc \<Rightarrow> async_log \<Rightarrow> LogStatus option \<times> async_log" where
  "barrier_enter pc s =
     (if \<not> is_running s
      then (Some (if al_writer_failed s then Failure (last_error s) else Success ()), s)
      else (None, s\<lparr>al_queue := al_queue s @ [Barrier_entry], al_control := pc, al_barrier := None\<rparr>))"

definition barrier_result :: "LogError \<Rightarrow> LogStatus" where
  "barrier_result e = (if LogError_ok e then Success () else Failure e)"

text \<open>The last section of \<open>stop\<close>, after the join: the callables are given up, the file is closed.\<close>

definition stop_finish :: "async_log \<Rightarrow> async_log" where
  "stop_finish s = on_status (\<lambda>t. t\<lparr>st_is_running := False\<rparr>)
     (s\<lparr>al_settings := (al_settings s)\<lparr>ls_formatter := None, ls_console_writer := None, ls_sinks := []\<rparr>,
        al_file := None, al_writer := No_writer, al_control := Control_free\<rparr>)"

section \<open>Steps\<close>

datatype log_operation = Op_configure sAsyncLogSettings | Op_flush | Op_stop

datatype log_action =
    Append bool sAsyncLogRecord            \<comment> \<open>by a producer; whether it could be allocated\<close>
  | Append_inside sAsyncLogRecord          \<comment> \<open>by a callback on the writer thread\<close>
  | Control_inside log_operation           \<comment> \<open>the same\<close>
  | Writer_take | Writer_process | Writer_complete bool
  | Configure sAsyncLogSettings bool bool bool
  | Configure_commit
  | Flush bool | Flush_return
  | Stop | Stop_barrier bool | Stop_wait_return | Stop_signal | Stop_join

text \<open>What an action shows: what became of a record and under which settings, the flush of a barrier,
  and the calls and returns of the control operations.\<close>

datatype log_event =
    Submitted sAsyncLogRecord sAsyncLogSettings eLogSubmitResult
  | Refused_inside sAsyncLogRecord
  | Processed sAsyncLogRecord sAsyncLogSettings bool LogError
  | Flushed sAsyncLogSettings LogError
  | Completed sAsyncLogRecord bool
  | Began log_operation
  | Ended_with log_operation "LogStatus reply"
  | Silent

definition processed_event :: "log_entry \<Rightarrow> sAsyncLogSettings \<Rightarrow> bool \<Rightarrow> LogError \<Rightarrow> log_event" where
  "processed_event e S skip err =
     (case e of Record_entry r \<Rightarrow> Processed r S skip err | Barrier_entry \<Rightarrow> Flushed S err)"

definition process_event :: "async_log \<Rightarrow> log_event" where
  "process_event s =
     (case al_writer s of Finished e skip err \<Rightarrow> processed_event e (al_settings s) skip err | _ \<Rightarrow> Silent)"

definition complete_event :: "async_log \<Rightarrow> log_event" where
  "complete_event s =
     (case al_writer s of
        Finished (Record_entry r) skip err \<Rightarrow>
          Completed r (skip \<or> al_writer_failed s \<or> \<not> LogError_ok err)
      | _ \<Rightarrow> Silent)"

definition on_writer_thread :: "async_log \<Rightarrow> bool" where
  "on_writer_thread s = (case al_writer s of Busy e skip \<Rightarrow> \<not> skip | _ \<Rightarrow> False)"

fun async_step ::
    "'w log_devices \<Rightarrow> log_action \<Rightarrow> async_log \<times> 'w \<Rightarrow> (log_event \<times> async_log \<times> 'w) option" where
  "async_step D (Append alloc_ok r) (s, w) =
     (let (x, s') = tryAppend (ld_windows D) False alloc_ok r s in Some (Submitted r (al_settings s) x, s', w))"
| "async_step D (Append_inside r) (s, w) =
     (if on_writer_thread s
      then Some (Refused_inside r, snd (tryAppend (ld_windows D) True True r s), w) else None)"
| "async_step D (Control_inside op) (s, w) =
     (if on_writer_thread s
      then Some (Ended_with op (Returned (log_failure LCat_Lifecycle Log_ReentrantControl)), s, w) else None)"
| "async_step D Writer_take (s, w) = map_option (\<lambda>s'. (Silent, s', w)) (writer_take s)"
| "async_step D Writer_process (s, w) =
     map_option (\<lambda>(s', w'). (process_event s', s', w')) (writer_process D s w)"
| "async_step D (Writer_complete copy_ok) (s, w) =
     map_option (\<lambda>s'. (complete_event s, s', w)) (writer_complete copy_ok s)"
| "async_step D (Configure S alloc_ok slot_ok thread_ok) (s, w) =
     (case configure_prepare D alloc_ok S w of
        (Inl e, w') \<Rightarrow> Some (Ended_with (Op_configure S) (Returned (Failure e)), s, w')
      | (Inr f, w') \<Rightarrow>
          if al_control s \<noteq> Control_free then None
          else case configure_enter slot_ok thread_ok S f s of
              (Some e, s') \<Rightarrow> Some (Ended_with (Op_configure S) (Returned (Failure e)), s', w')
            | (None, s') \<Rightarrow> Some (Began (Op_configure S), s', w'))"
| "async_step D Configure_commit (s, w) =
     (case configure_commit s of
        None \<Rightarrow> None
      | Some s' \<Rightarrow> Some (Ended_with (Op_configure (al_settings s')) (Returned (Success ())), s', w))"
| "async_step D (Flush alloc_ok) (s, w) =
     (if al_control s \<noteq> Control_free then None
      else if \<not> alloc_ok then Some (Ended_with Op_flush (Threw Bad_alloc), s, w)
      else case barrier_enter Flushing s of
          (Some r, s') \<Rightarrow> Some (Ended_with Op_flush (Returned r), s', w)
        | (None, s') \<Rightarrow> Some (Began Op_flush, s', w))"
| "async_step D Flush_return (s, w) =
     (case (al_control s, al_barrier s) of
        (Flushing, Some e) \<Rightarrow>
          Some (Ended_with Op_flush (Returned (barrier_result e)),
            s\<lparr>al_control := Control_free, al_barrier := None\<rparr>, w)
      | _ \<Rightarrow> None)"
| "async_step D Stop (s, w) =
     (if al_control s \<noteq> Control_free then None
      else Some (Began Op_stop, on_status (\<lambda>t. t\<lparr>st_is_accepting := False\<rparr>) (s\<lparr>al_control := Stop_entered\<rparr>), w))"
| "async_step D (Stop_barrier alloc_ok) (s, w) =
     (if al_control s \<noteq> Stop_entered then None
      else if \<not> alloc_ok
      then Some (Silent, s\<lparr>al_control := Stop_result (log_failure LCat_Internal Log_AllocationFailed)\<rparr>, w)
      else case barrier_enter Stop_waiting s of
          (Some r, s') \<Rightarrow> Some (Silent, s'\<lparr>al_control := Stop_result r\<rparr>, w)
        | (None, s') \<Rightarrow> Some (Silent, s', w))"
| "async_step D Stop_wait_return (s, w) =
     (case (al_control s, al_barrier s) of
        (Stop_waiting, Some e) \<Rightarrow>
          Some (Silent, s\<lparr>al_control := Stop_result (barrier_result e), al_barrier := None\<rparr>, w)
      | _ \<Rightarrow> None)"
| "async_step D Stop_signal (s, w) =
     (case al_control s of
        Stop_result r \<Rightarrow> Some (Silent, s\<lparr>al_stopping := True, al_control := Stop_joining r\<rparr>, w)
      | _ \<Rightarrow> None)"
| "async_step D Stop_join (s, w) =
     (case al_control s of
        Stop_joining r \<Rightarrow>
          if al_writer s = Writer_done \<or> al_writer s = No_writer
          then Some (Ended_with Op_stop (Returned r), stop_finish s, w) else None
      | _ \<Rightarrow> None)"

text \<open>The traces of a runtime, newest event first.\<close>

inductive async_trace :: "'w log_devices \<Rightarrow> log_event list \<Rightarrow> async_log \<times> 'w \<Rightarrow> bool" for D where
  start: "async_trace D [] (AsyncLogRuntime_new, w)"
| step: "async_trace D tr x \<Longrightarrow> async_step D a x = Some (ev, y) \<Longrightarrow> async_trace D (ev # tr) y"

end
