(* ===== verification/LogTextCorrect.thy ===== *)
theory LogTextCorrect
  imports LogText
begin

text \<open>
  What the bounded builder and the standard layout promise: a line the builder calls valid is
  exactly a line whose parts the runtime accepts, and a formatted record has one line break per
  line break asked for, whatever its texts hold.
\<close>

section \<open>Sizes of parts\<close>

definition part_ok :: "sLogPart \<Rightarrow> bool" where
  "part_ok p \<longleftrightarrow> lp_kind p = Part_Text \<or> lp_kind p = Part_NewLine \<and> lp_text p = []"

definition part_size :: "bool \<Rightarrow> sLogPart \<Rightarrow> nat" where
  "part_size windows p = (if lp_kind p = Part_Text then length (lp_text p) else length (END_LINE windows))"

definition parts_size :: "bool \<Rightarrow> sLogPart list \<Rightarrow> nat" where
  "parts_size windows ps = sum_list (map (part_size windows) ps)"

lemma parts_size_simps [simp]:
  "parts_size windows [] = 0"
  "parts_size windows (p # ps) = part_size windows p + parts_size windows ps"
  "parts_size windows (ps @ qs) = parts_size windows ps + parts_size windows qs"
  by (simp_all add: parts_size_def)

lemma part_size_simps [simp]:
  "part_size windows (text_part t) = length t"
  "part_size windows new_line_part = length (END_LINE windows)"
  by (simp_all add: part_size_def)

lemma part_ok_simps [simp]:
  "part_ok (text_part t)" "part_ok new_line_part" "\<not> part_ok \<lparr>lp_kind = - 1, lp_text = t\<rparr>"
  by (simp_all add: part_ok_def)

lemma unat_size64: "length xs < 2 ^ 64 \<Longrightarrow> unat (size64 xs) = length xs"
  by (simp add: unat_of_nat)

lemma END_LINE_short: "length (END_LINE windows) < 2 ^ 64"
  by (simp add: END_LINE_def)

lemma addBytes_exact:
  assumes "acc \<le> limit"
  shows "addBytes acc count limit =
    (if unat acc + unat count \<le> unat limit then Some (acc + count) else None)"
    and "unat acc + unat count \<le> unat limit \<Longrightarrow> unat (acc + count) = unat acc + unat count"
proof -
  have le: "unat acc \<le> unat limit" using assms by (simp add: word_le_nat_alt)
  have "limit - acc < count \<longleftrightarrow> unat limit - unat acc < unat count"
    using unat_sub_no_wrap [OF assms] by (simp add: word_less_nat_alt)
  then show "addBytes acc count limit =
    (if unat acc + unat count \<le> unat limit then Some (acc + count) else None)"
    using le by (auto simp: addBytes_def)
  show "unat (acc + count) = unat acc + unat count" if "unat acc + unat count \<le> unat limit"
    using that unat_lt_size [of limit] by (intro unat_add_u64) simp
qed

lemma partBytes_exact:
  assumes "length (lp_text p) < 2 ^ 64"
  shows "partBytes windows p = (if part_ok p then Some (word_of_nat (part_size windows p)) else None)"
    and "unat (word_of_nat (part_size windows p) :: u64) = part_size windows p"
  using assms unat_size64 [OF END_LINE_short]
  by (auto simp: partBytes_def part_ok_def part_size_def unat_of_nat END_LINE_def)

lemma addParts_exact:
  assumes "list_all (\<lambda>p. length (lp_text p) < 2 ^ 64) ps" "acc \<le> limit"
  shows "addParts windows acc ps limit \<noteq> None \<longleftrightarrow>
    list_all part_ok ps \<and> unat acc + parts_size windows ps \<le> unat limit"
  using assms
proof (induction ps arbitrary: acc)
  case Nil
  then show ?case by (simp add: word_le_nat_alt)
next
  case (Cons p ps)
  define n :: u64 where "n = word_of_nat (part_size windows p)"
  have n: "unat n = part_size windows p" "partBytes windows p = (if part_ok p then Some n else None)"
    using partBytes_exact [of p windows] Cons.prems unfolding n_def by auto
  show ?case
  proof (cases "part_ok p \<and> unat acc + unat n \<le> unat limit")
    case True
    then have "acc + n \<le> limit" "unat (acc + n) = unat acc + unat n"
      using addBytes_exact(2) [OF Cons.prems(2), of n] by (simp_all add: word_le_nat_alt)
    then show ?thesis
      using Cons.IH [of "acc + n"] Cons.prems n True addBytes_exact(1) [OF Cons.prems(2), of n] by (auto simp: add_ac)
  next
    case False
    then show ?thesis
      using n addBytes_exact(1) [OF Cons.prems(2), of n] by (auto split: if_splits)
  qed
qed

section \<open>The builder\<close>

inductive builder_reachable :: "bool \<Rightarrow> int \<Rightarrow> u64 \<Rightarrow> u64 \<Rightarrow> LogMessageBuilder \<Rightarrow> bool"
  for windows separate byte_limit part_limit where
  new: "builder_reachable windows separate byte_limit part_limit
          (LogMessageBuilder_new separate byte_limit part_limit)"
| text_call: "builder_reachable windows separate byte_limit part_limit b \<Longrightarrow> length t < 2 ^ 64
    \<Longrightarrow> builder_append alloc t b = (r, b') \<Longrightarrow> builder_reachable windows separate byte_limit part_limit b'"
| cstring_call: "builder_reachable windows separate byte_limit part_limit b
    \<Longrightarrow> (\<And>t. p = Some t \<Longrightarrow> length t < 2 ^ 64)
    \<Longrightarrow> builder_append_cstring alloc p b = (r, b') \<Longrightarrow> builder_reachable windows separate byte_limit part_limit b'"
| wide_call: "builder_reachable windows separate byte_limit part_limit b
    \<Longrightarrow> (\<And>t u. convert t = Returned u \<Longrightarrow> length u < 2 ^ 64)
    \<Longrightarrow> builder_append_wide convert alloc (p :: nat list option) b = (r, b')
    \<Longrightarrow> builder_reachable windows separate byte_limit part_limit b'"
| bool_call: "builder_reachable windows separate byte_limit part_limit b
    \<Longrightarrow> builder_append_bool alloc v b = (r, b') \<Longrightarrow> builder_reachable windows separate byte_limit part_limit b'"
| enum_call: "builder_reachable windows separate byte_limit part_limit b
    \<Longrightarrow> builder_appendEnum alloc bits n b = (r, b') \<Longrightarrow> builder_reachable windows separate byte_limit part_limit b'"
| integer_call: "builder_reachable windows separate byte_limit part_limit b \<Longrightarrow> \<bar>i\<bar> < 2 ^ 64
    \<Longrightarrow> builder_append_integer alloc i b = (r, b') \<Longrightarrow> builder_reachable windows separate byte_limit part_limit b'"
| control_call: "builder_reachable windows separate byte_limit part_limit b
    \<Longrightarrow> builder_append_control windows alloc_ok c b = (r, b')
    \<Longrightarrow> builder_reachable windows separate byte_limit part_limit b'"

text \<open>The invariant: while it is valid, the builder's parts are well formed and inside its limits,
  and its count is their size.\<close>

definition builder_ok :: "bool \<Rightarrow> LogMessageBuilder \<Rightarrow> bool" where
  "builder_ok windows b \<longleftrightarrow> length (lb_separator b) < 2 \<and>
     (lb_is_valid b \<longrightarrow> list_all part_ok (lb_parts b) \<and> parts_size windows (lb_parts b) = unat (lb_bytes b)
        \<and> lb_bytes b \<le> lb_byte_limit b \<and> length (lb_parts b) \<le> unat (lb_part_limit b))"

lemma builder_ok_invalid [simp]: "builder_ok windows (invalidate b) \<longleftrightarrow> length (lb_separator b) < 2"
  by (simp add: builder_ok_def)

lemma builder_ok_new: "builder_ok windows (LogMessageBuilder_new separate byte_limit part_limit)"
  by (simp add: builder_ok_def LogMessageBuilder_new_def getLogSeparator_def)

lemma append_last_text:
  assumes "ps \<noteq> []" "lp_kind (last ps) = Part_Text"
  shows "parts_size windows (append_last t ps) = parts_size windows ps + length t"
    and "list_all part_ok ps \<Longrightarrow> list_all part_ok (append_last t ps)"
    and "length (append_last t ps) = length ps"
    and "append_last t ps \<noteq> []" "lp_kind (last (append_last t ps)) = Part_Text"
  using assms
  by (induction ps rule: rev_induct) (auto simp: append_last_def part_size_def part_ok_def)

lemma append_keeps_ok:
  assumes "builder_ok windows b" "length t < 2 ^ 64" "builder_append alloc t b = (r, b')"
  shows "builder_ok windows b' \<and> lb_byte_limit b' = lb_byte_limit b \<and> lb_part_limit b' = lb_part_limit b"
proof -
  define ps where "ps = (if lb_parts b = [] \<or> lp_kind (last (lb_parts b)) \<noteq> Part_Text
    then lb_parts b @ [text_part ''''] else lb_parts b)"
  have sep: "length (lb_separator b) < 2" using assms(1) by (simp add: builder_ok_def)
  consider "b' = b" | (inv) c where "b' = invalidate c" "lb_separator c = lb_separator b"
      "lb_byte_limit c = lb_byte_limit b" "lb_part_limit c = lb_part_limit b"
    | (built) "lb_is_valid b" "\<not> lb_byte_limit b - lb_bytes b < size64 t"
      "\<not> lb_byte_limit b - lb_bytes b - size64 t < size64 (lb_separator b)"
      "ps \<noteq> lb_parts b \<longrightarrow> \<not> lb_part_limit b \<le> size64 (lb_parts b)"
      "b' = b\<lparr>lb_parts := append_last t (append_last (lb_separator b) ps),
                  lb_bytes := lb_bytes b + (size64 (lb_separator b) + size64 t)\<rparr>"
    using assms(3) unfolding builder_append_def Let_def ps_def by (auto split: if_splits)
  then show ?thesis
  proof cases
    case 1
    then show ?thesis using assms(1) by simp
  next
    case inv
    then show ?thesis using sep by simp
  next
    case built
    have inv: "list_all part_ok (lb_parts b)" "parts_size windows (lb_parts b) = unat (lb_bytes b)"
      "lb_bytes b \<le> lb_byte_limit b" "length (lb_parts b) \<le> unat (lb_part_limit b)"
      using assms(1) built(1) by (auto simp: builder_ok_def)
    have room: "unat (lb_byte_limit b - lb_bytes b) = unat (lb_byte_limit b) - unat (lb_bytes b)"
      using unat_sub_no_wrap [OF inv(3)] .
    have t: "unat (size64 t) = length t" using unat_size64 [OF assms(2)] .
    have s: "unat (size64 (lb_separator b)) = length (lb_separator b)"
      using unat_size64 [of "lb_separator b"] sep by simp
    have le: "size64 t \<le> lb_byte_limit b - lb_bytes b" using built(2) by simp
    have "unat (lb_byte_limit b - lb_bytes b - size64 t)
        = unat (lb_byte_limit b) - unat (lb_bytes b) - length t"
      using unat_sub_no_wrap [OF le] room t by simp
    then have fit: "unat (lb_bytes b) + length (lb_separator b) + length t \<le> unat (lb_byte_limit b)"
      using built(2,3) room t s inv(3) unfolding not_less word_le_nat_alt by linarith
    have lim: "unat (lb_byte_limit b) < 2 ^ 64" using unat_lt_size [of "lb_byte_limit b"] by simp
    have st: "unat (size64 (lb_separator b) + size64 t) = length (lb_separator b) + length t"
      using unat_add_u64 [of "size64 (lb_separator b)" "size64 t"] s t fit lim by linarith
    have bytes: "unat (lb_bytes b + (size64 (lb_separator b) + size64 t))
        = unat (lb_bytes b) + length (lb_separator b) + length t"
      using unat_add_u64 [of "lb_bytes b" "size64 (lb_separator b) + size64 t"] st fit lim by linarith
    have ps: "ps \<noteq> []" "lp_kind (last ps) = Part_Text" "parts_size windows ps = unat (lb_bytes b)"
        "list_all part_ok ps" "length ps \<le> unat (lb_part_limit b)"
    proof -
      have "length (lb_parts b) < unat (lb_part_limit b)" if "ps \<noteq> lb_parts b"
      proof -
        have "length (lb_parts b) < 2 ^ 64"
          using inv(4) unat_lt_size [of "lb_part_limit b"] by simp
        then show ?thesis
          using built(4) that unat_size64 [of "lb_parts b"] by (simp add: word_le_nat_alt)
      qed
      then show "ps \<noteq> []" "lp_kind (last ps) = Part_Text" "parts_size windows ps = unat (lb_bytes b)"
        "list_all part_ok ps" "length ps \<le> unat (lb_part_limit b)"
        using inv unfolding ps_def by auto
    qed
    note a = append_last_text [OF ps(1,2)]
    note a2 = append_last_text [OF append_last_text(4,5) [OF ps(1,2)]]
    show ?thesis
      using built(5) sep a a2 ps bytes fit
      by (simp add: builder_ok_def word_le_nat_alt add_ac)
  qed
qed

lemma show_base_length: "0 < k \<Longrightarrow> n < b ^ k \<Longrightarrow> 2 \<le> b \<Longrightarrow> length (show_base b n) \<le> k"
proof (induction b n arbitrary: k rule: show_base.induct)
  case (1 b n)
  show ?case
  proof (cases "n < b")
    case True
    then show ?thesis using 1 by (simp add: show_base.simps [of b n])
  next
    case False
    obtain k' where k': "k = Suc k'" using 1(2) by (cases k) auto
    then have k: "k = Suc k'" "0 < k'" using 1(3) False by (cases k'; simp)+
    have "n div b < b ^ k'"
      using 1(3,4) k by (simp add: less_mult_imp_div_less mult.commute)
    then have "length (show_base b (n div b)) \<le> k'"
      using 1(1) [of k'] False 1(4) k by simp
    then show ?thesis using False 1(4) k by (simp add: show_base.simps [of b n])
  qed
qed

lemma toHex_short: "length (toHex w v) < 2 ^ 64" if "w \<le> 16" "v < 2 ^ 64"
proof -
  have "length (show_base 16 v) \<le> 16" using show_base_length [of 16 v 16] that by simp
  then show ?thesis using that by (simp add: toHex_def pad_left_def)
qed

lemma show_int_short: "length (show_int i) < 2 ^ 64" if "\<bar>i\<bar> < 2 ^ 64"
proof -
  have "nat i < 10 ^ 20" "nat (- i) < 10 ^ 20"
    using that by (cases "0 \<le> i"; simp add: nat_less_iff abs_less_iff)+
  then have "length (show_base 10 (nat i)) \<le> 20" "length (show_base 10 (nat (- i))) \<le> 20"
    by (auto intro: show_base_length)
  then show ?thesis by (simp add: show_int_def)
qed

lemma control_keeps_ok:
  assumes "builder_ok windows b" "builder_append_control windows alloc_ok c b = (r, b')"
  shows "builder_ok windows b' \<and> lb_byte_limit b' = lb_byte_limit b \<and> lb_part_limit b' = lb_part_limit b"
proof (cases "lb_is_valid b \<and> c = 0 \<and> \<not> lb_byte_limit b - lb_bytes b < size64 (END_LINE windows)
    \<and> \<not> lb_part_limit b \<le> size64 (lb_parts b) \<and> alloc_ok")
  case True
  define n where "n = size64 (END_LINE windows)"
  have n: "unat n = length (END_LINE windows)" using unat_size64 [OF END_LINE_short] by (simp add: n_def)
  have inv: "list_all part_ok (lb_parts b)" "parts_size windows (lb_parts b) = unat (lb_bytes b)"
      "lb_bytes b \<le> lb_byte_limit b" "length (lb_parts b) \<le> unat (lb_part_limit b)"
    using assms(1) True by (auto simp: builder_ok_def)
  have fit: "unat (lb_bytes b) + unat n \<le> unat (lb_byte_limit b)"
    using True unat_sub_no_wrap [OF inv(3)] inv(3) unfolding n_def not_less word_le_nat_alt by linarith
  then have sum: "unat (lb_bytes b + n) = unat (lb_bytes b) + unat n"
    using unat_add_u64 [of "lb_bytes b" n] unat_lt_size [of "lb_byte_limit b"] by simp
  have "length (lb_parts b) < 2 ^ 64" using inv(4) unat_lt_size [of "lb_part_limit b"] by simp
  then have "length (lb_parts b) < unat (lb_part_limit b)"
    using True unat_size64 [of "lb_parts b"] by (simp add: word_le_nat_alt)
  moreover have "b' = b\<lparr>lb_parts := lb_parts b @ [new_line_part], lb_bytes := lb_bytes b + n\<rparr>"
    using assms(2) True by (simp add: builder_append_control_def Let_def n_def)
  ultimately show ?thesis
    using assms(1) True inv fit sum n by (simp add: builder_ok_def word_le_nat_alt)
next
  case False
  then have "b' = invalidate b"
    using assms(2) unfolding builder_append_control_def Let_def by (simp split: if_splits)
  then show ?thesis using assms(1) by (simp add: builder_ok_def)
qed

lemma append_or_invalid:
  assumes "builder_ok windows b \<and> lb_byte_limit b = m \<and> lb_part_limit b = k"
    and "b' = invalidate b \<or> (\<exists>t. length t < 2 ^ 64 \<and> builder_append alloc t b = (r, b'))"
  shows "builder_ok windows b' \<and> lb_byte_limit b' = m \<and> lb_part_limit b' = k"
  using assms(2)
proof
  assume "b' = invalidate b"
  then show ?thesis using assms(1) by (simp add: builder_ok_def)
next
  assume "\<exists>t. length t < 2 ^ 64 \<and> builder_append alloc t b = (r, b')"
  then show ?thesis using append_keeps_ok assms(1) by metis
qed

lemma builder_reachable_ok:
  assumes "builder_reachable windows separate byte_limit part_limit b"
  shows "builder_ok windows b \<and> lb_byte_limit b = byte_limit \<and> lb_part_limit b = part_limit"
  using assms
proof (induction rule: builder_reachable.induct)
  case new
  then show ?case by (simp add: builder_ok_new) (simp add: LogMessageBuilder_new_def)
next
  case (text_call b t alloc r b')
  then show ?case using append_keeps_ok by metis
next
  case (cstring_call b p alloc r b')
  have "b' = invalidate b \<or> (\<exists>t. length t < 2 ^ 64 \<and> builder_append alloc t b = (r, b'))"
    using cstring_call(2,3) unfolding builder_append_cstring_def Let_def by (auto split: option.splits if_splits)
  then show ?case by (rule append_or_invalid [OF cstring_call.IH])
next
  case (wide_call b convert alloc p r b')
  have "b' = invalidate b \<or> (\<exists>t. length t < 2 ^ 64 \<and> builder_append alloc t b = (r, b'))"
    using wide_call(2,3) unfolding builder_append_wide_def Let_def
    by (auto split: option.splits if_splits reply.splits)
  then show ?case by (rule append_or_invalid [OF wide_call.IH])
next
  case (bool_call b alloc v r b')
  define u where "u = (if v then ''true'' else ''false'')"
  have "length u < 2 ^ 64" by (simp add: u_def)
  then have "b' = invalidate b \<or> (\<exists>t. length t < 2 ^ 64 \<and> builder_append alloc t b = (r, b'))"
    using bool_call(2) unfolding builder_append_bool_def builder_append_cstring_def Let_def u_def [symmetric]
    by (auto split: if_splits)
  then show ?case by (rule append_or_invalid [OF bool_call.IH])
next
  case (enum_call b alloc bits n r b')
  have "unat (ucast bits :: u8) < 2 ^ 64" "unat (ucast bits :: u16) < 2 ^ 64"
    "unat (ucast bits :: u32) < 2 ^ 64" "unat bits < 2 ^ 64"
    using unat_lt_size [of "ucast bits :: u8"] unat_lt_size [of "ucast bits :: u16"]
      unat_lt_size [of "ucast bits :: u32"] unat_lt_size [of bits] by simp_all
  then have "length (if n = 1 then toHex 2 (unat (ucast bits :: u8))
        else if n = 2 then toHex 4 (unat (ucast bits :: u16))
        else if n = 4 then toHex 8 (unat (ucast bits :: u32))
        else toHex 16 (unat bits)) < 2 ^ 64" (is "length ?u < _")
    using toHex_short [of 2 "unat (ucast bits :: u8)"] toHex_short [of 4 "unat (ucast bits :: u16)"]
      toHex_short [of 8 "unat (ucast bits :: u32)"] toHex_short [of 16 "unat bits"] by simp
  moreover have "builder_append alloc ?u b = (r, b')"
    using enum_call(2) by (simp only: builder_appendEnum_def)
  ultimately show ?case using append_or_invalid [OF enum_call.IH] by blast
next
  case (integer_call b i alloc r b')
  then have "length (show_int i) < 2 ^ 64" "builder_append alloc (show_int i) b = (r, b')"
    using show_int_short by (simp_all add: builder_append_integer_def)
  then show ?case using append_or_invalid [OF integer_call.IH] by blast
next
  case (control_call b alloc_ok c r b')
  then show ?case using control_keeps_ok by metis
qed

text \<open>A line built with the limits of the runtime's settings is valid exactly when the runtime
  accepts its parts: a valid line is never refused as too large for its parts, and a line that
  overflowed its limits (or hit an allocation failure) is never submitted truncated, because its
  parts are refused.\<close>

theorem log_line_accepted_iff_valid:
  assumes "builder_reachable windows (ls_separate S) (ls_record_byte_limit S) (ls_record_part_limit S) b"
    and "list_all (\<lambda>p. length (lp_text p) < 2 ^ 64) (lb_parts b)"
    and "length (lb_parts b) + 1 < 2 ^ 64"
  shows "(size64 (line_parts b) \<le> ls_record_part_limit S
      \<and> addParts windows 0 (line_parts b) (ls_record_byte_limit S) \<noteq> None) \<longleftrightarrow> lb_is_valid b"
proof -
  have ok: "builder_ok windows b" "lb_byte_limit b = ls_record_byte_limit S"
      "lb_part_limit b = ls_record_part_limit S"
    using builder_reachable_ok [OF assms(1)] by auto
  have exact: "addParts windows 0 (line_parts b) (ls_record_byte_limit S) \<noteq> None \<longleftrightarrow>
      list_all part_ok (line_parts b) \<and> parts_size windows (line_parts b) \<le> unat (ls_record_byte_limit S)"
    using addParts_exact [of "line_parts b" 0] assms(2) by (simp add: line_parts_def)
  show ?thesis
  proof (cases "lb_is_valid b")
    case True
    have "unat (size64 (lb_parts b)) = length (lb_parts b)" using unat_size64 [of "lb_parts b"] assms(3) by simp
    then show ?thesis using True exact ok by (simp add: builder_ok_def line_parts_def word_le_nat_alt)
  next
    case False
    then show ?thesis using exact by (simp add: line_parts_def)
  qed
qed

lemma log_line_accepted_iff_valid_witness:
  "(size64 (line_parts (snd (builder_append No_failure ''a'' (LogMessageBuilder_new 1 2 1))))
      \<le> ls_record_part_limit (default_settings\<lparr>ls_record_byte_limit := 2, ls_record_part_limit := 1\<rparr>)
    \<and> addParts False 0 (line_parts (snd (builder_append No_failure ''a'' (LogMessageBuilder_new 1 2 1))))
      (ls_record_byte_limit (default_settings\<lparr>ls_record_byte_limit := 2, ls_record_part_limit := 1\<rparr>)) \<noteq> None)
    \<longleftrightarrow> lb_is_valid (snd (builder_append No_failure ''a'' (LogMessageBuilder_new 1 2 1)))"
proof (rule log_line_accepted_iff_valid)
  show "builder_reachable False (ls_separate (default_settings\<lparr>ls_record_byte_limit := 2, ls_record_part_limit := 1\<rparr>))
     (ls_record_byte_limit (default_settings\<lparr>ls_record_byte_limit := 2, ls_record_part_limit := 1\<rparr>))
     (ls_record_part_limit (default_settings\<lparr>ls_record_byte_limit := 2, ls_record_part_limit := 1\<rparr>))
     (snd (builder_append No_failure ''a'' (LogMessageBuilder_new 1 2 1)))"
    by (rule text_call [OF new, where t = "''a''" and alloc = No_failure
          and r = "fst (builder_append No_failure ''a'' (LogMessageBuilder_new 1 2 1))"])
       (simp_all add: default_settings_def)
qed (simp_all add: builder_append_def LogMessageBuilder_new_def getLogSeparator_def append_last_def Let_def)

section \<open>The layout\<close>

abbreviation LF :: char where "LF \<equiv> CHR 0x0A"
abbreviation CR :: char where "CR \<equiv> CHR 0x0D"
abbreviation NUL :: char where "NUL \<equiv> CHR 0x00"

definition plain :: "string \<Rightarrow> bool" where
  "plain t \<longleftrightarrow> LF \<notin> set t \<and> CR \<notin> set t \<and> NUL \<notin> set t"

text \<open>A text with \<open>n\<close> line ends and no other control character of the three.\<close>

definition has_lines :: "bool \<Rightarrow> nat \<Rightarrow> string \<Rightarrow> bool" where
  "has_lines windows n t \<longleftrightarrow> NUL \<notin> set t \<and> count_list t LF = n \<and> count_list t CR = (if windows then n else 0)"

lemma plain_simps [simp]:
  "plain []" "plain (c # t) \<longleftrightarrow> c \<noteq> LF \<and> c \<noteq> CR \<and> c \<noteq> NUL \<and> plain t"
  "plain (s @ t) \<longleftrightarrow> plain s \<and> plain t"
  by (auto simp: plain_def)

lemma has_lines_plain: "plain t \<Longrightarrow> has_lines windows 0 t"
  by (simp add: plain_def has_lines_def count_list_0_iff)

lemma has_lines_append:
  "has_lines windows n s \<Longrightarrow> has_lines windows m t \<Longrightarrow> has_lines windows (n + m) (s @ t)"
  by (auto simp: has_lines_def)

lemma has_lines_END_LINE: "has_lines windows 1 (END_LINE windows)"
  by (simp add: has_lines_def END_LINE_def)

lemma plain_escape: "plain (concat (map escape_char t))"
  by (induction t) (auto simp: escape_char_def)

definition line_breaks :: "sLogPart list \<Rightarrow> nat" where
  "line_breaks ps = length (filter (\<lambda>p. lp_kind p = Part_NewLine) ps)"

lemma renderLogParts_lines: "has_lines windows (line_breaks ps) (renderLogParts windows ps)"
proof (induction ps)
  case Nil
  then show ?case by (simp add: line_breaks_def renderLogParts_def has_lines_def)
next
  case (Cons p ps)
  have "has_lines windows (if lp_kind p = Part_NewLine then 1 else 0)
     (if lp_kind p = Part_NewLine then END_LINE windows else concat (map escape_char (lp_text p)))"
    using has_lines_END_LINE has_lines_plain [OF plain_escape] by simp
  from has_lines_append [OF this Cons] show ?case
    by (cases "lp_kind p = Part_NewLine") (simp_all add: renderLogParts_def line_breaks_def)
qed

lemma renderLogParts_plain: "plain (renderLogParts windows [text_part t])"
  using plain_escape by (simp add: renderLogParts_def)

lemma plain_digit: "n < 36 \<Longrightarrow> digit n \<noteq> LF \<and> digit n \<noteq> CR \<and> digit n \<noteq> NUL"
proof -
  assume n: "n < 36"
  have "of_char (digit n) = (if n < 10 then 48 + n else 87 + n :: nat)"
    using n by (simp add: digit_def)
  then show ?thesis using n by (auto split: if_splits)
qed

lemma plain_show_base: "2 \<le> b \<Longrightarrow> b \<le> 36 \<Longrightarrow> plain (show_base b n)"
proof (induction b n rule: show_base.induct)
  case (1 b n)
  have "n mod b < 36" using 1(2,3) mod_less_divisor [of b n] by linarith
  then show ?case using 1 plain_digit [of n] plain_digit [of "n mod b"]
    by (subst show_base.simps) auto
qed

lemma plain_replicate: "c \<noteq> LF \<Longrightarrow> c \<noteq> CR \<Longrightarrow> c \<noteq> NUL \<Longrightarrow> plain (replicate n c)"
  by (simp add: plain_def)

lemma plain_show_int: "plain (show_int i)"
  using plain_show_base by (simp add: show_int_def)

lemma plain_timestampPrefix:
  assumes "plain (fst (local (lr_timestamp r)))" "plain (snd (local (lr_timestamp r)))"
  shows "plain (timestampPrefix local r pre)"
  using assms plain_show_int plain_replicate
  by (simp add: timestampPrefix_def split_beta pad_left_def)

definition location_text :: "bool \<Rightarrow> sAsyncLogRecord \<Rightarrow> string" where
  "location_text windows r =
     (if lr_file r \<noteq> []
      then ''( '' @ renderLogParts windows [text_part (after_last_separator (lr_file r))] @ '' ) '' else '''')
     @ (if lr_line r \<noteq> 0 then pad_right 6 CHR '' '' (show_int (lr_line r)) else '''')"

lemma defaultFormat_exact:
  "defaultFormat windows local r S = Returned
     ((''<'' @ renderLogParts windows [text_part (lr_tag r)] @ ''>'')
      @ timestampPrefix local r (ls_prefix S) @ location_text windows r
      @ renderLogParts windows (lr_parts r) @ getLogSuffix windows (ls_suffix S))"
  by (simp add: defaultFormat_def formatLogMessage_def insert_at_def Let_def getLogPrefix_def location_text_def)

text \<open>C22. The standard layout cannot be forged: whatever the tag, the file name and the texts of a
  record hold, its formatted text has exactly one line end per explicit line break and one for the
  suffix, no other carriage return, and no NUL (the local date and time being free of the three),
  and formatting never throws.\<close>

theorem log_layout_not_forged:
  assumes "plain (fst (local (lr_timestamp r)))" "plain (snd (local (lr_timestamp r)))"
  shows "\<exists>t. defaultFormat windows local r S = Returned t
     \<and> has_lines windows (line_breaks (lr_parts r) + (if ls_suffix S = 1 then 1 else 0)) t"
proof -
  have location: "plain (location_text windows r)"
    using renderLogParts_plain plain_show_int plain_replicate by (simp add: pad_right_def location_text_def)
  have tag: "plain (''<'' @ renderLogParts windows [text_part (lr_tag r)] @ ''>'')"
    using renderLogParts_plain by simp
  have suffix: "has_lines windows (if ls_suffix S = 1 then 1 else 0) (getLogSuffix windows (ls_suffix S))"
    using has_lines_END_LINE has_lines_plain by (simp add: getLogSuffix_def)
  have "plain ((''<'' @ renderLogParts windows [text_part (lr_tag r)] @ ''>'')
      @ timestampPrefix local r (ls_prefix S) @ location_text windows r)"
    using tag location plain_timestampPrefix [of local r "ls_prefix S"] assms by simp
  from has_lines_append [OF has_lines_plain [OF this]
      has_lines_append [OF renderLogParts_lines [of windows "lr_parts r"] suffix]]
  show ?thesis unfolding defaultFormat_exact by simp
qed

lemma log_layout_not_forged_witness:
  "\<exists>t. defaultFormat False (\<lambda>ns. (''26/09/13'', ''10:00:00''))
      \<lparr>lr_timestamp = 5, lr_level = 2, lr_tag = ''a'' @ [LF], lr_source = '''', lr_file = ''d/f.cpp'',
       lr_line = 7, lr_verbosity = 1, lr_parts = [text_part [LF], new_line_part], lr_attributes = []\<rparr>
      default_settings = Returned t
    \<and> has_lines False (line_breaks [text_part [LF], new_line_part] + (if ls_suffix default_settings = 1 then 1 else 0)) t"
  using log_layout_not_forged [of "\<lambda>ns. (''26/09/13'', ''10:00:00'')"
      "\<lparr>lr_timestamp = 5, lr_level = 2, lr_tag = ''a'' @ [LF], lr_source = '''', lr_file = ''d/f.cpp'',
       lr_line = 7, lr_verbosity = 1, lr_parts = [text_part [LF], new_line_part], lr_attributes = []\<rparr>"
      False default_settings]
  by simp

end
