(* ===== verification/AsyncLogSteps.thy ===== *)
theory AsyncLogSteps
  imports AsyncLog LogTextCorrect
begin

text \<open>
  The states of the asynchronous logger: the invariant of the barrier, the queue, the writer and the
  flags, its preservation by every action, and the actions as one list of cases, by which the
  statements about traces are proved.
\<close>

section \<open>The invariant of the states\<close>

fun records_of :: "log_entry list \<Rightarrow> sAsyncLogRecord list" where
  "records_of [] = []"
| "records_of (Record_entry r # q) = r # records_of q"
| "records_of (Barrier_entry # q) = records_of q"

lemma records_of_append [simp]: "records_of (p @ q) = records_of p @ records_of q"
  by (induction p rule: records_of.induct) auto

definition holds_barrier :: "writer_pc \<Rightarrow> bool" where
  "holds_barrier pc = (case pc of Busy Barrier_entry k \<Rightarrow> True | Finished Barrier_entry k e \<Rightarrow> True | _ \<Rightarrow> False)"

definition skips :: "writer_pc \<Rightarrow> bool" where
  "skips pc = (case pc of Busy e k \<Rightarrow> k | Finished e k err \<Rightarrow> k | _ \<Rightarrow> False)"

lemma writer_pc_simps [simp]:
  "\<not> holds_barrier No_writer" "\<not> holds_barrier Ready" "\<not> holds_barrier Writer_done"
  "holds_barrier (Busy e k) \<longleftrightarrow> e = Barrier_entry" "holds_barrier (Finished e k err) \<longleftrightarrow> e = Barrier_entry"
  "\<not> skips No_writer" "\<not> skips Ready" "\<not> skips Writer_done"
  "skips (Busy e k) \<longleftrightarrow> k" "skips (Finished e k err) \<longleftrightarrow> k"
  by (auto simp: holds_barrier_def skips_def split: log_entry.splits)

definition uses_barrier :: "control_pc \<Rightarrow> bool" where
  "uses_barrier pc = (case pc of Configuring S f \<Rightarrow> True | Flushing \<Rightarrow> True | Stop_waiting \<Rightarrow> True | _ \<Rightarrow> False)"

definition joining :: "control_pc \<Rightarrow> bool" where
  "joining pc = (case pc of Stop_joining r \<Rightarrow> True | _ \<Rightarrow> False)"

definition closing :: "control_pc \<Rightarrow> bool" where
  "closing pc = (case pc of Configuring S f \<Rightarrow> True | Stop_waiting \<Rightarrow> True | _ \<Rightarrow> False)"

lemma control_pc_simps [simp]:
  "\<not> uses_barrier Control_free" "uses_barrier (Configuring S f)" "uses_barrier Flushing"
  "\<not> uses_barrier Stop_entered" "uses_barrier Stop_waiting" "\<not> uses_barrier (Stop_result r)"
  "\<not> uses_barrier (Stop_joining r)"
  "\<not> joining Control_free" "\<not> joining (Configuring S f)" "\<not> joining Flushing"
  "\<not> joining Stop_entered" "\<not> joining Stop_waiting" "\<not> joining (Stop_result r)" "joining (Stop_joining r)"
  "\<not> closing Control_free" "closing (Configuring S f)" "\<not> closing Flushing"
  "\<not> closing Stop_entered" "closing Stop_waiting" "\<not> closing (Stop_result r)" "\<not> closing (Stop_joining r)"
  by (simp_all add: uses_barrier_def joining_def closing_def)

definition waits :: "async_log \<Rightarrow> bool" where
  "waits s \<longleftrightarrow> uses_barrier (al_control s) \<and> al_barrier s = None"

text \<open>The barrier in the queue or in the writer's hands exists exactly while an operation waits for it.\<close>

definition inv_barrier :: "async_log \<Rightarrow> bool" where
  "inv_barrier s \<longleftrightarrow>
     count_list (al_queue s) Barrier_entry + (if holds_barrier (al_writer s) then 1 else 0) = (if waits s then 1 else 0)
     \<and> (al_barrier s \<noteq> None \<longrightarrow> uses_barrier (al_control s))"

text \<open>Nothing is queued behind the barrier of \<open>configure\<close> and \<open>stop\<close>.\<close>

definition inv_closing :: "async_log \<Rightarrow> bool" where
  "inv_closing s \<longleftrightarrow>
     (accepting s \<longrightarrow> al_control s = Control_free \<or> al_control s = Flushing)
     \<and> (closing (al_control s) \<longrightarrow>
         (if al_barrier s \<noteq> None then al_queue s = [] \<and> al_writer s = Ready
          else if holds_barrier (al_writer s) then al_queue s = []
          else \<exists>q. al_queue s = q @ [Barrier_entry]))"

definition inv_running :: "async_log \<Rightarrow> bool" where
  "inv_running s \<longleftrightarrow>
     (is_running s \<longleftrightarrow> al_writer s \<noteq> No_writer)
     \<and> (\<not> is_running s \<longrightarrow> al_queue s = [] \<and> \<not> accepting s \<and> \<not> uses_barrier (al_control s))
     \<and> (al_stopping s \<longrightarrow> joining (al_control s) \<or> \<not> is_running s)
     \<and> (joining (al_control s) \<longrightarrow> al_stopping s)
     \<and> (al_writer s = Writer_done \<longrightarrow> al_queue s = [] \<and> joining (al_control s))"

definition inv_queued :: "async_log \<Rightarrow> bool" where
  "inv_queued s \<longleftrightarrow>
     st_queued (al_status s) = word_of_nat (length (records_of (al_queue s)))
     \<and> length (records_of (al_queue s)) \<le> unat (ls_queue_capacity (al_settings s))"

definition inv_failed :: "async_log \<Rightarrow> bool" where
  "inv_failed s \<longleftrightarrow>
     (al_writer_failed s \<longrightarrow> \<not> LogError_ok (last_error s))
     \<and> (skips (al_writer s) \<longrightarrow> al_writer_failed s)
     \<and> list_all (\<lambda>p. p \<noteq> 0) (ls_sinks (al_settings s))
     \<and> (case al_control s of Configuring S f \<Rightarrow> validSettings S | _ \<Rightarrow> True)"

lemmas log_invs = inv_barrier_def inv_closing_def inv_running_def inv_queued_def inv_failed_def

definition log_inv :: "async_log \<Rightarrow> bool" where
  "log_inv s \<longleftrightarrow> inv_barrier s \<and> inv_closing s \<and> inv_running s \<and> inv_queued s \<and> inv_failed s"

lemma log_inv_new: "log_inv AsyncLogRuntime_new"
  by (simp add: log_inv_def log_invs AsyncLogRuntime_new_def default_settings_def waits_def)

section \<open>Every action keeps it\<close>

lemma status_only:
  assumes "log_inv s"
    and "st_is_running t = is_running s" "st_is_accepting t = accepting s" "st_queued t = st_queued (al_status s)"
    and "al_writer_failed s \<longrightarrow> \<not> LogError_ok (st_last_error t)"
  shows "log_inv (s\<lparr>al_status := t\<rparr>)"
  using assms by (auto simp: log_inv_def log_invs waits_def)

lemma tryAppend_inv:
  assumes "log_inv s"
  shows "log_inv (snd (tryAppend windows inside alloc_ok r s))"
proof -
  have dropped: "log_inv (count_dropped s)"
    using assms by (auto simp: count_dropped_def intro!: status_only) (simp add: log_inv_def inv_failed_def)
  have error: "log_inv (put_error e t)" if "log_inv t" "\<not> LogError_ok e" for e t
    using that by (auto simp: put_error_def intro!: status_only)
  have note_ok: "log_inv (note_error e t)" if "log_inv t" "\<not> LogError_ok e" for e t
    using that error by (simp add: note_error_def)
  have filtered: "log_inv (on_status (\<lambda>t. t\<lparr>st_filtered := n\<rparr>) s)" for n
    using assms by (auto intro!: status_only) (simp add: log_inv_def inv_failed_def)
  have push: "log_inv (on_status (\<lambda>t. t\<lparr>st_queued := st_queued t + 1, st_accepted := n\<rparr>)
     (s\<lparr>al_queue := al_queue s @ [Record_entry r]\<rparr>))"
    if "accepting s" "\<not> ls_queue_capacity (al_settings s) \<le> st_queued (al_status s)" for n
  proof -
    have q: "st_queued (al_status s) = word_of_nat (length (records_of (al_queue s)))"
        "length (records_of (al_queue s)) \<le> unat (ls_queue_capacity (al_settings s))"
      using assms by (simp_all add: log_inv_def inv_queued_def)
    then have "unat (word_of_nat (length (records_of (al_queue s))) :: u64) = length (records_of (al_queue s))"
      using unat_lt_size [of "ls_queue_capacity (al_settings s)"] by (simp add: unat_of_nat)
    then have "Suc (length (records_of (al_queue s))) \<le> unat (ls_queue_capacity (al_settings s))"
      using that(2) q(1) by (simp add: word_le_nat_alt)
    then show ?thesis
      using assms that(1) q(1) by (auto simp: log_inv_def log_invs waits_def add.commute)
  qed
  show ?thesis
    unfolding tryAppend_def using assms by (auto intro!: dropped error note_ok filtered push [simplified])
qed

text \<open>The invariant is proved part by part; \<open>log_inv_parts\<close> takes it apart.\<close>

lemma log_inv_parts:
  assumes "log_inv s"
  shows "inv_barrier s" "inv_closing s" "inv_running s" "inv_queued s" "inv_failed s"
  using assms by (simp_all add: log_inv_def)

lemma log_invI:
  "inv_barrier s \<Longrightarrow> inv_closing s \<Longrightarrow> inv_running s \<Longrightarrow> inv_queued s \<Longrightarrow> inv_failed s \<Longrightarrow> log_inv s"
  by (simp add: log_inv_def)

lemma take_cases:
  assumes "writer_take s = Some s'"
  obtains (leave) "al_writer s = Ready" "al_queue s = []" "al_stopping s" "s' = s\<lparr>al_writer := Writer_done\<rparr>"
  | (barrier) q where "al_writer s = Ready" "al_queue s = Barrier_entry # q"
      "s' = s\<lparr>al_queue := q, al_writer := Busy Barrier_entry False\<rparr>"
  | (entry) r q where "al_writer s = Ready" "al_queue s = Record_entry r # q"
      "s' = on_status (\<lambda>t. t\<lparr>st_queued := st_queued t - 1\<rparr>)
         (s\<lparr>al_queue := q, al_writer := Busy (Record_entry r) (al_writer_failed s)\<rparr>)"
  using assms unfolding writer_take_def
  by (auto split: writer_pc.splits list.splits log_entry.splits if_splits)

lemma closing_done:
  assumes "log_inv s" "closing (al_control s)" "al_barrier s \<noteq> None"
  shows "al_queue s = []" "al_writer s = Ready" "\<not> al_stopping s"
  using assms log_inv_parts(2,3) [OF assms(1)]
  by (auto simp: inv_closing_def inv_running_def closing_def split: control_pc.splits)

lemma writer_take_inv:
  assumes inv: "log_inv s" and "writer_take s = Some s'"
  shows "log_inv s'"
  using assms(2)
proof (cases rule: take_cases)
  case leave
  have "is_running s" using leave log_inv_parts(3) [OF inv] by (auto simp: inv_running_def)
  then have "joining (al_control s)" using leave log_inv_parts(3) [OF inv] by (simp add: inv_running_def)
  then show ?thesis using inv leave
    by (simp add: log_inv_def log_invs waits_def closing_def joining_def split: control_pc.splits)
next
  case (barrier q)
  then have w: "waits s" using log_inv_parts(1) [OF inv] by (auto simp: inv_barrier_def split: if_splits)
  show ?thesis
  proof (rule log_invI)
    show "inv_barrier s'" using log_inv_parts(1) [OF inv] barrier w
      by (simp add: inv_barrier_def waits_def)
    then have nobar: "count_list q Barrier_entry = 0" using w barrier
      by (simp add: inv_barrier_def waits_def)
    show "inv_closing s'" using log_inv_parts(2) [OF inv] barrier w nobar
      by (auto simp: inv_closing_def waits_def count_list_0_iff Cons_eq_append_conv)
    show "inv_running s'" using log_inv_parts(3) [OF inv] barrier w by (auto simp: inv_running_def waits_def)
    show "inv_queued s'" using log_inv_parts(4) [OF inv] barrier by (simp add: inv_queued_def)
    show "inv_failed s'" using log_inv_parts(5) [OF inv] barrier by (simp add: inv_failed_def)
  qed
next
  case (entry r q)
  show ?thesis
  proof (rule log_invI)
    show "inv_barrier s'" using log_inv_parts(1) [OF inv] entry by (simp add: inv_barrier_def waits_def)
    show "inv_closing s'" using log_inv_parts(2) [OF inv] entry
      by (auto simp: inv_closing_def Cons_eq_append_conv split: if_splits)
    show "inv_running s'" using log_inv_parts(3) [OF inv] entry by (auto simp: inv_running_def)
    show "inv_queued s'" using log_inv_parts(4) [OF inv] entry by (simp add: inv_queued_def)
    show "inv_failed s'" using log_inv_parts(5) [OF inv] entry by (simp add: inv_failed_def)
  qed
qed

lemma process_cases:
  assumes "writer_process D s w = Some (s', w')"
  obtains e k err where "al_writer s = Busy e k" "s' = s\<lparr>al_writer := Finished e k err\<rparr>"
  using assms unfolding writer_process_def Let_def split_beta by (auto split: writer_pc.splits)

lemma writer_process_inv:
  assumes inv: "log_inv s" and "writer_process D s w = Some (s', w')"
  shows "log_inv s'"
  using assms(2)
proof (cases rule: process_cases)
  case (1 e k err)
  show ?thesis
  proof (rule log_invI)
    show "inv_barrier s'" using log_inv_parts(1) [OF inv] 1 by (simp add: inv_barrier_def waits_def)
    show "inv_closing s'" using log_inv_parts(2) [OF inv] 1 by (simp add: inv_closing_def split: if_splits)
    show "inv_running s'" using log_inv_parts(3) [OF inv] 1 by (auto simp: inv_running_def)
    show "inv_queued s'" using log_inv_parts(4) [OF inv] 1 by (simp add: inv_queued_def)
    show "inv_failed s'" using log_inv_parts(5) [OF inv] 1 by (simp add: inv_failed_def)
  qed
qed

lemma note_outcome_simps [simp]:
  "al_queue (note_outcome e s) = al_queue s" "al_settings (note_outcome e s) = al_settings s"
  "al_control (note_outcome e s) = al_control s" "al_barrier (note_outcome e s) = al_barrier s"
  "al_stopping (note_outcome e s) = al_stopping s" "al_file (note_outcome e s) = al_file s"
  "al_writer (note_outcome e s) = al_writer s"
  "is_running (note_outcome e s) = is_running s" "accepting (note_outcome e s) = accepting s"
  "st_queued (al_status (note_outcome e s)) = st_queued (al_status s)"
  "al_writer_failed (note_outcome e s) \<longleftrightarrow> al_writer_failed s \<or> \<not> LogError_ok e"
  "last_error (note_outcome e s) = (if LogError_ok e then last_error s else e)"
  by (simp_all add: note_outcome_def put_error_def)

lemma complete_cases:
  assumes "writer_complete copy_ok s = Some s'"
  obtains (barrier) k err where "al_writer s = Finished Barrier_entry k err"
      "s' = (note_outcome err s)\<lparr>al_writer := Ready,
         al_barrier := Some (barrier_error copy_ok (note_outcome err s))\<rparr>"
  | (entry) r k err n m where "al_writer s = Finished (Record_entry r) k err"
      "s' = on_status (\<lambda>t. t\<lparr>st_completed := n, st_dropped := m\<rparr>) ((note_outcome err s)\<lparr>al_writer := Ready\<rparr>)"
proof -
  obtain e k err where w: "al_writer s = Finished e k err"
    using assms unfolding writer_complete_def by (auto split: writer_pc.splits)
  show ?thesis
  proof (cases e)
    case Barrier_entry
    then show ?thesis using barrier [of k err] assms w
      by (simp add: writer_complete_def Let_def barrier_error_def split: if_splits)
  next
    case (Record_entry r)
    then show ?thesis
      using entry [where r = r and k = k and err = err and n = "st_completed (al_status (note_outcome err s)) + 1"
          and m = "st_dropped (al_status (note_outcome err s)) + (if k \<or> al_writer_failed (note_outcome err s) then 1 else 0)"] assms w
      by (simp add: writer_complete_def Let_def count_dropped_def split: if_splits)
  qed
qed

lemma writer_complete_inv:
  assumes inv: "log_inv s" and "writer_complete copy_ok s = Some s'"
  shows "log_inv s'"
  using assms(2)
proof (cases rule: complete_cases)
  case (barrier k err)
  then have w: "waits s" using log_inv_parts(1) [OF inv] by (auto simp: inv_barrier_def split: if_splits)
  show ?thesis
  proof (rule log_invI)
    show "inv_barrier s'" using log_inv_parts(1) [OF inv] barrier w by (simp add: inv_barrier_def waits_def)
    show "inv_closing s'" using log_inv_parts(2) [OF inv] barrier w by (simp add: inv_closing_def waits_def)
    show "inv_running s'" using log_inv_parts(3) [OF inv] barrier w by (auto simp: inv_running_def waits_def)
    show "inv_queued s'" using log_inv_parts(4) [OF inv] barrier by (simp add: inv_queued_def)
    show "inv_failed s'" using log_inv_parts(5) [OF inv] barrier by (simp add: inv_failed_def)
  qed
next
  case (entry r k err)
  show ?thesis
  proof (rule log_invI)
    show "inv_barrier s'" using log_inv_parts(1) [OF inv] entry by (simp add: inv_barrier_def waits_def)
    show "inv_closing s'" using log_inv_parts(2) [OF inv] entry by (simp add: inv_closing_def split: if_splits)
    show "inv_running s'" using log_inv_parts(3) [OF inv] entry by (auto simp: inv_running_def)
    show "inv_queued s'" using log_inv_parts(4) [OF inv] entry by (simp add: inv_queued_def)
    show "inv_failed s'" using log_inv_parts(5) [OF inv] entry by (simp add: inv_failed_def)
  qed
qed

lemma configure_enter_inv:
  assumes inv: "log_inv s" and free: "al_control s = Control_free" and "validSettings S"
    and "configure_enter slot_ok thread_ok S f s = (e, s')"
  shows "log_inv s'"
proof -
  have bar: "al_barrier s = None" "count_list (al_queue s) Barrier_entry = 0" "\<not> holds_barrier (al_writer s)"
    using log_inv_parts(1) [OF inv] free by (auto simp: inv_barrier_def waits_def split: if_splits)
  have stop: "al_stopping s \<longrightarrow> \<not> is_running s" "al_writer s \<noteq> Writer_done"
    using log_inv_parts(3) [OF inv] free by (auto simp: inv_running_def)
  have clear: "log_inv (s\<lparr>al_stopping := False\<rparr>)"
    using inv free by (simp add: log_inv_def log_invs waits_def)
  define t where "t = on_status (\<lambda>t. t\<lparr>st_is_running := True, st_is_accepting := False\<rparr>)
      (s\<lparr>al_queue := al_queue s @ [Barrier_entry], al_stopping := False,
         al_writer := if is_running s then al_writer s else Ready, al_control := Configuring S f, al_barrier := None\<rparr>)"
  have t: "log_inv t"
  proof (rule log_invI)
    show "inv_barrier t" using bar by (simp add: t_def inv_barrier_def waits_def)
    show "inv_closing t" using bar by (simp add: t_def inv_closing_def)
    show "inv_running t" using stop log_inv_parts(3) [OF inv] by (simp add: t_def inv_running_def)
    show "inv_queued t" using log_inv_parts(4) [OF inv] by (simp add: t_def inv_queued_def)
    show "inv_failed t" using log_inv_parts(5) [OF inv] assms(3) by (simp add: t_def inv_failed_def)
  qed
  have "s' = s \<or> s' = s\<lparr>al_stopping := False\<rparr> \<or> s' = t"
    using assms(4) stop(1) unfolding configure_enter_def Let_def t_def by (auto split: if_splits)
  then show ?thesis using inv clear t by auto
qed

lemma configure_commit_inv:
  assumes inv: "log_inv s" and "configure_commit s = Some s'"
  shows "log_inv s'"
proof -
  obtain S f where c: "al_control s = Configuring S f" "al_barrier s \<noteq> None"
      "s' = on_status (\<lambda>t. t\<lparr>st_last_error := LogError_none, st_is_accepting := True\<rparr>)
            (s\<lparr>al_settings := S, al_file := f, al_writer_failed := False,
               al_control := Control_free, al_barrier := None\<rparr>)"
    using assms(2) by (auto simp: configure_commit_def split: control_pc.splits if_splits)
  have idle: "al_queue s = []" "al_writer s = Ready" "\<not> al_stopping s"
    using closing_done [OF inv] c by auto
  have run: "is_running s" using log_inv_parts(3) [OF inv] idle by (auto simp: inv_running_def)
  have S: "validSettings S" using log_inv_parts(5) [OF inv] c by (simp add: inv_failed_def)
  then have "list_all (\<lambda>p. p \<noteq> 0) (ls_sinks S)" by (simp add: validSettings_def split: if_splits)
  then show ?thesis
    using log_inv_parts(4) [OF inv] c idle run
    by (simp add: log_inv_def log_invs waits_def)
qed

lemma barrier_enter_inv:
  assumes inv: "log_inv s" and free: "al_control s = Control_free \<or> al_control s = Stop_entered"
    and pc: "pc = Flushing \<and> al_control s = Control_free \<or> pc = Stop_waiting \<and> \<not> accepting s"
    and "barrier_enter pc s = (e, s')"
  shows "log_inv s'"
proof (cases "is_running s")
  case False
  then show ?thesis using inv assms(4) by (auto simp: barrier_enter_def)
next
  case True
  have bar: "al_barrier s = None" "count_list (al_queue s) Barrier_entry = 0" "\<not> holds_barrier (al_writer s)"
    using log_inv_parts(1) [OF inv] free by (auto simp: inv_barrier_def waits_def split: if_splits)
  have stop: "\<not> al_stopping s" "al_writer s \<noteq> Writer_done"
    using log_inv_parts(3) [OF inv] free True by (auto simp: inv_running_def)
  have s': "s' = s\<lparr>al_queue := al_queue s @ [Barrier_entry], al_control := pc, al_barrier := None\<rparr>"
    using assms(4) True by (simp add: barrier_enter_def)
  show ?thesis
  proof (rule log_invI)
    show "inv_barrier s'" using bar pc by (auto simp: s' inv_barrier_def waits_def)
    show "inv_closing s'" using bar pc log_inv_parts(2) [OF inv] by (auto simp: s' inv_closing_def)
    show "inv_running s'" using stop True pc log_inv_parts(3) [OF inv] by (auto simp: s' inv_running_def)
    show "inv_queued s'" using log_inv_parts(4) [OF inv] by (simp add: s' inv_queued_def)
    show "inv_failed s'" using log_inv_parts(5) [OF inv] pc by (auto simp: s' inv_failed_def)
  qed
qed

lemma stop_finish_inv:
  assumes inv: "log_inv s" and "al_control s = Stop_joining r" "al_writer s = Writer_done \<or> al_writer s = No_writer"
  shows "log_inv (stop_finish s)"
proof -
  have "al_queue s = []" using log_inv_parts(3) [OF inv] assms(3) by (auto simp: inv_running_def)
  moreover have "al_barrier s = None" "\<not> accepting s"
    using log_inv_parts(1,2) [OF inv] assms(2) by (auto simp: inv_barrier_def inv_closing_def)
  ultimately show ?thesis
    using log_inv_parts(4,5) [OF inv]
    by (simp add: stop_finish_def log_inv_def log_invs waits_def)
qed

text \<open>Moves of the control operation that leave the queue and the writer alone.\<close>

lemma control_moves:
  assumes inv: "log_inv s"
  shows "al_control s = Flushing \<Longrightarrow> al_barrier s \<noteq> None \<Longrightarrow> log_inv (s\<lparr>al_control := Control_free, al_barrier := None\<rparr>)"
    and "al_control s = Control_free \<Longrightarrow>
      log_inv (on_status (\<lambda>t. t\<lparr>st_is_accepting := False\<rparr>) (s\<lparr>al_control := Stop_entered\<rparr>))"
    and "al_control s = Stop_entered \<Longrightarrow> log_inv (s\<lparr>al_control := Stop_result x\<rparr>)"
    and "al_control s = Stop_waiting \<Longrightarrow> al_barrier s \<noteq> None \<Longrightarrow> log_inv (s\<lparr>al_control := Stop_result x, al_barrier := None\<rparr>)"
    and "al_control s = Stop_result x \<Longrightarrow> log_inv (s\<lparr>al_stopping := True, al_control := Stop_joining x\<rparr>)"
proof -
  note parts = log_inv_parts [OF inv]
  show "log_inv (s\<lparr>al_control := Control_free, al_barrier := None\<rparr>)"
    if "al_control s = Flushing" "al_barrier s \<noteq> None"
    using parts that by (auto simp: log_inv_def log_invs waits_def split: if_splits)
  show "log_inv (on_status (\<lambda>t. t\<lparr>st_is_accepting := False\<rparr>) (s\<lparr>al_control := Stop_entered\<rparr>))"
    if "al_control s = Control_free"
    using parts that by (auto simp: log_inv_def log_invs waits_def split: if_splits)
  show "log_inv (s\<lparr>al_control := Stop_result x\<rparr>)" if "al_control s = Stop_entered"
    using parts that by (auto simp: log_inv_def log_invs waits_def split: if_splits)
  show "log_inv (s\<lparr>al_control := Stop_result x, al_barrier := None\<rparr>)"
    if "al_control s = Stop_waiting" "al_barrier s \<noteq> None"
    using parts that by (auto simp: log_inv_def log_invs waits_def split: if_splits)
  show "log_inv (s\<lparr>al_stopping := True, al_control := Stop_joining x\<rparr>)" if "al_control s = Stop_result x"
    using parts that by (auto simp: log_inv_def log_invs waits_def split: if_splits)
qed

lemma configure_prepare_valid: "configure_prepare D alloc_ok S w = (Inr f, w') \<Longrightarrow> validSettings S"
  by (simp add: configure_prepare_def split: if_splits)

lemma async_step_inv:
  assumes "log_inv s" "async_step D a (s, w) = Some (ev, s', w')"
  shows "log_inv s'"
proof (cases a)
  case (Append alloc_ok r)
  then show ?thesis using assms tryAppend_inv by (auto simp: split_beta)
next
  case (Append_inside r)
  then show ?thesis using assms tryAppend_inv by (auto split: if_splits)
next
  case (Control_inside op)
  then show ?thesis using assms by (auto split: if_splits)
next
  case Writer_take
  then show ?thesis using assms writer_take_inv by auto
next
  case Writer_process
  then show ?thesis using assms writer_process_inv by fastforce
next
  case (Writer_complete copy_ok)
  then show ?thesis using assms writer_complete_inv by auto
next
  case (Configure S alloc_ok slot_ok thread_ok)
  then have "s' = s \<or> (\<exists>f e w1. configure_prepare D alloc_ok S w = (Inr f, w1) \<and> al_control s = Control_free
      \<and> configure_enter slot_ok thread_ok S f s = (e, s'))"
    using assms(2) by (auto split: prod.splits sum.splits if_splits option.splits)
  then show ?thesis using assms(1) configure_enter_inv configure_prepare_valid by metis
next
  case Configure_commit
  then show ?thesis using assms configure_commit_inv by (auto split: option.splits)
next
  case (Flush alloc_ok)
  then have "s' = s \<or> al_control s = Control_free \<and> (\<exists>e. barrier_enter Flushing s = (e, s'))"
    using assms(2) by (auto split: if_splits prod.splits option.splits)
  then show ?thesis using assms(1) barrier_enter_inv [OF assms(1), of Flushing] by metis
next
  case Flush_return
  then show ?thesis using assms control_moves(1) by (auto split: control_pc.splits option.splits)
next
  case Stop
  then show ?thesis using assms control_moves(2) by (auto split: if_splits)
next
  case (Stop_barrier alloc_ok)
  then have c: "al_control s = Stop_entered" using assms(2) by (auto split: if_splits)
  then have "\<not> accepting s" using log_inv_parts(2) [OF assms(1)] by (auto simp: inv_closing_def)
  then have enter: "log_inv t" if "barrier_enter Stop_waiting s = (e, t)" for e t
    using barrier_enter_inv [OF assms(1), of Stop_waiting] c that by metis
  have "barrier_enter Stop_waiting s = (Some x, t) \<Longrightarrow> t = s" for x t by (simp add: barrier_enter_def split: if_splits)
  then have "(\<exists>x. s' = s\<lparr>al_control := Stop_result x\<rparr>) \<or> (\<exists>e. barrier_enter Stop_waiting s = (e, s'))"
    using assms(2) Stop_barrier c by (auto split: if_splits prod.splits option.splits)
  then show ?thesis using enter control_moves(3) [OF assms(1) c] by blast
next
  case Stop_wait_return
  then show ?thesis using assms control_moves(4) by (auto split: control_pc.splits option.splits)
next
  case Stop_signal
  then show ?thesis using assms control_moves(5) by (auto split: control_pc.splits)
next
  case Stop_join
  then show ?thesis using assms stop_finish_inv by (auto split: control_pc.splits if_splits)
qed

lemma async_trace_inv: "async_trace D tr x \<Longrightarrow> log_inv (fst x)"
proof (induction rule: async_trace.induct)
  case (start w)
  then show ?case by (simp add: log_inv_new)
next
  case (step tr x a ev y)
  then show ?case using async_step_inv [of "fst x" D a "snd x" ev "fst y" "snd y"] by simp
qed

section \<open>The actions, one case each\<close>

definition unaccepted :: "log_event \<Rightarrow> bool" where
  "unaccepted ev = (case ev of
      Submitted r S x \<Rightarrow> x \<noteq> Accepted
    | Refused_inside r \<Rightarrow> True
    | Ended_with (Op_configure S) (Returned (Success u)) \<Rightarrow> False
    | Ended_with op r \<Rightarrow> True
    | _ \<Rightarrow> False)"

lemma unaccepted_simps [simp]:
  "unaccepted (Submitted r S x) \<longleftrightarrow> x \<noteq> Accepted" "unaccepted (Refused_inside r)"
  "unaccepted (Ended_with op (Returned (Failure e)))" "unaccepted (Ended_with Op_flush q)"
  "unaccepted (Ended_with Op_stop q)"
  "\<not> unaccepted Silent" "\<not> unaccepted (Began op)" "\<not> unaccepted (Processed r S k e)"
  "\<not> unaccepted (Flushed S e)" "\<not> unaccepted (Completed r b)"
  by (auto simp: unaccepted_def split: log_operation.splits)

lemma status_update_same: "s\<lparr>al_status := al_status s\<rparr> = s"
  by simp

lemma tryAppend_cases:
  assumes "tryAppend windows inside alloc_ok r s = (x, s')"
  obtains (no) t where "x \<noteq> Accepted" "s' = s\<lparr>al_status := t\<rparr>"
      "st_is_running t = is_running s" "st_is_accepting t = accepting s"
  | (yes) t where "x = Accepted" "\<not> inside" "accepting s"
      "s' = s\<lparr>al_queue := al_queue s @ [Record_entry r], al_status := t\<rparr>"
      "st_is_running t = is_running s" "st_is_accepting t = accepting s"
  using assms no [of "al_status s"]
  unfolding tryAppend_def count_dropped_def put_error_def note_error_def
  by (auto split: if_splits intro: no yes)

lemma configure_enter_cases:
  assumes "configure_enter slot_ok thread_ok S f s = (e, s')"
  obtains (failed) x where "e = Some x" "s' = s"
  | (unstopped) x where "e = Some x" "\<not> is_running s" "s' = s\<lparr>al_stopping := False\<rparr>"
  | (entered) t where "e = None" "st_is_running t" "\<not> st_is_accepting t"
      "s' = s\<lparr>al_queue := al_queue s @ [Barrier_entry], al_status := t,
         al_stopping := (if is_running s then al_stopping s else False),
         al_writer := (if is_running s then al_writer s else Ready),
         al_control := Configuring S f, al_barrier := None\<rparr>"
proof (cases "slot_ok \<and> (is_running s \<or> thread_ok)")
  case ok: True
  then have en: "e = None" using assms by (auto simp: configure_enter_def Let_def)
  show ?thesis
  proof (cases "is_running s")
    case True
    then have "s' = s\<lparr>al_queue := al_queue s @ [Barrier_entry], al_status := (al_status s)\<lparr>st_is_accepting := False\<rparr>,
        al_stopping := al_stopping s, al_writer := al_writer s, al_control := Configuring S f, al_barrier := None\<rparr>"
      using assms ok by (cases s) (simp add: configure_enter_def Let_def)
    then show ?thesis using True en by (intro entered [of "(al_status s)\<lparr>st_is_accepting := False\<rparr>"]) simp_all
  next
    case False
    then have "s' = s\<lparr>al_queue := al_queue s @ [Barrier_entry],
        al_status := (al_status s)\<lparr>st_is_running := True, st_is_accepting := False\<rparr>,
        al_stopping := False, al_writer := Ready, al_control := Configuring S f, al_barrier := None\<rparr>"
      using assms ok by (cases s) (simp add: configure_enter_def Let_def)
    then show ?thesis using False en
      by (intro entered [of "(al_status s)\<lparr>st_is_running := True, st_is_accepting := False\<rparr>"]) simp_all
  qed
next
  case False
  show ?thesis
  proof (cases slot_ok)
    case True
    then show ?thesis using assms False by (intro unstopped) (auto simp: configure_enter_def)
  next
    case False
    then show ?thesis using assms by (intro failed) (auto simp: configure_enter_def)
  qed
qed

lemma async_step_cases:
  assumes "async_step D a (s, w) = Some (ev, s', w')"
  obtains (quiet) t where "unaccepted ev" "s' = s\<lparr>al_status := t\<rparr>"
      "st_is_running t = is_running s" "st_is_accepting t = accepting s"
  | (accepted) r t where "ev = Submitted r (al_settings s) Accepted" "accepting s"
      "s' = s\<lparr>al_queue := al_queue s @ [Record_entry r], al_status := t\<rparr>"
      "st_is_running t = is_running s" "st_is_accepting t = accepting s"
  | (unstopped) "unaccepted ev" "al_control s = Control_free" "\<not> is_running s" "s' = s\<lparr>al_stopping := False\<rparr>"
  | (take) "ev = Silent" "writer_take s = Some s'" "a = Writer_take"
  | (process) e k err where "ev = processed_event e (al_settings s) k err" "al_writer s = Busy e k"
      "s' = s\<lparr>al_writer := Finished e k err\<rparr>" "a = Writer_process"
  | (complete) c where "ev = complete_event s" "writer_complete c s = Some s'" "a = Writer_complete c"
  | (configure) S f t where "ev = Began (Op_configure S)" "al_control s = Control_free"
      "st_is_running t" "\<not> st_is_accepting t"
      "s' = s\<lparr>al_queue := al_queue s @ [Barrier_entry], al_status := t,
         al_stopping := (if is_running s then al_stopping s else False),
         al_writer := (if is_running s then al_writer s else Ready),
         al_control := Configuring S f, al_barrier := None\<rparr>"
  | (commit) "ev = Ended_with (Op_configure (al_settings s')) (Returned (Success ()))" "configure_commit s = Some s'"
  | (flush) "ev = Began Op_flush" "al_control s = Control_free" "is_running s"
      "s' = s\<lparr>al_queue := al_queue s @ [Barrier_entry], al_control := Flushing, al_barrier := None\<rparr>"
  | (flush_return) e where "ev = Ended_with Op_flush (Returned (barrier_result e))" "al_control s = Flushing"
      "al_barrier s = Some e" "s' = s\<lparr>al_control := Control_free, al_barrier := None\<rparr>"
  | (stop) "ev = Began Op_stop" "al_control s = Control_free"
      "s' = on_status (\<lambda>t. t\<lparr>st_is_accepting := False\<rparr>) (s\<lparr>al_control := Stop_entered\<rparr>)"
  | (stop_skip) r where "ev = Silent" "al_control s = Stop_entered" "is_running s \<longrightarrow> r \<noteq> Success ()"
      "s' = s\<lparr>al_control := Stop_result r\<rparr>"
  | (stop_barrier) "ev = Silent" "al_control s = Stop_entered" "is_running s"
      "s' = s\<lparr>al_queue := al_queue s @ [Barrier_entry], al_control := Stop_waiting, al_barrier := None\<rparr>"
  | (stop_return) e where "ev = Silent" "al_control s = Stop_waiting" "al_barrier s = Some e"
      "s' = s\<lparr>al_control := Stop_result (barrier_result e), al_barrier := None\<rparr>"
  | (stop_signal) r where "ev = Silent" "al_control s = Stop_result r"
      "s' = s\<lparr>al_stopping := True, al_control := Stop_joining r\<rparr>"
  | (stop_join) r where "ev = Ended_with Op_stop (Returned r)" "al_control s = Stop_joining r"
      "al_writer s = Writer_done \<or> al_writer s = No_writer" "s' = stop_finish s"
proof (cases a)
  case (Append alloc_ok r)
  obtain x t where x: "tryAppend (ld_windows D) False alloc_ok r s = (x, t)" by fastforce
  then have ev: "ev = Submitted r (al_settings s) x" "s' = t" using Append assms by auto
  show ?thesis using x by (cases rule: tryAppend_cases) (use ev quiet accepted in auto)
next
  case (Append_inside r)
  obtain x t where x: "tryAppend (ld_windows D) True True r s = (x, t)" by fastforce
  then have ev: "ev = Refused_inside r" "s' = t" using Append_inside assms by (auto split: if_splits)
  show ?thesis using x by (cases rule: tryAppend_cases) (use ev quiet in auto)
next
  case (Control_inside op)
  then show ?thesis using assms quiet [of "al_status s"] by (auto simp: log_failure_def split: if_splits)
next
  case Writer_take
  then show ?thesis using assms take by auto
next
  case Writer_process
  then obtain s1 w1 where p: "writer_process D s w = Some (s1, w1)" "s' = s1" "ev = process_event s1"
    using assms by auto
  from p(1) show ?thesis by (cases rule: process_cases) (use p process Writer_process in \<open>auto simp: process_event_def\<close>)
next
  case (Writer_complete copy_ok)
  then show ?thesis using assms complete by auto
next
  case (Configure S alloc_ok slot_ok thread_ok)
  then consider (early) e where "ev = Ended_with (Op_configure S) (Returned (Failure e))" "s' = s"
    | (enter) f e where "al_control s = Control_free" "configure_enter slot_ok thread_ok S f s = (e, s')"
        "ev = (case e of Some x \<Rightarrow> Ended_with (Op_configure S) (Returned (Failure x)) | None \<Rightarrow> Began (Op_configure S))"
  proof -
    obtain p w1 where p: "configure_prepare D alloc_ok S w = (p, w1)" by fastforce
    show thesis
    proof (cases p)
      case (Inl e)
      then show thesis using Configure assms p by (intro early) auto
    next
      case (Inr f)
      obtain e t where e: "configure_enter slot_ok thread_ok S f s = (e, t)" by fastforce
      then show thesis using enter [of f e] Configure assms p Inr
        by (simp split: if_splits option.splits)
    qed
  qed
  then show ?thesis
  proof cases
    case early
    then show ?thesis using quiet [of "al_status s"] by simp
  next
    case enter
    from enter(2) show ?thesis
      by (cases rule: configure_enter_cases)
        (use enter quiet [of "al_status s"] unstopped configure in \<open>simp_all\<close>)
  qed
next
  case Configure_commit
  then show ?thesis using assms commit by (auto split: option.splits)
next
  case (Flush alloc_ok)
  then have free: "al_control s = Control_free" using assms by (simp split: if_splits)
  show ?thesis
  proof (cases "alloc_ok \<and> is_running s")
    case True
    then show ?thesis using Flush assms free by (intro flush) (simp_all add: barrier_enter_def)
  next
    case False
    then have "\<exists>q. ev = Ended_with Op_flush q" "s' = s"
      using Flush assms free by (cases alloc_ok; auto simp: barrier_enter_def)+
    then show ?thesis by (intro quiet [of "al_status s"]) auto
  qed
next
  case Flush_return
  then obtain e where "ev = Ended_with Op_flush (Returned (barrier_result e))" "al_control s = Flushing"
      "al_barrier s = Some e" "s' = s\<lparr>al_control := Control_free, al_barrier := None\<rparr>"
    using assms by (auto split: control_pc.splits option.splits)
  then show ?thesis by (rule flush_return)
next
  case Stop
  then have "ev = Began Op_stop" "al_control s = Control_free"
      "s' = on_status (\<lambda>t. t\<lparr>st_is_accepting := False\<rparr>) (s\<lparr>al_control := Stop_entered\<rparr>)"
    using assms by (simp_all split: if_splits)
  then show ?thesis by (rule stop)
next
  case (Stop_barrier alloc_ok)
  then have c: "al_control s = Stop_entered" using assms by (simp split: if_splits)
  show ?thesis
  proof (cases "alloc_ok \<and> is_running s")
    case True
    then show ?thesis using Stop_barrier assms c by (intro stop_barrier) (simp_all add: barrier_enter_def)
  next
    case False
    then have "ev = Silent" "\<exists>r. (is_running s \<longrightarrow> r \<noteq> Success ()) \<and> s' = s\<lparr>al_control := Stop_result r\<rparr>"
      using Stop_barrier assms c by (cases alloc_ok; auto simp: barrier_enter_def log_failure_def)+
    then show ?thesis using c stop_skip by blast
  qed
next
  case Stop_wait_return
  then obtain e where "al_control s = Stop_waiting" "al_barrier s = Some e" "ev = Silent"
      "s' = s\<lparr>al_control := Stop_result (barrier_result e), al_barrier := None\<rparr>"
    using assms by (auto split: control_pc.splits option.splits)
  then show ?thesis by (intro stop_return)
next
  case Stop_signal
  then obtain r where "al_control s = Stop_result r" "ev = Silent"
      "s' = s\<lparr>al_stopping := True, al_control := Stop_joining r\<rparr>"
    using assms by (auto split: control_pc.splits)
  then show ?thesis by (intro stop_signal)
next
  case Stop_join
  then obtain r where "al_control s = Stop_joining r" "ev = Ended_with Op_stop (Returned r)"
      "al_writer s = Writer_done \<or> al_writer s = No_writer" "s' = stop_finish s"
    using assms by (auto split: control_pc.splits if_splits)
  then show ?thesis by (intro stop_join)
qed

end
