(* ===== verification/AsyncLogCorrect.thy ===== *)
theory AsyncLogCorrect
  imports AsyncLogSteps
begin

text \<open>
  The asynchronous logger keeps its promises in every interleaving of producers, callbacks, the
  writer and one control operation: what it accepted is processed once, in order and under the
  settings it was accepted under; its counters and its capacity are exact; a successful \<open>flush\<close> or
  \<open>stop\<close> means that everything accepted before it was written and flushed; every control operation
  returns.
\<close>

section \<open>What a trace says\<close>

definition accepted_in :: "log_event \<Rightarrow> (sAsyncLogRecord \<times> sAsyncLogSettings) list" where
  "accepted_in ev = (case ev of Submitted r S x \<Rightarrow> if x = Accepted then [(r, S)] else [] | _ \<Rightarrow> [])"

definition processed_in :: "log_event \<Rightarrow> (sAsyncLogRecord \<times> sAsyncLogSettings) list" where
  "processed_in ev = (case ev of Processed r S k e \<Rightarrow> [(r, S)] | _ \<Rightarrow> [])"

text \<open>Traces are newest first, these lists oldest first.\<close>

definition accepted_of :: "log_event list \<Rightarrow> (sAsyncLogRecord \<times> sAsyncLogSettings) list" where
  "accepted_of tr = concat (map accepted_in (rev tr))"

definition processed_of :: "log_event list \<Rightarrow> (sAsyncLogRecord \<times> sAsyncLogSettings) list" where
  "processed_of tr = concat (map processed_in (rev tr))"

lemma trace_lists_simps [simp]:
  "accepted_of [] = []" "accepted_of (ev # tr) = accepted_of tr @ accepted_in ev"
  "processed_of [] = []" "processed_of (ev # tr) = processed_of tr @ processed_in ev"
  by (simp_all add: accepted_of_def processed_of_def)

lemma event_lists_simps [simp]:
  "accepted_in (Submitted r S x) = (if x = Accepted then [(r, S)] else [])"
  "accepted_in (Processed r S k e) = []" "accepted_in (Flushed S e) = []" "accepted_in (Completed r b) = []"
  "accepted_in (Began op) = []" "accepted_in (Ended_with op q) = []" "accepted_in Silent = []"
  "processed_in (Processed r S k e) = [(r, S)]" "processed_in (Submitted r S x) = []"
  "processed_in (Flushed S e) = []" "processed_in (Completed r b) = []"
  "processed_in (Began op) = []" "processed_in (Ended_with op q) = []" "processed_in Silent = []"
  by (simp_all add: accepted_in_def processed_in_def)

lemma unaccepted_lists [simp]: "unaccepted ev \<Longrightarrow> accepted_in ev = [] \<and> processed_in ev = []"
  by (cases ev) (auto simp: accepted_in_def processed_in_def)

lemma complete_event_lists [simp]: "accepted_in (complete_event s) = []" "processed_in (complete_event s) = []"
  by (auto simp: complete_event_def split: writer_pc.splits log_entry.splits)

lemma processed_event_simps [simp]:
  "processed_event (Record_entry r) S k e = Processed r S k e" "processed_event Barrier_entry S k e = Flushed S e"
  by (simp_all add: processed_event_def)

section \<open>Delivery\<close>

definition in_flight :: "writer_pc \<Rightarrow> sAsyncLogRecord list" where
  "in_flight pc = (case pc of Busy (Record_entry r) k \<Rightarrow> [r] | _ \<Rightarrow> [])"

lemma in_flight_simps [simp]:
  "in_flight Ready = []" "in_flight No_writer = []" "in_flight Writer_done = []"
  "in_flight (Busy (Record_entry r) k) = [r]" "in_flight (Busy Barrier_entry k) = []"
  "in_flight (Finished e k err) = []"
  by (simp_all add: in_flight_def)

definition backlog :: "async_log \<Rightarrow> (sAsyncLogRecord \<times> sAsyncLogSettings) list" where
  "backlog s = map (\<lambda>r. (r, al_settings s)) (in_flight (al_writer s) @ records_of (al_queue s))"

lemma stopped_backlog:
  assumes "log_inv s" "al_writer s = Writer_done \<or> al_writer s = No_writer"
  shows "backlog s = []" "al_queue s = []"
  using assms log_inv_parts(3) [OF assms(1)] by (auto simp: backlog_def inv_running_def)

lemma step_backlog:
  assumes inv: "log_inv s" and step: "async_step D a (s, w) = Some (ev, s', w')"
  shows "backlog s @ accepted_in ev = processed_in ev @ backlog s'"
  using step
proof (cases rule: async_step_cases)
  case (take)
  from take(2) show ?thesis by (cases rule: take_cases) (use take(1) in \<open>auto simp: backlog_def\<close>)
next
  case (process e k err)
  then show ?thesis by (cases e) (simp_all add: backlog_def)
next
  case (complete c)
  from complete(2) show ?thesis by (cases rule: complete_cases) (use complete(1) in \<open>auto simp: backlog_def\<close>)
next
  case (configure S f t)
  have "\<not> is_running s \<Longrightarrow> al_writer s = No_writer" using log_inv_parts(3) [OF inv] by (simp add: inv_running_def)
  then show ?thesis using configure by (simp add: backlog_def)
next
  case commit
  then have "closing (al_control s)" "al_barrier s \<noteq> None"
    by (auto simp: configure_commit_def split: control_pc.splits if_splits)
  from closing_done [OF inv this] show ?thesis
    using commit by (auto simp: backlog_def configure_commit_def split: control_pc.splits if_splits)
next
  case (stop_join r)
  from stopped_backlog [OF inv stop_join(3)] show ?thesis
    using stop_join by (simp add: backlog_def stop_finish_def)
qed (simp_all add: backlog_def)

lemma trace_backlog: "async_trace D tr x \<Longrightarrow> accepted_of tr = processed_of tr @ backlog (fst x)"
proof (induction rule: async_trace.induct)
  case (start w)
  then show ?case by (simp add: backlog_def AsyncLogRuntime_new_def)
next
  case (step tr x a ev y)
  have "backlog (fst x) @ accepted_in ev = processed_in ev @ backlog (fst y)"
    using step_backlog [OF async_trace_inv [OF step(1)], of D a "snd x" ev "fst y" "snd y"] step(2) by simp
  then show ?case using step.IH by simp
qed

section \<open>Counters\<close>

definition count_events :: "(log_event \<Rightarrow> bool) \<Rightarrow> log_event list \<Rightarrow> nat" where
  "count_events P tr = length (filter P tr)"

definition is_accepted :: "log_event \<Rightarrow> bool" where
  "is_accepted ev \<longleftrightarrow> (\<exists>r S. ev = Submitted r S Accepted)"

definition is_filtered :: "log_event \<Rightarrow> bool" where
  "is_filtered ev \<longleftrightarrow> (\<exists>r S. ev = Submitted r S Filtered)"

definition is_completed :: "log_event \<Rightarrow> bool" where
  "is_completed ev \<longleftrightarrow> (\<exists>r b. ev = Completed r b)"

definition is_dropped :: "log_event \<Rightarrow> bool" where
  "is_dropped ev \<longleftrightarrow>
     (case ev of Submitted r S x \<Rightarrow> x = QueueFull \<or> x = RecordTooLarge \<or> x = Submit_failed
      | Refused_inside r \<Rightarrow> True | Completed r b \<Rightarrow> b | _ \<Rightarrow> False)"

lemma count_events_simps [simp]:
  "count_events P [] = 0" "count_events P (ev # tr) = (if P ev then Suc (count_events P tr) else count_events P tr)"
  by (simp_all add: count_events_def)

definition log_counters :: "log_event list \<Rightarrow> sAsyncLogStatus \<Rightarrow> bool" where
  "log_counters tr t \<longleftrightarrow>
     st_accepted t = word_of_nat (count_events is_accepted tr)
     \<and> st_filtered t = word_of_nat (count_events is_filtered tr)
     \<and> st_completed t = word_of_nat (count_events is_completed tr)
     \<and> st_dropped t = word_of_nat (count_events is_dropped tr)"

text \<open>The change of the counters an event stands for.\<close>

definition tick :: "(log_event \<Rightarrow> bool) \<Rightarrow> log_event \<Rightarrow> u64" where
  "tick P ev = (if P ev then 1 else 0)"

definition ticked :: "log_event \<Rightarrow> sAsyncLogStatus \<Rightarrow> sAsyncLogStatus \<Rightarrow> bool" where
  "ticked ev t t' \<longleftrightarrow>
     st_accepted t' = st_accepted t + tick is_accepted ev \<and> st_filtered t' = st_filtered t + tick is_filtered ev
     \<and> st_completed t' = st_completed t + tick is_completed ev \<and> st_dropped t' = st_dropped t + tick is_dropped ev"

lemma log_counters_ticked: "log_counters tr t \<Longrightarrow> ticked ev t t' \<Longrightarrow> log_counters (ev # tr) t'"
  by (simp add: log_counters_def ticked_def tick_def add.commute)

lemmas event_kinds = is_accepted_def is_filtered_def is_completed_def is_dropped_def tick_def

lemma ticked_none:
  "\<not> is_accepted ev \<Longrightarrow> \<not> is_filtered ev \<Longrightarrow> \<not> is_completed ev \<Longrightarrow> \<not> is_dropped ev \<Longrightarrow>
   st_accepted t' = st_accepted t \<Longrightarrow> st_filtered t' = st_filtered t \<Longrightarrow>
   st_completed t' = st_completed t \<Longrightarrow> st_dropped t' = st_dropped t \<Longrightarrow> ticked ev t t'"
  by (simp add: ticked_def tick_def)

lemma tryAppend_ticked:
  "tryAppend windows False alloc_ok r s = (x, s') \<Longrightarrow> ticked (Submitted r S x) (al_status s) (al_status s')"
  unfolding tryAppend_def ticked_def count_dropped_def put_error_def note_error_def
  by (auto simp: event_kinds split: if_splits)

lemma tryAppend_inside_ticked:
  "ticked (Refused_inside r) (al_status s) (al_status (snd (tryAppend windows True alloc_ok r s)))"
  by (simp add: tryAppend_def ticked_def count_dropped_def put_error_def note_error_def event_kinds)

lemma note_outcome_ticked [simp]:
  "st_accepted (al_status (note_outcome e s)) = st_accepted (al_status s)"
  "st_filtered (al_status (note_outcome e s)) = st_filtered (al_status s)"
  "st_completed (al_status (note_outcome e s)) = st_completed (al_status s)"
  "st_dropped (al_status (note_outcome e s)) = st_dropped (al_status s)"
  by (simp_all add: note_outcome_def put_error_def)

lemma complete_ticked:
  assumes "writer_complete c s = Some s'"
  shows "ticked (complete_event s) (al_status s) (al_status s')"
proof -
  obtain e k err where w: "al_writer s = Finished e k err"
    using assms unfolding writer_complete_def by (auto split: writer_pc.splits)
  show ?thesis
  proof (cases e)
    case Barrier_entry
    then have "s' = (note_outcome err s)\<lparr>al_writer := Ready, al_barrier :=
        Some (barrier_error c ((note_outcome err s)\<lparr>al_writer := Ready\<rparr>))\<rparr>"
      using assms w by (simp add: writer_complete_def Let_def)
    then show ?thesis using w Barrier_entry by (simp add: ticked_def event_kinds complete_event_def)
  next
    case (Record_entry r)
    define t where "t = on_status (\<lambda>t. t\<lparr>st_completed := st_completed t + 1\<rparr>) ((note_outcome err s)\<lparr>al_writer := Ready\<rparr>)"
    have t: "al_writer_failed t \<longleftrightarrow> al_writer_failed s \<or> \<not> LogError_ok err" by (simp add: t_def)
    have "writer_complete c s = Some (if k \<or> al_writer_failed t then count_dropped t else t)"
      unfolding writer_complete_def Let_def t_def using w Record_entry by simp
    then have s': "s' = (if k \<or> al_writer_failed t then count_dropped t else t)" using assms by simp
    show ?thesis unfolding s' complete_event_def
      using w Record_entry t by (simp add: ticked_def event_kinds count_dropped_def) (simp add: t_def)
  qed
qed

lemma step_ticked:
  assumes "async_step D a (s, w) = Some (ev, s', w')"
  shows "ticked ev (al_status s) (al_status s')"
proof (cases a)
  case (Append alloc_ok r)
  then show ?thesis using assms tryAppend_ticked by (auto simp: split_beta)
next
  case (Append_inside r)
  then show ?thesis using assms tryAppend_inside_ticked by (auto split: if_splits)
next
  case Writer_process
  then obtain s1 w1 where p: "writer_process D s w = Some (s1, w1)" "s' = s1" "ev = process_event s1"
    using assms by auto
  from p(1) show ?thesis
    by (cases rule: process_cases)
      (use p in \<open>auto intro!: ticked_none simp: process_event_def processed_event_def event_kinds split: log_entry.splits\<close>)
next
  case (Writer_complete copy_ok)
  then show ?thesis using assms complete_ticked by auto
next
  case Writer_take
  then have "ev = Silent" "writer_take s = Some s'" using assms by auto
  from this(2) show ?thesis
    by (cases rule: take_cases) (use \<open>ev = Silent\<close> in \<open>auto intro!: ticked_none simp: event_kinds\<close>)
next
  case (Configure S alloc_ok slot_ok thread_ok)
  show ?thesis
  proof (cases "al_status s' = al_status s")
    case True
    have "\<exists>op q. ev = Began op \<or> ev = Ended_with op q"
      using assms Configure by (auto split: prod.splits sum.splits if_splits option.splits)
    then show ?thesis using True by (auto intro!: ticked_none simp: event_kinds)
  next
    case False
    then have "\<exists>f e w1. configure_enter slot_ok thread_ok S f s = (e, s')" "\<exists>op q. ev = Began op \<or> ev = Ended_with op q"
      using assms Configure by (auto split: prod.splits sum.splits if_splits option.splits)
    then show ?thesis
      unfolding configure_enter_def Let_def
      by (auto intro!: ticked_none simp: event_kinds split: if_splits)
  qed
next
  case Configure_commit
  then show ?thesis using assms
    by (auto intro!: ticked_none simp: event_kinds configure_commit_def split: option.splits control_pc.splits if_splits)
next
  case (Flush alloc_ok)
  then show ?thesis using assms
    by (auto intro!: ticked_none simp: event_kinds barrier_enter_def split: if_splits)
next
  case (Stop_barrier alloc_ok)
  then show ?thesis using assms
    by (auto intro!: ticked_none simp: event_kinds barrier_enter_def split: if_splits)
qed (use assms in \<open>auto intro!: ticked_none simp: event_kinds stop_finish_def
      split: if_splits control_pc.splits option.splits\<close>)

lemma trace_counters: "async_trace D tr x \<Longrightarrow> log_counters tr (al_status (fst x))"
proof (induction rule: async_trace.induct)
  case (start w)
  then show ?case by (simp add: log_counters_def AsyncLogRuntime_new_def)
next
  case (step tr x a ev y)
  show ?case
    using log_counters_ticked [OF step.IH] step_ticked [of D a "fst x" "snd x" ev "fst y" "snd y"] step(2) by simp
qed

definition writer_completes :: "async_log \<Rightarrow> nat" where
  "writer_completes s = (case al_writer s of Finished (Record_entry r) k e \<Rightarrow> 1 | _ \<Rightarrow> 0)"

lemma step_completes:
  assumes "async_step D a (s, w) = Some (ev, s', w')" "log_inv s"
  shows "(if is_completed ev then 1 else 0) + writer_completes s' = length (processed_in ev) + writer_completes s"
  using assms(1)
proof (cases rule: async_step_cases)
  case (quiet t)
  then have "\<not> is_completed ev" by (auto simp: is_completed_def)
  then show ?thesis using quiet by (simp add: writer_completes_def)
next
  case unstopped
  then have "\<not> is_completed ev" by (auto simp: is_completed_def)
  then show ?thesis using unstopped by (simp add: writer_completes_def)
next
  case (take)
  from take(2) show ?thesis
    by (cases rule: take_cases) (use take(1) in \<open>auto simp: is_completed_def writer_completes_def\<close>)
next
  case (process e k err)
  then show ?thesis by (cases e) (simp_all add: is_completed_def writer_completes_def)
next
  case (complete c)
  from complete(2) show ?thesis
    by (cases rule: complete_cases)
      (use complete(1) in \<open>auto simp: is_completed_def writer_completes_def complete_event_def\<close>)
next
  case (configure S f t)
  have "\<not> is_running s \<Longrightarrow> al_writer s = No_writer"
    using log_inv_parts(3) [OF assms(2)] by (simp add: inv_running_def)
  then show ?thesis using configure by (simp add: is_completed_def writer_completes_def)
next
  case commit
  then show ?thesis
    by (auto simp: configure_commit_def is_completed_def writer_completes_def split: control_pc.splits if_splits)
next
  case (stop_join r)
  then show ?thesis by (auto simp: is_completed_def writer_completes_def stop_finish_def)
qed (simp_all add: is_completed_def writer_completes_def)

lemma trace_completes:
  "async_trace D tr x \<Longrightarrow> count_events is_completed tr + writer_completes (fst x) = length (processed_of tr)"
proof (induction rule: async_trace.induct)
  case (start w)
  then show ?case by (simp add: AsyncLogRuntime_new_def writer_completes_def)
next
  case (step tr x a ev y)
  have "(if is_completed ev then 1 else 0) + writer_completes (fst y) = length (processed_in ev) + writer_completes (fst x)"
    using step_completes [of D a "fst x" "snd x" ev "fst y" "snd y"] async_trace_inv [OF step(1)] step(2) by simp
  then show ?case using step.IH by auto
qed

lemma count_accepted: "count_events is_accepted tr = length (accepted_of tr)"
proof (induction tr)
  case (Cons ev tr)
  have "(if is_accepted ev then 1 else 0) = length (accepted_in ev)"
    by (auto simp: is_accepted_def accepted_in_def split: log_event.splits)
  then show ?case using Cons by (auto split: if_splits)
qed simp

section \<open>What a barrier guarantees\<close>

definition good_event :: "log_event \<Rightarrow> bool" where
  "good_event ev = (case ev of
      Processed r S k e \<Rightarrow> \<not> k \<and> LogError_ok e | Flushed S e \<Rightarrow> LogError_ok e | _ \<Rightarrow> True)"

definition configured :: "log_event \<Rightarrow> bool" where
  "configured ev \<longleftrightarrow> (\<exists>S. ev = Ended_with (Op_configure S) (Returned (Success ())))"

text \<open>Since the last configuration every record was written and every flush done, without an error.\<close>

definition all_written :: "log_event list \<Rightarrow> bool" where
  "all_written tr \<longleftrightarrow> list_all good_event (takeWhile (\<lambda>ev. \<not> configured ev) tr)"

lemma all_written_Cons [simp]:
  "all_written (ev # tr) \<longleftrightarrow> configured ev \<or> good_event ev \<and> all_written tr"
  by (auto simp: all_written_def)

lemma unaccepted_good [simp]: "unaccepted ev \<Longrightarrow> good_event ev \<and> \<not> configured ev"
  by (auto simp: unaccepted_def good_event_def configured_def split: log_event.splits)

lemma good_event_simps [simp]:
  "good_event (Submitted r S x)" "good_event Silent" "good_event (Began op)" "good_event (Ended_with op q)"
  "good_event (complete_event s)"
  "good_event (Processed r S k e) \<longleftrightarrow> \<not> k \<and> LogError_ok e" "good_event (Flushed S e) \<longleftrightarrow> LogError_ok e"
  by (auto simp: good_event_def complete_event_def split: writer_pc.splits log_entry.splits)

definition healthy :: "async_log \<Rightarrow> bool" where
  "healthy s \<longleftrightarrow> \<not> al_writer_failed s \<and> (case al_writer s of Finished e k err \<Rightarrow> LogError_ok err | _ \<Rightarrow> True)"

lemma step_written:
  assumes "async_step D a (s, w) = Some (ev, s', w')" "log_inv s" "healthy s \<longrightarrow> all_written tr"
  shows "healthy s' \<longrightarrow> all_written (ev # tr)"
  using assms(1)
proof (cases rule: async_step_cases)
  case (take)
  from take(2) show ?thesis
    by (cases rule: take_cases) (use take(1) assms(3) in \<open>auto simp: healthy_def\<close>)
next
  case (process e k err)
  have "k \<longrightarrow> al_writer_failed s" using log_inv_parts(5) [OF assms(2)] process by (simp add: inv_failed_def)
  then show ?thesis using process assms(3) by (cases e) (auto simp: healthy_def)
next
  case (complete c)
  from complete(2) show ?thesis
    by (cases rule: complete_cases) (use complete(1) assms(3) in \<open>auto simp: healthy_def\<close>)
next
  case (configure S f t)
  have "\<not> is_running s \<Longrightarrow> al_writer s = No_writer"
    using log_inv_parts(3) [OF assms(2)] by (simp add: inv_running_def)
  then show ?thesis using configure assms(3) by (auto simp: healthy_def split: if_splits)
next
  case commit
  then show ?thesis by (auto simp: configured_def)
next
  case (stop_join r)
  then show ?thesis using assms(3) by (auto simp: healthy_def stop_finish_def)
qed (use assms(3) in \<open>auto simp: healthy_def\<close>)

lemma trace_written: "async_trace D tr x \<Longrightarrow> healthy (fst x) \<longrightarrow> all_written tr"
proof (induction rule: async_trace.induct)
  case (start w)
  then show ?case by (simp add: all_written_def)
next
  case (step tr x a ev y)
  show ?case
    using step_written [of D a "fst x" "snd x" ev "fst y" "snd y" tr] async_trace_inv [OF step(1)] step by simp
qed

text \<open>The trace as it was when the latest call of an operation began.\<close>

fun before_call :: "log_operation \<Rightarrow> log_event list \<Rightarrow> log_event list" where
  "before_call op [] = []"
| "before_call op (ev # tr) = (if ev = Began op then tr else before_call op tr)"

text \<open>After everything accepted before the call was processed, the sinks were flushed; when \<open>ok\<close>, all
  of it without an error since the last configuration.\<close>

definition flushed_since :: "log_operation \<Rightarrow> bool \<Rightarrow> log_event list \<Rightarrow> bool" where
  "flushed_since op good tr \<longleftrightarrow> (\<exists>new S err old. tr = new @ Flushed S err # old
     \<and> processed_of old = accepted_of (before_call op tr)
     \<and> (good \<longrightarrow> all_written (Flushed S err # old)))"

lemma flushed_since_Cons:
  assumes "flushed_since op good tr" "ev \<noteq> Began op" "good' \<longrightarrow> good"
  shows "flushed_since op good' (ev # tr)"
proof -
  obtain new S err old where tr: "tr = new @ Flushed S err # old"
      "processed_of old = accepted_of (before_call op tr)" "good \<longrightarrow> all_written (Flushed S err # old)"
    using assms(1) unfolding flushed_since_def by blast
  have "ev # tr = (ev # new) @ Flushed S err # old" using tr(1) by simp
  moreover have "processed_of old = accepted_of (before_call op (ev # tr))" using tr(2) assms(2) by simp
  ultimately show ?thesis unfolding flushed_since_def using tr(3) assms(3) by blast
qed

definition awaited :: "control_pc \<Rightarrow> log_operation option" where
  "awaited pc = (case pc of Flushing \<Rightarrow> Some Op_flush | Stop_waiting \<Rightarrow> Some Op_stop | _ \<Rightarrow> None)"

lemma awaited_simps [simp]:
  "awaited Control_free = None" "awaited (Configuring S f) = None" "awaited Flushing = Some Op_flush"
  "awaited Stop_entered = None" "awaited Stop_waiting = Some Op_stop" "awaited (Stop_result r) = None"
  "awaited (Stop_joining r) = None"
  by (simp_all add: awaited_def)

definition ahead :: "async_log \<Rightarrow> sAsyncLogRecord list" where
  "ahead s = in_flight (al_writer s) @ records_of (takeWhile (\<lambda>e. e \<noteq> Barrier_entry) (al_queue s))"

definition stopping_call :: "control_pc \<Rightarrow> bool" where
  "stopping_call pc = (case pc of
     Stop_entered \<Rightarrow> True | Stop_waiting \<Rightarrow> True | Stop_result r \<Rightarrow> True | Stop_joining r \<Rightarrow> True | _ \<Rightarrow> False)"

lemma stopping_call_simps [simp]:
  "\<not> stopping_call Control_free" "\<not> stopping_call (Configuring S f)" "\<not> stopping_call Flushing"
  "stopping_call Stop_entered" "stopping_call Stop_waiting" "stopping_call (Stop_result r)"
  "stopping_call (Stop_joining r)"
  by (simp_all add: stopping_call_def)

text \<open>How far the flush of the operation that waits has come, by the place of its barrier.\<close>

definition barrier_guarantee :: "log_event list \<Rightarrow> async_log \<Rightarrow> log_operation \<Rightarrow> bool" where
  "barrier_guarantee tr s op \<longleftrightarrow>
     (case al_barrier s of
        Some e \<Rightarrow> flushed_since op (LogError_ok e) tr
      | None \<Rightarrow> (case al_writer s of
            Finished Barrier_entry k err \<Rightarrow> flushed_since op (\<not> al_writer_failed s \<and> LogError_ok err) tr
          | _ \<Rightarrow> accepted_of (before_call op tr) = processed_of tr
              @ (if holds_barrier (al_writer s) then [] else map (\<lambda>r. (r, al_settings s)) (ahead s))))"

definition call_guarantee :: "log_event list \<Rightarrow> async_log \<Rightarrow> bool" where
  "call_guarantee tr s \<longleftrightarrow>
     (\<forall>op. awaited (al_control s) = Some op \<longrightarrow> barrier_guarantee tr s op)
     \<and> (stopping_call (al_control s) \<longrightarrow> accepted_of (before_call Op_stop tr) = accepted_of tr)
     \<and> (is_running s \<and> (al_control s = Stop_result (Success ()) \<or> al_control s = Stop_joining (Success ()))
         \<longrightarrow> flushed_since Op_stop True tr)"

definition neutral :: "log_event \<Rightarrow> bool" where
  "neutral ev \<longleftrightarrow> accepted_in ev = [] \<and> processed_in ev = [] \<and> (\<forall>op. ev \<noteq> Began op)"

lemma neutral_simps [simp]:
  "neutral Silent" "neutral (Ended_with op q)" "neutral (complete_event s)" "neutral (Flushed S e)"
  "unaccepted ev \<Longrightarrow> neutral ev"
  by (auto simp: neutral_def complete_event_def split: writer_pc.splits log_entry.splits)

lemma neutral_before_call [simp]: "neutral ev \<Longrightarrow> before_call op (ev # tr) = before_call op tr"
  by (simp add: neutral_def)

lemma neutral_lists: "neutral ev \<Longrightarrow> accepted_in ev = []" "neutral ev \<Longrightarrow> processed_in ev = []"
  "neutral ev \<Longrightarrow> ev \<noteq> Began op"
  by (auto simp: neutral_def)

lemma guarantee_frame:
  assumes "barrier_guarantee tr s op" "neutral ev"
    and "al_barrier s' = al_barrier s" "al_writer s' = al_writer s" "al_writer_failed s' = al_writer_failed s"
    and "al_settings s' = al_settings s" "al_queue s' = al_queue s"
  shows "barrier_guarantee (ev # tr) s' op"
  using assms neutral_lists [OF assms(2)]
  by (auto simp: barrier_guarantee_def ahead_def intro: flushed_since_Cons
      split: option.splits writer_pc.splits log_entry.splits)

lemma call_frame:
  assumes "call_guarantee tr s" "neutral ev" "al_control s' = al_control s" "is_running s' = is_running s"
    and "al_barrier s' = al_barrier s" "al_writer s' = al_writer s" "al_writer_failed s' = al_writer_failed s"
    and "al_settings s' = al_settings s" "al_queue s' = al_queue s"
  shows "call_guarantee (ev # tr) s'"
proof -
  have "flushed_since Op_stop True tr \<Longrightarrow> flushed_since Op_stop True (ev # tr)"
    using neutral_lists(3) [OF assms(2)] by (auto intro: flushed_since_Cons)
  then show ?thesis
    using assms guarantee_frame [OF _ assms(2,5-9)] neutral_lists [OF assms(2)]
    by (simp add: call_guarantee_def)
qed

text \<open>A move of the writer, the control operation standing still.\<close>

lemma call_writer:
  assumes "call_guarantee tr s" "accepted_in ev = []" "\<forall>op. ev \<noteq> Began op"
    and "al_control s' = al_control s" "is_running s' = is_running s"
    and "\<And>op. awaited (al_control s) = Some op \<Longrightarrow> barrier_guarantee tr s op \<Longrightarrow> barrier_guarantee (ev # tr) s' op"
  shows "call_guarantee (ev # tr) s'"
proof -
  have "flushed_since Op_stop True tr \<Longrightarrow> flushed_since Op_stop True (ev # tr)"
    using assms(3) by (auto intro: flushed_since_Cons)
  then show ?thesis using assms by (auto simp: call_guarantee_def)
qed

lemma guarantee_take:
  assumes "barrier_guarantee tr s op" "writer_take s = Some s'" "awaited (al_control s) = Some op" "log_inv s"
  shows "barrier_guarantee (Silent # tr) s' op"
  using assms(2)
proof (cases rule: take_cases)
  case leave
  then show ?thesis
    using assms(3) log_inv_parts(3) [OF assms(4)]
    by (auto simp: inv_running_def awaited_def joining_def split: control_pc.splits)
next
  case (barrier q)
  then have "al_barrier s = None" using log_inv_parts(1) [OF assms(4)]
    by (auto simp: inv_barrier_def waits_def split: if_splits)
  then show ?thesis using barrier assms(1) by (simp add: barrier_guarantee_def ahead_def)
next
  case (entry r q)
  then show ?thesis using assms(1)
    by (auto simp: barrier_guarantee_def ahead_def intro: flushed_since_Cons split: option.splits)
qed

lemma guarantee_process:
  assumes "barrier_guarantee tr s op" "al_writer s = Busy e k" "log_inv s" "healthy s \<longrightarrow> all_written tr"
  shows "barrier_guarantee (processed_event e (al_settings s) k err # tr) (s\<lparr>al_writer := Finished e k err\<rparr>) op"
proof (cases e)
  case (Record_entry r)
  then show ?thesis using assms(1,2)
    by (auto simp: barrier_guarantee_def ahead_def intro: flushed_since_Cons split: option.splits)
next
  case Barrier_entry
  then have none: "al_barrier s = None" using log_inv_parts(1) [OF assms(3)] assms(2)
    by (auto simp: inv_barrier_def waits_def split: if_splits)
  then have "processed_of tr = accepted_of (before_call op (Flushed (al_settings s) err # tr))"
    using assms(1,2) Barrier_entry by (simp add: barrier_guarantee_def)
  moreover have "\<not> al_writer_failed s \<and> LogError_ok err \<longrightarrow> all_written (Flushed (al_settings s) err # tr)"
    using assms(2,4) by (simp add: healthy_def)
  ultimately have "flushed_since op (\<not> al_writer_failed s \<and> LogError_ok err) (Flushed (al_settings s) err # tr)"
    unfolding flushed_since_def by (metis append_Nil)
  then show ?thesis using none Barrier_entry by (simp add: barrier_guarantee_def)
qed

lemma guarantee_complete:
  assumes "barrier_guarantee tr s op" "writer_complete c s = Some s'" "log_inv s"
  shows "barrier_guarantee (complete_event s # tr) s' op"
  using assms(2)
proof (cases rule: complete_cases)
  case (barrier k err)
  then have "al_barrier s = None" using log_inv_parts(1) [OF assms(3)]
    by (auto simp: inv_barrier_def waits_def split: if_splits)
  then have old: "flushed_since op (\<not> al_writer_failed s \<and> LogError_ok err) tr"
    using assms(1) barrier by (simp add: barrier_guarantee_def)
  have "LogError_ok (barrier_error c (note_outcome err s)) \<longrightarrow> \<not> al_writer_failed s \<and> LogError_ok err"
    using log_inv_parts(5) [OF assms(3)] by (auto simp: barrier_error_def inv_failed_def)
  then have "flushed_since op (LogError_ok (barrier_error c (note_outcome err s))) (complete_event s # tr)"
    using flushed_since_Cons [OF old] neutral_lists(3) [of "complete_event s" op] by simp
  then show ?thesis using barrier by (simp add: barrier_guarantee_def)
next
  case (entry r k err)
  have "before_call op (complete_event s # tr) = before_call op tr" by (rule neutral_before_call) simp
  then show ?thesis using entry assms(1) neutral_lists(3) [of "complete_event s" op]
    by (auto simp: barrier_guarantee_def ahead_def intro: flushed_since_Cons split: option.splits)
qed

lemma guarantee_enter:
  assumes "accepted_of (before_call op (ev # tr)) = processed_of tr @ backlog s" "processed_in ev = []"
    and "count_list (al_queue s) Barrier_entry = 0" "\<not> holds_barrier (al_writer s)"
    and "al_barrier s' = None" "al_writer s' = al_writer s" "al_settings s' = al_settings s"
    and "al_queue s' = al_queue s @ [Barrier_entry]"
  shows "barrier_guarantee (ev # tr) s' op"
proof -
  have "takeWhile (\<lambda>e. e \<noteq> Barrier_entry) (al_queue s @ [Barrier_entry]) = al_queue s"
    using assms(3) by (subst takeWhile_append2) (auto simp: count_list_0_iff)
  then show ?thesis using assms
    by (auto simp: barrier_guarantee_def ahead_def backlog_def split: writer_pc.splits log_entry.splits)
qed

lemma step_call_guarantee:
  assumes "async_step D a (s, w) = Some (ev, s', w')" and inv: "log_inv s"
    and call: "call_guarantee tr s" and delivered: "accepted_of tr = processed_of tr @ backlog s"
    and written: "healthy s \<longrightarrow> all_written tr"
  shows "call_guarantee (ev # tr) s'"
  using assms(1)
proof (cases rule: async_step_cases)
  case (quiet t)
  then show ?thesis by (intro call_frame [OF call]) simp_all
next
  case (accepted r t)
  then have free: "al_control s = Control_free \<or> al_control s = Flushing"
    using log_inv_parts(2) [OF inv] by (simp add: inv_closing_def)
  have bar: "Barrier_entry \<in> set (al_queue s) \<or> holds_barrier (al_writer s)"
    if "al_control s = Flushing" "al_barrier s = None"
    using log_inv_parts(1) [OF inv] that
    by (cases "Barrier_entry \<in> set (al_queue s)") (auto simp: inv_barrier_def waits_def split: if_splits)
  have "barrier_guarantee (ev # tr) s' Op_flush" if "al_control s = Flushing"
  proof -
    have old: "barrier_guarantee tr s Op_flush" using call that by (simp add: call_guarantee_def)
    show ?thesis
    proof (cases "al_barrier s")
      case (Some e)
      then show ?thesis using old accepted by (auto simp: barrier_guarantee_def intro: flushed_since_Cons)
    next
      case None
      have "takeWhile (\<lambda>e. e \<noteq> Barrier_entry) (al_queue s @ [Record_entry r])
          = takeWhile (\<lambda>e. e \<noteq> Barrier_entry) (al_queue s)" if "\<not> holds_barrier (al_writer s)"
        using bar [OF \<open>al_control s = Flushing\<close> None] that by (intro takeWhile_append1) auto
      then show ?thesis using old accepted None
        by (auto simp: barrier_guarantee_def ahead_def intro: flushed_since_Cons
            split: writer_pc.splits log_entry.splits)
    qed
  qed
  then show ?thesis using free accepted by (auto simp: call_guarantee_def)
next
  case unstopped
  then show ?thesis by (intro call_frame [OF call]) simp_all
next
  case (take)
  then have "al_control s' = al_control s" "is_running s' = is_running s"
    by (auto elim!: take_cases)
  then show ?thesis using take guarantee_take [OF _ take(2) _ inv] by (intro call_writer [OF call]) simp_all
next
  case (process e k err)
  then show ?thesis using guarantee_process [OF _ process(2) inv written]
    by (intro call_writer [OF call]) (cases e; simp)+
next
  case (complete c)
  then have "al_control s' = al_control s" "is_running s' = is_running s"
    by (auto elim!: complete_cases)
  then show ?thesis using complete guarantee_complete [OF _ complete(2) inv] neutral_lists(3) [of "complete_event s"]
    by (intro call_writer [OF call]) simp_all
next
  case (configure S f t)
  then show ?thesis by (simp add: call_guarantee_def)
next
  case commit
  then have "al_control s' = Control_free"
    by (auto simp: configure_commit_def split: control_pc.splits if_splits)
  then show ?thesis by (simp add: call_guarantee_def)
next
  case flush
  have "count_list (al_queue s) Barrier_entry = 0" "\<not> holds_barrier (al_writer s)"
    using log_inv_parts(1) [OF inv] flush by (auto simp: inv_barrier_def waits_def split: if_splits)
  then have "barrier_guarantee (ev # tr) s' Op_flush"
    using flush delivered by (intro guarantee_enter) simp_all
  then show ?thesis using flush by (simp add: call_guarantee_def)
next
  case (flush_return e)
  then show ?thesis by (simp add: call_guarantee_def)
next
  case stop
  then show ?thesis by (simp add: call_guarantee_def)
next
  case (stop_skip r)
  then show ?thesis using call by (auto simp: call_guarantee_def)
next
  case stop_barrier
  have "count_list (al_queue s) Barrier_entry = 0" "\<not> holds_barrier (al_writer s)"
    using log_inv_parts(1) [OF inv] stop_barrier by (auto simp: inv_barrier_def waits_def split: if_splits)
  moreover have "accepted_of (before_call Op_stop tr) = accepted_of tr"
    using call stop_barrier by (simp add: call_guarantee_def)
  ultimately have "barrier_guarantee (ev # tr) s' Op_stop"
    using stop_barrier delivered by (intro guarantee_enter) simp_all
  then show ?thesis using stop_barrier call by (simp add: call_guarantee_def)
next
  case (stop_return e)
  have "flushed_since Op_stop (LogError_ok e) tr" "accepted_of (before_call Op_stop tr) = accepted_of tr"
    using call stop_return by (simp_all add: call_guarantee_def barrier_guarantee_def)
  then show ?thesis using stop_return flushed_since_Cons [of Op_stop "LogError_ok e" tr Silent True]
    by (auto simp: call_guarantee_def barrier_result_def split: if_splits)
next
  case (stop_signal r)
  then show ?thesis using call flushed_since_Cons [of Op_stop True tr Silent True]
    by (auto simp: call_guarantee_def)
next
  case (stop_join r)
  then show ?thesis by (simp add: call_guarantee_def stop_finish_def)
qed

lemma trace_call_guarantee: "async_trace D tr x \<Longrightarrow> call_guarantee tr (fst x)"
proof (induction rule: async_trace.induct)
  case (start w)
  then show ?case by (simp add: call_guarantee_def AsyncLogRuntime_new_def)
next
  case (step tr x a ev y)
  show ?case
    using step_call_guarantee [OF _ async_trace_inv [OF step(1)] step.IH trace_backlog [OF step(1)]
        trace_written [OF step(1)], of D a "snd x" ev "fst y" "snd y"] step(2) by simp
qed

section \<open>Control operations come to an end\<close>

definition blocked :: "async_log \<Rightarrow> bool" where
  "blocked s \<longleftrightarrow> waits s
     \<or> joining (al_control s) \<and> al_writer s \<noteq> Writer_done \<and> al_writer s \<noteq> No_writer"

definition writer_weight :: "writer_pc \<Rightarrow> nat" where
  "writer_weight pc = (case pc of Busy e k \<Rightarrow> 3 | Finished e k err \<Rightarrow> 2 | Ready \<Rightarrow> 1 | _ \<Rightarrow> 0)"

lemma writer_weight_simps [simp]:
  "writer_weight (Busy e k) = 3" "writer_weight (Finished e k err) = 2" "writer_weight Ready = 1"
  "writer_weight Writer_done = 0" "writer_weight No_writer = 0"
  by (simp_all add: writer_weight_def)

text \<open>What the writer has left to do before the operation can go on: the entries up to its barrier,
  or all of them before the join.\<close>

definition work_left :: "async_log \<Rightarrow> nat" where
  "work_left s =
     (if waits s
      then if holds_barrier (al_writer s) then 0
           else 3 * Suc (length (takeWhile (\<lambda>e. e \<noteq> Barrier_entry) (al_queue s)))
      else 3 * length (al_queue s)) + writer_weight (al_writer s)"

fun control_action :: "control_pc \<Rightarrow> log_action option" where
  "control_action Control_free = None"
| "control_action (Configuring S f) = Some Configure_commit"
| "control_action Flushing = Some Flush_return"
| "control_action Stop_entered = Some (Stop_barrier True)"
| "control_action Stop_waiting = Some Stop_wait_return"
| "control_action (Stop_result r) = Some Stop_signal"
| "control_action (Stop_joining r) = Some Stop_join"

fun control_phase :: "control_pc \<Rightarrow> nat" where
  "control_phase Control_free = 0"
| "control_phase (Configuring S f) = 1"
| "control_phase Flushing = 1"
| "control_phase Stop_entered = 4"
| "control_phase Stop_waiting = 3"
| "control_phase (Stop_result r) = 2"
| "control_phase (Stop_joining r) = 1"

definition is_writer_action :: "log_action \<Rightarrow> bool" where
  "is_writer_action a \<longleftrightarrow> a = Writer_take \<or> a = Writer_process \<or> (\<exists>c. a = Writer_complete c)"

lemma control_proceeds:
  assumes "\<not> blocked s" "al_control s \<noteq> Control_free"
  shows "\<exists>a ev s'. control_action (al_control s) = Some a \<and> async_step D a (s, w) = Some (ev, s', w)
     \<and> control_phase (al_control s') < control_phase (al_control s)"
  using assms
  by (cases "al_control s")
    (auto simp: blocked_def waits_def configure_commit_def barrier_enter_def stop_finish_def split: option.splits)

lemma writer_proceeds:
  assumes inv: "log_inv s" and "blocked s"
  shows "\<exists>a. is_writer_action a \<and> async_step D a (s, w) \<noteq> None"
proof (cases "al_writer s")
  case No_writer
  then show ?thesis using assms log_inv_parts(1,3) [OF inv]
    by (auto simp: blocked_def inv_barrier_def inv_running_def waits_def)
next
  case Ready
  have "al_queue s \<noteq> [] \<or> al_stopping s"
    using assms Ready log_inv_parts(1,3) [OF inv]
    by (auto simp: blocked_def inv_barrier_def inv_running_def split: if_splits)
  then have "writer_take s \<noteq> None" using Ready
    by (auto simp: writer_take_def split: list.splits log_entry.splits)
  then show ?thesis by (intro exI [of _ Writer_take]) (simp add: is_writer_action_def)
next
  case (Busy e k)
  then show ?thesis
    by (intro exI [of _ Writer_process]) (simp add: is_writer_action_def writer_process_def Let_def split_beta)
next
  case (Finished e k err)
  then show ?thesis
    by (intro exI [of _ "Writer_complete True"])
      (auto simp: is_writer_action_def writer_complete_def Let_def split: log_entry.splits)
next
  case Writer_done
  then have "joining (al_control s)" using log_inv_parts(3) [OF inv] by (simp add: inv_running_def)
  then show ?thesis using assms Writer_done by (auto simp: blocked_def waits_def joining_def split: control_pc.splits)
qed

lemma writer_works:
  assumes inv: "log_inv s" and blocked: "blocked s" and "is_writer_action a"
    and step: "async_step D a (s, w) = Some (ev, s', w')"
  shows "al_control s' = al_control s \<and> (blocked s' \<longrightarrow> work_left s' < work_left s)"
proof -
  consider "a = Writer_take" "writer_take s = Some s'" | "a = Writer_process" "writer_process D s w = Some (s', w')"
    | c where "a = Writer_complete c" "writer_complete c s = Some s'"
  proof -
    from assms(3) consider "a = Writer_take" | "a = Writer_process" | c where "a = Writer_complete c"
      by (auto simp: is_writer_action_def)
    then show thesis
    proof cases
      case 1
      then show thesis using that(1) step by simp
    next
      case 2
      then show thesis using that(2) step by (cases "writer_process D s w") (simp_all add: split_beta)
    next
      case 3
      then show thesis using that(3) step by simp
    qed
  qed
  then show ?thesis
  proof cases
    case 1
    from 1(2) show ?thesis
    proof (cases rule: take_cases)
      case leave
      then show ?thesis by (simp add: work_left_def waits_def)
    next
      case (barrier q)
      then have "waits s" using log_inv_parts(1) [OF inv] by (auto simp: inv_barrier_def split: if_splits)
      then show ?thesis using barrier by (simp add: work_left_def waits_def)
    next
      case (entry r q)
      then show ?thesis by (simp add: work_left_def waits_def)
    qed
  next
    case 2
    from 2(2) show ?thesis by (cases rule: process_cases) (simp add: work_left_def waits_def)
  next
    case 3
    from 3(2) show ?thesis
    proof (cases rule: complete_cases)
      case (barrier k err)
      then have "waits s" using log_inv_parts(1) [OF inv] by (auto simp: inv_barrier_def split: if_splits)
      then show ?thesis using barrier
        by (auto simp: blocked_def waits_def joining_def split: control_pc.splits)
    next
      case (entry r k err)
      then show ?thesis by (simp add: work_left_def waits_def)
    qed
  qed
qed

lemma others_wait:
  assumes inv: "log_inv s" and blocked: "blocked s" and "\<not> is_writer_action a"
    and step: "async_step D a (s, w) = Some (ev, s', w')"
  shows "al_control s' = al_control s \<and> blocked s' \<and> work_left s' = work_left s"
  using step
proof (cases rule: async_step_cases)
  case (quiet t)
  then show ?thesis using blocked by (simp add: blocked_def work_left_def waits_def)
next
  case (accepted r t)
  then have "\<not> joining (al_control s)"
    using log_inv_parts(2) [OF inv] by (auto simp: inv_closing_def)
  then have w: "waits s" using blocked by (simp add: blocked_def)
  then have "Barrier_entry \<in> set (al_queue s) \<or> holds_barrier (al_writer s)"
    using log_inv_parts(1) [OF inv]
    by (cases "Barrier_entry \<in> set (al_queue s)") (auto simp: inv_barrier_def split: if_splits)
  then have "holds_barrier (al_writer s) \<or> takeWhile (\<lambda>e. e \<noteq> Barrier_entry) (al_queue s @ [Record_entry r])
      = takeWhile (\<lambda>e. e \<noteq> Barrier_entry) (al_queue s)"
    by (auto intro: takeWhile_append1)
  then show ?thesis using accepted w by (auto simp: blocked_def work_left_def waits_def)
next
  case unstopped
  then show ?thesis using blocked by (simp add: blocked_def waits_def)
next
  case take
  then show ?thesis using assms(3) by (simp add: is_writer_action_def)
next
  case (process e k err)
  then show ?thesis using assms(3) by (simp add: is_writer_action_def)
next
  case (complete c)
  then show ?thesis using assms(3) by (simp add: is_writer_action_def)
qed (use blocked in \<open>auto simp: blocked_def waits_def configure_commit_def split: control_pc.splits if_splits\<close>)

section \<open>A run\<close>

text \<open>Devices that always succeed, and a run of every kind of action over them.\<close>

definition quiet_devices :: "nat log_devices" where
  "quiet_devices = \<lparr>ld_format = (\<lambda>f r w. (Returned ''text'', w)), ld_console_writer = (\<lambda>c t w. (Returned (Success ()), w)),
     ld_cout = (\<lambda>t w. (False, Suc w)), ld_cout_flush = (\<lambda>w. (False, w)), ld_file_write = (\<lambda>p t w. (False, w)),
     ld_file_flush = (\<lambda>p w. (False, w)), ld_file_open = (\<lambda>p w. (Returned True, w)),
     ld_sink_write = (\<lambda>s r t w. (Returned (Success ()), w)), ld_sink_flush = (\<lambda>s w. (Returned (Success ()), w)),
     ld_local = (\<lambda>ns. (''26/09/13'', ''10:00:00'')), ld_windows = False\<rparr>"

definition sample_record :: sAsyncLogRecord where
  "sample_record = \<lparr>lr_timestamp = 0, lr_level = Level_Info, lr_tag = ''t'', lr_source = ''t'', lr_file = '''',
     lr_line = 0, lr_verbosity = 1, lr_parts = [text_part ''m''], lr_attributes = []\<rparr>"

definition sample_settings :: sAsyncLogSettings where
  "sample_settings = default_settings\<lparr>ls_output := Mode_CONSOLE, ls_formatter := Some 1, ls_queue_capacity := 1\<rparr>"

fun run_log :: "'w log_devices \<Rightarrow> log_action list \<Rightarrow> log_event list \<Rightarrow> async_log \<times> 'w
    \<Rightarrow> (log_event list \<times> async_log \<times> 'w) option" where
  "run_log D [] tr x = Some (tr, x)"
| "run_log D (a # as) tr x =
     (case async_step D a x of None \<Rightarrow> None | Some (ev, y) \<Rightarrow> run_log D as (ev # tr) y)"

lemma run_log_trace: "async_trace D tr x \<Longrightarrow> run_log D as tr x = Some (tr', y) \<Longrightarrow> async_trace D tr' y"
  by (induction as arbitrary: tr x) (auto split: option.splits intro: async_trace.step)

definition configured_run :: "log_action list" where
  "configured_run = [Configure sample_settings True True True, Writer_take, Writer_process,
     Writer_complete True, Configure_commit, Append True sample_record]"

definition flushing_run :: "log_action list" where
  "flushing_run = configured_run @ [Flush True, Writer_take, Writer_process, Writer_complete True,
     Writer_take, Writer_process, Writer_complete True]"

definition stopping_run :: "log_action list" where
  "stopping_run = configured_run @ [Stop, Stop_barrier True, Writer_take, Writer_process, Writer_complete True,
     Writer_take, Writer_process, Writer_complete True, Stop_wait_return, Stop_signal, Writer_take]"

definition run_of :: "log_action list \<Rightarrow> log_event list \<times> async_log \<times> nat" where
  "run_of as = the (run_log quiet_devices as [] (AsyncLogRuntime_new, 0))"

lemmas run_defs = configured_run_def flushing_run_def stopping_run_def quiet_devices_def sample_settings_def
  sample_record_def default_settings_def AsyncLogRuntime_new_def configure_prepare_def configure_enter_def
  configure_commit_def validSettings_def as_unsigned_def hasFile_def hasConsole_def tryAppend_def
  log_enabled_def validRecord_def partBytes_def addBytes_def metadata_sizes_def writer_take_def
  writer_process_def writer_complete_def note_outcome_def put_error_def barrier_error_def barrier_enter_def
  barrier_result_def stop_finish_def error_of_def flushSinks_def flush_console_def flush_file_def
  write_record_def format_record_def write_console_def write_file_def status_of_stream_def
  process_event_def processed_event_def complete_event_def count_dropped_def Let_def

lemma runs_end:
  "run_log quiet_devices configured_run [] (AsyncLogRuntime_new, 0) \<noteq> None"
  "run_log quiet_devices flushing_run [] (AsyncLogRuntime_new, 0) \<noteq> None"
  "run_log quiet_devices stopping_run [] (AsyncLogRuntime_new, 0) \<noteq> None"
  by (simp_all add: run_defs)

lemma run_of_trace:
  assumes "run_log quiet_devices as [] (AsyncLogRuntime_new, 0) \<noteq> None"
  shows "async_trace quiet_devices (fst (run_of as)) (snd (run_of as))"
  using assms run_log_trace [OF async_trace.start, of quiet_devices as] by (auto simp: run_of_def)

lemma runs_are_traces:
  "async_trace quiet_devices (fst (run_of configured_run)) (fst (snd (run_of configured_run)), snd (snd (run_of configured_run)))"
  "async_trace quiet_devices (fst (run_of flushing_run)) (fst (snd (run_of flushing_run)), snd (snd (run_of flushing_run)))"
  "async_trace quiet_devices (fst (run_of stopping_run)) (fst (snd (run_of stopping_run)), snd (snd (run_of stopping_run)))"
  using runs_end run_of_trace by simp_all

section \<open>The promises\<close>

lemma invalid_parts_refused: "\<not> lb_is_valid b \<Longrightarrow> addParts windows acc (line_parts b) limit = None"
proof -
  have "addParts windows acc (ps @ [\<lparr>lp_kind = - 1, lp_text = ''''\<rparr>]) limit = None" for ps
    by (induction ps arbitrary: acc) (auto simp: partBytes_def split: option.splits)
  then show "\<not> lb_is_valid b \<Longrightarrow> addParts windows acc (line_parts b) limit = None"
    by (simp add: line_parts_def)
qed

text \<open>A line whose builder became invalid is never accepted, so nothing truncated is written.\<close>

theorem invalid_line_never_accepted:
  assumes "\<not> lb_is_valid (ll_builder l)"
  shows "fst (line_destroy windows inside copy_ok alloc_ok l s) \<noteq> Some Accepted"
  using invalid_parts_refused [OF assms]
  by (simp add: line_destroy_def tryAppend_def validRecord_def)

lemma settings_stable:
  assumes "log_inv s" "al_writer s = Busy e k" "async_step D a (s, w) = Some (ev, s', w')"
  shows "al_settings s' = al_settings s \<and> al_file s' = al_file s"
  using assms(3)
proof (cases rule: async_step_cases)
  case (take)
  then show ?thesis using assms(2) by (auto elim!: take_cases)
next
  case (complete c)
  then show ?thesis using assms(2) by (auto elim!: complete_cases)
next
  case commit
  then have "closing (al_control s)" "al_barrier s \<noteq> None"
    by (auto simp: configure_commit_def split: control_pc.splits if_splits)
  from closing_done [OF assms(1) this] show ?thesis using assms(2) by simp
next
  case (stop_join r)
  then show ?thesis using assms(2) by simp
qed simp_all

text \<open>C7. In every interleaving, the records the runtime accepted are, in order and each with the
  settings it was accepted under, those it processed, then the one in the writer's hands, then the
  queue: nothing is lost, duplicated, reordered or written under other settings.  While the writer
  works outside the mutex, no action changes the settings or the file it reads.\<close>

theorem async_log_delivery:
  assumes "async_trace D tr (s, w)"
  shows "accepted_of tr = processed_of tr
       @ map (\<lambda>r. (r, al_settings s)) (in_flight (al_writer s) @ records_of (al_queue s))
     \<and> (\<forall>e k a ev s' w'. al_writer s = Busy e k \<and> async_step D a (s, w) = Some (ev, s', w')
          \<longrightarrow> al_settings s' = al_settings s \<and> al_file s' = al_file s)"
proof (rule conjI)
  show "accepted_of tr = processed_of tr
       @ map (\<lambda>r. (r, al_settings s)) (in_flight (al_writer s) @ records_of (al_queue s))"
    using trace_backlog [OF assms] by (simp add: backlog_def)
  have inv: "log_inv s" using async_trace_inv [OF assms] by simp
  show "\<forall>e k a ev s' w'. al_writer s = Busy e k \<and> async_step D a (s, w) = Some (ev, s', w')
          \<longrightarrow> al_settings s' = al_settings s \<and> al_file s' = al_file s"
    by (intro allI impI, elim conjE) (rule settings_stable [OF inv])
qed

lemma async_log_delivery_witness:
  "accepted_of (fst (run_of flushing_run)) = [(sample_record, sample_settings)]
   \<and> accepted_of (fst (run_of flushing_run)) = processed_of (fst (run_of flushing_run))
       @ map (\<lambda>r. (r, al_settings (fst (snd (run_of flushing_run)))))
           (in_flight (al_writer (fst (snd (run_of flushing_run)))) @ records_of (al_queue (fst (snd (run_of flushing_run)))))"
proof -
  have "accepted_of (fst (run_of flushing_run)) = [(sample_record, sample_settings)]"
    by (simp add: run_of_def run_defs)
  then show ?thesis using async_log_delivery [OF runs_are_traces(2)] by blast
qed

text \<open>The counters are exact modulo their width: accepted, filtered, completed and dropped count
  the submissions and completions of the trace, every submission is counted once or answered
  \<open>NotRunning\<close>, the queue length is exact and within the configured capacity, and what was accepted
  is what was completed, what the writer holds and what is queued.\<close>

theorem async_log_accounting:
  assumes "async_trace D tr (s, w)"
  shows "log_counters tr (al_status s)
     \<and> unat (st_queued (al_status s)) = length (records_of (al_queue s))
     \<and> st_queued (al_status s) \<le> ls_queue_capacity (al_settings s)
     \<and> count_events is_accepted tr = count_events is_completed tr + writer_completes s
          + length (in_flight (al_writer s)) + unat (st_queued (al_status s))"
proof -
  have q: "st_queued (al_status s) = word_of_nat (length (records_of (al_queue s)))"
      "length (records_of (al_queue s)) \<le> unat (ls_queue_capacity (al_settings s))"
    using log_inv_parts(4) [OF async_trace_inv [OF assms]] by (simp_all add: inv_queued_def)
  then have u: "unat (st_queued (al_status s)) = length (records_of (al_queue s))"
    using unat_lt_size [of "ls_queue_capacity (al_settings s)"] by (simp add: unat_of_nat)
  have "count_events is_accepted tr = length (processed_of tr) + length (backlog s)"
    using trace_backlog [OF assms] by (simp add: count_accepted)
  then show ?thesis
    using trace_counters [OF assms] trace_completes [OF assms] u q(2)
    by (simp add: backlog_def word_le_nat_alt)
qed

lemma async_log_accounting_witness:
  "count_events is_accepted (fst (run_of configured_run)) = 1
   \<and> log_counters (fst (run_of configured_run)) (al_status (fst (snd (run_of configured_run))))
   \<and> unat (st_queued (al_status (fst (snd (run_of configured_run))))) = 1"
proof -
  have "count_events is_accepted (fst (run_of configured_run)) = 1"
    "length (records_of (al_queue (fst (snd (run_of configured_run))))) = 1"
    by (simp_all add: run_of_def run_defs is_accepted_def)
  then show ?thesis using async_log_accounting [OF runs_are_traces(1)] by simp
qed

text \<open>When \<open>flush\<close> returns success after waiting for the writer, everything accepted before the
  call had been processed when the sinks were flushed, and up to that flush every record and flush
  since the last configuration went through without an error.\<close>

theorem async_log_flush_complete:
  assumes "async_trace D tr (s, w)"
    and "async_step D Flush_return (s, w) = Some (Ended_with Op_flush (Returned (Success ())), y)"
  shows "\<exists>new S err old. tr = new @ Flushed S err # old
     \<and> processed_of old = accepted_of (before_call Op_flush tr) \<and> all_written (Flushed S err # old)"
proof -
  obtain e where e: "al_control s = Flushing" "al_barrier s = Some e" "LogError_ok e"
    using assms(2) by (auto simp: barrier_result_def split: control_pc.splits option.splits if_splits)
  then have "flushed_since Op_flush (LogError_ok e) tr"
    using trace_call_guarantee [OF assms(1)] by (simp add: call_guarantee_def barrier_guarantee_def)
  then show ?thesis using e(3) by (simp add: flushed_since_def)
qed

lemma async_log_flush_complete_witness:
  "\<exists>new S err old. fst (run_of flushing_run) = new @ Flushed S err # old
     \<and> processed_of old = accepted_of (before_call Op_flush (fst (run_of flushing_run)))
     \<and> all_written (Flushed S err # old)"
proof -
  have "\<exists>y. async_step quiet_devices Flush_return
      (fst (snd (run_of flushing_run)), snd (snd (run_of flushing_run)))
    = Some (Ended_with Op_flush (Returned (Success ())), y)"
    by (simp add: run_of_def run_defs)
  then show ?thesis using async_log_flush_complete [OF runs_are_traces(2)] by blast
qed

text \<open>C9. When \<open>stop\<close> returns, everything ever accepted has been processed, there is no writer left to
  call a formatter or a sink, and nothing is accepted; and when it returns success for a running
  runtime, all of it was followed by a flush, without an error since the last configuration.\<close>

theorem async_log_stop_complete:
  assumes "async_trace D tr (s, w)"
    and "async_step D Stop_join (s, w) = Some (Ended_with Op_stop (Returned r), s', w')"
  shows "processed_of tr = accepted_of tr
     \<and> al_writer s' = No_writer \<and> al_queue s' = [] \<and> \<not> is_running s' \<and> \<not> accepting s'
     \<and> (\<forall>a. is_writer_action a \<longrightarrow> async_step D a (s', w') = None)
     \<and> (r = Success () \<and> is_running s \<longrightarrow>
          (\<exists>new S err old. tr = new @ Flushed S err # old
             \<and> processed_of old = accepted_of tr \<and> all_written (Flushed S err # old)))"
proof -
  have inv: "log_inv s" using async_trace_inv [OF assms(1)] by simp
  have c: "al_control s = Stop_joining r" "al_writer s = Writer_done \<or> al_writer s = No_writer" "s' = stop_finish s"
    using assms(2) by (auto split: control_pc.splits if_splits)
  have empty: "backlog s = []" "al_queue s = []" using stopped_backlog [OF inv c(2)] by auto
  have "\<not> accepting s" using log_inv_parts(2) [OF inv] c(1) by (auto simp: inv_closing_def)
  then have end_state: "al_writer s' = No_writer \<and> al_queue s' = [] \<and> \<not> is_running s' \<and> \<not> accepting s'"
    using c(3) empty by (simp add: stop_finish_def)
  have call: "call_guarantee tr s" using trace_call_guarantee [OF assms(1)] by simp
  then have same: "accepted_of (before_call Op_stop tr) = accepted_of tr" using c(1) by (simp add: call_guarantee_def)
  have "flushed_since Op_stop True tr" if "r = Success () \<and> is_running s"
    using call c(1) that by (simp add: call_guarantee_def)
  moreover have "\<forall>a. is_writer_action a \<longrightarrow> async_step D a (s', w') = None"
    using end_state by (auto simp: is_writer_action_def writer_take_def writer_process_def writer_complete_def)
  moreover have "processed_of tr = accepted_of tr" using trace_backlog [OF assms(1)] empty by simp
  ultimately show ?thesis using end_state same unfolding flushed_since_def by auto
qed

lemma async_log_stop_complete_witness:
  "processed_of (fst (run_of stopping_run)) = [(sample_record, sample_settings)]
   \<and> processed_of (fst (run_of stopping_run)) = accepted_of (fst (run_of stopping_run))"
proof -
  have "\<exists>r s' w'. async_step quiet_devices Stop_join
      (fst (snd (run_of stopping_run)), snd (snd (run_of stopping_run)))
    = Some (Ended_with Op_stop (Returned r), s', w')"
    by (simp add: run_of_def run_defs)
  then have "processed_of (fst (run_of stopping_run)) = accepted_of (fst (run_of stopping_run))"
    using async_log_stop_complete [OF runs_are_traces(3)] by blast
  moreover have "accepted_of (fst (run_of stopping_run)) = [(sample_record, sample_settings)]"
    by (simp add: run_of_def run_defs)
  ultimately show ?thesis by simp
qed

text \<open>C8. Every control operation returns: whenever it is not waiting it can take its next section,
  which brings it nearer its end; while it waits for its barrier or the join, the writer has an
  action, every action of the writer lowers the work left before the operation or ends its wait, and
  nothing else, no producer in particular, adds to that work.\<close>

theorem async_log_control_returns:
  assumes "async_trace D tr (s, w)" "al_control s \<noteq> Control_free"
  shows "(\<not> blocked s \<longrightarrow> (\<exists>a ev s'. control_action (al_control s) = Some a
          \<and> async_step D a (s, w) = Some (ev, s', w)
          \<and> control_phase (al_control s') < control_phase (al_control s)))
     \<and> (blocked s \<longrightarrow> (\<exists>a. is_writer_action a \<and> async_step D a (s, w) \<noteq> None)
          \<and> (\<forall>a ev s' w'. async_step D a (s, w) = Some (ev, s', w') \<longrightarrow>
               al_control s' = al_control s
               \<and> (if is_writer_action a then blocked s' \<longrightarrow> work_left s' < work_left s
                  else blocked s' \<and> work_left s' = work_left s)))"
proof -
  have inv: "log_inv s" using async_trace_inv [OF assms(1)] by simp
  have moves: "al_control s' = al_control s
       \<and> (if is_writer_action a then blocked s' \<longrightarrow> work_left s' < work_left s
          else blocked s' \<and> work_left s' = work_left s)"
    if "blocked s" "async_step D a (s, w) = Some (ev, s', w')" for a ev s' w'
    using writer_works [OF inv that(1) _ that(2)] others_wait [OF inv that(1) _ that(2)] by simp
  show ?thesis
  proof (intro conjI impI)
    show "\<exists>a ev s'. control_action (al_control s) = Some a \<and> async_step D a (s, w) = Some (ev, s', w)
          \<and> control_phase (al_control s') < control_phase (al_control s)" if "\<not> blocked s"
      by (rule control_proceeds [OF that assms(2)])
    show "\<exists>a. is_writer_action a \<and> async_step D a (s, w) \<noteq> None" if "blocked s"
      by (rule writer_proceeds [OF inv that])
  qed (use moves in blast)
qed

lemma async_log_control_returns_witness:
  "al_control (fst (snd (run_of (configured_run @ [Stop, Stop_barrier True])))) = Stop_waiting
   \<and> (\<exists>a. is_writer_action a \<and> async_step quiet_devices a
        (fst (snd (run_of (configured_run @ [Stop, Stop_barrier True]))), snd (snd (run_of (configured_run @ [Stop, Stop_barrier True])))) \<noteq> None)"
proof -
  let ?x = "run_of (configured_run @ [Stop, Stop_barrier True])"
  have "async_trace quiet_devices (fst ?x) (fst (snd ?x), snd (snd ?x))"
    using run_of_trace [of "configured_run @ [Stop, Stop_barrier True]"] by (simp add: run_defs)
  moreover have c: "al_control (fst (snd ?x)) = Stop_waiting" "blocked (fst (snd ?x))"
    by (simp_all add: run_of_def run_defs blocked_def waits_def)
  ultimately show ?thesis using async_log_control_returns [of quiet_devices "fst ?x" "fst (snd ?x)" "snd (snd ?x)"] by simp
qed

end
