(* ===== verification/Sockets.thy ===== *)
theory Sockets
  imports XptOperation
begin

text \<open>
  What the network clients share (\<open>platform/xpt/network/TcpClient.cpp\<close>, \<open>UdpClient.cpp\<close>): the
  operating system's socket calls as an argument, the classification of native codes, deadlines, and
  the sliced wait that observes cancellation.  Every call passes the state \<open>'w\<close> of the world on.  A
  loop takes fuel: \<open>Pending\<close> means that it had not returned when the fuel was used up, \<open>Undefined\<close>
  that it reached undefined behaviour.  Allocation failures of error messages and endpoints are not
  modelled.
\<close>

section \<open>Calls and loops over a world\<close>

type_synonym ('w, 'a) io = "'w \<Rightarrow> 'a outcome \<times> 'w"

definition io_return :: "'a \<Rightarrow> ('w, 'a) io" where
  "io_return v w = (Done v, w)"

definition io_undefined :: "('w, 'a) io" where
  "io_undefined w = (Undefined, w)"

definition io_pending :: "('w, 'a) io" where
  "io_pending w = (Pending, w)"

definition io_bind :: "('w, 'a) io \<Rightarrow> ('a \<Rightarrow> ('w, 'b) io) \<Rightarrow> ('w, 'b) io" where
  "io_bind m f w = (case m w of
      (Done v, w') \<Rightarrow> f v w' | (Undefined, w') \<Rightarrow> (Undefined, w') | (Pending, w') \<Rightarrow> (Pending, w'))"

definition io_call :: "('w \<Rightarrow> 'a \<times> 'w) \<Rightarrow> ('w, 'a) io" where
  "io_call f w = (case f w of (v, w') \<Rightarrow> (Done v, w'))"

definition io_do :: "('w \<Rightarrow> 'w) \<Rightarrow> ('w, unit) io" where
  "io_do f w = (Done (), f w)"

definition io_option :: "'a option \<Rightarrow> ('w, 'a) io" where
  "io_option x w = (of_option x, w)"

section \<open>The operating system\<close>

text \<open>The native codes the program names.\<close>

record socket_codes =
  sc_conn_refused :: int
  sc_conn_reset :: int
  sc_conn_aborted :: int
  sc_pipe :: int \<comment> \<open>POSIX only\<close>
  sc_net_unreach :: int
  sc_host_unreach :: int
  sc_addr_not_avail :: int
  sc_addr_in_use :: int
  sc_not_conn :: int
  sc_timed_out :: int
  sc_intr :: int
  sc_in_progress :: int
  sc_would_block :: int
  sc_again :: int \<comment> \<open>POSIX only\<close>
  sc_inval :: int
  sc_msg_size :: int

record sock_address =
  sa_family :: int
  sa_data :: bytes

datatype eSocketWait = Wait_Read | Wait_Write

datatype select_result = Select_ready | Select_timeout | Select_failed int

text \<open>
  The calls.  Handles are natural numbers.  A call that fails answers the native code;
  \<open>sk_so_error\<close> answers whether \<open>getsockopt\<close> failed, the pending error, and the native code.
  \<open>sk_recvmsg\<close> answers the size of the datagram, what was stored of it, the truncation flag and the
  source address.
\<close>

record 'w socket_api =
  sk_windows :: bool
  sk_codes :: socket_codes
  sk_now :: "'w \<Rightarrow> int \<times> 'w"
  sk_cancelled :: "CancellationToken \<Rightarrow> 'w \<Rightarrow> bool \<times> 'w"
  sk_startup :: "'w \<Rightarrow> int \<times> 'w"
  sk_resolve :: "string \<Rightarrow> u16 \<Rightarrow> int \<Rightarrow> bool \<Rightarrow> 'w \<Rightarrow> (int \<times> sock_address list) \<times> 'w"
  sk_socket :: "sock_address \<Rightarrow> bool \<Rightarrow> 'w \<Rightarrow> (int + nat) \<times> 'w"
  sk_nonblock :: "nat \<Rightarrow> 'w \<Rightarrow> int option \<times> 'w"
  sk_connect :: "nat \<Rightarrow> sock_address \<Rightarrow> 'w \<Rightarrow> int option \<times> 'w"
  sk_bind :: "nat \<Rightarrow> sock_address \<Rightarrow> 'w \<Rightarrow> int option \<times> 'w"
  sk_select :: "nat \<Rightarrow> eSocketWait \<Rightarrow> int \<times> int \<Rightarrow> 'w \<Rightarrow> select_result \<times> 'w"
  sk_so_error :: "nat \<Rightarrow> 'w \<Rightarrow> (bool \<times> int \<times> int) \<times> 'w"
  sk_getsockname :: "nat \<Rightarrow> 'w \<Rightarrow> bytes option \<times> 'w"
  sk_getnameinfo :: "bytes \<Rightarrow> 'w \<Rightarrow> (string \<times> string) option \<times> 'w"
  sk_peek :: "nat \<Rightarrow> 'w \<Rightarrow> (int + nat) \<times> 'w"
  sk_send :: "nat \<Rightarrow> bytes \<Rightarrow> 'w \<Rightarrow> (int + nat) \<times> 'w"
  sk_recv :: "nat \<Rightarrow> nat \<Rightarrow> 'w \<Rightarrow> (int + bytes) \<times> 'w"
  sk_sendto :: "nat \<Rightarrow> bytes \<Rightarrow> sock_address \<Rightarrow> 'w \<Rightarrow> (int + nat) \<times> 'w"
  sk_recvmsg :: "nat \<Rightarrow> nat \<Rightarrow> 'w \<Rightarrow> (int \<times> bytes \<times> bytes + nat \<times> bytes \<times> bool \<times> bytes) \<times> 'w"
  sk_shutdown :: "nat \<Rightarrow> 'w \<Rightarrow> 'w"
  sk_close :: "nat \<Rightarrow> 'w \<Rightarrow> 'w"

section \<open>Errors\<close>

definition validationError :: "string \<Rightarrow> TransportError" where
  "validationError m = TransportError_make XCat_Validation X_InvalidArgument m 0"

definition timeoutError :: TransportError where
  "timeoutError = TransportError_make XCat_Timeout X_TimedOut ''The transport operation timed out.'' 0"

definition cancellationError :: TransportError where
  "cancellationError =
     TransportError_make XCat_Cancellation X_Cancelled ''The transport operation was cancelled.'' 0"

definition interruptedError :: "'w socket_api \<Rightarrow> int \<Rightarrow> bool" where
  "interruptedError A code \<longleftrightarrow> code = sc_intr (sk_codes A)"

definition tcp_pendingError :: "'w socket_api \<Rightarrow> int \<Rightarrow> bool" where
  "tcp_pendingError A code \<longleftrightarrow>
     (if sk_windows A
      then code = sc_in_progress (sk_codes A) \<or> code = sc_would_block (sk_codes A) \<or> code = sc_inval (sk_codes A)
      else code = sc_in_progress (sk_codes A) \<or> code = sc_would_block (sk_codes A) \<or> code = sc_again (sk_codes A))"

definition wouldBlockError :: "'w socket_api \<Rightarrow> int \<Rightarrow> bool" where
  "wouldBlockError A code \<longleftrightarrow>
     (if sk_windows A then code = sc_would_block (sk_codes A)
      else code = sc_would_block (sk_codes A) \<or> code = sc_again (sk_codes A))"

definition udp_pendingError :: "'w socket_api \<Rightarrow> int \<Rightarrow> bool" where
  "udp_pendingError A code \<longleftrightarrow>
     (if sk_windows A then code = sc_would_block (sk_codes A)
      else code = sc_would_block (sk_codes A) \<or> code = sc_again (sk_codes A))"

definition messageTooLargeError :: "'w socket_api \<Rightarrow> int \<Rightarrow> bool" where
  "messageTooLargeError A code \<longleftrightarrow> code = sc_msg_size (sk_codes A)"

definition tcp_socketError ::
    "'w socket_api \<Rightarrow> int \<Rightarrow> eTransportErrorCode \<Rightarrow> string \<Rightarrow> TransportError" where
  "tcp_socketError A code fallback m =
     (let C = sk_codes A in
      if code = sc_conn_refused C then TransportError_make XCat_Connection X_ConnectionRefused m code
      else if code = sc_conn_reset C \<or> code = sc_conn_aborted C \<or> (\<not> sk_windows A \<and> code = sc_pipe C)
      then TransportError_make XCat_Connection X_ConnectionReset m code
      else if code = sc_net_unreach C \<or> code = sc_host_unreach C
      then TransportError_make XCat_Connection X_NetworkUnreachable m code
      else if code = sc_addr_not_avail C then TransportError_make XCat_Connection X_AddressUnavailable m code
      else if code = sc_not_conn C then TransportError_make XCat_Connection X_NotConnected m code
      else if code = sc_timed_out C then TransportError_make XCat_Timeout X_TimedOut m code
      else TransportError_make XCat_InputOutput fallback m code)"

definition udp_socketError ::
    "'w socket_api \<Rightarrow> int \<Rightarrow> eTransportErrorCode \<Rightarrow> string \<Rightarrow> TransportError" where
  "udp_socketError A code fallback m =
     (let C = sk_codes A in
      if code = sc_addr_in_use C then TransportError_make XCat_Connection X_BindFailed m code
      else if code = sc_addr_not_avail C then TransportError_make XCat_Connection X_AddressUnavailable m code
      else if code = sc_net_unreach C \<or> code = sc_host_unreach C
      then TransportError_make XCat_Connection X_NetworkUnreachable m code
      else if code = sc_conn_reset C \<or> code = sc_conn_aborted C
      then TransportError_make XCat_Connection X_ConnectionReset m code
      else if code = sc_timed_out C then TransportError_make XCat_Timeout X_TimedOut m code
      else if messageTooLargeError A code then TransportError_make XCat_Validation X_MessageTooLarge m code
      else TransportError_make XCat_InputOutput fallback m code)"

lemma socketError_not_ok [simp]:
  "\<not> te_ok (tcp_socketError A code fallback m)" "\<not> te_ok (udp_socketError A code fallback m)"
  "\<not> te_ok timeoutError" "\<not> te_ok cancellationError" "\<not> te_ok (validationError m)"
  by (simp_all add: tcp_socketError_def udp_socketError_def timeoutError_def cancellationError_def
      validationError_def Let_def)

section \<open>Sockets\<close>

text \<open>\<open>initializeSockets\<close>: the start-up code of Windows, success elsewhere.\<close>

definition initializeSockets :: "'w socket_api \<Rightarrow> ('w, bool \<times> int) io" where
  "initializeSockets A =
     (if sk_windows A then io_bind (io_call (sk_startup A)) (\<lambda>code. io_return (code = 0, code))
      else io_return (True, 0))"

definition closeSocket :: "'w socket_api \<Rightarrow> nat option \<Rightarrow> 'w \<Rightarrow> 'w" where
  "closeSocket A h w = (case h of None \<Rightarrow> w | Some i \<Rightarrow> sk_close A i w)"

definition shutdownSocket :: "'w socket_api \<Rightarrow> nat option \<Rightarrow> 'w \<Rightarrow> 'w" where
  "shutdownSocket A h w = (case h of None \<Rightarrow> w | Some i \<Rightarrow> sk_shutdown A i w)"

section \<open>Deadlines\<close>

text \<open>Nanoseconds of the steady clock; the greatest time point means no deadline.\<close>

definition clock_max :: int where
  "clock_max = 2 ^ 63 - 1"

definition deadline_from :: "int \<Rightarrow> OperationContext \<Rightarrow> int option" where
  "deadline_from now ctx =
     (case i64_sub clock_max now of
        None \<Rightarrow> None
      | Some room \<Rightarrow>
          let d = to_duration (oc_timeout ctx) in
          if cpp_div room 1000000 \<le> d then Some clock_max
          else (case i64_mul d 1000000 of None \<Rightarrow> None | Some ns \<Rightarrow> i64_add now ns))"

definition operationDeadline :: "'w socket_api \<Rightarrow> OperationContext \<Rightarrow> ('w, int) io" where
  "operationDeadline A ctx = io_bind (io_call (sk_now A)) (\<lambda>now. io_option (deadline_from now ctx))"

text \<open>The slice of a wait: what remains in microseconds, at most 20 ms.\<close>

definition wait_slice :: "int \<Rightarrow> int \<times> int" where
  "wait_slice remaining =
     (let slice = min (cpp_div remaining 1000) 20000 in (cpp_div slice 1000000, cpp_rem slice 1000000))"

text \<open>On POSIX \<open>FD_SET\<close> is undefined for descriptors from \<open>FD_SETSIZE\<close> on.\<close>

definition fd_setsize :: nat where
  "fd_setsize = 1024"

fun waitForSocket ::
    "'w socket_api \<Rightarrow> (int \<Rightarrow> TransportError) \<Rightarrow> nat \<Rightarrow> eSocketWait \<Rightarrow> int \<Rightarrow> CancellationToken
       \<Rightarrow> nat \<Rightarrow> ('w, TransportError) io" where
  "waitForSocket A failed h operation deadline token 0 = io_pending"
| "waitForSocket A failed h operation deadline token (Suc fuel) =
     io_bind (io_call (sk_cancelled A token)) (\<lambda>cancelled.
     if cancelled then io_return cancellationError
     else io_bind (io_call (sk_now A)) (\<lambda>now.
     if deadline \<le> now then io_return timeoutError
     else io_bind (io_option (i64_sub deadline now)) (\<lambda>remaining.
     if \<not> sk_windows A \<and> fd_setsize \<le> h then io_undefined
     else io_bind (io_call (sk_select A h operation (wait_slice remaining))) (\<lambda>answer.
       case answer of
         Select_ready \<Rightarrow> io_return TransportError_none
       | Select_timeout \<Rightarrow> waitForSocket A failed h operation deadline token fuel
       | Select_failed code \<Rightarrow>
           if interruptedError A code then waitForSocket A failed h operation deadline token fuel
           else io_return (failed code)))))"

section \<open>Addresses\<close>

definition is_digit :: "char \<Rightarrow> bool" where
  "is_digit c \<longleftrightarrow> 48 \<le> (of_char c :: nat) \<and> (of_char c :: nat) \<le> 57"

definition is_space :: "char \<Rightarrow> bool" where
  "is_space c \<longleftrightarrow> c = CHR '' '' \<or> (9 \<le> (of_char c :: nat) \<and> (of_char c :: nat) \<le> 13)"

definition digits_value :: "string \<Rightarrow> nat" where
  "digits_value ds = foldl (\<lambda>n c. 10 * n + (of_char c - 48)) 0 ds"

text \<open>\<open>std::strtoul\<close> of base ten with a 64-bit \<open>unsigned long\<close>: the value and the unread rest (the
  whole text when there is no number).\<close>

definition strtoul :: "string \<Rightarrow> nat \<times> string" where
  "strtoul s =
     (let t = dropWhile is_space s;
          u = (case t of c # r \<Rightarrow> if c = CHR ''+'' \<or> c = CHR ''-'' then r else t | [] \<Rightarrow> t);
          negative = (t \<noteq> [] \<and> hd t = CHR ''-'');
          ds = takeWhile is_digit u;
          n = digits_value ds;
          v = (if 2 ^ 64 \<le> n then 2 ^ 64 - 1 else if negative \<and> n \<noteq> 0 then 2 ^ 64 - n else n)
      in if ds = [] then (0, s) else (v, dropWhile is_digit u))"

definition c_string :: "string \<Rightarrow> string" where
  "c_string s = takeWhile (\<lambda>c. c \<noteq> CHR 0x00) s"

end
