(* ===== verification/TcpClient.thy ===== *)
theory TcpClient
  imports Sockets
begin

text \<open>
  The TCP client (\<open>api/xpt/tcp/TcpClient.h\<close>, \<open>platform/xpt/network/TcpClient.cpp\<close>): its state and
  every operation.  A client is \<open>None\<close> once it was moved from.  Operations answer their result
  together with the client they leave.
\<close>

record TcpClient_Impl =
  tc_socket :: "nat option"
  tc_remote :: Endpoint
  tc_local :: Endpoint

definition TcpClient_new :: TcpClient_Impl where
  "TcpClient_new = \<lparr>tc_socket = None, tc_remote = Endpoint_none, tc_local = Endpoint_none\<rparr>"

type_synonym TcpClient = "TcpClient_Impl option"

definition tcp_close :: "'w socket_api \<Rightarrow> TcpClient_Impl \<Rightarrow> ('w, TcpClient_Impl) io" where
  "tcp_close A c = io_bind (io_do (shutdownSocket A (tc_socket c))) (\<lambda>u.
     io_bind (io_do (closeSocket A (tc_socket c))) (\<lambda>u. io_return TcpClient_new))"

definition tcp_disconnect :: "'w socket_api \<Rightarrow> TcpClient \<Rightarrow> ('w, TcpClient) io" where
  "tcp_disconnect A client =
     (case client of None \<Rightarrow> io_return None
      | Some c \<Rightarrow> io_bind (tcp_close A c) (\<lambda>c'. io_return (Some c')))"

definition tcp_isConnected :: "TcpClient \<Rightarrow> bool" where
  "tcp_isConnected client = (case client of None \<Rightarrow> False | Some c \<Rightarrow> tc_socket c \<noteq> None)"

definition tcp_getRemoteEndpoint :: "TcpClient \<Rightarrow> Endpoint" where
  "tcp_getRemoteEndpoint client = (case client of None \<Rightarrow> Endpoint_none | Some c \<Rightarrow> tc_remote c)"

definition tcp_getLocalEndpoint :: "TcpClient \<Rightarrow> Endpoint" where
  "tcp_getLocalEndpoint client = (case client of None \<Rightarrow> Endpoint_none | Some c \<Rightarrow> tc_local c)"

definition tcp_service_endpoint :: "string \<Rightarrow> string \<Rightarrow> Endpoint" where
  "tcp_service_endpoint host service =
     (let (port, rest) = strtoul service in
      if rest = service \<or> rest \<noteq> [] \<or> 65535 < port then Endpoint_none
      else \<lparr>ep_host = host, ep_port = word_of_nat port\<rparr>)"

definition tcp_localEndpoint :: "'w socket_api \<Rightarrow> nat \<Rightarrow> ('w, Endpoint) io" where
  "tcp_localEndpoint A h =
     io_bind (io_call (sk_getsockname A h)) (\<lambda>address. case address of
         None \<Rightarrow> io_return Endpoint_none
       | Some a \<Rightarrow> io_bind (io_call (sk_getnameinfo A a)) (\<lambda>names. case names of
             None \<Rightarrow> io_return Endpoint_none
           | Some (host, service) \<Rightarrow> io_return (tcp_service_endpoint host service)))"

definition tcp_wait ::
    "'w socket_api \<Rightarrow> nat \<Rightarrow> eSocketWait \<Rightarrow> int \<Rightarrow> CancellationToken \<Rightarrow> nat \<Rightarrow> ('w, TransportError) io" where
  "tcp_wait A = waitForSocket A (\<lambda>code. tcp_socketError A code X_Unknown ''Waiting for the socket failed.'')"

section \<open>Connecting\<close>

definition not_connected :: TransportError where
  "not_connected = TransportError_make XCat_Connection X_NotConnected ''The TCP client is not connected.'' 0"

definition peer_closed :: TransportError where
  "peer_closed = TransportError_make XCat_Connection X_RemoteClosed ''The TCP peer closed the connection.'' 0"

definition no_address :: TransportError where
  "no_address = TransportError_make XCat_Connection X_AddressUnavailable ''No resolved address could be connected.'' 0"

text \<open>The outcome of \<open>::connect\<close> on a candidate: \<open>Inr ()\<close> connected; \<open>Inl\<close> the error and whether the
  search stops with it.\<close>

definition tcp_establish ::
    "'w socket_api \<Rightarrow> nat \<Rightarrow> int \<Rightarrow> CancellationToken \<Rightarrow> nat \<Rightarrow> sock_address
       \<Rightarrow> ('w, TransportError \<times> bool + unit) io" where
  "tcp_establish A fuel deadline token h address =
     io_bind (io_call (sk_connect A h address)) (\<lambda>connected. case connected of
         None \<Rightarrow> io_return (Inr ())
       | Some code \<Rightarrow>
           if \<not> tcp_pendingError A code
           then io_return (Inl (tcp_socketError A code X_Unknown ''Connecting the TCP socket failed.'', False))
           else io_bind (tcp_wait A h Wait_Write deadline token fuel) (\<lambda>wait_error.
             if \<not> te_ok wait_error
             then io_return (Inl (wait_error,
                    te_category wait_error = XCat_Timeout \<or> te_category wait_error = XCat_Cancellation))
             else io_bind (io_call (sk_so_error A h)) (\<lambda>(failed, connection_error, native).
               if failed \<or> connection_error \<noteq> 0
               then io_return (Inl (tcp_socketError A (if connection_error = 0 then native else connection_error)
                      X_Unknown ''Connecting the TCP socket failed.'', False))
               else io_return (Inr ()))))"

fun tcp_try_addresses ::
    "'w socket_api \<Rightarrow> nat \<Rightarrow> int \<Rightarrow> CancellationToken \<Rightarrow> sock_address list \<Rightarrow> TransportError
       \<Rightarrow> ('w, TransportError + nat) io" where
  "tcp_try_addresses A fuel deadline token [] last_error = io_return (Inl last_error)"
| "tcp_try_addresses A fuel deadline token (address # rest) last_error =
     io_bind (io_call (sk_cancelled A token)) (\<lambda>cancelled.
     if cancelled then io_return (Inl cancellationError)
     else io_bind (io_call (sk_now A)) (\<lambda>now.
     if deadline \<le> now then io_return (Inl timeoutError)
     else io_bind (io_call (sk_socket A address True)) (\<lambda>candidate. case candidate of
         Inl code \<Rightarrow> tcp_try_addresses A fuel deadline token rest
           (tcp_socketError A code X_ResourceExhausted ''Creating a TCP socket failed.'')
       | Inr h \<Rightarrow> io_bind (io_call (sk_nonblock A h)) (\<lambda>mode. case mode of
           Some code \<Rightarrow> io_bind (io_do (closeSocket A (Some h))) (\<lambda>u.
             tcp_try_addresses A fuel deadline token rest
               (tcp_socketError A code X_Unsupported ''Enabling non-blocking socket I/O failed.''))
         | None \<Rightarrow> io_bind (tcp_establish A fuel deadline token h address) (\<lambda>established. case established of
             Inr u \<Rightarrow> io_return (Inr h)
           | Inl (e, stops) \<Rightarrow> io_bind (io_do (closeSocket A (Some h))) (\<lambda>u.
               if stops then io_return (Inl e)
               else tcp_try_addresses A fuel deadline token rest e))))))"

definition tcp_connect ::
    "'w socket_api \<Rightarrow> nat \<Rightarrow> Endpoint \<Rightarrow> OperationContext \<Rightarrow> TcpClient \<Rightarrow> ('w, TransportStatus \<times> TcpClient) io" where
  "tcp_connect A fuel endpoint ctx client =
     (case client of
        None \<Rightarrow> io_return (Failure (validationError ''The TCP client was moved from.''), client)
      | Some c \<Rightarrow>
          if \<not> Endpoint_isValid endpoint
          then io_return (Failure (validationError ''A host and non-zero port are required.''), client)
          else if \<not> OperationContext_isValid ctx
          then io_return (Failure (validationError ''The timeout must not be negative.''), client)
          else io_bind (io_call (sk_cancelled A (oc_cancellation ctx))) (\<lambda>cancelled.
            if cancelled then io_return (Failure cancellationError, client)
            else io_bind (tcp_close A c) (\<lambda>closed.
            io_bind (operationDeadline A ctx) (\<lambda>deadline.
            io_bind (initializeSockets A) (\<lambda>(started, native).
            if \<not> started
            then io_return (Failure (tcp_socketError A native X_Unsupported
                   ''The platform socket runtime could not be initialized.''), Some closed)
            else io_bind (io_call (sk_resolve A (c_string (ep_host endpoint)) (ep_port endpoint) 0 True))
              (\<lambda>(resolved, addresses).
                if resolved \<noteq> 0
                then io_return (Failure (TransportError_make XCat_Resolution X_HostNotFound
                       ''The endpoint host could not be resolved.'' resolved), Some closed)
                else io_bind (tcp_try_addresses A fuel deadline (oc_cancellation ctx) addresses no_address)
                  (\<lambda>found. case found of
                      Inl e \<Rightarrow> io_return (Failure e, Some closed)
                    | Inr h \<Rightarrow> io_bind (tcp_localEndpoint A h) (\<lambda>local.
                        io_return (Success (), Some \<lparr>tc_socket = Some h, tc_remote = endpoint, tc_local = local\<rparr>)))))))))"

section \<open>The peer\<close>

text \<open>At most four peeks; \<open>left\<close> of them are left.\<close>

fun tcp_peek :: "'w socket_api \<Rightarrow> TcpClient_Impl \<Rightarrow> nat \<Rightarrow> nat \<Rightarrow> ('w, TransportStatus \<times> TcpClient_Impl) io" where
  "tcp_peek A c h 0 = io_bind (tcp_close A c) (\<lambda>closed.
     io_return (Failure (TransportError_make XCat_InputOutput X_ReceiveFailed
       ''Checking the TCP peer connection was repeatedly interrupted.'' 0), closed))"
| "tcp_peek A c h (Suc left) =
     io_bind (io_call (sk_peek A h)) (\<lambda>answer. case answer of
         Inr n \<Rightarrow>
           if 0 < n then io_return (Success (), c)
           else io_bind (tcp_close A c) (\<lambda>closed. io_return (Failure peer_closed, closed))
       | Inl code \<Rightarrow>
           if wouldBlockError A code then io_return (Success (), c)
           else if interruptedError A code \<and> 0 < left then tcp_peek A c h left
           else io_bind (tcp_close A c) (\<lambda>closed.
             io_return (Failure (tcp_socketError A code X_ReceiveFailed
               ''Checking the TCP peer connection failed.''), closed)))"

definition tcp_checkPeerConnection :: "'w socket_api \<Rightarrow> TcpClient \<Rightarrow> ('w, TransportStatus \<times> TcpClient) io" where
  "tcp_checkPeerConnection A client =
     (case client of
        None \<Rightarrow> io_return (Failure not_connected, client)
      | Some c \<Rightarrow> (case tc_socket c of
            None \<Rightarrow> io_return (Failure not_connected, client)
          | Some h \<Rightarrow> io_bind (tcp_peek A c h 4) (\<lambda>(r, c'). io_return (r, Some c'))))"

section \<open>Sending\<close>

type_synonym 'a TransferResult = "('a, TransportError) PartialResult"

definition transferred :: "'a \<Rightarrow> 'a TransferResult" where
  "transferred = partial_success TransportError_none"

definition transfer_failed :: "'a \<Rightarrow> TransportError \<Rightarrow> 'a TransferResult" where
  "transfer_failed v e = \<lparr>pr_value = v, pr_error = e\<rparr>"

definition int_max :: nat where
  "int_max = 2 ^ 31 - 1"

fun tcp_send_loop ::
    "'w socket_api \<Rightarrow> nat \<Rightarrow> bytes \<Rightarrow> int \<Rightarrow> CancellationToken \<Rightarrow> nat \<Rightarrow> nat \<Rightarrow> TcpClient_Impl
       \<Rightarrow> ('w, nat TransferResult \<times> TcpClient_Impl) io" where
  "tcp_send_loop A h data deadline token 0 sent c = io_pending"
| "tcp_send_loop A h data deadline token (Suc fuel) sent c =
     (if sent < length data
      then io_bind (tcp_wait A h Wait_Write deadline token fuel) (\<lambda>wait_error.
        if \<not> te_ok wait_error then io_return (transfer_failed sent wait_error, c)
        else io_bind (io_call (sk_send A h (take (min (length data - sent) int_max) (drop sent data)))) (\<lambda>answer.
          case answer of
            Inl code \<Rightarrow>
              if tcp_pendingError A code \<or> interruptedError A code
              then tcp_send_loop A h data deadline token fuel sent c
              else
                let e = tcp_socketError A code X_SendFailed ''Sending TCP data failed.'' in
                if te_category e = XCat_Connection
                then io_bind (tcp_close A c) (\<lambda>closed. io_return (transfer_failed sent e, closed))
                else io_return (transfer_failed sent e, c)
          | Inr n \<Rightarrow>
              if n = 0
              then io_bind (tcp_close A c) (\<lambda>closed. io_return (transfer_failed sent peer_closed, closed))
              else tcp_send_loop A h data deadline token fuel (sent + n) c))
      else io_return (transferred sent, c))"

text \<open>The buffer is a pointer, \<open>None\<close> when null, and a size; a non-null pointer is to that many bytes.\<close>

definition tcp_send ::
    "'w socket_api \<Rightarrow> nat \<Rightarrow> bytes option \<Rightarrow> nat \<Rightarrow> OperationContext \<Rightarrow> TcpClient
       \<Rightarrow> ('w, nat TransferResult \<times> TcpClient) io" where
  "tcp_send A fuel data n ctx client =
     (if \<not> tcp_isConnected client then io_return (transfer_failed 0 not_connected, client)
      else if (data = None \<and> n \<noteq> 0) \<or> \<not> OperationContext_isValid ctx
      then io_return (transfer_failed 0 (validationError ''Send data and timeout must be valid.''), client)
      else if n = 0 then io_return (transferred 0, client)
      else io_bind (operationDeadline A ctx) (\<lambda>deadline.
        io_bind (tcp_send_loop A (the (tc_socket (the client))) (take n (the data)) deadline (oc_cancellation ctx) fuel 0 (the client))
          (\<lambda>(r, c). io_return (r, Some c))))"

definition tcp_send_vector ::
    "'w socket_api \<Rightarrow> nat \<Rightarrow> bytes \<Rightarrow> OperationContext \<Rightarrow> TcpClient \<Rightarrow> ('w, nat TransferResult \<times> TcpClient) io" where
  "tcp_send_vector A fuel data ctx client = tcp_send A fuel (Some data) (length data) ctx client"

section \<open>Receiving\<close>

fun tcp_receive_loop ::
    "'w socket_api \<Rightarrow> nat \<Rightarrow> nat \<Rightarrow> int \<Rightarrow> CancellationToken \<Rightarrow> nat \<Rightarrow> TcpClient_Impl
       \<Rightarrow> ('w, bytes TransferResult \<times> TcpClient_Impl) io" where
  "tcp_receive_loop A h limit deadline token 0 c = io_pending"
| "tcp_receive_loop A h limit deadline token (Suc fuel) c =
     io_bind (tcp_wait A h Wait_Read deadline token fuel) (\<lambda>wait_error.
     if \<not> te_ok wait_error then io_return (transfer_failed [] wait_error, c)
     else io_bind (io_call (sk_recv A h limit)) (\<lambda>answer. case answer of
         Inl code \<Rightarrow>
           if tcp_pendingError A code \<or> interruptedError A code
           then tcp_receive_loop A h limit deadline token fuel c
           else
             let e = tcp_socketError A code X_ReceiveFailed ''Receiving TCP data failed.'' in
             if te_category e = XCat_Connection
             then io_bind (tcp_close A c) (\<lambda>closed. io_return (transfer_failed [] e, closed))
             else io_return (transfer_failed [] e, c)
       | Inr bs \<Rightarrow>
           if bs = [] then io_bind (tcp_close A c) (\<lambda>closed. io_return (transfer_failed [] peer_closed, closed))
           else io_return (transferred bs, c)))"

definition tcp_receive ::
    "'w socket_api \<Rightarrow> nat \<Rightarrow> bool \<Rightarrow> nat \<Rightarrow> OperationContext \<Rightarrow> TcpClient
       \<Rightarrow> ('w, bytes TransferResult \<times> TcpClient) io" where
  "tcp_receive A fuel alloc_ok limit ctx client =
     (if \<not> tcp_isConnected client then io_return (transfer_failed [] not_connected, client)
      else if limit = 0 \<or> int_max < limit \<or> \<not> OperationContext_isValid ctx
      then io_return (transfer_failed [] (validationError ''Receive size and timeout must be valid.''), client)
      else if \<not> alloc_ok
      then io_return (transfer_failed [] (TransportError_make XCat_InputOutput X_ResourceExhausted
             ''Allocating the receive buffer failed.'' 0), client)
      else io_bind (operationDeadline A ctx) (\<lambda>deadline.
        io_bind (tcp_receive_loop A (the (tc_socket (the client))) limit deadline (oc_cancellation ctx) fuel (the client))
          (\<lambda>(r, c). io_return (r, Some c))))"

end
