(* ===== verification/UdpClient.thy ===== *)
theory UdpClient
  imports Sockets
begin

text \<open>
  The UDP client (\<open>api/xpt/udp/UdpClient.h\<close>, \<open>platform/xpt/network/UdpClient.cpp\<close>): its state and
  every operation.  The address family \<open>AF_UNSPEC\<close> is 0.
\<close>

definition MAXIMUM_DATAGRAM_SIZE :: nat where
  "MAXIMUM_DATAGRAM_SIZE = 65507"

record UdpDatagram =
  dg_source :: Endpoint
  dg_payload :: bytes

definition UdpDatagram_none :: UdpDatagram where
  "UdpDatagram_none = \<lparr>dg_source = Endpoint_none, dg_payload = []\<rparr>"

record UdpClient_Impl =
  uc_socket :: "nat option"
  uc_family :: int
  uc_local :: Endpoint

definition UdpClient_new :: UdpClient_Impl where
  "UdpClient_new = \<lparr>uc_socket = None, uc_family = 0, uc_local = Endpoint_none\<rparr>"

type_synonym UdpClient = "UdpClient_Impl option"

definition udp_close_impl :: "'w socket_api \<Rightarrow> UdpClient_Impl \<Rightarrow> ('w, UdpClient_Impl) io" where
  "udp_close_impl A c = io_bind (io_do (closeSocket A (uc_socket c))) (\<lambda>u. io_return UdpClient_new)"

definition udp_close :: "'w socket_api \<Rightarrow> UdpClient \<Rightarrow> ('w, UdpClient) io" where
  "udp_close A client =
     (case client of None \<Rightarrow> io_return None
      | Some c \<Rightarrow> io_bind (udp_close_impl A c) (\<lambda>c'. io_return (Some c')))"

definition udp_isOpen :: "UdpClient \<Rightarrow> bool" where
  "udp_isOpen client = (case client of None \<Rightarrow> False | Some c \<Rightarrow> uc_socket c \<noteq> None)"

definition udp_getLocalEndpoint :: "UdpClient \<Rightarrow> Endpoint" where
  "udp_getLocalEndpoint client = (case client of None \<Rightarrow> Endpoint_none | Some c \<Rightarrow> uc_local c)"

definition messageTooLargeValidationError :: "string \<Rightarrow> TransportError" where
  "messageTooLargeValidationError m = TransportError_make XCat_Validation X_MessageTooLarge m 0"

definition resolutionError :: "int \<Rightarrow> string \<Rightarrow> TransportError" where
  "resolutionError native m = TransportError_make XCat_Resolution X_HostNotFound m native"

definition udp_service_endpoint :: "string \<Rightarrow> string \<Rightarrow> Endpoint" where
  "udp_service_endpoint host service =
     (let port = fst (strtoul service) in
      if port = 0 \<or> 65535 < port then Endpoint_none
      else \<lparr>ep_host = host, ep_port = word_of_nat port\<rparr>)"

definition endpointFromAddress :: "'w socket_api \<Rightarrow> bytes \<Rightarrow> ('w, Endpoint) io" where
  "endpointFromAddress A a =
     io_bind (io_call (sk_getnameinfo A a)) (\<lambda>names. case names of
         None \<Rightarrow> io_return Endpoint_none
       | Some (host, service) \<Rightarrow> io_return (udp_service_endpoint host service))"

definition udp_localEndpoint :: "'w socket_api \<Rightarrow> nat \<Rightarrow> ('w, Endpoint) io" where
  "udp_localEndpoint A h =
     io_bind (io_call (sk_getsockname A h)) (\<lambda>address. case address of
         None \<Rightarrow> io_return Endpoint_none | Some a \<Rightarrow> endpointFromAddress A a)"

definition udp_wait ::
    "'w socket_api \<Rightarrow> nat \<Rightarrow> eSocketWait \<Rightarrow> int \<Rightarrow> CancellationToken \<Rightarrow> nat \<Rightarrow> ('w, TransportError) io" where
  "udp_wait A = waitForSocket A (\<lambda>code. udp_socketError A code X_Unknown ''Waiting for the UDP socket failed.'')"

section \<open>Binding\<close>

definition no_bind_address :: TransportError where
  "no_bind_address = TransportError_make XCat_Connection X_BindFailed ''No resolved local UDP address could be bound.'' 0"

definition bound_undecodable :: TransportError where
  "bound_undecodable = TransportError_make XCat_InputOutput X_BindFailed
     ''The bound UDP local endpoint could not be decoded.'' 0"

fun udp_try_bind ::
    "'w socket_api \<Rightarrow> int \<Rightarrow> CancellationToken \<Rightarrow> sock_address list \<Rightarrow> TransportError
       \<Rightarrow> ('w, TransportError + nat \<times> int \<times> Endpoint) io" where
  "udp_try_bind A deadline token [] last_error = io_return (Inl last_error)"
| "udp_try_bind A deadline token (address # rest) last_error =
     io_bind (io_call (sk_cancelled A token)) (\<lambda>cancelled.
     if cancelled then io_return (Inl cancellationError)
     else io_bind (io_call (sk_now A)) (\<lambda>now.
     if deadline \<le> now then io_return (Inl timeoutError)
     else io_bind (io_call (sk_socket A address False)) (\<lambda>candidate. case candidate of
         Inl code \<Rightarrow> udp_try_bind A deadline token rest
           (udp_socketError A code X_ResourceExhausted ''Creating a UDP socket failed.'')
       | Inr h \<Rightarrow> io_bind (io_call (sk_nonblock A h)) (\<lambda>mode. case mode of
           Some code \<Rightarrow> io_bind (io_do (closeSocket A (Some h))) (\<lambda>u.
             udp_try_bind A deadline token rest
               (udp_socketError A code X_Unsupported ''Enabling non-blocking UDP I/O failed.''))
         | None \<Rightarrow> io_bind (io_call (sk_bind A h address)) (\<lambda>bound. case bound of
             Some code \<Rightarrow> io_bind (io_do (closeSocket A (Some h))) (\<lambda>u.
               udp_try_bind A deadline token rest
                 (udp_socketError A code X_BindFailed ''Binding the UDP socket failed.''))
           | None \<Rightarrow> io_bind (udp_localEndpoint A h) (\<lambda>local.
               if \<not> Endpoint_isValid local
               then io_bind (io_do (closeSocket A (Some h))) (\<lambda>u.
                 udp_try_bind A deadline token rest bound_undecodable)
               else io_return (Inr (h, sa_family address, local))))))))"

definition udp_bind ::
    "'w socket_api \<Rightarrow> Endpoint \<Rightarrow> OperationContext \<Rightarrow> UdpClient \<Rightarrow> ('w, TransportStatus \<times> UdpClient) io" where
  "udp_bind A endpoint ctx client =
     (case client of
        None \<Rightarrow> io_return (Failure (validationError ''The UDP client was moved from.''), client)
      | Some c \<Rightarrow>
          if ep_host endpoint = []
          then io_return (Failure (validationError ''A local host is required for UDP bind.''), client)
          else if \<not> OperationContext_isValid ctx
          then io_return (Failure (validationError ''The timeout must not be negative.''), client)
          else io_bind (io_call (sk_cancelled A (oc_cancellation ctx))) (\<lambda>cancelled.
            if cancelled then io_return (Failure cancellationError, client)
            else io_bind (operationDeadline A ctx) (\<lambda>deadline.
            io_bind (initializeSockets A) (\<lambda>(started, native).
            if \<not> started
            then io_return (Failure (udp_socketError A native X_Unsupported
                   ''The platform socket runtime could not be initialized.''), client)
            else io_bind (io_call (sk_resolve A (c_string (ep_host endpoint)) (ep_port endpoint) 0 False))
              (\<lambda>(resolved, addresses).
                if resolved \<noteq> 0
                then io_return (Failure (resolutionError resolved
                       ''The local UDP bind address could not be resolved.''), client)
                else io_bind (udp_try_bind A deadline (oc_cancellation ctx) addresses no_bind_address)
                  (\<lambda>found. case found of
                      Inl e \<Rightarrow> io_return (Failure e, client)
                    | Inr (h, family, local) \<Rightarrow> io_bind (udp_close_impl A c) (\<lambda>closed.
                        io_return (Success (), Some \<lparr>uc_socket = Some h, uc_family = family, uc_local = local\<rparr>))))))))"

section \<open>Sending\<close>

type_synonym 'a udp_result = "('a, TransportError) PartialResult"

definition udp_done :: "'a \<Rightarrow> 'a udp_result" where
  "udp_done = partial_success TransportError_none"

definition udp_failed :: "'a \<Rightarrow> TransportError \<Rightarrow> 'a udp_result" where
  "udp_failed v e = \<lparr>pr_value = v, pr_error = e\<rparr>"

definition not_atomic :: TransportError where
  "not_atomic = TransportError_make XCat_Protocol X_SendFailed ''The UDP datagram was not sent atomically.'' 0"

definition no_destination :: TransportError where
  "no_destination = TransportError_make XCat_Connection X_AddressUnavailable ''No resolved UDP destination could be used.'' 0"

text \<open>The inner loop for one address: \<open>Inl\<close> the error and whether \<open>sendTo\<close> stops with it.\<close>

fun udp_send_one ::
    "'w socket_api \<Rightarrow> nat \<Rightarrow> bytes \<Rightarrow> sock_address \<Rightarrow> int \<Rightarrow> CancellationToken \<Rightarrow> nat
       \<Rightarrow> ('w, TransportError \<times> bool + unit) io" where
  "udp_send_one A h payload address deadline token 0 = io_pending"
| "udp_send_one A h payload address deadline token (Suc fuel) =
     io_bind (udp_wait A h Wait_Write deadline token fuel) (\<lambda>wait_error.
     if \<not> te_ok wait_error then io_return (Inl (wait_error, True))
     else io_bind (io_call (sk_sendto A h payload address)) (\<lambda>answer. case answer of
         Inl code \<Rightarrow>
           if udp_pendingError A code \<or> interruptedError A code
           then udp_send_one A h payload address deadline token fuel
           else io_return (Inl (udp_socketError A code X_SendFailed ''Sending the UDP datagram failed.'', False))
       | Inr n \<Rightarrow>
           if n \<noteq> length payload then io_return (Inl (not_atomic, False)) else io_return (Inr ())))"

text \<open>The loop over the addresses; a client without a socket opens one for each.\<close>

fun udp_send_addresses ::
    "'w socket_api \<Rightarrow> nat \<Rightarrow> bytes \<Rightarrow> int \<Rightarrow> CancellationToken \<Rightarrow> UdpClient_Impl \<Rightarrow> sock_address list
       \<Rightarrow> TransportError \<Rightarrow> ('w, nat udp_result \<times> UdpClient_Impl) io" where
  "udp_send_addresses A fuel payload deadline token c [] last_error = io_return (udp_failed 0 last_error, c)"
| "udp_send_addresses A fuel payload deadline token c (address # rest) last_error =
     (case uc_socket c of
        Some h \<Rightarrow>
          io_bind (udp_send_one A h payload address deadline token fuel) (\<lambda>one. case one of
              Inr u \<Rightarrow> io_return (udp_done (length payload), c)
            | Inl (e, stops) \<Rightarrow>
                if stops then io_return (udp_failed 0 e, c)
                else udp_send_addresses A fuel payload deadline token c rest e)
      | None \<Rightarrow>
          io_bind (io_call (sk_socket A address False)) (\<lambda>candidate. case candidate of
              Inl code \<Rightarrow> udp_send_addresses A fuel payload deadline token c rest
                (udp_socketError A code X_ResourceExhausted ''Creating a UDP socket failed.'')
            | Inr h \<Rightarrow> io_bind (io_call (sk_nonblock A h)) (\<lambda>mode. case mode of
                Some code \<Rightarrow> io_bind (io_do (closeSocket A (Some h))) (\<lambda>u.
                  udp_send_addresses A fuel payload deadline token c rest
                    (udp_socketError A code X_Unsupported ''Enabling non-blocking UDP I/O failed.''))
              | None \<Rightarrow> io_bind (udp_send_one A h payload address deadline token fuel) (\<lambda>one. case one of
                  Inr u \<Rightarrow> io_bind (udp_localEndpoint A h) (\<lambda>local.
                    io_return (udp_done (length payload),
                      \<lparr>uc_socket = Some h, uc_family = sa_family address, uc_local = local\<rparr>))
                | Inl (e, stops) \<Rightarrow> io_bind (io_do (closeSocket A (Some h))) (\<lambda>u.
                    if stops then io_return (udp_failed 0 e, c)
                    else udp_send_addresses A fuel payload deadline token c rest e)))))"

definition udp_sendTo ::
    "'w socket_api \<Rightarrow> nat \<Rightarrow> Endpoint \<Rightarrow> bytes option \<Rightarrow> nat \<Rightarrow> OperationContext \<Rightarrow> UdpClient
       \<Rightarrow> ('w, nat udp_result \<times> UdpClient) io" where
  "udp_sendTo A fuel endpoint data n ctx client =
     (case client of
        None \<Rightarrow> io_return (udp_failed 0 (validationError ''The UDP client was moved from.''), client)
      | Some c \<Rightarrow>
          if MAXIMUM_DATAGRAM_SIZE < n
          then io_return (udp_failed 0 (messageTooLargeValidationError
                 ''The UDP datagram exceeds the portable payload boundary.''), client)
          else if \<not> Endpoint_isValid endpoint \<or> (data = None \<and> n \<noteq> 0) \<or> \<not> OperationContext_isValid ctx
          then io_return (udp_failed 0 (validationError
                 ''UDP destination, payload size, and timeout must be valid.''), client)
          else io_bind (io_call (sk_cancelled A (oc_cancellation ctx))) (\<lambda>cancelled.
            if cancelled then io_return (udp_failed 0 cancellationError, client)
            else io_bind (operationDeadline A ctx) (\<lambda>deadline.
            io_bind (initializeSockets A) (\<lambda>(started, native).
            if \<not> started
            then io_return (udp_failed 0 (udp_socketError A native X_Unsupported
                   ''The platform socket runtime could not be initialized.''), client)
            else io_bind (io_call (sk_resolve A (c_string (ep_host endpoint)) (ep_port endpoint)
                   (if uc_socket c \<noteq> None then uc_family c else 0) False))
              (\<lambda>(resolved, addresses).
                if resolved \<noteq> 0
                then io_return (udp_failed 0 (resolutionError resolved
                       ''The remote UDP endpoint could not be resolved.''), client)
                else io_bind (udp_send_addresses A fuel (case data of None \<Rightarrow> [] | Some d \<Rightarrow> take n d) deadline
                    (oc_cancellation ctx) c addresses no_destination)
                  (\<lambda>(r, c'). io_return (r, Some c')))))))"

definition udp_sendTo_vector ::
    "'w socket_api \<Rightarrow> nat \<Rightarrow> Endpoint \<Rightarrow> bytes \<Rightarrow> OperationContext \<Rightarrow> UdpClient \<Rightarrow> ('w, nat udp_result \<times> UdpClient) io" where
  "udp_sendTo_vector A fuel endpoint data ctx client =
     udp_sendTo A fuel endpoint (Some data) (length data) ctx client"

section \<open>Receiving\<close>

definition datagram_truncated :: "int \<Rightarrow> TransportError" where
  "datagram_truncated native = TransportError_make XCat_Protocol X_DatagramTruncated
     ''The received UDP datagram exceeded the supplied buffer.'' native"

text \<open>What a successful receive of \<open>count\<close> bytes becomes.  Windows reports truncation as an error, so
  there the flag is not looked at and the size is within the buffer.\<close>

definition udp_deliver ::
    "'w socket_api \<Rightarrow> nat \<Rightarrow> nat \<Rightarrow> bytes \<Rightarrow> bool \<Rightarrow> bytes \<Rightarrow> ('w, UdpDatagram udp_result) io" where
  "udp_deliver A limit count stored flag address =
     (let truncated = (\<not> sk_windows A \<and> (flag \<or> limit < count));
          payload = take (if sk_windows A then count else min count limit) stored
      in io_bind (endpointFromAddress A address) (\<lambda>source.
           if \<not> Endpoint_isValid source
           then io_return (udp_failed UdpDatagram_none (TransportError_make XCat_InputOutput X_ReceiveFailed
                  ''The UDP source endpoint could not be decoded.'' 0))
           else if truncated
           then io_return (udp_failed \<lparr>dg_source = source, dg_payload = payload\<rparr> (datagram_truncated 0))
           else io_return (udp_done \<lparr>dg_source = source, dg_payload = payload\<rparr>)))"

fun udp_receive_loop ::
    "'w socket_api \<Rightarrow> nat \<Rightarrow> nat \<Rightarrow> int \<Rightarrow> CancellationToken \<Rightarrow> nat \<Rightarrow> ('w, UdpDatagram udp_result) io" where
  "udp_receive_loop A h limit deadline token 0 = io_pending"
| "udp_receive_loop A h limit deadline token (Suc fuel) =
     io_bind (udp_wait A h Wait_Read deadline token fuel) (\<lambda>wait_error.
     if \<not> te_ok wait_error then io_return (udp_failed UdpDatagram_none wait_error)
     else io_bind (io_call (sk_recvmsg A h limit)) (\<lambda>answer. case answer of
         Inl (code, stored, address) \<Rightarrow>
           if udp_pendingError A code \<or> interruptedError A code
           then udp_receive_loop A h limit deadline token fuel
           else if sk_windows A \<and> messageTooLargeError A code
           then io_bind (endpointFromAddress A address) (\<lambda>source.
             io_return (udp_failed \<lparr>dg_source = source, dg_payload = stored\<rparr> (datagram_truncated code)))
           else io_return (udp_failed UdpDatagram_none
                  (udp_socketError A code X_ReceiveFailed ''Receiving the UDP datagram failed.''))
       | Inr (count, stored, flag, address) \<Rightarrow> udp_deliver A limit count stored flag address))"

definition udp_receiveFrom ::
    "'w socket_api \<Rightarrow> nat \<Rightarrow> bool \<Rightarrow> nat \<Rightarrow> OperationContext \<Rightarrow> UdpClient \<Rightarrow> ('w, UdpDatagram udp_result) io" where
  "udp_receiveFrom A fuel alloc_ok limit ctx client =
     (if \<not> udp_isOpen client
      then io_return (udp_failed UdpDatagram_none
             (TransportError_make XCat_Connection X_NotConnected ''The UDP socket is not open.'' 0))
      else if limit = 0 \<or> MAXIMUM_DATAGRAM_SIZE < limit \<or> \<not> OperationContext_isValid ctx
      then io_return (udp_failed UdpDatagram_none (validationError ''UDP receive size and timeout must be valid.''))
      else if \<not> alloc_ok
      then io_return (udp_failed UdpDatagram_none (TransportError_make XCat_InputOutput X_ResourceExhausted
             ''Allocating the UDP receive buffer failed.'' 0))
      else io_bind (operationDeadline A ctx) (\<lambda>deadline.
        udp_receive_loop A (the (uc_socket (the client))) limit deadline (oc_cancellation ctx) fuel))"

end
