(* ===== verification/SocketLedger.thy ===== *)
theory SocketLedger
  imports TcpClient UdpClient "HOL-Library.Multiset"
begin

text \<open>
  Weakest preconditions for the calls of the socket clients, and a ledger kept beside the operating
  system: which handles are open, whether a handle was used that is not open, the bytes the stream
  calls accepted and delivered, and the datagrams that left and arrived whole.
\<close>

section \<open>Weakest preconditions\<close>

text \<open>\<open>io_wp m Q R w\<close>: when \<open>m\<close> returns from \<open>w\<close> then with a value and a world in \<open>Q\<close>; when it is
  pending or undefined the world it has reached is in \<open>R\<close>.\<close>

definition io_wp :: "('w, 'a) io \<Rightarrow> ('a \<Rightarrow> 'w \<Rightarrow> bool) \<Rightarrow> ('w \<Rightarrow> bool) \<Rightarrow> 'w \<Rightarrow> bool" where
  "io_wp m Q R w \<longleftrightarrow> (case m w of (Done v, w') \<Rightarrow> Q v w' | (_, w') \<Rightarrow> R w')"

lemma io_wp_return [simp]: "io_wp (io_return v) Q R w \<longleftrightarrow> Q v w"
  by (simp add: io_wp_def io_return_def)

lemma io_wp_pending [simp]: "io_wp io_pending Q R w \<longleftrightarrow> R w"
  by (simp add: io_wp_def io_pending_def)

lemma io_wp_undefined [simp]: "io_wp io_undefined Q R w \<longleftrightarrow> R w"
  by (simp add: io_wp_def io_undefined_def)

lemma io_wp_bind [simp]: "io_wp (io_bind m f) Q R w \<longleftrightarrow> io_wp m (\<lambda>v. io_wp (f v) Q R) R w"
  by (auto simp: io_wp_def io_bind_def split: prod.splits outcome.splits)

lemma io_wp_do [simp]: "io_wp (io_do f) Q R w \<longleftrightarrow> Q () (f w)"
  by (simp add: io_wp_def io_do_def)

lemma io_wp_call: "io_wp (io_call f) Q R w \<longleftrightarrow> (case f w of (v, w') \<Rightarrow> Q v w')"
  by (simp add: io_wp_def io_call_def split: prod.splits)

lemma io_wp_option [simp]: "io_wp (io_option x) Q R w \<longleftrightarrow> (case x of None \<Rightarrow> R w | Some v \<Rightarrow> Q v w)"
  by (simp add: io_wp_def io_option_def of_option_def split: option.splits)

lemma io_wp_mono:
  assumes "io_wp m Q R w" and "\<And>v w'. Q v w' \<Longrightarrow> Q' v w'" and "\<And>w'. R w' \<Longrightarrow> R' w'"
  shows "io_wp m Q' R' w"
  using assms by (auto simp: io_wp_def split: prod.splits outcome.splits)

lemma io_wp_if [simp]:
  "io_wp (if b then m else m') Q R w \<longleftrightarrow> (if b then io_wp m Q R w else io_wp m' Q R w)"
  by simp

lemma io_wp_done: "io_wp m Q R w \<Longrightarrow> m w = (Done v, w') \<Longrightarrow> Q v w'"
  by (simp add: io_wp_def)

text \<open>Where an operation may be undefined: \<open>io_wpu m Q U w\<close> says that \<open>m\<close> returns with \<open>Q\<close>, or is undefined
  in a world of \<open>U\<close>.\<close>

definition io_wpu :: "('w, 'a) io \<Rightarrow> ('a \<Rightarrow> 'w \<Rightarrow> bool) \<Rightarrow> ('w \<Rightarrow> bool) \<Rightarrow> 'w \<Rightarrow> bool" where
  "io_wpu m Q U w \<longleftrightarrow> (case m w of (Done v, w') \<Rightarrow> Q v w' | (Undefined, w') \<Rightarrow> U w' | (Pending, w') \<Rightarrow> False)"

lemma io_wpu_simps [simp]:
  "io_wpu (io_return v) Q U w \<longleftrightarrow> Q v w" "io_wpu io_undefined Q U w \<longleftrightarrow> U w"
  "io_wpu (io_bind m f) Q U w \<longleftrightarrow> io_wpu m (\<lambda>v. io_wpu (f v) Q U) U w"
  by (auto simp: io_wpu_def io_return_def io_undefined_def io_bind_def split: prod.splits outcome.splits)

lemma io_wpu_call: "io_wpu (io_call f) Q U w \<longleftrightarrow> (case f w of (v, w') \<Rightarrow> Q v w')"
  by (simp add: io_wpu_def io_call_def split: prod.splits)

lemma io_wpu_option [simp]: "io_wpu (io_option x) Q U w \<longleftrightarrow> (case x of None \<Rightarrow> U w | Some v \<Rightarrow> Q v w)"
  by (simp add: io_wpu_def io_option_def of_option_def split: option.splits)

lemma io_wpuI: "io_wp m Q (\<lambda>_. False) w \<Longrightarrow> io_wpu m Q U w"
  by (auto simp: io_wpu_def io_wp_def split: prod.splits outcome.splits)

lemma io_wpu_mono:
  "io_wpu m Q U w \<Longrightarrow> (\<And>v w'. Q v w' \<Longrightarrow> Q' v w') \<Longrightarrow> (\<And>w'. U w' \<Longrightarrow> U' w') \<Longrightarrow> io_wpu m Q' U' w"
  by (auto simp: io_wpu_def split: prod.splits outcome.splits)

section \<open>The ledger\<close>

record ledger =
  lg_open :: "nat multiset"
  lg_misused :: bool
  lg_sent :: bytes
  lg_received :: bytes
  lg_departed :: "(sock_address \<times> bytes) list"
  lg_arrived :: "(nat \<times> bytes) list"

definition ledger_empty :: ledger where
  "ledger_empty = \<lparr>lg_open = {#}, lg_misused = False, lg_sent = [], lg_received = [], lg_departed = [], lg_arrived = []\<rparr>"

definition lg_use :: "nat \<Rightarrow> ledger \<Rightarrow> ledger" where
  "lg_use h l = (if h \<in># lg_open l then l else l\<lparr>lg_misused := True\<rparr>)"

definition beside :: "('w \<Rightarrow> 'a \<times> 'w) \<Rightarrow> ('a \<Rightarrow> 'l \<Rightarrow> 'l) \<Rightarrow> 'w \<times> 'l \<Rightarrow> 'a \<times> 'w \<times> 'l" where
  "beside f g s = (case f (fst s) of (v, w) \<Rightarrow> (v, w, g v (snd s)))"

text \<open>The operating system \<open>A\<close> with the ledger beside it.\<close>

definition ledgered :: "'w socket_api \<Rightarrow> ('w \<times> ledger) socket_api" where
  "ledgered A =
     \<lparr>sk_windows = sk_windows A,
      sk_codes = sk_codes A,
      sk_now = beside (sk_now A) (\<lambda>v l. l),
      sk_cancelled = (\<lambda>t. beside (sk_cancelled A t) (\<lambda>v l. l)),
      sk_startup = beside (sk_startup A) (\<lambda>v l. l),
      sk_resolve = (\<lambda>n p f b. beside (sk_resolve A n p f b) (\<lambda>v l. l)),
      sk_socket = (\<lambda>a b. beside (sk_socket A a b)
        (\<lambda>v l. case v of Inl _ \<Rightarrow> l | Inr h \<Rightarrow> l\<lparr>lg_open := add_mset h (lg_open l)\<rparr>)),
      sk_nonblock = (\<lambda>h. beside (sk_nonblock A h) (\<lambda>v. lg_use h)),
      sk_connect = (\<lambda>h a. beside (sk_connect A h a) (\<lambda>v. lg_use h)),
      sk_bind = (\<lambda>h a. beside (sk_bind A h a) (\<lambda>v. lg_use h)),
      sk_select = (\<lambda>h k t. beside (sk_select A h k t) (\<lambda>v. lg_use h)),
      sk_so_error = (\<lambda>h. beside (sk_so_error A h) (\<lambda>v. lg_use h)),
      sk_getsockname = (\<lambda>h. beside (sk_getsockname A h) (\<lambda>v. lg_use h)),
      sk_getnameinfo = (\<lambda>a. beside (sk_getnameinfo A a) (\<lambda>v l. l)),
      sk_peek = (\<lambda>h. beside (sk_peek A h) (\<lambda>v. lg_use h)),
      sk_send = (\<lambda>h bs. beside (sk_send A h bs)
        (\<lambda>v l. let l' = lg_use h l in case v of Inl _ \<Rightarrow> l' | Inr n \<Rightarrow> l'\<lparr>lg_sent := lg_sent l' @ take n bs\<rparr>)),
      sk_recv = (\<lambda>h n. beside (sk_recv A h n)
        (\<lambda>v l. let l' = lg_use h l in case v of Inl _ \<Rightarrow> l' | Inr bs \<Rightarrow> l'\<lparr>lg_received := lg_received l' @ bs\<rparr>)),
      sk_sendto = (\<lambda>h bs a. beside (sk_sendto A h bs a)
        (\<lambda>v l. let l' = lg_use h l in case v of Inl _ \<Rightarrow> l'
           | Inr n \<Rightarrow> if n = length bs then l'\<lparr>lg_departed := lg_departed l' @ [(a, bs)]\<rparr> else l')),
      sk_recvmsg = (\<lambda>h n. beside (sk_recvmsg A h n)
        (\<lambda>v l. let l' = lg_use h l in case v of Inl _ \<Rightarrow> l'
           | Inr (m, bs, _) \<Rightarrow> l'\<lparr>lg_arrived := lg_arrived l' @ [(m, bs)]\<rparr>)),
      sk_shutdown = (\<lambda>h s. (sk_shutdown A h (fst s), lg_use h (snd s))),
      sk_close = (\<lambda>h s. (sk_close A h (fst s), (lg_use h (snd s))\<lparr>lg_open := lg_open (snd s) - {#h#}\<rparr>))\<rparr>"

lemma ledgered_platform [simp]:
  "sk_windows (ledgered A) = sk_windows A" "sk_codes (ledgered A) = sk_codes A"
  by (simp_all add: ledgered_def)

lemma ledgered_classification [simp]:
  "interruptedError (ledgered A) = interruptedError A"
  "tcp_pendingError (ledgered A) = tcp_pendingError A"
  "udp_pendingError (ledgered A) = udp_pendingError A"
  "wouldBlockError (ledgered A) = wouldBlockError A"
  "messageTooLargeError (ledgered A) = messageTooLargeError A"
  "tcp_socketError (ledgered A) = tcp_socketError A"
  "udp_socketError (ledgered A) = udp_socketError A"
  by (auto simp: fun_eq_iff interruptedError_def tcp_pendingError_def udp_pendingError_def wouldBlockError_def
      messageTooLargeError_def tcp_socketError_def udp_socketError_def cong: if_cong)

lemma lg_use_open [simp]: "h \<in># lg_open l \<Longrightarrow> lg_use h l = l"
  by (simp add: lg_use_def)

subsection \<open>What a call does to the ledger\<close>

text \<open>A call of the ledgered system, whatever the system answers.\<close>

lemma ledgered_quiet [intro!]:
  "(\<And>v w'. Q1 v (w', l)) \<Longrightarrow> io_wp (io_call (sk_now (ledgered A))) Q1 R1 (w, l)"
  "(\<And>v w'. Q2 v (w', l)) \<Longrightarrow> io_wp (io_call (sk_cancelled (ledgered A) t)) Q2 R2 (w, l)"
  "(\<And>v w'. Q3 v (w', l)) \<Longrightarrow> io_wp (io_call (sk_startup (ledgered A))) Q3 R3 (w, l)"
  "(\<And>v w'. Q4 v (w', l)) \<Longrightarrow> io_wp (io_call (sk_resolve (ledgered A) n p f b)) Q4 R4 (w, l)"
  "(\<And>v w'. Q5 v (w', l)) \<Longrightarrow> io_wp (io_call (sk_getnameinfo (ledgered A) a)) Q5 R5 (w, l)"
  by (simp_all add: io_wp_call ledgered_def beside_def split: prod.splits)

lemma ledgered_use [intro!]:
  "h \<in># lg_open l \<Longrightarrow> (\<And>v w'. Q1 v (w', l)) \<Longrightarrow> io_wp (io_call (sk_nonblock (ledgered A) h)) Q1 R1 (w, l)"
  "h \<in># lg_open l \<Longrightarrow> (\<And>v w'. Q2 v (w', l)) \<Longrightarrow> io_wp (io_call (sk_connect (ledgered A) h a)) Q2 R2 (w, l)"
  "h \<in># lg_open l \<Longrightarrow> (\<And>v w'. Q3 v (w', l)) \<Longrightarrow> io_wp (io_call (sk_bind (ledgered A) h a)) Q3 R3 (w, l)"
  "h \<in># lg_open l \<Longrightarrow> (\<And>v w'. Q4 v (w', l)) \<Longrightarrow> io_wp (io_call (sk_select (ledgered A) h k s)) Q4 R4 (w, l)"
  "h \<in># lg_open l \<Longrightarrow> (\<And>v w'. Q5 v (w', l)) \<Longrightarrow> io_wp (io_call (sk_so_error (ledgered A) h)) Q5 R5 (w, l)"
  "h \<in># lg_open l \<Longrightarrow> (\<And>v w'. Q6 v (w', l)) \<Longrightarrow> io_wp (io_call (sk_getsockname (ledgered A) h)) Q6 R6 (w, l)"
  "h \<in># lg_open l \<Longrightarrow> (\<And>v w'. Q7 v (w', l)) \<Longrightarrow> io_wp (io_call (sk_peek (ledgered A) h)) Q7 R7 (w, l)"
  by (simp_all add: io_wp_call ledgered_def beside_def split: prod.splits)

lemma ledgered_socket [intro!]:
  "(\<And>e w'. Q (Inl e) (w', l)) \<Longrightarrow> (\<And>h w'. Q (Inr h) (w', l\<lparr>lg_open := add_mset h (lg_open l)\<rparr>))
     \<Longrightarrow> io_wp (io_call (sk_socket (ledgered A) a b)) Q R (w, l)"
  by (simp add: io_wp_call ledgered_def beside_def split: prod.splits sum.splits)

definition sends_within :: "'w socket_api \<Rightarrow> bool" where
  "sends_within A \<longleftrightarrow> (\<forall>h bs w n w'. sk_send A h bs w = (Inr n, w') \<longrightarrow> n \<le> length bs)"

lemma sends_withinD: "sends_within A \<Longrightarrow> sk_send A h bs w = (Inr n, w') \<Longrightarrow> n \<le> length bs"
  unfolding sends_within_def by blast

lemma ledgered_send:
  assumes "sends_within A" and "h \<in># lg_open l" and "\<And>e w'. Q (Inl e) (w', l)"
    and "\<And>n w'. n \<le> length bs \<Longrightarrow> Q (Inr n) (w', l\<lparr>lg_sent := lg_sent l @ take n bs\<rparr>)"
  shows "io_wp (io_call (sk_send (ledgered A) h bs)) Q R (w, l)"
  by (auto simp: io_wp_call ledgered_def beside_def assms(2) intro!: assms(3,4)
      dest: sends_withinD [OF assms(1)] split: prod.splits sum.splits)

definition receives_within :: "'w socket_api \<Rightarrow> bool" where
  "receives_within A \<longleftrightarrow> (\<forall>h n w bs w'. sk_recv A h n w = (Inr bs, w') \<longrightarrow> length bs \<le> n)"

lemma receives_withinD: "receives_within A \<Longrightarrow> sk_recv A h n w = (Inr bs, w') \<Longrightarrow> length bs \<le> n"
  unfolding receives_within_def by blast

lemma ledgered_recv:
  assumes "receives_within A" and "h \<in># lg_open l" and "\<And>e w'. Q (Inl e) (w', l)"
    and "\<And>bs w'. length bs \<le> n \<Longrightarrow> Q (Inr bs) (w', l\<lparr>lg_received := lg_received l @ bs\<rparr>)"
  shows "io_wp (io_call (sk_recv (ledgered A) h n)) Q R (w, l)"
  by (auto simp: io_wp_call ledgered_def beside_def assms(2) intro!: assms(3,4)
      dest: receives_withinD [OF assms(1)] split: prod.splits sum.splits)

lemma ledgered_sendto [intro!]:
  assumes "h \<in># lg_open l" and "\<And>e w'. Q (Inl e) (w', l)"
    and "\<And>w'. Q (Inr (length bs)) (w', l\<lparr>lg_departed := lg_departed l @ [(a, bs)]\<rparr>)"
    and "\<And>n w'. n \<noteq> length bs \<Longrightarrow> Q (Inr n) (w', l)"
  shows "io_wp (io_call (sk_sendto (ledgered A) h bs a)) Q R (w, l)"
  using assms by (auto simp: io_wp_call ledgered_def beside_def split: prod.splits sum.splits)

text \<open>A datagram of \<open>m\<close> bytes is stored as far as the buffer goes; Windows does not report one that
  is longer than the buffer as received.\<close>

definition stores_within :: "'w socket_api \<Rightarrow> bool" where
  "stores_within A \<longleftrightarrow> (\<forall>h n w m bs flag a w'. sk_recvmsg A h n w = (Inr (m, bs, flag, a), w') \<longrightarrow>
     length bs = min m n \<and> (sk_windows A \<longrightarrow> m \<le> n))"

lemma stores_withinD: "stores_within A \<Longrightarrow> sk_recvmsg A h n w = (Inr (m, bs, flag, a), w') \<Longrightarrow>
     length bs = min m n \<and> (sk_windows A \<longrightarrow> m \<le> n)"
  unfolding stores_within_def by blast

lemma ledgered_recvmsg:
  assumes "stores_within A" and "h \<in># lg_open l" and "\<And>e w'. Q (Inl e) (w', l)"
    and "\<And>m bs flag a w'. length bs = min m n \<Longrightarrow> sk_windows A \<longrightarrow> m \<le> n \<Longrightarrow>
           Q (Inr (m, bs, flag, a)) (w', l\<lparr>lg_arrived := lg_arrived l @ [(m, bs)]\<rparr>)"
  shows "io_wp (io_call (sk_recvmsg (ledgered A) h n)) Q R (w, l)"
  by (auto simp: io_wp_call ledgered_def beside_def assms(2) intro!: assms(3,4)
      dest: stores_withinD [OF assms(1)] split: prod.splits sum.splits)

lemma ledgered_close [simp]:
  "closeSocket (ledgered A) (Some h) (w, l) = (sk_close A h w, (lg_use h l)\<lparr>lg_open := lg_open l - {#h#}\<rparr>)"
  "shutdownSocket (ledgered A) (Some h) (w, l) = (sk_shutdown A h w, lg_use h l)"
  "closeSocket (ledgered A) None s = s" "shutdownSocket (ledgered A) None s = s"
  by (simp_all add: closeSocket_def shutdownSocket_def ledgered_def)

section \<open>Waiting\<close>

text \<open>Waiting on an open handle leaves the ledger alone.\<close>

lemma wait_ledger:
  assumes "h \<in># lg_open l"
  shows "io_wp (waitForSocket (ledgered A) failed h k d t fuel) (\<lambda>v s. snd s = l) (\<lambda>s. snd s = l) (w, l)"
  using assms
proof (induction fuel arbitrary: w)
  case 0 then show ?case by simp
next
  case (Suc fuel)
  then show ?case by (auto split: select_result.splits option.splits)
qed

lemma wait_quiet:
  assumes "h \<in># lg_open l" and "\<And>v w'. Q v (w', l)" and "\<And>w'. R (w', l)"
  shows "io_wp (waitForSocket (ledgered A) failed h k d t fuel) Q R (w, l)"
  by (rule io_wp_mono [OF wait_ledger [OF assms(1)]]) (auto intro: assms(2,3))

lemma deadline_quiet [intro!]:
  assumes "\<And>v w'. Q v (w', l)" and "\<And>w'. R (w', l)"
  shows "io_wp (operationDeadline (ledgered A) ctx) Q R (w, l)"
  unfolding operationDeadline_def by (auto intro: assms split: option.splits)

lemma initialize_quiet [intro!]:
  assumes "\<And>v w'. Q v (w', l)"
  shows "io_wp (initializeSockets (ledgered A)) Q R (w, l)"
  unfolding initializeSockets_def by (auto intro: assms)

end
