(* ===== verification/SyncLog.thy ===== *)
theory SyncLog
  imports LogText SocketLedger
begin

text \<open>
  The synchronous logger (\<open>core/wse/utility/wse_Log.cpp\<close>, \<open>api/wse/utility/wse_Log.h\<close>) with the Linux
  outputs (\<open>platform/wse/linux/utility/wse_LogOutput.h\<close>): the registry of profiles and sinks, structured
  records, the stream object \<open>Logger\<close>, and the dispatch of a record to outputs and sinks.  The globals
  are a record beside the world of one thread; clocks, files, the console and what a sink does are an
  argument.  A sink may log and change the registry itself; these requests are calls again, so calls
  take fuel for how deep they nest.  The reservation of buckets in the registry is not visible.
\<close>

section \<open>State\<close>

record sLogProfile =
  pf_mode :: int
  pf_separate :: int
  pf_prefix :: int
  pf_suffix :: int
  pf_fullpath :: string

definition sLogProfile_new :: sLogProfile where
  "sLogProfile_new = \<lparr>pf_mode = Mode_NONE, pf_separate = 1, pf_prefix = Prefix_NONE, pf_suffix = 0, pf_fullpath = ''''\<rparr>"

record LogRecord =
  rc_timestamp :: string
  rc_level :: int
  rc_tag :: string
  rc_source :: string
  rc_message :: string
  rc_details :: string

text \<open>Sinks are identities, 0 the null pointer; \<open>sy_dispatching\<close> belongs to the thread.\<close>

record log_state =
  sy_profiles :: "string \<rightharpoonup> sLogProfile"
  sy_sinks :: "(u64 \<times> nat) list"
  sy_next :: u64
  sy_minimum :: int
  sy_dispatching :: bool

definition log_state_new :: log_state where
  "log_state_new = \<lparr>sy_profiles = Map.empty, sy_sinks = [], sy_next = 1, sy_minimum = Level_Info, sy_dispatching = False\<rparr>"

definition WSE_TAG :: string where "WSE_TAG = ''WSE''"
definition WSE_DEV_TAG :: string where "WSE_DEV_TAG = ''DEV''"

text \<open>What is put into a stream: text (a wide one converted), numbers, truth values, and enumerators
  with the bytes of their type.\<close>

datatype log_item = Item_text string | Item_number int | Item_bool bool | Item_enum nat nat

datatype log_request =
    Req_write int string string string string
  | Req_write_short int string string string
  | Req_stream string "log_item list" string int
  | Req_register sLogConfig
  | Req_remove string
  | Req_change sLogConfig
  | Req_change_path sLogConfig string
  | Req_minimum int
  | Req_sink nat
  | Req_unsink u64
  | Req_flush

record local_tm =
  tm_sec :: int
  tm_min :: int
  tm_hour :: int
  tm_mday :: int
  tm_mon :: int
  tm_year :: int

text \<open>\<open>lv_order\<close> is the order in which the unordered registry is walked; a sink answers the requests it
  makes and whether it throws after them; \<open>lv_mkdir\<close> whether the directory exists afterwards.\<close>

record 'w log_env =
  lv_console :: "string \<Rightarrow> 'w \<Rightarrow> 'w"
  lv_mkdir :: "string \<Rightarrow> 'w \<Rightarrow> bool \<times> 'w"
  lv_append :: "string \<Rightarrow> string \<Rightarrow> 'w \<Rightarrow> 'w"
  lv_flush :: "'w \<Rightarrow> 'w"
  lv_time :: "'w \<Rightarrow> int \<times> 'w"
  lv_milliseconds :: "'w \<Rightarrow> int \<times> 'w"
  lv_now :: "'w \<Rightarrow> int \<times> 'w"
  lv_localtime :: "int \<Rightarrow> local_tm"
  lv_gmtime :: "int \<Rightarrow> string"
  lv_order :: "(u64 \<times> nat) list \<Rightarrow> (u64 \<times> nat) list"
  lv_on_log :: "nat \<Rightarrow> LogRecord \<Rightarrow> 'w \<Rightarrow> (log_request list \<times> bool) \<times> 'w"

type_synonym ('w, 'a) log_io = "('w \<times> log_state, 'a) io"

definition log_get :: "(log_state \<Rightarrow> 'a) \<Rightarrow> ('w, 'a) log_io" where
  "log_get f = io_call (\<lambda>s. (f (snd s), s))"

definition log_set :: "(log_state \<Rightarrow> log_state) \<Rightarrow> ('w, unit) log_io" where
  "log_set f = io_do (\<lambda>s. (fst s, f (snd s)))"

definition log_ask :: "('w \<Rightarrow> 'a \<times> 'w) \<Rightarrow> ('w, 'a) log_io" where
  "log_ask f = io_call (\<lambda>s. case f (fst s) of (v, w) \<Rightarrow> (v, w, snd s))"

definition log_act :: "('w \<Rightarrow> 'w) \<Rightarrow> ('w, unit) log_io" where
  "log_act f = io_do (\<lambda>s. (f (fst s), snd s))"

section \<open>Times\<close>

definition zero_padded :: "nat \<Rightarrow> int \<Rightarrow> string" where
  "zero_padded width v = pad_left width CHR ''0'' (show_int v)"

definition getLocalDate :: "'w log_env \<Rightarrow> ('w, string) log_io" where
  "getLocalDate E =
     io_bind (log_ask (lv_time E)) (\<lambda>now. let t = lv_localtime E now in io_return
       (zero_padded 2 (cpp_rem (tm_year t) 100) @ ''/'' @ zero_padded 2 (tm_mon t + 1) @ ''/'' @ zero_padded 2 (tm_mday t)))"

text \<open>The seconds and the milliseconds are read one after the other.\<close>

definition getLocalTime :: "'w log_env \<Rightarrow> ('w, string) log_io" where
  "getLocalTime E =
     io_bind (log_ask (lv_time E)) (\<lambda>now. io_bind (log_ask (lv_milliseconds E)) (\<lambda>ms.
       let t = lv_localtime E now in io_return
       (zero_padded 2 (tm_hour t) @ '':'' @ zero_padded 2 (tm_min t) @ '':'' @ zero_padded 2 (tm_sec t) @ ''.''
        @ zero_padded 3 ms)))"

text \<open>What \<open>getLogPrefix\<close> reads for a prefix; the operands of \<open>+\<close> are taken from left to right.\<close>

definition local_clock :: "'w log_env \<Rightarrow> int \<Rightarrow> ('w, string \<times> string) log_io" where
  "local_clock E pre =
     (if pre = Prefix_TIME then io_bind (getLocalTime E) (\<lambda>t. io_return ('''', t))
      else if pre = Prefix_DATE then io_bind (getLocalDate E) (\<lambda>d. io_return (d, ''''))
      else if pre = Prefix_FULL then io_bind (getLocalDate E) (\<lambda>d. io_bind (getLocalTime E) (\<lambda>t. io_return (d, t)))
      else io_return ('''', ''''))"

definition getTimestampUtc :: "'w log_env \<Rightarrow> ('w, string) log_io" where
  "getTimestampUtc E =
     io_bind (log_ask (lv_now E)) (\<lambda>now. io_return
       (lv_gmtime E (cpp_div now 1000000000) @ ''.'' @ zero_padded 3 (cpp_rem (cpp_div now 1000000) 1000) @ ''Z''))"

section \<open>Outputs\<close>

fun mkdir_loop :: "'w log_env \<Rightarrow> string \<Rightarrow> string \<Rightarrow> ('w, bool) log_io" where
  "mkdir_loop E current [] = io_return True"
| "mkdir_loop E current (c # rest) =
     (let here = current @ [c] in
      if c \<noteq> CHR ''/'' \<or> here = ''/'' then mkdir_loop E here rest
      else io_bind (log_ask (lv_mkdir E here)) (\<lambda>made. if made then mkdir_loop E here rest else io_return False))"

text \<open>The part of a path before its last separator.\<close>

definition directory_part :: "string \<Rightarrow> string option" where
  "directory_part path =
     (if list_ex is_separator path
      then Some (take (length path - length (after_last_separator path) - 1) path) else None)"

definition createDirectoryRecursive :: "'w log_env \<Rightarrow> string \<Rightarrow> ('w, bool) log_io" where
  "createDirectoryRecursive E fullpath =
     (case directory_part fullpath of
        None \<Rightarrow> io_return True
      | Some directory \<Rightarrow> io_bind (mkdir_loop E '''' directory) (\<lambda>made.
          if \<not> made then io_return False
          else if directory = '''' then io_return True
          else log_ask (lv_mkdir E directory)))"

definition outputLogFile :: "'w log_env \<Rightarrow> string \<Rightarrow> string \<Rightarrow> ('w, unit) log_io" where
  "outputLogFile E message fullpath =
     (if fullpath = '''' then io_return ()
      else io_bind (createDirectoryRecursive E fullpath) (\<lambda>created.
        if created then log_act (lv_append E fullpath (message @ [CHR 0x0A])) else io_return ()))"

definition output_record :: "'w log_env \<Rightarrow> sLogProfile \<Rightarrow> string \<Rightarrow> ('w, unit) log_io" where
  "output_record E profile message =
     (if pf_mode profile = Mode_CONSOLE then log_act (lv_console E message)
      else if pf_mode profile = Mode_LOG_FILE then outputLogFile E message (pf_fullpath profile)
      else if pf_mode profile = Mode_FULL
      then io_bind (log_act (lv_console E message)) (\<lambda>u. outputLogFile E message (pf_fullpath profile))
      else io_return ())"

section \<open>Dispatch\<close>

definition log_level_passes :: "int \<Rightarrow> int \<Rightarrow> bool" where
  "log_level_passes minimum level \<longleftrightarrow> \<not> (minimum = Level_Off \<or> level = Level_Off \<or> level < minimum)"

fun run_requests :: "(log_request \<Rightarrow> ('w, unit) log_io) \<Rightarrow> log_request list \<Rightarrow> ('w, unit) log_io" where
  "run_requests nested [] = io_return ()"
| "run_requests nested (r # rs) = io_bind (nested r) (\<lambda>u. run_requests nested rs)"

fun sink_loop :: "(log_request \<Rightarrow> ('w, unit) log_io) \<Rightarrow> 'w log_env \<Rightarrow> LogRecord \<Rightarrow> (u64 \<times> nat) list \<Rightarrow> ('w, unit) log_io" where
  "sink_loop nested E record [] = io_return ()"
| "sink_loop nested E record ((handle, sink) # sinks) =
     (if sink = 0 then sink_loop nested E record sinks
      else io_bind (log_ask (lv_on_log E sink record)) (\<lambda>(requests, threw).
        io_bind (run_requests nested requests) (\<lambda>u. sink_loop nested E record sinks)))"

definition dispatchLogRecord ::
    "(log_request \<Rightarrow> ('w, unit) log_io) \<Rightarrow> 'w log_env \<Rightarrow> LogRecord \<Rightarrow> sLogProfile \<Rightarrow> string \<Rightarrow> ('w, unit) log_io" where
  "dispatchLogRecord nested E record profile message =
     io_bind (log_get (\<lambda>s. (log_level_passes (sy_minimum s) (rc_level record), lv_order E (sy_sinks s)))) (\<lambda>(passes, sinks).
       if \<not> passes then io_return ()
       else io_bind (output_record E profile message) (\<lambda>u.
         io_bind (log_get sy_dispatching) (\<lambda>dispatching.
           if dispatching then io_return ()
           else io_bind (log_set (\<lambda>s. s\<lparr>sy_dispatching := True\<rparr>)) (\<lambda>u.
             io_bind (sink_loop nested E record sinks) (\<lambda>u.
               log_set (\<lambda>s. s\<lparr>sy_dispatching := False\<rparr>))))))"

section \<open>The stream object\<close>

record Logger =
  lo_tag :: string
  lo_message :: string
  lo_can_output :: bool
  lo_file :: string
  lo_line :: int

definition tag_level :: "string \<Rightarrow> int" where
  "tag_level tag = (if tag = WSE_DEV_TAG then Level_Debug else Level_Info)"

definition can_output :: "log_state \<Rightarrow> string \<Rightarrow> bool" where
  "can_output s tag =
     (case sy_profiles s tag of
        None \<Rightarrow> False
      | Some profile \<Rightarrow> pf_mode profile \<noteq> Mode_NONE \<and> sy_minimum s \<noteq> Level_Off \<and> sy_minimum s \<le> tag_level tag)"

definition Logger_new :: "string \<Rightarrow> string \<Rightarrow> int \<Rightarrow> ('w, Logger) log_io" where
  "Logger_new tag path line =
     io_bind (log_get (\<lambda>s. can_output s tag)) (\<lambda>can. io_return
       \<lparr>lo_tag = tag, lo_message = '''', lo_can_output = can, lo_file = path, lo_line = line\<rparr>)"

fun item_text :: "log_item \<Rightarrow> string" where
  "item_text (Item_text t) = t"
| "item_text (Item_number i) = show_int i"
| "item_text (Item_bool b) = (if b then ''true'' else ''false'')"
| "item_text (Item_enum bytes v) = toHex (2 * bytes) v"

definition getMessageTip :: "log_state \<Rightarrow> string \<Rightarrow> string \<Rightarrow> string" where
  "getMessageTip s str tag =
     (case sy_profiles s tag of None \<Rightarrow> '''' | Some profile \<Rightarrow> getLogSeparator (pf_separate profile) @ str)"

definition logger_put :: "log_item \<Rightarrow> Logger \<Rightarrow> ('w, Logger) log_io" where
  "logger_put item L =
     (if lo_can_output L
      then io_bind (log_get (\<lambda>s. getMessageTip s (item_text item) (lo_tag L))) (\<lambda>tip.
        io_return (L\<lparr>lo_message := lo_message L @ tip\<rparr>))
      else io_return L)"

definition profile_config :: "string \<Rightarrow> sLogProfile \<Rightarrow> sLogConfig" where
  "profile_config tag profile =
     \<lparr>lc_tag = tag, lc_mode = pf_mode profile, lc_separate = pf_separate profile, lc_prefix = pf_prefix profile,
      lc_suffix = pf_suffix profile, lc_path = '''', lc_name = ''''\<rparr>"

definition source_details :: "string \<Rightarrow> int \<Rightarrow> string" where
  "source_details path line =
     (if path = '''' then '''' else ''file_in='' @ extractFileName path @ '' line_in='' @ show_int line)"

definition log_finalize ::
    "(log_request \<Rightarrow> ('w, unit) log_io) \<Rightarrow> 'w log_env \<Rightarrow> string \<Rightarrow> string \<Rightarrow> string \<Rightarrow> int \<Rightarrow> ('w, unit) log_io" where
  "log_finalize nested E tag message path line =
     io_bind (log_get (\<lambda>s. sy_profiles s tag)) (\<lambda>found. case found of
         None \<Rightarrow> io_return ()
       | Some profile \<Rightarrow> io_bind (local_clock E (pf_prefix profile)) (\<lambda>(date, time).
           io_bind (getTimestampUtc E) (\<lambda>timestamp.
             dispatchLogRecord nested E
               \<lparr>rc_timestamp = timestamp, rc_level = tag_level tag, rc_tag = tag, rc_source = tag,
                rc_message = message, rc_details = source_details path line\<rparr> profile
               (formatLogMessage False date time (profile_config tag profile) message path line))))"

text \<open>\<open>~Logger\<close>, and a whole statement: the object, its items in order, and its destruction.\<close>

definition logger_finish :: "(log_request \<Rightarrow> ('w, unit) log_io) \<Rightarrow> 'w log_env \<Rightarrow> Logger \<Rightarrow> ('w, unit) log_io" where
  "logger_finish nested E L =
     (if lo_can_output L then log_finalize nested E (lo_tag L) (lo_message L) (lo_file L) (lo_line L) else io_return ())"

fun logger_items :: "log_item list \<Rightarrow> Logger \<Rightarrow> ('w, Logger) log_io" where
  "logger_items [] L = io_return L"
| "logger_items (i # is) L = io_bind (logger_put i L) (logger_items is)"

section \<open>Structured records\<close>

definition getStructuredLevelName :: "int \<Rightarrow> string" where
  "getStructuredLevelName level =
     (if level = Level_Trace then ''TRACE'' else if level = Level_Debug then ''DEBUG''
      else if level = Level_Info then ''INFO'' else if level = 3 then ''WARN''
      else if level = Level_Error then ''ERROR'' else if level = Level_Off then ''OFF'' else ''UNKNOWN'')"

definition structured_text :: "LogRecord \<Rightarrow> string" where
  "structured_text record =
     ''['' @ getStructuredLevelName (rc_level record) @ ''] ['' @ rc_tag record @ '']''
     @ (if rc_source record \<noteq> rc_tag record then '' ['' @ rc_source record @ '']'' else '''')
     @ '' '' @ rc_message record
     @ (if rc_details record \<noteq> '''' then '' | '' @ rc_details record else '''')
     @ END_LINE False"

definition writeStructuredLog ::
    "(log_request \<Rightarrow> ('w, unit) log_io) \<Rightarrow> 'w log_env \<Rightarrow> int \<Rightarrow> string \<Rightarrow> string \<Rightarrow> string \<Rightarrow> string \<Rightarrow> string
       \<Rightarrow> ('w, unit) log_io" where
  "writeStructuredLog nested E level profile_tag record_tag source message details =
     io_bind (log_get (\<lambda>s. sy_profiles s profile_tag)) (\<lambda>found.
     io_bind (getTimestampUtc E) (\<lambda>timestamp.
       let profile = (case found of None \<Rightarrow> sLogProfile_new | Some p \<Rightarrow> p);
           tag = (if record_tag = '''' then WSE_TAG else record_tag);
           record = \<lparr>rc_timestamp = timestamp, rc_level = level, rc_tag = tag,
                     rc_source = (if source = '''' then tag else source), rc_message = message, rc_details = details\<rparr>
       in dispatchLogRecord nested E record profile (structured_text record)))"

section \<open>The registry\<close>

definition config_profile :: "sLogConfig \<Rightarrow> string \<Rightarrow> sLogProfile" where
  "config_profile config fullpath =
     \<lparr>pf_mode = lc_mode config, pf_separate = lc_separate config, pf_prefix = lc_prefix config,
      pf_suffix = lc_suffix config, pf_fullpath = normalizePath fullpath\<rparr>"

definition config_path :: "sLogConfig \<Rightarrow> string" where
  "config_path config = lc_path config @ ''/'' @ lc_name config"

definition registerLogConfig :: "sLogConfig \<Rightarrow> log_state \<Rightarrow> log_state" where
  "registerLogConfig config s =
     (if sy_profiles s (lc_tag config) \<noteq> None then s
      else s\<lparr>sy_profiles := (sy_profiles s)(lc_tag config \<mapsto> config_profile config (config_path config))\<rparr>)"

definition removeLogConfig :: "string \<Rightarrow> log_state \<Rightarrow> log_state" where
  "removeLogConfig tag s = s\<lparr>sy_profiles := (sy_profiles s)(tag := None)\<rparr>"

definition changeLogConfig_path :: "sLogConfig \<Rightarrow> string \<Rightarrow> log_state \<Rightarrow> log_state" where
  "changeLogConfig_path config fullpath s =
     (if sy_profiles s (lc_tag config) = None then s
      else s\<lparr>sy_profiles := (sy_profiles s)(lc_tag config \<mapsto> config_profile config fullpath)\<rparr>)"

definition changeLogConfig :: "sLogConfig \<Rightarrow> log_state \<Rightarrow> log_state" where
  "changeLogConfig config s = changeLogConfig_path config (config_path config) s"

definition log_mode :: "log_state \<Rightarrow> string \<Rightarrow> int" where
  "log_mode s tag = (case sy_profiles s tag of None \<Rightarrow> Mode_NONE | Some p \<Rightarrow> pf_mode p)"

definition log_separator :: "log_state \<Rightarrow> string \<Rightarrow> int" where
  "log_separator s tag = (case sy_profiles s tag of None \<Rightarrow> 1 | Some p \<Rightarrow> pf_separate p)"

definition log_prefix :: "log_state \<Rightarrow> string \<Rightarrow> int" where
  "log_prefix s tag = (case sy_profiles s tag of None \<Rightarrow> Prefix_NONE | Some p \<Rightarrow> pf_prefix p)"

definition log_suffix :: "log_state \<Rightarrow> string \<Rightarrow> int" where
  "log_suffix s tag = (case sy_profiles s tag of None \<Rightarrow> 0 | Some p \<Rightarrow> pf_suffix p)"

definition log_fullpath :: "log_state \<Rightarrow> string \<Rightarrow> string" where
  "log_fullpath s tag = (case sy_profiles s tag of None \<Rightarrow> '''' | Some p \<Rightarrow> pf_fullpath p)"

text \<open>The helpers \<open>registLog\<close> and \<open>changeLog\<close>, and those of the two built-in tags.\<close>

definition make_config :: "log_state \<Rightarrow> string \<Rightarrow> sLogConfig" where
  "make_config s tag =
     \<lparr>lc_tag = tag, lc_mode = log_mode s tag, lc_separate = log_separator s tag, lc_prefix = log_prefix s tag,
      lc_suffix = log_suffix s tag, lc_path = '''', lc_name = ''''\<rparr>"

definition registLog :: "string \<Rightarrow> log_state \<Rightarrow> log_state" where
  "registLog tag = registerLogConfig
     \<lparr>lc_tag = tag, lc_mode = Mode_CONSOLE, lc_separate = 1, lc_prefix = Prefix_FULL, lc_suffix = 1,
      lc_path = '''', lc_name = ''''\<rparr>"

definition changeLog_mode :: "string \<Rightarrow> int \<Rightarrow> string \<Rightarrow> string \<Rightarrow> log_state \<Rightarrow> log_state" where
  "changeLog_mode tag mode path name s =
     changeLogConfig ((make_config s tag)\<lparr>lc_mode := mode, lc_path := path, lc_name := name\<rparr>) s"

definition changeLog_separate :: "string \<Rightarrow> int \<Rightarrow> log_state \<Rightarrow> log_state" where
  "changeLog_separate tag separate s =
     changeLogConfig_path ((make_config s tag)\<lparr>lc_separate := separate\<rparr>) (log_fullpath s tag) s"

definition changeLog_prefix :: "string \<Rightarrow> int \<Rightarrow> log_state \<Rightarrow> log_state" where
  "changeLog_prefix tag prefix s =
     changeLogConfig_path ((make_config s tag)\<lparr>lc_prefix := prefix\<rparr>) (log_fullpath s tag) s"

definition changeLog_suffix :: "string \<Rightarrow> int \<Rightarrow> log_state \<Rightarrow> log_state" where
  "changeLog_suffix tag suffix s =
     changeLogConfig_path ((make_config s tag)\<lparr>lc_suffix := suffix\<rparr>) (log_fullpath s tag) s"

definition setMinimumLogLevel :: "int \<Rightarrow> log_state \<Rightarrow> log_state" where
  "setMinimumLogLevel level s = s\<lparr>sy_minimum := level\<rparr>"

definition registerLogSink :: "nat \<Rightarrow> log_state \<Rightarrow> u64 \<times> log_state" where
  "registerLogSink sink s =
     (if sink = 0 then (0, s)
      else (sy_next s, s\<lparr>sy_next := sy_next s + 1,
        sy_sinks := (if sy_next s \<in> fst ` set (sy_sinks s) then sy_sinks s else sy_sinks s @ [(sy_next s, sink)])\<rparr>))"

definition unregisterLogSink :: "u64 \<Rightarrow> log_state \<Rightarrow> log_state" where
  "unregisterLogSink handle s =
     (if handle = 0 then s else s\<lparr>sy_sinks := filter (\<lambda>x. fst x \<noteq> handle) (sy_sinks s)\<rparr>)"

section \<open>Calls\<close>

definition log_operation ::
    "(log_request \<Rightarrow> ('w, unit) log_io) \<Rightarrow> 'w log_env \<Rightarrow> log_request \<Rightarrow> ('w, unit) log_io" where
  "log_operation nested E request =
     (case request of
        Req_write level tag source message details \<Rightarrow>
          (let profile_tag = (if tag = '''' then WSE_TAG else tag)
           in writeStructuredLog nested E level profile_tag profile_tag source message details)
      | Req_write_short level tag message details \<Rightarrow>
          (let record_tag = (if tag = '''' then WSE_TAG else tag)
           in writeStructuredLog nested E level WSE_TAG record_tag record_tag message details)
      | Req_stream tag items path line \<Rightarrow>
          io_bind (Logger_new tag path line) (\<lambda>L. io_bind (logger_items items L) (logger_finish nested E))
      | Req_register config \<Rightarrow> log_set (registerLogConfig config)
      | Req_remove tag \<Rightarrow> log_set (removeLogConfig tag)
      | Req_change config \<Rightarrow> log_set (changeLogConfig config)
      | Req_change_path config fullpath \<Rightarrow> log_set (changeLogConfig_path config fullpath)
      | Req_minimum level \<Rightarrow> log_set (setMinimumLogLevel level)
      | Req_sink sink \<Rightarrow> log_set (\<lambda>s. snd (registerLogSink sink s))
      | Req_unsink handle \<Rightarrow> log_set (unregisterLogSink handle)
      | Req_flush \<Rightarrow> log_act (lv_flush E))"

fun log_call :: "'w log_env \<Rightarrow> nat \<Rightarrow> log_request \<Rightarrow> ('w, unit) log_io" where
  "log_call E 0 request = io_pending"
| "log_call E (Suc depth) request = log_operation (log_call E depth) E request"

end
