(* ===== verification/SyncLogCorrect.thy ===== *)
theory SyncLogCorrect
  imports SyncLog
begin

text \<open>
  The properties of the synchronous logger.  A log beside the environment records what reached the
  console, the files and the sinks, and every creation of a directory with its answer, in order.
\<close>

section \<open>What reaches outputs and sinks\<close>

datatype log_event =
    Ev_console string
  | Ev_mkdir string bool
  | Ev_file string string
  | Ev_sink nat LogRecord

definition recording :: "'w log_env \<Rightarrow> ('w \<times> log_event list) log_env" where
  "recording E =
     \<lparr>lv_console = (\<lambda>m s. (lv_console E m (fst s), snd s @ [Ev_console m])),
      lv_mkdir = (\<lambda>d. beside (lv_mkdir E d) (\<lambda>v l. l @ [Ev_mkdir d v])),
      lv_append = (\<lambda>p m s. (lv_append E p m (fst s), snd s @ [Ev_file p m])),
      lv_flush = (\<lambda>s. (lv_flush E (fst s), snd s)),
      lv_time = beside (lv_time E) (\<lambda>v l. l), lv_milliseconds = beside (lv_milliseconds E) (\<lambda>v l. l),
      lv_now = beside (lv_now E) (\<lambda>v l. l), lv_localtime = lv_localtime E, lv_gmtime = lv_gmtime E,
      lv_order = lv_order E,
      lv_on_log = (\<lambda>k r. beside (lv_on_log E k r) (\<lambda>v l. l @ [Ev_sink k r]))\<rparr>"

fun deliveries :: "log_event list \<Rightarrow> (nat \<times> LogRecord) list" where
  "deliveries [] = []"
| "deliveries (Ev_sink k r # es) = (k, r) # deliveries es"
| "deliveries (e # es) = deliveries es"

lemma deliveries_append [simp]: "deliveries (xs @ ys) = deliveries xs @ deliveries ys"
  by (induction xs rule: deliveries.induct) simp_all

text \<open>The directories a file in \<open>path\<close> needs: every beginning of its directory that a separator ends, but
  for the root, and the directory itself.  They are created in this order until one fails, the one
  numbered \<open>failed\<close> if there is such a one.\<close>

fun parents :: "string \<Rightarrow> string \<Rightarrow> string list" where
  "parents current [] = []"
| "parents current (c # rest) =
     (if c = CHR ''/'' \<and> current \<noteq> '''' then [current @ [c]] else []) @ parents (current @ [c]) rest"

definition directories :: "string \<Rightarrow> string list" where
  "directories path =
     (case directory_part path of
        None \<Rightarrow> []
      | Some directory \<Rightarrow> parents '''' directory @ (if directory = '''' then [] else [directory]))"

definition creations :: "string list \<Rightarrow> nat \<Rightarrow> log_event list" where
  "creations ds failed =
     map (\<lambda>d. Ev_mkdir d True) (take failed ds) @ (if failed < length ds then [Ev_mkdir (ds ! failed) False] else [])"

text \<open>The console, and the file: its directories, and the line appended once unless one of them failed.\<close>

definition file_events :: "string \<Rightarrow> string \<Rightarrow> nat \<Rightarrow> log_event list" where
  "file_events path message failed =
     (if path = '''' then []
      else creations (directories path) failed
        @ (if failed < length (directories path) then [] else [Ev_file path (message @ [CHR 0x0A])]))"

definition output_events :: "sLogProfile \<Rightarrow> string \<Rightarrow> nat \<Rightarrow> log_event list" where
  "output_events profile message failed =
     (if pf_mode profile \<in> {Mode_CONSOLE, Mode_FULL} then [Ev_console message] else [])
     @ (if pf_mode profile \<in> {Mode_LOG_FILE, Mode_FULL} then file_events (pf_fullpath profile) message failed else [])"

lemma deliveries_made: "deliveries (map (\<lambda>d. Ev_mkdir d True) ds) = []"
  by (induction ds) simp_all

lemma deliveries_output [simp]: "deliveries (output_events p m n) = []"
  by (simp add: output_events_def file_events_def creations_def deliveries_made)

section \<open>Rules\<close>

type_synonym 'w recorded = "('w \<times> log_event list) \<times> log_state"

lemma log_get_wp [simp]: "io_wp (log_get f) Q R s \<longleftrightarrow> Q (f (snd s)) s"
  by (simp add: log_get_def io_wp_call)

lemma log_set_wp [simp]: "io_wp (log_set f) Q R s \<longleftrightarrow> Q () (fst s, f (snd s))"
  by (simp add: log_set_def)

lemma log_act_wp [simp]:
  "io_wp (log_act (lv_console (recording E) m)) Q R ((w, l), s) \<longleftrightarrow> Q () ((lv_console E m w, l @ [Ev_console m]), s)"
  "io_wp (log_act (lv_append (recording E) p m)) Q R ((w, l), s) \<longleftrightarrow> Q () ((lv_append E p m w, l @ [Ev_file p m]), s)"
  "io_wp (log_act (lv_flush (recording E))) Q R ((w, l), s) \<longleftrightarrow> Q () ((lv_flush E w, l), s)"
  by (simp_all add: log_act_def recording_def)

lemma log_ask_beside: "(\<And>v w'. Q v ((w', g v l), s)) \<Longrightarrow> io_wp (log_ask (beside f g)) Q R ((w, l), s)"
  by (simp add: log_ask_def io_wp_call beside_def split: prod.splits)

lemma log_ask_wp:
  "(\<And>v w'. Q1 v ((w', l @ [Ev_mkdir d v]), s)) \<Longrightarrow> io_wp (log_ask (lv_mkdir (recording E) d)) Q1 R ((w, l), s)"
  "(\<And>v w'. Q2 v ((w', l), s)) \<Longrightarrow> io_wp (log_ask (lv_time (recording E))) Q2 R ((w, l), s)"
  "(\<And>v w'. Q2 v ((w', l), s)) \<Longrightarrow> io_wp (log_ask (lv_milliseconds (recording E))) Q2 R ((w, l), s)"
  "(\<And>v w'. Q2 v ((w', l), s)) \<Longrightarrow> io_wp (log_ask (lv_now (recording E))) Q2 R ((w, l), s)"
  "(\<And>v w'. Q3 v ((w', l @ [Ev_sink k r]), s)) \<Longrightarrow> io_wp (log_ask (lv_on_log (recording E) k r)) Q3 R ((w, l), s)"
  by (simp_all add: recording_def log_ask_beside)

lemma local_clock_wp:
  "(\<And>date time w'. Q (date, time) ((w', l), s)) \<Longrightarrow> io_wp (local_clock (recording E) pre) Q R ((w, l), s)"
  by (auto simp: local_clock_def getLocalDate_def getLocalTime_def Let_def intro!: log_ask_wp)

lemma timestamp_wp: "(\<And>t w'. Q t ((w', l), s)) \<Longrightarrow> io_wp (getTimestampUtc (recording E)) Q R ((w, l), s)"
  by (auto simp: getTimestampUtc_def intro!: log_ask_wp)

lemma creations_simps [simp]:
  "creations [] n = []" "creations (d # ds) 0 = [Ev_mkdir d False]"
  "creations (d # ds) (Suc n) = Ev_mkdir d True # creations ds n"
  by (simp_all add: creations_def)

lemma mkdir_loop_wp:
  assumes "\<And>n w'. Q (length (parents current rest) \<le> n) ((w', l @ creations (parents current rest) n), s)"
  shows "io_wp (mkdir_loop (recording E) current rest) Q R ((w, l), s)"
  using assms
proof (induction rest arbitrary: current w l)
  case Nil
  from Nil [of 0] show ?case by simp
next
  case (Cons c rest)
  show ?case
  proof (cases "c = CHR ''/'' \<and> current \<noteq> ''''")
    case True
    have made: "io_wp (mkdir_loop (recording E) (current @ [c]) rest) Q R ((w', l @ [Ev_mkdir (current @ [c]) True]), s)" for w'
      by (rule Cons.IH) (use Cons.prems [of "Suc n" for n] True in simp)
    have refused: "Q False ((w', l @ [Ev_mkdir (current @ [c]) False]), s)" for w'
      using Cons.prems [of 0] True by simp
    show ?thesis using True made refused by (auto simp: Let_def intro!: log_ask_wp)
  next
    case False
    have "io_wp (mkdir_loop (recording E) (current @ [c]) rest) Q R ((w, l), s)"
      by (rule Cons.IH) (use Cons.prems False in auto)
    then show ?thesis using False by (auto simp: Let_def)
  qed
qed

lemma creations_split:
  "n < length ds \<Longrightarrow> creations (ds @ es) n = creations ds n"
  "length ds \<le> n \<Longrightarrow> creations (ds @ es) n = creations ds n @ creations es (n - length ds)"
  by (auto simp: creations_def nth_append)

lemma create_wp:
  assumes "\<And>n w'. Q (length (directories p) \<le> n) ((w', l @ creations (directories p) n), s)"
  shows "io_wp (createDirectoryRecursive (recording E) p) Q R ((w, l), s)"
proof (cases "directory_part p")
  case None
  then show ?thesis using assms [of 0] by (simp add: createDirectoryRecursive_def directories_def)
next
  case (Some d)
  let ?ps = "parents '''' d"
  have early: "Q False ((w', l @ creations ?ps n), s)" if "n < length ?ps" for n w'
    using assms [of n w'] that Some by (simp add: directories_def creations_split)
  have last: "Q v ((w', l @ creations ?ps n @ [Ev_mkdir d v]), s)" if "length ?ps \<le> n" "d \<noteq> ''''" for n v w'
  proof -
    have full: "creations ?ps n = creations ?ps k" if "length ?ps \<le> k" for k
      using \<open>length ?ps \<le> n\<close> that by (simp add: creations_def)
    show ?thesis
      using assms [of "if v then Suc (length ?ps) else length ?ps" w'] that(2) Some
        full [of "length ?ps"] full [of "Suc (length ?ps)"]
      by (cases v) (simp_all add: directories_def creations_split)
  qed
  have root: "Q True ((w', l), s)" if "d = ''''" for w'
    using assms [of 0 w'] that Some by (simp add: directories_def)
  show ?thesis
    unfolding createDirectoryRecursive_def Some option.case io_wp_bind
    by (rule mkdir_loop_wp) (auto simp: not_le intro!: log_ask_wp early last root)
qed

lemma output_file_wp:
  assumes "\<And>n w'. Q () ((w', l @ file_events p m n), s)"
  shows "io_wp (outputLogFile (recording E) m p) Q R ((w, l), s)"
proof (cases "p = ''''")
  case True
  then show ?thesis using assms [of w 0] by (simp add: outputLogFile_def file_events_def)
next
  case False
  have written: "Q () ((w', l @ creations (directories p) n @ [Ev_file p (m @ [CHR 0x0A])]), s)"
    if "length (directories p) \<le> n" for n w'
    using assms [of w' n] that False by (simp add: file_events_def)
  have refused: "Q () ((w', l @ creations (directories p) n), s)" if "\<not> length (directories p) \<le> n" for n w'
    using assms [of w' n] that False by (simp add: file_events_def)
  show ?thesis
    unfolding outputLogFile_def using False by (auto intro!: create_wp written refused)
qed

lemma output_record_wp:
  assumes "\<And>n w'. Q () ((w', l @ output_events profile m n), s)"
  shows "io_wp (output_record (recording E) profile m) Q R ((w, l), s)"
  using assms
  by (auto simp: output_record_def output_events_def intro!: output_file_wp split: if_splits)

section \<open>Requests made by a sink\<close>

text \<open>A request on a thread that is dispatching reaches no sink, whatever nested requests would do.\<close>

definition quiet :: "log_event list \<Rightarrow> 'w recorded \<Rightarrow> bool" where
  "quiet l t = (case t of ((w', l'), s') \<Rightarrow> sy_dispatching s' \<and> (\<exists>es. l' = l @ es \<and> deliveries es = []))"

lemma quiet_append [simp]: "quiet l ((w, l @ output_events p m c), s) \<longleftrightarrow> sy_dispatching s"
  by (simp add: quiet_def)

lemma dispatch_quiet:
  assumes "sy_dispatching s"
  shows "io_wp (dispatchLogRecord nested (recording E) record profile m) (\<lambda>u. quiet l) R ((w, l), s)"
  using assms by (auto simp: dispatchLogRecord_def quiet_def intro!: output_record_wp)

lemma logger_items_eq:
  "logger_items items L s = (Done (L\<lparr>lo_message := lo_message L
      @ (if lo_can_output L then concat (map (\<lambda>i. getMessageTip (snd s) (item_text i) (lo_tag L)) items) else '''')\<rparr>), s)"
proof (induction items arbitrary: L)
  case Nil
  then show ?case by (simp add: io_return_def)
next
  case (Cons i items)
  have "logger_put i L s = (Done (L\<lparr>lo_message := lo_message L
      @ (if lo_can_output L then getMessageTip (snd s) (item_text i) (lo_tag L) else '''')\<rparr>), s)"
    by (simp add: logger_put_def io_bind_def log_get_def io_call_def io_return_def)
  then show ?case by (simp add: io_bind_def Cons.IH)
qed

lemma logger_items_wp [simp]:
  "io_wp (logger_items items L) Q R s \<longleftrightarrow> Q (L\<lparr>lo_message := lo_message L
      @ (if lo_can_output L then concat (map (\<lambda>i. getMessageTip (snd s) (item_text i) (lo_tag L)) items) else '''')\<rparr>) s"
  by (simp add: io_wp_def logger_items_eq)

lemma finish_quiet:
  assumes "sy_dispatching s"
  shows "io_wp (logger_finish nested (recording E) L) (\<lambda>u. quiet l) R ((w, l), s)"
  using assms
  by (auto simp: logger_finish_def log_finalize_def quiet_def [of l "((w, l), s)"]
      intro!: local_clock_wp timestamp_wp dispatch_quiet split: option.splits)

lemma registry_dispatching [simp]:
  "sy_dispatching (registerLogConfig c s) = sy_dispatching s" "sy_dispatching (removeLogConfig t s) = sy_dispatching s"
  "sy_dispatching (changeLogConfig_path c p s) = sy_dispatching s" "sy_dispatching (changeLogConfig c s) = sy_dispatching s"
  "sy_dispatching (setMinimumLogLevel v s) = sy_dispatching s" "sy_dispatching (snd (registerLogSink k s)) = sy_dispatching s"
  "sy_dispatching (unregisterLogSink h s) = sy_dispatching s"
  by (simp_all add: registerLogConfig_def removeLogConfig_def changeLogConfig_path_def changeLogConfig_def
      setMinimumLogLevel_def registerLogSink_def unregisterLogSink_def)

lemma structured_quiet:
  assumes "sy_dispatching s"
  shows "io_wp (writeStructuredLog nested (recording E) level ptag tag source message details) (\<lambda>u. quiet l) R ((w, l), s)"
  unfolding writeStructuredLog_def
  using assms by (auto simp: Let_def intro!: timestamp_wp dispatch_quiet)

lemma operation_quiet:
  assumes "sy_dispatching s"
  shows "io_wp (log_operation nested (recording E) request) (\<lambda>u. quiet l) R ((w, l), s)"
  using assms structured_quiet [OF assms]
  by (cases request) (auto simp: log_operation_def Let_def Logger_new_def intro!: finish_quiet, auto simp: quiet_def)

lemma call_quiet:
  assumes "sy_dispatching s"
  shows "io_wp (log_call (recording E) (Suc depth) request) (\<lambda>u. quiet l) R ((w, l), s)"
  using operation_quiet [OF assms] by simp

section \<open>Requests made outside a sink\<close>

definition record_deliveries :: "'w log_env \<Rightarrow> log_state \<Rightarrow> LogRecord \<Rightarrow> (nat \<times> LogRecord) list" where
  "record_deliveries E s record = map (\<lambda>x. (snd x, record)) (filter (\<lambda>x. snd x \<noteq> 0) (lv_order E (sy_sinks s)))"

lemma quiet_step:
  assumes "quiet l ((w1, l1), s1)" and "quiet l1 r"
  shows "quiet l r"
  using assms by (auto simp: quiet_def)

lemma run_requests_quiet:
  assumes nested: "\<And>r w l s. sy_dispatching s \<Longrightarrow> io_wp (nested r) (\<lambda>u. quiet l) (\<lambda>_. False) ((w, l), s)"
    and "sy_dispatching s"
  shows "io_wp (run_requests nested rs) (\<lambda>u. quiet l) (\<lambda>_. False) ((w, l), s)"
  using assms(2)
proof (induction rs arbitrary: w l s)
  case Nil
  then show ?case by (simp add: quiet_def)
next
  case (Cons r rs)
  show ?case
    unfolding run_requests.simps io_wp_bind
  proof (rule io_wp_mono [OF nested [OF Cons.prems]])
    fix u :: unit and t :: "('a \<times> log_event list) \<times> log_state"
    assume t: "quiet l t"
    then obtain w1 l1 s1 where t_eq: "t = ((w1, l1), s1)" "sy_dispatching s1" by (auto simp: quiet_def split: prod.splits)
    show "io_wp (run_requests nested rs) (\<lambda>u. quiet l) (\<lambda>_. False) t"
      unfolding t_eq(1)
      by (rule io_wp_mono [OF Cons.IH [OF t_eq(2)]]) (use t t_eq(1) in \<open>auto intro: quiet_step\<close>)
  qed simp
qed

text \<open>The sinks are called before anything they log.\<close>

definition sink_first :: "LogRecord \<Rightarrow> log_event list \<Rightarrow> bool" where
  "sink_first r rest \<longleftrightarrow> rest = [] \<or> (\<exists>k es. rest = Ev_sink k r # es)"

lemma sink_first_Cons [simp]: "sink_first r []" "sink_first r (Ev_sink k r # es)"
  by (simp_all add: sink_first_def)

lemma sink_loop_wp:
  assumes nested: "\<And>r w l s. sy_dispatching s \<Longrightarrow> io_wp (nested r) (\<lambda>u. quiet l) (\<lambda>_. False) ((w, l), s)"
    and "sy_dispatching s"
  shows "io_wp (sink_loop nested (recording E) record sinks)
      (\<lambda>u ((w', l'), s'). sy_dispatching s' \<and> (\<exists>rest. l' = l @ rest \<and> sink_first record rest
         \<and> deliveries rest = map (\<lambda>x. (snd x, record)) (filter (\<lambda>x. snd x \<noteq> 0) sinks))) (\<lambda>_. False) ((w, l), s)"
  using assms(2)
proof (induction sinks arbitrary: w l s)
  case Nil
  then show ?case by simp
next
  case (Cons x sinks)
  obtain h k where x: "x = (h, k)" by (cases x)
  show ?case
  proof (cases "k = 0")
    case True
    then show ?thesis using Cons x by simp
  next
    case False
    have after: "io_wp (sink_loop nested (recording E) record sinks)
        (\<lambda>u ((w', l'), s'). sy_dispatching s' \<and> (\<exists>rest. l' = l @ rest \<and> sink_first record rest
         \<and> deliveries rest = map (\<lambda>x. (snd x, record)) (filter (\<lambda>x. snd x \<noteq> 0) (x # sinks)))) (\<lambda>_. False) t"
      if t: "quiet (l @ [Ev_sink k record]) t" for t
    proof -
      obtain w1 es s1 where t_eq: "t = ((w1, l @ [Ev_sink k record] @ es), s1)" "sy_dispatching s1" "deliveries es = []"
        using t by (auto simp: quiet_def split: prod.splits)
      show ?thesis
        unfolding t_eq(1)
        by (rule io_wp_mono [OF Cons.IH [OF t_eq(2)]]) (use False x t_eq(3) in auto)
    qed
    show ?thesis
      unfolding x sink_loop.simps
      using False after x Cons.prems
      by (auto intro!: log_ask_wp io_wp_mono [OF run_requests_quiet [OF nested]])
  qed
qed

definition logged :: "'w log_env \<Rightarrow> log_state \<Rightarrow> LogRecord \<Rightarrow> sLogProfile \<Rightarrow> string \<Rightarrow> log_event list
    \<Rightarrow> 'w recorded \<Rightarrow> bool" where
  "logged E s record profile message l t = (case t of ((w', l'), s') \<Rightarrow> \<not> sy_dispatching s' \<and>
     (if log_level_passes (sy_minimum s) (rc_level record)
      then \<exists>failed rest. l' = l @ output_events profile message failed @ rest \<and> sink_first record rest
             \<and> deliveries rest = record_deliveries E s record
      else l' = l \<and> s' = s))"

lemma dispatch_wp:
  assumes nested: "\<And>r w l s. sy_dispatching s \<Longrightarrow> io_wp (nested r) (\<lambda>u. quiet l) (\<lambda>_. False) ((w, l), s)"
    and "\<not> sy_dispatching s"
  shows "io_wp (dispatchLogRecord nested (recording E) record profile m) (\<lambda>u. logged E s record profile m l)
      (\<lambda>_. False) ((w, l), s)"
proof -
  have order: "lv_order (recording E) = lv_order E" by (simp add: recording_def)
  show ?thesis
    using assms(2)
    by (auto simp: dispatchLogRecord_def logged_def record_deliveries_def order
        intro!: output_record_wp io_wp_mono [OF sink_loop_wp [OF nested]], blast)
qed

text \<open>The record, the profile and the text of a request.\<close>

definition or_default :: "string \<Rightarrow> string \<Rightarrow> string" where
  "or_default t d = (if t = '''' then d else t)"

definition stream_message :: "sLogProfile \<Rightarrow> log_item list \<Rightarrow> string" where
  "stream_message profile items = concat (map (\<lambda>i. getLogSeparator (pf_separate profile) @ item_text i) items)"

fun request_record :: "log_state \<Rightarrow> string \<Rightarrow> log_request \<Rightarrow> LogRecord option" where
  "request_record s t (Req_write level tag source message details) =
     Some \<lparr>rc_timestamp = t, rc_level = level, rc_tag = or_default tag WSE_TAG,
           rc_source = or_default source (or_default tag WSE_TAG), rc_message = message, rc_details = details\<rparr>"
| "request_record s t (Req_write_short level tag message details) =
     Some \<lparr>rc_timestamp = t, rc_level = level, rc_tag = or_default tag WSE_TAG,
           rc_source = or_default tag WSE_TAG, rc_message = message, rc_details = details\<rparr>"
| "request_record s t (Req_stream tag items path line) =
     (case sy_profiles s tag of
        None \<Rightarrow> None
      | Some p \<Rightarrow>
          if pf_mode p = Mode_NONE then None
          else Some \<lparr>rc_timestamp = t, rc_level = tag_level tag, rc_tag = tag, rc_source = tag,
                     rc_message = stream_message p items, rc_details = source_details path line\<rparr>)"
| "request_record s t request = None"

fun request_profile :: "log_state \<Rightarrow> log_request \<Rightarrow> sLogProfile" where
  "request_profile s (Req_write level tag source message details) =
     (case sy_profiles s (or_default tag WSE_TAG) of None \<Rightarrow> sLogProfile_new | Some p \<Rightarrow> p)"
| "request_profile s (Req_stream tag items path line) = (case sy_profiles s tag of None \<Rightarrow> sLogProfile_new | Some p \<Rightarrow> p)"
| "request_profile s request = (case sy_profiles s WSE_TAG of None \<Rightarrow> sLogProfile_new | Some p \<Rightarrow> p)"

fun request_text :: "log_state \<Rightarrow> string \<Rightarrow> string \<Rightarrow> LogRecord \<Rightarrow> log_request \<Rightarrow> string" where
  "request_text s date time record (Req_stream tag items path line) =
     formatLogMessage False date time (profile_config tag (request_profile s (Req_stream tag items path line)))
       (rc_message record) path line"
| "request_text s date time record request = structured_text record"

definition answered :: "'w log_env \<Rightarrow> log_state \<Rightarrow> log_request \<Rightarrow> log_event list \<Rightarrow> 'w recorded \<Rightarrow> bool" where
  "answered E s request l t \<longleftrightarrow> (\<exists>timestamp date time. case request_record s timestamp request of
       None \<Rightarrow> (case t of ((w', l'), s') \<Rightarrow> \<not> sy_dispatching s' \<and> l' = l)
     | Some record \<Rightarrow> logged E s record (request_profile s request) (request_text s date time record request) l t)"

lemma structured_wp:
  assumes nested: "\<And>r w l s. sy_dispatching s \<Longrightarrow> io_wp (nested r) (\<lambda>u. quiet l) (\<lambda>_. False) ((w, l), s)"
    and "\<not> sy_dispatching s"
  shows "io_wp (writeStructuredLog nested (recording E) level ptag tag source message details)
      (\<lambda>u r. \<exists>t. let record = \<lparr>rc_timestamp = t, rc_level = level, rc_tag = or_default tag WSE_TAG,
          rc_source = or_default source (or_default tag WSE_TAG), rc_message = message, rc_details = details\<rparr>
        in logged E s record (case sy_profiles s ptag of None \<Rightarrow> sLogProfile_new | Some p \<Rightarrow> p) (structured_text record) l r)
      (\<lambda>_. False) ((w, l), s)"
  unfolding writeStructuredLog_def or_default_def
  using assms(2)
  by (auto simp: Let_def intro!: timestamp_wp io_wp_mono [OF dispatch_wp [OF nested]])

lemma finish_wp:
  assumes nested: "\<And>r w l s. sy_dispatching s \<Longrightarrow> io_wp (nested r) (\<lambda>u. quiet l) (\<lambda>_. False) ((w, l), s)"
    and "\<not> sy_dispatching s" and "sy_profiles s tag = Some p"
  shows "io_wp (log_finalize nested (recording E) tag message path line)
      (\<lambda>u r. \<exists>t date time. let record = \<lparr>rc_timestamp = t, rc_level = tag_level tag, rc_tag = tag,
          rc_source = tag, rc_message = message, rc_details = source_details path line\<rparr>
        in logged E s record p (formatLogMessage False date time (profile_config tag p) message path line) l r)
      (\<lambda>_. False) ((w, l), s)"
  unfolding log_finalize_def
  using assms(2,3)
  by (auto simp: Let_def intro!: local_clock_wp timestamp_wp io_wp_mono [OF dispatch_wp [OF nested]], blast)

lemma or_default_twice [simp]: "or_default (or_default t WSE_TAG) WSE_TAG = or_default t WSE_TAG"
  "or_default (or_default t WSE_TAG) d = or_default t WSE_TAG"
  by (simp_all add: or_default_def WSE_TAG_def)

lemma stream_wp:
  assumes nested: "\<And>r w l s. sy_dispatching s \<Longrightarrow> io_wp (nested r) (\<lambda>u. quiet l) (\<lambda>_. False) ((w, l), s)"
    and "\<not> sy_dispatching s"
  shows "io_wp (log_operation nested (recording E) (Req_stream tag items path line))
      (\<lambda>u. answered E s (Req_stream tag items path line) l) (\<lambda>_. False) ((w, l), s)"
proof (cases "can_output s tag")
  case True
  then obtain p where p: "sy_profiles s tag = Some p" and mode: "pf_mode p \<noteq> Mode_NONE"
    by (auto simp: can_output_def split: option.splits)
  have "concat (map (\<lambda>i. getMessageTip s (item_text i) tag) items) = stream_message p items"
    by (simp add: getMessageTip_def stream_message_def p)
  moreover have "io_wp (log_finalize nested (recording E) tag (stream_message p items) path line)
      (\<lambda>u. answered E s (Req_stream tag items path line) l) (\<lambda>_. False) ((w, l), s)"
    by (rule io_wp_mono [OF finish_wp [OF nested assms(2) p]]) (auto simp: answered_def p mode Let_def)
  ultimately show ?thesis by (simp add: log_operation_def Logger_new_def True logger_finish_def)
next
  case False
  then have "log_level_passes (sy_minimum s) (tag_level tag) \<Longrightarrow>
      request_record s t (Req_stream tag items path line) = None" for t
    by (auto simp: can_output_def log_level_passes_def split: option.splits)
  then have "answered E s (Req_stream tag items path line) l ((w, l), s)"
    using assms(2) by (auto simp: answered_def logged_def split: option.splits)
  then show ?thesis by (simp add: log_operation_def Logger_new_def False logger_finish_def)
qed

lemma call_answered:
  assumes "\<not> sy_dispatching s"
  shows "io_wp (log_call (recording E) (Suc (Suc depth)) request) (\<lambda>u. answered E s request l) (\<lambda>_. False) ((w, l), s)"
proof -
  have nested: "sy_dispatching s' \<Longrightarrow> io_wp (log_call (recording E) (Suc depth) r) (\<lambda>u. quiet l') (\<lambda>_. False) ((w', l'), s')"
    for r w' l' s' by (rule call_quiet)
  show ?thesis
    unfolding log_call.simps(2) [of _ "Suc depth"]
  proof (cases request)
    case (Req_write level tag source message details)
    show "io_wp (log_operation (log_call (recording E) (Suc depth)) (recording E) request)
        (\<lambda>u. answered E s request l) (\<lambda>_. False) ((w, l), s)"
      unfolding Req_write log_operation_def log_request.case Let_def or_default_def [symmetric]
      by (rule io_wp_mono [OF structured_wp [OF nested assms]]) (auto simp: answered_def Let_def)
  next
    case (Req_write_short level tag message details)
    show "io_wp (log_operation (log_call (recording E) (Suc depth)) (recording E) request)
        (\<lambda>u. answered E s request l) (\<lambda>_. False) ((w, l), s)"
      unfolding Req_write_short log_operation_def log_request.case Let_def or_default_def [symmetric]
      by (rule io_wp_mono [OF structured_wp [OF nested assms]])
         (auto simp: answered_def Let_def)
  next
    case (Req_stream tag items path line)
    show "io_wp (log_operation (log_call (recording E) (Suc depth)) (recording E) request)
        (\<lambda>u. answered E s request l) (\<lambda>_. False) ((w, l), s)"
      unfolding Req_stream by (rule stream_wp [OF nested assms])
  qed (use assms in \<open>simp_all add: log_operation_def answered_def\<close>)
qed

section \<open>The registry of sinks\<close>

definition sinks_ok :: "log_state \<Rightarrow> bool" where
  "sinks_ok s \<longleftrightarrow> (\<forall>x\<in>set (sy_sinks s). snd x \<noteq> 0) \<and> distinct (map fst (sy_sinks s))"

lemma registry_sinks [simp]:
  "sinks_ok s \<Longrightarrow> sinks_ok (registerLogConfig c s)" "sinks_ok s \<Longrightarrow> sinks_ok (removeLogConfig t s)"
  "sinks_ok s \<Longrightarrow> sinks_ok (changeLogConfig_path c p s)" "sinks_ok s \<Longrightarrow> sinks_ok (changeLogConfig c s)"
  "sinks_ok s \<Longrightarrow> sinks_ok (setMinimumLogLevel v s)" "sinks_ok s \<Longrightarrow> sinks_ok (snd (registerLogSink k s))"
  "sinks_ok s \<Longrightarrow> sinks_ok (unregisterLogSink h s)" "sinks_ok s \<Longrightarrow> sinks_ok (s\<lparr>sy_dispatching := b\<rparr>)"
  by (auto simp: registerLogConfig_def removeLogConfig_def changeLogConfig_path_def changeLogConfig_def
      setMinimumLogLevel_def registerLogSink_def unregisterLogSink_def sinks_ok_def distinct_map_filter)

definition keeps_sinks :: "('w, 'a) log_io \<Rightarrow> bool" where
  "keeps_sinks m \<longleftrightarrow> (\<forall>t. sinks_ok (snd t) \<longrightarrow> io_wp m (\<lambda>v t'. sinks_ok (snd t')) (\<lambda>_. True) t)"

lemma keeps_bind: "keeps_sinks m \<Longrightarrow> (\<And>v. keeps_sinks (f v)) \<Longrightarrow> keeps_sinks (io_bind m f)"
  unfolding keeps_sinks_def io_wp_bind by (blast intro: io_wp_mono)

lemma keeps_basic:
  "keeps_sinks (io_return v)" "keeps_sinks io_pending" "keeps_sinks (log_get f)" "keeps_sinks (log_ask g)"
  "keeps_sinks (log_act h)" "(\<And>s. sinks_ok s \<Longrightarrow> sinks_ok (k s)) \<Longrightarrow> keeps_sinks (log_set k)"
  by (simp_all add: keeps_sinks_def log_ask_def log_act_def io_wp_call split: prod.splits)

lemma keeps_if: "keeps_sinks m \<Longrightarrow> keeps_sinks m' \<Longrightarrow> keeps_sinks (if b then m else m')"
  by simp

lemmas keeps_rules = keeps_bind keeps_basic keeps_if

lemma keeps_output: "keeps_sinks (output_record E profile m)"
proof -
  have "keeps_sinks (mkdir_loop E current rest)" for current rest
    by (induction rest arbitrary: current) (auto simp: Let_def intro!: keeps_rules)
  then show ?thesis
    by (auto simp: output_record_def outputLogFile_def createDirectoryRecursive_def intro!: keeps_rules split: option.splits)
qed

lemma keeps_clock: "keeps_sinks (local_clock E pre)" "keeps_sinks (getTimestampUtc E)"
  by (auto simp: local_clock_def getLocalDate_def getLocalTime_def getTimestampUtc_def Let_def intro!: keeps_rules)

lemma keeps_items: "keeps_sinks (logger_items items L)"
  by (simp add: keeps_sinks_def)

lemma keeps_requests: "(\<And>r. keeps_sinks (nested r)) \<Longrightarrow> keeps_sinks (run_requests nested rs)"
  by (induction rs) (auto intro!: keeps_rules)

lemma keeps_dispatch:
  assumes "\<And>r. keeps_sinks (nested r)"
  shows "keeps_sinks (dispatchLogRecord nested E record profile m)"
proof -
  have "keeps_sinks (sink_loop nested E record sinks)" for sinks
    by (induction sinks) (auto intro!: keeps_rules keeps_requests assms split: prod.splits)
  then show ?thesis
    by (auto simp: dispatchLogRecord_def intro!: keeps_rules keeps_output split: prod.splits)
qed

lemma keeps_operation:
  assumes "\<And>r. keeps_sinks (nested r)"
  shows "keeps_sinks (log_operation nested E request)"
  by (cases request)
     (auto simp: log_operation_def writeStructuredLog_def Logger_new_def logger_finish_def log_finalize_def Let_def
       intro!: keeps_rules keeps_dispatch keeps_clock keeps_items assms split: option.splits prod.splits)

lemma keeps_call: "keeps_sinks (log_call E depth request)"
  by (induction depth arbitrary: request) (auto intro!: keeps_rules keeps_operation)

section \<open>Sequences of requests\<close>

text \<open>Requests of a program, one after the other, from the start.\<close>

definition log_program :: "'w log_env \<Rightarrow> nat \<Rightarrow> log_request list \<Rightarrow> 'w \<Rightarrow> unit outcome \<times> 'w recorded" where
  "log_program E depth rs w = run_requests (log_call (recording E) depth) rs ((w, []), log_state_new)"

lemma log_program_state:
  assumes "log_program E (Suc (Suc depth)) rs w = (v, (w1, l1), s1)"
  shows "v = Done ()" and "\<not> sy_dispatching s1" and "sinks_ok s1"
proof -
  have step: "io_wp (run_requests (log_call (recording E) (Suc (Suc depth))) rs)
      (\<lambda>u t. \<not> sy_dispatching (snd t) \<and> sinks_ok (snd t)) (\<lambda>_. False) t"
    if "\<not> sy_dispatching (snd t)" "sinks_ok (snd t)" for t
    using that
  proof (induction rs arbitrary: t)
    case Nil
    then show ?case by simp
  next
    case (Cons r rs)
    obtain w l s where t: "t = ((w, l), s)" by (metis surj_pair)
    have "io_wp (log_call (recording E) (Suc (Suc depth)) r) (\<lambda>u t. \<not> sy_dispatching (snd t)) (\<lambda>_. False) t"
      unfolding t by (rule io_wp_mono [OF call_answered])
        (use Cons.prems t in \<open>auto simp: answered_def logged_def split: option.splits prod.splits\<close>)
    moreover have "io_wp (log_call (recording E) (Suc (Suc depth)) r) (\<lambda>u t. sinks_ok (snd t)) (\<lambda>_. True) t"
      using keeps_call [of "recording E" "Suc (Suc depth)" r] Cons.prems(2) unfolding keeps_sinks_def by blast
    ultimately have "io_wp (log_call (recording E) (Suc (Suc depth)) r)
        (\<lambda>u t. \<not> sy_dispatching (snd t) \<and> sinks_ok (snd t)) (\<lambda>_. False) t"
      by (auto simp: io_wp_def split: prod.splits outcome.splits)
    then show ?case
      unfolding run_requests.simps io_wp_bind by (rule io_wp_mono) (auto simp del: log_call.simps intro!: Cons.IH)
  qed
  have "\<not> sy_dispatching log_state_new" "sinks_ok log_state_new" by (simp_all add: log_state_new_def sinks_ok_def)
  then have "io_wp (run_requests (log_call (recording E) (Suc (Suc depth))) rs)
      (\<lambda>u t. \<not> sy_dispatching (snd t) \<and> sinks_ok (snd t)) (\<lambda>_. False) ((w, []), log_state_new)"
    by (intro step) simp_all
  then show "v = Done ()" "\<not> sy_dispatching s1" "sinks_ok s1"
    using assms by (auto simp: log_program_def io_wp_def split: outcome.splits)
qed

lemma call_returns:
  assumes "\<not> sy_dispatching s"
  shows "\<exists>t'. log_call (recording E) (Suc (Suc depth)) request ((w, l), s) = (Done (), t') \<and> answered E s request l t'"
  using call_answered [OF assms, where E = E and depth = depth and request = request and w = w and l = l]
  by (auto simp: io_wp_def split: prod.splits outcome.splits)

text \<open>
  C39. The delivery of synchronous records.  After any requests of a program, a further request
  returns -- sinks may log and change the registry from within, and two levels of calls are enough for
  whatever they do --, and it hands its record to every sink registered when it began exactly once,
  if it makes a record and the level lets it through, and to no sink otherwise; what the sinks log is
  handed to no sink, and a sink that throws keeps the record from none.  Then the thread may dispatch
  again, and the handles of the registered sinks are distinct.
\<close>

theorem sync_log_delivery:
  assumes "\<forall>xs. mset (lv_order E xs) = mset xs"
    and "log_program E (Suc (Suc depth)) rs w = (v, (w1, l1), s1)"
  shows "v = Done () \<and> \<not> sy_dispatching s1 \<and> distinct (map fst (sy_sinks s1))
    \<and> (\<exists>timestamp w2 l2 s2. log_call (recording E) (Suc (Suc depth)) request ((w1, l1), s1) = (Done (), (w2, l1 @ l2), s2)
        \<and> \<not> sy_dispatching s2
        \<and> mset (deliveries l2) = (case request_record s1 timestamp request of
            None \<Rightarrow> {#}
          | Some record \<Rightarrow>
              if log_level_passes (sy_minimum s1) (rc_level record)
              then image_mset (\<lambda>x. (snd x, record)) (mset (sy_sinks s1)) else {#}))"
proof -
  note state = log_program_state [OF assms(2)]
  obtain w2 l' s2 where run: "log_call (recording E) (Suc (Suc depth)) request ((w1, l1), s1) = (Done (), (w2, l'), s2)"
    and answer: "answered E s1 request l1 ((w2, l'), s2)"
    using call_returns [OF state(2)] by (metis surj_pair)
  have all: "filter (\<lambda>x. snd x \<noteq> 0) (lv_order E (sy_sinks s1)) = lv_order E (sy_sinks s1)"
    using state(3) assms(1) mset_eq_setD [of "lv_order E (sy_sinks s1)" "sy_sinks s1"]
    by (auto simp: sinks_ok_def filter_id_conv)
  have "mset (record_deliveries E s1 r) = image_mset (\<lambda>x. (snd x, r)) (mset (sy_sinks s1))" for r
    unfolding record_deliveries_def all using assms(1) by (metis mset_map)
  then have delivered: "mset (record_deliveries E s1 r) = image_mset (\<lambda>x. (snd x, r)) (mset (sy_sinks s1))" for r
    by simp
  obtain t date time where answer_at: "case request_record s1 t request of
       None \<Rightarrow> \<not> sy_dispatching s2 \<and> l' = l1
     | Some r \<Rightarrow> logged E s1 r (request_profile s1 request) (request_text s1 date time r request) l1 ((w2, l'), s2)"
    using answer by (auto simp: answered_def)
  have "\<exists>l2. l' = l1 @ l2 \<and> \<not> sy_dispatching s2 \<and> mset (deliveries l2) = (case request_record s1 t request of
            None \<Rightarrow> {#}
          | Some r \<Rightarrow> if log_level_passes (sy_minimum s1) (rc_level r)
              then image_mset (\<lambda>x. (snd x, r)) (mset (sy_sinks s1)) else {#})"
  proof (cases "request_record s1 t request")
    case None
    then show ?thesis using answer_at by simp
  next
    case (Some r)
    show ?thesis
    proof (cases "log_level_passes (sy_minimum s1) (rc_level r)")
      case True
      then obtain failed rest where l': "l' = l1 @ output_events (request_profile s1 request)
            (request_text s1 date time r request) failed @ rest"
        and rest: "deliveries rest = record_deliveries E s1 r" and flag: "\<not> sy_dispatching s2"
        using answer_at Some by (auto simp: logged_def)
      then show ?thesis using Some True delivered [of r] by (intro exI conjI) (rule l', auto)
    next
      case False
      then show ?thesis using answer_at Some state(2) by (simp add: logged_def)
    qed
  qed
  then obtain l2 where "l' = l1 @ l2" "\<not> sy_dispatching s2" "mset (deliveries l2) = (case request_record s1 t request of
            None \<Rightarrow> {#}
          | Some r \<Rightarrow> if log_level_passes (sy_minimum s1) (rc_level r)
              then image_mset (\<lambda>x. (snd x, r)) (mset (sy_sinks s1)) else {#})" by blast
  then show ?thesis using run state unfolding sinks_ok_def by blast
qed

text \<open>
  C40. The text of synchronous records.  A request writes, before any sink is called, exactly one text to
  the outputs its profile names, and the profile is that of its tag -- of the engine's own tag for the
  short form --: one call of the console, and one append to the file after the file's directories
  were created one by one; only where a recorded creation failed the file is not written.  The structured
  text holds the level, tag, source, message and details, and a stream statement the profile's prefix, the
  file's name and line, and its items each behind the separator.  A record below the level, a stream
  whose tag has no profile or one without output, and every other request write nothing at all.
\<close>

theorem sync_log_text:
  assumes "log_program E (Suc (Suc depth)) rs w = (v, (w1, l1), s1)"
    and "log_call (recording E) (Suc (Suc depth)) request ((w1, l1), s1) = (Done (), (w2, l2), s2)"
  shows "\<exists>timestamp date time failed rest. l2 = l1 @ (case request_record s1 timestamp request of
      None \<Rightarrow> []
    | Some r \<Rightarrow>
        if log_level_passes (sy_minimum s1) (rc_level r)
        then output_events (request_profile s1 request) (request_text s1 date time r request) failed @ rest
        else [])
    \<and> (rest = [] \<or> (\<exists>k r es. rest = Ev_sink k r # es))"
proof -
  have "answered E s1 request l1 ((w2, l2), s2)"
    using call_returns [OF log_program_state(2) [OF assms(1)], of E depth request w1 l1] assms(2) by auto
  then obtain t date time where answer: "case request_record s1 t request of
       None \<Rightarrow> \<not> sy_dispatching s2 \<and> l2 = l1
     | Some r \<Rightarrow> logged E s1 r (request_profile s1 request) (request_text s1 date time r request) l1 ((w2, l2), s2)"
    by (auto simp: answered_def)
  show ?thesis
  proof (cases "request_record s1 t request")
    case None
    then show ?thesis using answer by (intro exI [of _ t] exI [of _ "[]"]) auto
  next
    case (Some r)
    then have logged: "logged E s1 r (request_profile s1 request) (request_text s1 date time r request) l1 ((w2, l2), s2)"
      using answer by simp
    show ?thesis
    proof (cases "log_level_passes (sy_minimum s1) (rc_level r)")
      case True
      then obtain failed rest where l2: "l2 = l1 @ output_events (request_profile s1 request)
            (request_text s1 date time r request) failed @ rest" and rest: "sink_first r rest"
        using logged by (auto simp: logged_def)
      have "rest = [] \<or> (\<exists>k r es. rest = Ev_sink k r # es)" using rest by (auto simp: sink_first_def)
      then show ?thesis
        using Some True l2 by (intro exI [of _ t] exI [of _ date] exI [of _ time] exI [of _ failed] exI [of _ rest]) simp
    next
      case False
      then show ?thesis
        using Some logged by (intro exI [of _ t] exI [of _ date] exI [of _ time] exI [of _ 0] exI [of _ "[]"]) (simp add: logged_def)
    qed
  qed
qed

section \<open>Changes of a profile\<close>

lemma normalizePath_idem [simp]: "normalizePath (normalizePath p) = normalizePath p"
  by (simp add: normalizePath_def)

text \<open>The helpers for separator, prefix and suffix change that field alone, whatever path a registered
  profile has; the one for the mode replaces the path too, also when it is called without one.\<close>

definition paths_normal :: "log_state \<Rightarrow> bool" where
  "paths_normal s \<longleftrightarrow> (\<forall>tag p. sy_profiles s tag = Some p \<longrightarrow> normalizePath (pf_fullpath p) = pf_fullpath p)"

lemma registered_paths_normal:
  "paths_normal log_state_new" "paths_normal s \<Longrightarrow> paths_normal (registerLogConfig c s)"
  "paths_normal s \<Longrightarrow> paths_normal (removeLogConfig tag s)" "paths_normal s \<Longrightarrow> paths_normal (changeLogConfig_path c q s)"
  by (simp_all add: paths_normal_def log_state_new_def registerLogConfig_def removeLogConfig_def
      changeLogConfig_path_def config_profile_def)

lemma changeLog_field:
  assumes "paths_normal s" and "sy_profiles s tag = Some p"
  shows "changeLog_separate tag v s = s\<lparr>sy_profiles := (sy_profiles s)(tag \<mapsto> p\<lparr>pf_separate := v\<rparr>)\<rparr>"
    "changeLog_prefix tag v s = s\<lparr>sy_profiles := (sy_profiles s)(tag \<mapsto> p\<lparr>pf_prefix := v\<rparr>)\<rparr>"
    "changeLog_suffix tag v s = s\<lparr>sy_profiles := (sy_profiles s)(tag \<mapsto> p\<lparr>pf_suffix := v\<rparr>)\<rparr>"
  using assms
  by (cases p; simp add: paths_normal_def changeLog_separate_def changeLog_prefix_def changeLog_suffix_def make_config_def
      changeLogConfig_path_def config_profile_def log_fullpath_def log_mode_def log_separator_def log_prefix_def log_suffix_def;
      metis sLogProfile.select_convs(5))+

lemma changeLog_mode_resets_path:
  assumes "sy_profiles s tag = Some p"
  shows "changeLog_mode tag mode '''' '''' s
    = s\<lparr>sy_profiles := (sy_profiles s)(tag \<mapsto> p\<lparr>pf_mode := mode, pf_fullpath := ''/''\<rparr>)\<rparr>"
  using assms
  by (cases p) (simp add: changeLog_mode_def make_config_def changeLogConfig_def changeLogConfig_path_def config_path_def
      config_profile_def log_separator_def log_prefix_def log_suffix_def normalizePath_def)

section \<open>An example\<close>

text \<open>One sink, which logs by itself and throws, and a console.\<close>

definition sample_log_env :: "unit log_env" where
  "sample_log_env =
     \<lparr>lv_console = (\<lambda>m w. w), lv_mkdir = (\<lambda>d w. (True, w)), lv_append = (\<lambda>p m w. w), lv_flush = (\<lambda>w. w),
      lv_time = (\<lambda>w. (0, w)), lv_milliseconds = (\<lambda>w. (0, w)), lv_now = (\<lambda>w. (0, w)),
      lv_localtime = (\<lambda>t. \<lparr>tm_sec = 0, tm_min = 0, tm_hour = 0, tm_mday = 1, tm_mon = 0, tm_year = 70\<rparr>),
      lv_gmtime = (\<lambda>t. ''1970-01-01T00:00:00''), lv_order = (\<lambda>xs. xs),
      lv_on_log = (\<lambda>k r w. (([Req_write Level_Error '''' '''' ''nested'' ''''], True), w))\<rparr>"

definition sample_log_requests :: "log_request list" where
  "sample_log_requests =
     [Req_register \<lparr>lc_tag = ''WSE'', lc_mode = Mode_CONSOLE, lc_separate = 1, lc_prefix = Prefix_NONE,
        lc_suffix = 1, lc_path = '''', lc_name = ''''\<rparr>, Req_sink 7]"

definition sample_log_state :: log_state where
  "sample_log_state = snd (registerLogSink 7 (registerLogConfig \<lparr>lc_tag = ''WSE'', lc_mode = Mode_CONSOLE,
     lc_separate = 1, lc_prefix = Prefix_NONE, lc_suffix = 1, lc_path = '''', lc_name = ''''\<rparr> log_state_new))"

lemma sample_log_program:
  "log_program sample_log_env (Suc (Suc 0)) sample_log_requests () = (Done (), ((), []), sample_log_state)"
  by (simp add: log_program_def sample_log_requests_def sample_log_state_def log_operation_def io_bind_def
      io_return_def log_set_def io_do_def)

lemma sample_log_sinks: "sy_sinks sample_log_state = [(1, 7)]" "sy_minimum sample_log_state = Level_Info"
  by (simp_all add: sample_log_state_def registerLogSink_def registerLogConfig_def log_state_new_def)

lemma sync_log_delivery_witness:
  "\<exists>timestamp w2 l2 s2.
     log_call (recording sample_log_env) (Suc (Suc 0)) (Req_write Level_Error '''' '''' ''hello'' '''') (((), []), sample_log_state)
       = (Done (), (w2, l2), s2)
     \<and> mset (deliveries l2) = {#(7, \<lparr>rc_timestamp = timestamp, rc_level = Level_Error, rc_tag = ''WSE'', rc_source = ''WSE'',
         rc_message = ''hello'', rc_details = ''''\<rparr>)#}"
proof -
  have order: "\<forall>xs. mset (lv_order sample_log_env xs) = mset xs" by (simp add: sample_log_env_def)
  show ?thesis
    using sync_log_delivery [OF order sample_log_program, of "Req_write Level_Error '''' '''' ''hello'' ''''"]
    by (simp add: sample_log_sinks log_level_passes_def or_default_def WSE_TAG_def) blast
qed

lemma sync_log_text_witness:
  "\<exists>w2 s2 date time rest.
     log_call (recording sample_log_env) (Suc (Suc 0)) (Req_stream ''WSE'' [Item_text ''n'', Item_number 5] '''' 0)
       (((), []), sample_log_state)
     = (Done (), (w2, Ev_console (''<WSE> n 5'' @ [CHR 0x0A]) # rest), s2)"
proof -
  let ?request = "Req_stream ''WSE'' [Item_text ''n'', Item_number 5] '''' 0"
  have flag: "\<not> sy_dispatching sample_log_state" using log_program_state(2) [OF sample_log_program] .
  obtain w2 l2 s2 where run: "log_call (recording sample_log_env) (Suc (Suc 0)) ?request (((), []), sample_log_state)
      = (Done (), (w2, l2), s2)"
    using call_returns [OF flag] by (metis surj_pair)
  have profile: "sy_profiles sample_log_state ''WSE'' = Some \<lparr>pf_mode = Mode_CONSOLE, pf_separate = 1,
      pf_prefix = Prefix_NONE, pf_suffix = 1, pf_fullpath = ''/''\<rparr>"
    by (simp add: sample_log_state_def registerLogSink_def registerLogConfig_def log_state_new_def config_profile_def
        config_path_def normalizePath_def)
  have number: "show_int 5 = ''5''"
    by code_simp
  show ?thesis
    using sync_log_text [OF sample_log_program run] run
    by (auto simp: profile sample_log_sinks log_level_passes_def tag_level_def WSE_DEV_TAG_def output_events_def
        stream_message_def getLogSeparator_def formatLogMessage_def profile_config_def getLogPrefix_def
        getLogSuffix_def END_LINE_def number Let_def)
qed

end
