(* ===== verification/TcpCorrect.thy ===== *)
theory TcpCorrect
  imports SocketLedger
begin

text \<open>
  The TCP client owns what it opens: whatever the operating system answers, every operation leaves
  exactly the socket of the client open, closes every other it opened once, and uses none that is not
  open; what it reports as sent or received is what the system accepted or delivered.
\<close>

section \<open>What the operations do to the ledger\<close>

definition tcp_owned :: "TcpClient \<Rightarrow> nat multiset" where
  "tcp_owned client = (case client of None \<Rightarrow> {#} | Some c \<Rightarrow> (case tc_socket c of None \<Rightarrow> {#} | Some h \<Rightarrow> {#h#}))"

lemma tcp_owned_simps [simp]:
  "tcp_owned None = {#}" "tcp_owned (Some TcpClient_new) = {#}"
  "tc_socket c = Some h \<Longrightarrow> tcp_owned (Some c) = {#h#}"
  "tc_socket c = None \<Longrightarrow> tcp_owned (Some c) = {#}"
  by (simp_all add: tcp_owned_def TcpClient_new_def)

lemma tcp_close_ledger:
  assumes "lg_open l = tcp_owned (Some c) + F" and "\<And>w'. Q TcpClient_new (w', l\<lparr>lg_open := F\<rparr>)"
  shows "io_wp (tcp_close (ledgered A) c) Q R (w, l)"
proof (cases "tc_socket c")
  case None
  then have "l\<lparr>lg_open := F\<rparr> = l" using assms(1) by simp
  then show ?thesis using assms(2) None by (simp add: tcp_close_def)
next
  case (Some h)
  then show ?thesis using assms by (simp add: tcp_close_def)
qed

lemma tcp_localEndpoint_quiet [intro!]:
  assumes "h \<in># lg_open l" and "\<And>v w'. Q v (w', l)"
  shows "io_wp (tcp_localEndpoint (ledgered A) h) Q R (w, l)"
  unfolding tcp_localEndpoint_def using assms by (auto split: option.splits)

lemma tcp_wait_quiet [intro!]:
  assumes "h \<in># lg_open l" and "\<And>v w'. Q v (w', l)" and "\<And>w'. R (w', l)"
  shows "io_wp (tcp_wait (ledgered A) h k d t fuel) Q R (w, l)"
  unfolding tcp_wait_def using assms by (auto intro!: wait_quiet)

lemma tcp_establish_quiet [intro!]:
  assumes "h \<in># lg_open l" and "\<And>v w'. Q v (w', l)" and "\<And>w'. R (w', l)"
  shows "io_wp (tcp_establish (ledgered A) fuel d t h a) Q R (w, l)"
  unfolding tcp_establish_def using assms by (auto split: option.splits)

text \<open>Trying the addresses opens the socket it answers and no other.\<close>

definition lg_opened :: "nat \<Rightarrow> ledger \<Rightarrow> ledger" where
  "lg_opened h l = l\<lparr>lg_open := add_mset h (lg_open l)\<rparr>"

lemma lg_opened_simps [simp]:
  "lg_open (lg_opened h l) = add_mset h (lg_open l)" "lg_misused (lg_opened h l) = lg_misused l"
  "(lg_opened h l)\<lparr>lg_open := H\<rparr> = l\<lparr>lg_open := H\<rparr>" "l\<lparr>lg_open := add_mset h (lg_open l)\<rparr> = lg_opened h l"
  "lg_sent (lg_opened h l) = lg_sent l" "lg_received (lg_opened h l) = lg_received l"
  "lg_departed (lg_opened h l) = lg_departed l" "lg_arrived (lg_opened h l) = lg_arrived l"
  by (simp_all add: lg_opened_def)

lemma tcp_try_ledger:
  "io_wp (tcp_try_addresses (ledgered A) fuel d t as e)
     (\<lambda>v s. snd s = (case v of Inl _ \<Rightarrow> l | Inr h \<Rightarrow> lg_opened h l)) (\<lambda>s. True) (w, l)"
proof (induction as arbitrary: w e)
  case Nil show ?case by simp
next
  case (Cons a as)
  show ?case by (auto split: option.splits sum.splits simp: Cons.IH)
qed

lemma tcp_connect_ledger:
  assumes "lg_open l = tcp_owned client + F"
  shows "io_wp (tcp_connect (ledgered A) fuel ep ctx client)
     (\<lambda>(r, client') s. snd s = l\<lparr>lg_open := tcp_owned client' + F\<rparr>) (\<lambda>s. True) (w, l)"
proof (cases client)
  case None then show ?thesis using assms by (simp add: tcp_connect_def)
next
  case (Some c)
  have same: "l\<lparr>lg_open := tcp_owned client + F\<rparr> = l" using assms by simp
  have attempt: "io_wp (tcp_try_addresses (ledgered A) fuel d t as e)
      (\<lambda>v. io_wp (case v of Inl e \<Rightarrow> io_return (Failure e, Some TcpClient_new)
         | Inr h \<Rightarrow> io_bind (tcp_localEndpoint (ledgered A) h) (\<lambda>loc.
             io_return (Success (), Some \<lparr>tc_socket = Some h, tc_remote = ep, tc_local = loc\<rparr>)))
        (\<lambda>(r, client') s. snd s = l\<lparr>lg_open := tcp_owned client' + F\<rparr>) (\<lambda>s. True)) (\<lambda>s. True)
      (w', l\<lparr>lg_open := F\<rparr>)" for d t as e w'
    by (rule io_wp_mono [OF tcp_try_ledger]) (auto split: sum.splits)
  show ?thesis
    using same assms Some unfolding tcp_connect_def
    by (auto intro!: tcp_close_ledger [where F = F] attempt)
qed

lemma tcp_disconnect_ledger:
  assumes "lg_open l = tcp_owned client + F"
  shows "io_wp (tcp_disconnect (ledgered A) client)
     (\<lambda>client' s. snd s = l\<lparr>lg_open := tcp_owned client' + F\<rparr>) (\<lambda>s. True) (w, l)"
  using assms by (cases client) (auto simp: tcp_disconnect_def intro!: tcp_close_ledger [where F = F])

lemma tcp_peek_ledger:
  assumes "lg_open l = tcp_owned (Some c) + F" and "tc_socket c = Some h"
  shows "io_wp (tcp_peek (ledgered A) c h n)
     (\<lambda>(r, c') s. snd s = l\<lparr>lg_open := tcp_owned (Some c') + F\<rparr>) (\<lambda>s. True) (w, l)"
  using assms
proof (induction n arbitrary: w)
  case 0
  then show ?case by (auto intro!: tcp_close_ledger [where F = F])
next
  case (Suc n)
  have same: "l\<lparr>lg_open := tcp_owned (Some c) + F\<rparr> = l" using Suc.prems by simp
  have op: "h \<in># lg_open l" using Suc.prems by simp
  show ?case using same op Suc.prems Suc.IH
    by (auto split: sum.splits intro!: tcp_close_ledger [where F = F])
qed

lemma tcp_check_ledger:
  assumes "lg_open l = tcp_owned client + F"
  shows "io_wp (tcp_checkPeerConnection (ledgered A) client)
     (\<lambda>(r, client') s. snd s = l\<lparr>lg_open := tcp_owned client' + F\<rparr>) (\<lambda>s. True) (w, l)"
proof -
  have same: "l\<lparr>lg_open := tcp_owned client + F\<rparr> = l" using assms by simp
  show ?thesis
    using same assms unfolding tcp_checkPeerConnection_def
    by (auto split: option.splits intro!: io_wp_mono [OF tcp_peek_ledger [where F = F]])
qed

section \<open>Transfers\<close>

text \<open>The bytes sent are a prefix of the data, the reported number of them, all when no error is
  reported and fewer when one is.\<close>

definition sent_exactly :: "ledger \<Rightarrow> nat multiset \<Rightarrow> bytes \<Rightarrow> nat TransferResult \<times> TcpClient \<Rightarrow> ledger \<Rightarrow> bool" where
  "sent_exactly l F data rc l' \<longleftrightarrow> (case rc of (r, client') \<Rightarrow>
     l' = l\<lparr>lg_open := tcp_owned client' + F, lg_sent := lg_sent l @ take (pr_value r) data\<rparr> \<and>
     pr_value r \<le> length data \<and>
     (if te_ok (pr_error r) then pr_value r = length data else pr_value r < length data \<or> data = []))"

lemma transfer_simps [simp]:
  "pr_value (transferred v) = v" "pr_error (transferred v) = TransportError_none"
  "pr_value (transfer_failed v e) = v" "pr_error (transfer_failed v e) = e"
  "\<not> te_ok peer_closed" "\<not> te_ok not_connected" "te_ok TransportError_none"
  by (simp_all add: transferred_def transfer_failed_def partial_success_def peer_closed_def not_connected_def te_ok_def TransportError_none_def)

lemma tcp_close_sent:
  assumes "lg_open l = tcp_owned (Some c) + F"
  shows "io_wp (tcp_close (ledgered A) c)
     (\<lambda>v s. v = TcpClient_new \<and> snd s = l\<lparr>lg_open := F\<rparr>) R (w, l)"
  using assms by (auto intro!: tcp_close_ledger [where F = F])

lemma tcp_send_loop_ledger:
  assumes "sends_within A" and "tc_socket c = Some h" and "lg_open l = tcp_owned (Some c) + F" and "k \<le> length data"
  shows "io_wp (tcp_send_loop (ledgered A) h data d t fuel k c)
     (\<lambda>(r, c') s. sent_exactly l F data (r, Some c') (snd s)) (\<lambda>s. True)
     (w, l\<lparr>lg_sent := lg_sent l @ take k data\<rparr>)"
  using assms(4)
proof (induction fuel arbitrary: w k)
  case 0 then show ?case by simp
next
  case (Suc fuel)
  let ?l = "\<lambda>k. l\<lparr>lg_sent := lg_sent l @ take k data\<rparr>"
  have op: "h \<in># lg_open (?l k)" and own: "lg_open (?l k) = tcp_owned (Some c) + F"
    using assms(2,3) by simp_all
  have grow: "(?l k)\<lparr>lg_sent := lg_sent (?l k) @ take n (take m (drop k data))\<rparr> = ?l (k + n)" if "n \<le> m" for n m
    using that by (simp add: take_add min_absorb1)
  have closing: "io_wp (tcp_close (ledgered A) c) (\<lambda>v. io_wp (io_return (transfer_failed k e, v))
      (\<lambda>(r, c') s. sent_exactly l F data (r, Some c') (snd s)) (\<lambda>s. True)) (\<lambda>s. True) (w', ?l k)"
    if "\<not> te_ok e" "k < length data" for e w'
    using that by (intro io_wp_mono [OF tcp_close_sent [OF own]]) (auto simp: sent_exactly_def)
  have stay: "sent_exactly l F data (transfer_failed k e, Some c) (?l k)" if "\<not> te_ok e" "k < length data" for e
    using that assms(3) by (simp add: sent_exactly_def)
  show ?case
  proof (cases "k < length data")
    case False
    then show ?thesis using Suc.prems assms(3) by (simp add: sent_exactly_def)
  next
    case True
    let ?bs = "take (min (length data - k) int_max) (drop k data)"
    have send: "io_wp (io_call (sk_send (ledgered A) h ?bs)) Q R (w', ?l k)"
      if inl: "\<And>e w'. Q (Inl e) (w', ?l k)" and inr: "\<And>n w'. k + n \<le> length data \<Longrightarrow> Q (Inr n) (w', ?l (k + n))" for Q R w'
    proof -
      have "Q (Inr n) (w', (?l k)\<lparr>lg_sent := lg_sent (?l k) @ take n ?bs\<rparr>)" if n: "n \<le> length ?bs" for n w'
      proof -
        have "k + n \<le> length data" and m: "n \<le> min (length data - k) int_max" using n True by auto
        then show ?thesis unfolding grow [OF m] by (intro inr)
      qed
      then show ?thesis using op inl by (intro ledgered_send [OF assms(1)])
    qed
    show ?thesis
      using True op closing stay by (auto intro!: send simp: Let_def Suc.IH split: sum.splits)
  qed
qed

lemma validation_not_ok: "\<not> te_ok (TransportError_make XCat_InputOutput X_ResourceExhausted m n)"
  by simp

lemma sent_nothing:
  assumes "lg_open l = tcp_owned client + F" and "\<not> te_ok e" and "k = 0"
  shows "sent_exactly l F data (transfer_failed k e, client) l"
  using assms by (auto simp: sent_exactly_def)

lemma tcp_send_ledger:
  assumes "sends_within A" and "lg_open l = tcp_owned client + F"
  shows "io_wp (tcp_send (ledgered A) fuel data n ctx client)
     (\<lambda>rc s. sent_exactly l F (case data of None \<Rightarrow> [] | Some d \<Rightarrow> take n d) rc (snd s)) (\<lambda>s. True) (w, l)"
proof (cases "tcp_isConnected client \<and> data \<noteq> None \<and> OperationContext_isValid ctx \<and> n \<noteq> 0")
  case False
  then show ?thesis using sent_nothing [OF assms(2)]
    by (auto simp: tcp_send_def sent_exactly_def assms(2) split: option.splits)
next
  case True
  then obtain c h d where c: "client = Some c" "tc_socket c = Some h" "data = Some d"
    by (auto simp: tcp_isConnected_def split: option.splits)
  have loop: "io_wp (tcp_send_loop (ledgered A) h (take n d) dl tk fuel 0 c)
     (\<lambda>(r, c') s. sent_exactly l F (take n d) (r, Some c') (snd s)) (\<lambda>s. True) (w', l)" for dl tk w'
    using tcp_send_loop_ledger [OF assms(1) c(2), of l F 0 "take n d"] assms(2) c(1) by simp
  show ?thesis using True c
    by (auto simp: tcp_send_def split: prod.splits intro!: io_wp_mono [OF loop])
qed

text \<open>The bytes received are the bytes reported, at most the limit, and some exactly when no error is
  reported.\<close>

definition received_exactly :: "ledger \<Rightarrow> nat multiset \<Rightarrow> nat \<Rightarrow> bytes TransferResult \<times> TcpClient \<Rightarrow> ledger \<Rightarrow> bool" where
  "received_exactly l F limit rc l' \<longleftrightarrow> (case rc of (r, client') \<Rightarrow>
     l' = l\<lparr>lg_open := tcp_owned client' + F, lg_received := lg_received l @ pr_value r\<rparr> \<and>
     length (pr_value r) \<le> limit \<and> (te_ok (pr_error r) \<longleftrightarrow> pr_value r \<noteq> []))"

lemma tcp_receive_loop_ledger:
  assumes "receives_within A" and "tc_socket c = Some h" and "lg_open l = tcp_owned (Some c) + F"
  shows "io_wp (tcp_receive_loop (ledgered A) h limit d t fuel c)
     (\<lambda>(r, c') s. received_exactly l F limit (r, Some c') (snd s)) (\<lambda>s. True) (w, l)"
proof (induction fuel arbitrary: w)
  case 0 then show ?case by simp
next
  case (Suc fuel)
  have op: "h \<in># lg_open l" using assms(2,3) by simp
  have closing: "io_wp (tcp_close (ledgered A) c) (\<lambda>v. io_wp (io_return (transfer_failed [] e, v))
      (\<lambda>(r, c') s. received_exactly l F limit (r, Some c') (snd s)) (\<lambda>s. True)) (\<lambda>s. True) (w', l)"
    if "\<not> te_ok e" for e w'
    using that by (intro io_wp_mono [OF tcp_close_sent [OF assms(3)]]) (auto simp: received_exactly_def)
  have stay: "received_exactly l F limit (transfer_failed [] e, Some c) l" if "\<not> te_ok e" for e
    using that assms(3) by (simp add: received_exactly_def)
  have got: "received_exactly l F limit (transferred bs, Some c) (l\<lparr>lg_received := lg_received l @ bs\<rparr>)"
    if "bs \<noteq> []" "length bs \<le> limit" for bs
    using that assms(3) by (simp add: received_exactly_def)
  show ?case
    using op closing stay got assms(3)
    by (auto intro!: ledgered_recv [OF assms(1)] simp: Let_def Suc.IH split: sum.splits)
qed

lemma tcp_receive_ledger:
  assumes "receives_within A" and "lg_open l = tcp_owned client + F"
  shows "io_wp (tcp_receive (ledgered A) fuel alloc_ok limit ctx client)
     (\<lambda>rc s. received_exactly l F limit rc (snd s)) (\<lambda>s. True) (w, l)"
proof (cases "tcp_isConnected client")
  case False
  then show ?thesis by (simp add: tcp_receive_def received_exactly_def assms(2) flip: assms(2))
next
  case True
  then obtain c h where c: "client = Some c" "tc_socket c = Some h"
    by (auto simp: tcp_isConnected_def split: option.splits)
  have loop: "io_wp (tcp_receive_loop (ledgered A) h limit dl tk fuel c)
     (\<lambda>(r, c') s. received_exactly l F limit (r, Some c') (snd s)) (\<lambda>s. True) (w', l)" for dl tk w'
    using tcp_receive_loop_ledger [OF assms(1) c(2)] assms(2) c(1) by simp
  have stay: "received_exactly l F limit (transfer_failed [] e, client) l" if "\<not> te_ok e" for e
    using that assms(2) by (simp add: received_exactly_def)
  show ?thesis using True c stay
    by (auto simp: tcp_receive_def split: prod.splits intro!: io_wp_mono [OF loop])
qed

end
