(* ===== verification/SocketReturns.thy ===== *)
theory SocketReturns
  imports SocketLedger
begin

text \<open>
  Every operation of the socket clients returns, and none reaches undefined behaviour, when the steady
  clock advances between two readings and, on POSIX, handles are below \<open>FD_SETSIZE\<close>.
\<close>

section \<open>Time\<close>

text \<open>\<open>tick\<close> is a lower bound of the next reading of the clock in a world.  Readings are 64-bit counts of
  nanoseconds; each but the last possible one is followed by a greater one.\<close>

definition keeps :: "('w \<Rightarrow> int) \<Rightarrow> ('w \<Rightarrow> 'a \<times> 'w) \<Rightarrow> bool" where
  "keeps tick f \<longleftrightarrow> (\<forall>w. tick w \<le> tick (snd (f w)))"

definition clock_advances :: "'w socket_api \<Rightarrow> ('w \<Rightarrow> int) \<Rightarrow> bool" where
  "clock_advances A tick \<longleftrightarrow>
     (\<forall>w. tick w \<le> fst (sk_now A w) \<and> fst (sk_now A w) \<le> tick (snd (sk_now A w)) \<and>
          (fst (sk_now A w) < clock_max \<longrightarrow> fst (sk_now A w) < tick (snd (sk_now A w))) \<and>
          fst (sk_now A w) \<le> clock_max) \<and>
     (\<forall>t. keeps tick (sk_cancelled A t)) \<and> keeps tick (sk_startup A) \<and>
     (\<forall>n p f b. keeps tick (sk_resolve A n p f b)) \<and>
     (\<forall>a b. keeps tick (sk_socket A a b)) \<and> (\<forall>h. keeps tick (sk_nonblock A h)) \<and>
     (\<forall>h a. keeps tick (sk_connect A h a)) \<and> (\<forall>h a. keeps tick (sk_bind A h a)) \<and>
     (\<forall>h k s. keeps tick (sk_select A h k s)) \<and> (\<forall>h. keeps tick (sk_so_error A h)) \<and>
     (\<forall>h. keeps tick (sk_getsockname A h)) \<and> (\<forall>a. keeps tick (sk_getnameinfo A a)) \<and>
     (\<forall>h. keeps tick (sk_peek A h)) \<and> (\<forall>h bs. keeps tick (sk_send A h bs)) \<and>
     (\<forall>h n. keeps tick (sk_recv A h n)) \<and> (\<forall>h bs a. keeps tick (sk_sendto A h bs a)) \<and>
     (\<forall>h n. keeps tick (sk_recvmsg A h n)) \<and>
     (\<forall>h w. tick w \<le> tick (sk_shutdown A h w)) \<and> (\<forall>h w. tick w \<le> tick (sk_close A h w))"

definition selectable :: "'w socket_api \<Rightarrow> nat \<Rightarrow> bool" where
  "selectable A h \<longleftrightarrow> sk_windows A \<or> h < fd_setsize"

definition sockets_selectable :: "'w socket_api \<Rightarrow> bool" where
  "sockets_selectable A \<longleftrightarrow> (\<forall>a b w h w'. sk_socket A a b w = (Inr h, w') \<longrightarrow> selectable A h)"

text \<open>A call that keeps the time may answer anything.\<close>

lemma io_wp_keeps:
  assumes "keeps tick f" and "\<And>v w'. tick w \<le> tick w' \<Longrightarrow> Q v w'"
  shows "io_wp (io_call f) Q R w"
  using assms by (auto simp: io_wp_call keeps_def split: prod.splits) (metis snd_conv)

lemma clock_advances_keeps:
  assumes "clock_advances A tick"
  shows "keeps tick (sk_cancelled A t)" "keeps tick (sk_startup A)" "keeps tick (sk_resolve A n p f b)"
    "keeps tick (sk_socket A a b)" "keeps tick (sk_nonblock A h)" "keeps tick (sk_connect A h a)"
    "keeps tick (sk_bind A h a)" "keeps tick (sk_select A h k s)" "keeps tick (sk_so_error A h)"
    "keeps tick (sk_getsockname A h)" "keeps tick (sk_getnameinfo A ad)" "keeps tick (sk_peek A h)"
    "keeps tick (sk_send A h bs)" "keeps tick (sk_recv A h n')" "keeps tick (sk_sendto A h bs a)"
    "keeps tick (sk_recvmsg A h n')"
  using assms by (simp_all add: clock_advances_def del: split_paired_All)

lemma clock_advances_close:
  assumes "clock_advances A tick"
  shows "tick w \<le> tick (closeSocket A h w)" "tick w \<le> tick (shutdownSocket A h w)"
  using assms by (auto simp: clock_advances_def closeSocket_def shutdownSocket_def split: option.splits)

lemmas call_keeps = clock_advances_keeps [THEN io_wp_keeps]

lemma io_wp_now:
  assumes "clock_advances A tick"
    and "\<And>v w'. tick w \<le> v \<Longrightarrow> v \<le> tick w' \<Longrightarrow> (v < clock_max \<Longrightarrow> v < tick w') \<Longrightarrow> v \<le> clock_max \<Longrightarrow> Q v w'"
  shows "io_wp (io_call (sk_now A)) Q R w"
proof -
  obtain v w' where v: "sk_now A w = (v, w')" by fastforce
  have "tick w \<le> fst (sk_now A w) \<and> fst (sk_now A w) \<le> tick (snd (sk_now A w)) \<and>
      (fst (sk_now A w) < clock_max \<longrightarrow> fst (sk_now A w) < tick (snd (sk_now A w))) \<and> fst (sk_now A w) \<le> clock_max"
    using assms(1) unfolding clock_advances_def by (elim conjE) (drule spec, assumption)
  then show ?thesis using v by (auto simp: io_wp_call intro: assms(2))
qed

lemma io_wp_socket:
  assumes "clock_advances A tick" and "sockets_selectable A"
    and "\<And>e w'. tick w \<le> tick w' \<Longrightarrow> Q (Inl e) w'"
    and "\<And>h w'. tick w \<le> tick w' \<Longrightarrow> selectable A h \<Longrightarrow> Q (Inr h) w'"
  shows "io_wp (io_call (sk_socket A a b)) Q R w"
proof -
  obtain v w' where v: "sk_socket A a b w = (v, w')" by fastforce
  have "tick w \<le> tick w'" using clock_advances_keeps(4) [OF assms(1)] v by (auto simp: keeps_def) (metis snd_conv)
  moreover have "selectable A h" if "v = Inr h" for h
    using assms(2) v that unfolding sockets_selectable_def by blast
  ultimately show ?thesis using assms(3,4) v by (cases v) (auto simp: io_wp_call)
qed

section \<open>Deadlines\<close>

text \<open>A deadline is the timeout from now, or the end of time when that does not fit.\<close>

lemma deadline_from_exact:
  assumes "0 \<le> now" and "now \<le> clock_max" and "OperationContext_isValid ctx"
  shows "deadline_from now ctx =
     Some (if (clock_max - now) div 1000000 \<le> to_duration (oc_timeout ctx) then clock_max
           else now + to_duration (oc_timeout ctx) * 1000000)"
proof -
  define d where "d = to_duration (oc_timeout ctx)"
  have d: "0 \<le> d" using assms(3) by (simp add: d_def OperationContext_isValid_def Timeout_isValid_def)
  have room: "i64_sub clock_max now = Some (clock_max - now)"
    using assms(1,2) by (simp add: in_i64_def clock_max_def)
  have div: "cpp_div (clock_max - now) 1000000 = (clock_max - now) div 1000000"
    using assms(2) by (simp add: cpp_div_nonneg)
  show ?thesis
  proof (cases "(clock_max - now) div 1000000 \<le> d")
    case True then show ?thesis by (simp add: deadline_from_def room div flip: d_def)
  next
    case False
    then have "d * 1000000 \<le> clock_max - now" using d by linarith
    then have "in_i64 (d * 1000000)" "in_i64 (now + d * 1000000)"
      using d assms(1,2) by (auto simp: in_i64_def clock_max_def)
    then show ?thesis using False by (simp add: deadline_from_def room div i64_mul_def i64_add_def flip: d_def)
  qed
qed

lemma deadline_from_defined:
  assumes "0 \<le> now" and "now \<le> clock_max" and "OperationContext_isValid ctx"
  obtains d where "deadline_from now ctx = Some d" "d \<le> clock_max"
proof (rule that [OF deadline_from_exact [OF assms]])
  show "(if (clock_max - now) div 1000000 \<le> to_duration (oc_timeout ctx) then clock_max
        else now + to_duration (oc_timeout ctx) * 1000000) \<le> clock_max"
    by (auto simp: not_le)
qed

section \<open>Waiting returns\<close>

text \<open>A wait that is given a unit of fuel for every nanosecond that remains returns; when it reports
  readiness it has read the clock before the deadline.\<close>

lemma wait_returns:
  assumes "clock_advances A tick" and "selectable A h" and "d \<le> clock_max"
    and "0 \<le> tick w" and "0 < fuel" and "d - tick w < int fuel" and "\<And>code. \<not> te_ok (failed code)"
  shows "io_wp (waitForSocket A failed h k d t fuel)
     (\<lambda>v w'. tick w \<le> tick w' \<and> (te_ok v \<longrightarrow> tick w < d \<and> tick w < tick w')) (\<lambda>_. False) w"
  using assms(4-6)
proof (induction fuel arbitrary: w)
  case 0 then show ?case by simp
next
  case (Suc fuel)
  have again: "io_wp (waitForSocket A failed h k d t fuel)
      Q R w'"
    if "tick w < tick w'" "tick w < d" "\<And>v w''. tick w < tick w'' \<Longrightarrow> Q v w''" for Q R w'
  proof (rule io_wp_mono [OF Suc.IH])
    show "0 \<le> tick w'" "0 < fuel" "d - tick w' < int fuel" using Suc.prems that(1,2) by linarith+
  qed (use that(1) in \<open>auto intro: that(3)\<close>)
  have range: "i64_sub d now = Some (d - now)" if "now < d" "tick w \<le> tick w'" "tick w' \<le> now" for now w'
    using that Suc.prems(1) assms(3) by (auto simp: i64_sub_def in_i64_def clock_max_def)
  show ?case
    using assms(2,3,7) by (auto intro!: call_keeps(1) [OF assms(1)] io_wp_now [OF assms(1)] call_keeps(8) [OF assms(1)] again
      simp: range not_le selectable_def split: select_result.splits)
qed

section \<open>The TCP client returns\<close>

text \<open>What is left of an operation after the deadline is computed: fuel for every nanosecond.\<close>

definition fuel_of_deadlines :: nat where
  "fuel_of_deadlines = 2 ^ 63 + 2"

definition tcp_held :: "'w socket_api \<Rightarrow> TcpClient \<Rightarrow> bool" where
  "tcp_held A client \<longleftrightarrow> (\<forall>c h. client = Some c \<and> tc_socket c = Some h \<longrightarrow> selectable A h)"

lemma tcp_held_simps [simp]:
  "tcp_held A None" "tcp_held A (Some TcpClient_new)"
  "tcp_held A (Some \<lparr>tc_socket = Some h, tc_remote = r, tc_local = l\<rparr>) \<longleftrightarrow> selectable A h"
  by (simp_all add: tcp_held_def TcpClient_new_def)

lemma deadline_returns:
  assumes "clock_advances A tick" and "0 \<le> tick w" and "OperationContext_isValid ctx"
    and "\<And>d w'. tick w \<le> tick w' \<Longrightarrow> d \<le> clock_max \<Longrightarrow> Q d w'"
  shows "io_wp (operationDeadline A ctx) Q R w"
  unfolding operationDeadline_def io_wp_bind
proof (rule io_wp_now [OF assms(1)])
  fix v w' assume v: "tick w \<le> v" "v \<le> tick w'" "v \<le> clock_max"
  obtain d where "deadline_from v ctx = Some d" "d \<le> clock_max"
    by (rule deadline_from_defined [of v ctx]) (use v assms(2,3) in auto)
  then show "io_wp (io_option (deadline_from v ctx)) Q R w'" using v assms(4) by simp
qed

lemma tcp_close_returns:
  assumes "clock_advances A tick" and "\<And>w'. tick w \<le> tick w' \<Longrightarrow> Q TcpClient_new w'"
  shows "io_wp (tcp_close A c) Q R w"
  using assms(2) clock_advances_close [OF assms(1)] by (simp add: tcp_close_def) (meson order_trans)

lemma tcp_wait_returns:
  assumes "clock_advances A tick" and "selectable A h" and "d \<le> clock_max" and "0 \<le> tick w" and "0 < fuel"
    and "d - tick w < int fuel"
    and "\<And>v w'. tick w \<le> tick w' \<Longrightarrow> (te_ok v \<Longrightarrow> tick w < d \<and> tick w < tick w') \<Longrightarrow> Q v w'"
  shows "io_wp (tcp_wait A h k d t fuel) Q R w"
  unfolding tcp_wait_def
  by (rule io_wp_mono [OF wait_returns [OF assms(1-6)]]) (auto intro: assms(7))

lemma tcp_localEndpoint_returns:
  assumes "clock_advances A tick" and "\<And>v w'. tick w \<le> tick w' \<Longrightarrow> Q v w'"
  shows "io_wp (tcp_localEndpoint A h) Q R w"
  unfolding tcp_localEndpoint_def
  by (auto intro!: call_keeps(10,11) [OF assms(1)] assms(2) split: option.splits)

lemma clock_max_positive: "clock_max < int fuel \<Longrightarrow> 0 < fuel"
  by (simp add: clock_max_def)

lemma tcp_establish_returns:
  assumes "clock_advances A tick" and "selectable A h" and "d \<le> clock_max" and "0 \<le> tick w"
    and "clock_max < int fuel" and "\<And>v w'. tick w \<le> tick w' \<Longrightarrow> Q v w'"
  shows "io_wp (tcp_establish A fuel d t h a) Q R w"
  unfolding tcp_establish_def using assms(3-5) clock_max_positive [OF assms(5)]
  by (auto intro!: call_keeps(6,9) [OF assms(1)] tcp_wait_returns [OF assms(1,2)] assms(6) split: option.splits)

lemma tcp_try_returns:
  assumes "clock_advances A tick" and "sockets_selectable A" and "d \<le> clock_max" and "clock_max < int fuel"
    and "0 \<le> tick w" and "\<And>v w'. tick w \<le> tick w' \<Longrightarrow> (\<And>h. v = Inr h \<Longrightarrow> selectable A h) \<Longrightarrow> Q v w'"
  shows "io_wp (tcp_try_addresses A fuel d t as e) Q R w"
  using assms(5,6)
proof (induction as arbitrary: w e)
  case Nil then show ?case by auto
next
  case (Cons a as)
  have again: "io_wp (tcp_try_addresses A fuel d t as e') Q R w'" if "tick w \<le> tick w'" for e' w'
    using that Cons.prems by (intro Cons.IH) auto
  have closed: "tick w \<le> tick w' \<Longrightarrow> tick w \<le> tick (closeSocket A h w')" for w' h
    using clock_advances_close(1) [OF assms(1)] by (meson order_trans)
  have failed: "Q (Inl e') w'" if "tick w \<le> tick w'" for e' w'
    using that by (auto intro: Cons.prems(2))
  have found: "Q (Inr h) w'" if "tick w \<le> tick w'" "selectable A h" for h w'
    using that by (auto intro: Cons.prems(2))
  show ?case using Cons.prems(1) assms(3,4)
    by (auto intro!: failed found call_keeps(1,5) [OF assms(1)] io_wp_now [OF assms(1)] io_wp_socket [OF assms(1,2)]
        tcp_establish_returns [OF assms(1)] again closed split: option.splits sum.splits)
qed

lemma tcp_connect_returns:
  assumes "clock_advances A tick" and "sockets_selectable A" and "0 \<le> tick w" and "fuel_of_deadlines \<le> fuel"
    and "tcp_held A client"
  shows "io_wp (tcp_connect A fuel ep ctx client) (\<lambda>(r, client') w'. tcp_held A client' \<and> tick w \<le> tick w') (\<lambda>_. False) w"
proof -
  have fuel: "clock_max < int fuel" using assms(4) by (simp add: fuel_of_deadlines_def clock_max_def)
  show ?thesis
    unfolding tcp_connect_def initializeSockets_def using assms(3,5) fuel
    by (auto intro!: call_keeps(1,2,3) [OF assms(1)] tcp_close_returns [OF assms(1)] deadline_returns [OF assms(1)]
        tcp_try_returns [OF assms(1,2)] tcp_localEndpoint_returns [OF assms(1)] split: option.splits sum.splits)
qed

lemma tcp_send_loop_returns:
  assumes "clock_advances A tick" and "selectable A h" and "d \<le> clock_max" and "tc_socket c = Some h"
    and "0 \<le> tick w" and "2 \<le> fuel" and "d - tick w + 2 \<le> int fuel"
  shows "io_wp (tcp_send_loop A h data d t fuel k c)
     (\<lambda>(r, c') w'. tcp_held A (Some c') \<and> tick w \<le> tick w') (\<lambda>_. False) w"
  using assms(5-7)
proof (induction fuel arbitrary: w k)
  case 0 then show ?case by simp
next
  case (Suc fuel)
  have held: "tcp_held A (Some c)" using assms(2,4) by (simp add: tcp_held_def)
  have again: "io_wp (tcp_send_loop A h data d t fuel k' c)
      (\<lambda>(r, c') w'. tcp_held A (Some c') \<and> tick w \<le> tick w') (\<lambda>_. False) w'"
    if "tick w < tick w'" "tick w < d" for k' w'
  proof (rule io_wp_mono [OF Suc.IH])
    show "0 \<le> tick w'" "2 \<le> fuel" "d - tick w' + 2 \<le> int fuel" using Suc.prems that by linarith+
  qed (use that(1) in auto)
  show ?case using Suc.prems assms(3) held
    by (auto intro!: tcp_wait_returns [OF assms(1,2)] call_keeps(13) [OF assms(1)] tcp_close_returns [OF assms(1)] again
        simp: Let_def split: sum.splits)
qed

lemma tcp_receive_loop_returns:
  assumes "clock_advances A tick" and "selectable A h" and "d \<le> clock_max" and "tc_socket c = Some h"
    and "0 \<le> tick w" and "2 \<le> fuel" and "d - tick w + 2 \<le> int fuel"
  shows "io_wp (tcp_receive_loop A h limit d t fuel c)
     (\<lambda>(r, c') w'. tcp_held A (Some c') \<and> tick w \<le> tick w') (\<lambda>_. False) w"
  using assms(5-7)
proof (induction fuel arbitrary: w)
  case 0 then show ?case by simp
next
  case (Suc fuel)
  have held: "tcp_held A (Some c)" using assms(2,4) by (simp add: tcp_held_def)
  have again: "io_wp (tcp_receive_loop A h limit d t fuel c)
      (\<lambda>(r, c') w'. tcp_held A (Some c') \<and> tick w \<le> tick w') (\<lambda>_. False) w'"
    if "tick w < tick w'" "tick w < d" for w'
  proof (rule io_wp_mono [OF Suc.IH])
    show "0 \<le> tick w'" "2 \<le> fuel" "d - tick w' + 2 \<le> int fuel" using Suc.prems that by linarith+
  qed (use that(1) in auto)
  show ?case using Suc.prems assms(3) held
    by (auto intro!: tcp_wait_returns [OF assms(1,2)] call_keeps(14) [OF assms(1)] tcp_close_returns [OF assms(1)] again
        simp: Let_def split: sum.splits)
qed

lemma fuel_for_deadline:
  assumes "fuel_of_deadlines \<le> fuel" and "d \<le> clock_max" and "0 \<le> t"
  shows "2 \<le> fuel" "d - t + 2 \<le> int fuel"
  using assms by (auto simp: fuel_of_deadlines_def clock_max_def)

lemma tcp_transfer_returns:
  assumes "clock_advances A tick" and "0 \<le> tick w" and "fuel_of_deadlines \<le> fuel" and "tcp_held A client"
  shows "io_wp (tcp_send A fuel data n ctx client) (\<lambda>(r, client') w'. tcp_held A client' \<and> tick w \<le> tick w') (\<lambda>_. False) w"
    and "io_wp (tcp_receive A fuel alloc_ok limit ctx client) (\<lambda>(r, client') w'. tcp_held A client' \<and> tick w \<le> tick w')
      (\<lambda>_. False) w"
proof -
  have socket: "selectable A h" if "client = Some c" "tc_socket c = Some h" for c h
    using assms(4) that by (simp add: tcp_held_def)
  have send: "io_wp (tcp_send_loop A h ds d t fuel 0 c) (\<lambda>v. io_wp (case v of (r, c) \<Rightarrow> io_return (r, Some c))
      (\<lambda>(r, client') w'. tcp_held A client' \<and> tick w \<le> tick w') (\<lambda>_. False)) (\<lambda>_. False) w'"
    if "client = Some c" "tc_socket c = Some h" "d \<le> clock_max" "tick w \<le> tick w'" for h ds d t c w'
    by (rule io_wp_mono [OF tcp_send_loop_returns [OF assms(1) socket [OF that(1,2)] that(3,2)]])
      (use that assms(2) fuel_for_deadline [OF assms(3) that(3)] in auto)
  have recv: "io_wp (tcp_receive_loop A h lim d t fuel c) (\<lambda>v. io_wp (case v of (r, c) \<Rightarrow> io_return (r, Some c))
      (\<lambda>(r, client') w'. tcp_held A client' \<and> tick w \<le> tick w') (\<lambda>_. False)) (\<lambda>_. False) w'"
    if "client = Some c" "tc_socket c = Some h" "d \<le> clock_max" "tick w \<le> tick w'" for h lim d t c w'
    by (rule io_wp_mono [OF tcp_receive_loop_returns [OF assms(1) socket [OF that(1,2)] that(3,2)]])
      (use that assms(2) fuel_for_deadline [OF assms(3) that(3)] in auto)
  show "io_wp (tcp_send A fuel data n ctx client) (\<lambda>(r, client') w'. tcp_held A client' \<and> tick w \<le> tick w') (\<lambda>_. False) w"
    using assms(2,4) by (auto simp: tcp_send_def tcp_isConnected_def intro!: deadline_returns [OF assms(1)] send
        split: option.splits)
  show "io_wp (tcp_receive A fuel alloc_ok limit ctx client) (\<lambda>(r, client') w'. tcp_held A client' \<and> tick w \<le> tick w')
      (\<lambda>_. False) w"
    using assms(2,4) by (auto simp: tcp_receive_def tcp_isConnected_def intro!: deadline_returns [OF assms(1)] recv
        split: option.splits)
qed

lemma tcp_peek_returns:
  assumes "clock_advances A tick" and "tcp_held A (Some c)"
  shows "io_wp (tcp_peek A c h n) (\<lambda>(r, c') w'. tcp_held A (Some c') \<and> tick w \<le> tick w') (\<lambda>_. False) w"
proof (induction n arbitrary: w)
  case 0 show ?case by (auto intro!: tcp_close_returns [OF assms(1)])
next
  case (Suc n)
  have again: "io_wp (tcp_peek A c h n) (\<lambda>(r, c') w'. tcp_held A (Some c') \<and> tick w \<le> tick w') (\<lambda>_. False) w'"
    if "tick w \<le> tick w'" for w'
    by (rule io_wp_mono [OF Suc.IH]) (use that in auto)
  show ?case using assms(2)
    by (auto intro!: call_keeps(12) [OF assms(1)] tcp_close_returns [OF assms(1)] again split: sum.splits)
qed

lemma tcp_check_returns:
  assumes "clock_advances A tick" and "tcp_held A client"
  shows "io_wp (tcp_checkPeerConnection A client) (\<lambda>(r, client') w'. tcp_held A client' \<and> tick w \<le> tick w') (\<lambda>_. False) w"
  using assms(2) by (auto simp: tcp_checkPeerConnection_def split: option.splits intro!: io_wp_mono [OF tcp_peek_returns [OF assms(1)]])

lemma tcp_disconnect_returns:
  assumes "clock_advances A tick" and "tcp_held A client"
  shows "io_wp (tcp_disconnect A client) (\<lambda>client' w'. tcp_held A client' \<and> tick w \<le> tick w') (\<lambda>_. False) w"
  by (auto simp: tcp_disconnect_def split: option.splits intro!: tcp_close_returns [OF assms(1)])

end
