(* ===== verification/UdpCorrect.thy ===== *)
theory UdpCorrect
  imports SocketReturns
begin

text \<open>
  The UDP client: what every operation does to the ledger of open handles and datagrams, and that every
  operation returns.
\<close>

section \<open>Handles and datagrams\<close>

definition udp_owned :: "UdpClient \<Rightarrow> nat multiset" where
  "udp_owned client = (case client of None \<Rightarrow> {#} | Some c \<Rightarrow> (case uc_socket c of None \<Rightarrow> {#} | Some h \<Rightarrow> {#h#}))"

lemma udp_owned_simps [simp]:
  "udp_owned None = {#}" "udp_owned (Some UdpClient_new) = {#}"
  "uc_socket c = Some h \<Longrightarrow> udp_owned (Some c) = {#h#}"
  "uc_socket c = None \<Longrightarrow> udp_owned (Some c) = {#}"
  by (simp_all add: udp_owned_def UdpClient_new_def)

lemma udp_result_simps [simp]:
  "pr_value (udp_done v) = v" "pr_error (udp_done v) = TransportError_none"
  "pr_value (udp_failed v e) = v" "pr_error (udp_failed v e) = e"
  "\<not> te_ok not_atomic" "\<not> te_ok no_destination" "\<not> te_ok (datagram_truncated n)"
  "\<not> te_ok (messageTooLargeValidationError m)" "\<not> te_ok (resolutionError n m)" "te_ok TransportError_none"
  by (simp_all add: udp_done_def udp_failed_def partial_success_def not_atomic_def no_destination_def
      datagram_truncated_def messageTooLargeValidationError_def resolutionError_def te_ok_def TransportError_none_def)

lemma udp_close_ledger:
  assumes "lg_open l = udp_owned (Some c) + F" and "\<And>w'. Q UdpClient_new (w', l\<lparr>lg_open := F\<rparr>)"
  shows "io_wp (udp_close_impl (ledgered A) c) Q R (w, l)"
proof (cases "uc_socket c")
  case None
  then have "l\<lparr>lg_open := F\<rparr> = l" using assms(1) by simp
  then show ?thesis using assms(2) None by (simp add: udp_close_impl_def)
next
  case (Some h)
  then show ?thesis using assms by (simp add: udp_close_impl_def)
qed

lemma udp_endpoints_quiet [intro!]:
  "(\<And>v w'. Q v (w', l)) \<Longrightarrow> io_wp (endpointFromAddress (ledgered A) a) Q R (w, l)"
  "h \<in># lg_open l \<Longrightarrow> (\<And>v w'. Q v (w', l)) \<Longrightarrow> io_wp (udp_localEndpoint (ledgered A) h) Q R (w, l)"
proof -
  show endpoint: "io_wp (endpointFromAddress (ledgered A) a) Q R (w, l)" if "\<And>v w'. Q v (w', l)" for Q R w a
    unfolding endpointFromAddress_def using that by (auto split: option.splits)
  show "io_wp (udp_localEndpoint (ledgered A) h) Q R (w, l)" if "h \<in># lg_open l" "\<And>v w'. Q v (w', l)"
    unfolding udp_localEndpoint_def using that by (auto intro!: endpoint split: option.splits)
qed

lemma udp_wait_quiet [intro!]:
  assumes "h \<in># lg_open l" and "\<And>v w'. Q v (w', l)" and "\<And>w'. R (w', l)"
  shows "io_wp (udp_wait (ledgered A) h k d t fuel) Q R (w, l)"
  unfolding udp_wait_def using assms by (auto intro!: wait_quiet)

lemma udp_disconnect_ledger:
  assumes "lg_open l = udp_owned client + F"
  shows "io_wp (udp_close (ledgered A) client)
     (\<lambda>client' s. snd s = l\<lparr>lg_open := udp_owned client' + F\<rparr>) (\<lambda>s. True) (w, l)"
  using assms by (cases client) (auto simp: udp_close_def intro!: udp_close_ledger [where F = F])

lemma udp_try_bind_ledger:
  "io_wp (udp_try_bind (ledgered A) d t as e)
     (\<lambda>v s. snd s = (case v of Inl _ \<Rightarrow> l | Inr (h, _) \<Rightarrow> l\<lparr>lg_open := add_mset h (lg_open l)\<rparr>)) (\<lambda>s. True) (w, l)"
proof (induction as arbitrary: w e)
  case Nil show ?case by simp
next
  case (Cons a as)
  show ?case by (auto split: option.splits sum.splits simp: Cons.IH)
qed

text \<open>A bind that fails leaves the client, its socket included, and the handles as they were.\<close>

definition bound_or_unchanged ::
    "ledger \<Rightarrow> nat multiset \<Rightarrow> UdpClient \<Rightarrow> TransportStatus \<times> UdpClient \<Rightarrow> ledger \<Rightarrow> bool" where
  "bound_or_unchanged l F client rc l' \<longleftrightarrow> (case rc of (r, client') \<Rightarrow>
     l' = l\<lparr>lg_open := udp_owned client' + F\<rparr> \<and>
     (case r of Success _ \<Rightarrow> udp_isOpen client' \<and> Endpoint_isValid (udp_getLocalEndpoint client')
      | Failure e \<Rightarrow> client' = client))"

lemma udp_try_bind_valid:
  "io_wp (udp_try_bind (ledgered A) d t as e)
     (\<lambda>v s. snd s = (case v of Inl _ \<Rightarrow> l | Inr (h, _) \<Rightarrow> l\<lparr>lg_open := add_mset h (lg_open l)\<rparr>) \<and>
        (case v of Inl _ \<Rightarrow> True | Inr (_, _, loc) \<Rightarrow> Endpoint_isValid loc)) (\<lambda>s. True) (w, l)"
proof (induction as arbitrary: w e)
  case Nil show ?case by simp
next
  case (Cons a as)
  show ?case by (auto split: option.splits sum.splits simp: Cons.IH)
qed

lemma udp_bind_ledger:
  assumes "lg_open l = udp_owned client + F"
  shows "io_wp (udp_bind (ledgered A) ep ctx client)
     (\<lambda>rc s. bound_or_unchanged l F client rc (snd s)) (\<lambda>s. True) (w, l)"
proof (cases client)
  case None then show ?thesis using assms by (simp add: udp_bind_def bound_or_unchanged_def)
next
  case (Some c)
  have stay: "bound_or_unchanged l F client (Failure e, client) l" for e
    using assms by (simp add: bound_or_unchanged_def)
  have attempt: "io_wp (udp_try_bind (ledgered A) d t as e)
      (\<lambda>v. io_wp (case v of Inl e \<Rightarrow> io_return (Failure e, client)
         | Inr (h, family, loc) \<Rightarrow> io_bind (udp_close_impl (ledgered A) c) (\<lambda>closed.
             io_return (Success (), Some \<lparr>uc_socket = Some h, uc_family = family, uc_local = loc\<rparr>)))
        (\<lambda>rc s. bound_or_unchanged l F client rc (snd s)) (\<lambda>s. True)) (\<lambda>s. True) (w', l)" for d t as e w'
  proof (rule io_wp_mono [OF udp_try_bind_valid])
    fix v :: "TransportError + nat \<times> int \<times> Endpoint" and s :: "'a \<times> ledger"
    assume v: "snd s = (case v of Inl _ \<Rightarrow> l | Inr (h, _) \<Rightarrow> l\<lparr>lg_open := add_mset h (lg_open l)\<rparr>) \<and>
        (case v of Inl _ \<Rightarrow> True | Inr (_, _, loc) \<Rightarrow> Endpoint_isValid loc)"
    obtain w'' l'' where s: "s = (w'', l'')" by (cases s)
    show "io_wp (case v of Inl e \<Rightarrow> io_return (Failure e, client)
         | Inr (h, family, loc) \<Rightarrow> io_bind (udp_close_impl (ledgered A) c) (\<lambda>closed.
             io_return (Success (), Some \<lparr>uc_socket = Some h, uc_family = family, uc_local = loc\<rparr>)))
        (\<lambda>rc s. bound_or_unchanged l F client rc (snd s)) (\<lambda>s. True) s"
    proof (cases v)
      case (Inl e) then show ?thesis using v s stay by simp
    next
      case (Inr x)
      obtain h family loc where x: "x = (h, family, loc)" by (cases x)
      then show ?thesis using v s Inr assms Some
        by (auto simp: bound_or_unchanged_def udp_isOpen_def udp_getLocalEndpoint_def
            intro!: udp_close_ledger [where F = "add_mset h F"])
    qed
  qed simp
  show ?thesis
    using stay Some unfolding udp_bind_def by (auto intro!: attempt [unfolded Some])
qed

section \<open>Sending\<close>

text \<open>A send reports success exactly when the system took the whole payload as one datagram, then the
  only one; a send that fails sent no whole datagram and leaves the client and the handles alone.\<close>

definition sent_once :: "ledger \<Rightarrow> nat multiset \<Rightarrow> bytes \<Rightarrow> UdpClient \<Rightarrow> nat udp_result \<times> UdpClient \<Rightarrow> ledger \<Rightarrow> bool" where
  "sent_once l F payload client rc l' \<longleftrightarrow> (case rc of (r, client') \<Rightarrow>
     if te_ok (pr_error r)
     then pr_value r = length payload \<and>
       (\<exists>a. l' = l\<lparr>lg_open := udp_owned client' + F, lg_departed := lg_departed l @ [(a, payload)]\<rparr>)
     else pr_value r = 0 \<and> client' = client \<and> l' = l)"

definition one_departed :: "ledger \<Rightarrow> bytes \<Rightarrow> sock_address \<Rightarrow> TransportError \<times> bool + unit \<Rightarrow> ledger \<Rightarrow> bool" where
  "one_departed l payload a v l' \<longleftrightarrow> (case v of
     Inl (e, _) \<Rightarrow> \<not> te_ok e \<and> l' = l | Inr _ \<Rightarrow> l' = l\<lparr>lg_departed := lg_departed l @ [(a, payload)]\<rparr>)"

lemma udp_send_one_ledger:
  assumes "h \<in># lg_open l"
  shows "io_wp (udp_send_one (ledgered A) h payload a d t fuel)
     (\<lambda>v s. one_departed l payload a v (snd s)) (\<lambda>s. True) (w, l)"
  using assms
proof (induction fuel arbitrary: w)
  case 0 then show ?case by simp
next
  case (Suc fuel)
  have "one_departed l payload a (Inl (e, s)) l" if "\<not> te_ok e" for e s
    using that by (simp add: one_departed_def)
  moreover have "one_departed l payload a (Inr u) (l\<lparr>lg_departed := lg_departed l @ [(a, payload)]\<rparr>)" for u
    by (simp add: one_departed_def)
  ultimately show ?case using Suc.prems by (auto simp: Suc.IH [OF Suc.prems])
qed

lemma one_departed_cases:
  assumes "one_departed l payload a v l'"
  obtains e stops where "v = Inl (e, stops)" "\<not> te_ok e" "l' = l"
    | u where "v = Inr u" "l' = l\<lparr>lg_departed := lg_departed l @ [(a, payload)]\<rparr>"
  using assms by (auto simp: one_departed_def split: sum.splits prod.splits)

lemma udp_send_addresses_ledger:
  assumes "lg_open l = udp_owned (Some c) + F" and "\<not> te_ok e"
  shows "io_wp (udp_send_addresses (ledgered A) fuel payload d t c as e)
     (\<lambda>(r, c') s. sent_once l F payload (Some c) (r, Some c') (snd s)) (\<lambda>s. True) (w, l)"
  using assms(2)
proof (induction as arbitrary: w e)
  case Nil then show ?case by (simp add: sent_once_def)
next
  case (Cons a as)
  have again: "io_wp (udp_send_addresses (ledgered A) fuel payload d t c as e')
     (\<lambda>(r, c') s. sent_once l F payload (Some c) (r, Some c') (snd s)) (\<lambda>s. True) (w', l)" if "\<not> te_ok e'" for e' w'
    by (rule Cons.IH [OF that])
  have failed: "sent_once l F payload (Some c) (udp_failed 0 e', Some c) l" if "\<not> te_ok e'" for e'
    using that by (simp add: sent_once_def)
  show ?case
  proof (cases "uc_socket c")
    case (Some h)
    then have op: "h \<in># lg_open l" and own: "lg_open l = add_mset h F" using assms(1) by simp_all
    have sent: "sent_once l F payload (Some c) (udp_done (length payload), Some c)
        (l\<lparr>lg_departed := lg_departed l @ [(a, payload)]\<rparr>)"
      using own Some by (auto simp: sent_once_def intro!: exI [of _ a])
    show ?thesis using Some sent failed
      by (auto intro!: io_wp_mono [OF udp_send_one_ledger [OF op]] again elim!: one_departed_cases)
  next
    case None
    then have own: "lg_open l = F" using assms(1) by simp
    have opened: "sent_once l F payload (Some c)
        (udp_done (length payload), Some \<lparr>uc_socket = Some h, uc_family = f, uc_local = e\<rparr>)
        (l\<lparr>lg_open := add_mset h (lg_open l), lg_departed := lg_departed l @ [(a, payload)]\<rparr>)" for h f e
      using own by (auto simp: sent_once_def intro!: exI [of _ a])
    have one: "io_wp (udp_send_one (ledgered A) h payload a d t fuel)
        (\<lambda>one. io_wp (case one of
            Inr u \<Rightarrow> io_bind (udp_localEndpoint (ledgered A) h) (\<lambda>local.
              io_return (udp_done (length payload), \<lparr>uc_socket = Some h, uc_family = sa_family a, uc_local = local\<rparr>))
          | Inl (e, stops) \<Rightarrow> io_bind (io_do (closeSocket (ledgered A) (Some h))) (\<lambda>u.
              if stops then io_return (udp_failed 0 e, c)
              else udp_send_addresses (ledgered A) fuel payload d t c as e))
          (\<lambda>(r, c') s. sent_once l F payload (Some c) (r, Some c') (snd s)) (\<lambda>s. True)) (\<lambda>s. True)
        (w', l\<lparr>lg_open := add_mset h (lg_open l)\<rparr>)" for h w'
      by (rule io_wp_mono [OF udp_send_one_ledger]) (auto intro!: again failed opened elim!: one_departed_cases)
    show ?thesis using None by (auto split: option.splits sum.splits intro!: again one)
  qed
qed

lemma udp_sendTo_ledger:
  assumes "lg_open l = udp_owned client + F"
  shows "io_wp (udp_sendTo (ledgered A) fuel ep data n ctx client)
     (\<lambda>rc s. sent_once l F (case data of None \<Rightarrow> [] | Some d \<Rightarrow> take n d) client rc (snd s)) (\<lambda>s. True) (w, l)"
proof (cases client)
  case None then show ?thesis by (simp add: udp_sendTo_def sent_once_def)
next
  case (Some c)
  let ?p = "case data of None \<Rightarrow> [] | Some d \<Rightarrow> take n d"
  have attempt: "io_wp (udp_send_addresses (ledgered A) fuel ?p d t c as no_destination)
     (\<lambda>v. io_wp (case v of (r, c') \<Rightarrow> io_return (r, Some c')) (\<lambda>rc s. sent_once l F ?p client rc (snd s)) (\<lambda>s. True))
     (\<lambda>s. True) (w', l)" for d t as w'
    by (rule io_wp_mono [OF udp_send_addresses_ledger [where F = F]]) (use assms Some in \<open>auto split: prod.splits\<close>)
  have failed: "sent_once l F p client (udp_failed 0 e, client) l" if "\<not> te_ok e" for e p
    using that by (simp add: sent_once_def)
  show ?thesis using attempt [unfolded Some] failed [unfolded Some] unfolding udp_sendTo_def Some
    by (auto simp del: lg_use_open)
qed

section \<open>Receiving\<close>

text \<open>A datagram is reported without error only when it fitted the buffer whole.\<close>

definition received_whole :: "ledger \<Rightarrow> nat \<Rightarrow> UdpDatagram udp_result \<Rightarrow> ledger \<Rightarrow> bool" where
  "received_whole l limit r l' \<longleftrightarrow>
     (let p = dg_payload (pr_value r) in
      if te_ok (pr_error r)
      then l' = l\<lparr>lg_arrived := lg_arrived l @ [(length p, p)]\<rparr> \<and> length p \<le> limit \<and>
        Endpoint_isValid (dg_source (pr_value r))
      else l' = l \<or> (\<exists>m bs. l' = l\<lparr>lg_arrived := lg_arrived l @ [(m, bs)]\<rparr> \<and> (p = bs \<or> p = [])))"

lemma received_none: "\<not> te_ok e \<Longrightarrow> received_whole l limit (udp_failed v e) l"
  by (simp add: received_whole_def Let_def)

lemma received_refused:
  "\<not> te_ok e \<Longrightarrow> dg_payload v = bs \<or> dg_payload v = [] \<Longrightarrow>
     received_whole l limit (udp_failed v e) (l\<lparr>lg_arrived := lg_arrived l @ [(m, bs)]\<rparr>)"
  by (auto simp: received_whole_def Let_def)

lemma received_good:
  "m = length bs \<Longrightarrow> m \<le> limit \<Longrightarrow> dg_payload v = bs \<Longrightarrow> Endpoint_isValid (dg_source v) \<Longrightarrow>
     received_whole l limit (udp_done v) (l\<lparr>lg_arrived := lg_arrived l @ [(m, bs)]\<rparr>)"
  by (auto simp: received_whole_def Let_def)

lemma udp_receive_loop_ledger:
  assumes "stores_within A" and "h \<in># lg_open l"
  shows "io_wp (udp_receive_loop (ledgered A) h limit d t fuel)
     (\<lambda>r s. received_whole l limit r (snd s)) (\<lambda>s. True) (w, l)"
proof (induction fuel arbitrary: w)
  case 0 then show ?case by simp
next
  case (Suc fuel)
  have got: "io_wp (udp_deliver (ledgered A) limit m bs flag a) (\<lambda>r s. received_whole l limit r (snd s)) (\<lambda>s. True)
      (w', l\<lparr>lg_arrived := lg_arrived l @ [(m, bs)]\<rparr>)"
    if "length bs = min m limit" "sk_windows A \<longrightarrow> m \<le> limit" for m bs flag a w'
    using that by (auto simp: udp_deliver_def Let_def UdpDatagram_none_def min_def
        intro!: received_refused received_good)
  show ?case using assms(2) received_none got
    by (auto intro!: ledgered_recvmsg [OF assms(1)] simp: Suc.IH split: sum.splits)
qed

lemma udp_receive_ledger:
  assumes "stores_within A" and "lg_open l = udp_owned client + F"
  shows "io_wp (udp_receiveFrom (ledgered A) fuel alloc_ok limit ctx client)
     (\<lambda>r s. received_whole l limit r (snd s)) (\<lambda>s. True) (w, l)"
proof -
  have op: "the (uc_socket (the client)) \<in># lg_open l" if "udp_isOpen client"
    using that assms(2) by (auto simp: udp_isOpen_def split: option.splits)
  show ?thesis unfolding udp_receiveFrom_def using op
    by (auto intro!: udp_receive_loop_ledger [OF assms(1)] received_none)
qed

section \<open>The UDP client returns\<close>

definition udp_held :: "'w socket_api \<Rightarrow> UdpClient \<Rightarrow> bool" where
  "udp_held A client \<longleftrightarrow> (\<forall>c h. client = Some c \<and> uc_socket c = Some h \<longrightarrow> selectable A h)"

lemma udp_held_simps [simp]:
  "udp_held A None" "udp_held A (Some UdpClient_new)"
  "udp_held A (Some \<lparr>uc_socket = Some h, uc_family = f, uc_local = l\<rparr>) \<longleftrightarrow> selectable A h"
  by (simp_all add: udp_held_def UdpClient_new_def)

lemma udp_close_returns:
  assumes "clock_advances A tick" and "\<And>w'. tick w \<le> tick w' \<Longrightarrow> Q UdpClient_new w'"
  shows "io_wp (udp_close_impl A c) Q R w"
  using assms(2) clock_advances_close [OF assms(1)] by (simp add: udp_close_impl_def)

lemma udp_wait_returns:
  assumes "clock_advances A tick" and "selectable A h" and "d \<le> clock_max" and "0 \<le> tick w" and "0 < fuel"
    and "d - tick w < int fuel"
    and "\<And>v w'. tick w \<le> tick w' \<Longrightarrow> (te_ok v \<Longrightarrow> tick w < d \<and> tick w < tick w') \<Longrightarrow> Q v w'"
  shows "io_wp (udp_wait A h k d t fuel) Q R w"
  unfolding udp_wait_def
  by (rule io_wp_mono [OF wait_returns [OF assms(1-6)]]) (auto intro: assms(7))

lemma udp_endpoints_return:
  assumes "clock_advances A tick" and "\<And>v w'. tick w \<le> tick w' \<Longrightarrow> Q v w'"
  shows "io_wp (endpointFromAddress A a) Q R w" "io_wp (udp_localEndpoint A h) Q R w"
  unfolding udp_localEndpoint_def endpointFromAddress_def
  by (auto intro!: call_keeps(10,11) [OF assms(1)] assms(2) split: option.splits)

lemma udp_try_bind_returns:
  assumes "clock_advances A tick" and "sockets_selectable A"
    and "0 \<le> tick w" and "\<And>v w'. tick w \<le> tick w' \<Longrightarrow> (\<And>h y. v = Inr (h, y) \<Longrightarrow> selectable A h) \<Longrightarrow> Q v w'"
  shows "io_wp (udp_try_bind A d t as e) Q R w"
  using assms(3,4)
proof (induction as arbitrary: w e)
  case Nil then show ?case by auto
next
  case (Cons a as)
  have again: "io_wp (udp_try_bind A d t as e') Q R w'" if "tick w \<le> tick w'" for e' w'
    using that Cons.prems by (intro Cons.IH) auto
  have closed: "tick w \<le> tick w' \<Longrightarrow> tick w \<le> tick (closeSocket A h w')" for w' h
    using clock_advances_close(1) [OF assms(1)] by (meson order_trans)
  have failed: "Q (Inl e') w'" if "tick w \<le> tick w'" for e' w'
    using that by (auto intro: Cons.prems(2))
  have found: "Q (Inr (h, y)) w'" if "tick w \<le> tick w'" "selectable A h" for h y w'
    using that by (auto intro: Cons.prems(2))
  show ?case using Cons.prems(1)
    by (auto intro!: failed found call_keeps(1,5,7) [OF assms(1)] io_wp_now [OF assms(1)] io_wp_socket [OF assms(1,2)]
        udp_endpoints_return [OF assms(1)] again closed split: option.splits sum.splits)
qed

lemma udp_bind_returns:
  assumes "clock_advances A tick" and "sockets_selectable A" and "0 \<le> tick w" and "udp_held A client"
  shows "io_wp (udp_bind A ep ctx client) (\<lambda>(r, client') w'. udp_held A client' \<and> tick w \<le> tick w') (\<lambda>_. False) w"
  unfolding udp_bind_def initializeSockets_def using assms(3,4)
  by (auto intro!: call_keeps(1,2,3) [OF assms(1)] udp_close_returns [OF assms(1)] deadline_returns [OF assms(1)]
      udp_try_bind_returns [OF assms(1,2)] split: option.splits sum.splits)

lemma udp_send_one_returns:
  assumes "clock_advances A tick" and "selectable A h" and "d \<le> clock_max"
    and "0 \<le> tick w" and "2 \<le> fuel" and "d - tick w + 2 \<le> int fuel"
  shows "io_wp (udp_send_one A h payload a d t fuel) (\<lambda>v w'. tick w \<le> tick w') (\<lambda>_. False) w"
  using assms(4-6)
proof (induction fuel arbitrary: w)
  case 0 then show ?case by simp
next
  case (Suc fuel)
  have again: "io_wp (udp_send_one A h payload a d t fuel) (\<lambda>v w'. tick w \<le> tick w') (\<lambda>_. False) w'"
    if "tick w < tick w'" "tick w < d" for w'
  proof (rule io_wp_mono [OF Suc.IH])
    show "0 \<le> tick w'" "2 \<le> fuel" "d - tick w' + 2 \<le> int fuel" using Suc.prems that by linarith+
  qed (use that(1) in auto)
  show ?case using Suc.prems assms(3)
    by (auto intro!: udp_wait_returns [OF assms(1,2)] call_keeps(15) [OF assms(1)] again split: sum.splits)
qed

lemma udp_receive_loop_returns:
  assumes "clock_advances A tick" and "selectable A h" and "d \<le> clock_max"
    and "0 \<le> tick w" and "2 \<le> fuel" and "d - tick w + 2 \<le> int fuel"
  shows "io_wp (udp_receive_loop A h limit d t fuel) (\<lambda>v w'. tick w \<le> tick w') (\<lambda>_. False) w"
  using assms(4-6)
proof (induction fuel arbitrary: w)
  case 0 then show ?case by simp
next
  case (Suc fuel)
  have again: "io_wp (udp_receive_loop A h limit d t fuel) (\<lambda>v w'. tick w \<le> tick w') (\<lambda>_. False) w'"
    if "tick w < tick w'" "tick w < d" for w'
  proof (rule io_wp_mono [OF Suc.IH])
    show "0 \<le> tick w'" "2 \<le> fuel" "d - tick w' + 2 \<le> int fuel" using Suc.prems that by linarith+
  qed (use that(1) in auto)
  show ?case using Suc.prems assms(3)
    by (auto intro!: udp_wait_returns [OF assms(1,2)] call_keeps(16) [OF assms(1)] again
        udp_endpoints_return [OF assms(1)] simp: udp_deliver_def Let_def split: sum.splits)
qed

lemma udp_send_addresses_returns:
  assumes "clock_advances A tick" and "sockets_selectable A" and "d \<le> clock_max" and "fuel_of_deadlines \<le> fuel"
    and "udp_held A (Some c)" and "0 \<le> tick w"
  shows "io_wp (udp_send_addresses A fuel payload d t c as e)
     (\<lambda>(r, c') w'. udp_held A (Some c') \<and> tick w \<le> tick w') (\<lambda>_. False) w"
  using assms(6)
proof (induction as arbitrary: w e)
  case Nil then show ?case using assms(5) by simp
next
  case (Cons a as)
  have again: "io_wp (udp_send_addresses A fuel payload d t c as e')
     (\<lambda>(r, c') w'. udp_held A (Some c') \<and> tick w \<le> tick w') (\<lambda>_. False) w'" if "tick w \<le> tick w'" for e' w'
    by (rule io_wp_mono [OF Cons.IH]) (use that Cons.prems in auto)
  have closed: "tick w \<le> tick w' \<Longrightarrow> tick w \<le> tick (closeSocket A h w')" for w' h
    using clock_advances_close(1) [OF assms(1)] by (meson order_trans)
  have one: "io_wp (udp_send_one A h payload a d t fuel) Q R w'"
    if "selectable A h" "tick w \<le> tick w'" "\<And>v w''. tick w' \<le> tick w'' \<Longrightarrow> Q v w''" for h Q R w'
    by (rule io_wp_mono [OF udp_send_one_returns [OF assms(1) that(1) assms(3)]])
      (use that Cons.prems fuel_for_deadline [OF assms(4,3)] in auto)
  have held: "selectable A h" if "uc_socket c = Some h" for h using that assms(5) by (simp add: udp_held_def)
  show ?case using assms(5)
    by (auto intro!: one held io_wp_socket [OF assms(1,2)] call_keeps(5) [OF assms(1)] again closed
        udp_endpoints_return [OF assms(1)] split: option.splits sum.splits)
qed

lemma udp_transfer_returns:
  assumes "clock_advances A tick" and "sockets_selectable A" and "0 \<le> tick w" and "fuel_of_deadlines \<le> fuel"
    and "udp_held A client"
  shows "io_wp (udp_sendTo A fuel ep data n ctx client) (\<lambda>(r, client') w'. udp_held A client' \<and> tick w \<le> tick w') (\<lambda>_. False) w"
    and "io_wp (udp_receiveFrom A fuel alloc_ok limit ctx client) (\<lambda>r w'. tick w \<le> tick w') (\<lambda>_. False) w"
proof -
  have send: "io_wp (udp_send_addresses A fuel ds d t c as e) (\<lambda>v. io_wp (case v of (r, c) \<Rightarrow> io_return (r, Some c))
      (\<lambda>(r, client') w'. udp_held A client' \<and> tick w \<le> tick w') (\<lambda>_. False)) (\<lambda>_. False) w'"
    if "client = Some c" "d \<le> clock_max" "tick w \<le> tick w'" for ds d t c as e w'
    by (rule io_wp_mono [OF udp_send_addresses_returns [OF assms(1,2) that(2) assms(4)]])
      (use that assms(3,5) in auto)
  show "io_wp (udp_sendTo A fuel ep data n ctx client) (\<lambda>(r, client') w'. udp_held A client' \<and> tick w \<le> tick w') (\<lambda>_. False) w"
    unfolding udp_sendTo_def initializeSockets_def using assms(3,5)
    by (auto intro!: call_keeps(1,2,3) [OF assms(1)] deadline_returns [OF assms(1)] send split: option.splits)
  have recv: "io_wp (udp_receive_loop A h lim d t fuel) (\<lambda>r w'. tick w \<le> tick w') (\<lambda>_. False) w'"
    if "client = Some c" "uc_socket c = Some h" "d \<le> clock_max" "tick w \<le> tick w'" for h lim d t c w'
    by (rule io_wp_mono [OF udp_receive_loop_returns [OF assms(1) _ that(3)]])
      (use that assms(3,5) fuel_for_deadline [OF assms(4) that(3)] in \<open>auto simp: udp_held_def\<close>)
  show "io_wp (udp_receiveFrom A fuel alloc_ok limit ctx client) (\<lambda>r w'. tick w \<le> tick w') (\<lambda>_. False) w"
    using assms(3) by (auto simp: udp_receiveFrom_def udp_isOpen_def intro!: deadline_returns [OF assms(1)] recv
        split: option.splits)
qed

lemma udp_disconnect_returns:
  assumes "clock_advances A tick"
  shows "io_wp (udp_close A client) (\<lambda>client' w'. udp_held A client' \<and> tick w \<le> tick w') (\<lambda>_. False) w"
  by (auto simp: udp_close_def split: option.splits intro!: udp_close_returns [OF assms])

end
