(* ===== verification/SocketsCorrect.thy ===== *)
theory SocketsCorrect
  imports TcpCorrect UdpCorrect
begin

text \<open>
  What the socket clients promise together: no run of operations leaks, uses or closes a handle it does
  not hold; transfers are reported exactly; every run returns.
\<close>

section \<open>Runs\<close>

datatype tcp_operation =
    Tcp_connect Endpoint OperationContext
  | Tcp_disconnect
  | Tcp_check
  | Tcp_send "bytes option" nat OperationContext
  | Tcp_receive bool nat OperationContext

fun tcp_step :: "'w socket_api \<Rightarrow> nat \<Rightarrow> tcp_operation \<Rightarrow> TcpClient \<Rightarrow> ('w, TcpClient) io" where
  "tcp_step A fuel (Tcp_connect ep ctx) c = io_bind (tcp_connect A fuel ep ctx c) (\<lambda>(r, c'). io_return c')"
| "tcp_step A fuel Tcp_disconnect c = tcp_disconnect A c"
| "tcp_step A fuel Tcp_check c = io_bind (tcp_checkPeerConnection A c) (\<lambda>(r, c'). io_return c')"
| "tcp_step A fuel (Tcp_send data n ctx) c = io_bind (tcp_send A fuel data n ctx c) (\<lambda>(r, c'). io_return c')"
| "tcp_step A fuel (Tcp_receive ok limit ctx) c =
     io_bind (tcp_receive A fuel ok limit ctx c) (\<lambda>(r, c'). io_return c')"

fun tcp_run :: "'w socket_api \<Rightarrow> nat \<Rightarrow> tcp_operation list \<Rightarrow> TcpClient \<Rightarrow> ('w, TcpClient) io" where
  "tcp_run A fuel [] c = io_return c"
| "tcp_run A fuel (op # ops) c = io_bind (tcp_step A fuel op c) (tcp_run A fuel ops)"

datatype udp_operation =
    Udp_bind Endpoint OperationContext
  | Udp_close
  | Udp_send Endpoint "bytes option" nat OperationContext
  | Udp_receive bool nat OperationContext

fun udp_step :: "'w socket_api \<Rightarrow> nat \<Rightarrow> udp_operation \<Rightarrow> UdpClient \<Rightarrow> ('w, UdpClient) io" where
  "udp_step A fuel (Udp_bind ep ctx) c = io_bind (udp_bind A ep ctx c) (\<lambda>(r, c'). io_return c')"
| "udp_step A fuel Udp_close c = udp_close A c"
| "udp_step A fuel (Udp_send ep data n ctx) c =
     io_bind (udp_sendTo A fuel ep data n ctx c) (\<lambda>(r, c'). io_return c')"
| "udp_step A fuel (Udp_receive ok limit ctx) c =
     io_bind (udp_receiveFrom A fuel ok limit ctx c) (\<lambda>r. io_return c)"

fun udp_run :: "'w socket_api \<Rightarrow> nat \<Rightarrow> udp_operation list \<Rightarrow> UdpClient \<Rightarrow> ('w, UdpClient) io" where
  "udp_run A fuel [] c = io_return c"
| "udp_run A fuel (op # ops) c = io_bind (udp_step A fuel op c) (udp_run A fuel ops)"

section \<open>Handles\<close>

definition within_bounds :: "'w socket_api \<Rightarrow> bool" where
  "within_bounds A \<longleftrightarrow> sends_within A \<and> receives_within A \<and> stores_within A"

definition handles_are :: "nat multiset \<Rightarrow> ledger \<Rightarrow> bool" where
  "handles_are H l \<longleftrightarrow> lg_open l = H \<and> \<not> lg_misused l"

lemma tcp_step_handles:
  assumes "within_bounds A" and "handles_are (tcp_owned client + F) l"
  shows "io_wp (tcp_step (ledgered A) fuel op client) (\<lambda>client' s. handles_are (tcp_owned client' + F) (snd s)) (\<lambda>s. True) (w, l)"
proof -
  have l: "lg_open l = tcp_owned client + F" "\<not> lg_misused l" using assms(2) by (simp_all add: handles_are_def)
  show ?thesis
  proof (cases op)
    case (Tcp_connect ep ctx)
    show ?thesis unfolding Tcp_connect tcp_step.simps io_wp_bind
      by (rule io_wp_mono [OF tcp_connect_ledger [OF l(1)]]) (use l(2) in \<open>auto simp: handles_are_def\<close>)
  next
    case Tcp_disconnect
    show ?thesis unfolding Tcp_disconnect tcp_step.simps
      by (rule io_wp_mono [OF tcp_disconnect_ledger [OF l(1)]]) (use l(2) in \<open>auto simp: handles_are_def\<close>)
  next
    case Tcp_check
    show ?thesis unfolding Tcp_check tcp_step.simps io_wp_bind
      by (rule io_wp_mono [OF tcp_check_ledger [OF l(1)]]) (use l(2) in \<open>auto simp: handles_are_def\<close>)
  next
    case (Tcp_send data n ctx)
    have "sends_within A" using assms(1) by (simp add: within_bounds_def)
    from tcp_send_ledger [OF this l(1)] show ?thesis unfolding Tcp_send tcp_step.simps io_wp_bind
      by (rule io_wp_mono) (use l(2) in \<open>auto simp: handles_are_def sent_exactly_def\<close>)
  next
    case (Tcp_receive ok limit ctx)
    have "receives_within A" using assms(1) by (simp add: within_bounds_def)
    from tcp_receive_ledger [OF this l(1)] show ?thesis unfolding Tcp_receive tcp_step.simps io_wp_bind
      by (rule io_wp_mono) (use l(2) in \<open>auto simp: handles_are_def received_exactly_def\<close>)
  qed
qed

lemma tcp_run_handles:
  assumes "within_bounds A" and "handles_are (tcp_owned client + F) l"
  shows "io_wp (tcp_run (ledgered A) fuel ops client) (\<lambda>client' s. handles_are (tcp_owned client' + F) (snd s)) (\<lambda>s. True) (w, l)"
  using assms(2)
proof (induction ops arbitrary: client w l)
  case Nil then show ?case by simp
next
  case (Cons op ops)
  show ?case unfolding tcp_run.simps io_wp_bind
    by (rule io_wp_mono [OF tcp_step_handles [OF assms(1) Cons.prems]]) (auto intro: Cons.IH)
qed

lemma udp_step_handles:
  assumes "within_bounds A" and "handles_are (udp_owned client + F) l"
  shows "io_wp (udp_step (ledgered A) fuel op client) (\<lambda>client' s. handles_are (udp_owned client' + F) (snd s)) (\<lambda>s. True) (w, l)"
proof -
  have l: "lg_open l = udp_owned client + F" "\<not> lg_misused l" using assms(2) by (simp_all add: handles_are_def)
  show ?thesis
  proof (cases op)
    case (Udp_bind ep ctx)
    show ?thesis unfolding Udp_bind udp_step.simps io_wp_bind
      by (rule io_wp_mono [OF udp_bind_ledger [OF l(1)]])
        (use l(2) in \<open>auto simp: handles_are_def bound_or_unchanged_def\<close>)
  next
    case Udp_close
    show ?thesis unfolding Udp_close udp_step.simps
      by (rule io_wp_mono [OF udp_disconnect_ledger [OF l(1)]]) (use l(2) in \<open>auto simp: handles_are_def\<close>)
  next
    case (Udp_send ep data n ctx)
    show ?thesis unfolding Udp_send udp_step.simps io_wp_bind
      by (rule io_wp_mono [OF udp_sendTo_ledger [OF l(1)]])
        (use l in \<open>auto simp: handles_are_def sent_once_def split: if_splits\<close>)
  next
    case (Udp_receive ok limit ctx)
    have "stores_within A" using assms(1) by (simp add: within_bounds_def)
    from udp_receive_ledger [OF this l(1)] show ?thesis unfolding Udp_receive udp_step.simps io_wp_bind
      by (rule io_wp_mono) (use l in \<open>auto simp: handles_are_def received_whole_def Let_def split: if_splits\<close>)
  qed
qed

lemma udp_run_handles:
  assumes "within_bounds A" and "handles_are (udp_owned client + F) l"
  shows "io_wp (udp_run (ledgered A) fuel ops client) (\<lambda>client' s. handles_are (udp_owned client' + F) (snd s)) (\<lambda>s. True) (w, l)"
  using assms(2)
proof (induction ops arbitrary: client w l)
  case Nil then show ?case by simp
next
  case (Cons op ops)
  show ?case unfolding udp_run.simps io_wp_bind
    by (rule io_wp_mono [OF udp_step_handles [OF assms(1) Cons.prems]]) (auto intro: Cons.IH)
qed

section \<open>Returning\<close>

lemma tcp_run_returns:
  assumes "clock_advances A tick" and "sockets_selectable A" and "0 \<le> tick w" and "fuel_of_deadlines \<le> fuel"
    and "tcp_held A client"
  shows "io_wp (tcp_run A fuel ops client) (\<lambda>_ _. True) (\<lambda>_. False) w"
  using assms(3,5)
proof (induction ops arbitrary: client w)
  case Nil then show ?case by simp
next
  case (Cons op ops)
  have rest: "io_wp (tcp_run A fuel ops client') (\<lambda>_ _. True) (\<lambda>_. False) w'"
    if "tcp_held A client' \<and> tick w \<le> tick w'" for client' w'
    using that Cons.prems by (intro Cons.IH) auto
  note transfers = tcp_transfer_returns [OF assms(1) Cons.prems(1) assms(4) Cons.prems(2)]
  show ?case
    by (cases op)
      (auto intro!: rest
        io_wp_mono [OF tcp_connect_returns [OF assms(1,2) Cons.prems(1) assms(4) Cons.prems(2)]]
        io_wp_mono [OF tcp_check_returns [OF assms(1) Cons.prems(2)]]
        io_wp_mono [OF tcp_disconnect_returns [OF assms(1) Cons.prems(2)]]
        io_wp_mono [OF transfers(1)] io_wp_mono [OF transfers(2)])
qed

lemma udp_run_returns:
  assumes "clock_advances A tick" and "sockets_selectable A" and "0 \<le> tick w" and "fuel_of_deadlines \<le> fuel"
    and "udp_held A client"
  shows "io_wp (udp_run A fuel ops client) (\<lambda>_ _. True) (\<lambda>_. False) w"
  using assms(3,5)
proof (induction ops arbitrary: client w)
  case Nil then show ?case by simp
next
  case (Cons op ops)
  have rest: "io_wp (udp_run A fuel ops client') (\<lambda>_ _. True) (\<lambda>_. False) w'"
    if "udp_held A client' \<and> tick w \<le> tick w'" for client' w'
    using that Cons.prems by (intro Cons.IH) auto
  note transfers = udp_transfer_returns [OF assms(1,2) Cons.prems(1) assms(4) Cons.prems(2)]
  show ?case
  proof (cases op)
    case (Udp_bind ep ctx)
    show ?thesis unfolding Udp_bind udp_run.simps udp_step.simps io_wp_bind
      by (rule io_wp_mono [OF udp_bind_returns [OF assms(1,2) Cons.prems]]) (auto intro!: rest)
  next
    case Udp_close
    show ?thesis unfolding Udp_close udp_run.simps udp_step.simps io_wp_bind
      by (rule io_wp_mono [OF udp_disconnect_returns [OF assms(1)]]) (auto intro!: rest)
  next
    case (Udp_send ep data n ctx)
    show ?thesis unfolding Udp_send udp_run.simps udp_step.simps io_wp_bind
      by (rule io_wp_mono [OF transfers(1)]) (auto intro!: rest)
  next
    case (Udp_receive ok limit ctx)
    show ?thesis unfolding Udp_receive udp_run.simps udp_step.simps io_wp_bind
      by (rule io_wp_mono [OF transfers(2)]) (use Cons.prems in \<open>auto intro!: rest\<close>)
  qed
qed

lemma io_wp_total: "io_wp m Q (\<lambda>_. False) w \<Longrightarrow> \<exists>v w'. m w = (Done v, w')"
  by (auto simp: io_wp_def split: prod.splits outcome.splits)

section \<open>A system\<close>

text \<open>A system for the witnesses: every call succeeds, a send takes two bytes at most.\<close>

definition sample_codes :: socket_codes where
  "sample_codes = \<lparr>sc_conn_refused = 1, sc_conn_reset = 2, sc_conn_aborted = 3, sc_pipe = 4, sc_net_unreach = 5,
     sc_host_unreach = 6, sc_addr_not_avail = 7, sc_addr_in_use = 8, sc_not_conn = 9, sc_timed_out = 10, sc_intr = 11,
     sc_in_progress = 12, sc_would_block = 13, sc_again = 13, sc_inval = 14, sc_msg_size = 15\<rparr>"

definition sample_sockets :: "int socket_api" where
  "sample_sockets =
     \<lparr>sk_windows = False, sk_codes = sample_codes,
      sk_now = (\<lambda>w. (min w clock_max, w + 1)),
      sk_cancelled = (\<lambda>t w. (False, w)),
      sk_startup = (\<lambda>w. (0, w)),
      sk_resolve = (\<lambda>n p f b w. ((0, [\<lparr>sa_family = 2, sa_data = [127, 0, 0, 1]\<rparr>]), w)),
      sk_socket = (\<lambda>a b w. (Inr 3, w)),
      sk_nonblock = (\<lambda>h w. (None, w)),
      sk_connect = (\<lambda>h a w. (None, w)),
      sk_bind = (\<lambda>h a w. (None, w)),
      sk_select = (\<lambda>h k s w. (Select_ready, w)),
      sk_so_error = (\<lambda>h w. ((False, 0, 0), w)),
      sk_getsockname = (\<lambda>h w. (Some [1], w)),
      sk_getnameinfo = (\<lambda>a w. (Some (''127.0.0.1'', ''80''), w)),
      sk_peek = (\<lambda>h w. (Inl 13, w)),
      sk_send = (\<lambda>h bs w. (Inr (min 2 (length bs)), w)),
      sk_recv = (\<lambda>h n w. (Inr (take n [7, 8, 9]), w)),
      sk_sendto = (\<lambda>h bs a w. (Inr (length bs), w)),
      sk_recvmsg = (\<lambda>h n w. (Inr (3, take n [7, 8, 9], n < 3, [1]), w)),
      sk_shutdown = (\<lambda>h w. w),
      sk_close = (\<lambda>h w. w)\<rparr>"

lemma sample_clock: "clock_advances sample_sockets (\<lambda>w. min w clock_max)"
  unfolding clock_advances_def keeps_def sample_sockets_def by auto

lemma sample_bounds: "within_bounds sample_sockets" "sockets_selectable sample_sockets"
  by (auto simp: within_bounds_def sends_within_def receives_within_def stores_within_def sockets_selectable_def
      selectable_def fd_setsize_def sample_sockets_def)

definition sample_endpoint :: Endpoint where
  "sample_endpoint = \<lparr>ep_host = ''localhost'', ep_port = 80\<rparr>"

definition sample_context :: OperationContext where
  "sample_context = OperationContext_make \<lparr>to_duration = 5\<rparr>"

definition sample_client :: TcpClient where
  "sample_client = Some \<lparr>tc_socket = Some 3, tc_remote = sample_endpoint, tc_local = sample_endpoint\<rparr>"

definition sample_udp :: UdpClient where
  "sample_udp = Some \<lparr>uc_socket = Some 3, uc_family = 2, uc_local = sample_endpoint\<rparr>"

definition sample_fuel :: nat where
  "sample_fuel = Suc (Suc (Suc (Suc 0)))"

lemmas io_evaluation = io_bind_def io_call_def io_return_def io_option_def io_do_def of_option_def
  ledgered_def beside_def sample_sockets_def sample_codes_def lg_use_def ledger_empty_def

lemmas wait_evaluation = sample_fuel_def operationDeadline_def deadline_from_def clock_max_def i64_sub_def i64_mul_def
  i64_add_def in_i64_def cpp_div_def wait_slice_def cpp_rem_def fd_setsize_def sample_context_def OperationContext_make_def
  OperationContext_isValid_def Timeout_isValid_def te_ok_def TransportError_none_def int_max_def

definition sample_ledger :: ledger where
  "sample_ledger = ledger_empty\<lparr>lg_open := {#3#}\<rparr>"

lemma sample_send_value:
  "tcp_send (ledgered sample_sockets) sample_fuel (Some [1, 2, 3]) 3 sample_context sample_client (0, sample_ledger)
     = (Done (transferred 3, sample_client), (3, sample_ledger\<lparr>lg_sent := [1, 2, 3]\<rparr>))"
  by (simp add: tcp_send_def tcp_isConnected_def sample_client_def tcp_wait_def sample_ledger_def io_evaluation wait_evaluation)

lemma sample_receive_value:
  "tcp_receive (ledgered sample_sockets) sample_fuel True 2 sample_context sample_client (0, sample_ledger)
     = (Done (transferred [7, 8], sample_client), (2, sample_ledger\<lparr>lg_received := [7, 8]\<rparr>))"
  by (simp add: tcp_receive_def tcp_isConnected_def sample_client_def tcp_wait_def sample_ledger_def io_evaluation wait_evaluation)

lemma sample_connect_value:
  "tcp_run (ledgered sample_sockets) sample_fuel [Tcp_connect sample_endpoint sample_context] (Some TcpClient_new) (0, ledger_empty)
     = (Done (Some \<lparr>tc_socket = Some 3, tc_remote = sample_endpoint,
          tc_local = \<lparr>ep_host = ''127.0.0.1'', ep_port = 80\<rparr>\<rparr>), (2, sample_ledger))"
  by (simp add: tcp_connect_def sample_endpoint_def Endpoint_isValid_def initializeSockets_def tcp_close_def closeSocket_def
     shutdownSocket_def TcpClient_new_def tcp_establish_def tcp_localEndpoint_def tcp_service_endpoint_def
     tcp_wait_def sample_ledger_def io_evaluation wait_evaluation strtoul_def is_space_def is_digit_def digits_value_def)

lemma sample_bind_value:
  "udp_bind (ledgered sample_sockets) sample_endpoint sample_context (Some UdpClient_new) (0, ledger_empty)
     = (Done (Success (), Some \<lparr>uc_socket = Some 3, uc_family = 2,
          uc_local = \<lparr>ep_host = ''127.0.0.1'', ep_port = 80\<rparr>\<rparr>), (2, sample_ledger))"
  by (simp add: udp_bind_def sample_endpoint_def Endpoint_isValid_def initializeSockets_def udp_close_impl_def closeSocket_def
     UdpClient_new_def udp_localEndpoint_def endpointFromAddress_def udp_service_endpoint_def
     sample_ledger_def io_evaluation wait_evaluation strtoul_def is_space_def is_digit_def digits_value_def)

lemma sample_sendTo_value:
  "udp_sendTo (ledgered sample_sockets) sample_fuel sample_endpoint (Some [1, 2, 3]) 3 sample_context sample_udp (0, sample_ledger)
     = (Done (udp_done 3, sample_udp), (2, sample_ledger\<lparr>lg_departed := [(\<lparr>sa_family = 2, sa_data = [127, 0, 0, 1]\<rparr>, [1, 2, 3])]\<rparr>))"
  by (simp add: udp_sendTo_def sample_udp_def sample_endpoint_def Endpoint_isValid_def initializeSockets_def
     MAXIMUM_DATAGRAM_SIZE_def udp_wait_def sample_ledger_def io_evaluation wait_evaluation)

section \<open>The properties\<close>

text \<open>C10. Handles are owned.  Whatever the system answers, after any sequence of operations of a TCP
  client and of a UDP client the open handles are exactly those open before and the socket of the
  client, and no call used or closed a handle that was not open: nothing leaks, is closed twice or is
  used after it was closed.\<close>

theorem socket_handles_owned:
  assumes "within_bounds A"
    and "lg_open l = H" and "\<not> lg_misused l"
  shows "(\<forall>c s. tcp_run (ledgered A) fuel ops (Some TcpClient_new) (w, l) = (Done c, s) \<longrightarrow>
      lg_open (snd s) = tcp_owned c + H \<and> \<not> lg_misused (snd s)) \<and>
    (\<forall>c s. udp_run (ledgered A) fuel ops' (Some UdpClient_new) (w, l) = (Done c, s) \<longrightarrow>
      lg_open (snd s) = udp_owned c + H \<and> \<not> lg_misused (snd s))"
proof -
  have l: "handles_are (tcp_owned (Some TcpClient_new) + H) l" "handles_are (udp_owned (Some UdpClient_new) + H) l"
    using assms(2,3) by (simp_all add: handles_are_def)
  show ?thesis
    using io_wp_done [OF tcp_run_handles [OF assms(1) l(1)]] io_wp_done [OF udp_run_handles [OF assms(1) l(2)]]
    by (auto simp: handles_are_def)
qed

theorem socket_handles_owned_witness:
  "\<exists>c s. tcp_run (ledgered sample_sockets) sample_fuel [Tcp_connect sample_endpoint sample_context]
      (Some TcpClient_new) (0, ledger_empty) = (Done c, s) \<and> tcp_owned c = {#3#} \<and> lg_open (snd s) = {#3#}"
  using socket_handles_owned [OF sample_bounds(1), of ledger_empty "{#}" sample_fuel
      "[Tcp_connect sample_endpoint sample_context]" 0 "[]"] sample_connect_value
  by (simp add: ledger_empty_def)

text \<open>C11. TCP transfers are exact.  A send passes a prefix of the data to the system, reports its length,
  and reports no error only when that is all of the data; a receive reports exactly the bytes the system
  delivered, at most the limit, and an error exactly when there are none.  Neither leaks a handle.\<close>

theorem tcp_transfers_exact:
  assumes "sends_within A" and "receives_within A" and "lg_open l = tcp_owned client + H"
  shows "(\<forall>r c s. tcp_send (ledgered A) fuel (Some data) (length data) ctx client (w, l) = (Done (r, c), s) \<longrightarrow>
      snd s = l\<lparr>lg_open := tcp_owned c + H, lg_sent := lg_sent l @ take (pr_value r) data\<rparr> \<and>
      (if te_ok (pr_error r) then pr_value r = length data else pr_value r < length data \<or> data = [])) \<and>
    (\<forall>r c s. tcp_receive (ledgered A) fuel alloc_ok limit ctx client (w, l) = (Done (r, c), s) \<longrightarrow>
      snd s = l\<lparr>lg_open := tcp_owned c + H, lg_received := lg_received l @ pr_value r\<rparr> \<and>
      length (pr_value r) \<le> limit \<and> (te_ok (pr_error r) \<longleftrightarrow> pr_value r \<noteq> []))"
proof (intro conjI allI impI)
  fix r c s assume "tcp_send (ledgered A) fuel (Some data) (length data) ctx client (w, l) = (Done (r, c), s)"
  from io_wp_done [OF tcp_send_ledger [OF assms(1,3)] this]
  show "snd s = l\<lparr>lg_open := tcp_owned c + H, lg_sent := lg_sent l @ take (pr_value r) data\<rparr>"
    "if te_ok (pr_error r) then pr_value r = length data else pr_value r < length data \<or> data = []"
    by (simp_all add: sent_exactly_def)
next
  fix r c s assume "tcp_receive (ledgered A) fuel alloc_ok limit ctx client (w, l) = (Done (r, c), s)"
  from io_wp_done [OF tcp_receive_ledger [OF assms(2,3)] this]
  show "snd s = l\<lparr>lg_open := tcp_owned c + H, lg_received := lg_received l @ pr_value r\<rparr>"
    "length (pr_value r) \<le> limit" "te_ok (pr_error r) \<longleftrightarrow> pr_value r \<noteq> []"
    by (simp_all add: received_exactly_def)
qed

theorem tcp_transfers_exact_witness:
  "\<exists>r c s. tcp_send (ledgered sample_sockets) sample_fuel (Some [1, 2, 3]) 3 sample_context sample_client (0, sample_ledger)
      = (Done (r, c), s) \<and> te_ok (pr_error r) \<and> lg_sent (snd s) = [1, 2, 3]"
proof -
  have "sends_within sample_sockets" "receives_within sample_sockets" "lg_open sample_ledger = tcp_owned sample_client + {#}"
    using sample_bounds(1) by (simp_all add: within_bounds_def sample_ledger_def sample_client_def)
  from tcp_transfers_exact [OF this, of sample_fuel "[1, 2, 3]" sample_context 0 True 2] sample_send_value
  show ?thesis by (simp add: sample_ledger_def ledger_empty_def)
qed

text \<open>C12. UDP is all or nothing.  A bind that fails leaves the client and its open socket as they were, and
  one that succeeds replaces the socket by one with a decoded local endpoint.  A send reports success
  exactly when the system took the whole payload as one datagram, and that is the only one; a failed
  send took none.  A receive reports no error only for a datagram that fitted the buffer whole, with a
  decoded source.\<close>

theorem udp_all_or_nothing:
  assumes "stores_within A" and "lg_open l = udp_owned client + H"
  shows "(\<forall>r c s. udp_bind (ledgered A) ep ctx client (w, l) = (Done (r, c), s) \<longrightarrow>
      snd s = l\<lparr>lg_open := udp_owned c + H\<rparr> \<and>
      (case r of Success _ \<Rightarrow> udp_isOpen c \<and> Endpoint_isValid (udp_getLocalEndpoint c) | Failure e \<Rightarrow> c = client)) \<and>
    (\<forall>r c s. udp_sendTo (ledgered A) fuel ep (Some data) (length data) ctx client (w, l) = (Done (r, c), s) \<longrightarrow>
      (if te_ok (pr_error r)
       then pr_value r = length data \<and>
         (\<exists>a. snd s = l\<lparr>lg_open := udp_owned c + H, lg_departed := lg_departed l @ [(a, data)]\<rparr>)
       else pr_value r = 0 \<and> c = client \<and> snd s = l)) \<and>
    (\<forall>r s. udp_receiveFrom (ledgered A) fuel alloc_ok limit ctx client (w, l) = (Done r, s) \<longrightarrow> te_ok (pr_error r) \<longrightarrow>
      (let p = dg_payload (pr_value r) in
       snd s = l\<lparr>lg_arrived := lg_arrived l @ [(length p, p)]\<rparr> \<and> length p \<le> limit \<and>
       Endpoint_isValid (dg_source (pr_value r))))"
proof (intro conjI allI impI)
  fix r c s assume "udp_bind (ledgered A) ep ctx client (w, l) = (Done (r, c), s)"
  from io_wp_done [OF udp_bind_ledger [OF assms(2)] this]
  show "snd s = l\<lparr>lg_open := udp_owned c + H\<rparr>"
    "case r of Success _ \<Rightarrow> udp_isOpen c \<and> Endpoint_isValid (udp_getLocalEndpoint c) | Failure e \<Rightarrow> c = client"
    by (auto simp: bound_or_unchanged_def)
next
  fix r c s assume "udp_sendTo (ledgered A) fuel ep (Some data) (length data) ctx client (w, l) = (Done (r, c), s)"
  from io_wp_done [OF udp_sendTo_ledger [OF assms(2)] this]
  show "if te_ok (pr_error r)
       then pr_value r = length data \<and>
         (\<exists>a. snd s = l\<lparr>lg_open := udp_owned c + H, lg_departed := lg_departed l @ [(a, data)]\<rparr>)
       else pr_value r = 0 \<and> c = client \<and> snd s = l"
    by (simp add: sent_once_def)
next
  fix r s assume "udp_receiveFrom (ledgered A) fuel alloc_ok limit ctx client (w, l) = (Done r, s)" "te_ok (pr_error r)"
  with io_wp_done [OF udp_receive_ledger [OF assms] this(1)]
  show "let p = dg_payload (pr_value r) in
       snd s = l\<lparr>lg_arrived := lg_arrived l @ [(length p, p)]\<rparr> \<and> length p \<le> limit \<and>
       Endpoint_isValid (dg_source (pr_value r))"
    by (simp add: received_whole_def Let_def)
qed

theorem udp_all_or_nothing_witness:
  "\<exists>r c s. udp_sendTo (ledgered sample_sockets) sample_fuel sample_endpoint (Some [1, 2, 3]) 3 sample_context sample_udp
      (0, sample_ledger) = (Done (r, c), s) \<and> te_ok (pr_error r) \<and> pr_value r = 3 \<and> length (lg_departed (snd s)) = 1"
proof -
  have "stores_within sample_sockets" "lg_open sample_ledger = udp_owned sample_udp + {#}"
    using sample_bounds(1) by (simp_all add: within_bounds_def sample_ledger_def sample_udp_def)
  from udp_all_or_nothing [OF this, of sample_endpoint sample_context 0 sample_fuel "[1, 2, 3]" True 2] sample_sendTo_value
  show ?thesis by (simp add: sample_ledger_def ledger_empty_def)
qed

text \<open>C13. Socket operations return.  When the clock advances between readings and handles can be selected
  on, every sequence of TCP and of UDP operations returns, whatever the system answers: no wait outlives
  its deadline, and none reaches undefined behaviour.\<close>

theorem socket_operations_return:
  assumes "clock_advances A tick" and "sockets_selectable A" and "0 \<le> tick w" and "fuel_of_deadlines \<le> fuel"
  shows "(\<exists>c w'. tcp_run A fuel ops (Some TcpClient_new) w = (Done c, w')) \<and>
    (\<exists>c w'. udp_run A fuel ops' (Some UdpClient_new) w = (Done c, w'))"
  using io_wp_total [OF tcp_run_returns [OF assms]] io_wp_total [OF udp_run_returns [OF assms]] by simp

theorem socket_operations_return_witness:
  "\<exists>c w'. tcp_run sample_sockets (2 ^ 63 + 2) [Tcp_connect sample_endpoint sample_context] (Some TcpClient_new) 0
     = (Done c, w')"
  using socket_operations_return [OF sample_clock sample_bounds(2), of 0 "2 ^ 63 + 2"
      "[Tcp_connect sample_endpoint sample_context]" "[]"]
  by (simp add: fuel_of_deadlines_def clock_max_def)

end
