(* ===== verification/SerialPosix.thy ===== *)
theory SerialPosix
  imports Sockets
begin

unbundle bit_operations_syntax

text \<open>
  The serial port (\<open>api/xpt/serial/SerialPort.h\<close>, \<open>platform/xpt/serial/SerialPort.cpp\<close>) on POSIX (Linux):
  the errors, the settings of the line, the bounded wait and every operation.  The system calls are an
  argument; a loop takes fuel, as in \<open>Sockets\<close>.
\<close>

section \<open>Errors\<close>

datatype eSerialWait = Serial_Read | Serial_Write

definition serial_timeout :: TransportError where
  "serial_timeout = TransportError_make XCat_Timeout X_TimedOut ''The serial operation timed out.'' 0"

definition serial_cancelled :: TransportError where
  "serial_cancelled = TransportError_make XCat_Cancellation X_Cancelled ''The serial operation was cancelled.'' 0"

definition serialError :: "eTransportErrorCode \<Rightarrow> string \<Rightarrow> int \<Rightarrow> TransportError" where
  "serialError code m native =
     TransportError_make (if code = X_OpenFailed then XCat_Connection else XCat_InputOutput) code m native"

definition serial_not_open :: TransportError where
  "serial_not_open = TransportError_make XCat_Connection X_NotConnected ''The serial port is not open.'' 0"

lemma serial_errors [simp]:
  "\<not> te_ok serial_timeout" "\<not> te_ok serial_cancelled" "\<not> te_ok (serialError c m n)" "\<not> te_ok serial_not_open"
  by (simp_all add: serial_timeout_def serial_cancelled_def serialError_def serial_not_open_def)

type_synonym 'a serial_result = "('a, TransportError) PartialResult"

definition serial_done :: "'a \<Rightarrow> 'a serial_result" where
  "serial_done = partial_success TransportError_none"

definition serial_failed :: "'a \<Rightarrow> TransportError \<Rightarrow> 'a serial_result" where
  "serial_failed v e = \<lparr>pr_value = v, pr_error = e\<rparr>"

lemma serial_result_simps [simp]:
  "pr_value (serial_done v) = v" "pr_error (serial_done v) = TransportError_none"
  "pr_value (serial_failed v e) = v" "pr_error (serial_failed v e) = e"
  by (simp_all add: serial_done_def serial_failed_def partial_success_def)

section \<open>The settings of the line\<close>

text \<open>The flags of \<open>asm/termbits.h\<close>, as the generic Linux ABI has them.\<close>

record termios2 =
  c_iflag :: u32
  c_oflag :: u32
  c_cflag :: u32
  c_lflag :: u32
  c_vmin :: u8
  c_vtime :: u8
  c_ispeed :: u32
  c_ospeed :: u32

definition input_flags :: u32 where \<comment> \<open>IGNBRK, BRKINT, PARMRK, ISTRIP, INLCR, IGNCR, ICRNL, IXON\<close>
  "input_flags = 1 OR 2 OR 8 OR 32 OR 64 OR 128 OR 256 OR 1024"

definition OPOST :: u32 where
  "OPOST = 1"

definition local_flags :: u32 where \<comment> \<open>ECHO, ECHONL, ICANON, ISIG, IEXTEN\<close>
  "local_flags = 8 OR 64 OR 2 OR 1 OR 0x8000"

definition framing_flags :: u32 where \<comment> \<open>CSIZE, PARENB, CSTOPB, CRTSCTS\<close>
  "framing_flags = 48 OR 256 OR 64 OR 0x80000000"

definition receiver_flags :: u32 where \<comment> \<open>CS8, CLOCAL, CREAD\<close>
  "receiver_flags = 48 OR 0x800 OR 128"

definition speed_flags :: u32 where \<comment> \<open>CBAUD, CIBAUD\<close>
  "speed_flags = 0x100f OR 0x100f0000"

definition BOTHER :: u32 where
  "BOTHER = 0x1000"

definition convertBaudRate :: "int \<Rightarrow> u32" where
  "convertBaudRate baud =
     (if baud = 110 then 3 else if baud = 300 then 7 else if baud = 600 then 8 else if baud = 1200 then 9
      else if baud = 2400 then 11 else if baud = 4800 then 12 else if baud = 9600 then 13
      else if baud = 14400 then BOTHER else if baud = 19200 then 14 else if baud = 38400 then 15
      else if baud = 57600 then 0x1001 else if baud = 115200 then 0x1002 else if baud = 230400 then 0x1003
      else if baud = 460800 then 0x1004 else if baud = 921600 then 0x1007 else BOTHER)"

definition raw_settings :: "int \<Rightarrow> termios2 \<Rightarrow> termios2" where
  "raw_settings baud s =
     s\<lparr>c_iflag := c_iflag s AND NOT input_flags,
       c_oflag := c_oflag s AND NOT OPOST,
       c_lflag := c_lflag s AND NOT local_flags,
       c_cflag := (((c_cflag s AND NOT framing_flags) OR receiver_flags) AND NOT speed_flags) OR convertBaudRate baud,
       c_vmin := 0, c_vtime := 0,
       c_ispeed := word_of_int baud, c_ospeed := word_of_int baud\<rparr>"

section \<open>The system\<close>

datatype poll_result = Poll_events u16 | Poll_timeout | Poll_failed int

record 'w serial_api =
  sp_now :: "'w \<Rightarrow> int \<times> 'w"
  sp_cancelled :: "CancellationToken \<Rightarrow> 'w \<Rightarrow> bool \<times> 'w"
  sp_open :: "string \<Rightarrow> 'w \<Rightarrow> (int + nat) \<times> 'w"
  sp_get_settings :: "nat \<Rightarrow> 'w \<Rightarrow> (int + termios2) \<times> 'w"
  sp_set_settings :: "nat \<Rightarrow> termios2 \<Rightarrow> 'w \<Rightarrow> int option \<times> 'w"
  sp_flush :: "nat \<Rightarrow> 'w \<Rightarrow> int option \<times> 'w"
  sp_poll :: "nat \<Rightarrow> eSerialWait \<Rightarrow> int \<Rightarrow> 'w \<Rightarrow> poll_result \<times> 'w"
  sp_write :: "nat \<Rightarrow> bytes \<Rightarrow> 'w \<Rightarrow> (int + nat) \<times> 'w"
  sp_read :: "nat \<Rightarrow> nat \<Rightarrow> 'w \<Rightarrow> (int + bytes) \<times> 'w"
  sp_close :: "nat \<Rightarrow> 'w \<Rightarrow> 'w"

definition EINTR :: int where "EINTR = 4"
definition EIO :: int where "EIO = 5"
definition EAGAIN :: int where "EAGAIN = 11" \<comment> \<open>and EWOULDBLOCK\<close>

definition POLLIN :: u16 where "POLLIN = 1"
definition POLLOUT :: u16 where "POLLOUT = 4"
definition poll_trouble :: u16 where "poll_trouble = 8 OR 16 OR 32" \<comment> \<open>POLLERR, POLLHUP, POLLNVAL\<close>

definition serial_deadline :: "'w serial_api \<Rightarrow> OperationContext \<Rightarrow> ('w, int) io" where
  "serial_deadline A ctx = io_bind (io_call (sp_now A)) (\<lambda>now. io_option (deadline_from now ctx))"

definition wait_milliseconds :: "int \<Rightarrow> int" where
  "wait_milliseconds remaining = max 1 (min 20 (cpp_div remaining 1000000))"

fun waitForDescriptor ::
    "'w serial_api \<Rightarrow> nat \<Rightarrow> eSerialWait \<Rightarrow> int \<Rightarrow> CancellationToken \<Rightarrow> nat \<Rightarrow> ('w, TransportError) io" where
  "waitForDescriptor A h operation deadline token 0 = io_pending"
| "waitForDescriptor A h operation deadline token (Suc fuel) =
     io_bind (io_call (sp_cancelled A token)) (\<lambda>cancelled.
     if cancelled then io_return serial_cancelled
     else io_bind (io_call (sp_now A)) (\<lambda>now.
     if deadline \<le> now then io_return serial_timeout
     else io_bind (io_option (i64_sub deadline now)) (\<lambda>remaining.
     io_bind (io_call (sp_poll A h operation (wait_milliseconds remaining))) (\<lambda>answer. case answer of
         Poll_events events \<Rightarrow>
           if events AND poll_trouble \<noteq> 0
           then io_return (serialError (case operation of Serial_Read \<Rightarrow> X_ReceiveFailed | Serial_Write \<Rightarrow> X_SendFailed)
                  ''The serial device was disconnected.'' EIO)
           else if events AND (case operation of Serial_Read \<Rightarrow> POLLIN | Serial_Write \<Rightarrow> POLLOUT) \<noteq> 0
           then io_return TransportError_none
           else waitForDescriptor A h operation deadline token fuel
       | Poll_timeout \<Rightarrow> waitForDescriptor A h operation deadline token fuel
       | Poll_failed code \<Rightarrow>
           if code = EINTR then waitForDescriptor A h operation deadline token fuel
           else io_return (serialError X_Unknown ''Waiting for serial I/O failed.'' code)))))"

section \<open>The port\<close>

record SerialPort_Impl =
  sr_descriptor :: "nat option"
  sr_device_name :: string
  sr_baud_rate :: int

type_synonym SerialPort = "SerialPort_Impl option"

definition SerialPort_new :: SerialPort_Impl where
  "SerialPort_new = \<lparr>sr_descriptor = None, sr_device_name = [], sr_baud_rate = 0\<rparr>"

definition close_descriptor :: "'w serial_api \<Rightarrow> nat option \<Rightarrow> 'w \<Rightarrow> 'w" where
  "close_descriptor A h w = (case h of None \<Rightarrow> w | Some i \<Rightarrow> sp_close A i w)"

definition serial_impl_close :: "'w serial_api \<Rightarrow> SerialPort_Impl \<Rightarrow> ('w, SerialPort_Impl) io" where
  "serial_impl_close A c = io_bind (io_do (close_descriptor A (sr_descriptor c))) (\<lambda>u. io_return SerialPort_new)"

definition serial_close :: "'w serial_api \<Rightarrow> SerialPort \<Rightarrow> ('w, SerialPort) io" where
  "serial_close A port =
     (case port of None \<Rightarrow> io_return None
      | Some c \<Rightarrow> io_bind (serial_impl_close A c) (\<lambda>c'. io_return (Some c')))"

definition serial_isOpen :: "SerialPort \<Rightarrow> bool" where
  "serial_isOpen port = (case port of None \<Rightarrow> False | Some c \<Rightarrow> sr_descriptor c \<noteq> None)"

definition serial_getDeviceName :: "SerialPort \<Rightarrow> string" where
  "serial_getDeviceName port = (case port of None \<Rightarrow> [] | Some c \<Rightarrow> sr_device_name c)"

definition serial_getBaudRate :: "SerialPort \<Rightarrow> int" where
  "serial_getBaudRate port = (case port of None \<Rightarrow> 0 | Some c \<Rightarrow> sr_baud_rate c)"

text \<open>The checks before a device is touched; \<open>INT_MAX\<close> bounds the name.\<close>

definition serial_request_valid :: "string \<Rightarrow> int \<Rightarrow> OperationContext \<Rightarrow> bool" where
  "serial_request_valid name baud ctx \<longleftrightarrow>
     \<not> (name = [] \<or> 2 ^ 31 - 1 < length name \<or> CHR 0x00 \<in> set name \<or> baud \<le> 0 \<or> \<not> OperationContext_isValid ctx)"

definition configuration_failed :: "string \<Rightarrow> int \<Rightarrow> TransportError" where
  "configuration_failed m code = serialError X_ConfigurationFailed m code"

text \<open>Configuring the opened candidate: \<open>Inl\<close> the error.\<close>

definition serial_configure :: "'w serial_api \<Rightarrow> nat \<Rightarrow> int \<Rightarrow> ('w, TransportError + unit) io" where
  "serial_configure A h baud =
     io_bind (io_call (sp_get_settings A h)) (\<lambda>read. case read of
         Inl code \<Rightarrow> io_return (Inl (configuration_failed ''Reading serial settings failed.'' code))
       | Inr settings \<Rightarrow>
           io_bind (io_call (sp_set_settings A h (raw_settings baud settings))) (\<lambda>written. case written of
               Some code \<Rightarrow> io_return (Inl (configuration_failed ''Configuring the serial device failed.'' code))
             | None \<Rightarrow> io_bind (io_call (sp_get_settings A h)) (\<lambda>again. case again of
                   Inl code \<Rightarrow> io_return (Inl (configuration_failed ''Reading applied serial settings failed.'' code))
                 | Inr applied \<Rightarrow>
                     if c_ispeed applied \<noteq> word_of_int baud \<or> c_ospeed applied \<noteq> word_of_int baud
                     then io_return (Inl (configuration_failed
                            ''The applied serial baud rate differs from the request.'' 0))
                     else io_bind (io_call (sp_flush A h)) (\<lambda>flushed. case flushed of
                         Some code \<Rightarrow> io_return (Inl (configuration_failed ''Clearing serial buffers failed.'' code))
                       | None \<Rightarrow> io_return (Inr ())))))"

text \<open>The last check before the commit reads the token twice when it is not cancelled the first time.\<close>

definition serial_last_check :: "'w serial_api \<Rightarrow> int \<Rightarrow> CancellationToken \<Rightarrow> ('w, bool) io" where
  "serial_last_check A deadline token =
     io_bind (io_call (sp_cancelled A token)) (\<lambda>cancelled.
     if cancelled then io_return True
     else io_bind (io_call (sp_now A)) (\<lambda>now. io_return (deadline \<le> now)))"

definition serial_open ::
    "'w serial_api \<Rightarrow> string \<Rightarrow> int \<Rightarrow> OperationContext \<Rightarrow> SerialPort \<Rightarrow> ('w, TransportStatus \<times> SerialPort) io" where
  "serial_open A name baud ctx port =
     (case port of
        None \<Rightarrow> io_return (Failure (validationError ''The serial port was moved from.''), port)
      | Some c \<Rightarrow>
          if \<not> serial_request_valid name baud ctx
          then io_return (Failure (validationError ''A device, positive baud rate, and non-negative timeout are required.''), port)
          else io_bind (io_call (sp_cancelled A (oc_cancellation ctx))) (\<lambda>cancelled.
            if cancelled then io_return (Failure serial_cancelled, port)
            else io_bind (serial_deadline A ctx) (\<lambda>deadline.
            io_bind (io_call (sp_now A)) (\<lambda>now.
            if deadline \<le> now then io_return (Failure serial_timeout, port)
            else io_bind (io_call (sp_open A name)) (\<lambda>candidate. case candidate of
                Inl code \<Rightarrow> io_return (Failure (serialError X_OpenFailed ''Opening the serial device failed.'' code), port)
              | Inr h \<Rightarrow> io_bind (serial_configure A h baud) (\<lambda>configured. case configured of
                  Inl e \<Rightarrow> io_bind (io_do (close_descriptor A (Some h))) (\<lambda>u. io_return (Failure e, port))
                | Inr u \<Rightarrow> io_bind (serial_last_check A deadline (oc_cancellation ctx)) (\<lambda>late.
                    if late
                    then io_bind (io_do (close_descriptor A (Some h))) (\<lambda>u.
                      io_bind (io_call (sp_cancelled A (oc_cancellation ctx))) (\<lambda>cancelled.
                        io_return (Failure (if cancelled then serial_cancelled else serial_timeout), port)))
                    else io_bind (serial_impl_close A c) (\<lambda>closed.
                      io_return (Success (), Some \<lparr>sr_descriptor = Some h, sr_device_name = name, sr_baud_rate = baud\<rparr>)))))))))"

section \<open>Transfers\<close>

text \<open>An operation fails with the wait's error, and closes the port when that is of input or output.\<close>

definition serial_give_up ::
    "'w serial_api \<Rightarrow> 'a \<Rightarrow> TransportError \<Rightarrow> SerialPort_Impl \<Rightarrow> ('w, 'a serial_result \<times> SerialPort_Impl) io" where
  "serial_give_up A v e c =
     (if te_category e = XCat_InputOutput
      then io_bind (serial_impl_close A c) (\<lambda>closed. io_return (serial_failed v e, closed))
      else io_return (serial_failed v e, c))"

definition would_block :: "int \<Rightarrow> bool" where
  "would_block code \<longleftrightarrow> code = EAGAIN \<or> code = EINTR"

fun serial_send_loop ::
    "'w serial_api \<Rightarrow> nat \<Rightarrow> bytes \<Rightarrow> int \<Rightarrow> CancellationToken \<Rightarrow> nat \<Rightarrow> nat \<Rightarrow> SerialPort_Impl
       \<Rightarrow> ('w, nat serial_result \<times> SerialPort_Impl) io" where
  "serial_send_loop A h data deadline token 0 sent c = io_pending"
| "serial_send_loop A h data deadline token (Suc fuel) sent c =
     (if sent < length data
      then io_bind (io_call (sp_cancelled A token)) (\<lambda>cancelled.
        if cancelled then io_return (serial_failed sent serial_cancelled, c)
        else io_bind (io_call (sp_now A)) (\<lambda>now.
        if deadline \<le> now then io_return (serial_failed sent serial_timeout, c)
        else io_bind (waitForDescriptor A h Serial_Write deadline token fuel) (\<lambda>wait_error.
        if \<not> te_ok wait_error then serial_give_up A sent wait_error c
        else io_bind (io_call (sp_write A h (drop sent data))) (\<lambda>answer. case answer of
            Inl code \<Rightarrow>
              if would_block code then serial_send_loop A h data deadline token fuel sent c
              else io_bind (serial_impl_close A c) (\<lambda>closed.
                io_return (serial_failed sent (serialError X_SendFailed ''Sending serial data failed.'' code), closed))
          | Inr n \<Rightarrow> serial_send_loop A h data deadline token fuel (sent + n) c))))
      else io_return (serial_done sent, c))"

definition serial_send ::
    "'w serial_api \<Rightarrow> nat \<Rightarrow> bytes option \<Rightarrow> nat \<Rightarrow> OperationContext \<Rightarrow> SerialPort
       \<Rightarrow> ('w, nat serial_result \<times> SerialPort) io" where
  "serial_send A fuel data n ctx port =
     (if \<not> serial_isOpen port then io_return (serial_failed 0 serial_not_open, port)
      else if (data = None \<and> n \<noteq> 0) \<or> 2 ^ 31 - 1 < n \<or> \<not> OperationContext_isValid ctx
      then io_return (serial_failed 0 (validationError ''Send data, size, and timeout must be valid.''), port)
      else if n = 0 then io_return (serial_done 0, port)
      else io_bind (serial_deadline A ctx) (\<lambda>deadline.
        io_bind (serial_send_loop A (the (sr_descriptor (the port))) (take n (the data)) deadline (oc_cancellation ctx) fuel 0 (the port))
          (\<lambda>(r, c). io_return (r, Some c))))"

definition serial_send_vector ::
    "'w serial_api \<Rightarrow> nat \<Rightarrow> bytes \<Rightarrow> OperationContext \<Rightarrow> SerialPort \<Rightarrow> ('w, nat serial_result \<times> SerialPort) io" where
  "serial_send_vector A fuel data ctx port = serial_send A fuel (Some data) (length data) ctx port"

fun serial_receive_loop ::
    "'w serial_api \<Rightarrow> nat \<Rightarrow> nat \<Rightarrow> int \<Rightarrow> CancellationToken \<Rightarrow> nat \<Rightarrow> SerialPort_Impl
       \<Rightarrow> ('w, bytes serial_result \<times> SerialPort_Impl) io" where
  "serial_receive_loop A h limit deadline token 0 c = io_pending"
| "serial_receive_loop A h limit deadline token (Suc fuel) c =
     io_bind (io_call (sp_cancelled A token)) (\<lambda>cancelled.
     if cancelled then io_return (serial_failed [] serial_cancelled, c)
     else io_bind (io_call (sp_now A)) (\<lambda>now.
     if deadline \<le> now then io_return (serial_failed [] serial_timeout, c)
     else io_bind (waitForDescriptor A h Serial_Read deadline token fuel) (\<lambda>wait_error.
     if \<not> te_ok wait_error then serial_give_up A [] wait_error c
     else io_bind (io_call (sp_read A h limit)) (\<lambda>answer. case answer of
         Inl code \<Rightarrow>
           if would_block code then serial_receive_loop A h limit deadline token fuel c
           else io_bind (serial_impl_close A c) (\<lambda>closed.
             io_return (serial_failed [] (serialError X_ReceiveFailed ''Receiving serial data failed.'' code), closed))
       | Inr bs \<Rightarrow>
           if bs = [] then serial_receive_loop A h limit deadline token fuel c
           else io_return (serial_done bs, c)))))"

definition serial_receive ::
    "'w serial_api \<Rightarrow> nat \<Rightarrow> bool \<Rightarrow> nat \<Rightarrow> OperationContext \<Rightarrow> SerialPort
       \<Rightarrow> ('w, bytes serial_result \<times> SerialPort) io" where
  "serial_receive A fuel alloc_ok limit ctx port =
     (if \<not> serial_isOpen port then io_return (serial_failed [] serial_not_open, port)
      else if limit = 0 \<or> 2 ^ 31 - 1 < limit \<or> \<not> OperationContext_isValid ctx
      then io_return (serial_failed [] (validationError ''Receive size and timeout must be valid.''), port)
      else if \<not> alloc_ok
      then io_return (serial_failed [] (serialError X_ResourceExhausted ''Allocating the serial receive buffer failed.'' 0), port)
      else io_bind (serial_deadline A ctx) (\<lambda>deadline.
        io_bind (serial_receive_loop A (the (sr_descriptor (the port))) limit deadline (oc_cancellation ctx) fuel (the port))
          (\<lambda>(r, c). io_return (r, Some c))))"

end
