(* ===== verification/SerialWindows.thy ===== *)
theory SerialWindows
  imports SerialPosix
begin

text \<open>
  The serial port on Windows (\<open>platform/xpt/serial/SerialPort.cpp\<close>): overlapped reads that outlive the
  call that started them, overlapped writes that do not, and every operation.  The bytes of a finished
  request are what the system answers; they overwrite the front of the port's buffer.
\<close>

section \<open>The system\<close>

record DCB =
  dcb_BaudRate :: u32
  dcb_ByteSize :: u8
  dcb_Parity :: u8
  dcb_StopBits :: u8
  dcb_fBinary :: bool
  dcb_fParity :: bool
  dcb_fOutxCtsFlow :: bool
  dcb_fOutxDsrFlow :: bool
  dcb_fDsrSensitivity :: bool
  dcb_fOutX :: bool
  dcb_fInX :: bool
  dcb_fNull :: bool
  dcb_fErrorChar :: bool
  dcb_fAbortOnError :: bool
  dcb_fRtsControl :: nat
  dcb_fDtrControl :: nat

text \<open>\<open>NOPARITY\<close> and \<open>ONESTOPBIT\<close> are 0, \<open>RTS_CONTROL_DISABLE\<close> is 0, \<open>DTR_CONTROL_ENABLE\<close> 1.\<close>

definition port_settings :: "int \<Rightarrow> DCB \<Rightarrow> DCB" where
  "port_settings baud s =
     s\<lparr>dcb_BaudRate := word_of_int baud, dcb_ByteSize := 8, dcb_Parity := 0, dcb_StopBits := 0,
       dcb_fBinary := True, dcb_fParity := False, dcb_fOutxCtsFlow := False, dcb_fOutxDsrFlow := False,
       dcb_fDsrSensitivity := False, dcb_fOutX := False, dcb_fInX := False, dcb_fNull := False,
       dcb_fErrorChar := False, dcb_fAbortOnError := False, dcb_fRtsControl := 0, dcb_fDtrControl := 1\<rparr>"

record COMMTIMEOUTS =
  ct_ReadIntervalTimeout :: u32
  ct_ReadTotalTimeoutMultiplier :: u32
  ct_ReadTotalTimeoutConstant :: u32
  ct_WriteTotalTimeoutMultiplier :: u32
  ct_WriteTotalTimeoutConstant :: u32

definition port_timeouts :: COMMTIMEOUTS where
  "port_timeouts = \<lparr>ct_ReadIntervalTimeout = - 1, ct_ReadTotalTimeoutMultiplier = - 1,
     ct_ReadTotalTimeoutConstant = 20, ct_WriteTotalTimeoutMultiplier = 0, ct_WriteTotalTimeoutConstant = 0\<rparr>"

text \<open>
  The calls.  \<open>sw_read\<close> starts a read with an event and at most the given size: the bytes, or the code
  and the bytes transferred.  \<open>sw_read_result\<close> asks for the result of the pending read of the given size,
  waiting for it or not;
  \<open>sw_write\<close> and \<open>sw_write_result\<close> likewise with the number of bytes taken.  \<open>sw_alloc\<close> answers whether
  an allocation of so many bytes succeeds.
\<close>

record 'w windows_serial =
  sw_now :: "'w \<Rightarrow> int \<times> 'w"
  sw_cancelled :: "CancellationToken \<Rightarrow> 'w \<Rightarrow> bool \<times> 'w"
  sw_alloc :: "nat \<Rightarrow> 'w \<Rightarrow> bool \<times> 'w"
  sw_widen :: "string \<Rightarrow> u16 list option"
  sw_create_file :: "u16 list \<Rightarrow> 'w \<Rightarrow> (int + nat) \<times> 'w"
  sw_get_state :: "nat \<Rightarrow> 'w \<Rightarrow> (int + DCB) \<times> 'w"
  sw_set_state :: "nat \<Rightarrow> DCB \<Rightarrow> 'w \<Rightarrow> int option \<times> 'w"
  sw_setup :: "nat \<Rightarrow> 'w \<Rightarrow> int option \<times> 'w"
  sw_timeouts :: "nat \<Rightarrow> COMMTIMEOUTS \<Rightarrow> 'w \<Rightarrow> int option \<times> 'w"
  sw_purge :: "nat \<Rightarrow> 'w \<Rightarrow> int option \<times> 'w"
  sw_create_event :: "'w \<Rightarrow> (int + nat) \<times> 'w"
  sw_reset_event :: "nat \<Rightarrow> 'w \<Rightarrow> int option \<times> 'w"
  sw_read :: "nat \<Rightarrow> nat \<Rightarrow> nat \<Rightarrow> 'w \<Rightarrow> (int \<times> bytes + bytes) \<times> 'w"
  sw_read_result :: "nat \<Rightarrow> nat \<Rightarrow> bool \<Rightarrow> 'w \<Rightarrow> (int \<times> bytes + bytes) \<times> 'w"
  sw_cancel_read :: "nat \<Rightarrow> 'w \<Rightarrow> 'w"
  sw_write :: "nat \<Rightarrow> nat \<Rightarrow> bytes \<Rightarrow> 'w \<Rightarrow> (int + nat) \<times> 'w"
  sw_write_result :: "nat \<Rightarrow> bool \<Rightarrow> 'w \<Rightarrow> (int \<times> nat + nat) \<times> 'w"
  sw_cancel_write :: "nat \<Rightarrow> 'w \<Rightarrow> 'w"
  sw_wait :: "nat \<Rightarrow> int \<Rightarrow> 'w \<Rightarrow> int option \<times> 'w"
  sw_close :: "nat \<Rightarrow> 'w \<Rightarrow> 'w"

definition ERROR_IO_INCOMPLETE :: int where "ERROR_IO_INCOMPLETE = 996"
definition ERROR_IO_PENDING :: int where "ERROR_IO_PENDING = 997"
definition ERROR_OPERATION_ABORTED :: int where "ERROR_OPERATION_ABORTED = 995"

definition windows_deadline :: "'w windows_serial \<Rightarrow> OperationContext \<Rightarrow> ('w, int) io" where
  "windows_deadline A ctx = io_bind (io_call (sw_now A)) (\<lambda>now. io_option (deadline_from now ctx))"

section \<open>The port\<close>

record WindowsPort =
  wp_handle :: "nat option"
  wp_event :: "nat option"
  wp_request :: nat
  wp_buffer :: bytes
  wp_read_size :: nat
  wp_read_offset :: nat
  wp_pending :: bool
  wp_device_name :: string
  wp_baud_rate :: int

definition WindowsPort_new :: WindowsPort where
  "WindowsPort_new = \<lparr>wp_handle = None, wp_event = None, wp_request = 0, wp_buffer = [], wp_read_size = 0, wp_read_offset = 0,
     wp_pending = False, wp_device_name = [], wp_baud_rate = 0\<rparr>"

text \<open>Of the request structure \<open>m_read_operation\<close> the port keeps the event and the size it was started
  with.\<close>

text \<open>The request wrote \<open>bs\<close> to the front of the buffer.\<close>

definition filled :: "bytes \<Rightarrow> bytes \<Rightarrow> bytes" where
  "filled buffer bs = take (length buffer) bs @ drop (length bs) buffer"

definition collected :: "bytes \<Rightarrow> nat \<Rightarrow> WindowsPort \<Rightarrow> WindowsPort" where
  "collected bs n c = c\<lparr>wp_buffer := filled (wp_buffer c) bs, wp_read_size := n, wp_read_offset := 0, wp_pending := False\<rparr>"

definition answer_bytes :: "int \<times> bytes + bytes \<Rightarrow> bytes" where
  "answer_bytes answer = (case answer of Inl (code, bs) \<Rightarrow> bs | Inr bs \<Rightarrow> bs)"

definition cancelRead :: "'w windows_serial \<Rightarrow> WindowsPort \<Rightarrow> ('w, WindowsPort) io" where
  "cancelRead A c =
     (if wp_pending c
      then io_bind (io_do (sw_cancel_read A (the (wp_handle c)))) (\<lambda>u.
        io_bind (io_call (sw_read_result A (the (wp_handle c)) (wp_request c) True)) (\<lambda>answer.
          let bs = answer_bytes answer in
          io_return (collected bs (min (length bs) (length (wp_buffer c))) c)))
      else io_return c)"

definition windows_close_impl :: "'w windows_serial \<Rightarrow> WindowsPort \<Rightarrow> ('w, WindowsPort) io" where
  "windows_close_impl A c =
     io_bind (case wp_handle c of None \<Rightarrow> io_return c
        | Some h \<Rightarrow> io_bind (cancelRead A c) (\<lambda>c'.
            io_bind (io_do (sw_close A h)) (\<lambda>u. io_return (c'\<lparr>wp_handle := None\<rparr>)))) (\<lambda>c'.
     io_bind (case wp_event c' of None \<Rightarrow> io_return () | Some e \<Rightarrow> io_do (sw_close A e)) (\<lambda>u.
       io_return WindowsPort_new))"

definition resize_bytes :: "nat \<Rightarrow> bytes \<Rightarrow> bytes" where
  "resize_bytes n bs = take n bs @ replicate (n - length bs) 0"

text \<open>Starting a read: \<open>None\<close> when the buffer could not be allocated.\<close>

definition start_event :: "'w windows_serial \<Rightarrow> WindowsPort \<Rightarrow> ('w, int + WindowsPort) io" where
  "start_event A c =
     (case wp_event c of
        Some e \<Rightarrow> io_return (Inr c)
      | None \<Rightarrow> io_bind (io_call (sw_create_event A)) (\<lambda>created. case created of
            Inl code \<Rightarrow> io_return (Inl code) | Inr e \<Rightarrow> io_return (Inr (c\<lparr>wp_event := Some e\<rparr>))))"

text \<open>The request itself, on the resized buffer.\<close>

definition issue_read ::
    "'w windows_serial \<Rightarrow> WindowsPort \<Rightarrow> ('w, TransportError option \<times> WindowsPort) io" where
  "issue_read A c =
     io_bind (io_call (sw_reset_event A (the (wp_event c)))) (\<lambda>reset. case reset of
         Some code \<Rightarrow> io_return (Some (serialError X_ReceiveFailed ''Resetting a serial read event failed.'' code), c)
       | None \<Rightarrow>
           let c1 = c\<lparr>wp_request := length (wp_buffer c), wp_read_size := 0, wp_read_offset := 0\<rparr> in
           io_bind (io_call (sw_read A (the (wp_handle c1)) (the (wp_event c1)) (length (wp_buffer c1)))) (\<lambda>answer.
             case answer of
               Inr bs \<Rightarrow> io_return (Some TransportError_none,
                 c1\<lparr>wp_buffer := filled (wp_buffer c1) bs, wp_read_size := length bs\<rparr>)
             | Inl (code, bs) \<Rightarrow>
                 if code = ERROR_IO_PENDING then io_return (Some TransportError_none, c1\<lparr>wp_pending := True\<rparr>)
                 else io_return (Some (serialError X_ReceiveFailed ''Receiving serial data failed.'' code),
                        c1\<lparr>wp_buffer := filled (wp_buffer c1) bs,
                           wp_read_size := min (length bs) (length (wp_buffer c1))\<rparr>)))"

definition startRead ::
    "'w windows_serial \<Rightarrow> nat \<Rightarrow> WindowsPort \<Rightarrow> ('w, TransportError option \<times> WindowsPort) io" where
  "startRead A limit c =
     io_bind (start_event A c) (\<lambda>started. case started of
         Inl code \<Rightarrow> io_return (Some (serialError X_ResourceExhausted ''Creating a serial read event failed.'' code), c)
       | Inr c1 \<Rightarrow>
           io_bind (if max limit 256 \<le> length (wp_buffer c1) then io_return True
                    else io_call (sw_alloc A (max limit 256))) (\<lambda>allocated.
           if \<not> allocated then io_return (None, c1)
           else issue_read A (c1\<lparr>wp_buffer := resize_bytes (max limit 256) (wp_buffer c1)\<rparr>)))"

fun waitForRead ::
    "'w windows_serial \<Rightarrow> int \<Rightarrow> CancellationToken \<Rightarrow> nat \<Rightarrow> WindowsPort \<Rightarrow> ('w, TransportError \<times> WindowsPort) io" where
  "waitForRead A deadline token 0 c = io_pending"
| "waitForRead A deadline token (Suc fuel) c =
     (if \<not> wp_pending c then io_return (TransportError_none, c)
      else io_bind (io_call (sw_read_result A (the (wp_handle c)) (wp_request c) False)) (\<lambda>answer. case answer of
          Inr bs \<Rightarrow> io_return (TransportError_none, collected bs (length bs) c)
        | Inl (code, bs) \<Rightarrow>
            if code \<noteq> ERROR_IO_INCOMPLETE
            then io_return (serialError X_ReceiveFailed ''Completing serial receive failed.'' code,
                   collected bs (min (length bs) (length (wp_buffer c))) c)
            else io_bind (io_call (sw_cancelled A token)) (\<lambda>cancelled.
              if cancelled then io_bind (cancelRead A c) (\<lambda>c'. io_return (serial_cancelled, c'))
              else io_bind (io_call (sw_now A)) (\<lambda>now.
              if deadline \<le> now then io_return (serial_timeout, c)
              else io_bind (io_option (i64_sub deadline now)) (\<lambda>remaining.
              io_bind (io_call (sw_wait A (the (wp_event c)) (wait_milliseconds remaining))) (\<lambda>waited. case waited of
                  Some wait_code \<Rightarrow> io_bind (cancelRead A c) (\<lambda>c'.
                    io_return (serialError X_ReceiveFailed ''Waiting for serial receive failed.'' wait_code, c'))
                | None \<Rightarrow> waitForRead A deadline token fuel c))))))"

text \<open>The bytes taken, \<open>None\<close> when their vector could not be allocated.  An iterator past the end of the
  buffer is undefined, also when nothing is read from there; more offset than size wraps.\<close>

definition takeReadBytes ::
    "'w windows_serial \<Rightarrow> nat \<Rightarrow> WindowsPort \<Rightarrow> ('w, bytes option \<times> WindowsPort) io" where
  "takeReadBytes A limit c =
     (let count = min limit (wp_read_size c - wp_read_offset c) in
      if wp_read_size c < wp_read_offset c \<or> length (wp_buffer c) < wp_read_offset c + count
      then io_undefined
      else io_bind (if count = 0 then io_return True else io_call (sw_alloc A count)) (\<lambda>allocated.
        if \<not> allocated then io_return (None, c)
        else io_return (Some (take count (drop (wp_read_offset c) (wp_buffer c))),
               c\<lparr>wp_read_offset := wp_read_offset c + count\<rparr>)))"

definition buffer_exhausted :: TransportError where
  "buffer_exhausted = serialError X_ResourceExhausted ''Allocating the serial receive buffer failed.'' 0"

text \<open>Taking the bytes to report with an error or without, then closing the port when \<open>closes\<close>.\<close>

definition report_bytes ::
    "'w windows_serial \<Rightarrow> nat \<Rightarrow> TransportError \<Rightarrow> bool \<Rightarrow> WindowsPort \<Rightarrow> ('w, bytes serial_result \<times> WindowsPort) io" where
  "report_bytes A limit e closes c =
     io_bind (takeReadBytes A limit c) (\<lambda>(taken, c'). case taken of
         None \<Rightarrow> io_return (serial_failed [] buffer_exhausted, c')
       | Some bs \<Rightarrow>
           if closes then io_bind (windows_close_impl A c') (\<lambda>closed. io_return (serial_failed bs e, closed))
           else io_return (serial_failed bs e, c'))"

text \<open>Making sure that a read is outstanding or done: \<open>Inl\<close> the result that ends the call, or the error to
  report with what was read.\<close>

definition ensure_read ::
    "'w windows_serial \<Rightarrow> nat \<Rightarrow> int \<Rightarrow> WindowsPort
       \<Rightarrow> ('w, (bytes serial_result + TransportError) \<times> WindowsPort + WindowsPort) io" where
  "ensure_read A limit deadline c =
     (if wp_pending c then io_return (Inr c)
      else io_bind (io_call (sw_now A)) (\<lambda>now.
        if deadline \<le> now then io_return (Inl (Inl (serial_failed [] serial_timeout), c))
        else io_bind (startRead A limit c) (\<lambda>(start_error, c1). case start_error of
            None \<Rightarrow> io_return (Inl (Inl (serial_failed [] buffer_exhausted), c1))
          | Some e \<Rightarrow> if te_ok e then io_return (Inr c1) else io_return (Inl (Inr e, c1)))))"

fun receive_windows_loop ::
    "'w windows_serial \<Rightarrow> nat \<Rightarrow> int \<Rightarrow> CancellationToken \<Rightarrow> nat \<Rightarrow> WindowsPort
       \<Rightarrow> ('w, bytes serial_result \<times> WindowsPort) io" where
  "receive_windows_loop A limit deadline token 0 c = io_pending"
| "receive_windows_loop A limit deadline token (Suc fuel) c =
     io_bind (io_call (sw_cancelled A token)) (\<lambda>cancelled.
     if cancelled then io_bind (cancelRead A c) (report_bytes A limit serial_cancelled False)
     else if wp_read_offset c < wp_read_size c then report_bytes A limit TransportError_none False c
     else io_bind (ensure_read A limit deadline c) (\<lambda>started. case started of
         Inl (Inl result, c1) \<Rightarrow> io_return (result, c1)
       | Inl (Inr e, c1) \<Rightarrow> report_bytes A limit e (te_code e \<noteq> X_ResourceExhausted) c1
       | Inr c1 \<Rightarrow> io_bind (waitForRead A deadline token fuel c1) (\<lambda>(wait_error, c2).
           if \<not> te_ok wait_error
           then report_bytes A limit wait_error (te_category wait_error = XCat_InputOutput) c2
           else receive_windows_loop A limit deadline token fuel c2)))"

definition receiveWindows ::
    "'w windows_serial \<Rightarrow> nat \<Rightarrow> nat \<Rightarrow> OperationContext \<Rightarrow> WindowsPort \<Rightarrow> ('w, bytes serial_result \<times> WindowsPort) io" where
  "receiveWindows A fuel limit ctx c =
     io_bind (windows_deadline A ctx) (\<lambda>deadline. receive_windows_loop A limit deadline (oc_cancellation ctx) fuel c)"

section \<open>Opening and closing\<close>

text \<open>A name that starts with COM in either case is put into the device namespace.\<close>

definition is_letter :: "u16 \<Rightarrow> u16 \<Rightarrow> bool" where
  "is_letter upper c \<longleftrightarrow> c = upper \<or> c = upper + 32"

definition convertDeviceName :: "'w windows_serial \<Rightarrow> string \<Rightarrow> u16 list" where
  "convertDeviceName A name =
     (if name = [] then []
      else case sw_widen A name of
          None \<Rightarrow> []
        | Some converted \<Rightarrow>
            if 3 \<le> length converted \<and> is_letter 67 (converted ! 0) \<and> is_letter 79 (converted ! 1) \<and>
               is_letter 77 (converted ! 2)
            then [92, 92, 46, 92] @ converted
            else converted)"

fun first_failure :: "(string \<times> ('w, int option) io) list \<Rightarrow> ('w, (string \<times> int) option) io" where
  "first_failure [] = io_return None"
| "first_failure ((m, step) # rest) = io_bind step (\<lambda>r. case r of
       None \<Rightarrow> first_failure rest | Some code \<Rightarrow> io_return (Some (m, code)))"

definition windows_configure :: "'w windows_serial \<Rightarrow> nat \<Rightarrow> int \<Rightarrow> ('w, TransportError + unit) io" where
  "windows_configure A h baud =
     io_bind (io_call (sw_get_state A h)) (\<lambda>read. case read of
         Inl code \<Rightarrow> io_return (Inl (configuration_failed ''Reading serial settings failed.'' code))
       | Inr settings \<Rightarrow>
           io_bind (first_failure
               [(''Configuring the serial device failed.'', io_call (sw_set_state A h (port_settings baud settings))),
                (''Configuring the serial device failed.'', io_call (sw_setup A h))]) (\<lambda>written. case written of
               Some (m, code) \<Rightarrow> io_return (Inl (configuration_failed m code))
             | None \<Rightarrow> io_bind (io_call (sw_get_state A h)) (\<lambda>again. case again of
                   Inl code \<Rightarrow> io_return (Inl (configuration_failed ''Reading applied serial settings failed.'' code))
                 | Inr applied \<Rightarrow>
                     if dcb_BaudRate applied \<noteq> word_of_int baud
                     then io_return (Inl (configuration_failed
                            ''The applied serial baud rate differs from the request.'' 0))
                     else io_bind (first_failure
                         [(''Configuring serial timeouts failed.'', io_call (sw_timeouts A h port_timeouts)),
                          (''Clearing serial buffers failed.'', io_call (sw_purge A h))]) (\<lambda>finished. case finished of
                         Some (m, code) \<Rightarrow> io_return (Inl (configuration_failed m code))
                       | None \<Rightarrow> io_return (Inr ())))))"

definition windows_last_check :: "'w windows_serial \<Rightarrow> int \<Rightarrow> CancellationToken \<Rightarrow> ('w, bool) io" where
  "windows_last_check A deadline token =
     io_bind (io_call (sw_cancelled A token)) (\<lambda>cancelled.
     if cancelled then io_return True
     else io_bind (io_call (sw_now A)) (\<lambda>now. io_return (deadline \<le> now)))"

definition windows_open ::
    "'w windows_serial \<Rightarrow> string \<Rightarrow> int \<Rightarrow> OperationContext \<Rightarrow> WindowsPort option
       \<Rightarrow> ('w, TransportStatus \<times> WindowsPort option) io" where
  "windows_open A name baud ctx port =
     (case port of
        None \<Rightarrow> io_return (Failure (validationError ''The serial port was moved from.''), port)
      | Some c \<Rightarrow>
          if \<not> serial_request_valid name baud ctx
          then io_return (Failure (validationError ''A device, positive baud rate, and non-negative timeout are required.''), port)
          else io_bind (io_call (sw_cancelled A (oc_cancellation ctx))) (\<lambda>cancelled.
            if cancelled then io_return (Failure serial_cancelled, port)
            else io_bind (windows_deadline A ctx) (\<lambda>deadline.
            io_bind (io_call (sw_now A)) (\<lambda>now.
            if deadline \<le> now then io_return (Failure serial_timeout, port)
            else if convertDeviceName A name = []
            then io_return (Failure (validationError ''The device name must be valid UTF-8.''), port)
            else io_bind (io_call (sw_create_file A (convertDeviceName A name))) (\<lambda>candidate. case candidate of
                Inl code \<Rightarrow> io_return (Failure (serialError X_OpenFailed ''Opening the serial device failed.'' code), port)
              | Inr h \<Rightarrow> io_bind (windows_configure A h baud) (\<lambda>configured. case configured of
                  Inl e \<Rightarrow> io_bind (io_do (sw_close A h)) (\<lambda>u. io_return (Failure e, port))
                | Inr u \<Rightarrow> io_bind (windows_last_check A deadline (oc_cancellation ctx)) (\<lambda>late.
                    if late
                    then io_bind (io_do (sw_close A h)) (\<lambda>u.
                      io_bind (io_call (sw_cancelled A (oc_cancellation ctx))) (\<lambda>cancelled.
                        io_return (Failure (if cancelled then serial_cancelled else serial_timeout), port)))
                    else io_bind (windows_close_impl A c) (\<lambda>closed.
                      io_return (Success (), Some (closed\<lparr>wp_handle := Some h, wp_device_name := name,
                        wp_baud_rate := baud\<rparr>))))))))))"

definition windows_close :: "'w windows_serial \<Rightarrow> WindowsPort option \<Rightarrow> ('w, WindowsPort option) io" where
  "windows_close A port =
     (case port of None \<Rightarrow> io_return None
      | Some c \<Rightarrow> io_bind (windows_close_impl A c) (\<lambda>c'. io_return (Some c')))"

definition windows_isOpen :: "WindowsPort option \<Rightarrow> bool" where
  "windows_isOpen port = (case port of None \<Rightarrow> False | Some c \<Rightarrow> wp_handle c \<noteq> None)"

section \<open>Transfers\<close>

definition windows_receive ::
    "'w windows_serial \<Rightarrow> nat \<Rightarrow> nat \<Rightarrow> OperationContext \<Rightarrow> WindowsPort option
       \<Rightarrow> ('w, bytes serial_result \<times> WindowsPort option) io" where
  "windows_receive A fuel limit ctx port =
     (if \<not> windows_isOpen port then io_return (serial_failed [] serial_not_open, port)
      else if limit = 0 \<or> 2 ^ 31 - 1 < limit \<or> \<not> OperationContext_isValid ctx
      then io_return (serial_failed [] (validationError ''Receive size and timeout must be valid.''), port)
      else io_bind (receiveWindows A fuel limit ctx (the port)) (\<lambda>(r, c). io_return (r, Some c)))"

text \<open>A cancelled write still contributes its progress.\<close>

definition collect_write ::
    "'w windows_serial \<Rightarrow> nat \<Rightarrow> TransportError \<Rightarrow> ('w, nat \<times> TransportError) io" where
  "collect_write A h reason =
     io_bind (io_do (sw_cancel_write A h)) (\<lambda>u.
     io_bind (io_call (sw_write_result A h True)) (\<lambda>answer. case answer of
         Inr n \<Rightarrow> io_return (n, TransportError_none)
       | Inl (code, n) \<Rightarrow>
           io_return (n, if code \<noteq> ERROR_OPERATION_ABORTED
                         then serialError X_SendFailed ''Collecting cancelled serial send failed.'' code else reason)))"

fun waitForOverlapped ::
    "'w windows_serial \<Rightarrow> nat \<Rightarrow> nat \<Rightarrow> int \<Rightarrow> CancellationToken \<Rightarrow> nat \<Rightarrow> ('w, nat \<times> TransportError) io" where
  "waitForOverlapped A h event deadline token 0 = io_pending"
| "waitForOverlapped A h event deadline token (Suc fuel) =
     io_bind (io_call (sw_write_result A h False)) (\<lambda>answer. case answer of
         Inr n \<Rightarrow> io_return (n, TransportError_none)
       | Inl (code, n) \<Rightarrow>
           if code \<noteq> ERROR_IO_INCOMPLETE
           then io_return (n, serialError X_SendFailed ''Completing serial send failed.'' code)
           else io_bind (io_call (sw_cancelled A token)) (\<lambda>cancelled.
             if cancelled then collect_write A h serial_cancelled
             else io_bind (io_call (sw_now A)) (\<lambda>now.
             if deadline \<le> now then collect_write A h serial_timeout
             else io_bind (io_option (i64_sub deadline now)) (\<lambda>remaining.
             io_bind (io_call (sw_wait A event (wait_milliseconds remaining))) (\<lambda>waited. case waited of
                 Some wait_code \<Rightarrow> collect_write A h
                   (serialError X_SendFailed ''Waiting for serial send failed.'' wait_code)
               | None \<Rightarrow> waitForOverlapped A h event deadline token fuel)))))"

text \<open>One round of the loop after its checks: the bytes sent so far, the error that ends the loop, and
  the port.  The event of the round is closed last.\<close>

definition send_round ::
    "'w windows_serial \<Rightarrow> nat \<Rightarrow> bytes \<Rightarrow> int \<Rightarrow> CancellationToken \<Rightarrow> nat \<Rightarrow> nat \<Rightarrow> nat \<Rightarrow> WindowsPort
       \<Rightarrow> ('w, nat \<times> TransportError \<times> WindowsPort) io" where
  "send_round A h data deadline token fuel event sent c =
     io_bind (io_call (sw_write A h event (drop sent data))) (\<lambda>started. case started of
         Inl code \<Rightarrow>
           if code \<noteq> ERROR_IO_PENDING
           then io_bind (windows_close_impl A c) (\<lambda>closed.
             io_return (sent, serialError X_SendFailed ''Sending serial data failed.'' code, closed))
           else io_bind (waitForOverlapped A h event deadline token fuel) (\<lambda>(n, e).
             let sent' = sent + min n (length data - sent) in
             if \<not> te_ok e \<and> te_category e = XCat_InputOutput
             then io_bind (windows_close_impl A c) (\<lambda>closed. io_return (sent', e, closed))
             else io_return (sent', e, c))
       | Inr n \<Rightarrow> io_return (sent + n, TransportError_none, c))"

fun windows_send_loop ::
    "'w windows_serial \<Rightarrow> nat \<Rightarrow> bytes \<Rightarrow> int \<Rightarrow> CancellationToken \<Rightarrow> nat \<Rightarrow> nat \<Rightarrow> WindowsPort
       \<Rightarrow> ('w, nat serial_result \<times> WindowsPort) io" where
  "windows_send_loop A h data deadline token 0 sent c = io_pending"
| "windows_send_loop A h data deadline token (Suc fuel) sent c =
     (if sent < length data
      then io_bind (io_call (sw_cancelled A token)) (\<lambda>cancelled.
        if cancelled then io_return (serial_failed sent serial_cancelled, c)
        else io_bind (io_call (sw_now A)) (\<lambda>now.
        if deadline \<le> now then io_return (serial_failed sent serial_timeout, c)
        else io_bind (io_call (sw_create_event A)) (\<lambda>created. case created of
            Inl code \<Rightarrow> io_return (serial_failed sent
              (serialError X_ResourceExhausted ''Creating a serial I/O event failed.'' code), c)
          | Inr event \<Rightarrow>
              io_bind (send_round A h data deadline token fuel event sent c) (\<lambda>(sent', e, c').
              io_bind (io_do (sw_close A event)) (\<lambda>u.
                if te_ok e then windows_send_loop A h data deadline token fuel sent' c'
                else io_return (serial_failed sent' e, c'))))))
      else io_return (serial_done sent, c))"

definition windows_send ::
    "'w windows_serial \<Rightarrow> nat \<Rightarrow> bytes option \<Rightarrow> nat \<Rightarrow> OperationContext \<Rightarrow> WindowsPort option
       \<Rightarrow> ('w, nat serial_result \<times> WindowsPort option) io" where
  "windows_send A fuel data n ctx port =
     (if \<not> windows_isOpen port then io_return (serial_failed 0 serial_not_open, port)
      else if (data = None \<and> n \<noteq> 0) \<or> 2 ^ 31 - 1 < n \<or> \<not> OperationContext_isValid ctx
      then io_return (serial_failed 0 (validationError ''Send data, size, and timeout must be valid.''), port)
      else if n = 0 then io_return (serial_done 0, port)
      else io_bind (windows_deadline A ctx) (\<lambda>deadline.
        io_bind (windows_send_loop A (the (wp_handle (the port))) (take n (the data)) deadline (oc_cancellation ctx) fuel 0 (the port))
          (\<lambda>(r, c). io_return (r, Some c))))"

end
