(* ===== verification/SerialPosixCorrect.thy ===== *)
theory SerialPosixCorrect
  imports SerialPosix SocketReturns
begin

text \<open>
  The serial port on POSIX: every operation returns; a failed open leaves the port alone; the descriptors
  open are those of the port; transfers are reported exactly.
\<close>

section \<open>The ledger and the clock\<close>

record serial_ledger =
  sl_open :: "nat multiset"
  sl_misused :: bool
  sl_sent :: bytes
  sl_received :: bytes

definition sl_use :: "nat \<Rightarrow> serial_ledger \<Rightarrow> serial_ledger" where
  "sl_use h l = (if h \<in># sl_open l then l else l\<lparr>sl_misused := True\<rparr>)"

lemma sl_use_open [simp]: "h \<in># sl_open l \<Longrightarrow> sl_use h l = l"
  by (simp add: sl_use_def)

definition noting :: "('w \<Rightarrow> 'a \<times> 'w) \<Rightarrow> ('a \<Rightarrow> 'l \<Rightarrow> 'l) \<Rightarrow> 'w \<times> 'l \<Rightarrow> 'a \<times> 'w \<times> 'l" where
  "noting f g s = (case f (fst s) of (v, w) \<Rightarrow> (v, w, g v (snd s)))"

definition serial_ledgered :: "'w serial_api \<Rightarrow> ('w \<times> serial_ledger) serial_api" where
  "serial_ledgered A =
     \<lparr>sp_now = noting (sp_now A) (\<lambda>v l. l),
      sp_cancelled = (\<lambda>t. noting (sp_cancelled A t) (\<lambda>v l. l)),
      sp_open = (\<lambda>n. noting (sp_open A n)
        (\<lambda>v l. case v of Inl _ \<Rightarrow> l | Inr h \<Rightarrow> l\<lparr>sl_open := add_mset h (sl_open l)\<rparr>)),
      sp_get_settings = (\<lambda>h. noting (sp_get_settings A h) (\<lambda>v. sl_use h)),
      sp_set_settings = (\<lambda>h s. noting (sp_set_settings A h s) (\<lambda>v. sl_use h)),
      sp_flush = (\<lambda>h. noting (sp_flush A h) (\<lambda>v. sl_use h)),
      sp_poll = (\<lambda>h k t. noting (sp_poll A h k t) (\<lambda>v. sl_use h)),
      sp_write = (\<lambda>h bs. noting (sp_write A h bs)
        (\<lambda>v l. let l' = sl_use h l in case v of Inl _ \<Rightarrow> l' | Inr n \<Rightarrow> l'\<lparr>sl_sent := sl_sent l' @ take n bs\<rparr>)),
      sp_read = (\<lambda>h n. noting (sp_read A h n)
        (\<lambda>v l. let l' = sl_use h l in case v of Inl _ \<Rightarrow> l' | Inr bs \<Rightarrow> l'\<lparr>sl_received := sl_received l' @ bs\<rparr>)),
      sp_close = (\<lambda>h s. (sp_close A h (fst s), (sl_use h (snd s))\<lparr>sl_open := sl_open (snd s) - {#h#}\<rparr>))\<rparr>"

text \<open>What is relied on of the system: the clock advances, as in \<open>SocketReturns\<close>, and transfers are no
  larger than asked for.\<close>

definition serial_system :: "'w serial_api \<Rightarrow> ('w \<Rightarrow> int) \<Rightarrow> bool" where
  "serial_system A tick \<longleftrightarrow>
     (\<forall>w. tick w \<le> fst (sp_now A w) \<and> fst (sp_now A w) \<le> tick (snd (sp_now A w)) \<and>
          (fst (sp_now A w) < clock_max \<longrightarrow> fst (sp_now A w) < tick (snd (sp_now A w))) \<and>
          fst (sp_now A w) \<le> clock_max) \<and>
     (\<forall>t. keeps tick (sp_cancelled A t)) \<and> (\<forall>n. keeps tick (sp_open A n)) \<and>
     (\<forall>h. keeps tick (sp_get_settings A h)) \<and> (\<forall>h s. keeps tick (sp_set_settings A h s)) \<and>
     (\<forall>h. keeps tick (sp_flush A h)) \<and> (\<forall>h k t. keeps tick (sp_poll A h k t)) \<and>
     (\<forall>h bs. keeps tick (sp_write A h bs)) \<and> (\<forall>h n. keeps tick (sp_read A h n)) \<and>
     (\<forall>h w. tick w \<le> tick (sp_close A h w)) \<and>
     (\<forall>h bs w n. fst (sp_write A h bs w) = Inr n \<longrightarrow> n \<le> length bs) \<and>
     (\<forall>h n w bs. fst (sp_read A h n w) = Inr bs \<longrightarrow> length bs \<le> n)"

lemma keeps_wp:
  assumes "keeps tick f" and "\<And>v w'. tick w \<le> tick w' \<Longrightarrow> v = fst (f w) \<Longrightarrow> Q v (w', g v l)"
  shows "io_wp (io_call (noting f g)) Q R (w, l)"
proof -
  obtain v w' where v: "f w = (v, w')" by fastforce
  moreover have "tick w \<le> tick w'" using assms(1) v unfolding keeps_def by (metis snd_conv)
  ultimately show ?thesis using assms(2) [of w' v] by (simp add: io_wp_call noting_def)
qed

lemma now_wp:
  assumes "tick w \<le> fst (f w) \<and> fst (f w) \<le> tick (snd (f w)) \<and>
      (fst (f w) < clock_max \<longrightarrow> fst (f w) < tick (snd (f w))) \<and> fst (f w) \<le> clock_max"
    and "\<And>v w'. tick w \<le> v \<Longrightarrow> v \<le> tick w' \<Longrightarrow> (v < clock_max \<Longrightarrow> v < tick w') \<Longrightarrow> v \<le> clock_max \<Longrightarrow> Q v (w', l)"
  shows "io_wp (io_call (noting f (\<lambda>v l. l))) Q R (w, l)"
proof -
  obtain v w' where v: "f w = (v, w')" by fastforce
  then show ?thesis using assms(1) by (auto simp: io_wp_call noting_def intro: assms(2))
qed

text \<open>The rules for the calls of the ledgered system.\<close>

lemma serial_systemD:
  assumes "serial_system A tick"
  shows "tick w \<le> fst (sp_now A w) \<and> fst (sp_now A w) \<le> tick (snd (sp_now A w)) \<and>
          (fst (sp_now A w) < clock_max \<longrightarrow> fst (sp_now A w) < tick (snd (sp_now A w))) \<and> fst (sp_now A w) \<le> clock_max"
    "keeps tick (sp_cancelled A t)" "keeps tick (sp_open A name)" "keeps tick (sp_get_settings A h)"
    "keeps tick (sp_set_settings A h s)" "keeps tick (sp_flush A h)" "keeps tick (sp_poll A h k ms)"
    "keeps tick (sp_write A h bs)" "keeps tick (sp_read A h n)" "tick w \<le> tick (sp_close A h w)"
    "fst (sp_write A h bs w) = Inr n \<Longrightarrow> n \<le> length bs" "fst (sp_read A h n w) = Inr bs \<Longrightarrow> length bs \<le> n"
  using assms unfolding serial_system_def by (simp_all del: split_paired_All) (metis+)?

lemma serial_ledgered_calls:
  "sp_now (serial_ledgered A) = noting (sp_now A) (\<lambda>v l. l)"
  "sp_cancelled (serial_ledgered A) t = noting (sp_cancelled A t) (\<lambda>v l. l)"
  "sp_open (serial_ledgered A) name = noting (sp_open A name)
        (\<lambda>v l. case v of Inl _ \<Rightarrow> l | Inr h \<Rightarrow> l\<lparr>sl_open := add_mset h (sl_open l)\<rparr>)"
  "sp_get_settings (serial_ledgered A) h = noting (sp_get_settings A h) (\<lambda>v. sl_use h)"
  "sp_set_settings (serial_ledgered A) h s = noting (sp_set_settings A h s) (\<lambda>v. sl_use h)"
  "sp_flush (serial_ledgered A) h = noting (sp_flush A h) (\<lambda>v. sl_use h)"
  "sp_poll (serial_ledgered A) h k ms = noting (sp_poll A h k ms) (\<lambda>v. sl_use h)"
  "sp_write (serial_ledgered A) h bs = noting (sp_write A h bs)
        (\<lambda>v l. let l' = sl_use h l in case v of Inl _ \<Rightarrow> l' | Inr n \<Rightarrow> l'\<lparr>sl_sent := sl_sent l' @ take n bs\<rparr>)"
  "sp_read (serial_ledgered A) h n = noting (sp_read A h n)
        (\<lambda>v l. let l' = sl_use h l in case v of Inl _ \<Rightarrow> l' | Inr bs \<Rightarrow> l'\<lparr>sl_received := sl_received l' @ bs\<rparr>)"
  "sp_close (serial_ledgered A) h x = (sp_close A h (fst x), (sl_use h (snd x))\<lparr>sl_open := sl_open (snd x) - {#h#}\<rparr>)"
  by (simp_all add: serial_ledgered_def)

lemma serial_wp_now:
  assumes "serial_system A tick"
    and "\<And>v w'. tick w \<le> v \<Longrightarrow> v \<le> tick w' \<Longrightarrow> (v < clock_max \<Longrightarrow> v < tick w') \<Longrightarrow> v \<le> clock_max \<Longrightarrow> Q v (w', l)"
  shows "io_wp (io_call (sp_now (serial_ledgered A))) Q R (w, l)"
  unfolding serial_ledgered_calls by (rule now_wp [where tick = tick]) (rule serial_systemD(1) [OF assms(1)], rule assms(2))

lemma serial_wp_quiet:
  assumes "serial_system A tick"
  shows "(\<And>v w'. tick w \<le> tick w' \<Longrightarrow> Q1 v (w', l)) \<Longrightarrow> io_wp (io_call (sp_cancelled (serial_ledgered A) t)) Q1 R1 (w, l)"
    "h \<in># sl_open l \<Longrightarrow> (\<And>v w'. tick w \<le> tick w' \<Longrightarrow> Q2 v (w', l)) \<Longrightarrow>
       io_wp (io_call (sp_get_settings (serial_ledgered A) h)) Q2 R2 (w, l)"
    "h \<in># sl_open l \<Longrightarrow> (\<And>v w'. tick w \<le> tick w' \<Longrightarrow> Q3 v (w', l)) \<Longrightarrow>
       io_wp (io_call (sp_set_settings (serial_ledgered A) h s)) Q3 R3 (w, l)"
    "h \<in># sl_open l \<Longrightarrow> (\<And>v w'. tick w \<le> tick w' \<Longrightarrow> Q4 v (w', l)) \<Longrightarrow>
       io_wp (io_call (sp_flush (serial_ledgered A) h)) Q4 R4 (w, l)"
    "h \<in># sl_open l \<Longrightarrow> (\<And>v w'. tick w \<le> tick w' \<Longrightarrow> Q5 v (w', l)) \<Longrightarrow>
       io_wp (io_call (sp_poll (serial_ledgered A) h k ms)) Q5 R5 (w, l)"
  unfolding serial_ledgered_calls
  by (auto intro!: keeps_wp [OF serial_systemD(2) [OF assms]] keeps_wp [OF serial_systemD(4) [OF assms]]
      keeps_wp [OF serial_systemD(5) [OF assms]] keeps_wp [OF serial_systemD(6) [OF assms]]
      keeps_wp [OF serial_systemD(7) [OF assms]])

lemma serial_wp_open:
  assumes "serial_system A tick" and "\<And>e w'. tick w \<le> tick w' \<Longrightarrow> Q (Inl e) (w', l)"
    and "\<And>h w'. tick w \<le> tick w' \<Longrightarrow> Q (Inr h) (w', l\<lparr>sl_open := add_mset h (sl_open l)\<rparr>)"
  shows "io_wp (io_call (sp_open (serial_ledgered A) name)) Q R (w, l)"
  unfolding serial_ledgered_calls
  by (rule keeps_wp [OF serial_systemD(3) [OF assms(1)]]) (auto intro: assms(2,3) split: sum.splits)

lemma serial_wp_write:
  assumes "serial_system A tick" and "h \<in># sl_open l" and "\<And>e w'. tick w \<le> tick w' \<Longrightarrow> Q (Inl e) (w', l)"
    and "\<And>n w'. tick w \<le> tick w' \<Longrightarrow> n \<le> length bs \<Longrightarrow> Q (Inr n) (w', l\<lparr>sl_sent := sl_sent l @ take n bs\<rparr>)"
  shows "io_wp (io_call (sp_write (serial_ledgered A) h bs)) Q R (w, l)"
  unfolding serial_ledgered_calls
  by (rule keeps_wp [OF serial_systemD(8) [OF assms(1)]])
    (use assms(2) in \<open>auto intro!: assms(3,4) dest: serial_systemD(11) [OF assms(1)] split: sum.splits\<close>)

lemma serial_wp_read:
  assumes "serial_system A tick" and "h \<in># sl_open l" and "\<And>e w'. tick w \<le> tick w' \<Longrightarrow> Q (Inl e) (w', l)"
    and "\<And>bs w'. tick w \<le> tick w' \<Longrightarrow> length bs \<le> n \<Longrightarrow> Q (Inr bs) (w', l\<lparr>sl_received := sl_received l @ bs\<rparr>)"
  shows "io_wp (io_call (sp_read (serial_ledgered A) h n)) Q R (w, l)"
  unfolding serial_ledgered_calls
  by (rule keeps_wp [OF serial_systemD(9) [OF assms(1)]])
    (use assms(2) in \<open>auto intro!: assms(3,4) dest: serial_systemD(12) [OF assms(1)] split: sum.splits\<close>)

lemma serial_deadline_wp:
  assumes "serial_system A tick" and "0 \<le> tick w" and "OperationContext_isValid ctx"
    and "\<And>d w'. tick w \<le> tick w' \<Longrightarrow> d \<le> clock_max \<Longrightarrow> Q d (w', l)"
  shows "io_wp (serial_deadline (serial_ledgered A) ctx) Q R (w, l)"
  unfolding serial_deadline_def io_wp_bind
proof (rule serial_wp_now [OF assms(1)])
  fix v w' assume v: "tick w \<le> v" "v \<le> tick w'" "v \<le> clock_max"
  obtain d where "deadline_from v ctx = Some d" "d \<le> clock_max"
    by (rule deadline_from_defined [of v ctx]) (use v assms(2,3) in auto)
  then show "io_wp (io_option (deadline_from v ctx)) Q R (w', l)" using v assms(4) by simp
qed

section \<open>Closing and waiting\<close>

definition serial_owned :: "SerialPort \<Rightarrow> nat multiset" where
  "serial_owned port = (case port of None \<Rightarrow> {#}
     | Some c \<Rightarrow> (case sr_descriptor c of None \<Rightarrow> {#} | Some h \<Rightarrow> {#h#}))"

lemma serial_owned_simps [simp]:
  "serial_owned None = {#}" "serial_owned (Some SerialPort_new) = {#}"
  "sr_descriptor c = Some h \<Longrightarrow> serial_owned (Some c) = {#h#}"
  "sr_descriptor c = None \<Longrightarrow> serial_owned (Some c) = {#}"
  by (simp_all add: serial_owned_def SerialPort_new_def)

lemma close_descriptor_ledgered [simp]:
  "close_descriptor (serial_ledgered A) (Some h) (w, l)
     = (sp_close A h w, (sl_use h l)\<lparr>sl_open := sl_open l - {#h#}\<rparr>)"
  "close_descriptor (serial_ledgered A) None s = s"
  by (simp_all add: close_descriptor_def serial_ledgered_calls)

lemma serial_close_wp:
  assumes "serial_system A tick" and "sl_open l = serial_owned (Some c) + F"
    and "\<And>w'. tick w \<le> tick w' \<Longrightarrow> Q SerialPort_new (w', l\<lparr>sl_open := F\<rparr>)"
  shows "io_wp (serial_impl_close (serial_ledgered A) c) Q R (w, l)"
proof (cases "sr_descriptor c")
  case None
  then have "l\<lparr>sl_open := F\<rparr> = l" using assms(2) by simp
  then show ?thesis using assms(3) [of w] None by (simp add: serial_impl_close_def)
next
  case (Some h)
  then show ?thesis using assms(2,3) serial_systemD(10) [OF assms(1)] by (simp add: serial_impl_close_def)
qed

lemma descriptor_wait_wp:
  assumes "serial_system A tick" and "h \<in># sl_open l" and "d \<le> clock_max"
    and "0 \<le> tick w" and "0 < fuel" and "d - tick w < int fuel"
  shows "io_wp (waitForDescriptor (serial_ledgered A) h k d t fuel)
     (\<lambda>v s. snd s = l \<and> tick w \<le> tick (fst s)) (\<lambda>_. False) (w, l)"
  using assms(4-6)
proof (induction fuel arbitrary: w)
  case 0 then show ?case by simp
next
  case (Suc fuel)
  have again: "io_wp (waitForDescriptor (serial_ledgered A) h k d t fuel) Q R (w', l)"
    if "tick w < tick w'" "tick w < d" "\<And>v w''. tick w \<le> tick w'' \<Longrightarrow> Q v (w'', l)" for Q R w'
  proof (rule io_wp_mono [OF Suc.IH])
    show "0 \<le> tick w'" "0 < fuel" "d - tick w' < int fuel" using Suc.prems that(1,2) by linarith+
  qed (use that(1) in \<open>auto intro!: that(3)\<close>)
  have range: "i64_sub d now = Some (d - now)" if "now < d" "tick w \<le> tick w'" "tick w' \<le> now" for now w'
    using that Suc.prems(1) assms(3) by (auto simp: i64_sub_def in_i64_def clock_max_def)
  show ?case
    using assms(2,3) by (auto intro!: serial_wp_quiet(1,5) [OF assms(1)] serial_wp_now [OF assms(1)] again
      simp: range not_le split: poll_result.splits)
qed

section \<open>Opening\<close>

definition opened_or_unchanged ::
    "serial_ledger \<Rightarrow> nat multiset \<Rightarrow> string \<Rightarrow> int \<Rightarrow> SerialPort \<Rightarrow> TransportStatus \<times> SerialPort \<Rightarrow> serial_ledger \<Rightarrow> bool" where
  "opened_or_unchanged l F name baud port rp l' \<longleftrightarrow> (case rp of (r, port') \<Rightarrow>
     l' = l\<lparr>sl_open := serial_owned port' + F\<rparr> \<and>
     (case r of Success _ \<Rightarrow> (\<exists>h. port' = Some \<lparr>sr_descriptor = Some h, sr_device_name = name, sr_baud_rate = baud\<rparr>)
      | Failure e \<Rightarrow> port' = port))"

lemma serial_configure_wp:
  assumes "serial_system A tick" and "h \<in># sl_open l" and "\<And>v w'. tick w \<le> tick w' \<Longrightarrow> Q v (w', l)"
  shows "io_wp (serial_configure (serial_ledgered A) h baud) Q R (w, l)"
  unfolding serial_configure_def using assms(2)
  by (auto intro!: serial_wp_quiet(2-4) [OF assms(1)] assms(3) split: sum.splits option.splits)

lemma serial_last_check_wp:
  assumes "serial_system A tick" and "\<And>v w'. tick w \<le> tick w' \<Longrightarrow> Q v (w', l)"
  shows "io_wp (serial_last_check (serial_ledgered A) d t) Q R (w, l)"
  unfolding serial_last_check_def
  by (auto intro!: serial_wp_quiet(1) [OF assms(1)] serial_wp_now [OF assms(1)] assms(2))

lemma serial_open_wp:
  assumes "serial_system A tick" and "0 \<le> tick w" and "sl_open l = serial_owned port + F"
  shows "io_wp (serial_open (serial_ledgered A) name baud ctx port)
     (\<lambda>rp s. opened_or_unchanged l F name baud port rp (snd s)) (\<lambda>_. False) (w, l)"
proof (cases port)
  case None then show ?thesis using assms(3) by (simp add: serial_open_def opened_or_unchanged_def)
next
  case (Some c)
  have stay: "opened_or_unchanged l F name baud port (Failure e, port) l" for e
    using assms(3) by (simp add: opened_or_unchanged_def)
  have opened: "opened_or_unchanged l F name baud port
      (Success (), Some \<lparr>sr_descriptor = Some h, sr_device_name = name, sr_baud_rate = baud\<rparr>)
      (l\<lparr>sl_open := add_mset h F\<rparr>)" for h
    by (simp add: opened_or_unchanged_def)
  have closing: "io_wp (serial_impl_close (serial_ledgered A) c) Q R (w', l\<lparr>sl_open := add_mset h (sl_open l)\<rparr>)"
    if "\<And>w''. Q SerialPort_new (w'', l\<lparr>sl_open := add_mset h F\<rparr>)" for Q R w' h
    by (rule serial_close_wp [OF assms(1), where F = "add_mset h F"]) (use assms(3) Some that in auto)
  show ?thesis
    unfolding serial_open_def Some using stay [unfolded Some] opened [unfolded Some] assms(2)
    by (auto intro!: serial_wp_quiet(1) [OF assms(1)] serial_wp_now [OF assms(1)] serial_deadline_wp [OF assms(1)]
        serial_wp_open [OF assms(1)] serial_configure_wp [OF assms(1)] serial_last_check_wp [OF assms(1)] closing
        simp: serial_request_valid_def split: sum.splits)
qed

section \<open>Transfers\<close>

definition serial_sent_exactly ::
    "serial_ledger \<Rightarrow> nat multiset \<Rightarrow> bytes \<Rightarrow> nat serial_result \<times> SerialPort \<Rightarrow> serial_ledger \<Rightarrow> bool" where
  "serial_sent_exactly l F data rp l' \<longleftrightarrow> (case rp of (r, port') \<Rightarrow>
     l' = l\<lparr>sl_open := serial_owned port' + F, sl_sent := sl_sent l @ take (pr_value r) data\<rparr> \<and>
     (if te_ok (pr_error r) then pr_value r = length data else pr_value r < length data \<or> data = []))"

lemma te_ok_none [simp]: "te_ok TransportError_none"
  by (simp add: te_ok_def TransportError_none_def)

lemma serial_send_loop_wp:
  assumes "serial_system A tick" and "d \<le> clock_max" and "sr_descriptor c = Some h"
    and "sl_open l = serial_owned (Some c) + F" and "k \<le> length data"
    and "0 \<le> tick w" and "2 \<le> fuel" and "d - tick w + 2 \<le> int fuel"
  shows "io_wp (serial_send_loop (serial_ledgered A) h data d t fuel k c)
     (\<lambda>(r, c') s. serial_sent_exactly l F data (r, Some c') (snd s)) (\<lambda>_. False)
     (w, l\<lparr>sl_sent := sl_sent l @ take k data\<rparr>)"
  using assms(5-8)
proof (induction fuel arbitrary: w k)
  case 0 then show ?case by simp
next
  case (Suc fuel)
  let ?l = "\<lambda>k. l\<lparr>sl_sent := sl_sent l @ take k data\<rparr>"
  have op: "h \<in># sl_open (?l k)" and own: "sl_open (?l k) = serial_owned (Some c) + F" using assms(3,4) by simp_all
  show ?case
  proof (cases "k < length data")
    case False
    then show ?thesis using Suc.prems(1) assms(4) by (simp add: serial_sent_exactly_def)
  next
    case True
    have again: "io_wp (serial_send_loop (serial_ledgered A) h data d t fuel k' c)
        (\<lambda>(r, c') s. serial_sent_exactly l F data (r, Some c') (snd s)) (\<lambda>_. False) (w', ?l k')"
      if "k' \<le> length data" "tick w < tick w'" "tick w < d" for k' w'
      by (rule Suc.IH) (use Suc.prems that in linarith)+
    have stay: "serial_sent_exactly l F data (serial_failed k e, Some c) (?l k)" if "\<not> te_ok e" for e
      using that True assms(4) by (simp add: serial_sent_exactly_def)
    have closing: "io_wp (serial_impl_close (serial_ledgered A) c) (\<lambda>v. io_wp (io_return (serial_failed k e, v))
        (\<lambda>(r, c') s. serial_sent_exactly l F data (r, Some c') (snd s)) (\<lambda>_. False)) (\<lambda>_. False) (w', ?l k)"
      if "\<not> te_ok e" for e w'
      by (rule serial_close_wp [OF assms(1) own]) (use that True in \<open>auto simp: serial_sent_exactly_def\<close>)
    have giving_up: "io_wp (serial_give_up (serial_ledgered A) k e c)
        (\<lambda>(r, c') s. serial_sent_exactly l F data (r, Some c') (snd s)) (\<lambda>_. False) (w', ?l k)"
      if "\<not> te_ok e" for e w'
      using closing [OF that] stay [OF that] by (auto simp: serial_give_up_def)
    have wait: "io_wp (waitForDescriptor (serial_ledgered A) h k' d t fuel) Q (\<lambda>_. False) (w', ?l k)"
      if "tick w < tick w'" "tick w < d" "\<And>v w''. tick w' \<le> tick w'' \<Longrightarrow> Q v (w'', ?l k)" for k' Q w'
    proof (rule io_wp_mono [OF descriptor_wait_wp [OF assms(1) op assms(2)]])
      show "0 \<le> tick w'" "0 < fuel" "d - tick w' < int fuel" using Suc.prems that(1,2) by linarith+
      show "\<And>v s. snd s = ?l k \<and> tick w' \<le> tick (fst s) \<Longrightarrow> Q v s" using that(3) by (metis prod.collapse)
    qed auto
    have writing: "io_wp (io_call (sp_write (serial_ledgered A) h (drop k data))) Q (\<lambda>_. False) (w', ?l k)"
      if "\<And>e w''. tick w' \<le> tick w'' \<Longrightarrow> Q (Inl e) (w'', ?l k)"
        "\<And>n w''. tick w' \<le> tick w'' \<Longrightarrow> k + n \<le> length data \<Longrightarrow> Q (Inr n) (w'', ?l (k + n))" for Q w'
      by (rule serial_wp_write [OF assms(1) op]) (use that True in \<open>auto simp flip: take_add\<close>)
    show ?thesis
      using True stay giving_up closing assms(2) Suc.prems(2)
      by (auto intro!: serial_wp_quiet(1) [OF assms(1)] serial_wp_now [OF assms(1)] wait writing again simp: not_le)
  qed
qed

lemma serial_sent_nothing:
  assumes "sl_open l = serial_owned port + F" and "\<not> te_ok e" and "k = 0"
  shows "serial_sent_exactly l F data (serial_failed k e, port) l"
  using assms by (auto simp: serial_sent_exactly_def)

text \<open>The fuel: a unit for every nanosecond before the latest deadline.\<close>

lemma serial_send_wp:
  assumes "serial_system A tick" and "0 \<le> tick w" and "fuel_of_deadlines \<le> fuel"
    and "sl_open l = serial_owned port + F"
  shows "io_wp (serial_send (serial_ledgered A) fuel data n ctx port)
     (\<lambda>rp s. serial_sent_exactly l F (case data of None \<Rightarrow> [] | Some d \<Rightarrow> take n d) rp (snd s)) (\<lambda>_. False) (w, l)"
proof (cases "serial_isOpen port \<and> data \<noteq> None \<and> OperationContext_isValid ctx \<and> n \<noteq> 0")
  case False
  then show ?thesis using serial_sent_nothing [OF assms(4)]
    by (auto simp: serial_send_def serial_sent_exactly_def assms(4) split: option.splits)
next
  case True
  then obtain c h d where c: "port = Some c" "sr_descriptor c = Some h" "data = Some d"
    by (auto simp: serial_isOpen_def split: option.splits)
  have loop: "io_wp (serial_send_loop (serial_ledgered A) h (take n d) dl tk fuel 0 c)
     (\<lambda>(r, c') s. serial_sent_exactly l F (take n d) (r, Some c') (snd s)) (\<lambda>_. False) (w', l)"
    if "dl \<le> clock_max" "tick w \<le> tick w'" for dl tk w'
    using serial_send_loop_wp [OF assms(1) that(1) c(2), of l F 0 "take n d" w' fuel] assms(2,4) c(1) that
      fuel_for_deadline [OF assms(3) that(1)] by simp
  show ?thesis using True c assms(2) serial_sent_nothing [OF assms(4)]
    by (auto simp: serial_send_def split: prod.splits intro!: serial_deadline_wp [OF assms(1)] io_wp_mono [OF loop])
qed

definition serial_received_exactly ::
    "serial_ledger \<Rightarrow> nat multiset \<Rightarrow> nat \<Rightarrow> bytes serial_result \<times> SerialPort \<Rightarrow> serial_ledger \<Rightarrow> bool" where
  "serial_received_exactly l F limit rp l' \<longleftrightarrow> (case rp of (r, port') \<Rightarrow>
     l' = l\<lparr>sl_open := serial_owned port' + F, sl_received := sl_received l @ pr_value r\<rparr> \<and>
     length (pr_value r) \<le> limit \<and> (te_ok (pr_error r) \<longleftrightarrow> pr_value r \<noteq> []))"

lemma serial_receive_loop_wp:
  assumes "serial_system A tick" and "d \<le> clock_max" and "sr_descriptor c = Some h"
    and "sl_open l = serial_owned (Some c) + F"
    and "0 \<le> tick w" and "2 \<le> fuel" and "d - tick w + 2 \<le> int fuel"
  shows "io_wp (serial_receive_loop (serial_ledgered A) h limit d t fuel c)
     (\<lambda>(r, c') s. serial_received_exactly l F limit (r, Some c') (snd s)) (\<lambda>_. False) (w, l)"
  using assms(5-7)
proof (induction fuel arbitrary: w)
  case 0 then show ?case by simp
next
  case (Suc fuel)
  have op: "h \<in># sl_open l" using assms(3,4) by simp
  have again: "io_wp (serial_receive_loop (serial_ledgered A) h limit d t fuel c)
      (\<lambda>(r, c') s. serial_received_exactly l F limit (r, Some c') (snd s)) (\<lambda>_. False) (w', l)"
    if "tick w < tick w'" "tick w < d" for w'
    by (rule Suc.IH) (use Suc.prems that in linarith)+
  have stay: "serial_received_exactly l F limit (serial_failed [] e, Some c) l" if "\<not> te_ok e" for e
    using that assms(4) by (simp add: serial_received_exactly_def)
  have closing: "io_wp (serial_impl_close (serial_ledgered A) c) (\<lambda>v. io_wp (io_return (serial_failed [] e, v))
      (\<lambda>(r, c') s. serial_received_exactly l F limit (r, Some c') (snd s)) (\<lambda>_. False)) (\<lambda>_. False) (w', l)"
    if "\<not> te_ok e" for e w'
    by (rule serial_close_wp [OF assms(1,4)]) (use that in \<open>auto simp: serial_received_exactly_def\<close>)
  have giving_up: "io_wp (serial_give_up (serial_ledgered A) [] e c)
      (\<lambda>(r, c') s. serial_received_exactly l F limit (r, Some c') (snd s)) (\<lambda>_. False) (w', l)"
    if "\<not> te_ok e" for e w'
    using closing [OF that] stay [OF that] by (auto simp: serial_give_up_def)
  have wait: "io_wp (waitForDescriptor (serial_ledgered A) h k d t fuel) Q (\<lambda>_. False) (w', l)"
    if "tick w < tick w'" "tick w < d" "\<And>v w''. tick w' \<le> tick w'' \<Longrightarrow> Q v (w'', l)" for k Q w'
  proof (rule io_wp_mono [OF descriptor_wait_wp [OF assms(1) op assms(2)]])
    show "0 \<le> tick w'" "0 < fuel" "d - tick w' < int fuel" using Suc.prems that(1,2) by linarith+
    show "\<And>v s. snd s = l \<and> tick w' \<le> tick (fst s) \<Longrightarrow> Q v s" using that(3) by (metis prod.collapse)
  qed auto
  have got: "serial_received_exactly l F limit (serial_done bs, Some c) (l\<lparr>sl_received := sl_received l @ bs\<rparr>)"
    if "bs \<noteq> []" "length bs \<le> limit" for bs
    using that assms(4) by (simp add: serial_received_exactly_def)
  show ?case
    using stay giving_up closing got assms(2) Suc.prems(1) op
    by (auto intro!: serial_wp_quiet(1) [OF assms(1)] serial_wp_now [OF assms(1)] wait serial_wp_read [OF assms(1)]
        again simp: not_le)
qed

lemma serial_receive_wp:
  assumes "serial_system A tick" and "0 \<le> tick w" and "fuel_of_deadlines \<le> fuel"
    and "sl_open l = serial_owned port + F"
  shows "io_wp (serial_receive (serial_ledgered A) fuel alloc_ok limit ctx port)
     (\<lambda>rp s. serial_received_exactly l F limit rp (snd s)) (\<lambda>_. False) (w, l)"
proof (cases "serial_isOpen port")
  case False
  then show ?thesis by (simp add: serial_receive_def serial_received_exactly_def assms(4) flip: assms(4))
next
  case True
  then obtain c h where c: "port = Some c" "sr_descriptor c = Some h"
    by (auto simp: serial_isOpen_def split: option.splits)
  have loop: "io_wp (serial_receive_loop (serial_ledgered A) h limit dl tk fuel c)
     (\<lambda>(r, c') s. serial_received_exactly l F limit (r, Some c') (snd s)) (\<lambda>_. False) (w', l)"
    if "dl \<le> clock_max" "tick w \<le> tick w'" for dl tk w'
    by (rule serial_receive_loop_wp [OF assms(1) that(1) c(2)])
      (use assms(2,4) c(1) that fuel_for_deadline [OF assms(3) that(1)] in auto)
  have stay: "serial_received_exactly l F limit (serial_failed [] e, port) l" if "\<not> te_ok e" for e
    using that assms(4) by (simp add: serial_received_exactly_def)
  show ?thesis using True c stay assms(2)
    by (auto simp: serial_receive_def split: prod.splits intro!: serial_deadline_wp [OF assms(1)] io_wp_mono [OF loop])
qed

lemma serial_disconnect_wp:
  assumes "serial_system A tick" and "sl_open l = serial_owned port + F"
  shows "io_wp (serial_close (serial_ledgered A) port)
     (\<lambda>port' s. port' = map_option (\<lambda>c. SerialPort_new) port \<and> snd s = l\<lparr>sl_open := F\<rparr>) (\<lambda>_. False) (w, l)"
  using assms(2) by (cases port) (auto simp: serial_close_def intro!: serial_close_wp [OF assms(1), where F = F])

end
