(* ===== verification/SerialWindowsLedger.thy ===== *)
theory SerialWindowsLedger
  imports SerialWindows SerialPosixCorrect
begin

text \<open>
  A ledger beside the Windows system: the open handles, the outstanding read request, whether a handle or
  the request was misused, and the bytes that arrived and were taken.  Starting a second read, asking
  for the result of a request that is not outstanding, or closing a handle that an outstanding request
  needs is misuse.  The events that could not be reset are counted.
\<close>

section \<open>The ledger\<close>

record win_ledger =
  wl_open :: "nat multiset"
  wl_request :: "(nat \<times> nat \<times> nat) option"
  wl_misused :: bool
  wl_arrived :: bytes
  wl_writing :: bytes
  wl_taken :: bytes
  wl_failed_resets :: nat

definition wl_use :: "nat \<Rightarrow> win_ledger \<Rightarrow> win_ledger" where
  "wl_use h l = (if h \<in># wl_open l then l else l\<lparr>wl_misused := True\<rparr>)"

lemma wl_use_open [simp]: "h \<in># wl_open l \<Longrightarrow> wl_use h l = l"
  by (simp add: wl_use_def)

definition note_read :: "nat \<Rightarrow> nat \<Rightarrow> nat \<Rightarrow> int \<times> bytes + bytes \<Rightarrow> win_ledger \<Rightarrow> win_ledger" where
  "note_read h e n v l =
     (let l1 = wl_use e (wl_use h l); l2 = (if wl_request l = None then l1 else l1\<lparr>wl_misused := True\<rparr>) in
      case v of
        Inr bs \<Rightarrow> l2\<lparr>wl_arrived := wl_arrived l2 @ bs\<rparr>
      | Inl (code, bs) \<Rightarrow>
          if code = ERROR_IO_PENDING then l2\<lparr>wl_request := Some (h, e, n)\<rparr>
          else l2\<lparr>wl_arrived := wl_arrived l2 @ bs\<rparr>)"

definition note_result :: "nat \<Rightarrow> nat \<Rightarrow> bool \<Rightarrow> int \<times> bytes + bytes \<Rightarrow> win_ledger \<Rightarrow> win_ledger" where
  "note_result h n waiting v l =
     (let l1 = (if (\<exists>e. wl_request l = Some (h, e, n)) then wl_use h l else l\<lparr>wl_misused := True\<rparr>) in
      if (case v of Inr bs \<Rightarrow> True | Inl (code, bs) \<Rightarrow> waiting \<or> code \<noteq> ERROR_IO_INCOMPLETE)
      then l1\<lparr>wl_request := None, wl_arrived := wl_arrived l1 @ answer_bytes v\<rparr> else l1)"

definition note_write :: "nat \<Rightarrow> nat \<Rightarrow> bytes \<Rightarrow> int + nat \<Rightarrow> win_ledger \<Rightarrow> win_ledger" where
  "note_write h e bs v l =
     (let l1 = wl_use e (wl_use h l) in
      case v of Inr n \<Rightarrow> l1\<lparr>wl_taken := wl_taken l1 @ take n bs\<rparr>
      | Inl code \<Rightarrow> if code = ERROR_IO_PENDING then l1\<lparr>wl_writing := bs\<rparr> else l1)"

definition note_written :: "nat \<Rightarrow> bool \<Rightarrow> int \<times> nat + nat \<Rightarrow> win_ledger \<Rightarrow> win_ledger" where
  "note_written h waiting v l =
     (let l1 = wl_use h l in
      case v of Inr n \<Rightarrow> l1\<lparr>wl_taken := wl_taken l1 @ take n (wl_writing l1)\<rparr>
      | Inl (code, n) \<Rightarrow>
          if waiting \<or> code \<noteq> ERROR_IO_INCOMPLETE
          then l1\<lparr>wl_taken := wl_taken l1 @ take n (wl_writing l1)\<rparr> else l1)"

definition note_close :: "nat \<Rightarrow> win_ledger \<Rightarrow> win_ledger" where
  "note_close h l =
     (let l1 = (wl_use h l)\<lparr>wl_open := wl_open l - {#h#}\<rparr> in
      case wl_request l of None \<Rightarrow> l1
      | Some (h', e', n) \<Rightarrow> if {#h', e'#} \<subseteq># wl_open l1 then l1 else l1\<lparr>wl_misused := True\<rparr>)"

definition note_opened :: "int + nat \<Rightarrow> win_ledger \<Rightarrow> win_ledger" where
  "note_opened v l = (case v of Inl _ \<Rightarrow> l | Inr h \<Rightarrow> l\<lparr>wl_open := add_mset h (wl_open l)\<rparr>)"

definition note_reset :: "nat \<Rightarrow> int option \<Rightarrow> win_ledger \<Rightarrow> win_ledger" where
  "note_reset e v l =
     (case v of None \<Rightarrow> wl_use e l
      | Some code \<Rightarrow> (wl_use e l)\<lparr>wl_failed_resets := Suc (wl_failed_resets (wl_use e l))\<rparr>)"

definition win_ledgered :: "'w windows_serial \<Rightarrow> ('w \<times> win_ledger) windows_serial" where
  "win_ledgered A =
     \<lparr>sw_now = noting (sw_now A) (\<lambda>v l. l),
      sw_cancelled = (\<lambda>t. noting (sw_cancelled A t) (\<lambda>v l. l)),
      sw_alloc = (\<lambda>n. noting (sw_alloc A n) (\<lambda>v l. l)),
      sw_widen = sw_widen A,
      sw_create_file = (\<lambda>n. noting (sw_create_file A n) note_opened),
      sw_get_state = (\<lambda>h. noting (sw_get_state A h) (\<lambda>v. wl_use h)),
      sw_set_state = (\<lambda>h s. noting (sw_set_state A h s) (\<lambda>v. wl_use h)),
      sw_setup = (\<lambda>h. noting (sw_setup A h) (\<lambda>v. wl_use h)),
      sw_timeouts = (\<lambda>h s. noting (sw_timeouts A h s) (\<lambda>v. wl_use h)),
      sw_purge = (\<lambda>h. noting (sw_purge A h) (\<lambda>v. wl_use h)),
      sw_create_event = noting (sw_create_event A) note_opened,
      sw_reset_event = (\<lambda>e. noting (sw_reset_event A e) (note_reset e)),
      sw_read = (\<lambda>h e n. noting (sw_read A h e n) (note_read h e n)),
      sw_read_result = (\<lambda>h n waiting. noting (sw_read_result A h n waiting) (note_result h n waiting)),
      sw_cancel_read = (\<lambda>h s. (sw_cancel_read A h (fst s), wl_use h (snd s))),
      sw_write = (\<lambda>h e bs. noting (sw_write A h e bs) (note_write h e bs)),
      sw_write_result = (\<lambda>h waiting. noting (sw_write_result A h waiting) (note_written h waiting)),
      sw_cancel_write = (\<lambda>h s. (sw_cancel_write A h (fst s), wl_use h (snd s))),
      sw_wait = (\<lambda>e ms. noting (sw_wait A e ms) (\<lambda>v. wl_use e)),
      sw_close = (\<lambda>h s. (sw_close A h (fst s), note_close h (snd s)))\<rparr>"

lemma win_ledgered_calls:
  "sw_now (win_ledgered A) = noting (sw_now A) (\<lambda>v l. l)"
  "sw_cancelled (win_ledgered A) t = noting (sw_cancelled A t) (\<lambda>v l. l)"
  "sw_alloc (win_ledgered A) n = noting (sw_alloc A n) (\<lambda>v l. l)"
  "sw_create_file (win_ledgered A) us = noting (sw_create_file A us) note_opened"
  "sw_get_state (win_ledgered A) h = noting (sw_get_state A h) (\<lambda>v. wl_use h)"
  "sw_set_state (win_ledgered A) h st = noting (sw_set_state A h st) (\<lambda>v. wl_use h)"
  "sw_setup (win_ledgered A) h = noting (sw_setup A h) (\<lambda>v. wl_use h)"
  "sw_timeouts (win_ledgered A) h ts = noting (sw_timeouts A h ts) (\<lambda>v. wl_use h)"
  "sw_purge (win_ledgered A) h = noting (sw_purge A h) (\<lambda>v. wl_use h)"
  "sw_create_event (win_ledgered A) = noting (sw_create_event A) note_opened"
  "sw_reset_event (win_ledgered A) e = noting (sw_reset_event A e) (note_reset e)"
  "sw_read (win_ledgered A) h e n = noting (sw_read A h e n) (note_read h e n)"
  "sw_read_result (win_ledgered A) h n waiting = noting (sw_read_result A h n waiting) (note_result h n waiting)"
  "sw_write (win_ledgered A) h e bs = noting (sw_write A h e bs) (note_write h e bs)"
  "sw_write_result (win_ledgered A) h waiting = noting (sw_write_result A h waiting) (note_written h waiting)"
  "sw_wait (win_ledgered A) e ms = noting (sw_wait A e ms) (\<lambda>v. wl_use e)"
  by (simp_all add: win_ledgered_def)

lemma win_ledgered_do [simp]:
  "sw_cancel_read (win_ledgered A) h (w, l) = (sw_cancel_read A h w, wl_use h l)"
  "sw_cancel_write (win_ledgered A) h (w, l) = (sw_cancel_write A h w, wl_use h l)"
  "sw_close (win_ledgered A) h (w, l) = (sw_close A h w, note_close h l)"
  "sw_widen (win_ledgered A) = sw_widen A"
  by (simp_all add: win_ledgered_def)

section \<open>The system\<close>

text \<open>What is relied on: the clock advances, a read stores no more than it was started for, a write takes no
  more than it is given.\<close>

definition win_system :: "'w windows_serial \<Rightarrow> ('w \<Rightarrow> int) \<Rightarrow> bool" where
  "win_system A tick \<longleftrightarrow>
     (\<forall>w. tick w \<le> fst (sw_now A w) \<and> fst (sw_now A w) \<le> tick (snd (sw_now A w)) \<and>
          (fst (sw_now A w) < clock_max \<longrightarrow> fst (sw_now A w) < tick (snd (sw_now A w))) \<and>
          fst (sw_now A w) \<le> clock_max) \<and>
     (\<forall>t. keeps tick (sw_cancelled A t)) \<and> (\<forall>n. keeps tick (sw_alloc A n)) \<and>
     (\<forall>n. keeps tick (sw_create_file A n)) \<and> (\<forall>h. keeps tick (sw_get_state A h)) \<and>
     (\<forall>h s. keeps tick (sw_set_state A h s)) \<and> (\<forall>h. keeps tick (sw_setup A h)) \<and>
     (\<forall>h s. keeps tick (sw_timeouts A h s)) \<and> (\<forall>h. keeps tick (sw_purge A h)) \<and>
     keeps tick (sw_create_event A) \<and> (\<forall>e. keeps tick (sw_reset_event A e)) \<and>
     (\<forall>h e n. keeps tick (sw_read A h e n)) \<and> (\<forall>h n b. keeps tick (sw_read_result A h n b)) \<and>
     (\<forall>h e bs. keeps tick (sw_write A h e bs)) \<and> (\<forall>h b. keeps tick (sw_write_result A h b)) \<and>
     (\<forall>e ms. keeps tick (sw_wait A e ms)) \<and>
     (\<forall>h w. tick w \<le> tick (sw_cancel_read A h w)) \<and> (\<forall>h w. tick w \<le> tick (sw_cancel_write A h w)) \<and>
     (\<forall>h w. tick w \<le> tick (sw_close A h w)) \<and>
     (\<forall>h e n w. length (answer_bytes (fst (sw_read A h e n w))) \<le> n) \<and>
     (\<forall>h n b w. length (answer_bytes (fst (sw_read_result A h n b w))) \<le> n) \<and>
     (\<forall>h e bs w n. fst (sw_write A h e bs w) = Inr n \<longrightarrow> n \<le> length bs)"

lemma win_systemD:
  assumes "win_system A tick"
  shows "tick w \<le> fst (sw_now A w) \<and> fst (sw_now A w) \<le> tick (snd (sw_now A w)) \<and>
          (fst (sw_now A w) < clock_max \<longrightarrow> fst (sw_now A w) < tick (snd (sw_now A w))) \<and> fst (sw_now A w) \<le> clock_max"
    "keeps tick (sw_cancelled A t)" "keeps tick (sw_alloc A n)" "keeps tick (sw_create_file A us)"
    "keeps tick (sw_get_state A h)" "keeps tick (sw_set_state A h st)" "keeps tick (sw_setup A h)"
    "keeps tick (sw_timeouts A h ts)" "keeps tick (sw_purge A h)" "keeps tick (sw_create_event A)"
    "keeps tick (sw_reset_event A e)" "keeps tick (sw_read A h e n)" "keeps tick (sw_read_result A h n b)"
    "keeps tick (sw_write A h e bs)" "keeps tick (sw_write_result A h b)" "keeps tick (sw_wait A e ms)"
  using assms unfolding win_system_def by simp_all

lemma win_system_bounds:
  assumes "win_system A tick"
  shows "tick w \<le> tick (sw_cancel_read A h w)" "tick w \<le> tick (sw_cancel_write A h w)" "tick w \<le> tick (sw_close A h w)"
    "length (answer_bytes (fst (sw_read A h e n w))) \<le> n"
    "length (answer_bytes (fst (sw_read_result A h n b w))) \<le> n"
    "fst (sw_write A h e bs w) = Inr k \<Longrightarrow> k \<le> length bs"
  using assms unfolding win_system_def by simp_all

lemma win_wp_now:
  assumes "win_system A tick"
    and "\<And>v w'. tick w \<le> v \<Longrightarrow> v \<le> tick w' \<Longrightarrow> (v < clock_max \<Longrightarrow> v < tick w') \<Longrightarrow> v \<le> clock_max \<Longrightarrow> Q v (w', l)"
  shows "io_wp (io_call (sw_now (win_ledgered A))) Q R (w, l)"
  unfolding win_ledgered_calls by (rule now_wp [where tick = tick]) (rule win_systemD(1) [OF assms(1)], rule assms(2))

lemma win_wp_free:
  assumes "win_system A tick"
  shows "(\<And>v w'. tick w \<le> tick w' \<Longrightarrow> Q1 v (w', l)) \<Longrightarrow> io_wp (io_call (sw_cancelled (win_ledgered A) t)) Q1 R1 (w, l)"
    "(\<And>v w'. tick w \<le> tick w' \<Longrightarrow> Q2 v (w', l)) \<Longrightarrow> io_wp (io_call (sw_alloc (win_ledgered A) n)) Q2 R2 (w, l)"
  unfolding win_ledgered_calls
  by (auto intro!: keeps_wp [OF win_systemD(2) [OF assms]] keeps_wp [OF win_systemD(3) [OF assms]])

lemma win_wp_use:
  assumes "win_system A tick" and "h \<in># wl_open l"
  shows "(\<And>v w'. tick w \<le> tick w' \<Longrightarrow> Q1 v (w', l)) \<Longrightarrow> io_wp (io_call (sw_get_state (win_ledgered A) h)) Q1 R1 (w, l)"
    "(\<And>v w'. tick w \<le> tick w' \<Longrightarrow> Q2 v (w', l)) \<Longrightarrow> io_wp (io_call (sw_set_state (win_ledgered A) h st)) Q2 R2 (w, l)"
    "(\<And>v w'. tick w \<le> tick w' \<Longrightarrow> Q2 v (w', l)) \<Longrightarrow> io_wp (io_call (sw_setup (win_ledgered A) h)) Q2 R2 (w, l)"
    "(\<And>v w'. tick w \<le> tick w' \<Longrightarrow> Q2 v (w', l)) \<Longrightarrow> io_wp (io_call (sw_timeouts (win_ledgered A) h ts)) Q2 R2 (w, l)"
    "(\<And>v w'. tick w \<le> tick w' \<Longrightarrow> Q2 v (w', l)) \<Longrightarrow> io_wp (io_call (sw_purge (win_ledgered A) h)) Q2 R2 (w, l)"
    "(\<And>v w'. tick w \<le> tick w' \<Longrightarrow> Q2 v (w', l)) \<Longrightarrow> io_wp (io_call (sw_wait (win_ledgered A) h ms)) Q2 R2 (w, l)"
  unfolding win_ledgered_calls using assms(2)
  by (auto intro!: keeps_wp [OF win_systemD(5) [OF assms(1)]] keeps_wp [OF win_systemD(6) [OF assms(1)]]
      keeps_wp [OF win_systemD(7) [OF assms(1)]] keeps_wp [OF win_systemD(8) [OF assms(1)]]
      keeps_wp [OF win_systemD(9) [OF assms(1)]] keeps_wp [OF win_systemD(16) [OF assms(1)]])

lemma win_wp_reset:
  assumes "win_system A tick" and "e \<in># wl_open l" and "\<And>w'. tick w \<le> tick w' \<Longrightarrow> Q None (w', l)"
    and "\<And>code w'. tick w \<le> tick w' \<Longrightarrow> Q (Some code) (w', l\<lparr>wl_failed_resets := Suc (wl_failed_resets l)\<rparr>)"
  shows "io_wp (io_call (sw_reset_event (win_ledgered A) e)) Q R (w, l)"
  unfolding win_ledgered_calls
  by (rule keeps_wp [OF win_systemD(11) [OF assms(1)]]) (auto simp: note_reset_def assms(2) intro: assms(3,4) split: option.splits)

lemma win_wp_create:
  assumes "win_system A tick" and "\<And>e w'. tick w \<le> tick w' \<Longrightarrow> Q (Inl e) (w', l)"
    and "\<And>h w'. tick w \<le> tick w' \<Longrightarrow> Q (Inr h) (w', l\<lparr>wl_open := add_mset h (wl_open l)\<rparr>)"
  shows "io_wp (io_call (sw_create_file (win_ledgered A) us)) Q R (w, l)"
    "io_wp (io_call (sw_create_event (win_ledgered A))) Q R (w, l)"
  unfolding win_ledgered_calls
  by (auto intro!: keeps_wp [OF win_systemD(4) [OF assms(1)]] keeps_wp [OF win_systemD(10) [OF assms(1)]] assms(2,3)
      simp: note_opened_def split: sum.splits)

lemma win_wp_read:
  assumes "win_system A tick" and "h \<in># wl_open l" and "e \<in># wl_open l" and "wl_request l = None"
    and "\<And>bs w'. tick w \<le> tick w' \<Longrightarrow> length bs \<le> n \<Longrightarrow> Q (Inr bs) (w', l\<lparr>wl_arrived := wl_arrived l @ bs\<rparr>)"
    and "\<And>bs w'. tick w \<le> tick w' \<Longrightarrow> Q (Inl (ERROR_IO_PENDING, bs)) (w', l\<lparr>wl_request := Some (h, e, n)\<rparr>)"
    and "\<And>code bs w'. tick w \<le> tick w' \<Longrightarrow> code \<noteq> ERROR_IO_PENDING \<Longrightarrow> length bs \<le> n \<Longrightarrow>
           Q (Inl (code, bs)) (w', l\<lparr>wl_arrived := wl_arrived l @ bs\<rparr>)"
  shows "io_wp (io_call (sw_read (win_ledgered A) h e n)) Q R (w, l)"
  unfolding win_ledgered_calls
proof (rule keeps_wp [OF win_systemD(12) [OF assms(1)]])
  fix v w' assume w: "tick w \<le> tick w'" and v: "v = fst (sw_read A h e n w)"
  have "length (answer_bytes v) \<le> n" unfolding v by (rule win_system_bounds(4) [OF assms(1)])
  then show "Q v (w', note_read h e n v l)"
    using w assms(2-4)
    by (cases v) (auto simp: note_read_def Let_def answer_bytes_def intro!: assms(5-7) split: prod.splits)
qed

lemma win_wp_result:
  assumes "win_system A tick" and "h \<in># wl_open l" and "wl_request l = Some (h, e, n)"
    and "\<And>bs w'. tick w \<le> tick w' \<Longrightarrow> length bs \<le> n \<Longrightarrow>
           Q (Inr bs) (w', l\<lparr>wl_request := None, wl_arrived := wl_arrived l @ bs\<rparr>)"
    and "\<And>bs w'. tick w \<le> tick w' \<Longrightarrow> \<not> waiting \<Longrightarrow> Q (Inl (ERROR_IO_INCOMPLETE, bs)) (w', l)"
    and "\<And>code bs w'. tick w \<le> tick w' \<Longrightarrow> waiting \<or> code \<noteq> ERROR_IO_INCOMPLETE \<Longrightarrow> length bs \<le> n \<Longrightarrow>
           Q (Inl (code, bs)) (w', l\<lparr>wl_request := None, wl_arrived := wl_arrived l @ bs\<rparr>)"
  shows "io_wp (io_call (sw_read_result (win_ledgered A) h n waiting)) Q R (w, l)"
  unfolding win_ledgered_calls
proof (rule keeps_wp [OF win_systemD(13) [OF assms(1)]])
  fix v w' assume w: "tick w \<le> tick w'" and v: "v = fst (sw_read_result A h n waiting w)"
  have "length (answer_bytes v) \<le> n" unfolding v by (rule win_system_bounds(5) [OF assms(1)])
  then show "Q v (w', note_result h n waiting v l)"
    using w assms(2,3)
    by (cases v) (auto simp: note_result_def Let_def answer_bytes_def intro!: assms(4-6) split: prod.splits)
qed

lemma win_wp_write:
  assumes "win_system A tick" and "h \<in># wl_open l" and "e \<in># wl_open l"
    and "\<And>n w'. tick w \<le> tick w' \<Longrightarrow> n \<le> length bs \<Longrightarrow> Q (Inr n) (w', l\<lparr>wl_taken := wl_taken l @ take n bs\<rparr>)"
    and "\<And>w'. tick w \<le> tick w' \<Longrightarrow> Q (Inl ERROR_IO_PENDING) (w', l\<lparr>wl_writing := bs\<rparr>)"
    and "\<And>code w'. tick w \<le> tick w' \<Longrightarrow> code \<noteq> ERROR_IO_PENDING \<Longrightarrow> Q (Inl code) (w', l)"
  shows "io_wp (io_call (sw_write (win_ledgered A) h e bs)) Q R (w, l)"
  unfolding win_ledgered_calls
  by (rule keeps_wp [OF win_systemD(14) [OF assms(1)]])
    (use assms(2,3) in \<open>auto simp: note_write_def Let_def intro!: assms(4-6)
      dest: win_system_bounds(6) [OF assms(1)] split: sum.splits\<close>)

lemma win_wp_written:
  assumes "win_system A tick" and "h \<in># wl_open l"
    and "\<And>n w'. tick w \<le> tick w' \<Longrightarrow> Q (Inr n) (w', l\<lparr>wl_taken := wl_taken l @ take n (wl_writing l)\<rparr>)"
    and "\<And>n w'. tick w \<le> tick w' \<Longrightarrow> \<not> waiting \<Longrightarrow> Q (Inl (ERROR_IO_INCOMPLETE, n)) (w', l)"
    and "\<And>code n w'. tick w \<le> tick w' \<Longrightarrow> waiting \<or> code \<noteq> ERROR_IO_INCOMPLETE \<Longrightarrow>
           Q (Inl (code, n)) (w', l\<lparr>wl_taken := wl_taken l @ take n (wl_writing l)\<rparr>)"
  shows "io_wp (io_call (sw_write_result (win_ledgered A) h waiting)) Q R (w, l)"
  unfolding win_ledgered_calls
  by (rule keeps_wp [OF win_systemD(15) [OF assms(1)]])
    (use assms(2) in \<open>auto simp: note_written_def Let_def intro!: assms(3-5) split: sum.splits prod.splits\<close>)

lemma win_deadline_wp:
  assumes "win_system A tick" and "0 \<le> tick w" and "OperationContext_isValid ctx"
    and "\<And>d w'. tick w \<le> tick w' \<Longrightarrow> d \<le> clock_max \<Longrightarrow> Q d (w', l)"
  shows "io_wp (windows_deadline (win_ledgered A) ctx) Q R (w, l)"
  unfolding windows_deadline_def io_wp_bind
proof (rule win_wp_now [OF assms(1)])
  fix v w' assume v: "tick w \<le> v" "v \<le> tick w'" "v \<le> clock_max"
  obtain d where "deadline_from v ctx = Some d" "d \<le> clock_max"
    by (rule deadline_from_defined [of v ctx]) (use v assms(2,3) in auto)
  then show "io_wp (io_option (deadline_from v ctx)) Q R (w', l)" using v assms(4) by simp
qed

end
