(* ===== verification/SerialWindowsCorrect.thy ===== *)
theory SerialWindowsCorrect
  imports SerialWindowsLedger
begin

text \<open>
  The serial port on Windows: a read that outlives the call that started it loses no byte and corrupts no
  memory; every operation returns, but for a receive that shrank the buffer below what was taken and
  then cannot reset its event; transfers are exact.
\<close>

section \<open>The invariant\<close>

definition win_owned :: "WindowsPort \<Rightarrow> nat multiset" where
  "win_owned c = (case wp_handle c of None \<Rightarrow> {#} | Some h \<Rightarrow> {#h#}) + (case wp_event c of None \<Rightarrow> {#} | Some e \<Rightarrow> {#e#})"

text \<open>The bytes that arrived and were not yet taken.\<close>

definition buffered :: "WindowsPort \<Rightarrow> bytes" where
  "buffered c = take (wp_read_size c - wp_read_offset c) (drop (wp_read_offset c) (wp_buffer c))"

definition request_matches :: "WindowsPort \<Rightarrow> win_ledger \<Rightarrow> bool" where
  "request_matches c l \<longleftrightarrow>
     (if wp_pending c
      then wp_read_size c = 0 \<and> wp_request c = length (wp_buffer c) \<and>
        (\<exists>h e. wp_handle c = Some h \<and> wp_event c = Some e \<and> wl_request l = Some (h, e, wp_request c))
      else wl_request l = None)"

definition win_inv :: "nat multiset \<Rightarrow> WindowsPort \<Rightarrow> win_ledger \<Rightarrow> bool" where
  "win_inv F c l \<longleftrightarrow> wl_open l = win_owned c + F \<and> \<not> wl_misused l \<and> request_matches c l \<and>
     wp_read_offset c \<le> wp_read_size c \<and> wp_read_offset c \<le> length (wp_buffer c) \<and>
     (wp_read_offset c < wp_read_size c \<longrightarrow> wp_read_size c \<le> length (wp_buffer c))"

lemma win_inv_parts:
  assumes "win_inv F c l"
  shows "wl_open l = win_owned c + F" "\<not> wl_misused l" "wp_read_offset c \<le> wp_read_size c"
    "wp_read_offset c < wp_read_size c \<Longrightarrow> wp_read_size c \<le> length (wp_buffer c)" "\<not> wp_pending c \<Longrightarrow> wl_request l = None"
    "wp_pending c \<Longrightarrow> buffered c = []"
    "wp_pending c \<Longrightarrow> wp_read_offset c = 0"
    "wp_handle c = Some h \<Longrightarrow> h \<in># wl_open l" "wp_event c = Some e \<Longrightarrow> e \<in># wl_open l"
  using assms by (auto simp: win_inv_def request_matches_def buffered_def win_owned_def split: if_splits)

lemma win_inv_offset: "win_inv F c l \<Longrightarrow> wp_read_offset c \<le> length (wp_buffer c)"
  by (simp add: win_inv_def)

lemma win_inv_pending:
  assumes "win_inv F c l" and "wp_pending c"
  obtains h e where "wp_handle c = Some h" "wp_event c = Some e" "wl_request l = Some (h, e, wp_request c)"
    "wp_request c = length (wp_buffer c)" "h \<in># wl_open l" "e \<in># wl_open l"
  using assms by (auto simp: win_inv_def request_matches_def win_owned_def)

lemma win_inv_new: "wl_open l = F \<Longrightarrow> \<not> wl_misused l \<Longrightarrow> wl_request l = None \<Longrightarrow> win_inv F WindowsPort_new l"
  by (simp add: win_inv_def WindowsPort_new_def win_owned_def request_matches_def)

section \<open>The stream\<close>

text \<open>From \<open>c\<close> to \<open>c'\<close> the bytes \<open>out\<close> were handed out: they, what is still buffered, and what a close
  dropped are what was buffered and what arrived, in order.  Only a closed port drops bytes.\<close>

definition streamed :: "WindowsPort \<Rightarrow> win_ledger \<Rightarrow> bytes \<Rightarrow> WindowsPort \<Rightarrow> win_ledger \<Rightarrow> bool" where
  "streamed c l out c' l' \<longleftrightarrow> (\<exists>arrived dropped.
     wl_arrived l' = wl_arrived l @ arrived \<and> buffered c @ arrived = out @ buffered c' @ dropped \<and>
     (wp_handle c' \<noteq> None \<longrightarrow> dropped = []))"

lemma streamed_refl: "streamed c l [] c l"
  by (auto simp: streamed_def)

lemma streamed_trans:
  assumes "streamed c l out c1 l1" and "wp_handle c1 \<noteq> None" and "streamed c1 l1 out' c2 l2"
  shows "streamed c l (out @ out') c2 l2"
  using assms by (auto simp: streamed_def) (metis append.assoc append_Nil2)+

lemma streamed_trans_nil:
  assumes "streamed c l [] c1 l1" and "wp_handle c1 \<noteq> None" and "streamed c1 l1 out' c2 l2"
  shows "streamed c l out' c2 l2"
  using streamed_trans [OF assms] by simp

lemma streamed_trans_last:
  assumes "streamed c l out c1 l1" and "wp_handle c1 = Some h" and "streamed c1 l1 [] c2 l2"
  shows "streamed c l out c2 l2"
  using streamed_trans [OF assms(1) _ assms(3)] assms(2) by simp

lemma streamed_collect:
  assumes "buffered c = []" and "buffered c' = bs" and "wl_arrived l' = wl_arrived l @ bs"
  shows "streamed c l [] c' l'"
  using assms by (auto simp: streamed_def)

lemma buffered_collected [simp]:
  "length bs \<le> length (wp_buffer c) \<Longrightarrow> n = length bs \<Longrightarrow> buffered (collected bs n c) = bs"
  by (simp add: buffered_def collected_def filled_def)

lemma collected_simps [simp]:
  "wp_handle (collected bs n c) = wp_handle c" "wp_event (collected bs n c) = wp_event c"
  "\<not> wp_pending (collected bs n c)" "wp_read_offset (collected bs n c) = 0" "wp_read_size (collected bs n c) = n"
  "length (wp_buffer (collected bs n c)) = length (wp_buffer c)" "win_owned (collected bs n c) = win_owned c"
  by (simp_all add: collected_def filled_def win_owned_def)

lemma collected_inv:
  assumes "win_inv F c l" and "wp_pending c" and "length bs \<le> wp_request c" and "n = length bs"
  shows "win_inv F (collected bs n c) (l\<lparr>wl_request := None, wl_arrived := wl_arrived l @ bs\<rparr>)"
    "streamed c l [] (collected bs n c) (l\<lparr>wl_request := None, wl_arrived := wl_arrived l @ bs\<rparr>)"
proof -
  have len: "length bs \<le> length (wp_buffer c)" using assms(1-3) by (auto elim: win_inv_pending)
  show "win_inv F (collected bs n c) (l\<lparr>wl_request := None, wl_arrived := wl_arrived l @ bs\<rparr>)"
    using assms(1,4) len by (simp add: win_inv_def request_matches_def)
  show "streamed c l [] (collected bs n c) (l\<lparr>wl_request := None, wl_arrived := wl_arrived l @ bs\<rparr>)"
    by (rule streamed_collect) (use win_inv_parts(6) [OF assms(1,2)] len assms(4) in simp_all)
qed

section \<open>Cancelling and closing\<close>

lemma cancelRead_wp:
  assumes "win_system A tick" and "win_inv F c l"
    and "\<And>c' w' l'. tick w \<le> tick w' \<Longrightarrow> win_inv F c' l' \<Longrightarrow> \<not> wp_pending c' \<Longrightarrow> wp_handle c' = wp_handle c \<Longrightarrow>
           wp_event c' = wp_event c \<Longrightarrow> streamed c l [] c' l' \<Longrightarrow> wl_taken l' = wl_taken l \<Longrightarrow> Q c' (w', l')"
  shows "io_wp (cancelRead (win_ledgered A) c) Q R (w, l)"
proof (cases "wp_pending c")
  case False
  then show ?thesis using assms(2) assms(3) [of w c l] streamed_refl by (simp add: cancelRead_def)
next
  case True
  obtain h e where p: "wp_handle c = Some h" "wp_event c = Some e" "wl_request l = Some (h, e, wp_request c)"
    "wp_request c = length (wp_buffer c)" "h \<in># wl_open l" using assms(2) True by (elim win_inv_pending)
  have got: "Q (collected bs (min (length bs) (length (wp_buffer c))) c)
      (w', l\<lparr>wl_request := None, wl_arrived := wl_arrived l @ bs\<rparr>)"
    if "tick w \<le> tick w'" "length bs \<le> wp_request c" for bs w'
    using that p(4) collected_inv [OF assms(2) True that(2) refl] by (intro assms(3)) (auto simp: min_absorb1)
  show ?thesis
    using True p win_system_bounds(1) [OF assms(1), of w h] got
    by (auto simp: cancelRead_def Let_def answer_bytes_def intro!: win_wp_result [OF assms(1), where e = e])
qed

lemma note_close_open [simp]:
  "h \<in># wl_open l \<Longrightarrow> wl_request l = None \<Longrightarrow> note_close h l = l\<lparr>wl_open := wl_open l - {#h#}\<rparr>"
  by (simp add: note_close_def)

lemma streamed_drop: "streamed c l out c' l' \<Longrightarrow> wl_arrived l'' = wl_arrived l' \<Longrightarrow> streamed c l out WindowsPort_new l''"
  by (auto simp: streamed_def WindowsPort_new_def buffered_def)

lemma close_event_wp:
  assumes "win_system A tick" and "wl_open l = win_owned c + F" and "wp_handle c = None" and "wl_request l = None"
    and "\<not> wl_misused l" and "\<And>w' l'. tick w \<le> tick w' \<Longrightarrow> l' = l\<lparr>wl_open := F\<rparr> \<Longrightarrow> Q () (w', l')"
  shows "io_wp (case wp_event c of None \<Rightarrow> io_return () | Some e \<Rightarrow> io_do (sw_close (win_ledgered A) e)) Q R (w, l)"
proof (cases "wp_event c")
  case None
  have "l = l\<lparr>wl_open := F\<rparr>" using assms(2,3) None by (simp add: win_owned_def)
  then show ?thesis using assms(6) [of w l] None by simp
next
  case (Some e)
  then show ?thesis using assms win_system_bounds(3) [OF assms(1), of w e] by (simp add: win_owned_def)
qed

lemma windows_close_wp:
  assumes "win_system A tick" and "win_inv F c l"
    and "\<And>w' l'. tick w \<le> tick w' \<Longrightarrow> win_inv F WindowsPort_new l' \<Longrightarrow> streamed c l [] WindowsPort_new l' \<Longrightarrow>
           wl_taken l' = wl_taken l \<Longrightarrow> Q WindowsPort_new (w', l')"
  shows "io_wp (windows_close_impl (win_ledgered A) c) Q R (w, l)"
proof -
  have finish: "io_wp (case wp_event c1 of None \<Rightarrow> io_return () | Some e \<Rightarrow> io_do (sw_close (win_ledgered A) e))
        (\<lambda>u. io_wp (io_return WindowsPort_new) Q R) R (w', l1)"
    if "tick w \<le> tick w'" "wl_open l1 = win_owned c1 + F" "wp_handle c1 = None" "wl_request l1 = None" "\<not> wl_misused l1"
      "streamed c l [] c2 l2" "wl_arrived l1 = wl_arrived l2" "wl_taken l1 = wl_taken l" for c1 w' l1 c2 l2
    by (rule close_event_wp [OF assms(1) that(2-5)])
      (use that in \<open>auto intro!: assms(3) win_inv_new intro: streamed_drop\<close>)
  show ?thesis
  proof (cases "wp_handle c")
    case None
    then have "\<not> wp_pending c" using assms(2) by (auto simp: win_inv_def request_matches_def)
    then show ?thesis using None win_inv_parts(1,2,5) [OF assms(2)]
      by (auto simp: windows_close_impl_def intro!: finish intro: streamed_refl)
  next
    case (Some h)
    have closing: "io_wp (case wp_event c of None \<Rightarrow> io_return ()
          | Some e \<Rightarrow> io_do (sw_close (win_ledgered A) e)) (\<lambda>u. io_wp (io_return WindowsPort_new) Q R) R
        (sw_close A h w', note_close h l')"
      if c': "tick w \<le> tick w'" "win_inv F c' l'" "\<not> wp_pending c'" "wp_handle c' = wp_handle c"
        "streamed c l [] c' l'" "wl_taken l' = wl_taken l" "wp_event c' = wp_event c" for c' w' l'
    proof -
      have "h \<in># wl_open l'" "wl_request l' = None" using win_inv_parts(5,8) [OF c'(2)] c'(3,4) Some by auto
      then have l1: "wl_open (note_close h l') = win_owned (c'\<lparr>wp_handle := None\<rparr>) + F" "wl_request (note_close h l') = None"
        "\<not> wl_misused (note_close h l')" "wl_arrived (note_close h l') = wl_arrived l'" "wl_taken (note_close h l') = wl_taken l"
        using win_inv_parts(1,2) [OF c'(2)] c'(4,6) Some by (simp_all add: win_owned_def)
      have "tick w \<le> tick (sw_close A h w')" using c'(1) win_system_bounds(3) [OF assms(1), of w' h] by simp
      from finish [OF this l1(1) _ l1(2,3) c'(5) l1(4,5)] show ?thesis using c'(7) by simp
    qed
    show ?thesis using Some closing
      by (auto simp: windows_close_impl_def intro!: cancelRead_wp [OF assms(1,2)])
  qed
qed

section \<open>Starting and awaiting a read\<close>

lemma start_event_wp:
  assumes "win_system A tick" and "win_inv F c l" and "\<not> wp_pending c"
    and "\<And>code w'. tick w \<le> tick w' \<Longrightarrow> Q (Inl code) (w', l)"
    and "\<And>e w' l'. tick w \<le> tick w' \<Longrightarrow> win_inv F (c\<lparr>wp_event := Some e\<rparr>) l' \<Longrightarrow> wl_arrived l' = wl_arrived l \<Longrightarrow>
           wl_taken l' = wl_taken l \<Longrightarrow> wl_failed_resets l' = wl_failed_resets l \<Longrightarrow> Q (Inr (c\<lparr>wp_event := Some e\<rparr>)) (w', l')"
  shows "io_wp (start_event (win_ledgered A) c) Q R (w, l)"
proof (cases "wp_event c")
  case (Some e)
  have same: "c\<lparr>wp_event := Some e\<rparr> = c" using Some by (cases c) simp
  show ?thesis using assms(5) [of w e l, unfolded same] assms(2) Some by (simp add: start_event_def)
next
  case None
  then show ?thesis using assms(2,3)
    by (auto simp: start_event_def win_inv_def win_owned_def request_matches_def
        intro!: win_wp_create(2) [OF assms(1)] assms(4,5))
qed

text \<open>What a step that hands out nothing keeps.\<close>

definition kept :: "nat multiset \<Rightarrow> WindowsPort \<Rightarrow> win_ledger \<Rightarrow> WindowsPort \<Rightarrow> win_ledger \<Rightarrow> bool" where
  "kept F c l c' l' \<longleftrightarrow> win_inv F c' l' \<and> streamed c l [] c' l' \<and> wp_handle c' = wp_handle c \<and> wl_taken l' = wl_taken l"

lemma length_resize [simp]: "length (resize_bytes n bs) = n"
  by (simp add: resize_bytes_def)

lemma filled_front [simp]:
  "length bs \<le> length buf \<Longrightarrow> take (length bs) (filled buf bs) = bs" "length (filled buf bs) = length buf"
  by (simp_all add: filled_def)

lemma keptI:
  assumes "win_inv F c l" and "\<not> wp_pending c" and "wp_read_offset c = wp_read_size c" and "length bs \<le> length b"
    and "wp_handle c' = wp_handle c" and "wp_event c' = wp_event c" and "\<not> wp_pending c'"
    and "wp_buffer c' = filled b bs" and "wp_read_size c' = length bs" and "wp_read_offset c' = 0"
  shows "kept F c l c' (l\<lparr>wl_arrived := wl_arrived l @ bs\<rparr>)"
  using assms by (auto simp: kept_def win_inv_def request_matches_def win_owned_def streamed_def buffered_def)

text \<open>The buffer may have been shrunk below what was taken: \<open>issue_read\<close> begins anew, or finds that it
  cannot reset the event and leaves the port as it is.\<close>

definition reset_failed :: "nat \<Rightarrow> WindowsPort \<Rightarrow> win_ledger \<Rightarrow> TransportError option \<Rightarrow> WindowsPort \<Rightarrow> win_ledger \<Rightarrow> bool" where
  "reset_failed limit c l v c' l' \<longleftrightarrow>
     (\<exists>code. v = Some (serialError X_ReceiveFailed ''Resetting a serial read event failed.'' code)) \<and>
     wp_read_size c' = wp_read_offset c \<and> wp_read_offset c' = wp_read_offset c \<and> length (wp_buffer c') = max limit 256 \<and>
     max limit 256 < wp_read_offset c \<and> wl_failed_resets l < wl_failed_resets l'"

lemma issue_read_wp:
  assumes "win_system A tick" and "win_inv F c l" and "wp_handle c = Some h" and "wp_event c = Some e" and "\<not> wp_pending c"
    and "wp_read_offset c = wp_read_size c"
    and "\<And>x c' w' l'. tick w \<le> tick w' \<Longrightarrow> kept F c l c' l' \<Longrightarrow> (te_ok x \<longrightarrow> wp_read_offset c' = 0) \<Longrightarrow> Q (Some x, c') (w', l')"
    and "\<And>code w'. tick w \<le> tick w' \<Longrightarrow> Q (Some (serialError X_ReceiveFailed ''Resetting a serial read event failed.'' code),
           c\<lparr>wp_buffer := b\<rparr>) (w', l\<lparr>wl_failed_resets := Suc (wl_failed_resets l)\<rparr>)"
  shows "io_wp (issue_read (win_ledgered A) (c\<lparr>wp_buffer := b\<rparr>)) Q R (w, l)"
proof -
  have op: "h \<in># wl_open l" "e \<in># wl_open l" and req: "wl_request l = None"
    using win_inv_parts [OF assms(2)] assms(3-5) by simp_all
  have arrived: "kept F c l c' (l\<lparr>wl_arrived := wl_arrived l @ bs\<rparr>)"
    if "length bs \<le> length b" "wp_handle c' = wp_handle c" "wp_event c' = wp_event c" "\<not> wp_pending c'"
      "wp_buffer c' = filled b bs" "wp_read_size c' = length bs" "wp_read_offset c' = 0" for c' bs
    by (rule keptI [OF assms(2,5,6) that])
  have pending: "kept F c l (c\<lparr>wp_buffer := b, wp_request := length b, wp_read_size := 0, wp_read_offset := 0, wp_pending := True\<rparr>)
      (l\<lparr>wl_request := Some (h, e, length b)\<rparr>)"
    using assms(2-6) by (auto simp: kept_def win_inv_def request_matches_def win_owned_def streamed_def buffered_def)
  show ?thesis
    unfolding issue_read_def using op req assms(3-5) pending
    by (auto simp: Let_def min_absorb1 intro!: arrived win_wp_reset [OF assms(1)] win_wp_read [OF assms(1)] assms(7,8)
        split: option.splits)
qed

lemma startRead_wp:
  assumes "win_system A tick" and "win_inv F c l" and "wp_handle c = Some h" and "\<not> wp_pending c"
    and "wp_read_offset c = wp_read_size c"
    and "\<And>v c' w' l'. tick w \<le> tick w' \<Longrightarrow> kept F c l c' l' \<Longrightarrow> (\<forall>x. v = Some x \<and> te_ok x \<longrightarrow> wp_read_offset c' = 0) \<Longrightarrow>
           Q (v, c') (w', l')"
    and "\<And>v c' w' l'. tick w \<le> tick w' \<Longrightarrow> reset_failed limit c l v c' l' \<Longrightarrow> Q (v, c') (w', l')"
  shows "io_wp (startRead (win_ledgered A) limit c) Q R (w, l)"
proof -
  have failed: "Q (v, c) (w', l)" if "tick w \<le> tick w'" "\<forall>x. v = Some x \<longrightarrow> \<not> te_ok x" for v w'
    using that assms(2) by (intro assms(6)) (auto simp: kept_def streamed_refl)
  have event: "kept F c l (c\<lparr>wp_event := Some e\<rparr>) l1"
    if "win_inv F (c\<lparr>wp_event := Some e\<rparr>) l1" "wl_arrived l1 = wl_arrived l" "wl_taken l1 = wl_taken l" for e l1
    using that by (simp add: kept_def streamed_def buffered_def)
  have issue: "io_wp (issue_read (win_ledgered A) (c\<lparr>wp_event := Some e, wp_buffer := b\<rparr>)) Q R (w1, l1)"
    if 1: "tick w \<le> tick w1" "win_inv F (c\<lparr>wp_event := Some e\<rparr>) l1" "wl_arrived l1 = wl_arrived l"
      "wl_taken l1 = wl_taken l" "wl_failed_resets l1 = wl_failed_resets l" "length b = max limit 256" for e b w1 l1
  proof (rule issue_read_wp [OF assms(1) 1(2), where h = h and e = e])
    show "Q (Some x, c') (w', l')" if "tick w1 \<le> tick w'" "kept F (c\<lparr>wp_event := Some e\<rparr>) l1 c' l'"
        "te_ok x \<longrightarrow> wp_read_offset c' = 0" for x c' w' l'
      using that 1 assms(5) by (intro assms(6)) (auto simp: kept_def streamed_def buffered_def)
    show "Q (Some (serialError X_ReceiveFailed ''Resetting a serial read event failed.'' code),
        c\<lparr>wp_event := Some e, wp_buffer := b\<rparr>) (w', l1\<lparr>wl_failed_resets := Suc (wl_failed_resets l1)\<rparr>)"
      if w': "tick w1 \<le> tick w'" for code w'
    proof (cases "max limit 256 < wp_read_offset c")
      case True
      then show ?thesis
        using w' 1 assms(5) by (intro assms(7)) (auto simp: reset_failed_def)
    next
      case False
      then show ?thesis
        using w' 1 assms(2,4,5)
        by (intro assms(6)) (auto simp: kept_def win_inv_def request_matches_def win_owned_def streamed_def buffered_def
            serialError_def)
    qed
  qed (use assms(3-5) in simp_all)
  show ?thesis
    unfolding startRead_def using failed event issue
    by (auto intro!: start_event_wp [OF assms(1,2,4)] win_wp_free(2) [OF assms(1)] assms(6))
qed

lemma kept_collected:
  assumes "win_inv F c l" and "wp_pending c" and "length bs \<le> wp_request c" and "n = length bs"
  shows "kept F c l (collected bs n c) (l\<lparr>wl_request := None, wl_arrived := wl_arrived l @ bs\<rparr>)"
  using collected_inv [OF assms] by (simp add: kept_def)

lemma cancelRead_kept:
  assumes "win_system A tick" and "win_inv F c l"
    and "\<And>c' w' l'. tick w \<le> tick w' \<Longrightarrow> kept F c l c' l' \<Longrightarrow> \<not> wp_pending c' \<Longrightarrow> Q c' (w', l')"
  shows "io_wp (cancelRead (win_ledgered A) c) Q R (w, l)"
  by (rule cancelRead_wp [OF assms(1,2)]) (auto simp: kept_def intro: assms(3))

lemma waitForRead_wp:
  assumes "win_system A tick" and "win_inv F c l" and "d \<le> clock_max"
    and "0 \<le> tick w" and "0 < fuel" and "d - tick w < int fuel"
  shows "io_wp (waitForRead (win_ledgered A) d t fuel c)
     (\<lambda>(v, c') s. tick w \<le> tick (fst s) \<and> kept F c l c' (snd s) \<and> (te_ok v \<longrightarrow> \<not> wp_pending c' \<and> (wp_read_offset c' = 0 \<or> c' = c))) (\<lambda>_. False) (w, l)"
  using assms(4-6)
proof (induction fuel arbitrary: w)
  case 0 then show ?case by simp
next
  case (Suc fuel)
  have stay: "kept F c l c l" using assms(2) by (simp add: kept_def streamed_refl)
  show ?case
  proof (cases "wp_pending c")
    case False then show ?thesis using stay by simp
  next
    case True
    obtain h e where p: "wp_handle c = Some h" "wp_event c = Some e" "wl_request l = Some (h, e, wp_request c)"
      "wp_request c = length (wp_buffer c)" "h \<in># wl_open l" "e \<in># wl_open l"
      using assms(2) True by (elim win_inv_pending)
    have got: "kept F c l (collected bs n c) (l\<lparr>wl_request := None, wl_arrived := wl_arrived l @ bs\<rparr>)"
      if "length bs \<le> length (wp_buffer c)" "n = length bs" for bs n
      by (rule kept_collected [OF assms(2) True]) (use that p(4) in simp_all)
    have again: "io_wp (waitForRead (win_ledgered A) d t fuel c)
        (\<lambda>(v, c') s. tick w \<le> tick (fst s) \<and> kept F c l c' (snd s) \<and> (te_ok v \<longrightarrow> \<not> wp_pending c' \<and> (wp_read_offset c' = 0 \<or> c' = c))) (\<lambda>_. False) (w', l)"
      if "tick w < tick w'" "tick w < d" for w'
    proof (rule io_wp_mono [OF Suc.IH])
      show "0 \<le> tick w'" "0 < fuel" "d - tick w' < int fuel" using Suc.prems that by linarith+
    qed (use that(1) in auto)
    have range: "i64_sub d now = Some (d - now)" if "now < d" "tick w \<le> tick w'" "tick w' \<le> now" for now w'
      using that Suc.prems(1) assms(3) by (auto simp: i64_sub_def in_i64_def clock_max_def)
    have cancel: "io_wp (cancelRead (win_ledgered A) c) (\<lambda>v. io_wp (io_return (x, v))
        (\<lambda>(v, c') s. tick w \<le> tick (fst s) \<and> kept F c l c' (snd s) \<and> (te_ok v \<longrightarrow> \<not> wp_pending c' \<and> (wp_read_offset c' = 0 \<or> c' = c))) (\<lambda>_. False)) (\<lambda>_. False) (w', l)"
      if "tick w \<le> tick w'" "\<not> te_ok x" for w' x
      by (rule cancelRead_kept [OF assms(1,2)]) (use that in auto)
    show ?thesis
      using True p stay got assms(3)
      by (auto simp: min_absorb1 range not_le intro!: win_wp_result [OF assms(1), where e = e] win_wp_free(1) [OF assms(1)]
          win_wp_now [OF assms(1)] win_wp_use(6) [OF assms(1)] cancel again split: option.splits)
  qed
qed

lemma waitForRead_rule:
  assumes "win_system A tick" and "win_inv F c l" and "d \<le> clock_max"
    and "0 \<le> tick w" and "0 < fuel" and "d - tick w < int fuel"
    and "\<And>v c' w' l'. tick w \<le> tick w' \<Longrightarrow> kept F c l c' l' \<Longrightarrow> (te_ok v \<Longrightarrow> \<not> wp_pending c' \<and> (wp_read_offset c' = 0 \<or> c' = c)) \<Longrightarrow> Q (v, c') (w', l')"
  shows "io_wp (waitForRead (win_ledgered A) d t fuel c) Q (\<lambda>_. False) (w, l)"
  by (rule io_wp_mono [OF waitForRead_wp [OF assms(1-6)]]) (auto intro: assms(7))

section \<open>Receiving\<close>

definition win_received ::
    "nat multiset \<Rightarrow> nat \<Rightarrow> WindowsPort \<Rightarrow> win_ledger \<Rightarrow> bytes serial_result \<times> WindowsPort \<Rightarrow> win_ledger \<Rightarrow> bool" where
  "win_received F limit c l rc l' \<longleftrightarrow> (case rc of (r, c') \<Rightarrow>
     win_inv F c' l' \<and> streamed c l (pr_value r) c' l' \<and> wl_taken l' = wl_taken l \<and>
     length (pr_value r) \<le> limit \<and> (te_ok (pr_error r) \<longrightarrow> pr_value r \<noteq> []))"

lemma win_received_kept:
  assumes "kept F c l c1 l1" and "wp_handle c = Some h" and "win_received F limit c1 l1 rc l'"
  shows "win_received F limit c l rc l'"
  using assms streamed_trans_nil [of c l c1 l1] by (auto simp: kept_def win_received_def)

lemma takeReadBytes_wp:
  assumes "win_system A tick" and "win_inv F c l"
    and "\<And>w'. tick w \<le> tick w' \<Longrightarrow> Q (None, c) (w', l)"
    and "\<And>bs c' w'. tick w \<le> tick w' \<Longrightarrow> win_inv F c' l \<Longrightarrow> streamed c l bs c' l \<Longrightarrow> wp_handle c' = wp_handle c \<Longrightarrow>
           bs = take limit (buffered c) \<Longrightarrow> Q (Some bs, c') (w', l)"
  shows "io_wp (takeReadBytes (win_ledgered A) limit c) Q R (w, l)"
proof -
  define count where "count = min limit (wp_read_size c - wp_read_offset c)"
  define c' where "c' = c\<lparr>wp_read_offset := wp_read_offset c + count\<rparr>"
  note parts = win_inv_parts(3,4) [OF assms(2)]
  have inside: "wp_read_offset c + count \<le> length (wp_buffer c)"
    using parts win_inv_offset [OF assms(2)] by (cases "wp_read_offset c < wp_read_size c") (auto simp: count_def)
  have bounds: "\<not> (wp_read_size c < wp_read_offset c \<or> length (wp_buffer c) < wp_read_offset c + count)"
    using parts(1) inside by simp
  have taken: "take count (drop (wp_read_offset c) (wp_buffer c)) = take limit (buffered c)"
    by (simp add: count_def buffered_def min.commute)
  have rest: "take limit (buffered c) @ buffered c' = buffered c"
  proof -
    have "buffered c' = drop count (buffered c)"
      using parts(1) by (simp add: c'_def buffered_def drop_take add.commute)
    moreover have "take count (buffered c) = take limit (buffered c)"
      using taken by (simp add: buffered_def count_def min.commute min.left_commute)
    ultimately show ?thesis by (metis append_take_drop_id)
  qed
  have got: "Q (Some (take limit (buffered c)), c') (w', l)" if "tick w \<le> tick w'" for w'
  proof (rule assms(4) [OF that])
    show "win_inv F c' l" using assms(2) parts inside
      by (auto simp: win_inv_def request_matches_def win_owned_def c'_def count_def split: if_splits)
    show "streamed c l (take limit (buffered c)) c' l" 
      unfolding streamed_def by (intro exI [of _ "[]"]) (simp add: rest)
  qed (simp_all add: c'_def)
  show ?thesis
    unfolding takeReadBytes_def Let_def count_def [symmetric] taken c'_def [symmetric]
    using bounds got assms(3) by (auto intro!: win_wp_free(2) [OF assms(1)])
qed

lemma report_bytes_wp:
  assumes "win_system A tick" and "win_inv F c l" and "wp_handle c = Some h"
    and "te_ok e \<Longrightarrow> 0 < limit \<and> buffered c \<noteq> []"
  shows "io_wp (report_bytes (win_ledgered A) limit e closes c)
     (\<lambda>rc s. win_received F limit c l rc (snd s)) (\<lambda>_. False) (w, l)"
proof -
  have closing: "io_wp (windows_close_impl (win_ledgered A) c') (\<lambda>v. io_wp (io_return (serial_failed bs e, v))
      (\<lambda>rc s. win_received F limit c l rc (snd s)) (\<lambda>_. False)) (\<lambda>_. False) (w', l)"
    if "win_inv F c' l" "streamed c l bs c' l" "wp_handle c' = wp_handle c" "bs = take limit (buffered c)" for bs c' w'
    by (rule windows_close_wp [OF assms(1) that(1)])
      (use that(2-4) assms(3,4) in \<open>auto simp: win_received_def intro: streamed_trans_last\<close>)
  have exhausted: "win_received F limit c l (serial_failed [] buffer_exhausted, c) l"
    using assms(2) by (simp add: win_received_def streamed_refl buffer_exhausted_def)
  have took: "win_received F limit c l (serial_failed bs e, c') l"
    if "win_inv F c' l" "streamed c l bs c' l" "bs = take limit (buffered c)" for bs c'
    using that assms(4) by (auto simp: win_received_def)
  show ?thesis
    unfolding report_bytes_def using exhausted took closing
    by (auto intro!: takeReadBytes_wp [OF assms(1,2)])
qed

lemma buffered_nonempty:
  "win_inv F c l \<Longrightarrow> wp_read_offset c < wp_read_size c \<Longrightarrow> buffered c \<noteq> []"
  by (auto simp: win_inv_def buffered_def)

lemma ensure_read_wp:
  assumes "win_system A tick" and "d \<le> clock_max" and "win_inv F c l" and "wp_handle c = Some h"
    and "wp_read_offset c = wp_read_size c"
    and "\<And>e c1 w' l1. tick w \<le> tick w' \<Longrightarrow> kept F c l c1 l1 \<Longrightarrow> \<not> te_ok e \<Longrightarrow> Q (Inl (Inl (serial_failed [] e), c1)) (w', l1)"
    and "\<And>e c1 w' l1. tick w \<le> tick w' \<Longrightarrow> kept F c l c1 l1 \<and> \<not> te_ok e \<or> reset_failed limit c l (Some e) c1 l1 \<Longrightarrow>
           Q (Inl (Inr e, c1)) (w', l1)"
    and "\<And>c1 w' l1. tick w \<le> tick w' \<Longrightarrow> kept F c l c1 l1 \<Longrightarrow> (wp_pending c \<or> tick w < tick w' \<and> tick w < d) \<Longrightarrow>
           wp_read_offset c1 = 0 \<Longrightarrow> Q (Inr c1) (w', l1)"
  shows "io_wp (ensure_read (win_ledgered A) limit d c) Q R (w, l)"
proof -
  have stay: "kept F c l c l" using assms(3) by (simp add: kept_def streamed_refl)
  have exhausted: "\<not> te_ok buffer_exhausted" by (simp add: buffer_exhausted_def)
  have begun: "wp_read_offset c = 0" if "wp_pending c" using win_inv_parts(7) [OF assms(3) that] .
  have reset: "\<not> reset_failed limit c l None c1 l1" "reset_failed limit c l (Some e) c1 l1 \<Longrightarrow> \<not> te_ok e" for e c1 l1
    by (auto simp: reset_failed_def serialError_def)
  have start: "io_wp (startRead (win_ledgered A) limit c) (\<lambda>v. io_wp (case v of (start_error, c1) \<Rightarrow>
        (case start_error of
          None \<Rightarrow> io_return (Inl (Inl (serial_failed [] buffer_exhausted), c1))
        | Some e \<Rightarrow> if te_ok e then io_return (Inr c1) else io_return (Inl (Inr e, c1)))) Q R) R (w', l)"
    if "\<not> wp_pending c" "tick w \<le> tick w'" "tick w < tick w'" "tick w < d" for w'
    by (rule startRead_wp [OF assms(1,3,4) that(1) assms(5)])
      (use that exhausted reset in \<open>auto intro!: assms(6-8) split: option.splits\<close>)
  show ?thesis
    unfolding ensure_read_def using stay assms(2) begun
    by (auto intro!: win_wp_now [OF assms(1)] start assms(6,8))
qed

lemma report_undefined:
  assumes "reset_failed limit c l v c1 l1" and "U (w, l1)"
  shows "io_wpu (report_bytes A' limit e closes c1) Q U (w, l1)"
  using assms by (auto simp: report_bytes_def takeReadBytes_def reset_failed_def)

text \<open>One round of the loop costs a unit of fuel and passes a reading of the clock, but for a round that
  finds a request outstanding.\<close>

lemma receive_windows_loop_wp:
  assumes "win_system A tick" and "d \<le> clock_max" and "0 < limit"
    and "win_inv F c l" and "wp_handle c = Some h"
    and "0 \<le> tick w" and "2 + (if wp_pending c then 1 else 0) \<le> fuel"
    and "d - tick w + 2 + (if wp_pending c then 1 else 0) \<le> int fuel"
    and "\<And>s. max limit 256 < wp_read_offset c \<Longrightarrow> wl_failed_resets l < wl_failed_resets (snd s) \<Longrightarrow> U s"
  shows "io_wpu (receive_windows_loop (win_ledgered A) limit d t fuel c)
     (\<lambda>rc s. win_received F limit c l rc (snd s)) U (w, l)"
  using assms(4-9)
proof (induction fuel arbitrary: w c l)
  case 0 then show ?case by simp
next
  case (Suc fuel)
  note inv = Suc.prems(1) and handle = Suc.prems(2)
  have report: "io_wp (report_bytes (win_ledgered A) limit e closes c1) (\<lambda>rc s. win_received F limit c l rc (snd s)) (\<lambda>_. False) (w', l1)"
    if "kept F c l c1 l1" "te_ok e \<Longrightarrow> buffered c1 \<noteq> []" for e closes c1 l1 w'
    by (rule io_wp_mono [OF report_bytes_wp [OF assms(1)]])
      (use that handle assms(3) in \<open>auto simp: kept_def intro: win_received_kept [OF that(1) handle]\<close>)
  have stay: "kept F c l c l" using inv by (simp add: kept_def streamed_refl)
  have rounds: "io_wpu (waitForRead (win_ledgered A) d t fuel c1) (\<lambda>v. io_wpu (case v of (wait_error, c2) \<Rightarrow>
           if \<not> te_ok wait_error
           then report_bytes (win_ledgered A) limit wait_error (te_category wait_error = XCat_InputOutput) c2
           else receive_windows_loop (win_ledgered A) limit d t fuel c2)
         (\<lambda>rc s. win_received F limit c l rc (snd s)) U) U (w1, l1)"
    if 1: "tick w \<le> tick w1" "kept F c l c1 l1" "wp_pending c \<or> tick w < tick w1 \<and> tick w < d" "wp_read_offset c1 = 0" for c1 w1 l1
  proof (rule io_wpuI, rule waitForRead_rule [OF assms(1) _ assms(2)])
    show "win_inv F c1 l1" using 1(2) by (simp add: kept_def)
    show "0 \<le> tick w1" "0 < fuel" "d - tick w1 < int fuel" using 1(1) Suc.prems(3-5) by (auto split: if_splits)
    fix e c2 w2 l2
    assume 2: "tick w1 \<le> tick w2" "kept F c1 l1 c2 l2" "te_ok e \<Longrightarrow> \<not> wp_pending c2 \<and> (wp_read_offset c2 = 0 \<or> c2 = c1)"
    have k: "kept F c l c2 l2"
      using 1(2) 2(2) handle by (auto simp: kept_def intro: streamed_trans_nil)
    have more: "io_wpu (receive_windows_loop (win_ledgered A) limit d t fuel c2)
        (\<lambda>rc s. win_received F limit c l rc (snd s)) U (w2, l2)" if "te_ok e"
    proof (rule io_wpu_mono [OF Suc.IH])
      show "win_inv F c2 l2" "wp_handle c2 = Some h" using k handle by (simp_all add: kept_def)
      show "0 \<le> tick w2" using 1(1) 2(1) Suc.prems(3) by simp
      show "2 + (if wp_pending c2 then 1 else 0) \<le> fuel" "d - tick w2 + 2 + (if wp_pending c2 then 1 else 0) \<le> int fuel"
        using 1(1,3) 2(1) 2(3) [OF that] Suc.prems(4,5) by (auto split: if_splits)
      show "U s" if "max limit 256 < wp_read_offset c2" for s
        using that 1(4) 2(3) [OF \<open>te_ok e\<close>] by auto
    qed (auto intro: win_received_kept [OF k handle])
    show "io_wpu (case (e, c2) of (wait_error, c2) \<Rightarrow>
           if \<not> te_ok wait_error
           then report_bytes (win_ledgered A) limit wait_error (te_category wait_error = XCat_InputOutput) c2
           else receive_windows_loop (win_ledgered A) limit d t fuel c2)
         (\<lambda>rc s. win_received F limit c l rc (snd s)) U (w2, l2)"
      using more io_wpuI [OF report [OF k]] by auto
  qed
  have ended: "win_received F limit c l (serial_failed [] e, c1) l1" if "kept F c l c1 l1" "\<not> te_ok e" for e c1 l1
    using that by (simp add: kept_def win_received_def)
  have full: "buffered c \<noteq> []" if "wp_read_offset c < wp_read_size c" using buffered_nonempty [OF inv that] .
  have fails: "io_wpu (report_bytes (win_ledgered A) limit e closes c1) (\<lambda>rc s. win_received F limit c l rc (snd s)) U (w', l1)"
    if "reset_failed limit c l (Some x) c1 l1" for x e closes c1 w' l1
    by (rule report_undefined [OF that]) (use that Suc.prems(6) in \<open>auto simp: reset_failed_def\<close>)
  have ensure: "io_wpu (ensure_read (win_ledgered A) limit d c) Q U (w', l)"
    if "\<not> wp_read_offset c < wp_read_size c" "tick w \<le> tick w'"
      "\<And>e c1 w' l1. tick w \<le> tick w' \<Longrightarrow> kept F c l c1 l1 \<Longrightarrow> \<not> te_ok e \<Longrightarrow> Q (Inl (Inl (serial_failed [] e), c1)) (w', l1)"
      "\<And>e c1 w' l1. tick w \<le> tick w' \<Longrightarrow> kept F c l c1 l1 \<and> \<not> te_ok e \<or> reset_failed limit c l (Some e) c1 l1 \<Longrightarrow>
           Q (Inl (Inr e, c1)) (w', l1)"
      "\<And>c1 w' l1. tick w \<le> tick w' \<Longrightarrow> kept F c l c1 l1 \<Longrightarrow> (wp_pending c \<or> tick w < tick w' \<and> tick w < d) \<Longrightarrow>
           wp_read_offset c1 = 0 \<Longrightarrow> Q (Inr c1) (w', l1)" for Q w'
    by (rule io_wpuI, rule ensure_read_wp [OF assms(1,2) inv handle])
      (use that(1,2) win_inv_parts(3) [OF inv] in \<open>auto intro!: that(3-5)\<close>)
  have report_error: "io_wpu (report_bytes (win_ledgered A) limit e closes c1)
      (\<lambda>rc s. win_received F limit c l rc (snd s)) U (w', l1)"
    if "kept F c l c1 l1 \<and> \<not> te_ok e \<or> reset_failed limit c l (Some e) c1 l1" for e closes c1 l1 w'
    using that fails io_wpuI [OF report] by blast
  have report_full: "io_wpu (report_bytes (win_ledgered A) limit e closes c)
      (\<lambda>rc s. win_received F limit c l rc (snd s)) U (w', l)"
    if "wp_read_offset c < wp_read_size c" for e closes w'
    by (rule io_wpuI, rule report [OF stay full [OF that]])
  show ?case
    by (auto intro!: report_error report_full win_wp_free(1) [OF assms(1), THEN io_wpuI]
        cancelRead_kept [OF assms(1) inv, THEN io_wpuI] ensure rounds ended)
qed

end
