(* ===== verification/SerialWindowsPort.thy ===== *)
theory SerialWindowsPort
  imports SerialWindowsCorrect
begin

text \<open>
  The operations of the Windows port as a whole: sending, receiving, opening and closing.
\<close>

section \<open>Sending\<close>

lemma collect_write_wp:
  assumes "win_system A tick" and "h \<in># wl_open l"
    and "\<And>n e w'. tick w \<le> tick w' \<Longrightarrow> Q (n, e) (w', l\<lparr>wl_taken := wl_taken l @ take n (wl_writing l)\<rparr>)"
  shows "io_wp (collect_write (win_ledgered A) h reason) Q R (w, l)"
  unfolding collect_write_def using assms(2) win_system_bounds(2) [OF assms(1), of w h]
  by (auto intro!: win_wp_written [OF assms(1)] assms(3))

lemma waitForOverlapped_wp:
  assumes "win_system A tick" and "h \<in># wl_open l" and "e \<in># wl_open l" and "d \<le> clock_max"
    and "0 \<le> tick w" and "0 < fuel" and "d - tick w < int fuel"
    and "\<And>n x w'. tick w \<le> tick w' \<Longrightarrow> Q (n, x) (w', l\<lparr>wl_taken := wl_taken l @ take n (wl_writing l)\<rparr>)"
  shows "io_wp (waitForOverlapped (win_ledgered A) h e d t fuel) Q R (w, l)"
  using assms(5-8)
proof (induction fuel arbitrary: w)
  case 0 then show ?case by simp
next
  case (Suc fuel)
  have again: "io_wp (waitForOverlapped (win_ledgered A) h e d t fuel) Q R (w', l)"
    if "tick w < tick w'" "tick w < d" for w'
  proof (rule Suc.IH)
    show "0 \<le> tick w'" "0 < fuel" "d - tick w' < int fuel" using Suc.prems(1-3) that by linarith+
    show "\<And>n x w''. tick w' \<le> tick w'' \<Longrightarrow> Q (n, x) (w'', l\<lparr>wl_taken := wl_taken l @ take n (wl_writing l)\<rparr>)"
      using that(1) by (auto intro: Suc.prems(4))
  qed
  have range: "i64_sub d now = Some (d - now)" if "now < d" "tick w \<le> tick w'" "tick w' \<le> now" for now w'
    using that Suc.prems(1) assms(4) by (auto simp: i64_sub_def in_i64_def clock_max_def)
  have got: "Q (n, x) (w', l\<lparr>wl_taken := wl_taken l @ take n (wl_writing l)\<rparr>)" if "tick w \<le> tick w'" for n x w'
    using that by (rule Suc.prems(4))
  show ?case
    using assms(2-4)
    by (auto simp: range not_le intro!: win_wp_written [OF assms(1)] win_wp_free(1) [OF assms(1)] win_wp_now [OF assms(1)]
        win_wp_use(6) [OF assms(1)] collect_write_wp [OF assms(1)] again got split: option.splits)
qed

text \<open>Closing the event of a write leaves an outstanding read its handles.\<close>

lemma close_frame:
  assumes "win_inv (add_mset e F) c l"
  shows "win_inv F c (note_close e l)" "wl_arrived (note_close e l) = wl_arrived l" "wl_taken (note_close e l) = wl_taken l"
proof -
  have e: "e \<in># wl_open l" using win_inv_parts(1) [OF assms] by simp
  have rest: "wl_open l - {#e#} = win_owned c + F" using win_inv_parts(1) [OF assms] by simp
  have noted: "note_close e l = l\<lparr>wl_open := win_owned c + F\<rparr>"
  proof (cases "wl_request l")
    case None then show ?thesis using e rest by simp
  next
    case (Some r)
    obtain h' e' n where r: "r = (h', e', n)" by (cases r)
    have "wp_handle c = Some h'" "wp_event c = Some e'"
      using assms Some r by (auto simp: win_inv_def request_matches_def split: if_splits)
    then have "{#h', e'#} \<subseteq># win_owned c + F" by (simp add: win_owned_def)
    then show ?thesis using e rest Some r by (simp add: note_close_def)
  qed
  show "win_inv F c (note_close e l)" unfolding noted using assms by (auto simp: win_inv_def request_matches_def)
  show "wl_arrived (note_close e l) = wl_arrived l" "wl_taken (note_close e l) = wl_taken l" by (simp_all add: noted)
qed

text \<open>A round of the loop: the bytes taken are those by which the count grew.\<close>

definition round_done ::
    "nat multiset \<Rightarrow> bytes \<Rightarrow> nat \<Rightarrow> WindowsPort \<Rightarrow> win_ledger \<Rightarrow> nat \<Rightarrow> TransportError \<Rightarrow> WindowsPort \<Rightarrow> win_ledger \<Rightarrow> bool" where
  "round_done F data k c l k' e c' l' \<longleftrightarrow> win_inv F c' l' \<and> streamed c l [] c' l' \<and>
     (\<exists>m. k' = k + m \<and> wl_taken l' = wl_taken l @ take m (drop k data)) \<and> k' \<le> length data \<and> (te_ok e \<longrightarrow> c' = c)"

lemma win_inv_taken: "win_inv F c (l\<lparr>wl_taken := x\<rparr>) = win_inv F c l" "win_inv F c (l\<lparr>wl_writing := x\<rparr>) = win_inv F c l"
  by (simp_all add: win_inv_def request_matches_def)

lemma streamed_taken [simp]:
  "streamed c l out c' (l'\<lparr>wl_taken := x\<rparr>) = streamed c l out c' l'" "streamed c l out c' (l'\<lparr>wl_writing := x\<rparr>) = streamed c l out c' l'"
  "streamed c (l\<lparr>wl_taken := x\<rparr>) out c' l' = streamed c l out c' l'" "streamed c (l\<lparr>wl_writing := x\<rparr>) out c' l' = streamed c l out c' l'"
  by (simp_all add: streamed_def)

lemma send_round_wp:
  assumes "win_system A tick" and "d \<le> clock_max" and "win_inv F c l" and "wp_handle c = Some h" and "e \<in># wl_open l"
    and "k < length data" and "0 \<le> tick w" and "0 < fuel" and "d - tick w < int fuel"
    and "\<And>k' x c' w' l'. tick w \<le> tick w' \<Longrightarrow> round_done F data k c l k' x c' l' \<Longrightarrow> Q (k', x, c') (w', l')"
  shows "io_wp (send_round (win_ledgered A) h data d t fuel e k c) Q R (w, l)"
proof -
  have h: "h \<in># wl_open l" using win_inv_parts(8) [OF assms(3,4)] .
  let ?l = "\<lambda>n. l\<lparr>wl_writing := drop k data, wl_taken := wl_taken l @ take n (drop k data)\<rparr>"
  have same: "take (min n (length data - k)) (drop k data) = take n (drop k data)" for n
    by (simp add: min_def)
  have over: "round_done F data k c l (k + min n (length data - k)) x c (?l n)" for n x
    unfolding round_done_def using assms(3,6) same [of n]
    by (auto simp: win_inv_taken streamed_refl intro!: exI [of _ "min n (length data - k)"])
  have taken: "round_done F data k c l (k + n) x c (l\<lparr>wl_taken := wl_taken l @ take n (drop k data)\<rparr>)"
    if "n \<le> length data - k" for n x
    unfolding round_done_def using assms(3,6) that by (auto simp: win_inv_taken streamed_refl intro!: exI [of _ n])
  have closing: "io_wp (windows_close_impl (win_ledgered A) c) (\<lambda>v. io_wp (io_return (k + m, x, v)) Q R) R (w', l1)"
    if "tick w \<le> tick w'" "win_inv F c l1" "streamed c l [] c l1" "wl_taken l1 = wl_taken l @ take m (drop k data)"
      "k + m \<le> length data" "\<not> te_ok x" for m x w' l1
    by (rule windows_close_wp [OF assms(1) that(2)])
      (use that assms(4) in \<open>auto simp: round_done_def intro!: assms(10) intro: streamed_trans_last\<close>)
  have closing_after: "io_wp (windows_close_impl (win_ledgered A) c)
      (\<lambda>v. io_wp (io_return (k + min n (length data - k), x, v)) Q R) R (w', ?l n)"
    if "tick w \<le> tick w'" "\<not> te_ok x" for n x w'
    by (rule closing) (use that assms(3,6) same [of n] in \<open>auto simp: win_inv_taken streamed_refl\<close>)
  have closing_now: "io_wp (windows_close_impl (win_ledgered A) c) (\<lambda>v. io_wp (io_return (k, x, v)) Q R) R (w', l)"
    if "tick w \<le> tick w'" "\<not> te_ok x" for x w'
    using closing [of w' l 0 x] that assms(3,6) by (simp add: streamed_refl)
  show ?thesis
    unfolding send_round_def using h assms(2,5,7-9) over taken closing_after closing_now
    by (auto simp: Let_def intro!: win_wp_write [OF assms(1)] waitForOverlapped_wp [OF assms(1)] assms(10))
qed

definition win_sent ::
    "nat multiset \<Rightarrow> bytes \<Rightarrow> WindowsPort \<Rightarrow> win_ledger \<Rightarrow> nat serial_result \<times> WindowsPort \<Rightarrow> win_ledger \<Rightarrow> bool" where
  "win_sent F data c l rc l' \<longleftrightarrow> (case rc of (r, c') \<Rightarrow>
     win_inv F c' l' \<and> streamed c l [] c' l' \<and> wl_taken l' = wl_taken l @ take (pr_value r) data \<and>
     pr_value r \<le> length data \<and> (te_ok (pr_error r) \<longrightarrow> pr_value r = length data))"

text \<open>The state of the loop after \<open>k\<close> bytes: the port is the one it began with.\<close>

definition sending :: "nat multiset \<Rightarrow> bytes \<Rightarrow> nat \<Rightarrow> WindowsPort \<Rightarrow> win_ledger \<Rightarrow> win_ledger \<Rightarrow> bool" where
  "sending F data k c l l' \<longleftrightarrow> win_inv F c l' \<and> wl_arrived l' = wl_arrived l \<and> wl_taken l' = wl_taken l @ take k data \<and>
     k \<le> length data"

lemma sending_streamed: "sending F data k c l l1 \<Longrightarrow> streamed c l1 out c' l' \<Longrightarrow> streamed c l out c' l'"
  by (simp add: sending_def streamed_def)

lemma sending_round:
  assumes "sending F data k c l l1" and "round_done (add_mset e F) data k c (l1\<lparr>wl_open := x\<rparr>) k' er c' l2"
    and "wp_handle c = Some h"
  shows "te_ok er \<Longrightarrow> sending F data k' c l (note_close e l2)"
    "\<not> te_ok er \<Longrightarrow> win_sent F data c l (serial_failed k' er, c') (note_close e l2)"
proof -
  have inv: "win_inv (add_mset e F) c' l2" and str: "streamed c (l1\<lparr>wl_open := x\<rparr>) [] c' l2" and le: "k' \<le> length data"
    and same: "te_ok er \<Longrightarrow> c' = c" using assms(2) by (simp_all add: round_done_def)
  obtain m where m: "k' = k + m" "wl_taken l2 = wl_taken l1 @ take m (drop k data)"
    using assms(2) by (auto simp: round_done_def)
  have taken: "wl_taken l2 = wl_taken l @ take k' data" using m assms(1) by (simp add: sending_def take_add)
  note closed = close_frame [OF inv]
  have str': "streamed c l [] c' (note_close e l2)"
    using str assms(1) closed(2) by (simp add: streamed_def sending_def)
  show "win_sent F data c l (serial_failed k' er, c') (note_close e l2)" if "\<not> te_ok er"
    using that closed taken le str' by (simp add: win_sent_def)
  show "sending F data k' c l (note_close e l2)" if "te_ok er"
    using closed taken le str' same [OF that] assms(3) by (auto simp: sending_def streamed_def)
qed

lemma windows_send_loop_wp:
  assumes "win_system A tick" and "d \<le> clock_max" and "wp_handle c = Some h"
    and "sending F data k c l l1" and "0 \<le> tick w" and "2 \<le> fuel" and "d - tick w + 2 \<le> int fuel"
  shows "io_wp (windows_send_loop (win_ledgered A) h data d t fuel k c)
     (\<lambda>rc s. win_sent F data c l rc (snd s)) (\<lambda>_. False) (w, l1)"
  using assms(4-7)
proof (induction fuel arbitrary: w k l1)
  case 0 then show ?case by simp
next
  case (Suc fuel)
  note s = Suc.prems(1)
  have stay: "win_sent F data c l (serial_failed k e, c) l1" if "\<not> te_ok e" for e
    using that s by (auto simp: win_sent_def sending_def streamed_def)
  have "k \<le> length data" using s by (simp add: sending_def)
  then have finished: "win_sent F data c l (serial_done k, c) l1" if "\<not> k < length data"
    using that s by (auto simp: win_sent_def sending_def streamed_def)
  have round: "io_wp (send_round (win_ledgered A) h data d t fuel e k c) (\<lambda>v. io_wp (case v of (sent', er, c') \<Rightarrow>
          io_bind (io_do (sw_close (win_ledgered A) e)) (\<lambda>u.
            if te_ok er then windows_send_loop (win_ledgered A) h data d t fuel sent' c'
            else io_return (serial_failed sent' er, c')))
        (\<lambda>rc s. win_sent F data c l rc (snd s)) (\<lambda>_. False)) (\<lambda>_. False)
      (w', l1\<lparr>wl_open := add_mset e (wl_open l1)\<rparr>)"
    if w': "tick w < tick w'" "tick w < d" "k < length data" for e w'
  proof (rule send_round_wp [OF assms(1,2) _ assms(3) _ that(3), where F = "add_mset e F"])
    show "win_inv (add_mset e F) c (l1\<lparr>wl_open := add_mset e (wl_open l1)\<rparr>)"
      using s by (auto simp: sending_def win_inv_def request_matches_def)
    show "0 \<le> tick w'" "0 < fuel" "d - tick w' < int fuel" using w' Suc.prems(2-4) by linarith+
    fix k' x c' w'' l'
    assume r: "tick w' \<le> tick w''" "round_done (add_mset e F) data k c (l1\<lparr>wl_open := add_mset e (wl_open l1)\<rparr>) k' x c' l'"
    note after = sending_round [OF s r(2) assms(3)]
    have same: "te_ok x \<Longrightarrow> c' = c" using r(2) by (simp add: round_done_def)
    have later: "tick w < tick (sw_close A e w'')"
      using r(1) w'(1) win_system_bounds(3) [OF assms(1), of w'' e] by simp
    have more: "io_wp (windows_send_loop (win_ledgered A) h data d t fuel k' c)
        (\<lambda>rc s. win_sent F data c l rc (snd s)) (\<lambda>_. False) (sw_close A e w'', note_close e l')" if "te_ok x"
      by (rule Suc.IH [OF after(1) [OF that]]) (use later w'(2) Suc.prems(2-4) in linarith)+
    show "io_wp (case (k', x, c') of (sent', er, c') \<Rightarrow>
          io_bind (io_do (sw_close (win_ledgered A) e)) (\<lambda>u.
            if te_ok er then windows_send_loop (win_ledgered A) h data d t fuel sent' c'
            else io_return (serial_failed sent' er, c')))
        (\<lambda>rc s. win_sent F data c l rc (snd s)) (\<lambda>_. False) (w'', l')"
      using more after(2) same by auto
  qed simp
  show ?case
    using stay finished assms(2)
    by (auto intro!: win_wp_free(1) [OF assms(1)] win_wp_now [OF assms(1)] win_wp_create(2) [OF assms(1)] round simp: not_le)
qed

section \<open>The operations of a port\<close>

text \<open>A moved-from port owns nothing.\<close>

definition port_inv :: "nat multiset \<Rightarrow> WindowsPort option \<Rightarrow> win_ledger \<Rightarrow> bool" where
  "port_inv F port l \<longleftrightarrow> (case port of None \<Rightarrow> wl_open l = F \<and> \<not> wl_misused l \<and> wl_request l = None | Some c \<Rightarrow> win_inv F c l)"

lemma fuel_for_reads:
  assumes "fuel_of_deadlines \<le> fuel" and "d \<le> clock_max" and "0 \<le> t"
  shows "3 \<le> fuel" "d - t + 3 \<le> int fuel"
  using assms by (auto simp: fuel_of_deadlines_def clock_max_def)

lemma windows_receive_wp:
  assumes "win_system A tick" and "0 \<le> tick w" and "fuel_of_deadlines \<le> fuel" and "win_inv F c l"
    and "\<And>s. max limit 256 < wp_read_offset c \<Longrightarrow> wl_failed_resets l < wl_failed_resets (snd s) \<Longrightarrow> U s"
  shows "io_wpu (windows_receive (win_ledgered A) fuel limit ctx (Some c))
     (\<lambda>(r, port') s. \<exists>c'. port' = Some c' \<and> win_received F limit c l (r, c') (snd s)) U (w, l)"
proof -
  have stay: "win_received F limit c l (serial_failed [] e, c) l" if "\<not> te_ok e" for e
    using that assms(4) by (simp add: win_received_def streamed_refl)
  have loop: "io_wpu (receive_windows_loop (win_ledgered A) limit d t fuel c)
      (\<lambda>v. io_wpu (case v of (r, c) \<Rightarrow> io_return (r, Some c))
        (\<lambda>(r, port') s. \<exists>c'. port' = Some c' \<and> win_received F limit c l (r, c') (snd s)) U) U (w', l)"
    if "d \<le> clock_max" "tick w \<le> tick w'" "0 < limit" "wp_handle c = Some h" for d t w' h
    by (rule io_wpu_mono [OF receive_windows_loop_wp [OF assms(1) that(1,3) assms(4) that(4)]])
      (use that(2) assms(2) fuel_for_reads [OF assms(3) that(1), of "tick w'"] assms(5) in \<open>auto split: if_splits\<close>)
  show ?thesis
    unfolding windows_receive_def receiveWindows_def using stay assms(2)
    by (auto simp: windows_isOpen_def intro!: win_deadline_wp [OF assms(1), THEN io_wpuI] loop)
qed

lemma windows_send_wp:
  assumes "win_system A tick" and "0 \<le> tick w" and "fuel_of_deadlines \<le> fuel" and "win_inv F c l"
  shows "io_wp (windows_send (win_ledgered A) fuel (Some data) (length data) ctx (Some c))
     (\<lambda>(r, port') s. \<exists>c'. port' = Some c' \<and> win_sent F data c l (r, c') (snd s)) (\<lambda>_. False) (w, l)"
proof -
  have stay: "win_sent F data c l (serial_failed 0 e, c) l" if "\<not> te_ok e" for e
    using that assms(4) by (simp add: win_sent_def streamed_refl)
  have none: "win_sent F [] c l (serial_done 0, c) l" using assms(4) by (simp add: win_sent_def streamed_refl)
  have start: "sending F data 0 c l l" using assms(4) by (simp add: sending_def)
  have loop: "io_wp (windows_send_loop (win_ledgered A) h data d t fuel 0 c)
      (\<lambda>v. io_wp (case v of (r, c) \<Rightarrow> io_return (r, Some c))
        (\<lambda>(r, port') s. \<exists>c'. port' = Some c' \<and> win_sent F data c l (r, c') (snd s)) (\<lambda>_. False)) (\<lambda>_. False) (w', l)"
    if "d \<le> clock_max" "tick w \<le> tick w'" "wp_handle c = Some h" for d t w' h
    by (rule io_wp_mono [OF windows_send_loop_wp [OF assms(1) that(1,3) start]])
      (use that(2) assms(2) fuel_for_deadline [OF assms(3) that(1)] in auto)
  show ?thesis
    unfolding windows_send_def using stay none assms(2)
    by (auto simp: windows_isOpen_def intro!: win_deadline_wp [OF assms(1)] loop)
qed

section \<open>Opening and closing\<close>

lemma convertDeviceName_ledgered [simp]: "convertDeviceName (win_ledgered A) = convertDeviceName A"
  by (simp add: fun_eq_iff convertDeviceName_def)

lemma windows_configure_wp:
  assumes "win_system A tick" and "h \<in># wl_open l" and "\<And>v w'. tick w \<le> tick w' \<Longrightarrow> Q v (w', l)"
  shows "io_wp (windows_configure (win_ledgered A) h baud) Q R (w, l)"
  unfolding windows_configure_def
  by (auto intro!: win_wp_use(1-5) [OF assms(1,2)] assms(3) split: sum.splits option.splits)

lemma windows_last_check_wp:
  assumes "win_system A tick" and "\<And>v w'. tick w \<le> tick w' \<Longrightarrow> Q v (w', l)"
  shows "io_wp (windows_last_check (win_ledgered A) d t) Q R (w, l)"
  unfolding windows_last_check_def
  by (auto intro!: win_wp_free(1) [OF assms(1)] win_wp_now [OF assms(1)] assms(2))

text \<open>An open that fails leaves the port and what it has buffered alone.\<close>

definition win_opened ::
    "nat multiset \<Rightarrow> string \<Rightarrow> int \<Rightarrow> WindowsPort \<Rightarrow> win_ledger \<Rightarrow> TransportStatus \<times> WindowsPort option \<Rightarrow> win_ledger \<Rightarrow> bool" where
  "win_opened F name baud c l rp l' \<longleftrightarrow> (case rp of
     (Success _, port') \<Rightarrow> (\<exists>h. port' = Some (WindowsPort_new\<lparr>wp_handle := Some h, wp_device_name := name, wp_baud_rate := baud\<rparr>) \<and>
        win_inv F (the port') l') \<and> (\<exists>arrived. wl_arrived l' = wl_arrived l @ arrived)
   | (Failure e, port') \<Rightarrow> port' = Some c \<and> win_inv F c l' \<and> wl_arrived l' = wl_arrived l \<and> wl_taken l' = wl_taken l)"

lemma win_inv_candidate: "win_inv F c l \<Longrightarrow> win_inv (add_mset h F) c (l\<lparr>wl_open := add_mset h (wl_open l)\<rparr>)"
  by (auto simp: win_inv_def request_matches_def)

lemma windows_open_wp:
  assumes "win_system A tick" and "0 \<le> tick w" and "win_inv F c l"
  shows "io_wp (windows_open (win_ledgered A) name baud ctx (Some c))
     (\<lambda>rp s. win_opened F name baud c l rp (snd s)) (\<lambda>_. False) (w, l)"
proof -
  let ?l = "\<lambda>h. l\<lparr>wl_open := add_mset h (wl_open l)\<rparr>"
  have stay: "win_opened F name baud c l (Failure e, Some c) l" for e
    using assms(3) by (simp add: win_opened_def)
  have dropped: "win_opened F name baud c l (Failure e, Some c) (note_close h (?l h))" for e h
    using close_frame [OF win_inv_candidate [OF assms(3)], of h] by (simp add: win_opened_def)
  have opened: "win_opened F name baud c l (Success (), Some (WindowsPort_new\<lparr>wp_handle := Some h, wp_device_name := name,
      wp_baud_rate := baud\<rparr>)) l'" if "win_inv (add_mset h F) WindowsPort_new l'" "streamed c (?l h) [] WindowsPort_new l'" for h l'
    using that by (auto simp: win_opened_def win_inv_def win_owned_def request_matches_def WindowsPort_new_def streamed_def)
  have commit: "io_wp (windows_close_impl (win_ledgered A) c) (\<lambda>v. io_wp (io_return (Success (),
        Some (v\<lparr>wp_handle := Some h, wp_device_name := name, wp_baud_rate := baud\<rparr>)))
      (\<lambda>rp s. win_opened F name baud c l rp (snd s)) (\<lambda>_. False)) (\<lambda>_. False) (w', ?l h)" for h w'
    by (rule windows_close_wp [OF assms(1) win_inv_candidate [OF assms(3)]]) (use opened in auto)
  show ?thesis
    unfolding windows_open_def using stay dropped assms(2)
    by (auto intro!: win_wp_free(1) [OF assms(1)] win_wp_now [OF assms(1)] win_deadline_wp [OF assms(1)]
        win_wp_create(1) [OF assms(1)] windows_configure_wp [OF assms(1)] windows_last_check_wp [OF assms(1)] commit
        simp: serial_request_valid_def split: sum.splits)
qed

lemma windows_disconnect_wp:
  assumes "win_system A tick" and "win_inv F c l"
  shows "io_wp (windows_close (win_ledgered A) (Some c))
     (\<lambda>port' s. port' = Some WindowsPort_new \<and> win_inv F WindowsPort_new (snd s) \<and>
        streamed c l [] WindowsPort_new (snd s) \<and> wl_taken (snd s) = wl_taken l) (\<lambda>_. False) (w, l)"
  unfolding windows_close_def by (auto intro!: windows_close_wp [OF assms])

end
