(* ===== verification/SerialCorrect.thy ===== *)
theory SerialCorrect
  imports SerialWindowsPort "HOL-Library.Sublist"
begin

text \<open>
  What the serial port promises, on POSIX and on Windows.
\<close>

lemma io_wp_exists: "io_wp m Q (\<lambda>_. False) w \<Longrightarrow> \<exists>v w'. m w = (Done v, w') \<and> Q v w'"
  by (auto simp: io_wp_def split: prod.splits outcome.splits)

section \<open>Runs of a Windows port\<close>

datatype win_operation =
    Win_open string int OperationContext
  | Win_close
  | Win_send bytes OperationContext
  | Win_receive nat OperationContext

text \<open>A step answers the bytes it received.\<close>

fun win_step :: "'w windows_serial \<Rightarrow> nat \<Rightarrow> win_operation \<Rightarrow> WindowsPort option \<Rightarrow> ('w, bytes \<times> WindowsPort option) io" where
  "win_step A fuel (Win_open name baud ctx) p = io_bind (windows_open A name baud ctx p) (\<lambda>(r, p'). io_return ([], p'))"
| "win_step A fuel Win_close p = io_bind (windows_close A p) (\<lambda>p'. io_return ([], p'))"
| "win_step A fuel (Win_send data ctx) p =
     io_bind (windows_send A fuel (Some data) (length data) ctx p) (\<lambda>(r, p'). io_return ([], p'))"
| "win_step A fuel (Win_receive limit ctx) p =
     io_bind (windows_receive A fuel limit ctx p) (\<lambda>(r, p'). io_return (pr_value r, p'))"

fun win_run :: "'w windows_serial \<Rightarrow> nat \<Rightarrow> win_operation list \<Rightarrow> WindowsPort option \<Rightarrow> ('w, bytes \<times> WindowsPort option) io" where
  "win_run A fuel [] p = io_return ([], p)"
| "win_run A fuel (op # ops) p =
     io_bind (win_step A fuel op p) (\<lambda>(bs, p'). io_bind (win_run A fuel ops p') (\<lambda>(bs', p''). io_return (bs @ bs', p'')))"

text \<open>The bytes handed out and still buffered are in order among those that were buffered and arrived: none
  twice, none that did not arrive.\<close>

definition in_order :: "WindowsPort \<Rightarrow> win_ledger \<Rightarrow> bytes \<Rightarrow> WindowsPort \<Rightarrow> win_ledger \<Rightarrow> bool" where
  "in_order c l out c' l' \<longleftrightarrow> (\<exists>arrived. wl_arrived l' = wl_arrived l @ arrived \<and>
     subseq (out @ buffered c') (buffered c @ arrived))"

lemma in_order_streamed: "streamed c l out c' l' \<Longrightarrow> in_order c l out c' l'"
proof -
  assume "streamed c l out c' l'"
  then obtain arrived dropped where "wl_arrived l' = wl_arrived l @ arrived" "buffered c @ arrived = (out @ buffered c') @ dropped"
    by (auto simp: streamed_def)
  then show ?thesis unfolding in_order_def by (metis subseq_rev_drop_many subseq_order.refl)
qed

lemma in_order_trans:
  assumes "in_order c l out c1 l1" and "in_order c1 l1 out' c' l'"
  shows "in_order c l (out @ out') c' l'"
proof -
  obtain a1 a2 where 1: "wl_arrived l1 = wl_arrived l @ a1" "subseq (out @ buffered c1) (buffered c @ a1)"
    and 2: "wl_arrived l' = wl_arrived l1 @ a2" "subseq (out' @ buffered c') (buffered c1 @ a2)"
    using assms by (auto simp: in_order_def)
  have "subseq (out @ out' @ buffered c') (out @ buffered c1 @ a2)" using 2(2) by (simp add: subseq_append')
  moreover have "subseq ((out @ buffered c1) @ a2) ((buffered c @ a1) @ a2)" 
    using list_emb_append_mono [OF 1(2) subseq_order.refl] .
  ultimately have "subseq ((out @ out') @ buffered c') (buffered c @ a1 @ a2)"
    by (simp add: subseq_order.order_trans)
  then show ?thesis using 1(1) 2(1) by (auto simp: in_order_def)
qed

lemma win_step_wp:
  assumes "win_system A tick" and "0 \<le> tick w" and "fuel_of_deadlines \<le> fuel" and "win_inv F c l"
    and "\<And>s. 0 < wl_failed_resets (snd s) \<Longrightarrow> U s"
  shows "io_wpu (win_step (win_ledgered A) fuel op (Some c))
     (\<lambda>(bs, p) s. \<exists>c'. p = Some c' \<and> win_inv F c' (snd s) \<and> in_order c l bs c' (snd s)) U (w, l)"
proof (cases op)
  case (Win_open name baud ctx)
  have "in_order c l [] c l'" if "wl_arrived l' = wl_arrived l" for l'
    using that by (simp add: in_order_def)
  moreover have "in_order c l [] (WindowsPort_new\<lparr>wp_handle := h, wp_device_name := n, wp_baud_rate := b\<rparr>) l'"
    if "wl_arrived l' = wl_arrived l @ a" for l' a h n b
    using that by (auto simp: in_order_def buffered_def WindowsPort_new_def)
  ultimately show ?thesis unfolding Win_open win_step.simps io_wpu_simps
    by (intro io_wpu_mono [OF io_wpuI [OF windows_open_wp [OF assms(1,2,4)]]]) (auto simp: win_opened_def split: Result.splits)
next
  case Win_close
  show ?thesis unfolding Win_close win_step.simps io_wpu_simps
    by (rule io_wpu_mono [OF io_wpuI [OF windows_disconnect_wp [OF assms(1,4)]]]) (auto intro: in_order_streamed assms(5))
next
  case (Win_send data ctx)
  show ?thesis unfolding Win_send win_step.simps io_wpu_simps
    by (rule io_wpu_mono [OF io_wpuI [OF windows_send_wp [OF assms(1-4)]]]) (auto simp: win_sent_def intro: in_order_streamed assms(5))
next
  case (Win_receive limit ctx)
  show ?thesis unfolding Win_receive win_step.simps io_wpu_simps
    by (rule io_wpu_mono [OF windows_receive_wp [OF assms(1-4)]]) (auto simp: win_received_def intro: in_order_streamed assms(5))
qed

lemma win_run_wp:
  assumes "win_system A tick" and "\<And>w. 0 \<le> tick w" and "fuel_of_deadlines \<le> fuel" and "win_inv F c l"
    and "\<And>s. 0 < wl_failed_resets (snd s) \<Longrightarrow> U s"
  shows "io_wpu (win_run (win_ledgered A) fuel ops (Some c))
     (\<lambda>(bs, p) s. \<exists>c'. p = Some c' \<and> win_inv F c' (snd s) \<and> in_order c l bs c' (snd s)) U (w, l)"
  using assms(4)
proof (induction ops arbitrary: w c l)
  case Nil then show ?case by (simp add: in_order_def)
next
  case (Cons op ops)
  have rest: "io_wpu (win_run (win_ledgered A) fuel ops (Some c1))
      (\<lambda>v. io_wpu (case v of (bs', p) \<Rightarrow> io_return (bs @ bs', p))
        (\<lambda>(bs, p) s. \<exists>c'. p = Some c' \<and> win_inv F c' (snd s) \<and> in_order c l bs c' (snd s)) U) U (w1, l1)"
    if "win_inv F c1 l1" "in_order c l bs c1 l1" for bs c1 w1 l1
    by (rule io_wpu_mono [OF Cons.IH [OF that(1)]]) (auto intro: in_order_trans [OF that(2)])
  show ?case unfolding win_run.simps io_wpu_simps
    by (rule io_wpu_mono [OF win_step_wp [OF assms(1,2,3) Cons.prems assms(5)]]) (auto intro!: rest)
qed

section \<open>Systems for the witnesses\<close>

definition sample_serial :: "nat serial_api" where
  "sample_serial =
     \<lparr>sp_now = (\<lambda>w. (min (int w) clock_max, Suc w)),
      sp_cancelled = (\<lambda>t w. (False, w)),
      sp_open = (\<lambda>n w. (Inr 3, w)),
      sp_get_settings = (\<lambda>h w. (Inr \<lparr>c_iflag = 0, c_oflag = 0, c_cflag = 0, c_lflag = 0, c_vmin = 0, c_vtime = 0,
        c_ispeed = 9600, c_ospeed = 9600\<rparr>, w)),
      sp_set_settings = (\<lambda>h s w. (None, w)),
      sp_flush = (\<lambda>h w. (None, w)),
      sp_poll = (\<lambda>h k ms w. (Poll_events 5, w)),
      sp_write = (\<lambda>h bs w. (Inr (min 2 (length bs)), w)),
      sp_read = (\<lambda>h n w. (Inr (take n [7, 8, 9]), w)),
      sp_close = (\<lambda>h w. w)\<rparr>"

lemma sample_serial_system: "serial_system sample_serial (\<lambda>w. min (int w) clock_max)"
  unfolding serial_system_def keeps_def sample_serial_def by auto

definition sample_dcb :: DCB where
  "sample_dcb = \<lparr>dcb_BaudRate = 9600, dcb_ByteSize = 8, dcb_Parity = 0, dcb_StopBits = 0, dcb_fBinary = True,
     dcb_fParity = False, dcb_fOutxCtsFlow = False, dcb_fOutxDsrFlow = False, dcb_fDsrSensitivity = False,
     dcb_fOutX = False, dcb_fInX = False, dcb_fNull = False, dcb_fErrorChar = False, dcb_fAbortOnError = False,
     dcb_fRtsControl = 0, dcb_fDtrControl = 1\<rparr>"

text \<open>Every read is pending first, and done when asked again.\<close>

definition sample_windows :: "nat windows_serial" where
  "sample_windows =
     \<lparr>sw_now = (\<lambda>w. (min (int w) clock_max, Suc w)),
      sw_cancelled = (\<lambda>t w. (False, w)),
      sw_alloc = (\<lambda>n w. (True, w)),
      sw_widen = (\<lambda>s. Some (map (\<lambda>c. of_nat (of_char c)) s)),
      sw_create_file = (\<lambda>n w. (Inr 3, w)),
      sw_get_state = (\<lambda>h w. (Inr sample_dcb, w)),
      sw_set_state = (\<lambda>h s w. (None, w)),
      sw_setup = (\<lambda>h w. (None, w)),
      sw_timeouts = (\<lambda>h s w. (None, w)),
      sw_purge = (\<lambda>h w. (None, w)),
      sw_create_event = (\<lambda>w. (Inr 4, w)),
      sw_reset_event = (\<lambda>e w. (None, w)),
      sw_read = (\<lambda>h e n w. (Inl (ERROR_IO_PENDING, []), w)),
      sw_read_result = (\<lambda>h n waiting w. (Inr (take n [7, 8, 9]), w)),
      sw_cancel_read = (\<lambda>h w. w),
      sw_write = (\<lambda>h e bs w. (Inr (min 2 (length bs)), w)),
      sw_write_result = (\<lambda>h waiting w. (Inr 0, w)),
      sw_cancel_write = (\<lambda>h w. w),
      sw_wait = (\<lambda>e ms w. (None, w)),
      sw_close = (\<lambda>h w. w)\<rparr>"

lemma sample_windows_system: "win_system sample_windows (\<lambda>w. min (int w) clock_max)"
  unfolding win_system_def keeps_def sample_windows_def by (auto simp: answer_bytes_def)

definition sample_port :: SerialPort where
  "sample_port = Some \<lparr>sr_descriptor = Some 3, sr_device_name = ''COM1'', sr_baud_rate = 9600\<rparr>"

definition sample_serial_ledger :: serial_ledger where
  "sample_serial_ledger = \<lparr>sl_open = {#3#}, sl_misused = False, sl_sent = [], sl_received = []\<rparr>"

definition sample_win_ledger :: win_ledger where
  "sample_win_ledger = \<lparr>wl_open = {#}, wl_request = None, wl_misused = False, wl_arrived = [], wl_writing = [], wl_taken = [],
     wl_failed_resets = 0\<rparr>"

section \<open>The properties\<close>

text \<open>C16. The serial port on POSIX.  Whatever the system answers, opening, sending and receiving return.  An
  open that fails leaves the port as it was, and one that succeeds replaces it; the descriptors open
  afterwards are the port's.  A send reports the prefix of the data that was written, all of it when it
  reports no error; a receive reports exactly the bytes read, at most the limit, and an error exactly
  when there are none.\<close>

theorem serial_posix_exact:
  assumes "serial_system A tick" and "0 \<le> tick w" and "fuel_of_deadlines \<le> fuel"
    and "sl_open l = serial_owned port + H"
  shows "(\<exists>r p s. serial_open (serial_ledgered A) name baud ctx port (w, l) = (Done (r, p), s) \<and>
      snd s = l\<lparr>sl_open := serial_owned p + H\<rparr> \<and>
      (case r of Success _ \<Rightarrow> (\<exists>h. p = Some \<lparr>sr_descriptor = Some h, sr_device_name = name, sr_baud_rate = baud\<rparr>)
       | Failure e \<Rightarrow> p = port)) \<and>
    (\<exists>r p s. serial_send (serial_ledgered A) fuel (Some data) (length data) ctx port (w, l) = (Done (r, p), s) \<and>
      snd s = l\<lparr>sl_open := serial_owned p + H, sl_sent := sl_sent l @ take (pr_value r) data\<rparr> \<and>
      (if te_ok (pr_error r) then pr_value r = length data else pr_value r < length data \<or> data = [])) \<and>
    (\<exists>r p s. serial_receive (serial_ledgered A) fuel alloc_ok limit ctx port (w, l) = (Done (r, p), s) \<and>
      snd s = l\<lparr>sl_open := serial_owned p + H, sl_received := sl_received l @ pr_value r\<rparr> \<and>
      length (pr_value r) \<le> limit \<and> (te_ok (pr_error r) \<longleftrightarrow> pr_value r \<noteq> []))"
proof (intro conjI)
  show "\<exists>r p s. serial_open (serial_ledgered A) name baud ctx port (w, l) = (Done (r, p), s) \<and>
      snd s = l\<lparr>sl_open := serial_owned p + H\<rparr> \<and>
      (case r of Success _ \<Rightarrow> (\<exists>h. p = Some \<lparr>sr_descriptor = Some h, sr_device_name = name, sr_baud_rate = baud\<rparr>)
       | Failure e \<Rightarrow> p = port)"
    using io_wp_exists [OF serial_open_wp [OF assms(1,2,4), of name baud ctx]] unfolding opened_or_unchanged_def by fast
  show "\<exists>r p s. serial_send (serial_ledgered A) fuel (Some data) (length data) ctx port (w, l) = (Done (r, p), s) \<and>
      snd s = l\<lparr>sl_open := serial_owned p + H, sl_sent := sl_sent l @ take (pr_value r) data\<rparr> \<and>
      (if te_ok (pr_error r) then pr_value r = length data else pr_value r < length data \<or> data = [])"
    using io_wp_exists [OF serial_send_wp [OF assms, of "Some data" "length data" ctx]]
    unfolding serial_sent_exactly_def option.case take_all_iff [THEN iffD2, OF order_refl] by fast
  show "\<exists>r p s. serial_receive (serial_ledgered A) fuel alloc_ok limit ctx port (w, l) = (Done (r, p), s) \<and>
      snd s = l\<lparr>sl_open := serial_owned p + H, sl_received := sl_received l @ pr_value r\<rparr> \<and>
      length (pr_value r) \<le> limit \<and> (te_ok (pr_error r) \<longleftrightarrow> pr_value r \<noteq> [])"
    using io_wp_exists [OF serial_receive_wp [OF assms, of alloc_ok limit ctx]] unfolding serial_received_exactly_def by fast
qed

theorem serial_posix_exact_witness:
  "\<exists>r p s. serial_send (serial_ledgered sample_serial) (2 ^ 63 + 2) (Some [1, 2, 3]) (length [1, 2, 3 :: 8 word])
      (OperationContext_make \<lparr>to_duration = 5\<rparr>) sample_port (0, sample_serial_ledger) = (Done (r, p), s) \<and>
      sl_sent (snd s) = take (pr_value r) [1, 2, 3] \<and> sl_open (snd s) = serial_owned p"
proof -
  have "sl_open sample_serial_ledger = serial_owned sample_port + {#}" "fuel_of_deadlines \<le> 2 ^ 63 + 2"
    by (simp_all add: sample_serial_ledger_def sample_port_def fuel_of_deadlines_def)
  note posix = serial_posix_exact [OF sample_serial_system _ this(2,1), of 0 "[]" 0
      "OperationContext_make \<lparr>to_duration = 5\<rparr>" "[1, 2, 3]" True 1]
  have "0 \<le> min (int 0) clock_max" by (simp add: clock_max_def)
  from posix [OF this, THEN conjunct2, THEN conjunct1]
  show ?thesis by (elim exE conjE) (intro exI conjI, assumption, simp_all add: sample_serial_ledger_def)
qed

lemma io_wpu_outcome:
  "io_wpu m Q U w \<Longrightarrow> \<exists>out s. m w = (out, s) \<and> (case out of Done v \<Rightarrow> Q v s | Undefined \<Rightarrow> U s | Pending \<Rightarrow> False)"
  by (auto simp: io_wpu_def split: prod.splits outcome.splits)

text \<open>C14. No byte is lost, duplicated or reordered by a receive on Windows, over a system that does as
  documented (\<open>win_system\<close>).  In any state the port can be in, a receive returns, but for one case: it asks for less than was taken from the port's buffer before, so
  that the buffer shrinks below the offset, and then cannot reset the event of its read; then it forms an
  iterator past the end of the buffer, which is undefined.  When it returns, the bytes it hands out
  followed by those still buffered are those that were buffered followed by those that arrived meanwhile,
  unless the port was closed by the failure of a request, which drops the rest; a read that outlives a
  receive that timed out is found again by the next.  A receive without error hands out at least one
  byte, and none more than asked for.\<close>

theorem serial_windows_stream:
  assumes "win_system A tick" and "0 \<le> tick w" and "fuel_of_deadlines \<le> fuel" and "win_inv H c l"
  shows "\<exists>out s. windows_receive (win_ledgered A) fuel limit ctx (Some c) (w, l) = (out, s) \<and> (case out of
      Done (r, p) \<Rightarrow> \<exists>c'. p = Some c' \<and> win_inv H c' (snd s) \<and>
        (\<exists>arrived dropped. wl_arrived (snd s) = wl_arrived l @ arrived \<and>
           buffered c @ arrived = pr_value r @ buffered c' @ dropped \<and> (wp_handle c' \<noteq> None \<longrightarrow> dropped = [])) \<and>
        length (pr_value r) \<le> limit \<and> (te_ok (pr_error r) \<longrightarrow> pr_value r \<noteq> [])
    | Undefined \<Rightarrow> max limit 256 < wp_read_offset c \<and> wl_failed_resets l < wl_failed_resets (snd s)
    | Pending \<Rightarrow> False)"
proof -
  let ?U = "\<lambda>s. max limit 256 < wp_read_offset c \<and> wl_failed_resets l < wl_failed_resets (snd s)"
  show ?thesis
    using io_wpu_outcome [OF windows_receive_wp [OF assms, where U = ?U and limit = limit and ctx = ctx]]
    unfolding win_received_def streamed_def by (fastforce split: outcome.splits)
qed

theorem serial_windows_stream_witness:
  "\<exists>out s. windows_receive (win_ledgered sample_windows) (2 ^ 63 + 2) 2 (OperationContext_make \<lparr>to_duration = 5\<rparr>)
      (Some WindowsPort_new) (0, sample_win_ledger) = (out, s) \<and>
      (case out of Done (r, p) \<Rightarrow> length (pr_value r) \<le> 2 \<and> p \<noteq> None | Undefined \<Rightarrow> False | Pending \<Rightarrow> False)"
proof -
  have "win_inv {#} WindowsPort_new sample_win_ledger"
    by (rule win_inv_new) (simp_all add: sample_win_ledger_def)
  from serial_windows_stream [OF sample_windows_system _ _ this, of 0 "2 ^ 63 + 2" 2
      "OperationContext_make \<lparr>to_duration = 5\<rparr>"]
  obtain out s where run: "windows_receive (win_ledgered sample_windows) (2 ^ 63 + 2) 2
      (OperationContext_make \<lparr>to_duration = 5\<rparr>) (Some WindowsPort_new) (0, sample_win_ledger) = (out, s)"
    and out: "case out of Done (r, p) \<Rightarrow> (\<exists>c'. p = Some c') \<and> length (pr_value r) \<le> 2
      | Undefined \<Rightarrow> max 2 256 < wp_read_offset WindowsPort_new | Pending \<Rightarrow> False"
    by (fastforce simp: clock_max_def fuel_of_deadlines_def split: outcome.splits)
  have "wp_read_offset WindowsPort_new = 0" by (simp add: WindowsPort_new_def)
  then show ?thesis using run out by (intro exI [of _ out] exI [of _ s]) (auto split: outcome.splits)
qed

text \<open>C15. The Windows port is safe over any sequence of operations, on a system that does as documented
  (\<open>win_system\<close>), a ledger that starts without a misuse, a request or a failed reset.  Every one returns, but for a receive
  that could not reset the event of its read and is undefined; the handles open
  afterwards are those of the port and those open before; no handle is used after it was closed, no
  second read is started while one is outstanding, and none is left without its handles; the bytes handed
  out are, in order, among those that arrived, none twice.\<close>

theorem serial_windows_safe:
  assumes "win_system A tick" and "\<And>w. 0 \<le> tick w" and "fuel_of_deadlines \<le> fuel"
    and "wl_open l = H" and "\<not> wl_misused l" and "wl_request l = None" and "wl_failed_resets l = 0"
  shows "\<exists>result s. win_run (win_ledgered A) fuel ops (Some WindowsPort_new) (w, l) = (result, s) \<and> (case result of
      Done (out, p) \<Rightarrow> \<exists>c. p = Some c \<and> wl_open (snd s) = win_owned c + H \<and> \<not> wl_misused (snd s) \<and>
        (wl_request (snd s) \<noteq> None \<longleftrightarrow> wp_pending c) \<and>
        (\<exists>arrived. wl_arrived (snd s) = wl_arrived l @ arrived \<and> subseq out arrived)
    | Undefined \<Rightarrow> 0 < wl_failed_resets (snd s)
    | Pending \<Rightarrow> False)"
proof -
  have new: "win_inv H WindowsPort_new l" using assms(4-6) by (rule win_inv_new)
  have ended: "wl_open l' = win_owned c + H \<and> \<not> wl_misused l' \<and> (wl_request l' \<noteq> None \<longleftrightarrow> wp_pending c) \<and>
      (\<exists>arrived. wl_arrived l' = wl_arrived l @ arrived \<and> subseq out arrived)"
    if inv: "win_inv H c l'" and order: "in_order WindowsPort_new l out c l'" for out c l'
  proof -
    have "wl_request l' \<noteq> None \<longleftrightarrow> wp_pending c"
      using inv by (auto simp: win_inv_def request_matches_def split: if_splits)
    moreover obtain arrived where "wl_arrived l' = wl_arrived l @ arrived" "subseq (out @ buffered c) arrived"
      using order by (auto simp: in_order_def buffered_def WindowsPort_new_def)
    moreover from this(2) have "subseq out arrived" by (meson subseq_append_le_same_iff list_emb_append2 subseq_order.order_trans subseq_rev_drop_many subseq_order.refl)
    ultimately show ?thesis using win_inv_parts(1,2) [OF inv] by blast
  qed
  show ?thesis
    using io_wpu_outcome [OF win_run_wp [OF assms(1-3) new, where U = "\<lambda>s. 0 < wl_failed_resets (snd s)" and ops = ops and w = w]] ended
    by (fastforce split: outcome.splits)
qed

theorem serial_windows_safe_witness:
  "\<exists>result s. win_run (win_ledgered sample_windows) (2 ^ 63 + 2) [Win_open ''COM1'' 9600 (OperationContext_make \<lparr>to_duration = 5\<rparr>),
      Win_receive 2 (OperationContext_make \<lparr>to_duration = 5\<rparr>)]
      (Some WindowsPort_new) (0, sample_win_ledger) = (result, s) \<and>
      (case result of Done (out, p) \<Rightarrow> \<exists>c. p = Some c \<and> wl_open (snd s) = win_owned c + {#}
       | Undefined \<Rightarrow> 0 < wl_failed_resets (snd s) | Pending \<Rightarrow> False)"
  using serial_windows_safe [OF sample_windows_system, of "2 ^ 63 + 2" sample_win_ledger "{#}"
      "[Win_open ''COM1'' 9600 (OperationContext_make \<lparr>to_duration = 5\<rparr>), Win_receive 2 (OperationContext_make \<lparr>to_duration = 5\<rparr>)]" 0]
  by (fastforce simp: clock_max_def fuel_of_deadlines_def sample_win_ledger_def simp del: win_run.simps split: outcome.splits)

end
