(* ===== verification/License.thy ===== *)
theory License
  imports WseResult
begin

text \<open>
  The licence of the engine: \<open>api/wse/error/LicenseError.h\<close>, \<open>core/wse/license/wse_LicenceAdmin.cpp\<close>
  (the cipher, the loaded licence and the feature checks), \<open>wse_License.cpp\<close> (loading),
  \<open>wse_LicenseWriter.cpp\<close> (writing) and \<open>wse_LicenseKey.cpp\<close>.

  A scoped enumeration with the underlying type \<open>uint8_t\<close> may hold any byte, so \<open>eType\<close> and \<open>eVer\<close>
  are bytes and their enumerators are constants.  The machine is an argument: its files, its
  hardware address and its local date.  A call of the licence functions returns a value, throws,
  or reads a vector out of range (\<open>Undefined\<close>).
\<close>

section \<open>The error value\<close>

datatype eLicenseErrorCategory = LicCat_None | LicCat_Io | LicCat_Verification

datatype eLicenseErrorCode =
    Lic_None | Lic_FileOpenFailed | Lic_ReadFailed | Lic_LicenseExpired
  | Lic_UnlicensedDevice | Lic_UnusableLicense | Lic_UnusableVersion

record LicenseError =
  lie_category :: eLicenseErrorCategory
  lie_code :: eLicenseErrorCode
  lie_message :: string
  lie_native_code :: int

definition LicenseError_none :: LicenseError where
  "LicenseError_none =
     \<lparr>lie_category = LicCat_None, lie_code = Lic_None, lie_message = '''', lie_native_code = 0\<rparr>"

definition LicenseError_make ::
  "eLicenseErrorCategory \<Rightarrow> eLicenseErrorCode \<Rightarrow> string \<Rightarrow> LicenseError" where
  "LicenseError_make category code message =
     \<lparr>lie_category = category, lie_code = code, lie_message = message, lie_native_code = 0\<rparr>"

definition LicenseError_ok :: "LicenseError \<Rightarrow> bool" where
  "LicenseError_ok e \<longleftrightarrow> lie_category e = LicCat_None"

interpretation license_error: error_value LicenseError_ok LicenseError_none
  by unfold_locales (simp add: LicenseError_ok_def LicenseError_none_def)

type_synonym LicenseStatus = "LicenseError Status"

abbreviation license_failure ::
  "eLicenseErrorCategory \<Rightarrow> eLicenseErrorCode \<Rightarrow> string \<Rightarrow> ('a, LicenseError) Result" where
  "license_failure category code message \<equiv> Failure (LicenseError_make category code message)"

section \<open>Calls that return, throw or are undefined\<close>

datatype license_exception = Invalid_argument | Logic_error | Length_error

type_synonym 'a call = "(license_exception + 'a) outcome"

fun call_bind :: "'a call \<Rightarrow> ('a \<Rightarrow> 'b call) \<Rightarrow> 'b call" where
  "call_bind (Done (Inr v)) f = f v"
| "call_bind (Done (Inl e)) f = Done (Inl e)"
| "call_bind Undefined f = Undefined"
| "call_bind Pending f = Pending"

abbreviation call_value :: "'a \<Rightarrow> 'a call" where
  "call_value v \<equiv> Done (Inr v)"

abbreviation call_throw :: "license_exception \<Rightarrow> 'a call" where
  "call_throw e \<equiv> Done (Inl e)"

definition call_at :: "bytes \<Rightarrow> nat \<Rightarrow> u8 call" where
  "call_at xs i = (if i < length xs then call_value (xs ! i) else Undefined)"

lemma call_at_in_range [simp]: "i < length xs \<Longrightarrow> call_at xs i = call_value (xs ! i)"
  by (simp add: call_at_def)

lemma call_bind_value_iff:
  "call_bind x f = call_value y \<longleftrightarrow> (\<exists>v. x = call_value v \<and> f v = call_value y)"
  by (cases "(x, f)" rule: call_bind.cases) auto

lemma call_at_value_iff [simp]: "call_at xs i = call_value v \<longleftrightarrow> i < length xs \<and> v = xs ! i"
  by (auto simp: call_at_def)

section \<open>Licence kinds\<close>

type_synonym eType = u8
type_synonym eVer = u8

definition eType_Free :: eType where "eType_Free = 0"
definition eType_ExpirationDate :: eType where "eType_ExpirationDate = 1"
definition eType_DeviceDependent :: eType where "eType_DeviceDependent = 2"

definition eVer_Alpha :: eVer where "eVer_Alpha = 0"
definition eVer_Beta :: eVer where "eVer_Beta = 1"
definition eVer_Stable :: eVer where "eVer_Stable = 2"
definition eVer_Admin :: eVer where "eVer_Admin = 3"

lemmas kind_defs =
  eType_Free_def eType_ExpirationDate_def eType_DeviceDependent_def
  eVer_Alpha_def eVer_Beta_def eVer_Stable_def eVer_Admin_def

definition type_toString :: "eType \<Rightarrow> string call" where
  "type_toString t =
     (if t = eType_Free then call_value ''Free           ''
      else if t = eType_ExpirationDate then call_value ''ExpirationDate ''
      else if t = eType_DeviceDependent then call_value ''DeviceDependent''
      else call_throw Invalid_argument)"

definition ver_toString :: "eVer \<Rightarrow> string call" where
  "ver_toString v =
     (if v = eVer_Alpha then call_value ''Alpha''
      else if v = eVer_Beta then call_value ''Beta''
      else if v = eVer_Stable then call_value ''Stable''
      else if v = eVer_Admin then call_value ''Admin''
      else call_throw Invalid_argument)"

text \<open>What a licence says, in the order of the output parameters of \<open>analyzeLicence\<close>.\<close>

record licence_fields =
  lf_type :: eType
  lf_ver :: eVer
  lf_masor :: u16
  lf_minor :: u16
  lf_patch :: u32

definition free_fields :: licence_fields where
  "free_fields =
     \<lparr>lf_type = eType_Free, lf_ver = eVer_Alpha, lf_masor = 0, lf_minor = 0, lf_patch = 0\<rparr>"

section \<open>The cipher\<close>

text \<open>\<open>encryptLicense\<close> and \<open>decodeLicense\<close>: the loop with its cyclic key index.\<close>

fun cipher_loop :: "bytes \<Rightarrow> nat \<Rightarrow> bytes \<Rightarrow> bytes call" where
  "cipher_loop key key_i [] = call_value []"
| "cipher_loop key key_i (d # ds) =
     call_bind (call_at key key_i) (\<lambda>k.
     let key_i' = (if key_i + 1 = length key then 0 else key_i + 1) in
     call_bind (cipher_loop key key_i' ds) (\<lambda>rest. call_value (xor d k # rest)))"

definition encryptLicense :: "bytes \<Rightarrow> bytes \<Rightarrow> bytes call" where
  "encryptLicense data_in key_in = cipher_loop key_in 0 data_in"

definition decodeLicense :: "bytes \<Rightarrow> bytes \<Rightarrow> bytes call" where
  "decodeLicense data_in key_in = cipher_loop key_in 0 data_in"

section \<open>The loaded licence and the feature checks\<close>

record LicenceAdmin =
  la_type :: eType
  la_version :: eVer
  la_masor :: u16
  la_minor :: u16
  la_patch :: u32
  la_is_already :: bool

definition LicenceAdmin_init :: LicenceAdmin where
  "LicenceAdmin_init =
     \<lparr>la_type = eType_Free, la_version = eVer_Alpha, la_masor = 0, la_minor = 0, la_patch = 0,
      la_is_already = False\<rparr>"

definition admin_set :: "LicenceAdmin \<Rightarrow> licence_fields \<Rightarrow> LicenceAdmin call" where
  "admin_set A f =
     (if la_is_already A then call_throw Logic_error
      else call_value
        \<lparr>la_type = lf_type f, la_version = lf_ver f, la_masor = lf_masor f, la_minor = lf_minor f,
         la_patch = lf_patch f, la_is_already = True\<rparr>)"

definition version_num :: "LicenceAdmin \<Rightarrow> u64" where
  "version_num A =
     ucast (la_masor A) * 10000000000000 + ucast (la_minor A) * 100000000 + ucast (la_patch A)"

definition unusable_license :: LicenseStatus where
  "unusable_license =
     license_failure LicCat_Verification Lic_UnusableLicense ''the license does not permit this feature''"

definition unusable_version :: LicenseStatus where
  "unusable_version =
     license_failure LicCat_Verification Lic_UnusableVersion ''the license does not permit this version''"

definition checkAlpha :: "LicenceAdmin \<Rightarrow> u64 \<Rightarrow> LicenseStatus" where
  "checkAlpha A version_in =
     (if la_type A = eType_Free then unusable_license
      else
        let admin_version = ucast (la_masor A) * 10000000000000 in
        if admin_version < version_in then unusable_version else success_status)"

definition checkBeta :: "LicenceAdmin \<Rightarrow> u64 \<Rightarrow> LicenseStatus" where
  "checkBeta A version_in =
     (if la_type A = eType_Free then unusable_license
      else
        let admin_version = ucast (la_masor A) * 10000000000000 + ucast (la_minor A) * 100000000 in
        if admin_version < version_in then unusable_version else success_status)"

definition checkStable :: "LicenceAdmin \<Rightarrow> u64 \<Rightarrow> LicenseStatus" where
  "checkStable A version_in =
     (if la_type A = eType_Free then unusable_license
      else if la_version A = eVer_Admin then success_status
      else if version_num A < version_in then unusable_version
      else success_status)"

definition checkAdmin :: "LicenceAdmin \<Rightarrow> u64 \<Rightarrow> LicenseStatus" where
  "checkAdmin A version_in =
     (let stable = checkStable A version_in in
      if \<not> succeeded stable then stable
      else if la_version A \<noteq> eVer_Admin then unusable_version
      else success_status)"

text \<open>\<open>checkLicence\<close> as written: its \<open>Admin\<close> case calls \<open>checkStable\<close>.\<close>

definition checkLicence :: "LicenceAdmin \<Rightarrow> eVer \<Rightarrow> u64 \<Rightarrow> LicenseStatus" where
  "checkLicence A ver_in version_num_in =
     (if ver_in = eVer_Alpha then checkAlpha A version_num_in
      else if ver_in = eVer_Beta then checkBeta A version_num_in
      else if ver_in = eVer_Stable then checkStable A version_num_in
      else if ver_in = eVer_Admin then checkStable A version_num_in
      else success_status)"

definition isAlphaLicense :: "LicenceAdmin \<Rightarrow> bool" where
  "isAlphaLicense A \<longleftrightarrow> la_version A = eVer_Alpha"

definition isBetaLicense :: "LicenceAdmin \<Rightarrow> bool" where
  "isBetaLicense A \<longleftrightarrow> la_version A = eVer_Beta"

definition isStableLicense :: "LicenceAdmin \<Rightarrow> bool" where
  "isStableLicense A \<longleftrightarrow> la_version A = eVer_Stable"

definition isAdminLicense :: "LicenceAdmin \<Rightarrow> bool" where
  "isAdminLicense A \<longleftrightarrow> la_version A = eVer_Admin"

section \<open>The machine\<close>

text \<open>
  What a path shows to \<open>std::ifstream\<close>: nothing that opens, something that opens and has no size
  (\<open>tellg\<close> returns \<open>-1\<close>), something whose contents cannot be read, or its bytes.
\<close>

datatype file_view = Cannot_open | No_size | Cannot_read | Contents bytes

type_synonym file_system = "string \<Rightarrow> file_view"

text \<open>
  \<open>mc_stored\<close> is what a text-mode \<open>std::ofstream\<close> leaves in the file: the bytes themselves on
  POSIX, their expansion of the byte \<open>0x0A\<close> on Windows, less when the device is full.
\<close>

record machine =
  mc_files :: file_system
  mc_removable :: "string \<Rightarrow> bool"
  mc_writable :: "string \<Rightarrow> bool"
  mc_stored :: "bytes \<Rightarrow> bytes"
  mc_mac_address :: bytes
  mc_tm_year :: int
  mc_tm_mon :: int
  mc_tm_mday :: int

definition normalizePath :: "string \<Rightarrow> string" where
  "normalizePath path_in = map (\<lambda>c. if c = CHR 0x5C then CHR ''/'' else c) path_in"

definition license_fullpath :: "string \<Rightarrow> string \<Rightarrow> string" where
  "license_fullpath path_in name_in = (if path_in = [] then name_in else path_in @ ''/'' @ name_in)"

definition current_time :: "machine \<Rightarrow> u16 \<times> u8 \<times> u8" where
  "current_time M =
     (word_of_int (mc_tm_year M + 1900), word_of_int (mc_tm_mon M + 1), word_of_int (mc_tm_mday M))"

text \<open>\<open>loadLicence\<close>: a file that is missing or unreadable is an empty licence.\<close>

definition loadLicence :: "machine \<Rightarrow> string \<Rightarrow> string \<Rightarrow> bytes call" where
  "loadLicence M path_in name_in =
     (case mc_files M (normalizePath (license_fullpath path_in name_in)) of
        Cannot_open \<Rightarrow> call_value []
      | No_size \<Rightarrow> call_throw Length_error
      | Cannot_read \<Rightarrow> call_value []
      | Contents buffer \<Rightarrow> call_value buffer)"

section \<open>Loading a licence\<close>

definition be16 :: "u8 \<Rightarrow> u8 \<Rightarrow> u16" where
  "be16 hi lo = and (push_bit 8 (ucast hi)) 0xFF00 + and (ucast lo) 0x00FF"

definition be32 :: "u8 \<Rightarrow> u8 \<Rightarrow> u8 \<Rightarrow> u8 \<Rightarrow> u32" where
  "be32 b3 b2 b1 b0 =
     and (push_bit 24 (ucast b3)) 0xFF000000 + and (push_bit 16 (ucast b2)) 0x00FF0000
     + and (push_bit 8 (ucast b1)) 0x0000FF00 + and (ucast b0) 0x000000FF"

text \<open>
  The products and sums of a date number are computed in \<open>int\<close> and \<open>uint64_t\<close>; a 16-bit year and
  8-bit months and days keep them below \<open>2 ^ 31\<close>.
\<close>

definition date_number :: "u16 \<Rightarrow> u8 \<Rightarrow> u8 \<Rightarrow> nat" where
  "date_number year month date = unat year * 10000 + unat month * 100 + unat date"

definition license_expired :: LicenseStatus where
  "license_expired =
     license_failure LicCat_Verification Lic_LicenseExpired ''the license is outside its validity period''"

definition unlicensed_device :: "string \<Rightarrow> LicenseStatus" where
  "unlicensed_device message = license_failure LicCat_Verification Lic_UnlicensedDevice message"

text \<open>The validity period of an \<open>ExpirationDate\<close> licence, bytes 10 to 17.\<close>

definition analyze_period :: "machine \<Rightarrow> licence_fields \<Rightarrow> bytes \<Rightarrow> (licence_fields \<times> LicenseStatus) call" where
  "analyze_period M f xs =
     call_bind (call_at xs 10) (\<lambda>ly1. call_bind (call_at xs 11) (\<lambda>ly0.
     call_bind (call_at xs 12) (\<lambda>limit_month. call_bind (call_at xs 13) (\<lambda>limit_date.
     call_bind (call_at xs 14) (\<lambda>sy1. call_bind (call_at xs 15) (\<lambda>sy0.
     call_bind (call_at xs 16) (\<lambda>start_month. call_bind (call_at xs 17) (\<lambda>start_date.
     let (current_year, current_month, current_date) = current_time M;
         limit = date_number (be16 ly1 ly0) limit_month limit_date;
         play = date_number (be16 sy1 sy0) start_month start_date;
         current = date_number current_year current_month current_date
     in if current < play \<or> limit < current
        then call_value (f\<lparr>lf_type := eType_Free\<rparr>, license_expired)
        else call_value (f, success_status)))))))))"

text \<open>The device of a \<open>DeviceDependent\<close> licence, the bytes from 18 on.\<close>

definition analyze_device :: "machine \<Rightarrow> licence_fields \<Rightarrow> bytes \<Rightarrow> licence_fields \<times> LicenseStatus" where
  "analyze_device M f xs =
     (if mc_mac_address M = []
      then (free_fields, unlicensed_device ''the device identity cannot be determined'')
      else
        let license_mac_addr = drop 18 xs in
        if license_mac_addr \<noteq> mc_mac_address M
        then (free_fields, unlicensed_device ''the license does not permit this device'')
        else (f, success_status))"

text \<open>\<open>analyzeLicence\<close>: the ten bytes of the header, the log lines that name the kinds, the check.\<close>

definition analyzeLicence :: "machine \<Rightarrow> bytes \<Rightarrow> (licence_fields \<times> LicenseStatus) call" where
  "analyzeLicence M xs =
     (if xs = [] then call_value (free_fields, success_status)
      else
        call_bind (call_at xs 0) (\<lambda>type. call_bind (call_at xs 1) (\<lambda>ver.
        call_bind (call_at xs 2) (\<lambda>ma1. call_bind (call_at xs 3) (\<lambda>ma0.
        call_bind (call_at xs 4) (\<lambda>mi1. call_bind (call_at xs 5) (\<lambda>mi0.
        call_bind (call_at xs 6) (\<lambda>p3. call_bind (call_at xs 7) (\<lambda>p2.
        call_bind (call_at xs 8) (\<lambda>p1. call_bind (call_at xs 9) (\<lambda>p0.
        call_bind (type_toString type) (\<lambda>_.
        call_bind (ver_toString ver) (\<lambda>_.
        let f = \<lparr>lf_type = type, lf_ver = ver, lf_masor = be16 ma1 ma0, lf_minor = be16 mi1 mi0,
                 lf_patch = be32 p3 p2 p1 p0\<rparr>
        in if type = eType_ExpirationDate then analyze_period M f xs
           else if type = eType_DeviceDependent then call_value (analyze_device M f xs)
           else call_value (f, success_status))))))))))))))"

text \<open>\<open>License::load\<close> with the loaded licence before and after it.\<close>

definition License_load ::
  "machine \<Rightarrow> LicenceAdmin \<Rightarrow> bytes \<Rightarrow> string \<Rightarrow> string \<Rightarrow> (LicenseStatus \<times> LicenceAdmin) call" where
  "License_load M A key_in path_in name_in =
     call_bind (loadLicence M path_in name_in) (\<lambda>binary.
     call_bind (decodeLicense binary key_in) (\<lambda>decoded_license.
     call_bind (analyzeLicence M decoded_license) (\<lambda>(f, analyzed).
     if \<not> succeeded analyzed then call_value (analyzed, A)
     else
       call_bind (type_toString (lf_type f)) (\<lambda>_.
       call_bind (ver_toString (lf_ver f)) (\<lambda>_.
       call_bind (admin_set A f) (\<lambda>A'. call_value (success_status, A')))))))"

section \<open>Writing a licence\<close>

text \<open>
  \<open>writeLicence\<close> and the end of \<open>Licensekey::genrate\<close>: an existing file is removed, the new one is
  created in text mode, and what became of the write is not looked at.
\<close>

definition replace_file :: "machine \<Rightarrow> string \<Rightarrow> bytes \<Rightarrow> string \<Rightarrow> LicenseStatus \<times> machine" where
  "replace_file M normalized_path content message =
     (let M1 = (if mc_files M normalized_path \<noteq> Cannot_open \<and> mc_removable M normalized_path
                then M\<lparr>mc_files := (mc_files M)(normalized_path := Cannot_open)\<rparr> else M)
      in if \<not> mc_writable M1 normalized_path
         then (license_failure LicCat_Io Lic_FileOpenFailed message, M1)
         else (success_status,
               M1\<lparr>mc_files := (mc_files M1)(normalized_path := Contents (mc_stored M1 content))\<rparr>))"

definition writeLicence :: "machine \<Rightarrow> string \<Rightarrow> string \<Rightarrow> bytes \<Rightarrow> LicenseStatus \<times> machine" where
  "writeLicence M path_in name_in licence_data_in =
     replace_file M (normalizePath (license_fullpath path_in name_in)) licence_data_in
       ''the license file cannot be opened''"

text \<open>\<open>LicenseWriter::sConfig\<close>; its two enumerations are bytes as well.\<close>

record sConfig =
  sc_type :: u8
  sc_version :: u8
  sc_masor :: u16
  sc_minor :: u16
  sc_patch :: u32
  sc_limit_year :: u16
  sc_limit_month :: u8
  sc_limit_date :: u8
  sc_start_year :: u16
  sc_start_month :: u8
  sc_start_date :: u8
  sc_path :: string
  sc_name :: string

definition type_toLicenseAdmin :: "u8 \<Rightarrow> eType call" where
  "type_toLicenseAdmin t =
     (if t = 0 then call_value eType_Free
      else if t = 1 then call_value eType_ExpirationDate
      else if t = 2 then call_value eType_DeviceDependent
      else call_throw Invalid_argument)"

definition version_toLicenseAdmin :: "u8 \<Rightarrow> eVer call" where
  "version_toLicenseAdmin v =
     (if v = 0 then call_value eVer_Alpha
      else if v = 1 then call_value eVer_Beta
      else if v = 2 then call_value eVer_Stable
      else if v = 3 then call_value eVer_Admin
      else call_throw Invalid_argument)"

definition bytes16 :: "u16 \<Rightarrow> bytes" where
  "bytes16 x = [ucast (and (drop_bit 8 x) 0xFF), ucast (and x 0xFF)]"

definition bytes32 :: "u32 \<Rightarrow> bytes" where
  "bytes32 x =
     [ucast (and (drop_bit 24 x) 0xFF), ucast (and (drop_bit 16 x) 0xFF),
      ucast (and (drop_bit 8 x) 0xFF), ucast (and x 0xFF)]"

definition createLicense :: "eType \<Rightarrow> eVer \<Rightarrow> sConfig \<Rightarrow> bytes \<Rightarrow> bytes" where
  "createLicense type_in ver_in c mac_address_in =
     [type_in, ver_in] @ bytes16 (sc_masor c) @ bytes16 (sc_minor c) @ bytes32 (sc_patch c)
     @ bytes16 (sc_limit_year c) @ [sc_limit_month c, sc_limit_date c]
     @ bytes16 (sc_start_year c) @ [sc_start_month c, sc_start_date c]
     @ mac_address_in"

definition LicenseWriter_save :: "machine \<Rightarrow> bytes \<Rightarrow> sConfig \<Rightarrow> (LicenseStatus \<times> machine) call" where
  "LicenseWriter_save M key_in config_in =
     call_bind (type_toLicenseAdmin (sc_type config_in)) (\<lambda>license_type.
     call_bind (version_toLicenseAdmin (sc_version config_in)) (\<lambda>license_version.
     call_bind (encryptLicense
       (createLicense license_type license_version config_in (mc_mac_address M)) key_in)
       (\<lambda>encrypted_data.
          call_value (writeLicence M (sc_path config_in) (sc_name config_in) encrypted_data))))"

section \<open>The key\<close>

text \<open>\<open>Licensekey::genrate\<close>; the six draws of \<open>std::rand\<close> are an argument.\<close>

definition Licensekey_genrate :: "machine \<Rightarrow> nat list \<Rightarrow> string \<Rightarrow> string \<Rightarrow> LicenseStatus \<times> machine" where
  "Licensekey_genrate M draws path_in name_in =
     (let keydata = map2 (\<lambda>r n. word_of_nat (r mod n)) draws [225, 185, 128, 55, 111, 255]
      in replace_file M (normalizePath (license_fullpath path_in name_in)) keydata
           ''the license key file cannot be opened'')"

definition Licensekey_load :: "machine \<Rightarrow> string \<Rightarrow> string \<Rightarrow> (bytes, LicenseError) Result call" where
  "Licensekey_load M path_in name_in =
     (case mc_files M (normalizePath (license_fullpath path_in name_in)) of
        Cannot_open \<Rightarrow>
          call_value (license_failure LicCat_Io Lic_FileOpenFailed ''the license key file cannot be opened'')
      | No_size \<Rightarrow> call_throw Length_error
      | Cannot_read \<Rightarrow>
          call_value (license_failure LicCat_Io Lic_ReadFailed ''the license key file cannot be read'')
      | Contents buffer \<Rightarrow> call_value (Success buffer))"

end
