(* ===== verification/LicenseCorrect.thy ===== *)
theory LicenseCorrect
  imports License
begin

text \<open>
  The properties of the licence: what a feature check answers, what loading a written licence gives
  on every machine and date, and that a paid kind is only ever held after a licence that says so
  passed its checks.
\<close>

section \<open>The cipher\<close>

lemma cipher_loop_returns:
  assumes "i < length key"
  shows "\<exists>es. cipher_loop key i ds = call_value es \<and> length es = length ds"
  using assms
proof (induction ds arbitrary: i)
  case Nil
  then show ?case by simp
next
  case (Cons d ds)
  let ?i = "if i + 1 = length key then 0 else i + 1"
  have "?i < length key" using Cons.prems by auto
  from Cons.IH [OF this] obtain es where "cipher_loop key ?i ds = call_value es" "length es = length ds"
    by blast
  with Cons.prems show ?case by (auto simp: Let_def)
qed

lemma cipher_loop_involutive:
  "cipher_loop key i ds = call_value es \<Longrightarrow> cipher_loop key i es = call_value ds"
proof (induction ds arbitrary: i es)
  case Nil
  then show ?case by simp
next
  case (Cons d ds)
  then show ?case
    by (auto simp: call_bind_value_iff Let_def xor.assoc split: if_splits)
qed

lemma cipher_roundtrip:
  assumes "key \<noteq> []"
  obtains es where "encryptLicense ds key = call_value es" "decodeLicense es key = call_value ds"
    and "length es = length ds"
proof -
  have "0 < length key" using assms by simp
  from cipher_loop_returns [OF this] obtain es where "cipher_loop key 0 ds = call_value es" "length es = length ds"
    by blast
  with cipher_loop_involutive [OF this(1)] that show ?thesis
    by (simp add: encryptLicense_def decodeLicense_def)
qed

section \<open>The bytes of a header\<close>

lemma byte_masks:
  "(0xFF :: 16 word) = mask 8" "(0xFF00 :: 16 word) = push_bit 8 (mask 8)"
  "(0xFF :: 32 word) = mask 8" "(0xFF00 :: 32 word) = push_bit 8 (mask 8)"
  "(0xFF0000 :: 32 word) = push_bit 16 (mask 8)" "(0xFF000000 :: 32 word) = push_bit 24 (mask 8)"
  by (simp_all add: mask_eq_exp_minus_1)

lemma be16_bytes: "be16 (ucast (and (drop_bit 8 x) 0xFF)) (ucast (and x 0xFF)) = x"
  unfolding be16_def byte_masks
  by (subst disjunctive_add) (auto simp: bit_simps intro!: bit_word_eqI)

lemma byte_shift_mask:
  "and (push_bit k (ucast (b :: u8)) :: u32) (push_bit k (mask 8)) = push_bit k (ucast b)"
  by (rule bit_word_eqI) (auto simp: bit_simps dest: bit_imp_le_length)

lemma byte_mask: "and (ucast (b :: u8) :: u32) (mask 8) = ucast b"
  by (rule bit_word_eqI) (auto simp: bit_simps dest: bit_imp_le_length)

lemma be32_or:
  "be32 b3 b2 b1 b0 =
     or (or (or (push_bit 24 (ucast b3)) (push_bit 16 (ucast b2))) (push_bit 8 (ucast b1))) (ucast b0)"
proof -
  let ?a = "push_bit 24 (ucast b3) :: u32"
  let ?b = "push_bit 16 (ucast b2) :: u32"
  let ?c = "push_bit 8 (ucast b1) :: u32"
  let ?d = "ucast b0 :: u32"
  have "?a + ?b = or ?a ?b"
    by (rule disjunctive_add) (auto simp: bit_simps dest: bit_imp_le_length)
  moreover have "or ?a ?b + ?c = or (or ?a ?b) ?c"
    by (rule disjunctive_add) (auto simp: bit_simps dest: bit_imp_le_length)
  moreover have "or (or ?a ?b) ?c + ?d = or (or (or ?a ?b) ?c) ?d"
    by (rule disjunctive_add) (auto simp: bit_simps dest: bit_imp_le_length)
  ultimately show ?thesis
    unfolding be32_def byte_masks byte_shift_mask byte_mask by metis
qed

lemma be32_bytes:
  "be32 (ucast (and (drop_bit 24 x) 0xFF)) (ucast (and (drop_bit 16 x) 0xFF))
     (ucast (and (drop_bit 8 x) 0xFF)) (ucast (and x 0xFF)) = x"
  unfolding be32_or byte_masks
proof (rule bit_word_eqI)
  fix n :: nat
  assume "n < LENGTH(32)"
  then consider "n < 8" | "8 \<le> n" "n < 16" | "16 \<le> n" "n < 24" | "24 \<le> n" "n < 32" by fastforce
  then show "bit (or (or (or (push_bit 24 (ucast (ucast (and (drop_bit 24 x) (mask 8)) :: u8)))
      (push_bit 16 (ucast (ucast (and (drop_bit 16 x) (mask 8)) :: u8))))
      (push_bit 8 (ucast (ucast (and (drop_bit 8 x) (mask 8)) :: u8))))
      (ucast (ucast (and x (mask 8)) :: u8)) :: u32) n = bit x n"
    by cases (auto simp: bit_simps)
qed

section \<open>The feature checks\<close>

lemma unat_ucast_16_64: "unat (ucast (a :: u16) :: u64) = unat a"
  using unat_lt_size [of a] by (simp add: unat_ucast)

lemma unat_version_major [simp]:
  "unat (ucast (m :: u16) * 10000000000000 :: u64) = unat m * 10000000000000"
proof -
  have "unat m < 65536" using unat_lt_size [of m] by simp
  then show ?thesis by (simp add: unat_mult_bounded unat_ucast_16_64)
qed

lemma unat_version_beta [simp]:
  "unat (ucast (m :: u16) * 10000000000000 + ucast (n :: u16) * 100000000 :: u64) =
     unat m * 10000000000000 + unat n * 100000000"
proof -
  have "unat m < 65536" "unat n < 65536" using unat_lt_size [of m] unat_lt_size [of n] by simp_all
  then show ?thesis by (simp add: unat_word_ariths unat_ucast_16_64)
qed

lemma unat_version_num:
  "unat (version_num A) =
     unat (la_masor A) * 10000000000000 + unat (la_minor A) * 100000000 + unat (la_patch A)"
proof -
  have "unat (la_masor A) < 65536" "unat (la_minor A) < 65536" "unat (la_patch A) < 4294967296"
    using unat_lt_size [of "la_masor A"] unat_lt_size [of "la_minor A"] unat_lt_size [of "la_patch A"] by simp_all
  then show ?thesis by (simp add: version_num_def unat_word_ariths unat_ucast_16_64)
qed

text \<open>What a feature check grants, in mathematical integers.\<close>

definition licence_covers :: "LicenceAdmin \<Rightarrow> eVer \<Rightarrow> nat \<Rightarrow> bool" where
  "licence_covers A ver v \<longleftrightarrow>
     (let major = unat (la_masor A) * 10 ^ 13; minor = unat (la_minor A) * 10 ^ 8 in
      if ver = eVer_Alpha then v \<le> major
      else if ver = eVer_Beta then v \<le> major + minor
      else la_version A = eVer_Admin \<or> v \<le> major + minor + unat (la_patch A))"

text \<open>
  A feature check never wraps and answers exactly this: features of the four released classes
  are refused as unusable under a free licence; under a paid one an Alpha feature is compared with
  the licence's major number, a Beta feature with its major and minor numbers, a Stable feature
  with all three unless the licence is an Admin one, and an Admin feature exactly like a Stable
  one.  The stricter check for Admin features, which no caller reaches, grants them to paid Admin
  licences only, so the two differ on every paid licence that is not an Admin one and is new enough.
\<close>

theorem license_feature_gate:
  "checkLicence A ver v =
     (if ver \<notin> {eVer_Alpha, eVer_Beta, eVer_Stable, eVer_Admin} then success_status
      else if la_type A = eType_Free then unusable_license
      else if licence_covers A ver (unat v) then success_status
      else unusable_version)
   \<and> checkLicence A eVer_Admin v = checkLicence A eVer_Stable v
   \<and> (succeeded (checkAdmin A v) \<longleftrightarrow> la_type A \<noteq> eType_Free \<and> la_version A = eVer_Admin)"
proof -
  have "ver = eVer_Alpha \<or> ver = eVer_Beta \<or> ver = eVer_Stable \<or> ver = eVer_Admin
      \<or> ver \<notin> {eVer_Alpha, eVer_Beta, eVer_Stable, eVer_Admin}" by blast
  then have "checkLicence A ver v =
     (if ver \<notin> {eVer_Alpha, eVer_Beta, eVer_Stable, eVer_Admin} then success_status
      else if la_type A = eType_Free then unusable_license
      else if licence_covers A ver (unat v) then success_status
      else unusable_version)"
    by (elim disjE)
       (simp_all add: checkLicence_def checkAlpha_def checkBeta_def checkStable_def licence_covers_def
         Let_def word_less_nat_alt unat_version_num kind_defs not_less)
  then show ?thesis
    by (simp add: checkLicence_def checkAdmin_def checkStable_def kind_defs Let_def unusable_license_def
        unusable_version_def)
qed

section \<open>Analysing a licence\<close>

lemma toString_value_iff:
  "(\<exists>s. type_toString t = call_value s) \<longleftrightarrow> t \<in> {eType_Free, eType_ExpirationDate, eType_DeviceDependent}"
  "(\<exists>s. ver_toString v = call_value s) \<longleftrightarrow> v \<in> {eVer_Alpha, eVer_Beta, eVer_Stable, eVer_Admin}"
  by (auto simp: type_toString_def ver_toString_def)

text \<open>A licence vouches for a kind on a machine when its checks pass there.\<close>

definition licence_vouches :: "machine \<Rightarrow> bytes \<Rightarrow> licence_fields \<Rightarrow> bool" where
  "licence_vouches M xs f \<longleftrightarrow>
     10 \<le> length xs
     \<and> lf_type f = xs ! 0 \<and> lf_type f \<in> {eType_Free, eType_ExpirationDate, eType_DeviceDependent}
     \<and> lf_ver f = xs ! 1 \<and> lf_ver f \<in> {eVer_Alpha, eVer_Beta, eVer_Stable, eVer_Admin}
     \<and> lf_masor f = be16 (xs ! 2) (xs ! 3) \<and> lf_minor f = be16 (xs ! 4) (xs ! 5)
     \<and> lf_patch f = be32 (xs ! 6) (xs ! 7) (xs ! 8) (xs ! 9)
     \<and> (lf_type f = eType_ExpirationDate \<longrightarrow>
          18 \<le> length xs
          \<and> (case current_time M of (year, month, date) \<Rightarrow>
               date_number (be16 (xs ! 14) (xs ! 15)) (xs ! 16) (xs ! 17) \<le> date_number year month date
               \<and> date_number year month date
                   \<le> date_number (be16 (xs ! 10) (xs ! 11)) (xs ! 12) (xs ! 13)))
     \<and> (lf_type f = eType_DeviceDependent \<longrightarrow>
          mc_mac_address M \<noteq> [] \<and> drop 18 xs = mc_mac_address M)"

lemma analyze_period_success:
  "analyze_period M f xs = call_value (g, success_status) \<Longrightarrow>
     g = f \<and> 18 \<le> length xs
     \<and> (case current_time M of (year, month, date) \<Rightarrow>
          date_number (be16 (xs ! 14) (xs ! 15)) (xs ! 16) (xs ! 17) \<le> date_number year month date
          \<and> date_number year month date
              \<le> date_number (be16 (xs ! 10) (xs ! 11)) (xs ! 12) (xs ! 13))"
  by (auto simp: analyze_period_def call_bind_value_iff Let_def license_expired_def
      split: if_splits prod.splits)

lemma analyze_device_success:
  "analyze_device M f xs = (g, success_status) \<Longrightarrow>
     g = f \<and> mc_mac_address M \<noteq> [] \<and> drop 18 xs = mc_mac_address M"
  by (auto simp: analyze_device_def unlicensed_device_def Let_def split: if_splits)

definition header_fields :: "bytes \<Rightarrow> licence_fields" where
  "header_fields xs =
     \<lparr>lf_type = xs ! 0, lf_ver = xs ! 1, lf_masor = be16 (xs ! 2) (xs ! 3),
      lf_minor = be16 (xs ! 4) (xs ! 5), lf_patch = be32 (xs ! 6) (xs ! 7) (xs ! 8) (xs ! 9)\<rparr>"

lemma header_fields_simps [simp]:
  "lf_type (header_fields xs) = xs ! 0" "lf_ver (header_fields xs) = xs ! 1"
  "lf_masor (header_fields xs) = be16 (xs ! 2) (xs ! 3)"
  "lf_minor (header_fields xs) = be16 (xs ! 4) (xs ! 5)"
  "lf_patch (header_fields xs) = be32 (xs ! 6) (xs ! 7) (xs ! 8) (xs ! 9)"
  by (simp_all add: header_fields_def)

lemma analyzeLicence_header:
  assumes "10 \<le> length xs" and "type_toString (xs ! 0) = call_value t" and "ver_toString (xs ! 1) = call_value v"
  shows "analyzeLicence M xs =
     (if xs ! 0 = eType_ExpirationDate then analyze_period M (header_fields xs) xs
      else if xs ! 0 = eType_DeviceDependent then call_value (analyze_device M (header_fields xs) xs)
      else call_value (header_fields xs, success_status))"
proof -
  have "xs \<noteq> []" using assms(1) by auto
  with assms show ?thesis
    by (simp add: analyzeLicence_def header_fields_def Let_def cong: if_cong)
qed

lemma analyzeLicence_success:
  assumes "analyzeLicence M xs = call_value (f, success_status)" and "xs \<noteq> []"
  shows "f = header_fields xs \<and> licence_vouches M xs f"
proof -
  obtain t v where tv: "type_toString (xs ! 0) = call_value t" "ver_toString (xs ! 1) = call_value v"
    and len: "10 \<le> length xs"
    using assms by (auto simp: analyzeLicence_def call_bind_value_iff)
  then have kinds: "xs ! 0 \<in> {eType_Free, eType_ExpirationDate, eType_DeviceDependent}"
    "xs ! 1 \<in> {eVer_Alpha, eVer_Beta, eVer_Stable, eVer_Admin}"
    using toString_value_iff by metis+
  then show ?thesis
    using assms(1) len unfolding analyzeLicence_header [OF len tv]
    by (auto simp: licence_vouches_def kind_defs split: if_splits
        dest!: analyze_period_success analyze_device_success)
qed

section \<open>Loading\<close>

lemma admin_set_value_iff:
  "admin_set A f = call_value A' \<longleftrightarrow>
     \<not> la_is_already A
     \<and> A' = \<lparr>la_type = lf_type f, la_version = lf_ver f, la_masor = lf_masor f, la_minor = lf_minor f,
             la_patch = lf_patch f, la_is_already = True\<rparr>"
  by (auto simp: admin_set_def)

lemma decode_Nil_iff: "decodeLicense bs key = call_value [] \<longleftrightarrow> bs = []"
  by (cases bs) (auto simp: decodeLicense_def call_bind_value_iff Let_def)

definition vouched_by :: "machine \<Rightarrow> bytes \<Rightarrow> string \<Rightarrow> LicenceAdmin \<Rightarrow> bool" where
  "vouched_by M key path A \<longleftrightarrow>
     (\<exists>binary xs. mc_files M path = Contents binary
        \<and> decodeLicense binary key = call_value xs
        \<and> licence_vouches M xs
            \<lparr>lf_type = la_type A, lf_ver = la_version A, lf_masor = la_masor A, lf_minor = la_minor A,
             lf_patch = la_patch A\<rparr>)"

lemma licence_fields_eta [simp]:
  "\<lparr>lf_type = lf_type f, lf_ver = lf_ver f, lf_masor = lf_masor f, lf_minor = lf_minor f,
    lf_patch = lf_patch f\<rparr> = f"
  by (cases f) simp

lemma License_load_result:
  assumes "License_load M A key path name = call_value (s, A')"
  shows "A' = A \<and> \<not> succeeded s
    \<or> succeeded s \<and> \<not> la_is_already A \<and> la_is_already A'
      \<and> (la_type A' = eType_Free \<or> vouched_by M key (normalizePath (license_fullpath path name)) A')"
proof -
  obtain binary xs f r where load: "loadLicence M path name = call_value binary"
    and decode: "decodeLicense binary key = call_value xs"
    and analyze: "analyzeLicence M xs = call_value (f, r)"
    and rest: "(if \<not> succeeded r then call_value (r, A)
       else call_bind (type_toString (lf_type f)) (\<lambda>_. call_bind (ver_toString (lf_ver f)) (\<lambda>_.
         call_bind (admin_set A f) (\<lambda>A'. call_value (success_status, A'))))) = call_value (s, A')"
    using assms by (auto simp: License_load_def call_bind_value_iff)
  show ?thesis
  proof (cases "succeeded r")
    case False
    with rest show ?thesis by simp
  next
    case True
    then have r: "r = success_status" by (simp add: succeeded_iff)
    from rest True have set: "admin_set A f = call_value A'" and s: "s = success_status"
      by (auto simp: call_bind_value_iff)
    show ?thesis
    proof (cases "xs = []")
      case True
      with analyze have "f = free_fields" by (simp add: analyzeLicence_def)
      with set s show ?thesis by (auto simp: admin_set_value_iff free_fields_def)
    next
      case False
      with analyze r have vouch: "licence_vouches M xs f" using analyzeLicence_success by blast
      from False decode have "binary \<noteq> []" by (auto simp: decodeLicense_def)
      with load have "mc_files M (normalizePath (license_fullpath path name)) = Contents binary"
        by (auto simp: loadLicence_def split: file_view.splits)
      with decode vouch set s show ?thesis
        by (auto simp: vouched_by_def admin_set_value_iff)
    qed
  qed
qed

text \<open>A program's calls of \<open>License::load\<close>, in order; a call that throws leaves the licence as it was.\<close>

record load_call =
  lo_machine :: machine
  lo_key :: bytes
  lo_path :: string
  lo_name :: string

fun run_loads :: "LicenceAdmin \<Rightarrow> load_call list \<Rightarrow> LicenceAdmin outcome" where
  "run_loads A [] = Done A"
| "run_loads A (c # cs) =
     (case License_load (lo_machine c) A (lo_key c) (lo_path c) (lo_name c) of
        Done (Inr (s, A')) \<Rightarrow> run_loads A' cs
      | Done (Inl e) \<Rightarrow> run_loads A cs
      | Undefined \<Rightarrow> Undefined
      | Pending \<Rightarrow> Pending)"

definition call_vouches :: "load_call \<Rightarrow> LicenceAdmin \<Rightarrow> bool" where
  "call_vouches c A \<longleftrightarrow>
     vouched_by (lo_machine c) (lo_key c) (normalizePath (license_fullpath (lo_path c) (lo_name c))) A"

lemma run_loads_cases:
  assumes "run_loads A (c # cs) = Done B"
  obtains A' where "run_loads A' cs = Done B"
    and "A' = A \<or> \<not> la_is_already A \<and> la_is_already A' \<and> (la_type A' = eType_Free \<or> call_vouches c A')"
proof -
  consider e where "License_load (lo_machine c) A (lo_key c) (lo_path c) (lo_name c) = Done (Inl e)"
    | s A' where "License_load (lo_machine c) A (lo_key c) (lo_path c) (lo_name c) = Done (Inr (s, A'))"
    using assms by (auto split: outcome.splits sum.splits)
  then show thesis
  proof cases
    case 1
    with assms show thesis by (intro that [of A]) simp_all
  next
    case 2
    with assms License_load_result [OF 2] show thesis
      by (intro that [of A']) (auto simp: call_vouches_def)
  qed
qed

lemma run_loads_already: "la_is_already A \<Longrightarrow> run_loads A cs = Done B \<Longrightarrow> B = A"
  by (induction cs) (auto simp del: run_loads.simps(2) elim!: run_loads_cases)

lemma run_loads_vouched:
  assumes "run_loads A cs = Done B" and "\<not> la_is_already A"
  shows "B = A \<or> la_type B = eType_Free \<or> (\<exists>c\<in>set cs. call_vouches c B)"
  using assms
proof (induction cs)
  case Nil
  then show ?case by simp
next
  case (Cons c cs)
  from Cons.prems(1) show ?case
  proof (rule run_loads_cases)
    fix A'
    assume run: "run_loads A' cs = Done B"
      and A': "A' = A \<or> \<not> la_is_already A \<and> la_is_already A' \<and> (la_type A' = eType_Free \<or> call_vouches c A')"
    show ?case
    proof (cases "A' = A")
      case True
      with run Cons show ?thesis by auto
    next
      case False
      with A' run have "B = A'" by (blast intro: run_loads_already)
      with A' False show ?thesis by auto
    qed
  qed
qed

text \<open>
  C21. Whatever licences a program loads, in any order and on whatever machines, and whatever their
  files hold: a licence that has been loaded is never replaced, and a paid kind is only held if one
  of the loads read a licence file whose decoded bytes name that kind, class and version, both of
  them released ones, and which passed its check on the machine and at the date of that load: the
  date lies in the period of an expiring licence, and a device licence names this device.
\<close>

theorem license_paid_only_if_vouched:
  assumes "run_loads LicenceAdmin_init cs = Done A"
  shows "(la_type A \<noteq> eType_Free \<longrightarrow> (\<exists>c\<in>set cs. call_vouches c A))
    \<and> (la_is_already A \<longrightarrow> (\<forall>ds B. run_loads A ds = Done B \<longrightarrow> B = A))"
proof -
  have "la_type LicenceAdmin_init = eType_Free" "\<not> la_is_already LicenceAdmin_init"
    by (simp_all add: LicenceAdmin_init_def)
  with run_loads_vouched [OF assms] show ?thesis
    by (auto intro: run_loads_already)
qed

section \<open>Writing a licence and loading it\<close>

text \<open>What a written licence is worth on another machine.\<close>

definition license_verdict :: "sConfig \<Rightarrow> bytes \<Rightarrow> machine \<Rightarrow> LicenseStatus" where
  "license_verdict c mac_address N =
     (case current_time N of (year, month, date) \<Rightarrow>
      if sc_type c = eType_ExpirationDate
         \<and> (date_number year month date < date_number (sc_start_year c) (sc_start_month c) (sc_start_date c)
            \<or> date_number (sc_limit_year c) (sc_limit_month c) (sc_limit_date c) < date_number year month date)
      then license_expired
      else if sc_type c = eType_DeviceDependent \<and> mc_mac_address N = []
      then unlicensed_device ''the device identity cannot be determined''
      else if sc_type c = eType_DeviceDependent \<and> mac_address \<noteq> mc_mac_address N
      then unlicensed_device ''the license does not permit this device''
      else success_status)"

definition admin_of_config :: "sConfig \<Rightarrow> LicenceAdmin" where
  "admin_of_config c =
     \<lparr>la_type = sc_type c, la_version = sc_version c, la_masor = sc_masor c, la_minor = sc_minor c,
      la_patch = sc_patch c, la_is_already = True\<rparr>"

lemma createLicense_nth:
  fixes c mac defines "xs \<equiv> createLicense (sc_type c) (sc_version c) c mac"
  shows "length xs = 18 + length mac" "drop 18 xs = mac"
    "header_fields xs =
       \<lparr>lf_type = sc_type c, lf_ver = sc_version c, lf_masor = sc_masor c, lf_minor = sc_minor c,
        lf_patch = sc_patch c\<rparr>"
    "xs ! 0 = sc_type c" "xs ! 1 = sc_version c"
    "be16 (xs ! 10) (xs ! 11) = sc_limit_year c" "xs ! 12 = sc_limit_month c" "xs ! 13 = sc_limit_date c"
    "be16 (xs ! 14) (xs ! 15) = sc_start_year c" "xs ! 16 = sc_start_month c" "xs ! 17 = sc_start_date c"
  unfolding xs_def
  by (simp_all add: createLicense_def bytes16_def bytes32_def header_fields_def be16_bytes be32_bytes)

lemma replace_file_stored:
  "mc_writable M path \<Longrightarrow>
     \<exists>M'. replace_file M path bs message = (success_status, M') \<and> mc_files M' path = Contents (mc_stored M bs)"
  by (auto simp: replace_file_def Let_def)

lemma toString_value:
  "t \<in> {eType_Free, eType_ExpirationDate, eType_DeviceDependent} \<Longrightarrow> \<exists>s. type_toString t = call_value s"
  "v \<in> {eVer_Alpha, eVer_Beta, eVer_Stable, eVer_Admin} \<Longrightarrow> \<exists>s. ver_toString v = call_value s"
  by (auto simp: type_toString_def ver_toString_def)

lemma toLicenseAdmin_value:
  "t \<in> {eType_Free, eType_ExpirationDate, eType_DeviceDependent} \<Longrightarrow> type_toLicenseAdmin t = call_value t"
  "v \<in> {eVer_Alpha, eVer_Beta, eVer_Stable, eVer_Admin} \<Longrightarrow> version_toLicenseAdmin v = call_value v"
  by (auto simp: type_toLicenseAdmin_def version_toLicenseAdmin_def kind_defs)

lemma analyze_created:
  assumes "sc_type c \<in> {eType_Free, eType_ExpirationDate, eType_DeviceDependent}"
    and "sc_version c \<in> {eVer_Alpha, eVer_Beta, eVer_Stable, eVer_Admin}"
  obtains f where "analyzeLicence N (createLicense (sc_type c) (sc_version c) c mac) =
      call_value (f, license_verdict c mac N)"
    and "license_verdict c mac N = success_status \<longrightarrow>
      f = \<lparr>lf_type = sc_type c, lf_ver = sc_version c, lf_masor = sc_masor c, lf_minor = sc_minor c,
           lf_patch = sc_patch c\<rparr>"
proof -
  let ?xs = "createLicense (sc_type c) (sc_version c) c mac"
  note at = createLicense_nth [of c mac]
  obtain t v where "type_toString (?xs ! 0) = call_value t" "ver_toString (?xs ! 1) = call_value v"
    using toString_value assms at by metis
  moreover have "10 \<le> length ?xs" "18 \<le> length ?xs" by (simp_all add: at)
  ultimately have eq: "analyzeLicence N ?xs =
     (if sc_type c = eType_ExpirationDate then analyze_period N (header_fields ?xs) ?xs
      else if sc_type c = eType_DeviceDependent then call_value (analyze_device N (header_fields ?xs) ?xs)
      else call_value (header_fields ?xs, success_status))"
    using analyzeLicence_header at by metis
  show thesis
  proof (cases "sc_type c = eType_ExpirationDate")
    case True
    then show thesis
      using eq at \<open>18 \<le> length ?xs\<close>
      by (intro that [of "if license_verdict c mac N = success_status then header_fields ?xs
            else (header_fields ?xs)\<lparr>lf_type := eType_Free\<rparr>"])
         (auto simp: analyze_period_def license_verdict_def license_expired_def kind_defs Let_def
           split: prod.splits)
  next
    case False
    then show thesis
      using eq at
      by (intro that [of "if license_verdict c mac N = success_status then header_fields ?xs
            else free_fields"])
         (auto simp: analyze_device_def license_verdict_def unlicensed_device_def kind_defs Let_def
           split: prod.splits)
  qed
qed

text \<open>
  C20. Writing a licence and loading it.  With a key that is not empty, kinds inside the
  enumerations, a writable path and a file that keeps the bytes it was given, saving succeeds; and
  on every machine that sees the file, at every date, loading it with the same key and name gives
  exactly what the configuration promises: an expiring licence fails outside its period, first and
  last day included, a device licence fails on a machine whose address is unknown or differs from
  the writer's, and otherwise exactly the configured kind, class and version become the loaded
  licence; a program that has loaded one already gets the logic error.
\<close>

theorem license_write_load_exact:
  assumes "key \<noteq> []"
    and "sc_type c \<in> {eType_Free, eType_ExpirationDate, eType_DeviceDependent}"
    and "sc_version c \<in> {eVer_Alpha, eVer_Beta, eVer_Stable, eVer_Admin}"
    and "path = normalizePath (license_fullpath (sc_path c) (sc_name c))"
    and "mc_writable M path" and "\<And>bs. mc_stored M bs = bs"
  shows "\<exists>M'. LicenseWriter_save M key c = call_value (success_status, M')
    \<and> (\<forall>N A. mc_files N path = mc_files M' path \<longrightarrow>
         License_load N A key (sc_path c) (sc_name c) =
           (let s = license_verdict c (mc_mac_address M) N in
            if \<not> succeeded s then call_value (s, A)
            else if la_is_already A then call_throw Logic_error
            else call_value (success_status, admin_of_config c)))"
proof -
  let ?xs = "createLicense (sc_type c) (sc_version c) c (mc_mac_address M)"
  obtain es where es: "encryptLicense ?xs key = call_value es" "decodeLicense es key = call_value ?xs"
    using cipher_roundtrip [OF assms(1)] by blast
  obtain M' where M': "writeLicence M (sc_path c) (sc_name c) es = (success_status, M')"
    and stored: "mc_files M' path = Contents es"
    using replace_file_stored [OF assms(5)] assms(4,6) by (metis writeLicence_def)
  have "LicenseWriter_save M key c = call_value (success_status, M')"
    using assms(2,3) es M' by (simp add: LicenseWriter_save_def toLicenseAdmin_value)
  moreover have "License_load N A key (sc_path c) (sc_name c) =
      (let s = license_verdict c (mc_mac_address M) N in
       if \<not> succeeded s then call_value (s, A)
       else if la_is_already A then call_throw Logic_error
       else call_value (success_status, admin_of_config c))"
    if "mc_files N path = mc_files M' path" for N A
  proof -
    have "loadLicence N (sc_path c) (sc_name c) = call_value es"
      using that stored assms(4) by (simp add: loadLicence_def)
    moreover obtain t v where "type_toString (sc_type c) = call_value t"
      "ver_toString (sc_version c) = call_value v"
      using toString_value assms(2,3) by blast
    moreover obtain f where "analyzeLicence N ?xs = call_value (f, license_verdict c (mc_mac_address M) N)"
      and "license_verdict c (mc_mac_address M) N = success_status \<longrightarrow>
        f = \<lparr>lf_type = sc_type c, lf_ver = sc_version c, lf_masor = sc_masor c, lf_minor = sc_minor c,
             lf_patch = sc_patch c\<rparr>"
      by (rule analyze_created [OF assms(2,3), of N "mc_mac_address M"]) blast
    ultimately show ?thesis
      using es
      by (cases "license_verdict c (mc_mac_address M) N")
         (simp_all add: License_load_def admin_set_def admin_of_config_def Let_def)
  qed
  ultimately show ?thesis by blast
qed

section \<open>Concrete licences\<close>

definition sample_machine :: machine where
  "sample_machine =
     \<lparr>mc_files = (\<lambda>_. Cannot_open), mc_removable = (\<lambda>_. True), mc_writable = (\<lambda>_. True),
      mc_stored = (\<lambda>bs. bs), mc_mac_address = [0x30, 0x31], mc_tm_year = 126, mc_tm_mon = 5,
      mc_tm_mday = 30\<rparr>"

definition sample_license :: sConfig where
  "sample_license =
     \<lparr>sc_type = eType_ExpirationDate, sc_version = eVer_Beta, sc_masor = 2, sc_minor = 7, sc_patch = 70000,
      sc_limit_year = 2026, sc_limit_month = 6, sc_limit_date = 30,
      sc_start_year = 2025, sc_start_month = 12, sc_start_date = 31,
      sc_path = ''lic'', sc_name = ''a.lic''\<rparr>"

lemma sample_verdict:
  "license_verdict sample_license mac sample_machine = success_status"
  "license_verdict sample_license mac (sample_machine\<lparr>mc_tm_mon := 6, mc_tm_mday := 1\<rparr>) = license_expired"
  by (simp_all add: license_verdict_def sample_license_def sample_machine_def current_time_def
      date_number_def kind_defs)

theorem license_write_load_exact_witness:
  "\<exists>files. License_load (sample_machine\<lparr>mc_files := files\<rparr>) LicenceAdmin_init [0x5A, 0xC3] ''lic'' ''a.lic''
       = call_value (success_status, admin_of_config sample_license)
     \<and> License_load (sample_machine\<lparr>mc_tm_mon := 6, mc_tm_mday := 1, mc_files := files\<rparr>)
         LicenceAdmin_init [0x5A, 0xC3] ''lic'' ''a.lic'' = call_value (license_expired, LicenceAdmin_init)"
proof -
  have "\<exists>M'. LicenseWriter_save sample_machine [0x5A, 0xC3] sample_license = call_value (success_status, M')
    \<and> (\<forall>N A. mc_files N ''lic/a.lic'' = mc_files M' ''lic/a.lic'' \<longrightarrow>
         License_load N A [0x5A, 0xC3] (sc_path sample_license) (sc_name sample_license) =
           (let s = license_verdict sample_license (mc_mac_address sample_machine) N in
            if \<not> succeeded s then call_value (s, A)
            else if la_is_already A then call_throw Logic_error
            else call_value (success_status, admin_of_config sample_license)))"
    by (rule license_write_load_exact)
       (simp_all add: sample_license_def sample_machine_def normalizePath_def license_fullpath_def)
  then obtain M' :: machine where "\<forall>(N :: machine) A. mc_files N ''lic/a.lic'' = mc_files M' ''lic/a.lic'' \<longrightarrow>
         License_load N A [0x5A, 0xC3] (sc_path sample_license) (sc_name sample_license) =
           (let s = license_verdict sample_license (mc_mac_address sample_machine) N in
            if \<not> succeeded s then call_value (s, A)
            else if la_is_already A then call_throw Logic_error
            else call_value (success_status, admin_of_config sample_license))"
    by blast
  note load = this [rule_format]
  have files: "license_verdict sample_license mac (N\<lparr>mc_files := fs\<rparr>) = license_verdict sample_license mac N"
    for mac N fs by (cases N) (simp only: license_verdict_def current_time_def machine.simps)
  have names: "sc_path sample_license = ''lic''" "sc_name sample_license = ''a.lic''"
    by (simp_all add: sample_license_def)
  have fresh: "\<not> la_is_already LicenceAdmin_init" by (simp add: LicenceAdmin_init_def)
  show ?thesis
  proof (intro exI conjI)
    have "license_verdict sample_license (mc_mac_address sample_machine)
        (sample_machine\<lparr>mc_files := mc_files M'\<rparr>) = success_status"
      by (simp only: files sample_verdict)
    then show "License_load (sample_machine\<lparr>mc_files := mc_files M'\<rparr>) LicenceAdmin_init [0x5A, 0xC3] ''lic'' ''a.lic''
        = call_value (success_status, admin_of_config sample_license)"
      using load [of "sample_machine\<lparr>mc_files := mc_files M'\<rparr>"] fresh by (simp add: names)
    let ?late = "sample_machine\<lparr>mc_tm_mon := 6, mc_tm_mday := 1, mc_files := mc_files M'\<rparr>"
    have "license_verdict sample_license (mc_mac_address sample_machine) ?late = license_expired"
      by (simp only: files sample_verdict)
    then show "License_load ?late LicenceAdmin_init [0x5A, 0xC3] ''lic'' ''a.lic''
        = call_value (license_expired, LicenceAdmin_init)"
      using load [of ?late] by (simp add: names license_expired_def)
  qed
qed

text \<open>A device licence under a key of zeros.\<close>

lemma plain_cipher: "cipher_loop [0] 0 bs = call_value bs"
  by (induction bs) simp_all

theorem license_paid_only_if_vouched_witness:
  "\<exists>cs A. run_loads LicenceAdmin_init cs = Done A \<and> la_type A \<noteq> eType_Free
     \<and> (\<exists>c\<in>set cs. call_vouches c A)"
proof -
  let ?bs = "[2, 3, 0, 1, 0, 2, 0, 0, 0, 3, 0, 0, 0, 0, 0, 0, 0, 0, 0x30, 0x31] :: bytes"
  let ?c = "\<lparr>lo_machine = sample_machine\<lparr>mc_files := (\<lambda>_. Contents ?bs)\<rparr>, lo_key = [0], lo_path = [],
             lo_name = ''a.lic''\<rparr>"
  let ?A = "\<lparr>la_type = eType_DeviceDependent, la_version = eVer_Admin, la_masor = 1, la_minor = 2,
             la_patch = 3, la_is_already = True\<rparr>"
  let ?f = "\<lparr>lf_type = 2, lf_ver = 3, lf_masor = 1, lf_minor = 2, lf_patch = 3\<rparr>"
  have names: "type_toString 2 = call_value ''DeviceDependent''" "ver_toString 3 = call_value ''Admin''"
    by (simp_all add: type_toString_def ver_toString_def kind_defs)
  have header: "header_fields ?bs = ?f"
    by (simp add: header_fields_def be16_def be32_def)
  have "analyzeLicence (lo_machine ?c) ?bs = call_value (?f, success_status)"
    using analyzeLicence_header [of ?bs _ _ "lo_machine ?c"] names
    by (simp add: header kind_defs analyze_device_def sample_machine_def)
  then have "License_load (lo_machine ?c) LicenceAdmin_init [0] [] ''a.lic'' = call_value (success_status, ?A)"
    using names
    by (simp add: License_load_def loadLicence_def decodeLicense_def plain_cipher admin_set_def
        LicenceAdmin_init_def kind_defs)
  then have run: "run_loads LicenceAdmin_init [?c] = Done ?A" by simp
  have "la_type ?A \<noteq> eType_Free" by (simp add: kind_defs)
  with run license_paid_only_if_vouched [OF run] show ?thesis by blast
qed

end
