(* ===== verification/V4l2Device.thy ===== *)
theory V4l2Device
  imports Sockets CameraSession
begin

text \<open>
  The Video4Linux2 devices (\<open>platform/tmr/linux/camera/V4L2CameraBackend.cpp\<close>, first half): the
  kernel's calls as an argument, the retry of interrupted calls, the classification of \<open>errno\<close>, the
  pixel formats, and what is asked of a device that is not held open: its identity, its formats and
  its controls.

  Every call passes the state \<open>'w\<close> of the world on; a call that fails leaves its code in \<open>errno\<close>,
  which is read separately, as the code does.  Loops take fuel (\<open>Pending\<close>: not returned yet).  The
  values of the flags are those of the kernel's ABI; the control identifiers are a datatype.
  Allocation failures are modelled where the backend guards against them (its buffer table and the
  copy of a frame), not for messages and lists.
\<close>

section \<open>The kernel\<close>

datatype v4l2_cid =
    CID_EXPOSURE_ABSOLUTE | CID_EXPOSURE_AUTO | CID_GAIN | CID_FOCUS_ABSOLUTE | CID_FOCUS_AUTO
  | CID_BRIGHTNESS | CID_CONTRAST | CID_SATURATION | CID_WHITE_BALANCE_TEMPERATURE
  | CID_AUTO_WHITE_BALANCE | CID_ZOOM_ABSOLUTE | CID_IRIS_ABSOLUTE | CID_HUE | CID_HUE_AUTO
  | CID_SHARPNESS | CID_GAMMA | CID_BACKLIGHT_COMPENSATION | CID_PAN_ABSOLUTE | CID_TILT_ABSOLUTE
  | CID_ROTATE | CID_POWER_LINE_FREQUENCY

record v4l2_capability =
  vq_driver :: string
  vq_card :: string
  vq_bus_info :: string
  vq_capabilities :: u32
  vq_device_caps :: u32

record v4l2_pix =
  vx_width :: u32
  vx_height :: u32
  vx_pixelformat :: u32
  vx_bytesperline :: u32

record v4l2_buffer =
  vf_index :: u32
  vf_bytesused :: u32
  vf_flags :: u32
  vf_sequence :: u32
  vf_tv_sec :: int
  vf_tv_usec :: int

record v4l2_queryctrl =
  vk_name :: string
  vk_minimum :: int
  vk_maximum :: int
  vk_step :: int
  vk_default_value :: int
  vk_flags :: u32

datatype v4l2_framesize =
    Size_discrete u32 u32
  | Size_stepwise u32 u32 u32 u32 \<comment> \<open>stepwise or continuous: least width and height, greatest width and height\<close>
  | Size_other

datatype v4l2_interval = Interval_discrete u32 u32 | Interval_other

text \<open>
  The calls.  A descriptor is an \<open>int\<close>, negative when opening failed; a mapping is \<open>None\<close> for
  \<open>MAP_FAILED\<close>.  The \<open>ioctl\<close> requests are one function each and answer \<open>None\<close> when \<open>ioctl\<close> is
  negative.  \<open>vc_poll\<close> answers its result and the returned events; \<open>vc_memory\<close> reads a mapping.
\<close>

record 'w v4l2_api =
  vc_errno :: "'w \<Rightarrow> int"
  vc_now :: "'w \<Rightarrow> int \<times> 'w"
  vc_alloc :: "nat \<Rightarrow> 'w \<Rightarrow> bool \<times> 'w"
  vc_open :: "string \<Rightarrow> 'w \<Rightarrow> int \<times> 'w"
  vc_close :: "int \<Rightarrow> 'w \<Rightarrow> 'w"
  vc_map :: "u64 \<Rightarrow> int \<Rightarrow> u32 \<Rightarrow> 'w \<Rightarrow> nat option \<times> 'w"
  vc_unmap :: "nat \<Rightarrow> u64 \<Rightarrow> 'w \<Rightarrow> 'w"
  vc_memory :: "nat \<Rightarrow> nat \<Rightarrow> 'w \<Rightarrow> bytes \<times> 'w"
  vc_poll :: "int \<Rightarrow> int \<Rightarrow> 'w \<Rightarrow> (int \<times> u16) \<times> 'w"
  vc_querycap :: "int \<Rightarrow> 'w \<Rightarrow> v4l2_capability option \<times> 'w"
  vc_s_fmt :: "int \<Rightarrow> u32 \<Rightarrow> u32 \<Rightarrow> u32 \<Rightarrow> 'w \<Rightarrow> v4l2_pix option \<times> 'w"
  vc_s_parm :: "int \<Rightarrow> u32 \<Rightarrow> u32 \<Rightarrow> 'w \<Rightarrow> unit option \<times> 'w"
  vc_reqbufs :: "int \<Rightarrow> u32 \<Rightarrow> 'w \<Rightarrow> u32 option \<times> 'w"
  vc_querybuf :: "int \<Rightarrow> u32 \<Rightarrow> 'w \<Rightarrow> (u32 \<times> u32) option \<times> 'w"
  vc_qbuf :: "int \<Rightarrow> u32 \<Rightarrow> 'w \<Rightarrow> unit option \<times> 'w"
  vc_dqbuf :: "int \<Rightarrow> 'w \<Rightarrow> v4l2_buffer option \<times> 'w"
  vc_streamon :: "int \<Rightarrow> 'w \<Rightarrow> unit option \<times> 'w"
  vc_streamoff :: "int \<Rightarrow> 'w \<Rightarrow> unit option \<times> 'w"
  vc_queryctrl :: "int \<Rightarrow> v4l2_cid \<Rightarrow> 'w \<Rightarrow> v4l2_queryctrl option \<times> 'w"
  vc_g_ctrl :: "int \<Rightarrow> v4l2_cid \<Rightarrow> 'w \<Rightarrow> int option \<times> 'w"
  vc_s_ctrl :: "int \<Rightarrow> v4l2_cid \<Rightarrow> int \<Rightarrow> 'w \<Rightarrow> unit option \<times> 'w"
  vc_enum_fmt :: "int \<Rightarrow> u32 \<Rightarrow> 'w \<Rightarrow> u32 option \<times> 'w"
  vc_enum_framesizes :: "int \<Rightarrow> u32 \<Rightarrow> u32 \<Rightarrow> 'w \<Rightarrow> v4l2_framesize option \<times> 'w"
  vc_enum_frameintervals :: "int \<Rightarrow> u32 \<Rightarrow> u32 \<Rightarrow> u32 \<Rightarrow> u32 \<Rightarrow> 'w \<Rightarrow> v4l2_interval option \<times> 'w"
  vc_xu_get_len :: "int \<Rightarrow> u8 \<Rightarrow> u8 \<Rightarrow> 'w \<Rightarrow> (u8 \<times> u8) option \<times> 'w"
  vc_xu_get_cur :: "int \<Rightarrow> u8 \<Rightarrow> u8 \<Rightarrow> u16 \<Rightarrow> 'w \<Rightarrow> bytes option \<times> 'w"
  vc_xu_set_cur :: "int \<Rightarrow> u8 \<Rightarrow> u8 \<Rightarrow> bytes \<Rightarrow> 'w \<Rightarrow> unit option \<times> 'w"
  vc_canonical :: "string \<Rightarrow> 'w \<Rightarrow> string option \<times> 'w"
  vc_first_word :: "string \<Rightarrow> 'w \<Rightarrow> string option \<times> 'w"
  vc_first_line :: "string \<Rightarrow> 'w \<Rightarrow> string \<times> 'w"

text \<open>The values of the kernel's ABI.\<close>

definition errno_PERM :: int where "errno_PERM = 1"
definition errno_INTR :: int where "errno_INTR = 4"
definition errno_IO :: int where "errno_IO = 5"
definition errno_NXIO :: int where "errno_NXIO = 6"
definition errno_AGAIN :: int where "errno_AGAIN = 11"
definition errno_ACCES :: int where "errno_ACCES = 13"
definition errno_NODEV :: int where "errno_NODEV = 19"
definition errno_INVAL :: int where "errno_INVAL = 22"
definition errno_NOTTY :: int where "errno_NOTTY = 25"

lemmas errno_defs =
  errno_PERM_def errno_INTR_def errno_IO_def errno_NXIO_def errno_AGAIN_def errno_ACCES_def
  errno_NODEV_def errno_INVAL_def errno_NOTTY_def

definition v4l2_fourcc :: "char \<Rightarrow> char \<Rightarrow> char \<Rightarrow> char \<Rightarrow> u32" where
  "v4l2_fourcc a b c d =
     word_of_nat (of_char a + 256 * of_char b + 65536 * of_char c + 16777216 * of_char d)"

definition CAP_VIDEO_CAPTURE :: u32 where "CAP_VIDEO_CAPTURE = 0x00000001"
definition CAP_STREAMING :: u32 where "CAP_STREAMING = 0x04000000"
definition CAP_DEVICE_CAPS :: u32 where "CAP_DEVICE_CAPS = 0x80000000"
definition CTRL_FLAG_DISABLED :: u32 where "CTRL_FLAG_DISABLED = 0x0001"
definition CTRL_FLAG_READ_ONLY :: u32 where "CTRL_FLAG_READ_ONLY = 0x0004"
definition CTRL_FLAG_WRITE_ONLY :: u32 where "CTRL_FLAG_WRITE_ONLY = 0x0040"
definition BUF_FLAG_ERROR :: u32 where "BUF_FLAG_ERROR = 0x0040"
definition BUF_FLAG_TIMESTAMP_MONOTONIC :: u32 where "BUF_FLAG_TIMESTAMP_MONOTONIC = 0x2000"
definition EXPOSURE_MANUAL :: int where "EXPOSURE_MANUAL = 1"
definition EXPOSURE_APERTURE_PRIORITY :: int where "EXPOSURE_APERTURE_PRIORITY = 3"
definition poll_in :: u16 where "poll_in = 0x01"
definition poll_broken :: u16 where "poll_broken = 0x38" \<comment> \<open>\<open>POLLERR | POLLHUP | POLLNVAL\<close>\<close>

definition flagged :: "'a::len word \<Rightarrow> 'a word \<Rightarrow> bool" where
  "flagged flags flag \<longleftrightarrow> and flags flag \<noteq> 0"

section \<open>Interrupted calls and errors\<close>

definition read_errno :: "'w v4l2_api \<Rightarrow> ('w, int) io" where
  "read_errno A = io_call (\<lambda>w. (vc_errno A w, w))"

fun cameraIoctl :: "'w v4l2_api \<Rightarrow> nat \<Rightarrow> ('w \<Rightarrow> 'a option \<times> 'w) \<Rightarrow> ('w, 'a option) io" where
  "cameraIoctl A 0 request = io_pending"
| "cameraIoctl A (Suc fuel) request =
     io_bind (io_call request) (\<lambda>answer. case answer of
         Some v \<Rightarrow> io_return (Some v)
       | None \<Rightarrow> io_bind (read_errno A) (\<lambda>code.
           if code = errno_INTR then cameraIoctl A fuel request else io_return None))"

definition camera_error :: "eCameraErrorCategory \<Rightarrow> eCameraErrorCode \<Rightarrow> string \<Rightarrow> int \<Rightarrow> CameraError" where
  "camera_error category code message native =
     \<lparr>ce_category = category, ce_code = code, ce_message = message, ce_native_code = native\<rparr>"

definition errnoError :: "eCameraErrorCode \<Rightarrow> string \<Rightarrow> int \<Rightarrow> CameraError" where
  "errnoError code_in message_in error_in =
     (let disconnected = error_in = errno_NODEV \<or> error_in = errno_NXIO \<or> error_in = errno_IO in
      camera_error (if disconnected then CamCat_Device else CamCat_InputOutput)
        (if disconnected then Cam_DeviceDisconnected else code_in) message_in error_in)"

definition extensionUnitError :: "eCameraErrorCode \<Rightarrow> string \<Rightarrow> int \<Rightarrow> CameraError" where
  "extensionUnitError code_in message_in error_in =
     (if error_in = errno_ACCES \<or> error_in = errno_PERM
      then camera_error CamCat_Validation Cam_AccessDenied message_in error_in
      else if error_in = errno_INVAL \<or> error_in = errno_NOTTY
      then camera_error CamCat_Unsupported Cam_UnsupportedExtensionUnit message_in error_in
      else errnoError code_in message_in error_in)"

text \<open>A failure that takes its code from \<open>errno\<close> as it stands.\<close>

definition errno_failure :: "'w v4l2_api \<Rightarrow> eCameraErrorCode \<Rightarrow> string \<Rightarrow> ('w, CameraError) io" where
  "errno_failure A code_in message_in =
     io_bind (read_errno A) (\<lambda>code. io_return (errnoError code_in message_in code))"

lemma camera_error_not_ok [simp]:
  "ce_ok (camera_error category code message native) \<longleftrightarrow> category = CamCat_None \<and> code = Cam_None"
  by (simp add: ce_ok_def camera_error_def)

lemma errnoError_not_ok [simp]: "\<not> ce_ok (errnoError code message native)"
  by (simp add: errnoError_def Let_def)

lemma extensionUnitError_not_ok [simp]: "\<not> ce_ok (extensionUnitError code message native)"
  by (simp add: extensionUnitError_def)

section \<open>Pixel formats\<close>

definition PIX_FMT_GREY :: u32 where "PIX_FMT_GREY = v4l2_fourcc CHR ''G'' CHR ''R'' CHR ''E'' CHR ''Y''"
definition PIX_FMT_RGB24 :: u32 where "PIX_FMT_RGB24 = v4l2_fourcc CHR ''R'' CHR ''G'' CHR ''B'' CHR ''3''"
definition PIX_FMT_BGR24 :: u32 where "PIX_FMT_BGR24 = v4l2_fourcc CHR ''B'' CHR ''G'' CHR ''R'' CHR ''3''"
definition PIX_FMT_YUYV :: u32 where "PIX_FMT_YUYV = v4l2_fourcc CHR ''Y'' CHR ''U'' CHR ''Y'' CHR ''V''"
definition PIX_FMT_UYVY :: u32 where "PIX_FMT_UYVY = v4l2_fourcc CHR ''U'' CHR ''Y'' CHR ''V'' CHR ''Y''"
definition PIX_FMT_NV12 :: u32 where "PIX_FMT_NV12 = v4l2_fourcc CHR ''N'' CHR ''V'' CHR ''1'' CHR ''2''"
definition PIX_FMT_MJPEG :: u32 where "PIX_FMT_MJPEG = v4l2_fourcc CHR ''M'' CHR ''J'' CHR ''P'' CHR ''G''"

lemmas pix_fmt_defs =
  PIX_FMT_GREY_def PIX_FMT_RGB24_def PIX_FMT_BGR24_def PIX_FMT_YUYV_def PIX_FMT_UYVY_def
  PIX_FMT_NV12_def PIX_FMT_MJPEG_def v4l2_fourcc_def

definition fromV4L2Format :: "u32 \<Rightarrow> eCameraPixelFormat" where
  "fromV4L2Format f =
     (if f = PIX_FMT_GREY then Gray8
      else if f = PIX_FMT_RGB24 then Rgb8
      else if f = PIX_FMT_BGR24 then Bgr8
      else if f = PIX_FMT_YUYV then Yuyv422
      else if f = PIX_FMT_UYVY then Uyvy422
      else if f = PIX_FMT_NV12 then Nv12
      else if f = PIX_FMT_MJPEG then Mjpeg
      else Unknown)"

fun toV4L2Format :: "eCameraPixelFormat \<Rightarrow> u32" where
  "toV4L2Format Gray8 = PIX_FMT_GREY"
| "toV4L2Format Rgb8 = PIX_FMT_RGB24"
| "toV4L2Format Bgr8 = PIX_FMT_BGR24"
| "toV4L2Format Yuyv422 = PIX_FMT_YUYV"
| "toV4L2Format Uyvy422 = PIX_FMT_UYVY"
| "toV4L2Format Nv12 = PIX_FMT_NV12"
| "toV4L2Format Mjpeg = PIX_FMT_MJPEG"
| "toV4L2Format _ = 0"

lemma from_to_V4L2Format: "toV4L2Format f \<noteq> 0 \<Longrightarrow> fromV4L2Format (toV4L2Format f) = f"
  by (cases f) (simp_all add: fromV4L2Format_def pix_fmt_defs)

lemma to_from_V4L2Format: "fromV4L2Format c \<noteq> Unknown \<Longrightarrow> toV4L2Format (fromV4L2Format c) = c"
  by (auto simp: fromV4L2Format_def split: if_splits)

section \<open>The identity of a device\<close>

definition queryCaptureCapability :: "'w v4l2_api \<Rightarrow> nat \<Rightarrow> int \<Rightarrow> ('w, v4l2_capability option) io" where
  "queryCaptureCapability A fuel descriptor =
     io_bind (cameraIoctl A fuel (vc_querycap A descriptor)) (\<lambda>answer. case answer of
         None \<Rightarrow> io_return None
       | Some c \<Rightarrow>
           let capabilities = (if flagged (vq_capabilities c) CAP_DEVICE_CAPS then vq_device_caps c
                               else vq_capabilities c)
           in io_return (if flagged capabilities CAP_VIDEO_CAPTURE then Some c else None))"

text \<open>\<open>std::stoul\<close> with base 16 on a word without blanks: a sign, a prefix \<open>0x\<close>, the longest run of
  digits; \<open>None\<close> when there are none or the value does not fit \<open>unsigned long\<close>.  A negative value
  is reduced modulo \<open>2 ^ 64\<close>.\<close>

definition hex_digit :: "char \<Rightarrow> nat option" where
  "hex_digit c =
     (let n = of_char c :: nat in
      if 48 \<le> n \<and> n \<le> 57 then Some (n - 48)
      else if 97 \<le> n \<and> n \<le> 102 then Some (n - 87)
      else if 65 \<le> n \<and> n \<le> 70 then Some (n - 55)
      else None)"

fun hex_value :: "nat \<Rightarrow> string \<Rightarrow> nat" where
  "hex_value acc [] = acc"
| "hex_value acc (c # cs) = (case hex_digit c of None \<Rightarrow> acc | Some d \<Rightarrow> hex_value (16 * acc + d) cs)"

definition stoul16 :: "string \<Rightarrow> nat option" where
  "stoul16 text =
     (let negative = (text \<noteq> [] \<and> hd text = CHR ''-'');
          unsigned = (if text \<noteq> [] \<and> (hd text = CHR ''-'' \<or> hd text = CHR ''+'') then tl text else text);
          digits = (if 3 \<le> length unsigned \<and> unsigned ! 0 = CHR ''0''
                       \<and> (unsigned ! 1 = CHR ''x'' \<or> unsigned ! 1 = CHR ''X'')
                       \<and> hex_digit (unsigned ! 2) \<noteq> None
                    then drop 2 unsigned else unsigned)
      in if digits = [] \<or> hex_digit (hd digits) = None then None
         else let v = hex_value 0 digits in
           if 2 ^ 64 \<le> v then None else Some (if negative then (2 ^ 64 - v) mod 2 ^ 64 else v))"

definition readHexIdentity :: "'w v4l2_api \<Rightarrow> string \<Rightarrow> ('w, u16) io" where
  "readHexIdentity A path =
     io_bind (io_call (vc_first_word A path)) (\<lambda>text. io_return (case text of
         None \<Rightarrow> 0
       | Some s \<Rightarrow> (case stoul16 s of None \<Rightarrow> 0 | Some v \<Rightarrow> if v \<le> 0xFFFF then word_of_nat v else 0)))"

text \<open>\<open>std::filesystem::path\<close> on POSIX, for the absolute paths that \<open>weakly_canonical\<close> gives.\<close>

definition path_child :: "string \<Rightarrow> string \<Rightarrow> string" where
  "path_child p name = (if p = [] \<or> last p = CHR ''/'' then p @ name else p @ ''/'' @ name)"

definition parent_path :: "string \<Rightarrow> string" where
  "parent_path p =
     (let rest = rev (dropWhile (\<lambda>c. c \<noteq> CHR ''/'') (rev p)) in
      if rest = ''/'' then ''/'' else rev (dropWhile (\<lambda>c. c = CHR ''/'') (rev rest)))"

definition base_name :: "string \<Rightarrow> string" where
  "base_name p = rev (takeWhile (\<lambda>c. c \<noteq> CHR ''/'') (rev p))"

fun usb_identity_loop ::
    "'w v4l2_api \<Rightarrow> nat \<Rightarrow> string \<Rightarrow> sCameraDeviceInfo \<Rightarrow> ('w, sCameraDeviceInfo) io" where
  "usb_identity_loop A 0 current device = io_return device"
| "usb_identity_loop A (Suc depth) current device =
     (if current = [] then io_return device
      else io_bind (readHexIdentity A (path_child current ''idVendor'')) (\<lambda>vendor.
        io_bind (readHexIdentity A (path_child current ''idProduct'')) (\<lambda>product.
        if vendor \<noteq> 0 \<or> product \<noteq> 0
        then io_bind (io_call (vc_first_line A (path_child current ''serial''))) (\<lambda>serial.
          io_return (device\<lparr>di_usb := (di_usb device)\<lparr>usb_vendor_id := vendor, usb_product_id := product,
                              usb_serial_number := serial\<rparr>,
                            di_transport_type := UsbUvc\<rparr>))
        else if parent_path current = current then io_return device
        else usb_identity_loop A depth (parent_path current) device)))"

definition populateLinuxUsbIdentity ::
    "'w v4l2_api \<Rightarrow> string \<Rightarrow> sCameraDeviceInfo \<Rightarrow> ('w, sCameraDeviceInfo) io" where
  "populateLinuxUsbIdentity A device_path device =
     io_bind (io_call (vc_canonical A
       (path_child (path_child ''/sys/class/video4linux'' (base_name device_path)) ''device''))) (\<lambda>canonical.
     case canonical of None \<Rightarrow> io_return device
     | Some current \<Rightarrow> usb_identity_loop A 10 current device)"

definition contains :: "string \<Rightarrow> string \<Rightarrow> bool" where
  "contains needle text \<longleftrightarrow> list_ex (\<lambda>i. take (length needle) (drop i text) = needle) [0..<Suc (length text)]"

definition makeDeviceInfo :: "'w v4l2_api \<Rightarrow> string \<Rightarrow> v4l2_capability \<Rightarrow> ('w, sCameraDeviceInfo) io" where
  "makeDeviceInfo A path c =
     (let transport = (if vq_bus_info c = [] then ''v4l2'' else vq_bus_info c);
          driver = vq_driver c;
          kind = (if driver = ''uvcvideo'' \<or> contains ''usb'' transport then UsbUvc
                  else if contains ''bcm2835'' driver \<or> contains ''unicam'' driver
                    \<or> contains ''rp1-cfe'' driver \<or> contains ''pisp'' driver then Csi
                  else Transport_Unknown)
      in populateLinuxUsbIdentity A path
           \<lparr>di_backend = Video4Linux2, di_id = path, di_display_name = vq_card c, di_transport = transport,
            di_transport_type = kind,
            di_usb = \<lparr>usb_vendor_id = 0, usb_product_id = 0, usb_serial_number = [], usb_uvc_version_bcd = 0\<rparr>\<rparr>)"

section \<open>Enumeration\<close>

fun decimal :: "nat \<Rightarrow> string" where
  "decimal n = (if n < 10 then [char_of (48 + n)] else decimal (n div 10) @ [char_of (48 + n mod 10)])"

declare decimal.simps [simp del]

fun enumerate_loop :: "'w v4l2_api \<Rightarrow> nat \<Rightarrow> nat list \<Rightarrow> ('w, sCameraDeviceInfo list) io" where
  "enumerate_loop A fuel [] = io_return []"
| "enumerate_loop A fuel (index # indices) =
     (let path = ''/dev/video'' @ decimal index in
      io_bind (io_call (vc_open A path)) (\<lambda>descriptor.
      if descriptor < 0 then enumerate_loop A fuel indices
      else io_bind (queryCaptureCapability A fuel descriptor) (\<lambda>capability.
        io_bind (case capability of None \<Rightarrow> io_return []
          | Some c \<Rightarrow> io_bind (makeDeviceInfo A path c) (\<lambda>device. io_return [device])) (\<lambda>found.
        io_bind (io_do (vc_close A descriptor)) (\<lambda>u.
        io_bind (enumerate_loop A fuel indices) (\<lambda>rest. io_return (found @ rest)))))))"

definition enumerateV4L2Cameras :: "'w v4l2_api \<Rightarrow> nat \<Rightarrow> ('w, sCameraDeviceInfo list CameraResult) io" where
  "enumerateV4L2Cameras A fuel =
     io_bind (enumerate_loop A fuel [0..<64]) (\<lambda>devices. io_return (Success devices))"

section \<open>Formats\<close>

fun interval_loop ::
    "'w v4l2_api \<Rightarrow> nat \<Rightarrow> int \<Rightarrow> u32 \<Rightarrow> u32 \<Rightarrow> u32 \<Rightarrow> u32 \<Rightarrow> sCameraFormat list \<Rightarrow> ('w, sCameraFormat list) io" where
  "interval_loop A 0 descriptor pixel_format width height index formats = io_pending"
| "interval_loop A (Suc fuel) descriptor pixel_format width height index formats =
     io_bind (cameraIoctl A fuel (vc_enum_frameintervals A descriptor index pixel_format width height)) (\<lambda>answer.
     case answer of
       None \<Rightarrow> io_return formats
     | Some (Interval_discrete numerator denominator) \<Rightarrow>
         interval_loop A fuel descriptor pixel_format width height (index + 1)
           (if numerator = 0 \<or> denominator = 0 then formats
            else formats @ [\<lparr>cf_width = width, cf_height = height, cf_frame_rate_numerator = denominator,
                             cf_frame_rate_denominator = numerator,
                             cf_pixel_format = fromV4L2Format pixel_format\<rparr>])
     | Some Interval_other \<Rightarrow>
         interval_loop A fuel descriptor pixel_format width height (index + 1) formats)"

definition appendDiscreteIntervals ::
    "'w v4l2_api \<Rightarrow> nat \<Rightarrow> int \<Rightarrow> u32 \<Rightarrow> u32 \<Rightarrow> u32 \<Rightarrow> sCameraFormat list \<Rightarrow> ('w, sCameraFormat list) io" where
  "appendDiscreteIntervals A fuel descriptor pixel_format width height formats =
     io_bind (interval_loop A fuel descriptor pixel_format width height 0 []) (\<lambda>added.
     io_return (formats @ (if added = []
       then [\<lparr>cf_width = width, cf_height = height, cf_frame_rate_numerator = 30,
              cf_frame_rate_denominator = 1, cf_pixel_format = fromV4L2Format pixel_format\<rparr>]
       else added)))"

fun size_loop ::
    "'w v4l2_api \<Rightarrow> nat \<Rightarrow> int \<Rightarrow> u32 \<Rightarrow> u32 \<Rightarrow> sCameraFormat list \<Rightarrow> ('w, sCameraFormat list) io" where
  "size_loop A 0 descriptor pixel_format index formats = io_pending"
| "size_loop A (Suc fuel) descriptor pixel_format index formats =
     io_bind (cameraIoctl A fuel (vc_enum_framesizes A descriptor index pixel_format)) (\<lambda>answer.
     case answer of
       None \<Rightarrow> io_return formats
     | Some frame_size \<Rightarrow>
         io_bind (case frame_size of
             Size_discrete width height \<Rightarrow>
               appendDiscreteIntervals A fuel descriptor pixel_format width height formats
           | Size_stepwise min_width min_height max_width max_height \<Rightarrow>
               io_bind (appendDiscreteIntervals A fuel descriptor pixel_format min_width min_height formats) (\<lambda>fs.
               if max_width \<noteq> min_width \<or> max_height \<noteq> min_height
               then appendDiscreteIntervals A fuel descriptor pixel_format max_width max_height fs
               else io_return fs)
           | Size_other \<Rightarrow> io_return formats) (\<lambda>fs.
         size_loop A fuel descriptor pixel_format (index + 1) fs))"

fun format_loop :: "'w v4l2_api \<Rightarrow> nat \<Rightarrow> int \<Rightarrow> u32 \<Rightarrow> sCameraFormat list \<Rightarrow> ('w, sCameraFormat list) io" where
  "format_loop A 0 descriptor index formats = io_pending"
| "format_loop A (Suc fuel) descriptor index formats =
     io_bind (cameraIoctl A fuel (vc_enum_fmt A descriptor index)) (\<lambda>answer. case answer of
       None \<Rightarrow> io_return formats
     | Some pixel_format \<Rightarrow>
         if fromV4L2Format pixel_format = Unknown
         then format_loop A fuel descriptor (index + 1) formats
         else io_bind (size_loop A fuel descriptor pixel_format 0 formats) (\<lambda>fs.
           format_loop A fuel descriptor (index + 1) fs))"

section \<open>Controls\<close>

record ControlMapping =
  cmap_portable :: eCameraControl
  cmap_value_id :: v4l2_cid
  cmap_auto_id :: "v4l2_cid option"

definition control_mapping :: "eCameraControl \<Rightarrow> v4l2_cid \<Rightarrow> v4l2_cid option \<Rightarrow> ControlMapping" where
  "control_mapping c v a = \<lparr>cmap_portable = c, cmap_value_id = v, cmap_auto_id = a\<rparr>"

definition CONTROL_MAPPINGS :: "ControlMapping list" where
  "CONTROL_MAPPINGS =
    [control_mapping Exposure CID_EXPOSURE_ABSOLUTE (Some CID_EXPOSURE_AUTO),
     control_mapping Gain CID_GAIN None,
     control_mapping Focus CID_FOCUS_ABSOLUTE (Some CID_FOCUS_AUTO),
     control_mapping Brightness CID_BRIGHTNESS None,
     control_mapping Contrast CID_CONTRAST None,
     control_mapping Saturation CID_SATURATION None,
     control_mapping WhiteBalance CID_WHITE_BALANCE_TEMPERATURE (Some CID_AUTO_WHITE_BALANCE),
     control_mapping Zoom CID_ZOOM_ABSOLUTE None,
     control_mapping Iris CID_IRIS_ABSOLUTE None,
     control_mapping Hue CID_HUE (Some CID_HUE_AUTO),
     control_mapping Sharpness CID_SHARPNESS None,
     control_mapping Gamma CID_GAMMA None,
     control_mapping BacklightCompensation CID_BACKLIGHT_COMPENSATION None,
     control_mapping Pan CID_PAN_ABSOLUTE None,
     control_mapping Tilt CID_TILT_ABSOLUTE None,
     control_mapping Roll CID_ROTATE None,
     control_mapping PowerLineFrequency CID_POWER_LINE_FREQUENCY None]"

definition findControlMapping :: "eCameraControl \<Rightarrow> ControlMapping option" where
  "findControlMapping control = find (\<lambda>m. cmap_portable m = control) CONTROL_MAPPINGS"

text \<open>Whether a control's automatic mode is there and enabled.\<close>

definition control_enabled :: "'w v4l2_api \<Rightarrow> nat \<Rightarrow> int \<Rightarrow> v4l2_cid \<Rightarrow> ('w, v4l2_queryctrl option) io" where
  "control_enabled A fuel descriptor cid =
     io_bind (cameraIoctl A fuel (vc_queryctrl A descriptor cid)) (\<lambda>answer. case answer of
         None \<Rightarrow> io_return None
       | Some q \<Rightarrow> io_return (if flagged (vk_flags q) CTRL_FLAG_DISABLED then None else Some q))"

definition control_unit :: "eCameraControl \<Rightarrow> eCameraControlUnit" where
  "control_unit c =
     (if c = Exposure then Microseconds else if c = WhiteBalance then Kelvin
      else if c = Pan \<or> c = Tilt \<or> c = Roll then Degrees else DeviceNative)"

fun control_loop :: "'w v4l2_api \<Rightarrow> nat \<Rightarrow> int \<Rightarrow> ControlMapping list \<Rightarrow> ('w, sCameraControlCapability list) io" where
  "control_loop A fuel descriptor [] = io_return []"
| "control_loop A fuel descriptor (m # ms) =
     io_bind (control_enabled A fuel descriptor (cmap_value_id m)) (\<lambda>answer. case answer of
         None \<Rightarrow> control_loop A fuel descriptor ms
       | Some q \<Rightarrow>
           io_bind (case cmap_auto_id m of None \<Rightarrow> io_return False
             | Some auto_id \<Rightarrow> io_bind (control_enabled A fuel descriptor auto_id)
                 (\<lambda>auto_query. io_return (auto_query \<noteq> None))) (\<lambda>automatic.
           io_bind (control_loop A fuel descriptor ms) (\<lambda>rest. io_return
             (\<lparr>cc_control = cmap_portable m, cc_minimum = vk_minimum q, cc_maximum = vk_maximum q,
               cc_step = (if 0 < vk_step q then vk_step q else 1), cc_default_value = vk_default_value q,
               cc_supports_manual = True, cc_supports_automatic = automatic,
               cc_unit = control_unit (cmap_portable m),
               cc_physical_scale = Some (if cmap_portable m = Exposure then 100 else 1),
               cc_readable = (\<not> flagged (vk_flags q) CTRL_FLAG_WRITE_ONLY),
               cc_writable = (\<not> flagged (vk_flags q) CTRL_FLAG_READ_ONLY),
               cc_display_name = vk_name q\<rparr> # rest))))"

definition queryControlCapabilities :: "'w v4l2_api \<Rightarrow> nat \<Rightarrow> int \<Rightarrow> ('w, sCameraControlCapability list) io" where
  "queryControlCapabilities A fuel descriptor = control_loop A fuel descriptor CONTROL_MAPPINGS"

section \<open>The capabilities of a device\<close>

definition v4l2Capabilities ::
    "'w v4l2_api \<Rightarrow> nat \<Rightarrow> sCameraDeviceInfo \<Rightarrow> ('w, sCameraCapability CameraResult) io" where
  "v4l2Capabilities A fuel device_in =
     io_bind (io_call (vc_open A (di_id device_in))) (\<lambda>descriptor.
     if descriptor < 0
     then io_bind (errno_failure A Cam_OpenFailed ''Failed to open V4L2 camera for capability query.'')
       (\<lambda>e. io_return (Failure e))
     else io_bind (queryCaptureCapability A fuel descriptor) (\<lambda>native. case native of
       None \<Rightarrow>
         io_bind (errno_failure A Cam_BackendFailure ''V4L2 device is not a capture camera.'') (\<lambda>e.
         io_bind (io_do (vc_close A descriptor)) (\<lambda>u. io_return (Failure e)))
     | Some c \<Rightarrow>
         io_bind (makeDeviceInfo A (di_id device_in) c) (\<lambda>device.
         io_bind (format_loop A fuel descriptor 0 []) (\<lambda>formats.
         io_bind (queryControlCapabilities A fuel descriptor) (\<lambda>controls.
         io_bind (io_do (vc_close A descriptor)) (\<lambda>u. io_return
           (if formats = []
            then Failure (camera_error CamCat_Unsupported Cam_UnsupportedFormat
              ''V4L2 camera exposes no supported portable format.'' 0)
            else Success \<lparr>ca_device = device, ca_formats = formats, ca_controls = controls,
              ca_stream_profiles = map (\<lambda>f. \<lparr>sp_native_format = f, sp_output_formats = [cf_pixel_format f]\<rparr>) formats,
              ca_extension_units = []\<rparr>)))))))"

end
