(* ===== verification/V4l2Camera.thy ===== *)
theory V4l2Camera
  imports V4l2Device
begin

text \<open>
  The backend object of \<open>platform/tmr/linux/camera/V4L2CameraBackend.cpp\<close>: it owns a descriptor and
  the mappings of the driver's buffers.  Every virtual function is one definition over the kernel's
  calls; a result is \<open>Threw\<close> when an allocation the code guards against failed.  The destructors
  \<open>OpenRollback\<close> and \<open>DequeuedBuffer\<close> run where C++ runs them.
\<close>

section \<open>The object\<close>

record V4L2Buffer =
  bu_address :: "nat option" \<comment> \<open>\<open>None\<close> is \<open>MAP_FAILED\<close>\<close>
  bu_length :: u64

definition V4L2Buffer_new :: V4L2Buffer where
  "V4L2Buffer_new = \<lparr>bu_address = None, bu_length = 0\<rparr>"

record V4L2CameraBackend =
  vb_descriptor :: int
  vb_streaming :: bool
  vb_queue_dirty :: bool
  vb_uvc_transport :: bool
  vb_buffers :: "V4L2Buffer list"
  vb_frame_description :: sCameraFrameDescription

definition V4L2CameraBackend_new :: V4L2CameraBackend where
  "V4L2CameraBackend_new =
     \<lparr>vb_descriptor = - 1, vb_streaming = False, vb_queue_dirty = False, vb_uvc_transport = False,
      vb_buffers = [], vb_frame_description = FrameDescription_none\<rparr>"

type_synonym ('w, 'a) backend_io = "('w, 'a reply \<times> V4L2CameraBackend) io"

definition v4l2_isOpen :: "V4L2CameraBackend \<Rightarrow> bool" where
  "v4l2_isOpen b \<longleftrightarrow> 0 \<le> vb_descriptor b"

definition v4l2_isStreaming :: "V4L2CameraBackend \<Rightarrow> bool" where
  "v4l2_isStreaming b \<longleftrightarrow> vb_streaming b"

section \<open>Closing\<close>

definition resetQueue :: "'w v4l2_api \<Rightarrow> nat \<Rightarrow> V4L2CameraBackend \<Rightarrow> ('w, bool \<times> V4L2CameraBackend) io" where
  "resetQueue A fuel b =
     (if \<not> vb_queue_dirty b then io_return (True, b)
      else io_bind (cameraIoctl A fuel (vc_streamoff A (vb_descriptor b))) (\<lambda>answer. case answer of
          None \<Rightarrow> io_return (False, b)
        | Some u \<Rightarrow> io_return (True, b\<lparr>vb_queue_dirty := False, vb_streaming := False\<rparr>)))"

fun unmap_loop :: "'w v4l2_api \<Rightarrow> V4L2Buffer list \<Rightarrow> ('w, unit) io" where
  "unmap_loop A [] = io_return ()"
| "unmap_loop A (x # xs) =
     io_bind (case bu_address x of None \<Rightarrow> io_return ()
       | Some address \<Rightarrow> io_do (vc_unmap A address (bu_length x))) (\<lambda>u. unmap_loop A xs)"

definition unmapBuffers :: "'w v4l2_api \<Rightarrow> V4L2CameraBackend \<Rightarrow> ('w, V4L2CameraBackend) io" where
  "unmapBuffers A b = io_bind (unmap_loop A (vb_buffers b)) (\<lambda>u. io_return (b\<lparr>vb_buffers := []\<rparr>))"

text \<open>The descriptor before the mappings, whether or not the queue could be reset.\<close>

definition close_device :: "'w v4l2_api \<Rightarrow> V4L2CameraBackend \<Rightarrow> ('w, V4L2CameraBackend) io" where
  "close_device A b =
     io_bind (if 0 \<le> vb_descriptor b
        then io_bind (io_do (vc_close A (vb_descriptor b))) (\<lambda>u. io_return (b\<lparr>vb_descriptor := - 1\<rparr>))
        else io_return b) (\<lambda>b1.
     io_bind (unmapBuffers A (b1\<lparr>vb_streaming := False, vb_queue_dirty := False\<rparr>)) (\<lambda>b2.
       io_return (b2\<lparr>vb_frame_description := FrameDescription_none, vb_uvc_transport := False\<rparr>)))"

definition v4l2_close :: "'w v4l2_api \<Rightarrow> nat \<Rightarrow> V4L2CameraBackend \<Rightarrow> ('w, V4L2CameraBackend) io" where
  "v4l2_close A fuel b = io_bind (resetQueue A fuel b) (\<lambda>(reset, b1). close_device A b1)"

text \<open>Closing and answering a failure.\<close>

definition close_failing ::
    "'w v4l2_api \<Rightarrow> nat \<Rightarrow> V4L2CameraBackend \<Rightarrow> CameraError \<Rightarrow> ('w, ('a, CameraError) Result) backend_io" where
  "close_failing A fuel b e =
     io_bind (v4l2_close A fuel b) (\<lambda>closed. io_return (Returned (Failure e), closed))"

section \<open>Opening\<close>

text \<open>The first stage: a capture device with memory-mapped streaming.\<close>

definition open_capability ::
    "'w v4l2_api \<Rightarrow> nat \<Rightarrow> V4L2CameraBackend \<Rightarrow> ('w, CameraError option \<times> V4L2CameraBackend) io" where
  "open_capability A fuel b =
     io_bind (queryCaptureCapability A fuel (vb_descriptor b)) (\<lambda>capability. case capability of
         None \<Rightarrow> io_bind (errno_failure A Cam_OpenFailed ''V4L2 device is not a capture camera.'')
           (\<lambda>e. io_return (Some e, b))
       | Some c \<Rightarrow>
           let b1 = b\<lparr>vb_uvc_transport := vq_driver c = ''uvcvideo'' \<or> contains ''usb'' (vq_bus_info c)\<rparr>;
               capabilities = (if flagged (vq_capabilities c) CAP_DEVICE_CAPS then vq_device_caps c
                               else vq_capabilities c)
           in io_return (if \<not> flagged capabilities CAP_STREAMING
                then (Some (camera_error CamCat_Unsupported Cam_UnsupportedBackend
                        ''V4L2 camera does not support memory-mapped streaming.'' 0), b1)
                else (None, b1)))"

text \<open>The second stage: the format, read back, and the frame rate.\<close>

definition open_format ::
    "'w v4l2_api \<Rightarrow> nat \<Rightarrow> sCameraOpenDescription \<Rightarrow> u32 \<Rightarrow> V4L2CameraBackend
       \<Rightarrow> ('w, CameraError + v4l2_pix) io" where
  "open_format A fuel d pixel_format b =
     (let f = od_format d; fd = vb_descriptor b in
      io_bind (cameraIoctl A fuel (vc_s_fmt A fd (cf_width f) (cf_height f) pixel_format)) (\<lambda>answer.
      case answer of
        None \<Rightarrow> io_bind (errno_failure A Cam_ConfigurationFailed ''Failed to configure V4L2 camera format.'')
          (\<lambda>e. io_return (Inl e))
      | Some pix \<Rightarrow>
          if vx_width pix \<noteq> cf_width f \<or> vx_height pix \<noteq> cf_height f \<or> vx_pixelformat pix \<noteq> pixel_format
          then io_return (Inl (camera_error CamCat_Unsupported Cam_UnsupportedFormat
                 ''V4L2 camera substituted a different format.'' 0))
          else io_bind (cameraIoctl A fuel (vc_s_parm A fd (cf_frame_rate_denominator f)
                 (cf_frame_rate_numerator f))) (\<lambda>answer. case answer of
              None \<Rightarrow> io_bind (errno_failure A Cam_ConfigurationFailed
                ''Failed to configure V4L2 camera frame rate.'') (\<lambda>e. io_return (Inl e))
            | Some u \<Rightarrow> io_return (Inr pix))))"

text \<open>The third stage: the buffers, queried and mapped one by one.\<close>

fun map_loop ::
    "'w v4l2_api \<Rightarrow> nat \<Rightarrow> nat list \<Rightarrow> V4L2CameraBackend \<Rightarrow> ('w, CameraError option \<times> V4L2CameraBackend) io" where
  "map_loop A fuel [] b = io_return (None, b)"
| "map_loop A fuel (index # indices) b =
     io_bind (cameraIoctl A fuel (vc_querybuf A (vb_descriptor b) (word_of_nat index))) (\<lambda>answer.
     case answer of
       None \<Rightarrow> io_bind (errno_failure A Cam_ResourceExhausted ''Failed to query V4L2 camera buffer.'')
         (\<lambda>e. io_return (Some e, b))
     | Some (native_length, offset) \<Rightarrow>
         io_bind (io_call (vc_map A (ucast native_length) (vb_descriptor b) offset)) (\<lambda>address.
         let b1 = b\<lparr>vb_buffers := (vb_buffers b)[index := \<lparr>bu_address = address, bu_length = ucast native_length\<rparr>]\<rparr>
         in if address = None
            then io_bind (errno_failure A Cam_ResourceExhausted ''Failed to map V4L2 camera buffer.'')
              (\<lambda>e. io_return (Some e, b1))
            else map_loop A fuel indices b1))"

definition open_buffers ::
    "'w v4l2_api \<Rightarrow> nat \<Rightarrow> V4L2CameraBackend \<Rightarrow> ('w, CameraError option reply \<times> V4L2CameraBackend) io" where
  "open_buffers A fuel b =
     io_bind (cameraIoctl A fuel (vc_reqbufs A (vb_descriptor b) 4)) (\<lambda>answer.
     if answer = None \<or> the answer < 2
     then io_bind (errno_failure A Cam_ResourceExhausted ''Failed to allocate V4L2 camera buffers.'')
       (\<lambda>e. io_return (Returned (Some e), b))
     else
       let count = unat (the answer) in
       io_bind (io_call (vc_alloc A count)) (\<lambda>allocated.
       if \<not> allocated then io_return (Threw Bad_alloc, b)
       else io_bind (map_loop A fuel [0..<count] (b\<lparr>vb_buffers := replicate count V4L2Buffer_new\<rparr>))
         (\<lambda>(e, b1). io_return (Returned e, b1))))"

definition open_description :: "sCameraOpenDescription \<Rightarrow> v4l2_pix \<Rightarrow> sCameraFrameDescription" where
  "open_description d pix =
     \<lparr>fd_width = vx_width pix, fd_height = vx_height pix, fd_pixel_format = cf_pixel_format (od_format d),
      fd_row_stride = (if cf_pixel_format (od_format d) = Mjpeg then 0 else ucast (vx_bytesperline pix))\<rparr>"

text \<open>The stages in order, once the descriptor is open; every failure closes, and so does the rollback
  when the buffer table could not be allocated.\<close>

definition open_device ::
    "'w v4l2_api \<Rightarrow> nat \<Rightarrow> sCameraOpenDescription \<Rightarrow> u32 \<Rightarrow> V4L2CameraBackend \<Rightarrow> ('w, CameraStatus) backend_io" where
  "open_device A fuel d pixel_format b =
     io_bind (open_capability A fuel b) (\<lambda>(refused, b1). case refused of
         Some e \<Rightarrow> close_failing A fuel b1 e
       | None \<Rightarrow> io_bind (open_format A fuel d pixel_format b1) (\<lambda>configured. case configured of
           Inl e \<Rightarrow> close_failing A fuel b1 e
         | Inr pix \<Rightarrow> io_bind (open_buffers A fuel b1) (\<lambda>(mapped, b2). case mapped of
             Threw x \<Rightarrow> io_bind (v4l2_close A fuel b2) (\<lambda>closed. io_return (Threw x, closed))
           | Returned (Some e) \<Rightarrow> close_failing A fuel b2 e
           | Returned None \<Rightarrow> io_return (Returned (Success ()),
               b2\<lparr>vb_frame_description := open_description d pix\<rparr>))))"

definition v4l2_open ::
    "'w v4l2_api \<Rightarrow> nat \<Rightarrow> sCameraOpenDescription \<Rightarrow> V4L2CameraBackend \<Rightarrow> ('w, CameraStatus) backend_io" where
  "v4l2_open A fuel d b =
     (let native_format = (if od_native_pixel_format d = Unknown then cf_pixel_format (od_format d)
                           else od_native_pixel_format d);
          pixel_format = toV4L2Format native_format
      in if 0 \<le> vb_descriptor b
         then io_return (Returned (Failure (camera_error CamCat_Lifecycle Cam_AlreadyOpen
                ''V4L2 camera is already open.'' 0)), b)
         else if native_format \<noteq> cf_pixel_format (od_format d)
         then io_return (Returned (Failure (camera_error CamCat_Unsupported Cam_UnsupportedFormat
                ''V4L2 adapter does not perform pixel-format conversion.'' 0)), b)
         else if pixel_format = 0
         then io_return (Returned (Failure (camera_error CamCat_Unsupported Cam_UnsupportedFormat
                ''Requested pixel format is not supported by the V4L2 adapter.'' 0)), b)
         else io_bind (io_call (vc_open A (di_id (od_device d)))) (\<lambda>descriptor.
           let b1 = b\<lparr>vb_descriptor := descriptor\<rparr> in
           if descriptor < 0
           then io_bind (errno_failure A Cam_OpenFailed ''Failed to open V4L2 camera.'')
             (\<lambda>e. io_return (Returned (Failure e), b1))
           else open_device A fuel d pixel_format b1))"

section \<open>Starting and stopping\<close>

definition failStart ::
    "'w v4l2_api \<Rightarrow> nat \<Rightarrow> string \<Rightarrow> int \<Rightarrow> V4L2CameraBackend \<Rightarrow> ('w, CameraStatus) backend_io" where
  "failStart A fuel message native_error b =
     io_bind (resetQueue A fuel b) (\<lambda>(reset, b1).
     io_bind (if reset then io_return b1 else v4l2_close A fuel b1) (\<lambda>b2.
       io_return (Returned (Failure (errnoError Cam_BackendFailure message native_error)), b2)))"

fun queue_loop :: "'w v4l2_api \<Rightarrow> nat \<Rightarrow> int \<Rightarrow> nat list \<Rightarrow> ('w, bool) io" where
  "queue_loop A fuel descriptor [] = io_return True"
| "queue_loop A fuel descriptor (index # indices) =
     io_bind (cameraIoctl A fuel (vc_qbuf A descriptor (word_of_nat index))) (\<lambda>answer. case answer of
         None \<Rightarrow> io_return False
       | Some u \<Rightarrow> queue_loop A fuel descriptor indices)"

definition v4l2_start :: "'w v4l2_api \<Rightarrow> nat \<Rightarrow> V4L2CameraBackend \<Rightarrow> ('w, CameraStatus) backend_io" where
  "v4l2_start A fuel b =
     (if vb_descriptor b < 0
      then io_return (Returned (Failure (camera_error CamCat_Lifecycle Cam_NotOpen
             ''V4L2 camera is not open.'' 0)), b)
      else if vb_streaming b
      then io_return (Returned (Failure (camera_error CamCat_Lifecycle Cam_AlreadyStreaming
             ''V4L2 camera stream is already active.'' 0)), b)
      else
        let b1 = b\<lparr>vb_queue_dirty := True\<rparr> in
        io_bind (queue_loop A fuel (vb_descriptor b1) [0..<length (vb_buffers b1)]) (\<lambda>queued.
        if \<not> queued
        then io_bind (read_errno A) (\<lambda>code. failStart A fuel ''Failed to queue V4L2 camera buffer.'' code b1)
        else io_bind (cameraIoctl A fuel (vc_streamon A (vb_descriptor b1))) (\<lambda>answer. case answer of
            None \<Rightarrow> io_bind (read_errno A) (\<lambda>code. failStart A fuel ''Failed to start V4L2 camera stream.'' code b1)
          | Some u \<Rightarrow> io_return (Returned (Success ()), b1\<lparr>vb_streaming := True\<rparr>))))"

definition v4l2_stop :: "'w v4l2_api \<Rightarrow> nat \<Rightarrow> V4L2CameraBackend \<Rightarrow> ('w, CameraStatus) backend_io" where
  "v4l2_stop A fuel b =
     (if \<not> vb_streaming b then io_return (Returned (Success ()), b)
      else io_bind (resetQueue A fuel b) (\<lambda>(reset, b1).
        if \<not> reset
        then io_bind (read_errno A) (\<lambda>native_error. close_failing A fuel b1 (errnoError Cam_BackendFailure
               ''Failed to stop V4L2 camera stream; camera closed.'' native_error))
        else io_return (Returned (Success ()), b1\<lparr>vb_streaming := False\<rparr>)))"

section \<open>Reading a frame\<close>

definition int_max :: int where "int_max = 2147483647"

definition frame_timed_out :: CameraError where
  "frame_timed_out = camera_error CamCat_Timeout Cam_TimedOut ''Timed out waiting for a V4L2 camera frame.'' 0"

definition read_failed :: "string \<Rightarrow> CameraError" where
  "read_failed message = camera_error CamCat_InputOutput Cam_ReadFailed message 0"

text \<open>The wait: \<open>Inl\<close> is a failure, with whether the backend is closed before it is returned; \<open>Inr\<close>
  is the buffer that was dequeued.\<close>

fun wait_frame ::
    "'w v4l2_api \<Rightarrow> nat \<Rightarrow> int \<Rightarrow> int \<Rightarrow> ('w, CameraError \<times> bool + v4l2_buffer) io" where
  "wait_frame A 0 descriptor deadline = io_pending"
| "wait_frame A (Suc fuel) descriptor deadline =
     io_bind (io_call (vc_now A)) (\<lambda>now.
     if deadline \<le> now then io_return (Inl (frame_timed_out, False))
     else io_bind (io_option (i64_sub deadline now)) (\<lambda>remaining_ns.
       let remaining = (remaining_ns + 999999) div 1000000; wait_ms = min remaining int_max in
       io_bind (io_call (vc_poll A descriptor wait_ms)) (\<lambda>(result, revents).
       if result < 0
       then io_bind (read_errno A) (\<lambda>code.
         if code = errno_INTR then wait_frame A fuel descriptor deadline
         else io_return (Inl (errnoError Cam_ReadFailed ''V4L2 camera poll failed.'' code, False)))
       else if result = 0 then wait_frame A fuel descriptor deadline
       else if flagged revents poll_broken
       then io_return (Inl (read_failed ''V4L2 camera poll reported an invalid stream.'', True))
       else if \<not> flagged revents poll_in then wait_frame A fuel descriptor deadline
       else io_bind (io_call (vc_now A)) (\<lambda>now.
         if deadline \<le> now then io_return (Inl (frame_timed_out, False))
         else io_bind (io_call (vc_dqbuf A descriptor)) (\<lambda>answer. case answer of
             Some buffer \<Rightarrow> io_return (Inr buffer)
           | None \<Rightarrow> io_bind (read_errno A) (\<lambda>code.
               if code = errno_INTR \<or> code = errno_AGAIN then wait_frame A fuel descriptor deadline
               else io_return (Inl (errnoError Cam_ReadFailed ''Failed to dequeue V4L2 camera frame.'' code, True))))))))"

text \<open>\<open>DequeuedBuffer::release\<close>: the code of a failed return, and 0 otherwise.\<close>

definition release_buffer ::
    "'w v4l2_api \<Rightarrow> nat \<Rightarrow> u32 \<Rightarrow> V4L2CameraBackend \<Rightarrow> ('w, int \<times> V4L2CameraBackend) io" where
  "release_buffer A fuel index b =
     io_bind (cameraIoctl A fuel (vc_qbuf A (vb_descriptor b) index)) (\<lambda>answer. case answer of
         Some u \<Rightarrow> io_return (0, b)
       | None \<Rightarrow> io_bind (read_errno A) (\<lambda>code.
           io_bind (v4l2_close A fuel b) (\<lambda>closed. io_return (code, closed))))"

text \<open>Leaving with the lease still active: its destructor returns the buffer.\<close>

definition leave_releasing ::
    "'w v4l2_api \<Rightarrow> nat \<Rightarrow> u32 \<Rightarrow> V4L2CameraBackend \<Rightarrow> 'a reply \<Rightarrow> ('w, 'a) backend_io" where
  "leave_releasing A fuel index b r =
     io_bind (release_buffer A fuel index b) (\<lambda>(code, b1). io_return (r, b1))"

definition frame_timestamp :: "'w v4l2_api \<Rightarrow> v4l2_buffer \<Rightarrow> ('w, int) io" where
  "frame_timestamp A buffer =
     (if flagged (vf_flags buffer) BUF_FLAG_TIMESTAMP_MONOTONIC
      then io_bind (io_option (i64_mul (vf_tv_sec buffer) 1000000000)) (\<lambda>seconds.
        io_bind (io_option (i64_mul (vf_tv_usec buffer) 1000)) (\<lambda>rest.
          io_option (i64_add seconds rest)))
      else io_call (vc_now A))"

definition take_frame ::
    "'w v4l2_api \<Rightarrow> nat \<Rightarrow> v4l2_buffer \<Rightarrow> V4L2CameraBackend \<Rightarrow> ('w, sCameraFrame CameraResult) backend_io" where
  "take_frame A fuel buffer b =
     (if length (vb_buffers b) \<le> unat (vf_index buffer)
      then close_failing A fuel b (read_failed ''V4L2 returned an invalid camera buffer index.'')
      else
        let slot = vb_buffers b ! unat (vf_index buffer);
            leave = leave_releasing A fuel (vf_index buffer) b
        in if bu_length slot < ucast (vf_bytesused buffer) \<or> flagged (vf_flags buffer) BUF_FLAG_ERROR
        then leave (Returned (Failure (read_failed ''V4L2 returned an invalid camera buffer payload.'')))
        else case bu_address slot of
          None \<Rightarrow> io_undefined
        | Some address \<Rightarrow>
            io_bind (io_call (vc_alloc A (unat (vf_bytesused buffer)))) (\<lambda>allocated.
            if \<not> allocated then leave (Threw Bad_alloc)
            else io_bind (io_call (vc_memory A address (unat (vf_bytesused buffer)))) (\<lambda>data.
              io_bind (frame_timestamp A buffer) (\<lambda>timestamp.
              let frame = \<lparr>cm_description = vb_frame_description b, cm_data = data,
                           cm_sequence = ucast (vf_sequence buffer), cm_timestamp = timestamp\<rparr>
              in if \<not> frame_valid frame
                 then leave (Returned (Failure (read_failed ''V4L2 returned a truncated camera frame.'')))
                 else io_bind (release_buffer A fuel (vf_index buffer) b) (\<lambda>(return_error, b1).
                   io_return (Returned (if return_error \<noteq> 0
                     then Failure (errnoError Cam_ReadFailed ''Failed to return V4L2 camera buffer.'' return_error)
                     else Success frame), b1))))))"

definition v4l2_readFrame ::
    "'w v4l2_api \<Rightarrow> nat \<Rightarrow> u32 \<Rightarrow> V4L2CameraBackend \<Rightarrow> ('w, sCameraFrame CameraResult) backend_io" where
  "v4l2_readFrame A fuel timeout_ms b =
     (if \<not> vb_streaming b
      then io_return (Returned (Failure (camera_error CamCat_Lifecycle Cam_NotStreaming
             ''V4L2 camera stream is not active.'' 0)), b)
      else io_bind (io_call (vc_now A)) (\<lambda>start.
        io_bind (io_option (i64_add start (int (unat timeout_ms) * 1000000))) (\<lambda>deadline.
        io_bind (wait_frame A fuel (vb_descriptor b) deadline) (\<lambda>waited. case waited of
            Inl (e, closes) \<Rightarrow> if closes then close_failing A fuel b e else io_return (Returned (Failure e), b)
          | Inr buffer \<Rightarrow> take_frame A fuel buffer b))))"

section \<open>Controls\<close>

definition unmapped_control :: CameraError where
  "unmapped_control = camera_error CamCat_Unsupported Cam_UnsupportedControl
     ''Camera control is not mapped by the V4L2 adapter.'' 0"

definition unsupported_control :: CameraError where
  "unsupported_control = camera_error CamCat_Unsupported Cam_UnsupportedControl
     ''Camera does not support the requested V4L2 control.'' 0"

definition control_mode :: "v4l2_cid \<Rightarrow> int \<Rightarrow> eCameraControlMode" where
  "control_mode auto_id v =
     (if auto_id = CID_EXPOSURE_AUTO
      then if v = EXPOSURE_MANUAL then Mode_Manual else Mode_Automatic
      else if v = 0 then Mode_Manual else Mode_Automatic)"

definition v4l2_getControl ::
    "'w v4l2_api \<Rightarrow> nat \<Rightarrow> V4L2CameraBackend \<Rightarrow> eCameraControl \<Rightarrow> ('w, sCameraControlValue CameraResult) io" where
  "v4l2_getControl A fuel b control =
     (let fd = vb_descriptor b in
      case findControlMapping control of None \<Rightarrow> io_return (Failure unmapped_control)
      | Some m \<Rightarrow>
          io_bind (control_enabled A fuel fd (cmap_value_id m)) (\<lambda>capability. case capability of
              None \<Rightarrow> io_return (Failure unsupported_control)
            | Some q \<Rightarrow>
                if flagged (vk_flags q) CTRL_FLAG_WRITE_ONLY
                then io_return (Failure (camera_error CamCat_Validation Cam_AccessDenied
                       ''V4L2 camera control is write-only.'' 0))
                else io_bind (cameraIoctl A fuel (vc_g_ctrl A fd (cmap_value_id m))) (\<lambda>answer. case answer of
                  None \<Rightarrow> io_bind (errno_failure A Cam_ControlReadFailed ''Failed to read V4L2 camera control.'')
                    (\<lambda>e. io_return (Failure e))
                | Some v \<Rightarrow>
                    let manual = \<lparr>cv_control = control, cv_mode = Mode_Manual, cv_value = v\<rparr> in
                    (case cmap_auto_id m of None \<Rightarrow> io_return (Success manual)
                     | Some auto_id \<Rightarrow>
                         io_bind (control_enabled A fuel fd auto_id) (\<lambda>automatic.
                         if automatic = None then io_return (Success manual)
                         else io_bind (cameraIoctl A fuel (vc_g_ctrl A fd auto_id)) (\<lambda>answer. case answer of
                           None \<Rightarrow> io_bind (errno_failure A Cam_ControlReadFailed
                             ''Failed to read V4L2 automatic-control state.'') (\<lambda>e. io_return (Failure e))
                         | Some a \<Rightarrow> io_return (Success (manual\<lparr>cv_mode := control_mode auto_id a\<rparr>))))))))"

text \<open>The automatic half of \<open>setControl\<close>.\<close>

definition set_automatic ::
    "'w v4l2_api \<Rightarrow> nat \<Rightarrow> int \<Rightarrow> ControlMapping \<Rightarrow> ('w, CameraStatus) io" where
  "set_automatic A fuel fd m =
     (case cmap_auto_id m of
        None \<Rightarrow> io_return (Failure (camera_error CamCat_Unsupported Cam_UnsupportedControl
          ''V4L2 camera control has no automatic mode.'' 0))
      | Some auto_id \<Rightarrow>
          io_bind (control_enabled A fuel fd auto_id) (\<lambda>automatic. case automatic of
              None \<Rightarrow> io_return (Failure (camera_error CamCat_Unsupported Cam_UnsupportedControl
                ''V4L2 camera control does not support automatic mode.'' 0))
            | Some q \<Rightarrow>
                io_bind (cameraIoctl A fuel (vc_s_ctrl A fd auto_id
                  (if auto_id = CID_EXPOSURE_AUTO then EXPOSURE_APERTURE_PRIORITY else 1))) (\<lambda>answer.
                case answer of
                  None \<Rightarrow> io_bind (errno_failure A Cam_ControlWriteFailed
                    ''Failed to enable V4L2 automatic control.'') (\<lambda>e. io_return (Failure e))
                | Some u \<Rightarrow> io_return (Success ()))))"

text \<open>The manual half: range and step, the automatic mode switched off, the value.\<close>

definition leave_automatic ::
    "'w v4l2_api \<Rightarrow> nat \<Rightarrow> int \<Rightarrow> ControlMapping \<Rightarrow> ('w, CameraError option) io" where
  "leave_automatic A fuel fd m =
     (case cmap_auto_id m of None \<Rightarrow> io_return None
      | Some auto_id \<Rightarrow>
          io_bind (control_enabled A fuel fd auto_id) (\<lambda>automatic. case automatic of
              None \<Rightarrow> io_return None
            | Some q \<Rightarrow>
                io_bind (cameraIoctl A fuel (vc_s_ctrl A fd auto_id
                  (if auto_id = CID_EXPOSURE_AUTO then EXPOSURE_MANUAL else 0))) (\<lambda>answer. case answer of
                  None \<Rightarrow> io_bind (errno_failure A Cam_ControlWriteFailed
                    ''Failed to enable V4L2 manual control.'') (\<lambda>e. io_return (Some e))
                | Some u \<Rightarrow> io_return None)))"

definition set_manual ::
    "'w v4l2_api \<Rightarrow> nat \<Rightarrow> int \<Rightarrow> ControlMapping \<Rightarrow> v4l2_queryctrl \<Rightarrow> int \<Rightarrow> ('w, CameraStatus) io" where
  "set_manual A fuel fd m q v =
     (let native_step = (if 0 < vk_step q then vk_step q else 1) in
      if v < vk_minimum q \<or> vk_maximum q < v \<or> cpp_rem (v - vk_minimum q) native_step \<noteq> 0
      then io_return (Failure (camera_error CamCat_Validation Cam_InvalidArgument
             ''Manual camera-control value is outside its capability range or step.'' 0))
      else io_bind (leave_automatic A fuel fd m) (\<lambda>refused. case refused of
          Some e \<Rightarrow> io_return (Failure e)
        | None \<Rightarrow>
            io_bind (cameraIoctl A fuel (vc_s_ctrl A fd (cmap_value_id m) v)) (\<lambda>answer. case answer of
                None \<Rightarrow> io_bind (errno_failure A Cam_ControlWriteFailed
                  ''Failed to write V4L2 camera control.'') (\<lambda>e. io_return (Failure e))
              | Some u \<Rightarrow> io_return (Success ()))))"

definition v4l2_setControl ::
    "'w v4l2_api \<Rightarrow> nat \<Rightarrow> V4L2CameraBackend \<Rightarrow> sCameraControlValue \<Rightarrow> ('w, CameraStatus) io" where
  "v4l2_setControl A fuel b value_in =
     (let fd = vb_descriptor b in
      case findControlMapping (cv_control value_in) of None \<Rightarrow> io_return (Failure unmapped_control)
      | Some m \<Rightarrow>
          io_bind (control_enabled A fuel fd (cmap_value_id m)) (\<lambda>capability. case capability of
              None \<Rightarrow> io_return (Failure unsupported_control)
            | Some q \<Rightarrow>
                if flagged (vk_flags q) CTRL_FLAG_READ_ONLY
                then io_return (Failure (camera_error CamCat_Validation Cam_AccessDenied
                       ''V4L2 camera control is read-only.'' 0))
                else if cv_mode value_in = Mode_Automatic then set_automatic A fuel fd m
                else set_manual A fuel fd m q (cv_value value_in)))"

section \<open>Extension units\<close>

definition not_uvc :: CameraError where
  "not_uvc = camera_error CamCat_Unsupported Cam_UnsupportedExtensionUnit
     ''V4L2 device is not identified as a UVC transport.'' 0"

definition payload_length :: "u8 \<times> u8 \<Rightarrow> nat" where
  "payload_length bs = unat (fst bs) + 256 * unat (snd bs)"

definition v4l2_getExtensionUnit ::
    "'w v4l2_api \<Rightarrow> nat \<Rightarrow> V4L2CameraBackend \<Rightarrow> sCameraExtensionUnitSelector
       \<Rightarrow> ('w, sCameraExtensionUnitValue CameraResult) io" where
  "v4l2_getExtensionUnit A fuel b s =
     (let fd = vb_descriptor b in
      if \<not> vb_uvc_transport b then io_return (Failure not_uvc)
      else io_bind (cameraIoctl A fuel (vc_xu_get_len A fd (xu_unit_id s) (xu_selector s))) (\<lambda>answer. case answer of
          None \<Rightarrow> io_bind (read_errno A) (\<lambda>code. io_return (Failure (extensionUnitError Cam_ExtensionUnitReadFailed
            ''Failed to query the V4L2 UVC extension-unit payload length.'' code)))
        | Some length_bytes \<Rightarrow>
            let n = payload_length length_bytes in
            if n < unat (xu_minimum_size s) \<or> unat (xu_maximum_size s) < n
            then io_return (Failure (camera_error CamCat_InputOutput Cam_PayloadSizeMismatch
                   ''V4L2 UVC extension-unit payload length is outside the advertised range.'' 0))
            else io_bind (cameraIoctl A fuel (vc_xu_get_cur A fd (xu_unit_id s) (xu_selector s) (word_of_nat n)))
              (\<lambda>answer. case answer of
                None \<Rightarrow> io_bind (read_errno A) (\<lambda>code. io_return (Failure (extensionUnitError
                  Cam_ExtensionUnitReadFailed ''Failed to read the V4L2 UVC extension unit.'' code)))
              | Some bs \<Rightarrow> io_return (Success \<lparr>xv_selector = s,
                  xv_payload = take n bs @ replicate (n - length bs) 0\<rparr>))))"

definition v4l2_setExtensionUnit ::
    "'w v4l2_api \<Rightarrow> nat \<Rightarrow> V4L2CameraBackend \<Rightarrow> sCameraExtensionUnitValue \<Rightarrow> ('w, CameraStatus) io" where
  "v4l2_setExtensionUnit A fuel b v =
     (let fd = vb_descriptor b; s = xv_selector v in
      if \<not> vb_uvc_transport b then io_return (Failure not_uvc)
      else io_bind (cameraIoctl A fuel (vc_xu_get_len A fd (xu_unit_id s) (xu_selector s))) (\<lambda>answer. case answer of
          None \<Rightarrow> io_bind (read_errno A) (\<lambda>code. io_return (Failure (extensionUnitError Cam_ExtensionUnitWriteFailed
            ''Failed to query the V4L2 UVC extension-unit payload length.'' code)))
        | Some length_bytes \<Rightarrow>
            if payload_length length_bytes \<noteq> length (xv_payload v)
            then io_return (Failure (camera_error CamCat_Validation Cam_PayloadSizeMismatch
                   ''V4L2 UVC extension-unit payload must match the device length.'' 0))
            else io_bind (cameraIoctl A fuel (vc_xu_set_cur A fd (xu_unit_id s) (xu_selector s) (xv_payload v)))
              (\<lambda>answer. case answer of
                None \<Rightarrow> io_bind (read_errno A) (\<lambda>code. io_return (Failure (extensionUnitError
                  Cam_ExtensionUnitWriteFailed ''Failed to write the V4L2 UVC extension unit.'' code)))
              | Some u \<Rightarrow> io_return (Success ()))))"

end
