(* ===== verification/V4l2Ledger.thy ===== *)
theory V4l2Ledger
  imports V4l2Camera SocketLedger
begin

text \<open>
  A ledger kept beside the kernel for one camera: the open descriptors, the live mappings and the
  buffer each belongs to, which buffers the driver holds, and whether a call was a misuse.  Misuse
  is: a call on a descriptor that was closed; unmapping what is not mapped, or while the driver holds
  buffers; queueing a buffer that does not exist or that the driver holds already; starting a stream
  with an empty queue; reading a mapping beyond its length or while the driver holds its buffer.
\<close>

section \<open>The ledger\<close>

record v4l2_ledger =
  vl_open :: "int multiset"
  vl_maps :: "(nat \<times> u64) multiset"
  vl_slots :: "(nat \<times> nat) set" \<comment> \<open>address and index of a buffer\<close>
  vl_last :: nat \<comment> \<open>the buffer queried last\<close>
  vl_owner :: int \<comment> \<open>the descriptor that requested the buffers\<close>
  vl_count :: nat
  vl_queued :: "nat set"
  vl_misused :: bool

definition v4l2_ledger_empty :: v4l2_ledger where
  "v4l2_ledger_empty =
     \<lparr>vl_open = {#}, vl_maps = {#}, vl_slots = {}, vl_last = 0, vl_owner = - 1, vl_count = 0,
      vl_queued = {}, vl_misused = False\<rparr>"

definition vl_require :: "bool \<Rightarrow> v4l2_ledger \<Rightarrow> v4l2_ledger" where
  "vl_require ok l = (if ok then l else l\<lparr>vl_misused := True\<rparr>)"

definition vl_use :: "int \<Rightarrow> v4l2_ledger \<Rightarrow> v4l2_ledger" where
  "vl_use fd l = vl_require (fd < 0 \<or> fd \<in># vl_open l) l"

definition note_open :: "int \<Rightarrow> v4l2_ledger \<Rightarrow> v4l2_ledger" where
  "note_open fd l = (if fd < 0 then l else l\<lparr>vl_open := add_mset fd (vl_open l)\<rparr>)"

definition note_closed :: "int \<Rightarrow> v4l2_ledger \<Rightarrow> v4l2_ledger" where
  "note_closed fd l =
     (let l1 = (vl_use fd l)\<lparr>vl_open := vl_open l - {#fd#}\<rparr> in
      if vl_owner l = fd \<and> fd \<notin># vl_open l1
      then l1\<lparr>vl_slots := {}, vl_owner := - 1, vl_count := 0, vl_queued := {}\<rparr> else l1)"

definition note_map :: "u64 \<Rightarrow> int \<Rightarrow> nat option \<Rightarrow> v4l2_ledger \<Rightarrow> v4l2_ledger" where
  "note_map n fd v l =
     (case v of None \<Rightarrow> vl_use fd l
      | Some a \<Rightarrow> (vl_use fd l)\<lparr>vl_maps := add_mset (a, n) (vl_maps l), vl_slots := insert (a, vl_last l) (vl_slots l)\<rparr>)"

definition note_unmap :: "nat \<Rightarrow> u64 \<Rightarrow> v4l2_ledger \<Rightarrow> v4l2_ledger" where
  "note_unmap a n l =
     (vl_require ((a, n) \<in># vl_maps l \<and> vl_queued l = {}) l)\<lparr>vl_maps := vl_maps l - {#(a, n)#}\<rparr>"

definition note_memory :: "nat \<Rightarrow> nat \<Rightarrow> v4l2_ledger \<Rightarrow> v4l2_ledger" where
  "note_memory a n l =
     vl_require ((\<exists>m. (a, m) \<in># vl_maps l \<and> n \<le> unat m)
       \<and> (\<exists>i. (a, i) \<in> vl_slots l \<and> i < vl_count l \<and> i \<notin> vl_queued l)) l"

definition note_buffers :: "int \<Rightarrow> u32 option \<Rightarrow> v4l2_ledger \<Rightarrow> v4l2_ledger" where
  "note_buffers fd v l =
     (case v of None \<Rightarrow> vl_use fd l
      | Some n \<Rightarrow> (vl_use fd l)\<lparr>vl_owner := fd, vl_count := unat n, vl_slots := {}, vl_queued := {}\<rparr>)"

definition note_queued :: "int \<Rightarrow> u32 \<Rightarrow> unit option \<Rightarrow> v4l2_ledger \<Rightarrow> v4l2_ledger" where
  "note_queued fd i v l =
     (let l1 = vl_require (unat i < vl_count l \<and> unat i \<notin> vl_queued l) (vl_use fd l) in
      case v of None \<Rightarrow> l1 | Some u \<Rightarrow> l1\<lparr>vl_queued := insert (unat i) (vl_queued l)\<rparr>)"

definition note_dequeued :: "int \<Rightarrow> v4l2_buffer option \<Rightarrow> v4l2_ledger \<Rightarrow> v4l2_ledger" where
  "note_dequeued fd v l =
     (case v of None \<Rightarrow> vl_use fd l
      | Some x \<Rightarrow> (vl_use fd l)\<lparr>vl_queued := vl_queued l - {unat (vf_index x)}\<rparr>)"

definition note_started :: "int \<Rightarrow> v4l2_ledger \<Rightarrow> v4l2_ledger" where
  "note_started fd l = vl_require (vl_queued l \<noteq> {}) (vl_use fd l)"

definition note_stopped :: "int \<Rightarrow> unit option \<Rightarrow> v4l2_ledger \<Rightarrow> v4l2_ledger" where
  "note_stopped fd v l =
     (case v of None \<Rightarrow> vl_use fd l | Some u \<Rightarrow> (vl_use fd l)\<lparr>vl_queued := {}\<rparr>)"

definition note_queried :: "int \<Rightarrow> u32 \<Rightarrow> (u32 \<times> u32) option \<Rightarrow> v4l2_ledger \<Rightarrow> v4l2_ledger" where
  "note_queried fd i v l =
     (case v of None \<Rightarrow> vl_use fd l | Some x \<Rightarrow> (vl_use fd l)\<lparr>vl_last := unat i\<rparr>)"

text \<open>The kernel \<open>A\<close> with the ledger beside it.\<close>

definition v4l2_ledgered :: "'w v4l2_api \<Rightarrow> ('w \<times> v4l2_ledger) v4l2_api" where
  "v4l2_ledgered A =
     \<lparr>vc_errno = (\<lambda>s. vc_errno A (fst s)),
      vc_now = beside (vc_now A) (\<lambda>v l. l),
      vc_alloc = (\<lambda>n. beside (vc_alloc A n) (\<lambda>v l. l)),
      vc_open = (\<lambda>p. beside (vc_open A p) note_open),
      vc_close = (\<lambda>fd s. (vc_close A fd (fst s), note_closed fd (snd s))),
      vc_map = (\<lambda>n fd off. beside (vc_map A n fd off) (note_map n fd)),
      vc_unmap = (\<lambda>a n s. (vc_unmap A a n (fst s), note_unmap a n (snd s))),
      vc_memory = (\<lambda>a n. beside (vc_memory A a n) (\<lambda>v. note_memory a n)),
      vc_poll = (\<lambda>fd t. beside (vc_poll A fd t) (\<lambda>v. vl_use fd)),
      vc_querycap = (\<lambda>fd. beside (vc_querycap A fd) (\<lambda>v. vl_use fd)),
      vc_s_fmt = (\<lambda>fd w h p. beside (vc_s_fmt A fd w h p) (\<lambda>v. vl_use fd)),
      vc_s_parm = (\<lambda>fd n d. beside (vc_s_parm A fd n d) (\<lambda>v. vl_use fd)),
      vc_reqbufs = (\<lambda>fd n. beside (vc_reqbufs A fd n) (note_buffers fd)),
      vc_querybuf = (\<lambda>fd i. beside (vc_querybuf A fd i) (note_queried fd i)),
      vc_qbuf = (\<lambda>fd i. beside (vc_qbuf A fd i) (note_queued fd i)),
      vc_dqbuf = (\<lambda>fd. beside (vc_dqbuf A fd) (note_dequeued fd)),
      vc_streamon = (\<lambda>fd. beside (vc_streamon A fd) (\<lambda>v. note_started fd)),
      vc_streamoff = (\<lambda>fd. beside (vc_streamoff A fd) (note_stopped fd)),
      vc_queryctrl = (\<lambda>fd c. beside (vc_queryctrl A fd c) (\<lambda>v. vl_use fd)),
      vc_g_ctrl = (\<lambda>fd c. beside (vc_g_ctrl A fd c) (\<lambda>v. vl_use fd)),
      vc_s_ctrl = (\<lambda>fd c x. beside (vc_s_ctrl A fd c x) (\<lambda>v. vl_use fd)),
      vc_enum_fmt = (\<lambda>fd i. beside (vc_enum_fmt A fd i) (\<lambda>v. vl_use fd)),
      vc_enum_framesizes = (\<lambda>fd i p. beside (vc_enum_framesizes A fd i p) (\<lambda>v. vl_use fd)),
      vc_enum_frameintervals =
        (\<lambda>fd i p w h. beside (vc_enum_frameintervals A fd i p w h) (\<lambda>v. vl_use fd)),
      vc_xu_get_len = (\<lambda>fd u x. beside (vc_xu_get_len A fd u x) (\<lambda>v. vl_use fd)),
      vc_xu_get_cur = (\<lambda>fd u x n. beside (vc_xu_get_cur A fd u x n) (\<lambda>v. vl_use fd)),
      vc_xu_set_cur = (\<lambda>fd u x bs. beside (vc_xu_set_cur A fd u x bs) (\<lambda>v. vl_use fd)),
      vc_canonical = (\<lambda>p. beside (vc_canonical A p) (\<lambda>v l. l)),
      vc_first_word = (\<lambda>p. beside (vc_first_word A p) (\<lambda>v l. l)),
      vc_first_line = (\<lambda>p. beside (vc_first_line A p) (\<lambda>v l. l))\<rparr>"

lemma vl_require_ok [simp]: "ok \<Longrightarrow> vl_require ok l = l"
  by (simp add: vl_require_def)

lemma vl_use_ok [simp]: "fd < 0 \<or> fd \<in># vl_open l \<Longrightarrow> vl_use fd l = l"
  by (simp add: vl_use_def)

section \<open>What a call does to the ledger\<close>

text \<open>A call beside the ledger, whatever it answers.\<close>

lemma io_wp_beside:
  "(\<And>v w'. Q v (w', g v l)) \<Longrightarrow> io_wp (io_call (beside f g)) Q R (w, l)"
  by (simp add: io_wp_call beside_def split: prod.splits)

text \<open>An interruptible call that leaves the ledger alone when it fails.\<close>

lemma cameraIoctl_beside:
  assumes "g None l = l" and "\<And>v w'. Q (Some v) (w', g (Some v) l)"
    and "\<And>w'. Q None (w', l)" and "\<And>w'. R (w', l)"
  shows "io_wp (cameraIoctl A fuel (beside f g)) Q R (w, l)"
proof (induction fuel arbitrary: w)
  case 0
  then show ?case by (simp add: assms(4))
next
  case (Suc fuel)
  have "io_wp (case answer of None \<Rightarrow>
        io_bind (read_errno A) (\<lambda>code. if code = errno_INTR then cameraIoctl A fuel (beside f g) else io_return None)
      | Some v \<Rightarrow> io_return (Some v)) Q R (w', g answer l)" for answer w'
  proof (cases answer)
    case None
    then show ?thesis using Suc.IH assms(1,3) by (auto simp: read_errno_def io_wp_call)
  next
    case (Some v)
    then show ?thesis using assms(2) by simp
  qed
  then show ?case by (auto intro: io_wp_beside)
qed

lemma read_errno_wp [simp]: "io_wp (read_errno A) Q R s \<longleftrightarrow> Q (vc_errno A s) s"
  by (simp add: read_errno_def io_wp_call)

lemma errno_failure_wp [simp]:
  "io_wp (errno_failure A code message) Q R s \<longleftrightarrow> Q (errnoError code message (vc_errno A s)) s"
  by (simp add: errno_failure_def)

text \<open>Calls that do not change the ledger when their descriptor is open (or negative).\<close>

lemma ledgered_ioctl_quiet:
  assumes "fd < 0 \<or> fd \<in># vl_open l"
  shows
  "(\<And>v w'. Q1 v (w', l)) \<Longrightarrow> (\<And>w'. R1 (w', l)) \<Longrightarrow> io_wp (cameraIoctl B fuel (vc_querycap (v4l2_ledgered A) fd)) Q1 R1 (w, l)"
  "(\<And>v w'. Q2 v (w', l)) \<Longrightarrow> (\<And>w'. R2 (w', l)) \<Longrightarrow> io_wp (cameraIoctl B fuel (vc_s_fmt (v4l2_ledgered A) fd x y p)) Q2 R2 (w, l)"
  "(\<And>v w'. Q3 v (w', l)) \<Longrightarrow> (\<And>w'. R3 (w', l)) \<Longrightarrow> io_wp (cameraIoctl B fuel (vc_s_parm (v4l2_ledgered A) fd x y)) Q3 R3 (w, l)"
  "(\<And>v w'. Q4 v (w', l)) \<Longrightarrow> (\<And>w'. R4 (w', l)) \<Longrightarrow> io_wp (cameraIoctl B fuel (vc_queryctrl (v4l2_ledgered A) fd c)) Q4 R4 (w, l)"
  "(\<And>v w'. Q5 v (w', l)) \<Longrightarrow> (\<And>w'. R5 (w', l)) \<Longrightarrow> io_wp (cameraIoctl B fuel (vc_g_ctrl (v4l2_ledgered A) fd c)) Q5 R5 (w, l)"
  "(\<And>v w'. Q6 v (w', l)) \<Longrightarrow> (\<And>w'. R6 (w', l)) \<Longrightarrow> io_wp (cameraIoctl B fuel (vc_s_ctrl (v4l2_ledgered A) fd c z)) Q6 R6 (w, l)"
  "(\<And>v w'. Q7 v (w', l)) \<Longrightarrow> (\<And>w'. R7 (w', l)) \<Longrightarrow> io_wp (cameraIoctl B fuel (vc_enum_fmt (v4l2_ledgered A) fd i)) Q7 R7 (w, l)"
  "(\<And>v w'. Q8 v (w', l)) \<Longrightarrow> (\<And>w'. R8 (w', l)) \<Longrightarrow> io_wp (cameraIoctl B fuel (vc_enum_framesizes (v4l2_ledgered A) fd i p)) Q8 R8 (w, l)"
  "(\<And>v w'. Q9 v (w', l)) \<Longrightarrow> (\<And>w'. R9 (w', l)) \<Longrightarrow> io_wp (cameraIoctl B fuel (vc_enum_frameintervals (v4l2_ledgered A) fd i p x y)) Q9 R9 (w, l)"
  "(\<And>v w'. Qa v (w', l)) \<Longrightarrow> (\<And>w'. Ra (w', l)) \<Longrightarrow> io_wp (cameraIoctl B fuel (vc_xu_get_len (v4l2_ledgered A) fd u s)) Qa Ra (w, l)"
  "(\<And>v w'. Qb v (w', l)) \<Longrightarrow> (\<And>w'. Rb (w', l)) \<Longrightarrow> io_wp (cameraIoctl B fuel (vc_xu_get_cur (v4l2_ledgered A) fd u s n)) Qb Rb (w, l)"
  "(\<And>v w'. Qc v (w', l)) \<Longrightarrow> (\<And>w'. Rc (w', l)) \<Longrightarrow> io_wp (cameraIoctl B fuel (vc_xu_set_cur (v4l2_ledgered A) fd u s bs)) Qc Rc (w, l)"
  by (simp_all add: v4l2_ledgered_def assms cameraIoctl_beside)

lemma ledgered_call_quiet [intro!]:
  "(\<And>v w'. Q1 v (w', l)) \<Longrightarrow> io_wp (io_call (vc_now (v4l2_ledgered A))) Q1 R1 (w, l)"
  "(\<And>v w'. Q2 v (w', l)) \<Longrightarrow> io_wp (io_call (vc_alloc (v4l2_ledgered A) n)) Q2 R2 (w, l)"
  "(\<And>v w'. Q3 v (w', l)) \<Longrightarrow> io_wp (io_call (vc_canonical (v4l2_ledgered A) p)) Q3 R3 (w, l)"
  "(\<And>v w'. Q4 v (w', l)) \<Longrightarrow> io_wp (io_call (vc_first_word (v4l2_ledgered A) p)) Q4 R4 (w, l)"
  "(\<And>v w'. Q5 v (w', l)) \<Longrightarrow> io_wp (io_call (vc_first_line (v4l2_ledgered A) p)) Q5 R5 (w, l)"
  by (simp_all add: v4l2_ledgered_def io_wp_beside)

lemma ledgered_poll [intro!]:
  "fd < 0 \<or> fd \<in># vl_open l \<Longrightarrow> (\<And>v w'. Q v (w', l))
     \<Longrightarrow> io_wp (io_call (vc_poll (v4l2_ledgered A) fd t)) Q R (w, l)"
  by (simp add: v4l2_ledgered_def io_wp_beside)

lemma ledgered_open [intro!]:
  assumes "\<And>fd w'. fd < 0 \<Longrightarrow> Q fd (w', l)"
    and "\<And>fd w'. 0 \<le> fd \<Longrightarrow> Q fd (w', l\<lparr>vl_open := add_mset fd (vl_open l)\<rparr>)"
  shows "io_wp (io_call (vc_open (v4l2_ledgered A) p)) Q R (w, l)"
  using assms by (auto simp: v4l2_ledgered_def note_open_def intro!: io_wp_beside)

lemma v4l2_ledgered_close [simp]:
  "vc_close (v4l2_ledgered A) fd (w, l) = (vc_close A fd w, note_closed fd l)"
  "vc_unmap (v4l2_ledgered A) a n (w, l) = (vc_unmap A a n w, note_unmap a n l)"
  by (simp_all add: v4l2_ledgered_def)

lemma ledgered_map:
  assumes "\<And>w'. Q None (w', l)"
    and "\<And>a w'. Q (Some a)
      (w', l\<lparr>vl_maps := add_mset (a, n) (vl_maps l), vl_slots := insert (a, vl_last l) (vl_slots l)\<rparr>)"
    and "fd \<in># vl_open l"
  shows "io_wp (io_call (vc_map (v4l2_ledgered A) n fd off)) Q R (w, l)"
  using assms
  by (auto simp: v4l2_ledgered_def note_map_def intro!: io_wp_beside split: option.splits)

lemma ledgered_memory:
  assumes "(a, m) \<in># vl_maps l" and "n \<le> unat m" and "(a, i) \<in> vl_slots l"
    and "i < vl_count l" and "i \<notin> vl_queued l" and "\<And>v w'. Q v (w', l)"
  shows "io_wp (io_call (vc_memory (v4l2_ledgered A) a n)) Q R (w, l)"
proof -
  have "note_memory a n l = l" unfolding note_memory_def using assms(1-5) by (auto intro: vl_require_ok)
  then show ?thesis using assms(6) by (simp add: v4l2_ledgered_def io_wp_beside)
qed

lemma ledgered_dqbuf:
  assumes "fd \<in># vl_open l" and "\<And>w'. Q None (w', l)"
    and "\<And>x w'. Q (Some x) (w', l\<lparr>vl_queued := vl_queued l - {unat (vf_index x)}\<rparr>)"
  shows "io_wp (io_call (vc_dqbuf (v4l2_ledgered A) fd)) Q R (w, l)"
  using assms
  by (auto simp: v4l2_ledgered_def note_dequeued_def intro!: io_wp_beside split: option.splits)

text \<open>Interruptible calls that change the ledger when they succeed.\<close>

lemma ledgered_reqbufs:
  assumes "fd \<in># vl_open l" and "\<And>w'. Q None (w', l)" and "\<And>w'. R (w', l)"
    and "\<And>n w'. Q (Some n) (w', l\<lparr>vl_owner := fd, vl_count := unat n, vl_slots := {}, vl_queued := {}\<rparr>)"
  shows "io_wp (cameraIoctl B fuel (vc_reqbufs (v4l2_ledgered A) fd n)) Q R (w, l)"
  using assms by (auto simp: v4l2_ledgered_def note_buffers_def intro!: cameraIoctl_beside)

lemma ledgered_querybuf:
  assumes "fd \<in># vl_open l" and "\<And>w'. Q None (w', l)" and "\<And>w'. R (w', l)"
    and "\<And>v w'. Q (Some v) (w', l\<lparr>vl_last := unat i\<rparr>)"
  shows "io_wp (cameraIoctl B fuel (vc_querybuf (v4l2_ledgered A) fd i)) Q R (w, l)"
  using assms by (auto simp: v4l2_ledgered_def note_queried_def intro!: cameraIoctl_beside)

lemma ledgered_qbuf:
  assumes "fd \<in># vl_open l" and "unat i < vl_count l" and "unat i \<notin> vl_queued l"
    and "\<And>w'. Q None (w', l)" and "\<And>w'. R (w', l)"
    and "\<And>u w'. Q (Some u) (w', l\<lparr>vl_queued := insert (unat i) (vl_queued l)\<rparr>)"
  shows "io_wp (cameraIoctl B fuel (vc_qbuf (v4l2_ledgered A) fd i)) Q R (w, l)"
  using assms by (auto simp: v4l2_ledgered_def note_queued_def Let_def intro!: cameraIoctl_beside)

lemma ledgered_streamon:
  assumes "fd \<in># vl_open l" and "vl_queued l \<noteq> {}" and "\<And>v w'. Q v (w', l)" and "\<And>w'. R (w', l)"
  shows "io_wp (cameraIoctl B fuel (vc_streamon (v4l2_ledgered A) fd)) Q R (w, l)"
proof -
  have "note_started fd l = l" using assms(1,2) by (simp add: note_started_def)
  then show ?thesis using assms(3,4) by (auto simp: v4l2_ledgered_def intro!: cameraIoctl_beside)
qed

lemma ledgered_streamoff:
  assumes "fd \<in># vl_open l" and "\<And>w'. Q None (w', l)" and "\<And>w'. R (w', l)"
    and "\<And>u w'. Q (Some u) (w', l\<lparr>vl_queued := {}\<rparr>)"
  shows "io_wp (cameraIoctl B fuel (vc_streamoff (v4l2_ledgered A) fd)) Q R (w, l)"
  using assms by (auto simp: v4l2_ledgered_def note_stopped_def intro!: cameraIoctl_beside)

end
