(* ===== verification/V4l2Steps.thy ===== *)
theory V4l2Steps
  imports V4l2Ledger
begin

text \<open>
  What every operation of the Video4Linux2 backend does to the ledger.  \<open>closable\<close> is what closing
  needs, \<open>closed\<close> and \<open>clean\<close> what it establishes, \<open>owned\<close> the invariant between operations: the
  object owns exactly the open descriptor and the live mappings, and the driver holds all buffers
  while streaming and none otherwise.
\<close>

declare decimal.simps [simp del]

section \<open>The invariant\<close>

fun mapped :: "V4L2Buffer list \<Rightarrow> (nat \<times> u64) multiset" where
  "mapped [] = {#}"
| "mapped (x # xs) =
     (case bu_address x of None \<Rightarrow> mapped xs | Some a \<Rightarrow> add_mset (a, bu_length x) (mapped xs))"

lemma mapped_update:
  "i < length xs \<Longrightarrow> bu_address (xs ! i) = None \<Longrightarrow>
     mapped (xs[i := x]) =
       (case bu_address x of None \<Rightarrow> mapped xs | Some a \<Rightarrow> add_mset (a, bu_length x) (mapped xs))"
  by (induction xs arbitrary: i) (auto simp: nth_Cons split: nat.splits option.splits)

lemma mapped_member:
  "i < length xs \<Longrightarrow> bu_address (xs ! i) = Some a \<Longrightarrow> (a, bu_length (xs ! i)) \<in># mapped xs"
  by (induction xs arbitrary: i) (auto simp: nth_Cons split: nat.splits option.splits)

lemma V4L2Buffer_new_address [simp]: "bu_address V4L2Buffer_new = None"
  by (simp add: V4L2Buffer_new_def)

lemma mapped_new [simp]: "mapped (replicate n V4L2Buffer_new) = {#}"
  by (induction n) auto

definition held :: "V4L2CameraBackend \<Rightarrow> int multiset" where
  "held b = (if 0 \<le> vb_descriptor b then {#vb_descriptor b#} else {#})"

definition closable :: "V4L2CameraBackend \<Rightarrow> v4l2_ledger \<Rightarrow> bool" where
  "closable b l \<longleftrightarrow>
     \<not> vl_misused l \<and> vl_open l = held b \<and> vl_maps l = mapped (vb_buffers b)
     \<and> (vl_queued l \<noteq> {} \<longrightarrow> 0 \<le> vb_descriptor b \<and> vl_owner l = vb_descriptor b)
     \<and> (vb_descriptor b < 0 \<longrightarrow> \<not> vb_queue_dirty b)"

definition closed_backend :: "V4L2CameraBackend \<Rightarrow> bool" where
  "closed_backend b \<longleftrightarrow>
     vb_descriptor b < 0 \<and> \<not> vb_streaming b \<and> \<not> vb_queue_dirty b \<and> vb_buffers b = []"

definition clean :: "v4l2_ledger \<Rightarrow> bool" where
  "clean l \<longleftrightarrow> \<not> vl_misused l \<and> vl_open l = {#} \<and> vl_maps l = {#} \<and> vl_queued l = {}"

definition buffers_ready :: "V4L2CameraBackend \<Rightarrow> v4l2_ledger \<Rightarrow> bool" where
  "buffers_ready b l \<longleftrightarrow>
     vl_owner l = vb_descriptor b \<and> vl_count l = length (vb_buffers b)
     \<and> 2 \<le> length (vb_buffers b) \<and> length (vb_buffers b) < 2 ^ 32
     \<and> (\<forall>i<length (vb_buffers b). \<exists>a. bu_address (vb_buffers b ! i) = Some a \<and> (a, i) \<in> vl_slots l)"

definition owned :: "V4L2CameraBackend \<Rightarrow> v4l2_ledger \<Rightarrow> bool" where
  "owned b l \<longleftrightarrow>
     (if vb_descriptor b < 0 then closed_backend b \<and> clean l
      else \<not> vl_misused l \<and> vl_open l = {#vb_descriptor b#} \<and> vl_maps l = mapped (vb_buffers b)
        \<and> buffers_ready b l \<and> vb_streaming b = vb_queue_dirty b
        \<and> vl_queued l = (if vb_streaming b then {..<length (vb_buffers b)} else {}))"

lemma owned_description [simp]: "owned (b\<lparr>vb_frame_description := d\<rparr>) l = owned b l"
  by (simp add: owned_def closed_backend_def buffers_ready_def)

lemma owned_closed: "closed_backend b \<Longrightarrow> clean l \<Longrightarrow> owned b l"
  by (simp add: owned_def closed_backend_def)

lemma owned_closable: "owned b l \<Longrightarrow> closable b l"
  by (auto simp: owned_def closable_def held_def closed_backend_def clean_def buffers_ready_def split: if_splits)

lemma owned_not_misused: "owned b l \<Longrightarrow> \<not> vl_misused l"
  by (auto simp: owned_def clean_def split: if_splits)

lemma owned_open_descriptor: "owned b l \<Longrightarrow> vb_descriptor b < 0 \<or> vb_descriptor b \<in># vl_open l"
  by (cases "vb_descriptor b < 0") (auto simp: owned_def)

section \<open>Closing\<close>

lemma unmap_loop_wp:
  assumes "vl_maps l = mapped xs" and "vl_queued l = {}"
    and "\<And>w'. Q () (w', l\<lparr>vl_maps := {#}\<rparr>)"
  shows "io_wp (unmap_loop (v4l2_ledgered A) xs) Q R (w, l)"
  using assms
proof (induction xs arbitrary: l w)
  case Nil
  then have "l\<lparr>vl_maps := {#}\<rparr> = l" by (cases l) simp
  with Nil show ?case by (metis io_wp_return unmap_loop.simps(1))
next
  case (Cons x xs)
  show ?case
  proof (cases "bu_address x")
    case None
    then show ?thesis using Cons.prems Cons.IH [of l] by simp
  next
    case (Some a)
    then have "note_unmap a (bu_length x) l = l\<lparr>vl_maps := mapped xs\<rparr>"
      using Cons.prems by (simp add: note_unmap_def)
    then show ?thesis using Some Cons.prems by (auto intro!: Cons.IH)
  qed
qed

lemma resetQueue_wp:
  assumes "\<not> vb_queue_dirty b \<or> vb_descriptor b \<in># vl_open l"
    and "\<not> vb_queue_dirty b \<Longrightarrow> Q (True, b) (w, l)"
    and "\<And>w'. vb_queue_dirty b \<Longrightarrow> Q (False, b) (w', l)"
    and "\<And>w'. vb_queue_dirty b \<Longrightarrow>
       Q (True, b\<lparr>vb_queue_dirty := False, vb_streaming := False\<rparr>) (w', l\<lparr>vl_queued := {}\<rparr>)"
    and "\<And>w'. R (w', l)"
  shows "io_wp (resetQueue (v4l2_ledgered A) fuel b) Q R (w, l)"
  using assms by (auto simp: resetQueue_def intro!: ledgered_streamoff)

lemma closed_clean:
  assumes "closable b l"
  shows "vl_queued (if 0 \<le> vb_descriptor b then note_closed (vb_descriptor b) l else l) = {}"
    and "vl_open (if 0 \<le> vb_descriptor b then note_closed (vb_descriptor b) l else l) = {#}"
    and "vl_maps (if 0 \<le> vb_descriptor b then note_closed (vb_descriptor b) l else l) = mapped (vb_buffers b)"
    and "\<not> vl_misused (if 0 \<le> vb_descriptor b then note_closed (vb_descriptor b) l else l)"
  using assms by (auto simp: closable_def held_def note_closed_def Let_def)

lemma closable_queue_reset:
  "closable b l \<Longrightarrow> vb_queue_dirty b \<Longrightarrow>
     closable (b\<lparr>vb_queue_dirty := False, vb_streaming := False\<rparr>) (l\<lparr>vl_queued := {}\<rparr>)"
  by (auto simp: closable_def held_def)

lemma close_device_wp:
  assumes "closable b l"
    and "\<And>w' l' b'. closed_backend b' \<Longrightarrow> clean l' \<Longrightarrow> Q b' (w', l')"
  shows "io_wp (close_device (v4l2_ledgered A) b) Q R (w, l)"
proof -
  note facts = closed_clean [OF assms(1)]
  show ?thesis
    using facts unfolding close_device_def
    by (cases "0 \<le> vb_descriptor b")
       (auto simp: unmapBuffers_def closed_backend_def clean_def intro!: unmap_loop_wp assms(2))
qed

lemma v4l2_close_wp:
  assumes "closable b l"
    and "\<And>w' l' b'. closed_backend b' \<Longrightarrow> clean l' \<Longrightarrow> Q b' (w', l')"
    and "\<And>w'. R (w', l)"
  shows "io_wp (v4l2_close (v4l2_ledgered A) fuel b) Q R (w, l)"
proof -
  have "\<not> vb_queue_dirty b \<or> vb_descriptor b \<in># vl_open l"
    using assms(1) by (auto simp: closable_def held_def)
  then show ?thesis
    unfolding v4l2_close_def io_wp_bind
    by (rule resetQueue_wp) (auto intro!: close_device_wp assms closable_queue_reset)
qed

lemma close_failing_wp:
  assumes "closable b l"
    and "\<And>w' l' b'. closed_backend b' \<Longrightarrow> clean l' \<Longrightarrow> Q (Returned (Failure e), b') (w', l')"
    and "\<And>w'. R (w', l)"
  shows "io_wp (close_failing (v4l2_ledgered A) fuel b e) Q R (w, l)"
  unfolding close_failing_def by (auto intro!: v4l2_close_wp [OF assms(1)] assms(2,3))

section \<open>Asking a device\<close>

lemma control_enabled_quiet:
  assumes "fd < 0 \<or> fd \<in># vl_open l" and "\<And>v w'. Q v (w', l)" and "\<And>w'. R (w', l)"
  shows "io_wp (control_enabled (v4l2_ledgered A) fuel fd cid) Q R (w, l)"
  unfolding control_enabled_def
  by (auto intro!: ledgered_ioctl_quiet [OF assms(1)] assms(2,3) split: option.splits)

lemma queryCapture_quiet:
  assumes "fd < 0 \<or> fd \<in># vl_open l" and "\<And>v w'. Q v (w', l)" and "\<And>w'. R (w', l)"
  shows "io_wp (queryCaptureCapability (v4l2_ledgered A) fuel fd) Q R (w, l)"
  unfolding queryCaptureCapability_def
  by (auto simp: Let_def intro!: ledgered_ioctl_quiet [OF assms(1)] assms(2,3) split: option.splits)

lemma readHexIdentity_quiet [intro!]:
  assumes "\<And>v w'. Q v (w', l)"
  shows "io_wp (readHexIdentity (v4l2_ledgered A) p) Q R (w, l)"
  unfolding readHexIdentity_def by (auto intro!: assms)

lemma usb_identity_quiet:
  assumes "\<And>v w'. Q v (w', l)"
  shows "io_wp (usb_identity_loop (v4l2_ledgered A) depth p d) Q R (w, l)"
proof (induction depth arbitrary: p w)
  case 0
  then show ?case by (simp add: assms)
next
  case (Suc depth)
  then show ?case by (auto intro!: assms)
qed

lemma makeDeviceInfo_quiet [intro!]:
  assumes "\<And>v w'. Q v (w', l)"
  shows "io_wp (makeDeviceInfo (v4l2_ledgered A) p c) Q R (w, l)"
  unfolding makeDeviceInfo_def populateLinuxUsbIdentity_def Let_def
  by (auto intro!: usb_identity_quiet assms split: option.splits)

lemma interval_loop_quiet:
  assumes "fd < 0 \<or> fd \<in># vl_open l" and "\<And>v w'. Q v (w', l)" and "\<And>w'. R (w', l)"
  shows "io_wp (interval_loop (v4l2_ledgered A) fuel fd p x y i fs) Q R (w, l)"
proof (induction fuel arbitrary: i fs w)
  case 0
  then show ?case by (simp add: assms(3))
next
  case (Suc fuel)
  then show ?case
    by (auto intro!: ledgered_ioctl_quiet [OF assms(1)] assms(2,3) split: option.splits v4l2_interval.splits)
qed

lemma appendDiscreteIntervals_quiet:
  assumes "fd < 0 \<or> fd \<in># vl_open l" and "\<And>v w'. Q v (w', l)" and "\<And>w'. R (w', l)"
  shows "io_wp (appendDiscreteIntervals (v4l2_ledgered A) fuel fd p x y fs) Q R (w, l)"
  unfolding appendDiscreteIntervals_def by (auto intro!: interval_loop_quiet [OF assms(1)] assms(2,3))

lemma size_loop_quiet:
  assumes "fd < 0 \<or> fd \<in># vl_open l" and "\<And>v w'. Q v (w', l)" and "\<And>w'. R (w', l)"
  shows "io_wp (size_loop (v4l2_ledgered A) fuel fd p i fs) Q R (w, l)"
proof (induction fuel arbitrary: i fs w)
  case 0
  then show ?case by (simp add: assms(3))
next
  case (Suc fuel)
  then show ?case
    by (auto intro!: ledgered_ioctl_quiet [OF assms(1)] appendDiscreteIntervals_quiet [OF assms(1)] assms(2,3)
        split: option.splits v4l2_framesize.splits)
qed

lemma format_loop_quiet:
  assumes "fd < 0 \<or> fd \<in># vl_open l" and "\<And>v w'. Q v (w', l)" and "\<And>w'. R (w', l)"
  shows "io_wp (format_loop (v4l2_ledgered A) fuel fd i fs) Q R (w, l)"
proof (induction fuel arbitrary: i fs w)
  case 0
  then show ?case by (simp add: assms(3))
next
  case (Suc fuel)
  then show ?case
    by (auto intro!: ledgered_ioctl_quiet [OF assms(1)] size_loop_quiet [OF assms(1)] assms(2,3)
        split: option.splits)
qed

lemma control_loop_quiet:
  assumes "fd < 0 \<or> fd \<in># vl_open l" and "\<And>v w'. Q v (w', l)" and "\<And>w'. R (w', l)"
  shows "io_wp (control_loop (v4l2_ledgered A) fuel fd ms) Q R (w, l)"
  using assms(2)
proof (induction ms arbitrary: Q w)
  case Nil
  then show ?case by simp
next
  case (Cons m ms)
  then show ?case
    by (auto intro!: control_enabled_quiet [OF assms(1)] Cons.IH assms(3) split: option.splits)
qed

text \<open>Opening and closing some device, the one that streams included, changes nothing.\<close>

lemma owned_reopened:
  assumes "owned b l" and "0 \<le> fd"
  shows "owned b (note_closed fd (l\<lparr>vl_open := add_mset fd (vl_open l)\<rparr>))"
proof (cases "vb_descriptor b < 0")
  case True
  then show ?thesis using assms by (auto simp: owned_def clean_def note_closed_def Let_def)
next
  case False
  then show ?thesis
    using assms by (auto simp: owned_def buffers_ready_def note_closed_def Let_def)
qed

lemma enumerate_loop_wp:
  assumes "owned b l" and "\<And>v w' l'. owned b l' \<Longrightarrow> Q v (w', l')" and "\<And>w' l'. \<not> vl_misused l' \<Longrightarrow> R (w', l')"
  shows "io_wp (enumerate_loop (v4l2_ledgered A) fuel is) Q R (w, l)"
  using assms(1,2)
proof (induction "is" arbitrary: Q w l)
  case Nil
  then show ?case by simp
next
  case (Cons i "is")
  have ok: "\<not> vl_misused l" using Cons.prems(1) by (rule owned_not_misused)
  have rest: "io_wp (enumerate_loop (v4l2_ledgered A) fuel is) (\<lambda>v. io_wp (io_return (f v)) Q R) R (w', l')"
    if "owned b l'" for f w' l'
    using that by (rule Cons.IH) (simp add: Cons.prems(2))
  have rest_id: "io_wp (enumerate_loop (v4l2_ledgered A) fuel is) Q R (w', l')" if "owned b l'" for w' l'
    using that by (rule Cons.IH) (rule Cons.prems(2))
  show ?case
    using ok Cons.prems(1)
    by (auto simp: Let_def intro!: queryCapture_quiet assms(3) rest rest_id owned_reopened split: option.splits)
qed

lemma enumerate_wp:
  assumes "owned b l" and "\<And>v w' l'. owned b l' \<Longrightarrow> Q v (w', l')" and "\<And>w' l'. \<not> vl_misused l' \<Longrightarrow> R (w', l')"
  shows "io_wp (enumerateV4L2Cameras (v4l2_ledgered A) fuel) Q R (w, l)"
  unfolding enumerateV4L2Cameras_def by (auto intro!: enumerate_loop_wp [OF assms(1)] assms(2,3))

lemma v4l2Capabilities_wp:
  assumes "owned b l" and "\<And>v w' l'. owned b l' \<Longrightarrow> Q v (w', l')" and "\<And>w' l'. \<not> vl_misused l' \<Longrightarrow> R (w', l')"
  shows "io_wp (v4l2Capabilities (v4l2_ledgered A) fuel d) Q R (w, l)"
proof -
  have ok: "\<not> vl_misused l" using assms(1) by (rule owned_not_misused)
  then show ?thesis
    unfolding v4l2Capabilities_def queryControlCapabilities_def
    by (auto intro!: queryCapture_quiet format_loop_quiet control_loop_quiet assms owned_reopened split: option.splits)
qed

section \<open>Opening\<close>

lemma open_capability_wp:
  assumes "fd = vb_descriptor b" and "fd \<in># vl_open l"
    and "\<And>v b' w'. vb_descriptor b' = vb_descriptor b \<Longrightarrow> vb_buffers b' = vb_buffers b \<Longrightarrow>
       vb_queue_dirty b' = vb_queue_dirty b \<Longrightarrow> vb_streaming b' = vb_streaming b \<Longrightarrow> Q (v, b') (w', l)"
    and "\<And>w'. R (w', l)"
  shows "io_wp (open_capability (v4l2_ledgered A) fuel b) Q R (w, l)"
  unfolding open_capability_def
  using assms by (auto simp: Let_def intro!: queryCapture_quiet split: option.splits)

lemma open_format_wp:
  assumes "vb_descriptor b \<in># vl_open l"
    and "\<And>v w'. (\<And>pix. v = Inr pix \<Longrightarrow> vx_width pix = cf_width (od_format d)
       \<and> vx_height pix = cf_height (od_format d) \<and> vx_pixelformat pix = p) \<Longrightarrow> Q v (w', l)"
    and "\<And>w'. R (w', l)"
  shows "io_wp (open_format (v4l2_ledgered A) fuel d p b) Q R (w, l)"
  unfolding open_format_def
  using assms(1)
  by (auto simp: Let_def intro!: ledgered_ioctl_quiet assms(2,3) split: option.splits)

text \<open>The object while its buffers are mapped one by one.\<close>

definition mapping :: "nat \<Rightarrow> V4L2CameraBackend \<Rightarrow> v4l2_ledger \<Rightarrow> bool" where
  "mapping k b l \<longleftrightarrow>
     \<not> vl_misused l \<and> 0 \<le> vb_descriptor b \<and> vl_open l = {#vb_descriptor b#} \<and> vl_maps l = mapped (vb_buffers b)
     \<and> vl_queued l = {} \<and> \<not> vb_streaming b \<and> \<not> vb_queue_dirty b
     \<and> vl_owner l = vb_descriptor b \<and> vl_count l = length (vb_buffers b)
     \<and> length (vb_buffers b) < 2 ^ 32
     \<and> (\<forall>i<length (vb_buffers b). if i < k then \<exists>a. bu_address (vb_buffers b ! i) = Some a \<and> (a, i) \<in> vl_slots l
          else bu_address (vb_buffers b ! i) = None)"

lemma mapping_closable: "mapping k b l \<Longrightarrow> closable b l"
  by (auto simp: mapping_def closable_def held_def)

lemma mapping_last [simp]: "mapping k b (l\<lparr>vl_last := i\<rparr>) = mapping k b l"
  by (simp add: mapping_def)

lemma mapping_failed:
  "mapping k b l \<Longrightarrow> k < length (vb_buffers b) \<Longrightarrow>
     closable (b\<lparr>vb_buffers := (vb_buffers b)[k := \<lparr>bu_address = None, bu_length = n\<rparr>]\<rparr>) l"
  by (auto simp: mapping_def closable_def held_def mapped_update)

lemma mapping_next:
  assumes "mapping k b l" and "k < length (vb_buffers b)" and "vl_last l = k"
  shows "mapping (Suc k) (b\<lparr>vb_buffers := (vb_buffers b)[k := \<lparr>bu_address = Some a, bu_length = n\<rparr>]\<rparr>)
     (l\<lparr>vl_maps := add_mset (a, n) (vl_maps l), vl_slots := insert (a, vl_last l) (vl_slots l)\<rparr>)"
proof -
  have "bu_address (vb_buffers b ! k) = None" using assms(1,2) by (auto simp: mapping_def)
  with assms show ?thesis
    by (auto simp: mapping_def mapped_update nth_list_update less_Suc_eq split: if_splits)
qed

lemma mapping_done:
  "mapping (length (vb_buffers b)) b l \<Longrightarrow> 2 \<le> length (vb_buffers b) \<Longrightarrow> owned b l"
  by (auto simp: mapping_def owned_def buffers_ready_def)

lemma map_loop_wp:
  assumes "mapping k b l" and "k \<le> length (vb_buffers b)" and "n = length (vb_buffers b)"
    and "\<And>e b' w' l'. closable b' l' \<Longrightarrow> Q (Some e, b') (w', l')"
    and "\<And>b' w' l'. mapping n b' l' \<Longrightarrow> n = length (vb_buffers b') \<Longrightarrow> Q (None, b') (w', l')"
    and "\<And>w' l'. \<not> vl_misused l' \<Longrightarrow> R (w', l')"
  shows "io_wp (map_loop (v4l2_ledgered A) fuel [k..<n] b) Q R (w, l)"
  using assms(1-3)
proof (induction "n - k" arbitrary: k b l w)
  case 0
  then show ?case by (simp add: assms(5))
next
  case (Suc m)
  then have k: "k < n" by simp
  have fd: "vb_descriptor b \<in># vl_open l" and ok: "\<not> vl_misused l" and small: "unat (word_of_nat k :: u32) = k"
    using Suc.prems k by (auto simp: mapping_def unat_of_nat)
  have unfold: "[k..<n] = k # [Suc k..<n]" using k by (rule upt_conv_Cons)
  have step: "io_wp (map_loop (v4l2_ledgered A) fuel [Suc k..<n]
      (b\<lparr>vb_buffers := (vb_buffers b)[k := \<lparr>bu_address = Some a, bu_length = x\<rparr>]\<rparr>)) Q R
      (w', (l\<lparr>vl_last := k\<rparr>)\<lparr>vl_maps := add_mset (a, x) (vl_maps l), vl_slots := insert (a, k) (vl_slots l)\<rparr>)"
    for a x w'
    using Suc.prems Suc.hyps(2) k mapping_next [of k b "l\<lparr>vl_last := k\<rparr>" a x]
    by (intro Suc.hyps(1)) simp_all
  have failed: "closable (b\<lparr>vb_buffers := (vb_buffers b)[k := \<lparr>bu_address = None, bu_length = x\<rparr>]\<rparr>) (l\<lparr>vl_last := k\<rparr>)"
    for x using Suc.prems k mapping_failed [of k b "l\<lparr>vl_last := k\<rparr>" x] by simp
  have closable: "closable b l" using Suc.prems(1) by (rule mapping_closable)
  show ?case
    unfolding unfold map_loop.simps io_wp_bind
    using fd ok small step failed closable
    by (auto simp: Let_def intro!: ledgered_querybuf ledgered_map assms(4,6) split: option.splits)
qed

lemma open_buffers_wp:
  assumes "closable b l" and "0 \<le> vb_descriptor b" and "vb_buffers b = []"
    and "\<not> vb_queue_dirty b" and "\<not> vb_streaming b"
    and "\<And>b' w' l'. closable b' l' \<Longrightarrow> Q (Threw Bad_alloc, b') (w', l')"
    and "\<And>e b' w' l'. closable b' l' \<Longrightarrow> Q (Returned (Some e), b') (w', l')"
    and "\<And>b' w' l'. owned b' l' \<Longrightarrow> Q (Returned None, b') (w', l')"
    and "\<And>w' l'. \<not> vl_misused l' \<Longrightarrow> R (w', l')"
  shows "io_wp (open_buffers (v4l2_ledgered A) fuel b) Q R (w, l)"
proof -
  have fd: "vb_descriptor b \<in># vl_open l" and ok: "\<not> vl_misused l"
    using assms(1,2) by (auto simp: closable_def held_def)
  have requested: "closable b (l\<lparr>vl_owner := vb_descriptor b, vl_count := n, vl_slots := {}, vl_queued := {}\<rparr>)" for n
    using assms(1-4) by (auto simp: closable_def held_def)
  have start: "mapping 0 (b\<lparr>vb_buffers := replicate (unat (n :: u32)) V4L2Buffer_new\<rparr>)
      (l\<lparr>vl_owner := vb_descriptor b, vl_count := unat n, vl_slots := {}, vl_queued := {}\<rparr>)" for n
    using assms(1-5) unat_lt_size [of n] by (auto simp: mapping_def closable_def held_def)
  have two: "2 \<le> unat n" if "\<not> n < 2" for n :: u32 using that by (simp add: word_less_nat_alt)
  have loop: "io_wp (map_loop (v4l2_ledgered A) fuel [0..<unat n]
       (b\<lparr>vb_buffers := replicate (unat n) V4L2Buffer_new\<rparr>))
      (\<lambda>v. io_wp (io_return (Returned (fst v), snd v)) Q R) R
      (w', l\<lparr>vl_owner := vb_descriptor b, vl_count := unat n, vl_slots := {}, vl_queued := {}\<rparr>)"
    if "\<not> n < 2" for n :: u32 and w'
    by (rule map_loop_wp [OF start]) (use two [OF that] in \<open>auto intro!: assms(7-9) mapping_done\<close>)
  show ?thesis
    unfolding open_buffers_def
    using fd ok requested
    by (auto simp: Let_def case_prod_beta' intro!: ledgered_reqbufs loop assms(1,6-9))
qed

lemma open_device_wp:
  assumes "closable b l" and "0 \<le> vb_descriptor b" and "vb_buffers b = []"
    and "\<not> vb_queue_dirty b" and "\<not> vb_streaming b"
    and "\<And>r b' w' l'. owned b' l' \<Longrightarrow> Q (r, b') (w', l')" and "\<And>w' l'. \<not> vl_misused l' \<Longrightarrow> R (w', l')"
  shows "io_wp (open_device (v4l2_ledgered A) fuel d p b) Q R (w, l)"
proof -
  have fd: "vb_descriptor b \<in># vl_open l" and ok: "\<not> vl_misused l"
    using assms(1,2) by (auto simp: closable_def held_def)
  have failing: "io_wp (close_failing (v4l2_ledgered A) fuel b' e) Q R (w', l')" if "closable b' l'" for b' l' w' e
    using that by (auto intro!: close_failing_wp assms(6,7) owned_closed simp: closable_def)
  have throwing: "io_wp (v4l2_close (v4l2_ledgered A) fuel b') (\<lambda>v. io_wp (io_return (Threw x, v)) Q R) R (w', l')"
    if "closable b' l'" for b' l' w' x
    using that by (auto intro!: v4l2_close_wp assms(6,7) owned_closed simp: closable_def)
  have transfer: "closable b' l" if "vb_descriptor b' = vb_descriptor b" "vb_buffers b' = vb_buffers b"
    "vb_queue_dirty b' = vb_queue_dirty b" for b'
    using assms(1) that by (simp add: closable_def held_def)
  show ?thesis
    unfolding open_device_def
    using fd ok assms(2-5) transfer
    by (auto intro!: open_capability_wp open_format_wp open_buffers_wp failing throwing assms(6,7)
        split: option.splits sum.splits)
qed

lemma v4l2_open_wp:
  assumes "owned b l" and "\<And>r b' w' l'. owned b' l' \<Longrightarrow> Q (r, b') (w', l')"
    and "\<And>w' l'. \<not> vl_misused l' \<Longrightarrow> R (w', l')"
  shows "io_wp (v4l2_open (v4l2_ledgered A) fuel d b) Q R (w, l)"
proof -
  have opened: "closable (b\<lparr>vb_descriptor := fd\<rparr>) (l\<lparr>vl_open := add_mset fd (vl_open l)\<rparr>)"
    if "vb_descriptor b < 0" "0 \<le> fd" for fd
    using assms(1) that by (auto simp: owned_def closable_def clean_def closed_backend_def held_def)
  have failed: "owned (b\<lparr>vb_descriptor := fd\<rparr>) l" if "vb_descriptor b < 0" "fd < 0" for fd
    using assms(1) that by (auto simp: owned_def closed_backend_def)
  have closed: "vb_buffers b = [] \<and> \<not> vb_queue_dirty b \<and> \<not> vb_streaming b" if "vb_descriptor b < 0"
    using assms(1) that by (simp add: owned_def closed_backend_def)
  show ?thesis
    unfolding v4l2_open_def Let_def
    using closed by (auto intro!: open_device_wp opened failed assms)
qed

section \<open>Starting and stopping\<close>

lemma queue_loop_wp:
  assumes "fd \<in># vl_open l" and "\<not> vl_misused l" and "vl_count l = n" and "n < 2 ^ 32" and "k \<le> n"
    and "vl_queued l = {..<k}"
    and "\<And>w' j. Q False (w', l\<lparr>vl_queued := {..<j}\<rparr>)"
    and "\<And>w'. Q True (w', l\<lparr>vl_queued := {..<n}\<rparr>)"
    and "\<And>w' l'. \<not> vl_misused l' \<Longrightarrow> R (w', l')"
  shows "io_wp (queue_loop (v4l2_ledgered A) fuel fd [k..<n]) Q R (w, l)"
proof -
  have "io_wp (queue_loop (v4l2_ledgered A) fuel fd [k..<n]) Q R (w, l\<lparr>vl_queued := {..<k}\<rparr>)"
    using assms(5)
  proof (induction "n - k" arbitrary: k w)
    case 0
    then show ?case using assms(8) by simp
  next
    case (Suc m)
    then have k: "k < n" by simp
    then have unfold: "[k..<n] = k # [Suc k..<n]" by (rule upt_conv_Cons)
    have small: "unat (word_of_nat k :: u32) = k" using k assms(4) by (simp add: unat_of_nat)
    have more_queued: "insert k {..<k} = {..<Suc k}" by auto
    have step: "io_wp (queue_loop (v4l2_ledgered A) fuel fd [Suc k..<n]) Q R (w', l\<lparr>vl_queued := {..<Suc k}\<rparr>)" for w'
      using Suc.hyps(2) k by (intro Suc.hyps(1)) simp_all
    show ?case
      unfolding unfold queue_loop.simps io_wp_bind
      using k small step assms(1-3)
      by (auto simp: more_queued intro!: ledgered_qbuf assms(7,9))
  qed
  moreover have "l\<lparr>vl_queued := {..<k}\<rparr> = l" using assms(6) by (cases l) simp
  ultimately show ?thesis by simp
qed

lemma failStart_wp:
  assumes "closable b l" and "0 \<le> vb_descriptor b" and "vb_queue_dirty b"
    and "owned (b\<lparr>vb_queue_dirty := False, vb_streaming := False\<rparr>) (l\<lparr>vl_queued := {}\<rparr>)"
    and "\<And>r b' w' l'. owned b' l' \<Longrightarrow> Q (r, b') (w', l')"
    and "\<And>w' l'. \<not> vl_misused l' \<Longrightarrow> R (w', l')"
  shows "io_wp (failStart (v4l2_ledgered A) fuel m e b) Q R (w, l)"
proof -
  have fd: "vb_descriptor b \<in># vl_open l" and ok: "\<not> vl_misused l"
    using assms(1,2) by (auto simp: closable_def held_def)
  show ?thesis
    unfolding failStart_def
    using fd ok assms(1-4) by (auto intro!: resetQueue_wp v4l2_close_wp owned_closed assms(5,6))
qed

lemma v4l2_start_wp:
  assumes "owned b l" and "\<And>r b' w' l'. owned b' l' \<Longrightarrow> Q (r, b') (w', l')"
    and "\<And>w' l'. \<not> vl_misused l' \<Longrightarrow> R (w', l')"
  shows "io_wp (v4l2_start (v4l2_ledgered A) fuel b) Q R (w, l)"
proof (cases "vb_descriptor b < 0 \<or> vb_streaming b")
  case True
  then show ?thesis using assms by (auto simp: v4l2_start_def)
next
  case False
  let ?b = "b\<lparr>vb_queue_dirty := True\<rparr>"
  let ?n = "length (vb_buffers b)"
  have facts: "vb_descriptor b \<in># vl_open l" "\<not> vl_misused l" "vl_count l = ?n" "?n < 2 ^ 32"
    "vl_queued l = {..<0}" "0 \<noteq> ?n" "vl_owner l = vb_descriptor b"
    using assms(1) False by (auto simp: owned_def buffers_ready_def)
  have closable: "closable ?b (l\<lparr>vl_queued := {..<j}\<rparr>)" for j
    using owned_closable [OF assms(1)] facts(7) False by (auto simp: closable_def held_def)
  have reset: "owned (?b\<lparr>vb_queue_dirty := False, vb_streaming := False\<rparr>) (l\<lparr>vl_queued := {..<j}, vl_queued := {}\<rparr>)" for j
    using assms(1) False by (auto simp: owned_def buffers_ready_def)
  have streaming: "owned (?b\<lparr>vb_streaming := True\<rparr>) (l\<lparr>vl_queued := {..<?n}\<rparr>)"
    using assms(1) False by (auto simp: owned_def buffers_ready_def)
  have failing: "io_wp (failStart (v4l2_ledgered A) fuel m e ?b) Q R (w', l\<lparr>vl_queued := {..<j}\<rparr>)" for m e j w'
    using closable reset False by (intro failStart_wp assms(2,3)) simp_all
  have started: "io_wp (cameraIoctl (v4l2_ledgered A) fuel (vc_streamon (v4l2_ledgered A) (vb_descriptor b))) Q' R
      (w', l\<lparr>vl_queued := {..<?n}\<rparr>)"
    if "\<And>v w'. Q' v (w', l\<lparr>vl_queued := {..<?n}\<rparr>)" for w' Q'
    using facts that by (intro ledgered_streamon) (auto intro!: assms(3))
  show ?thesis
    unfolding v4l2_start_def Let_def
    using False streaming
    by simp (rule queue_loop_wp [OF facts(1-4) _ facts(5)];
      auto intro!: failing [simplified] started assms(2,3) simp: failing split: option.splits)
qed

lemma v4l2_stop_wp:
  assumes "owned b l" and "\<And>r b' w' l'. owned b' l' \<Longrightarrow> Q (r, b') (w', l')"
    and "\<And>w' l'. \<not> vl_misused l' \<Longrightarrow> R (w', l')"
  shows "io_wp (v4l2_stop (v4l2_ledgered A) fuel b) Q R (w, l)"
proof (cases "vb_streaming b")
  case False
  then show ?thesis using assms by (simp add: v4l2_stop_def)
next
  case True
  have facts: "vb_queue_dirty b" "vb_descriptor b \<in># vl_open l" "\<not> vl_misused l"
    using assms(1) True by (auto simp: owned_def closed_backend_def split: if_splits)
  have stopped: "owned (b\<lparr>vb_queue_dirty := False, vb_streaming := False\<rparr>) (l\<lparr>vl_queued := {}\<rparr>)"
    using assms(1) True by (auto simp: owned_def closed_backend_def buffers_ready_def split: if_splits)
  show ?thesis
    unfolding v4l2_stop_def
    using True facts stopped owned_closable [OF assms(1)]
    by (auto intro!: resetQueue_wp close_failing_wp owned_closed assms(2,3))
qed

section \<open>Reading\<close>

lemma wait_frame_wp:
  assumes "fd \<in># vl_open l" and "\<not> vl_misused l" and "\<And>e w'. Q (Inl e) (w', l)"
    and "\<And>x w'. Q (Inr x) (w', l\<lparr>vl_queued := vl_queued l - {unat (vf_index x)}\<rparr>)"
    and "\<And>w' l'. \<not> vl_misused l' \<Longrightarrow> R (w', l')"
  shows "io_wp (wait_frame (v4l2_ledgered A) fuel fd d) Q R (w, l)"
proof (induction fuel arbitrary: w)
  case 0
  then show ?case by (simp add: assms(2,5))
next
  case (Suc fuel)
  then show ?case
    using assms(1,2)
    by (auto simp: Let_def intro!: ledgered_dqbuf assms(3-5) split: option.splits prod.splits)
qed

text \<open>A streaming object one of whose buffers is on lease.\<close>

definition leased :: "u32 \<Rightarrow> V4L2CameraBackend \<Rightarrow> v4l2_ledger \<Rightarrow> bool" where
  "leased i b l \<longleftrightarrow>
     unat i < length (vb_buffers b) \<and> unat i \<notin> vl_queued l \<and> 0 \<le> vb_descriptor b
     \<and> owned b (l\<lparr>vl_queued := insert (unat i) (vl_queued l)\<rparr>)"

lemma leased_closable: "leased i b l \<Longrightarrow> closable b l"
  by (auto simp: leased_def owned_def closable_def held_def buffers_ready_def)

lemma leased_not_misused: "leased i b l \<Longrightarrow> \<not> vl_misused l"
  by (auto simp: leased_def owned_def)

lemma release_buffer_wp:
  assumes "leased i b l"
    and "\<And>w'. Q (0, b) (w', l\<lparr>vl_queued := insert (unat i) (vl_queued l)\<rparr>)"
    and "\<And>e b' w' l'. closed_backend b' \<Longrightarrow> clean l' \<Longrightarrow> Q (e, b') (w', l')"
    and "\<And>w' l'. \<not> vl_misused l' \<Longrightarrow> R (w', l')"
  shows "io_wp (release_buffer (v4l2_ledgered A) fuel i b) Q R (w, l)"
proof -
  have facts: "vb_descriptor b \<in># vl_open l" "unat i < vl_count l" "unat i \<notin> vl_queued l" "\<not> vl_misused l"
    using assms(1) by (auto simp: leased_def owned_def buffers_ready_def)
  show ?thesis
    unfolding release_buffer_def
    using facts leased_closable [OF assms(1)] by (auto intro!: ledgered_qbuf v4l2_close_wp assms(2-4))
qed

lemma leave_releasing_wp:
  assumes "leased i b l" and "\<And>r b' w' l'. owned b' l' \<Longrightarrow> Q (r, b') (w', l')"
    and "\<And>w' l'. \<not> vl_misused l' \<Longrightarrow> R (w', l')"
  shows "io_wp (leave_releasing (v4l2_ledgered A) fuel i b r) Q R (w, l)"
  unfolding leave_releasing_def
  using assms(1) by (auto intro!: release_buffer_wp [OF assms(1)] owned_closed assms(2,3) simp: leased_def)

lemma frame_timestamp_quiet:
  assumes "\<And>v w'. Q v (w', l)" and "\<And>w'. R (w', l)"
  shows "io_wp (frame_timestamp (v4l2_ledgered A) x) Q R (w, l)"
  unfolding frame_timestamp_def by (auto intro!: assms split: option.splits)

lemma take_frame_wp:
  assumes "owned b l" and "vb_streaming b"
    and "\<And>r b' w' l'. owned b' l' \<Longrightarrow> Q (r, b') (w', l')"
    and "\<And>w' l'. \<not> vl_misused l' \<Longrightarrow> R (w', l')"
  shows "io_wp (take_frame (v4l2_ledgered A) fuel x b) Q R (w, l\<lparr>vl_queued := vl_queued l - {unat (vf_index x)}\<rparr>)"
    (is "io_wp _ Q R (w, ?l)")
proof (cases "length (vb_buffers b) \<le> unat (vf_index x)")
  case True
  have "closable b ?l" using owned_closable [OF assms(1)] by (auto simp: closable_def)
  moreover have "\<not> vl_misused ?l" using owned_not_misused [OF assms(1)] by simp
  ultimately show ?thesis
    using True by (auto simp: take_frame_def intro!: close_failing_wp owned_closed assms(3,4))
next
  case False
  let ?i = "unat (vf_index x)"
  have open_b: "0 \<le> vb_descriptor b"
    using assms(1,2) by (auto simp: owned_def closed_backend_def split: if_splits)
  then have queued: "vl_queued l = {..<length (vb_buffers b)}" and ready: "buffers_ready b l"
    and maps: "vl_maps l = mapped (vb_buffers b)"
    using assms(1,2) by (auto simp: owned_def)
  have "l\<lparr>vl_queued := insert ?i (vl_queued l - {?i})\<rparr> = l"
    using queued False by (cases l) (auto simp: insert_absorb)
  then have lease: "leased (vf_index x) b ?l"
    using assms(1) False open_b by (simp add: leased_def)
  obtain a where a: "bu_address (vb_buffers b ! ?i) = Some a" "(a, ?i) \<in> vl_slots l"
    using ready False unfolding buffers_ready_def not_le by blast
  have count: "?i < vl_count l" using ready False by (simp add: buffers_ready_def)
  have mem: "(a, bu_length (vb_buffers b ! ?i)) \<in># vl_maps l"
    using mapped_member [of ?i "vb_buffers b" a] a(1) False maps by simp
  have leave: "io_wp (leave_releasing (v4l2_ledgered A) fuel (vf_index x) b r) Q R (w', ?l)" for r w'
    by (rule leave_releasing_wp [OF lease]) (rule assms(3,4); assumption)+
  have taken: "io_wp (io_call (vc_memory (v4l2_ledgered A) a (unat (vf_bytesused x)))) Q' R (w', ?l)"
    if "\<not> bu_length (vb_buffers b ! ?i) < ucast (vf_bytesused x)" "\<And>v w'. Q' v (w', ?l)" for Q' w'
    using mem a(2) count that
    by (intro ledgered_memory [where m = "bu_length (vb_buffers b ! ?i)" and i = ?i])
       (auto simp: word_less_nat_alt not_less)
  have returned: "io_wp (release_buffer (v4l2_ledgered A) fuel (vf_index x) b) Q' R (w', ?l)"
    if "\<And>c b' w' l'. owned b' l' \<Longrightarrow> Q' (c, b') (w', l')" for Q' w'
    using lease that by (auto intro!: release_buffer_wp [OF lease] owned_closed assms(4) simp: leased_def)
  have ok: "\<not> vl_misused ?l" using lease by (rule leased_not_misused)
  show ?thesis
    unfolding take_frame_def
    using False a(1) ok
    by (auto simp: Let_def intro!: leave taken frame_timestamp_quiet returned assms(3,4))
qed

lemma v4l2_readFrame_wp:
  assumes "owned b l" and "\<And>r b' w' l'. owned b' l' \<Longrightarrow> Q (r, b') (w', l')"
    and "\<And>w' l'. \<not> vl_misused l' \<Longrightarrow> R (w', l')"
  shows "io_wp (v4l2_readFrame (v4l2_ledgered A) fuel t b) Q R (w, l)"
proof (cases "vb_streaming b")
  case False
  then show ?thesis using assms by (simp add: v4l2_readFrame_def)
next
  case True
  have facts: "vb_descriptor b \<in># vl_open l" "\<not> vl_misused l"
    using assms(1) True by (auto simp: owned_def closed_backend_def split: if_splits)
  show ?thesis
    unfolding v4l2_readFrame_def
    using True facts owned_closable [OF assms(1)] assms(1)
    by (auto intro!: wait_frame_wp close_failing_wp owned_closed take_frame_wp assms(2,3) split: option.splits)
qed

section \<open>Controls and extension units\<close>

lemma v4l2_getControl_quiet:
  assumes "owned b l" and "\<And>v w'. Q v (w', l)" and "\<And>w'. R (w', l)"
  shows "io_wp (v4l2_getControl (v4l2_ledgered A) fuel b c) Q R (w, l)"
proof -
  note fd = owned_open_descriptor [OF assms(1)]
  show ?thesis
    unfolding v4l2_getControl_def Let_def
    by (auto intro!: control_enabled_quiet [OF fd] ledgered_ioctl_quiet [OF fd] assms(2,3) split: option.splits)
qed

lemma v4l2_setControl_quiet:
  assumes "owned b l" and "\<And>v w'. Q v (w', l)" and "\<And>w'. R (w', l)"
  shows "io_wp (v4l2_setControl (v4l2_ledgered A) fuel b v) Q R (w, l)"
proof -
  note fd = owned_open_descriptor [OF assms(1)]
  have "io_wp (set_automatic (v4l2_ledgered A) fuel (vb_descriptor b) m) Q R (w', l)" for m w'
    unfolding set_automatic_def
    by (auto intro!: control_enabled_quiet [OF fd] ledgered_ioctl_quiet [OF fd] assms(2,3) split: option.splits)
  moreover have "io_wp (set_manual (v4l2_ledgered A) fuel (vb_descriptor b) m q x) Q R (w', l)" for m q x w'
    unfolding set_manual_def leave_automatic_def Let_def
    by (auto intro!: control_enabled_quiet [OF fd] ledgered_ioctl_quiet [OF fd] assms(2,3) split: option.splits)
  ultimately show ?thesis
    unfolding v4l2_setControl_def Let_def
    by (auto intro!: control_enabled_quiet [OF fd] assms(2,3) split: option.splits)
qed

lemma v4l2_extension_quiet:
  assumes "owned b l"
  shows "(\<And>v w'. Q1 v (w', l)) \<Longrightarrow> (\<And>w'. R1 (w', l)) \<Longrightarrow>
      io_wp (v4l2_getExtensionUnit (v4l2_ledgered A) fuel b s) Q1 R1 (w, l)"
    and "(\<And>v w'. Q2 v (w', l)) \<Longrightarrow> (\<And>w'. R2 (w', l)) \<Longrightarrow>
      io_wp (v4l2_setExtensionUnit (v4l2_ledgered A) fuel b v) Q2 R2 (w, l)"
proof -
  note fd = owned_open_descriptor [OF assms]
  show "(\<And>v w'. Q1 v (w', l)) \<Longrightarrow> (\<And>w'. R1 (w', l)) \<Longrightarrow>
      io_wp (v4l2_getExtensionUnit (v4l2_ledgered A) fuel b s) Q1 R1 (w, l)"
    unfolding v4l2_getExtensionUnit_def Let_def
    by (auto intro!: ledgered_ioctl_quiet [OF fd] split: option.splits)
  show "(\<And>v w'. Q2 v (w', l)) \<Longrightarrow> (\<And>w'. R2 (w', l)) \<Longrightarrow>
      io_wp (v4l2_setExtensionUnit (v4l2_ledgered A) fuel b v) Q2 R2 (w, l)"
    unfolding v4l2_setExtensionUnit_def Let_def
    by (auto intro!: ledgered_ioctl_quiet [OF fd] split: option.splits)
qed

end
