(* ===== verification/V4l2Sample.thy ===== *)
theory V4l2Sample
  imports V4l2Steps
begin

text \<open>
  A camera for the witnesses: a 4 by 4 grey device with two buffers, a clock that advances by one,
  and a brightness control that keeps what is written to it; every call succeeds.  The lemmas run
  the backend on it.
\<close>

section \<open>The device\<close>

definition sample_table :: "v4l2_cid \<Rightarrow> v4l2_queryctrl option" where
  "sample_table c =
     (if c = CID_BRIGHTNESS
      then Some \<lparr>vk_name = ''Brightness'', vk_minimum = 0, vk_maximum = 10, vk_step = 2,
                 vk_default_value = 4, vk_flags = 0\<rparr>
      else None)"

definition sample_kernel :: "(int \<times> (v4l2_cid \<Rightarrow> int)) v4l2_api" where
  "sample_kernel =
     \<lparr>vc_errno = (\<lambda>w. 0),
      vc_now = (\<lambda>w. (min (fst w) clock_max, (fst w + 1, snd w))),
      vc_alloc = (\<lambda>n w. (True, w)),
      vc_open = (\<lambda>p w. (3, w)),
      vc_close = (\<lambda>fd w. w),
      vc_map = (\<lambda>n fd off w. (Some (unat off), w)),
      vc_unmap = (\<lambda>a n w. w),
      vc_memory = (\<lambda>a n w. (replicate n 7, w)),
      vc_poll = (\<lambda>fd t w. ((1, poll_in), w)),
      vc_querycap = (\<lambda>fd w. (Some \<lparr>vq_driver = ''uvcvideo'', vq_card = ''Cam'', vq_bus_info = ''usb'',
         vq_capabilities = 0x04000001, vq_device_caps = 0\<rparr>, w)),
      vc_s_fmt = (\<lambda>fd x y p w. (Some \<lparr>vx_width = x, vx_height = y, vx_pixelformat = p, vx_bytesperline = x\<rparr>, w)),
      vc_s_parm = (\<lambda>fd n d w. (Some (), w)),
      vc_reqbufs = (\<lambda>fd n w. (Some 2, w)),
      vc_querybuf = (\<lambda>fd i w. (Some (16, i * 16), w)),
      vc_qbuf = (\<lambda>fd i w. (Some (), w)),
      vc_dqbuf = (\<lambda>fd w. (Some \<lparr>vf_index = 0, vf_bytesused = 16, vf_flags = 0, vf_sequence = 5,
         vf_tv_sec = 0, vf_tv_usec = 0\<rparr>, w)),
      vc_streamon = (\<lambda>fd w. (Some (), w)),
      vc_streamoff = (\<lambda>fd w. (Some (), w)),
      vc_queryctrl = (\<lambda>fd c w. (sample_table c, w)),
      vc_g_ctrl = (\<lambda>fd c w. (Some (snd w c), w)),
      vc_s_ctrl = (\<lambda>fd c v w. (Some (), (fst w, (snd w)(c := v)))),
      vc_enum_fmt = (\<lambda>fd i w. (None, w)),
      vc_enum_framesizes = (\<lambda>fd i p w. (None, w)),
      vc_enum_frameintervals = (\<lambda>fd i p x y w. (None, w)),
      vc_xu_get_len = (\<lambda>fd u s w. (None, w)),
      vc_xu_get_cur = (\<lambda>fd u s n w. (None, w)),
      vc_xu_set_cur = (\<lambda>fd u s bs w. (None, w)),
      vc_canonical = (\<lambda>p w. (None, w)),
      vc_first_word = (\<lambda>p w. (None, w)),
      vc_first_line = (\<lambda>p w. ([], w))\<rparr>"

definition sample_open_description :: sCameraOpenDescription where
  "sample_open_description =
     \<lparr>od_device = \<lparr>di_backend = Video4Linux2, di_id = ''/dev/video0'', di_display_name = ''Cam'',
        di_transport = ''usb'', di_transport_type = UsbUvc,
        di_usb = \<lparr>usb_vendor_id = 0, usb_product_id = 0, usb_serial_number = [], usb_uvc_version_bcd = 0\<rparr>\<rparr>,
      od_format = \<lparr>cf_width = 4, cf_height = 4, cf_frame_rate_numerator = 30, cf_frame_rate_denominator = 1,
        cf_pixel_format = Gray8\<rparr>,
      od_native_pixel_format = Gray8, od_allow_format_conversion = False\<rparr>"

definition sample_opened :: V4L2CameraBackend where
  "sample_opened =
     \<lparr>vb_descriptor = 3, vb_streaming = False, vb_queue_dirty = False, vb_uvc_transport = True,
      vb_buffers = [\<lparr>bu_address = Some 0, bu_length = 16\<rparr>, \<lparr>bu_address = Some 16, bu_length = 16\<rparr>],
      vb_frame_description = \<lparr>fd_width = 4, fd_height = 4, fd_pixel_format = Gray8, fd_row_stride = 4\<rparr>\<rparr>"

definition sample_started :: V4L2CameraBackend where
  "sample_started = sample_opened\<lparr>vb_streaming := True, vb_queue_dirty := True\<rparr>"

definition sample_frame :: "int \<Rightarrow> sCameraFrame" where
  "sample_frame t =
     \<lparr>cm_description = vb_frame_description sample_opened, cm_data = replicate 16 7,
      cm_sequence = 5, cm_timestamp = t\<rparr>"

section \<open>Running the backend\<close>

lemma io_steps:
  "io_bind m f w = (case m w of (Done v, w') \<Rightarrow> f v w' | (Undefined, w') \<Rightarrow> (Undefined, w')
     | (Pending, w') \<Rightarrow> (Pending, w'))"
  "io_return x w = (Done x, w)" "io_call g w = (case g w of (v, w') \<Rightarrow> (Done v, w'))"
  "io_do h w = (Done (), h w)"
  by (simp_all add: io_bind_def io_return_def io_call_def io_do_def split: prod.splits outcome.splits)

lemma sample_calls:
  "vc_open sample_kernel path w = (3, w)"
  "vc_querycap sample_kernel fd w = (Some \<lparr>vq_driver = ''uvcvideo'', vq_card = ''Cam'', vq_bus_info = ''usb'',
         vq_capabilities = 0x04000001, vq_device_caps = 0\<rparr>, w)"
  "vc_s_fmt sample_kernel fd x y p w = (Some \<lparr>vx_width = x, vx_height = y, vx_pixelformat = p, vx_bytesperline = x\<rparr>, w)"
  "vc_s_parm sample_kernel fd n d w = (Some (), w)"
  "vc_reqbufs sample_kernel fd m w = (Some 2, w)"
  "vc_alloc sample_kernel k w = (True, w)"
  "vc_querybuf sample_kernel fd i w = (Some (16, i * 16), w)"
  "vc_map sample_kernel l fd off w = (Some (unat off), w)"
  "vc_qbuf sample_kernel fd i w = (Some (), w)"
  "vc_streamon sample_kernel fd w = (Some (), w)"
  "vc_now sample_kernel w = (min (fst w) clock_max, (fst w + 1, snd w))"
  "vc_poll sample_kernel fd t w = ((1, poll_in), w)"
  "vc_dqbuf sample_kernel fd w = (Some \<lparr>vf_index = 0, vf_bytesused = 16, vf_flags = 0, vf_sequence = 5,
         vf_tv_sec = 0, vf_tv_usec = 0\<rparr>, w)"
  "vc_memory sample_kernel a k w = (replicate k 7, w)"
  by (simp_all add: sample_kernel_def)

lemma sample_flags:
  "flagged (0x04000001 :: u32) CAP_DEVICE_CAPS \<longleftrightarrow> False"
  "flagged (0x04000001 :: u32) CAP_VIDEO_CAPTURE" "flagged (0x04000001 :: u32) CAP_STREAMING"
  "flagged poll_in poll_in" "\<not> flagged poll_in poll_broken" "\<not> flagged (0 :: u32) flag"
  by (simp_all add: flagged_def CAP_DEVICE_CAPS_def CAP_VIDEO_CAPTURE_def CAP_STREAMING_def poll_in_def
      poll_broken_def)

lemma sample_indices: "[0..<2] = [0, 1]" "replicate 2 x = [x, x]" "length [x, y] = 2"
  by (simp_all add: numeral_2_eq_2)

lemma sample_frame_valid: "frame_valid (sample_frame t)"
  by (simp add: sample_frame_def sample_opened_def frame_valid_def description_valid_def memorySize_def
      minimumRowStride_def bytesPerPixel_def Let_def)

lemma sample_open_value:
  "v4l2_open sample_kernel (Suc 0) sample_open_description V4L2CameraBackend_new w =
     (Done (Returned (Success ()), sample_opened), w)"
  by (simp add: v4l2_open_def open_device_def open_capability_def open_format_def open_buffers_def
      queryCaptureCapability_def open_description_def sample_open_description_def V4L2CameraBackend_new_def
      sample_opened_def V4L2Buffer_new_def io_steps sample_calls sample_flags
      sample_indices pix_fmt_defs Let_def)

lemma sample_start_value:
  "v4l2_start sample_kernel (Suc 0) sample_opened w = (Done (Returned (Success ()), sample_started), w)"
  by (simp add: v4l2_start_def sample_opened_def sample_started_def io_steps sample_calls Let_def)

lemma sample_read_value:
  "v4l2_readFrame sample_kernel (Suc 0) 5 sample_started (0, s) =
     (Done (Returned (Success (sample_frame 3)), sample_started), (4, s))"
  by (simp add: v4l2_readFrame_def take_frame_def frame_timestamp_def release_buffer_def sample_opened_def
      sample_started_def sample_frame_def io_steps sample_calls Let_def i64_add_def i64_sub_def in_i64_def
      io_option_def clock_max_def sample_flags int_max_def
      sample_frame_valid [unfolded sample_frame_def sample_opened_def, simplified])

lemma sample_ledgered_run:
  "io_bind (v4l2_open (v4l2_ledgered sample_kernel) (Suc 0) sample_open_description V4L2CameraBackend_new)
     (\<lambda>(r, b). io_bind (v4l2_start (v4l2_ledgered sample_kernel) (Suc 0) b) (\<lambda>(r', b'). io_return b'))
     (w, v4l2_ledger_empty) =
   (Done sample_started, w, v4l2_ledger_empty\<lparr>vl_open := {#3#}, vl_maps := {#(0, 16), (16, 16)#},
      vl_slots := {(0, 0), (16, 1)}, vl_last := 1, vl_owner := 3, vl_count := 2, vl_queued := {0, 1}\<rparr>)"
  by (simp add: v4l2_open_def open_device_def open_capability_def open_format_def open_buffers_def
      queryCaptureCapability_def open_description_def sample_open_description_def V4L2CameraBackend_new_def
      sample_opened_def sample_started_def V4L2Buffer_new_def io_steps sample_calls sample_flags
      sample_indices pix_fmt_defs Let_def v4l2_start_def
      v4l2_ledgered_def beside_def note_open_def note_map_def note_buffers_def note_queued_def note_queried_def
      note_started_def vl_use_def vl_require_def v4l2_ledger_empty_def insert_commute add_mset_commute)

end
