(* ===== verification/V4l2Correct.thy ===== *)
theory V4l2Correct
  imports V4l2Sample SocketReturns
begin

text \<open>
  The properties of the Video4Linux2 backend: what it owns after every sequence of operations, the
  frames it delivers, the controls of a device that keeps what is written, and that reading returns.
\<close>

section \<open>Sequences of operations\<close>

datatype v4l2_op =
    Op_open sCameraOpenDescription | Op_close | Op_start | Op_stop | Op_read u32
  | Op_getControl eCameraControl | Op_setControl sCameraControlValue
  | Op_getExtension sCameraExtensionUnitSelector | Op_setExtension sCameraExtensionUnitValue
  | Op_enumerate | Op_capabilities sCameraDeviceInfo

fun v4l2_do :: "'w v4l2_api \<Rightarrow> nat \<Rightarrow> v4l2_op \<Rightarrow> V4L2CameraBackend \<Rightarrow> ('w, V4L2CameraBackend) io" where
  "v4l2_do A fuel (Op_open d) b = io_bind (v4l2_open A fuel d b) (\<lambda>(r, b'). io_return b')"
| "v4l2_do A fuel Op_close b = v4l2_close A fuel b"
| "v4l2_do A fuel Op_start b = io_bind (v4l2_start A fuel b) (\<lambda>(r, b'). io_return b')"
| "v4l2_do A fuel Op_stop b = io_bind (v4l2_stop A fuel b) (\<lambda>(r, b'). io_return b')"
| "v4l2_do A fuel (Op_read t) b = io_bind (v4l2_readFrame A fuel t b) (\<lambda>(r, b'). io_return b')"
| "v4l2_do A fuel (Op_getControl c) b = io_bind (v4l2_getControl A fuel b c) (\<lambda>r. io_return b)"
| "v4l2_do A fuel (Op_setControl v) b = io_bind (v4l2_setControl A fuel b v) (\<lambda>r. io_return b)"
| "v4l2_do A fuel (Op_getExtension s) b = io_bind (v4l2_getExtensionUnit A fuel b s) (\<lambda>r. io_return b)"
| "v4l2_do A fuel (Op_setExtension v) b = io_bind (v4l2_setExtensionUnit A fuel b v) (\<lambda>r. io_return b)"
| "v4l2_do A fuel Op_enumerate b = io_bind (enumerateV4L2Cameras A fuel) (\<lambda>r. io_return b)"
| "v4l2_do A fuel (Op_capabilities d) b = io_bind (v4l2Capabilities A fuel d) (\<lambda>r. io_return b)"

fun v4l2_run :: "'w v4l2_api \<Rightarrow> nat \<Rightarrow> v4l2_op list \<Rightarrow> V4L2CameraBackend \<Rightarrow> ('w, V4L2CameraBackend) io" where
  "v4l2_run A fuel [] b = io_return b"
| "v4l2_run A fuel (x # xs) b = io_bind (v4l2_do A fuel x b) (\<lambda>b'. v4l2_run A fuel xs b')"

lemma v4l2_do_wp:
  assumes "owned b l" and "\<And>b' w' l'. owned b' l' \<Longrightarrow> Q b' (w', l')"
    and "\<And>w' l'. \<not> vl_misused l' \<Longrightarrow> R (w', l')"
  shows "io_wp (v4l2_do (v4l2_ledgered A) fuel x b) Q R (w, l)"
proof -
  have ok: "\<not> vl_misused l" using assms(1) by (rule owned_not_misused)
  show ?thesis
    using assms(1) ok owned_closable [OF assms(1)]
    by (cases x)
       (auto intro!: v4l2_open_wp v4l2_close_wp v4l2_start_wp v4l2_stop_wp v4l2_readFrame_wp
         v4l2_getControl_quiet v4l2_setControl_quiet v4l2_extension_quiet enumerate_wp [OF assms(1)]
         v4l2Capabilities_wp [OF assms(1)] assms(2,3) intro: owned_closed)
qed

lemma v4l2_run_wp:
  assumes "owned b l"
  shows "io_wp (v4l2_run (v4l2_ledgered A) fuel xs b) (\<lambda>b' (w', l'). owned b' l')
     (\<lambda>(w', l'). \<not> vl_misused l') (w, l)"
  using assms
proof (induction xs arbitrary: b w l)
  case Nil
  then show ?case by simp
next
  case (Cons x xs)
  then show ?case by (auto intro!: v4l2_do_wp)
qed

lemma owned_new: "owned V4L2CameraBackend_new v4l2_ledger_empty"
  by (simp add: owned_def closed_backend_def clean_def V4L2CameraBackend_new_def v4l2_ledger_empty_def)

text \<open>
  C17. The Video4Linux2 backend owns what it opens.  Whatever the kernel answers, whatever fails and
  whichever operations a program calls in whichever order: no call is a misuse (a closed descriptor,
  a buffer queued twice or not there, an unmapping of what is not mapped or while the driver holds
  buffers, a read of a buffer the driver holds or beyond its mapping), even when an operation never
  returns; between operations the only open descriptor is the one the object holds, the live
  mappings are exactly those of its buffers, and the driver holds every buffer while the camera
  streams and none otherwise; and closing leaves nothing open, mapped or queued.
\<close>

theorem v4l2_resources_owned:
  "case v4l2_run (v4l2_ledgered A) fuel xs V4L2CameraBackend_new (w, v4l2_ledger_empty) of (r, w1, l) \<Rightarrow>
     \<not> vl_misused l
     \<and> (\<forall>b. r = Done b \<longrightarrow>
          vl_open l = (if v4l2_isOpen b then {#vb_descriptor b#} else {#})
          \<and> vl_maps l = mapped (vb_buffers b)
          \<and> vl_queued l = (if v4l2_isStreaming b then {..<length (vb_buffers b)} else {})
          \<and> (\<not> v4l2_isOpen b \<longrightarrow> \<not> v4l2_isStreaming b \<and> vb_buffers b = [])
          \<and> (\<forall>b2 w2 l2. v4l2_close (v4l2_ledgered A) fuel b (w1, l) = (Done b2, w2, l2) \<longrightarrow>
               \<not> v4l2_isOpen b2 \<and> \<not> vl_misused l2 \<and> vl_open l2 = {#} \<and> vl_maps l2 = {#} \<and> vl_queued l2 = {}))"
proof -
  obtain r w1 l where run: "v4l2_run (v4l2_ledgered A) fuel xs V4L2CameraBackend_new (w, v4l2_ledger_empty) = (r, w1, l)"
    by (metis prod_cases3)
  have wp: "case r of Done b \<Rightarrow> owned b l | _ \<Rightarrow> \<not> vl_misused l"
    using v4l2_run_wp [OF owned_new, of A fuel xs w] run by (auto simp: io_wp_def split: outcome.splits)
  have closes: "\<not> v4l2_isOpen b2 \<and> \<not> vl_misused l2 \<and> vl_open l2 = {#} \<and> vl_maps l2 = {#} \<and> vl_queued l2 = {}"
    if "r = Done b" "v4l2_close (v4l2_ledgered A) fuel b (w1, l) = (Done b2, w2, l2)" for b b2 w2 l2
  proof -
    have "owned b l" using wp that(1) by simp
    then have "io_wp (v4l2_close (v4l2_ledgered A) fuel b)
        (\<lambda>b' (w', l'). closed_backend b' \<and> clean l') (\<lambda>_. True) (w1, l)"
      by (auto intro!: v4l2_close_wp owned_closable)
    from io_wp_done [OF this that(2)] show ?thesis by (auto simp: closed_backend_def clean_def v4l2_isOpen_def)
  qed
  have m: "\<not> vl_misused l" using wp by (cases r) (auto dest: owned_not_misused)
  have owns: "vl_open l = (if v4l2_isOpen b then {#vb_descriptor b#} else {#})
      \<and> vl_maps l = mapped (vb_buffers b)
      \<and> vl_queued l = (if v4l2_isStreaming b then {..<length (vb_buffers b)} else {})
      \<and> (\<not> v4l2_isOpen b \<longrightarrow> \<not> v4l2_isStreaming b \<and> vb_buffers b = [])" if "r = Done b" for b
    using wp that
    by (auto simp: owned_def closed_backend_def clean_def v4l2_isOpen_def v4l2_isStreaming_def split: if_splits)
  show ?thesis unfolding run prod.case using m owns closes by blast
qed

lemma sample_run_value:
  "v4l2_run (v4l2_ledgered sample_kernel) (Suc 0) [Op_open sample_open_description, Op_start]
     V4L2CameraBackend_new (w, v4l2_ledger_empty) =
   (Done sample_started, w, v4l2_ledger_empty\<lparr>vl_open := {#3#}, vl_maps := {#(0, 16), (16, 16)#},
      vl_slots := {(0, 0), (16, 1)}, vl_last := 1, vl_owner := 3, vl_count := 2, vl_queued := {0, 1}\<rparr>)"
  using sample_ledgered_run [of w] by (auto simp: io_steps split: prod.splits outcome.splits)

theorem v4l2_resources_owned_witness:
  "v4l2_isStreaming sample_started \<and> mapped (vb_buffers sample_started) = {#(0, 16), (16, 16)#}"
  using v4l2_resources_owned [of sample_kernel "Suc 0" "[Op_open sample_open_description, Op_start]" "(0, \<lambda>c. 0)"]
  unfolding sample_run_value by (simp add: sample_started_def v4l2_isStreaming_def)

section \<open>Frames\<close>

text \<open>What happened when a frame was read: the driver handed out a buffer without an error, and the
  frame is the part of its mapping that was filled.\<close>

definition frame_came_from :: "'w v4l2_api \<Rightarrow> V4L2CameraBackend \<Rightarrow> sCameraFrame \<Rightarrow> bool" where
  "frame_came_from A b f \<longleftrightarrow>
     (\<exists>x a w1 w2 w3. fst (vc_dqbuf A (vb_descriptor b) w1) = Some x
        \<and> unat (vf_index x) < length (vb_buffers b) \<and> \<not> flagged (vf_flags x) BUF_FLAG_ERROR
        \<and> bu_address (vb_buffers b ! unat (vf_index x)) = Some a
        \<and> unat (vf_bytesused x) \<le> unat (bu_length (vb_buffers b ! unat (vf_index x)))
        \<and> vc_memory A a (unat (vf_bytesused x)) w2 = (cm_data f, w3)
        \<and> cm_sequence f = ucast (vf_sequence x))"

lemma io_call_done: "io_call f w = (Done v, w') \<longleftrightarrow> f w = (v, w')"
  by (simp add: io_call_def split: prod.splits)

lemma io_bind_done: "io_bind m f w = (Done v, w') \<longleftrightarrow> (\<exists>x w1. m w = (Done x, w1) \<and> f x w1 = (Done v, w'))"
  by (auto simp: io_bind_def split: prod.splits outcome.splits)

lemma io_return_done [simp]: "io_return x w = (Done v, w') \<longleftrightarrow> v = x \<and> w' = w"
  by (auto simp: io_return_def)

lemma io_other_done [simp]:
  "io_pending w \<noteq> (Done v, w')" "io_undefined w \<noteq> (Done v, w')"
  by (simp_all add: io_pending_def io_undefined_def)

lemma wait_frame_dequeued:
  "wait_frame A fuel fd d w = (Done (Inr x), w') \<Longrightarrow> \<exists>w1. fst (vc_dqbuf A fd w1) = Some x"
proof (induction fuel arbitrary: w)
  case 0
  then show ?case by simp
next
  case (Suc fuel)
  then show ?case
    by (auto simp: io_bind_done io_call_done Let_def split: if_splits prod.splits option.splits)
       (metis fst_conv)+
qed

lemma leave_releasing_done:
  "leave_releasing A fuel i b r w = (Done (r', b'), w') \<Longrightarrow> r' = r"
  by (auto simp: leave_releasing_def io_bind_done split: prod.splits)

lemma close_failing_done:
  "close_failing A fuel b e w = (Done (r, b'), w') \<Longrightarrow> r = Returned (Failure e)"
  by (auto simp: close_failing_def io_bind_done)

lemma take_frame_success:
  assumes "take_frame A fuel x b w = (Done (Returned (Success f), b'), w')"
    and "fst (vc_dqbuf A (vb_descriptor b) w1) = Some x"
  shows "frame_valid f \<and> cm_description f = vb_frame_description b \<and> frame_came_from A b f"
proof -
  let ?slot = "vb_buffers b ! unat (vf_index x)"
  have bound: "unat (vf_index x) < length (vb_buffers b)"
    and fits: "\<not> bu_length ?slot < ucast (vf_bytesused x)" and fine: "\<not> flagged (vf_flags x) BUF_FLAG_ERROR"
    using assms(1)
    by (auto simp: take_frame_def Let_def dest: close_failing_done leave_releasing_done split: if_splits)
  obtain a where a: "bu_address ?slot = Some a"
    using assms(1) bound fits fine by (auto simp: take_frame_def Let_def split: option.splits)
  obtain data w2 w3 t where mem: "vc_memory A a (unat (vf_bytesused x)) w2 = (data, w3)"
    and valid: "frame_valid f"
    and f: "f = \<lparr>cm_description = vb_frame_description b, cm_data = data,
              cm_sequence = ucast (vf_sequence x), cm_timestamp = t\<rparr>"
    using assms(1) bound fits fine a
    by (auto simp: take_frame_def Let_def io_bind_done io_call_done dest: leave_releasing_done
        split: if_splits prod.splits)
  have "unat (vf_bytesused x) \<le> unat (bu_length ?slot)"
    using fits by (simp add: word_less_nat_alt not_less)
  then show ?thesis
    using bound fine a mem valid f assms(2) unfolding frame_came_from_def by auto
qed

lemma readFrame_success:
  assumes "v4l2_readFrame A fuel t b w = (Done (Returned (Success f), b'), w')"
  shows "vb_streaming b \<and> frame_valid f \<and> cm_description f = vb_frame_description b \<and> frame_came_from A b f"
proof -
  have streaming: "vb_streaming b" using assms by (auto simp: v4l2_readFrame_def split: if_splits)
  then obtain v d w1 w2 where v: "wait_frame A fuel (vb_descriptor b) d w1 = (Done v, w2)"
    and rest: "(case v of
        Inl (e, closes) \<Rightarrow> if closes then close_failing A fuel b e else io_return (Returned (Failure e), b)
      | Inr x \<Rightarrow> take_frame A fuel x b) w2 = (Done (Returned (Success f), b'), w')"
    using assms by (auto simp: v4l2_readFrame_def io_bind_done)
  obtain x where x: "v = Inr x"
    using rest by (cases v) (auto dest: close_failing_done split: if_splits)
  note wait = v [unfolded x]
  have taken: "take_frame A fuel x b w2 = (Done (Returned (Success f), b'), w')" using rest x by simp
  from wait_frame_dequeued [OF wait] obtain w3 where "fst (vc_dqbuf A (vb_descriptor b) w3) = Some x" by blast
  from take_frame_success [OF taken this] streaming show ?thesis by simp
qed

lemma open_format_done:
  "open_format A fuel d p b w = (Done (Inr pix), w') \<Longrightarrow>
     vx_width pix = cf_width (od_format d) \<and> vx_height pix = cf_height (od_format d) \<and> vx_pixelformat pix = p"
  by (auto simp: open_format_def Let_def io_bind_done split: if_splits option.splits)

lemma open_success:
  assumes "v4l2_open A fuel d b w = (Done (Returned (Success ()), b'), w')"
  shows "fd_width (vb_frame_description b') = cf_width (od_format d)
    \<and> fd_height (vb_frame_description b') = cf_height (od_format d)
    \<and> fd_pixel_format (vb_frame_description b') = cf_pixel_format (od_format d)
    \<and> toV4L2Format (cf_pixel_format (od_format d)) \<noteq> 0
    \<and> (od_native_pixel_format d = Unknown \<or> od_native_pixel_format d = cf_pixel_format (od_format d))"
proof -
  let ?p = "toV4L2Format (if od_native_pixel_format d = Unknown then cf_pixel_format (od_format d)
    else od_native_pixel_format d)"
  obtain b1 w1 where device: "open_device A fuel d ?p b1 w1 = (Done (Returned (Success ()), b'), w')"
    and native: "od_native_pixel_format d = Unknown \<or> od_native_pixel_format d = cf_pixel_format (od_format d)"
    and p: "?p \<noteq> 0"
    using assms
    by (auto simp: v4l2_open_def Let_def io_bind_done split: if_splits)
  obtain refused b2 w2 where "(case refused of
         Some e \<Rightarrow> close_failing A fuel b2 e
       | None \<Rightarrow> io_bind (open_format A fuel d ?p b2) (\<lambda>configured. case configured of
           Inl e \<Rightarrow> close_failing A fuel b2 e
         | Inr pix \<Rightarrow> io_bind (open_buffers A fuel b2) (\<lambda>(m, b3). case m of
             Threw x \<Rightarrow> io_bind (v4l2_close A fuel b3) (\<lambda>closed. io_return (Threw x, closed))
           | Returned (Some e) \<Rightarrow> close_failing A fuel b3 e
           | Returned None \<Rightarrow> io_return (Returned (Success ()),
               b3\<lparr>vb_frame_description := open_description d pix\<rparr>)))) w2 = (Done (Returned (Success ()), b'), w')"
    using device by (auto simp: open_device_def io_bind_done)
  then obtain configured w3 w4 where format: "open_format A fuel d ?p b2 w3 = (Done configured, w4)"
    and "(case configured of
           Inl e \<Rightarrow> close_failing A fuel b2 e
         | Inr pix \<Rightarrow> io_bind (open_buffers A fuel b2) (\<lambda>(m, b3). case m of
             Threw x \<Rightarrow> io_bind (v4l2_close A fuel b3) (\<lambda>closed. io_return (Threw x, closed))
           | Returned (Some e) \<Rightarrow> close_failing A fuel b3 e
           | Returned None \<Rightarrow> io_return (Returned (Success ()),
               b3\<lparr>vb_frame_description := open_description d pix\<rparr>))) w4 = (Done (Returned (Success ()), b'), w')"
    by (cases refused) (auto simp: io_bind_done dest: close_failing_done)
  then obtain pix m b3 w5 where c: "configured = Inr pix"
    and "(case m of
             Threw x \<Rightarrow> io_bind (v4l2_close A fuel b3) (\<lambda>closed. io_return (Threw x, closed))
           | Returned (Some e) \<Rightarrow> close_failing A fuel b3 e
           | Returned None \<Rightarrow> io_return (Returned (Success ()),
               b3\<lparr>vb_frame_description := open_description d pix\<rparr>)) w5 = (Done (Returned (Success ()), b'), w')"
    by (cases configured) (auto simp: io_bind_done dest: close_failing_done)
  then have b': "vb_frame_description b' = open_description d pix"
    by (cases m) (auto simp: io_bind_done dest: close_failing_done split: option.splits)
  note pix = format [unfolded c]
  show ?thesis
    using open_format_done [OF pix] b' native p by (auto simp: open_description_def split: if_splits)
qed

lemma start_success:
  "v4l2_start A fuel b w = (Done (Returned (Success ()), b'), w') \<Longrightarrow>
     b' = b\<lparr>vb_queue_dirty := True, vb_streaming := True\<rparr>"
  by (auto simp: v4l2_start_def Let_def io_bind_done failStart_def split: if_splits option.splits prod.splits)

text \<open>
  C18. A frame is what was asked for and what the camera delivered.  When the camera was opened with a
  description and started, and a read succeeds at any time later on that object, then the requested
  pixel format is one the kernel interface names and no conversion was asked for, and the frame has
  the requested width, height and pixel format, is complete for them, and consists of exactly the
  bytes the driver reported in a buffer of this object that it handed out without an error.
\<close>

theorem v4l2_frame_exact:
  assumes "v4l2_open A fuel d b w = (Done (Returned (Success ()), b1), w1)"
    and "v4l2_start A fuel b1 w2 = (Done (Returned (Success ()), b2), w3)"
    and "v4l2_readFrame A fuel t b2 w4 = (Done (Returned (Success f), b3), w5)"
  shows "frame_valid f
    \<and> fd_width (cm_description f) = cf_width (od_format d)
    \<and> fd_height (cm_description f) = cf_height (od_format d)
    \<and> fd_pixel_format (cm_description f) = cf_pixel_format (od_format d)
    \<and> fromV4L2Format (toV4L2Format (cf_pixel_format (od_format d))) = cf_pixel_format (od_format d)
    \<and> (od_native_pixel_format d = Unknown \<or> od_native_pixel_format d = cf_pixel_format (od_format d))
    \<and> frame_came_from A b2 f"
proof -
  have "vb_frame_description b2 = vb_frame_description b1" using start_success [OF assms(2)] by simp
  with open_success [OF assms(1)] readFrame_success [OF assms(3)] show ?thesis
    using from_to_V4L2Format by simp
qed

theorem v4l2_frame_exact_witness:
  "fd_width (cm_description (sample_frame 3)) = 4 \<and> frame_came_from sample_kernel sample_started (sample_frame 3)"
proof -
  note run = v4l2_frame_exact [OF sample_open_value sample_start_value sample_read_value]
  have "cf_width (od_format sample_open_description) = 4" by (simp add: sample_open_description_def)
  with run show ?thesis by simp
qed

section \<open>Controls\<close>

text \<open>A device that keeps its controls: \<open>table\<close> is what it answers about them, \<open>store\<close> their values in
  a world.  A question about a control that is not there fails without being interrupted.\<close>

definition control_there :: "(v4l2_cid \<Rightarrow> v4l2_queryctrl option) \<Rightarrow> v4l2_cid \<Rightarrow> v4l2_queryctrl option" where
  "control_there table c =
     (case table c of None \<Rightarrow> None | Some q \<Rightarrow> if flagged (vk_flags q) CTRL_FLAG_DISABLED then None else Some q)"

definition keeps_controls ::
    "'w v4l2_api \<Rightarrow> (v4l2_cid \<Rightarrow> v4l2_queryctrl option) \<Rightarrow> ('w \<Rightarrow> v4l2_cid \<Rightarrow> int) \<Rightarrow> bool" where
  "keeps_controls A table store \<longleftrightarrow>
     (\<forall>fd c w. fst (vc_queryctrl A fd c w) = table c \<and> store (snd (vc_queryctrl A fd c w)) = store w
        \<and> (table c = None \<longrightarrow> vc_errno A (snd (vc_queryctrl A fd c w)) \<noteq> errno_INTR))
     \<and> (\<forall>fd c w. control_there table c \<noteq> None \<longrightarrow>
          fst (vc_g_ctrl A fd c w) = Some (store w c) \<and> store (snd (vc_g_ctrl A fd c w)) = store w)
     \<and> (\<forall>fd c v w. control_there table c \<noteq> None \<longrightarrow>
          fst (vc_s_ctrl A fd c v w) = Some () \<and> store (snd (vc_s_ctrl A fd c v w)) = (store w)(c := v))"

lemma cameraIoctl_answered:
  "fst (f w) = Some v \<Longrightarrow> Q (Some v) (snd (f w)) \<Longrightarrow> io_wp (cameraIoctl A (Suc n) f) Q R w"
  by (cases "f w") (simp add: io_wp_call)

lemma cameraIoctl_refused:
  "fst (f w) = None \<Longrightarrow> vc_errno A (snd (f w)) \<noteq> errno_INTR \<Longrightarrow> Q None (snd (f w)) \<Longrightarrow>
     io_wp (cameraIoctl A (Suc n) f) Q R w"
  by (cases "f w") (simp add: io_wp_call)

lemma control_enabled_there:
  assumes "keeps_controls A table store"
    and "\<And>w'. store w' = store w \<Longrightarrow> Q (control_there table c) w'"
  shows "io_wp (control_enabled A (Suc n) fd c) Q R w"
proof -
  have law: "fst (vc_queryctrl A fd c w) = table c" "store (snd (vc_queryctrl A fd c w)) = store w"
    "table c = None \<Longrightarrow> vc_errno A (snd (vc_queryctrl A fd c w)) \<noteq> errno_INTR"
    using assms(1) by (simp_all add: keeps_controls_def)
  show ?thesis
  proof (cases "table c")
    case None
    then show ?thesis
      unfolding control_enabled_def io_wp_bind using law assms(2)
      by (intro cameraIoctl_refused) (auto simp: control_there_def)
  next
    case (Some q)
    then show ?thesis
      unfolding control_enabled_def io_wp_bind using law assms(2)
      by (intro cameraIoctl_answered [where v = q]) (auto simp: control_there_def)
  qed
qed

lemma g_ctrl_there:
  assumes "keeps_controls A table store" and "control_there table c \<noteq> None"
    and "\<And>w'. store w' = store w \<Longrightarrow> Q (Some (store w c)) w'"
  shows "io_wp (cameraIoctl A (Suc n) (vc_g_ctrl A fd c)) Q R w"
  using assms by (intro cameraIoctl_answered) (auto simp: keeps_controls_def)

lemma s_ctrl_there:
  assumes "keeps_controls A table store" and "control_there table c \<noteq> None"
    and "\<And>w'. store w' = (store w)(c := v) \<Longrightarrow> Q (Some ()) w'"
  shows "io_wp (cameraIoctl A (Suc n) (vc_s_ctrl A fd c v)) Q R w"
  using assms by (intro cameraIoctl_answered) (auto simp: keeps_controls_def)

text \<open>Which values a device accepts.\<close>

definition settable :: "(v4l2_cid \<Rightarrow> v4l2_queryctrl option) \<Rightarrow> sCameraControlValue \<Rightarrow> bool" where
  "settable table v \<longleftrightarrow>
     (\<exists>m q. findControlMapping (cv_control v) = Some m \<and> control_there table (cmap_value_id m) = Some q
        \<and> \<not> flagged (vk_flags q) CTRL_FLAG_READ_ONLY
        \<and> (if cv_mode v = Mode_Automatic
           then \<exists>a. cmap_auto_id m = Some a \<and> control_there table a \<noteq> None
           else vk_minimum q \<le> cv_value v \<and> cv_value v \<le> vk_maximum q
             \<and> (cv_value v - vk_minimum q) mod (if 0 < vk_step q then vk_step q else 1) = 0))"

definition readable_control :: "(v4l2_cid \<Rightarrow> v4l2_queryctrl option) \<Rightarrow> eCameraControl \<Rightarrow> bool" where
  "readable_control table c \<longleftrightarrow>
     (\<exists>m q. findControlMapping c = Some m \<and> control_there table (cmap_value_id m) = Some q
        \<and> \<not> flagged (vk_flags q) CTRL_FLAG_WRITE_ONLY)"

lemma mapping_ids: "findControlMapping c = Some m \<Longrightarrow> cmap_auto_id m \<noteq> Some (cmap_value_id m)"
  by (cases c) (auto simp: findControlMapping_def CONTROL_MAPPINGS_def control_mapping_def)

text \<open>The values a successful call leaves: the mode, and for a manual one the value.\<close>

definition holds_value :: "(v4l2_cid \<Rightarrow> v4l2_queryctrl option) \<Rightarrow> (v4l2_cid \<Rightarrow> int) \<Rightarrow> sCameraControlValue \<Rightarrow> bool" where
  "holds_value table s v \<longleftrightarrow>
     (\<exists>m. findControlMapping (cv_control v) = Some m
        \<and> (cv_mode v = Mode_Manual \<longrightarrow> s (cmap_value_id m) = cv_value v)
        \<and> (case cmap_auto_id m of
             None \<Rightarrow> cv_mode v = Mode_Manual
           | Some a \<Rightarrow> if control_there table a = None then cv_mode v = Mode_Manual
               else control_mode a (s a) = cv_mode v))"

lemma setControl_wp:
  assumes "keeps_controls A table store"
  shows "io_wp (v4l2_setControl A (Suc n) b v)
     (\<lambda>r w'. if settable table v then r = Success () \<and> holds_value table (store w') v
             else \<not> succeeded r \<and> store w' = store w) (\<lambda>_. False) w"
proof -
  note rules = control_enabled_there [OF assms] s_ctrl_there [OF assms]
  show ?thesis
  proof (cases "findControlMapping (cv_control v)")
    case None
    then show ?thesis by (simp add: v4l2_setControl_def settable_def Let_def)
  next
    case m: (Some m)
    show ?thesis
    proof (cases "control_there table (cmap_value_id m)")
      case None
      then show ?thesis using m by (auto simp: v4l2_setControl_def settable_def Let_def intro!: rules)
    next
      case q: (Some q)
      have step: "cpp_rem (x - vk_minimum q) (if 0 < vk_step q then vk_step q else 1) =
          (x - vk_minimum q) mod (if 0 < vk_step q then vk_step q else 1)" if "vk_minimum q \<le> x" for x
        using that by (auto simp: cpp_rem_nonneg)
      note ids = mapping_ids [OF m]
      show ?thesis
      proof (cases "cv_mode v")
        case Mode_Automatic
        then show ?thesis
          using m q ids
          by (auto simp: v4l2_setControl_def set_automatic_def settable_def holds_value_def control_mode_def
              EXPOSURE_MANUAL_def EXPOSURE_APERTURE_PRIORITY_def Let_def simp del: cameraIoctl.simps intro!: rules split: option.splits)
      next
        case Mode_Manual
        then show ?thesis
          using m q ids step
          by (auto simp: v4l2_setControl_def set_manual_def leave_automatic_def settable_def holds_value_def
              control_mode_def EXPOSURE_MANUAL_def Let_def not_less simp del: cameraIoctl.simps intro!: rules split: option.splits)
      qed
    qed
  qed
qed

lemma getControl_wp:
  assumes "keeps_controls A table store" and "readable_control table c"
  shows "io_wp (v4l2_getControl A (Suc n) b c)
     (\<lambda>r w'. \<exists>x. r = Success x \<and> cv_control x = c \<and> store w' = store w
        \<and> (\<forall>m. findControlMapping c = Some m \<longrightarrow> cv_value x = store w (cmap_value_id m)
             \<and> cv_mode x = (case cmap_auto_id m of None \<Rightarrow> Mode_Manual
                 | Some a \<Rightarrow> if control_there table a = None then Mode_Manual else control_mode a (store w a))))
     (\<lambda>_. False) w"
  using assms(2)
  by (auto simp: readable_control_def v4l2_getControl_def Let_def simp del: cameraIoctl.simps
      intro!: control_enabled_there [OF assms(1)] g_ctrl_there [OF assms(1)] split: option.splits)

text \<open>
  Setting and reading a control.  On a device that keeps what is written to its controls, setting
  a control returns; it succeeds exactly for a control of the table that the device has enabled and
  does not mark read-only, in automatic mode when its automatic control is there, in manual mode when
  the value is in range and on a step; a refusal leaves every control as it was; and after a success
  reading the control, unless it is write-only, gives back the mode, and in manual mode the value.
\<close>

theorem v4l2_control_exact:
  assumes "keeps_controls A table store" and "0 < fuel"
  shows "\<exists>r w'. v4l2_setControl A fuel b v w = (Done r, w')
    \<and> (succeeded r \<longleftrightarrow> settable table v)
    \<and> (\<not> succeeded r \<longrightarrow> store w' = store w)
    \<and> (succeeded r \<and> readable_control table (cv_control v) \<longrightarrow>
         (\<exists>x w2. v4l2_getControl A fuel b (cv_control v) w' = (Done (Success x), w2)
            \<and> cv_control x = cv_control v \<and> cv_mode x = cv_mode v
            \<and> (cv_mode v = Mode_Manual \<longrightarrow> cv_value x = cv_value v)))"
proof -
  obtain n where n: "fuel = Suc n" using assms(2) by (cases fuel) auto
  obtain r w' where set: "v4l2_setControl A fuel b v w = (Done r, w')"
    and r: "if settable table v then r = Success () \<and> holds_value table (store w') v
            else \<not> succeeded r \<and> store w' = store w"
    using setControl_wp [OF assms(1), of n b v w] n by (auto simp: io_wp_def split: prod.splits outcome.splits)
  have get: "\<exists>x w2. v4l2_getControl A fuel b (cv_control v) w' = (Done (Success x), w2)
      \<and> cv_control x = cv_control v \<and> cv_mode x = cv_mode v \<and> (cv_mode v = Mode_Manual \<longrightarrow> cv_value x = cv_value v)"
    if "settable table v" "readable_control table (cv_control v)"
    using getControl_wp [OF assms(1) that(2), of n b w'] n r that(1)
    by (auto simp: io_wp_def holds_value_def split: prod.splits outcome.splits option.splits if_splits)
  show ?thesis using set r get by (auto split: if_splits)
qed

theorem v4l2_control_exact_witness:
  "\<exists>w' x w2. v4l2_setControl sample_kernel 1 sample_opened
       \<lparr>cv_control = Brightness, cv_mode = Mode_Manual, cv_value = 6\<rparr> (0, \<lambda>c. 0) = (Done (Success ()), w')
     \<and> v4l2_getControl sample_kernel 1 sample_opened Brightness w' = (Done (Success x), w2) \<and> cv_value x = 6"
proof -
  let ?v = "\<lparr>cv_control = Brightness, cv_mode = Mode_Manual, cv_value = 6\<rparr>"
  have keeps: "keeps_controls sample_kernel sample_table snd"
    by (auto simp: keeps_controls_def sample_kernel_def sample_table_def errno_INTR_def)
  have "settable sample_table ?v" "readable_control sample_table Brightness"
    by (simp_all add: settable_def readable_control_def findControlMapping_def CONTROL_MAPPINGS_def
        control_mapping_def control_there_def sample_table_def flagged_def)
  with v4l2_control_exact [OF keeps, of 1 sample_opened ?v "(0, \<lambda>c. 0)"] show ?thesis
    by (auto simp: succeeded_iff)
qed

section \<open>Reading returns\<close>

text \<open>The clock advances between two readings (\<open>tick\<close> bounds the next one from below); a call that
  returns a buffer to the queue or stops the queue is interrupted less than \<open>n\<close> times in a row
  (\<open>left\<close> counts the interruptions still to come).\<close>

definition camera_clock_advances :: "'w v4l2_api \<Rightarrow> ('w \<Rightarrow> int) \<Rightarrow> bool" where
  "camera_clock_advances A tick \<longleftrightarrow>
     (\<forall>w. tick w \<le> fst (vc_now A w) \<and> fst (vc_now A w) \<le> tick (snd (vc_now A w)) \<and>
          (fst (vc_now A w) < clock_max \<longrightarrow> fst (vc_now A w) < tick (snd (vc_now A w))) \<and>
          fst (vc_now A w) \<le> clock_max) \<and>
     (\<forall>fd t. keeps tick (vc_poll A fd t)) \<and> (\<forall>fd. keeps tick (vc_dqbuf A fd))"

definition interrupted :: "'w v4l2_api \<Rightarrow> 'a option \<times> 'w \<Rightarrow> bool" where
  "interrupted A answer \<longleftrightarrow> fst answer = None \<and> vc_errno A (snd answer) = errno_INTR"

definition interruptions_end :: "'w v4l2_api \<Rightarrow> ('w \<Rightarrow> nat) \<Rightarrow> nat \<Rightarrow> bool" where
  "interruptions_end A left n \<longleftrightarrow>
     (\<forall>w. left w < n)
     \<and> (\<forall>fd i w. interrupted A (vc_qbuf A fd i w) \<longrightarrow> left (snd (vc_qbuf A fd i w)) < left w)
     \<and> (\<forall>fd w. interrupted A (vc_streamoff A fd w) \<longrightarrow> left (snd (vc_streamoff A fd w)) < left w)"

text \<open>A buffer the driver hands out on a descriptor.\<close>

definition delivers :: "'w v4l2_api \<Rightarrow> int \<Rightarrow> v4l2_buffer \<Rightarrow> bool" where
  "delivers A fd x \<longleftrightarrow> (\<exists>w. fst (vc_dqbuf A fd w) = Some x)"

text \<open>The time stamp of a buffer in nanoseconds, as the code computes it in 64 signed bits.\<close>

definition stamp_fits :: "v4l2_buffer \<Rightarrow> bool" where
  "stamp_fits x \<longleftrightarrow>
     in_i64 (vf_tv_sec x * 1000000000) \<and> in_i64 (vf_tv_usec x * 1000)
     \<and> in_i64 (vf_tv_sec x * 1000000000 + vf_tv_usec x * 1000)"

definition stamp_overflows :: "'w v4l2_api \<Rightarrow> int \<Rightarrow> bool" where
  "stamp_overflows A fd \<longleftrightarrow>
     (\<exists>x. delivers A fd x \<and> flagged (vf_flags x) BUF_FLAG_TIMESTAMP_MONOTONIC \<and> \<not> stamp_fits x)"

lemma camera_now:
  assumes "camera_clock_advances A tick"
    and "\<And>v w'. tick w \<le> v \<Longrightarrow> v \<le> tick w' \<Longrightarrow> (v < clock_max \<Longrightarrow> v < tick w') \<Longrightarrow> v \<le> clock_max \<Longrightarrow> Q v w'"
  shows "io_wp (io_call (vc_now A)) Q R w"
proof -
  obtain v w' where v: "vc_now A w = (v, w')" by fastforce
  have "tick w \<le> fst (vc_now A w) \<and> fst (vc_now A w) \<le> tick (snd (vc_now A w)) \<and>
      (fst (vc_now A w) < clock_max \<longrightarrow> fst (vc_now A w) < tick (snd (vc_now A w))) \<and> fst (vc_now A w) \<le> clock_max"
    using assms(1) by (simp add: camera_clock_advances_def del: split_paired_All)
  then show ?thesis using v by (auto simp: io_wp_call intro: assms(2))
qed

lemma camera_dqbuf:
  assumes "camera_clock_advances A tick"
    and "\<And>w'. tick w \<le> tick w' \<Longrightarrow> Q None w'"
    and "\<And>x w'. delivers A fd x \<Longrightarrow> Q (Some x) w'"
  shows "io_wp (io_call (vc_dqbuf A fd)) Q R w"
proof -
  obtain v w' where v: "vc_dqbuf A fd w = (v, w')" by fastforce
  have "tick w \<le> tick w'"
    using assms(1) v by (auto simp: camera_clock_advances_def keeps_def) (metis snd_conv)
  moreover have "delivers A fd x" if "v = Some x" for x
    using v that unfolding delivers_def by (metis fst_conv)
  ultimately show ?thesis using v assms(2,3) by (cases v) (auto simp: io_wp_call)
qed

lemma wait_frame_returns:
  assumes clock: "camera_clock_advances A tick" and "d \<le> clock_max"
    and "0 \<le> tick w" and "d - tick w < int fuel" and "0 < fuel"
  shows "io_wp (wait_frame A fuel fd d)
     (\<lambda>v w'. \<forall>x. v = Inr x \<longrightarrow> delivers A fd x) (\<lambda>_. False) w"
  using assms(3-5)
proof (induction fuel arbitrary: w)
  case 0
  then show ?case by simp
next
  case (Suc fuel)
  have poll: "keeps tick (vc_poll A fd t)" for t using clock by (simp add: camera_clock_advances_def)
  have again: "io_wp (wait_frame A fuel fd d)
      (\<lambda>v w'. \<forall>x. v = Inr x \<longrightarrow> delivers A fd x) (\<lambda>_. False) w'"
    if "tick w < tick w'" "tick w < d" for w'
    using that Suc.prems by (intro Suc.IH) auto
  have range: "i64_sub d now = Some (d - now)" if "now < d" "tick w \<le> now" for now
    using that Suc.prems(1) \<open>d \<le> clock_max\<close> by (auto simp: i64_sub_def in_i64_def clock_max_def)
  show ?case
    using \<open>d \<le> clock_max\<close>
    by (auto simp: Let_def range not_le intro!: camera_now [OF clock] io_wp_keeps [OF poll]
        camera_dqbuf [OF clock] again split: option.splits)
qed

lemma cameraIoctl_settles:
  assumes "\<And>w. interrupted A (f w) \<Longrightarrow> left (snd (f w)) < left w" and "left w < fuel" and "\<And>v w'. Q v w'"
  shows "io_wp (cameraIoctl A fuel f) Q R w"
  using assms(2)
proof (induction fuel arbitrary: w)
  case 0
  then show ?case by simp
next
  case (Suc fuel)
  obtain v w' where v: "f w = (v, w')" by fastforce
  have "left w' < fuel" if "v = None" "vc_errno A w' = errno_INTR"
    using assms(1) [of w] Suc.prems v that by (simp add: interrupted_def)
  then show ?case using v assms(3) Suc.IH by (cases v) (auto simp: io_wp_call)
qed

lemma settles:
  assumes "interruptions_end A left fuel" and "\<And>v w'. Q v w'"
  shows "io_wp (cameraIoctl A fuel (vc_qbuf A fd i)) Q R w" "io_wp (cameraIoctl A fuel (vc_streamoff A fd)) Q R w"
  using assms(1) by (auto simp: interruptions_end_def intro!: cameraIoctl_settles [where left = left] assms(2))

lemma unmap_loop_returns: "(\<And>w'. Q () w') \<Longrightarrow> io_wp (unmap_loop A xs) Q R w"
  by (induction xs arbitrary: w) (auto split: option.splits)

lemma v4l2_close_returns:
  assumes "interruptions_end A left fuel" and "\<And>v w'. Q v w'"
  shows "io_wp (v4l2_close A fuel b) Q R w"
  unfolding v4l2_close_def resetQueue_def close_device_def unmapBuffers_def
  by (auto intro!: settles [OF assms(1)] unmap_loop_returns assms(2) split: option.splits)

lemma leaving_returns:
  assumes "interruptions_end A left fuel" and "\<And>v w'. Q v w'"
  shows "io_wp (release_buffer A fuel i b) Q R w"
  unfolding release_buffer_def
  by (auto intro!: settles [OF assms(1)] v4l2_close_returns [OF assms(1)] assms(2) split: option.splits)

lemma failing_returns:
  assumes "interruptions_end A left fuel" and "\<And>v w'. Q v w'"
  shows "io_wp (leave_releasing A fuel i b r) Q R w" "io_wp (close_failing A fuel b e) Q R w"
  unfolding leave_releasing_def close_failing_def
  by (auto intro!: leaving_returns [OF assms(1)] v4l2_close_returns [OF assms(1)] assms(2))

lemma frame_timestamp_returns:
  assumes "delivers A fd x" and "\<And>v w'. Q v w'"
  shows "io_wpu (frame_timestamp A x) Q (\<lambda>_. stamp_overflows A fd) w"
  using assms(1) unfolding frame_timestamp_def
  by (auto simp: i64_mul_def i64_add_def stamp_overflows_def stamp_fits_def io_wpu_call
      intro: assms(2) split: prod.splits option.splits)

lemma take_frame_returns:
  assumes "interruptions_end A left fuel" and "delivers A fd x"
    and "\<forall>s\<in>set (vb_buffers b). bu_address s \<noteq> None" and "\<And>v w'. Q v w'"
  shows "io_wpu (take_frame A fuel x b) Q (\<lambda>_. stamp_overflows A fd) w"
proof (cases "unat (vf_index x) < length (vb_buffers b)")
  case True
  then obtain a where "bu_address (vb_buffers b ! unat (vf_index x)) = Some a"
    using assms(3) nth_mem by blast
  then show ?thesis
    unfolding take_frame_def Let_def
    by (auto simp: io_wpu_call intro!: io_wpuI [OF failing_returns(1) [OF assms(1)]]
        io_wpuI [OF failing_returns(2) [OF assms(1)]] io_wpuI [OF leaving_returns [OF assms(1)]]
        frame_timestamp_returns [OF assms(2)] assms(4) split: prod.splits)
next
  case False
  then show ?thesis
    unfolding take_frame_def by (auto intro!: io_wpuI failing_returns [OF assms(1)] assms(4))
qed

lemma streaming_mapped:
  "owned b l \<Longrightarrow> vb_streaming b \<Longrightarrow> \<forall>x\<in>set (vb_buffers b). bu_address x \<noteq> None"
  by (fastforce simp: owned_def closed_backend_def buffers_ready_def in_set_conv_nth split: if_splits)

text \<open>
  C19. Reading a frame returns.  Let an object come out of any sequence of operations, and let the
  clock advance between readings, never negative, and the kernel interrupt the returning or stopping
  of the queue less often in a row than the budget.  A read then returns a result after at most as
  many rounds of its waiting loop as its time limit has nanoseconds, however often polling is
  interrupted, times out early, reports other events or finds the queue empty.  It reaches undefined
  behaviour in two ways only: the deadline, the clock plus the time limit, does not fit 64 bits of
  nanoseconds, or the driver hands out a buffer with a monotonic time stamp that does not.
\<close>

theorem v4l2_read_returns:
  assumes "v4l2_run (v4l2_ledgered A) n xs V4L2CameraBackend_new (w0, v4l2_ledger_empty) = (Done b, w, l)"
    and "camera_clock_advances A tick" and "0 \<le> tick w"
    and "interruptions_end A left fuel" and "unat t * 1000000 < fuel"
  shows "case v4l2_readFrame A fuel t b w of
      (Done _, w') \<Rightarrow> True
    | (Undefined, w') \<Rightarrow> vb_streaming b \<and>
        (\<not> in_i64 (fst (vc_now A w) + int (unat t) * 1000000) \<or> stamp_overflows A (vb_descriptor b))
    | (Pending, w') \<Rightarrow> False"
proof (cases "vb_streaming b \<and> in_i64 (fst (vc_now A w) + int (unat t) * 1000000)")
  case False
  then show ?thesis
    by (auto simp: v4l2_readFrame_def io_return_def io_bind_def io_call_done io_call_def io_option_def
        of_option_def io_undefined_def i64_add_def split: prod.splits)
next
  case True
  obtain start w1 where start: "vc_now A w = (start, w1)" by fastforce
  have s: "tick w \<le> start" "start \<le> tick w1"
    using assms(2) start by (auto simp: camera_clock_advances_def del: split_paired_All) (metis fst_conv snd_conv)+
  have "io_wp (v4l2_run (v4l2_ledgered A) n xs V4L2CameraBackend_new) (\<lambda>b' (w', l'). owned b' l')
     (\<lambda>(w', l'). \<not> vl_misused l') (w0, v4l2_ledger_empty)" by (rule v4l2_run_wp [OF owned_new])
  from io_wp_done [OF this assms(1)] True have ready: "\<forall>x\<in>set (vb_buffers b). bu_address x \<noteq> None"
    by (auto dest: streaming_mapped)
  let ?d = "start + int (unat t) * 1000000"
  have d: "?d \<le> clock_max" "i64_add start (int (unat t) * 1000000) = Some ?d"
    using True start by (simp_all add: in_i64_def clock_max_def i64_add_def)
  have "io_wp (wait_frame A fuel (vb_descriptor b) ?d)
      (\<lambda>v w'. \<forall>x. v = Inr x \<longrightarrow> delivers A (vb_descriptor b) x) (\<lambda>_. False) w1"
  proof (rule wait_frame_returns [OF assms(2) d(1)])
    have "int (unat t * 1000000) < int fuel" using assms(5) by presburger
    then show "?d - tick w1 < int fuel" using s(2) by simp
  qed (use assms(3,5) s in simp_all)
  then have "io_wpu (v4l2_readFrame A fuel t b) (\<lambda>_ _. True) (\<lambda>_. stamp_overflows A (vb_descriptor b)) w"
    using True start d(2)
    by (auto simp: v4l2_readFrame_def io_wpu_call
        intro!: io_wpuI [OF failing_returns(2) [OF assms(4)]] take_frame_returns [OF assms(4) _ ready]
        elim!: io_wpu_mono [OF io_wpuI] split: sum.splits)
  then show ?thesis
    by (cases "v4l2_readFrame A fuel t b w") (use True in \<open>auto simp: io_wpu_def split: outcome.splits\<close>)
qed

theorem v4l2_read_returns_witness:
  "\<exists>r b' w'. v4l2_readFrame sample_kernel 1000001 1 sample_started (0, \<lambda>c. 0) = (Done (r, b'), w')"
proof -
  have clock: "camera_clock_advances sample_kernel (\<lambda>w. min (fst w) clock_max)"
    by (auto simp: camera_clock_advances_def keeps_def sample_kernel_def)
  have quiet: "interruptions_end sample_kernel (\<lambda>w. 0) 1000001"
    by (auto simp: interruptions_end_def interrupted_def sample_kernel_def)
  have fits: "\<not> stamp_overflows sample_kernel fd" "in_i64 (fst (vc_now sample_kernel (0, \<lambda>c. 0)) + 1000000)" for fd
    by (auto simp: stamp_overflows_def delivers_def stamp_fits_def sample_kernel_def in_i64_def clock_max_def)
  show ?thesis
    using v4l2_read_returns [OF sample_run_value [of "(0, \<lambda>c. 0)"] clock _ quiet, of 1] fits
    by (cases "v4l2_readFrame sample_kernel 1000001 1 sample_started (0, \<lambda>c. 0)")
      (auto simp: clock_max_def split: outcome.splits)
qed

end
