(* ===== verification/KeyboardDevices.thy ===== *)
theory KeyboardDevices
  imports SocketLedger
begin

text \<open>
  The evdev adapter of the Linux keyboard (\<open>platform/iui/linux/device/LinuxKeyboardDevices.h\<close>): the
  descriptors of the readable keyboards, the scan that finds them and the capture of their keys.  The
  system calls are an argument; a call that fails leaves its code in \<open>errno\<close>.  The destructors of
  descriptors, of the candidate and of the directory run where C++ runs them, also on the way of
  \<open>std::bad_alloc\<close>.  The loops over interrupted calls and over directory entries take fuel.
\<close>

section \<open>The system\<close>

text \<open>A directory is a number; the answer of \<open>EVIOCGID\<close> is the bus type; bit arrays are words, of which
  the kernel fills as many as it knows, the others staying zero.\<close>

record 'w keyboard_ops =
  ko_errno :: "'w \<Rightarrow> int"
  ko_clear_errno :: "'w \<Rightarrow> 'w"
  ko_alloc :: "'w \<Rightarrow> bool \<times> 'w"
  ko_open_directory :: "'w \<Rightarrow> nat option \<times> 'w"
  ko_next_entry :: "nat \<Rightarrow> 'w \<Rightarrow> string option \<times> 'w"
  ko_close_directory :: "nat \<Rightarrow> 'w \<Rightarrow> 'w"
  ko_open_device :: "string \<Rightarrow> 'w \<Rightarrow> int \<times> 'w"
  ko_close_device :: "int \<Rightarrow> 'w \<Rightarrow> 'w"
  ko_bus :: "int \<Rightarrow> 'w \<Rightarrow> u16 option \<times> 'w"
  ko_key_bits :: "int \<Rightarrow> 'w \<Rightarrow> u64 list option \<times> 'w"
  ko_keys :: "int \<Rightarrow> 'w \<Rightarrow> u64 list option \<times> 'w"
  ko_leds :: "int \<Rightarrow> 'w \<Rightarrow> u64 list option \<times> 'w"

definition KEY_MAX :: nat where "KEY_MAX = 767"
definition LED_MAX :: nat where "LED_MAX = 15"
definition KEY_ENTER :: nat where "KEY_ENTER = 28"
definition KEY_A :: nat where "KEY_A = 30"
definition KEY_Z :: nat where "KEY_Z = 44"
definition KEY_SPACE :: nat where "KEY_SPACE = 57"
definition BUS_CEC :: u16 where "BUS_CEC = 0x1E"

definition keyboard_EINTR :: int where "keyboard_EINTR = 4"

definition keyboardPermissionDenied :: "int \<Rightarrow> bool" where
  "keyboardPermissionDenied error_in \<longleftrightarrow> error_in = 13 \<or> error_in = 1"

definition keyboardBitSet :: "u64 list \<Rightarrow> nat \<Rightarrow> bool" where
  "keyboardBitSet words_in bit_in \<longleftrightarrow>
     and (if bit_in div 64 < length words_in then words_in ! (bit_in div 64) else 0)
       (push_bit (bit_in mod 64) 1) \<noteq> 0"

datatype KeyboardAccessState = Starting | Ready | Unavailable | PermissionDenied | Disconnected

definition keyboard_unavailable :: "int \<Rightarrow> KeyboardAccessState" where
  "keyboard_unavailable error_in =
     (if keyboardPermissionDenied error_in then PermissionDenied else Unavailable)"

definition keyboard_errno :: "'w keyboard_ops \<Rightarrow> ('w, int) io" where
  "keyboard_errno A = io_call (\<lambda>w. (ko_errno A w, w))"

fun keyboard_query :: "'w keyboard_ops \<Rightarrow> nat \<Rightarrow> ('w \<Rightarrow> 'a option \<times> 'w) \<Rightarrow> ('w, 'a option) io" where
  "keyboard_query A 0 request = io_pending"
| "keyboard_query A (Suc fuel) request =
     io_bind (io_call request) (\<lambda>answer. case answer of
         Some v \<Rightarrow> io_return (Some v)
       | None \<Rightarrow> io_bind (keyboard_errno A) (\<lambda>code.
           if code = keyboard_EINTR then keyboard_query A fuel request else io_return None))"

section \<open>Scanning\<close>

text \<open>\<open>descriptors.clear()\<close>, and the destructor of the devices.\<close>

fun close_descriptors :: "'w keyboard_ops \<Rightarrow> int list \<Rightarrow> ('w, unit) io" where
  "close_descriptors A [] = io_return ()"
| "close_descriptors A (fd # fds) = io_bind (io_do (ko_close_device A fd)) (\<lambda>u. close_descriptors A fds)"

text \<open>What the queries say of an opened candidate: whether it is a keyboard, and whether a query was denied.\<close>

definition is_keyboard :: "u64 list \<Rightarrow> bool" where
  "is_keyboard keys \<longleftrightarrow>
     keyboardBitSet keys KEY_A \<and> keyboardBitSet keys KEY_Z
     \<and> keyboardBitSet keys KEY_ENTER \<and> keyboardBitSet keys KEY_SPACE"

definition examine_candidate :: "'w keyboard_ops \<Rightarrow> nat \<Rightarrow> int \<Rightarrow> ('w, bool \<times> bool) io" where
  "examine_candidate A fuel fd =
     io_bind (keyboard_query A fuel (ko_bus A fd)) (\<lambda>bus. case bus of
         None \<Rightarrow> io_bind (keyboard_errno A) (\<lambda>code. io_return (False, keyboardPermissionDenied code))
       | Some bustype \<Rightarrow>
           if bustype = BUS_CEC then io_return (False, False)
           else io_bind (keyboard_query A fuel (ko_key_bits A fd)) (\<lambda>keys. case keys of
               None \<Rightarrow> io_bind (keyboard_errno A) (\<lambda>code. io_return (False, keyboardPermissionDenied code))
             | Some ks \<Rightarrow> io_return (is_keyboard ks, False)))"

text \<open>One directory entry, with the allocation of its path and of a longer vector.  \<open>Inl\<close> is the
  \<open>std::bad_alloc\<close> that leaves it, with the descriptors held at that moment.\<close>

definition scan_entry ::
    "'w keyboard_ops \<Rightarrow> nat \<Rightarrow> string \<Rightarrow> bool \<Rightarrow> int list \<Rightarrow> ('w, int list + bool \<times> int list) io" where
  "scan_entry A fuel name denied descriptors =
     (if take 5 name \<noteq> ''event'' then io_return (Inr (denied, descriptors))
      else io_bind (io_call (ko_alloc A)) (\<lambda>path_allocated.
        if \<not> path_allocated then io_return (Inl descriptors)
        else io_bind (io_call (ko_open_device A (''/dev/input/'' @ name))) (\<lambda>fd.
          if fd < 0
          then io_bind (keyboard_errno A) (\<lambda>code.
            io_return (Inr (denied \<or> keyboardPermissionDenied code, descriptors)))
          else io_bind (examine_candidate A fuel fd) (\<lambda>(accepted, refused).
            if \<not> accepted
            then io_bind (io_do (ko_close_device A fd)) (\<lambda>u. io_return (Inr (denied \<or> refused, descriptors)))
            else io_bind (io_call (ko_alloc A)) (\<lambda>grown.
              if grown then io_return (Inr (denied, descriptors @ [fd]))
              else io_bind (io_do (ko_close_device A fd)) (\<lambda>u. io_return (Inl descriptors)))))))"

fun scan_loop ::
    "'w keyboard_ops \<Rightarrow> nat \<Rightarrow> nat \<Rightarrow> bool \<Rightarrow> int list \<Rightarrow> ('w, int list + bool \<times> int list) io" where
  "scan_loop A 0 directory denied descriptors = io_pending"
| "scan_loop A (Suc fuel) directory denied descriptors =
     io_bind (io_do (ko_clear_errno A)) (\<lambda>u.
     io_bind (io_call (ko_next_entry A directory)) (\<lambda>entry. case entry of
         None \<Rightarrow> io_bind (keyboard_errno A) (\<lambda>code.
           io_return (Inr (denied \<or> keyboardPermissionDenied code, descriptors)))
       | Some name \<Rightarrow> io_bind (scan_entry A fuel name denied descriptors) (\<lambda>scanned. case scanned of
           Inl descriptors' \<Rightarrow> io_return (Inl descriptors')
         | Inr (denied', descriptors') \<Rightarrow> scan_loop A fuel directory denied' descriptors')))"

definition keyboard_scan ::
    "'w keyboard_ops \<Rightarrow> nat \<Rightarrow> int list \<Rightarrow> ('w, KeyboardAccessState \<times> int list) io" where
  "keyboard_scan A fuel descriptors =
     io_bind (close_descriptors A descriptors) (\<lambda>u.
     io_bind (io_call (ko_open_directory A)) (\<lambda>opened. case opened of
         None \<Rightarrow> io_bind (keyboard_errno A) (\<lambda>code. io_return (keyboard_unavailable code, []))
       | Some directory \<Rightarrow> io_bind (scan_loop A fuel directory False []) (\<lambda>scanned.
           io_bind (io_do (ko_close_directory A directory)) (\<lambda>u. case scanned of
               Inl found \<Rightarrow> io_bind (close_descriptors A found) (\<lambda>u. io_return (Unavailable, []))
             | Inr (denied, found) \<Rightarrow> io_return
                 (if found \<noteq> [] then Ready else if denied then PermissionDenied else Unavailable, found)))))"

section \<open>Capturing\<close>

text \<open>Several keyboards are one: a key is pressed when it is on any of them.\<close>

definition merge_bits :: "bool list \<Rightarrow> u64 list \<Rightarrow> bool list" where
  "merge_bits bits words_in = map (\<lambda>i. bits ! i \<or> keyboardBitSet words_in i) [0..<length bits]"

record keyboard_capture =
  kc_keys :: "bool list"
  kc_leds :: "bool list"
  kc_captured :: bool
  kc_denied :: bool

definition capture_empty :: keyboard_capture where
  "capture_empty = \<lparr>kc_keys = replicate (KEY_MAX + 1) False, kc_leds = replicate (LED_MAX + 1) False,
                    kc_captured = False, kc_denied = False\<rparr>"

fun capture_loop ::
    "'w keyboard_ops \<Rightarrow> nat \<Rightarrow> int list \<Rightarrow> keyboard_capture \<Rightarrow> ('w, keyboard_capture \<times> int list) io" where
  "capture_loop A fuel [] c = io_return (c, [])"
| "capture_loop A fuel (fd # fds) c =
     io_bind (keyboard_query A fuel (ko_keys A fd)) (\<lambda>keys. case keys of
         None \<Rightarrow> io_bind (keyboard_errno A) (\<lambda>code.
           io_bind (io_do (ko_close_device A fd)) (\<lambda>u.
             capture_loop A fuel fds (c\<lparr>kc_denied := kc_denied c \<or> keyboardPermissionDenied code\<rparr>)))
       | Some ks \<Rightarrow>
           let c1 = c\<lparr>kc_captured := True, kc_keys := merge_bits (kc_keys c) ks\<rparr> in
           io_bind (keyboard_query A fuel (ko_leds A fd)) (\<lambda>leds.
             let c2 = (case leds of None \<Rightarrow> c1 | Some ls \<Rightarrow> c1\<lparr>kc_leds := merge_bits (kc_leds c1) ls\<rparr>) in
             io_bind (capture_loop A fuel fds c2) (\<lambda>(c3, kept). io_return (c3, fd # kept))))"

definition keyboard_capture_all ::
    "'w keyboard_ops \<Rightarrow> nat \<Rightarrow> int list \<Rightarrow> ('w, (KeyboardAccessState \<times> keyboard_capture) \<times> int list) io" where
  "keyboard_capture_all A fuel descriptors =
     io_bind (capture_loop A fuel descriptors capture_empty) (\<lambda>(c, kept). io_return
       ((if kc_captured c then Ready else if kc_denied c then PermissionDenied else Disconnected, c), kept))"

section \<open>A ledger of descriptors\<close>

text \<open>Which descriptors and directories are open, and whether a call was made on one that is not.\<close>

record keyboard_ledger =
  kl_open :: "int multiset"
  kl_directories :: "nat multiset"
  kl_misused :: bool

definition keyboard_ledger_empty :: keyboard_ledger where
  "keyboard_ledger_empty = \<lparr>kl_open = {#}, kl_directories = {#}, kl_misused = False\<rparr>"

definition kl_use :: "int \<Rightarrow> keyboard_ledger \<Rightarrow> keyboard_ledger" where
  "kl_use fd l = (if fd \<in># kl_open l then l else l\<lparr>kl_misused := True\<rparr>)"

definition kl_use_directory :: "nat \<Rightarrow> keyboard_ledger \<Rightarrow> keyboard_ledger" where
  "kl_use_directory d l = (if d \<in># kl_directories l then l else l\<lparr>kl_misused := True\<rparr>)"

definition keyboard_ledgered :: "'w keyboard_ops \<Rightarrow> ('w \<times> keyboard_ledger) keyboard_ops" where
  "keyboard_ledgered A =
     \<lparr>ko_errno = (\<lambda>s. ko_errno A (fst s)),
      ko_clear_errno = (\<lambda>s. (ko_clear_errno A (fst s), snd s)),
      ko_alloc = beside (ko_alloc A) (\<lambda>v l. l),
      ko_open_directory = beside (ko_open_directory A) (\<lambda>v l. case v of None \<Rightarrow> l
        | Some d \<Rightarrow> l\<lparr>kl_directories := add_mset d (kl_directories l)\<rparr>),
      ko_next_entry = (\<lambda>d. beside (ko_next_entry A d) (\<lambda>v. kl_use_directory d)),
      ko_close_directory = (\<lambda>d s. (ko_close_directory A d (fst s),
        (kl_use_directory d (snd s))\<lparr>kl_directories := kl_directories (snd s) - {#d#}\<rparr>)),
      ko_open_device = (\<lambda>p. beside (ko_open_device A p) (\<lambda>fd l.
        if fd < 0 then l else l\<lparr>kl_open := add_mset fd (kl_open l)\<rparr>)),
      ko_close_device = (\<lambda>fd s. (ko_close_device A fd (fst s),
        (kl_use fd (snd s))\<lparr>kl_open := kl_open (snd s) - {#fd#}\<rparr>)),
      ko_bus = (\<lambda>fd. beside (ko_bus A fd) (\<lambda>v. kl_use fd)),
      ko_key_bits = (\<lambda>fd. beside (ko_key_bits A fd) (\<lambda>v. kl_use fd)),
      ko_keys = (\<lambda>fd. beside (ko_keys A fd) (\<lambda>v. kl_use fd)),
      ko_leds = (\<lambda>fd. beside (ko_leds A fd) (\<lambda>v. kl_use fd))\<rparr>"

lemma kl_use_open [simp]: "fd \<in># kl_open l \<Longrightarrow> kl_use fd l = l"
  by (simp add: kl_use_def)

lemma kl_use_directory_open [simp]: "d \<in># kl_directories l \<Longrightarrow> kl_use_directory d l = l"
  by (simp add: kl_use_directory_def)

lemma io_wp_beside_call:
  "(\<And>v w'. Q v (w', g v l)) \<Longrightarrow> io_wp (io_call (beside f g)) Q R (w, l)"
  by (simp add: io_wp_call beside_def split: prod.splits)

lemma keyboard_errno_wp [simp]: "io_wp (keyboard_errno A) Q R s \<longleftrightarrow> Q (ko_errno A s) s"
  by (simp add: keyboard_errno_def io_wp_call)

lemma keyboard_query_beside:
  assumes "\<And>v. g v l = l" and "\<And>v w'. Q v (w', l)" and "\<And>w'. R (w', l)"
  shows "io_wp (keyboard_query A fuel (beside f g)) Q R (w, l)"
proof (induction fuel arbitrary: w)
  case 0
  then show ?case by (simp add: assms(3))
next
  case (Suc fuel)
  then show ?case
    using assms by (auto simp: io_wp_call beside_def split: prod.splits option.splits)
qed

lemma keyboard_query_wp:
  assumes "fd \<in># kl_open l" and "\<And>w'. R (w', l)"
  shows "(\<And>v w'. Q1 v (w', l)) \<Longrightarrow> io_wp (keyboard_query B fuel (ko_bus (keyboard_ledgered A) fd)) Q1 R (w, l)"
    "(\<And>v w'. Q2 v (w', l)) \<Longrightarrow> io_wp (keyboard_query B fuel (ko_key_bits (keyboard_ledgered A) fd)) Q2 R (w, l)"
    "(\<And>v w'. Q2 v (w', l)) \<Longrightarrow> io_wp (keyboard_query B fuel (ko_keys (keyboard_ledgered A) fd)) Q2 R (w, l)"
    "(\<And>v w'. Q2 v (w', l)) \<Longrightarrow> io_wp (keyboard_query B fuel (ko_leds (keyboard_ledgered A) fd)) Q2 R (w, l)"
  by (simp_all add: keyboard_ledgered_def assms keyboard_query_beside)

lemma ledgered_alloc_wp: "(\<And>v w'. Q v (w', l)) \<Longrightarrow> io_wp (io_call (ko_alloc (keyboard_ledgered A))) Q R (w, l)"
  by (simp add: keyboard_ledgered_def io_wp_beside_call)

lemma ledgered_open_device_wp:
  assumes "\<And>fd w'. fd < 0 \<Longrightarrow> Q fd (w', l)"
    and "\<And>fd w'. 0 \<le> fd \<Longrightarrow> Q fd (w', l\<lparr>kl_open := add_mset fd (kl_open l)\<rparr>)"
  shows "io_wp (io_call (ko_open_device (keyboard_ledgered A) p)) Q R (w, l)"
  using assms by (auto simp: keyboard_ledgered_def intro!: io_wp_beside_call)

lemma ledgered_directory_wp:
  "(\<And>w'. Q None (w', l)) \<Longrightarrow> (\<And>d w'. Q (Some d) (w', l\<lparr>kl_directories := add_mset d (kl_directories l)\<rparr>))
     \<Longrightarrow> io_wp (io_call (ko_open_directory (keyboard_ledgered A))) Q R (w, l)"
  "d \<in># kl_directories l \<Longrightarrow> (\<And>v w'. Q2 v (w', l))
     \<Longrightarrow> io_wp (io_call (ko_next_entry (keyboard_ledgered A) d)) Q2 R (w, l)"
  by (auto simp: keyboard_ledgered_def intro!: io_wp_beside_call split: option.splits)

lemma ledgered_closing [simp]:
  "fd \<in># kl_open l \<Longrightarrow>
     ko_close_device (keyboard_ledgered A) fd (w, l) = (ko_close_device A fd w, l\<lparr>kl_open := kl_open l - {#fd#}\<rparr>)"
  "d \<in># kl_directories l \<Longrightarrow> ko_close_directory (keyboard_ledgered A) d (w, l) =
     (ko_close_directory A d w, l\<lparr>kl_directories := kl_directories l - {#d#}\<rparr>)"
  "ko_clear_errno (keyboard_ledgered A) (w, l) = (ko_clear_errno A w, l)"
  by (simp_all add: keyboard_ledgered_def)

section \<open>Ownership\<close>

lemma close_descriptors_wp:
  assumes "\<And>w'. Q () (w', l\<lparr>kl_open := H\<rparr>)" and "kl_open l = mset fds + H"
  shows "io_wp (close_descriptors (keyboard_ledgered A) fds) Q R (w, l)"
  using assms
proof (induction fds arbitrary: w l)
  case Nil
  then show ?case by simp (metis (full_types) keyboard_ledger.surjective keyboard_ledger.update_convs(1))
next
  case (Cons fd fds)
  then show ?case by simp
qed

lemma examine_candidate_wp:
  assumes "fd \<in># kl_open l" and "\<And>v w'. Q v (w', l)" and "\<And>w'. R (w', l)"
  shows "io_wp (examine_candidate (keyboard_ledgered A) fuel fd) Q R (w, l)"
  unfolding examine_candidate_def
  by (auto intro!: keyboard_query_wp assms split: option.splits)

text \<open>While the devices are asked, the ledger changes by the descriptors that are held.\<close>

definition holding :: "keyboard_ledger \<Rightarrow> int list \<Rightarrow> keyboard_ledger" where
  "holding l fds = l\<lparr>kl_open := mset fds + kl_open l\<rparr>"

lemma holding_simps [simp]:
  "kl_open (holding l fds) = mset fds + kl_open l" "kl_directories (holding l fds) = kl_directories l"
  "kl_misused (holding l fds) = kl_misused l" "holding l [] = l"
  "(holding l fds)\<lparr>kl_open := add_mset fd (mset fds + kl_open l)\<rparr> = holding l (fds @ [fd])"
  "(holding l (fds @ [fd]))\<lparr>kl_open := mset fds + kl_open l\<rparr> = holding l fds"
  by (simp_all add: holding_def)

lemma scan_entry_wp:
  assumes "\<And>fds' w'. Q (Inl fds') (w', holding l fds')" and "\<And>d fds' w'. Q (Inr (d, fds')) (w', holding l fds')"
    and "\<And>fds' w'. R (w', holding l fds')"
  shows "io_wp (scan_entry (keyboard_ledgered A) fuel name denied fds) Q R (w, holding l fds)"
  unfolding scan_entry_def
  by (auto intro!: ledgered_alloc_wp ledgered_open_device_wp examine_candidate_wp assms)

lemma scan_loop_wp:
  assumes "d \<in># kl_directories l" and "\<And>fds' w'. Q (Inl fds') (w', holding l fds')"
    and "\<And>b fds' w'. Q (Inr (b, fds')) (w', holding l fds')" and "\<And>fds' w'. R (w', holding l fds')"
  shows "io_wp (scan_loop (keyboard_ledgered A) fuel d denied fds) Q R (w, holding l fds)"
proof (induction fuel arbitrary: w denied fds)
  case 0
  then show ?case by (simp add: assms(4))
next
  case (Suc fuel)
  show ?case
    by (auto intro!: ledgered_directory_wp scan_entry_wp Suc.IH assms split: option.splits)
qed

lemma holding_closed [simp]: "(holding l fds)\<lparr>kl_open := kl_open l\<rparr> = l"
  by (simp add: holding_def)

lemma holding_directory:
  "(holding (l\<lparr>kl_directories := ds\<rparr>) fds)\<lparr>kl_directories := kl_directories l\<rparr> = holding l fds"
  by (simp add: holding_def)

lemma holding_directory_closed:
  "(holding (l\<lparr>kl_directories := ds\<rparr>) fds)\<lparr>kl_directories := kl_directories l, kl_open := kl_open l\<rparr> = l"
  by (simp add: holding_def)

lemma keyboard_scan_wp:
  assumes "\<And>r fds' w'. Q (r, fds') (w', holding l fds')" and "\<And>w' l'. kl_misused l' = kl_misused l \<Longrightarrow> R (w', l')"
  shows "io_wp (keyboard_scan (keyboard_ledgered A) fuel fds) Q R (w, holding l fds)"
proof -
  let ?d = "\<lambda>d. l\<lparr>kl_directories := add_mset d (kl_directories l)\<rparr>"
  have none: "Q (r, []) (w', l)" for r w' using assms(1) [of r "[]"] by simp
  have closed: "io_wp (close_descriptors (keyboard_ledgered A) fds') (\<lambda>u. io_wp (io_return (Unavailable, [])) Q R) R
      (w', (holding (?d d) fds')\<lparr>kl_directories := kl_directories l\<rparr>)" for fds' w' d
    by (rule close_descriptors_wp [where H = "kl_open l"]) (simp_all add: holding_directory none)
  have scan: "io_wp (scan_loop (keyboard_ledgered A) fuel d False [])
      (\<lambda>scanned. io_wp (io_bind (io_do (ko_close_directory (keyboard_ledgered A) d)) (\<lambda>u. case scanned of
          Inl found \<Rightarrow> io_bind (close_descriptors (keyboard_ledgered A) found) (\<lambda>u. io_return (Unavailable, []))
        | Inr (denied, found) \<Rightarrow> io_return
            (if found \<noteq> [] then Ready else if denied then PermissionDenied else Unavailable, found))) Q R) R
      (w', ?d d)" for d w'
    using closed
    by (intro scan_loop_wp [where l = "?d d" and fds = "[]", unfolded holding_simps])
       (auto simp: holding_directory assms)
  show ?thesis
    unfolding keyboard_scan_def using scan none
    by (auto intro!: close_descriptors_wp [where H = "kl_open l"] ledgered_directory_wp)
qed

lemma capture_loop_wp:
  assumes "\<And>c' kept w'. Q (c', kept) (w', holding l kept)"
    and "\<And>fds' w'. R (w', holding l fds')"
  shows "io_wp (capture_loop (keyboard_ledgered A) fuel fds c) Q R (w, holding l fds)"
  using assms
proof (induction fds arbitrary: w c l Q)
  case Nil
  then show ?case using Nil.prems(1) [of c "[]" w] by simp
next
  case (Cons fd fds)
  have here: "fd \<in># kl_open (holding l (fd # fds))" by simp
  have kept: "holding l (fd # fds) = holding (l\<lparr>kl_open := add_mset fd (kl_open l)\<rparr>) fds" for fds
    by (simp add: holding_def)
  have dropped: "(holding l (fd # fds))\<lparr>kl_open := mset fds + kl_open l\<rparr> = holding l fds" by (simp add: holding_def)
  have again: "io_wp (capture_loop (keyboard_ledgered A) fuel fds c')
      (\<lambda>v. io_wp (case v of (c3, kept) \<Rightarrow> io_return (c3, fd # kept)) Q R) R (w', holding l (fd # fds))" for c' w'
    unfolding kept by (rule Cons.IH) (use Cons.prems in \<open>auto simp flip: kept\<close>)
  show ?case
    using again
    by (auto simp: Let_def dropped intro!: keyboard_query_wp [OF here] Cons.IH Cons.prems split: option.splits)
qed

text \<open>Sequences of scans (\<open>True\<close>) and captures (\<open>False\<close>), and the destructor.\<close>

fun devices_run :: "'w keyboard_ops \<Rightarrow> nat \<Rightarrow> bool list \<Rightarrow> int list \<Rightarrow> ('w, int list) io" where
  "devices_run A fuel [] fds = io_return fds"
| "devices_run A fuel (True # xs) fds =
     io_bind (keyboard_scan A fuel fds) (\<lambda>(r, fds'). devices_run A fuel xs fds')"
| "devices_run A fuel (False # xs) fds =
     io_bind (keyboard_capture_all A fuel fds) (\<lambda>(r, fds'). devices_run A fuel xs fds')"

lemma devices_run_wp:
  assumes "\<And>fds' w'. Q fds' (w', holding l fds')" and "\<And>w' l'. kl_misused l' = kl_misused l \<Longrightarrow> R (w', l')"
  shows "io_wp (devices_run (keyboard_ledgered A) fuel xs fds) Q R (w, holding l fds)"
proof (induction xs arbitrary: fds w)
  case Nil
  then show ?case using assms(1) by simp
next
  case (Cons x xs)
  then show ?case
    using assms(2)
    by (cases x) (auto simp: keyboard_capture_all_def intro!: keyboard_scan_wp capture_loop_wp)
qed

end
