(* ===== verification/Keyboard.thy ===== *)
theory Keyboard
  imports KeyboardDevices
begin

text \<open>
  The Linux keyboard (\<open>api/iui/device/Keyboard.h\<close>, \<open>platform/iui/linux/device/Keyboard.cpp\<close>): the
  state of the keys as it is published, the translation of pressed keys and lamps into it, the object
  with its callback, and the loop of its monitor.  Arrays of flags are lists of their fixed length.  A
  callback is a number; what it does, what other threads register in the meantime and whether the
  worker is asked to stop is the environment (\<open>keyboard_env\<close>).
\<close>

section \<open>The published state\<close>

record KeyboardState =
  ks_ascii :: "bool list"
  ks_function :: "bool list"
  ks_arrow :: "bool list"
  ks_lock :: "bool list"
  ks_command :: "bool list"

definition KeyboardState_new :: KeyboardState where
  "KeyboardState_new =
     \<lparr>ks_ascii = replicate 128 False, ks_function = replicate 24 False, ks_arrow = replicate 4 False,
      ks_lock = replicate 3 False, ks_command = replicate 9 False\<rparr>"

text \<open>Key codes of the kernel's interface, and the lamps.\<close>

abbreviation (input) KEY_ESC :: nat where "KEY_ESC \<equiv> 1"
abbreviation (input) KEY_MINUS :: nat where "KEY_MINUS \<equiv> 12"
abbreviation (input) KEY_EQUAL :: nat where "KEY_EQUAL \<equiv> 13"
abbreviation (input) KEY_BACKSPACE :: nat where "KEY_BACKSPACE \<equiv> 14"
abbreviation (input) KEY_TAB :: nat where "KEY_TAB \<equiv> 15"
abbreviation (input) KEY_LEFTBRACE :: nat where "KEY_LEFTBRACE \<equiv> 26"
abbreviation (input) KEY_RIGHTBRACE :: nat where "KEY_RIGHTBRACE \<equiv> 27"
abbreviation (input) KEY_LEFTCTRL :: nat where "KEY_LEFTCTRL \<equiv> 29"
abbreviation (input) KEY_SEMICOLON :: nat where "KEY_SEMICOLON \<equiv> 39"
abbreviation (input) KEY_APOSTROPHE :: nat where "KEY_APOSTROPHE \<equiv> 40"
abbreviation (input) KEY_GRAVE :: nat where "KEY_GRAVE \<equiv> 41"
abbreviation (input) KEY_LEFTSHIFT :: nat where "KEY_LEFTSHIFT \<equiv> 42"
abbreviation (input) KEY_BACKSLASH :: nat where "KEY_BACKSLASH \<equiv> 43"
abbreviation (input) KEY_COMMA :: nat where "KEY_COMMA \<equiv> 51"
abbreviation (input) KEY_DOT :: nat where "KEY_DOT \<equiv> 52"
abbreviation (input) KEY_SLASH :: nat where "KEY_SLASH \<equiv> 53"
abbreviation (input) KEY_RIGHTSHIFT :: nat where "KEY_RIGHTSHIFT \<equiv> 54"
abbreviation (input) KEY_KPASTERISK :: nat where "KEY_KPASTERISK \<equiv> 55"
abbreviation (input) KEY_LEFTALT :: nat where "KEY_LEFTALT \<equiv> 56"
abbreviation (input) KEY_KPMINUS :: nat where "KEY_KPMINUS \<equiv> 74"
abbreviation (input) KEY_KPPLUS :: nat where "KEY_KPPLUS \<equiv> 78"
abbreviation (input) KEY_KPDOT :: nat where "KEY_KPDOT \<equiv> 83"
abbreviation (input) KEY_KPENTER :: nat where "KEY_KPENTER \<equiv> 96"
abbreviation (input) KEY_RIGHTCTRL :: nat where "KEY_RIGHTCTRL \<equiv> 97"
abbreviation (input) KEY_KPSLASH :: nat where "KEY_KPSLASH \<equiv> 98"
abbreviation (input) KEY_RIGHTALT :: nat where "KEY_RIGHTALT \<equiv> 100"
abbreviation (input) KEY_UP :: nat where "KEY_UP \<equiv> 103"
abbreviation (input) KEY_LEFT :: nat where "KEY_LEFT \<equiv> 105"
abbreviation (input) KEY_RIGHT :: nat where "KEY_RIGHT \<equiv> 106"
abbreviation (input) KEY_DOWN :: nat where "KEY_DOWN \<equiv> 108"
abbreviation (input) KEY_DELETE :: nat where "KEY_DELETE \<equiv> 111"
abbreviation (input) KEY_MENU :: nat where "KEY_MENU \<equiv> 139"
abbreviation (input) LED_NUML :: nat where "LED_NUML \<equiv> 0"
abbreviation (input) LED_CAPSL :: nat where "LED_CAPSL \<equiv> 1"
abbreviation (input) LED_SCROLLL :: nat where "LED_SCROLLL \<equiv> 2"

definition FUNCTION_KEYS :: "nat list" where
  "FUNCTION_KEYS = [59, 60, 61, 62, 63, 64, 65, 66, 67, 68, 87, 88,
                    183, 184, 185, 186, 187, 188, 189, 190, 191, 192, 193, 194]"

definition ALPHABET_KEYS :: "nat list" where
  "ALPHABET_KEYS = [30, 48, 46, 32, 18, 33, 34, 35, 23, 36, 37, 38, 50,
                    49, 24, 25, 16, 19, 31, 20, 22, 47, 17, 45, 21, 44]"

definition NUMBER_KEYS :: "nat list" where
  "NUMBER_KEYS = [11, 2, 3, 4, 5, 6, 7, 8, 9, 10]"

definition KEYPAD_KEYS :: "nat list" where
  "KEYPAD_KEYS = [82, 79, 80, 81, 75, 76, 77, 71, 72, 73]"

definition SHIFTED_NUMBERS :: string where
  "SHIFTED_NUMBERS = '')!@#$%^&*(''"

definition ASCII_BACK :: nat where "ASCII_BACK = 8"
definition ASCII_TAB :: nat where "ASCII_TAB = 9"
definition ASCII_CR :: nat where "ASCII_CR = 10"
definition ASCII_LF :: nat where "ASCII_LF = 13"
definition ASCII_ESC :: nat where "ASCII_ESC = 27"
definition ASCII_DEL :: nat where "ASCII_DEL = 127"

lemmas ascii_codes = ASCII_BACK_def ASCII_TAB_def ASCII_CR_def ASCII_LF_def ASCII_ESC_def ASCII_DEL_def

section \<open>Translation\<close>

definition isPressed :: "bool list \<Rightarrow> nat \<Rightarrow> bool" where
  "isPressed keys key \<longleftrightarrow> key < length keys \<and> keys ! key"

definition setAscii :: "bool list \<Rightarrow> nat \<times> bool \<Rightarrow> bool list" where
  "setAscii ascii c = ascii[fst c := ascii ! fst c \<or> snd c]"

definition code :: "char \<Rightarrow> nat" where
  "code c = of_char c"

definition shift_pressed :: "bool list \<Rightarrow> bool" where
  "shift_pressed keys \<longleftrightarrow> isPressed keys KEY_LEFTSHIFT \<or> isPressed keys KEY_RIGHTSHIFT"

definition command_state :: "bool list \<Rightarrow> bool list" where
  "command_state keys =
     [isPressed keys KEY_SPACE,
      isPressed keys KEY_ENTER \<or> isPressed keys KEY_KPENTER,
      isPressed keys KEY_DELETE,
      isPressed keys KEY_ESC,
      isPressed keys KEY_TAB,
      shift_pressed keys,
      isPressed keys KEY_LEFTCTRL \<or> isPressed keys KEY_RIGHTCTRL,
      isPressed keys KEY_BACKSPACE,
      isPressed keys KEY_LEFTALT \<or> isPressed keys KEY_RIGHTALT \<or> isPressed keys KEY_MENU]"

text \<open>The calls of \<open>setAscii\<close> in their order: letters, digits, symbols and control characters.\<close>

definition letter_calls :: "bool list \<Rightarrow> bool \<Rightarrow> (nat \<times> bool) list" where
  "letter_calls keys uppercase =
     map (\<lambda>i. ((if uppercase then code CHR ''A'' else code CHR ''a'') + i, isPressed keys (ALPHABET_KEYS ! i)))
       [0..<length ALPHABET_KEYS]"

definition digit_calls :: "bool list \<Rightarrow> bool \<Rightarrow> bool \<Rightarrow> (nat \<times> bool) list" where
  "digit_calls keys shift num_lock =
     concat (map (\<lambda>i. let main_pressed = isPressed keys (NUMBER_KEYS ! i);
                          keypad_pressed = num_lock \<and> isPressed keys (KEYPAD_KEYS ! i)
                      in [(code CHR ''0'' + i, (\<not> shift \<and> main_pressed) \<or> keypad_pressed),
                          (code (SHIFTED_NUMBERS ! i), shift \<and> main_pressed)])
       [0..<length NUMBER_KEYS])"

definition symbol_calls :: "bool list \<Rightarrow> bool \<Rightarrow> bool \<Rightarrow> bool list \<Rightarrow> (nat \<times> bool) list" where
  "symbol_calls keys shift num_lock command =
     [(code CHR '' '', command ! 0),
      (code CHR ''-'', \<not> shift \<and> isPressed keys KEY_MINUS),
      (code CHR ''_'', shift \<and> isPressed keys KEY_MINUS),
      (code CHR ''='', \<not> shift \<and> isPressed keys KEY_EQUAL),
      (code CHR ''+'', shift \<and> isPressed keys KEY_EQUAL),
      (code CHR ''['', \<not> shift \<and> isPressed keys KEY_LEFTBRACE),
      (code CHR ''{'', shift \<and> isPressed keys KEY_LEFTBRACE),
      (code CHR '']'', \<not> shift \<and> isPressed keys KEY_RIGHTBRACE),
      (code CHR ''}'', shift \<and> isPressed keys KEY_RIGHTBRACE),
      (code CHR 0x5C, \<not> shift \<and> isPressed keys KEY_BACKSLASH),
      (code CHR ''|'', shift \<and> isPressed keys KEY_BACKSLASH),
      (code CHR '';'', \<not> shift \<and> isPressed keys KEY_SEMICOLON),
      (code CHR '':'', shift \<and> isPressed keys KEY_SEMICOLON),
      (code CHR 0x27, \<not> shift \<and> isPressed keys KEY_APOSTROPHE),
      (code CHR 0x22, shift \<and> isPressed keys KEY_APOSTROPHE),
      (code CHR 0x60, \<not> shift \<and> isPressed keys KEY_GRAVE),
      (code CHR ''~'', shift \<and> isPressed keys KEY_GRAVE),
      (code CHR '','', \<not> shift \<and> isPressed keys KEY_COMMA),
      (code CHR ''<'', shift \<and> isPressed keys KEY_COMMA),
      (code CHR ''.'', (\<not> shift \<and> isPressed keys KEY_DOT) \<or> (num_lock \<and> isPressed keys KEY_KPDOT)),
      (code CHR ''>'', shift \<and> isPressed keys KEY_DOT),
      (code CHR ''/'', \<not> shift \<and> isPressed keys KEY_SLASH),
      (code CHR ''?'', shift \<and> isPressed keys KEY_SLASH),
      (code CHR ''*'', isPressed keys KEY_KPASTERISK),
      (code CHR ''+'', isPressed keys KEY_KPPLUS),
      (code CHR ''-'', isPressed keys KEY_KPMINUS),
      (code CHR ''/'', isPressed keys KEY_KPSLASH),
      (ASCII_BACK, command ! 7),
      (ASCII_TAB, command ! 4),
      (ASCII_CR, command ! 1),
      (ASCII_LF, command ! 1),
      (ASCII_ESC, command ! 3),
      (ASCII_DEL, command ! 2)]"

definition mapKeyboardState :: "bool list \<Rightarrow> bool list \<Rightarrow> KeyboardState" where
  "mapKeyboardState keys leds =
     (let shift = shift_pressed keys; caps_lock = leds ! LED_CAPSL; num_lock = leds ! LED_NUML;
          command = command_state keys
      in \<lparr>ks_ascii = foldl setAscii (replicate 128 False)
            (letter_calls keys (caps_lock \<noteq> shift) @ digit_calls keys shift num_lock
             @ symbol_calls keys shift num_lock command),
          ks_function = map (isPressed keys) FUNCTION_KEYS,
          ks_arrow = [isPressed keys KEY_LEFT, isPressed keys KEY_UP, isPressed keys KEY_DOWN,
                      isPressed keys KEY_RIGHT],
          ks_lock = [caps_lock, num_lock, leds ! LED_SCROLLL],
          ks_command = command\<rparr>)"

section \<open>The keyboard\<close>

record Keyboard =
  kb_state :: KeyboardState
  kb_callback :: "nat option"
  kb_access :: KeyboardAccessState
  kb_scan_count :: u64
  kb_running :: bool

definition Keyboard_new :: Keyboard where
  "Keyboard_new = \<lparr>kb_state = KeyboardState_new, kb_callback = None, kb_access = Starting,
                   kb_scan_count = 0, kb_running = True\<rparr>"

definition keyboard_snapshot :: "Keyboard \<Rightarrow> KeyboardState" where
  "keyboard_snapshot k = kb_state k"

definition keyboard_isAvailable :: "Keyboard \<Rightarrow> bool" where
  "keyboard_isAvailable k \<longleftrightarrow> kb_access k = Ready"

definition keyboard_setCallback :: "nat option \<Rightarrow> Keyboard \<Rightarrow> Keyboard" where
  "keyboard_setCallback callback_in k = k\<lparr>kb_callback := callback_in\<rparr>"

definition keyboard_clearCallback :: "Keyboard \<Rightarrow> Keyboard" where
  "keyboard_clearCallback k = k\<lparr>kb_callback := None\<rparr>"

fun first_set :: "nat \<Rightarrow> bool list \<Rightarrow> nat option" where
  "first_set i [] = None"
| "first_set i (b # bs) = (if b then Some i else first_set (Suc i) bs)"

definition keyboard_getASCII :: "Keyboard \<Rightarrow> nat" where
  "keyboard_getASCII k = (case first_set 0 (ks_ascii (keyboard_snapshot k)) of None \<Rightarrow> 0 | Some i \<Rightarrow> i)"

text \<open>\<open>isReleasedAllKey\<close> after its bounded wait for a scan.\<close>

definition keyboard_isReleasedAllKey :: "Keyboard \<Rightarrow> bool" where
  "keyboard_isReleasedAllKey k =
     (let s = keyboard_snapshot k in
      \<not> (list_ex id (ks_ascii s) \<or> list_ex id (ks_function s) \<or> list_ex id (ks_arrow s)
         \<or> list_ex id (ks_command s)))"

text \<open>Copies and moves, which start a worker of their own; the source of a move keeps a stopped one.\<close>

definition keyboard_copy :: "Keyboard \<Rightarrow> Keyboard" where
  "keyboard_copy source = Keyboard_new\<lparr>kb_state := kb_state source, kb_callback := kb_callback source\<rparr>"

definition keyboard_move :: "Keyboard \<Rightarrow> Keyboard \<times> Keyboard" where
  "keyboard_move source = (keyboard_copy source, source\<lparr>kb_callback := None, kb_running := False\<rparr>)"

definition keyboard_copy_assign :: "Keyboard \<Rightarrow> Keyboard \<Rightarrow> Keyboard" where
  "keyboard_copy_assign source this =
     this\<lparr>kb_state := kb_state source, kb_callback := kb_callback source, kb_access := Starting,
          kb_running := True\<rparr>"

definition keyboard_move_assign :: "Keyboard \<Rightarrow> Keyboard \<Rightarrow> Keyboard \<times> Keyboard" where
  "keyboard_move_assign source this =
     (keyboard_copy_assign source this, source\<lparr>kb_callback := None, kb_running := False\<rparr>)"

section \<open>Errors of the binding\<close>

fun access_value :: "KeyboardAccessState \<Rightarrow> int" where
  "access_value Starting = 0"
| "access_value Ready = 1"
| "access_value Unavailable = 2"
| "access_value PermissionDenied = 3"
| "access_value Disconnected = 4"

fun fromIuiKeyboardState :: "KeyboardAccessState \<Rightarrow> Error" where
  "fromIuiKeyboardState Ready = Error_none"
| "fromIuiKeyboardState Starting =
     Error_make BCat_InvalidState (access_value Starting) ''The keyboard backend is still starting.'' 0"
| "fromIuiKeyboardState Unavailable =
     Error_make BCat_NotFound (access_value Unavailable) ''No readable keyboard source is available.'' 0"
| "fromIuiKeyboardState PermissionDenied =
     Error_make BCat_Security (access_value PermissionDenied)
       ''Reading the keyboard was refused by the operating system.'' 0"
| "fromIuiKeyboardState Disconnected =
     Error_make BCat_InputOutput (access_value Disconnected) ''The keyboard source was disconnected.'' 0"

lemma fromIuiKeyboardState_ok: "be_ok (fromIuiKeyboardState state_in) \<longleftrightarrow> state_in = Ready"
  by (cases state_in) (simp_all add: be_ok_def Error_none_def Error_make_def)

section \<open>The monitor\<close>

text \<open>The environment of the worker: whether its wait ended with a request to stop, whether one was
  made when it is about to call, and a call of the callback with whether it threw.  The wait and the
  call also answer the last registration made while they lasted.\<close>

record 'w keyboard_env =
  ke_ops :: "'w keyboard_ops"
  ke_wait :: "'w \<Rightarrow> (bool \<times> nat option option) \<times> 'w"
  ke_stopping :: "'w \<Rightarrow> bool \<times> 'w"
  ke_call :: "nat \<Rightarrow> KeyboardState \<Rightarrow> 'w \<Rightarrow> (bool \<times> nat option option) \<times> 'w"

definition registered :: "nat option option \<Rightarrow> Keyboard \<Rightarrow> Keyboard" where
  "registered r k = (case r of None \<Rightarrow> k | Some callback_in \<Rightarrow> keyboard_setCallback callback_in k)"

definition RESCAN_INTERVAL_TICKS :: u64 where "RESCAN_INTERVAL_TICKS = 200"

record monitor =
  mo_keyboard :: Keyboard
  mo_devices :: "int list"
  mo_rescan_ticks :: u64

definition monitor_new :: "Keyboard \<Rightarrow> monitor" where
  "monitor_new k = \<lparr>mo_keyboard = k, mo_devices = [], mo_rescan_ticks = 0\<rparr>"

text \<open>A scan when it is due.\<close>

definition monitor_scan ::
    "'w keyboard_env \<Rightarrow> nat \<Rightarrow> monitor \<Rightarrow> ('w, KeyboardAccessState \<times> monitor) io" where
  "monitor_scan E fuel m =
     (if mo_rescan_ticks m = 0
      then io_bind (keyboard_scan (ke_ops E) fuel (mo_devices m)) (\<lambda>(access, devices).
        io_return (access, m\<lparr>mo_devices := devices, mo_rescan_ticks := RESCAN_INTERVAL_TICKS\<rparr>))
      else io_return (kb_access (mo_keyboard m), m\<lparr>mo_rescan_ticks := mo_rescan_ticks m - 1\<rparr>))"

text \<open>The keys, if a keyboard can be read.\<close>

definition monitor_capture ::
    "'w keyboard_env \<Rightarrow> nat \<Rightarrow> KeyboardAccessState \<Rightarrow> monitor
       \<Rightarrow> ('w, (KeyboardAccessState \<times> KeyboardState) \<times> monitor) io" where
  "monitor_capture E fuel access m =
     (if access \<noteq> Ready then io_return ((access, KeyboardState_new), m)
      else io_bind (keyboard_capture_all (ke_ops E) fuel (mo_devices m)) (\<lambda>((captured, c), devices).
        let m1 = m\<lparr>mo_devices := devices\<rparr> in
        if captured = Ready then io_return ((captured, mapKeyboardState (kc_keys c) (kc_leds c)), m1)
        else io_return ((captured, KeyboardState_new), m1\<lparr>mo_rescan_ticks := RESCAN_INTERVAL_TICKS\<rparr>)))"

text \<open>Publication, and the call of the callback that was registered then.\<close>

definition monitor_publish ::
    "'w keyboard_env \<Rightarrow> KeyboardAccessState \<Rightarrow> KeyboardState \<Rightarrow> Keyboard \<Rightarrow> ('w, Keyboard) io" where
  "monitor_publish E access current k =
     (let previous = kb_state k; callback = kb_callback k;
          k1 = k\<lparr>kb_access := access, kb_state := current\<rparr> in
      io_bind (case callback of None \<Rightarrow> io_return k1
        | Some f \<Rightarrow>
            if previous = current then io_return k1
            else io_bind (io_call (ke_stopping E)) (\<lambda>stop.
              if stop then io_return k1
              else io_bind (io_call (ke_call E f current)) (\<lambda>(threw, registration).
                let k2 = registered registration k1 in
                io_return (if threw then keyboard_clearCallback k2 else k2)))) (\<lambda>k3.
      io_return (k3\<lparr>kb_scan_count := kb_scan_count k3 + 1\<rparr>)))"

definition monitor_tick :: "'w keyboard_env \<Rightarrow> nat \<Rightarrow> monitor \<Rightarrow> ('w, monitor) io" where
  "monitor_tick E fuel m =
     io_bind (monitor_scan E fuel m) (\<lambda>(access, m1).
     io_bind (monitor_capture E fuel access m1) (\<lambda>((captured, current), m2).
     io_bind (monitor_publish E captured current (mo_keyboard m2)) (\<lambda>k.
       io_return (m2\<lparr>mo_keyboard := k\<rparr>))))"

fun monitorLoop :: "'w keyboard_env \<Rightarrow> nat \<Rightarrow> nat \<Rightarrow> monitor \<Rightarrow> ('w, monitor) io" where
  "monitorLoop E fuel 0 m = io_pending"
| "monitorLoop E fuel (Suc n) m =
     io_bind (io_call (ke_wait E)) (\<lambda>(stop, registration).
     let m1 = m\<lparr>mo_keyboard := registered registration (mo_keyboard m)\<rparr> in
     if stop then io_bind (close_descriptors (ke_ops E) (mo_devices m1)) (\<lambda>u. io_return (m1\<lparr>mo_devices := []\<rparr>))
     else io_bind (monitor_tick E fuel m1) (\<lambda>m2. monitorLoop E fuel n m2))"

end
