(* ===== verification/KeyboardCharacters.thy ===== *)
theory KeyboardCharacters
  imports Keyboard
begin

text \<open>
  The characters of the pressed keys of the Linux keyboard, against the layout of a US keyboard given
  row by row.
\<close>

section \<open>Characters\<close>

text \<open>A US keyboard row by row: the codes of a row are consecutive.\<close>

definition row_of :: "nat \<Rightarrow> string \<Rightarrow> (nat \<times> nat) list" where
  "row_of first cs = zip [first..<first + length cs] (map of_char cs)"

definition letter_rows :: "bool \<Rightarrow> (nat \<times> nat) list" where
  "letter_rows upper =
     (if upper then row_of 16 ''QWERTYUIOP'' @ row_of 30 ''ASDFGHJKL'' @ row_of 44 ''ZXCVBNM''
      else row_of 16 ''qwertyuiop'' @ row_of 30 ''asdfghjkl'' @ row_of 44 ''zxcvbnm'')"

definition symbol_rows :: "bool \<Rightarrow> (nat \<times> nat) list" where
  "symbol_rows shift =
     (if shift
      then row_of 2 ''!@#$%^&*()_+'' @ row_of 26 ''{}'' @ row_of 39 [CHR '':'', CHR 0x22, CHR ''~'']
        @ row_of 43 ''|'' @ row_of 51 ''<>?''
      else row_of 2 ''1234567890-='' @ row_of 26 ''[]'' @ row_of 39 [CHR '';'', CHR 0x27, CHR 0x60]
        @ row_of 43 [CHR 0x5C] @ row_of 51 '',./'')"

definition keypad_rows :: "bool \<Rightarrow> (nat \<times> nat) list" where
  "keypad_rows num_lock =
     row_of 55 ''*'' @ row_of 74 ''-'' @ row_of 78 ''+'' @ row_of 98 ''/''
     @ (if num_lock then row_of 71 ''789'' @ row_of 75 ''456'' @ row_of 79 ''1230.'' else [])"

text \<open>Space, and the control characters: escape, backspace, tabulator, line feed and carriage return
  for both enter keys, delete.\<close>

definition control_keys :: "(nat \<times> nat) list" where
  "control_keys = [(57, 32), (1, 27), (14, 8), (15, 9), (28, 10), (28, 13), (96, 10), (96, 13), (111, 127)]"

definition character_keys :: "bool \<Rightarrow> bool \<Rightarrow> bool \<Rightarrow> (nat \<times> nat) list" where
  "character_keys shift caps num =
     letter_rows (caps \<noteq> shift) @ symbol_rows shift @ keypad_rows num @ control_keys"

lemma foldl_setAscii:
  assumes "\<forall>c\<in>set calls. fst c < length bits"
  shows "length (foldl setAscii bits calls) = length bits
    \<and> (\<forall>i<length bits. foldl setAscii bits calls ! i \<longleftrightarrow> bits ! i \<or> (\<exists>p. (i, p) \<in> set calls \<and> p))"
  using assms
proof (induction calls arbitrary: bits)
  case Nil
  then show ?case by simp
next
  case (Cons c calls)
  have "length (setAscii bits c) = length bits" by (simp add: setAscii_def)
  then show ?case
    using Cons.IH [of "setAscii bits c"] Cons.prems
    by (cases c) (auto simp: setAscii_def nth_list_update)
qed

text \<open>The calls as pairs of a key and a character.\<close>

fun pressed_calls :: "bool list \<Rightarrow> (nat \<times> nat) list \<Rightarrow> (nat \<times> bool) list" where
  "pressed_calls keys [] = []"
| "pressed_calls keys ((k, c) # xs) = (c, isPressed keys k) # pressed_calls keys xs"

lemma pressed_calls_iff:
  "(\<exists>p. (i, p) \<in> set (pressed_calls keys xs) \<and> p) \<longleftrightarrow> (\<exists>k. (k, i) \<in> set xs \<and> isPressed keys k)"
  by (induction keys xs rule: pressed_calls.induct) auto

lemma upt_small: "[0..<10] = [0,1,2,3,4,5,6,7,8,9::nat]"
  "[0..<26] = [0,1,2,3,4,5,6,7,8,9,10,11,12,13,14,15,16,17,18,19,20,21,22,23,24,25::nat]"
  by (simp_all add: upt_rec)

lemma letters_exact:
  "letter_calls keys upper = pressed_calls keys
     (map (\<lambda>i. (ALPHABET_KEYS ! i, (if upper then 65 else 97) + i)) [0..<26])"
  by (cases upper) (simp_all add: letter_calls_def ALPHABET_KEYS_def upt_small code_def)

lemma letter_set:
  "set (map (\<lambda>i. (ALPHABET_KEYS ! i, (if upper then 65 else 97) + i)) [0..<26]) = set (letter_rows upper)"
  by (cases upper) (simp_all add: ALPHABET_KEYS_def upt_small letter_rows_def row_of_def insert_commute)

lemma letter_calls_exact:
  "(\<exists>p. (i, p) \<in> set (letter_calls keys upper) \<and> p) \<longleftrightarrow> (\<exists>k. (k, i) \<in> set (letter_rows upper) \<and> isPressed keys k)"
  by (simp add: letters_exact pressed_calls_iff letter_set del: set_map)

definition digit_pairs :: "bool \<Rightarrow> bool \<Rightarrow> (nat \<times> nat) list" where
  "digit_pairs shift num = concat (map (\<lambda>i.
     (if shift then [(NUMBER_KEYS ! i, code (SHIFTED_NUMBERS ! i))] else [(NUMBER_KEYS ! i, code CHR ''0'' + i)])
     @ (if num then [(KEYPAD_KEYS ! i, code CHR ''0'' + i)] else [])) [0..<10])"

lemma digit_calls_exact:
  "(\<exists>p. (i, p) \<in> set (digit_calls keys shift num) \<and> p) \<longleftrightarrow> (\<exists>k. (k, i) \<in> set (digit_pairs shift num) \<and> isPressed keys k)"
proof -
  have step: "(\<exists>p. (i, p) \<in> set (concat (map (\<lambda>j. [(code CHR ''0'' + j, (\<not> shift \<and> M j) \<or> (num \<and> K j)), (S j, shift \<and> M j)]) xs)) \<and> p)
    \<longleftrightarrow> (\<exists>k. (k, i) \<in> set (concat (map (\<lambda>j. (if shift then [(N j, S j)] else [(N j, code CHR ''0'' + j)])
      @ (if num then [(E j, code CHR ''0'' + j)] else [])) xs)) \<and> isPressed keys k)"
    if "\<And>j. M j \<longleftrightarrow> isPressed keys (N j)" "\<And>j. K j \<longleftrightarrow> isPressed keys (E j)" for M K S N E xs
    using that by (induction xs) auto
  have "length NUMBER_KEYS = 10" by (simp add: NUMBER_KEYS_def)
  then show ?thesis
    unfolding digit_calls_def digit_pairs_def Let_def by (simp only:) (rule step; rule refl)
qed

definition symbol_pairs :: "bool \<Rightarrow> bool \<Rightarrow> (nat \<times> nat) list" where
  "symbol_pairs shift num =
     (57, 32) #
     (if shift
      then [(12, 95), (13, 43), (26, 123), (27, 125), (43, 124), (39, 58), (40, 34), (41, 126), (51, 60)]
        @ (if num then [(83, 46)] else []) @ [(52, 62), (53, 63)]
      else [(12, 45), (13, 61), (26, 91), (27, 93), (43, 92), (39, 59), (40, 39), (41, 96), (51, 44), (52, 46)]
        @ (if num then [(83, 46)] else []) @ [(53, 47)])
     @ [(55, 42), (78, 43), (74, 45), (98, 47), (14, 8), (15, 9), (28, 10), (96, 10), (28, 13), (96, 13), (1, 27),
        (111, 127)]"

lemma ex_call_Cons:
  "(\<exists>p. (i, p) \<in> set ((c, q) # xs) \<and> p) \<longleftrightarrow> (i = c \<and> q) \<or> (\<exists>p. (i, p) \<in> set xs \<and> p)"
  "(\<exists>p. (i, p) \<in> set [] \<and> p) \<longleftrightarrow> False"
  "(\<exists>k. (k, i) \<in> set ((j, c) # ys) \<and> P k) \<longleftrightarrow> (i = c \<and> P j) \<or> (\<exists>k. (k, i) \<in> set ys \<and> P k)"
  "(\<exists>k. (k, i) \<in> set [] \<and> P k) \<longleftrightarrow> False"
  by auto

lemma command_state_nth:
  "command_state keys ! 0 \<longleftrightarrow> isPressed keys 57" "command_state keys ! 7 \<longleftrightarrow> isPressed keys 14"
  "command_state keys ! 4 \<longleftrightarrow> isPressed keys 15" "command_state keys ! 1 \<longleftrightarrow> isPressed keys 28 \<or> isPressed keys 96"
  "command_state keys ! 3 \<longleftrightarrow> isPressed keys 1" "command_state keys ! 2 \<longleftrightarrow> isPressed keys 111"
  by (simp_all add: command_state_def KEY_SPACE_def KEY_ENTER_def)

lemma symbol_calls_exact:
  "(\<exists>p. (i, p) \<in> set (symbol_calls keys shift num (command_state keys)) \<and> p)
     \<longleftrightarrow> (\<exists>k. (k, i) \<in> set (symbol_pairs shift num) \<and> isPressed keys k)"
  unfolding symbol_calls_def symbol_pairs_def command_state_nth
  by (cases shift; cases num)
     (simp_all only: ex_call_Cons if_True if_False append.simps simp_thms conj_disj_distribL disj_assoc code_def,
      simp_all add: ascii_codes)

lemma pairs_exact:
  "set (digit_pairs shift num @ symbol_pairs shift num) = set (symbol_rows shift @ keypad_rows num @ control_keys)"
proof -
  have "set (digit_pairs True True @ symbol_pairs True True) = set (symbol_rows True @ keypad_rows True @ control_keys)"
    "set (digit_pairs True False @ symbol_pairs True False) = set (symbol_rows True @ keypad_rows False @ control_keys)"
    "set (digit_pairs False True @ symbol_pairs False True) = set (symbol_rows False @ keypad_rows True @ control_keys)"
    "set (digit_pairs False False @ symbol_pairs False False) = set (symbol_rows False @ keypad_rows False @ control_keys)"
    by code_simp+
  then show ?thesis by (cases shift; cases num; simp only:)
qed

lemma calls_exact:
  "(\<exists>p. (i, p) \<in> set (letter_calls keys (caps \<noteq> shift) @ digit_calls keys shift num
        @ symbol_calls keys shift num (command_state keys)) \<and> p)
    \<longleftrightarrow> (\<exists>k. (k, i) \<in> set (character_keys shift caps num) \<and> isPressed keys k)"
proof -
  have "(\<exists>p. (i, p) \<in> set (letter_calls keys (caps \<noteq> shift) @ digit_calls keys shift num
        @ symbol_calls keys shift num (command_state keys)) \<and> p)
    \<longleftrightarrow> (\<exists>k. (k, i) \<in> set (letter_rows (caps \<noteq> shift)) \<and> isPressed keys k)
      \<or> (\<exists>k. (k, i) \<in> set (digit_pairs shift num @ symbol_pairs shift num) \<and> isPressed keys k)"
    using letter_calls_exact [of i keys "caps \<noteq> shift"] digit_calls_exact [of i keys shift num]
      symbol_calls_exact [of i keys shift num] by auto
  then show ?thesis unfolding pairs_exact character_keys_def by auto
qed

lemma calls_in_range:
  "\<forall>c\<in>set (letter_calls keys upper @ digit_calls keys shift num @ symbol_calls keys shift num command). fst c < 128"
proof -
  have "\<forall>i\<in>set [0..<10]. code (SHIFTED_NUMBERS ! i) < 128" by code_simp
  then have "\<forall>c\<in>set (digit_calls keys shift num). fst c < 128"
    by (auto simp: digit_calls_def Let_def NUMBER_KEYS_def code_def)
  moreover have "\<forall>c\<in>set (symbol_calls keys shift num command). fst c < 128"
    by (simp add: symbol_calls_def code_def ascii_codes)
  moreover have "\<forall>c\<in>set (letter_calls keys upper). fst c < 128"
    by (auto simp: letter_calls_def ALPHABET_KEYS_def code_def)
  ultimately show ?thesis by auto
qed

lemma first_set_spec:
  "case first_set n bs of None \<Rightarrow> \<forall>i<length bs. \<not> bs ! i
   | Some j \<Rightarrow> n \<le> j \<and> j - n < length bs \<and> bs ! (j - n) \<and> (\<forall>i<j - n. \<not> bs ! i)"
proof (induction n bs rule: first_set.induct)
  case (1 i)
  then show ?case by simp
next
  case (2 i b bs)
  show ?case
  proof (cases b)
    case True
    then show ?thesis by simp
  next
    case False
    then show ?thesis using 2 [OF False]
      by (auto simp: nth_Cons' less_Suc_eq_0_disj Suc_diff_le diff_Suc split: option.splits nat.splits)
  qed
qed

definition types_character :: "bool list \<Rightarrow> bool list \<Rightarrow> nat \<Rightarrow> bool" where
  "types_character keys leds c \<longleftrightarrow>
     (\<exists>key. (key, c) \<in> set (character_keys (shift_pressed keys) (leds ! 1) (leds ! 0)) \<and> isPressed keys key)"

lemma map_ascii:
  "length (ks_ascii (mapKeyboardState keys leds)) = 128
   \<and> (\<forall>c<128. ks_ascii (mapKeyboardState keys leds) ! c \<longleftrightarrow> types_character keys leds c)"
proof -
  let ?calls = "letter_calls keys (leds ! 1 \<noteq> shift_pressed keys) @ digit_calls keys (shift_pressed keys) (leds ! 0)
    @ symbol_calls keys (shift_pressed keys) (leds ! 0) (command_state keys)"
  have map: "ks_ascii (mapKeyboardState keys leds) = foldl setAscii (replicate 128 False) ?calls"
    by (simp add: mapKeyboardState_def Let_def)
  have "\<forall>c\<in>set ?calls. fst c < length (replicate 128 False)" using calls_in_range by simp
  from foldl_setAscii [OF this] show ?thesis
    unfolding map using calls_exact [of _ keys "leds ! 1" "shift_pressed keys" "leds ! 0"]
    by (auto simp: types_character_def)
qed

lemma types_in_range: "types_character keys leds c \<Longrightarrow> c < 128"
  using calls_exact [of c keys "leds ! 1" "shift_pressed keys" "leds ! 0"]
    calls_in_range [of keys "leds ! 1 \<noteq> shift_pressed keys" "shift_pressed keys" "leds ! 0" "command_state keys"]
  unfolding types_character_def by fastforce

text \<open>
  C38. The characters of a keyboard.  Of the 128 characters, those are set that a pressed key types on a
  US keyboard: letters in capitals exactly when either shift or the caps lock is on, digits and
  symbols by shift, the number pad's digits only with the number lock, space and the control
  characters always; no other is ever set, whatever combination of keys is pressed, and no access is
  outside the table.  The least of them is what \<open>getASCII\<close> answers, and it answers zero exactly when
  no key that types is pressed.
\<close>

theorem keyboard_characters_exact:
  "length (ks_ascii (mapKeyboardState keys leds)) = 128
    \<and> (\<forall>c. c < 128 \<and> ks_ascii (mapKeyboardState keys leds) ! c \<longleftrightarrow> types_character keys leds c)
    \<and> (let a = keyboard_getASCII (k\<lparr>kb_state := mapKeyboardState keys leds\<rparr>) in
       if \<exists>c. types_character keys leds c
       then types_character keys leds a \<and> (\<forall>c<a. \<not> types_character keys leds c)
       else a = 0)"
proof -
  let ?bs = "ks_ascii (mapKeyboardState keys leds)"
  have exact: "c < 128 \<and> ?bs ! c \<longleftrightarrow> types_character keys leds c" for c
    using map_ascii [of keys leds] types_in_range [of keys leds c] by auto
  have len: "length ?bs = 128" using map_ascii by simp
  have a: "keyboard_getASCII (k\<lparr>kb_state := mapKeyboardState keys leds\<rparr>) = (case first_set 0 ?bs of None \<Rightarrow> 0 | Some i \<Rightarrow> i)"
    by (simp add: keyboard_getASCII_def keyboard_snapshot_def)
  show ?thesis
  proof (cases "first_set 0 ?bs")
    case None
    then have "\<not> types_character keys leds c" for c
      using first_set_spec [where n = 0 and bs = ?bs] exact [of c] len by auto
    then show ?thesis using None exact len a by (simp add: Let_def)
  next
    case (Some j)
    then have j: "j < 128" "?bs ! j" "\<forall>i<j. \<not> ?bs ! i" using first_set_spec [where n = 0 and bs = ?bs] len by simp_all
    then have "types_character keys leds j" "\<forall>c<j. \<not> types_character keys leds c"
      using exact by (blast, metis exact)
    then show ?thesis using Some exact len a by (auto simp: Let_def)
  qed
qed

text \<open>The key A alone.\<close>

definition key_a_down :: "bool list" where
  "key_a_down = (replicate 768 False)[30 := True]"

theorem keyboard_characters_exact_witness:
  "ks_ascii (mapKeyboardState key_a_down (replicate 16 False)) ! 97
    \<and> (\<exists>a\<le>97. keyboard_getASCII (Keyboard_new\<lparr>kb_state := mapKeyboardState key_a_down (replicate 16 False)\<rparr>) = a
        \<and> types_character key_a_down (replicate 16 False) a)"
proof -
  have "(30, 97) \<in> set (character_keys False False False)" by code_simp
  moreover have "\<not> shift_pressed key_a_down" "isPressed key_a_down 30"
    by (simp_all add: shift_pressed_def isPressed_def key_a_down_def KEY_MAX_def)
  ultimately have types: "types_character key_a_down (replicate 16 False) 97"
    by (auto simp: types_character_def)
  show ?thesis
    using keyboard_characters_exact [of key_a_down "replicate 16 False" Keyboard_new] types
    unfolding Let_def by (metis not_le_imp_less)
qed

end
