(* ===== verification/KeyboardCorrect.thy ===== *)
theory KeyboardCorrect
  imports KeyboardCharacters
begin

text \<open>
  The properties of the Linux keyboard: the descriptors of its devices; what its monitor publishes,
  which changes it reports, and that it looks for a lost keyboard again.  A log beside the environment records the calls and the scans.
\<close>

section \<open>The devices\<close>

text \<open>
  C36. The keyboard adapter owns its descriptors.  After any sequence of scans and captures, whatever
  the system answers and whichever allocation fails on the way, no call was made on a descriptor or a
  directory that is not open, every directory that was opened is closed, the open descriptors are
  exactly those of the adapter, each once, and destroying it closes all of them.
\<close>

theorem keyboard_descriptors_owned:
  "case devices_run (keyboard_ledgered A) fuel xs [] (w, keyboard_ledger_empty) of (r, w1, l) \<Rightarrow>
     \<not> kl_misused l
     \<and> (\<forall>fds. r = Done fds \<longrightarrow> kl_open l = mset fds \<and> kl_directories l = {#}
          \<and> (\<exists>w2. close_descriptors (keyboard_ledgered A) fds (w1, l) = (Done (), w2, keyboard_ledger_empty)))"
proof -
  obtain r w1 l where run: "devices_run (keyboard_ledgered A) fuel xs [] (w, keyboard_ledger_empty) = (r, w1, l)"
    by (metis prod_cases3)
  have "io_wp (devices_run (keyboard_ledgered A) fuel xs []) (\<lambda>fds (w', l'). l' = holding keyboard_ledger_empty fds)
      (\<lambda>(w', l'). \<not> kl_misused l') (w, holding keyboard_ledger_empty [])"
    by (rule devices_run_wp) (simp_all add: keyboard_ledger_empty_def)
  then have wp: "case r of Done fds \<Rightarrow> l = holding keyboard_ledger_empty fds | _ \<Rightarrow> \<not> kl_misused l"
    using run by (auto simp: io_wp_def split: outcome.splits)
  have closes: "\<exists>w2. close_descriptors (keyboard_ledgered A) fds (w1, holding keyboard_ledger_empty fds)
      = (Done (), w2, keyboard_ledger_empty)" for fds
  proof -
    have "io_wp (close_descriptors (keyboard_ledgered A) fds) (\<lambda>u (w', l'). l' = keyboard_ledger_empty) (\<lambda>_. False)
        (w1, holding keyboard_ledger_empty fds)"
      by (rule close_descriptors_wp [where H = "{#}"]) (simp_all add: keyboard_ledger_empty_def holding_def)
    then show ?thesis by (auto simp: io_wp_def split: prod.splits outcome.splits)
  qed
  show ?thesis unfolding run prod.case
    using wp closes by (cases r) (auto simp: keyboard_ledger_empty_def)
qed

section \<open>The monitor\<close>

text \<open>A log beside the environment: the calls of callbacks with the states they were given, how
  often the devices were looked for, and for each round, the latest first, the key and the lamp words that
  were read from the keyboards.  A round begins with a wait that is not asked to stop.\<close>

type_synonym round_reads = "u64 list list \<times> u64 list list"

record monitor_log =
  ml_calls :: "(nat \<times> KeyboardState) list"
  ml_scans :: nat
  ml_rounds :: "round_reads list"

definition note_round :: "bool \<times> nat option option \<Rightarrow> monitor_log \<Rightarrow> monitor_log" where
  "note_round answer l = (if fst answer then l else l\<lparr>ml_rounds := ([], []) # ml_rounds l\<rparr>)"

definition in_round :: "(round_reads \<Rightarrow> round_reads) \<Rightarrow> monitor_log \<Rightarrow> monitor_log" where
  "in_round f l = (case ml_rounds l of [] \<Rightarrow> l | x # xs \<Rightarrow> l\<lparr>ml_rounds := f x # xs\<rparr>)"

definition note_keys :: "u64 list option \<Rightarrow> monitor_log \<Rightarrow> monitor_log" where
  "note_keys answer l = (case answer of None \<Rightarrow> l | Some ks \<Rightarrow> in_round (\<lambda>(keys, leds). (keys @ [ks], leds)) l)"

definition note_leds :: "u64 list option \<Rightarrow> monitor_log \<Rightarrow> monitor_log" where
  "note_leds answer l = (case answer of None \<Rightarrow> l | Some ls \<Rightarrow> in_round (\<lambda>(keys, leds). (keys, leds @ [ls])) l)"

definition unlogged :: "('w \<Rightarrow> 'a \<times> 'w) \<Rightarrow> 'w \<times> monitor_log \<Rightarrow> 'a \<times> 'w \<times> monitor_log" where
  "unlogged f = beside f (\<lambda>v l. l)"

definition logged_ops :: "'w keyboard_ops \<Rightarrow> ('w \<times> monitor_log) keyboard_ops" where
  "logged_ops A =
     \<lparr>ko_errno = (\<lambda>s. ko_errno A (fst s)), ko_clear_errno = (\<lambda>s. (ko_clear_errno A (fst s), snd s)),
      ko_alloc = unlogged (ko_alloc A),
      ko_open_directory = beside (ko_open_directory A) (\<lambda>v l. l\<lparr>ml_scans := Suc (ml_scans l)\<rparr>),
      ko_next_entry = (\<lambda>d. unlogged (ko_next_entry A d)),
      ko_close_directory = (\<lambda>d s. (ko_close_directory A d (fst s), snd s)),
      ko_open_device = (\<lambda>p. unlogged (ko_open_device A p)),
      ko_close_device = (\<lambda>fd s. (ko_close_device A fd (fst s), snd s)),
      ko_bus = (\<lambda>fd. unlogged (ko_bus A fd)), ko_key_bits = (\<lambda>fd. unlogged (ko_key_bits A fd)),
      ko_keys = (\<lambda>fd. beside (ko_keys A fd) note_keys), ko_leds = (\<lambda>fd. beside (ko_leds A fd) note_leds)\<rparr>"

definition logged :: "'w keyboard_env \<Rightarrow> ('w \<times> monitor_log) keyboard_env" where
  "logged E =
     \<lparr>ke_ops = logged_ops (ke_ops E), ke_wait = beside (ke_wait E) note_round, ke_stopping = unlogged (ke_stopping E),
      ke_call = (\<lambda>f s. beside (ke_call E f s) (\<lambda>v l. l\<lparr>ml_calls := ml_calls l @ [(f, s)]\<rparr>))\<rparr>"

lemma unlogged_wp: "(\<And>v w'. Q v (w', l)) \<Longrightarrow> io_wp (io_call (unlogged f)) Q R (w, l)"
  by (simp add: unlogged_def io_wp_beside_call)

lemma unlogged_query_wp:
  "(\<And>v w'. Q v (w', l)) \<Longrightarrow> (\<And>w'. R (w', l)) \<Longrightarrow> io_wp (keyboard_query B fuel (unlogged f)) Q R (w, l)"
  by (simp add: unlogged_def keyboard_query_beside)

lemma logged_close_wp: "(\<And>w'. Q () (w', l)) \<Longrightarrow> io_wp (close_descriptors (logged_ops A) fds) Q R (w, l)"
  by (induction fds arbitrary: w) (simp_all add: logged_ops_def)

lemma logged_scan_loop_wp:
  assumes "\<And>v w'. Q v (w', l)" and "\<And>w'. R (w', l)"
  shows "io_wp (scan_loop (logged_ops A) fuel d denied fds) Q R (w, l)"
proof (induction fuel arbitrary: w denied fds)
  case 0
  then show ?case by (simp add: assms(2))
next
  case (Suc fuel)
  then show ?case
    by (auto simp: logged_ops_def scan_entry_def examine_candidate_def
        intro!: unlogged_wp unlogged_query_wp assms split: option.splits)
qed

lemma logged_scan_wp:
  assumes "\<And>r fds' w'. Q (r, fds') (w', l\<lparr>ml_scans := Suc (ml_scans l)\<rparr>)" and "\<And>w' l'. R (w', l')"
  shows "io_wp (keyboard_scan (logged_ops A) fuel fds) Q R (w, l)"
proof -
  have opened: "(\<And>v w'. Q' v (w', l\<lparr>ml_scans := Suc (ml_scans l)\<rparr>)) \<Longrightarrow>
      io_wp (io_call (ko_open_directory (logged_ops A))) Q' R (w', l)" for Q' w'
    by (simp add: logged_ops_def io_wp_beside_call)
  have closed: "ko_close_directory (logged_ops A) d (w', l') = (ko_close_directory A d w', l')" for d w' l'
    by (simp add: logged_ops_def)
  show ?thesis
    unfolding keyboard_scan_def
    by (auto simp: closed intro!: logged_close_wp opened logged_scan_loop_wp assms split: option.splits sum.splits)
qed

text \<open>What a round publishes that read these words: whether the keyboard is ready, and the state.\<close>

definition round_published :: "round_reads \<Rightarrow> bool \<times> KeyboardState" where
  "round_published reads =
     (case reads of (keys, leds) \<Rightarrow>
        if keys = [] then (False, KeyboardState_new)
        else (True, mapKeyboardState (foldl merge_bits (replicate (KEY_MAX + 1) False) keys)
                      (foldl merge_bits (replicate (LED_MAX + 1) False) leds)))"

lemma noting_query_wp:
  assumes "g None l = l" and "\<And>v w'. Q v (w', g v l)" and "\<And>w'. R (w', l)"
  shows "io_wp (keyboard_query B fuel (beside f g)) Q R (w, l)"
proof (induction fuel arbitrary: w)
  case 0
  then show ?case by (simp add: assms(3))
next
  case (Suc fuel)
  obtain v w' where v: "f w = (v, w')" by fastforce
  show ?case
    using v assms(1,3) assms(2) [of v w'] Suc.IH
    by (cases v) (auto simp: io_wp_call beside_def)
qed

definition captured_round :: "keyboard_capture \<Rightarrow> monitor_log \<Rightarrow> keyboard_capture \<Rightarrow> monitor_log \<Rightarrow> bool" where
  "captured_round c l c' l' \<longleftrightarrow>
     (\<exists>keys leds. l' = in_round (\<lambda>(k, s). (k @ keys, s @ leds)) l
        \<and> (kc_captured c' \<longleftrightarrow> kc_captured c \<or> keys \<noteq> [])
        \<and> kc_keys c' = foldl merge_bits (kc_keys c) keys \<and> kc_leds c' = foldl merge_bits (kc_leds c) leds)"

lemma captured_round_refl: "captured_round c l c l"
  unfolding captured_round_def in_round_def
  by (rule exI [of _ "[]"], rule exI [of _ "[]"]) (auto split: list.splits)

lemma captured_round_denied: "captured_round (c\<lparr>kc_denied := d\<rparr>) l c' l' = captured_round c l c' l'"
  by (simp add: captured_round_def)

lemma captured_round_read:
  assumes "captured_round (case leds of None \<Rightarrow> c1 | Some ls \<Rightarrow> c1\<lparr>kc_leds := merge_bits (kc_leds c1) ls\<rparr>)
      (note_leds leds (note_keys (Some ks) l)) c' l'"
    and "c1 = c\<lparr>kc_captured := True, kc_keys := merge_bits (kc_keys c) ks\<rparr>"
  shows "captured_round c l c' l'"
proof -
  from assms obtain more lamps where l': "l' = in_round (\<lambda>(k, s). (k @ more, s @ lamps)) (note_leds leds (note_keys (Some ks) l))"
    and c': "kc_captured c'" "kc_keys c' = foldl merge_bits (merge_bits (kc_keys c) ks) more"
      "kc_leds c' = foldl merge_bits (case leds of None \<Rightarrow> kc_leds c | Some ls \<Rightarrow> merge_bits (kc_leds c) ls) lamps"
    by (auto simp: captured_round_def split: option.splits)
  show ?thesis
    unfolding captured_round_def
    by (rule exI [of _ "ks # more"], rule exI [of _ "(case leds of None \<Rightarrow> [] | Some ls \<Rightarrow> [ls]) @ lamps"])
      (use c' l' in \<open>auto simp: note_keys_def note_leds_def in_round_def split: option.splits list.splits prod.splits\<close>)
qed

lemma logged_capture_wp:
  assumes "\<And>c' fds' w' l'. captured_round c l c' l' \<Longrightarrow> Q (c', fds') (w', l')" and "\<And>w' l'. R (w', l')"
  shows "io_wp (capture_loop (logged_ops A) fuel fds c) Q R (w, l)"
  using assms(1)
proof (induction fds arbitrary: w c l Q)
  case Nil
  then show ?case by (simp add: captured_round_refl)
next
  case (Cons fd fds)
  have fields: "ko_keys (logged_ops A) fd = beside (ko_keys A fd) note_keys"
    "ko_leds (logged_ops A) fd = beside (ko_leds A fd) note_leds"
    "ko_close_device (logged_ops A) fd (w', l') = (ko_close_device A fd w', l')" for w' l'
    by (simp_all add: logged_ops_def)
  have none: "note_keys None l' = l'" "note_leds None l' = l'" for l' by (simp_all add: note_keys_def note_leds_def)
  have read: "captured_round c l c' l'"
    if "captured_round (c\<lparr>kc_captured := True, kc_keys := merge_bits (kc_keys c) ks\<rparr>) (note_keys (Some ks) l) c' l'"
    for c l ks c' l' by (rule captured_round_read [where leds = None]) (use that in \<open>simp_all add: none\<close>)
  have read_lamps: "captured_round c l c' l'"
    if "captured_round (c\<lparr>kc_captured := True, kc_keys := merge_bits (kc_keys c) ks, kc_leds := merge_bits (kc_leds c) ls\<rparr>)
        (note_leds (Some ls) (note_keys (Some ks) l)) c' l'"
    for c l ks ls c' l' by (rule captured_round_read [where leds = "Some ls"]) (use that in simp_all)
  show ?case
    using assms(2)
    by (auto simp: fields none Let_def captured_round_denied intro!: noting_query_wp Cons.prems Cons.IH
        split: option.splits)
      (drule read read_lamps, assumption)+
qed

section \<open>A tick\<close>

definition tick_result :: "monitor \<Rightarrow> monitor_log \<Rightarrow> monitor \<Rightarrow> monitor_log \<Rightarrow> bool" where
  "tick_result m l m' l' \<longleftrightarrow>
     (let k = mo_keyboard m; k' = mo_keyboard m' in
      (\<exists>reads. ml_rounds l' = reads # tl (ml_rounds l) \<and> (kb_access k' = Ready, kb_state k') = round_published reads)
      \<and> kb_scan_count k' = kb_scan_count k + 1
      \<and> ml_scans l' = (if mo_rescan_ticks m = 0 then Suc (ml_scans l) else ml_scans l)
      \<and> (mo_rescan_ticks m \<le> 200 \<longrightarrow> mo_rescan_ticks m' \<le> 200)
      \<and> (mo_rescan_ticks m \<noteq> 0 \<and> kb_access k \<noteq> Ready \<longrightarrow>
           kb_access k' = kb_access k \<and> mo_rescan_ticks m' = mo_rescan_ticks m - 1)
      \<and> (\<exists>calls. ml_calls l' = ml_calls l @ calls
           \<and> (calls = [] \<or> (\<exists>f. kb_callback k = Some f \<and> calls = [(f, kb_state k')] \<and> kb_state k' \<noteq> kb_state k))))"

lemma registered_simps [simp]:
  "kb_state (registered r k) = kb_state k" "kb_access (registered r k) = kb_access k"
  "kb_scan_count (registered r k) = kb_scan_count k"
  by (simp_all add: registered_def keyboard_setCallback_def split: option.splits)

lemma clear_simps [simp]:
  "kb_state (keyboard_clearCallback k) = kb_state k" "kb_access (keyboard_clearCallback k) = kb_access k"
  "kb_scan_count (keyboard_clearCallback k) = kb_scan_count k"
  by (simp_all add: keyboard_clearCallback_def)

lemma logged_fields [simp]:
  "ke_ops (logged E) = logged_ops (ke_ops E)" "ke_stopping (logged E) = unlogged (ke_stopping E)"
  "ke_wait (logged E) = beside (ke_wait E) note_round"
  "ke_call (logged E) f s = beside (ke_call E f s) (\<lambda>v l. l\<lparr>ml_calls := ml_calls l @ [(f, s)]\<rparr>)"
  by (simp_all add: logged_def)

lemma monitor_publish_wp:
  assumes "\<And>k' w' l'. kb_state k' = current \<Longrightarrow> kb_access k' = access \<Longrightarrow> kb_scan_count k' = kb_scan_count k + 1
      \<Longrightarrow> ml_scans l' = ml_scans l \<Longrightarrow> ml_rounds l' = ml_rounds l \<Longrightarrow>
      \<exists>calls. ml_calls l' = ml_calls l @ calls
           \<and> (calls = [] \<or> (\<exists>f. kb_callback k = Some f \<and> calls = [(f, current)] \<and> current \<noteq> kb_state k)) \<Longrightarrow> Q k' (w', l')"
  shows "io_wp (monitor_publish (logged E) access current k) Q (\<lambda>_. True) (w, l)"
  unfolding monitor_publish_def
  by (auto simp: Let_def intro!: unlogged_wp io_wp_beside_call assms split: option.splits)

lemma ticks_left: "r \<noteq> 0 \<Longrightarrow> r \<le> 200 \<Longrightarrow> r - 1 \<le> (200 :: u64)"
  by (drule Word.unat_minus_one) (simp add: word_le_nat_alt)

lemma ticks_fewer: "(r :: u64) \<noteq> 0 \<Longrightarrow> unat r < Suc n \<Longrightarrow> unat r - Suc 0 < n"
  using unat_gt_0 [of r] by linarith

text \<open>A round that captured from an empty record of reads.\<close>

lemma round_captured:
  assumes "captured_round capture_empty l c l'" and "ml_rounds l = ([], []) # rest"
  shows "\<exists>reads. ml_rounds l' = reads # rest \<and> ml_scans l' = ml_scans l \<and> ml_calls l' = ml_calls l
    \<and> round_published reads = (kc_captured c, if kc_captured c then mapKeyboardState (kc_keys c) (kc_leds c) else KeyboardState_new)"
  using assms by (auto simp: captured_round_def capture_empty_def round_published_def in_round_def)

lemma round_idle [simp]: "round_published ([], leds) = (False, KeyboardState_new)"
  by (simp add: round_published_def)

definition capture_result ::
    "KeyboardAccessState \<Rightarrow> monitor \<Rightarrow> monitor_log \<Rightarrow> round_reads list
       \<Rightarrow> (KeyboardAccessState \<times> KeyboardState) \<times> monitor \<Rightarrow> monitor_log \<Rightarrow> bool" where
  "capture_result access m l rest x l' \<longleftrightarrow>
     (case x of ((captured, current), m') \<Rightarrow>
        (\<exists>reads. ml_rounds l' = reads # rest \<and> (captured = Ready, current) = round_published reads)
        \<and> ml_scans l' = ml_scans l \<and> ml_calls l' = ml_calls l \<and> mo_keyboard m' = mo_keyboard m
        \<and> (if access = Ready then mo_rescan_ticks m' \<in> {mo_rescan_ticks m, 200}
           else captured = access \<and> mo_rescan_ticks m' = mo_rescan_ticks m))"

lemma monitor_capture_wp:
  assumes "ml_rounds l = ([], []) # rest"
  shows "io_wp (monitor_capture (logged E) fuel access m) (\<lambda>x (w', l'). capture_result access m l rest x l')
     (\<lambda>_. True) (w, l)"
proof (cases "access = Ready")
  case True
  have "io_wp (capture_loop (logged_ops (ke_ops E)) fuel (mo_devices m) capture_empty)
      (\<lambda>(c, fds) (w', l'). captured_round capture_empty l c l') (\<lambda>_. True) (w, l)"
    by (rule logged_capture_wp) auto
  then have "io_wp (capture_loop (logged_ops (ke_ops E)) fuel (mo_devices m) capture_empty)
      (\<lambda>(c, fds) (w', l'). \<exists>reads. ml_rounds l' = reads # rest \<and> ml_scans l' = ml_scans l \<and> ml_calls l' = ml_calls l
        \<and> round_published reads
          = (kc_captured c, if kc_captured c then mapKeyboardState (kc_keys c) (kc_leds c) else KeyboardState_new))
      (\<lambda>_. True) (w, l)"
    by (rule io_wp_mono) (use round_captured [OF _ assms] in auto)
  then show ?thesis
    unfolding monitor_capture_def keyboard_capture_all_def
    by (simp add: True Let_def RESCAN_INTERVAL_TICKS_def)
      (erule io_wp_mono, auto simp: capture_result_def RESCAN_INTERVAL_TICKS_def)
next
  case False
  then show ?thesis using assms by (simp add: monitor_capture_def capture_result_def)
qed

lemma monitor_scan_wp:
  assumes "\<And>access m' w' l'. ml_rounds l' = ml_rounds l \<Longrightarrow> ml_calls l' = ml_calls l \<Longrightarrow> mo_keyboard m' = mo_keyboard m
      \<Longrightarrow> (if mo_rescan_ticks m = 0 then ml_scans l' = Suc (ml_scans l) \<and> mo_rescan_ticks m' = 200
           else ml_scans l' = ml_scans l \<and> access = kb_access (mo_keyboard m) \<and> mo_rescan_ticks m' = mo_rescan_ticks m - 1)
      \<Longrightarrow> Q (access, m') (w', l')"
  shows "io_wp (monitor_scan (logged E) fuel m) Q (\<lambda>_. True) (w, l)"
  by (auto simp: monitor_scan_def RESCAN_INTERVAL_TICKS_def intro!: logged_scan_wp assms)

lemma monitor_tick_wp:
  assumes "ml_rounds l = ([], []) # rest"
  shows "io_wp (monitor_tick (logged E) fuel m) (\<lambda>m' (w', l'). tick_result m l m' l') (\<lambda>_. True) (w, l)"
  unfolding monitor_tick_def io_wp_bind
proof (rule monitor_scan_wp, unfold prod.case io_wp_bind)
  fix access w1 and l1 :: monitor_log and m1 :: monitor
  assume scanned: "ml_rounds l1 = ml_rounds l" "ml_calls l1 = ml_calls l" "mo_keyboard m1 = mo_keyboard m"
    "if mo_rescan_ticks m = 0 then ml_scans l1 = Suc (ml_scans l) \<and> mo_rescan_ticks m1 = 200
     else ml_scans l1 = ml_scans l \<and> access = kb_access (mo_keyboard m) \<and> mo_rescan_ticks m1 = mo_rescan_ticks m - 1"
  have "ml_rounds l1 = ([], []) # rest" using scanned(1) assms by simp
  then show "io_wp (monitor_capture (logged E) fuel access m1)
     (\<lambda>v. io_wp (case v of (x, xa) \<Rightarrow> (case x of (captured, current) \<Rightarrow> \<lambda>m2.
          io_bind (monitor_publish (logged E) captured current (mo_keyboard m2)) (\<lambda>k. io_return (m2\<lparr>mo_keyboard := k\<rparr>))) xa)
        (\<lambda>m' (w', l'). tick_result m l m' l') (\<lambda>_. True)) (\<lambda>_. True) (w1, l1)"
    by (rule io_wp_mono [OF monitor_capture_wp])
      (use scanned assms in \<open>auto simp: capture_result_def tick_result_def Let_def intro!: monitor_publish_wp ticks_left split: if_splits\<close>)
qed

section \<open>Sequences of ticks\<close>

text \<open>The rounds of the monitor's loop that are not asked to stop, with what each published.\<close>

fun monitor_rounds ::
    "'w keyboard_env \<Rightarrow> nat \<Rightarrow> nat \<Rightarrow> monitor \<Rightarrow> ('w, (KeyboardAccessState \<times> KeyboardState) list \<times> monitor) io" where
  "monitor_rounds E fuel 0 m = io_return ([], m)"
| "monitor_rounds E fuel (Suc n) m =
     io_bind (io_call (ke_wait E)) (\<lambda>(stop, registration).
     let m1 = m\<lparr>mo_keyboard := registered registration (mo_keyboard m)\<rparr> in
     if stop then io_return ([], m1)
     else io_bind (monitor_tick E fuel m1) (\<lambda>m2.
       io_bind (monitor_rounds E fuel n m2) (\<lambda>(published, m3).
         io_return ((kb_access (mo_keyboard m2), kb_state (mo_keyboard m2)) # published, m3))))"

text \<open>A worker that returns went through such rounds until it was asked to stop, and closed the devices.\<close>

lemma monitorLoop_rounds:
  assumes "monitorLoop E fuel n m s = (Done m', s')"
  shows "\<exists>published m1 s1. monitor_rounds E fuel n m s = (Done (published, m1), s1) \<and> length published < n
    \<and> close_descriptors (ke_ops E) (mo_devices m1) s1 = (Done (), s') \<and> m' = m1\<lparr>mo_devices := []\<rparr>"
  using assms
proof (induction n arbitrary: m s)
  case 0
  then show ?case by (simp add: io_pending_def)
next
  case (Suc n)
  obtain stop r s1 where wait: "ke_wait E s = ((stop, r), s1)" by (metis surj_pair)
  let ?m1 = "m\<lparr>mo_keyboard := registered r (mo_keyboard m)\<rparr>"
  show ?case
  proof (cases stop)
    case True
    then show ?thesis
      using Suc.prems wait
      by (auto simp: io_bind_def io_call_def io_return_def split: prod.splits outcome.splits)
  next
    case False
    then obtain m2 s2 where tick: "monitor_tick E fuel ?m1 s1 = (Done m2, s2)" and rest: "monitorLoop E fuel n m2 s2 = (Done m', s')"
      using Suc.prems wait
      by (auto simp: io_bind_def io_call_def Let_def split: prod.splits outcome.splits)
    from Suc.IH [OF rest] show ?thesis
      using wait tick False by (auto simp: io_bind_def io_call_def io_return_def Let_def)
  qed
qed

definition scans_by :: "monitor \<Rightarrow> monitor_log \<Rightarrow> (KeyboardAccessState \<times> KeyboardState) list \<Rightarrow> monitor_log \<Rightarrow> bool" where
  "scans_by m l published l' \<longleftrightarrow>
     ml_scans l \<le> ml_scans l' \<and>
     (kb_access (mo_keyboard m) \<noteq> Ready \<and> unat (mo_rescan_ticks m) < length published \<longrightarrow> ml_scans l < ml_scans l')"

text \<open>The rounds \<open>reads\<close>, in order, published \<open>published\<close>.\<close>

definition rounds_publish ::
    "monitor_log \<Rightarrow> (KeyboardAccessState \<times> KeyboardState) list \<Rightarrow> monitor_log \<Rightarrow> bool" where
  "rounds_publish l published l' \<longleftrightarrow>
     (\<exists>reads. ml_rounds l' = rev reads @ ml_rounds l
        \<and> map (\<lambda>(access, state). (access = Ready, state)) published = map round_published reads)"

lemma rounds_publish_Nil: "rounds_publish l [] l"
  by (simp add: rounds_publish_def)

lemma rounds_publish_Cons:
  assumes "ml_rounds l1 = reads # ml_rounds l" and "(fst x = Ready, snd x) = round_published reads"
    and "rounds_publish l1 published l'"
  shows "rounds_publish l (x # published) l'"
proof -
  obtain rs where "ml_rounds l' = rev rs @ ml_rounds l1"
    "map (\<lambda>(access, state). (access = Ready, state)) published = map round_published rs"
    using assms(3) by (auto simp: rounds_publish_def)
  then show ?thesis
    unfolding rounds_publish_def
    by (intro exI [of _ "reads # rs"]) (use assms(1,2) in \<open>auto simp: case_prod_beta\<close>)
qed

definition rounds_result :: "monitor \<Rightarrow> monitor_log \<Rightarrow> (KeyboardAccessState \<times> KeyboardState) list \<Rightarrow> monitor \<Rightarrow> monitor_log \<Rightarrow> bool" where
  "rounds_result m l published m' l' \<longleftrightarrow>
     scans_by m l published l' \<and> rounds_publish l published l'
     \<and> (mo_rescan_ticks m \<le> 200 \<longrightarrow> mo_rescan_ticks m' \<le> 200)
     \<and> kb_scan_count (mo_keyboard m') = kb_scan_count (mo_keyboard m) + of_nat (length published)"

lemma rounds_result_Cons:
  assumes "tick_result (m\<lparr>mo_keyboard := registered r (mo_keyboard m)\<rparr>) l1 m2 l2"
    and "ml_rounds l1 = ([], []) # ml_rounds l" and "ml_scans l1 = ml_scans l"
    and "rounds_result m2 l2 published m' l'"
  shows "rounds_result m l ((kb_access (mo_keyboard m2), kb_state (mo_keyboard m2)) # published) m' l'"
proof -
  have "rounds_publish l ((kb_access (mo_keyboard m2), kb_state (mo_keyboard m2)) # published) l'"
    using assms(1,2,4) by (auto simp: tick_result_def rounds_result_def Let_def intro: rounds_publish_Cons)
  then show ?thesis
    using assms by (auto simp: tick_result_def rounds_result_def scans_by_def Let_def Word.unat_minus_one
        intro: ticks_fewer split: if_splits)
qed

lemma monitor_rounds_wp:
  fixes E :: "'w keyboard_env"
  shows "io_wp (monitor_rounds (logged E) fuel n m) (\<lambda>(published, m') (w', l'). rounds_result m l published m' l')
     (\<lambda>_. True) (w, l)"
proof (induction n arbitrary: m w l)
  case 0
  then show ?case by (simp add: rounds_result_def scans_by_def rounds_publish_Nil)
next
  case (Suc n)
  let ?l1 = "l\<lparr>ml_rounds := ([], []) # ml_rounds l\<rparr>"
  have tick: "io_wp (monitor_tick (logged E) fuel (m\<lparr>mo_keyboard := registered r (mo_keyboard m)\<rparr>))
      (\<lambda>m2. io_wp (io_bind (monitor_rounds (logged E) fuel n m2) (\<lambda>(published, m3).
         io_return ((kb_access (mo_keyboard m2), kb_state (mo_keyboard m2)) # published, m3)))
       (\<lambda>(published, m') (w', l'). rounds_result m l published m' l') (\<lambda>_. True))
       (\<lambda>_. True) (w', ?l1)" for r w'
  proof (rule io_wp_mono [OF monitor_tick_wp [where rest = "ml_rounds l"]])
    fix m2 :: monitor and s2 :: "'w \<times> monitor_log"
    assume "case s2 of (w2, l2) \<Rightarrow> tick_result (m\<lparr>mo_keyboard := registered r (mo_keyboard m)\<rparr>) ?l1 m2 l2"
    then obtain w2 l2 where s2: "s2 = (w2, l2)"
      and result: "tick_result (m\<lparr>mo_keyboard := registered r (mo_keyboard m)\<rparr>) ?l1 m2 l2" by (cases s2) auto
    show "io_wp (io_bind (monitor_rounds (logged E) fuel n m2) (\<lambda>(published, m3).
         io_return ((kb_access (mo_keyboard m2), kb_state (mo_keyboard m2)) # published, m3)))
       (\<lambda>(published, m') (w', l'). rounds_result m l published m' l') (\<lambda>_. True) s2"
      unfolding s2 io_wp_bind
      by (rule io_wp_mono [OF Suc.IH [where m = m2 and w = w2 and l = l2]])
        (auto intro!: rounds_result_Cons [OF result])
  qed auto
  have none: "rounds_result m l [] (m\<lparr>mo_keyboard := registered r (mo_keyboard m)\<rparr>) l" for r
    by (simp add: rounds_result_def scans_by_def rounds_publish_Nil)
  show ?case
    using tick none by (auto simp: Let_def note_round_def intro!: io_wp_beside_call)
qed

text \<open>
  C37. The monitor publishes what was read in the round.  In every round, whatever the system answers
  and whatever callbacks do, the keyboard is published as ready exactly when the keys of a keyboard
  were read in that very round, and the published state is then the one of the key and lamp words read in that round,
  a key being pressed when it is on any of them; in a round that read no keyboard all keys are published as
  released, so that no key stays pressed when a keyboard is lost.  Every round is counted; and after any
  number of rounds, if no keyboard could be read, the devices are looked for again within the next 201 rounds.
\<close>

theorem keyboard_lost_released:
  assumes "monitor_rounds (logged E) fuel n (monitor_new k) (w, l) = (Done (published, m), w1, l1)"
    and "monitor_rounds (logged E) fuel n' m (w1, l1) = (Done (published', m'), w2, l2)"
  shows "(\<exists>reads. ml_rounds l2 = rev reads @ ml_rounds l
       \<and> map (\<lambda>(access, state). (access = Ready, state)) (published @ published')
         = map (\<lambda>(keys, leds).
             if keys = [] then (False, KeyboardState_new)
             else (True, mapKeyboardState (foldl merge_bits (replicate (KEY_MAX + 1) False) keys)
                           (foldl merge_bits (replicate (LED_MAX + 1) False) leds))) reads)
    \<and> kb_scan_count (mo_keyboard m') = kb_scan_count k + of_nat (length (published @ published'))
    \<and> (kb_access (mo_keyboard m) \<noteq> Ready \<and> 200 < length published' \<longrightarrow> ml_scans l1 < ml_scans l2)"
proof -
  have first: "rounds_result (monitor_new k) l published m l1" using io_wp_done [OF monitor_rounds_wp assms(1)] by simp
  have second: "rounds_result m l1 published' m' l2" using io_wp_done [OF monitor_rounds_wp assms(2)] by simp
  obtain reads reads' where "ml_rounds l1 = rev reads @ ml_rounds l" "ml_rounds l2 = rev reads' @ ml_rounds l1"
    "map (\<lambda>(access, state). (access = Ready, state)) published = map round_published reads"
    "map (\<lambda>(access, state). (access = Ready, state)) published' = map round_published reads'"
    using first second by (auto simp: rounds_result_def rounds_publish_def)
  then have "ml_rounds l2 = rev (reads @ reads') @ ml_rounds l
      \<and> map (\<lambda>(access, state). (access = Ready, state)) (published @ published') = map round_published (reads @ reads')"
    by simp
  then have "\<exists>reads. ml_rounds l2 = rev reads @ ml_rounds l
      \<and> map (\<lambda>(access, state). (access = Ready, state)) (published @ published') = map round_published reads"
    by blast
  moreover have "unat (mo_rescan_ticks m) \<le> 200"
    using first by (simp add: rounds_result_def monitor_new_def word_le_nat_alt)
  ultimately show ?thesis
    using first second
    by (simp add: round_published_def [abs_def] rounds_result_def scans_by_def monitor_new_def)
qed

section \<open>Changes\<close>

text \<open>An environment in which one callback stays registered, never throws and is not stopped.\<close>

definition steady :: "'w keyboard_env \<Rightarrow> bool" where
  "steady E \<longleftrightarrow> (\<forall>w. snd (fst (ke_wait E w)) = None) \<and> (\<forall>w. \<not> fst (ke_stopping E w))
     \<and> (\<forall>f s w. fst (ke_call E f s w) = (False, None))"

fun changes :: "'a \<Rightarrow> 'a list \<Rightarrow> 'a list" where
  "changes s [] = []"
| "changes s (x # xs) = (if x = s then changes s xs else x # changes x xs)"

lemma steady_wp:
  assumes "steady E"
  shows "(\<And>b w'. Q1 (b, None) (w', note_round (b, None) l)) \<Longrightarrow> io_wp (io_call (ke_wait (logged E))) Q1 R (w, l)"
    and "(\<And>w'. Q2 False (w', l)) \<Longrightarrow> io_wp (io_call (unlogged (ke_stopping E))) Q2 R (w, l)"
    and "(\<And>w'. Q3 (False, None) (w', l\<lparr>ml_calls := ml_calls l @ [(f, s)]\<rparr>)) \<Longrightarrow>
      io_wp (io_call (ke_call (logged E) f s)) Q3 R (w, l)"
proof -
  show "io_wp (io_call (ke_wait (logged E))) Q1 R (w, l)" if "\<And>b w'. Q1 (b, None) (w', note_round (b, None) l)"
  proof -
    obtain b r w' where c: "ke_wait E w = ((b, r), w')" by (metis surj_pair)
    have "r = None" using assms c unfolding steady_def by (metis fst_conv snd_conv)
    then show ?thesis using c that by (simp add: io_wp_call beside_def)
  qed
  show "io_wp (io_call (unlogged (ke_stopping E))) Q2 R (w, l)" if "\<And>w'. Q2 False (w', l)"
  proof -
    obtain b w' where c: "ke_stopping E w = (b, w')" by fastforce
    have "\<not> b" using assms c unfolding steady_def by (metis fst_conv)
    then show ?thesis using c that by (simp add: io_wp_call unlogged_def beside_def)
  qed
  show "io_wp (io_call (ke_call (logged E) f s)) Q3 R (w, l)"
    if "\<And>w'. Q3 (False, None) (w', l\<lparr>ml_calls := ml_calls l @ [(f, s)]\<rparr>)"
  proof -
    obtain v w' where c: "ke_call E f s w = (v, w')" by fastforce
    have "v = (False, None)" using assms c unfolding steady_def by (metis fst_conv)
    then show ?thesis using c that by (simp add: io_wp_call beside_def)
  qed
qed

lemma monitor_publish_steady:
  assumes "steady E" and "kb_callback k = Some f"
    and "\<And>k' w' l'. kb_state k' = current \<Longrightarrow> kb_callback k' = Some f
      \<Longrightarrow> ml_calls l' = ml_calls l @ (if current = kb_state k then [] else [(f, current)]) \<Longrightarrow> Q k' (w', l')"
  shows "io_wp (monitor_publish (logged E) access current k) Q (\<lambda>_. True) (w, l)"
  unfolding monitor_publish_def
  using assms(2)
  by (auto simp: Let_def registered_def simp del: logged_fields(4) intro!: steady_wp [OF assms(1)] assms(3))

lemma in_round_calls [simp]: "ml_calls (in_round f l) = ml_calls l"
  by (simp add: in_round_def split: list.splits)

lemma captured_calls: "captured_round c l c' l' \<Longrightarrow> ml_calls l' = ml_calls l"
  by (auto simp: captured_round_def)

lemma monitor_tick_steady:
  assumes "steady E" and "kb_callback (mo_keyboard m) = Some f"
  shows "io_wp (monitor_tick (logged E) fuel m) (\<lambda>m' (w', l'). kb_callback (mo_keyboard m') = Some f
      \<and> ml_calls l' = ml_calls l @ (if kb_state (mo_keyboard m') = kb_state (mo_keyboard m) then []
                                       else [(f, kb_state (mo_keyboard m'))])) (\<lambda>_. True) (w, l)"
  unfolding monitor_tick_def
  by (auto simp: monitor_scan_def monitor_capture_def keyboard_capture_all_def Let_def assms(2)
      intro!: logged_scan_wp logged_capture_wp monitor_publish_steady [OF assms(1), where f = f] dest!: captured_calls)

lemma monitor_rounds_steady:
  fixes E :: "'w keyboard_env"
  assumes "steady E" and "kb_callback (mo_keyboard m) = Some f"
  shows "io_wp (monitor_rounds (logged E) fuel n m) (\<lambda>(published, m') (w', l').
     ml_calls l' = ml_calls l @ map (Pair f) (changes (kb_state (mo_keyboard m)) (map snd published))) (\<lambda>_. True) (w, l)"
  using assms(2)
proof (induction n arbitrary: m w l)
  case 0
  then show ?case by simp
next
  case (Suc n)
  have tick: "io_wp (monitor_tick (logged E) fuel m) (\<lambda>m2. io_wp (io_bind (monitor_rounds (logged E) fuel n m2) (\<lambda>(published, m3).
         io_return ((kb_access (mo_keyboard m2), kb_state (mo_keyboard m2)) # published, m3)))
       (\<lambda>(published, m') (w', l').
          ml_calls l' = ml_calls l @ map (Pair f) (changes (kb_state (mo_keyboard m)) (map snd published))) (\<lambda>_. True))
       (\<lambda>_. True) (w', l1)" if "ml_calls l1 = ml_calls l" for w' l1
  proof (rule io_wp_mono [OF monitor_tick_steady [OF assms(1) Suc.prems]])
    fix m2 :: monitor and s2 :: "'w \<times> monitor_log"
    assume result: "case s2 of (w2, l2) \<Rightarrow> kb_callback (mo_keyboard m2) = Some f
      \<and> ml_calls l2 = ml_calls l1 @ (if kb_state (mo_keyboard m2) = kb_state (mo_keyboard m) then []
                                       else [(f, kb_state (mo_keyboard m2))])"
    obtain w2 l2 where s2: "s2 = (w2, l2)" by (cases s2)
    show "io_wp (io_bind (monitor_rounds (logged E) fuel n m2) (\<lambda>(published, m3).
         io_return ((kb_access (mo_keyboard m2), kb_state (mo_keyboard m2)) # published, m3)))
       (\<lambda>(published, m') (w', l').
          ml_calls l' = ml_calls l @ map (Pair f) (changes (kb_state (mo_keyboard m)) (map snd published))) (\<lambda>_. True) s2"
      unfolding s2 io_wp_bind
      by (rule io_wp_mono [OF Suc.IH [where m = m2 and w = w2 and l = l2]])
        (use result s2 that in \<open>auto split: if_splits\<close>)
  qed auto
  show ?case
    using tick
    by (auto simp: Let_def registered_def note_round_def simp del: logged_fields(3) intro!: steady_wp(1) [OF assms(1)])
qed

text \<open>
  A callback sees every change and nothing else.  While one callback stays registered, does not
  throw and the monitor is not being stopped, it is called with exactly the states published that
  differ from the one before, each once, in order, and never with a state that was not published.
\<close>

theorem keyboard_callback_exact:
  assumes "steady E" and "kb_callback (mo_keyboard m) = Some f"
    and "monitor_rounds (logged E) fuel n m (w, l) = (Done (published, m'), w', l')"
  shows "ml_calls l' = ml_calls l @ map (Pair f) (changes (kb_state (mo_keyboard m)) (map snd published))"
  using io_wp_done [OF monitor_rounds_steady [OF assms(1,2)] assms(3)] by simp

section \<open>An example\<close>

text \<open>One keyboard whose key A is held down, found by every scan.\<close>

definition sample_ops :: "nat keyboard_ops" where
  "sample_ops =
     \<lparr>ko_errno = (\<lambda>w. 0), ko_clear_errno = (\<lambda>w. w), ko_alloc = (\<lambda>w. (True, w)),
      ko_open_directory = (\<lambda>w. (Some 0, w)),
      ko_next_entry = (\<lambda>d w. (if even w then Some ''event0'' else None, Suc w)),
      ko_close_directory = (\<lambda>d w. w), ko_open_device = (\<lambda>p w. (5, w)), ko_close_device = (\<lambda>fd w. w),
      ko_bus = (\<lambda>fd w. (Some 3, w)), ko_key_bits = (\<lambda>fd w. (Some [- 1], w)),
      ko_keys = (\<lambda>fd w. (Some [0x40000000], w)), ko_leds = (\<lambda>fd w. (Some [0], w))\<rparr>"

definition sample_keyboard_env :: "nat keyboard_env" where
  "sample_keyboard_env =
     \<lparr>ke_ops = sample_ops, ke_wait = (\<lambda>w. ((False, None), w)), ke_stopping = (\<lambda>w. (False, w)),
      ke_call = (\<lambda>f s w. ((False, None), w))\<rparr>"

definition sample_state :: KeyboardState where
  "sample_state = mapKeyboardState
     (merge_bits (replicate (KEY_MAX + 1) False) [0x40000000]) (merge_bits (replicate (LED_MAX + 1) False) [0])"

definition sample_monitor :: monitor where
  "sample_monitor = monitor_new (Keyboard_new\<lparr>kb_callback := Some 1\<rparr>)"

lemma keyboard_steps:
  "io_bind m f w = (case m w of (Done v, w') \<Rightarrow> f v w' | (Undefined, w') \<Rightarrow> (Undefined, w')
     | (Pending, w') \<Rightarrow> (Pending, w'))"
  "io_return x w = (Done x, w)" "io_call g w = (case g w of (v, w') \<Rightarrow> (Done v, w'))"
  "io_do h w = (Done (), h w)"
  by (simp_all add: io_bind_def io_return_def io_call_def io_do_def split: prod.splits outcome.splits)

lemma sample_is_keyboard: "is_keyboard [- 1]"
  by (simp add: is_keyboard_def keyboardBitSet_def KEY_A_def KEY_Z_def KEY_ENTER_def KEY_SPACE_def)

lemma sample_devices_value:
  "devices_run (keyboard_ledgered sample_ops) 3 [True, False] [] (0, keyboard_ledger_empty)
     = (Done [5], 2, keyboard_ledger_empty\<lparr>kl_open := {#5#}\<rparr>)"
  by (simp add: keyboard_scan_def scan_entry_def examine_candidate_def keyboard_capture_all_def keyboard_steps
      keyboard_ledgered_def sample_ops_def sample_is_keyboard beside_def BUS_CEC_def kl_use_def
      kl_use_directory_def keyboard_ledger_empty_def keyboard_errno_def numeral_3_eq_3 Let_def)

theorem keyboard_descriptors_owned_witness:
  "\<exists>w2. close_descriptors (keyboard_ledgered sample_ops) [5] (2, keyboard_ledger_empty\<lparr>kl_open := {#5#}\<rparr>)
     = (Done (), w2, keyboard_ledger_empty)"
  using keyboard_descriptors_owned [of sample_ops 3 "[True, False]" 0] unfolding sample_devices_value by simp

lemma merge_bits_nth: "i < length bits \<Longrightarrow> merge_bits bits ws ! i \<longleftrightarrow> bits ! i \<or> keyboardBitSet ws i"
  "length (merge_bits bits ws) = length bits"
  by (simp_all add: merge_bits_def)

lemma sample_different: "sample_state \<noteq> KeyboardState_new"
proof -
  let ?keys = "merge_bits (replicate (KEY_MAX + 1) False) [0x40000000]"
  let ?leds = "merge_bits (replicate (LED_MAX + 1) False) [0]"
  have shift: "\<not> shift_pressed ?keys" and a: "isPressed ?keys 30"
    by (simp_all add: shift_pressed_def isPressed_def merge_bits_nth keyboardBitSet_def KEY_MAX_def)
  have leds: "\<not> ?leds ! 1" "\<not> ?leds ! 0" by (simp_all add: merge_bits_nth keyboardBitSet_def LED_MAX_def)
  have "(30, 97) \<in> set (character_keys False False False)" by code_simp
  then have "types_character ?keys ?leds 97" using shift a leds by (auto simp: types_character_def)
  then have "ks_ascii sample_state ! 97" using map_ascii [of ?keys ?leds] by (simp add: sample_state_def)
  moreover have "\<not> ks_ascii KeyboardState_new ! 97" by (simp add: KeyboardState_new_def)
  ultimately show ?thesis by metis
qed

lemma sample_rounds_value:
  "monitor_rounds (logged sample_keyboard_env) (Suc (Suc (Suc 0))) (Suc (Suc 0)) sample_monitor (0, \<lparr>ml_calls = [], ml_scans = 0, ml_rounds = []\<rparr>)
     = (Done ([(Ready, sample_state), (Ready, sample_state)],
          \<lparr>mo_keyboard = \<lparr>kb_state = sample_state, kb_callback = Some 1, kb_access = Ready, kb_scan_count = 2,
             kb_running = True\<rparr>, mo_devices = [5], mo_rescan_ticks = 199\<rparr>),
          2, \<lparr>ml_calls = [(1, sample_state)], ml_scans = 1, ml_rounds = [([[0x40000000]], [[0]]), ([[0x40000000]], [[0]])]\<rparr>)"
  using sample_different
  by (simp add: sample_monitor_def monitor_new_def Keyboard_new_def
      monitor_tick_def monitor_scan_def monitor_capture_def monitor_publish_def registered_def
      sample_keyboard_env_def keyboard_scan_def scan_entry_def examine_candidate_def keyboard_capture_all_def
      keyboard_steps logged_ops_def unlogged_def sample_ops_def sample_is_keyboard beside_def BUS_CEC_def
      keyboard_errno_def capture_empty_def RESCAN_INTERVAL_TICKS_def sample_state_def Let_def
      note_round_def note_keys_def note_leds_def in_round_def)

theorem keyboard_callback_exact_witness:
  "[(1, sample_state)] = [] @ map (Pair 1) (changes KeyboardState_new [sample_state, sample_state])"
proof -
  have steady: "steady sample_keyboard_env" by (simp add: steady_def sample_keyboard_env_def)
  have registered: "kb_callback (mo_keyboard sample_monitor) = Some 1"
    by (simp add: sample_monitor_def monitor_new_def)
  from keyboard_callback_exact [OF steady registered sample_rounds_value] sample_different show ?thesis
    by (simp add: sample_monitor_def monitor_new_def Keyboard_new_def)
qed

text \<open>The same environment without the devices' directory.\<close>

definition lost_env :: "nat keyboard_env" where
  "lost_env = sample_keyboard_env\<lparr>ke_ops := sample_ops\<lparr>ko_open_directory := (\<lambda>w. (None, w))\<rparr>\<rparr>"

lemma lost_tick:
  assumes "kb_access (mo_keyboard m) \<noteq> Ready" and "mo_devices m = []"
  shows "\<exists>m' s'. monitor_tick (logged lost_env) fuel m s = (Done m', s')
    \<and> kb_access (mo_keyboard m') \<noteq> Ready \<and> mo_devices m' = []"
  using assms
  by (cases s)
     (auto simp: monitor_tick_def monitor_scan_def monitor_capture_def monitor_publish_def keyboard_scan_def
       keyboard_steps lost_env_def sample_keyboard_env_def logged_ops_def unlogged_def sample_ops_def beside_def
       keyboard_errno_def keyboard_unavailable_def keyboardPermissionDenied_def registered_def Let_def
       split: option.splits)

lemma lost_returns:
  assumes "kb_access (mo_keyboard m) \<noteq> Ready" and "mo_devices m = []"
  shows "\<exists>p m' w' l'. monitor_rounds (logged lost_env) fuel n m s = (Done (p, m'), w', l')
    \<and> length p = n \<and> kb_access (mo_keyboard m') \<noteq> Ready \<and> mo_devices m' = []"
  using assms
proof (induction n arbitrary: m s)
  case 0
  then show ?case by (cases s) (simp add: keyboard_steps)
next
  case (Suc n)
  obtain s0 where wait: "io_call (ke_wait (logged lost_env)) s = (Done (False, None), s0)"
    by (cases s) (simp add: keyboard_steps beside_def lost_env_def sample_keyboard_env_def)
  obtain m1 s1 where tick: "monitor_tick (logged lost_env) fuel m s0 = (Done m1, s1)"
    and m1: "kb_access (mo_keyboard m1) \<noteq> Ready" "mo_devices m1 = []"
    using lost_tick [OF Suc.prems] by blast
  from Suc.IH [OF m1, of s1] show ?case
    using wait tick by (auto simp: io_bind_def io_return_def registered_def simp del: logged_fields(3))
qed

theorem keyboard_lost_released_witness:
  "\<exists>m l1 published m' l2. kb_access (mo_keyboard m) \<noteq> Ready \<and> length published = 201
     \<and> (\<exists>w1 w2. monitor_rounds (logged lost_env) 0 201 m (w1, l1) = (Done (published, m'), w2, l2))
     \<and> filter (\<lambda>(access, state). access \<noteq> Ready \<and> state \<noteq> KeyboardState_new) published = []
     \<and> ml_scans l1 < ml_scans l2"
proof -
  have start: "kb_access (mo_keyboard (monitor_new Keyboard_new)) \<noteq> Ready" "mo_devices (monitor_new Keyboard_new) = []"
    by (simp_all add: monitor_new_def Keyboard_new_def)
  obtain p m w1 l1 where first: "monitor_rounds (logged lost_env) 0 7 (monitor_new Keyboard_new)
      (0, \<lparr>ml_calls = [], ml_scans = 0, ml_rounds = []\<rparr>) = (Done (p, m), w1, l1)"
    and m: "kb_access (mo_keyboard m) \<noteq> Ready" "mo_devices m = []"
    using lost_returns [OF start] by blast
  obtain p' m' w2 l2 where second: "monitor_rounds (logged lost_env) 0 201 m (w1, l1) = (Done (p', m'), w2, l2)"
    and len: "length p' = 201"
    using lost_returns [OF m] by blast
  note result = keyboard_lost_released [OF first second]
  then obtain reads where reads: "map (\<lambda>(access, state). (access = Ready, state)) (p @ p') = map (\<lambda>(keys, leds).
      if keys = [] then (False, KeyboardState_new)
      else (True, mapKeyboardState (foldl merge_bits (replicate (KEY_MAX + 1) False) keys)
                    (foldl merge_bits (replicate (LED_MAX + 1) False) leds))) reads"
    by blast
  have "state = KeyboardState_new" if x: "(access, state) \<in> set p'" "access \<noteq> Ready" for access state
  proof -
    have "(access = Ready, state) \<in> set (map (\<lambda>(access, state). (access = Ready, state)) (p @ p'))"
      using x(1) by force
    then show ?thesis unfolding reads using x(2) by (auto split: if_splits)
  qed
  then have "filter (\<lambda>(access, state). access \<noteq> Ready \<and> state \<noteq> KeyboardState_new) p' = []"
    by (auto simp: filter_empty_conv)
  moreover have "ml_scans l1 < ml_scans l2" using result m(1) len by simp
  ultimately show ?thesis using m(1) len second by blast
qed

end
