(* ===== verification/KeyboardWindows.thy ===== *)
theory KeyboardWindows
  imports Keyboard
begin

text \<open>
  The Windows keyboard (\<open>platform/iui/win/device/Keyboard.cpp\<close>): the keys are polled one by one in
  every round of the monitor, under the object's mutex, and written into the published state.  The
  system's answers during one round are a function of the key.
\<close>

section \<open>The system's answers\<close>

record windows_keys =
  wk_async :: "nat \<Rightarrow> u16" \<comment> \<open>\<open>GetAsyncKeyState\<close>\<close>
  wk_state :: "nat \<Rightarrow> u16" \<comment> \<open>\<open>GetKeyState\<close>\<close>
  wk_scan :: "nat \<Rightarrow> u16" \<comment> \<open>\<open>VkKeyScanA\<close>\<close>

abbreviation (input) VK_BACK :: nat where "VK_BACK \<equiv> 8"
abbreviation (input) VK_TAB :: nat where "VK_TAB \<equiv> 9"
abbreviation (input) VK_RETURN :: nat where "VK_RETURN \<equiv> 13"
abbreviation (input) VK_CONTROL :: nat where "VK_CONTROL \<equiv> 17"
abbreviation (input) VK_MENU :: nat where "VK_MENU \<equiv> 18"
abbreviation (input) VK_CAPITAL :: nat where "VK_CAPITAL \<equiv> 20"
abbreviation (input) VK_ESCAPE :: nat where "VK_ESCAPE \<equiv> 27"
abbreviation (input) VK_SPACE :: nat where "VK_SPACE \<equiv> 32"
abbreviation (input) VK_LEFT :: nat where "VK_LEFT \<equiv> 37"
abbreviation (input) VK_UP :: nat where "VK_UP \<equiv> 38"
abbreviation (input) VK_RIGHT :: nat where "VK_RIGHT \<equiv> 39"
abbreviation (input) VK_DOWN :: nat where "VK_DOWN \<equiv> 40"
abbreviation (input) VK_DELETE :: nat where "VK_DELETE \<equiv> 46"
abbreviation (input) VK_MULTIPLY :: nat where "VK_MULTIPLY \<equiv> 106"
abbreviation (input) VK_ADD :: nat where "VK_ADD \<equiv> 107"
abbreviation (input) VK_SUBTRACT :: nat where "VK_SUBTRACT \<equiv> 109"
abbreviation (input) VK_DECIMAL :: nat where "VK_DECIMAL \<equiv> 110"
abbreviation (input) VK_DIVIDE :: nat where "VK_DIVIDE \<equiv> 111"
abbreviation (input) VK_NUMLOCK :: nat where "VK_NUMLOCK \<equiv> 144"
abbreviation (input) VK_SCROLL :: nat where "VK_SCROLL \<equiv> 145"
abbreviation (input) VK_LSHIFT :: nat where "VK_LSHIFT \<equiv> 160"
abbreviation (input) VK_RSHIFT :: nat where "VK_RSHIFT \<equiv> 161"
abbreviation (input) VK_OEM_1 :: nat where "VK_OEM_1 \<equiv> 186"
abbreviation (input) VK_OEM_PLUS :: nat where "VK_OEM_PLUS \<equiv> 187"
abbreviation (input) VK_OEM_COMMA :: nat where "VK_OEM_COMMA \<equiv> 188"
abbreviation (input) VK_OEM_MINUS :: nat where "VK_OEM_MINUS \<equiv> 189"
abbreviation (input) VK_OEM_PERIOD :: nat where "VK_OEM_PERIOD \<equiv> 190"
abbreviation (input) VK_OEM_2 :: nat where "VK_OEM_2 \<equiv> 191"
abbreviation (input) VK_OEM_3 :: nat where "VK_OEM_3 \<equiv> 192"
abbreviation (input) VK_OEM_4 :: nat where "VK_OEM_4 \<equiv> 219"
abbreviation (input) VK_OEM_5 :: nat where "VK_OEM_5 \<equiv> 220"
abbreviation (input) VK_OEM_6 :: nat where "VK_OEM_6 \<equiv> 221"

definition down :: "windows_keys \<Rightarrow> nat \<Rightarrow> bool" where
  "down K key \<longleftrightarrow> and (wk_async K key) 0x8000 \<noteq> 0"

definition scan :: "windows_keys \<Rightarrow> nat \<Rightarrow> bool" where
  "scan K key \<longleftrightarrow> and (wk_scan K key) 0x8000 \<noteq> 0"

definition toggled :: "windows_keys \<Rightarrow> nat \<Rightarrow> bool" where
  "toggled K key \<longleftrightarrow> and (wk_state K key) 0x0001 \<noteq> 0"

definition assign_all :: "bool list \<Rightarrow> (nat \<times> bool) list \<Rightarrow> bool list" where
  "assign_all bits values = foldl (\<lambda>bs c. bs[fst c := snd c]) bits values"

section \<open>Polling\<close>

definition setKeyStateLock :: "windows_keys \<Rightarrow> KeyboardState \<Rightarrow> KeyboardState" where
  "setKeyStateLock K s = s\<lparr>ks_lock := [toggled K VK_CAPITAL, toggled K VK_NUMLOCK, toggled K VK_SCROLL]\<rparr>"

definition setKeyStateCommand :: "windows_keys \<Rightarrow> KeyboardState \<Rightarrow> KeyboardState" where
  "setKeyStateCommand K s = s\<lparr>ks_command :=
     [down K VK_SPACE,
      wk_async K VK_RETURN \<noteq> 0,
      down K VK_DELETE,
      down K VK_ESCAPE,
      down K VK_TAB,
      down K VK_RSHIFT \<or> down K VK_LSHIFT,
      down K VK_CONTROL,
      down K VK_BACK,
      down K VK_MENU]\<rparr>"

text \<open>The keys F1 to F19 and F21 to F24, in consecutive places.\<close>

definition setKeyStateFunction :: "windows_keys \<Rightarrow> KeyboardState \<Rightarrow> KeyboardState" where
  "setKeyStateFunction K s = s\<lparr>ks_function := assign_all (ks_function s)
     (map (\<lambda>i. (i, down K (0x70 + i))) [0..<19] @ map (\<lambda>i. (i, down K (0x71 + i))) [19..<23])\<rparr>"

definition setKeyStateArrow :: "windows_keys \<Rightarrow> KeyboardState \<Rightarrow> KeyboardState" where
  "setKeyStateArrow K s = s\<lparr>ks_arrow := [down K VK_LEFT, down K VK_UP, down K VK_DOWN, down K VK_RIGHT]\<rparr>"

definition setKeyStateAlphabet :: "windows_keys \<Rightarrow> KeyboardState \<Rightarrow> KeyboardState" where
  "setKeyStateAlphabet K s =
     (let is_big_alphabet = (ks_lock s ! 0 \<noteq> ks_command s ! 5) in
      s\<lparr>ks_ascii := assign_all (ks_ascii s)
        (map (\<lambda>i. ((if is_big_alphabet then code CHR ''A'' else code CHR ''a'') + i, down K (code CHR ''A'' + i)))
          [0..<26])\<rparr>)"

definition setKeyStateNumeric :: "windows_keys \<Rightarrow> KeyboardState \<Rightarrow> KeyboardState" where
  "setKeyStateNumeric K s =
     (let is_numlock = ks_lock s ! 1; is_shift = ks_command s ! 5 in
      s\<lparr>ks_ascii := assign_all (ks_ascii s)
        (map (\<lambda>i. (code CHR ''0'' + i,
               (\<not> is_shift \<and> down K (code CHR ''0'' + i)) \<or> (is_numlock \<and> down K (0x60 + i)))) [0..<10])\<rparr>)"

definition setKeyStateSymbol :: "windows_keys \<Rightarrow> KeyboardState \<Rightarrow> KeyboardState" where
  "setKeyStateSymbol K s =
     (let is_shift = ks_command s ! 5 in
      s\<lparr>ks_ascii := assign_all (ks_ascii s) [
       (code CHR '' '', ks_command s ! 0),
       (code CHR ''!'', is_shift \<and> down K (code CHR ''1'')),
       (code (CHR 0x22), is_shift \<and> down K (code CHR ''2'')),
       (code CHR ''#'', is_shift \<and> down K (code CHR ''3'')),
       (code CHR ''$'', is_shift \<and> down K (code CHR ''4'')),
       (code CHR ''%'', is_shift \<and> down K (code CHR ''5'')),
       (code CHR ''&'', is_shift \<and> down K (code CHR ''6'')),
       (code (CHR 0x27), is_shift \<and> down K (code CHR ''7'')),
       (code CHR ''('', is_shift \<and> down K (code CHR ''8'')),
       (code CHR '')'', is_shift \<and> down K (code CHR ''9'')),
       (code CHR ''*'', (\<not> is_shift \<and> down K VK_OEM_1) \<or> down K VK_MULTIPLY),
       (code CHR ''+'', (is_shift \<and> down K VK_OEM_PLUS) \<or> down K VK_ADD),
       (code CHR '','', \<not> is_shift \<and> down K VK_OEM_COMMA),
       (code CHR ''-'', (\<not> is_shift \<and> down K VK_OEM_MINUS) \<or> down K VK_SUBTRACT),
       (code CHR ''.'', (\<not> is_shift \<and> down K VK_OEM_PERIOD) \<or> down K VK_DECIMAL),
       (code CHR ''/'', (is_shift \<and> down K VK_OEM_2) \<or> down K VK_DIVIDE),
       (code CHR '':'', \<not> is_shift \<and> down K VK_OEM_1),
       (code CHR '';'', \<not> is_shift \<and> down K VK_OEM_PLUS),
       (code CHR ''<'', is_shift \<and> down K VK_OEM_COMMA),
       (code CHR ''='', is_shift \<and> down K VK_OEM_MINUS),
       (code CHR ''>'', is_shift \<and> down K VK_OEM_PERIOD),
       (code CHR ''?'', \<not> is_shift \<and> down K VK_OEM_2),
       (code CHR ''@'', is_shift \<and> scan K (code CHR ''9'')),
       (code CHR ''['', \<not> is_shift \<and> down K VK_OEM_4),
       (code (CHR 0x5C), \<not> is_shift \<and> down K VK_OEM_5),
       (code CHR '']'', \<not> is_shift \<and> down K VK_OEM_6),
       (code CHR ''^'', is_shift \<and> down K VK_OEM_3),
       (code CHR ''_'', is_shift \<and> down K (code CHR ''9'')),
       (code (CHR 0x60), is_shift \<and> down K (code CHR ''9'')),
       (code CHR ''{'', is_shift \<and> down K VK_OEM_4),
       (code CHR ''|'', is_shift \<and> down K VK_OEM_5),
       (code CHR ''}'', is_shift \<and> down K VK_OEM_6),
       (code CHR ''~'', is_shift \<and> down K (code CHR ''~''))]\<rparr>)"

definition setKeyStateASCII_Other :: "windows_keys \<Rightarrow> KeyboardState \<Rightarrow> KeyboardState" where
  "setKeyStateASCII_Other K s = s\<lparr>ks_ascii := assign_all (ks_ascii s)
     [(ASCII_BACK, ks_command s ! 7), (ASCII_TAB, ks_command s ! 4), (ASCII_CR, ks_command s ! 1),
      (ASCII_LF, ks_command s ! 1), (ASCII_ESC, ks_command s ! 3), (ASCII_DEL, ks_command s ! 2)]\<rparr>"

definition windows_poll :: "windows_keys \<Rightarrow> KeyboardState" where
  "windows_poll K =
     setKeyStateASCII_Other K (setKeyStateSymbol K (setKeyStateNumeric K (setKeyStateAlphabet K
       (setKeyStateArrow K (setKeyStateFunction K (setKeyStateCommand K (setKeyStateLock K KeyboardState_new)))))))"

section \<open>The monitor\<close>

definition WindowsKeyboard_new :: Keyboard where
  "WindowsKeyboard_new = Keyboard_new\<lparr>kb_access := Ready\<rparr>"

text \<open>A round: the poll, and the call of the callback for a change; the access state is never written.\<close>

definition windows_tick :: "'w keyboard_env \<Rightarrow> ('w \<Rightarrow> windows_keys \<times> 'w) \<Rightarrow> Keyboard \<Rightarrow> ('w, Keyboard) io" where
  "windows_tick E poll k =
     io_bind (io_call poll) (\<lambda>K. monitor_publish E (kb_access k) (windows_poll K) k)"

fun windows_monitorLoop ::
    "'w keyboard_env \<Rightarrow> ('w \<Rightarrow> windows_keys \<times> 'w) \<Rightarrow> nat \<Rightarrow> Keyboard \<Rightarrow> ('w, Keyboard) io" where
  "windows_monitorLoop E poll 0 k = io_pending"
| "windows_monitorLoop E poll (Suc n) k =
     io_bind (io_call (ke_wait E)) (\<lambda>(stop, registration).
     let k1 = registered registration k in
     if stop then io_return k1
     else io_bind (windows_tick E poll k1) (windows_monitorLoop E poll n))"

text \<open>Copies and moves take the access state along.\<close>

definition windows_copy :: "Keyboard \<Rightarrow> Keyboard" where
  "windows_copy source =
     WindowsKeyboard_new\<lparr>kb_state := kb_state source, kb_callback := kb_callback source, kb_access := kb_access source\<rparr>"

definition windows_move :: "Keyboard \<Rightarrow> Keyboard \<times> Keyboard" where
  "windows_move source = (windows_copy source, source\<lparr>kb_callback := None, kb_running := False\<rparr>)"

definition windows_copy_assign :: "Keyboard \<Rightarrow> Keyboard \<Rightarrow> Keyboard" where
  "windows_copy_assign source this =
     this\<lparr>kb_state := kb_state source, kb_callback := kb_callback source, kb_access := kb_access source,
          kb_running := True\<rparr>"

definition windows_move_assign :: "Keyboard \<Rightarrow> Keyboard \<Rightarrow> Keyboard \<times> Keyboard" where
  "windows_move_assign source this =
     (windows_copy_assign source this, source\<lparr>kb_callback := None, kb_running := False\<rparr>)"

section \<open>Characters\<close>

lemma assign_all_length [simp]: "length (assign_all bits vs) = length bits"
  by (induction vs arbitrary: bits) (simp_all add: assign_all_def)

lemma assign_all_Cons: "assign_all bits ((i, v) # vs) = assign_all (bits[i := v]) vs"
  by (simp add: assign_all_def)

lemma assign_all_other: "i \<notin> fst ` set vs \<Longrightarrow> assign_all bits vs ! i = bits ! i"
proof (induction vs arbitrary: bits)
  case Nil
  then show ?case by (simp add: assign_all_def)
next
  case (Cons c vs)
  then show ?case by (cases c) (simp add: assign_all_Cons)
qed

lemma assign_all_here:
  "(i, v) \<in> set vs \<Longrightarrow> distinct (map fst vs) \<Longrightarrow> i < length bits \<Longrightarrow> assign_all bits vs ! i = v"
proof (induction vs arbitrary: bits)
  case Nil
  then show ?case by simp
next
  case (Cons c vs)
  then show ?case
    by (cases c) (auto simp: assign_all_Cons assign_all_other image_iff)
qed

text \<open>The four groups of assignments have their places to themselves.\<close>

definition symbol_codes :: "nat list" where
  "symbol_codes = map code
     ([CHR '' '', CHR ''!'', CHR 0x22, CHR ''#'', CHR ''$'', CHR ''%'', CHR ''&'', CHR 0x27] @ ''()*+,-./:;<=>?@['' @ [CHR 0x5C]
      @ '']^_'' @ [CHR 0x60] @ ''{|}~'')"

lemma symbol_places:
  "set symbol_codes \<inter> {48..<58} = {}" "set symbol_codes \<inter> {65..<91} = {}" "set symbol_codes \<inter> {97..<123} = {}"
  "set symbol_codes \<inter> {8, 9, 10, 13, 27, 127} = {}"
  by (simp_all add: symbol_codes_def code_def)

lemma symbol_assignments: "ks_ascii (setKeyStateSymbol K s) ! i = ks_ascii s ! i" if "i \<notin> set symbol_codes"
  using that
  by (simp add: setKeyStateSymbol_def Let_def symbol_codes_def assign_all_other)

lemma other_assignments: "ks_ascii (setKeyStateASCII_Other K s) ! i = ks_ascii s ! i" if "i \<notin> {8, 9, 10, 13, 27, 127}"
  using that by (simp add: setKeyStateASCII_Other_def ascii_codes assign_all_other)

definition windows_shift :: "windows_keys \<Rightarrow> bool" where
  "windows_shift K \<longleftrightarrow> down K VK_RSHIFT \<or> down K VK_LSHIFT"

definition windows_before_numeric :: "windows_keys \<Rightarrow> KeyboardState" where
  "windows_before_numeric K = setKeyStateAlphabet K
     (setKeyStateArrow K (setKeyStateFunction K (setKeyStateCommand K (setKeyStateLock K KeyboardState_new))))"

lemma windows_before:
  "ks_lock (windows_before_numeric K) = [toggled K VK_CAPITAL, toggled K VK_NUMLOCK, toggled K VK_SCROLL]"
  "ks_command (windows_before_numeric K) ! 5 \<longleftrightarrow> windows_shift K"
  "length (ks_ascii (windows_before_numeric K)) = 128"
  "ks_ascii (windows_before_numeric K) = assign_all (replicate 128 False)
     (map (\<lambda>i. ((if toggled K VK_CAPITAL \<noteq> windows_shift K then 65 else 97) + i, down K (65 + i))) [0..<26])"
  by (simp_all add: windows_before_numeric_def setKeyStateAlphabet_def setKeyStateArrow_def setKeyStateFunction_def
      setKeyStateCommand_def setKeyStateLock_def KeyboardState_new_def windows_shift_def [symmetric] code_def Let_def)

lemma windows_poll_alt:
  "windows_poll K = setKeyStateASCII_Other K (setKeyStateSymbol K (setKeyStateNumeric K (windows_before_numeric K)))"
  by (simp add: windows_poll_def windows_before_numeric_def)

lemma windows_letters:
  assumes "i < 26"
  shows "ks_ascii (windows_poll K) ! (65 + i) \<longleftrightarrow> (toggled K VK_CAPITAL \<noteq> windows_shift K) \<and> down K (65 + i)"
    and "ks_ascii (windows_poll K) ! (97 + i) \<longleftrightarrow> (toggled K VK_CAPITAL = windows_shift K) \<and> down K (65 + i)"
proof -
  have numeric: "ks_ascii (setKeyStateNumeric K s) ! j = ks_ascii s ! j" if "j \<notin> {48..<58}" for s j
    using that by (auto simp: setKeyStateNumeric_def Let_def code_def intro!: assign_all_other)
  have out: "65 + i \<notin> set symbol_codes" "97 + i \<notin> set symbol_codes"
    using assms symbol_places(2,3) by auto
  have other: "65 + i \<notin> {8, 9, 10, 13, 27, 127}" "97 + i \<notin> {8, 9, 10, 13, 27, 127}" using assms by auto
  have here: "assign_all (replicate 128 False) (map (\<lambda>i. (b + i, down K (65 + i))) [0..<26]) ! (b + i) = down K (65 + i)"
    if "b \<in> {65, 97}" for b
    using that assms by (intro assign_all_here) (auto simp: comp_def distinct_map)
  have not_here: "\<not> assign_all (replicate 128 False) (map (\<lambda>i. (b + i, down K (65 + i))) [0..<26]) ! (c + i)"
    if "(b, c) \<in> {(65, 97), (97, 65)}" for b c
    using that assms by (subst assign_all_other) auto
  show "ks_ascii (windows_poll K) ! (65 + i) \<longleftrightarrow> (toggled K VK_CAPITAL \<noteq> windows_shift K) \<and> down K (65 + i)"
    unfolding windows_poll_alt other_assignments [OF other(1)] symbol_assignments [OF out(1)]
    using here [of 65] not_here [of 97 65] by (auto simp: numeric windows_before)
  show "ks_ascii (windows_poll K) ! (97 + i) \<longleftrightarrow> (toggled K VK_CAPITAL = windows_shift K) \<and> down K (65 + i)"
    unfolding windows_poll_alt other_assignments [OF other(2)] symbol_assignments [OF out(2)]
    using here [of 97] not_here [of 65 97] assms by (auto simp: numeric windows_before)
qed

lemma windows_digits:
  assumes "i < 10"
  shows "ks_ascii (windows_poll K) ! (48 + i) \<longleftrightarrow>
    (\<not> windows_shift K \<and> down K (48 + i)) \<or> (toggled K VK_NUMLOCK \<and> down K (0x60 + i))"
proof -
  have out: "48 + i \<notin> set symbol_codes" using assms symbol_places(1) by auto
  have other: "48 + i \<notin> {8, 9, 10, 13, 27, 127}" using assms by auto
  have "ks_ascii (setKeyStateNumeric K (windows_before_numeric K)) ! (48 + i) \<longleftrightarrow>
    (\<not> windows_shift K \<and> down K (48 + i)) \<or> (toggled K VK_NUMLOCK \<and> down K (0x60 + i))"
    unfolding setKeyStateNumeric_def Let_def windows_before
    using assms
    by (simp add: code_def windows_before) (intro conjI impI assign_all_here; auto simp: distinct_map comp_def)
  then show ?thesis unfolding windows_poll_alt other_assignments [OF other] symbol_assignments [OF out] .
qed

lemma windows_functions:
  "ks_function (windows_poll K) = map (\<lambda>i. down K (0x70 + i)) [0..<19] @ map (\<lambda>i. down K (0x71 + i)) [19..<23] @ [False]"
proof (rule nth_equalityI)
  let ?vs = "map (\<lambda>i. (i, down K (0x70 + i))) [0..<19] @ map (\<lambda>i. (i, down K (0x71 + i))) [19..<23]"
  have f: "ks_function (windows_poll K) = assign_all (replicate 24 False) ?vs"
    by (simp add: windows_poll_def setKeyStateASCII_Other_def setKeyStateSymbol_def setKeyStateNumeric_def
        setKeyStateAlphabet_def setKeyStateArrow_def setKeyStateFunction_def setKeyStateCommand_def
        setKeyStateLock_def KeyboardState_new_def Let_def)
  show "length (ks_function (windows_poll K)) =
      length (map (\<lambda>i. down K (0x70 + i)) [0..<19] @ map (\<lambda>i. down K (0x71 + i)) [19..<23] @ [False])"
    by (simp add: f)
  fix i
  assume "i < length (ks_function (windows_poll K))"
  then have i: "i < 24" by (simp add: f)
  have distinct: "distinct (map fst ?vs)" by (simp add: comp_def)
  consider "i < 19" | "19 \<le> i" "i < 23" | "i = 23" using i by linarith
  then show "ks_function (windows_poll K) ! i =
      (map (\<lambda>i. down K (0x70 + i)) [0..<19] @ map (\<lambda>i. down K (0x71 + i)) [19..<23] @ [False]) ! i"
  proof cases
    case 1
    then have "assign_all (replicate 24 False) ?vs ! i = down K (0x70 + i)"
      using distinct i by (intro assign_all_here) auto
    then show ?thesis using 1 f by (simp add: nth_append)
  next
    case 2
    then have last: "i = 19 \<or> i = 20 \<or> i = 21 \<or> i = 22" by linarith
    then have "assign_all (replicate 24 False) ?vs ! i = down K (0x71 + i)"
      by (intro assign_all_here distinct) auto
    then show ?thesis using last f by (auto simp: nth_append)
  next
    case 3
    then have "assign_all (replicate 24 False) ?vs ! i = False" by (subst assign_all_other) auto
    then show ?thesis using 3 f by (simp add: nth_append)
  qed
qed

lemma windows_nines:
  "ks_ascii (windows_poll K) ! i \<longleftrightarrow> windows_shift K \<and> down K 57" if "i \<in> {41, 95, 96}"
proof -
  have len: "length (ks_ascii (setKeyStateNumeric K (windows_before_numeric K))) = 128"
    by (simp add: setKeyStateNumeric_def Let_def windows_before)
  have shift: "ks_command (setKeyStateNumeric K (windows_before_numeric K)) ! 5 \<longleftrightarrow> windows_shift K"
    by (simp add: setKeyStateNumeric_def Let_def windows_before)
  have updated: "ks_ascii (s\<lparr>ks_ascii := x\<rparr>) = x" for s :: KeyboardState and x by simp
  have "ks_ascii (setKeyStateSymbol K (setKeyStateNumeric K (windows_before_numeric K))) ! i
      \<longleftrightarrow> windows_shift K \<and> down K 57"
    unfolding setKeyStateSymbol_def Let_def updated
    by (rule assign_all_here) (use that len in \<open>auto simp: code_def shift\<close>)
  moreover have "i \<notin> {8, 9, 10, 13, 27, 127}" using that by auto
  ultimately show ?thesis unfolding windows_poll_alt by (simp add: other_assignments)
qed

text \<open>
  The keys of the Windows keyboard.  In every poll the letters are those of the pressed letter keys,
  in capitals exactly when either shift or the caps lock is on, the digits those of the pressed digit
  keys without shift or of the number pad under the number lock, and F1 to F19 are exact.  F20 is never
  reported and F21 to F24 appear one place early, and shift with 9 reports a closing parenthesis, an
  underscore and a grave accent at once, each of them for no other key.
\<close>

theorem keyboard_windows_keys:
  "(\<forall>i<26. (ks_ascii (windows_poll K) ! (65 + i) \<longleftrightarrow> (toggled K 0x14 \<noteq> windows_shift K) \<and> down K (65 + i))
      \<and> (ks_ascii (windows_poll K) ! (97 + i) \<longleftrightarrow> (toggled K 0x14 = windows_shift K) \<and> down K (65 + i)))
   \<and> (\<forall>i<10. ks_ascii (windows_poll K) ! (48 + i) \<longleftrightarrow>
        \<not> windows_shift K \<and> down K (48 + i) \<or> toggled K 0x90 \<and> down K (0x60 + i))
   \<and> (\<forall>i<19. ks_function (windows_poll K) ! i \<longleftrightarrow> down K (0x70 + i))
   \<and> (\<forall>i<4. ks_function (windows_poll K) ! (19 + i) \<longleftrightarrow> down K (0x84 + i))
   \<and> \<not> ks_function (windows_poll K) ! 23
   \<and> (\<forall>i\<in>{41, 95, 96}. ks_ascii (windows_poll K) ! i \<longleftrightarrow> windows_shift K \<and> down K 57)"
proof (intro conjI allI impI ballI)
  fix i :: nat
  assume i: "i < 26"
  from windows_letters [OF i] show "ks_ascii (windows_poll K) ! (65 + i) \<longleftrightarrow> (toggled K 0x14 \<noteq> windows_shift K) \<and> down K (65 + i)"
    "ks_ascii (windows_poll K) ! (97 + i) \<longleftrightarrow> (toggled K 0x14 = windows_shift K) \<and> down K (65 + i)" by blast+
next
  fix i :: nat
  assume "i < 10"
  from windows_digits [OF this] show "ks_ascii (windows_poll K) ! (48 + i) \<longleftrightarrow>
        \<not> windows_shift K \<and> down K (48 + i) \<or> toggled K 0x90 \<and> down K (0x60 + i)" .
next
  fix i :: nat
  assume "i < 4"
  then consider "i = 0" | "i = 1" | "i = 2" | "i = 3" by linarith
  then show "ks_function (windows_poll K) ! (19 + i) \<longleftrightarrow> down K (0x84 + i)"
    by cases (simp_all add: windows_functions nth_append)
qed (use windows_nines in \<open>auto simp: windows_functions nth_append\<close>)

theorem keyboard_windows_keys_witness:
  "\<exists>K. windows_shift K \<and> ks_ascii (windows_poll K) ! 41 \<and> ks_ascii (windows_poll K) ! 95"
proof -
  let ?K = "\<lparr>wk_async = (\<lambda>k. if k = 57 \<or> k = 0xA0 then 0x8000 else 0), wk_state = (\<lambda>k. 0), wk_scan = (\<lambda>k. 0)\<rparr>"
  have "windows_shift ?K" "down ?K 57" by (simp_all add: windows_shift_def down_def)
  with keyboard_windows_keys [of ?K] show ?thesis by blast
qed

end
