(* ===== verification/WorkerController.thy ===== *)
theory WorkerController
  imports Prelude
begin

text \<open>
  The worker controller (\<open>core/wse/utility/wse_WorkerController.h\<close>, \<open>wse_WorkerController.cpp\<close>) as a
  transition system.  Any number of owner threads and the worker itself call its operations; a section
  under the mutex is one action, and so is a join that ends.  Threads that were started are numbered;
  a number in \<open>wc_thread\<close>, or in the point of a call, is a joinable \<open>std::thread\<close> held there.
\<close>

section \<open>State\<close>

text \<open>A worker's thread: created, in its body, with its body ended (by return or by an exception), and
  finished.\<close>

datatype worker_phase = W_new | W_body | W_ended | W_finished

datatype caller = Owner nat | Worker nat

text \<open>Where a call is: \<open>start\<close> before its first section, joining a finished worker, before its second
  section; \<open>requestStop\<close>; \<open>stop\<close> before its request, before it takes the thread, joining.\<close>

datatype call_point =
    Start_first | Start_joining nat | Start_second
  | Request_stop
  | Stop_request | Stop_take | Stop_joining nat

record WorkerController =
  wc_thread :: "nat option"
  wc_worker_id :: "nat option"
  wc_running :: bool
  wc_stop_requested :: bool

record worker_world =
  ww_controller :: WorkerController
  ww_threads :: "worker_phase list"
  ww_calls :: "caller \<Rightarrow> call_point option"
  ww_failed :: bool \<comment> \<open>the construction of a thread has thrown, a record of the past\<close>

definition WorkerController_new :: WorkerController where
  "WorkerController_new = \<lparr>wc_thread = None, wc_worker_id = None, wc_running = False, wc_stop_requested = False\<rparr>"

definition worker_world_new :: worker_world where
  "worker_world_new = \<lparr>ww_controller = WorkerController_new, ww_threads = [], ww_calls = (\<lambda>c. None),
     ww_failed = False\<rparr>"

definition controller_isRunning :: "WorkerController \<Rightarrow> bool" where
  "controller_isRunning c = wc_running c"

definition controller_isStopRequested :: "WorkerController \<Rightarrow> bool" where
  "controller_isStopRequested c = wc_stop_requested c"

section \<open>Sections\<close>

text \<open>The sections of \<open>start\<close>.  The first answers what \<open>start\<close> returns, or the finished thread it
  took; the second starts thread \<open>t\<close> unless another call was faster.  When the constructor of the
  \<open>std::thread\<close> throws (not \<open>launched\<close>) the exception leaves \<open>start\<close>, \<open>Inl\<close>, and the flags stay set.\<close>

definition start_first :: "WorkerController \<Rightarrow> bool + nat option \<times> WorkerController" where
  "start_first c = (if wc_running c then Inl False else Inr (wc_thread c, c\<lparr>wc_thread := None\<rparr>))"

definition start_second :: "bool \<Rightarrow> nat \<Rightarrow> WorkerController \<Rightarrow> (unit + bool) \<times> WorkerController" where
  "start_second launched t c =
     (if wc_running c \<or> wc_thread c \<noteq> None then (Inr False, c)
      else let c1 = c\<lparr>wc_stop_requested := False, wc_running := True\<rparr>
           in if launched then (Inr True, c1\<lparr>wc_thread := Some t, wc_worker_id := Some t\<rparr>) else (Inl (), c1))"

definition requestStop :: "WorkerController \<Rightarrow> WorkerController" where
  "requestStop c = c\<lparr>wc_stop_requested := True\<rparr>"

text \<open>The second section of \<open>stop\<close>: the thread to join, or nothing for the worker itself.\<close>

definition stop_take :: "caller \<Rightarrow> WorkerController \<Rightarrow> nat option \<times> WorkerController" where
  "stop_take self c =
     (if wc_thread c = None \<or> (\<exists>t. self = Worker t \<and> wc_worker_id c = Some t) then (None, c)
      else (wc_thread c, c\<lparr>wc_thread := None\<rparr>))"

text \<open>The sections of the worker's thread.\<close>

definition worker_enter :: "nat \<Rightarrow> WorkerController \<Rightarrow> WorkerController" where
  "worker_enter t c = c\<lparr>wc_worker_id := Some t\<rparr>"

definition worker_leave :: "WorkerController \<Rightarrow> WorkerController" where
  "worker_leave c = c\<lparr>wc_running := False, wc_worker_id := None\<rparr>"

section \<open>Actions\<close>

datatype operation = Op_start | Op_requestStop | Op_stop

text \<open>A call, a section or a finished join of a call, and a step of a worker's thread; \<open>None\<close> when the
  action is not possible.  A worker calls from its body only, and its body ends when its calls have.
  \<open>Launch_fails\<close> is the second section of a start whose thread cannot be constructed.\<close>

datatype worker_event = Call caller operation | Advance caller | Launch_fails caller | Run nat

definition at_point :: "caller \<Rightarrow> call_point option \<Rightarrow> worker_world \<Rightarrow> worker_world" where
  "at_point self p s = s\<lparr>ww_calls := (ww_calls s)(self := p)\<rparr>"

definition finished :: "worker_world \<Rightarrow> nat \<Rightarrow> bool" where
  "finished s t \<longleftrightarrow> t < length (ww_threads s) \<and> ww_threads s ! t = W_finished"

definition launch :: "bool \<Rightarrow> caller \<Rightarrow> worker_world \<Rightarrow> worker_world" where
  "launch launched self s =
     (case start_second launched (length (ww_threads s)) (ww_controller s) of
        (Inl u, c) \<Rightarrow> at_point self None (s\<lparr>ww_controller := c, ww_failed := True\<rparr>)
      | (Inr False, c) \<Rightarrow> at_point self None s
      | (Inr True, c) \<Rightarrow> at_point self None (s\<lparr>ww_controller := c, ww_threads := ww_threads s @ [W_new]\<rparr>))"

fun advance :: "caller \<Rightarrow> call_point \<Rightarrow> worker_world \<Rightarrow> worker_world option" where
  "advance self Start_first s =
     (case start_first (ww_controller s) of
        Inl r \<Rightarrow> Some (at_point self None s)
      | Inr (None, c) \<Rightarrow> Some (at_point self (Some Start_second) (s\<lparr>ww_controller := c\<rparr>))
      | Inr (Some t, c) \<Rightarrow> Some (at_point self (Some (Start_joining t)) (s\<lparr>ww_controller := c\<rparr>)))"
| "advance self (Start_joining t) s =
     (if finished s t then Some (at_point self (Some Start_second) s) else None)"
| "advance self Start_second s = Some (launch True self s)"
| "advance self Request_stop s =
     Some (at_point self None (s\<lparr>ww_controller := requestStop (ww_controller s)\<rparr>))"
| "advance self Stop_request s =
     Some (at_point self (Some Stop_take) (s\<lparr>ww_controller := requestStop (ww_controller s)\<rparr>))"
| "advance self Stop_take s =
     (case stop_take self (ww_controller s) of
        (None, c) \<Rightarrow> Some (at_point self None s)
      | (Some t, c) \<Rightarrow> Some (at_point self (Some (Stop_joining t)) (s\<lparr>ww_controller := c\<rparr>)))"
| "advance self (Stop_joining t) s = (if finished s t then Some (at_point self None s) else None)"

definition may_call :: "worker_world \<Rightarrow> caller \<Rightarrow> bool" where
  "may_call s self \<longleftrightarrow> ww_calls s self = None \<and>
     (case self of Owner n \<Rightarrow> True | Worker t \<Rightarrow> t < length (ww_threads s) \<and> ww_threads s ! t = W_body)"

fun first_point :: "operation \<Rightarrow> call_point" where
  "first_point Op_start = Start_first"
| "first_point Op_requestStop = Request_stop"
| "first_point Op_stop = Stop_request"

definition run_worker :: "nat \<Rightarrow> worker_world \<Rightarrow> worker_world option" where
  "run_worker t s =
     (if length (ww_threads s) \<le> t then None
      else case ww_threads s ! t of
          W_new \<Rightarrow> Some (s\<lparr>ww_threads := (ww_threads s)[t := W_body],
                         ww_controller := worker_enter t (ww_controller s)\<rparr>)
        | W_body \<Rightarrow> if ww_calls s (Worker t) = None then Some (s\<lparr>ww_threads := (ww_threads s)[t := W_ended]\<rparr>) else None
        | W_ended \<Rightarrow> Some (s\<lparr>ww_threads := (ww_threads s)[t := W_finished],
                           ww_controller := worker_leave (ww_controller s)\<rparr>)
        | W_finished \<Rightarrow> None)"

fun worker_event_step :: "worker_event \<Rightarrow> worker_world \<Rightarrow> worker_world option" where
  "worker_event_step (Call self opr) s =
     (if may_call s self then Some (at_point self (Some (first_point opr)) s) else None)"
| "worker_event_step (Advance self) s =
     (case ww_calls s self of None \<Rightarrow> None | Some p \<Rightarrow> advance self p s)"
| "worker_event_step (Launch_fails self) s =
     (if ww_calls s self = Some Start_second then Some (launch False self s) else None)"
| "worker_event_step (Run t) s = run_worker t s"

inductive worker_reachable :: "worker_world \<Rightarrow> bool" where
  worker_start: "worker_reachable worker_world_new"
| worker_next: "worker_reachable s \<Longrightarrow> worker_event_step e s = Some s' \<Longrightarrow> worker_reachable s'"

fun worker_events :: "worker_event list \<Rightarrow> worker_world \<Rightarrow> worker_world option" where
  "worker_events [] s = Some s"
| "worker_events (e # es) s = (case worker_event_step e s of None \<Rightarrow> None | Some s' \<Rightarrow> worker_events es s')"

section \<open>Invariant\<close>

text \<open>The threads held: by the controller and by the calls that join.\<close>

definition holds :: "worker_world \<Rightarrow> caller option \<Rightarrow> nat \<Rightarrow> bool" where
  "holds s h t \<longleftrightarrow>
     (case h of None \<Rightarrow> wc_thread (ww_controller s) = Some t
      | Some self \<Rightarrow> ww_calls s self = Some (Start_joining t) \<or> ww_calls s self = Some (Stop_joining t))"

definition live :: "worker_world \<Rightarrow> nat \<Rightarrow> bool" where
  "live s t \<longleftrightarrow> t < length (ww_threads s) \<and> ww_threads s ! t \<noteq> W_finished"

text \<open>The flags agree with the threads, but for a start whose thread could not be constructed; every thread is held once, and a live one is held; only finished
  threads are joined by \<open>start\<close>; the worker's own calls never take a thread.\<close>

definition flags_inv :: "worker_world \<Rightarrow> bool" where
  "flags_inv s \<longleftrightarrow>
     (if wc_running (ww_controller s) \<and> \<not> ww_failed s
      then \<exists>t. wc_worker_id (ww_controller s) = Some t \<and> (\<forall>u. live s u \<longleftrightarrow> u = t)
      else wc_running (ww_controller s) = ww_failed s \<and> wc_worker_id (ww_controller s) = None \<and> (\<forall>u. \<not> live s u))"

definition handles_inv :: "worker_world \<Rightarrow> bool" where
  "handles_inv s \<longleftrightarrow>
     (\<forall>h t. holds s h t \<longrightarrow> t < length (ww_threads s) \<and> (\<forall>h'. holds s h' t \<longrightarrow> h' = h))
     \<and> (\<forall>t. live s t \<longrightarrow> (\<exists>h. holds s h t))"

definition calls_inv :: "worker_world \<Rightarrow> bool" where
  "calls_inv s \<longleftrightarrow>
     (\<forall>self t. ww_calls s self = Some (Start_joining t) \<longrightarrow> finished s t)
     \<and> (\<forall>w p. ww_calls s (Worker w) = Some p \<longrightarrow> w < length (ww_threads s) \<and> ww_threads s ! w = W_body
          \<and> p \<in> {Start_first, Request_stop, Stop_request, Stop_take})"

definition controller_inv :: "worker_world \<Rightarrow> bool" where
  "controller_inv s \<longleftrightarrow> flags_inv s \<and> handles_inv s \<and> calls_inv s"

lemma controller_inv_new: "controller_inv worker_world_new"
  by (simp add: controller_inv_def flags_inv_def handles_inv_def calls_inv_def worker_world_new_def
      WorkerController_new_def live_def holds_def split: option.splits)

lemma at_point_simps [simp]:
  "ww_controller (at_point self p s) = ww_controller s" "ww_threads (at_point self p s) = ww_threads s"
  "ww_failed (at_point self p s) = ww_failed s"
  "ww_calls (at_point self p s) = (ww_calls s)(self := p)"
  by (simp_all add: at_point_def)

lemma launch_parts:
  "ww_calls (launch launched self s) = (ww_calls s)(self := None)"
  "wc_thread (ww_controller s) = Some t \<Longrightarrow> wc_thread (ww_controller (launch launched self s)) = Some t"
  "wc_running (ww_controller s) \<Longrightarrow> launch launched self s = at_point self None s"
  by (auto simp: launch_def start_second_def Let_def)

lemma live_cong: "ww_threads s' = ww_threads s \<Longrightarrow> live s' = live s"
  by (rule ext) (simp add: live_def)

lemma finished_not_live: "finished s t \<longleftrightarrow> t < length (ww_threads s) \<and> \<not> live s t"
  by (auto simp: finished_def live_def)

text \<open>How each part moves along.\<close>

lemma flags_cong:
  "ww_controller s' = ww_controller s \<Longrightarrow> ww_threads s' = ww_threads s \<Longrightarrow> ww_failed s' = ww_failed s
    \<Longrightarrow> flags_inv s' = flags_inv s"
  using live_cong [of s' s] by (simp add: flags_inv_def)

lemma handles_cong:
  "holds s' = holds s \<Longrightarrow> ww_threads s' = ww_threads s \<Longrightarrow> handles_inv s' = handles_inv s"
  using live_cong [of s' s] by (simp add: handles_inv_def)

text \<open>Which points hold a thread, and which a worker may be at.\<close>

fun point_holds :: "call_point option \<Rightarrow> nat option" where
  "point_holds (Some (Start_joining t)) = Some t"
| "point_holds (Some (Stop_joining t)) = Some t"
| "point_holds p = None"

lemma holds_alt:
  "holds s None t \<longleftrightarrow> wc_thread (ww_controller s) = Some t"
  "holds s (Some self) t \<longleftrightarrow> point_holds (ww_calls s self) = Some t"
  by (cases "ww_calls s self" rule: point_holds.cases; simp add: holds_def)+

lemma holds_at_point:
  "holds (at_point self p s) = (\<lambda>h t. if h = Some self then point_holds p = Some t else holds s h t)"
  by (intro ext, rename_tac h t, case_tac h) (auto simp: holds_alt)

definition calls_ok :: "worker_phase list \<Rightarrow> caller \<Rightarrow> call_point option \<Rightarrow> bool" where
  "calls_ok threads self p \<longleftrightarrow>
     (case p of None \<Rightarrow> True | Some q \<Rightarrow>
        (\<forall>t. q = Start_joining t \<longrightarrow> t < length threads \<and> threads ! t = W_finished)
        \<and> (\<forall>w. self = Worker w \<longrightarrow> w < length threads \<and> threads ! w = W_body
             \<and> q \<in> {Start_first, Request_stop, Stop_request, Stop_take}))"

lemma calls_inv_alt: "calls_inv s \<longleftrightarrow> (\<forall>self. calls_ok (ww_threads s) self (ww_calls s self))"
  by (auto simp: calls_inv_def calls_ok_def finished_def split: option.splits)

lemma calls_at_point:
  "calls_inv s \<Longrightarrow> ww_threads s' = ww_threads s \<Longrightarrow> ww_calls s' = ww_calls s \<Longrightarrow> calls_ok (ww_threads s) self p
     \<Longrightarrow> calls_inv (at_point self p s')"
  by (simp add: calls_inv_alt)

lemma inv_call:
  assumes "controller_inv s" and "may_call s self"
  shows "controller_inv (at_point self (Some (first_point opr)) s)"
proof -
  let ?s = "at_point self (Some (first_point opr)) s"
  have "point_holds (Some (first_point opr)) = None" by (cases opr) auto
  moreover have "point_holds (ww_calls s self) = None" using assms(2) by (simp add: may_call_def)
  ultimately have "holds ?s = holds s" by (intro ext) (auto simp: holds_at_point holds_alt)
  then have "handles_inv ?s" using assms(1) handles_cong [of ?s s] by (simp add: controller_inv_def)
  moreover have "flags_inv ?s" using assms(1) flags_cong [of ?s s] by (simp add: controller_inv_def)
  moreover have "calls_ok (ww_threads s) self (Some (first_point opr))"
    using assms(2) by (cases opr) (auto simp: calls_ok_def may_call_def split: caller.splits)
  ultimately show ?thesis
    using assms(1) calls_at_point [of s s] by (simp add: controller_inv_def)
qed

text \<open>A call moves on without taking or leaving a thread.\<close>

lemma inv_move:
  assumes "controller_inv s" and "flags_inv s'" and "ww_threads s' = ww_threads s" and "ww_calls s' = ww_calls s"
    and "wc_thread (ww_controller s') = wc_thread (ww_controller s)"
    and "point_holds (ww_calls s self) = point_holds p" and "calls_ok (ww_threads s) self p"
  shows "controller_inv (at_point self p s')"
proof -
  have "holds (at_point self p s') = holds s"
    using assms(4,5,6) by (intro ext, rename_tac h t, case_tac h) (auto simp: holds_at_point holds_alt)
  then have "handles_inv (at_point self p s')"
    using assms(1,3) handles_cong [of "at_point self p s'" s] by (simp add: controller_inv_def)
  moreover have "flags_inv (at_point self p s')" using assms(2) flags_cong [of "at_point self p s'" s'] by simp
  ultimately show ?thesis
    using assms(1) calls_at_point [OF _ assms(3,4,7)] by (simp add: controller_inv_def)
qed

text \<open>A call takes the controller's thread.\<close>

lemma inv_take:
  assumes "controller_inv s" and "wc_thread (ww_controller s) = Some t" and "point_holds (ww_calls s self) = None"
    and "point_holds (Some p) = Some t" and "calls_ok (ww_threads s) self (Some p)"
  shows "controller_inv (at_point self (Some p) (s\<lparr>ww_controller := (ww_controller s)\<lparr>wc_thread := None\<rparr>\<rparr>))"
    (is "controller_inv ?s")
proof -
  have threads: "ww_threads ?s = ww_threads s" by simp
  have live: "live ?s = live s" by (rule live_cong) simp
  have holds: "holds ?s h u \<longleftrightarrow> (if h = Some self then u = t else h \<noteq> None \<and> holds s h u)" for h u
    using assms(4) by (cases h) (auto simp: holds_at_point holds_alt)
  have old: "holds s None t" "\<not> holds s (Some self) u" for u using assms(2,3) by (simp_all add: holds_alt)
  have unique: "holds s h u \<Longrightarrow> holds s h' u \<Longrightarrow> h' = h" "holds s h u \<Longrightarrow> u < length (ww_threads s)"
    "live s u \<Longrightarrow> \<exists>h. holds s h u" for h h' u
    using assms(1) by (auto simp: controller_inv_def handles_inv_def)
  have "handles_inv ?s"
    unfolding handles_inv_def live threads holds
  proof (intro conjI allI impI)
    fix h u
    assume h: "if h = Some self then u = t else h \<noteq> None \<and> holds s h u"
    show "u < length (ww_threads s)" using h unique(2) old(1) by (auto split: if_splits)
    fix h'
    assume h': "if h' = Some self then u = t else h' \<noteq> None \<and> holds s h' u"
    show "h' = h" using h h' unique(1) [of h u h'] unique(1) [of None t h] unique(1) [of None t h'] old(1)
      by (auto split: if_splits)
  next
    fix u
    assume "live s u"
    then obtain h where "holds s h u" using unique(3) by blast
    show "\<exists>h. if h = Some self then u = t else h \<noteq> None \<and> holds s h u"
    proof (cases "h = None")
      case True
      then have "u = t" using \<open>holds s h u\<close> assms(2) by (simp add: holds_alt)
      then show ?thesis by (intro exI [of _ "Some self"]) simp
    next
      case False
      then show ?thesis using \<open>holds s h u\<close> old(2) by (intro exI [of _ h]) auto
    qed
  qed
  moreover have "flags_inv ?s"
    using assms(1) by (simp add: controller_inv_def flags_inv_def live)
  moreover have "calls_inv ?s"
    using assms(1,5) by (intro calls_at_point) (auto simp: controller_inv_def)
  ultimately show ?thesis by (simp add: controller_inv_def)
qed

text \<open>A call lets go of a thread that finished.\<close>

lemma inv_joined:
  assumes "controller_inv s" and "point_holds (ww_calls s self) = Some t" and "finished s t"
    and "point_holds p = None" and "calls_ok (ww_threads s) self p"
  shows "controller_inv (at_point self p s)" (is "controller_inv ?s")
proof -
  have live: "live ?s = live s" by (rule live_cong) simp
  have holds: "holds ?s h u \<longleftrightarrow> h \<noteq> Some self \<and> holds s h u" for h u
    using assms(4) by (auto simp: holds_at_point)
  have inv: "holds s h u \<Longrightarrow> holds s h' u \<Longrightarrow> h' = h" "holds s h u \<Longrightarrow> u < length (ww_threads s)"
    "live s u \<Longrightarrow> \<exists>h. holds s h u" for h h' u
    using assms(1) by (auto simp: controller_inv_def handles_inv_def)
  have "\<exists>h. h \<noteq> Some self \<and> holds s h u" if u: "live s u" for u
  proof -
    obtain h where h: "holds s h u" using inv(3) [OF u] by blast
    have "h \<noteq> Some self" using h u assms(2,3) by (auto simp: holds_alt finished_not_live)
    then show ?thesis using h by blast
  qed
  then have "handles_inv ?s" using inv unfolding handles_inv_def live holds by (auto dest: inv)
  moreover have "flags_inv ?s" using assms(1) flags_cong [of ?s s] by (simp add: controller_inv_def)
  moreover have "calls_inv ?s" using assms(1,5) by (intro calls_at_point) (auto simp: controller_inv_def)
  ultimately show ?thesis by (simp add: controller_inv_def)
qed

text \<open>A thread is started.\<close>

lemma inv_started:
  assumes "controller_inv s" and "\<not> wc_running (ww_controller s)" and "wc_thread (ww_controller s) = None"
    and "point_holds (ww_calls s self) = None"
    and c: "wc_running c" "wc_thread c = Some (length (ww_threads s))" "wc_worker_id c = Some (length (ww_threads s))"
  shows "controller_inv (at_point self None (s\<lparr>ww_controller := c, ww_threads := ww_threads s @ [W_new]\<rparr>))"
    (is "controller_inv ?s")
proof -
  let ?t = "length (ww_threads s)"
  have dead: "\<not> live s u" for u using assms(1,2) by (simp add: controller_inv_def flags_inv_def)
  have live: "live ?s u \<longleftrightarrow> u = ?t" for u
    using dead [of u] by (auto simp: live_def nth_append less_Suc_eq)
  have holds: "holds ?s h u \<longleftrightarrow> (h = None \<and> u = ?t) \<or> (h \<noteq> None \<and> h \<noteq> Some self \<and> holds s h u)" for h u
    using c(2) by (cases h) (auto simp: holds_at_point holds_alt)
  have inv: "holds s h u \<Longrightarrow> holds s h' u \<Longrightarrow> h' = h" "holds s h u \<Longrightarrow> u < ?t" for h h' u
    using assms(1) by (auto simp: controller_inv_def handles_inv_def)
  have "handles_inv ?s"
    unfolding handles_inv_def live holds using inv by (auto dest: inv(2)) (metis inv(1), metis inv(2) less_irrefl)?
  moreover have "\<not> ww_failed s" using assms(1,2) by (simp add: controller_inv_def flags_inv_def)
  then have "flags_inv ?s" using c live by (simp add: flags_inv_def)
  moreover have "calls_ok (ww_threads ?s) other (ww_calls ?s other)" for other
  proof (cases "other = self")
    case True
    then show ?thesis by (simp add: calls_ok_def)
  next
    case False
    have "calls_ok (ww_threads s) other (ww_calls s other)"
      using assms(1) by (simp add: controller_inv_def calls_inv_alt)
    then show ?thesis using False by (auto simp: calls_ok_def nth_append split: option.splits)
  qed
  ultimately show ?thesis by (simp add: controller_inv_def calls_inv_alt)
qed

text \<open>A worker moves on.\<close>

lemma inv_run:
  assumes "controller_inv s" and "t < length (ww_threads s)" and "live s t"
    and "ww_threads s ! t = W_body \<Longrightarrow> ww_calls s (Worker t) = None"
    and "p = W_finished \<longleftrightarrow> \<not> wc_running c" and "wc_thread c = wc_thread (ww_controller s)"
    and "wc_worker_id c = (if p = W_finished then None else Some t)"
  shows "controller_inv (s\<lparr>ww_threads := (ww_threads s)[t := p], ww_controller := c\<rparr>)" (is "controller_inv ?s")
proof -
  have only: "live s u \<longleftrightarrow> u = t" for u
    using assms(1,3) by (auto simp: controller_inv_def flags_inv_def split: if_splits)
  have live: "live ?s u \<longleftrightarrow> u = t \<and> p \<noteq> W_finished" for u
    using only [of u] assms(2) by (cases "u = t") (auto simp: live_def)
  have holds: "holds ?s h u = holds s h u" for h u
    using assms(6) by (cases h) (auto simp: holds_alt)
  have "handles_inv ?s"
    using assms(1) only unfolding handles_inv_def live holds controller_inv_def by auto
  moreover have "\<not> ww_failed s" using assms(1,3) by (auto simp: controller_inv_def flags_inv_def split: if_splits)
  then have "flags_inv ?s" using assms(5,7) live by (auto simp: flags_inv_def)
  moreover have "calls_ok (ww_threads ?s) other (ww_calls ?s other)" for other
  proof -
    have "calls_ok (ww_threads s) other (ww_calls s other)"
      using assms(1) by (simp add: controller_inv_def calls_inv_alt)
    moreover have "(ww_threads s)[t := p] ! u = W_finished" if "ww_threads s ! u = W_finished" for u
      using that assms(3) by (cases "u = t") (auto simp: live_def)
    moreover have "(ww_threads s)[t := p] ! w = W_body"
      if "ww_calls s (Worker w) = Some q" "ww_threads s ! w = W_body" for w q
      using that assms(4) by (cases "w = t") auto
    ultimately show ?thesis by (auto simp: calls_ok_def split: option.splits)
  qed
  ultimately show ?thesis by (simp add: controller_inv_def calls_inv_alt)
qed

lemma nothing_taken:
  assumes "wc_thread (ww_controller s) = None"
  shows "s\<lparr>ww_controller := (ww_controller s)\<lparr>wc_thread := None\<rparr>\<rparr> = s"
proof -
  have "(ww_controller s)\<lparr>wc_thread := None\<rparr> = ww_controller s"
    using assms by (cases "ww_controller s") simp
  then show ?thesis by (intro worker_world.equality) simp_all
qed

lemma same_controller: "s\<lparr>ww_threads := x, ww_controller := ww_controller s\<rparr> = s\<lparr>ww_threads := x\<rparr>"
  by (intro worker_world.equality) simp_all

text \<open>A thread is started, or its constructor throws, or another start was faster.\<close>

lemma inv_launch:
  assumes inv: "controller_inv s" and p: "ww_calls s self = Some Start_second"
  shows "controller_inv (launch launched self s)"
proof -
  have flags: "flags_inv s" using inv by (simp add: controller_inv_def)
  have none: "calls_ok (ww_threads s) self None" by (simp add: calls_ok_def)
  show ?thesis
  proof (cases "wc_running (ww_controller s) \<or> wc_thread (ww_controller s) \<noteq> None")
    case True
    then have "launch launched self s = at_point self None s" by (auto simp: launch_def start_second_def)
    then show ?thesis using inv p flags none by (auto intro: inv_move)
  next
    case idle: False
    show ?thesis
    proof (cases launched)
      case True
      then show ?thesis using idle inv p by (auto simp: launch_def start_second_def Let_def intro!: inv_started)
    next
      case False
      let ?s = "s\<lparr>ww_controller := (ww_controller s)\<lparr>wc_stop_requested := False, wc_running := True\<rparr>, ww_failed := True\<rparr>"
      have "live ?s = live s" by (rule live_cong) simp
      then have "flags_inv ?s" using idle flags by (auto simp: flags_inv_def)
      then have "controller_inv (at_point self None ?s)" using inv p none by (intro inv_move) auto
      then show ?thesis using idle False by (simp add: launch_def start_second_def Let_def)
    qed
  qed
qed

lemma worker_inv_advance:
  assumes inv: "controller_inv s" and p: "ww_calls s self = Some p" and step: "advance self p s = Some s'"
  shows "controller_inv s'"
proof -
  have ok: "calls_ok (ww_threads s) self (Some p)" using inv p by (metis controller_inv_def calls_inv_alt)
  have flags: "flags_inv s" using inv by (simp add: controller_inv_def)
  have none: "calls_ok (ww_threads s) self None" by (simp add: calls_ok_def)
  show ?thesis
  proof (cases p)
    case Start_first
    show ?thesis
    proof (cases "wc_running (ww_controller s)")
      case True
      then have "s' = at_point self None s" using step Start_first by (simp add: start_first_def)
      then show ?thesis using inv p flags none Start_first by (auto intro: inv_move)
    next
      case False
      have owner: "self \<noteq> Worker w" for w
      proof
        assume "self = Worker w"
        then have "live s w" using ok by (simp add: calls_ok_def live_def)
        then show False using flags False by (simp add: flags_inv_def)
      qed
      show ?thesis
      proof (cases "wc_thread (ww_controller s)")
        case None
        then have "s' = at_point self (Some Start_second) s"
          using step Start_first False by (simp add: start_first_def nothing_taken)
        then show ?thesis using inv p flags owner Start_first by (auto simp: calls_ok_def intro!: inv_move)
      next
        case (Some t)
        have "holds s None t" using Some by (simp add: holds_alt)
        then have "t < length (ww_threads s)" using inv by (simp add: controller_inv_def handles_inv_def)
        moreover have "\<not> live s t" using flags False by (simp add: flags_inv_def)
        ultimately have "calls_ok (ww_threads s) self (Some (Start_joining t))"
          using owner by (simp add: calls_ok_def live_def)
        then have "controller_inv (at_point self (Some (Start_joining t)) (s\<lparr>ww_controller := (ww_controller s)\<lparr>wc_thread := None\<rparr>\<rparr>))"
          using inv Some p Start_first by (intro inv_take) auto
        then show ?thesis using step Start_first False Some by (simp add: start_first_def)
      qed
    qed
  next
    case (Start_joining t)
    then show ?thesis using inv p step ok
      by (auto simp: calls_ok_def split: if_splits intro!: inv_joined)
  next
    case Start_second
    then show ?thesis using inv_launch [OF inv, of self True] p step by simp
  next
    case Request_stop
    have "flags_inv (s\<lparr>ww_controller := requestStop (ww_controller s)\<rparr>)"
      using flags live_cong [of "s\<lparr>ww_controller := requestStop (ww_controller s)\<rparr>" s]
      by (simp add: flags_inv_def requestStop_def)
    then show ?thesis using inv p step none Request_stop by (auto simp: requestStop_def intro!: inv_move)
  next
    case Stop_request
    have "flags_inv (s\<lparr>ww_controller := requestStop (ww_controller s)\<rparr>)"
      using flags live_cong [of "s\<lparr>ww_controller := requestStop (ww_controller s)\<rparr>" s]
      by (simp add: flags_inv_def requestStop_def)
    moreover have "calls_ok (ww_threads s) self (Some Stop_take)" using ok Stop_request by (simp add: calls_ok_def)
    ultimately show ?thesis using inv p step Stop_request by (auto simp: requestStop_def intro!: inv_move)
  next
    case Stop_take
    show ?thesis
    proof (cases "wc_thread (ww_controller s) = None \<or> (\<exists>t. self = Worker t \<and> wc_worker_id (ww_controller s) = Some t)")
      case True
      then have "s' = at_point self None s" using step Stop_take by (simp add: stop_take_def)
      then show ?thesis using inv p flags none Stop_take by (auto intro: inv_move)
    next
      case False
      then obtain t where t: "wc_thread (ww_controller s) = Some t" by auto
      have owner: "self \<noteq> Worker w" for w
      proof
        assume w: "self = Worker w"
        then have "live s w" using ok by (simp add: calls_ok_def live_def)
        then have "wc_worker_id (ww_controller s) = Some w" using flags by (auto simp: flags_inv_def split: if_splits)
        then show False using False w by simp
      qed
      then have "calls_ok (ww_threads s) self (Some (Stop_joining t))" by (simp add: calls_ok_def)
      then have "controller_inv (at_point self (Some (Stop_joining t)) (s\<lparr>ww_controller := (ww_controller s)\<lparr>wc_thread := None\<rparr>\<rparr>))"
        using inv t p Stop_take by (intro inv_take) auto
      then show ?thesis using step Stop_take t owner by (simp add: stop_take_def)
    qed
  next
    case (Stop_joining t)
    then show ?thesis using inv p step none by (auto split: if_splits intro!: inv_joined)
  qed
qed

lemma worker_inv_step:
  assumes "controller_inv s" and "worker_event_step e s = Some s'"
  shows "controller_inv s'"
proof (cases e)
  case (Call self opr)
  then show ?thesis using assms by (auto split: if_splits intro: inv_call)
next
  case (Advance self)
  then show ?thesis using assms by (auto split: option.splits intro: worker_inv_advance)
next
  case (Launch_fails self)
  then show ?thesis using assms by (auto split: if_splits intro: inv_launch)
next
  case (Run t)
  have flags: "flags_inv s" using assms(1) by (simp add: controller_inv_def)
  have t: "t < length (ww_threads s)" and alive: "live s t"
    using Run assms(2) by (auto simp: run_worker_def live_def split: if_splits worker_phase.splits)
  then have running: "wc_running (ww_controller s)" "wc_worker_id (ww_controller s) = Some t"
    using flags by (auto simp: flags_inv_def split: if_splits)
  show ?thesis
  proof (cases "ww_threads s ! t")
    case W_new
    then have "s' = s\<lparr>ww_threads := (ww_threads s)[t := W_body], ww_controller := worker_enter t (ww_controller s)\<rparr>"
      using Run assms(2) t by (simp add: run_worker_def)
    then show ?thesis using assms(1) t alive W_new running by (auto simp: worker_enter_def intro!: inv_run)
  next
    case W_body
    then have s': "s' = s\<lparr>ww_threads := (ww_threads s)[t := W_ended]\<rparr>" and idle: "ww_calls s (Worker t) = None"
      using Run assms(2) t by (auto simp: run_worker_def split: if_splits)
    have "controller_inv (s\<lparr>ww_threads := (ww_threads s)[t := W_ended], ww_controller := ww_controller s\<rparr>)"
      using assms(1) t alive idle running by (intro inv_run) auto
    then show ?thesis unfolding s' same_controller .
  next
    case W_ended
    then have "s' = s\<lparr>ww_threads := (ww_threads s)[t := W_finished], ww_controller := worker_leave (ww_controller s)\<rparr>"
      using Run assms(2) t by (simp add: run_worker_def)
    then show ?thesis using assms(1) t alive W_ended by (auto simp: worker_leave_def intro!: inv_run)
  next
    case W_finished
    then show ?thesis using alive by (simp add: live_def)
  qed
qed

lemma worker_reachable_inv: "worker_reachable s \<Longrightarrow> controller_inv s"
  by (induction rule: worker_reachable.induct) (auto intro: controller_inv_new worker_inv_step)

end
