(* ===== verification/WorkerControllerCorrect.thy ===== *)
theory WorkerControllerCorrect
  imports WorkerController
begin

text \<open>
  What the worker controller promises: whoever calls it in whatever order, and whichever threads cannot
  be constructed, at most one worker runs and no thread is lost or joins itself; and a stop that no other owner's call runs beside returns and
  leaves no worker.
\<close>

section \<open>Threads\<close>

lemma inv_parts:
  assumes "controller_inv s"
  shows "holds s h t \<Longrightarrow> holds s h' t \<Longrightarrow> h' = h" "holds s h t \<Longrightarrow> t < length (ww_threads s)"
    "live s t \<Longrightarrow> \<exists>h. holds s h t" "ww_calls s self = Some (Start_joining t) \<Longrightarrow> finished s t"
    "ww_calls s (Worker w) = Some p \<Longrightarrow> w < length (ww_threads s) \<and> ww_threads s ! w = W_body
       \<and> p \<in> {Start_first, Request_stop, Stop_request, Stop_take}"
    "live s t \<Longrightarrow> wc_running (ww_controller s) \<and> wc_worker_id (ww_controller s) = Some t \<and> (live s u \<longrightarrow> u = t)"
    "wc_running (ww_controller s) \<longleftrightarrow> (\<exists>t. live s t) \<or> ww_failed s" "ww_failed s \<Longrightarrow> \<not> live s t"
  using assms by (auto simp: controller_inv_def handles_inv_def calls_inv_def flags_inv_def split: if_splits)

text \<open>A thread is let go of only when a join of it ends.\<close>

lemma advance_keeps:
  assumes "advance self p s = Some s'" and "ww_calls s self = Some p" and "holds s h t" and "\<forall>h'. \<not> holds s' h' t"
  shows "finished s t \<and> p \<in> {Start_joining t, Stop_joining t}"
proof (cases h)
  case None
  then have c: "wc_thread (ww_controller s) = Some t" using assms(3) by (simp add: holds_alt)
  have "\<not> holds s' None t" "\<not> holds s' (Some self) t" using assms(4) by auto
  then show ?thesis
    using assms(1,2) c
    by (cases p) (auto simp: start_first_def start_second_def stop_take_def requestStop_def holds_alt
          launch_parts split: if_splits)
next
  case (Some other)
  then have held: "point_holds (ww_calls s other) = Some t" using assms(3) by (simp add: holds_alt)
  have "\<not> holds s' (Some other) t" using assms(4) by auto
  then have now: "point_holds (ww_calls s' other) \<noteq> Some t" by (simp add: holds_alt)
  have "other = self"
  proof (rule ccontr)
    assume "other \<noteq> self"
    then have "ww_calls s' other = ww_calls s other"
      using assms(1) by (cases p) (auto simp: start_first_def launch_parts stop_take_def split: if_splits option.splits)
    then show False using held now by simp
  qed
  then show ?thesis using assms(1,2) held by (cases p) (auto split: if_splits)
qed

text \<open>
  C32. The worker controller is safe.  Whichever threads call start, requestStop and stop in whichever
  interleaving, the worker itself included, and whichever constructions of a thread throw: at most one
  worker's thread is not finished; the running flag is set exactly when there is one or when the
  construction of a thread has thrown, which leaves the flag set for good with no worker; every thread
  that is not finished is owned, and no thread by two; a thread is let go of only when a join of it has
  ended, so that none is destroyed while it could be joined; no worker ever joins itself or another;
  and a start never waits for a worker that has not finished.
\<close>

theorem worker_controller_safe:
  assumes "worker_reachable s"
  shows "(wc_running (ww_controller s) \<longleftrightarrow> (\<exists>t. live s t) \<or> ww_failed s) \<and> (ww_failed s \<longrightarrow> (\<forall>t. \<not> live s t))
    \<and> (\<forall>t u. live s t \<and> live s u \<longrightarrow> t = u)
    \<and> (\<forall>t. live s t \<longrightarrow> (\<exists>h. holds s h t)) \<and> (\<forall>t h h'. holds s h t \<and> holds s h' t \<longrightarrow> h = h')
    \<and> (\<forall>t u. ww_calls s (Worker t) \<notin> {Some (Start_joining u), Some (Stop_joining u)})
    \<and> (\<forall>self t. ww_calls s self = Some (Start_joining t) \<longrightarrow> finished s t)
    \<and> (\<forall>e s' h t. worker_event_step e s = Some s' \<and> holds s h t \<and> (\<forall>h'. \<not> holds s' h' t) \<longrightarrow>
         finished s t \<and> (\<exists>self. e = Advance self \<and> ww_calls s self \<in> {Some (Start_joining t), Some (Stop_joining t)}))"
proof -
  have inv: "controller_inv s" using assms by (rule worker_reachable_inv)
  note parts = inv_parts [OF inv]
  have "finished s t \<and> (\<exists>self. e = Advance self \<and> ww_calls s self \<in> {Some (Start_joining t), Some (Stop_joining t)})"
    if step: "worker_event_step e s = Some s'" and held: "holds s h t" and lost: "\<forall>h'. \<not> holds s' h' t" for e s' h t
  proof (cases e)
    case (Call self opr)
    then have "s' = at_point self (Some (first_point opr)) s" and "ww_calls s self = None"
      using step by (auto simp: may_call_def split: if_splits)
    then have "holds s' h t" using held by (cases opr) (auto simp: holds_at_point holds_alt)
    then show ?thesis using lost by blast
  next
    case (Advance self)
    then obtain p where p: "ww_calls s self = Some p" "advance self p s = Some s'"
      using step by (auto split: option.splits)
    from advance_keeps [OF p(2,1) held lost] show ?thesis using Advance p(1) by auto
  next
    case (Launch_fails self)
    then have "holds s' h t"
      using step held
      by (cases h) (auto simp: launch_def start_second_def Let_def holds_alt split: if_splits)
    then show ?thesis using lost by blast
  next
    case (Run u)
    then have "holds s' h t"
      using step held
      by (cases h) (auto simp: run_worker_def holds_alt worker_enter_def worker_leave_def split: if_splits worker_phase.splits)
    then show ?thesis using lost by blast
  qed
  moreover have "ww_calls s (Worker t) \<notin> {Some (Start_joining u), Some (Stop_joining u)}" for t u
    using parts(5) [of t] by auto
  moreover have "wc_running (ww_controller s) \<longleftrightarrow> (\<exists>t. live s t) \<or> ww_failed s" by (rule parts(7))
  moreover have "ww_failed s \<longrightarrow> (\<forall>t. \<not> live s t)" using parts(8) by blast
  moreover have "live s t \<and> live s u \<longrightarrow> t = u" for t u using parts(6) by blast
  moreover have "holds s h t \<and> holds s h' t \<longrightarrow> h = h'" for h h' t using parts(1) by blast
  ultimately show ?thesis using parts(3,4) by blast
qed

section \<open>Stopping\<close>

text \<open>What may happen while owner \<open>n\<close> stops: its own sections, the worker, and the worker's calls.\<close>

fun beside_stop :: "nat \<Rightarrow> worker_event \<Rightarrow> bool" where
  "beside_stop n (Call self opr) \<longleftrightarrow> (\<exists>t. self = Worker t)"
| "beside_stop n (Advance self) \<longleftrightarrow> self = Owner n \<or> (\<exists>t. self = Worker t)"
| "beside_stop n (Launch_fails self) \<longleftrightarrow> self = Owner n \<or> (\<exists>t. self = Worker t)"
| "beside_stop n (Run t) \<longleftrightarrow> True"

definition stopping_by :: "nat \<Rightarrow> worker_world \<Rightarrow> bool" where
  "stopping_by n s \<longleftrightarrow> controller_inv s \<and> (\<forall>m. m \<noteq> n \<longrightarrow> ww_calls s (Owner m) = None)
     \<and> (case ww_calls s (Owner n) of
          None \<Rightarrow> (\<forall>t. \<not> live s t) \<and> wc_thread (ww_controller s) = None
        | Some p \<Rightarrow> p = Stop_request
            \<or> (p = Stop_take \<and> wc_stop_requested (ww_controller s))
            \<or> (\<exists>t. p = Stop_joining t \<and> wc_stop_requested (ww_controller s) \<and> wc_thread (ww_controller s) = None))"

lemma stopping_parts:
  assumes "stopping_by n s"
  shows "controller_inv s" "m \<noteq> n \<Longrightarrow> ww_calls s (Owner m) = None"
  using assms by (simp_all add: stopping_by_def)

lemma only_owner_holds:
  assumes "stopping_by n s" and "live s t"
  shows "wc_thread (ww_controller s) = Some t \<or> ww_calls s (Owner n) = Some (Stop_joining t)"
proof -
  have inv: "controller_inv s" using assms(1) by (rule stopping_parts)
  obtain h where h: "holds s h t" using inv_parts(3) [OF inv assms(2)] by blast
  show ?thesis
  proof (cases h)
    case None
    then show ?thesis using h by (simp add: holds_alt)
  next
    case (Some self)
    then have held: "ww_calls s self = Some (Start_joining t) \<or> ww_calls s self = Some (Stop_joining t)"
      using h by (simp add: holds_def)
    show ?thesis
    proof (cases self)
      case (Owner m)
      then have "m = n" using held stopping_parts(2) [OF assms(1)] by fastforce
      moreover have "ww_calls s (Owner n) \<noteq> Some (Start_joining t)"
        using assms(1) by (auto simp: stopping_by_def split: option.splits)
      ultimately show ?thesis using held Owner by simp
    next
      case (Worker w)
      then show ?thesis using held inv_parts(5) [OF inv, of w] by auto
    qed
  qed
qed

text \<open>A worker's own call neither takes the thread nor clears the request.\<close>

lemma worker_call_quiet:
  assumes "controller_inv s" and "ww_calls s (Worker w) = Some p" and "advance (Worker w) p s = Some s'"
  shows "wc_thread (ww_controller s') = wc_thread (ww_controller s) \<and> ww_threads s' = ww_threads s
    \<and> (wc_stop_requested (ww_controller s) \<longrightarrow> wc_stop_requested (ww_controller s'))
    \<and> (\<forall>m. ww_calls s' (Owner m) = ww_calls s (Owner m))"
proof -
  have p: "p \<in> {Start_first, Request_stop, Stop_request, Stop_take}" and w: "live s w"
    using inv_parts(5) [OF assms(1,2)] by (auto simp: live_def)
  have "wc_running (ww_controller s)" "wc_worker_id (ww_controller s) = Some w"
    using inv_parts(6) [OF assms(1) w] by auto
  then show ?thesis
    using p assms(3) by (auto simp: start_first_def stop_take_def requestStop_def)
qed

lemma no_launch_beside:
  assumes "stopping_by n s" and "beside_stop n (Launch_fails self)"
  shows "worker_event_step (Launch_fails self) s = None"
proof -
  have "ww_calls s self \<noteq> Some Start_second"
  proof (cases self)
    case (Owner m)
    then have "m = n" using assms(2) by simp
    then show ?thesis using assms(1) Owner by (auto simp: stopping_by_def split: option.splits)
  next
    case (Worker w)
    then show ?thesis using inv_parts(5) [OF stopping_parts(1) [OF assms(1)], of w] by auto
  qed
  then show ?thesis by simp
qed

lemma stopping_step:
  assumes "stopping_by n s" and "ww_calls s (Owner n) \<noteq> None" and "beside_stop n e" and "worker_event_step e s = Some s'"
  shows "stopping_by n s'"
proof -
  have inv: "controller_inv s" using assms(1) by (rule stopping_parts)
  have inv': "controller_inv s'" using inv assms(4) by (rule worker_inv_step)
  obtain p where p: "ww_calls s (Owner n) = Some p" using assms(2) by auto
  show ?thesis
  proof (cases e)
    case (Call self opr)
    then obtain w where "self = Worker w" using assms(3) by auto
    then have "s' = at_point (Worker w) (Some (first_point opr)) s" using Call assms(4) by (auto split: if_splits)
    then show ?thesis using assms(1) inv' by (auto simp: stopping_by_def p split: option.splits)
  next
    case (Run t)
    then have "ww_calls s' = ww_calls s" "wc_thread (ww_controller s') = wc_thread (ww_controller s)"
      "wc_stop_requested (ww_controller s') = wc_stop_requested (ww_controller s)"
      using assms(4) by (auto simp: run_worker_def worker_enter_def worker_leave_def split: if_splits worker_phase.splits)
    then show ?thesis using assms(1) inv' by (simp add: stopping_by_def p)
  next
    case (Launch_fails self)
    then show ?thesis using no_launch_beside [OF assms(1)] assms(3,4) by auto
  next
    case (Advance self)
    show ?thesis
    proof (cases self)
      case (Worker w)
      then obtain q where q: "ww_calls s (Worker w) = Some q" "advance (Worker w) q s = Some s'"
        using Advance assms(4) by (auto split: option.splits)
      from worker_call_quiet [OF inv q] show ?thesis using assms(1) inv' by (auto simp: stopping_by_def p)
    next
      case (Owner m)
      then have self: "self = Owner n" using Advance assms(3) by auto
      then have step: "advance (Owner n) p s = Some s'" using Advance assms(4) p by simp
      have cases: "p = Stop_request \<or> (p = Stop_take \<and> wc_stop_requested (ww_controller s))
          \<or> (\<exists>t. p = Stop_joining t \<and> wc_stop_requested (ww_controller s) \<and> wc_thread (ww_controller s) = None)"
        using assms(1) p by (simp add: stopping_by_def)
      have others: "ww_calls s' (Owner m) = None" if "m \<noteq> n" for m
        using step that stopping_parts(2) [OF assms(1) that] cases
        by (auto simp: stop_take_def split: if_splits option.splits)
      have same: "live s' t \<longleftrightarrow> live s t" for t
        using step cases by (auto simp: stop_take_def live_def split: if_splits option.splits)
      consider "p = Stop_request" | "p = Stop_take" "wc_stop_requested (ww_controller s)"
        | t where "p = Stop_joining t" "wc_stop_requested (ww_controller s)" "wc_thread (ww_controller s) = None"
        using cases by blast
      then show ?thesis
      proof cases
        case 1
        then show ?thesis using step inv' others by (auto simp: stopping_by_def requestStop_def)
      next
        case 2
        show ?thesis
        proof (cases "wc_thread (ww_controller s)")
          case None
          then have "\<not> live s t" for t using only_owner_holds [OF assms(1)] p 2(1) by auto
          then show ?thesis using step 2 None inv' others same by (auto simp: stopping_by_def stop_take_def)
        next
          case (Some t)
          then show ?thesis using step 2 inv' others by (auto simp: stopping_by_def stop_take_def)
        qed
      next
        case 3
        then have fin: "finished s t" and s': "s' = at_point (Owner n) None s"
          using step by (auto split: if_splits)
        have "\<not> live s u" for u
          using only_owner_holds [OF assms(1)] p 3 fin by (auto simp: finished_not_live)
        then show ?thesis using 3 s' inv' others same by (auto simp: stopping_by_def)
      qed
    qed
  qed
qed


section \<open>Ranks\<close>

text \<open>How far an owner's stop, and a worker's thread with its call, still have to go.\<close>

fun stop_call_rank :: "call_point option \<Rightarrow> nat" where
  "stop_call_rank (Some Stop_request) = 3"
| "stop_call_rank (Some Stop_take) = 2"
| "stop_call_rank (Some (Stop_joining t)) = 1"
| "stop_call_rank p = 0"

fun phase_rank :: "worker_phase \<Rightarrow> nat" where
  "phase_rank W_new = 3"
| "phase_rank W_body = 2"
| "phase_rank W_ended = 1"
| "phase_rank W_finished = 0"

fun call_rank :: "call_point option \<Rightarrow> nat" where
  "call_rank None = 0"
| "call_rank (Some Stop_request) = 2"
| "call_rank (Some p) = 1"

definition thread_rank :: "worker_world \<Rightarrow> nat \<Rightarrow> nat" where
  "thread_rank s w = phase_rank (ww_threads s ! w) + call_rank (ww_calls s (Worker w))"

definition worker_rank :: "nat \<Rightarrow> worker_world \<Rightarrow> nat" where
  "worker_rank n s = stop_call_rank (ww_calls s (Owner n)) + (\<Sum>w<length (ww_threads s). thread_rank s w)"

lemma sum_change:
  assumes "w < (k :: nat)" and "\<And>u. u \<noteq> w \<Longrightarrow> g u = (f u :: nat)"
  shows "(\<Sum>u<k. g u) + f w = (\<Sum>u<k. f u) + g w"
proof -
  have "(\<Sum>u<k. h u) = h w + (\<Sum>u\<in>{..<k} - {w}. h u)" for h :: "nat \<Rightarrow> nat"
    using assms(1) by (simp add: sum.remove)
  moreover have "(\<Sum>u\<in>{..<k} - {w}. g u) = (\<Sum>u\<in>{..<k} - {w}. f u)"
    using assms(2) by (intro sum.cong) auto
  ultimately show ?thesis by simp
qed

lemma rank_change:
  assumes "w < length (ww_threads s)" and "length (ww_threads s') = length (ww_threads s)"
    and "ww_calls s' (Owner n) = ww_calls s (Owner n)" and "\<And>u. u \<noteq> w \<Longrightarrow> thread_rank s' u = thread_rank s u"
  shows "worker_rank n s' + thread_rank s w = worker_rank n s + thread_rank s' w"
  using sum_change [OF assms(1), of "thread_rank s'" "thread_rank s"] assms by (simp add: worker_rank_def)

fun is_call :: "worker_event \<Rightarrow> bool" where
  "is_call (Call self opr) = True"
| "is_call e = False"

lemma call_rank_bound: "call_rank p \<le> 2"
  by (cases p rule: call_rank.cases) auto

lemma rank_step:
  assumes "stopping_by n s" and "ww_calls s (Owner n) \<noteq> None" and "beside_stop n e" and "worker_event_step e s = Some s'"
  shows "if is_call e then worker_rank n s' \<le> worker_rank n s + 2 else worker_rank n s' < worker_rank n s"
proof -
  have inv: "controller_inv s" using assms(1) by (rule stopping_parts)
  show ?thesis
  proof (cases e)
    case (Call self opr)
    then obtain w where w: "self = Worker w" using assms(3) by auto
    have s': "s' = at_point (Worker w) (Some (first_point opr)) s" and may: "may_call s (Worker w)"
      using Call w assms(4) by (auto split: if_splits)
    have "worker_rank n s' + thread_rank s w = worker_rank n s + thread_rank s' w"
      using may by (intro rank_change) (auto simp: s' may_call_def thread_rank_def)
    moreover have "thread_rank s' w \<le> thread_rank s w + 2"
      using call_rank_bound [of "Some (first_point opr)"] by (simp add: s' thread_rank_def)
    ultimately show ?thesis using Call by simp
  next
    case (Run t)
    then have t: "t < length (ww_threads s)" using assms(4) by (auto simp: run_worker_def split: if_splits)
    have "worker_rank n s' + thread_rank s t = worker_rank n s + thread_rank s' t"
      using Run t assms(4)
      by (intro rank_change) (auto simp: run_worker_def thread_rank_def split: if_splits worker_phase.splits)
    moreover have "thread_rank s' t < thread_rank s t"
      using Run t assms(4) by (auto simp: run_worker_def thread_rank_def split: if_splits worker_phase.splits)
    ultimately show ?thesis using Run by simp
  next
    case (Launch_fails self)
    then show ?thesis using no_launch_beside [OF assms(1)] assms(3,4) by auto
  next
    case (Advance self)
    show ?thesis
    proof (cases self)
      case (Worker w)
      then obtain q where q: "ww_calls s (Worker w) = Some q" "advance (Worker w) q s = Some s'"
        using Advance assms(4) by (auto split: option.splits)
      have w: "w < length (ww_threads s)" "live s w"
        and p: "q \<in> {Start_first, Request_stop, Stop_request, Stop_take}"
        using inv_parts(5) [OF inv q(1)] by (auto simp: live_def)
      have running: "wc_running (ww_controller s)" "wc_worker_id (ww_controller s) = Some w"
        using inv_parts(6) [OF inv w(2)] by auto
      have "worker_rank n s' + thread_rank s w = worker_rank n s + thread_rank s' w"
        using w q p running
        by (intro rank_change) (auto simp: thread_rank_def start_first_def stop_take_def)
      moreover have "thread_rank s' w < thread_rank s w"
        using q p running by (auto simp: thread_rank_def start_first_def stop_take_def)
      ultimately show ?thesis using Advance by simp
    next
      case (Owner m)
      then have self: "self = Owner n" using Advance assms(3) by auto
      obtain p where p: "ww_calls s (Owner n) = Some p" using assms(2) by auto
      then have step: "advance (Owner n) p s = Some s'" using self Advance assms(4) by simp
      have "ww_threads s' = ww_threads s \<and> (\<forall>w. ww_calls s' (Worker w) = ww_calls s (Worker w))
          \<and> stop_call_rank (ww_calls s' (Owner n)) < stop_call_rank (ww_calls s (Owner n))"
        using assms(1) step p by (auto simp: stopping_by_def stop_take_def split: if_splits option.splits)
      then show ?thesis using Advance by (simp add: worker_rank_def thread_rank_def)
    qed
  qed
qed

text \<open>A stop that has returned leaves nothing that could happen beside it.\<close>

lemma stopped_quiet:
  assumes "stopping_by n s" and "ww_calls s (Owner n) = None" and "beside_stop n e"
  shows "worker_event_step e s = None"
proof -
  have inv: "controller_inv s" using assms(1) by (rule stopping_parts)
  have dead: "\<not> live s t" for t using assms(1,2) by (simp add: stopping_by_def)
  have idle: "ww_calls s (Worker w) = None" for w
    using inv_parts(5) [OF inv, of w] dead [of w] by (cases "ww_calls s (Worker w)") (auto simp: live_def)
  show ?thesis
  proof (cases e)
    case (Call self opr)
    then show ?thesis using assms(3) dead by (auto simp: may_call_def live_def)
  next
    case (Advance self)
    then show ?thesis using assms(2,3) idle by auto
  next
    case (Launch_fails self)
    then show ?thesis using no_launch_beside [OF assms(1)] assms(3) by simp
  next
    case (Run t)
    then show ?thesis using dead [of t] by (auto simp: run_worker_def live_def)
  qed
qed

lemma stopping_run:
  assumes "stopping_by n s" and "list_all (beside_stop n) es" and "worker_events es s = Some s'"
  shows "stopping_by n s' \<and> length es + worker_rank n s' \<le> worker_rank n s + 3 * length (filter is_call es)"
  using assms
proof (induction es arbitrary: s)
  case Nil
  then show ?case by simp
next
  case (Cons e es)
  then obtain u where u: "worker_event_step e s = Some u" "worker_events es u = Some s'"
    by (auto split: option.splits)
  have busy: "ww_calls s (Owner n) \<noteq> None"
    using stopped_quiet [OF Cons.prems(1), of e] Cons.prems(2) u(1) by (intro notI) simp
  have "stopping_by n u" using stopping_step [OF Cons.prems(1) busy _ u(1)] Cons.prems(2) by simp
  moreover have "if is_call e then worker_rank n u \<le> worker_rank n s + 2 else worker_rank n u < worker_rank n s"
    using rank_step [OF Cons.prems(1) busy _ u(1)] Cons.prems(2) by simp
  ultimately show ?case using Cons.IH [of u] Cons.prems(2) u(2) by (auto split: if_splits)
qed

text \<open>While the stop has not returned something other than a new call is possible.\<close>

lemma stopping_progress:
  assumes "stopping_by n s" and "ww_calls s (Owner n) \<noteq> None"
  shows "\<exists>e u. beside_stop n e \<and> \<not> is_call e \<and> worker_event_step e s = Some u"
proof -
  have inv: "controller_inv s" using assms(1) by (rule stopping_parts)
  obtain p where p: "ww_calls s (Owner n) = Some p" using assms(2) by auto
  have "p \<in> {Stop_request, Stop_take} \<or> (\<exists>t. p = Stop_joining t)" using assms(1) p by (auto simp: stopping_by_def)
  then have "advance (Owner n) p s \<noteq> None \<or> (\<exists>t. p = Stop_joining t \<and> \<not> finished s t)"
    by (auto split: option.splits prod.splits)
  then consider "advance (Owner n) p s \<noteq> None" | t where "p = Stop_joining t" "\<not> finished s t" by blast
  then show ?thesis
  proof cases
    case 1
    then have "worker_event_step (Advance (Owner n)) s \<noteq> None" using p by simp
    then show ?thesis by (intro exI [of _ "Advance (Owner n)"]) auto
  next
    case 2
    then have "holds s (Some (Owner n)) t" using p by (simp add: holds_alt)
    then have t: "t < length (ww_threads s)" using inv_parts(2) [OF inv] by blast
    show ?thesis
    proof (cases "ww_calls s (Worker t)")
      case None
      then have "worker_event_step (Run t) s \<noteq> None"
        using t 2 by (auto simp: run_worker_def finished_def split: worker_phase.splits)
      then show ?thesis by (intro exI [of _ "Run t"]) auto
    next
      case (Some q)
      then have "worker_event_step (Advance (Worker t)) s \<noteq> None"
        using inv_parts(5) [OF inv Some] by (auto split: sum.splits option.splits prod.splits)
      then show ?thesis by (intro exI [of _ "Advance (Worker t)"]) auto
    qed
  qed
qed

lemma stopping_rank_bound:
  assumes "stopping_by n s"
  shows "worker_rank n s \<le> 7"
proof -
  have inv: "controller_inv s" using assms by (rule stopping_parts)
  have zero: "thread_rank s w = 0" if "\<not> live s w" "w < length (ww_threads s)" for w
    using that inv_parts(5) [OF inv, of w] by (cases "ww_calls s (Worker w)") (auto simp: thread_rank_def live_def)
  have one: "thread_rank s w \<le> 4" for w
  proof (cases "ww_calls s (Worker w)")
    case None
    then show ?thesis by (cases "ww_threads s ! w") (auto simp: thread_rank_def)
  next
    case (Some p)
    then show ?thesis using inv_parts(5) [OF inv Some] by (auto simp: thread_rank_def)
  qed
  have "(\<Sum>w<length (ww_threads s). thread_rank s w) \<le> 4"
  proof (cases "\<exists>t. live s t")
    case True
    then obtain t where t: "live s t" by blast
    then have k: "t < length (ww_threads s)" by (simp add: live_def)
    have "thread_rank s u = 0" if "u \<in> {..<length (ww_threads s)} - {t}" for u
      using that zero [of u] inv_parts(6) [OF inv t, of u] by auto
    then have "(\<Sum>w<length (ww_threads s). thread_rank s w) = thread_rank s t"
      using k by (subst sum.remove [of _ t]) simp_all
    then show ?thesis using one [of t] by simp
  next
    case False
    then have "(\<Sum>w<length (ww_threads s). thread_rank s w) = 0" using zero by simp
    then show ?thesis by simp
  qed
  moreover have "stop_call_rank (ww_calls s (Owner n)) \<le> 3"
    by (cases "ww_calls s (Owner n)" rule: stop_call_rank.cases) auto
  ultimately show ?thesis
    unfolding worker_rank_def by linarith
qed

text \<open>
  C33. A stop returns.  An owner calls stop while no other owner is in a call; then, whatever the worker
  does beside it -- its own calls of start, requestStop and stop included --, until it returns a step
  other than a new call of the worker is possible; a run has at most seven steps besides three for
  every call the worker makes; the stop request is set before the thread is taken and no worker clears
  it; and when the stop has returned no thread is live and the controller holds none; it still reports
  that it runs only if the construction of a thread has thrown before.
\<close>

theorem worker_stop_returns:
  assumes "worker_reachable s" and "\<forall>m. ww_calls s (Owner m) = None"
    and "worker_event_step (Call (Owner n) Op_stop) s = Some s0"
    and "list_all (beside_stop n) es" and "worker_events es s0 = Some s'"
  shows "length es \<le> 7 + 3 * length (filter is_call es)
    \<and> (case ww_calls s' (Owner n) of
        None \<Rightarrow> (\<forall>t. \<not> live s' t) \<and> wc_thread (ww_controller s') = None
          \<and> (controller_isRunning (ww_controller s') \<longleftrightarrow> ww_failed s')
      | Some p \<Rightarrow> (\<exists>e u. beside_stop n e \<and> \<not> is_call e \<and> worker_event_step e s' = Some u)
          \<and> (p = Stop_request \<or> controller_isStopRequested (ww_controller s')))"
proof -
  have inv0: "controller_inv s0" using worker_inv_step [OF worker_reachable_inv [OF assms(1)] assms(3)] .
  have s0: "s0 = at_point (Owner n) (Some Stop_request) s" using assms(3) by (auto split: if_splits)
  then have "stopping_by n s0" using inv0 assms(2) by (simp add: stopping_by_def)
  from stopping_run [OF this assms(4,5)] stopping_rank_bound [OF this]
  have stop: "stopping_by n s'" and len: "length es \<le> 7 + 3 * length (filter is_call es)" by auto
  have running: "wc_running (ww_controller s') \<longleftrightarrow> (\<exists>t. live s' t) \<or> ww_failed s'"
    using inv_parts(7) [OF stopping_parts(1) [OF stop]] .
  show ?thesis
  proof (cases "ww_calls s' (Owner n)")
    case None
    then show ?thesis using len stop running by (auto simp: stopping_by_def controller_isRunning_def)
  next
    case (Some p)
    then show ?thesis
      using len stop stopping_progress [OF stop] by (auto simp: stopping_by_def controller_isStopRequested_def)
  qed
qed

section \<open>Witnesses\<close>

text \<open>A worker is started and runs; it calls stop itself; its owner stops it.\<close>

definition sample_worker_started :: worker_world where
  "sample_worker_started = the (worker_events
     [Call (Owner 0) Op_start, Advance (Owner 0), Advance (Owner 0), Run 0] worker_world_new)"

lemma worker_events_reachable:
  "worker_events es s = Some s' \<Longrightarrow> worker_reachable s \<Longrightarrow> worker_reachable s'"
  by (induction es arbitrary: s) (auto split: option.splits intro: worker_next)

lemmas worker_model_defs = worker_world_new_def WorkerController_new_def may_call_def at_point_def start_first_def
  start_second_def launch_def Let_def requestStop_def stop_take_def run_worker_def worker_enter_def worker_leave_def finished_def

lemma sample_started_events:
  "worker_events [Call (Owner 0) Op_start, Advance (Owner 0), Advance (Owner 0), Run 0] worker_world_new
     = Some sample_worker_started"
  by (simp add: sample_worker_started_def worker_model_defs)

lemma sample_started_eq:
  "sample_worker_started = \<lparr>ww_controller = \<lparr>wc_thread = Some 0, wc_worker_id = Some 0, wc_running = True,
      wc_stop_requested = False\<rparr>, ww_threads = [W_body], ww_calls = (\<lambda>c. None),
      ww_failed = False\<rparr>"
  by (auto simp: sample_worker_started_def worker_model_defs)

lemma sample_started_reachable: "worker_reachable sample_worker_started"
  by (rule worker_events_reachable [OF sample_started_events worker_start])

lemma worker_controller_safe_witness:
  "wc_running (ww_controller sample_worker_started) \<and> live sample_worker_started 0 \<and> holds sample_worker_started None 0
    \<and> {t. live sample_worker_started t} = {0}"
proof -
  have "live sample_worker_started 0" "wc_running (ww_controller sample_worker_started)" "holds sample_worker_started None 0"
    by (simp_all add: sample_started_eq live_def holds_def)
  then show ?thesis using worker_controller_safe [OF sample_started_reachable] by blast
qed

text \<open>The events of the witness of the stop: the worker calls stop, which only requests it, and ends.\<close>

definition sample_stop_events :: "worker_event list" where
  "sample_stop_events = [Call (Worker 0) Op_stop, Advance (Owner 0), Advance (Worker 0), Advance (Owner 0),
     Advance (Worker 0), Run 0, Run 0, Advance (Owner 0)]"

definition sample_stopping :: worker_world where
  "sample_stopping = at_point (Owner 0) (Some Stop_request) sample_worker_started"

definition sample_stopped :: worker_world where
  "sample_stopped = the (worker_events sample_stop_events sample_stopping)"

lemma sample_stop_runs: "worker_events sample_stop_events sample_stopping = Some sample_stopped"
  by (simp add: sample_stopped_def sample_stop_events_def sample_stopping_def sample_started_eq worker_model_defs)

lemma worker_stop_returns_witness:
  "ww_calls sample_stopped (Owner 0) = None \<and> length sample_stop_events = 8
    \<and> (\<forall>t. \<not> live sample_stopped t) \<and> (controller_isRunning (ww_controller sample_stopped) \<longleftrightarrow> ww_failed sample_stopped)"
proof -
  have idle: "\<forall>m. ww_calls sample_worker_started (Owner m) = None" by (simp add: sample_started_eq)
  have call: "worker_event_step (Call (Owner 0) Op_stop) sample_worker_started = Some sample_stopping"
    by (simp add: sample_stopping_def may_call_def sample_started_eq)
  have beside: "list_all (beside_stop 0) sample_stop_events" by (simp add: sample_stop_events_def)
  have done': "ww_calls sample_stopped (Owner 0) = None"
    by (simp add: sample_stopped_def sample_stop_events_def sample_stopping_def sample_started_eq worker_model_defs)
  show ?thesis
    using worker_stop_returns [OF sample_started_reachable idle call beside sample_stop_runs]
    by (simp add: done' sample_stop_events_def)
qed

text \<open>The construction of the first thread throws: the flag stays set with no thread, and every later
  start is refused.\<close>

lemma failed_launch_keeps_running:
  "\<exists>s'. worker_events [Call (Owner 0) Op_start, Advance (Owner 0), Launch_fails (Owner 0), Call (Owner 0) Op_start, Advance (Owner 0)]
      worker_world_new = Some s'
    \<and> ww_failed s' \<and> wc_running (ww_controller s') \<and> ww_threads s' = [] \<and> ww_calls s' (Owner 0) = None"
  by (simp add: worker_model_defs)

text \<open>
  The condition that no other owner is in a call is needed: a start that slips in between the request
  of a stop and its taking of the thread clears the request and leaves its own new worker to be taken,
  so that the stop waits for a worker that was never asked to stop.
\<close>

lemma stop_start_race:
  "\<exists>s'. worker_events
      [Call (Owner 0) Op_stop, Advance (Owner 0), Run 0, Run 0,
       Call (Owner 1) Op_start, Advance (Owner 1), Advance (Owner 1), Advance (Owner 1), Run 1, Advance (Owner 0)]
      sample_worker_started = Some s'
    \<and> ww_calls s' (Owner 0) = Some (Stop_joining 1) \<and> ww_threads s' ! 1 = W_body
    \<and> \<not> controller_isStopRequested (ww_controller s')"
  by (simp add: sample_started_eq worker_model_defs controller_isStopRequested_def)

end
