(* ===== verification/Timer.thy ===== *)
theory Timer
  imports WorkerControllerCorrect
begin

text \<open>
  The timer (\<open>core/wse/utility/wse_Timer.cpp\<close>) over its worker controller, as a transition system: a
  section under the timer's mutex is one action, and every step of the controller is a step of
  \<open>WorkerController\<close>.  A callback is a number; while it runs, and while the destructors of what it
  captured run, the worker may call the timer itself.
  A wait ends when a stop was requested or when its time is over, which may be at any moment.
\<close>

section \<open>State\<close>

text \<open>Where a call is: \<open>start\<close> before the mutex, and with it before the test, in the controller's start
  and before the configuration; \<open>stop\<close>; a move of another timer into this one before the mutex;
  \<open>setInterval\<close>; \<open>interval\<close>.  The body of a worker: before it reads the interval, waiting, before it
  reads the callback, calling it, before it releases it, destroying what it captured with the mutex
  held, and at its end.  Who holds the mutex: a call, or the release of a worker.\<close>

datatype timer_point =
    T_locking int nat | T_checking int nat | T_starting int nat | T_finishing int nat bool
  | T_stopping | T_moving int | T_setting int | T_reading

datatype timer_body = B_interval | B_waiting | B_callback | B_calling nat | B_release | B_releasing | B_done

datatype lock_holder = In_call caller | In_release nat

record timer_world =
  tw_worker :: worker_world
  tw_mutex :: "lock_holder option"
  tw_interval :: int
  tw_callback :: "nat option"
  tw_calls :: "caller \<Rightarrow> timer_point option"
  tw_bodies :: "nat \<Rightarrow> timer_body"
  tw_starts :: "nat list" \<comment> \<open>the callbacks of the starts, a record of the past\<close>

definition timer_world_new :: timer_world where
  "timer_world_new = \<lparr>tw_worker = worker_world_new, tw_mutex = None, tw_interval = 1, tw_callback = None,
     tw_calls = (\<lambda>c. None), tw_bodies = (\<lambda>t. B_interval), tw_starts = []\<rparr>"

datatype timer_op = Timer_start int "nat option" | Timer_stop | Timer_setInterval int | Timer_interval | Timer_move int

datatype timer_event = T_call caller timer_op | T_advance caller | T_throws caller | T_thread nat | T_body nat bool

section \<open>Actions\<close>

definition timer_at :: "caller \<Rightarrow> timer_point option \<Rightarrow> timer_world \<Rightarrow> timer_world" where
  "timer_at c p s = s\<lparr>tw_calls := (tw_calls s)(c := p)\<rparr>"

definition in_callback :: "timer_world \<Rightarrow> nat \<Rightarrow> bool" where
  "in_callback s t \<longleftrightarrow> t < length (ww_threads (tw_worker s)) \<and> ww_threads (tw_worker s) ! t = W_body
     \<and> (case tw_bodies s t of B_calling f \<Rightarrow> True | _ \<Rightarrow> False)"

definition in_release :: "timer_world \<Rightarrow> nat \<Rightarrow> bool" where
  "in_release s t \<longleftrightarrow> t < length (ww_threads (tw_worker s)) \<and> ww_threads (tw_worker s) ! t = W_body
     \<and> tw_bodies s t = B_releasing"

definition timer_may_call :: "timer_world \<Rightarrow> caller \<Rightarrow> bool" where
  "timer_may_call s c \<longleftrightarrow> tw_calls s c = None \<and> (case c of Owner n \<Rightarrow> True | Worker t \<Rightarrow> in_callback s t \<or> in_release s t)"

text \<open>\<open>this->m_impl->worker.stop()\<close> begins.\<close>

definition begin_stop :: "caller \<Rightarrow> timer_point \<Rightarrow> timer_world \<Rightarrow> timer_world option" where
  "begin_stop c p s =
     (case worker_event_step (Call c Op_stop) (tw_worker s) of
        None \<Rightarrow> None | Some w \<Rightarrow> Some (timer_at c (Some p) (s\<lparr>tw_worker := w\<rparr>)))"

text \<open>A call; an argument that is refused by an exception changes nothing.\<close>

fun timer_enter :: "caller \<Rightarrow> timer_op \<Rightarrow> timer_world \<Rightarrow> timer_world option" where
  "timer_enter c (Timer_start interval callback) s =
     (if interval \<le> 0 then Some s
      else case callback of None \<Rightarrow> Some s | Some f \<Rightarrow> Some (timer_at c (Some (T_locking interval f)) s))"
| "timer_enter c Timer_stop s = begin_stop c T_stopping s"
| "timer_enter c (Timer_setInterval interval) s =
     (if interval \<le> 0 then Some s else Some (timer_at c (Some (T_setting interval)) s))"
| "timer_enter c Timer_interval s = Some (timer_at c (Some T_reading) s)"
| "timer_enter c (Timer_move interval) s =
     (if interval \<le> 0 then None else begin_stop c (T_moving interval) s)"

text \<open>A step of the controller within a call, which goes on at \<open>p\<close> when the controller has returned.\<close>

definition inner_step :: "caller \<Rightarrow> timer_point option \<Rightarrow> timer_world \<Rightarrow> timer_world option" where
  "inner_step c p s =
     (case worker_event_step (Advance c) (tw_worker s) of
        None \<Rightarrow> None
      | Some w \<Rightarrow> Some (if ww_calls w c = None then timer_at c p (s\<lparr>tw_worker := w\<rparr>) else s\<lparr>tw_worker := w\<rparr>))"

text \<open>The controller's start, whose answer says whether there is a new thread; the exception of a thread
  that cannot be constructed leaves the timer's start as an answer \<open>false\<close> does.\<close>

definition start_step :: "worker_event \<Rightarrow> caller \<Rightarrow> int \<Rightarrow> nat \<Rightarrow> timer_world \<Rightarrow> timer_world option" where
  "start_step e c interval f s =
     (case worker_event_step e (tw_worker s) of
        None \<Rightarrow> None
      | Some w \<Rightarrow>
          let started = length (ww_threads (tw_worker s)) < length (ww_threads w);
              s1 = s\<lparr>tw_worker := w, tw_starts := tw_starts s @ (if started then [f] else [])\<rparr>
          in Some (if ww_calls w c = None then timer_at c (Some (T_finishing interval f started)) s1 else s1))"

fun timer_advance :: "caller \<Rightarrow> timer_point \<Rightarrow> timer_world \<Rightarrow> timer_world option" where
  "timer_advance c (T_locking interval f) s =
     (if tw_mutex s = None then Some (timer_at c (Some (T_checking interval f)) (s\<lparr>tw_mutex := Some (In_call c)\<rparr>)) else None)"
| "timer_advance c (T_checking interval f) s =
     (if controller_isRunning (ww_controller (tw_worker s))
      then Some (timer_at c None (s\<lparr>tw_mutex := None\<rparr>))
      else case worker_event_step (Call c Op_start) (tw_worker s) of
          None \<Rightarrow> None
        | Some w \<Rightarrow> Some (timer_at c (Some (T_starting interval f)) (s\<lparr>tw_worker := w\<rparr>)))"
| "timer_advance c (T_starting interval f) s = start_step (Advance c) c interval f s"
| "timer_advance c (T_finishing interval f started) s =
     Some (timer_at c None ((if started then s\<lparr>tw_interval := interval, tw_callback := Some f\<rparr> else s)\<lparr>tw_mutex := None\<rparr>))"
| "timer_advance c T_stopping s = inner_step c None s"
| "timer_advance c (T_moving interval) s = inner_step c (Some (T_setting interval)) s"
| "timer_advance c (T_setting interval) s =
     (if tw_mutex s = None then Some (timer_at c None (s\<lparr>tw_interval := interval\<rparr>)) else None)"
| "timer_advance c T_reading s = (if tw_mutex s = None then Some (timer_at c None s) else None)"

definition timer_body_at :: "nat \<Rightarrow> timer_body \<Rightarrow> timer_world \<Rightarrow> timer_world" where
  "timer_body_at t b s = s\<lparr>tw_bodies := (tw_bodies s)(t := b)\<rparr>"

text \<open>A step of the body; \<open>threw\<close> says how a callback ended.\<close>

definition timer_body_step :: "nat \<Rightarrow> bool \<Rightarrow> timer_world \<Rightarrow> timer_world option" where
  "timer_body_step t threw s =
     (case tw_bodies s t of
        B_interval \<Rightarrow> if tw_mutex s = None then Some (timer_body_at t B_waiting s) else None
      | B_waiting \<Rightarrow> Some (timer_body_at t
          (if controller_isStopRequested (ww_controller (tw_worker s)) then B_release else B_callback) s)
      | B_callback \<Rightarrow>
          if tw_mutex s = None
          then Some (timer_body_at t (case tw_callback s of None \<Rightarrow> B_release | Some f \<Rightarrow> B_calling f) s) else None
      | B_calling f \<Rightarrow>
          if tw_calls s (Worker t) = None then Some (timer_body_at t (if threw then B_release else B_interval) s) else None
      | B_release \<Rightarrow>
          if tw_mutex s = None
          then Some (timer_body_at t B_releasing (s\<lparr>tw_mutex := Some (In_release t), tw_callback := None\<rparr>)) else None
      | B_releasing \<Rightarrow>
          if tw_calls s (Worker t) = None then Some (timer_body_at t B_done (s\<lparr>tw_mutex := None\<rparr>)) else None
      | B_done \<Rightarrow> None)"

text \<open>A step; a start throws when its thread cannot be constructed, or when the callback's shared copy
  cannot be allocated after the thread has started.\<close>

fun timer_step :: "timer_event \<Rightarrow> timer_world \<Rightarrow> timer_world option" where
  "timer_step (T_call c opr) s = (if timer_may_call s c then timer_enter c opr s else None)"
| "timer_step (T_advance c) s = (case tw_calls s c of None \<Rightarrow> None | Some p \<Rightarrow> timer_advance c p s)"
| "timer_step (T_throws c) s =
     (case tw_calls s c of
        Some (T_starting interval f) \<Rightarrow> start_step (Launch_fails c) c interval f s
      | Some (T_finishing interval f True) \<Rightarrow> Some (timer_at c None (s\<lparr>tw_interval := interval, tw_mutex := None\<rparr>))
      | _ \<Rightarrow> None)"
| "timer_step (T_thread t) s =
     (if t < length (ww_threads (tw_worker s)) \<and> ww_threads (tw_worker s) ! t = W_body \<and> tw_bodies s t \<noteq> B_done then None
      else case worker_event_step (Run t) (tw_worker s) of None \<Rightarrow> None | Some w \<Rightarrow> Some (s\<lparr>tw_worker := w\<rparr>))"
| "timer_step (T_body t threw) s =
     (if t < length (ww_threads (tw_worker s)) \<and> ww_threads (tw_worker s) ! t = W_body then timer_body_step t threw s else None)"

inductive timer_reachable :: "timer_world \<Rightarrow> bool" where
  timer_begin: "timer_reachable timer_world_new"
| timer_next: "timer_reachable s \<Longrightarrow> timer_step e s = Some s' \<Longrightarrow> timer_reachable s'"

definition timer_isRunning :: "timer_world \<Rightarrow> bool" where
  "timer_isRunning s = controller_isRunning (ww_controller (tw_worker s))"

section \<open>Invariant\<close>

fun holds_mutex :: "timer_point option \<Rightarrow> bool" where
  "holds_mutex (Some (T_checking i f)) = True"
| "holds_mutex (Some (T_starting i f)) = True"
| "holds_mutex (Some (T_finishing i f b)) = True"
| "holds_mutex p = False"

text \<open>Which point of the controller belongs to a point of the timer.\<close>

fun inner_point :: "timer_point option \<Rightarrow> call_point option \<Rightarrow> bool" where
  "inner_point (Some (T_starting i f)) q = (q \<in> {Some Start_first, Some Start_second} \<or> (\<exists>t. q = Some (Start_joining t)))"
| "inner_point (Some T_stopping) q = (q \<in> {Some Stop_request, Some Stop_take} \<or> (\<exists>t. q = Some (Stop_joining t)))"
| "inner_point (Some (T_moving i)) q = (q \<in> {Some Stop_request, Some Stop_take} \<or> (\<exists>t. q = Some (Stop_joining t)))"
| "inner_point p q = (q = None)"

fun point_interval :: "timer_point option \<Rightarrow> int option" where
  "point_interval (Some (T_locking i f)) = Some i"
| "point_interval (Some (T_checking i f)) = Some i"
| "point_interval (Some (T_starting i f)) = Some i"
| "point_interval (Some (T_finishing i f b)) = Some i"
| "point_interval (Some (T_moving i)) = Some i"
| "point_interval (Some (T_setting i)) = Some i"
| "point_interval p = None"

text \<open>The calls: who holds the mutex, how far the controller is, what a worker may be doing.\<close>

definition timer_calls_inv :: "timer_world \<Rightarrow> bool" where
  "timer_calls_inv s \<longleftrightarrow>
     (\<forall>c. tw_mutex s = Some (In_call c) \<longleftrightarrow> holds_mutex (tw_calls s c))
     \<and> (\<forall>t. tw_mutex s = Some (In_release t) \<longleftrightarrow> in_release s t)
     \<and> (\<forall>c. inner_point (tw_calls s c) (ww_calls (tw_worker s) c))
     \<and> (\<forall>c i. point_interval (tw_calls s c) = Some i \<longrightarrow> 0 < i)
     \<and> (\<forall>t p. tw_calls s (Worker t) = Some p \<longrightarrow> (in_callback s t \<or> in_release s t) \<and> (\<forall>i f b. p \<noteq> T_starting i f \<and> p \<noteq> T_finishing i f b))"

text \<open>The callback: one is set only for a live worker that has not released it; whoever finishes a
  start finds the new worker before its first section; a worker calls what its start was given.\<close>

definition timer_callback_inv :: "timer_world \<Rightarrow> bool" where
  "timer_callback_inv s \<longleftrightarrow>
     length (tw_starts s) = length (ww_threads (tw_worker s))
     \<and> (\<forall>t. length (ww_threads (tw_worker s)) \<le> t \<or> ww_threads (tw_worker s) ! t = W_new \<longrightarrow> tw_bodies s t = B_interval)
     \<and> (\<forall>t. live (tw_worker s) t \<longrightarrow> Suc t = length (tw_starts s))
     \<and> (\<forall>t. live (tw_worker s) t \<longrightarrow> ww_threads (tw_worker s) ! t = W_ended \<longrightarrow> tw_bodies s t = B_done)
     \<and> (\<forall>g. tw_callback s = Some g \<longrightarrow>
          (\<exists>t. live (tw_worker s) t \<and> tw_bodies s t \<notin> {B_releasing, B_done} \<and> g = last (tw_starts s)))
     \<and> (\<forall>c i f. tw_calls s c = Some (T_finishing i f True) \<longrightarrow>
          (\<exists>t. live (tw_worker s) t \<and> tw_bodies s t = B_interval \<and> f = last (tw_starts s)))
     \<and> (\<forall>t f. live (tw_worker s) t \<longrightarrow> tw_bodies s t = B_calling f \<longrightarrow> f = last (tw_starts s))"

definition timer_inv :: "timer_world \<Rightarrow> bool" where
  "timer_inv s \<longleftrightarrow> controller_inv (tw_worker s) \<and> 0 < tw_interval s \<and> timer_calls_inv s \<and> timer_callback_inv s"

lemma timer_inv_new: "timer_inv timer_world_new"
proof -
  have "controller_inv worker_world_new" by (rule controller_inv_new)
  then show ?thesis
    by (simp add: timer_inv_def timer_calls_inv_def timer_callback_inv_def timer_world_new_def worker_world_new_def
        live_def in_release_def)
qed

end
