(* ===== verification/TimerCorrect.thy ===== *)
theory TimerCorrect
  imports Timer
begin

text \<open>
  What the timer promises: its invariant over the steps of the controller; a callback runs for the start
  that gave it and is released when the worker ends; nothing blocks for ever; a stop returns.
\<close>

section \<open>Steps of the controller\<close>

lemma advance_others:
  "advance c q w = Some w' \<Longrightarrow> c' \<noteq> c \<Longrightarrow> ww_calls w' c' = ww_calls w c'"
  by (cases q) (auto simp: start_first_def launch_parts stop_take_def split: if_splits option.splits sum.splits)

lemma advance_threads:
  assumes "controller_inv w" and "advance c q w = Some w'"
  shows "ww_threads w' = ww_threads w
    \<or> q = Start_second \<and> ww_threads w' = ww_threads w @ [W_new] \<and> ww_calls w' c = None \<and> (\<forall>u. \<not> live w u)"
proof -
  have "wc_running (ww_controller w) \<longleftrightarrow> (\<exists>u. live w u) \<or> ww_failed w" using inv_parts(7) [OF assms(1)] .
  then show ?thesis
    using assms(2)
    by (cases q) (auto simp: start_first_def launch_def start_second_def Let_def stop_take_def split: if_splits option.splits sum.splits)
qed

lemma advance_inner:
  assumes "advance c q w = Some w'" and "inner_point p (Some q)"
  shows "ww_calls w' c = None \<or> inner_point p (ww_calls w' c)"
proof (cases p)
  case None
  then show ?thesis using assms(2) by simp
next
  case (Some r)
  then show ?thesis
    using assms
    by (cases r; cases q)
       (auto simp: start_first_def launch_parts stop_take_def split: if_splits option.splits sum.splits)
qed

lemma call_event:
  "worker_event_step (Call c opr) w = Some w' \<Longrightarrow> w' = at_point c (Some (first_point opr)) w \<and> may_call w c"
  by (simp split: if_splits)

lemma advance_event:
  assumes "worker_event_step (Advance c) w = Some w'"
  obtains q where "ww_calls w c = Some q" and "advance c q w = Some w'"
  using assms by (auto split: option.splits)

text \<open>A section of a call of \<open>c\<close>, or the construction of its thread that fails.\<close>

lemma own_event:
  assumes "e = Advance c \<or> e = Launch_fails c" and "worker_event_step e w = Some w'"
  shows "c' \<noteq> c \<Longrightarrow> ww_calls w' c' = ww_calls w c'" "\<exists>q. ww_calls w c = Some q"
    "inner_point p (ww_calls w c) \<Longrightarrow> ww_calls w' c = None \<or> inner_point p (ww_calls w' c)"
proof -
  have "(c' \<noteq> c \<longrightarrow> ww_calls w' c' = ww_calls w c') \<and> (\<exists>q. ww_calls w c = Some q)
      \<and> (inner_point p (ww_calls w c) \<longrightarrow> ww_calls w' c = None \<or> inner_point p (ww_calls w' c))"
  proof (cases "e = Advance c")
    case True
    then obtain q where q: "ww_calls w c = Some q" "advance c q w = Some w'" using assms(2) advance_event by metis
    show ?thesis using advance_others [OF q(2)] advance_inner [OF q(2), of p] q(1) by auto
  next
    case False
    then show ?thesis using assms by (auto simp: launch_parts split: if_splits)
  qed
  then show "c' \<noteq> c \<Longrightarrow> ww_calls w' c' = ww_calls w c'" "\<exists>q. ww_calls w c = Some q"
    "inner_point p (ww_calls w c) \<Longrightarrow> ww_calls w' c = None \<or> inner_point p (ww_calls w' c)"
    by blast+
qed

lemma launch_fails_threads:
  assumes "worker_event_step (Launch_fails c) w = Some w'"
  shows "ww_threads w' = ww_threads w" "ww_calls w' c = None"
  using assms by (auto simp: launch_def start_second_def Let_def split: if_splits)

section \<open>The invariant\<close>

lemma timer_parts:
  assumes "timer_inv s"
  shows "controller_inv (tw_worker s)" "0 < tw_interval s"
    "tw_mutex s = Some (In_call c) \<longleftrightarrow> holds_mutex (tw_calls s c)" "inner_point (tw_calls s c) (ww_calls (tw_worker s) c)"
    "point_interval (tw_calls s c) = Some i \<Longrightarrow> 0 < i"
    "tw_calls s (Worker t) = Some p \<Longrightarrow> (in_callback s t \<or> in_release s t) \<and> p \<noteq> T_starting i f \<and> p \<noteq> T_finishing i f b"
    "length (tw_starts s) = length (ww_threads (tw_worker s))"
    "live (tw_worker s) t \<Longrightarrow> Suc t = length (tw_starts s)"
    "live (tw_worker s) t \<Longrightarrow> tw_bodies s t = B_calling f \<Longrightarrow> f = last (tw_starts s)"
    "tw_callback s = Some g \<Longrightarrow> \<exists>t. live (tw_worker s) t \<and> tw_bodies s t \<notin> {B_releasing, B_done} \<and> g = last (tw_starts s)"
    "tw_calls s c = Some (T_finishing i f True) \<Longrightarrow>
      \<exists>t. live (tw_worker s) t \<and> tw_bodies s t = B_interval \<and> f = last (tw_starts s)"
  using assms unfolding timer_inv_def timer_calls_inv_def timer_callback_inv_def by blast+

lemma release_holds:
  assumes "timer_inv s"
  shows "tw_mutex s = Some (In_release t) \<longleftrightarrow> in_release s t"
  using assms unfolding timer_inv_def timer_calls_inv_def by blast

lemma timer_bodies:
  assumes "timer_inv s"
  shows "length (ww_threads (tw_worker s)) \<le> t \<or> ww_threads (tw_worker s) ! t = W_new \<Longrightarrow> tw_bodies s t = B_interval"
    "live (tw_worker s) t \<Longrightarrow> ww_threads (tw_worker s) ! t = W_ended \<Longrightarrow> tw_bodies s t = B_done"
  using assms unfolding timer_inv_def timer_callback_inv_def by blast+

lemma timer_at_simps [simp]:
  "tw_worker (timer_at c p s) = tw_worker s" "tw_mutex (timer_at c p s) = tw_mutex s"
  "tw_interval (timer_at c p s) = tw_interval s" "tw_callback (timer_at c p s) = tw_callback s"
  "tw_calls (timer_at c p s) = (tw_calls s)(c := p)" "tw_bodies (timer_at c p s) = tw_bodies s"
  "tw_starts (timer_at c p s) = tw_starts s"
  by (simp_all add: timer_at_def)

text \<open>A call moves to another point; threads, bodies and callback stay.\<close>

lemma inv_point:
  assumes inv: "timer_inv s" and worker: "controller_inv (tw_worker s1)" "ww_threads (tw_worker s1) = ww_threads (tw_worker s)"
    and same: "tw_calls s1 = tw_calls s" "tw_bodies s1 = tw_bodies s" "tw_starts s1 = tw_starts s" "tw_callback s1 = tw_callback s"
    and interval: "0 < tw_interval s1" "\<And>i. point_interval p = Some i \<Longrightarrow> 0 < i"
    and others: "\<And>c'. c' \<noteq> c \<Longrightarrow> ww_calls (tw_worker s1) c' = ww_calls (tw_worker s) c'"
      "\<And>h. h \<noteq> In_call c \<Longrightarrow> tw_mutex s1 = Some h \<longleftrightarrow> tw_mutex s = Some h"
    and here: "inner_point p (ww_calls (tw_worker s1) c)" "tw_mutex s1 = Some (In_call c) \<longleftrightarrow> holds_mutex p"
    and of_worker: "\<forall>t q. c = Worker t \<and> p = Some q \<longrightarrow> (in_callback s t \<or> in_release s t) \<and> (\<forall>i f b. q \<noteq> T_starting i f \<and> q \<noteq> T_finishing i f b)"
    and not_finishing: "\<And>i f. p = Some (T_finishing i f True) \<Longrightarrow> tw_calls s c = p"
  shows "timer_inv (timer_at c p s1)"
proof -
  have live: "live (tw_worker s1) = live (tw_worker s)" using worker(2) by (rule live_cong)
  let ?s = "timer_at c p s1"
  have "tw_mutex ?s = Some (In_call d) \<longleftrightarrow> holds_mutex (tw_calls ?s d)" for d
    using others(2) [of "In_call d"] here(2) timer_parts(3) [OF inv, of d] by (auto simp: same)
  moreover have "inner_point (tw_calls ?s d) (ww_calls (tw_worker ?s) d)" for d
    using others(1) [of d] here(1) timer_parts(4) [OF inv, of d] by (auto simp: same)
  moreover have "point_interval (tw_calls ?s d) = Some i \<Longrightarrow> 0 < i" for d i
    using interval(2) [of i] timer_parts(5) [OF inv, of d i] by (auto simp: same split: if_splits)
  moreover have "tw_mutex ?s = Some (In_release t) \<longleftrightarrow> in_release ?s t" for t
    using others(2) [of "In_release t"] release_holds [OF inv, of t] by (simp add: in_release_def same worker(2))
  moreover have "(in_callback ?s t \<or> in_release ?s t) \<and> (\<forall>i f b. r \<noteq> T_starting i f \<and> r \<noteq> T_finishing i f b)"
    if "tw_calls ?s (Worker t) = Some r" for t r
  proof -
    have "in_callback ?s t = in_callback s t" "in_release ?s t = in_release s t"
      by (simp_all add: in_callback_def in_release_def same worker(2))
    then show ?thesis
      using that of_worker timer_parts(6) [OF inv, of t r] by (auto simp: same split: if_splits)
  qed
  ultimately have "timer_calls_inv ?s" unfolding timer_calls_inv_def by blast
  moreover have "timer_callback_inv (timer_at c p s1)"
    using inv not_finishing unfolding timer_inv_def timer_callback_inv_def
    by (simp add: same worker(2) live) metis
  ultimately show ?thesis using worker(1) interval(1) by (simp add: timer_inv_def)
qed

lemma controller_call:
  assumes "timer_inv s" and "worker_event_step e (tw_worker s) = Some w"
  shows "controller_inv w"
  using worker_inv_step [OF timer_parts(1) [OF assms(1)] assms(2)] .

lemma inv_enter:
  assumes inv: "timer_inv s" and may: "timer_may_call s c" and step: "timer_enter c opr s = Some s'"
  shows "timer_inv s'"
proof -
  have none: "tw_calls s c = None" and body: "c = Worker t \<Longrightarrow> in_callback s t \<or> in_release s t" for t
    using may by (auto simp: timer_may_call_def)
  have idle: "ww_calls (tw_worker s) c = None" and free: "tw_mutex s \<noteq> Some (In_call c)"
    using timer_parts(4) [OF inv, of c] timer_parts(3) [OF inv, of c] none by simp_all
  have start: "timer_inv (timer_at c (Some p) s)"
    if "p \<in> {T_locking i f, T_setting i, T_reading}" "0 < i" for p i f
    using that by (intro inv_point [OF inv]) (use inv none idle free body in \<open>auto simp: timer_parts\<close>)
  have stop: "timer_inv s1" if bs: "begin_stop c p s = Some s1" and pt: "p = T_stopping \<or> (\<exists>i. p = T_moving i \<and> 0 < i)" for p s1
  proof -
    obtain w where w: "worker_event_step (Call c Op_stop) (tw_worker s) = Some w"
      and s1: "s1 = timer_at c (Some p) (s\<lparr>tw_worker := w\<rparr>)"
      using bs by (auto simp: begin_stop_def simp del: worker_event_step.simps split: option.splits)
    have "w = at_point c (Some Stop_request) (tw_worker s)" using call_event [OF w] by simp
    then show ?thesis
      unfolding s1 using pt controller_call [OF inv w]
      by (intro inv_point [OF inv]) (use inv none free body in \<open>auto simp: timer_parts\<close>)
  qed
  have "timer_inv (timer_at c (Some T_reading) s)" by (rule start [where i = 1]) simp_all
  then show ?thesis
    using step start stop inv by (cases opr) (auto split: if_splits option.splits)
qed

text \<open>A step of the controller within a call that leaves the threads alone.\<close>

lemma inv_inner:
  assumes inv: "timer_inv s" and e: "e = Advance c \<or> e = Launch_fails c"
    and w: "worker_event_step e (tw_worker s) = Some w" and threads: "ww_threads w = ww_threads (tw_worker s)"
    and point: "tw_calls s c = Some r" and next_ok: "ww_calls w c = None \<Longrightarrow> inner_point p None"
      "holds_mutex p \<longleftrightarrow> holds_mutex (Some r)" "point_interval p = point_interval (Some r) \<or> point_interval p = None"
      "\<forall>t q. c = Worker t \<and> p = Some q \<longrightarrow> (\<forall>i f b. q \<noteq> T_starting i f \<and> q \<noteq> T_finishing i f b)"
      "\<And>i f. p \<noteq> Some (T_finishing i f True)"
  shows "timer_inv (if ww_calls w c = None then timer_at c p (s\<lparr>tw_worker := w\<rparr>) else s\<lparr>tw_worker := w\<rparr>)"
proof -
  have w_inv: "controller_inv w" using controller_call [OF inv w] .
  have others: "c' \<noteq> c \<Longrightarrow> ww_calls w c' = ww_calls (tw_worker s) c'" for c' using own_event(1) [OF e w] .
  have inner: "ww_calls w c = None \<or> inner_point (tw_calls s c) (ww_calls w c)"
    using own_event(3) [OF e w timer_parts(4) [OF inv]] .
  have mutex: "tw_mutex s = Some (In_call c) \<longleftrightarrow> holds_mutex (Some r)" using timer_parts(3) [OF inv, of c] point by simp
  have intervals: "point_interval (Some r) = Some i \<Longrightarrow> 0 < i" for i using timer_parts(5) [OF inv, of c i] point by simp
  have body: "c = Worker t \<Longrightarrow> (in_callback s t \<or> in_release s t) \<and> (\<forall>i f b. r \<noteq> T_starting i f \<and> r \<noteq> T_finishing i f b)" for t
    using timer_parts(6) [OF inv, of t r] point by auto
  show ?thesis
  proof (cases "ww_calls w c = None")
    case True
    then have "timer_inv (timer_at c p (s\<lparr>tw_worker := w\<rparr>))"
      using inv w_inv threads others mutex next_ok intervals body point
      by (intro inv_point [OF inv]) (auto simp: timer_parts(1,2) [OF inv])
    then show ?thesis using True by simp
  next
    case False
    have "s\<lparr>tw_worker := w\<rparr> = timer_at c (Some r) (s\<lparr>tw_worker := w\<rparr>)"
      using point by (simp add: timer_at_def fun_upd_idem)
    moreover have "timer_inv (timer_at c (Some r) (s\<lparr>tw_worker := w\<rparr>))"
      using inv w_inv threads others mutex intervals body point inner False
      by (intro inv_point [OF inv]) (auto simp: timer_parts(1,2) [OF inv])
    ultimately show ?thesis using False by auto
  qed
qed

text \<open>A start with a new thread, and the configuration it leaves.\<close>

lemma live_appended:
  assumes "ww_threads w' = ww_threads w @ [W_new]" and "\<forall>u. \<not> live w u"
  shows "live w' u \<longleftrightarrow> u = length (ww_threads w)"
  using assms(2) by (auto simp: live_def assms(1) nth_append less_Suc_eq)

lemma timer_inv_started:
  assumes inv: "timer_inv s" and w: "worker_event_step (Advance c) (tw_worker s) = Some w"
    and threads: "ww_threads w = ww_threads (tw_worker s) @ [W_new]" "\<forall>u. \<not> live (tw_worker s) u" "ww_calls w c = None"
    and point: "tw_calls s c = Some (T_starting i f)"
  shows "timer_inv (timer_at c (Some (T_finishing i f True)) (s\<lparr>tw_worker := w, tw_starts := tw_starts s @ [f]\<rparr>))"
    (is "timer_inv ?s")
proof -
  let ?n = "length (ww_threads (tw_worker s))"
  have w_inv: "controller_inv w" using controller_call [OF inv w] .
  obtain q where q: "ww_calls (tw_worker s) c = Some q" "advance c q (tw_worker s) = Some w"
    using w by (rule advance_event)
  have others: "c' \<noteq> c \<Longrightarrow> ww_calls w c' = ww_calls (tw_worker s) c'" for c' using advance_others [OF q(2)] .
  have live: "live w u \<longleftrightarrow> u = ?n" for u by (rule live_appended [OF threads(1,2)])
  have len: "length (tw_starts s) = ?n" using timer_parts(7) [OF inv] .
  have no_callback: "tw_callback s = None" using timer_parts(10) [OF inv] threads(2) by (cases "tw_callback s") auto
  have no_worker: "tw_calls s (Worker t) = None" for t
  proof (cases "tw_calls s (Worker t)")
    case (Some p)
    then have "in_callback s t \<or> in_release s t" using timer_parts(6) [OF inv] by blast
    then have "live (tw_worker s) t" by (auto simp: in_callback_def in_release_def live_def)
    then show ?thesis using threads(2) by blast
  qed simp
  have owner: "\<forall>t. c \<noteq> Worker t" using no_worker point by auto
  then have no_call: "tw_calls ?s (Worker t) = None" for t using no_worker [of t] by auto
  have mutex: "tw_mutex ?s = Some (In_call d) \<longleftrightarrow> holds_mutex (tw_calls ?s d)" for d
    using timer_parts(3) [OF inv, of d] timer_parts(3) [OF inv, of c] point by simp
  have inner: "inner_point (tw_calls ?s d) (ww_calls (tw_worker ?s) d)" for d
    using timer_parts(4) [OF inv, of d] others [of d] threads(3) by simp
  have intervals: "point_interval (tw_calls ?s d) = Some j \<Longrightarrow> 0 < j" for d j
    using timer_parts(5) [OF inv, of d j] timer_parts(5) [OF inv, of c j] point by (simp split: if_splits)
  have "\<not> in_release ?s u" for u
    using live [of u] by (auto simp: in_release_def live_def threads(1) nth_append)
  moreover have "tw_mutex s = Some (In_call c)" using timer_parts(3) [OF inv, of c] point by simp
  ultimately have "timer_calls_inv ?s"
    unfolding timer_calls_inv_def using mutex inner intervals by (simp only: no_call) simp
  moreover have "timer_callback_inv ?s"
  proof -
    have idle: "tw_bodies s t = B_interval" if "?n \<le> t" for t using timer_bodies(1) [OF inv] that by blast
    have new: "tw_bodies s t = B_interval" if "Suc ?n \<le> t \<or> (ww_threads (tw_worker s) @ [W_new]) ! t = W_new" for t
      using that idle [of t] timer_bodies(1) [OF inv, of t] by (cases "t < ?n") (auto simp: nth_append)
    have only: "tw_calls s d \<noteq> Some (T_finishing j g b)" if "d \<noteq> c" for d j g b
    proof
      assume "tw_calls s d = Some (T_finishing j g b)"
      then have "tw_mutex s = Some (In_call d)" using timer_parts(3) [OF inv, of d] by simp
      moreover have "tw_mutex s = Some (In_call c)" using timer_parts(3) [OF inv, of c] point by simp
      ultimately show False using that by simp
    qed
    show ?thesis
      unfolding timer_callback_inv_def
      using len new live idle [of ?n] no_callback only by (auto simp: threads(1) split: if_splits)
  qed
  ultimately show ?thesis using w_inv timer_parts(2) [OF inv] by (simp add: timer_inv_def)
qed

lemma inv_configured:
  assumes inv: "timer_inv s" and point: "tw_calls s c = Some (T_finishing i f True)"
  shows "timer_inv (timer_at c None (s\<lparr>tw_interval := i, tw_callback := Some f, tw_mutex := None\<rparr>))" (is "timer_inv ?s")
proof -
  have holder: "tw_mutex s = Some (In_call c)" using timer_parts(3) [OF inv, of c] point by simp
  have mutex: "tw_mutex ?s = Some (In_call d) \<longleftrightarrow> holds_mutex (tw_calls ?s d)" for d
    using timer_parts(3) [OF inv, of d] holder by auto
  have inner: "inner_point (tw_calls ?s d) (ww_calls (tw_worker ?s) d)" for d
    using timer_parts(4) [OF inv, of d] point by (cases "d = c") simp_all
  have intervals: "point_interval (tw_calls ?s d) = Some j \<Longrightarrow> 0 < j" for d j
    using timer_parts(5) [OF inv, of d j] by (simp split: if_splits)
  have same: "in_callback ?s u = in_callback s u" "in_release ?s u = in_release s u" for u
    by (simp_all add: in_callback_def in_release_def)
  have "\<not> in_release s u" for u using release_holds [OF inv, of u] holder by simp
  then have "timer_calls_inv ?s"
    unfolding timer_calls_inv_def same using mutex inner intervals timer_parts(6) [OF inv] by (simp split: if_splits)
  moreover obtain t where t: "live (tw_worker s) t" "tw_bodies s t = B_interval" "f = last (tw_starts s)"
    using timer_parts(11) [OF inv point] by blast
  have "timer_callback_inv ?s"
    using inv t unfolding timer_inv_def timer_callback_inv_def by (auto split: if_splits)
  moreover have "0 < i" using timer_parts(5) [OF inv, of c i] point by simp
  ultimately show ?thesis using timer_parts(1) [OF inv] by (simp add: timer_inv_def)
qed

lemma inv_advance:
  assumes inv: "timer_inv s" and point: "tw_calls s c = Some r" and step: "timer_advance c r s = Some s'"
  shows "timer_inv s'"
proof -
  have inner: "inner_point (Some r) (ww_calls (tw_worker s) c)" using timer_parts(4) [OF inv, of c] point by simp
  have mutex: "tw_mutex s = Some (In_call c) \<longleftrightarrow> holds_mutex (Some r)" using timer_parts(3) [OF inv, of c] point by simp
  have interval: "point_interval (Some r) = Some i \<Longrightarrow> 0 < i" for i using timer_parts(5) [OF inv, of c i] point by simp
  have body: "c = Worker t \<Longrightarrow> (in_callback s t \<or> in_release s t) \<and> (\<forall>i f b. r \<noteq> T_starting i f \<and> r \<noteq> T_finishing i f b)" for t
    using timer_parts(6) [OF inv, of t r] point by auto
  have running: "in_callback s t \<or> in_release s t \<Longrightarrow> wc_running (ww_controller (tw_worker s))" for t
    using inv_parts(6) [OF timer_parts(1) [OF inv], of t] by (auto simp: in_callback_def in_release_def live_def)
  show ?thesis
  proof (cases r)
    case (T_locking i f)
    then show ?thesis
      using step inv inner mutex interval body
      by (auto split: if_splits intro!: inv_point [OF inv] simp: timer_parts(1,2) [OF inv])
  next
    case (T_checking i f)
    show ?thesis
    proof (cases "controller_isRunning (ww_controller (tw_worker s))")
      case True
      then show ?thesis
        using T_checking step inv inner mutex
        by (auto intro!: inv_point [OF inv] simp: timer_parts(1,2) [OF inv])
    next
      case False
      then obtain w where w: "worker_event_step (Call c Op_start) (tw_worker s) = Some w"
        and s': "s' = timer_at c (Some (T_starting i f)) (s\<lparr>tw_worker := w\<rparr>)"
        using T_checking step by (auto simp del: worker_event_step.simps split: option.splits)
      have w_eq: "w = at_point c (Some Start_first) (tw_worker s)" using call_event [OF w] by simp
      have "c \<noteq> Worker t" for t using body [of t] running [of t] False by (auto simp: controller_isRunning_def)
      then show ?thesis
        unfolding s' using T_checking inv controller_call [OF inv w] w_eq mutex interval
        by (intro inv_point [OF inv]) (auto simp: timer_parts(1,2) [OF inv])
    qed
  next
    case (T_starting i f)
    then obtain w where w: "worker_event_step (Advance c) (tw_worker s) = Some w"
      using step by (auto simp: start_step_def simp del: worker_event_step.simps split: option.splits)
    obtain q where q: "ww_calls (tw_worker s) c = Some q" "advance c q (tw_worker s) = Some w"
      using w by (rule advance_event)
    have owner: "c \<noteq> Worker t" for t using body [of t] T_starting by auto
    consider "ww_threads w = ww_threads (tw_worker s)"
      | "ww_threads w = ww_threads (tw_worker s) @ [W_new]" "ww_calls w c = None" "\<forall>u. \<not> live (tw_worker s) u"
      using advance_threads [OF timer_parts(1) [OF inv] q(2)] by fastforce
    then show ?thesis
    proof cases
      case 1
      then have "timer_inv (if ww_calls w c = None then timer_at c (Some (T_finishing i f False)) (s\<lparr>tw_worker := w\<rparr>)
          else s\<lparr>tw_worker := w\<rparr>)"
        using T_starting owner by (intro inv_inner [OF inv _ w 1 point]) auto
      then show ?thesis
        using step T_starting w 1
        by (cases "ww_calls w c = None") (auto simp: start_step_def Let_def simp del: worker_event_step.simps)
    next
      case 2
      then show ?thesis
        using step T_starting w timer_inv_started [OF inv w 2(1,3,2)] point
        by (simp add: start_step_def Let_def del: worker_event_step.simps)
    qed
  next
    case (T_finishing i f b)
    show ?thesis
    proof (cases b)
      case True
      then show ?thesis using T_finishing step inv_configured [OF inv] point by auto
    next
      case False
      then show ?thesis
        using T_finishing step inv inner mutex
        by (auto intro!: inv_point [OF inv] simp: timer_parts(1,2) [OF inv])
    qed
  next
    case T_stopping
    then obtain w where w: "worker_event_step (Advance c) (tw_worker s) = Some w"
      and s': "s' = (if ww_calls w c = None then timer_at c None (s\<lparr>tw_worker := w\<rparr>) else s\<lparr>tw_worker := w\<rparr>)"
      using step by (auto simp: inner_step_def simp del: worker_event_step.simps split: option.splits)
    obtain q where q: "ww_calls (tw_worker s) c = Some q" "advance c q (tw_worker s) = Some w"
      using w by (rule advance_event)
    have "ww_threads w = ww_threads (tw_worker s)"
      using advance_threads [OF timer_parts(1) [OF inv] q(2)] inner q(1) T_stopping by auto
    then show ?thesis unfolding s' using T_stopping by (intro inv_inner [OF inv _ w _ point]) auto
  next
    case (T_moving i)
    then obtain w where w: "worker_event_step (Advance c) (tw_worker s) = Some w"
      and s': "s' = (if ww_calls w c = None then timer_at c (Some (T_setting i)) (s\<lparr>tw_worker := w\<rparr>) else s\<lparr>tw_worker := w\<rparr>)"
      using step by (auto simp: inner_step_def simp del: worker_event_step.simps split: option.splits)
    obtain q where q: "ww_calls (tw_worker s) c = Some q" "advance c q (tw_worker s) = Some w"
      using w by (rule advance_event)
    have "ww_threads w = ww_threads (tw_worker s)"
      using advance_threads [OF timer_parts(1) [OF inv] q(2)] inner q(1) T_moving by auto
    then show ?thesis unfolding s' using T_moving by (intro inv_inner [OF inv _ w _ point]) auto
  next
    case T_reading
    then show ?thesis
      using step inv inner mutex body
      by (auto split: if_splits intro!: inv_point [OF inv] simp: timer_parts(1,2) [OF inv])
  next
    case (T_setting i)
    then show ?thesis
      using step inv inner mutex interval
      by (auto split: if_splits intro!: inv_point [OF inv] simp: timer_parts(1,2) [OF inv])
  qed
qed

text \<open>A start that throws.\<close>

lemma inv_throws:
  assumes inv: "timer_inv s" and step: "timer_step (T_throws c) s = Some s'"
  shows "timer_inv s'"
proof -
  consider i f where "tw_calls s c = Some (T_starting i f)" "start_step (Launch_fails c) c i f s = Some s'"
    | i f where "tw_calls s c = Some (T_finishing i f True)"
      "s' = timer_at c None (s\<lparr>tw_interval := i, tw_mutex := None\<rparr>)"
    using step by (auto simp del: worker_event_step.simps split: option.splits timer_point.splits bool.splits)
  then show ?thesis
  proof cases
    case (2 i f)
    have "tw_mutex s = Some (In_call c)" "ww_calls (tw_worker s) c = None" "0 < i"
      using timer_parts(3,4) [OF inv, of c] timer_parts(5) [OF inv, of c i] 2(1) by simp_all
    then show ?thesis
      unfolding 2(2) by (intro inv_point [OF inv]) (auto simp: timer_parts(1) [OF inv])
  next
    case (1 i f)
    note point = 1(1) and start = 1(2)
  obtain w where w: "worker_event_step (Launch_fails c) (tw_worker s) = Some w"
    using start by (auto simp: start_step_def simp del: worker_event_step.simps split: option.splits)
  note threads = launch_fails_threads [OF w]
  have "c \<noteq> Worker t" for t using timer_parts(6) [OF inv, of t "T_starting i f" i f] point by auto
  then have "timer_inv (if ww_calls w c = None then timer_at c (Some (T_finishing i f False)) (s\<lparr>tw_worker := w\<rparr>)
      else s\<lparr>tw_worker := w\<rparr>)"
    by (intro inv_inner [OF inv _ w threads(1) point]) auto
  then show ?thesis
    using start w threads by (simp add: start_step_def Let_def del: worker_event_step.simps)
  qed
qed

lemma worker_call_body:
  assumes "timer_inv s" and "tw_calls s (Worker t) = Some p"
  shows "live (tw_worker s) t" "ww_threads (tw_worker s) ! t = W_body"
    "(\<exists>f. tw_bodies s t = B_calling f) \<or> tw_bodies s t = B_releasing"
proof -
  have "in_callback s t \<or> in_release s t" using timer_parts(6) [OF assms] by blast
  then show "live (tw_worker s) t" "ww_threads (tw_worker s) ! t = W_body"
    "(\<exists>f. tw_bodies s t = B_calling f) \<or> tw_bodies s t = B_releasing"
    by (auto simp: in_callback_def in_release_def live_def split: timer_body.splits)
qed

lemma inv_thread:
  assumes inv: "timer_inv s" and step: "timer_step (T_thread t) s = Some s'"
  shows "timer_inv s'"
proof -
  obtain w where w: "worker_event_step (Run t) (tw_worker s) = Some w" and s': "s' = s\<lparr>tw_worker := w\<rparr>"
    and body: "ww_threads (tw_worker s) ! t = W_body \<Longrightarrow> tw_bodies s t = B_done"
    using step by (auto simp del: worker_event_step.simps split: if_splits option.splits dest: worker_inv_step)
      (auto simp: run_worker_def split: if_splits)
  have t: "t < length (ww_threads (tw_worker s))" and alive: "live (tw_worker s) t" and calls: "ww_calls w = ww_calls (tw_worker s)"
    and phases: "\<exists>ph. ww_threads w = (ww_threads (tw_worker s))[t := ph]
        \<and> (ww_threads (tw_worker s) ! t, ph) \<in> {(W_new, W_body), (W_body, W_ended), (W_ended, W_finished)}"
    using w by (auto simp: run_worker_def live_def split: if_splits worker_phase.splits)
  then obtain ph where ph: "ww_threads w = (ww_threads (tw_worker s))[t := ph]"
    and moves: "(ww_threads (tw_worker s) ! t, ph) \<in> {(W_new, W_body), (W_body, W_ended), (W_ended, W_finished)}" by blast
  have live: "live w u \<longleftrightarrow> live (tw_worker s) u \<and> \<not> (u = t \<and> ph = W_finished)" for u
    using t alive moves by (auto simp: live_def ph nth_list_update)
  have only: "live (tw_worker s) u \<Longrightarrow> u = t" for u
    using timer_parts(8) [OF inv, of u] timer_parts(8) [OF inv alive] by simp
  have bodies: "tw_bodies s t = (if ww_threads (tw_worker s) ! t = W_new then B_interval else B_done)"
    using timer_bodies [OF inv, of t] body alive moves by auto
  have no_worker: "tw_calls s (Worker u) = None" for u
    using worker_call_body [OF inv, of u] only [of u] bodies by (cases "tw_calls s (Worker u)") (auto split: if_splits)
  have "in_release s' u \<longleftrightarrow> in_release s u" for u
    using ph moves bodies t by (cases "u = t") (auto simp: in_release_def s' nth_list_update split: if_splits)
  then have "timer_calls_inv s'"
    unfolding timer_calls_inv_def s' using timer_parts(3,4,5) [OF inv] release_holds [OF inv] calls by (simp add: no_worker)
  moreover have "timer_callback_inv s'"
  proof -
    have "tw_callback s = None" if "ww_threads (tw_worker s) ! t \<noteq> W_new"
      using timer_parts(10) [OF inv] only bodies that by (cases "tw_callback s") fastforce+
    moreover have "ww_threads (tw_worker s) ! t = W_new" if "tw_calls s c = Some (T_finishing i f True)" for c i f
      using timer_parts(11) [OF inv that] only bodies by (auto split: if_splits)
    ultimately show ?thesis
      using inv live only bodies moves t unfolding timer_inv_def timer_callback_inv_def s'
      by (auto simp: ph nth_list_update split: if_splits)
  qed
  ultimately show ?thesis using controller_call [OF inv w] timer_parts(2) [OF inv] by (simp add: timer_inv_def s')
qed

lemma timer_body_at_simps [simp]:
  "tw_worker (timer_body_at t b s) = tw_worker s" "tw_mutex (timer_body_at t b s) = tw_mutex s"
  "tw_interval (timer_body_at t b s) = tw_interval s" "tw_callback (timer_body_at t b s) = tw_callback s"
  "tw_calls (timer_body_at t b s) = tw_calls s" "tw_bodies (timer_body_at t b s) = (tw_bodies s)(t := b)"
  "tw_starts (timer_body_at t b s) = tw_starts s"
  by (simp_all add: timer_body_at_def)

lemma inv_body_at:
  assumes inv: "timer_inv s" and t: "live (tw_worker s) t" "ww_threads (tw_worker s) ! t = W_body"
    and blocked: "tw_bodies s t = B_interval \<Longrightarrow> tw_mutex s = None" and idle: "tw_calls s (Worker t) = None"
    and same: "tw_worker s1 = tw_worker s" "tw_interval s1 = tw_interval s"
      "tw_calls s1 = tw_calls s" "tw_bodies s1 = tw_bodies s" "tw_starts s1 = tw_starts s"
    and mutex: "\<And>h. h \<noteq> In_release t \<Longrightarrow> tw_mutex s1 = Some h \<longleftrightarrow> tw_mutex s = Some h"
      "tw_mutex s1 = Some (In_release t) \<longleftrightarrow> b = B_releasing"
    and callback: "\<And>g. tw_callback s1 = Some g \<Longrightarrow> tw_callback s = Some g"
    and ended: "b \<in> {B_releasing, B_done} \<Longrightarrow> tw_callback s1 = None"
    and calling: "\<And>f. b = B_calling f \<Longrightarrow> f = last (tw_starts s)"
  shows "timer_inv (timer_body_at t b s1)"
proof -
  have only: "live (tw_worker s) u \<Longrightarrow> u = t" for u
    using timer_parts(8) [OF inv, of u] timer_parts(8) [OF inv t(1)] by simp
  have no_worker: "tw_calls s (Worker u) = None" for u
    using worker_call_body(1) [OF inv, of u] only [of u] idle by (cases "tw_calls s (Worker u)") auto
  have no_finish: "tw_calls s c \<noteq> Some (T_finishing i f True)" for c i f
  proof
    assume point: "tw_calls s c = Some (T_finishing i f True)"
    then have "tw_bodies s t = B_interval" using timer_parts(11) [OF inv point] only by auto
    then show False using blocked timer_parts(3) [OF inv, of c] point by simp
  qed
  have "tw_mutex s1 = Some (In_release u) \<longleftrightarrow> in_release (timer_body_at t b s1) u" for u
    using mutex(1) [of "In_release u"] mutex(2) release_holds [OF inv, of u] t
    by (cases "u = t") (auto simp: in_release_def same live_def)
  then have "timer_calls_inv (timer_body_at t b s1)"
    unfolding timer_calls_inv_def using timer_parts(3,4,5) [OF inv] mutex(1) by (simp add: same no_worker)
  moreover have "timer_callback_inv (timer_body_at t b s1)"
    using inv t only no_finish calling ended callback unfolding timer_inv_def timer_callback_inv_def
    by (auto simp: same live_def)
  ultimately show ?thesis using timer_parts(1,2) [OF inv] by (simp add: timer_inv_def same)
qed

lemma inv_body:
  assumes inv: "timer_inv s" and step: "timer_step (T_body t threw) s = Some s'"
  shows "timer_inv s'"
proof -
  have phase: "t < length (ww_threads (tw_worker s))" "ww_threads (tw_worker s) ! t = W_body"
    and body: "timer_body_step t threw s = Some s'" using step by (auto split: if_splits)
  have t: "live (tw_worker s) t" using phase by (simp add: live_def)
  have idle: "tw_calls s (Worker t) = None" if "\<forall>f. tw_bodies s t \<noteq> B_calling f" "tw_bodies s t \<noteq> B_releasing"
    using worker_call_body(3) [OF inv, of t] that by (cases "tw_calls s (Worker t)") auto
  have given: "tw_callback s = Some g \<Longrightarrow> g = last (tw_starts s)" for g using timer_parts(10) [OF inv] by blast
  have held: "tw_mutex s = Some (In_release t) \<longleftrightarrow> tw_bodies s t = B_releasing"
    using release_holds [OF inv, of t] phase by (simp add: in_release_def)
  have released: "tw_callback s = None" if "tw_bodies s t = B_releasing"
  proof (rule ccontr)
    assume "tw_callback s \<noteq> None"
    then obtain g where "tw_callback s = Some g" by blast
    then obtain u where u: "live (tw_worker s) u" "tw_bodies s u \<notin> {B_releasing, B_done}"
      using timer_parts(10) [OF inv] by blast
    then have "u = t" using timer_parts(8) [OF inv u(1)] timer_parts(8) [OF inv t] by simp
    then show False using u(2) that by simp
  qed
  show ?thesis
    using body phase(2) t idle given held released
    by (cases "tw_bodies s t")
       (auto simp: timer_body_step_def split: if_splits option.splits intro!: inv_body_at [OF inv])
qed

lemma timer_inv_step:
  assumes "timer_inv s" and "timer_step e s = Some s'"
  shows "timer_inv s'"
proof (cases e)
  case (T_call c opr)
  then show ?thesis using assms by (auto split: if_splits intro: inv_enter)
next
  case (T_advance c)
  then show ?thesis using assms by (auto split: option.splits intro: inv_advance)
next
  case (T_throws c)
  then show ?thesis using assms inv_throws by blast
next
  case (T_thread t)
  then show ?thesis using assms inv_thread by blast
next
  case (T_body t threw)
  then show ?thesis using assms inv_body by blast
qed

lemma timer_reachable_inv: "timer_reachable s \<Longrightarrow> timer_inv s"
  by (induction rule: timer_reachable.induct) (auto intro: timer_inv_new timer_inv_step)

section \<open>Callbacks\<close>

text \<open>The one way to wait for ever: the destructor of something the callback captured runs with the
  mutex held by its own thread and calls an operation that locks it, which is undefined for a
  \<open>std::mutex\<close>; the model has no step there.\<close>

fun locks_mutex :: "timer_point option \<Rightarrow> bool" where
  "locks_mutex (Some (T_locking i f)) = True"
| "locks_mutex (Some (T_setting i)) = True"
| "locks_mutex (Some T_reading) = True"
| "locks_mutex p = False"

definition self_locks :: "timer_world \<Rightarrow> nat \<Rightarrow> bool" where
  "self_locks s t \<longleftrightarrow> in_release s t \<and> locks_mutex (tw_calls s (Worker t))"

lemma mutex_holder_moves:
  assumes inv: "timer_inv s" and holder: "tw_mutex s = Some (In_call d)"
  shows "timer_step (T_advance d) s \<noteq> None"
proof -
  have "holds_mutex (tw_calls s d)" using timer_parts(3) [OF inv] holder by blast
  then obtain p where p: "tw_calls s d = Some p" "holds_mutex (Some p)" by (cases "tw_calls s d") auto
  have inner: "inner_point (Some p) (ww_calls (tw_worker s) d)" using timer_parts(4) [OF inv, of d] p(1) by simp
  show ?thesis
  proof (cases p)
    case (T_checking i f)
    have "may_call (tw_worker s) d" if "\<not> wc_running (ww_controller (tw_worker s))"
    proof (cases d)
      case (Owner n)
      then show ?thesis using inner T_checking by (simp add: may_call_def)
    next
      case (Worker t)
      then have "live (tw_worker s) t" using worker_call_body(1) [OF inv] p(1) by blast
      then show ?thesis using inv_parts(6) [OF timer_parts(1) [OF inv]] that by blast
    qed
    then show ?thesis using p(1) T_checking by (auto simp: controller_isRunning_def)
  next
    case (T_starting i f)
    have "finished (tw_worker s) t" if "ww_calls (tw_worker s) d = Some (Start_joining t)" for t
      using inv_parts(4) [OF timer_parts(1) [OF inv] that] .
    then have "worker_event_step (Advance d) (tw_worker s) \<noteq> None"
      using inner T_starting by (auto split: sum.splits option.splits prod.splits bool.splits)
    then show ?thesis using p(1) T_starting by (auto simp: start_step_def Let_def simp del: worker_event_step.simps)
  qed (use p in auto)
qed

lemma release_moves:
  assumes inv: "timer_inv s" and holder: "tw_mutex s = Some (In_release t)"
  shows "if tw_calls s (Worker t) = None then timer_step (T_body t False) s \<noteq> None
    else timer_step (T_advance (Worker t)) s \<noteq> None \<or> self_locks s t"
proof (cases "tw_calls s (Worker t)")
  case None
  then show ?thesis
    using release_holds [OF inv, of t] holder by (auto simp: in_release_def timer_body_step_def)
next
  case (Some p)
  have release: "in_release s t" using release_holds [OF inv, of t] holder by simp
  have held: "\<not> holds_mutex (Some p)" using timer_parts(3) [OF inv, of "Worker t"] holder Some by simp
  have inner: "inner_point (Some p) (ww_calls (tw_worker s) (Worker t))" using timer_parts(4) [OF inv, of "Worker t"] Some by simp
  have never: "ww_calls (tw_worker s) (Worker t) \<noteq> Some (Stop_joining u)" for u
    using inv_parts(5) [OF timer_parts(1) [OF inv], of t] by auto
  have "worker_event_step (Advance (Worker t)) (tw_worker s) \<noteq> None" if "p = T_stopping \<or> (\<exists>i. p = T_moving i)"
    using inner never that by (auto split: option.splits prod.splits)
  then have "timer_advance (Worker t) p s \<noteq> None \<or> locks_mutex (Some p)"
    using held by (cases p) (auto simp: inner_step_def simp del: worker_event_step.simps split: option.splits)
  then show ?thesis using Some release by (auto simp: self_locks_def)
qed

lemma call_moves:
  assumes inv: "timer_inv s" and free: "tw_mutex s = None" and point: "tw_calls s c = Some p"
  shows "timer_step (T_advance c) s \<noteq> None
    \<or> (\<exists>t. ww_calls (tw_worker s) c = Some (Stop_joining t) \<and> live (tw_worker s) t)"
proof -
  have inner: "inner_point (Some p) (ww_calls (tw_worker s) c)" using timer_parts(4) [OF inv, of c] point by simp
  have held: "\<not> holds_mutex (Some p)" using timer_parts(3) [OF inv, of c] free point by simp
  have known: "t < length (ww_threads (tw_worker s))" if "ww_calls (tw_worker s) c = Some (Stop_joining t)" for t
    using inv_parts(2) [OF timer_parts(1) [OF inv], of "Some c" t] that by (simp add: holds_def)
  have stop: "worker_event_step (Advance c) (tw_worker s) \<noteq> None
      \<or> (\<exists>t. ww_calls (tw_worker s) c = Some (Stop_joining t) \<and> live (tw_worker s) t)"
    if "inner_point (Some T_stopping) (ww_calls (tw_worker s) c)"
    using that known by (auto simp: finished_not_live split: option.splits prod.splits)
  show ?thesis
    using inner held free point stop
    by (cases p) (auto simp: inner_step_def simp del: worker_event_step.simps split: option.splits)
qed

lemma body_moves:
  assumes inv: "timer_inv s" and free: "tw_mutex s = None" and alive: "live (tw_worker s) t"
    and idle: "tw_calls s (Worker t) = None"
  shows "timer_step (T_thread t) s \<noteq> None \<or> (\<exists>threw. timer_step (T_body t threw) s \<noteq> None)"
proof -
  have t: "t < length (ww_threads (tw_worker s))" using alive by (simp add: live_def)
  have none: "ww_calls (tw_worker s) (Worker t) = None" using timer_parts(4) [OF inv, of "Worker t"] idle by simp
  show ?thesis
  proof (cases "ww_threads (tw_worker s) ! t = W_body \<and> tw_bodies s t \<noteq> B_done")
    case True
    then show ?thesis
      using t free idle release_holds [OF inv, of t]
      by (cases "tw_bodies s t") (auto simp: timer_body_step_def in_release_def split: option.splits)
  next
    case False
    then have "timer_step (T_thread t) s \<noteq> None"
      using t none alive by (auto simp: run_worker_def live_def split: worker_phase.splits)
    then show ?thesis by simp
  qed
qed

text \<open>
  C34. The timer's callbacks and locks.  Whoever starts, stops, moves, reads and configures the timer in
  whichever interleaving, callbacks and the destructors of their captures included, and whichever
  starts throw for want of a thread or of memory: at most one callback runs at a time, it is the one given to the
  latest start, and its captures are released once the worker has ended; the interval is positive.
  Whoever holds the timer's mutex can go on, with a single exception: a destructor of the callback's
  captures, which the worker runs with the mutex held, that calls an operation which locks it.  When
  the mutex is free every call can go on or joins a worker that has not ended; and such a worker can go
  on unless its callback is in a call of its own.
\<close>

theorem timer_callbacks_safe:
  assumes "timer_reachable s"
  shows "(\<forall>t f. in_callback s t \<and> tw_bodies s t = B_calling f \<longrightarrow> Suc t = length (tw_starts s) \<and> f = last (tw_starts s))
    \<and> (\<forall>t u. in_callback s t \<and> in_callback s u \<longrightarrow> t = u)
    \<and> ((\<forall>t. \<not> live (tw_worker s) t) \<longrightarrow> tw_callback s = None) \<and> 0 < tw_interval s
    \<and> (\<forall>d. tw_mutex s = Some (In_call d) \<longrightarrow> timer_step (T_advance d) s \<noteq> None)
    \<and> (\<forall>t. tw_mutex s = Some (In_release t) \<longrightarrow>
          (if tw_calls s (Worker t) = None then timer_step (T_body t False) s \<noteq> None
           else timer_step (T_advance (Worker t)) s \<noteq> None \<or> self_locks s t))
    \<and> (\<forall>c. tw_mutex s = None \<and> tw_calls s c \<noteq> None \<longrightarrow> timer_step (T_advance c) s \<noteq> None
          \<or> (\<exists>t. ww_calls (tw_worker s) c = Some (Stop_joining t) \<and> live (tw_worker s) t))
    \<and> (\<forall>t. tw_mutex s = None \<and> live (tw_worker s) t \<and> tw_calls s (Worker t) = None \<longrightarrow>
          timer_step (T_thread t) s \<noteq> None \<or> (\<exists>threw. timer_step (T_body t threw) s \<noteq> None))"
proof -
  have inv: "timer_inv s" using assms by (rule timer_reachable_inv)
  have alive: "in_callback s t \<Longrightarrow> live (tw_worker s) t" for t by (auto simp: in_callback_def live_def)
  have "Suc t = length (tw_starts s) \<and> f = last (tw_starts s)" if "in_callback s t \<and> tw_bodies s t = B_calling f" for t f
    using timer_parts(8,9) [OF inv] alive that by blast
  moreover have "t = u" if "in_callback s t \<and> in_callback s u" for t u
    using timer_parts(8) [OF inv, of t] timer_parts(8) [OF inv, of u] alive that by simp
  moreover have "tw_callback s = None" if "\<forall>t. \<not> live (tw_worker s) t"
    using timer_parts(10) [OF inv] that by (cases "tw_callback s") auto
  moreover have "timer_step (T_advance c) s \<noteq> None
      \<or> (\<exists>t. ww_calls (tw_worker s) c = Some (Stop_joining t) \<and> live (tw_worker s) t)"
    if "tw_mutex s = None \<and> tw_calls s c \<noteq> None" for c
    using call_moves [OF inv, of c] that by blast
  moreover note release = release_moves [OF inv]
  ultimately show ?thesis
    using mutex_holder_moves [OF inv] body_moves [OF inv] timer_parts(2) [OF inv]
    by (intro conjI allI impI release) blast+
qed

section \<open>Stopping\<close>

fun timer_beside :: "nat \<Rightarrow> timer_event \<Rightarrow> bool" where
  "timer_beside n (T_call c opr) \<longleftrightarrow> (\<exists>t. c = Worker t)"
| "timer_beside n (T_advance c) \<longleftrightarrow> c = Owner n \<or> (\<exists>t. c = Worker t)"
| "timer_beside n (T_throws c) \<longleftrightarrow> c = Owner n \<or> (\<exists>t. c = Worker t)"
| "timer_beside n e \<longleftrightarrow> True"

fun is_timer_call :: "timer_event \<Rightarrow> bool" where
  "is_timer_call (T_call c opr) = True"
| "is_timer_call e = False"

definition timer_stopping :: "nat \<Rightarrow> timer_world \<Rightarrow> bool" where
  "timer_stopping n s \<longleftrightarrow> timer_inv s \<and> stopping_by n (tw_worker s) \<and> (\<forall>m. m \<noteq> n \<longrightarrow> tw_calls s (Owner m) = None)
     \<and> tw_calls s (Owner n) \<in> {None, Some T_stopping}"

lemma no_throw_beside:
  assumes stop: "timer_stopping n s" and beside: "timer_beside n (T_throws c)"
  shows "timer_step (T_throws c) s = None"
proof -
  have inv: "timer_inv s" using stop by (simp add: timer_stopping_def)
  have "tw_calls s c \<noteq> Some (T_starting i f) \<and> tw_calls s c \<noteq> Some (T_finishing i f b)" for i f b
  proof (cases c)
    case (Owner m)
    then show ?thesis using stop beside by (auto simp: timer_stopping_def)
  next
    case (Worker t)
    then show ?thesis using timer_parts(6) [OF inv, of t "T_starting i f" i f] timer_parts(6) [OF inv, of t "T_finishing i f b" i f b] by auto
  qed
  then show ?thesis by (auto split: option.splits timer_point.splits bool.splits)
qed

text \<open>Beside a stop the controller makes no step, or one that is beside the controller's own stop.\<close>

lemma beside_projection:
  assumes stop: "timer_stopping n s" and beside: "timer_beside n e" and step: "timer_step e s = Some s'"
  shows "tw_worker s' = tw_worker s
    \<or> (\<exists>e'. beside_stop n e' \<and> worker_event_step e' (tw_worker s) = Some (tw_worker s'))"
proof -
  have inv: "timer_inv s" using stop by (simp add: timer_stopping_def)
  show ?thesis
  proof (cases e)
    case (T_call c opr)
    then obtain t where "c = Worker t" using beside by auto
    moreover have "timer_enter c opr s = Some s'" using step T_call by (auto split: if_splits)
    ultimately show ?thesis
      by (cases opr) (auto simp: begin_stop_def simp del: worker_event_step.simps split: if_splits option.splits
        intro!: exI [of _ "Call (Worker t) Op_stop"])
  next
    case (T_advance c)
    then obtain p where p: "tw_calls s c = Some p" "timer_advance c p s = Some s'"
      using step by (auto split: option.splits)
    have inner: "tw_worker s' = tw_worker s \<or> worker_event_step (Advance c) (tw_worker s) = Some (tw_worker s')"
    proof (cases p)
      case (T_checking i f)
      then obtain t where t: "c = Worker t" using p(1) T_advance beside stop by (auto simp: timer_stopping_def)
      then have "live (tw_worker s) t" using worker_call_body(1) [OF inv] p(1) by blast
      then have "wc_running (ww_controller (tw_worker s))" using inv_parts(6) [OF timer_parts(1) [OF inv]] by blast
      then show ?thesis using p(2) T_checking by (auto simp: controller_isRunning_def)
    qed (use p(2) in \<open>auto simp: start_step_def inner_step_def Let_def simp del: worker_event_step.simps
      split: if_splits option.splits\<close>)
    moreover have "beside_stop n (Advance c)" using beside T_advance by simp
    ultimately show ?thesis by blast
  next
    case (T_throws c)
    then show ?thesis using no_throw_beside [OF stop] beside step by simp
  next
    case (T_thread t)
    then have "worker_event_step (Run t) (tw_worker s) = Some (tw_worker s')"
      using step by (auto simp del: worker_event_step.simps split: if_splits option.splits)
    then show ?thesis by (intro disjI2 exI [of _ "Run t"]) simp
  next
    case (T_body t threw)
    then show ?thesis
      using step by (auto simp: timer_body_step_def split: if_splits timer_body.splits)
  qed
qed

lemma timer_others:
  assumes "timer_step e s = Some s'" and "\<forall>opr. e \<noteq> T_call c opr" and "e \<noteq> T_advance c" and "e \<noteq> T_throws c"
  shows "tw_calls s' c = tw_calls s c"
proof (cases e)
  case (T_call d opr)
  then have "d \<noteq> c" "timer_enter d opr s = Some s'" using assms by (auto split: if_splits)
  then show ?thesis
    by (cases opr) (auto simp: begin_stop_def simp del: worker_event_step.simps split: if_splits option.splits)
next
  case (T_advance d)
  then obtain p where "d \<noteq> c" and p: "timer_advance d p s = Some s'" using assms by (auto split: option.splits)
  then show ?thesis
    by (cases p) (auto simp: inner_step_def start_step_def Let_def simp del: worker_event_step.simps
      split: if_splits option.splits)
next
  case (T_throws d)
  then have "tw_calls s' = tw_calls s \<or> (\<exists>q. tw_calls s' = (tw_calls s)(d := q))"
    using assms(1)
    by (auto simp: start_step_def Let_def simp del: worker_event_step.simps
        split: option.splits if_splits timer_point.splits bool.splits)
  then show ?thesis using assms(4) T_throws by auto
next
  case (T_thread t)
  then show ?thesis using assms(1) by (auto simp del: worker_event_step.simps split: if_splits option.splits)
next
  case (T_body t threw)
  then show ?thesis using assms(1) by (auto simp: timer_body_step_def split: if_splits timer_body.splits)
qed

lemma timer_stopping_parts:
  assumes "timer_stopping n s"
  shows "timer_inv s" "stopping_by n (tw_worker s)" "m \<noteq> n \<Longrightarrow> tw_calls s (Owner m) = None"
    "tw_calls s (Owner n) = None \<or> tw_calls s (Owner n) = Some T_stopping"
    "tw_calls s (Owner n) = None \<longleftrightarrow> ww_calls (tw_worker s) (Owner n) = None"
proof -
  show inv: "timer_inv s" and "stopping_by n (tw_worker s)" and "m \<noteq> n \<Longrightarrow> tw_calls s (Owner m) = None"
    and owner: "tw_calls s (Owner n) = None \<or> tw_calls s (Owner n) = Some T_stopping"
    using assms by (auto simp: timer_stopping_def)
  show "tw_calls s (Owner n) = None \<longleftrightarrow> ww_calls (tw_worker s) (Owner n) = None"
    using timer_parts(4) [OF inv, of "Owner n"] owner by auto
qed

text \<open>Once the stop has returned nothing that may happen beside it can happen.\<close>

lemma timer_stopped_quiet:
  assumes stop: "timer_stopping n s" and over: "tw_calls s (Owner n) = None" and beside: "timer_beside n e"
  shows "timer_step e s = None"
proof -
  note parts = timer_stopping_parts [OF stop]
  have idle: "ww_calls (tw_worker s) (Owner n) = None" using parts(5) over by simp
  then have dead: "\<not> live (tw_worker s) t" for t using parts(2) by (simp add: stopping_by_def)
  have no_worker: "tw_calls s (Worker t) = None" for t
    using worker_call_body(1) [OF parts(1), of t] dead [of t] by (cases "tw_calls s (Worker t)") auto
  show ?thesis
  proof (cases e)
    case (T_call c opr)
    then obtain t where "c = Worker t" using beside by auto
    then show ?thesis using dead [of t] T_call
      by (auto simp: timer_may_call_def in_callback_def in_release_def live_def)
  next
    case (T_advance c)
    then show ?thesis using beside no_worker over by auto
  next
    case (T_throws c)
    then show ?thesis using no_throw_beside [OF stop] beside by simp
  next
    case (T_thread t)
    have "worker_event_step (Run t) (tw_worker s) = None" using stopped_quiet [OF parts(2) idle, of "Run t"]
      by (simp del: worker_event_step.simps)
    then show ?thesis using T_thread by (simp del: worker_event_step.simps)
  next
    case (T_body t threw)
    then show ?thesis using dead [of t] by (auto simp: live_def)
  qed
qed

lemma timer_stopping_step:
  assumes stop: "timer_stopping n s" and beside: "timer_beside n e" and step: "timer_step e s = Some s'"
  shows "timer_stopping n s'"
proof -
  note parts = timer_stopping_parts [OF stop]
  have point: "tw_calls s (Owner n) = Some T_stopping"
    using parts(4) timer_stopped_quiet [OF stop _ beside] step by auto
  then have busy: "ww_calls (tw_worker s) (Owner n) \<noteq> None" using parts(5) by simp
  have launch: "e \<noteq> T_throws c" for c using no_throw_beside [OF stop, of c] beside step by auto
  have "stopping_by n (tw_worker s')"
    using beside_projection [OF stop beside step] stopping_step [OF parts(2) busy] parts(2) by auto
  moreover have "timer_inv s'" using timer_inv_step [OF parts(1) step] .
  moreover have "tw_calls s' (Owner m) = None" if "m \<noteq> n" for m
  proof -
    have "e \<noteq> T_advance (Owner m)" "\<forall>opr. e \<noteq> T_call (Owner m) opr" using beside that by auto
    then show ?thesis using timer_others [OF step, of "Owner m"] launch parts(3) [OF that] by simp
  qed
  moreover have "tw_calls s' (Owner n) \<in> {None, Some T_stopping}"
  proof (cases "e = T_advance (Owner n)")
    case True
    then have "inner_step (Owner n) None s = Some s'" using step point by simp
    then show ?thesis using point by (auto simp: inner_step_def simp del: worker_event_step.simps split: option.splits if_splits)
  next
    case False
    moreover have "\<forall>opr. e \<noteq> T_call (Owner n) opr" using beside by auto
    ultimately show ?thesis using timer_others [OF step, of "Owner n"] launch point by simp
  qed
  ultimately show ?thesis by (simp add: timer_stopping_def)
qed

text \<open>While the stop has not returned something other than a new call is possible.\<close>

lemma timer_stopping_progress:
  assumes stop: "timer_stopping n s" and busy: "tw_calls s (Owner n) \<noteq> None"
  shows "(\<exists>e u. timer_beside n e \<and> \<not> is_timer_call e \<and> timer_step e s = Some u) \<or> (\<exists>t. self_locks s t)"
proof -
  note parts = timer_stopping_parts [OF stop]
  have point: "tw_calls s (Owner n) = Some T_stopping" using parts(4) busy by simp
  have possible: "?thesis" if "timer_step e s \<noteq> None" "timer_beside n e" "\<not> is_timer_call e" for e
    using that by blast
  show ?thesis
  proof (cases "tw_mutex s")
    case (Some h)
    show ?thesis
    proof (cases h)
      case (In_call d)
      then have holder: "tw_mutex s = Some (In_call d)" using Some by simp
      then have "holds_mutex (tw_calls s d)" using timer_parts(3) [OF parts(1)] by blast
      moreover have "\<not> holds_mutex (tw_calls s (Owner m))" for m using parts(3) [of m] point by (cases "m = n") auto
      ultimately obtain t where "d = Worker t" by (cases d) auto
      then show ?thesis using possible [of "T_advance d"] mutex_holder_moves [OF parts(1) holder] by simp
    next
      case (In_release t)
      then have "tw_mutex s = Some (In_release t)" using Some by simp
      from release_moves [OF parts(1) this] show ?thesis
        using possible [of "T_body t False"] possible [of "T_advance (Worker t)"]
        by (cases "tw_calls s (Worker t)") (auto simp del: timer_step.simps)
    qed
  next
    case None
    consider "timer_step (T_advance (Owner n)) s \<noteq> None"
      | t where "ww_calls (tw_worker s) (Owner n) = Some (Stop_joining t)" "live (tw_worker s) t"
      using call_moves [OF parts(1) None point] by blast
    then show ?thesis
    proof cases
      case 1
      then show ?thesis using possible [of "T_advance (Owner n)"] by simp
    next
      case (2 t)
      show ?thesis
      proof (cases "tw_calls s (Worker t)")
        case idle: None
        then show ?thesis using body_moves [OF parts(1) None 2(2) idle] possible [of "T_thread t"] possible [of "T_body t threw" for threw]
          by (metis timer_beside.simps(4,5) is_timer_call.simps(4,5))
      next
        case (Some p)
        have "ww_calls (tw_worker s) (Worker t) \<noteq> Some (Stop_joining u)" for u
          using inv_parts(5) [OF timer_parts(1) [OF parts(1)], of t] by auto
        then have "timer_step (T_advance (Worker t)) s \<noteq> None" using call_moves [OF parts(1) None Some] by blast
        then show ?thesis using possible [of "T_advance (Worker t)"] by simp
      qed
    qed
  qed
qed

section \<open>Ranks\<close>

text \<open>How far the owner's stop, the worker's body and the worker's own call still have to go once the
  stop has been requested.\<close>

fun body_rank :: "timer_body \<Rightarrow> nat" where
  "body_rank B_callback = 8"
| "body_rank (B_calling f) = 7"
| "body_rank B_interval = 6"
| "body_rank B_waiting = 5"
| "body_rank B_release = 4"
| "body_rank B_releasing = 3"
| "body_rank B_done = 2"

fun timer_phase_rank :: "worker_phase \<Rightarrow> timer_body \<Rightarrow> nat" where
  "timer_phase_rank W_new b = 7"
| "timer_phase_rank W_body b = body_rank b"
| "timer_phase_rank W_ended b = 1"
| "timer_phase_rank W_finished b = 0"

fun timer_call_rank :: "timer_point option \<Rightarrow> call_point option \<Rightarrow> nat" where
  "timer_call_rank (Some (T_locking i f)) q = 2"
| "timer_call_rank (Some (T_checking i f)) q = 1"
| "timer_call_rank (Some T_stopping) q = call_rank q"
| "timer_call_rank (Some (T_moving i)) q = Suc (call_rank q)"
| "timer_call_rank (Some (T_setting i)) q = 1"
| "timer_call_rank (Some T_reading) q = 1"
| "timer_call_rank p q = 0"

definition timer_thread_rank :: "timer_world \<Rightarrow> nat \<Rightarrow> nat" where
  "timer_thread_rank s t = timer_phase_rank (ww_threads (tw_worker s) ! t) (tw_bodies s t)
     + timer_call_rank (tw_calls s (Worker t)) (ww_calls (tw_worker s) (Worker t))"

definition timer_rank :: "nat \<Rightarrow> timer_world \<Rightarrow> nat" where
  "timer_rank n s = stop_call_rank (ww_calls (tw_worker s) (Owner n))
     + (\<Sum>t<length (ww_threads (tw_worker s)). timer_thread_rank s t)"

definition stop_requested_by :: "nat \<Rightarrow> timer_world \<Rightarrow> bool" where
  "stop_requested_by n s \<longleftrightarrow> timer_stopping n s \<and> ww_calls (tw_worker s) (Owner n) \<noteq> Some Stop_request"

lemma timer_rank_change:
  assumes "t < length (ww_threads (tw_worker s))"
    and "length (ww_threads (tw_worker s')) = length (ww_threads (tw_worker s))"
    and "ww_calls (tw_worker s') (Owner n) = ww_calls (tw_worker s) (Owner n)"
    and "\<And>u. u \<noteq> t \<Longrightarrow> timer_thread_rank s' u = timer_thread_rank s u"
  shows "timer_rank n s' + timer_thread_rank s t = timer_rank n s + timer_thread_rank s' t"
  using sum_change [OF assms(1), of "timer_thread_rank s'" "timer_thread_rank s"] assms by (simp add: timer_rank_def)

lemma timer_call_rank_bound: "timer_call_rank p q \<le> 3"
  using call_rank_bound [of q] by (cases "(p, q)" rule: timer_call_rank.cases) auto

text \<open>A worker's own call: a step of the controller within it comes closer to its end.\<close>

lemma worker_inner_rank:
  assumes "controller_inv w" and "worker_event_step (Advance (Worker t)) w = Some w'"
  shows "ww_threads w' = ww_threads w" "call_rank (ww_calls w' (Worker t)) < call_rank (ww_calls w (Worker t))"
    "\<And>c. c \<noteq> Worker t \<Longrightarrow> ww_calls w' c = ww_calls w c"
proof -
  obtain q where q: "ww_calls w (Worker t) = Some q" "advance (Worker t) q w = Some w'"
    using assms(2) by (rule advance_event)
  have alive: "live w t" and p: "q \<in> {Start_first, Request_stop, Stop_request, Stop_take}"
    using inv_parts(5) [OF assms(1) q(1)] by (auto simp: live_def)
  have running: "wc_running (ww_controller w)" "wc_worker_id (ww_controller w) = Some t"
    using inv_parts(6) [OF assms(1) alive] by auto
  show "ww_threads w' = ww_threads w" "call_rank (ww_calls w' (Worker t)) < call_rank (ww_calls w (Worker t))"
    using q p running by (auto simp: start_first_def stop_take_def)
  show "\<And>c. c \<noteq> Worker t \<Longrightarrow> ww_calls w' c = ww_calls w c" using advance_others [OF q(2)] .
qed

lemma timer_worker_advance:
  assumes inv: "timer_inv s" and point: "tw_calls s (Worker t) = Some p" and step: "timer_advance (Worker t) p s = Some s'"
  shows "ww_threads (tw_worker s') = ww_threads (tw_worker s)" "tw_bodies s' = tw_bodies s"
    "\<And>c. c \<noteq> Worker t \<Longrightarrow> ww_calls (tw_worker s') c = ww_calls (tw_worker s) c"
    "timer_call_rank (tw_calls s' (Worker t)) (ww_calls (tw_worker s') (Worker t))
       < timer_call_rank (tw_calls s (Worker t)) (ww_calls (tw_worker s) (Worker t))"
proof -
  have alive: "live (tw_worker s) t" using worker_call_body(1) [OF inv point] .
  then have running: "wc_running (ww_controller (tw_worker s))"
    using inv_parts(6) [OF timer_parts(1) [OF inv] alive] by simp
  have inner: "ww_threads (tw_worker s') = ww_threads (tw_worker s) \<and> tw_bodies s' = tw_bodies s
      \<and> (\<forall>c. c \<noteq> Worker t \<longrightarrow> ww_calls (tw_worker s') c = ww_calls (tw_worker s) c)
      \<and> call_rank (ww_calls (tw_worker s') (Worker t)) < call_rank (ww_calls (tw_worker s) (Worker t))
      \<and> tw_calls s' (Worker t) = (if ww_calls (tw_worker s') (Worker t) = None then r else Some p)"
    if inner: "inner_step (Worker t) r s = Some s'" for r
  proof -
    obtain w where w: "worker_event_step (Advance (Worker t)) (tw_worker s) = Some w"
      and s': "s' = (if ww_calls w (Worker t) = None then timer_at (Worker t) r (s\<lparr>tw_worker := w\<rparr>) else s\<lparr>tw_worker := w\<rparr>)"
      using inner by (auto simp: inner_step_def simp del: worker_event_step.simps split: option.splits)
    then show ?thesis using worker_inner_rank [OF timer_parts(1) [OF inv] w] point by simp
  qed
  have "ww_threads (tw_worker s') = ww_threads (tw_worker s) \<and> tw_bodies s' = tw_bodies s
      \<and> (\<forall>c. c \<noteq> Worker t \<longrightarrow> ww_calls (tw_worker s') c = ww_calls (tw_worker s) c)
      \<and> timer_call_rank (tw_calls s' (Worker t)) (ww_calls (tw_worker s') (Worker t))
          < timer_call_rank (tw_calls s (Worker t)) (ww_calls (tw_worker s) (Worker t))"
  proof (cases p)
    case T_stopping
    then have "inner_step (Worker t) None s = Some s'" using step by simp
    from inner [OF this] show ?thesis using T_stopping point by simp
  next
    case (T_moving i)
    then have "inner_step (Worker t) (Some (T_setting i)) s = Some s'" using step by simp
    from inner [OF this] show ?thesis using T_moving point by simp
  next
    case (T_starting i f)
    then show ?thesis using timer_parts(6) [OF inv point] by blast
  next
    case (T_finishing i f b)
    then show ?thesis using timer_parts(6) [OF inv point] by blast
  qed (use step running point in \<open>auto simp: controller_isRunning_def split: if_splits\<close>)
  then show "ww_threads (tw_worker s') = ww_threads (tw_worker s)" "tw_bodies s' = tw_bodies s"
    "\<And>c. c \<noteq> Worker t \<Longrightarrow> ww_calls (tw_worker s') c = ww_calls (tw_worker s) c"
    "timer_call_rank (tw_calls s' (Worker t)) (ww_calls (tw_worker s') (Worker t))
       < timer_call_rank (tw_calls s (Worker t)) (ww_calls (tw_worker s) (Worker t))"
    by blast+
qed

lemma timer_advance_rank:
  assumes inv: "timer_inv s" and point: "tw_calls s (Worker t) = Some p" and step: "timer_step (T_advance (Worker t)) s = Some s'"
  shows "timer_rank n s' < timer_rank n s"
proof -
  have adv: "timer_advance (Worker t) p s = Some s'" using step point by simp
  note worker = timer_worker_advance [OF inv point adv]
  have t: "t < length (ww_threads (tw_worker s))" using worker_call_body(1) [OF inv point] by (simp add: live_def)
  have calls: "tw_calls s' c = tw_calls s c" if "c \<noteq> Worker t" for c using timer_others [OF step, of c] that by simp
  have "timer_thread_rank s' t < timer_thread_rank s t" using worker(4) by (simp add: timer_thread_rank_def worker(1,2))
  moreover have "timer_rank n s' + timer_thread_rank s t = timer_rank n s + timer_thread_rank s' t"
    by (rule timer_rank_change) (simp_all add: t worker(1,2,3) calls timer_thread_rank_def)
  ultimately show ?thesis by linarith
qed

lemma timer_body_rank:
  assumes stop: "stop_requested_by n s" and busy: "tw_calls s (Owner n) \<noteq> None"
    and step: "timer_step (T_body t threw) s = Some s'"
  shows "timer_rank n s' < timer_rank n s"
proof -
  note parts = timer_stopping_parts [of n s]
  have point: "ww_calls (tw_worker s) (Owner n) \<noteq> None" "ww_calls (tw_worker s) (Owner n) \<noteq> Some Stop_request"
    and stops: "stopping_by n (tw_worker s)"
    using stop busy parts by (auto simp: stop_requested_by_def)
  then have requested: "wc_stop_requested (ww_controller (tw_worker s))" by (auto simp: stopping_by_def)
  have t: "t < length (ww_threads (tw_worker s))" "ww_threads (tw_worker s) ! t = W_body"
    and body: "timer_body_step t threw s = Some s'" using step by (auto split: if_splits)
  have same: "tw_worker s' = tw_worker s" "tw_calls s' = tw_calls s"
    and bodies: "u \<noteq> t \<Longrightarrow> tw_bodies s' u = tw_bodies s u" for u
    using body by (auto simp: timer_body_step_def split: timer_body.splits if_splits)
  have "body_rank (tw_bodies s' t) < body_rank (tw_bodies s t)"
    using body requested
    by (auto simp: timer_body_step_def controller_isStopRequested_def split: timer_body.splits if_splits option.splits)
  then have "timer_thread_rank s' t < timer_thread_rank s t" by (simp add: timer_thread_rank_def same t)
  moreover have "timer_rank n s' + timer_thread_rank s t = timer_rank n s + timer_thread_rank s' t"
    by (rule timer_rank_change) (simp_all add: t same bodies timer_thread_rank_def)
  ultimately show ?thesis by linarith
qed

lemma timer_thread_step_rank:
  assumes inv: "timer_inv s" and step: "timer_step (T_thread t) s = Some s'"
  shows "timer_rank n s' < timer_rank n s"
proof -
  obtain w where w: "worker_event_step (Run t) (tw_worker s) = Some w" and s': "s' = s\<lparr>tw_worker := w\<rparr>"
    and body: "t < length (ww_threads (tw_worker s)) \<Longrightarrow> ww_threads (tw_worker s) ! t = W_body \<Longrightarrow> tw_bodies s t = B_done"
    using step by (auto simp del: worker_event_step.simps split: if_splits option.splits)
  have t: "t < length (ww_threads (tw_worker s))" using w by (auto simp: run_worker_def split: if_splits)
  obtain ph where ph: "ww_threads w = (ww_threads (tw_worker s))[t := ph]"
    and moves: "(ww_threads (tw_worker s) ! t, ph) \<in> {(W_new, W_body), (W_body, W_ended), (W_ended, W_finished)}"
    and calls: "ww_calls w = ww_calls (tw_worker s)"
    using w t by (auto simp: run_worker_def split: worker_phase.splits if_splits)
  have "tw_bodies s t = B_interval" if "ww_threads (tw_worker s) ! t = W_new" using timer_bodies(1) [OF inv] that by blast
  then have "timer_thread_rank s' t < timer_thread_rank s t"
    using moves body t by (auto simp: timer_thread_rank_def s' ph calls)
  moreover have "timer_rank n s' + timer_thread_rank s t = timer_rank n s + timer_thread_rank s' t"
    by (rule timer_rank_change) (simp_all add: t s' ph calls timer_thread_rank_def)
  ultimately show ?thesis by linarith
qed

lemma timer_call_effect:
  assumes may: "timer_may_call s (Worker t)" and enter: "timer_enter (Worker t) opr s = Some s'"
  shows "ww_threads (tw_worker s') = ww_threads (tw_worker s)" "tw_bodies s' = tw_bodies s"
    "\<And>c. c \<noteq> Worker t \<Longrightarrow> ww_calls (tw_worker s') c = ww_calls (tw_worker s) c"
    "\<And>c. c \<noteq> Worker t \<Longrightarrow> tw_calls s' c = tw_calls s c"
proof -
  have "ww_threads (tw_worker s') = ww_threads (tw_worker s) \<and> tw_bodies s' = tw_bodies s
      \<and> (\<forall>c. c \<noteq> Worker t \<longrightarrow> ww_calls (tw_worker s') c = ww_calls (tw_worker s) c \<and> tw_calls s' c = tw_calls s c)"
    using enter by (cases opr) (auto simp: begin_stop_def split: if_splits option.splits)
  then show "ww_threads (tw_worker s') = ww_threads (tw_worker s)" "tw_bodies s' = tw_bodies s"
    "\<And>c. c \<noteq> Worker t \<Longrightarrow> ww_calls (tw_worker s') c = ww_calls (tw_worker s) c"
    "\<And>c. c \<noteq> Worker t \<Longrightarrow> tw_calls s' c = tw_calls s c"
    by blast+
qed

lemma timer_call_rank_step:
  assumes may: "timer_may_call s (Worker t)" and enter: "timer_enter (Worker t) opr s = Some s'"
  shows "timer_rank n s' \<le> timer_rank n s + 3"
proof -
  note effect = timer_call_effect [OF assms]
  have t: "t < length (ww_threads (tw_worker s))" and none: "tw_calls s (Worker t) = None"
    using may by (auto simp: timer_may_call_def in_callback_def in_release_def)
  have "timer_thread_rank s' t \<le> timer_thread_rank s t + 3"
    using timer_call_rank_bound by (simp add: timer_thread_rank_def effect none)
  moreover have "timer_rank n s' + timer_thread_rank s t = timer_rank n s + timer_thread_rank s' t"
    by (rule timer_rank_change) (simp_all add: t effect timer_thread_rank_def)
  ultimately show ?thesis by linarith
qed

text \<open>The owner's stop goes on only by its own steps.\<close>

lemma owner_untouched:
  assumes stop: "timer_stopping n s" and beside: "timer_beside n e" "e \<noteq> T_advance (Owner n)" and step: "timer_step e s = Some s'"
  shows "ww_calls (tw_worker s') (Owner n) = ww_calls (tw_worker s) (Owner n)"
proof -
  have inv: "timer_inv s" using stop by (simp add: timer_stopping_def)
  show ?thesis
proof (cases e)
  case (T_call c opr)
  then obtain t where c: "c = Worker t" using beside by auto
  then have "timer_may_call s (Worker t)" "timer_enter (Worker t) opr s = Some s'" using T_call step by (auto split: if_splits)
  from timer_call_effect(3) [OF this, of "Owner n"] show ?thesis by simp
next
  case (T_advance c)
  then obtain t where c: "c = Worker t" using beside by auto
  then obtain p where "tw_calls s (Worker t) = Some p" "timer_advance (Worker t) p s = Some s'"
    using T_advance step by (auto split: option.splits)
  from timer_worker_advance(3) [OF inv this, of "Owner n"] show ?thesis by simp
next
  case (T_throws c)
  then show ?thesis using no_throw_beside [OF stop] beside step by simp
next
  case (T_thread t)
  then show ?thesis
    using step by (auto simp: run_worker_def split: if_splits option.splits worker_phase.splits)
next
  case (T_body t threw)
  then show ?thesis using step by (auto simp: timer_body_step_def split: if_splits timer_body.splits)
qed
qed

lemma requested_step:
  assumes stop: "stop_requested_by n s" and beside: "timer_beside n e" and step: "timer_step e s = Some s'"
  shows "stop_requested_by n s'"
    "if is_timer_call e then timer_rank n s' \<le> timer_rank n s + 3 else timer_rank n s' < timer_rank n s"
proof -
  have stopping: "timer_stopping n s" using stop by (simp add: stop_requested_by_def)
  note parts = timer_stopping_parts [OF stopping]
  have point: "tw_calls s (Owner n) = Some T_stopping"
    using parts(4) timer_stopped_quiet [OF stopping _ beside] step by auto
  have owner: "ww_calls (tw_worker s') (Owner n) \<noteq> Some Stop_request
      \<and> (e = T_advance (Owner n) \<longrightarrow> ww_threads (tw_worker s') = ww_threads (tw_worker s)
          \<and> (\<forall>c. c \<noteq> Owner n \<longrightarrow> ww_calls (tw_worker s') c = ww_calls (tw_worker s) c)
          \<and> stop_call_rank (ww_calls (tw_worker s') (Owner n)) < stop_call_rank (ww_calls (tw_worker s) (Owner n))
          \<and> tw_bodies s' = tw_bodies s)"
  proof (cases "e = T_advance (Owner n)")
    case True
    then have "inner_step (Owner n) None s = Some s'" using step point by simp
    then obtain w where w: "worker_event_step (Advance (Owner n)) (tw_worker s) = Some w"
      and s': "tw_worker s' = w" "tw_bodies s' = tw_bodies s"
      by (auto simp: inner_step_def simp del: worker_event_step.simps split: option.splits if_splits)
    obtain q where q: "ww_calls (tw_worker s) (Owner n) = Some q" "advance (Owner n) q (tw_worker s) = Some w"
      using w by (rule advance_event)
    have "q = Stop_take \<or> (\<exists>t. q = Stop_joining t)"
      using parts(2) q(1) stop by (auto simp: stop_requested_by_def stopping_by_def)
    then have "ww_threads w = ww_threads (tw_worker s) \<and> ww_calls w (Owner n) \<noteq> Some Stop_request
        \<and> stop_call_rank (ww_calls w (Owner n)) < stop_call_rank (Some q)"
      using q(2) by (auto simp: stop_take_def split: if_splits option.splits)
    then show ?thesis using q(1) s' advance_others [OF q(2)] by simp
  next
    case False
    have "ww_calls (tw_worker s') (Owner n) = ww_calls (tw_worker s) (Owner n)"
      using owner_untouched [OF stopping beside False step] .
    then show ?thesis using False stop by (simp add: stop_requested_by_def)
  qed
  show "stop_requested_by n s'"
    using owner timer_stopping_step [OF stopping beside step] by (simp add: stop_requested_by_def)
  show "if is_timer_call e then timer_rank n s' \<le> timer_rank n s + 3 else timer_rank n s' < timer_rank n s"
  proof (cases e)
    case (T_call c opr)
    then obtain t where "c = Worker t" using beside by auto
    then show ?thesis using timer_call_rank_step [of s t opr s' n] T_call step by (auto split: if_splits)
  next
    case (T_advance c)
    show ?thesis
    proof (cases c)
      case (Owner m)
      then have e: "e = T_advance (Owner n)" using T_advance beside by simp
      then have "tw_calls s' (Worker t) = tw_calls s (Worker t)" for t using timer_others [OF step, of "Worker t"] by simp
      then have "timer_thread_rank s' t = timer_thread_rank s t" for t
        using owner e by (simp add: timer_thread_rank_def)
      then show ?thesis using owner e by (simp add: timer_rank_def)
    next
      case (Worker t)
      then obtain p where "tw_calls s (Worker t) = Some p" using T_advance step by (auto split: option.splits)
      then show ?thesis using timer_advance_rank [OF parts(1)] T_advance Worker step by simp
    qed
  next
    case (T_throws c)
    then show ?thesis using no_throw_beside [OF stopping] beside step by simp
  next
    case (T_thread t)
    then show ?thesis using timer_thread_step_rank [OF parts(1)] step by simp
  next
    case (T_body t threw)
    then show ?thesis using timer_body_rank [OF stop] point step by simp
  qed
qed


fun timer_events :: "timer_event list \<Rightarrow> timer_world \<Rightarrow> timer_world option" where
  "timer_events [] s = Some s"
| "timer_events (e # es) s = (case timer_step e s of None \<Rightarrow> None | Some s' \<Rightarrow> timer_events es s')"

lemma requested_run:
  assumes "stop_requested_by n s" and "list_all (timer_beside n) es" and "timer_events es s = Some s'"
  shows "stop_requested_by n s' \<and> length es + timer_rank n s' \<le> timer_rank n s + 4 * length (filter is_timer_call es)"
  using assms
proof (induction es arbitrary: s)
  case Nil
  then show ?case by simp
next
  case (Cons e es)
  then obtain u where u: "timer_step e s = Some u" "timer_events es u = Some s'"
    by (auto simp del: timer_step.simps split: option.splits)
  have beside: "timer_beside n e" using Cons.prems(2) by simp
  note next_step = requested_step [OF Cons.prems(1) beside u(1)]
  show ?case using Cons.IH [OF next_step(1) _ u(2)] Cons.prems(2) next_step(2) by (auto split: if_splits)
qed

lemma requested_rank_bound:
  assumes "stop_requested_by n s"
  shows "timer_rank n s \<le> 13"
proof -
  have inv: "timer_inv s" and stops: "stopping_by n (tw_worker s)"
    using assms timer_stopping_parts by (auto simp: stop_requested_by_def)
  have zero: "timer_thread_rank s t = 0" if "\<not> live (tw_worker s) t" "t < length (ww_threads (tw_worker s))" for t
    using that worker_call_body(1) [OF inv, of t]
    by (cases "tw_calls s (Worker t)") (auto simp: timer_thread_rank_def live_def)
  have "body_rank b \<le> 8" for b by (cases b) auto
  then have phase: "timer_phase_rank ph b \<le> 8" for ph b by (cases ph) (auto intro: le_trans)
  have one: "timer_thread_rank s t \<le> 11" for t
    using timer_call_rank_bound [of "tw_calls s (Worker t)" "ww_calls (tw_worker s) (Worker t)"]
      phase [of "ww_threads (tw_worker s) ! t" "tw_bodies s t"]
    unfolding timer_thread_rank_def by linarith
  have "(\<Sum>t<length (ww_threads (tw_worker s)). timer_thread_rank s t) \<le> 11"
  proof (cases "\<exists>t. live (tw_worker s) t")
    case True
    then obtain t where t: "live (tw_worker s) t" by blast
    then have k: "t < length (ww_threads (tw_worker s))" by (simp add: live_def)
    have "timer_thread_rank s u = 0" if "u \<in> {..<length (ww_threads (tw_worker s))} - {t}" for u
      using that zero [of u] timer_parts(8) [OF inv t] timer_parts(8) [OF inv, of u] by auto
    then have "(\<Sum>u<length (ww_threads (tw_worker s)). timer_thread_rank s u) = timer_thread_rank s t"
      using k by (subst sum.remove [of _ t]) simp_all
    then show ?thesis using one [of t] by simp
  next
    case False
    then have "(\<Sum>t<length (ww_threads (tw_worker s)). timer_thread_rank s t) = 0" using zero by simp
    then show ?thesis by simp
  qed
  moreover have "stop_call_rank (ww_calls (tw_worker s) (Owner n)) \<le> 2"
    using assms stops by (auto simp: stop_requested_by_def stopping_by_def split: option.splits)
  ultimately show ?thesis unfolding timer_rank_def by linarith
qed

text \<open>
  C35. Stopping a timer.  An owner calls stop while no other owner is in a call of the timer, and
  requests the stop.  Then, whatever the worker, its callback and the destructors of its captures do
  beside it -- their own calls of start, stop, setInterval, interval and of a move included --, at most
  thirteen steps are possible besides four for every call they make, so that the rounds of the timer
  are over; until the stop returns a step other than a new call is possible, unless a destructor that
  runs with the mutex held calls an operation that locks it; and when the stop has returned the worker
  has ended and its callback is released, and the timer still reports that it runs only if the
  construction of a thread has thrown before.
\<close>

theorem timer_stop_returns:
  assumes "timer_reachable s" and "\<forall>m. tw_calls s (Owner m) = None"
    and "timer_events [T_call (Owner n) Timer_stop, T_advance (Owner n)] s = Some s0"
    and "list_all (timer_beside n) es" and "timer_events es s0 = Some s'"
  shows "length es \<le> 13 + 4 * length (filter is_timer_call es)
    \<and> (if tw_calls s' (Owner n) = None
       then (\<forall>t. \<not> live (tw_worker s') t) \<and> tw_callback s' = None \<and> (timer_isRunning s' \<longleftrightarrow> ww_failed (tw_worker s'))
       else (\<exists>e u. timer_beside n e \<and> \<not> is_timer_call e \<and> timer_step e s' = Some u) \<or> (\<exists>t. self_locks s' t))"
proof -
  have inv: "timer_inv s" using timer_reachable_inv [OF assms(1)] .
  obtain s1 where s1: "timer_step (T_call (Owner n) Timer_stop) s = Some s1" "timer_step (T_advance (Owner n)) s1 = Some s0"
    using assms(3) by (auto simp del: timer_step.simps split: option.splits)
  have inv1: "timer_inv s1" using timer_inv_step [OF inv s1(1)] .
  have idle: "ww_calls (tw_worker s) (Owner m) = None" for m
    using timer_parts(4) [OF inv, of "Owner m"] assms(2) by simp
  have calls1: "tw_calls s1 = (tw_calls s)(Owner n := Some T_stopping)"
    and worker1: "tw_worker s1 = at_point (Owner n) (Some Stop_request) (tw_worker s)"
    using s1(1) by (auto simp: begin_stop_def split: if_splits)
  have "stopping_by n (tw_worker s1)"
    using timer_parts(1) [OF inv1] idle by (simp add: stopping_by_def worker1)
  then have stop1: "timer_stopping n s1" using inv1 assms(2) by (simp add: timer_stopping_def calls1)
  have "ww_calls (tw_worker s0) (Owner n) = Some Stop_take"
    using s1(2) by (simp add: calls1 inner_step_def worker1 at_point_def) (auto simp: at_point_def)
  then have "stop_requested_by n s0"
    using timer_stopping_step [OF stop1 _ s1(2)] by (simp add: stop_requested_by_def)
  from requested_run [OF this assms(4,5)] requested_rank_bound [OF this]
  have stop: "timer_stopping n s'" and len: "length es \<le> 13 + 4 * length (filter is_timer_call es)"
    by (auto simp: stop_requested_by_def)
  note parts = timer_stopping_parts [OF stop]
  show ?thesis
  proof (cases "tw_calls s' (Owner n) = None")
    case True
    then have dead: "\<not> live (tw_worker s') t" for t using parts(2,5) by (simp add: stopping_by_def)
    then have "tw_callback s' = None" using timer_parts(10) [OF parts(1)] by (cases "tw_callback s'") auto
    moreover have "timer_isRunning s' \<longleftrightarrow> ww_failed (tw_worker s')"
      using inv_parts(7) [OF timer_parts(1) [OF parts(1)]] dead by (auto simp: timer_isRunning_def controller_isRunning_def)
    ultimately show ?thesis using True len dead by simp
  next
    case False
    then show ?thesis using len timer_stopping_progress [OF stop False] by (simp only: if_False simp_thms)
  qed
qed


section \<open>Witnesses\<close>

text \<open>A timer is started with callback 7, which is called; it calls stop itself, and its owner stops.\<close>

lemma timer_events_reachable:
  "timer_events es s = Some s' \<Longrightarrow> timer_reachable s \<Longrightarrow> timer_reachable s'"
  by (induction es arbitrary: s) (auto simp del: timer_step.simps split: option.splits intro: timer_next)

lemmas timer_model_defs = worker_model_defs timer_world_new_def timer_at_def timer_may_call_def in_callback_def
  in_release_def begin_stop_def inner_step_def start_step_def timer_body_step_def timer_body_at_def controller_isRunning_def
  controller_isStopRequested_def Let_def

definition sample_timer_starting :: "timer_event list" where
  "sample_timer_starting = [T_call (Owner 0) (Timer_start 5 (Some 7)), T_advance (Owner 0), T_advance (Owner 0),
     T_advance (Owner 0), T_advance (Owner 0), T_advance (Owner 0), T_thread 0, T_body 0 False, T_body 0 False, T_body 0 False]"

definition sample_timer_calling :: timer_world where
  "sample_timer_calling = \<lparr>tw_worker = sample_worker_started, tw_mutex = None, tw_interval = 5, tw_callback = Some 7,
     tw_calls = (\<lambda>c. None), tw_bodies = (\<lambda>t. B_interval)(0 := B_calling 7), tw_starts = [7]\<rparr>"

lemma sample_timer_started: "timer_events sample_timer_starting timer_world_new = Some sample_timer_calling"
  by (simp add: sample_timer_starting_def sample_timer_calling_def sample_started_eq timer_model_defs)

lemma sample_timer_reachable: "timer_reachable sample_timer_calling"
  by (rule timer_events_reachable [OF sample_timer_started timer_begin])

lemma timer_callbacks_safe_witness:
  "in_callback sample_timer_calling 0 \<and> tw_bodies sample_timer_calling 0 = B_calling 7
    \<and> Suc 0 = length (tw_starts sample_timer_calling) \<and> 7 = last (tw_starts sample_timer_calling)"
proof -
  have "in_callback sample_timer_calling 0 \<and> tw_bodies sample_timer_calling 0 = B_calling 7"
    by (simp add: sample_timer_calling_def sample_started_eq in_callback_def)
  then show ?thesis using timer_callbacks_safe [OF sample_timer_reachable] by blast
qed

definition sample_timer_stop_events :: "timer_event list" where
  "sample_timer_stop_events = [T_call (Worker 0) Timer_stop, T_advance (Owner 0), T_advance (Worker 0), T_advance (Worker 0),
     T_body 0 False, T_body 0 False, T_body 0 False, T_body 0 False, T_body 0 False, T_thread 0, T_thread 0, T_advance (Owner 0)]"

definition sample_timer_requested :: timer_world where
  "sample_timer_requested = the (timer_events [T_call (Owner 0) Timer_stop, T_advance (Owner 0)] sample_timer_calling)"

definition sample_timer_stopped :: timer_world where
  "sample_timer_stopped = the (timer_events sample_timer_stop_events sample_timer_requested)"

lemma sample_timer_requests:
  "timer_events [T_call (Owner 0) Timer_stop, T_advance (Owner 0)] sample_timer_calling = Some sample_timer_requested"
  by (simp add: sample_timer_requested_def sample_timer_calling_def sample_started_eq timer_model_defs)

lemma sample_timer_stops:
  "timer_events sample_timer_stop_events sample_timer_requested = Some sample_timer_stopped
    \<and> tw_calls sample_timer_stopped (Owner 0) = None"
  by (simp add: sample_timer_stopped_def sample_timer_requested_def sample_timer_stop_events_def sample_timer_calling_def
      sample_started_eq timer_model_defs)

lemma timer_stop_returns_witness:
  "tw_calls sample_timer_stopped (Owner 0) = None \<and> length sample_timer_stop_events = 12
    \<and> (\<forall>t. \<not> live (tw_worker sample_timer_stopped) t) \<and> tw_callback sample_timer_stopped = None
    \<and> (timer_isRunning sample_timer_stopped \<longleftrightarrow> ww_failed (tw_worker sample_timer_stopped))"
proof -
  have idle: "\<forall>m. tw_calls sample_timer_calling (Owner m) = None" by (simp add: sample_timer_calling_def)
  have beside: "list_all (timer_beside 0) sample_timer_stop_events" by (simp add: sample_timer_stop_events_def)
  note run = sample_timer_stops [THEN conjunct1] and over = sample_timer_stops [THEN conjunct2]
  show ?thesis
    using timer_stop_returns [OF sample_timer_reachable idle sample_timer_requests beside run]
    by (simp add: over sample_timer_stop_events_def)
qed

text \<open>
  Why no other owner may be in a call: of two owners that stop at once only one joins; the other returns
  while the callback still runs.
\<close>

lemma timer_second_stop:
  "\<exists>s'. timer_events
      [T_call (Owner 0) Timer_stop, T_advance (Owner 0), T_advance (Owner 0),
       T_call (Owner 1) Timer_stop, T_advance (Owner 1), T_advance (Owner 1)] sample_timer_calling = Some s'
    \<and> tw_calls s' (Owner 1) = None \<and> in_callback s' 0 \<and> tw_bodies s' 0 = B_calling 7"
  by (simp add: sample_timer_calling_def sample_started_eq timer_model_defs)

text \<open>The exception of the first theorem: the callback throws, the worker releases it, and a destructor of
  its captures asks for the interval of the timer whose mutex its own thread holds.\<close>

lemma capture_destructor_deadlock:
  "\<exists>s'. timer_events [T_body 0 True, T_body 0 False, T_call (Worker 0) Timer_interval] sample_timer_calling = Some s'
    \<and> self_locks s' 0 \<and> timer_step (T_advance (Worker 0)) s' = None \<and> timer_step (T_body 0 False) s' = None
    \<and> timer_step (T_thread 0) s' = None"
  by (simp add: sample_timer_calling_def sample_started_eq timer_model_defs self_locks_def)

end
