(* ===== verification/Spec2Isabelle.thy ===== *)
theory Spec2Isabelle
  imports GefBinCorrect GefCsvCorrect HttpClient CameraAverage CameraAccumulator CameraImagesCorrect WebCameraCorrect ProjectionCorrect DataCastCorrect AsyncLogCorrect SyncLogCorrect SocketsCorrect SerialCorrect LicenseCorrect V4l2Correct KeyboardCorrect KeyboardWindows TimerCorrect
begin

text \<open>
  A model of the WapitiStew Engine and the theorems that make it correct.  All paths below are
  relative to \<open>src/\<close>.

  \<^bold>\<open>The program.\<close>  The engine is a C++ library of subsystems over a common core: WSE (results, images,
  logging, licence), GEF (setting files), XPT (transport: HTTP, TCP, UDP, serial), TMR (cameras), OUI
  (rendering and projection) and IUI (keyboards).  A subsystem has value types with validators and errors, a facade that
  checks requests and keeps a state, and platform backends under \<open>platform/\<close> that make the system
  calls.  Facades reach backends through internal interfaces (\<open>ICameraBackend\<close>, \<open>RendererBackend\<close>,
  \<open>IWebCameraSession\<close>, the log sinks); every fallible operation answers the engine's \<open>Result\<close>, and
  transport operations take a context with a deadline and a cancellation token.

  \<^bold>\<open>How the model corresponds to the code.\<close>  Definitions keep the names of the source, with the prefix
  of the class where two classes share one.  A class or struct is a record of its members, an enumeration
  a datatype (an integer or a word where the code casts it), an operation a function from its arguments
  and the state to its answer and the new state.  A w-bit unsigned integer is a word; signed arithmetic is
  carried out on \<open>int\<close> with the range tested, so that an overflow, which is undefined in C++, is a value
  of its own, as an access outside a buffer is.  A \<open>Result\<close> is \<open>Success\<close> or \<open>Failure\<close>; an exception
  that leaves an operation is a value too (\<open>Inl\<close> or \<open>Threw\<close>); \<open>Pending\<close> is an operation that has not
  returned, \<open>Undefined\<close> one that reached undefined behaviour.  What is not the engine's code is an
  argument: libcurl and its clock (\<open>attempt_env\<close>, \<open>wait_obs\<close>), the system calls of sockets
  (\<open>socket_api\<close>), serial lines (\<open>serial_api\<close>, \<open>windows_serial\<close>), V4L2 (\<open>v4l2_api\<close>) and keyboards
  (\<open>keyboard_ops\<close>, \<open>keyboard_env\<close>, \<open>windows_keys\<close>), the file system (\<open>GefFile\<close>), the licence's machine, the log devices and sinks (\<open>log_env\<close>), the camera and renderer backends and
  whether an allocation succeeds.  Theorems quantify over these arguments; where they need documented
  behaviour of one (a read delivers at most what was asked for, the steady clock advances between two
  readings) it is a named hypothesis, and the witness of the theorem shows it for a concrete system.

  \<^bold>\<open>Shared theories.\<close>
    \<^item> \<open>Prelude\<close>: machine types, checked signed arithmetic, outcomes, bytes, maps and lists.
    \<^item> \<open>WseResult\<close>: \<open>api/wse/utility/wse_Result.h\<close>; the locale \<open>error_value\<close> is what the template asks
      of an error type, and every error class interprets it.
    \<^item> \<open>MemoryRows\<close>: the strided row copies of camera frames and image buffers.
    \<^item> \<open>DoubleRounding\<close>: rounding to nearest of C++ floating-point operations.

  \<^bold>\<open>GEF\<close> (\<open>core/gef\<close>).
    \<^item> \<open>GefFile\<close>: errors, read budgets and the staged file replacement (\<open>FileOperations.h\<close>), shown to be
      all or nothing at the destination.
    \<^item> \<open>GefBin\<close>, \<open>GefBinCorrect\<close> (\<open>bin/binController.cpp\<close>): the seven-column block store refines the list
      of its blocks; the reader accepts exactly the encodings within its budgets and leaves the controller
      alone otherwise; writing and reading are inverse between hosts of either byte order.
    \<^item> \<open>GefCsv\<close>, \<open>GefCsvCorrect\<close> (\<open>csv/csvController.cpp\<close>): a read appends the rows of a reference parser
      exactly when the stream is sound and the budgets suffice, and changes nothing otherwise; what is written is read back; the data map is exact.

  \<^bold>\<open>XPT\<close> (\<open>core/xpt\<close>, \<open>platform/xpt\<close>).
    \<^item> \<open>XptError\<close>, \<open>XptOperation\<close>, \<open>RetryPolicy\<close>: transport errors and their adapter, the shared
      cancellation flag in an explicit store, contexts, and the retry decision with its doubling loop
      (interface \<open>retry_decider\<close>, interpreted by \<open>evaluate\<close> and used by the HTTP retry loop).
    \<^item> \<open>HttpValues\<close>, \<open>HttpClient\<close> (\<open>platform/xpt/http/HttpClient.cpp\<close>): validation, the two libcurl
      callbacks, one attempt on the multi interface, the wait before a retry and the retry loop.  The
      lemmas bound bodies and attempts, show what a success carries, and show that a request returns
      within the observations of its environment.
    \<^item> \<open>Sockets\<close>, \<open>TcpClient\<close>, \<open>UdpClient\<close> (\<open>platform/xpt/network\<close>): every operation of the two clients
      over the socket calls.  \<open>SocketLedger\<close> keeps a ledger of handles and transfers beside the system and
      has the weakest-precondition rules; \<open>SocketReturns\<close> the termination argument; \<open>TcpCorrect\<close> and
      \<open>UdpCorrect\<close> the rule of each operation; \<open>SocketsCorrect\<close> the properties.
    \<^item> \<open>SerialPosix\<close>, \<open>SerialWindows\<close> (\<open>platform/xpt/serial/SerialPort.cpp\<close>) with \<open>SerialPosixCorrect\<close>,
      \<open>SerialWindowsLedger\<close>, \<open>SerialWindowsCorrect\<close>, \<open>SerialWindowsPort\<close> and \<open>SerialCorrect\<close>: both
      branches of the port, the overlapped reads that outlive their call included, and the one receive that is
      undefined, after a failed reset of an event.

  \<^bold>\<open>TMR\<close> (\<open>core/tmr\<close>, \<open>platform/tmr\<close>).
    \<^item> \<open>CameraTypes\<close> (\<open>camera/CameraTypes.cpp\<close>): errors, values, validity and the size of a frame, equal to
      a layout over the natural numbers without wrap-around.
    \<^item> \<open>CameraSession\<close>, \<open>CameraSessionSteps\<close>, \<open>CameraSessionCorrect\<close> (\<open>camera/Camera.cpp\<close>): the session,
      its callback worker as a transition system interleaved with the owner's operations, the invariant
      of the reachable states, the rank by which a stopped worker ends, and what callbacks may do.
    \<^item> \<open>WebCamera\<close>, \<open>WebCameraCorrect\<close> (\<open>device/WebCamera.cpp\<close>): the facade over the locale
      \<open>web_session\<close>, which the adapter to the camera session interprets.
    \<^item> \<open>V4l2Device\<close>, \<open>V4l2Camera\<close> (\<open>platform/tmr/linux/camera/V4L2CameraBackend.cpp\<close>): the Linux backend
      behind \<open>ICameraBackend\<close> over the kernel's calls.  \<open>V4l2Ledger\<close> keeps the descriptors, mappings and
      queued buffers beside the kernel, \<open>V4l2Steps\<close> the ownership invariant with a rule per operation,
      \<open>V4l2Correct\<close> the properties, \<open>V4l2Sample\<close> the device of the witnesses.
    \<^item> \<open>ImageTransform\<close>, \<open>CameraFrameOps\<close>, \<open>CameraFrameCorrect\<close>, \<open>CameraAccumulator\<close>, \<open>CameraAverage\<close>,
      \<open>CameraImages\<close>, \<open>CameraImagesCorrect\<close> (\<open>camera/CameraFrameOps.cpp\<close>, \<open>CameraYuvConversion.h\<close>,
      \<open>api/wse/data/wse_ImageTransform.h\<close>): orientation, packing, averaging and the conversions between
      frames and images, with every access inside its buffer.

  \<^bold>\<open>OUI\<close> (\<open>core/oui/renderer\<close>).
    \<^item> \<open>RendererTypes\<close>, \<open>RendererFrameOps\<close>: descriptions, handles, validators, frames as images.
    \<^item> \<open>Renderer\<close>, \<open>RendererCorrect\<close>: the facade over any backend and factory passes on exactly the calls
      whose arguments keep a contract, and the backend's answers with their values.
    \<^item> \<open>Projection\<close>, \<open>ProjectionCorrect\<close>: the projection pass, whose temporaries are destroyed exactly
      once on every way out, and the identities of renderers.

  \<^bold>\<open>IUI\<close> (\<open>core/iui\<close>, \<open>platform/iui\<close>).
    \<^item> \<open>KeyboardDevices\<close>, \<open>Keyboard\<close> (\<open>platform/iui/linux/device\<close>): the evdev adapter with the ledger of
      its descriptors, the translation of pressed keys, the object and the loop of its monitor.
      \<open>KeyboardCharacters\<close> compares the translation with a layout; \<open>KeyboardCorrect\<close> shows the ownership
      of descriptors, that each round publishes what was read in it, and what a callback sees.
    \<^item> \<open>KeyboardWindows\<close> (\<open>platform/iui/win/device/Keyboard.cpp\<close>): the poll of the keys.

  \<^bold>\<open>WSE\<close> (\<open>core/wse\<close>, \<open>api/wse\<close>).
    \<^item> \<open>ImageInterleaved\<close>, \<open>DataCast\<close>, \<open>DataCastCorrect\<close>: interleaved buffers and the conversions of pixel
      formats, whose \<open>double\<close> arithmetic is shown exact for depths of at most 32 bits, and which samples
      beyond the depth make undefined.
    \<^item> \<open>LogText\<close>, \<open>LogTextCorrect\<close>, \<open>AsyncLog\<close>, \<open>AsyncLogSteps\<close>, \<open>AsyncLogCorrect\<close>: the bounded builder
      and layout of a record, and the asynchronous logger as a transition system of producers, the writer
      and the control operations, with its invariant, its counters and the ranks by which control returns.
    \<^item> \<open>SyncLog\<close>, \<open>SyncLogCorrect\<close> (\<open>utility/wse_Log.cpp\<close>): the synchronous logger, its registry of
      profiles and sinks, the stream object and the dispatch of a record, with the requests that sinks
      make from within; what is delivered to whom and what text is written.
    \<^item> \<open>WorkerController\<close>, \<open>WorkerControllerCorrect\<close> (\<open>utility/wse_WorkerController.cpp\<close>): the owner of a
      worker's thread as a transition system of any number of callers, the invariant of its flags and
      handles, also after the construction of a thread has thrown, and the rank by which a stop returns.
    \<^item> \<open>Timer\<close>, \<open>TimerCorrect\<close> (\<open>utility/wse_Timer.cpp\<close>): the timer over the controller, whose steps it
      takes; its callback, its mutex, the calls the callback and, with the mutex held, the destructors of its
      captures make, and the rank by which a stop returns.
    \<^item> \<open>License\<close>, \<open>LicenseCorrect\<close>: the licence file from writer to loader, and the feature checks.

  \<^bold>\<open>Bounds, fuel and assumptions.\<close>  \<open>size_t\<close> has 64 bits and \<open>int\<close> 32.  Loops over the answers of a
  system take fuel, and a theorem that an operation returns says how much is enough: \<open>2 ^ 63 + 2\<close> rounds
  for sockets and serial lines (the clock advances by a nanosecond at least and stays below \<open>2 ^ 63\<close>), the
  nanoseconds of the time limit for a V4L2 read; a stop of the worker controller takes seven steps and three
  for each call of its worker, one of the timer thirteen and four once it has been requested; the theorems that hold for every amount of fuel need no
  such bound.  The averaging theorem covers 65536 frames, the number at which 32-bit sums of 16-bit samples
  may wrap.  A \<open>float\<close> or \<open>double\<close> is its rational value or not finite; arithmetic on it rounds to
  nearest, ties to even, as IEEE 754 says.  Enumerations of flags and \<open>errno\<close> values are those of the
  generic Linux ABI.  A \<open>std::thread\<close> starts when it is constructed or its constructor throws, and a Windows key keeps its state
  during one poll.  A section under a mutex is one step of a transition system, as is the work between
  two sections; the objects that the code leaves to one thread (sockets, serial ports, backends, the web
  camera, the renderer) are modelled sequentially.  Allocation failures are modelled where an \<open>alloc\<close>
  argument or an allocation call shows them, and not for messages of errors.

  \<^bold>\<open>Not modelled.\<close>  The Direct3D 12 and Vulkan renderers and the displays and windows built on them, the
  Media Foundation and libcamera backends (adapters to those libraries, which appear here
  as the backend arguments), the language bindings and the C interface (marshalling), the
  Windows file output of the synchronous logger, waits, matrices and meshes, demosaicing and the
  floating-point conversions of control values, the big-endian branch of the interleaved copies, builds,
  tests, examples and documentation.
\<close>

end
